(* ===== verification/Prelude.thy ===== *)
theory Prelude
  imports Complex_Main "HOL-Library.List_Lexorder" "HOL-Library.Char_ord"
begin

text \<open>
  The vocabulary the components share: errors as values, database transactions over an
  explicit state, and tables as lists of rows.

  A thrown error is a value of \<open>exn\<close>. Code that runs inside \<open>prisma.$transaction\<close> is a
  function of type \<open>('s, 'a) tx\<close>: it either returns a value and the new state, or an error
  and no state, because the database discards everything the transaction wrote. Code outside
  a transaction is a function of type \<open>('s, 'a) proc\<close>, which returns the state it reached
  in both cases. \<open>transaction\<close> runs the former as a step of the latter.

  A table is the list of its rows in insertion order; \<open>find_row\<close>, \<open>update_many\<close>,
  \<open>update_row\<close>, \<open>create_row\<close> and \<open>create_rows\<close> are the Prisma calls \<open>findUnique\<close>
  or \<open>findFirst\<close>, \<open>updateMany\<close>, \<open>update\<close>, \<open>create\<close> and \<open>createMany\<close>, with the documented
  errors P2002 (unique constraint) and P2025 (record not found).
\<close>

named_theorems tx_simps \<open>equations of transactions and of the error monad\<close>
named_theorems table_simps \<open>equations of the table operations\<close>

section \<open>Errors and results\<close>

type_synonym ident = string
type_synonym time = int

datatype exn =
    ApiError int string       \<comment> \<open>\<open>new ApiError(statusCode, code)\<close>\<close>
  | PlainError string         \<comment> \<open>\<open>new Error(message)\<close>\<close>
  | PrismaError string        \<comment> \<open>a Prisma error with its code\<close>
  | SyntaxError               \<comment> \<open>\<open>JSON.parse\<close> failed\<close>
  | ZodError                  \<comment> \<open>a schema rejected its input\<close>

type_synonym 'a result = "exn + 'a"
type_synonym ('s, 'a) tx = "'s \<Rightarrow> exn + ('a \<times> 's)"
type_synonym ('s, 'a) proc = "'s \<Rightarrow> (exn + 'a) \<times> 's"

definition bindE :: "exn + 'a \<Rightarrow> ('a \<Rightarrow> exn + 'b) \<Rightarrow> exn + 'b" where
  "bindE m f = (case m of Inl e \<Rightarrow> Inl e | Inr x \<Rightarrow> f x)"

lemma bindE_Inl [simp, tx_simps]: "bindE (Inl e) f = Inl e"
  by (simp add: bindE_def)

lemma bindE_Inr [simp, tx_simps]: "bindE (Inr x) f = f x"
  by (simp add: bindE_def)

lemma bindE_eq_Inr_iff [tx_simps]: "bindE m f = Inr y \<longleftrightarrow> (\<exists>x. m = Inr x \<and> f x = Inr y)"
  by (cases m) auto

lemma bindE_eq_Inl_iff: "bindE m f = Inl e \<longleftrightarrow> m = Inl e \<or> (\<exists>x. m = Inr x \<and> f x = Inl e)"
  by (cases m) auto

lemma bindE_cong [fundef_cong]:
  "m = m' \<Longrightarrow> (\<And>x. m' = Inr x \<Longrightarrow> f x = g x) \<Longrightarrow> bindE m f = bindE m' g"
  by (cases m') auto

definition transaction :: "('s, 'a) tx \<Rightarrow> ('s, 'a) proc" where
  "transaction body s = (case body s of Inl e \<Rightarrow> (Inl e, s) | Inr (x, s') \<Rightarrow> (Inr x, s'))"

lemma transaction_Inl [tx_simps]: "body s = Inl e \<Longrightarrow> transaction body s = (Inl e, s)"
  by (simp add: transaction_def)

lemma transaction_Inr [tx_simps]: "body s = Inr (x, s') \<Longrightarrow> transaction body s = (Inr x, s')"
  by (simp add: transaction_def)

lemma transaction_eq_Inr_iff:
  "transaction body s = (Inr x, s') \<longleftrightarrow> body s = Inr (x, s')"
  by (auto simp: transaction_def split: sum.splits)

lemma transaction_eq_Inl_iff:
  "transaction body s = (Inl e, s') \<longleftrightarrow> body s = Inl e \<and> s' = s"
  by (auto simp: transaction_def split: sum.splits)

text \<open>A state that satisfies an invariant before a transaction satisfies it afterwards, when
  every commit keeps it: a rollback changes nothing.\<close>

lemma transaction_preserves:
  assumes "P s" and "\<And>x s'. body s = Inr (x, s') \<Longrightarrow> P s'"
  shows "P (snd (transaction body s))"
  using assms by (auto simp: transaction_def split: sum.splits)

text \<open>Running one procedure after another: an error ends the call in the state it reached.\<close>

definition then_proc :: "('s, 'a) proc \<Rightarrow> ('a \<Rightarrow> ('s, 'b) proc) \<Rightarrow> ('s, 'b) proc" where
  "then_proc m f s = (case m s of (Inl e, s') \<Rightarrow> (Inl e, s') | (Inr x, s') \<Rightarrow> f x s')"

section \<open>Tables\<close>

definition find_row :: "('r \<Rightarrow> bool) \<Rightarrow> 'r list \<Rightarrow> 'r option" where
  "find_row p rows = List.find p rows"

definition update_many :: "('r \<Rightarrow> bool) \<Rightarrow> ('r \<Rightarrow> 'r) \<Rightarrow> 'r list \<Rightarrow> 'r list \<times> nat" where
  "update_many p f rows = (map (\<lambda>r. if p r then f r else r) rows, length (filter p rows))"

definition update_row :: "('r \<Rightarrow> bool) \<Rightarrow> ('r \<Rightarrow> 'r) \<Rightarrow> 'r list \<Rightarrow> exn + 'r list" where
  "update_row p f rows =
     (if list_ex p rows then Inr (map (\<lambda>r. if p r then f r else r) rows)
      else Inl (PrismaError ''P2025''))"

definition create_row :: "('r \<Rightarrow> 'k) \<Rightarrow> 'r \<Rightarrow> 'r list \<Rightarrow> exn + 'r list" where
  "create_row key r rows =
     (if list_ex (\<lambda>x. key x = key r) rows then Inl (PrismaError ''P2002'') else Inr (rows @ [r]))"

definition create_rows :: "('r \<Rightarrow> 'k) \<Rightarrow> 'r list \<Rightarrow> 'r list \<Rightarrow> exn + 'r list" where
  "create_rows key news rows =
     (if distinct (map key news) \<and> list_all (\<lambda>r. \<not> list_ex (\<lambda>x. key x = key r) rows) news
      then Inr (rows @ news) else Inl (PrismaError ''P2002''))"

lemma find_row_Nil [simp, table_simps]: "find_row p [] = None"
  by (simp add: find_row_def)

lemma find_row_Cons [simp, table_simps]:
  "find_row p (r # rows) = (if p r then Some r else find_row p rows)"
  by (simp add: find_row_def)

lemma find_row_Some: "find_row p rows = Some r \<Longrightarrow> r \<in> set rows \<and> p r"
  by (induction rows) (auto split: if_splits)

lemma find_row_None_iff: "find_row p rows = None \<longleftrightarrow> (\<forall>r \<in> set rows. \<not> p r)"
  by (induction rows) auto

lemma find_row_append:
  "find_row p (xs @ ys) = (case find_row p xs of None \<Rightarrow> find_row p ys | Some r \<Rightarrow> Some r)"
  by (induction xs) auto

lemma find_row_cong: "(\<And>r. r \<in> set rows \<Longrightarrow> p r = q r) \<Longrightarrow> find_row p rows = find_row q rows"
  by (induction rows) auto

lemma find_row_map:
  assumes "\<And>r. r \<in> set rows \<Longrightarrow> p (f r) = p r"
  shows "find_row p (map f rows) = map_option f (find_row p rows)"
  using assms by (induction rows) auto

text \<open>An update whose condition and columns leave the looked-up key alone.\<close>

lemma find_row_update_key:
  assumes "\<And>r. p (f r) = p r"
  shows "find_row p (map (\<lambda>r. if q r then f r else r) rows) =
    map_option (\<lambda>r. if q r then f r else r) (find_row p rows)"
  using assms by (intro find_row_map) auto

lemma update_row_Inr_iff [table_simps]:
  "update_row p f rows = Inr rows' \<longleftrightarrow>
    (\<exists>r \<in> set rows. p r) \<and> rows' = map (\<lambda>r. if p r then f r else r) rows"
  by (auto simp: update_row_def list_ex_iff)

lemma create_row_Inr_iff [table_simps]:
  "create_row key r rows = Inr rows' \<longleftrightarrow> key r \<notin> key ` set rows \<and> rows' = rows @ [r]"
  by (auto simp: create_row_def list_ex_iff image_iff) metis

lemma create_rows_Inr_iff [table_simps]:
  "create_rows key news rows = Inr rows' \<longleftrightarrow>
    distinct (map key news) \<and> key ` set news \<inter> key ` set rows = {} \<and> rows' = rows @ news"
proof -
  have "list_all (\<lambda>r. \<not> list_ex (\<lambda>x. key x = key r) rows) news \<longleftrightarrow>
      key ` set news \<inter> key ` set rows = {}"
    by (fastforce simp: list_all_iff list_ex_iff)
  then show ?thesis by (auto simp: create_rows_def)
qed

lemma create_rows_distinct:
  "create_rows key news rows = Inr rows' \<Longrightarrow> distinct (map key rows) \<Longrightarrow> distinct (map key rows')"
  unfolding create_rows_Inr_iff by (simp add: Int_commute)

lemma create_row_distinct:
  "create_row key r rows = Inr rows' \<Longrightarrow> distinct (map key rows) \<Longrightarrow> distinct (map key rows')"
  unfolding create_row_Inr_iff by simp

lemma distinct_map_update:
  assumes "\<And>r. key (f r) = key r"
  shows "map key (map (\<lambda>r. if p r then f r else r) rows) = map key rows"
  using assms by simp

lemma distinct_map_sorted_wrt: "distinct (map f xs) \<longleftrightarrow> sorted_wrt (\<lambda>x y. f x \<noteq> f y) xs"
  by (induction xs) auto

text \<open>With a unique key, a lookup by that key finds the row that has it.\<close>

lemma find_row_unique:
  assumes "distinct (map key rows)" and "r \<in> set rows"
  shows "find_row (\<lambda>x. key x = key r) rows = Some r"
  using assms by (induction rows) (auto simp: image_iff)

section \<open>Transition systems\<close>

text \<open>The contract every stateful component is proved against: an invariant that holds
  initially and that each step keeps holds in every state reached by steps.\<close>

locale stepper =
  fixes step :: "'s \<Rightarrow> 's \<Rightarrow> bool" and inv :: "'s \<Rightarrow> bool"
  assumes step_inv: "step s t \<Longrightarrow> inv s \<Longrightarrow> inv t"
begin

lemma run_inv: "step\<^sup>*\<^sup>* s t \<Longrightarrow> inv s \<Longrightarrow> inv t"
  by (induction rule: rtranclp_induct) (auto intro: step_inv)

end

text \<open>A quantity no step decreases never goes down along a run.\<close>

locale monotone_stepper =
  fixes step :: "'s \<Rightarrow> 's \<Rightarrow> bool" and le :: "'s \<Rightarrow> 's \<Rightarrow> bool"
  assumes step_le: "step s t \<Longrightarrow> le s t"
    and le_refl: "le s s"
    and le_trans: "le s t \<Longrightarrow> le t u \<Longrightarrow> le s u"
begin

lemma run_le: "step\<^sup>*\<^sup>* s t \<Longrightarrow> le s t"
  by (induction rule: rtranclp_induct) (auto intro: step_le le_refl le_trans)

end

section \<open>Numbers as text\<close>

text \<open>Decimal digits of a natural number, and the text a template literal makes of an
  integer.\<close>

fun show_nat :: "nat \<Rightarrow> string" where
  "show_nat n = (if n < 10 then [char_of (48 + n)] else show_nat (n div 10) @ [char_of (48 + n mod 10)])"

declare show_nat.simps [simp del]

definition show_int :: "int \<Rightarrow> string" where
  "show_int i = (if i < 0 then CHR ''-'' # show_nat (nat (- i)) else show_nat (nat i))"

lemma show_nat_nonempty [simp]: "show_nat n \<noteq> []"
  by (subst show_nat.simps) simp

lemma digit_char_inj: "a < 10 \<Longrightarrow> b < 10 \<Longrightarrow> char_of (48 + a) = (char_of (48 + b :: nat)) \<Longrightarrow> a = b"
  by (drule arg_cong [where f = "of_char :: char \<Rightarrow> nat"]) simp

lemma show_nat_inj: "show_nat m = show_nat n \<Longrightarrow> m = n"
proof (induction m arbitrary: n rule: show_nat.induct)
  case (1 m)
  show ?case
  proof (cases "m < 10")
    case True
    then have m: "show_nat m = [char_of (48 + m)]" by (subst show_nat.simps) simp
    have "n < 10"
    proof (rule ccontr)
      assume "\<not> n < 10"
      then have "show_nat n = show_nat (n div 10) @ [char_of (48 + n mod 10)]"
        by (subst show_nat.simps) simp
      with m "1.prems" show False by simp
    qed
    then have "show_nat n = [char_of (48 + n)]" by (subst show_nat.simps) simp
    with m "1.prems" True \<open>n < 10\<close> show ?thesis using digit_char_inj by simp
  next
    case False
    then have m: "show_nat m = show_nat (m div 10) @ [char_of (48 + m mod 10)]"
      by (subst show_nat.simps) simp
    have "\<not> n < 10"
    proof
      assume "n < 10"
      then have "show_nat n = [char_of (48 + n)]" by (subst show_nat.simps) simp
      with m "1.prems" show False by (metis append_is_Nil_conv append_Cons append_Nil butlast_snoc butlast.simps(2) show_nat_nonempty)
    qed
    then have n: "show_nat n = show_nat (n div 10) @ [char_of (48 + n mod 10)]"
      by (subst show_nat.simps) simp
    from m n "1.prems" have "show_nat (m div 10) = show_nat (n div 10)"
      and d: "char_of (48 + m mod 10) = (char_of (48 + n mod 10) :: char)" by auto
    with "1.IH" False have "m div 10 = n div 10" by simp
    moreover have "m mod 10 = n mod 10" by (rule digit_char_inj [OF _ _ d]) auto
    ultimately show ?thesis by (metis div_mult_mod_eq)
  qed
qed

lemma show_nat_digits: "c \<in> set (show_nat n) \<Longrightarrow> 48 \<le> (of_char c :: nat) \<and> (of_char c :: nat) < 58"
proof (induction n rule: show_nat.induct)
  case (1 n)
  show ?case
  proof (cases "n < 10")
    case True
    with "1.prems" show ?thesis by (subst (asm) show_nat.simps) auto
  next
    case False
    with "1.prems" "1.IH" show ?thesis
      by (subst (asm) show_nat.simps) auto
  qed
qed

lemma show_int_inj: "show_int i = show_int j \<Longrightarrow> i = j"
proof -
  assume eq: "show_int i = show_int j"
  have minus: "CHR ''-'' \<notin> set (show_nat n)" for n
    using show_nat_digits [of "CHR ''-''" n] by auto
  show "i = j"
  proof (cases "i < 0 \<longleftrightarrow> j < 0")
    case True
    with eq show ?thesis by (auto simp: show_int_def dest!: show_nat_inj split: if_splits)
  next
    case False
    with eq minus show ?thesis
      by (auto simp: show_int_def split: if_splits) (metis list.set_intros(1))+
  qed
qed

section \<open>Keys made of parts\<close>

text \<open>A Redis key joins its parts with colons; parts without a colon can be read back.\<close>

definition no_colon :: "string \<Rightarrow> bool" where
  "no_colon s = (CHR '':'' \<notin> set s)"

lemma colon_split:
  "no_colon s \<Longrightarrow> no_colon s' \<Longrightarrow>
    s @ CHR '':'' # r = s' @ CHR '':'' # r' \<longleftrightarrow> s = s' \<and> r = r'"
proof (induction s arbitrary: s')
  case Nil
  then show ?case by (cases s') (auto simp: no_colon_def)
next
  case (Cons c s)
  then show ?case by (cases s') (auto simp: no_colon_def)
qed

lemma no_colon_neq: "no_colon s \<Longrightarrow> s \<noteq> s' @ CHR '':'' # r"
  by (auto simp: no_colon_def)

lemma show_nat_no_colon: "no_colon (show_nat n)"
  using show_nat_digits [of "CHR '':''" n] by (auto simp: no_colon_def)

lemma show_int_no_colon: "no_colon (show_int i)"
  using show_nat_no_colon by (auto simp: no_colon_def show_int_def)

section \<open>Strings and prices\<close>

definition upper_char :: "char \<Rightarrow> char" where
  "upper_char c = (let n = of_char c :: nat in if 97 \<le> n \<and> n \<le> 122 then char_of (n - 32) else c)"

definition toUpperCase :: "string \<Rightarrow> string" where
  "toUpperCase s = map upper_char s"

definition substring :: "nat \<Rightarrow> nat \<Rightarrow> 'a list \<Rightarrow> 'a list" where
  "substring i j xs = take (j - i) (drop i xs)"

text \<open>\<open>Number(x.toFixed(2))\<close> of a nonnegative amount, over exact numbers.\<close>

definition toFixed2 :: "rat \<Rightarrow> rat" where
  "toFixed2 x = of_int \<lfloor>x * 100 + 1 / 2\<rfloor> / 100"

lemma toFixed2_nonneg: "0 \<le> x \<Longrightarrow> 0 \<le> toFixed2 x"
  by (simp add: toFixed2_def)

lemma toFixed2_close: "\<bar>toFixed2 x - x\<bar> \<le> 1 / 200"
proof -
  define n where "n = (of_int \<lfloor>x * 100 + 1 / 2\<rfloor> :: rat)"
  have "n \<le> x * 100 + 1 / 2" "x * 100 + 1 / 2 < n + 1"
    unfolding n_def by linarith+
  then have "- (1 / 200) \<le> n / 100 - x \<and> n / 100 - x \<le> 1 / 200" by simp
  then show ?thesis unfolding toFixed2_def n_def [symmetric] by (intro abs_leI) auto
qed

end
