(* ===== verification/CircuitBreaker.thy ===== *)
theory CircuitBreaker
  imports Prelude
begin

text \<open>
  \<open>packages/resilience/src/circuit-breaker\<close>: the class \<open>CircuitBreaker\<close>, its options, its
  errors, and the \<open>CircuitBreakerRegistry\<close>.

  A breaker is the record \<open>breaker\<close> of the class's private fields. The clock is an argument of
  every operation that reads \<open>Date.now()\<close>. The optional callbacks are observers whose own
  exceptions the class catches, so the model records in \<open>calls\<close> which callbacks ran, in order.
  \<open>execute\<close> awaits the protected function, and other calls run meanwhile: the part before the
  await is \<open>cb_admit\<close>, the part after it is \<open>cb_finish\<close>, and \<open>breaker_step\<close> interleaves
  them freely. \<open>cb_execute\<close> is one call with nothing in between.
\<close>

section \<open>State and options\<close>

datatype cb_state = CLOSED | OPEN | HALF_OPEN

datatype cb_error = CircuitBreakerOpenError | CircuitBreakerHalfOpenError
  | CircuitBreakerTimeoutError | FnError exn

datatype 'a outcome = Returned 'a | Threw exn | TimedOut

datatype cb_call = OnStateChange cb_state cb_state | OnCircuitClosed | OnCircuitOpen
  | OnCircuitHalfOpen | OnCircuitTimeout | OnSuccess | OnError cb_error

record cb_options =
  opt_name :: string
  failureThreshold :: "int option"
  successThreshold :: "int option"
  recoveryTimeout :: "int option"
  halfOpenMaxTrials :: "int option"
  timeoutMs :: "int option"

record breaker =
  options :: cb_options
  state :: cb_state
  failureCount :: int
  successCount :: int
  lastFailureTime :: time
  lastSuccessTime :: time
  lastOpenTime :: time
  lastHalfOpenTime :: time
  lastClosedTime :: time
  activeTrialsCount :: int
  calls :: "cb_call list"

definition DEFAULT_OPTIONS :: cb_options where
  "DEFAULT_OPTIONS = \<lparr>opt_name = ''default-circuit-breaker'', failureThreshold = Some 5,
     successThreshold = Some 3, recoveryTimeout = Some 60000, halfOpenMaxTrials = Some 3,
     timeoutMs = Some 5000\<rparr>"

definition positive_opt :: "int option \<Rightarrow> bool" where
  "positive_opt v = (case v of None \<Rightarrow> True | Some n \<Rightarrow> 0 < n)"

definition CircuitBreakerOptionsSchema :: "cb_options \<Rightarrow> bool" where
  "CircuitBreakerOptionsSchema o' =
     (positive_opt (failureThreshold o') \<and> positive_opt (successThreshold o') \<and>
      positive_opt (recoveryTimeout o') \<and> positive_opt (halfOpenMaxTrials o') \<and>
      positive_opt (timeoutMs o'))"

definition or_else :: "'a option \<Rightarrow> 'a option \<Rightarrow> 'a option" where
  "or_else a b = (case a of None \<Rightarrow> b | Some x \<Rightarrow> Some x)"

definition merge_options :: "cb_options \<Rightarrow> cb_options" where
  "merge_options o' = \<lparr>opt_name = opt_name o',
     failureThreshold = or_else (failureThreshold o') (failureThreshold DEFAULT_OPTIONS),
     successThreshold = or_else (successThreshold o') (successThreshold DEFAULT_OPTIONS),
     recoveryTimeout = or_else (recoveryTimeout o') (recoveryTimeout DEFAULT_OPTIONS),
     halfOpenMaxTrials = or_else (halfOpenMaxTrials o') (halfOpenMaxTrials DEFAULT_OPTIONS),
     timeoutMs = or_else (timeoutMs o') (timeoutMs DEFAULT_OPTIONS)\<rparr>"

definition nullish :: "'a option \<Rightarrow> 'a \<Rightarrow> 'a" where
  "nullish v d = (case v of None \<Rightarrow> d | Some x \<Rightarrow> x)"

definition cb_failure_limit :: "breaker \<Rightarrow> int" where
  "cb_failure_limit b = nullish (failureThreshold (options b)) 5"

definition cb_success_limit :: "breaker \<Rightarrow> int" where
  "cb_success_limit b = nullish (successThreshold (options b)) 3"

definition cb_recovery :: "breaker \<Rightarrow> int" where
  "cb_recovery b = nullish (recoveryTimeout (options b)) 60000"

definition cb_max_trials :: "breaker \<Rightarrow> int" where
  "cb_max_trials b = nullish (halfOpenMaxTrials (options b)) 3"

definition cb_new :: "time \<Rightarrow> cb_options \<Rightarrow> exn + breaker" where
  "cb_new now o' =
     (if \<not> CircuitBreakerOptionsSchema o' then Inl ZodError
      else Inr \<lparr>options = merge_options o', state = CLOSED, failureCount = 0, successCount = 0,
        lastFailureTime = 0, lastSuccessTime = 0, lastOpenTime = 0, lastHalfOpenTime = 0,
        lastClosedTime = now, activeTrialsCount = 0, calls = []\<rparr>)"

section \<open>Operations\<close>

definition cb_log :: "cb_call \<Rightarrow> breaker \<Rightarrow> breaker" where
  "cb_log c b = b\<lparr>calls := calls b @ [c]\<rparr>"

definition transitionTo :: "time \<Rightarrow> cb_state \<Rightarrow> breaker \<Rightarrow> breaker" where
  "transitionTo now new b =
     (if state b = new then b
      else let b1 = cb_log (OnStateChange (state b) new) (b\<lparr>state := new\<rparr>) in
        (case new of
           CLOSED \<Rightarrow> cb_log OnCircuitClosed (b1\<lparr>failureCount := 0, successCount := 0,
             activeTrialsCount := 0, lastClosedTime := now\<rparr>)
         | OPEN \<Rightarrow> cb_log OnCircuitOpen (b1\<lparr>lastOpenTime := now, activeTrialsCount := 0\<rparr>)
         | HALF_OPEN \<Rightarrow> cb_log OnCircuitHalfOpen (b1\<lparr>successCount := 0, failureCount := 0,
             activeTrialsCount := 0, lastHalfOpenTime := now\<rparr>)))"

definition cb_open :: "time \<Rightarrow> breaker \<Rightarrow> breaker" where
  "cb_open now b = transitionTo now OPEN b"

definition cb_halfOpen :: "time \<Rightarrow> breaker \<Rightarrow> breaker" where
  "cb_halfOpen now b = transitionTo now HALF_OPEN b"

definition cb_reset :: "time \<Rightarrow> breaker \<Rightarrow> breaker" where
  "cb_reset now b =
     (let b1 = b\<lparr>state := CLOSED, failureCount := 0, successCount := 0, activeTrialsCount := 0,
          lastFailureTime := 0, lastSuccessTime := 0, lastOpenTime := 0, lastHalfOpenTime := 0,
          lastClosedTime := now\<rparr>;
          b2 = (if state b \<noteq> CLOSED then cb_log (OnStateChange (state b) CLOSED) b1 else b1)
      in cb_log OnCircuitClosed b2)"

definition checkRecovery :: "time \<Rightarrow> breaker \<Rightarrow> breaker" where
  "checkRecovery now b =
     (if state b = OPEN \<and> cb_recovery b \<le> now - lastOpenTime b
      then transitionTo now HALF_OPEN b else b)"

definition handleSuccess :: "time \<Rightarrow> breaker \<Rightarrow> breaker" where
  "handleSuccess now b =
     (let b0 = b\<lparr>lastSuccessTime := now\<rparr>;
          b1 = (if state b0 = HALF_OPEN then
                  (let b' = b0\<lparr>activeTrialsCount := max 0 (activeTrialsCount b0 - 1),
                               successCount := successCount b0 + 1\<rparr>
                   in if cb_success_limit b' \<le> successCount b' then transitionTo now CLOSED b' else b')
                else if state b0 = CLOSED then b0\<lparr>failureCount := 0\<rparr>
                else b0)
      in cb_log OnSuccess b1)"

definition handleFailure :: "time \<Rightarrow> cb_error \<Rightarrow> breaker \<Rightarrow> breaker" where
  "handleFailure now err b =
     (let b0 = b\<lparr>lastFailureTime := now\<rparr>;
          b1 = (if state b0 = HALF_OPEN then
                  transitionTo now OPEN
                    (b0\<lparr>activeTrialsCount := max 0 (activeTrialsCount b0 - 1)\<rparr>)
                else if state b0 = CLOSED then
                  (let b' = b0\<lparr>failureCount := failureCount b0 + 1\<rparr>
                   in if cb_failure_limit b' \<le> failureCount b' then transitionTo now OPEN b' else b')
                else b0)
      in cb_log (OnError err) b1)"

definition cb_admit :: "time \<Rightarrow> breaker \<Rightarrow> (cb_error + unit) \<times> breaker" where
  "cb_admit now b =
     (let b1 = checkRecovery now b in
      if state b1 = OPEN then (Inl CircuitBreakerOpenError, b1)
      else if state b1 = HALF_OPEN then
        (if cb_max_trials b1 \<le> activeTrialsCount b1 then (Inl CircuitBreakerHalfOpenError, b1)
         else (Inr (), b1\<lparr>activeTrialsCount := activeTrialsCount b1 + 1\<rparr>))
      else (Inr (), b1))"

fun cb_finish :: "time \<Rightarrow> 'a outcome \<Rightarrow> breaker \<Rightarrow> (cb_error + 'a) \<times> breaker" where
  "cb_finish now (Returned x) b = (Inr x, handleSuccess now b)"
| "cb_finish now (Threw e) b = (Inl (FnError e), handleFailure now (FnError e) b)"
| "cb_finish now TimedOut b =
     (Inl CircuitBreakerTimeoutError,
      handleFailure now CircuitBreakerTimeoutError (cb_log OnCircuitTimeout b))"

definition cb_execute :: "time \<Rightarrow> time \<Rightarrow> 'a outcome \<Rightarrow> breaker \<Rightarrow> (cb_error + 'a) \<times> breaker" where
  "cb_execute start finish out b =
     (case cb_admit start b of
        (Inl e, b1) \<Rightarrow> (Inl e, b1)
      | (Inr _, b1) \<Rightarrow> cb_finish finish out b1)"

section \<open>Interleaved calls\<close>

inductive breaker_step :: "breaker \<Rightarrow> breaker \<Rightarrow> bool" where
  Admit: "breaker_step b (snd (cb_admit now b))"
| Finish: "breaker_step b (snd (cb_finish now (out :: unit outcome) b))"
| ForceOpen: "breaker_step b (cb_open now b)"
| ForceHalfOpen: "breaker_step b (cb_halfOpen now b)"
| Reset: "breaker_step b (cb_reset now b)"

inductive_cases breaker_stepE: "breaker_step b b'"

section \<open>Registry\<close>

type_synonym cb_registry = "string \<rightharpoonup> breaker"

definition options_given :: "cb_options option \<Rightarrow> bool" where
  "options_given o' = (case o' of None \<Rightarrow> False
     | Some v \<Rightarrow> failureThreshold v \<noteq> None \<or> successThreshold v \<noteq> None \<or>
         recoveryTimeout v \<noteq> None \<or> halfOpenMaxTrials v \<noteq> None \<or> timeoutMs v \<noteq> None)"

definition no_options :: "string \<Rightarrow> cb_options" where
  "no_options name = \<lparr>opt_name = name, failureThreshold = None, successThreshold = None,
     recoveryTimeout = None, halfOpenMaxTrials = None, timeoutMs = None\<rparr>"

definition registry_get ::
  "time \<Rightarrow> string \<Rightarrow> cb_options option \<Rightarrow> cb_registry \<Rightarrow> exn + (breaker \<times> cb_registry)" where
  "registry_get now name o' reg =
     (case reg name of
        None \<Rightarrow>
          bindE (cb_new now ((nullish o' (no_options name))\<lparr>opt_name := name\<rparr>))
            (\<lambda>b. Inr (b, reg(name \<mapsto> b)))
      | Some b \<Rightarrow>
          if options_given o'
          then Inl (PlainError (''CircuitBreaker \"'' @ name @
                 ''\" already exists; options can only be set on first registration''))
          else Inr (b, reg))"

definition registry_clear :: "cb_registry \<Rightarrow> cb_registry" where
  "registry_clear reg = Map.empty"

section \<open>Field-wise behaviour\<close>

lemmas limit_defs = cb_failure_limit_def cb_success_limit_def cb_recovery_def cb_max_trials_def

lemma cb_log_fields [simp]:
  "options (cb_log c b) = options b" "state (cb_log c b) = state b"
  "failureCount (cb_log c b) = failureCount b" "successCount (cb_log c b) = successCount b"
  "activeTrialsCount (cb_log c b) = activeTrialsCount b" "lastOpenTime (cb_log c b) = lastOpenTime b"
  by (simp_all add: cb_log_def)

lemma transitionTo_fields [simp]:
  "options (transitionTo now st b) = options b"
  "state (transitionTo now st b) = st"
  by (auto simp: transitionTo_def Let_def split: cb_state.splits)

lemma transitionTo_counts [simp]:
  "failureCount (transitionTo now st b) =
     (if state b = st \<or> st = OPEN then failureCount b else 0)"
  "successCount (transitionTo now st b) =
     (if state b = st \<or> st = OPEN then successCount b else 0)"
  "activeTrialsCount (transitionTo now st b) = (if state b = st then activeTrialsCount b else 0)"
  "lastOpenTime (transitionTo now st b) =
     (if st = OPEN \<and> state b \<noteq> OPEN then now else lastOpenTime b)"
  by (auto simp: transitionTo_def Let_def split: cb_state.splits)

lemma options_kept [simp]:
  "options (checkRecovery now b) = options b"
  "options (handleSuccess now b) = options b"
  "options (handleFailure now e b) = options b"
  "options (snd (cb_admit now b)) = options b"
  "options (snd (cb_finish now out b)) = options b"
  "options (cb_open now b) = options b"
  "options (cb_halfOpen now b) = options b"
  "options (cb_reset now b) = options b"
proof -
  show c: "options (checkRecovery now b) = options b" for b by (simp add: checkRecovery_def)
  show hs: "options (handleSuccess now b) = options b" for b by (simp add: handleSuccess_def Let_def)
  show hf: "options (handleFailure now e b) = options b" for e b
    by (simp add: handleFailure_def Let_def)
  show "options (snd (cb_admit now b)) = options b"
    using c by (simp add: cb_admit_def Let_def)
  show "options (snd (cb_finish now out b)) = options b" using hs hf by (cases out) auto
  show "options (cb_open now b) = options b" by (simp add: cb_open_def)
  show "options (cb_halfOpen now b) = options b" by (simp add: cb_halfOpen_def)
  show "options (cb_reset now b) = options b" by (simp add: cb_reset_def Let_def)
qed

section \<open>The counters stay within their limits\<close>

definition cb_ok :: "breaker \<Rightarrow> bool" where
  "cb_ok b \<longleftrightarrow>
     0 < cb_failure_limit b \<and> 0 < cb_success_limit b \<and> 0 < cb_max_trials b \<and> 0 < cb_recovery b \<and>
     0 \<le> failureCount b \<and> 0 \<le> successCount b \<and>
     0 \<le> activeTrialsCount b \<and> activeTrialsCount b \<le> cb_max_trials b \<and>
     (state b \<noteq> HALF_OPEN \<longrightarrow> activeTrialsCount b = 0) \<and>
     (state b = CLOSED \<longrightarrow> failureCount b < cb_failure_limit b) \<and>
     (state b = HALF_OPEN \<longrightarrow> failureCount b = 0 \<and> successCount b < cb_success_limit b)"

lemma limits_congr:
  assumes "options b = options b'"
  shows "cb_failure_limit b = cb_failure_limit b'" "cb_success_limit b = cb_success_limit b'"
    "cb_max_trials b = cb_max_trials b'" "cb_recovery b = cb_recovery b'"
  using assms by (simp_all add: limit_defs)

lemma transitionTo_ok: "cb_ok b \<Longrightarrow> cb_ok (transitionTo now st b)"
  using limits_congr [OF transitionTo_fields(1), of now st b]
  by (cases "state b = st"; cases st) (auto simp: cb_ok_def)

lemma cb_log_ok [simp]: "cb_ok (cb_log c b) = cb_ok b"
  by (simp add: cb_ok_def cb_log_def limit_defs)

lemma checkRecovery_ok: "cb_ok b \<Longrightarrow> cb_ok (checkRecovery now b)"
  by (simp add: checkRecovery_def transitionTo_ok)

lemma cb_admit_ok:
  assumes "cb_ok b" shows "cb_ok (snd (cb_admit now b))"
  using checkRecovery_ok [OF assms, of now]
  by (auto simp: cb_admit_def Let_def) (auto simp: cb_ok_def limit_defs)

lemma handleFailure_ok: "cb_ok b \<Longrightarrow> cb_ok (handleFailure now e b)"
  by (cases "state b")
    (auto simp: handleFailure_def Let_def cb_ok_def limit_defs)

lemma handleSuccess_ok: "cb_ok b \<Longrightarrow> cb_ok (handleSuccess now b)"
  by (cases "state b")
    (auto simp: handleSuccess_def Let_def cb_ok_def limit_defs)

lemma cb_finish_ok: "cb_ok b \<Longrightarrow> cb_ok (snd (cb_finish now out b))"
  by (cases out) (auto simp: handleSuccess_ok handleFailure_ok)

lemma cb_reset_ok: "cb_ok b \<Longrightarrow> cb_ok (cb_reset now b)"
  by (simp add: cb_reset_def Let_def cb_ok_def limit_defs)

lemma positive_default: "positive_opt v \<Longrightarrow> 0 < d \<Longrightarrow> 0 < nullish (or_else v (Some d)) (d::int)"
  by (auto simp: positive_opt_def nullish_def or_else_def split: option.splits)

lemma cb_new_ok:
  assumes "cb_new now o' = Inr b" shows "cb_ok b \<and> state b = CLOSED \<and> failureCount b = 0"
proof -
  from assms have valid: "CircuitBreakerOptionsSchema o'" by (auto simp: cb_new_def split: if_splits)
  then have "0 < nullish (or_else (failureThreshold o') (Some 5)) 5"
    "0 < nullish (or_else (successThreshold o') (Some 3)) 3"
    "0 < nullish (or_else (recoveryTimeout o') (Some 60000)) 60000"
    "0 < nullish (or_else (halfOpenMaxTrials o') (Some 3)) 3"
    by (simp_all add: CircuitBreakerOptionsSchema_def positive_default)
  moreover from assms valid have "options b = merge_options o'" "state b = CLOSED"
    "failureCount b = 0" "successCount b = 0" "activeTrialsCount b = 0"
    by (auto simp: cb_new_def)
  ultimately show ?thesis
    by (simp add: cb_ok_def limit_defs merge_options_def DEFAULT_OPTIONS_def)
qed

lemma breaker_step_ok: "breaker_step b b' \<Longrightarrow> cb_ok b \<Longrightarrow> cb_ok b'"
  by (erule breaker_stepE)
    (simp_all add: cb_admit_ok cb_finish_ok cb_open_def cb_halfOpen_def transitionTo_ok cb_reset_ok)

interpretation breaker_sys: stepper breaker_step cb_ok
  by unfold_locales (rule breaker_step_ok)

section \<open>Runs of events\<close>

datatype cb_event = EvAdmit time | EvFinish time "unit outcome" | EvOpen time | EvHalfOpen time
  | EvReset time

fun cb_apply :: "cb_event \<Rightarrow> breaker \<Rightarrow> breaker" where
  "cb_apply (EvAdmit now) b = snd (cb_admit now b)"
| "cb_apply (EvFinish now out) b = snd (cb_finish now out b)"
| "cb_apply (EvOpen now) b = cb_open now b"
| "cb_apply (EvHalfOpen now) b = cb_halfOpen now b"
| "cb_apply (EvReset now) b = cb_reset now b"

definition cb_run :: "cb_event list \<Rightarrow> breaker \<Rightarrow> breaker" where
  "cb_run es b = fold cb_apply es b"

lemma cb_apply_step: "breaker_step b (cb_apply e b)"
  by (cases e) (auto intro: breaker_step.intros)

lemma cb_run_steps: "breaker_step\<^sup>*\<^sup>* b (cb_run es b)"
proof (induction es arbitrary: b)
  case Nil
  then show ?case by (simp add: cb_run_def)
next
  case (Cons e es)
  have "cb_run (e # es) b = cb_run es (cb_apply e b)" by (simp add: cb_run_def)
  with Cons.IH [of "cb_apply e b"] cb_apply_step [of b e] show ?case
    by (simp add: converse_rtranclp_into_rtranclp)
qed

text \<open>From a newly constructed breaker, however calls, their late results and the manual
  switches interleave, the number of trial calls in flight never exceeds \<open>halfOpenMaxTrials\<close>
  and is counted in the half-open state only; a closed breaker has fewer recorded failures
  than \<open>failureThreshold\<close>, and a half-open one fewer successes than \<open>successThreshold\<close>.\<close>

theorem cb_counters_bounded:
  assumes "cb_new t0 o' = Inr b0"
  shows "0 \<le> activeTrialsCount (cb_run es b0)
    \<and> activeTrialsCount (cb_run es b0) \<le> cb_max_trials (cb_run es b0)
    \<and> (state (cb_run es b0) \<noteq> HALF_OPEN \<longrightarrow> activeTrialsCount (cb_run es b0) = 0)
    \<and> (state (cb_run es b0) = CLOSED \<longrightarrow>
        failureCount (cb_run es b0) < cb_failure_limit (cb_run es b0))
    \<and> (state (cb_run es b0) = HALF_OPEN \<longrightarrow>
        successCount (cb_run es b0) < cb_success_limit (cb_run es b0))"
proof -
  from assms have "cb_ok b0" by (simp add: cb_new_ok)
  then have "cb_ok (cb_run es b0)" by (rule breaker_sys.run_inv [OF cb_run_steps])
  then show ?thesis by (simp add: cb_ok_def)
qed

definition demo_options :: cb_options where
  "demo_options = \<lparr>opt_name = ''demo'', failureThreshold = Some 1, successThreshold = Some 1,
     recoveryTimeout = Some 100, halfOpenMaxTrials = Some 1, timeoutMs = None\<rparr>"

definition demo_breaker :: breaker where
  "demo_breaker = \<lparr>options = merge_options demo_options, state = CLOSED, failureCount = 0,
     successCount = 0, lastFailureTime = 0, lastSuccessTime = 0, lastOpenTime = 0,
     lastHalfOpenTime = 0, lastClosedTime = 0, activeTrialsCount = 0, calls = []\<rparr>"

lemma demo_breaker_new: "cb_new 0 demo_options = Inr demo_breaker"
  by (simp add: cb_new_def CircuitBreakerOptionsSchema_def demo_options_def positive_opt_def
      demo_breaker_def)

lemmas cb_eval = cb_run_def cb_admit_def checkRecovery_def transitionTo_def handleSuccess_def
  handleFailure_def cb_log_def Let_def demo_breaker_def merge_options_def demo_options_def
  or_else_def nullish_def limit_defs cb_open_def cb_halfOpen_def

theorem cb_counters_bounded_witness:
  "cb_new 0 demo_options = Inr demo_breaker \<and>
   activeTrialsCount (cb_run [EvAdmit 0, EvFinish 1 TimedOut, EvAdmit 200] demo_breaker) = 1 \<and>
   activeTrialsCount (cb_run [EvAdmit 0, EvFinish 1 TimedOut, EvAdmit 200] demo_breaker) \<le>
     cb_max_trials (cb_run [EvAdmit 0, EvFinish 1 TimedOut, EvAdmit 200] demo_breaker)"
  using cb_counters_bounded [OF demo_breaker_new, of "[EvAdmit 0, EvFinish 1 TimedOut, EvAdmit 200]"]
    demo_breaker_new
  by (simp add: cb_eval)

section \<open>An open circuit rejects until the recovery time\<close>

text \<open>The events that can happen to an open breaker before \<open>deadline\<close> without an operator
  switching it by hand.\<close>

fun cb_quiet :: "time \<Rightarrow> cb_event \<Rightarrow> bool" where
  "cb_quiet deadline (EvAdmit now) = (now < deadline)"
| "cb_quiet deadline (EvFinish now out) = True"
| "cb_quiet deadline (EvOpen now) = True"
| "cb_quiet deadline (EvHalfOpen now) = False"
| "cb_quiet deadline (EvReset now) = False"

lemma open_finish_kept:
  assumes "state b = OPEN"
  shows "state (snd (cb_finish now out b)) = OPEN \<and>
    lastOpenTime (snd (cb_finish now out b)) = lastOpenTime b"
  using assms by (cases out) (auto simp: handleSuccess_def handleFailure_def Let_def)

lemma open_quiet_kept:
  assumes "state b = OPEN" and "cb_quiet (lastOpenTime b + cb_recovery b) e"
  shows "state (cb_apply e b) = OPEN \<and> lastOpenTime (cb_apply e b) = lastOpenTime b
    \<and> options (cb_apply e b) = options b"
  using assms open_finish_kept [OF assms(1)]
  by (cases e) (auto simp: cb_admit_def checkRecovery_def Let_def cb_open_def)

lemma open_run_kept:
  assumes "state b = OPEN" and "\<forall>e \<in> set es. cb_quiet (lastOpenTime b + cb_recovery b) e"
  shows "state (cb_run es b) = OPEN \<and> lastOpenTime (cb_run es b) = lastOpenTime b
    \<and> options (cb_run es b) = options b"
  using assms
proof (induction es arbitrary: b)
  case Nil
  then show ?case by (simp add: cb_run_def)
next
  case (Cons e es)
  let ?b = "cb_apply e b"
  from Cons.prems have b: "state ?b = OPEN \<and> lastOpenTime ?b = lastOpenTime b
      \<and> options ?b = options b"
    by (intro open_quiet_kept) auto
  with Cons.prems have "\<forall>e \<in> set es. cb_quiet (lastOpenTime ?b + cb_recovery ?b) e"
    by (simp add: limit_defs)
  with b Cons.IH [of ?b] show ?case by (simp add: cb_run_def)
qed

lemma cb_admit_open:
  assumes "state b = OPEN" and "0 < cb_max_trials b"
  shows "now < lastOpenTime b + cb_recovery b \<Longrightarrow>
      fst (cb_admit now b) = Inl CircuitBreakerOpenError \<and> state (snd (cb_admit now b)) = OPEN"
    and "lastOpenTime b + cb_recovery b \<le> now \<Longrightarrow>
      fst (cb_admit now b) = Inr () \<and> state (snd (cb_admit now b)) = HALF_OPEN \<and>
      activeTrialsCount (snd (cb_admit now b)) = 1"
proof -
  have "cb_max_trials (transitionTo now HALF_OPEN b) = cb_max_trials b"
    by (rule limits_congr) simp
  with assms show "lastOpenTime b + cb_recovery b \<le> now \<Longrightarrow>
      fst (cb_admit now b) = Inr () \<and> state (snd (cb_admit now b)) = HALF_OPEN \<and>
      activeTrialsCount (snd (cb_admit now b)) = 1"
    by (simp add: cb_admit_def checkRecovery_def)
  show "now < lastOpenTime b + cb_recovery b \<Longrightarrow>
      fst (cb_admit now b) = Inl CircuitBreakerOpenError \<and> state (snd (cb_admit now b)) = OPEN"
    using assms(1) by (simp add: cb_admit_def checkRecovery_def)
qed

text \<open>Once open, the circuit stays open and rejects every call with
  \<open>CircuitBreakerOpenError\<close> until \<open>recoveryTimeout\<close> milliseconds have passed since it opened,
  whatever calls arrive and whatever results of earlier calls come in late; from that moment
  the next call is admitted and the breaker is half-open with that one trial in flight.\<close>

theorem cb_open_rejects_until_recovery:
  assumes "cb_ok b" and "state b = OPEN"
    and "\<forall>e \<in> set es. cb_quiet (lastOpenTime b + cb_recovery b) e"
  shows "(now < lastOpenTime b + cb_recovery b \<longrightarrow>
      fst (cb_admit now (cb_run es b)) = Inl CircuitBreakerOpenError \<and>
      state (snd (cb_admit now (cb_run es b))) = OPEN) \<and>
    (lastOpenTime b + cb_recovery b \<le> now \<longrightarrow>
      fst (cb_admit now (cb_run es b)) = Inr () \<and>
      state (snd (cb_admit now (cb_run es b))) = HALF_OPEN \<and>
      activeTrialsCount (snd (cb_admit now (cb_run es b))) = 1)"
proof -
  let ?b = "cb_run es b"
  have b: "state ?b = OPEN \<and> lastOpenTime ?b = lastOpenTime b \<and> options ?b = options b"
    using assms(2,3) by (rule open_run_kept)
  then have lim: "cb_recovery ?b = cb_recovery b" "cb_max_trials ?b = cb_max_trials b"
    using limits_congr [of ?b b] by auto
  with assms(1) have "0 < cb_max_trials ?b" by (simp add: cb_ok_def)
  with b lim show ?thesis using cb_admit_open [of ?b now] by auto
qed

theorem cb_open_rejects_until_recovery_witness:
  "fst (cb_admit 50 (cb_run [EvAdmit 20, EvFinish 30 (Returned ())]
      (cb_run [EvOpen 10] demo_breaker))) = Inl CircuitBreakerOpenError"
proof -
  have ok: "cb_ok (cb_run [EvOpen 10] demo_breaker)"
    using cb_new_ok [OF demo_breaker_new]
    by (intro breaker_sys.run_inv [OF cb_run_steps]) simp
  have st: "state (cb_run [EvOpen 10] demo_breaker) = OPEN" by (simp add: cb_run_def cb_open_def)
  have tm: "lastOpenTime (cb_run [EvOpen 10] demo_breaker) + cb_recovery (cb_run [EvOpen 10] demo_breaker) = 110"
    by (simp add: cb_eval)
  show ?thesis
    using cb_open_rejects_until_recovery [OF ok st, of "[EvAdmit 20, EvFinish 30 (Returned ())]" 50]
    by (simp add: tm)
qed

section \<open>When the circuit opens and closes\<close>

definition fails :: "'a outcome \<Rightarrow> bool" where
  "fails out = (case out of Returned _ \<Rightarrow> False | _ \<Rightarrow> True)"

lemma cb_finish_closed_fail:
  assumes "state b = CLOSED" and "fails out"
  shows "state (snd (cb_finish now out b)) =
      (if cb_failure_limit b \<le> failureCount b + 1 then OPEN else CLOSED)"
    and "\<not> cb_failure_limit b \<le> failureCount b + 1 \<Longrightarrow>
      failureCount (snd (cb_finish now out b)) = failureCount b + 1"
  using assms by (cases out; auto simp: fails_def handleFailure_def Let_def limit_defs)+

lemma cb_finish_closed_ok:
  assumes "state b = CLOSED" and "\<not> fails out"
  shows "state (snd (cb_finish now out b)) = CLOSED"
    and "failureCount (snd (cb_finish now out b)) = 0"
  using assms by (cases out; auto simp: fails_def handleSuccess_def Let_def)+

text \<open>The results of calls, delivered one after the other.\<close>

definition cb_deliver :: "(time \<times> unit outcome) list \<Rightarrow> breaker \<Rightarrow> breaker" where
  "cb_deliver rs b = fold (\<lambda>(now, out). snd \<circ> cb_finish now out) rs b"

lemma cb_deliver_Cons:
  "cb_deliver ((now, out) # rs) b = cb_deliver rs (snd (cb_finish now out b))"
  by (simp add: cb_deliver_def)

lemma cb_deliver_open: "state b = OPEN \<Longrightarrow> state (cb_deliver rs b) = OPEN"
proof (induction rs arbitrary: b)
  case Nil
  then show ?case by (simp add: cb_deliver_def)
next
  case (Cons r rs)
  obtain now out where "r = (now, out)" by (cases r)
  moreover have "state (cb_deliver rs (snd (cb_finish now out b))) = OPEN"
    using open_finish_kept [OF Cons.prems, of now out] by (intro Cons.IH) simp
  ultimately show ?case by (simp add: cb_deliver_Cons)
qed

definition failure_run :: "nat \<Rightarrow> bool list \<Rightarrow> bool" where
  "failure_run k fs \<longleftrightarrow> (\<exists>pre post. fs = pre @ replicate k True @ post)"

lemma failure_run_Cons:
  "0 < k \<Longrightarrow> failure_run k (f # fs) \<longleftrightarrow>
    (f \<and> (\<exists>post. fs = replicate (k - 1) True @ post)) \<or> failure_run k fs"
proof -
  assume k: "0 < k"
  then obtain m where m: "k = Suc m" by (cases k) auto
  show ?thesis
  proof
    assume "failure_run k (f # fs)"
    then obtain pre post where eq: "f # fs = pre @ replicate k True @ post"
      by (auto simp: failure_run_def)
    then show "(f \<and> (\<exists>post. fs = replicate (k - 1) True @ post)) \<or> failure_run k fs"
      by (cases pre) (auto simp: m failure_run_def)
  next
    assume "(f \<and> (\<exists>post. fs = replicate (k - 1) True @ post)) \<or> failure_run k fs"
    then show "failure_run k (f # fs)"
    proof
      assume "f \<and> (\<exists>post. fs = replicate (k - 1) True @ post)"
      then obtain post where "f # fs = [] @ replicate k True @ post" by (auto simp: m)
      then show ?thesis unfolding failure_run_def by blast
    next
      assume "failure_run k fs"
      then obtain pre post where "f # fs = (f # pre) @ replicate k True @ post"
        by (auto simp: failure_run_def)
      then show ?thesis unfolding failure_run_def by blast
    qed
  qed
qed

lemma cb_deliver_spec:
  assumes "state b = CLOSED" and "failureCount b = int c" and "cb_failure_limit b = int k"
    and "c < k"
  shows "state (cb_deliver rs b) = OPEN \<longleftrightarrow>
    (\<exists>post. map (\<lambda>r. fails (snd r)) rs = replicate (k - c) True @ post) \<or>
    failure_run k (map (\<lambda>r. fails (snd r)) rs)"
  using assms
proof (induction rs arbitrary: b c)
  case Nil
  then show ?case by (auto simp: cb_deliver_def failure_run_def)
next
  case (Cons r rs)
  obtain now out where r: "r = (now, out)" by (cases r)
  let ?b = "snd (cb_finish now out b)"
  let ?fs = "map (\<lambda>r. fails (snd r)) rs"
  have k: "0 < k" using Cons.prems by simp
  have lim: "cb_failure_limit ?b = int k"
    using Cons.prems(3) limits_congr(1) [OF options_kept(5), of now out b] by metis
  show ?case
  proof (cases "fails out")
    case False
    have IH: "state (cb_deliver rs ?b) = OPEN \<longleftrightarrow>
        (\<exists>post. ?fs = replicate (k - 0) True @ post) \<or> failure_run k ?fs"
      using cb_finish_closed_ok [OF Cons.prems(1) False] lim k by (intro Cons.IH) auto
    have "(\<exists>post. ?fs = replicate k True @ post) \<Longrightarrow> failure_run k ?fs"
      unfolding failure_run_def by (metis append_Nil)
    moreover obtain m where "k - c = Suc m" using Cons.prems(4) by (cases "k - c") auto
    ultimately show ?thesis using False IH k by (auto simp: r cb_deliver_Cons failure_run_Cons)
  next
    case fail: True
    show ?thesis
    proof (cases "Suc c = k")
      case True
      then have "state ?b = OPEN"
        using cb_finish_closed_fail(1) [OF Cons.prems(1) fail] Cons.prems by simp
      then have "state (cb_deliver (r # rs) b) = OPEN" by (simp add: r cb_deliver_Cons cb_deliver_open)
      moreover have "map (\<lambda>r. fails (snd r)) (r # rs) = replicate (k - c) True @ ?fs"
        using True fail by (auto simp: r)
      ultimately show ?thesis by blast
    next
      case False
      with Cons.prems have c: "Suc c < k" by simp
      have IH: "state (cb_deliver rs ?b) = OPEN \<longleftrightarrow>
          (\<exists>post. ?fs = replicate (k - Suc c) True @ post) \<or> failure_run k ?fs"
        using cb_finish_closed_fail [OF Cons.prems(1) fail] lim Cons.prems(2,3) c
        by (intro Cons.IH) auto
      have "(\<exists>post. ?fs = replicate (k - 1) True @ post) \<Longrightarrow>
          (\<exists>post. ?fs = replicate (k - Suc c) True @ post)"
      proof -
        assume "\<exists>post. ?fs = replicate (k - 1) True @ post"
        then obtain post where "?fs = replicate (k - 1) True @ post" by blast
        moreover have "k - 1 = (k - Suc c) + c" using c by simp
        ultimately have "?fs = replicate (k - Suc c) True @ (replicate c True @ post)"
          by (simp add: replicate_add)
        then show ?thesis by blast
      qed
      moreover have "k - c = Suc (k - Suc c)" using c by simp
      ultimately show ?thesis using fail IH k by (auto simp: r cb_deliver_Cons failure_run_Cons)
    qed
  qed
qed

text \<open>C38: A closed breaker with no recorded failure opens on a sequence of results exactly when
  the sequence contains \<open>failureThreshold\<close> consecutive failures (errors or timeouts): fewer
  failures in a row, however many in total, never open it.\<close>

theorem cb_opens_iff_consecutive_failures:
  assumes "state b = CLOSED" and "failureCount b = 0" and "cb_failure_limit b = int k" and "0 < k"
  shows "state (cb_deliver rs b) = OPEN \<longleftrightarrow>
    (\<exists>pre post. map (\<lambda>r. fails (snd r)) rs = pre @ replicate k True @ post)"
proof -
  have "state (cb_deliver rs b) = OPEN \<longleftrightarrow>
      (\<exists>post. map (\<lambda>r. fails (snd r)) rs = replicate (k - 0) True @ post) \<or>
      failure_run k (map (\<lambda>r. fails (snd r)) rs)"
    using assms by (intro cb_deliver_spec) auto
  then show ?thesis unfolding failure_run_def by (metis append_Nil diff_zero)
qed

theorem cb_opens_iff_consecutive_failures_witness:
  "state (cb_deliver [(1, Returned ()), (2, TimedOut)] demo_breaker) = OPEN"
proof -
  have "state (cb_deliver [(1, Returned ()), (2, TimedOut)] demo_breaker) = OPEN \<longleftrightarrow>
    (\<exists>pre post. map (\<lambda>r. fails (snd r)) [(1::int, Returned ()), (2, TimedOut)] =
      pre @ replicate 1 True @ post)"
    by (rule cb_opens_iff_consecutive_failures)
      (simp_all add: demo_breaker_def demo_options_def limit_defs merge_options_def or_else_def nullish_def)
  moreover have "map (\<lambda>r. fails (snd r)) [(1::int, Returned ()), (2, TimedOut)] =
      [False] @ replicate 1 True @ []"
    by (simp add: fails_def)
  ultimately show ?thesis by blast
qed

text \<open>A half-open breaker counts results of calls that were admitted before it opened:
  with \<open>halfOpenMaxTrials = 1\<close>, a call admitted while the breaker was closed returns after the
  recovery time and closes the circuit although the only trial is still in flight; and with
  two successes required, the same late result frees a trial slot, so a second trial is
  admitted while the first is in flight.\<close>

theorem cb_late_result_counts_as_trial:
  "state (cb_run [EvAdmit 0, EvAdmit 0, EvFinish 1 TimedOut, EvAdmit 200, EvFinish 201 (Returned ())]
     demo_breaker) = CLOSED \<and>
   fst (cb_admit 202 (cb_run [EvAdmit 0, EvAdmit 0, EvFinish 1 TimedOut, EvAdmit 200]
     (demo_breaker\<lparr>options := merge_options (demo_options\<lparr>successThreshold := Some 2\<rparr>)\<rparr>))) =
     Inl CircuitBreakerHalfOpenError \<and>
   fst (cb_admit 202 (cb_run [EvAdmit 0, EvAdmit 0, EvFinish 1 TimedOut, EvAdmit 200,
     EvFinish 201 (Returned ())]
     (demo_breaker\<lparr>options := merge_options (demo_options\<lparr>successThreshold := Some 2\<rparr>)\<rparr>))) =
     Inr ()"
  by (simp add: cb_eval)

end
