(* ===== verification/Backoff.thy ===== *)
theory Backoff
  imports Prelude
begin

text \<open>
  \<open>packages/resilience/src/retry/exponentialBackoff.ts\<close>: the retry loop.

  The function that is retried is a stream of outcomes, one per call, because each call may
  behave differently. The loop returns the outcome together with the delays it slept, in
  order. It ends because \<open>attempt\<close> grows up to \<open>retries\<close>, so it is a total function.
\<close>

record backoff_options =
  retries :: int
  initialMs :: int
  maxMs :: int

text \<open>The caller may leave out any option, or all of them.\<close>

record BackoffOptions =
  bo_retries :: "int option"
  bo_initialMs :: "int option"
  bo_maxMs :: "int option"

definition no_backoff_options :: BackoffOptions where
  "no_backoff_options = \<lparr>bo_retries = None, bo_initialMs = None, bo_maxMs = None\<rparr>"

definition or_default :: "'a \<Rightarrow> 'a option \<Rightarrow> 'a" where
  "or_default d x = (case x of None \<Rightarrow> d | Some y \<Rightarrow> y)"

definition BackoffOptionsSchema :: "BackoffOptions \<Rightarrow> exn + backoff_options" where
  "BackoffOptionsSchema opts =
     (let v = \<lparr>retries = or_default 5 (bo_retries opts), initialMs = or_default 100 (bo_initialMs opts),
            maxMs = or_default 10000 (bo_maxMs opts)\<rparr>
      in if 0 < retries v \<and> retries v \<le> 50 \<and> 0 < initialMs v \<and> initialMs v \<le> 1000 \<and>
            0 < maxMs v \<and> maxMs v \<le> 30000 \<and> initialMs v < maxMs v
         then Inr v else Inl ZodError)"

definition backoff_delay :: "backoff_options \<Rightarrow> nat \<Rightarrow> int" where
  "backoff_delay v attempt = min (maxMs v) (initialMs v * 2 ^ (attempt - 1))"

function backoff_loop ::
  "backoff_options \<Rightarrow> (nat \<Rightarrow> exn + 'a) \<Rightarrow> nat \<Rightarrow> (exn + 'a) \<times> int list" where
  "backoff_loop v fn attempt =
     (case fn attempt of
        Inr x \<Rightarrow> (Inr x, [])
      | Inl e \<Rightarrow>
          if retries v < int (attempt + 1) then (Inl e, [])
          else (case backoff_loop v fn (attempt + 1) of
                  (r, ds) \<Rightarrow> (r, backoff_delay v (attempt + 1) # ds)))"
  by pat_completeness auto
termination
  by (relation "measure (\<lambda>(v, fn, attempt). nat (retries v) + 1 - attempt)") auto

declare backoff_loop.simps [simp del]

definition withExponentialBackoff ::
  "(nat \<Rightarrow> exn + 'a) \<Rightarrow> BackoffOptions option \<Rightarrow> (exn + 'a) \<times> int list" where
  "withExponentialBackoff fn opts =
     (case BackoffOptionsSchema (or_default no_backoff_options opts) of
        Inl e \<Rightarrow> (Inl e, [])
      | Inr v \<Rightarrow> backoff_loop v fn 0)"

text \<open>The number of calls made is one more than the number of sleeps.\<close>

lemma backoff_loop_spec:
  assumes "int attempt \<le> retries v"
  shows "\<exists>n. attempt \<le> n \<and> int n \<le> retries v \<and>
    backoff_loop v fn attempt = (fn n, map (backoff_delay v \<circ> Suc) [attempt..<n]) \<and>
    (\<forall>i. attempt \<le> i \<and> i < n \<longrightarrow> (\<exists>e. fn i = Inl e)) \<and>
    ((\<exists>x. fn n = Inr x) \<or> int n = retries v)"
  using assms
proof (induction v fn attempt rule: backoff_loop.induct)
  case (1 v fn attempt)
  show ?case
  proof (cases "fn attempt")
    case (Inr x)
    then have "backoff_loop v fn attempt = (fn attempt, [])"
      by (subst backoff_loop.simps) simp
    with Inr "1.prems" show ?thesis by (intro exI [of _ attempt]) auto
  next
    case (Inl e)
    show ?thesis
    proof (cases "retries v < int (attempt + 1)")
      case True
      with Inl have "backoff_loop v fn attempt = (fn attempt, [])"
        by (subst backoff_loop.simps) simp
      with True "1.prems" show ?thesis by (intro exI [of _ attempt]) auto
    next
      case False
      then have "int (attempt + 1) \<le> retries v" by simp
      from "1.IH" [OF Inl False this] obtain n where n: "attempt + 1 \<le> n" "int n \<le> retries v"
        and loop: "backoff_loop v fn (attempt + 1) =
          (fn n, map (backoff_delay v \<circ> Suc) [attempt + 1..<n])"
        and err: "\<forall>i. attempt + 1 \<le> i \<and> i < n \<longrightarrow> (\<exists>e. fn i = Inl e)"
        and last: "(\<exists>x. fn n = Inr x) \<or> int n = retries v" by blast
      have "backoff_loop v fn attempt =
          (fn n, backoff_delay v (attempt + 1) # map (backoff_delay v \<circ> Suc) [attempt + 1..<n])"
        using Inl False loop by (subst backoff_loop.simps) simp
      moreover have "[attempt..<n] = attempt # [attempt + 1..<n]"
        using n by (simp add: upt_conv_Cons)
      moreover have "\<forall>i. attempt \<le> i \<and> i < n \<longrightarrow> (\<exists>e. fn i = Inl e)"
        using err Inl by (metis Suc_eq_plus1 le_antisym not_less_eq_eq)
      ultimately show ?thesis using n last by (intro exI [of _ n]) auto
    qed
  qed
qed

lemma backoff_delay_mono: "0 < initialMs v \<Longrightarrow> m \<le> n \<Longrightarrow> backoff_delay v m \<le> backoff_delay v n"
proof -
  assume "0 < initialMs v" "m \<le> n"
  then have "initialMs v * 2 ^ (m - 1) \<le> initialMs v * 2 ^ (n - 1)"
    by (intro mult_left_mono power_increasing) auto
  then show ?thesis unfolding backoff_delay_def by (rule min.mono [OF order_refl])
qed

text \<open>C40: The retry loop always returns. It calls the function until the first success, at most
  \<open>retries + 1\<close> times, returns that success or else the error of the last call, and sleeps
  between calls for \<open>min(maxMs, initialMs * 2^i)\<close> milliseconds before call \<open>i + 2\<close>, a
  sequence that never decreases and never exceeds \<open>maxMs\<close>.\<close>

theorem backoff_returns_first_success:
  assumes "BackoffOptionsSchema (or_default no_backoff_options opts) = Inr v"
  shows "\<exists>n. int n \<le> retries v \<and>
    withExponentialBackoff fn opts = (fn n, map (\<lambda>i. min (maxMs v) (initialMs v * 2 ^ i)) [0..<n]) \<and>
    (\<forall>i < n. \<exists>e. fn i = Inl e) \<and>
    ((\<exists>x. fn n = Inr x) \<or> int n = retries v) \<and>
    sorted (snd (withExponentialBackoff fn opts)) \<and>
    (\<forall>d \<in> set (snd (withExponentialBackoff fn opts)). 0 < d \<and> d \<le> maxMs v)"
proof -
  from assms have v: "0 < retries v" "0 < initialMs v" "initialMs v < maxMs v"
    by (auto simp: BackoffOptionsSchema_def Let_def split: if_splits)
  then obtain n where n: "int n \<le> retries v"
    and loop: "backoff_loop v fn 0 = (fn n, map (backoff_delay v \<circ> Suc) [0..<n])"
    and rest: "\<forall>i. 0 \<le> i \<and> i < n \<longrightarrow> (\<exists>e. fn i = Inl e)" "(\<exists>x. fn n = Inr x) \<or> int n = retries v"
    using backoff_loop_spec [of 0 v fn] by auto
  let ?ds = "map (\<lambda>i. min (maxMs v) (initialMs v * 2 ^ i)) [0..<n]"
  have "backoff_delay v \<circ> Suc = (\<lambda>i. min (maxMs v) (initialMs v * 2 ^ i))"
    by (simp add: fun_eq_iff backoff_delay_def)
  with assms loop have run: "withExponentialBackoff fn opts = (fn n, ?ds)"
    by (simp add: withExponentialBackoff_def)
  have "sorted ?ds"
    using v backoff_delay_mono [of v "Suc i" "Suc j" for i j]
    by (auto simp: sorted_iff_nth_mono backoff_delay_def)
  moreover have "\<forall>d \<in> set ?ds. 0 < d \<and> d \<le> maxMs v" using v by auto
  moreover have "snd (withExponentialBackoff fn opts) = ?ds" unfolding run by (rule snd_conv)
  ultimately show ?thesis using n rest run by (intro exI [of _ n] conjI) (simp_all only: le0 simp_thms)
qed

theorem backoff_returns_first_success_witness:
  "\<exists>n. int n \<le> 3 \<and> withExponentialBackoff (\<lambda>i. if i < 2 then Inl ZodError else Inr i)
      (Some (no_backoff_options\<lparr>bo_retries := Some 3\<rparr>)) = ((if n < 2 then Inl ZodError else Inr n),
        map (\<lambda>i. min 10000 (100 * 2 ^ i)) [0..<n]) \<and> 2 \<le> n"
proof -
  let ?v = "\<lparr>retries = 3, initialMs = 100, maxMs = 10000\<rparr>" and ?o = "Some (no_backoff_options\<lparr>bo_retries := Some 3\<rparr>)"
  have "BackoffOptionsSchema (or_default no_backoff_options ?o) = Inr ?v"
    by (simp add: BackoffOptionsSchema_def no_backoff_options_def or_default_def)
  from backoff_returns_first_success [OF this, of "\<lambda>i. if i < 2 then Inl ZodError else Inr i"]
  obtain n where n: "int n \<le> 3"
    "withExponentialBackoff (\<lambda>i. if i < 2 then Inl ZodError else Inr i) ?o =
      ((if n < 2 then Inl ZodError else Inr n), map (\<lambda>i. min 10000 (100 * 2 ^ i)) [0..<n])"
    "(\<exists>x. (if n < 2 then Inl ZodError else Inr n) = Inr x) \<or> int n = 3"
    by auto
  from n(3) have "2 \<le> n" by (cases "n < 2") auto
  with n(1,2) show ?thesis by blast
qed

end
