(* ===== verification/TokenBucket.thy ===== *)
theory TokenBucket
  imports Prelude
begin

text \<open>
  \<open>packages/resilience/src/rate-limiter\<close>: the Lua script \<open>increment-token.lua\<close> that runs
  atomically in Redis, and \<open>TokenBucketRateLimiter\<close>, which calls it with \<open>EVALSHA\<close> and
  loads it again when the server has forgotten it.

  Numbers are exact: the script's doubles, and the decimal text it stores them as, are
  rationals here. The Redis clock is an argument; a stored bucket carries the time at which
  its \<open>EXPIRE\<close> makes it vanish.
\<close>

section \<open>The script\<close>

record bucket =
  tokens :: rat
  lastRefill :: time
  expiresAt :: time

type_synonym buckets = "string \<rightharpoonup> bucket"

record rate_limit_result =
  allowed :: bool
  remaining :: int
  resetMs :: int

definition hget :: "time \<Rightarrow> string \<Rightarrow> buckets \<Rightarrow> bucket option" where
  "hget now key st = (case st key of None \<Rightarrow> None
     | Some b \<Rightarrow> if expiresAt b \<le> now then None else Some b)"

definition ttlSec :: "rat \<Rightarrow> rat \<Rightarrow> int" where
  "ttlSec capacity refillPerSec = \<lceil>capacity / refillPerSec\<rceil> + 1"

definition refilled :: "time \<Rightarrow> rat \<Rightarrow> rat \<Rightarrow> bucket option \<Rightarrow> rat" where
  "refilled nowMs capacity refillPerSec ob =
     (let (toks, last) = (case ob of None \<Rightarrow> (capacity, nowMs) | Some b \<Rightarrow> (tokens b, lastRefill b));
          elapsedMs = max 0 (nowMs - last);
          elapsedSec = of_int elapsedMs / 1000
      in min capacity (toks + elapsedSec * refillPerSec))"

definition increment_token ::
  "time \<Rightarrow> string \<Rightarrow> rat \<Rightarrow> rat \<Rightarrow> buckets \<Rightarrow> (int \<times> int \<times> int) \<times> buckets" where
  "increment_token nowMs key capacity refillPerSec st =
     (let toks = refilled nowMs capacity refillPerSec (hget nowMs key st);
          (toks', allow, remain, reset) =
            (if 1 \<le> toks then (toks - 1, 1, \<lfloor>toks - 1\<rfloor>, 0)
             else (toks, 0, \<lfloor>toks\<rfloor>, \<lceil>((1 - toks) / refillPerSec) * 1000\<rceil>))
      in ((allow, remain, reset),
          st(key \<mapsto> \<lparr>tokens = toks', lastRefill = nowMs,
                     expiresAt = nowMs + ttlSec capacity refillPerSec * 1000\<rparr>)))"

section \<open>The client\<close>

text \<open>The server: the buckets and the scripts it has cached, by SHA.\<close>

record limiter_server =
  store :: buckets
  scripts :: "string list"

definition TokenBucketOptionsSchema :: "rat \<Rightarrow> rat \<Rightarrow> bool" where
  "TokenBucketOptionsSchema capacity refillPerSec =
     (of_int \<lfloor>capacity\<rfloor> = capacity \<and> 1 \<le> capacity \<and> 0 < refillPerSec)"

definition parseResult :: "int \<times> int \<times> int \<Rightarrow> rate_limit_result" where
  "parseResult raw = (case raw of (a, r, m) \<Rightarrow> \<lparr>allowed = (a = 1), remaining = r, resetMs = m\<rparr>)"

definition evalsha ::
  "time \<Rightarrow> string \<Rightarrow> string \<Rightarrow> rat \<Rightarrow> rat \<Rightarrow> limiter_server \<Rightarrow>
    (exn + (int \<times> int \<times> int)) \<times> limiter_server" where
  "evalsha now sha key capacity refillPerSec sv =
     (if sha \<in> set (scripts sv) then
        (case increment_token now key capacity refillPerSec (store sv) of
           (raw, st) \<Rightarrow> (Inr raw, sv\<lparr>store := st\<rparr>))
      else (Inl (PlainError ''NOSCRIPT''), sv))"

text \<open>\<open>lua_sha\<close> is the SHA that \<open>SCRIPT LOAD\<close> answers for the script's text.\<close>

definition script_load :: "string \<Rightarrow> limiter_server \<Rightarrow> limiter_server" where
  "script_load lua_sha sv = sv\<lparr>scripts := lua_sha # scripts sv\<rparr>"

definition evalLua ::
  "string \<Rightarrow> time \<Rightarrow> string \<Rightarrow> rat \<Rightarrow> rat \<Rightarrow> string option \<times> limiter_server \<Rightarrow>
    (exn + rate_limit_result) \<times> (string option \<times> limiter_server)" where
  "evalLua lua_sha now key capacity refillPerSec cs =
     (let (scriptSha, sv) = cs;
          load_and_run =
            (\<lambda>sv. let sv1 = script_load lua_sha sv in
               (case evalsha now lua_sha key capacity refillPerSec sv1 of
                  (Inl e, sv2) \<Rightarrow> (Inl e, (Some lua_sha, sv2))
                | (Inr raw, sv2) \<Rightarrow> (Inr (parseResult raw), (Some lua_sha, sv2))))
      in (case scriptSha of
            None \<Rightarrow> load_and_run sv
          | Some sha \<Rightarrow>
              (case evalsha now sha key capacity refillPerSec sv of
                 (Inr raw, sv1) \<Rightarrow> (Inr (parseResult raw), (Some sha, sv1))
               | (Inl e, sv1) \<Rightarrow>
                   if e = PlainError ''NOSCRIPT'' then load_and_run sv1
                   else (Inl e, (Some sha, sv1)))))"

definition consume ::
  "string \<Rightarrow> time \<Rightarrow> string \<Rightarrow> rat \<Rightarrow> rat \<Rightarrow> string option \<times> limiter_server \<Rightarrow>
    (exn + rate_limit_result) \<times> (string option \<times> limiter_server)" where
  "consume lua_sha now key capacity refillPerSec cs =
     (if \<not> TokenBucketOptionsSchema capacity refillPerSec then (Inl ZodError, cs)
      else evalLua lua_sha now key capacity refillPerSec cs)"

section \<open>Expiry does not change the rate\<close>

text \<open>What the script keeps true of a bucket it wrote for the given options.\<close>

definition bucket_ok :: "rat \<Rightarrow> rat \<Rightarrow> bucket \<Rightarrow> bool" where
  "bucket_ok c r b \<longleftrightarrow> 0 \<le> tokens b \<and> tokens b \<le> c \<and>
     expiresAt b = lastRefill b + ttlSec c r * 1000"

definition key_ok :: "rat \<Rightarrow> rat \<Rightarrow> string \<Rightarrow> buckets \<Rightarrow> bool" where
  "key_ok c r key st \<longleftrightarrow> (\<forall>b. st key = Some b \<longrightarrow> bucket_ok c r b)"

lemma ttlSec_fills:
  fixes c r :: rat
  assumes "0 < r" and "l + ttlSec c r * 1000 \<le> now"
  shows "c \<le> of_int (now - l) / 1000 * r"
proof -
  have "c / r \<le> of_int (ttlSec c r)" by (simp add: ttlSec_def) linarith
  moreover have "of_int (ttlSec c r) * 1000 \<le> (of_int (now - l) :: rat)"
  proof -
    from assms(2) have "ttlSec c r * 1000 \<le> now - l" by simp
    then have "(of_int (ttlSec c r * 1000) :: rat) \<le> of_int (now - l)"
      by (simp only: of_int_le_iff)
    then show ?thesis by simp
  qed
  ultimately have "c / r * 1000 \<le> of_int (now - l)"
    by (meson mult_right_mono order_trans zero_le_numeral)
  then have "c / r \<le> of_int (now - l) / 1000" by (subst le_divide_eq) simp
  with assms(1) show ?thesis by (simp add: pos_divide_le_eq)
qed

text \<open>The tokens at hand when a call arrives, with expiry ignored.\<close>

definition credit :: "rat \<Rightarrow> rat \<Rightarrow> time \<Rightarrow> bucket option \<Rightarrow> rat" where
  "credit c r now ob = (case ob of None \<Rightarrow> c
     | Some b \<Rightarrow> min c (tokens b + of_int (max 0 (now - lastRefill b)) / 1000 * r))"

lemma refilled_credit:
  assumes "0 < r" and "key_ok c r key st"
  shows "refilled now c r (hget now key st) = credit c r now (st key)"
proof (cases "st key")
  case None
  then show ?thesis by (simp add: refilled_def hget_def credit_def)
next
  case (Some b)
  with assms(2) have ok: "bucket_ok c r b" by (simp add: key_ok_def)
  show ?thesis
  proof (cases "expiresAt b \<le> now")
    case False
    with Some show ?thesis by (simp add: refilled_def hget_def credit_def)
  next
    case True
    with ok have le: "lastRefill b + ttlSec c r * 1000 \<le> now" by (simp add: bucket_ok_def)
    then have c: "c \<le> of_int (now - lastRefill b) / 1000 * r" by (rule ttlSec_fills [OF assms(1)])
    have "of_int (now - lastRefill b) / 1000 * r \<le> of_int (max 0 (now - lastRefill b)) / 1000 * r"
      using assms(1) by (intro mult_right_mono divide_right_mono) auto
    with c ok have "c \<le> tokens b + of_int (max 0 (now - lastRefill b)) / 1000 * r"
      by (simp add: bucket_ok_def)
    with Some True show ?thesis by (simp add: refilled_def hget_def credit_def)
  qed
qed

section \<open>One call\<close>

definition granted :: "int \<times> int \<times> int \<Rightarrow> bool" where
  "granted raw = (fst raw = 1)"

lemma credit_bounds:
  assumes "0 < r" "0 \<le> c" and "\<forall>b. ob = Some b \<longrightarrow> bucket_ok c r b"
  shows "0 \<le> credit c r now ob" "credit c r now ob \<le> c"
proof -
  have "\<And>b. ob = Some b \<Longrightarrow>
      0 \<le> tokens b + of_int (max 0 (now - lastRefill b)) / 1000 * r"
    using assms by (intro add_nonneg_nonneg mult_nonneg_nonneg divide_nonneg_nonneg)
      (auto simp: bucket_ok_def)
  with assms(2) show "0 \<le> credit c r now ob" by (auto simp: credit_def split: option.splits)
  show "credit c r now ob \<le> c" by (auto simp: credit_def split: option.splits)
qed

text \<open>The script in terms of the credit.\<close>

lemma increment_token_credit:
  assumes "0 < r" and "key_ok c r key st" and "x = credit c r now (st key)"
  shows "increment_token now key c r st =
    ((if 1 \<le> x then (1, \<lfloor>x - 1\<rfloor>, 0) else (0, \<lfloor>x\<rfloor>, \<lceil>((1 - x) / r) * 1000\<rceil>)),
     st(key \<mapsto> \<lparr>tokens = (if 1 \<le> x then x - 1 else x), lastRefill = now,
                expiresAt = now + ttlSec c r * 1000\<rparr>))"
  using refilled_credit [OF assms(1,2), of now] assms(3)
  by (simp add: increment_token_def Let_def)

lemma increment_token_ok:
  assumes "0 < r" "0 \<le> c" and "key_ok c r key st"
  shows "key_ok c r key (snd (increment_token now key c r st))"
proof -
  let ?x = "credit c r now (st key)"
  have "0 \<le> ?x" "?x \<le> c"
    using credit_bounds [OF assms(1,2), of "st key" now] assms(3) by (auto simp: key_ok_def)
  then show ?thesis
    unfolding increment_token_credit [OF assms(1,3) refl]
    by (auto simp: key_ok_def bucket_ok_def)
qed

text \<open>A call is granted exactly when at least one token has accumulated, the number of
  tokens it reports as remaining lies between 0 and the capacity, and when it is denied the
  \<open>resetMs\<close> it returns is exact: the next call is granted from \<open>resetMs\<close> milliseconds later
  on, and denied at every earlier moment.\<close>

theorem token_bucket_reset_exact:
  assumes "TokenBucketOptionsSchema c r" and "key_ok c r key st"
    and "increment_token now key c r st = ((allow, remain, reset), st')"
  shows "(allow = 1 \<longleftrightarrow> 1 \<le> credit c r now (st key)) \<and>
    0 \<le> remain \<and> of_int remain \<le> c \<and>
    (allow \<noteq> 1 \<longrightarrow> (\<forall>t \<ge> now. granted (fst (increment_token t key c r st')) \<longleftrightarrow> now + reset \<le> t))"
proof -
  let ?x = "credit c r now (st key)"
  from assms(1) have r: "0 < r" and c: "1 \<le> c" by (auto simp: TokenBucketOptionsSchema_def)
  have x: "0 \<le> ?x" "?x \<le> c"
    using credit_bounds [of r c "st key" now] r c assms(2) by (auto simp: key_ok_def)
  have ok': "key_ok c r key st'"
    using increment_token_ok [of r c key st now] r c assms(2,3) by simp
  note inc = increment_token_credit [OF r assms(2) refl, of now]
  have rem: "0 \<le> remain \<and> of_int remain \<le> c"
    using assms(3) x unfolding inc by (auto split: if_splits) linarith+
  have allow: "allow = 1 \<longleftrightarrow> 1 \<le> ?x" using assms(3) unfolding inc by (auto split: if_splits)
  have reset: "granted (fst (increment_token t key c r st')) \<longleftrightarrow> now + reset \<le> t"
    if deny: "allow \<noteq> 1" and t: "now \<le> t" for t
  proof -
    from deny allow have lt: "?x < 1" by simp
    from assms(3) lt have b: "st' key = Some \<lparr>tokens = ?x, lastRefill = now,
        expiresAt = now + ttlSec c r * 1000\<rparr>" and reset: "reset = \<lceil>((1 - ?x) / r) * 1000\<rceil>"
      unfolding inc by auto
    have "granted (fst (increment_token t key c r st')) \<longleftrightarrow> 1 \<le> credit c r t (st' key)"
      unfolding increment_token_credit [OF r ok' refl] by (auto simp: granted_def)
    also have "\<dots> \<longleftrightarrow> 1 \<le> ?x + of_int (t - now) / 1000 * r"
      using b c t by (simp add: credit_def)
    also have "\<dots> \<longleftrightarrow> ((1 - ?x) / r) * 1000 \<le> of_int (t - now)"
      using r by (simp add: field_simps)
    also have "\<dots> \<longleftrightarrow> reset \<le> t - now" unfolding reset by (rule ceiling_le_iff [symmetric])
    also have "\<dots> \<longleftrightarrow> now + reset \<le> t" by auto
    finally show ?thesis .
  qed
  show ?thesis using allow rem reset by simp
qed

theorem token_bucket_reset_exact_witness:
  "let st' = snd (increment_token 1400 ''k'' 1 2 [''k'' \<mapsto> \<lparr>tokens = 0, lastRefill = 1000, expiresAt = 3000\<rparr>])
   in granted (fst (increment_token 1500 ''k'' 1 2 st')) \<and> \<not> granted (fst (increment_token 1499 ''k'' 1 2 st'))"
proof -
  let ?st = "[''k'' \<mapsto> \<lparr>tokens = 0, lastRefill = 1000, expiresAt = 3000\<rparr>] :: buckets"
  have s: "TokenBucketOptionsSchema 1 2" by (simp add: TokenBucketOptionsSchema_def)
  have half: "\<lceil>1 / 2 :: rat\<rceil> = 1" by (rule ceiling_unique) simp_all
  have k: "key_ok 1 2 ''k'' ?st" by (simp add: key_ok_def bucket_ok_def ttlSec_def half)
  have c: "credit 1 2 1400 (?st ''k'') = 4/5" by (simp add: credit_def)
  have fl: "\<lfloor>4 / 5 :: rat\<rfloor> = 0" by (rule floor_unique) simp_all
  have f: "fst (increment_token 1400 ''k'' 1 2 ?st) = (0, 0, 100)"
    by (subst increment_token_credit [OF _ k c [symmetric]]) (simp_all add: fl)
  then obtain st' where e: "increment_token 1400 ''k'' 1 2 ?st = ((0, 0, 100), st')"
    by (metis surj_pair fst_conv)
  from token_bucket_reset_exact [OF s k e]
  show ?thesis unfolding e by (simp add: Let_def)
qed

section \<open>The rate over time\<close>

text \<open>A sequence of calls at the given times for the given keys; the number of calls for
  \<open>key\<close> that were granted.\<close>

fun bucket_run :: "rat \<Rightarrow> rat \<Rightarrow> string \<Rightarrow> (time \<times> string) list \<Rightarrow> buckets \<Rightarrow> nat" where
  "bucket_run c r key [] st = 0"
| "bucket_run c r key ((now, k) # evs) st =
     (case increment_token now k c r st of
        (raw, st') \<Rightarrow> (if k = key \<and> granted raw then 1 else 0) + bucket_run c r key evs st')"

lemma increment_token_other: "k \<noteq> key \<Longrightarrow> snd (increment_token now k c r st) key = st key"
  by (simp add: increment_token_def Let_def split: prod.splits)

lemma credit_later:
  assumes "0 < r" and "now \<le> t" and "\<forall>b. ob = Some b \<longrightarrow> bucket_ok c r b"
  shows "credit c r t ob \<le> credit c r now ob + of_int (t - now) / 1000 * r"
proof (cases ob)
  case None
  with assms show ?thesis by (simp add: credit_def)
next
  case (Some b)
  have "max 0 (t - lastRefill b) \<le> max 0 (now - lastRefill b) + (t - now)" using assms(2) by auto
  then have "(of_int (max 0 (t - lastRefill b)) :: rat) \<le> of_int (max 0 (now - lastRefill b) + (t - now))"
    by (simp only: of_int_le_iff)
  then have "of_int (max 0 (t - lastRefill b)) / 1000 * r \<le>
      (of_int (max 0 (now - lastRefill b)) + of_int (t - now)) / 1000 * r"
    using assms(1) by (intro mult_right_mono divide_right_mono) auto
  moreover have "0 \<le> of_int (t - now) / 1000 * r" using assms(1,2) by simp
  ultimately show ?thesis using Some
    by (auto simp: credit_def min_def add_divide_distrib distrib_right)
qed

lemma bucket_run_bound:
  assumes "0 < r" "0 \<le> c" and "key_ok c r key st"
    and "sorted (now # map fst evs)" and "\<forall>t \<in> set (map fst evs). t \<le> end'" and "now \<le> end'"
  shows "of_nat (bucket_run c r key evs st) \<le> credit c r now (st key) + of_int (end' - now) / 1000 * r"
  using assms(3-)
proof (induction evs arbitrary: st now)
  case Nil
  have "0 \<le> credit c r now (st key)"
    using credit_bounds(1) [OF assms(1,2)] Nil.prems(1) by (auto simp: key_ok_def)
  moreover have "0 \<le> of_int (end' - now) / 1000 * r" using assms(1) Nil.prems by simp
  ultimately show ?case by simp
next
  case (Cons ev evs)
  obtain t k where ev: "ev = (t, k)" by (cases ev)
  obtain raw st' where inc: "increment_token t k c r st = (raw, st')"
    by (cases "increment_token t k c r st")
  from Cons.prems ev have t: "now \<le> t" "t \<le> end'" "sorted (t # map fst evs)"
    "\<forall>t \<in> set (map fst evs). t \<le> end'" by auto
  have later: "credit c r t (st key) \<le> credit c r now (st key) + of_int (t - now) / 1000 * r"
    using Cons.prems(1) by (intro credit_later assms t) (auto simp: key_ok_def)
  have ok': "key_ok c r key st'"
  proof (cases "k = key")
    case True
    with increment_token_ok [OF assms(1,2) Cons.prems(1), of t] inc show ?thesis by simp
  next
    case False
    with increment_token_other [of k key t c r st] inc Cons.prems(1) show ?thesis
      by (simp add: key_ok_def)
  qed
  have IH: "of_nat (bucket_run c r key evs st') \<le>
      credit c r t (st' key) + of_int (end' - t) / 1000 * r"
    using ok' t by (intro Cons.IH) auto
  have spend: "of_nat (if k = key \<and> granted raw then 1 else 0) + credit c r t (st' key) \<le>
      credit c r t (st key)"
  proof (cases "k = key")
    case True
    with inc increment_token_credit [OF assms(1) Cons.prems(1) refl, of t]
    show ?thesis by (auto simp: granted_def credit_def split: if_splits)
  next
    case False
    with increment_token_other [of k key t c r st] inc show ?thesis by simp
  qed
  have "of_int (end' - t) / 1000 * r + of_int (t - now) / 1000 * r = of_int (end' - now) / 1000 * r"
    by (simp add: field_simps)
  with IH spend later show ?case by (simp add: ev inc split del: if_split)
qed

text \<open>C39: Over any sequence of calls, for any keys and with any buckets expiring in between,
  the number of calls granted for one key between two moments of the server's clock is at
  most the capacity plus the refill rate times the time elapsed.\<close>

theorem token_bucket_rate_bound:
  assumes "TokenBucketOptionsSchema c r" and "key_ok c r key st"
    and "sorted (start # map fst evs)" and "\<forall>t \<in> set (map fst evs). t \<le> stop" and "start \<le> stop"
  shows "of_nat (bucket_run c r key evs st) \<le> c + r * of_int (stop - start) / 1000"
proof -
  from assms(1) have r: "0 < r" "0 \<le> c" by (auto simp: TokenBucketOptionsSchema_def)
  have "credit c r start (st key) \<le> c"
    using credit_bounds(2) [OF r] assms(2) by (auto simp: key_ok_def)
  moreover have "of_int (stop - start) / 1000 * r = r * of_int (stop - start) / 1000"
    by (simp add: field_simps)
  ultimately show ?thesis
    using bucket_run_bound [OF r assms(2-5)] by linarith
qed

theorem token_bucket_rate_bound_witness:
  "of_nat (bucket_run 2 1 ''k'' [(0, ''k''), (0, ''k''), (10, ''k''), (1000, ''k'')] Map.empty)
     \<le> (2 + 1 * of_int (1000 - 0) / 1000 :: rat)"
  by (rule token_bucket_rate_bound)
    (auto simp: TokenBucketOptionsSchema_def key_ok_def)

section \<open>Losing the script\<close>

text \<open>A call's answer and its effect on the buckets do not depend on whether the server still
  caches the script: whatever SHA the client remembers, as long as a remembered SHA is the
  script's own, \<open>consume\<close> runs the script exactly once and never fails with \<open>NOSCRIPT\<close>.\<close>

theorem consume_survives_script_flush:
  assumes "TokenBucketOptionsSchema c r" and "sha = None \<or> sha = Some lua_sha"
  shows "fst (consume lua_sha now key c r (sha, sv)) =
      Inr (parseResult (fst (increment_token now key c r (store sv)))) \<and>
    store (snd (snd (consume lua_sha now key c r (sha, sv)))) =
      snd (increment_token now key c r (store sv)) \<and>
    fst (snd (consume lua_sha now key c r (sha, sv))) = Some lua_sha"
  using assms
  by (auto simp: consume_def evalLua_def evalsha_def script_load_def Let_def split: prod.splits)

theorem consume_survives_script_flush_witness:
  "fst (consume ''sha'' 0 ''k'' 2 1 (Some ''sha'', \<lparr>store = Map.empty, scripts = []\<rparr>)) =
     Inr (parseResult (fst (increment_token 0 ''k'' 2 1 Map.empty)))"
  using consume_survives_script_flush [of 2 1 "Some ''sha''" "''sha''" 0 "''k''"
      "\<lparr>store = Map.empty, scripts = []\<rparr>"]
  by (simp add: TokenBucketOptionsSchema_def)

end
