(* ===== verification/Outbox.thy ===== *)
theory Outbox
  imports Prelude
begin

text \<open>
  The transactional outbox of \<open>packages/kafka\<close>: \<open>PostgresOutboxRepository\<close> over the
  \<open>outbox_events\<close> table and \<open>OutboxPublisherWorker\<close>, which publishes its rows to Kafka.

  Rows are never deleted, so a row's id (a UUID in the database) is its position. The payload type is a
  parameter; \<open>eid\<close> reads \<open>payload.eventId\<close> as text when it is a string or a number.
  \<open>carrier\<close> is what \<open>propagation.inject\<close> of OpenTelemetry writes for the active span.
  \<open>updatedAt\<close> is set by every update, as Prisma does. A send may be acknowledged, rejected, or
  delivered with the acknowledgement lost.
\<close>

section \<open>Rows and the repository\<close>

type_synonym headers = "string \<rightharpoonup> string"

datatype OutboxStatus = PENDING | PROCESSING | PUBLISHED | FAILED | DEAD

record 'p CreateOutboxEventData =
  od_aggregateType :: string
  od_aggregateId :: ident
  od_eventType :: string
  od_topic :: string
  od_payload :: 'p

record 'p OutboxEvent =
  ob_id :: nat
  ob_aggregateType :: string
  ob_aggregateId :: ident
  ob_eventType :: string
  ob_topic :: string
  ob_payload :: 'p
  ob_headers :: headers
  ob_status :: OutboxStatus
  ob_retryCount :: nat
  ob_nextRetryAt :: "time option"
  ob_errorMessage :: "string option"
  ob_createdAt :: time
  ob_updatedAt :: time
  ob_processedAt :: "time option"

definition EVENT_TYPE :: string where "EVENT_TYPE = ''x-event-type''"
definition EVENT_ID :: string where "EVENT_ID = ''x-event-id''"
definition MAX_RETRY_COUNT :: nat where "MAX_RETRY_COUNT = 5"
definition STUCK_THRESHOLD_MINUTES :: int where "STUCK_THRESHOLD_MINUTES = 5"
definition BACKOFF_DELAY_MS :: "int list" where "BACKOFF_DELAY_MS = [60000, 120000, 240000, 480000, 960000]"
definition BATCH_SIZE :: nat where "BATCH_SIZE = 50"

definition injectTraceContextToKafkaHeaders :: "headers \<Rightarrow> headers \<Rightarrow> headers" where
  "injectTraceContextToKafkaHeaders carrier hs = hs ++ carrier"

definition outbox_insert :: "headers \<Rightarrow> time \<Rightarrow> headers option \<Rightarrow> 'p CreateOutboxEventData \<Rightarrow>
    'p OutboxEvent list \<Rightarrow> 'p OutboxEvent list" where
  "outbox_insert carrier now hs d rows =
     (let rawHeaders = (case hs of Some h \<Rightarrow> h | None \<Rightarrow> Map.empty);
          headers = injectTraceContextToKafkaHeaders carrier ([EVENT_TYPE \<mapsto> od_eventType d] ++ rawHeaders)
      in rows @ [\<lparr>ob_id = length rows, ob_aggregateType = od_aggregateType d, ob_aggregateId = od_aggregateId d,
           ob_eventType = od_eventType d, ob_topic = od_topic d, ob_payload = od_payload d, ob_headers = headers,
           ob_status = PENDING, ob_retryCount = 0, ob_nextRetryAt = None, ob_errorMessage = None,
           ob_createdAt = now, ob_updatedAt = now, ob_processedAt = None\<rparr>])"

definition claimPendingEvents :: "time \<Rightarrow> nat \<Rightarrow> 'p OutboxEvent list \<Rightarrow> 'p OutboxEvent list \<times> 'p OutboxEvent list" where
  "claimPendingEvents now limit rows =
     (let pendingEvents = take limit (sort_key ob_createdAt (filter (\<lambda>r. ob_status r = PENDING) rows));
          ids = map ob_id pendingEvents
      in if pendingEvents = [] then ([], rows)
         else (pendingEvents, fst (update_many (\<lambda>r. ob_id r \<in> set ids)
                 (\<lambda>r. r\<lparr>ob_status := PROCESSING, ob_updatedAt := now\<rparr>) rows)))"

definition markPublished :: "time \<Rightarrow> nat \<Rightarrow> 'p OutboxEvent list \<Rightarrow> 'p OutboxEvent list" where
  "markPublished now i rows =
     fst (update_many (\<lambda>r. ob_id r = i \<and> ob_status r = PROCESSING)
       (\<lambda>r. r\<lparr>ob_status := PUBLISHED, ob_processedAt := Some now, ob_updatedAt := now\<rparr>) rows)"

definition markFailed :: "time \<Rightarrow> nat \<Rightarrow> string \<Rightarrow> nat \<Rightarrow> 'p OutboxEvent list \<Rightarrow> bool \<times> 'p OutboxEvent list" where
  "markFailed now i error currentRetryCount rows =
     (let newRetryCount = currentRetryCount + 1;
          mine = (\<lambda>r. ob_id r = i \<and> ob_status r = PROCESSING \<and> ob_retryCount r = currentRetryCount)
      in if newRetryCount \<ge> MAX_RETRY_COUNT
         then (case update_many mine (\<lambda>r. r\<lparr>ob_status := DEAD, ob_errorMessage := Some error,
                 ob_retryCount := newRetryCount, ob_processedAt := Some now, ob_updatedAt := now\<rparr>) rows of
                 (rows', count) \<Rightarrow> (count \<noteq> 0, rows'))
         else
           (let delayMs = (if currentRetryCount < length BACKOFF_DELAY_MS then BACKOFF_DELAY_MS ! currentRetryCount
                           else last BACKOFF_DELAY_MS)
            in (False, fst (update_many mine (\<lambda>r. r\<lparr>ob_status := FAILED, ob_errorMessage := Some error,
                 ob_retryCount := newRetryCount, ob_nextRetryAt := Some (now + delayMs), ob_updatedAt := now\<rparr>) rows))))"

definition requeueFailedEvents :: "time \<Rightarrow> 'p OutboxEvent list \<Rightarrow> 'p OutboxEvent list" where
  "requeueFailedEvents now rows =
     fst (update_many (\<lambda>r. ob_status r = FAILED \<and> (case ob_nextRetryAt r of None \<Rightarrow> False | Some t \<Rightarrow> t \<le> now) \<and>
            ob_retryCount r < MAX_RETRY_COUNT)
       (\<lambda>r. r\<lparr>ob_status := PENDING, ob_nextRetryAt := None, ob_updatedAt := now\<rparr>) rows)"

definition resetStuckProcessingEvents :: "time \<Rightarrow> 'p OutboxEvent list \<Rightarrow> 'p OutboxEvent list" where
  "resetStuckProcessingEvents now rows =
     fst (update_many (\<lambda>r. ob_status r = PROCESSING \<and> ob_updatedAt r < now - STUCK_THRESHOLD_MINUTES * 60 * 1000)
       (\<lambda>r. r\<lparr>ob_status := PENDING, ob_updatedAt := now\<rparr>) rows)"

definition getStatusCounts :: "'p OutboxEvent list \<Rightarrow> OutboxStatus \<rightharpoonup> nat" where
  "getStatusCounts rows st =
     (let n = length (filter (\<lambda>r. ob_status r = st) rows) in if n = 0 then None else Some n)"

section \<open>The publisher worker\<close>

record 'p message =
  m_topic :: string
  m_key :: string
  m_value :: 'p
  m_headers :: headers

datatype send_outcome = Acked | Rejected string | AckLost string

record 'p world =
  w_rows :: "'p OutboxEvent list"
  w_log :: "'p message list"

definition copyStoredHeaders :: "headers \<Rightarrow> headers \<Rightarrow> headers" where
  "copyStoredHeaders stored hs = hs ++ stored"

definition addEventIdHeader :: "('p \<Rightarrow> string option) \<Rightarrow> 'p OutboxEvent \<Rightarrow> headers \<Rightarrow> headers" where
  "addEventIdHeader eid ev hs = (case eid (ob_payload ev) of None \<Rightarrow> hs | Some i \<Rightarrow> hs(EVENT_ID \<mapsto> i))"

definition buildHeaders :: "('p \<Rightarrow> string option) \<Rightarrow> headers \<Rightarrow> 'p OutboxEvent \<Rightarrow> headers" where
  "buildHeaders eid carrier ev =
     (let hs = addEventIdHeader eid ev (copyStoredHeaders (ob_headers ev) Map.empty)
      in if hs ''traceparent'' = None \<or> hs ''traceparent'' = Some []
         then injectTraceContextToKafkaHeaders carrier hs else hs)"

definition message_of :: "('p \<Rightarrow> string option) \<Rightarrow> headers \<Rightarrow> 'p OutboxEvent \<Rightarrow> 'p message" where
  "message_of eid carrier ev =
     \<lparr>m_topic = ob_topic ev, m_key = ob_aggregateId ev, m_value = ob_payload ev,
      m_headers = buildHeaders eid carrier ev\<rparr>"

text \<open>What happens around the publication of one event: the active span, the send, the errors of the
  two bookkeeping calls and their moment.\<close>

record publish_fate =
  pf_carrier :: headers
  pf_send :: send_outcome
  pf_mark :: "string option"
  pf_fail :: "string option"
  pf_time :: time

definition handlePublishFailure :: "publish_fate \<Rightarrow> 'p OutboxEvent \<Rightarrow> string \<Rightarrow> ('p, 'z) world_scheme \<Rightarrow> ('p, 'z) world_scheme" where
  "handlePublishFailure f ev error w =
     (case pf_fail f of
        Some _ \<Rightarrow> w
      | None \<Rightarrow> w\<lparr>w_rows := snd (markFailed (pf_time f) (ob_id ev) error (ob_retryCount ev) (w_rows w))\<rparr>)"

text \<open>The two halves of \<open>publishEvent\<close>: the send, and the bookkeeping of its outcome.\<close>

definition send_event :: "('p \<Rightarrow> string option) \<Rightarrow> publish_fate \<Rightarrow> 'p OutboxEvent \<Rightarrow> ('p, 'z) world_scheme \<Rightarrow>
    (string + unit) \<times> ('p, 'z) world_scheme" where
  "send_event eid f ev w =
     (let sent = w\<lparr>w_log := w_log w @ [message_of eid (pf_carrier f) ev]\<rparr>
      in case pf_send f of Acked \<Rightarrow> (Inr (), sent) | Rejected e \<Rightarrow> (Inl e, w) | AckLost e \<Rightarrow> (Inl e, sent))"

definition record_outcome :: "publish_fate \<Rightarrow> 'p OutboxEvent \<Rightarrow> string + unit \<Rightarrow> ('p, 'z) world_scheme \<Rightarrow> ('p, 'z) world_scheme" where
  "record_outcome f ev outcome w =
     (case outcome of
        Inr _ \<Rightarrow>
          (case pf_mark f of
             None \<Rightarrow> w\<lparr>w_rows := markPublished (pf_time f) (ob_id ev) (w_rows w)\<rparr>
           | Some e \<Rightarrow> handlePublishFailure f ev e w)
      | Inl e \<Rightarrow> handlePublishFailure f ev e w)"

definition publishEvent :: "('p \<Rightarrow> string option) \<Rightarrow> publish_fate \<Rightarrow> 'p OutboxEvent \<Rightarrow> ('p, 'z) world_scheme \<Rightarrow> ('p, 'z) world_scheme" where
  "publishEvent eid f ev w = (case send_event eid f ev w of (outcome, w1) \<Rightarrow> record_outcome f ev outcome w1)"

fun publishAll :: "('p \<Rightarrow> string option) \<Rightarrow> (nat \<Rightarrow> publish_fate) \<Rightarrow> 'p OutboxEvent list \<Rightarrow> ('p, 'z) world_scheme \<Rightarrow> ('p, 'z) world_scheme" where
  "publishAll eid fate [] w = w"
| "publishAll eid fate (ev # evs) w = publishAll eid fate evs (publishEvent eid (fate (ob_id ev)) ev w)"

text \<open>\<open>claimErr\<close> is an error of the claiming transaction, which the loop only logs.\<close>

definition pollAndPublish :: "('p \<Rightarrow> string option) \<Rightarrow> time \<Rightarrow> string option \<Rightarrow> (nat \<Rightarrow> publish_fate) \<Rightarrow> ('p, 'z) world_scheme \<Rightarrow>
    ('p, 'z) world_scheme" where
  "pollAndPublish eid now claimErr fate w =
     (case claimErr of
        Some _ \<Rightarrow> w
      | None \<Rightarrow>
          (case claimPendingEvents now BATCH_SIZE (w_rows w) of (events, rows) \<Rightarrow>
             if events = [] then w
             else publishAll eid fate events (w\<lparr>w_rows := rows\<rparr>)))"

section \<open>The table over time\<close>

definition same_event :: "'p OutboxEvent \<Rightarrow> 'p OutboxEvent \<Rightarrow> bool" where
  "same_event r r' \<longleftrightarrow> ob_id r = ob_id r' \<and> ob_aggregateType r = ob_aggregateType r' \<and>
     ob_aggregateId r = ob_aggregateId r' \<and> ob_eventType r = ob_eventType r' \<and> ob_topic r = ob_topic r' \<and>
     ob_payload r = ob_payload r' \<and> ob_headers r = ob_headers r' \<and> ob_createdAt r = ob_createdAt r'"

definition final_row :: "'p OutboxEvent \<Rightarrow> bool" where
  "final_row r \<longleftrightarrow> ob_status r \<in> {PUBLISHED, DEAD}"

text \<open>The counter and the status agree: a row is \<open>DEAD\<close> exactly with its fifth failure, and a
  \<open>FAILED\<close> row waits for a retry.\<close>

definition row_shape :: "'p OutboxEvent \<Rightarrow> bool" where
  "row_shape r \<longleftrightarrow> (if ob_status r = DEAD then ob_retryCount r = MAX_RETRY_COUNT else ob_retryCount r < MAX_RETRY_COUNT) \<and>
     (ob_status r = FAILED \<longrightarrow> 0 < ob_retryCount r \<and> ob_nextRetryAt r \<noteq> None)"

definition evolves :: "'p OutboxEvent \<Rightarrow> 'p OutboxEvent \<Rightarrow> bool" where
  "evolves r r' \<longleftrightarrow> same_event r r' \<and> ob_retryCount r \<le> ob_retryCount r' \<and>
     (final_row r \<longrightarrow> r' = r) \<and> (row_shape r \<longrightarrow> row_shape r')"

definition ids_ok :: "'p OutboxEvent list \<Rightarrow> bool" where
  "ids_ok rows \<longleftrightarrow> map ob_id rows = [0..<length rows]"

definition table_le :: "'p OutboxEvent list \<Rightarrow> 'p OutboxEvent list \<Rightarrow> bool" where
  "table_le rows rows' \<longleftrightarrow> ids_ok rows \<longrightarrow> ids_ok rows' \<and> length rows \<le> length rows' \<and>
     (\<forall>i < length rows. evolves (rows ! i) (rows' ! i))"

lemma same_event_refl [simp]: "same_event r r"
  by (simp add: same_event_def)

lemma same_event_trans: "same_event r s \<Longrightarrow> same_event s t \<Longrightarrow> same_event r t"
  by (simp add: same_event_def)

lemma evolves_refl [simp]: "evolves r r"
  by (simp add: evolves_def)

lemma evolves_trans: "evolves r s \<Longrightarrow> evolves s t \<Longrightarrow> evolves r t"
  by (auto simp: evolves_def intro: same_event_trans)

lemma table_le_refl: "table_le rows rows"
  by (simp add: table_le_def)

lemma table_le_trans: "table_le a b \<Longrightarrow> table_le b c \<Longrightarrow> table_le a c"
  unfolding table_le_def by (auto intro: evolves_trans)

lemma ids_ok_nth: "ids_ok rows \<Longrightarrow> i < length rows \<Longrightarrow> ob_id (rows ! i) = i"
  unfolding ids_ok_def by (metis add_0 nth_map nth_upt)

lemma ids_ok_find: "ids_ok rows \<Longrightarrow> r \<in> set rows \<Longrightarrow> ob_id r < length rows \<and> rows ! ob_id r = r"
  by (metis ids_ok_nth in_set_conv_nth)

lemma table_le_update:
  assumes "\<And>r. ids_ok rows \<Longrightarrow> r \<in> set rows \<Longrightarrow> p r \<Longrightarrow> evolves r (f r)"
  shows "table_le rows (fst (update_many p f rows))"
proof -
  have "ids_ok (fst (update_many p f rows))" if "ids_ok rows"
  proof -
    have "map (ob_id \<circ> (\<lambda>r. if p r then f r else r)) rows = map ob_id rows"
      using assms [OF that] by (intro map_cong) (auto simp: evolves_def same_event_def)
    with that show ?thesis by (simp add: ids_ok_def update_many_def)
  qed
  then show ?thesis using assms by (auto simp: table_le_def update_many_def)
qed

lemma table_le_insert: "table_le rows (outbox_insert carrier now hs d rows)"
  by (auto simp: table_le_def outbox_insert_def ids_ok_def nth_append Let_def)

lemma claimed_pending: "ev \<in> set (fst (claimPendingEvents now n rows)) \<Longrightarrow> ev \<in> set rows \<and> ob_status ev = PENDING"
  by (auto simp: claimPendingEvents_def Let_def dest: in_set_takeD split: if_splits)

lemma table_le_claim: "table_le rows (snd (claimPendingEvents now n rows))"
proof -
  let ?pend = "take n (sort_key ob_createdAt (filter (\<lambda>r. ob_status r = PENDING) rows))"
  have pend: "ev \<in> set rows \<and> ob_status ev = PENDING" if "ev \<in> set ?pend" for ev
    using that by (auto dest: in_set_takeD)
  have "table_le rows (fst (update_many (\<lambda>r. ob_id r \<in> set (map ob_id ?pend))
      (\<lambda>r. r\<lparr>ob_status := PROCESSING, ob_updatedAt := now\<rparr>) rows))"
  proof (rule table_le_update)
    fix r
    assume "ids_ok rows" "r \<in> set rows" "ob_id r \<in> set (map ob_id ?pend)"
    then have "ob_status r = PENDING" using pend ids_ok_find by (metis (no_types, lifting) imageE list.set_map)
    then show "evolves r (r\<lparr>ob_status := PROCESSING, ob_updatedAt := now\<rparr>)"
      by (simp add: evolves_def same_event_def final_row_def row_shape_def)
  qed
  then show ?thesis by (simp add: claimPendingEvents_def Let_def table_le_refl)
qed

lemma table_le_claim_eq: "claimPendingEvents now n rows = (evs, rows') \<Longrightarrow> table_le rows rows'"
  using table_le_claim [of rows now n] by simp

lemma table_le_published: "table_le rows (markPublished now i rows)"
  unfolding markPublished_def
  by (rule table_le_update) (auto simp: evolves_def same_event_def final_row_def row_shape_def)

lemma table_le_failed: "table_le rows (snd (markFailed now i e c rows))"
proof -
  have "table_le rows (fst (update_many
      (\<lambda>r. ob_id r = i \<and> ob_status r = PROCESSING \<and> ob_retryCount r = c) f rows))"
    if "\<And>r. ob_status r = PROCESSING \<Longrightarrow> ob_retryCount r = c \<Longrightarrow> evolves r (f r)" for f
    by (rule table_le_update) (use that in auto)
  then show ?thesis unfolding markFailed_def Let_def case_prod_unfold
    by (auto simp: evolves_def same_event_def final_row_def row_shape_def MAX_RETRY_COUNT_def)
qed

lemma table_le_requeue: "table_le rows (requeueFailedEvents now rows)"
  unfolding requeueFailedEvents_def
  by (rule table_le_update) (auto simp: evolves_def same_event_def final_row_def row_shape_def)

lemma table_le_reset: "table_le rows (resetStuckProcessingEvents now rows)"
  unfolding resetStuckProcessingEvents_def
  by (rule table_le_update) (auto simp: evolves_def same_event_def final_row_def row_shape_def)

lemmas table_le_ops = table_le_insert table_le_claim table_le_published table_le_failed table_le_requeue table_le_reset

text \<open>A row is new as \<open>PUBLISHED\<close> only through \<open>markPublished\<close>.\<close>

lemma published_update:
  assumes "r' \<in> set (fst (update_many p f rows))" and "ob_status r' = PUBLISHED"
    and "\<And>r. ob_status (f r) \<noteq> PUBLISHED"
  shows "r' \<in> set rows"
  using assms by (auto simp: update_many_def)

lemma published_others:
  assumes "ob_status r' = PUBLISHED"
  shows "r' \<in> set (outbox_insert carrier now hs d rows) \<Longrightarrow> r' \<in> set rows"
    and "r' \<in> set (snd (claimPendingEvents now n rows)) \<Longrightarrow> r' \<in> set rows"
    and "r' \<in> set (snd (markFailed now i e c rows)) \<Longrightarrow> r' \<in> set rows"
    and "r' \<in> set (requeueFailedEvents now rows) \<Longrightarrow> r' \<in> set rows"
    and "r' \<in> set (resetStuckProcessingEvents now rows) \<Longrightarrow> r' \<in> set rows"
  using assms
  by (auto simp: outbox_insert_def claimPendingEvents_def markFailed_def requeueFailedEvents_def
      resetStuckProcessingEvents_def Let_def update_many_def split: if_splits)

section \<open>Publishers at work\<close>

text \<open>Any number of workers on one table, with the two halves of each publication steps of their own:
  what a worker has claimed, and which outcome of a send it has not recorded yet. A crash loses any
  part of that memory.\<close>

record 'p pub_sys = "'p world" +
  ps_claimed :: "'p OutboxEvent list"
  ps_outcomes :: "('p OutboxEvent \<times> (string + unit)) list"

inductive pub_step :: "('p \<Rightarrow> string option) \<Rightarrow> 'p pub_sys \<Rightarrow> 'p pub_sys \<Rightarrow> bool" for eid where
  inserts: "pub_step eid s (s\<lparr>w_rows := outbox_insert carrier now hs d (w_rows s)\<rparr>)"
| claims: "claimPendingEvents now n (w_rows s) = (evs, rows) \<Longrightarrow>
    pub_step eid s (s\<lparr>w_rows := rows, ps_claimed := ps_claimed s @ evs\<rparr>)"
| sends: "ev \<in> set (ps_claimed s) \<Longrightarrow> send_event eid f ev s = (outcome, t) \<Longrightarrow>
    pub_step eid s (t\<lparr>ps_outcomes := (ev, outcome) # ps_outcomes s\<rparr>)"
| records: "(ev, outcome) \<in> set (ps_outcomes s) \<Longrightarrow> pub_step eid s (record_outcome f ev outcome s)"
| requeues: "pub_step eid s (s\<lparr>w_rows := requeueFailedEvents now (w_rows s)\<rparr>)"
| resets: "pub_step eid s (s\<lparr>w_rows := resetStuckProcessingEvents now (w_rows s)\<rparr>)"
| drops: "set cl \<subseteq> set (ps_claimed s) \<Longrightarrow> set os \<subseteq> set (ps_outcomes s) \<Longrightarrow>
    pub_step eid s (s\<lparr>ps_claimed := cl, ps_outcomes := os\<rparr>)"

definition pub_init :: "'p pub_sys" where
  "pub_init = \<lparr>w_rows = [], w_log = [], ps_claimed = [], ps_outcomes = []\<rparr>"

text \<open>A poll as a whole is a run of these steps and leaves nothing in the memory of the worker.\<close>

lemma send_event_frame:
  "send_event eid f ev s = (outcome, t) \<Longrightarrow> ps_claimed t = ps_claimed s \<and> ps_outcomes t = ps_outcomes s \<and> w_rows t = w_rows s"
  by (auto simp: send_event_def Let_def split: send_outcome.splits)

lemma record_outcome_memory:
  "ps_claimed (record_outcome f ev outcome s) = ps_claimed s"
  "(record_outcome f ev outcome (s\<lparr>ps_outcomes := xs\<rparr>))\<lparr>ps_outcomes := ys\<rparr> = (record_outcome f ev outcome s)\<lparr>ps_outcomes := ys\<rparr>"
  "ps_outcomes (record_outcome f ev outcome s) = ps_outcomes s"
  by (simp_all add: record_outcome_def handlePublishFailure_def split: sum.split option.split)

lemma publish_memory:
  fixes s :: "'p pub_sys"
  shows "ps_claimed (publishEvent eid f ev s) = ps_claimed s" "ps_outcomes (publishEvent eid f ev s) = ps_outcomes s"
    "ps_claimed (publishAll eid fate evs s) = ps_claimed s" "ps_outcomes (publishAll eid fate evs s) = ps_outcomes s"
proof -
  have one: "ps_claimed (publishEvent eid f ev s) = ps_claimed s \<and> ps_outcomes (publishEvent eid f ev s) = ps_outcomes s" for f ev and s :: "'p pub_sys"
    by (cases "send_event eid f ev s") (simp add: publishEvent_def record_outcome_memory send_event_frame)
  then show "ps_claimed (publishEvent eid f ev s) = ps_claimed s" "ps_outcomes (publishEvent eid f ev s) = ps_outcomes s" by simp_all
  show "ps_claimed (publishAll eid fate evs s) = ps_claimed s" "ps_outcomes (publishAll eid fate evs s) = ps_outcomes s"
    by (induction evs arbitrary: s) (simp_all add: one)
qed

lemma publishEvent_steps:
  assumes "ev \<in> set (ps_claimed s)"
  shows "(pub_step eid)\<^sup>*\<^sup>* s (publishEvent eid f ev s)"
proof -
  obtain outcome t where t: "send_event eid f ev s = (outcome, t)" by fastforce
  note frame = send_event_frame [OF t]
  have eq: "publishEvent eid f ev s = record_outcome f ev outcome t" by (simp add: publishEvent_def t)
  let ?a = "t\<lparr>ps_outcomes := (ev, outcome) # ps_outcomes s\<rparr>" and ?b = "record_outcome f ev outcome (t\<lparr>ps_outcomes := (ev, outcome) # ps_outcomes s\<rparr>)"
  have "pub_step eid s ?a" by (rule pub_step.sends [OF assms t])
  moreover have "pub_step eid ?a ?b" by (rule pub_step.records) simp
  moreover have "pub_step eid ?b (?b\<lparr>ps_claimed := ps_claimed s, ps_outcomes := ps_outcomes s\<rparr>)"
    by (rule pub_step.drops) (auto simp: record_outcome_memory frame)
  moreover have "?b\<lparr>ps_claimed := ps_claimed s, ps_outcomes := ps_outcomes s\<rparr> = publishEvent eid f ev s"
    unfolding eq using frame by (auto simp: record_outcome_def handlePublishFailure_def split: sum.split option.split)
  ultimately show "(pub_step eid)\<^sup>*\<^sup>* s (publishEvent eid f ev s)" by (metis converse_rtranclp_into_rtranclp rtranclp.rtrancl_refl)
qed

lemma publishAll_steps:
  "set evs \<subseteq> set (ps_claimed s) \<Longrightarrow> (pub_step eid)\<^sup>*\<^sup>* s (publishAll eid fate evs s)"
proof (induction evs arbitrary: s)
  case (Cons ev evs)
  let ?t = "publishEvent eid (fate (ob_id ev)) ev s"
  have "(pub_step eid)\<^sup>*\<^sup>* s ?t" using publishEvent_steps [of ev s] Cons.prems by simp
  with Cons.IH [of ?t] Cons.prems show ?case by (auto simp: publish_memory intro: rtranclp_trans)
qed simp

lemma publishEvent_claimed [simp]: "publishEvent eid f ev (s\<lparr>ps_claimed := cl\<rparr>) = (publishEvent eid f ev s)\<lparr>ps_claimed := cl\<rparr>"
  by (simp add: publishEvent_def send_event_def record_outcome_def handlePublishFailure_def Let_def split: send_outcome.split option.split)

lemma publishAll_claimed: "publishAll eid fate evs (s\<lparr>ps_claimed := cl\<rparr>) = (publishAll eid fate evs s)\<lparr>ps_claimed := cl\<rparr>"
  by (induction evs arbitrary: s) simp_all

lemma poll_steps: "(pub_step eid)\<^sup>*\<^sup>* s (pollAndPublish eid now claimErr fate s)"
proof (cases "claimErr = None \<and> fst (claimPendingEvents now BATCH_SIZE (w_rows s)) \<noteq> []")
  case False
  then show ?thesis by (auto simp: pollAndPublish_def split: option.splits prod.splits)
next
  case True
  obtain evs rows where c: "claimPendingEvents now BATCH_SIZE (w_rows s) = (evs, rows)" by fastforce
  let ?a = "s\<lparr>w_rows := rows, ps_claimed := ps_claimed s @ evs\<rparr>" and ?b = "publishAll eid fate evs (s\<lparr>w_rows := rows\<rparr>)"
  have "pub_step eid s ?a" by (rule pub_step.claims [OF c])
  moreover have "(pub_step eid)\<^sup>*\<^sup>* ?a (publishAll eid fate evs ?a)" using publishAll_steps [of evs ?a] by simp
  moreover have all: "publishAll eid fate evs ?a = ?b\<lparr>ps_claimed := ps_claimed s @ evs\<rparr>"
    using publishAll_claimed [of eid fate evs _ "s\<lparr>w_rows := rows\<rparr>"] by simp
  have mem: "ps_outcomes ?b = ps_outcomes s" "ps_claimed ?b = ps_claimed s" by (simp_all add: publish_memory)
  have "pub_step eid (publishAll eid fate evs ?a) (?b\<lparr>ps_claimed := ps_claimed s, ps_outcomes := ps_outcomes s\<rparr>)"
    using pub_step.drops [of "ps_claimed s" "publishAll eid fate evs ?a" "ps_outcomes s" eid] by (simp add: all mem)
  moreover have "?b\<lparr>ps_claimed := ps_claimed s, ps_outcomes := ps_outcomes s\<rparr> = pollAndPublish eid now claimErr fate s"
    using True mem by (simp add: pollAndPublish_def c)
  ultimately show ?thesis by (metis converse_rtranclp_into_rtranclp rtranclp.rtrancl_into_rtrancl)
qed

definition delivered :: "'p message list \<Rightarrow> 'p OutboxEvent \<Rightarrow> bool" where
  "delivered lg r \<longleftrightarrow> (\<exists>m \<in> set lg. m_topic m = ob_topic r \<and> m_key m = ob_aggregateId r \<and> m_value m = ob_payload r)"

definition pub_ok :: "'p pub_sys \<Rightarrow> bool" where
  "pub_ok s \<longleftrightarrow> ids_ok (w_rows s) \<and> (\<forall>r \<in> set (w_rows s). row_shape r) \<and>
     (\<forall>ev \<in> set (ps_claimed s) \<union> fst ` set (ps_outcomes s). ob_id ev < length (w_rows s) \<and>
        same_event ev (w_rows s ! ob_id ev)) \<and>
     (\<forall>ev. (ev, Inr ()) \<in> set (ps_outcomes s) \<longrightarrow> delivered (w_log s) ev) \<and>
     (\<forall>r \<in> set (w_rows s). ob_status r = PUBLISHED \<longrightarrow> delivered (w_log s) r)"

lemma delivered_append: "delivered lg r \<Longrightarrow> delivered (lg @ msgs) r"
  by (auto simp: delivered_def)

lemma delivered_message: "delivered (lg @ [message_of eid carrier r]) r"
  by (simp add: delivered_def message_of_def)

lemma delivered_same: "same_event r r' \<Longrightarrow> delivered lg r \<Longrightarrow> delivered lg r'"
  by (simp add: delivered_def same_event_def)

lemma record_outcome_rows: "table_le (w_rows s) (w_rows (record_outcome f ev outcome s))"
  by (auto simp: record_outcome_def handlePublishFailure_def table_le_refl intro: table_le_ops split: sum.split option.split)

lemma pub_step_rows: "pub_step eid s t \<Longrightarrow> table_le (w_rows s) (w_rows t)"
  by (induction rule: pub_step.induct)
    (auto simp: table_le_refl send_event_frame intro: table_le_ops table_le_claim_eq record_outcome_rows)

text \<open>The part of the invariant that every table operation keeps.\<close>

lemma pub_ok_rows:
  assumes "pub_ok s" and "table_le (w_rows s) rows"
    and "\<And>r. r \<in> set rows \<Longrightarrow> ob_id r \<ge> length (w_rows s) \<Longrightarrow> row_shape r"
    and "\<And>r. r \<in> set rows \<Longrightarrow> ob_status r = PUBLISHED \<Longrightarrow> delivered (w_log s) r"
  shows "pub_ok (s\<lparr>w_rows := rows\<rparr>)"
proof -
  from assms(1,2) have ids: "ids_ok rows" and len: "length (w_rows s) \<le> length rows"
    and ev: "\<And>i. i < length (w_rows s) \<Longrightarrow> evolves (w_rows s ! i) (rows ! i)"
    by (auto simp: pub_ok_def table_le_def)
  have shape: "row_shape r" if r: "r \<in> set rows" for r
  proof (cases "ob_id r < length (w_rows s)")
    case True
    then have "row_shape (w_rows s ! ob_id r)" using assms(1) by (simp add: pub_ok_def)
    moreover have "rows ! ob_id r = r" using ids_ok_find [OF ids r] by simp
    ultimately show ?thesis using ev [OF True] by (simp add: evolves_def)
  next
    case False
    then show ?thesis using assms(3) [OF r] by simp
  qed
  have "same_event e (rows ! ob_id e)" if "ob_id e < length (w_rows s)" "same_event e (w_rows s ! ob_id e)" for e
    using that ev [OF that(1)] by (auto simp: evolves_def intro: same_event_trans)
  then show ?thesis using assms(1,4) ids shape len by (auto simp: pub_ok_def dest: order.strict_trans2)
qed

lemma shape_new_row: "r \<in> set (outbox_insert carrier now hs d rows) \<Longrightarrow> ids_ok rows \<Longrightarrow> length rows \<le> ob_id r \<Longrightarrow> row_shape r"
  by (auto simp: outbox_insert_def Let_def row_shape_def MAX_RETRY_COUNT_def dest: ids_ok_find)

lemma same_ids_old:
  assumes "ids_ok rows'" "length rows' = length rows" "r \<in> set rows'"
  shows "\<not> length rows \<le> ob_id r"
  using ids_ok_find [OF assms(1,3)] assms(2) by simp

lemma length_ops [simp]:
  "length (snd (claimPendingEvents now n rows)) = length rows"
  "length (markPublished now i rows) = length rows"
  "length (snd (markFailed now i e c rows)) = length rows"
  "length (requeueFailedEvents now rows) = length rows"
  "length (resetStuckProcessingEvents now rows) = length rows"
  by (simp_all add: claimPendingEvents_def markPublished_def markFailed_def requeueFailedEvents_def
      resetStuckProcessingEvents_def Let_def update_many_def)

lemma pub_ok_update:
  assumes "pub_ok s" "table_le (w_rows s) rows" "length rows = length (w_rows s)"
    and "\<And>r. r \<in> set rows \<Longrightarrow> ob_status r = PUBLISHED \<Longrightarrow> delivered (w_log s) r"
  shows "pub_ok (s\<lparr>w_rows := rows\<rparr>)"
  using assms same_ids_old [of rows "w_rows s"]
  by (intro pub_ok_rows) (auto simp: pub_ok_def table_le_def)

lemma pub_ok_mem:
  assumes "pub_ok s" "set cl \<subseteq> set (ps_claimed s)" "fst ` set os \<subseteq> set (ps_claimed s) \<union> fst ` set (ps_outcomes s)"
    and "\<And>ev. (ev, Inr ()) \<in> set os \<Longrightarrow> delivered (w_log s @ msgs) ev"
  shows "pub_ok (s\<lparr>w_log := w_log s @ msgs, ps_claimed := cl, ps_outcomes := os\<rparr>)"
proof -
  have "\<forall>ev \<in> set (ps_claimed s) \<union> fst ` set (ps_outcomes s). ob_id ev < length (w_rows s) \<and> same_event ev (w_rows s ! ob_id ev)"
    using assms(1) unfolding pub_ok_def by (elim conjE)
  moreover have "set cl \<union> fst ` set os \<subseteq> set (ps_claimed s) \<union> fst ` set (ps_outcomes s)" using assms(2,3) by blast
  ultimately have "\<forall>ev \<in> set cl \<union> fst ` set os. ob_id ev < length (w_rows s) \<and> same_event ev (w_rows s ! ob_id ev)" by blast
  moreover have "delivered (w_log s @ msgs) r" if "r \<in> set (w_rows s)" "ob_status r = PUBLISHED" for r
    by (rule delivered_append) (use assms(1) that in \<open>simp add: pub_ok_def\<close>)
  ultimately show ?thesis using assms(1,4) by (simp add: pub_ok_def)
qed

lemma published_old_delivered: "pub_ok s \<Longrightarrow> r \<in> set (w_rows s) \<Longrightarrow> ob_status r = PUBLISHED \<Longrightarrow> delivered (w_log s) r"
  by (simp add: pub_ok_def)

lemma published_origin:
  "r \<in> set (markPublished now i rows) \<Longrightarrow> r \<notin> set rows \<Longrightarrow>
    \<exists>q \<in> set rows. ob_id q = i \<and> same_event q r"
proof -
  assume r: "r \<in> set (markPublished now i rows)" "r \<notin> set rows"
  then obtain q where q: "q \<in> set rows" "r = (if ob_id q = i \<and> ob_status q = PROCESSING
      then q\<lparr>ob_status := PUBLISHED, ob_processedAt := Some now, ob_updatedAt := now\<rparr> else q)"
    by (auto simp: markPublished_def update_many_def)
  with r(2) have "ob_id q = i" "same_event q r" by (auto simp: same_event_def split: if_splits)
  with q(1) show ?thesis by blast
qed

lemma pub_step_ok: "pub_step eid s t \<Longrightarrow> pub_ok s \<Longrightarrow> pub_ok t"
proof (induction rule: pub_step.induct)
  case (inserts s carrier now hs d)
  then show ?case
    by (intro pub_ok_rows)
      (auto simp: table_le_insert pub_ok_def intro: shape_new_row dest: published_others(1))
next
  case (claims now n s evs rows)
  have rows: "rows = snd (claimPendingEvents now n (w_rows s))" and evs: "evs = fst (claimPendingEvents now n (w_rows s))"
    using claims(1) by simp_all
  have ok: "pub_ok (s\<lparr>w_rows := rows\<rparr>)" unfolding rows
    using claims(2) by (intro pub_ok_update) (auto simp: table_le_claim dest: published_others(2) published_old_delivered)
  have "ob_id ev < length rows \<and> same_event ev (rows ! ob_id ev)" if "ev \<in> set evs" for ev
  proof -
    have mem: "ev \<in> set (w_rows s)" using claimed_pending that unfolding evs by blast
    with claims(2) have i: "ob_id ev < length (w_rows s)" "w_rows s ! ob_id ev = ev"
      using ids_ok_find by (auto simp: pub_ok_def)
    have "evolves (w_rows s ! ob_id ev) (rows ! ob_id ev)"
      using table_le_claim [of "w_rows s" now n] claims(2) i(1) by (simp add: rows table_le_def pub_ok_def)
    with i show ?thesis by (simp add: evolves_def rows)
  qed
  with ok show ?case by (auto simp: pub_ok_def)
next
  case (sends ev s f outcome t)
  define msgs where "msgs = (case pf_send f of Rejected _ \<Rightarrow> [] | _ \<Rightarrow> [message_of eid (pf_carrier f) ev])"
  have t: "t\<lparr>ps_outcomes := (ev, outcome) # ps_outcomes s\<rparr> =
      s\<lparr>w_log := w_log s @ msgs, ps_claimed := ps_claimed s, ps_outcomes := (ev, outcome) # ps_outcomes s\<rparr>"
    using sends(2) by (auto simp: send_event_def msgs_def Let_def split: send_outcome.splits)
  have "delivered (w_log s @ msgs) ev" if "outcome = Inr ()"
    using sends(2) that by (auto simp: send_event_def msgs_def Let_def delivered_message split: send_outcome.splits)
  moreover have "delivered (w_log s @ msgs) e" if "(e, Inr ()) \<in> set (ps_outcomes s)" for e
    using sends(3) that delivered_append unfolding pub_ok_def by blast
  ultimately show ?case unfolding t using sends(1)
    by (intro pub_ok_mem [OF sends(3)]) (simp_all, blast+)
next
  case (records ev outcome s f)
  have failing: "pub_ok (handlePublishFailure f ev e s)" for e
    using records(2) unfolding handlePublishFailure_def
    by (auto split: option.splits intro!: pub_ok_update simp: table_le_failed dest: published_others(3) published_old_delivered)
  show ?case
  proof (cases "outcome = Inr () \<and> pf_mark f = None")
    case False
    then show ?thesis using failing records(2) by (auto simp: record_outcome_def split: sum.splits option.splits)
  next
    case True
    have mem: "same_event ev (w_rows s ! ob_id ev)" "delivered (w_log s) ev"
      using records True unfolding pub_ok_def by force+
    have "delivered (w_log s) r" if r: "r \<in> set (markPublished (pf_time f) (ob_id ev) (w_rows s))" "ob_status r = PUBLISHED" for r
    proof (cases "r \<in> set (w_rows s)")
      case True
      show ?thesis by (rule published_old_delivered [OF records(2) True r(2)])
    next
      case False
      with r obtain q where q: "q \<in> set (w_rows s)" "ob_id q = ob_id ev" "same_event q r"
        using published_origin by metis
      then have "w_rows s ! ob_id ev = q" using ids_ok_find records(2) by (metis pub_ok_def)
      with mem q(3) show ?thesis using delivered_same same_event_trans by metis
    qed
    then have "pub_ok (s\<lparr>w_rows := markPublished (pf_time f) (ob_id ev) (w_rows s)\<rparr>)"
      using records(2) by (intro pub_ok_update) (auto simp: table_le_published)
    then show ?thesis using True by (simp add: record_outcome_def)
  qed
next
  case (requeues s now)
  then show ?case by (intro pub_ok_update) (auto simp: table_le_requeue dest: published_others(4) published_old_delivered)
next
  case (resets s now)
  then show ?case by (intro pub_ok_update) (auto simp: table_le_reset dest: published_others(5) published_old_delivered)
next
  case (drops cl s os)
  then have "fst ` set os \<subseteq> fst ` set (ps_outcomes s)" by (simp add: image_mono)
  moreover have "delivered (w_log s @ []) ev" if "(ev, Inr ()) \<in> set os" for ev
    using drops(2,3) that unfolding pub_ok_def by auto
  ultimately have "pub_ok (s\<lparr>w_log := w_log s @ [], ps_claimed := cl, ps_outcomes := os\<rparr>)"
    by (intro pub_ok_mem [OF drops(3,1)]) auto
  then show ?case by simp
qed

interpretation publisher: stepper "pub_step eid" pub_ok for eid
  by unfold_locales (fact pub_step_ok)

interpretation outbox_table: monotone_stepper "pub_step eid" "\<lambda>s t. table_le (w_rows s) (w_rows t)" for eid
  by unfold_locales (auto intro: pub_step_rows table_le_refl table_le_trans)

lemma pub_init_ok: "pub_ok pub_init"
  by (simp add: pub_init_def pub_ok_def ids_ok_def)

text \<open>C34: The outbox delivers what it says it delivered. Workers, each of them at any point of its poll,
  crashes, rejected sends, lost acknowledgements, failing bookkeeping, sweeps and writers may interleave:
  a row marked \<open>PUBLISHED\<close> has its message on the topic, and a row is \<open>DEAD\<close> exactly when its fifth
  attempt failed. A whole poll, whatever happens in it, is such a run.\<close>

theorem outbox_published_was_sent:
  assumes "(pub_step eid)\<^sup>*\<^sup>* pub_init s" and "r \<in> set (w_rows s)"
  shows "(ob_status r = PUBLISHED \<longrightarrow> (\<exists>m \<in> set (w_log s).
            m_topic m = ob_topic r \<and> m_key m = ob_aggregateId r \<and> m_value m = ob_payload r)) \<and>
    (ob_status r = DEAD \<longleftrightarrow> ob_retryCount r = 5) \<and> ob_retryCount r \<le> 5 \<and>
    (pub_step eid)\<^sup>*\<^sup>* pub_init (pollAndPublish eid now claimErr fate s)"
proof -
  have ok: "pub_ok s" using publisher.run_inv [OF assms(1) pub_init_ok] .
  then have "row_shape r" using assms(2) by (simp add: pub_ok_def)
  moreover have "(pub_step eid)\<^sup>*\<^sup>* pub_init (pollAndPublish eid now claimErr fate s)"
    using assms(1) poll_steps by (rule rtranclp_trans)
  ultimately show ?thesis using published_old_delivered [OF ok assms(2)]
    by (auto simp: delivered_def row_shape_def MAX_RETRY_COUNT_def split: if_splits)
qed

text \<open>A poll of a healthy broker.\<close>

lemma publishAll_acked:
  assumes "\<And>ev. ev \<in> set evs \<Longrightarrow> pf_send (fate (ob_id ev)) = Acked \<and> pf_mark (fate (ob_id ev)) = None"
    and "distinct (map ob_id evs)"
  shows "publishAll eid fate evs w =
    w\<lparr>w_rows := fst (update_many (\<lambda>r. ob_id r \<in> set (map ob_id evs) \<and> ob_status r = PROCESSING)
        (\<lambda>r. r\<lparr>ob_status := PUBLISHED, ob_processedAt := Some (pf_time (fate (ob_id r))), ob_updatedAt := pf_time (fate (ob_id r))\<rparr>) (w_rows w)),
      w_log := w_log w @ map (\<lambda>ev. message_of eid (pf_carrier (fate (ob_id ev))) ev) evs\<rparr>"
  using assms
proof (induction evs arbitrary: w)
  case Nil
  then show ?case by (simp add: update_many_def)
next
  case (Cons ev evs)
  let ?f = "fate (ob_id ev)"
  let ?mark = "\<lambda>r. r\<lparr>ob_status := PUBLISHED, ob_processedAt := Some (pf_time (fate (ob_id r))), ob_updatedAt := pf_time (fate (ob_id r))\<rparr>"
  have "publishEvent eid ?f ev w =
      w\<lparr>w_log := w_log w @ [message_of eid (pf_carrier ?f) ev], w_rows := markPublished (pf_time ?f) (ob_id ev) (w_rows w)\<rparr>"
    using Cons.prems(1) by (simp add: publishEvent_def send_event_def record_outcome_def Let_def)
  moreover have "fst (update_many (\<lambda>r. ob_id r \<in> set (map ob_id evs) \<and> ob_status r = PROCESSING) ?mark
        (markPublished (pf_time ?f) (ob_id ev) (w_rows w))) =
      fst (update_many (\<lambda>r. ob_id r \<in> set (map ob_id (ev # evs)) \<and> ob_status r = PROCESSING) ?mark (w_rows w))"
    by (auto simp: update_many_def markPublished_def)
  ultimately show ?case using Cons by simp
qed

lemma poll_publishes:
  assumes "ids_ok (w_rows w)" and "\<forall>i. pf_send (fate i) = Acked \<and> pf_mark (fate i) = None"
  shows "let batch = take 50 (sort_key ob_createdAt (filter (\<lambda>r. ob_status r = PENDING) (w_rows w)));
             w' = pollAndPublish eid now None fate w
         in w_log w' = w_log w @ map (\<lambda>ev. message_of eid (pf_carrier (fate (ob_id ev))) ev) batch \<and>
            w_rows w' = map (\<lambda>r. if r \<in> set batch
                then r\<lparr>ob_status := PUBLISHED, ob_processedAt := Some (pf_time (fate (ob_id r))),
                       ob_updatedAt := pf_time (fate (ob_id r))\<rparr> else r) (w_rows w)"
proof -
  define batch where "batch = take 50 (sort_key ob_createdAt (filter (\<lambda>r. ob_status r = PENDING) (w_rows w)))"
  have pend: "r \<in> set (w_rows w)" "ob_status r = PENDING" if "r \<in> set batch" for r
    using that unfolding batch_def by (auto dest!: in_set_takeD)
  have ids: "ob_id r \<in> ob_id ` set batch \<longleftrightarrow> r \<in> set batch" if "r \<in> set (w_rows w)" for r
  proof
    assume "ob_id r \<in> ob_id ` set batch"
    then obtain q where q: "q \<in> set batch" "ob_id r = ob_id q" by auto
    have "w_rows w ! ob_id r = r" "w_rows w ! ob_id q = q"
      using ids_ok_find [OF assms(1)] that pend(1) [OF q(1)] by blast+
    then have "q = r" unfolding q(2) by metis
    with q(1) show "r \<in> set batch" by simp
  qed simp
  have "distinct (map ob_id (w_rows w))" using assms(1) by (simp add: ids_ok_def)
  then have "distinct (map ob_id (sort_key ob_createdAt (filter (\<lambda>r. ob_status r = PENDING) (w_rows w))))"
    by (simp add: distinct_map inj_on_def)
  then have dis: "distinct (map ob_id batch)" unfolding batch_def by (simp only: distinct_take flip: take_map)
  have claim: "claimPendingEvents now BATCH_SIZE (w_rows w) =
      (batch, map (\<lambda>r. if r \<in> set batch then r\<lparr>ob_status := PROCESSING, ob_updatedAt := now\<rparr> else r) (w_rows w))"
  proof -
    have "map (\<lambda>r. if ob_id r \<in> set (map ob_id batch) then r\<lparr>ob_status := PROCESSING, ob_updatedAt := now\<rparr> else r) (w_rows w) =
        map (\<lambda>r. if r \<in> set batch then r\<lparr>ob_status := PROCESSING, ob_updatedAt := now\<rparr> else r) (w_rows w)"
      using ids by (intro map_cong) auto
    then show ?thesis
      unfolding claimPendingEvents_def Let_def BATCH_SIZE_def batch_def [symmetric] update_many_def
      by (cases "batch = []") (simp_all add: map_idI)
  qed
  show ?thesis
  proof (cases "batch = []")
    case True
    then show ?thesis using claim unfolding batch_def [symmetric] Let_def pollAndPublish_def by simp
  next
    case False
    let ?mark = "\<lambda>r. r\<lparr>ob_status := PUBLISHED, ob_processedAt := Some (pf_time (fate (ob_id r))), ob_updatedAt := pf_time (fate (ob_id r))\<rparr>"
    have rows: "map ((\<lambda>r. if ob_id r \<in> ob_id ` set batch \<and> ob_status r = PROCESSING then ?mark r else r) \<circ>
            (\<lambda>r. if r \<in> set batch then r\<lparr>ob_status := PROCESSING, ob_updatedAt := now\<rparr> else r)) (w_rows w) =
        map (\<lambda>r. if r \<in> set batch then ?mark r else r) (w_rows w)"
      using ids by (intro map_cong) auto
    show ?thesis using False rows assms(2)
      unfolding batch_def [symmetric] Let_def pollAndPublish_def claim
      by (simp add: publishAll_acked [OF _ dis] update_many_def)
  qed
qed

text \<open>One event written, claimed, sent and marked.\<close>

definition sample_data :: "nat CreateOutboxEventData" where
  "sample_data = \<lparr>od_aggregateType = ''Booking'', od_aggregateId = ''b1'', od_eventType = ''e'', od_topic = ''t'', od_payload = 7\<rparr>"

definition sample_row :: "nat OutboxEvent" where
  "sample_row = outbox_insert Map.empty 1000 None sample_data [] ! 0"

definition sample_published :: "nat OutboxEvent" where
  "sample_published = sample_row\<lparr>ob_status := PUBLISHED, ob_processedAt := Some 3000, ob_updatedAt := 3000\<rparr>"

definition healthy :: "time \<Rightarrow> publish_fate" where
  "healthy t = \<lparr>pf_carrier = Map.empty, pf_send = Acked, pf_mark = None, pf_fail = None, pf_time = t\<rparr>"

definition sample_written :: "nat pub_sys" where
  "sample_written = pub_init\<lparr>w_rows := [sample_row]\<rparr>"

lemma sample_run:
  "\<exists>s. (pub_step (\<lambda>_. None))\<^sup>*\<^sup>* pub_init s \<and> w_rows s = [sample_published]"
proof -
  let ?eid = "\<lambda>_ :: nat. None :: string option"
  have ins: "outbox_insert Map.empty 1000 None sample_data [] = [sample_row]"
    by (simp add: sample_row_def outbox_insert_def Let_def)
  have 1: "pub_step ?eid pub_init sample_written"
    using pub_step.inserts [of ?eid pub_init Map.empty 1000 None sample_data] ins by (simp add: pub_init_def sample_written_def)
  have "ob_id sample_row = 0" "ob_status sample_row = PENDING"
    by (simp_all add: sample_row_def outbox_insert_def Let_def)
  then have "w_rows (pollAndPublish ?eid 2000 None (\<lambda>_. healthy 3000) sample_written) = [sample_published]"
    using poll_publishes [of sample_written "\<lambda>_. healthy 3000" ?eid 2000]
    by (simp add: sample_written_def pub_init_def ids_ok_def healthy_def Let_def sample_published_def)
  with converse_rtranclp_into_rtranclp [of "pub_step ?eid", OF 1 poll_steps] show ?thesis by blast
qed

theorem outbox_published_was_sent_witness:
  "\<exists>s. (pub_step (\<lambda>_. None))\<^sup>*\<^sup>* pub_init s \<and> sample_published \<in> set (w_rows s) \<and>
     (\<exists>m \<in> set (w_log s). m_topic m = ''t'' \<and> m_key m = ''b1'' \<and> m_value m = 7)"
proof -
  obtain s where run: "(pub_step (\<lambda>_. None))\<^sup>*\<^sup>* pub_init s" and rows: "w_rows s = [sample_published]"
    using sample_run by auto
  have mem: "sample_published \<in> set (w_rows s)" by (simp add: rows)
  have "ob_status sample_published = PUBLISHED" "ob_topic sample_published = ''t''"
    "ob_aggregateId sample_published = ''b1''" "ob_payload sample_published = 7"
    by (simp_all add: sample_published_def sample_row_def outbox_insert_def Let_def sample_data_def)
  with outbox_published_was_sent [OF run mem] run mem show ?thesis by auto
qed

text \<open>C35: No step of any worker, sweep or writer loses, changes or reverts an event: a row that
  was committed is there in every later state with the same id, aggregate, type, topic, payload
  and headers, its failure count only grows, and once it is \<open>PUBLISHED\<close> or \<open>DEAD\<close> it never
  changes again.\<close>

theorem outbox_rows_durable:
  assumes "(pub_step eid)\<^sup>*\<^sup>* pub_init s" and "(pub_step eid)\<^sup>*\<^sup>* s t" and "r \<in> set (w_rows s)"
  shows "\<exists>r' \<in> set (w_rows t). same_event r r' \<and> ob_retryCount r \<le> ob_retryCount r' \<and>
    (ob_status r \<in> {PUBLISHED, DEAD} \<longrightarrow> r' = r)"
proof -
  have "ids_ok (w_rows s)" using publisher.run_inv [OF assms(1) pub_init_ok] by (simp add: pub_ok_def)
  moreover have "table_le (w_rows s) (w_rows t)" using outbox_table.run_le [OF assms(2)] .
  ultimately have "ob_id r < length (w_rows t)" "evolves r (w_rows t ! ob_id r)"
    using ids_ok_find [OF _ assms(3)] by (metis table_le_def order.strict_trans2)+
  then show ?thesis by (intro bexI [of _ "w_rows t ! ob_id r"]) (auto simp: evolves_def final_row_def)
qed

theorem outbox_rows_durable_witness:
  "\<exists>s. (pub_step (\<lambda>_. None))\<^sup>*\<^sup>* pub_init s \<and> (\<exists>r' \<in> set (w_rows s). r' = sample_published)"
proof -
  obtain s where run: "(pub_step (\<lambda>_. None))\<^sup>*\<^sup>* pub_init s" and rows: "w_rows s = [sample_published]"
    using sample_run by auto
  have mem: "sample_published \<in> set (w_rows s)" by (simp add: rows)
  have "ob_status sample_published = PUBLISHED" by (simp add: sample_published_def)
  with outbox_rows_durable [OF run rtranclp.rtrancl_refl mem] run show ?thesis by auto
qed

lemma nth_update: "i < length rows \<Longrightarrow> fst (update_many p f rows) ! i = (if p (rows ! i) then f (rows ! i) else rows ! i)"
  by (simp add: update_many_def)

text \<open>A failed publication is retried with doubling delays and then given up: the first four
  failures of a claimed row make it \<open>FAILED\<close> with a delay of 60, 120, 240 and 480 seconds, the
  requeue sweep puts it back exactly from that moment on, and the fifth failure makes it
  \<open>DEAD\<close>, which no sweep touches. The fifth delay of the table, 960 seconds, is never used.\<close>

theorem outbox_retry_schedule:
  assumes "ids_ok rows" and "r \<in> set rows" and "ob_status r = PROCESSING" and "ob_retryCount r < 5"
  shows "let (becameDead, rows') = markFailed now (ob_id r) e (ob_retryCount r) rows;
             due = now + 60000 * 2 ^ ob_retryCount r
         in (ob_retryCount r < 4 \<longrightarrow> \<not> becameDead \<and>
               rows' ! ob_id r = r\<lparr>ob_status := FAILED, ob_errorMessage := Some e,
                 ob_retryCount := ob_retryCount r + 1, ob_nextRetryAt := Some due, ob_updatedAt := now\<rparr> \<and>
               (\<forall>t. ob_status (requeueFailedEvents t rows' ! ob_id r) = (if due \<le> t then PENDING else FAILED))) \<and>
            (ob_retryCount r = 4 \<longrightarrow> becameDead \<and> ob_status (rows' ! ob_id r) = DEAD \<and>
               (\<forall>t. requeueFailedEvents t rows' ! ob_id r = rows' ! ob_id r \<and>
                    resetStuckProcessingEvents t rows' ! ob_id r = rows' ! ob_id r))"
proof -
  let ?i = "ob_id r"
  have i: "?i < length rows" "rows ! ?i = r" using ids_ok_find [OF assms(1,2)] by auto
  show ?thesis
  proof (cases "ob_retryCount r = 4")
    case True
    let ?p = "\<lambda>q. ob_id q = ?i \<and> ob_status q = PROCESSING \<and> ob_retryCount q = ob_retryCount r"
    have "length (filter ?p rows) \<noteq> 0" using assms(2,3) by (auto simp: filter_empty_conv)
    then have "fst (markFailed now ?i e (ob_retryCount r) rows)"
      using True by (simp add: markFailed_def MAX_RETRY_COUNT_def update_many_def)
    moreover have "snd (markFailed now ?i e (ob_retryCount r) rows) ! ?i =
        r\<lparr>ob_status := DEAD, ob_errorMessage := Some e, ob_retryCount := 5, ob_processedAt := Some now, ob_updatedAt := now\<rparr>"
      using True i assms(3) by (simp add: markFailed_def MAX_RETRY_COUNT_def update_many_def)
    ultimately show ?thesis using True i
      by (simp add: case_prod_unfold Let_def requeueFailedEvents_def resetStuckProcessingEvents_def nth_update)
  next
    case False
    then have lt: "ob_retryCount r < 4" using assms(4) by simp
    then have d: "BACKOFF_DELAY_MS ! ob_retryCount r = 60000 * 2 ^ ob_retryCount r"
      by (auto simp: BACKOFF_DELAY_MS_def numeral_eq_Suc less_Suc_eq)
    have row: "snd (markFailed now ?i e (ob_retryCount r) rows) ! ?i =
        r\<lparr>ob_status := FAILED, ob_errorMessage := Some e, ob_retryCount := ob_retryCount r + 1,
          ob_nextRetryAt := Some (now + 60000 * 2 ^ ob_retryCount r), ob_updatedAt := now\<rparr>"
      and alive: "\<not> fst (markFailed now ?i e (ob_retryCount r) rows)"
      using lt i assms(3) d by (simp_all add: markFailed_def MAX_RETRY_COUNT_def nth_update BACKOFF_DELAY_MS_def)
    then show ?thesis using lt i
      by (simp add: case_prod_unfold Let_def requeueFailedEvents_def nth_update MAX_RETRY_COUNT_def)
  qed
qed

theorem outbox_retry_schedule_witness:
  "let row = sample_row\<lparr>ob_status := PROCESSING, ob_retryCount := 4\<rparr>
   in fst (markFailed 9000 0 ''down'' 4 [row]) \<and> ob_status (snd (markFailed 9000 0 ''down'' 4 [row]) ! 0) = DEAD"
proof -
  let ?row = "sample_row\<lparr>ob_status := PROCESSING, ob_retryCount := 4\<rparr>"
  have i: "ob_id ?row = 0" by (simp add: sample_row_def outbox_insert_def Let_def)
  have "ids_ok [?row]" "?row \<in> set [?row]" "ob_status ?row = PROCESSING" "ob_retryCount ?row < 5"
    using i by (simp_all add: ids_ok_def)
  from outbox_retry_schedule [OF this, of 9000 "''down''"] show ?thesis
    unfolding Let_def i by (simp add: case_prod_unfold)
qed

section \<open>One poll\<close>

text \<open>C36: A poll against a healthy broker takes the oldest pending events, at most a batch, sends
  each of them exactly once in the order in which they were created, marks exactly those rows as
  published, and leaves every other row alone.\<close>

theorem outbox_poll_publishes_batch:
  assumes "ids_ok (w_rows w)" and "\<forall>i. pf_send (fate i) = Acked \<and> pf_mark (fate i) = None"
  shows "let batch = take 50 (sort_key ob_createdAt (filter (\<lambda>r. ob_status r = PENDING) (w_rows w)));
             w' = pollAndPublish eid now None fate w
         in w_log w' = w_log w @ map (\<lambda>ev. message_of eid (pf_carrier (fate (ob_id ev))) ev) batch \<and>
            w_rows w' = map (\<lambda>r. if r \<in> set batch
                then r\<lparr>ob_status := PUBLISHED, ob_processedAt := Some (pf_time (fate (ob_id r))),
                       ob_updatedAt := pf_time (fate (ob_id r))\<rparr> else r) (w_rows w)"
  using poll_publishes [OF assms] .

theorem outbox_poll_publishes_batch_witness:
  "w_rows (pollAndPublish (\<lambda>_. None) 2000 None (\<lambda>_. healthy 3000) \<lparr>w_rows = [sample_row], w_log = []\<rparr>) = [sample_published]"
proof -
  have s: "ob_id sample_row = 0" "ob_status sample_row = PENDING"
    by (simp_all add: sample_row_def outbox_insert_def Let_def)
  then have "ids_ok (w_rows \<lparr>w_rows = [sample_row], w_log = []\<rparr>)" by (simp add: ids_ok_def)
  from outbox_poll_publishes_batch [OF this, of "\<lambda>_. healthy 3000" "\<lambda>_. None" 2000] s show ?thesis
    by (simp add: Let_def sample_published_def healthy_def)
qed

end
