(* ===== verification/Contracts.thy ===== *)
theory Contracts
  imports Outbox
begin

text \<open>
  The event contracts of \<open>packages/contracts\<close> that the booking, inventory and payment services
  exchange. A record holds the fields of the parsed event; the timestamp \<open>createdAt\<close> of an
  outgoing event is left out where nothing reads it. \<open>event\<close> is the payload of an outbox row.
\<close>

datatype BookingStatus =
  Pending | SeatsHeld | PaymentPending | Confirming | Confirmed | Cancelling | Cancelled | Expired | Failed

record HoldSeatsRequestedV1 =
  hr_eventId :: ident
  hr_bookingId :: ident
  hr_scheduleId :: ident
  hr_userId :: ident
  hr_seatInventoryIds :: "ident list"
  hr_fromStaionId :: ident
  hr_toStationId :: ident
  hr_fromSequence :: int
  hr_toSequence :: int
  hr_holdTtlMs :: int

record SeatAllocationV1 =
  sa_seatId :: ident
  sa_seatInventoryId :: ident
  sa_coachNumber :: string
  sa_seatNumber :: int
  sa_seatType :: string
  sa_price :: rat

record SeatsHeldV1 =
  sh_eventId :: ident
  sh_bookingId :: ident
  sh_allocations :: "SeatAllocationV1 list"
  sh_holdExpiresAt :: time

datatype SeatHoldFailureReason =
  SEAT_ALREADY_HELD | SCHEDULE_NOT_FOUND | SEAT_NOT_FOUND | SEGMENT_CONFLICT | INTERNAL_ERROR

record SeatsHoldFailedV1 =
  hf_eventId :: ident
  hf_bookingId :: ident
  hf_reason :: SeatHoldFailureReason
  hf_message :: string
  hf_failedSeatInventoryIds :: "ident list"

record SeatHoldExpiredV1 =
  he_eventId :: ident
  he_bookingId :: ident
  he_expiredAt :: time

record BookingStatusChangedV1 =
  bs_eventId :: ident
  bs_bookingId :: ident
  bs_pnr :: string
  bs_userId :: ident
  bs_previousStatus :: "BookingStatus option"
  bs_currentStatus :: BookingStatus
  bs_version :: int

record PaymentOrderCreatedV1 =
  po_eventId :: ident
  po_bookingId :: ident
  po_paymentOrderId :: ident
  po_razorpayOrderId :: string
  po_amount :: string
  po_currency :: string

datatype payment_source = CLIENT | WEBHOOK

record PaymentSuccessV1 =
  ps_eventId :: ident
  ps_bookingId :: ident
  ps_paymentId :: ident
  ps_paymentOrderId :: ident
  ps_razorpayPaymentId :: string
  ps_amount :: string
  ps_source :: payment_source

record PaymentFailedV1 =
  pf_eventId :: ident
  pf_bookingId :: ident
  pf_paymentOrderId :: ident
  pf_reason :: string

record ScheduleProjectedV1 =
  sp_eventId :: ident
  sp_scheduleId :: ident
  sp_version :: int

datatype ScheduleInventoryStatus = ACTIVE | CANCELLED_SCHEDULE

record ScheduleProjectionStatusV1 =
  ss_eventId :: ident
  ss_scheduleId :: ident
  ss_status :: ScheduleInventoryStatus
  ss_version :: int

datatype event =
    HoldSeatsRequested HoldSeatsRequestedV1
  | EvSeatsHeld SeatsHeldV1
  | EvSeatsHoldFailed SeatsHoldFailedV1
  | EvSeatHoldExpired SeatHoldExpiredV1
  | EvBookingStatusChanged BookingStatusChangedV1
  | EvPaymentOrderCreated PaymentOrderCreatedV1
  | EvPaymentSuccess PaymentSuccessV1
  | EvPaymentFailed PaymentFailedV1
  | EvScheduleProjected ScheduleProjectedV1
  | EvScheduleStatus ScheduleProjectionStatusV1

fun event_id :: "event \<Rightarrow> string option" where
  "event_id (HoldSeatsRequested e) = Some (hr_eventId e)"
| "event_id (EvSeatsHeld e) = Some (sh_eventId e)"
| "event_id (EvSeatsHoldFailed e) = Some (hf_eventId e)"
| "event_id (EvSeatHoldExpired e) = Some (he_eventId e)"
| "event_id (EvBookingStatusChanged e) = Some (bs_eventId e)"
| "event_id (EvPaymentOrderCreated e) = Some (po_eventId e)"
| "event_id (EvPaymentSuccess e) = Some (ps_eventId e)"
| "event_id (EvPaymentFailed e) = Some (pf_eventId e)"
| "event_id (EvScheduleProjected e) = Some (sp_eventId e)"
| "event_id (EvScheduleStatus e) = Some (ss_eventId e)"

definition outbox_payloads :: "event OutboxEvent list \<Rightarrow> event list" where
  "outbox_payloads rows = map ob_payload rows"

lemma outbox_payloads_insert [simp]:
  "outbox_payloads (outbox_insert carrier now hs d rows) = outbox_payloads rows @ [od_payload d]"
  by (simp add: outbox_payloads_def outbox_insert_def Let_def)

lemma outbox_payloads_Nil [simp]: "outbox_payloads [] = []"
  by (simp add: outbox_payloads_def)

end
