(* ===== verification/Redis.thy ===== *)
theory Redis
  imports Prelude
begin

text \<open>
  The Redis commands the services send, over a store of values with optional expiry. The values are
  strings in \<open>redis\<close>; the user service's store has values of several shapes.

  A key is live at \<open>now\<close> while \<open>now\<close> is before its expiry (milliseconds); an expired key
  reads as absent. A Lua script or a command runs atomically at one moment, so a call is one
  function of the store. \<open>link\<close> says what happens to the connection during a call:
  the reply arrives, the command never reached the server, or it ran and the reply was lost; in
  the last two cases \<open>ioredis\<close> rejects the promise. \<open>SET ... EX\<close> with a time that is
  not positive is the server's error \<open>invalid expire time\<close>.

  \<open>lock_service\<close> is the contract of the seat locks: what the calls of other owners leave
  alone. Its lemma \<open>owner_kept\<close> is the mutual exclusion of every client.
\<close>

type_synonym 'v store = "string \<rightharpoonup> 'v \<times> time option"
type_synonym redis = "string store"

datatype link = Reply | Unreachable | ReplyLost

definition live :: "time \<Rightarrow> 'v \<times> time option \<Rightarrow> bool" where
  "live now e = (case snd e of None \<Rightarrow> True | Some x \<Rightarrow> now < x)"

definition redis_get :: "time \<Rightarrow> string \<Rightarrow> 'v store \<Rightarrow> 'v option" where
  "redis_get now k st = (case st k of None \<Rightarrow> None | Some e \<Rightarrow> if live now e then Some (fst e) else None)"

definition redis_set_ex :: "time \<Rightarrow> string \<Rightarrow> 'v \<Rightarrow> int \<Rightarrow> ('v store, bool) proc" where
  "redis_set_ex now k v ttl st =
     (if ttl \<le> 0 then (Inl (PlainError ''ERR invalid expire time''), st)
      else (Inr True, st(k \<mapsto> (v, Some (now + ttl * 1000)))))"

definition redis_set_nx_ex :: "time \<Rightarrow> string \<Rightarrow> string \<Rightarrow> int \<Rightarrow> (redis, bool) proc" where
  "redis_set_nx_ex now k v ttl st =
     (if ttl \<le> 0 then (Inl (PlainError ''ERR invalid expire time''), st)
      else if redis_get now k st = None then (Inr True, st(k \<mapsto> (v, Some (now + ttl * 1000))))
      else (Inr False, st))"

definition redis_del :: "time \<Rightarrow> string \<Rightarrow> redis \<Rightarrow> int \<times> redis" where
  "redis_del now k st = (if redis_get now k st = None then 0 else 1, st(k := None))"

definition redis_expire :: "time \<Rightarrow> string \<Rightarrow> int \<Rightarrow> 'v store \<Rightarrow> 'v store" where
  "redis_expire now k ttl st =
     (case st k of
        None \<Rightarrow> st
      | Some e \<Rightarrow> if \<not> live now e then st
                  else if ttl \<le> 0 then st(k := None)
                  else st(k \<mapsto> (fst e, Some (now + ttl * 1000))))"

definition over_link :: "link \<Rightarrow> ('s, 'a) proc \<Rightarrow> ('s, 'a) proc" where
  "over_link lk c st =
     (case lk of
        Reply \<Rightarrow> c st
      | Unreachable \<Rightarrow> (Inl (PlainError ''connection''), st)
      | ReplyLost \<Rightarrow> (Inl (PlainError ''connection''), snd (c st)))"

lemma live_earlier: "live u e \<Longrightarrow> t \<le> u \<Longrightarrow> live t e"
  by (auto simp: live_def split: option.splits)

lemma redis_get_earlier: "redis_get u k st = Some v \<Longrightarrow> t \<le> u \<Longrightarrow> redis_get t k st = Some v"
  by (auto simp: redis_get_def live_earlier split: option.splits if_splits)

lemma redis_get_upd:
  "redis_get now k (st(k' \<mapsto> (v, Some x))) =
     (if k = k' then if now < x then Some v else None else redis_get now k st)"
  by (simp add: redis_get_def live_def)

lemma redis_get_none_upd:
  "redis_get now k (st(k' := None)) = (if k = k' then None else redis_get now k st)"
  by (simp add: redis_get_def)

lemma redis_get_expire:
  assumes "now \<le> t" and "redis_get now k st \<noteq> None"
  shows "redis_get t k' (redis_expire now k ttl st) =
    (if k' = k then if t < now + ttl * 1000 then redis_get now k st else None else redis_get t k' st)"
  using assms by (auto simp: redis_get_def redis_expire_def live_def split: option.splits if_splits)

lemma redis_get_expire_other: "k \<noteq> k' \<Longrightarrow> redis_get t k' (redis_expire now k ttl st) = redis_get t k' st"
  by (cases "st k") (simp_all add: redis_get_def redis_expire_def)

lemma over_link_preserves: "P st \<Longrightarrow> P (snd (c st)) \<Longrightarrow> P (snd (over_link lk c st))"
  by (simp add: over_link_def split: link.splits)

lemma over_link_Inr: "over_link lk c st = (Inr x, st') \<longleftrightarrow> lk = Reply \<and> c st = (Inr x, st')"
  by (simp add: over_link_def split: link.splits)

section \<open>The contract of a lock service\<close>

text \<open>A run of calls by owners other than \<open>a\<close>, at times that do not go back.\<close>

inductive lock_run :: "(time \<Rightarrow> string \<Rightarrow> redis \<Rightarrow> redis \<Rightarrow> bool) \<Rightarrow> string \<Rightarrow> time \<Rightarrow> redis \<Rightarrow> time \<Rightarrow> redis \<Rightarrow> bool"
  for call a where
  idle: "lock_run call a t s t s"
| other: "lock_run call a t s u s' \<Longrightarrow> u \<le> v \<Longrightarrow> tok \<noteq> a \<Longrightarrow> call v tok s' s'' \<Longrightarrow>
    lock_run call a t s v s''"

locale lock_service =
  fixes keys :: "'q \<Rightarrow> string list"
    and acquire :: "link \<Rightarrow> time \<Rightarrow> 'q \<Rightarrow> string \<Rightarrow> int \<Rightarrow> redis \<Rightarrow> bool \<times> redis"
    and call :: "time \<Rightarrow> string \<Rightarrow> redis \<Rightarrow> redis \<Rightarrow> bool"
  assumes call_frame: "call t tok st st' \<Longrightarrow> tok \<noteq> a \<Longrightarrow> t \<le> u \<Longrightarrow>
      redis_get u k st = Some a \<Longrightarrow> redis_get u k st' = Some a"
    and acquire_won: "acquire lk t q a ttl st = (True, st') \<Longrightarrow> k \<in> set (keys q) \<Longrightarrow> u < t + ttl * 1000 \<Longrightarrow>
      redis_get u k st' = Some a"
    and acquire_conflict: "k \<in> set (keys q) \<Longrightarrow> redis_get t k st = Some a \<Longrightarrow>
      \<not> fst (acquire lk t q tok ttl st)"
begin

lemma owner_kept:
  "lock_run call a t s u s' \<Longrightarrow> redis_get d k s = Some a \<Longrightarrow> u \<le> d \<Longrightarrow> redis_get d k s' = Some a"
proof (induction rule: lock_run.induct)
  case (idle t s)
  then show ?case by simp
next
  case (other t s u s' v tok s'')
  then show ?case using call_frame by auto
qed

lemma mutual_exclusion:
  assumes "acquire lk t q a ttl s = (True, s1)" and "lock_run call a t s1 u s2"
    and "u < t + ttl * 1000" and "k \<in> set (keys q)" and "k \<in> set (keys q')"
  shows "redis_get u k s2 = Some a \<and> \<not> fst (acquire lk' u q' b ttl' s2)"
proof -
  have "redis_get u k s1 = Some a" using acquire_won assms by blast
  then have "redis_get u k s2 = Some a" using owner_kept assms(2) by blast
  then show ?thesis using acquire_conflict assms(5) by blast
qed

end

end
