(* ===== verification/SeatLocks.thy ===== *)
theory SeatLocks
  imports Redis "HOL-Library.Product_Lexorder" "HOL-Library.Multiset"
begin

text \<open>
  The distributed seat locks: the Lua scripts \<open>seat-lock.lua\<close>, \<open>seat-unlock.lua\<close> (the same text
  in \<open>booking-service\<close> and \<open>inventory-service\<close>) and \<open>seat-renew.lua\<close>, and the two
  \<open>SeatLockService\<close> classes that build the keys and run the scripts.

  A script aborts at the first \<open>redis.call\<close> that raises and keeps what it wrote until then.
  Both services catch every error of \<open>redis.eval\<close> and turn it into \<open>false\<close> or \<open>0\<close>. Seat
  ids are sorted with \<open>localeCompare\<close>, which on UUIDs of one case is the order of the
  characters, \<open>sort\<close> here.
\<close>

section \<open>The scripts\<close>

fun del_all :: "time \<Rightarrow> string list \<Rightarrow> redis \<Rightarrow> redis" where
  "del_all now [] st = st"
| "del_all now (k # ks) st = del_all now ks (snd (redis_del now k st))"

fun lock_loop :: "time \<Rightarrow> string \<Rightarrow> int \<Rightarrow> string list \<Rightarrow> string list \<Rightarrow> (redis, int) proc" where
  "lock_loop now v ttl acquired [] st = (Inr 1, st)"
| "lock_loop now v ttl acquired (k # ks) st =
     (case redis_set_nx_ex now k v ttl st of
        (Inl e, st') \<Rightarrow> (Inl e, st')
      | (Inr False, st') \<Rightarrow> (Inr 0, del_all now acquired st')
      | (Inr True, st') \<Rightarrow> lock_loop now v ttl (acquired @ [k]) ks st')"

definition seatLockLua :: "time \<Rightarrow> string list \<Rightarrow> string \<Rightarrow> int \<Rightarrow> (redis, int) proc" where
  "seatLockLua now keys v ttl = lock_loop now v ttl [] keys"

fun seatUnlockLua :: "time \<Rightarrow> string list \<Rightarrow> string \<Rightarrow> redis \<Rightarrow> int \<times> redis" where
  "seatUnlockLua now [] v st = (0, st)"
| "seatUnlockLua now (k # ks) v st =
     (if redis_get now k st = Some v
      then (case seatUnlockLua now ks v (snd (redis_del now k st)) of (n, st') \<Rightarrow> (n + 1, st'))
      else seatUnlockLua now ks v st)"

fun expire_all :: "time \<Rightarrow> int \<Rightarrow> string list \<Rightarrow> redis \<Rightarrow> redis" where
  "expire_all now ttl [] st = st"
| "expire_all now ttl (k # ks) st = expire_all now ttl ks (redis_expire now k ttl st)"

definition seatRenewLua :: "time \<Rightarrow> string list \<Rightarrow> string \<Rightarrow> int \<Rightarrow> redis \<Rightarrow> int \<times> redis" where
  "seatRenewLua now keys v ttl st =
     (if list_all (\<lambda>k. redis_get now k st = Some v) keys then (1, expire_all now ttl keys st) else (0, st))"

lemma redis_get_del_all:
  "redis_get u k (del_all now ks st) = (if k \<in> set ks then None else redis_get u k st)"
  by (induction ks arbitrary: st) (auto simp: redis_del_def redis_get_none_upd)

lemma lock_loop_won:
  assumes "0 < ttl" and "distinct keys" and "\<forall>k \<in> set keys. redis_get now k st = None"
  shows "lock_loop now v ttl acquired keys st =
    (Inr 1, \<lambda>k. if k \<in> set keys then Some (v, Some (now + ttl * 1000)) else st k)"
  using assms(2,3)
proof (induction keys arbitrary: acquired st)
  case (Cons k ks)
  then have "\<forall>x \<in> set ks. redis_get now x (st(k \<mapsto> (v, Some (now + ttl * 1000)))) = None"
    by (auto simp: redis_get_upd)
  then show ?case using Cons assms(1) by (auto simp: redis_set_nx_ex_def fun_eq_iff)
qed simp

lemma lock_loop_lost:
  assumes "0 < ttl" and "\<not> (distinct keys \<and> (\<forall>k \<in> set keys. redis_get now k st = None))"
  shows "\<exists>st'. lock_loop now v ttl acquired keys st = (Inr 0, st') \<and>
    (\<forall>u \<ge> now. \<forall>x. redis_get u x st' = (if x \<in> set acquired then None else redis_get u x st))"
  using assms(2)
proof (induction keys arbitrary: acquired st)
  case (Cons k ks)
  show ?case
  proof (cases "redis_get now k st")
    case (Some w)
    then show ?thesis using assms(1) by (simp add: redis_set_nx_ex_def redis_get_del_all)
  next
    case None
    let ?st = "st(k \<mapsto> (v, Some (now + ttl * 1000)))"
    have "\<not> (distinct ks \<and> (\<forall>x \<in> set ks. redis_get now x ?st = None))"
      using Cons.prems None assms(1) by (auto simp: redis_get_upd)
    from Cons.IH [OF this, of "acquired @ [k]"] obtain st' where
      st': "lock_loop now v ttl (acquired @ [k]) ks ?st = (Inr 0, st')"
      and get: "\<forall>u \<ge> now. \<forall>x. redis_get u x st' =
        (if x \<in> set (acquired @ [k]) then None else redis_get u x ?st)" by blast
    have late: "redis_get u k st = None" if "now \<le> u" for u
      using None that redis_get_earlier [of u k st _ now] by (cases "redis_get u k st") auto
    have "\<forall>u \<ge> now. \<forall>x. redis_get u x st' = (if x \<in> set acquired then None else redis_get u x st)"
      using get late by (auto simp: redis_get_upd)
    then show ?thesis using st' None assms(1) by (simp add: redis_set_nx_ex_def)
  qed
qed simp

lemma lock_loop_invalid: "ttl \<le> 0 \<Longrightarrow> keys \<noteq> [] \<Longrightarrow> snd (lock_loop now v ttl acquired keys st) = st \<and>
    (\<exists>e. fst (lock_loop now v ttl acquired keys st) = Inl e)"
  by (cases keys) (simp_all add: redis_set_nx_ex_def)

text \<open>The two outcomes of the lock script: every key is set, or nothing live changes.\<close>

lemma seatLockLua_won:
  "0 < ttl \<Longrightarrow> distinct keys \<Longrightarrow> \<forall>k \<in> set keys. redis_get now k st = None \<Longrightarrow>
    seatLockLua now keys v ttl st =
      (Inr 1, \<lambda>k. if k \<in> set keys then Some (v, Some (now + ttl * 1000)) else st k)"
  by (simp add: seatLockLua_def lock_loop_won)

lemma seatLockLua_lost:
  assumes "keys \<noteq> []" and "\<not> (0 < ttl \<and> distinct keys \<and> (\<forall>k \<in> set keys. redis_get now k st = None))"
  shows "fst (seatLockLua now keys v ttl st) \<noteq> Inr 1 \<and>
    (\<forall>u \<ge> now. \<forall>x. redis_get u x (snd (seatLockLua now keys v ttl st)) = redis_get u x st)"
proof (cases "0 < ttl")
  case True
  with assms lock_loop_lost [of ttl keys now st v "[]"] show ?thesis by (auto simp: seatLockLua_def)
next
  case False
  with assms lock_loop_invalid [of ttl keys now v "[]" st] show ?thesis by (auto simp: seatLockLua_def)
qed

lemma seatLockLua_iff:
  assumes "keys \<noteq> []"
  shows "fst (seatLockLua now keys v ttl st) = Inr 1 \<longleftrightarrow>
    0 < ttl \<and> distinct keys \<and> (\<forall>k \<in> set keys. redis_get now k st = None)"
proof (cases "0 < ttl \<and> distinct keys \<and> (\<forall>k \<in> set keys. redis_get now k st = None)")
  case True
  then show ?thesis using seatLockLua_won [of ttl keys now st v] by simp
next
  case False
  then show ?thesis using seatLockLua_lost [OF assms, of ttl now st v] by blast
qed

lemma seatLockLua_frame:
  assumes "now \<le> u" and "redis_get u k st = Some a" and "keys \<noteq> []"
  shows "redis_get u k (snd (seatLockLua now keys v ttl st)) = Some a"
proof (cases "0 < ttl \<and> distinct keys \<and> (\<forall>k \<in> set keys. redis_get now k st = None)")
  case True
  moreover have "redis_get now k st = Some a" using assms(1,2) by (rule redis_get_earlier [rotated])
  ultimately have "k \<notin> set keys" by auto
  then show ?thesis using True assms seatLockLua_won [of ttl keys now st v] by (simp add: redis_get_def)
next
  case False
  then show ?thesis using seatLockLua_lost [OF assms(3), of ttl now st v] assms by auto
qed

lemma seatUnlockLua_get:
  assumes "now \<le> u"
  shows "redis_get u k (snd (seatUnlockLua now keys v st)) =
    (if k \<in> set keys \<and> redis_get now k st = Some v then None else redis_get u k st)"
proof (induction keys arbitrary: st)
  case (Cons x xs)
  then show ?case
    by (auto simp: redis_del_def redis_get_none_upd split: prod.splits if_splits)
       (metis snd_conv redis_get_none_upd option.distinct(1))+
qed simp

lemma seatUnlockLua_count:
  "distinct keys \<Longrightarrow> fst (seatUnlockLua now keys v st) =
    int (length (filter (\<lambda>k. redis_get now k st = Some v) keys))"
proof (induction keys arbitrary: st)
  case (Cons x xs)
  have "filter (\<lambda>k. redis_get now k (st(x := None)) = Some v) xs = filter (\<lambda>k. redis_get now k st = Some v) xs"
    using Cons.prems by (intro filter_cong) (auto simp: redis_get_none_upd)
  then show ?case using Cons by (simp add: redis_del_def split: prod.splits) (metis fst_conv)
qed simp

lemma expire_all_get:
  assumes "now \<le> u" and "\<forall>k \<in> set keys. redis_get now k st = Some v" and "0 < ttl"
  shows "redis_get u x (expire_all now ttl keys st) =
    (if x \<in> set keys then if u < now + ttl * 1000 then Some v else None else redis_get u x st)"
  using assms(2)
proof (induction keys arbitrary: st)
  case (Cons k ks)
  have "\<forall>y \<in> set ks. redis_get now y (redis_expire now k ttl st) = Some v"
    using Cons.prems assms(3) redis_get_expire [of now now k st _ ttl] by auto
  from Cons.IH [OF this] show ?case
    using Cons.prems redis_get_expire [OF assms(1), of k st x ttl] by auto
qed simp

lemma seatRenewLua_frame:
  assumes "now \<le> u" and "redis_get u k st = Some a" and "a \<noteq> v"
  shows "redis_get u k (snd (seatRenewLua now keys v ttl st)) = Some a"
proof -
  have "redis_get now k st = Some a" using assms(1,2) by (rule redis_get_earlier [rotated])
  moreover have "redis_get u k (expire_all now ttl keys st) = Some a" if "k \<notin> set keys"
    using that assms(2) by (induction keys arbitrary: st) (auto simp: redis_get_expire_other)
  ultimately show ?thesis using assms by (cases "k \<in> set keys") (auto simp: seatRenewLua_def list_all_iff)
qed

section \<open>The booking service's locks\<close>

text \<open>\<open>AcquireSeatLocksArgs\<close> without the token and the time to live, which are arguments
  of the operations.\<close>

record seat_query =
  q_scheduleId :: ident
  q_seatIds :: "ident list"
  q_legIndices :: "int list option"

definition getLockKeys :: "seat_query \<Rightarrow> string list" where
  "getLockKeys q =
     (let seats = sort (q_seatIds q);
          base = (\<lambda>i. ''booking:lock:seat:'' @ q_scheduleId q @ '':'' @ i)
      in case q_legIndices q of
           None \<Rightarrow> map base seats
         | Some [] \<Rightarrow> map base seats
         | Some legs \<Rightarrow>
             concat (map (\<lambda>i. map (\<lambda>n. base i @ '':leg:'' @ show_int n) (sort (remdups legs))) seats))"

definition acquireSeatLocks :: "link \<Rightarrow> time \<Rightarrow> seat_query \<Rightarrow> string \<Rightarrow> int \<Rightarrow> redis \<Rightarrow> bool \<times> redis" where
  "acquireSeatLocks lk now q lockToken ttlSeconds st =
     (if q_seatIds q = [] then (True, st)
      else case over_link lk (seatLockLua now (getLockKeys q) lockToken ttlSeconds) st of
             (Inr n, st') \<Rightarrow> (n = 1, st')
           | (Inl e, st') \<Rightarrow> (False, st'))"

definition releaseSeatLocks :: "link \<Rightarrow> time \<Rightarrow> seat_query \<Rightarrow> string \<Rightarrow> redis \<Rightarrow> int \<times> redis" where
  "releaseSeatLocks lk now q lockToken st =
     (if q_seatIds q = [] then (0, st)
      else case over_link lk (\<lambda>s. case seatUnlockLua now (getLockKeys q) lockToken s of (n, s') \<Rightarrow> (Inr n, s')) st of
             (Inr n, st') \<Rightarrow> (n, st')
           | (Inl e, st') \<Rightarrow> (0, st'))"

definition renewSeatLocks :: "link \<Rightarrow> time \<Rightarrow> seat_query \<Rightarrow> string \<Rightarrow> int \<Rightarrow> redis \<Rightarrow> bool \<times> redis" where
  "renewSeatLocks lk now q lockToken ttlSeconds st =
     (if q_seatIds q = [] then (True, st)
      else case over_link lk (\<lambda>s. case seatRenewLua now (getLockKeys q) lockToken ttlSeconds s of (n, s') \<Rightarrow> (Inr n, s')) st of
             (Inr n, st') \<Rightarrow> (n = 1, st')
           | (Inl e, st') \<Rightarrow> (False, st'))"

inductive booking_lock_call :: "time \<Rightarrow> string \<Rightarrow> redis \<Rightarrow> redis \<Rightarrow> bool" where
  acquires: "booking_lock_call t tok st (snd (acquireSeatLocks lk t q tok ttl st))"
| releases: "booking_lock_call t tok st (snd (releaseSeatLocks lk t q tok st))"
| renews: "booking_lock_call t tok st (snd (renewSeatLocks lk t q tok ttl st))"

text \<open>Neither branch of the key builder yields an empty list for a request with seats.\<close>

lemma getLockKeys_nonempty: "q_seatIds q \<noteq> [] \<Longrightarrow> getLockKeys q \<noteq> []"
proof -
  assume "q_seatIds q \<noteq> []"
  then obtain x where x: "x \<in> set (q_seatIds q)" by (cases "q_seatIds q") auto
  have "set (getLockKeys q) \<noteq> {}"
    using x by (auto simp: getLockKeys_def Let_def simp flip: set_empty split: option.splits list.splits)
  then show "getLockKeys q \<noteq> []" by auto
qed

lemma getLockKeys_empty [simp]: "q_seatIds q = [] \<Longrightarrow> getLockKeys q = []"
  by (simp add: getLockKeys_def Let_def split: option.splits list.splits)

lemma releaseSeatLocks_Reply:
  "q_seatIds q \<noteq> [] \<Longrightarrow> releaseSeatLocks Reply now q v st = seatUnlockLua now (getLockKeys q) v st"
  by (simp add: releaseSeatLocks_def over_link_def case_prod_unfold)

lemma renewSeatLocks_Reply:
  "q_seatIds q \<noteq> [] \<Longrightarrow> renewSeatLocks Reply now q v ttl st =
    (case seatRenewLua now (getLockKeys q) v ttl st of (n, st') \<Rightarrow> (n = 1, st'))"
  by (simp add: renewSeatLocks_def over_link_def case_prod_unfold)

lemma acquireSeatLocks_True:
  "q_seatIds q \<noteq> [] \<Longrightarrow> acquireSeatLocks lk now q v ttl st = (True, st') \<longleftrightarrow>
    lk = Reply \<and> seatLockLua now (getLockKeys q) v ttl st = (Inr 1, st')"
  by (auto simp: acquireSeatLocks_def over_link_def split: prod.splits sum.splits link.splits)

lemma acquireSeatLocks_snd:
  "P st \<Longrightarrow> (q_seatIds q \<noteq> [] \<Longrightarrow> P (snd (seatLockLua now (getLockKeys q) v ttl st))) \<Longrightarrow>
    P (snd (acquireSeatLocks lk now q v ttl st))"
  by (auto simp: acquireSeatLocks_def over_link_def split: prod.splits sum.splits link.splits)

lemma releaseSeatLocks_snd:
  "P st \<Longrightarrow> P (snd (seatUnlockLua now (getLockKeys q) v st)) \<Longrightarrow> P (snd (releaseSeatLocks lk now q v st))"
  by (auto simp: releaseSeatLocks_def over_link_def split: prod.splits sum.splits link.splits)

lemma renewSeatLocks_snd:
  "P st \<Longrightarrow> P (snd (seatRenewLua now (getLockKeys q) v ttl st)) \<Longrightarrow> P (snd (renewSeatLocks lk now q v ttl st))"
  by (auto simp: renewSeatLocks_def over_link_def split: prod.splits sum.splits link.splits)

lemma booking_call_frame:
  assumes "booking_lock_call t tok st st'" "tok \<noteq> a" "t \<le> u" "redis_get u k st = Some a"
  shows "redis_get u k st' = Some a"
  using assms(1)
proof cases
  case (acquires lk q ttl)
  show ?thesis unfolding acquires
    by (rule acquireSeatLocks_snd) (use assms seatLockLua_frame getLockKeys_nonempty in auto)
next
  case (releases lk q)
  have "redis_get t k st = Some a" using assms(3,4) by (rule redis_get_earlier [rotated])
  then have "redis_get u k (snd (seatUnlockLua t (getLockKeys q) tok st)) = Some a"
    unfolding seatUnlockLua_get [OF assms(3)] using assms by simp
  then show ?thesis unfolding releases using assms(4)
    by (rule releaseSeatLocks_snd [where P = "\<lambda>s. redis_get u k s = Some a", rotated])
next
  case (renews lk q ttl)
  show ?thesis unfolding renews
    by (rule renewSeatLocks_snd) (use assms seatRenewLua_frame in auto)
qed

lemma booking_acquire_won:
  assumes "acquireSeatLocks lk t q a ttl st = (True, st')" "k \<in> set (getLockKeys q)" "u < t + ttl * 1000"
  shows "redis_get u k st' = Some a"
proof -
  have ne: "q_seatIds q \<noteq> []" using assms(2) by auto
  from assms(1) have s: "seatLockLua t (getLockKeys q) a ttl st = (Inr 1, st')"
    unfolding acquireSeatLocks_True [OF ne] by simp
  with seatLockLua_iff [OF getLockKeys_nonempty [OF ne], of t a ttl st] have
    "0 < ttl" "distinct (getLockKeys q)" "\<forall>k \<in> set (getLockKeys q). redis_get t k st = None" by auto
  from seatLockLua_won [OF this, of a] s assms(2,3) show ?thesis by (auto simp: redis_get_def live_def)
qed

lemma booking_acquire_conflict:
  assumes "k \<in> set (getLockKeys q)" "redis_get t k st = Some a"
  shows "\<not> fst (acquireSeatLocks lk t q tok ttl st)"
proof
  have ne: "q_seatIds q \<noteq> []" using assms(1) by auto
  assume "fst (acquireSeatLocks lk t q tok ttl st)"
  then obtain st' where "acquireSeatLocks lk t q tok ttl st = (True, st')"
    by (cases "acquireSeatLocks lk t q tok ttl st") auto
  with acquireSeatLocks_True [OF ne] seatLockLua_iff [OF getLockKeys_nonempty [OF ne], of t tok ttl st]
  have "redis_get t k st = None" using assms(1) by auto
  with assms(2) show False by simp
qed

interpretation booking_locks: lock_service getLockKeys acquireSeatLocks booking_lock_call
  by unfold_locales (fact booking_call_frame booking_acquire_won booking_acquire_conflict)+

definition scope_legs :: "seat_query \<Rightarrow> int set" where
  "scope_legs q = (case q_legIndices q of None \<Rightarrow> {} | Some legs \<Rightarrow> set legs)"

lemma set_getLockKeys:
  "set (getLockKeys q) =
    (let base = (\<lambda>i. ''booking:lock:seat:'' @ q_scheduleId q @ '':'' @ i)
     in if scope_legs q = {} then base ` set (q_seatIds q)
        else {base i @ '':leg:'' @ show_int n |i n. i \<in> set (q_seatIds q) \<and> n \<in> scope_legs q})"
proof (cases "q_legIndices q")
  case (Some legs)
  then show ?thesis by (cases legs) (auto simp: getLockKeys_def scope_legs_def Let_def image_iff)
qed (simp add: getLockKeys_def scope_legs_def)

text \<open>Two requests compete for a key exactly when they are for the same schedule, share a
  seat, and both lock the whole schedule or both lock a common leg. Requests for disjoint legs
  of one seat do not compete, which is what the leg scope is for; a request with the fallback
  scope and one with legs never compete either, although they name the same seat.\<close>

theorem lock_scope_conflict:
  assumes "no_colon (q_scheduleId q)" "no_colon (q_scheduleId q')"
    and "\<forall>i \<in> set (q_seatIds q) \<union> set (q_seatIds q'). no_colon i"
  shows "set (getLockKeys q) \<inter> set (getLockKeys q') \<noteq> {} \<longleftrightarrow>
    q_scheduleId q = q_scheduleId q' \<and> set (q_seatIds q) \<inter> set (q_seatIds q') \<noteq> {} \<and>
    (if scope_legs q = {} then scope_legs q' = {} else scope_legs q \<inter> scope_legs q' \<noteq> {})"
proof -
  define b where "b = (\<lambda>(q :: seat_query) i. ''booking:lock:seat:'' @ q_scheduleId q @ '':'' @ i)"
  define lg where "lg = (\<lambda>n. ''leg:'' @ show_int n)"
  have keys: "set (getLockKeys p) = (if scope_legs p = {} then b p ` set (q_seatIds p)
        else {b p i @ CHR '':'' # lg n |i n. i \<in> set (q_seatIds p) \<and> n \<in> scope_legs p})" for p
    by (simp add: set_getLockKeys b_def lg_def Let_def)
  have app: "b p i @ r = b p (i @ r)" for p i r by (simp add: b_def)
  have base: "b q i = b q' j \<longleftrightarrow> q_scheduleId q = q_scheduleId q' \<and> i = j" for i j
    unfolding b_def using assms(1,2) colon_split by simp
  have lgs: "lg m = lg n \<longleftrightarrow> m = n" for m n unfolding lg_def using show_int_inj by auto
  have legged: "b q i @ CHR '':'' # lg m = b q' j @ CHR '':'' # lg n \<longleftrightarrow>
      q_scheduleId q = q_scheduleId q' \<and> i = j \<and> m = n"
    if "i \<in> set (q_seatIds q)" "j \<in> set (q_seatIds q')" for i j m n
    unfolding app base using assms(3) that colon_split [of i j] lgs by auto
  have mixed: "b q i \<noteq> b q' j @ CHR '':'' # r" if "i \<in> set (q_seatIds q)" for i j r
    unfolding app base using assms(3) that no_colon_neq [of i] by blast
  have mixed': "b q i @ CHR '':'' # r \<noteq> b q' j" if "j \<in> set (q_seatIds q')" for i j r
    unfolding app base using assms(3) that no_colon_neq [of j i] by blast
  have ex: "X \<inter> Y \<noteq> {} \<longleftrightarrow> (\<exists>x. x \<in> X \<and> x \<in> Y)" for X Y :: "'z set" by blast
  consider "scope_legs q = {}" "scope_legs q' = {}" | "scope_legs q = {}" "scope_legs q' \<noteq> {}"
    | "scope_legs q \<noteq> {}" "scope_legs q' = {}" | "scope_legs q \<noteq> {}" "scope_legs q' \<noteq> {}" by blast
  then show ?thesis
  proof cases
    case 1
    then show ?thesis unfolding keys using base by auto
  next
    case 2
    then have "set (getLockKeys q) \<inter> set (getLockKeys q') = {}" unfolding keys using mixed by auto
    with 2 show ?thesis by simp
  next
    case 3
    then have "set (getLockKeys q) \<inter> set (getLockKeys q') = {}" unfolding keys
      by (auto dest: mixed' [THEN notE, OF _ sym])
    with 3 show ?thesis by simp
  next
    case 4
    have "set (getLockKeys q) \<inter> set (getLockKeys q') \<noteq> {} \<longleftrightarrow>
        (\<exists>i \<in> set (q_seatIds q). \<exists>j \<in> set (q_seatIds q'). \<exists>m \<in> scope_legs q. \<exists>n \<in> scope_legs q'.
           b q i @ CHR '':'' # lg m = b q' j @ CHR '':'' # lg n)"
    proof -
      have "X \<inter> Y \<noteq> {} \<longleftrightarrow> (\<exists>i \<in> I. \<exists>j \<in> J. \<exists>m \<in> M. \<exists>n \<in> N. f i m = g j n)"
        if "X = {f i m |i m. i \<in> I \<and> m \<in> M}" "Y = {g j n |j n. j \<in> J \<and> n \<in> N}"
        for X Y :: "'z set" and f :: "'x \<Rightarrow> 'y \<Rightarrow> 'z" and g :: "'x \<Rightarrow> 'y \<Rightarrow> 'z" and I J M N
        unfolding that by blast
      from this [of _ "\<lambda>i m. b q i @ CHR '':'' # lg m" _ _ _ "\<lambda>i m. b q' i @ CHR '':'' # lg m"]
      show ?thesis using 4 unfolding keys by simp
    qed
    also have "\<dots> \<longleftrightarrow> (\<exists>i \<in> set (q_seatIds q). \<exists>j \<in> set (q_seatIds q'). \<exists>m \<in> scope_legs q. \<exists>n \<in> scope_legs q'.
           q_scheduleId q = q_scheduleId q' \<and> i = j \<and> m = n)"
      by (intro bex_cong refl) (rule legged)
    finally show ?thesis using 4 by auto
  qed
qed

theorem lock_scope_conflict_witness:
  "(let q = \<lambda>seats legs. \<lparr>q_scheduleId = ''s'', q_seatIds = seats, q_legIndices = legs\<rparr>
    in set (getLockKeys (q [''b'', ''a''] (Some [3, 1]))) \<inter> set (getLockKeys (q [''a''] (Some [2]))) = {} \<and>
       set (getLockKeys (q [''b'', ''a''] (Some [3, 1]))) \<inter> set (getLockKeys (q [''a''] None)) = {} \<and>
       set (getLockKeys (q [''b'', ''a''] (Some [3, 1]))) \<inter> set (getLockKeys (q [''a''] (Some [1, 2]))) \<noteq> {})"
proof -
  define q where "q = (\<lambda>seats legs. \<lparr>q_scheduleId = ''s'', q_seatIds = seats, q_legIndices = legs\<rparr>)"
  have 1: "no_colon (q_scheduleId (q x y))" for x y by (simp add: q_def no_colon_def)
  have 2: "\<forall>i \<in> set (q_seatIds (q [''b'', ''a''] x)) \<union> set (q_seatIds (q [''a''] y)). no_colon i" for x y
    by (simp add: q_def no_colon_def)
  have 3: "scope_legs (q x None) = {}" "scope_legs (q x (Some l)) = set l"
    "q_scheduleId (q x y) = ''s''" "q_seatIds (q x y) = x" for x y l
    by (simp_all add: q_def scope_legs_def)
  note use = lock_scope_conflict [OF 1 1 2]
  show ?thesis unfolding q_def [symmetric] Let_def
    using use [of "Some [3, 1]" "Some [2]"] use [of "Some [3, 1]" None] use [of "Some [3, 1]" "Some [1, 2]"]
    unfolding 3 by simp
qed

text \<open>A lock request is granted exactly when the server answers, the time to live is
  positive, and every key of the request is distinct and free; then every key belongs to the
  caller until the time to live has passed and no other key changes. When it is refused by the
  script, nothing that is live changes at all: no seat is left locked by a partial attempt.\<close>

theorem seat_locks_all_or_nothing:
  assumes "q_seatIds q \<noteq> []" and "acquireSeatLocks lk now q tok ttl st = (ok, st')"
  shows "(ok \<longleftrightarrow> lk = Reply \<and> 0 < ttl \<and> distinct (getLockKeys q) \<and>
            (\<forall>k \<in> set (getLockKeys q). redis_get now k st = None)) \<and>
    (ok \<longrightarrow> st' = (\<lambda>k. if k \<in> set (getLockKeys q) then Some (tok, Some (now + ttl * 1000)) else st k)) \<and>
    (\<not> ok \<and> lk \<noteq> ReplyLost \<longrightarrow> (\<forall>u \<ge> now. \<forall>k. redis_get u k st' = redis_get u k st))"
proof -
  let ?run = "seatLockLua now (getLockKeys q) tok ttl st"
  let ?free = "0 < ttl \<and> distinct (getLockKeys q) \<and> (\<forall>k \<in> set (getLockKeys q). redis_get now k st = None)"
  note ne = getLockKeys_nonempty [OF assms(1)]
  have eq: "acquireSeatLocks lk now q tok ttl st =
      (case lk of Reply \<Rightarrow> (fst ?run = Inr 1, snd ?run) | Unreachable \<Rightarrow> (False, st) | ReplyLost \<Rightarrow> (False, snd ?run))"
    using assms(1) by (cases lk; cases ?run; cases "fst ?run")
      (simp_all add: acquireSeatLocks_def over_link_def)
  show ?thesis
  proof (cases "lk = Reply")
    case False
    then show ?thesis using assms(2) eq by (cases lk) auto
  next
    case True
    show ?thesis
    proof (cases ?free)
      case free: True
      then have "?run = (Inr 1, \<lambda>k. if k \<in> set (getLockKeys q) then Some (tok, Some (now + ttl * 1000)) else st k)"
        by (intro seatLockLua_won) auto
      then show ?thesis using assms(2) eq True free by auto
    next
      case busy: False
      from seatLockLua_lost [OF ne busy, of tok] show ?thesis using assms(2) eq True busy by auto
    qed
  qed
qed

theorem seat_locks_all_or_nothing_witness:
  "(let q = \<lparr>q_scheduleId = ''s'', q_seatIds = [''b'', ''a''], q_legIndices = None\<rparr>;
        st = [''booking:lock:seat:s:b'' \<mapsto> (''other'', Some 5000)] :: redis
    in \<not> fst (acquireSeatLocks Reply 1000 q ''tok'' 600 st) \<and>
       (\<forall>u \<ge> 1000. \<forall>k. redis_get u k (snd (acquireSeatLocks Reply 1000 q ''tok'' 600 st)) = redis_get u k st))"
proof -
  let ?q = "\<lparr>q_scheduleId = ''s'', q_seatIds = [''b'', ''a''], q_legIndices = None\<rparr> :: seat_query"
  let ?st = "[''booking:lock:seat:s:b'' \<mapsto> (''other'', Some 5000)] :: redis"
  have k: "''booking:lock:seat:s:b'' \<in> set (getLockKeys ?q)" by (simp add: getLockKeys_def)
  have b: "redis_get 1000 ''booking:lock:seat:s:b'' ?st = Some ''other''" by (simp add: redis_get_def live_def)
  obtain ok st' where a: "acquireSeatLocks Reply 1000 ?q ''tok'' 600 ?st = (ok, st')"
    by (cases "acquireSeatLocks Reply 1000 ?q ''tok'' 600 ?st")
  have "q_seatIds ?q \<noteq> []" by simp
  from seat_locks_all_or_nothing [OF this a] k b show ?thesis unfolding Let_def a by auto
qed

text \<open>C33: While a booking holds its seat locks, no other token can take any of the keys: whatever
  sequence of acquire, release and renew calls other owners make, on whatever seats and over
  whatever links, the keys still belong to the booking at every moment before the time to live
  has passed, and every attempt that needs one of them is refused.\<close>

theorem booking_locks_exclusive:
  assumes "acquireSeatLocks lk t q a ttl s = (True, s1)" and "lock_run booking_lock_call a t s1 u s2"
    and "u < t + ttl * 1000" and "k \<in> set (getLockKeys q)" and "k \<in> set (getLockKeys q')"
  shows "redis_get u k s2 = Some a \<and> \<not> fst (acquireSeatLocks lk' u q' b ttl' s2)"
  using assms by (rule booking_locks.mutual_exclusion)

theorem booking_locks_exclusive_witness:
  "let q = \<lparr>q_scheduleId = ''s'', q_seatIds = [''a''], q_legIndices = None\<rparr>;
       s1 = snd (acquireSeatLocks Reply 0 q ''one'' 600 (\<lambda>_. None));
       s2 = snd (releaseSeatLocks Reply 1000 q ''two'' s1)
   in redis_get 2000 ''booking:lock:seat:s:a'' s2 = Some ''one'' \<and>
      \<not> fst (acquireSeatLocks Reply 2000 q ''two'' 600 s2)"
proof -
  let ?q = "\<lparr>q_scheduleId = ''s'', q_seatIds = [''a''], q_legIndices = None\<rparr> :: seat_query"
  let ?s1 = "snd (acquireSeatLocks Reply 0 ?q ''one'' 600 (\<lambda>_. None))"
  let ?s2 = "snd (releaseSeatLocks Reply 1000 ?q ''two'' ?s1)"
  have keys: "getLockKeys ?q = [''booking:lock:seat:s:a'']" by (simp add: getLockKeys_def)
  have other_token: "''two'' \<noteq> ''one''" by simp
  have a: "acquireSeatLocks Reply 0 ?q ''one'' 600 (\<lambda>_. None) = (True, ?s1)"
    by (simp add: acquireSeatLocks_def over_link_def keys seatLockLua_def redis_set_nx_ex_def redis_get_def)
  have "lock_run booking_lock_call ''one'' 0 ?s1 1000 ?s2"
    by (rule lock_run.other, rule lock_run.idle, simp, rule other_token, rule booking_lock_call.releases)
  then have r: "lock_run booking_lock_call ''one'' 0 ?s1 2000 (snd (renewSeatLocks Unreachable 2000 ?q ''two'' 1 ?s2))"
    by (rule lock_run.other [where tok = "''two''"]) (simp_all add: booking_lock_call.renews)
  have n: "snd (renewSeatLocks Unreachable 2000 ?q ''two'' 1 ?s2) = ?s2"
    by (simp add: renewSeatLocks_def over_link_def)
  show ?thesis unfolding Let_def
    using booking_locks_exclusive [OF a r [unfolded n], of "''booking:lock:seat:s:a''" ?q] keys by simp
qed

text \<open>Renewing succeeds exactly when the caller still owns every key, and then moves every
  expiry to the new time to live; when it owns fewer, no lock is extended. Releasing deletes
  exactly the keys the caller still owns, reports their number, and frees nobody else's.\<close>

theorem renew_and_release_only_own:
  assumes "q_seatIds q \<noteq> []" and "0 < ttl" and "distinct (getLockKeys q)"
    and "renewSeatLocks Reply now q tok ttl st = (renewed, st1)"
    and "releaseSeatLocks Reply now q tok st = (n, st2)"
  shows "(renewed \<longleftrightarrow> (\<forall>k \<in> set (getLockKeys q). redis_get now k st = Some tok)) \<and>
    (\<not> renewed \<longrightarrow> st1 = st) \<and>
    (renewed \<longrightarrow> (\<forall>u \<ge> now. \<forall>k. redis_get u k st1 =
       (if k \<in> set (getLockKeys q) then if u < now + ttl * 1000 then Some tok else None
        else redis_get u k st))) \<and>
    n = int (length (filter (\<lambda>k. redis_get now k st = Some tok) (getLockKeys q))) \<and>
    (\<forall>u \<ge> now. \<forall>k. redis_get u k st2 =
       (if k \<in> set (getLockKeys q) \<and> redis_get now k st = Some tok then None else redis_get u k st))"
proof (intro conjI)
  let ?own = "\<forall>k \<in> set (getLockKeys q). redis_get now k st = Some tok"
  have r: "(renewed, st1) = (if ?own then (True, expire_all now ttl (getLockKeys q) st) else (False, st))"
    using assms(1,4) by (simp add: renewSeatLocks_Reply seatRenewLua_def list_all_iff split: if_splits)
  then show "renewed \<longleftrightarrow> ?own" "\<not> renewed \<longrightarrow> st1 = st" by (auto split: if_splits)
  show "renewed \<longrightarrow> (\<forall>u \<ge> now. \<forall>k. redis_get u k st1 =
       (if k \<in> set (getLockKeys q) then if u < now + ttl * 1000 then Some tok else None
        else redis_get u k st))"
  proof (intro impI allI)
    fix u k
    assume "renewed" "now \<le> u"
    then show "redis_get u k st1 = (if k \<in> set (getLockKeys q)
        then if u < now + ttl * 1000 then Some tok else None else redis_get u k st)"
      using r expire_all_get [OF \<open>now \<le> u\<close> _ assms(2), of "getLockKeys q" st tok k]
      by (simp split: if_splits)
  qed
  have u: "seatUnlockLua now (getLockKeys q) tok st = (n, st2)"
    using assms(1,5) by (simp add: releaseSeatLocks_Reply)
  show "n = int (length (filter (\<lambda>k. redis_get now k st = Some tok) (getLockKeys q)))"
    using seatUnlockLua_count [OF assms(3), of now tok st] u by simp
  show "\<forall>u \<ge> now. \<forall>k. redis_get u k st2 =
       (if k \<in> set (getLockKeys q) \<and> redis_get now k st = Some tok then None else redis_get u k st)"
    using seatUnlockLua_get [of now _ _ "getLockKeys q" tok st] u by simp
qed

theorem renew_and_release_only_own_witness:
  "let q = \<lparr>q_scheduleId = ''s'', q_seatIds = [''a'', ''b''], q_legIndices = None\<rparr>;
       st = [''booking:lock:seat:s:a'' \<mapsto> (''me'', Some 9000), ''booking:lock:seat:s:b'' \<mapsto> (''you'', Some 9000)]
   in \<not> fst (renewSeatLocks Reply 1000 q ''me'' 600 st) \<and> fst (releaseSeatLocks Reply 1000 q ''me'' st) = 1"
proof -
  let ?q = "\<lparr>q_scheduleId = ''s'', q_seatIds = [''a'', ''b''], q_legIndices = None\<rparr> :: seat_query"
  let ?st = "[''booking:lock:seat:s:a'' \<mapsto> (''me'', Some 9000), ''booking:lock:seat:s:b'' \<mapsto> (''you'', Some 9000)] :: redis"
  have keys: "getLockKeys ?q = [''booking:lock:seat:s:a'', ''booking:lock:seat:s:b'']"
    by (simp add: getLockKeys_def)
  obtain r s1 n s2 where a: "renewSeatLocks Reply 1000 ?q ''me'' 600 ?st = (r, s1)"
    and b: "releaseSeatLocks Reply 1000 ?q ''me'' ?st = (n, s2)" by (meson surj_pair)
  have "q_seatIds ?q \<noteq> []" "(0 :: int) < 600" "distinct (getLockKeys ?q)" by (simp_all add: keys)
  from renew_and_release_only_own [OF this a b] show ?thesis
    unfolding Let_def a b keys by (simp add: redis_get_def live_def)
qed

section \<open>The inventory service's locks\<close>

record seat_segment =
  ss_seatInventoryId :: ident
  ss_fromSequence :: int
  ss_toSequence :: int

record inventory_query =
  iq_scheduleId :: ident
  iq_segments :: "seat_segment list"

definition segment_key :: "ident \<Rightarrow> seat_segment \<Rightarrow> string" where
  "segment_key scheduleId s = ''inv:lock:seat:'' @ scheduleId @ '':'' @ ss_seatInventoryId s @ '':'' @
     show_int (ss_fromSequence s) @ '':'' @ show_int (ss_toSequence s)"

definition inventory_getLockKeys :: "inventory_query \<Rightarrow> string list" where
  "inventory_getLockKeys q =
     map (segment_key (iq_scheduleId q))
       (sort_key (\<lambda>s. (ss_seatInventoryId s, ss_fromSequence s, ss_toSequence s)) (iq_segments q))"

definition inventory_acquireSeatLocks :: "link \<Rightarrow> time \<Rightarrow> inventory_query \<Rightarrow> string \<Rightarrow> int \<Rightarrow> redis \<Rightarrow> bool \<times> redis" where
  "inventory_acquireSeatLocks lk now q lockToken ttlSeconds st =
     (if iq_segments q = [] then (True, st)
      else case over_link lk (seatLockLua now (inventory_getLockKeys q) lockToken ttlSeconds) st of
             (Inr n, st') \<Rightarrow> (n = 1, st')
           | (Inl e, st') \<Rightarrow> (False, st'))"

definition inventory_releaseSeatLocks :: "link \<Rightarrow> time \<Rightarrow> inventory_query \<Rightarrow> string \<Rightarrow> redis \<Rightarrow> int \<times> redis" where
  "inventory_releaseSeatLocks lk now q lockToken st =
     (if iq_segments q = [] then (0, st)
      else case over_link lk (\<lambda>s. case seatUnlockLua now (inventory_getLockKeys q) lockToken s of (n, s') \<Rightarrow> (Inr n, s')) st of
             (Inr n, st') \<Rightarrow> (n, st')
           | (Inl e, st') \<Rightarrow> (0, st'))"

inductive inventory_lock_call :: "time \<Rightarrow> string \<Rightarrow> redis \<Rightarrow> redis \<Rightarrow> bool" where
  acquires: "inventory_lock_call t tok st (snd (inventory_acquireSeatLocks lk t q tok ttl st))"
| releases: "inventory_lock_call t tok st (snd (inventory_releaseSeatLocks lk t q tok st))"

lemma inventory_getLockKeys_nonempty: "iq_segments q \<noteq> [] \<Longrightarrow> inventory_getLockKeys q \<noteq> []"
  by (simp add: inventory_getLockKeys_def flip: set_empty)

lemma set_inventory_keys:
  "set (inventory_getLockKeys q) = segment_key (iq_scheduleId q) ` set (iq_segments q)"
  by (simp add: inventory_getLockKeys_def)

lemma segment_key_inj:
  assumes "no_colon s" "no_colon s'" "no_colon (ss_seatInventoryId x)" "no_colon (ss_seatInventoryId y)"
  shows "segment_key s (x :: seat_segment) = segment_key s' y \<longleftrightarrow> s = s' \<and> x = y"
  using assms show_int_no_colon
  by (cases x; cases y) (auto simp: segment_key_def colon_split dest: show_int_inj)

lemma inventory_acquire_eq:
  "iq_segments q \<noteq> [] \<Longrightarrow> inventory_acquireSeatLocks lk now q v ttl st =
    (let run = seatLockLua now (inventory_getLockKeys q) v ttl st
     in case lk of Reply \<Rightarrow> (fst run = Inr 1, snd run) | Unreachable \<Rightarrow> (False, st) | ReplyLost \<Rightarrow> (False, snd run))"
  by (cases lk; cases "seatLockLua now (inventory_getLockKeys q) v ttl st";
      cases "fst (seatLockLua now (inventory_getLockKeys q) v ttl st)")
    (simp_all add: inventory_acquireSeatLocks_def over_link_def)

lemma inventory_release_snd:
  "snd (inventory_releaseSeatLocks lk now q v st) \<in> {st, snd (seatUnlockLua now (inventory_getLockKeys q) v st)}"
  by (auto simp: inventory_releaseSeatLocks_def over_link_def split: prod.splits sum.splits link.splits)

lemma inventory_call_frame:
  assumes "inventory_lock_call t tok st st'" "tok \<noteq> a" "t \<le> u" "redis_get u k st = Some a"
  shows "redis_get u k st' = Some a"
  using assms(1)
proof cases
  case (acquires lk q ttl)
  show ?thesis
  proof (cases "iq_segments q = []")
    case True
    then show ?thesis using acquires assms(4) by (simp add: inventory_acquireSeatLocks_def)
  next
    case False
    then show ?thesis
      using acquires assms(4) seatLockLua_frame [OF assms(3,4) inventory_getLockKeys_nonempty [OF False], of tok ttl]
      by (cases lk) (simp_all add: inventory_acquire_eq Let_def)
  qed
next
  case (releases lk q)
  have "redis_get t k st = Some a" using assms(3,4) by (rule redis_get_earlier [rotated])
  then have "redis_get u k (snd (seatUnlockLua t (inventory_getLockKeys q) tok st)) = Some a"
    unfolding seatUnlockLua_get [OF assms(3)] using assms by simp
  then show ?thesis using releases assms(4) inventory_release_snd [of lk t q tok st] by auto
qed

lemma inventory_acquire_True:
  assumes "inventory_acquireSeatLocks lk t q a ttl st = (True, st')" and "k \<in> set (inventory_getLockKeys q)"
  shows "redis_get t k st = None \<and>
    st' = (\<lambda>k. if k \<in> set (inventory_getLockKeys q) then Some (a, Some (t + ttl * 1000)) else st k)"
proof -
  have ne: "iq_segments q \<noteq> []" using assms(2) by (auto simp: inventory_getLockKeys_def)
  from assms(1) have run: "seatLockLua t (inventory_getLockKeys q) a ttl st = (Inr 1, st')"
    unfolding inventory_acquire_eq [OF ne] Let_def
    by (cases lk; cases "seatLockLua t (inventory_getLockKeys q) a ttl st") auto
  with seatLockLua_iff [OF inventory_getLockKeys_nonempty [OF ne], of t a ttl st]
  have free: "0 < ttl" "distinct (inventory_getLockKeys q)"
    "\<forall>k \<in> set (inventory_getLockKeys q). redis_get t k st = None" by auto
  from seatLockLua_won [OF this, of a] run free(3) assms(2) show ?thesis by auto
qed

lemma inventory_acquire_won:
  assumes "inventory_acquireSeatLocks lk t q a ttl st = (True, st')" "k \<in> set (inventory_getLockKeys q)"
    "u < t + ttl * 1000"
  shows "redis_get u k st' = Some a"
  using inventory_acquire_True [OF assms(1,2)] assms(2,3) by (simp add: redis_get_def live_def)

lemma inventory_acquire_conflict:
  assumes "k \<in> set (inventory_getLockKeys q)" "redis_get t k st = Some a"
  shows "\<not> fst (inventory_acquireSeatLocks lk t q tok ttl st)"
  using inventory_acquire_True [OF _ assms(1), of lk t tok ttl st] assms(2)
  by (cases "inventory_acquireSeatLocks lk t q tok ttl st") auto

interpretation inventory_locks: lock_service inventory_getLockKeys inventory_acquireSeatLocks inventory_lock_call
  by unfold_locales (fact inventory_call_frame inventory_acquire_won inventory_acquire_conflict)+

text \<open>The critical section of a hold is exclusive for its seat segments: while it holds the
  inventory locks, no sequence of calls by other deliveries gives up or takes one of its keys,
  and another delivery for the same seat of the same schedule with exactly the same segment is
  refused. A segment of that seat that overlaps without being equal is another key, which these
  locks do not exclude.\<close>

theorem inventory_locks_exclusive:
  assumes "inventory_acquireSeatLocks lk t q a ttl s = (True, s1)" and "lock_run inventory_lock_call a t s1 u s2"
    and "u < t + ttl * 1000"
    and "no_colon (iq_scheduleId q)" "no_colon (iq_scheduleId q')"
    and "\<forall>x \<in> set (iq_segments q) \<union> set (iq_segments q'). no_colon (ss_seatInventoryId x)"
  shows "(iq_scheduleId q = iq_scheduleId q' \<and> set (iq_segments q) \<inter> set (iq_segments q') \<noteq> {} \<longrightarrow>
            \<not> fst (inventory_acquireSeatLocks lk' u q' b ttl' s2)) \<and>
    (set (inventory_getLockKeys q) \<inter> set (inventory_getLockKeys q') \<noteq> {} \<longleftrightarrow>
       iq_scheduleId q = iq_scheduleId q' \<and> set (iq_segments q) \<inter> set (iq_segments q') \<noteq> {})"
proof
  have keys: "set (inventory_getLockKeys q) \<inter> set (inventory_getLockKeys q') \<noteq> {} \<longleftrightarrow>
      (\<exists>x \<in> set (iq_segments q). \<exists>y \<in> set (iq_segments q').
        segment_key (iq_scheduleId q) x = segment_key (iq_scheduleId q') y)"
    unfolding set_inventory_keys by blast
  also have "\<dots> \<longleftrightarrow> (\<exists>x \<in> set (iq_segments q). \<exists>y \<in> set (iq_segments q'). iq_scheduleId q = iq_scheduleId q' \<and> x = y)"
    using assms(4-6) by (intro bex_cong refl segment_key_inj) auto
  finally show iff: "set (inventory_getLockKeys q) \<inter> set (inventory_getLockKeys q') \<noteq> {} \<longleftrightarrow>
      iq_scheduleId q = iq_scheduleId q' \<and> set (iq_segments q) \<inter> set (iq_segments q') \<noteq> {}" by auto
  show "iq_scheduleId q = iq_scheduleId q' \<and> set (iq_segments q) \<inter> set (iq_segments q') \<noteq> {} \<longrightarrow>
      \<not> fst (inventory_acquireSeatLocks lk' u q' b ttl' s2)"
    using iff inventory_locks.mutual_exclusion [OF assms(1-3)] by blast
qed

theorem inventory_locks_exclusive_witness:
  "let seg = \<lambda>f t. \<lparr>ss_seatInventoryId = ''x'', ss_fromSequence = f, ss_toSequence = t\<rparr>;
       q = \<lambda>f t. \<lparr>iq_scheduleId = ''s'', iq_segments = [seg f t]\<rparr>;
       s1 = snd (inventory_acquireSeatLocks Reply 0 (q 1 3) ''one'' 30 (\<lambda>_. None))
   in \<not> fst (inventory_acquireSeatLocks Reply 0 (q 1 3) ''two'' 30 s1) \<and>
      set (inventory_getLockKeys (q 1 3)) \<inter> set (inventory_getLockKeys (q 2 4)) = {}"
proof -
  define seg where "seg = (\<lambda>f t. \<lparr>ss_seatInventoryId = ''x'', ss_fromSequence = f, ss_toSequence = t\<rparr>)"
  define q where "q = (\<lambda>f t. \<lparr>iq_scheduleId = ''s'', iq_segments = [seg f t]\<rparr>)"
  let ?s1 = "snd (inventory_acquireSeatLocks Reply 0 (q 1 3) ''one'' 30 (\<lambda>_. None))"
  have a: "inventory_acquireSeatLocks Reply 0 (q 1 3) ''one'' 30 (\<lambda>_. None) = (True, ?s1)"
    by (simp add: inventory_acquireSeatLocks_def over_link_def inventory_getLockKeys_def q_def
        seatLockLua_def redis_set_nx_ex_def redis_get_def)
  have n: "no_colon (iq_scheduleId (q x y))" for x y by (simp add: q_def no_colon_def)
  have m: "\<forall>s \<in> set (iq_segments (q x y)) \<union> set (iq_segments (q x' y')). no_colon (ss_seatInventoryId s)" for x y x' y'
    by (simp add: q_def seg_def no_colon_def)
  have "0 < (0 :: int) + 30 * 1000" by simp
  note use = inventory_locks_exclusive [OF a lock_run.idle this n n m, of _ _ Reply "''two''" 30]
  have "seg 1 3 \<noteq> seg 2 4" "iq_segments (q x y) = [seg x y]" "iq_scheduleId (q x y) = ''s''" for x y
    by (simp_all add: seg_def q_def)
  then have "\<not> fst (inventory_acquireSeatLocks Reply 0 (q 1 3) ''two'' 30 ?s1) \<and>
      set (inventory_getLockKeys (q 1 3)) \<inter> set (inventory_getLockKeys (q 2 4)) = {}"
    using use [of 1 3] use [of 2 4] by simp
  then show ?thesis unfolding Let_def q_def seg_def .
qed

end
