(* ===== verification/Inventory.thy ===== *)
theory Inventory
  imports Contracts SeatLocks
begin

text \<open>
  The inventory service's database and the projection of schedules into it: the tables of its
  Prisma schema, the repositories over them, \<open>PricingService\<close> and \<open>ScheduleService\<close>.

  \<open>iv_nextSeat\<close> numbers the rows of \<open>seat_inventory\<close>, whose ids are fresh UUIDs in the database;
  allocations are never deleted, so their id is their position. Deleting a schedule cascades to
  its seats and stops, not to allocations, which have no foreign key. \<open>ie_sha256\<close> is the hex
  digest of \<open>node:crypto\<close>, \<open>ie_uuid\<close> what \<open>randomUUID\<close> returns, \<open>ie_carrier\<close> the trace context.
\<close>

section \<open>The database\<close>

datatype AllocationStatus = HELD | CONFIRMED | CANCELLED | EXPIRED

record ScheduleInventory =
  si_scheduleId :: ident
  si_trainId :: ident
  si_trainNumber :: string
  si_trainName :: string
  si_departureDate :: time
  si_status :: ScheduleInventoryStatus
  si_version :: int

record SeatInventory =
  sv_id :: ident
  sv_scheduleId :: ident
  sv_trainId :: ident
  sv_coachId :: ident
  sv_coachNumber :: string
  sv_seatId :: ident
  sv_seatNumber :: int
  sv_seatType :: string
  sv_pricePerKm :: rat

record RouteStop =
  rs_scheduleId :: ident
  rs_stationId :: ident
  rs_stationCode :: string
  rs_stationName :: string
  rs_sequenceNumber :: int
  rs_distanceFromStart :: int

record SeatAllocation =
  al_id :: nat
  al_scheduleId :: ident
  al_seatInventoryId :: ident
  al_bookingId :: ident
  al_fromStationId :: ident
  al_toStationId :: ident
  al_fromSequence :: int
  al_toSequence :: int
  al_status :: AllocationStatus
  al_holdExpiresAt :: "time option"
  al_price :: rat

record SeatAllocationHistory =
  ah_allocationId :: nat
  ah_oldStatus :: AllocationStatus
  ah_newStatus :: AllocationStatus
  ah_reason :: string

record inventory_db =
  iv_schedules :: "ScheduleInventory list"
  iv_stops :: "RouteStop list"
  iv_seats :: "SeatInventory list"
  iv_nextSeat :: nat
  iv_allocations :: "SeatAllocation list"
  iv_history :: "SeatAllocationHistory list"
  iv_idempotency :: "string list"
  iv_outbox :: "event OutboxEvent list"

record inventory_env =
  ie_carrier :: headers
  ie_sha256 :: "string \<Rightarrow> string"
  ie_uuid :: ident

definition empty_inventory :: inventory_db where
  "empty_inventory = \<lparr>iv_schedules = [], iv_stops = [], iv_seats = [], iv_nextSeat = 0,
     iv_allocations = [], iv_history = [], iv_idempotency = [], iv_outbox = []\<rparr>"

section \<open>Repositories\<close>

definition findByScheduleId :: "ident \<Rightarrow> inventory_db \<Rightarrow> ScheduleInventory option" where
  "findByScheduleId scheduleId db = find_row (\<lambda>s. si_scheduleId s = scheduleId) (iv_schedules db)"

definition createSchedule :: "ScheduleInventory \<Rightarrow> (inventory_db, unit) tx" where
  "createSchedule s db =
     bindE (create_row si_scheduleId s (iv_schedules db)) (\<lambda>rows. Inr ((), db\<lparr>iv_schedules := rows\<rparr>))"

definition updateScheduleStatus :: "ident \<Rightarrow> ScheduleInventoryStatus \<Rightarrow> int \<Rightarrow> inventory_db \<Rightarrow> bool \<times> inventory_db" where
  "updateScheduleStatus scheduleId status version db =
     (case update_many (\<lambda>s. si_scheduleId s = scheduleId \<and> si_version s < version)
             (\<lambda>s. s\<lparr>si_status := status, si_version := version\<rparr>) (iv_schedules db) of
        (rows, n) \<Rightarrow> (n > 0, db\<lparr>iv_schedules := rows\<rparr>))"

definition deleteByScheduleId :: "ident \<Rightarrow> (inventory_db, unit) tx" where
  "deleteByScheduleId scheduleId db =
     (if list_ex (\<lambda>s. si_scheduleId s = scheduleId) (iv_schedules db)
      then Inr ((), db\<lparr>iv_schedules := filter (\<lambda>s. si_scheduleId s \<noteq> scheduleId) (iv_schedules db),
             iv_seats := filter (\<lambda>s. sv_scheduleId s \<noteq> scheduleId) (iv_seats db),
             iv_stops := filter (\<lambda>s. rs_scheduleId s \<noteq> scheduleId) (iv_stops db)\<rparr>)
      else Inl (PrismaError ''P2025''))"

definition createStops :: "RouteStop list \<Rightarrow> (inventory_db, unit) tx" where
  "createStops stops db =
     bindE (create_rows (\<lambda>s. (rs_scheduleId s, rs_stationId s)) stops (iv_stops db)) (\<lambda>rows.
     bindE (create_rows (\<lambda>s. (rs_scheduleId s, rs_sequenceNumber s)) stops (iv_stops db)) (\<lambda>_.
     Inr ((), db\<lparr>iv_stops := rows\<rparr>)))"

definition findByScheduleAndStation :: "ident \<Rightarrow> ident \<Rightarrow> inventory_db \<Rightarrow> RouteStop option" where
  "findByScheduleAndStation scheduleId stationId db =
     find_row (\<lambda>s. rs_scheduleId s = scheduleId \<and> rs_stationId s = stationId) (iv_stops db)"

definition findByScheduleAndSequence :: "ident \<Rightarrow> int \<Rightarrow> inventory_db \<Rightarrow> RouteStop option" where
  "findByScheduleAndSequence scheduleId sequenceNumber db =
     find_row (\<lambda>s. rs_scheduleId s = scheduleId \<and> rs_sequenceNumber s = sequenceNumber) (iv_stops db)"

definition findStopsByScheduleAndStations :: "ident \<Rightarrow> string list \<Rightarrow> inventory_db \<Rightarrow> RouteStop list" where
  "findStopsByScheduleAndStations scheduleId stationIds db =
     filter (\<lambda>s. rs_scheduleId s = scheduleId \<and>
        (rs_stationId s \<in> set stationIds \<or> rs_stationCode s \<in> set (map toUpperCase stationIds))) (iv_stops db)"

text \<open>\<open>createMany\<close> gives each new seat the next id.\<close>

fun number_seats :: "nat \<Rightarrow> SeatInventory list \<Rightarrow> SeatInventory list" where
  "number_seats n [] = []"
| "number_seats n (s # ss) = s\<lparr>sv_id := show_nat n\<rparr> # number_seats (Suc n) ss"

definition createSeats :: "SeatInventory list \<Rightarrow> (inventory_db, unit) tx" where
  "createSeats seats db =
     bindE (create_rows (\<lambda>s. (sv_scheduleId s, sv_seatId s)) (number_seats (iv_nextSeat db) seats) (iv_seats db))
       (\<lambda>rows. Inr ((), db\<lparr>iv_seats := rows, iv_nextSeat := iv_nextSeat db + length seats\<rparr>))"

definition findByScheduleAndSeats :: "ident \<Rightarrow> ident list \<Rightarrow> inventory_db \<Rightarrow> SeatInventory list" where
  "findByScheduleAndSeats scheduleId seatIds db =
     filter (\<lambda>s. sv_scheduleId s = scheduleId \<and> sv_seatId s \<in> set seatIds) (iv_seats db)"

definition findManyByIds :: "ident \<Rightarrow> ident list \<Rightarrow> inventory_db \<Rightarrow> SeatInventory list" where
  "findManyByIds scheduleId ids db =
     filter (\<lambda>s. sv_scheduleId s = scheduleId \<and> sv_id s \<in> set ids) (iv_seats db)"

definition findByScheduleAndSeatId :: "ident \<Rightarrow> ident \<Rightarrow> inventory_db \<Rightarrow> SeatInventory option" where
  "findByScheduleAndSeatId scheduleId seatId db =
     find_row (\<lambda>s. sv_scheduleId s = scheduleId \<and> sv_seatId s = seatId) (iv_seats db)"

definition getByScheduleOrdered :: "ident \<Rightarrow> inventory_db \<Rightarrow> SeatInventory list" where
  "getByScheduleOrdered scheduleId db =
     sort_key (\<lambda>s. (sv_coachNumber s, sv_seatNumber s)) (filter (\<lambda>s. sv_scheduleId s = scheduleId) (iv_seats db))"

definition idempotency_exists :: "string \<Rightarrow> inventory_db \<Rightarrow> bool" where
  "idempotency_exists eventKey db = (eventKey \<in> set (iv_idempotency db))"

definition idempotency_create :: "string \<Rightarrow> (inventory_db, unit) tx" where
  "idempotency_create eventKey db =
     bindE (create_row id eventKey (iv_idempotency db)) (\<lambda>keys. Inr ((), db\<lparr>iv_idempotency := keys\<rparr>))"

definition emit :: "inventory_env \<Rightarrow> time \<Rightarrow> string \<Rightarrow> ident \<Rightarrow> string \<Rightarrow> string \<Rightarrow> event \<Rightarrow> inventory_db \<Rightarrow> inventory_db" where
  "emit env now aggregateType aggregateId eventType topic payload db =
     db\<lparr>iv_outbox := outbox_insert (ie_carrier env) now None
       \<lparr>od_aggregateType = aggregateType, od_aggregateId = aggregateId, od_eventType = eventType,
        od_topic = topic, od_payload = payload\<rparr> (iv_outbox db)\<rparr>"

section \<open>Prices\<close>

definition BASE_RATE_PER_KM :: rat where "BASE_RATE_PER_KM = 8 / 10"

definition TRAIN_CATEGORY_MULTIPLIER :: "string \<rightharpoonup> rat" where
  "TRAIN_CATEGORY_MULTIPLIER = map_of
     [(''PASSENGER'', 1), (''EXPRESS'', 12 / 10), (''SUPERFAST'', 14 / 10), (''DURONTO'', 18 / 10),
      (''RAJDHANI'', 22 / 10), (''SHATABDI'', 2), (''VANDE_BHARAT'', 25 / 10), (''DEMU'', 1), (''MEMU'', 1)]"

definition COACH_MULTIPLIER :: "string \<rightharpoonup> rat" where
  "COACH_MULTIPLIER = map_of
     [(''GEN'', 1), (''SL'', 15 / 10), (''AC_3E'', 2), (''AC_3A'', 25 / 10), (''AC_2A'', 35 / 10),
      (''AC_1A'', 5), (''CC'', 2), (''EC'', 4)]"

definition calculatePricePerKm :: "string \<Rightarrow> string \<Rightarrow> rat" where
  "calculatePricePerKm trainCategory coachType =
     (let categoryMult = (case TRAIN_CATEGORY_MULTIPLIER (toUpperCase trainCategory) of None \<Rightarrow> 1 | Some m \<Rightarrow> m);
          coachMult = (case COACH_MULTIPLIER (toUpperCase coachType) of None \<Rightarrow> 1 | Some m \<Rightarrow> m)
      in BASE_RATE_PER_KM * categoryMult * coachMult)"

section \<open>Schedule projection\<close>

datatype source_status = Src_DRAFT | Src_ACTIVE | Src_CANCELLED

record stop_dto =
  st_stationId :: ident
  st_stationCode :: string
  st_stationName :: string
  st_stopNumber :: int
  st_distanceFromStart :: int

record seat_dto =
  sd_seatId :: ident
  sd_seatNumber :: int
  sd_seatType :: string

record coach_dto =
  cd_coachId :: ident
  cd_coachNumber :: string
  cd_coachType :: string
  cd_seats :: "seat_dto list"

record ScheduleCreatedEventV1 =
  sc_scheduleId :: ident
  sc_trainId :: ident
  sc_trainNumber :: string
  sc_trainName :: string
  sc_trainCategory :: string
  sc_departureDate :: time
  sc_status :: source_status
  sc_version :: int
  sc_stops :: "stop_dto list"
  sc_coaches :: "coach_dto list"

record ScheduleStatusChangedEventV1 =
  sx_scheduleId :: ident
  sx_status :: source_status
  sx_version :: int

definition projected_status :: "source_status \<Rightarrow> ScheduleInventoryStatus" where
  "projected_status s = (if s = Src_CANCELLED then CANCELLED_SCHEDULE else ACTIVE)"

definition seat_types :: "string list" where
  "seat_types = [''LOWER'', ''MIDDLE'', ''UPPER'', ''SIDE_LOWER'', ''SIDE_UPPER'']"

definition stop_rows :: "ScheduleCreatedEventV1 \<Rightarrow> RouteStop list" where
  "stop_rows e = map (\<lambda>s. \<lparr>rs_scheduleId = sc_scheduleId e, rs_stationId = st_stationId s,
     rs_stationCode = st_stationCode s, rs_stationName = st_stationName s,
     rs_sequenceNumber = st_stopNumber s, rs_distanceFromStart = st_distanceFromStart s\<rparr>) (sc_stops e)"

definition seat_rows :: "ScheduleCreatedEventV1 \<Rightarrow> SeatInventory list" where
  "seat_rows e = concat (map (\<lambda>c. map (\<lambda>s. \<lparr>sv_id = [], sv_scheduleId = sc_scheduleId e,
     sv_trainId = sc_trainId e, sv_coachId = cd_coachId c, sv_coachNumber = cd_coachNumber c,
     sv_seatId = sd_seatId s, sv_seatNumber = sd_seatNumber s, sv_seatType = sd_seatType s,
     sv_pricePerKm = calculatePricePerKm (sc_trainCategory e) (cd_coachType c)\<rparr>) (cd_seats c)) (sc_coaches e))"

text \<open>A seat type that is no member of the enum is \<open>undefined\<close>, which Prisma rejects as a
  missing column.\<close>

definition project_schedule :: "inventory_env \<Rightarrow> time \<Rightarrow> ScheduleCreatedEventV1 \<Rightarrow> (inventory_db, unit) tx" where
  "project_schedule env now e db =
     bindE (createSchedule \<lparr>si_scheduleId = sc_scheduleId e, si_trainId = sc_trainId e,
         si_trainNumber = sc_trainNumber e, si_trainName = sc_trainName e,
         si_departureDate = sc_departureDate e, si_status = projected_status (sc_status e),
         si_version = sc_version e\<rparr> db) (\<lambda>(_, db1).
     bindE (createStops (stop_rows e) db1) (\<lambda>(_, db2).
     if list_all (\<lambda>s. sv_seatType s \<in> set seat_types) (seat_rows e)
     then bindE (createSeats (seat_rows e) db2) (\<lambda>(_, db3).
       Inr ((), emit env now ''ScheduleInventory'' (sc_scheduleId e) ''InventoryScheduleProjectedV1''
         ''inventory.schedule-projected.v1''
         (EvScheduleProjected \<lparr>sp_eventId = ie_uuid env, sp_scheduleId = sc_scheduleId e, sp_version = sc_version e\<rparr>) db3))
     else Inl (PrismaError ''validation'')))"

definition processCreated :: "inventory_env \<Rightarrow> time \<Rightarrow> ScheduleCreatedEventV1 \<Rightarrow> (inventory_db, unit) proc" where
  "processCreated env now e = transaction (\<lambda>db.
     case findByScheduleId (sc_scheduleId e) db of
       None \<Rightarrow> project_schedule env now e db
     | Some s \<Rightarrow>
         if si_version s \<ge> sc_version e then Inr ((), db)
         else bindE (deleteByScheduleId (sc_scheduleId e) db) (\<lambda>(_, db1). project_schedule env now e db1))"

definition processStatusChanged :: "inventory_env \<Rightarrow> time \<Rightarrow> ScheduleStatusChangedEventV1 \<Rightarrow> (inventory_db, unit) proc" where
  "processStatusChanged env now e = transaction (\<lambda>db.
     case findByScheduleId (sx_scheduleId e) db of
       None \<Rightarrow> Inl (ApiError 404 ''SCHEDULE_INVENTORY_NOT_FOUND'')
     | Some _ \<Rightarrow>
         (let newStatus = projected_status (sx_status e)
          in case updateScheduleStatus (sx_scheduleId e) newStatus (sx_version e) db of
               (updated, db1) \<Rightarrow>
                 if \<not> updated then Inr ((), db1)
                 else Inr ((), emit env now ''ScheduleInventory'' (sx_scheduleId e)
                   ''InventoryScheduleStatusChangedV1'' ''inventory.schedule-status-changed.v1''
                   (EvScheduleStatus \<lparr>ss_eventId = ie_uuid env, ss_scheduleId = sx_scheduleId e,
                      ss_status = newStatus, ss_version = sx_version e\<rparr>) db1)))"

section \<open>The unique constraints\<close>

definition projection_ok :: "inventory_db \<Rightarrow> bool" where
  "projection_ok db \<longleftrightarrow> distinct (map si_scheduleId (iv_schedules db)) \<and>
     distinct (map (\<lambda>s. (rs_scheduleId s, rs_stationId s)) (iv_stops db)) \<and>
     distinct (map (\<lambda>s. (rs_scheduleId s, rs_sequenceNumber s)) (iv_stops db)) \<and>
     distinct (map (\<lambda>s. (sv_scheduleId s, sv_seatId s)) (iv_seats db)) \<and>
     distinct (map sv_id (iv_seats db)) \<and> (\<forall>s \<in> set (iv_seats db). \<exists>n < iv_nextSeat db. sv_id s = show_nat n) \<and>
     sv_scheduleId ` set (iv_seats db) \<subseteq> si_scheduleId ` set (iv_schedules db) \<and>
     rs_scheduleId ` set (iv_stops db) \<subseteq> si_scheduleId ` set (iv_schedules db)"

lemma emit_simps [simp]:
  "iv_schedules (emit env now a b c d e db) = iv_schedules db"
  "iv_stops (emit env now a b c d e db) = iv_stops db"
  "iv_seats (emit env now a b c d e db) = iv_seats db"
  "iv_nextSeat (emit env now a b c d e db) = iv_nextSeat db"
  "iv_allocations (emit env now a b c d e db) = iv_allocations db"
  "iv_history (emit env now a b c d e db) = iv_history db"
  "iv_idempotency (emit env now a b c d e db) = iv_idempotency db"
  "outbox_payloads (iv_outbox (emit env now a b c d e db)) = outbox_payloads (iv_outbox db) @ [e]"
  by (simp_all add: emit_def)

lemma number_seats_ids: "map sv_id (number_seats n ss) = map show_nat [n..<n + length ss]"
  by (induction ss arbitrary: n) (simp_all add: upt_conv_Cons del: upt_Suc)

lemma number_seats_keys:
  "map (\<lambda>s. (sv_scheduleId s, sv_seatId s)) (number_seats n ss) = map (\<lambda>s. (sv_scheduleId s, sv_seatId s)) ss"
  by (induction ss arbitrary: n) auto

lemma length_number_seats [simp]: "length (number_seats n ss) = length ss"
  by (induction ss arbitrary: n) auto

lemma filter_number_seats:
  "filter (\<lambda>s. sv_scheduleId s = i) (number_seats n ss) =
    (if \<forall>s \<in> set ss. sv_scheduleId s = i then number_seats n ss
     else filter (\<lambda>s. sv_scheduleId s = i) (number_seats n ss))"
  by (induction ss arbitrary: n) auto

lemma distinct_filter_map: "distinct (map f xs) \<Longrightarrow> distinct (map f (filter p xs))"
  by (induction xs) auto

text \<open>What a committed projection writes.\<close>

lemma project_schedule_Inr:
  assumes "project_schedule env now e db = Inr (u, db')"
  shows "sc_scheduleId e \<notin> si_scheduleId ` set (iv_schedules db)"
    and "iv_schedules db' = iv_schedules db @ [\<lparr>si_scheduleId = sc_scheduleId e, si_trainId = sc_trainId e,
         si_trainNumber = sc_trainNumber e, si_trainName = sc_trainName e,
         si_departureDate = sc_departureDate e, si_status = projected_status (sc_status e),
         si_version = sc_version e\<rparr>]"
    and "iv_stops db' = iv_stops db @ stop_rows e"
    and "iv_seats db' = iv_seats db @ number_seats (iv_nextSeat db) (seat_rows e)"
    and "iv_nextSeat db' = iv_nextSeat db + length (seat_rows e)"
    and "iv_allocations db' = iv_allocations db" and "iv_history db' = iv_history db"
    and "iv_idempotency db' = iv_idempotency db"
    and "distinct (map (\<lambda>s. (rs_scheduleId s, rs_stationId s)) (iv_stops db)) \<longrightarrow>
      distinct (map (\<lambda>s. (rs_scheduleId s, rs_stationId s)) (iv_stops db'))"
    and "distinct (map (\<lambda>s. (rs_scheduleId s, rs_sequenceNumber s)) (iv_stops db)) \<longrightarrow>
      distinct (map (\<lambda>s. (rs_scheduleId s, rs_sequenceNumber s)) (iv_stops db'))"
    and "distinct (map (\<lambda>s. (sv_scheduleId s, sv_seatId s)) (iv_seats db)) \<longrightarrow>
      distinct (map (\<lambda>s. (sv_scheduleId s, sv_seatId s)) (iv_seats db'))"
    and "outbox_payloads (iv_outbox db') = outbox_payloads (iv_outbox db) @
      [EvScheduleProjected \<lparr>sp_eventId = ie_uuid env, sp_scheduleId = sc_scheduleId e, sp_version = sc_version e\<rparr>]"
proof -
  let ?seats = "number_seats (iv_nextSeat db) (seat_rows e)"
  from assms obtain sched stops stops' seats where
    c: "create_row si_scheduleId \<lparr>si_scheduleId = sc_scheduleId e, si_trainId = sc_trainId e,
         si_trainNumber = sc_trainNumber e, si_trainName = sc_trainName e,
         si_departureDate = sc_departureDate e, si_status = projected_status (sc_status e),
         si_version = sc_version e\<rparr> (iv_schedules db) = Inr sched"
      "create_rows (\<lambda>s. (rs_scheduleId s, rs_stationId s)) (stop_rows e) (iv_stops db) = Inr stops"
      "create_rows (\<lambda>s. (rs_scheduleId s, rs_sequenceNumber s)) (stop_rows e) (iv_stops db) = Inr stops'"
      "create_rows (\<lambda>s. (sv_scheduleId s, sv_seatId s)) ?seats (iv_seats db) = Inr seats"
    and db': "db' = emit env now ''ScheduleInventory'' (sc_scheduleId e) ''InventoryScheduleProjectedV1''
         ''inventory.schedule-projected.v1''
         (EvScheduleProjected \<lparr>sp_eventId = ie_uuid env, sp_scheduleId = sc_scheduleId e, sp_version = sc_version e\<rparr>)
         (db\<lparr>iv_schedules := sched, iv_stops := stops, iv_seats := seats,
            iv_nextSeat := iv_nextSeat db + length (seat_rows e)\<rparr>)"
    by (auto simp: project_schedule_def createSchedule_def createStops_def createSeats_def bindE_eq_Inr_iff
        split: if_splits)
  have eq: "stops = iv_stops db @ stop_rows e" "stops' = iv_stops db @ stop_rows e" "seats = iv_seats db @ ?seats"
    using c(2-4) unfolding create_rows_Inr_iff by auto
  show "sc_scheduleId e \<notin> si_scheduleId ` set (iv_schedules db)"
    using c(1) unfolding create_row_Inr_iff by simp
  show "distinct (map (\<lambda>s. (rs_scheduleId s, rs_stationId s)) (iv_stops db)) \<longrightarrow>
      distinct (map (\<lambda>s. (rs_scheduleId s, rs_stationId s)) (iv_stops db'))"
    using create_rows_distinct [OF c(2)] by (simp add: db')
  show "distinct (map (\<lambda>s. (rs_scheduleId s, rs_sequenceNumber s)) (iv_stops db)) \<longrightarrow>
      distinct (map (\<lambda>s. (rs_scheduleId s, rs_sequenceNumber s)) (iv_stops db'))"
    using create_rows_distinct [OF c(3)] eq by (simp add: db')
  show "distinct (map (\<lambda>s. (sv_scheduleId s, sv_seatId s)) (iv_seats db)) \<longrightarrow>
      distinct (map (\<lambda>s. (sv_scheduleId s, sv_seatId s)) (iv_seats db'))"
    using create_rows_distinct [OF c(4)] by (simp add: db')
  show "iv_schedules db' = iv_schedules db @ [\<lparr>si_scheduleId = sc_scheduleId e, si_trainId = sc_trainId e,
         si_trainNumber = sc_trainNumber e, si_trainName = sc_trainName e,
         si_departureDate = sc_departureDate e, si_status = projected_status (sc_status e),
         si_version = sc_version e\<rparr>]"
    using c(1) unfolding create_row_Inr_iff by (simp add: db')
  show "iv_stops db' = iv_stops db @ stop_rows e" by (simp add: db' eq)
  show "iv_seats db' = iv_seats db @ ?seats" by (simp add: db' eq)
  show "iv_nextSeat db' = iv_nextSeat db + length (seat_rows e)" by (simp add: db')
  show "iv_allocations db' = iv_allocations db" "iv_history db' = iv_history db"
    "iv_idempotency db' = iv_idempotency db" by (simp_all add: db')
  show "outbox_payloads (iv_outbox db') = outbox_payloads (iv_outbox db) @
      [EvScheduleProjected \<lparr>sp_eventId = ie_uuid env, sp_scheduleId = sc_scheduleId e, sp_version = sc_version e\<rparr>]"
    by (simp add: db')
qed

lemma number_seats_schedule: "s \<in> set (number_seats n ss) \<Longrightarrow> \<exists>t \<in> set ss. sv_scheduleId s = sv_scheduleId t"
  by (induction ss arbitrary: n) auto

lemma seat_rows_schedule: "s \<in> set (seat_rows e) \<Longrightarrow> sv_scheduleId s = sc_scheduleId e"
  by (auto simp: seat_rows_def)

lemma stop_rows_schedule: "s \<in> set (stop_rows e) \<Longrightarrow> rs_scheduleId s = sc_scheduleId e"
  by (auto simp: stop_rows_def)

lemma projection_ok_project:
  assumes "projection_ok db" and "project_schedule env now e db = Inr (u, db')"
  shows "projection_ok db'"
proof -
  note p = project_schedule_Inr [OF assms(2)]
  have old: "\<forall>s \<in> set (iv_seats db). \<exists>n < iv_nextSeat db. sv_id s = show_nat n"
    using assms(1) by (simp add: projection_ok_def)
  have new: "sv_id ` set (number_seats (iv_nextSeat db) (seat_rows e)) =
      show_nat ` {iv_nextSeat db..<iv_nextSeat db + length (seat_rows e)}"
    using arg_cong [OF number_seats_ids [of "iv_nextSeat db" "seat_rows e"], of set] by simp
  have "distinct (map show_nat [iv_nextSeat db..<iv_nextSeat db + length (seat_rows e)])"
    by (auto simp: distinct_map inj_on_def dest: show_nat_inj)
  moreover have "sv_id ` set (iv_seats db) \<inter> show_nat ` {iv_nextSeat db..<iv_nextSeat db + length (seat_rows e)} = {}"
  proof -
    have "sv_id s \<noteq> show_nat n" if "s \<in> set (iv_seats db)" "iv_nextSeat db \<le> n" for s n
      using old that by (metis show_nat_inj not_less)
    then show ?thesis by auto
  qed
  ultimately have "distinct (map sv_id (iv_seats db'))"
    using assms(1) new by (simp add: p(4) number_seats_ids projection_ok_def)
  moreover have "\<exists>n < iv_nextSeat db'. sv_id s = show_nat n" if "s \<in> set (iv_seats db')" for s
  proof (cases "s \<in> set (iv_seats db)")
    case True
    then show ?thesis using old unfolding p(5) by (meson trans_less_add1)
  next
    case False
    then have "sv_id s \<in> show_nat ` {iv_nextSeat db..<iv_nextSeat db + length (seat_rows e)}"
      using that unfolding p(4) new [symmetric] by auto
    then show ?thesis unfolding p(5) by auto
  qed
  moreover have "sv_scheduleId ` set (iv_seats db') \<subseteq> si_scheduleId ` set (iv_schedules db')"
  proof -
    have "sv_scheduleId s = sc_scheduleId e" if "s \<in> set (number_seats (iv_nextSeat db) (seat_rows e))" for s
      using number_seats_schedule [OF that] seat_rows_schedule by auto
    then show ?thesis using assms(1) unfolding p(2,4) by (auto simp: projection_ok_def)
  qed
  moreover have "rs_scheduleId ` set (iv_stops db') \<subseteq> si_scheduleId ` set (iv_schedules db')"
    using assms(1) stop_rows_schedule unfolding p(2,3) by (auto simp: projection_ok_def)
  moreover have "distinct (map si_scheduleId (iv_schedules db'))"
    using assms(1) p(1) unfolding p(2) by (simp add: projection_ok_def)
  ultimately show ?thesis using assms(1) p(9-11) unfolding projection_ok_def by blast
qed

lemma image_filter_subset:
  assumes "f ` X \<subseteq> g ` Y"
  shows "f ` {x \<in> X. f x \<noteq> i} \<subseteq> g ` {y \<in> Y. g y \<noteq> i}"
proof (rule image_subsetI)
  fix x
  assume x: "x \<in> {x \<in> X. f x \<noteq> i}"
  then have "f x \<in> g ` Y" using assms by blast
  then obtain y where "y \<in> Y" "f x = g y" by blast
  with x show "f x \<in> g ` {y \<in> Y. g y \<noteq> i}" by simp
qed

lemma projection_ok_delete:
  assumes "projection_ok db" and "deleteByScheduleId i db = Inr (u, db')"
  shows "projection_ok db'"
proof -
  from assms(2) have db': "db' = db\<lparr>iv_schedules := filter (\<lambda>s. si_scheduleId s \<noteq> i) (iv_schedules db),
             iv_seats := filter (\<lambda>s. sv_scheduleId s \<noteq> i) (iv_seats db),
             iv_stops := filter (\<lambda>s. rs_scheduleId s \<noteq> i) (iv_stops db)\<rparr>"
    by (auto simp: deleteByScheduleId_def split: if_splits)
  show ?thesis using assms(1) unfolding projection_ok_def db'
    by (simp add: distinct_filter_map image_filter_subset)
qed

lemma projection_ok_frame:
  "iv_schedules db' = iv_schedules db \<Longrightarrow> iv_stops db' = iv_stops db \<Longrightarrow> iv_seats db' = iv_seats db \<Longrightarrow>
    iv_nextSeat db' = iv_nextSeat db \<Longrightarrow> projection_ok db \<Longrightarrow> projection_ok db'"
  by (simp add: projection_ok_def)

lemma processCreated_ok: "projection_ok db \<Longrightarrow> projection_ok (snd (processCreated env now e db))"
  unfolding processCreated_def
  by (rule transaction_preserves)
    (auto simp: bindE_eq_Inr_iff split: option.splits if_splits
      intro: projection_ok_project projection_ok_delete)

lemma projection_ok_ids:
  assumes "map si_scheduleId (iv_schedules db') = map si_scheduleId (iv_schedules db)" "iv_stops db' = iv_stops db"
    "iv_seats db' = iv_seats db" "iv_nextSeat db' = iv_nextSeat db" "projection_ok db"
  shows "projection_ok db'"
proof -
  have "si_scheduleId ` set (iv_schedules db') = si_scheduleId ` set (iv_schedules db)"
    using arg_cong [OF assms(1), of set] by simp
  with assms show ?thesis unfolding projection_ok_def by simp
qed

lemma updateScheduleStatus_ok: "projection_ok db \<Longrightarrow> projection_ok (snd (updateScheduleStatus i st v db))"
  by (erule projection_ok_ids [rotated 4])
    (simp_all add: updateScheduleStatus_def update_many_def distinct_map_update del: map_map)

lemma processStatusChanged_ok: "projection_ok db \<Longrightarrow> projection_ok (snd (processStatusChanged env now e db))"
  unfolding processStatusChanged_def
  by (rule transaction_preserves, assumption)
    (auto simp: Let_def case_prod_unfold split: option.splits if_splits
      intro: projection_ok_frame updateScheduleStatus_ok)

section \<open>The projection follows the events\<close>

definition sample_schedule :: "int \<Rightarrow> ScheduleCreatedEventV1" where
  "sample_schedule v = \<lparr>sc_scheduleId = ''s'', sc_trainId = ''t'', sc_trainNumber = ''12951'', sc_trainName = ''Rajdhani'',
     sc_trainCategory = ''RAJDHANI'', sc_departureDate = 100000, sc_status = Src_ACTIVE, sc_version = v,
     sc_stops = [\<lparr>st_stationId = ''a'', st_stationCode = ''A'', st_stationName = ''A'', st_stopNumber = 1, st_distanceFromStart = 0\<rparr>,
                 \<lparr>st_stationId = ''b'', st_stationCode = ''B'', st_stationName = ''B'', st_stopNumber = 2, st_distanceFromStart = 100\<rparr>,
                 \<lparr>st_stationId = ''c'', st_stationCode = ''C'', st_stationName = ''C'', st_stopNumber = 3, st_distanceFromStart = 250\<rparr>],
     sc_coaches = [\<lparr>cd_coachId = ''c'', cd_coachNumber = ''S1'', cd_coachType = ''SL'',
                    cd_seats = [\<lparr>sd_seatId = ''seat'', sd_seatNumber = 1, sd_seatType = ''LOWER''\<rparr>]\<rparr>]\<rparr>"

definition sample_env :: inventory_env where
  "sample_env = \<lparr>ie_carrier = Map.empty, ie_sha256 = id, ie_uuid = ''u''\<rparr>"

lemma empty_inventory_ok: "projection_ok empty_inventory"
  by (simp add: projection_ok_def empty_inventory_def)

lemma filter_new_seats:
  assumes "\<forall>s \<in> set ss. sv_scheduleId s = i"
  shows "filter (\<lambda>s. sv_scheduleId s = i) (number_seats n ss) = number_seats n ss"
    and "filter (\<lambda>s. sv_scheduleId s \<noteq> i) (number_seats n ss) = []"
  using assms number_seats_schedule by (fastforce simp: filter_id_conv filter_empty_conv)+

lemma processCreated_fresh:
  assumes "processCreated env now e db = (Inr (), db')"
    and "\<forall>s. findByScheduleId (sc_scheduleId e) db = Some s \<longrightarrow> si_version s < sc_version e"
  obtains db0 where "project_schedule env now e db0 = Inr ((), db')"
    and "iv_seats db0 = filter (\<lambda>s. sv_scheduleId s \<noteq> sc_scheduleId e) (iv_seats db) \<or>
      (iv_seats db0 = iv_seats db \<and> findByScheduleId (sc_scheduleId e) db = None)"
    and "iv_stops db0 = filter (\<lambda>s. rs_scheduleId s \<noteq> sc_scheduleId e) (iv_stops db) \<or>
      (iv_stops db0 = iv_stops db \<and> findByScheduleId (sc_scheduleId e) db = None)"
    and "iv_nextSeat db0 = iv_nextSeat db" and "iv_allocations db0 = iv_allocations db"
    and "iv_schedules db0 = filter (\<lambda>s. si_scheduleId s \<noteq> sc_scheduleId e) (iv_schedules db)"
proof (cases "findByScheduleId (sc_scheduleId e) db")
  case None
  then have "filter (\<lambda>s. si_scheduleId s \<noteq> sc_scheduleId e) (iv_schedules db) = iv_schedules db"
    by (simp add: findByScheduleId_def find_row_None_iff filter_id_conv)
  with None that [of db] assms(1) show ?thesis
    by (auto simp: processCreated_def transaction_def split: sum.splits)
next
  case (Some s)
  with assms(2) have "\<not> si_version s \<ge> sc_version e" by auto
  with assms(1) Some obtain db0 where "deleteByScheduleId (sc_scheduleId e) db = Inr ((), db0)"
    "project_schedule env now e db0 = Inr ((), db')"
    by (auto simp: processCreated_def transaction_def bindE_def split: sum.splits)
  then show ?thesis by (intro that [of db0]) (auto simp: deleteByScheduleId_def split: if_splits)
qed

text \<open>A schedule event that is applied makes the projection exactly the event: the schedule row
  has its status and version, the stops and seats of the schedule are those of the event in
  order, each seat once and priced per kilometre by train category and coach type, and no other
  schedule's seats or stops and no allocation change.\<close>

theorem projection_matches_event:
  assumes "projection_ok db" and "processCreated env now e db = (Inr (), db')"
    and "\<forall>s. findByScheduleId (sc_scheduleId e) db = Some s \<longrightarrow> si_version s < sc_version e"
  shows "filter (\<lambda>s. sv_scheduleId s = sc_scheduleId e) (iv_seats db') = number_seats (iv_nextSeat db) (seat_rows e) \<and>
    filter (\<lambda>s. sv_scheduleId s \<noteq> sc_scheduleId e) (iv_seats db') = filter (\<lambda>s. sv_scheduleId s \<noteq> sc_scheduleId e) (iv_seats db) \<and>
    filter (\<lambda>s. rs_scheduleId s = sc_scheduleId e) (iv_stops db') = stop_rows e \<and>
    filter (\<lambda>s. rs_scheduleId s \<noteq> sc_scheduleId e) (iv_stops db') = filter (\<lambda>s. rs_scheduleId s \<noteq> sc_scheduleId e) (iv_stops db) \<and>
    map_option (\<lambda>s. (si_status s, si_version s)) (findByScheduleId (sc_scheduleId e) db') =
      Some (projected_status (sc_status e), sc_version e) \<and>
    iv_allocations db' = iv_allocations db"
proof -
  let ?i = "sc_scheduleId e"
  obtain db0 where tx: "project_schedule env now e db0 = Inr ((), db')"
    and seats: "iv_seats db0 = filter (\<lambda>s. sv_scheduleId s \<noteq> ?i) (iv_seats db) \<or>
      (iv_seats db0 = iv_seats db \<and> findByScheduleId ?i db = None)"
    and stops: "iv_stops db0 = filter (\<lambda>s. rs_scheduleId s \<noteq> ?i) (iv_stops db) \<or>
      (iv_stops db0 = iv_stops db \<and> findByScheduleId ?i db = None)"
    and nxt: "iv_nextSeat db0 = iv_nextSeat db" and allocs: "iv_allocations db0 = iv_allocations db"
    and scheds: "iv_schedules db0 = filter (\<lambda>s. si_scheduleId s \<noteq> ?i) (iv_schedules db)"
    using processCreated_fresh [OF assms(2,3)] by blast
  note p = project_schedule_Inr [OF tx]
  have none: "filter (\<lambda>s. sv_scheduleId s \<noteq> ?i) (iv_seats db) = iv_seats db \<and>
      filter (\<lambda>s. rs_scheduleId s \<noteq> ?i) (iv_stops db) = iv_stops db" if "findByScheduleId ?i db = None"
  proof -
    have fk: "sv_scheduleId ` set (iv_seats db) \<subseteq> si_scheduleId ` set (iv_schedules db)"
      "rs_scheduleId ` set (iv_stops db) \<subseteq> si_scheduleId ` set (iv_schedules db)"
      using assms(1) unfolding projection_ok_def by simp_all
    have new: "?i \<notin> si_scheduleId ` set (iv_schedules db)"
      using that by (auto simp: findByScheduleId_def find_row_None_iff)
    have "\<forall>s \<in> set (iv_seats db). sv_scheduleId s \<noteq> ?i" "\<forall>s \<in> set (iv_stops db). rs_scheduleId s \<noteq> ?i"
      using new subsetD [OF fk(1) imageI] subsetD [OF fk(2) imageI] by metis+
    then show ?thesis by (simp add: filter_id_conv)
  qed
  have seats0: "iv_seats db0 = filter (\<lambda>s. sv_scheduleId s \<noteq> ?i) (iv_seats db)" using seats none by auto
  have stops0: "iv_stops db0 = filter (\<lambda>s. rs_scheduleId s \<noteq> ?i) (iv_stops db)" using stops none by auto
  have rows: "\<forall>s \<in> set (seat_rows e). sv_scheduleId s = ?i" "\<forall>s \<in> set (stop_rows e). rs_scheduleId s = ?i"
    using seat_rows_schedule stop_rows_schedule by blast+
  have "findByScheduleId ?i db' = Some \<lparr>si_scheduleId = ?i, si_trainId = sc_trainId e,
         si_trainNumber = sc_trainNumber e, si_trainName = sc_trainName e,
         si_departureDate = sc_departureDate e, si_status = projected_status (sc_status e),
         si_version = sc_version e\<rparr>"
  proof -
    have "find_row (\<lambda>s. si_scheduleId s = ?i) (iv_schedules db0) = None"
      unfolding scheds find_row_None_iff by simp
    then show ?thesis unfolding findByScheduleId_def p(2) find_row_append by simp
  qed
  moreover have "filter (\<lambda>s. rs_scheduleId s = ?i) (stop_rows e) = stop_rows e"
    "filter (\<lambda>s. rs_scheduleId s \<noteq> ?i) (stop_rows e) = []"
    using rows(2) by (simp_all add: filter_id_conv filter_empty_conv)
  moreover have "filter (\<lambda>s. sv_scheduleId s = ?i) (filter (\<lambda>s. sv_scheduleId s \<noteq> ?i) (iv_seats db)) = []"
    "filter (\<lambda>s. rs_scheduleId s = ?i) (filter (\<lambda>s. rs_scheduleId s \<noteq> ?i) (iv_stops db)) = []"
    by (simp_all add: filter_empty_conv)
  ultimately show ?thesis using filter_new_seats [OF rows(1), of "iv_nextSeat db"]
    unfolding p(3,4,6) nxt allocs seats0 stops0 filter_append
    by (intro conjI) simp_all
qed

theorem projection_matches_event_witness:
  "let db' = snd (processCreated sample_env 0 (sample_schedule 1) empty_inventory)
   in filter (\<lambda>s. sv_scheduleId s = ''s'') (iv_seats db') = number_seats 0 (seat_rows (sample_schedule 1))"
proof -
  have "case fst (processCreated sample_env 0 (sample_schedule 1) empty_inventory) of Inr _ \<Rightarrow> True | Inl _ \<Rightarrow> False"
    by code_simp
  then obtain db' where c: "processCreated sample_env 0 (sample_schedule 1) empty_inventory = (Inr (), db')"
    by (cases "processCreated sample_env 0 (sample_schedule 1) empty_inventory") (auto split: sum.splits)
  have n: "\<forall>s. findByScheduleId (sc_scheduleId (sample_schedule 1)) empty_inventory = Some s \<longrightarrow>
      si_version s < sc_version (sample_schedule 1)"
    by (simp add: findByScheduleId_def empty_inventory_def)
  have "sc_scheduleId (sample_schedule 1) = ''s''" "iv_nextSeat empty_inventory = 0"
    by (simp_all add: sample_schedule_def empty_inventory_def)
  with projection_matches_event [OF empty_inventory_ok c n] show ?thesis unfolding c by simp
qed

end
