(* ===== verification/SeatAllocation.thy ===== *)
theory SeatAllocation
  imports Inventory
begin

text \<open>
  \<open>SeatAllocationService\<close>: holding, confirming and releasing seats, and the seat map.

  A handler is a function of the database and, where it uses them, the Redis locks. Each
  \<open>$transaction\<close> is atomic; \<open>holdSeats\<close> reads outside its transaction first, and each of these
  reads sees a state of its own, also an outdated one, or fails. \<open>txErr\<close> is an error of the database
  while the hold transaction runs, \<open>failErr\<close> one while the failure reply is written; either undoes its
  transaction.
\<close>

section \<open>Allocation rows\<close>

definition deriveDeterministicUuid :: "(string \<Rightarrow> string) \<Rightarrow> string \<Rightarrow> string" where
  "deriveDeterministicUuid sha256 seed =
     (let hash = sha256 seed
      in substring 0 8 hash @ ''-'' @ substring 8 12 hash @ ''-'' @ ''4'' @ substring 13 16 hash @ ''-'' @
         ''8'' @ substring 17 20 hash @ ''-'' @ substring 20 32 hash)"

definition findByBookingId :: "ident \<Rightarrow> inventory_db \<Rightarrow> SeatAllocation list" where
  "findByBookingId bookingId db = filter (\<lambda>a. al_bookingId a = bookingId) (iv_allocations db)"

definition findActiveByBookingId :: "ident \<Rightarrow> inventory_db \<Rightarrow> SeatAllocation list" where
  "findActiveByBookingId bookingId db =
     filter (\<lambda>a. al_bookingId a = bookingId \<and> al_status a \<in> {HELD, CONFIRMED}) (iv_allocations db)"

definition hasOverlappingAllocation :: "ident \<Rightarrow> ident list \<Rightarrow> int \<Rightarrow> int \<Rightarrow> inventory_db \<Rightarrow> bool" where
  "hasOverlappingAllocation scheduleId seatInventoryIds fromSequence toSequence db =
     (length (filter (\<lambda>a. al_scheduleId a = scheduleId \<and> al_seatInventoryId a \<in> set seatInventoryIds \<and>
        al_fromSequence a < toSequence \<and> al_toSequence a > fromSequence \<and>
        al_status a \<in> {HELD, CONFIRMED}) (iv_allocations db)) > 0)"

fun number_allocations :: "nat \<Rightarrow> SeatAllocation list \<Rightarrow> SeatAllocation list" where
  "number_allocations n [] = []"
| "number_allocations n (a # as) = a\<lparr>al_id := n\<rparr> # number_allocations (Suc n) as"

definition createAllocations :: "SeatAllocation list \<Rightarrow> (inventory_db, unit) tx" where
  "createAllocations rows db =
     bindE (create_rows (\<lambda>a. (al_bookingId a, al_seatInventoryId a))
             (number_allocations (length (iv_allocations db)) rows) (iv_allocations db))
       (\<lambda>allocs. Inr ((), db\<lparr>iv_allocations := allocs\<rparr>))"

definition createHistoryMany :: "SeatAllocationHistory list \<Rightarrow> inventory_db \<Rightarrow> inventory_db" where
  "createHistoryMany hs db = db\<lparr>iv_history := iv_history db @ hs\<rparr>"

definition updateManyStatusByBooking :: "ident \<Rightarrow> AllocationStatus \<Rightarrow> inventory_db \<Rightarrow> inventory_db" where
  "updateManyStatusByBooking bookingId status db =
     db\<lparr>iv_allocations := fst (update_many (\<lambda>a. al_bookingId a = bookingId \<and> al_status a = HELD)
        (\<lambda>a. a\<lparr>al_status := status\<rparr>) (iv_allocations db))\<rparr>"

definition updateManyStatusByBookingAndStatuses ::
    "ident \<Rightarrow> AllocationStatus \<Rightarrow> AllocationStatus list \<Rightarrow> inventory_db \<Rightarrow> inventory_db" where
  "updateManyStatusByBookingAndStatuses bookingId status statuses db =
     db\<lparr>iv_allocations := fst (update_many (\<lambda>a. al_bookingId a = bookingId \<and> al_status a \<in> set statuses)
        (\<lambda>a. a\<lparr>al_status := status\<rparr>) (iv_allocations db))\<rparr>"

definition findActiveAllocationsBySegment :: "time \<Rightarrow> ident \<Rightarrow> int \<Rightarrow> int \<Rightarrow> inventory_db \<Rightarrow> (ident \<times> AllocationStatus) list" where
  "findActiveAllocationsBySegment now scheduleId fromSequence toSequence db =
     map (\<lambda>a. (al_seatInventoryId a, al_status a))
       (filter (\<lambda>a. al_scheduleId a = scheduleId \<and>
          (al_status a = CONFIRMED \<or>
           al_status a = HELD \<and> (case al_holdExpiresAt a of None \<Rightarrow> False | Some t \<Rightarrow> now < t)) \<and>
          al_fromSequence a < toSequence \<and> al_toSequence a > fromSequence) (iv_allocations db))"

section \<open>Holding seats\<close>

datatype HoldSeatsOutcome =
    Held SeatsHeldV1
  | HoldFailed SeatsHoldFailedV1
  | Duplicate

definition segment_message :: "HoldSeatsRequestedV1 \<Rightarrow> string" where
  "segment_message event = ''Could not resolve valid segment for scheduleId='' @ hr_scheduleId event @
     '' fromSequence='' @ show_int (hr_fromSequence event) @ '' toSequence='' @ show_int (hr_toSequence event) @ ''.''"

definition seat_message :: "HoldSeatsRequestedV1 \<Rightarrow> string" where
  "seat_message event = ''Seat inventory rows missing for scheduleId='' @ hr_scheduleId event @ ''.''"

definition fail :: "inventory_env \<Rightarrow> time \<Rightarrow> exn option \<Rightarrow> HoldSeatsRequestedV1 \<Rightarrow> SeatHoldFailureReason \<Rightarrow> string \<Rightarrow> string \<Rightarrow>
    (inventory_db, HoldSeatsOutcome) proc" where
  "fail env now failErr event reason name message db =
     (let replyEventId = deriveDeterministicUuid (ie_sha256 env) (''failed:'' @ hr_eventId event @ '':'' @ name);
          payload = \<lparr>hf_eventId = replyEventId, hf_bookingId = hr_bookingId event, hf_reason = reason,
                     hf_message = message,
                     hf_failedSeatInventoryIds = hr_seatInventoryIds event\<rparr>
      in case failErr of
           Some e \<Rightarrow> (Inl e, db)
         | None \<Rightarrow> (Inr (HoldFailed payload),
             emit env now ''SeatAllocation'' (hr_bookingId event) ''SeatsHoldFailedV1''
               ''inventory.seats-hold-failed.v1'' (EvSeatsHoldFailed payload) db))"

definition isScheduleActive :: "ident \<Rightarrow> inventory_db \<Rightarrow> bool" where
  "isScheduleActive scheduleId db =
     (case findByScheduleId scheduleId db of None \<Rightarrow> False | Some s \<Rightarrow> si_status s = ACTIVE)"

definition MAX_POSTGRES_INT :: int where "MAX_POSTGRES_INT = 2147483647"

definition resolve_stop :: "ident \<Rightarrow> int \<Rightarrow> ident \<Rightarrow> inventory_db \<Rightarrow> RouteStop option" where
  "resolve_stop scheduleId sequence stationId db =
     (let bySequence = (if sequence > 0 \<and> sequence \<le> MAX_POSTGRES_INT
                        then findByScheduleAndSequence scheduleId sequence db else None)
      in if bySequence = None \<and> stationId \<noteq> [] then findByScheduleAndStation scheduleId stationId db
         else bySequence)"

definition resolveSegmentStops :: "HoldSeatsRequestedV1 \<Rightarrow> inventory_db \<Rightarrow> (RouteStop \<times> RouteStop \<times> int) option" where
  "resolveSegmentStops event db =
     (case (resolve_stop (hr_scheduleId event) (hr_fromSequence event) (hr_fromStaionId event) db,
            resolve_stop (hr_scheduleId event) (hr_toSequence event) (hr_toStationId event) db) of
        (Some fromStop, Some toStop) \<Rightarrow>
          if rs_sequenceNumber fromStop \<ge> rs_sequenceNumber toStop then None
          else Some (fromStop, toStop, max 0 (rs_distanceFromStart toStop - rs_distanceFromStart fromStop))
      | _ \<Rightarrow> None)"

definition fetchSeatMap :: "ident \<Rightarrow> ident list \<Rightarrow> inventory_db \<Rightarrow> (ident \<rightharpoonup> SeatInventory) option" where
  "fetchSeatMap scheduleId seatInventoryIds db =
     (let seats = findManyByIds scheduleId seatInventoryIds db
      in if length seats \<noteq> length seatInventoryIds then None
         else Some (map_of (rev (map (\<lambda>s. (sv_id s, s)) seats))))"

text \<open>The rows and the reply are built before the transaction; reading a property of a seat that
  is not in the map is a \<open>TypeError\<close>.\<close>

definition hold_price :: "int \<Rightarrow> SeatInventory \<Rightarrow> rat" where
  "hold_price distance seat =
     (if distance > 0 then toFixed2 (of_int distance * sv_pricePerKm seat) else toFixed2 (sv_pricePerKm seat))"

fun allocation_rows :: "HoldSeatsRequestedV1 \<Rightarrow> RouteStop \<Rightarrow> RouteStop \<Rightarrow> int \<Rightarrow> time \<Rightarrow> (ident \<rightharpoonup> SeatInventory) \<Rightarrow>
    ident list \<Rightarrow> (SeatAllocation \<times> SeatAllocationV1) list result" where
  "allocation_rows event fromStop toStop distance holdExpiresAt seatById [] = Inr []"
| "allocation_rows event fromStop toStop distance holdExpiresAt seatById (i # is) =
     (case seatById i of
        None \<Rightarrow> Inl (PlainError ''TypeError'')
      | Some seat \<Rightarrow>
          bindE (allocation_rows event fromStop toStop distance holdExpiresAt seatById is) (\<lambda>rest.
          Inr ((\<lparr>al_id = 0, al_scheduleId = hr_scheduleId event, al_seatInventoryId = i,
                 al_bookingId = hr_bookingId event, al_fromStationId = rs_stationId fromStop,
                 al_toStationId = rs_stationId toStop, al_fromSequence = rs_sequenceNumber fromStop,
                 al_toSequence = rs_sequenceNumber toStop, al_status = HELD,
                 al_holdExpiresAt = Some holdExpiresAt, al_price = hold_price distance seat\<rparr>,
                \<lparr>sa_seatId = sv_seatId seat, sa_seatInventoryId = i, sa_coachNumber = sv_coachNumber seat,
                 sa_seatNumber = sv_seatNumber seat, sa_seatType = sv_seatType seat,
                 sa_price = hold_price distance seat\<rparr>) # rest)))"

text \<open>\<open>SELECT ... FOR UPDATE\<close>: it waits for the other holders of the rows and changes no data; a
  transaction is one step here.\<close>

definition lockSeats :: "ident list \<Rightarrow> (inventory_db, unit) tx" where
  "lockSeats ids db = Inr ((), db)"

definition hold_tx :: "inventory_env \<Rightarrow> time \<Rightarrow> HoldSeatsRequestedV1 \<Rightarrow> string \<Rightarrow> int \<Rightarrow> int \<Rightarrow> SeatAllocation list \<Rightarrow>
    SeatsHeldV1 \<Rightarrow> (inventory_db, unit) tx" where
  "hold_tx env now event eventKey fromSeq toSeq rows payload db =
     (if idempotency_exists eventKey db then Inr ((), db)
      else bindE (lockSeats (sort (hr_seatInventoryIds event)) db) (\<lambda>(_, db).
      if hasOverlappingAllocation (hr_scheduleId event) (sort (hr_seatInventoryIds event)) fromSeq toSeq db
      then Inl (PlainError ''SEGMENT_CONFLICT'')
      else bindE (createAllocations rows db) (\<lambda>(_, db1).
        let history = map (\<lambda>a. \<lparr>ah_allocationId = al_id a, ah_oldStatus = HELD, ah_newStatus = HELD,
              ah_reason = ''Seat hold requested''\<rparr>) (findByBookingId (hr_bookingId event) db1)
        in bindE (idempotency_create eventKey (createHistoryMany history db1)) (\<lambda>(_, db2).
             Inr ((), emit env now ''SeatAllocation'' (hr_bookingId event) ''SeatsHeldV1''
               ''inventory.seats-held.v1'' (EvSeatsHeld payload) db2)))))"

definition commitHoldTransaction :: "inventory_env \<Rightarrow> time \<Rightarrow> exn option \<Rightarrow> exn option \<Rightarrow> HoldSeatsRequestedV1 \<Rightarrow> string \<Rightarrow> RouteStop \<Rightarrow>
    RouteStop \<Rightarrow> int \<Rightarrow> (ident \<rightharpoonup> SeatInventory) \<Rightarrow> (inventory_db, HoldSeatsOutcome) proc" where
  "commitHoldTransaction env now txErr failErr event eventKey fromStop toStop distance seatById db =
     (let holdExpiresAt = now + hr_holdTtlMs event
      in case allocation_rows event fromStop toStop distance holdExpiresAt seatById (hr_seatInventoryIds event) of
           Inl e \<Rightarrow> (Inl e, db)
         | Inr rows \<Rightarrow>
             (let payload = \<lparr>sh_eventId = deriveDeterministicUuid (ie_sha256 env) (''held:'' @ hr_eventId event),
                    sh_bookingId = hr_bookingId event, sh_allocations = map snd rows,
                    sh_holdExpiresAt = holdExpiresAt\<rparr>;
                  body = (case txErr of
                    Some e \<Rightarrow> (\<lambda>_. Inl e)
                  | None \<Rightarrow> hold_tx env now event eventKey (rs_sequenceNumber fromStop)
                      (rs_sequenceNumber toStop) (map fst rows) payload)
              in case transaction body db of
                   (Inr _, db') \<Rightarrow> (Inr (Held payload), db')
                 | (Inl e, db') \<Rightarrow>
                     (if e = PlainError ''SEGMENT_CONFLICT''
                      then fail env now failErr event SEGMENT_CONFLICT ''SEGMENT_CONFLICT''
                        ''One or more requested seat segments overlap with an active booking.'' db'
                      else fail env now failErr event INTERNAL_ERROR ''INTERNAL_ERROR''
                        ''Failed to persist seat allocations.'' db')))"

text \<open>The four reads before the transaction: the idempotency record, the schedule, the stops, the seats.
  \<open>reads n\<close> is what read \<open>n\<close> sees, a state of the database at that moment or an error.\<close>

definition holdSeats :: "inventory_env \<Rightarrow> time \<Rightarrow> (nat \<Rightarrow> inventory_db result) \<Rightarrow> link \<Rightarrow> link \<Rightarrow> exn option \<Rightarrow> exn option \<Rightarrow>
    HoldSeatsRequestedV1 \<Rightarrow> (inventory_db \<times> redis, HoldSeatsOutcome) proc" where
  "holdSeats env now reads lockLink unlockLink txErr failErr event s =
     (case s of (db, st) \<Rightarrow>
      let eventKey = ''booking:hold:'' @ hr_eventId event;
          failed = (\<lambda>reason name message st'.
            case fail env now failErr event reason name message db of (r, db') \<Rightarrow> (r, (db', st')))
      in case reads 0 of Inl e \<Rightarrow> (Inl e, (db, st)) | Inr db0 \<Rightarrow>
         if idempotency_exists eventKey db0 then (Inr Duplicate, (db, st))
         else case reads 1 of Inl e \<Rightarrow> (Inl e, (db, st)) | Inr db1 \<Rightarrow>
         if \<not> isScheduleActive (hr_scheduleId event) db1
         then failed SCHEDULE_NOT_FOUND ''SCHEDULE_NOT_FOUND'' ''Schedule not found or not active.'' st
         else case reads 2 of Inl e \<Rightarrow> (Inl e, (db, st)) | Inr db2 \<Rightarrow>
         case resolveSegmentStops event db2 of
           None \<Rightarrow> failed SEGMENT_CONFLICT ''SEGMENT_CONFLICT'' (segment_message event) st
         | Some (fromStop, toStop, distance) \<Rightarrow>
             (let q = \<lparr>iq_scheduleId = hr_scheduleId event,
                       iq_segments = map (\<lambda>i. \<lparr>ss_seatInventoryId = i, ss_fromSequence = rs_sequenceNumber fromStop,
                         ss_toSequence = rs_sequenceNumber toStop\<rparr>) (hr_seatInventoryIds event)\<rparr>
              in case inventory_acquireSeatLocks lockLink now q (hr_bookingId event) 30 st of
                   (False, st1) \<Rightarrow>
                     failed SEAT_ALREADY_HELD ''SEAT_ALREADY_HELD'' ''One or more requested seats are already held.'' st1
                 | (True, st1) \<Rightarrow>
                     (let st2 = snd (inventory_releaseSeatLocks unlockLink now q (hr_bookingId event) st1)
                      in case reads 3 of Inl e \<Rightarrow> (Inl e, (db, st2)) | Inr db3 \<Rightarrow>
                         case fetchSeatMap (hr_scheduleId event) (hr_seatInventoryIds event) db3 of
                           None \<Rightarrow> failed SEAT_NOT_FOUND ''SEAT_NOT_FOUND'' (seat_message event) st2
                         | Some seatById \<Rightarrow>
                             (case commitHoldTransaction env now txErr failErr event eventKey fromStop toStop distance seatById db of
                                (r, db') \<Rightarrow> (r, (db', st2))))))"

section \<open>Confirming and releasing\<close>

definition confirm_tx :: "ident \<Rightarrow> string \<Rightarrow> (inventory_db, unit) tx" where
  "confirm_tx bookingId eventKey db =
     (if idempotency_exists eventKey db then Inr ((), db)
      else
        let heldAllocations = filter (\<lambda>a. al_status a = HELD) (findByBookingId bookingId db);
            db1 = (if heldAllocations = [] then db
                   else createHistoryMany (map (\<lambda>a. \<lparr>ah_allocationId = al_id a, ah_oldStatus = HELD,
                          ah_newStatus = CONFIRMED, ah_reason = ''Booking payment confirmed''\<rparr>) heldAllocations)
                        (updateManyStatusByBooking bookingId CONFIRMED db))
        in idempotency_create eventKey db1)"

definition confirmSeats :: "ident \<Rightarrow> ident \<Rightarrow> (inventory_db, unit) proc" where
  "confirmSeats eventId bookingId db =
     (let eventKey = ''booking:confirm:'' @ eventId
      in if idempotency_exists eventKey db then (Inr (), db)
         else transaction (confirm_tx bookingId eventKey) db)"

definition cancel_tx :: "ident \<Rightarrow> string \<Rightarrow> (inventory_db, unit) tx" where
  "cancel_tx bookingId eventKey db =
     (if idempotency_exists eventKey db then Inr ((), db)
      else
        let activeAllocations = filter (\<lambda>a. al_status a = HELD \<or> al_status a = CONFIRMED) (findByBookingId bookingId db);
            db1 = (if activeAllocations = [] then db
                   else createHistoryMany (map (\<lambda>a. \<lparr>ah_allocationId = al_id a, ah_oldStatus = al_status a,
                          ah_newStatus = CANCELLED, ah_reason = ''Booking cancelled / payment failed''\<rparr>) activeAllocations)
                        (updateManyStatusByBookingAndStatuses bookingId CANCELLED [HELD, CONFIRMED] db))
        in idempotency_create eventKey db1)"

definition cancelSeats :: "ident \<Rightarrow> ident \<Rightarrow> (inventory_db, unit) proc" where
  "cancelSeats eventId bookingId db =
     (let eventKey = ''booking:cancel:'' @ eventId
      in if idempotency_exists eventKey db then (Inr (), db)
         else transaction (cancel_tx bookingId eventKey) db)"

definition onBookingStatusChanged :: "BookingStatusChangedV1 \<Rightarrow> (inventory_db, unit) proc" where
  "onBookingStatusChanged event db =
     (if bs_currentStatus event = Confirmed then confirmSeats (bs_eventId event) (bs_bookingId event) db
      else if bs_currentStatus event = BookingStatus.Cancelled \<or> bs_currentStatus event = Failed \<or>
              bs_currentStatus event = Expired
      then cancelSeats (bs_eventId event) (bs_bookingId event) db
      else (Inr (), db))"

section \<open>No seat is sold twice\<close>

definition active :: "SeatAllocation \<Rightarrow> bool" where
  "active a \<longleftrightarrow> al_status a \<in> {HELD, CONFIRMED}"

definition conflict :: "SeatAllocation \<Rightarrow> SeatAllocation \<Rightarrow> bool" where
  "conflict a b \<longleftrightarrow> active a \<and> active b \<and> al_scheduleId a = al_scheduleId b \<and>
     al_seatInventoryId a = al_seatInventoryId b \<and>
     al_fromSequence a < al_toSequence b \<and> al_fromSequence b < al_toSequence a"

definition seats_ok :: "inventory_db \<Rightarrow> bool" where
  "seats_ok db \<longleftrightarrow> sorted_wrt (\<lambda>a b. \<not> conflict a b) (iv_allocations db) \<and>
     map al_id (iv_allocations db) = [0..<length (iv_allocations db)] \<and>
     distinct (map (\<lambda>a. (al_bookingId a, al_seatInventoryId a)) (iv_allocations db)) \<and>
     distinct (iv_idempotency db)"

text \<open>Any step of the service: handlers on any event, and the hold transaction with whatever
  segment and seats an earlier read gave it.\<close>

inductive inventory_step :: "inventory_db \<Rightarrow> inventory_db \<Rightarrow> bool" where
  hold: "commitHoldTransaction env now txErr failErr event eventKey fromStop toStop distance seatById db = (r, db') \<Longrightarrow>
    inventory_step db db'"
| hold_fails: "fail env now failErr event reason name message db = (r, db') \<Longrightarrow> inventory_step db db'"
| booking_event: "onBookingStatusChanged bev db = (r, db') \<Longrightarrow> inventory_step db db'"
| schedule_created: "processCreated env now ce db = (r, db') \<Longrightarrow> inventory_step db db'"
| schedule_changed: "processStatusChanged env now xe db = (r, db') \<Longrightarrow> inventory_step db db'"

lemma hasOverlap_iff:
  "hasOverlappingAllocation i ids f t db \<longleftrightarrow>
    (\<exists>a \<in> set (iv_allocations db). active a \<and> al_scheduleId a = i \<and> al_seatInventoryId a \<in> set ids \<and>
       al_fromSequence a < t \<and> f < al_toSequence a)"
  by (auto simp: hasOverlappingAllocation_def filter_empty_conv active_def)

lemma length_number_allocations [simp]: "length (number_allocations n as) = length as"
  by (induction as arbitrary: n) auto

lemma number_allocations_ids: "map al_id (number_allocations n as) = [n..<n + length as]"
  by (induction as arbitrary: n) (simp_all add: upt_conv_Cons del: upt_Suc)

lemma number_allocations_map:
  assumes "\<And>a n. f (a\<lparr>al_id := n\<rparr>) = f a"
  shows "map f (number_allocations n as) = map f as"
  using assms by (induction as arbitrary: n) auto

lemma allocation_rows_pairs:
  "allocation_rows ev fs ts d h m is = Inr rows \<Longrightarrow>
    map (\<lambda>p. al_seatInventoryId (fst p)) rows = is \<and>
    (\<forall>p \<in> set rows. al_scheduleId (fst p) = hr_scheduleId ev \<and> al_bookingId (fst p) = hr_bookingId ev \<and>
       al_fromSequence (fst p) = rs_sequenceNumber fs \<and> al_toSequence (fst p) = rs_sequenceNumber ts \<and>
       al_status (fst p) = HELD \<and> al_holdExpiresAt (fst p) = Some h)"
proof (induction "is" arbitrary: rows)
  case (Cons i ids)
  then obtain seat rest where r: "m i = Some seat" "allocation_rows ev fs ts d h m ids = Inr rest"
    by (auto simp: bindE_eq_Inr_iff split: option.splits)
  from Cons.IH [OF r(2)] Cons.prems r show ?case by (simp add: ball_Un split: option.splits) auto
qed simp

lemma allocation_rows_shape:
  assumes "allocation_rows ev fs ts d h m is = Inr rows"
  shows "map (al_seatInventoryId \<circ> fst) rows = is \<and>
    (\<forall>a \<in> set (map fst rows). al_scheduleId a = hr_scheduleId ev \<and> al_bookingId a = hr_bookingId ev \<and>
       al_fromSequence a = rs_sequenceNumber fs \<and> al_toSequence a = rs_sequenceNumber ts \<and> al_status a = HELD \<and>
       al_holdExpiresAt a = Some h)"
  using allocation_rows_pairs [OF assms] by (simp add: comp_def)

lemma number_allocations_mem:
  "a \<in> set (number_allocations n as) \<Longrightarrow> \<exists>b \<in> set as. \<exists>k. a = b\<lparr>al_id := k\<rparr>"
  by (induction as arbitrary: n) auto

lemma create_row_id: "create_row id k ks = Inr ks' \<longleftrightarrow> k \<notin> set ks \<and> ks' = ks @ [k]"
  by (simp add: create_row_Inr_iff)

lemma createAllocations_Inr:
  "createAllocations rows db = Inr (u, db') \<longleftrightarrow>
    (\<exists>allocs. create_rows (\<lambda>a. (al_bookingId a, al_seatInventoryId a))
       (number_allocations (length (iv_allocations db)) rows) (iv_allocations db) = Inr allocs \<and>
     db' = db\<lparr>iv_allocations := allocs\<rparr>)"
  by (auto simp: createAllocations_def bindE_eq_Inr_iff)

lemma idempotency_create_Inr:
  "idempotency_create key db = Inr (u, db') \<longleftrightarrow>
    key \<notin> set (iv_idempotency db) \<and> db' = db\<lparr>iv_idempotency := iv_idempotency db @ [key]\<rparr>"
  by (auto simp: idempotency_create_def bindE_eq_Inr_iff create_row_id)

text \<open>What the hold transaction writes when it commits for the first time.\<close>

lemma hold_tx_Inr:
  assumes "hold_tx env now ev key f t rows payload db = Inr (u, db')" and "key \<notin> set (iv_idempotency db)"
  shows "\<not> hasOverlappingAllocation (hr_scheduleId ev) (hr_seatInventoryIds ev) f t db"
    and "iv_allocations db' = iv_allocations db @ number_allocations (length (iv_allocations db)) rows"
    and "iv_idempotency db' = iv_idempotency db @ [key]"
    and "outbox_payloads (iv_outbox db') = outbox_payloads (iv_outbox db) @ [EvSeatsHeld payload]"
    and "distinct (map (\<lambda>a. (al_bookingId a, al_seatInventoryId a)) rows)"
    and "(\<lambda>a. (al_bookingId a, al_seatInventoryId a)) ` set rows \<inter>
      (\<lambda>a. (al_bookingId a, al_seatInventoryId a)) ` set (iv_allocations db) = {}"
    and "iv_seats db' = iv_seats db" and "iv_schedules db' = iv_schedules db" and "iv_stops db' = iv_stops db"
    and "iv_nextSeat db' = iv_nextSeat db"
proof -
  let ?new = "number_allocations (length (iv_allocations db)) rows"
  let ?key = "\<lambda>a. (al_bookingId a, al_seatInventoryId a)"
  have keys: "map ?key ?new = map ?key rows" by (rule number_allocations_map) simp
  from assms(2) have n: "\<not> idempotency_exists key db" by (simp add: idempotency_exists_def)
  with assms(1) have ov: "\<not> hasOverlappingAllocation (hr_scheduleId ev) (sort (hr_seatInventoryIds ev)) f t db"
    by (auto simp: hold_tx_def lockSeats_def)
  with assms(1) n obtain dba where
    a: "createAllocations rows db = Inr ((), dba)" and
    b: "bindE (idempotency_create key (createHistoryMany (map (\<lambda>a. \<lparr>ah_allocationId = al_id a, ah_oldStatus = HELD,
          ah_newStatus = HELD, ah_reason = ''Seat hold requested''\<rparr>) (findByBookingId (hr_bookingId ev) dba)) dba))
        (\<lambda>(_, db2). Inr ((), emit env now ''SeatAllocation'' (hr_bookingId ev) ''SeatsHeldV1''
               ''inventory.seats-held.v1'' (EvSeatsHeld payload) db2)) = Inr (u, db')"
    by (auto simp: hold_tx_def lockSeats_def bindE_eq_Inr_iff Let_def)
  from a obtain allocs where cr: "create_rows ?key ?new (iv_allocations db) = Inr allocs"
    and dba: "dba = db\<lparr>iv_allocations := allocs\<rparr>"
    unfolding createAllocations_Inr by auto
  define db1 where "db1 = createHistoryMany (map (\<lambda>a. \<lparr>ah_allocationId = al_id a, ah_oldStatus = HELD,
          ah_newStatus = HELD, ah_reason = ''Seat hold requested''\<rparr>) (findByBookingId (hr_bookingId ev) dba)) dba"
  have db1: "iv_allocations db1 = allocs" "iv_idempotency db1 = iv_idempotency db" "iv_outbox db1 = iv_outbox db"
      "iv_seats db1 = iv_seats db" "iv_schedules db1 = iv_schedules db" "iv_stops db1 = iv_stops db"
      "iv_nextSeat db1 = iv_nextSeat db"
    by (simp_all add: db1_def createHistoryMany_def dba)
  from b obtain db2 where db2: "idempotency_create key db1 = Inr ((), db2)"
    and e: "db' = emit env now ''SeatAllocation'' (hr_bookingId ev) ''SeatsHeldV1'' ''inventory.seats-held.v1''
        (EvSeatsHeld payload) db2"
    unfolding db1_def [symmetric] bindE_eq_Inr_iff by auto
  from db2 have db': "db' = emit env now ''SeatAllocation'' (hr_bookingId ev) ''SeatsHeldV1'' ''inventory.seats-held.v1''
        (EvSeatsHeld payload) (db1\<lparr>iv_idempotency := iv_idempotency db @ [key]\<rparr>)"
    unfolding e idempotency_create_Inr db1 by simp
  from cr have c: "distinct (map ?key ?new)" "?key ` set ?new \<inter> ?key ` set (iv_allocations db) = {}"
    "allocs = iv_allocations db @ ?new" unfolding create_rows_Inr_iff by auto
  have im: "?key ` set ?new = ?key ` set rows" using arg_cong [OF keys, of set] by simp
  show "\<not> hasOverlappingAllocation (hr_scheduleId ev) (hr_seatInventoryIds ev) f t db"
    using ov by (simp add: hasOverlap_iff)
  show "distinct (map ?key rows)" using c(1) unfolding keys .
  show "?key ` set rows \<inter> ?key ` set (iv_allocations db) = {}" using c(2) unfolding im .
  show "iv_allocations db' = iv_allocations db @ ?new" by (simp add: db' db1 c(3))
  show "iv_idempotency db' = iv_idempotency db @ [key]" by (simp add: db')
  show "outbox_payloads (iv_outbox db') = outbox_payloads (iv_outbox db) @ [EvSeatsHeld payload]"
    by (simp add: db' db1)
  show "iv_seats db' = iv_seats db" "iv_schedules db' = iv_schedules db" "iv_stops db' = iv_stops db"
    "iv_nextSeat db' = iv_nextSeat db" by (simp_all add: db' db1)
qed

lemma seats_ok_frame:
  "iv_allocations db' = iv_allocations db \<Longrightarrow> iv_idempotency db' = iv_idempotency db \<Longrightarrow> seats_ok db \<Longrightarrow> seats_ok db'"
  by (simp add: seats_ok_def)

lemma hold_tx_ok:
  assumes ok: "seats_ok db" and tx: "hold_tx env now ev key f t (map fst rows) payload db = Inr (u, db')"
    and rows: "allocation_rows ev fs ts d h m (hr_seatInventoryIds ev) = Inr rows"
    and seq: "f = rs_sequenceNumber fs" "t = rs_sequenceNumber ts"
  shows "seats_ok db'"
proof (cases "key \<in> set (iv_idempotency db)")
  case True
  with tx ok show ?thesis by (simp add: hold_tx_def idempotency_exists_def)
next
  case False
  let ?new = "number_allocations (length (iv_allocations db)) (map fst rows)"
  let ?key = "\<lambda>a. (al_bookingId a, al_seatInventoryId a)"
  note h = hold_tx_Inr [OF tx False]
  have shape: "al_seatInventoryId a \<in> set (hr_seatInventoryIds ev) \<and> al_scheduleId a = hr_scheduleId ev \<and>
      al_bookingId a = hr_bookingId ev \<and> al_fromSequence a = f \<and> al_toSequence a = t"
    if new: "a \<in> set ?new" for a
  proof -
    obtain b k where b: "b \<in> set (map fst rows)" "a = b\<lparr>al_id := k\<rparr>" using number_allocations_mem [OF new] by blast
    have "set (map (al_seatInventoryId \<circ> fst) rows) = set (hr_seatInventoryIds ev)"
      using allocation_rows_shape [OF rows] by simp
    with b(1) have "al_seatInventoryId b \<in> set (hr_seatInventoryIds ev)" by force
    with b allocation_rows_shape [OF rows] seq show ?thesis by auto
  qed
  have old_new: "\<not> conflict a b" if "a \<in> set (iv_allocations db)" "b \<in> set ?new" for a b
    using h(1) shape [OF that(2)] that(1) unfolding hasOverlap_iff conflict_def by auto
  have keys: "map ?key ?new = map ?key (map fst rows)" by (rule number_allocations_map) simp
  then have "distinct (map ?key ?new)" using h(5) by simp
  then have "sorted_wrt (\<lambda>a b. ?key a \<noteq> ?key b) ?new" unfolding distinct_map_sorted_wrt .
  then have new_new: "sorted_wrt (\<lambda>a b. \<not> conflict a b) ?new"
    by (rule sorted_wrt_mono_rel [rotated]) (use shape in \<open>auto simp: conflict_def\<close>)
  have im: "?key ` set ?new = ?key ` set (map fst rows)" unfolding image_set keys by (rule refl)
  have o: "sorted_wrt (\<lambda>a b. \<not> conflict a b) (iv_allocations db)"
    "map al_id (iv_allocations db) = [0..<length (iv_allocations db)]"
    "distinct (map ?key (iv_allocations db))" "distinct (iv_idempotency db)"
    using ok by (auto simp: seats_ok_def)
  show ?thesis unfolding seats_ok_def h(2,3)
  proof (intro conjI)
    show "sorted_wrt (\<lambda>a b. \<not> conflict a b) (iv_allocations db @ ?new)"
      unfolding sorted_wrt_append using o(1) new_new old_new by blast
    show "map al_id (iv_allocations db @ ?new) = [0..<length (iv_allocations db @ ?new)]"
      by (simp add: o(2) number_allocations_ids upt_add_eq_append [of 0])
    have "set (map ?key (iv_allocations db)) \<inter> set (map ?key ?new) = {}"
      using h(6) im by (simp add: Int_commute)
    then show "distinct (map ?key (iv_allocations db @ ?new))"
      using o(3) \<open>distinct (map ?key ?new)\<close> unfolding map_append distinct_append by blast
    show "distinct (iv_idempotency db @ [key])" using o(4) False by simp
  qed
qed

lemma fail_frame:
  "iv_allocations (snd (fail env now fe ev r n msg db)) = iv_allocations db"
  "iv_idempotency (snd (fail env now fe ev r n msg db)) = iv_idempotency db"
  "iv_seats (snd (fail env now fe ev r n msg db)) = iv_seats db"
  "iv_schedules (snd (fail env now fe ev r n msg db)) = iv_schedules db"
  "iv_stops (snd (fail env now fe ev r n msg db)) = iv_stops db"
  "iv_nextSeat (snd (fail env now fe ev r n msg db)) = iv_nextSeat db"
  by (simp_all add: fail_def Let_def split: option.split)

lemma commitHold_cases:
  assumes "commitHoldTransaction env now txErr failErr ev key fs ts d m db = (r, db')"
  obtains (type_error) e where "allocation_rows ev fs ts d (now + hr_holdTtlMs ev) m (hr_seatInventoryIds ev) = Inl e"
      and "r = Inl e" and "db' = db"
    | (committed) rows payload u where "allocation_rows ev fs ts d (now + hr_holdTtlMs ev) m (hr_seatInventoryIds ev) = Inr rows"
      and "payload = \<lparr>sh_eventId = deriveDeterministicUuid (ie_sha256 env) (''held:'' @ hr_eventId ev),
            sh_bookingId = hr_bookingId ev, sh_allocations = map snd rows, sh_holdExpiresAt = now + hr_holdTtlMs ev\<rparr>"
      and "txErr = None" and "r = Inr (Held payload)"
      and "hold_tx env now ev key (rs_sequenceNumber fs) (rs_sequenceNumber ts) (map fst rows) payload db = Inr (u, db')"
    | (failed) reason name msg where "fail env now failErr ev reason name msg db = (r, db')"
proof (cases "allocation_rows ev fs ts d (now + hr_holdTtlMs ev) m (hr_seatInventoryIds ev)")
  case (Inl e)
  then show ?thesis using assms type_error by (simp add: commitHoldTransaction_def Let_def)
next
  case (Inr rows)
  define payload where "payload = \<lparr>sh_eventId = deriveDeterministicUuid (ie_sha256 env) (''held:'' @ hr_eventId ev),
            sh_bookingId = hr_bookingId ev, sh_allocations = map snd rows, sh_holdExpiresAt = now + hr_holdTtlMs ev\<rparr>"
  define body where "body = (case txErr of Some e \<Rightarrow> (\<lambda>_. Inl e) | None \<Rightarrow>
      hold_tx env now ev key (rs_sequenceNumber fs) (rs_sequenceNumber ts) (map fst rows) payload)"
  have eq: "commitHoldTransaction env now txErr failErr ev key fs ts d m db =
      (case transaction body db of
         (Inr _, db') \<Rightarrow> (Inr (Held payload), db')
       | (Inl e, db') \<Rightarrow>
           (if e = PlainError ''SEGMENT_CONFLICT''
            then fail env now failErr ev SEGMENT_CONFLICT ''SEGMENT_CONFLICT''
                        ''One or more requested seat segments overlap with an active booking.'' db'
            else fail env now failErr ev INTERNAL_ERROR ''INTERNAL_ERROR''
                        ''Failed to persist seat allocations.'' db'))"
    unfolding commitHoldTransaction_def Let_def Inr sum.case payload_def body_def by (rule refl)
  show ?thesis
  proof (cases "body db")
    case (Inl e)
    then have tr: "transaction body db = (Inl e, db)" by (rule transaction_Inl)
    define reason where "reason = (if e = PlainError ''SEGMENT_CONFLICT'' then SEGMENT_CONFLICT else INTERNAL_ERROR)"
    define name where "name = (if e = PlainError ''SEGMENT_CONFLICT'' then ''SEGMENT_CONFLICT'' else ''INTERNAL_ERROR'')"
    define msg where "msg = (if e = PlainError ''SEGMENT_CONFLICT''
      then ''One or more requested seat segments overlap with an active booking.''
      else ''Failed to persist seat allocations.'')"
    have "(r, db') = fail env now failErr ev reason name msg db"
      unfolding assms [symmetric] eq tr prod.case sum.case reason_def name_def msg_def by (simp split: if_splits)
    then show ?thesis using failed by simp
  next
    case body: (Inr p)
    obtain u db1 where p: "p = (u, db1)" by (cases p)
    have tr: "transaction body db = (Inr u, db1)" using body p by (intro transaction_Inr) simp
    have tx: "txErr = None" using body by (auto simp: body_def split: option.splits)
    have "(r, db') = (Inr (Held payload), db1)"
      unfolding assms [symmetric] eq tr prod.case sum.case ..
    then show ?thesis using body tx p Inr
      by (intro committed [of rows payload u]) (simp_all add: body_def payload_def)
  qed
qed

lemma commitHold_ok:
  assumes "seats_ok db" and "commitHoldTransaction env now txErr failErr ev key fs ts d m db = (r, db')"
  shows "seats_ok db'"
  using assms(2)
proof (cases rule: commitHold_cases)
  case type_error
  with assms(1) show ?thesis by simp
next
  case committed
  with hold_tx_ok [OF assms(1)] show ?thesis by blast
next
  case (failed reason name msg)
  then have "db' = snd (fail env now failErr ev reason name msg db)" by simp
  with assms(1) show ?thesis using seats_ok_frame fail_frame by metis
qed

text \<open>Status updates that keep every key and never make an inactive allocation active.\<close>

lemma seats_ok_update:
  assumes "seats_ok db"
    and "\<And>a. p a \<Longrightarrow> active (a\<lparr>al_status := st\<rparr>) \<Longrightarrow> active a"
    and "iv_allocations db' = fst (update_many p (\<lambda>a. a\<lparr>al_status := st\<rparr>) (iv_allocations db))"
    and "distinct (iv_idempotency db')"
  shows "seats_ok db'"
proof -
  let ?f = "\<lambda>a. if p a then a\<lparr>al_status := st\<rparr> else a"
  have "sorted_wrt (\<lambda>a b. \<not> conflict (?f a) (?f b)) (iv_allocations db)"
    using assms(1) unfolding seats_ok_def
    by (elim conjE, elim sorted_wrt_mono_rel [rotated]) (use assms(2) in \<open>auto simp: conflict_def\<close>)
  then show ?thesis using assms(1,4) unfolding seats_ok_def assms(3)
    by (simp add: update_many_def sorted_wrt_map distinct_map_update del: map_map)
qed

lemma confirm_tx_cases:
  assumes "confirm_tx b key db = Inr (u, db')"
  shows "(key \<in> set (iv_idempotency db) \<and> db' = db) \<or>
    (key \<notin> set (iv_idempotency db) \<and> iv_idempotency db' = iv_idempotency db @ [key] \<and>
     iv_allocations db' = fst (update_many (\<lambda>a. al_bookingId a = b \<and> al_status a = HELD)
        (\<lambda>a. a\<lparr>al_status := CONFIRMED\<rparr>) (iv_allocations db)) \<and>
     iv_history db' = iv_history db @ map (\<lambda>a. \<lparr>ah_allocationId = al_id a, ah_oldStatus = HELD,
          ah_newStatus = CONFIRMED, ah_reason = ''Booking payment confirmed''\<rparr>)
        (filter (\<lambda>a. al_bookingId a = b \<and> al_status a = HELD) (iv_allocations db)) \<and>
     iv_outbox db' = iv_outbox db \<and> iv_seats db' = iv_seats db \<and> iv_schedules db' = iv_schedules db \<and>
     iv_stops db' = iv_stops db \<and> iv_nextSeat db' = iv_nextSeat db)"
proof (cases "filter (\<lambda>a. al_bookingId a = b \<and> al_status a = HELD) (iv_allocations db) = []")
  case True
  then have "fst (update_many (\<lambda>a. al_bookingId a = b \<and> al_status a = HELD)
        (\<lambda>a. a\<lparr>al_status := CONFIRMED\<rparr>) (iv_allocations db)) = iv_allocations db"
    by (auto simp: update_many_def filter_empty_conv intro!: map_idI)
  moreover have "filter (\<lambda>a. al_status a = HELD) (findByBookingId b db) = []"
    using True by (simp add: findByBookingId_def conj_commute)
  ultimately show ?thesis using assms True
    by (auto simp: confirm_tx_def idempotency_exists_def idempotency_create_Inr split: if_splits)
next
  case False
  then show ?thesis using assms
    by (auto simp: confirm_tx_def idempotency_exists_def idempotency_create_Inr findByBookingId_def Let_def
        createHistoryMany_def updateManyStatusByBooking_def conj_commute split: if_splits)
qed

lemma cancel_tx_cases:
  assumes "cancel_tx b key db = Inr (u, db')"
  shows "(key \<in> set (iv_idempotency db) \<and> db' = db) \<or>
    (key \<notin> set (iv_idempotency db) \<and> iv_idempotency db' = iv_idempotency db @ [key] \<and>
     iv_allocations db' = fst (update_many (\<lambda>a. al_bookingId a = b \<and> al_status a \<in> {HELD, CONFIRMED})
        (\<lambda>a. a\<lparr>al_status := CANCELLED\<rparr>) (iv_allocations db)) \<and>
     iv_history db' = iv_history db @ map (\<lambda>a. \<lparr>ah_allocationId = al_id a, ah_oldStatus = al_status a,
          ah_newStatus = CANCELLED, ah_reason = ''Booking cancelled / payment failed''\<rparr>)
        (filter (\<lambda>a. al_bookingId a = b \<and> al_status a \<in> {HELD, CONFIRMED}) (iv_allocations db)) \<and>
     iv_outbox db' = iv_outbox db \<and> iv_seats db' = iv_seats db \<and> iv_schedules db' = iv_schedules db \<and>
     iv_stops db' = iv_stops db \<and> iv_nextSeat db' = iv_nextSeat db)"
proof -
  let ?act = "filter (\<lambda>a. al_bookingId a = b \<and> al_status a \<in> {HELD, CONFIRMED}) (iv_allocations db)"
  have act: "filter (\<lambda>a. al_status a = HELD \<or> al_status a = CONFIRMED) (findByBookingId b db) = ?act"
    by (simp add: findByBookingId_def conj_commute)
  show ?thesis
  proof (cases "?act = []")
    case True
    then have "fst (update_many (\<lambda>a. al_bookingId a = b \<and> al_status a \<in> {HELD, CONFIRMED})
        (\<lambda>a. a\<lparr>al_status := CANCELLED\<rparr>) (iv_allocations db)) = iv_allocations db"
      by (auto simp: update_many_def filter_empty_conv intro!: map_idI)
    then show ?thesis using assms True unfolding cancel_tx_def act
      by (auto simp: idempotency_exists_def idempotency_create_Inr split: if_splits)
  next
    case False
    then show ?thesis using assms unfolding cancel_tx_def act
      by (simp add: idempotency_exists_def idempotency_create_Inr Let_def
          createHistoryMany_def updateManyStatusByBookingAndStatuses_def split: if_splits)
  qed
qed

lemma booking_event_cases:
  assumes "onBookingStatusChanged bev db = (r, db')"
  obtains (same) "db' = db"
    | (confirmed) key where "confirm_tx (bs_bookingId bev) key db = Inr ((), db')" "bs_currentStatus bev = Confirmed"
    | (cancelled) key where "cancel_tx (bs_bookingId bev) key db = Inr ((), db')" "bs_currentStatus bev \<noteq> Confirmed"
  using assms
  by (auto simp: onBookingStatusChanged_def confirmSeats_def cancelSeats_def Let_def transaction_def
      split: if_splits sum.splits)

lemma booking_event_ok:
  assumes "seats_ok db" and "onBookingStatusChanged bev db = (r, db')"
  shows "seats_ok db'"
  using assms(2)
proof (cases rule: booking_event_cases)
  case same
  with assms(1) show ?thesis by simp
next
  case (confirmed key)
  from confirm_tx_cases [OF confirmed(1)] show ?thesis
  proof (elim disjE conjE)
    assume new: "key \<notin> set (iv_idempotency db)" "iv_idempotency db' = iv_idempotency db @ [key]"
      and alloc: "iv_allocations db' = fst (update_many (\<lambda>a. al_bookingId a = bs_bookingId bev \<and> al_status a = HELD) (al_status_update (\<lambda>_. CONFIRMED)) (iv_allocations db))"
    have "distinct (iv_idempotency db')" using assms(1) new by (simp add: seats_ok_def)
    then show ?thesis using alloc by (intro seats_ok_update [OF assms(1) _ alloc]) (auto simp: active_def)
  qed (use assms(1) in simp)
next
  case (cancelled key)
  from cancel_tx_cases [OF cancelled(1)] show ?thesis
  proof (elim disjE conjE)
    assume new: "key \<notin> set (iv_idempotency db)" "iv_idempotency db' = iv_idempotency db @ [key]"
      and alloc: "iv_allocations db' = fst (update_many (\<lambda>a. al_bookingId a = bs_bookingId bev \<and> al_status a \<in> {HELD, CONFIRMED}) (al_status_update (\<lambda>_. CANCELLED)) (iv_allocations db))"
    have "distinct (iv_idempotency db')" using assms(1) new by (simp add: seats_ok_def)
    then show ?thesis using alloc by (intro seats_ok_update [OF assms(1) _ alloc]) (auto simp: active_def)
  qed (use assms(1) in simp)
qed

lemma schedule_events_frame:
  "iv_allocations (snd (processCreated env now ce db)) = iv_allocations db"
  "iv_idempotency (snd (processCreated env now ce db)) = iv_idempotency db"
  "iv_allocations (snd (processStatusChanged env now xe db)) = iv_allocations db"
  "iv_idempotency (snd (processStatusChanged env now xe db)) = iv_idempotency db"
proof -
  have "iv_allocations (snd (processCreated env now ce db)) = iv_allocations db \<and>
      iv_idempotency (snd (processCreated env now ce db)) = iv_idempotency db"
    unfolding processCreated_def
    by (rule transaction_preserves, simp)
      (auto simp: bindE_eq_Inr_iff deleteByScheduleId_def split: option.splits if_splits
        dest: project_schedule_Inr(6,8))
  then show "iv_allocations (snd (processCreated env now ce db)) = iv_allocations db"
    "iv_idempotency (snd (processCreated env now ce db)) = iv_idempotency db" by auto
  have "iv_allocations (snd (processStatusChanged env now xe db)) = iv_allocations db \<and>
      iv_idempotency (snd (processStatusChanged env now xe db)) = iv_idempotency db"
    unfolding processStatusChanged_def
    by (rule transaction_preserves, simp)
      (auto simp: updateScheduleStatus_def update_many_def Let_def split: option.splits if_splits prod.splits)
  then show "iv_allocations (snd (processStatusChanged env now xe db)) = iv_allocations db"
    "iv_idempotency (snd (processStatusChanged env now xe db)) = iv_idempotency db" by auto
qed

lemma inventory_step_ok: "inventory_step db db' \<Longrightarrow> seats_ok db \<Longrightarrow> seats_ok db'"
proof (induction rule: inventory_step.induct)
  case (hold env now txErr failErr event eventKey fromStop toStop distance seatById db r db')
  then show ?case using commitHold_ok by blast
next
  case (hold_fails env now failErr event reason name msg db r db')
  then have "db' = snd (fail env now failErr event reason name msg db)" by simp
  with hold_fails(2) show ?case using seats_ok_frame fail_frame by metis
next
  case (booking_event bev db r db')
  then show ?case using booking_event_ok by blast
next
  case (schedule_created env now ce db r db')
  then have "db' = snd (processCreated env now ce db)" by simp
  with schedule_created(2) show ?case using seats_ok_frame schedule_events_frame by metis
next
  case (schedule_changed env now xe db r db')
  then have "db' = snd (processStatusChanged env now xe db)" by simp
  with schedule_changed(2) show ?case using seats_ok_frame schedule_events_frame by metis
qed

interpretation inventory: stepper inventory_step seats_ok
  by unfold_locales (fact inventory_step_ok)

text \<open>The life of an allocation: held, then confirmed, then given up, and never back.\<close>

fun status_rank :: "AllocationStatus \<Rightarrow> nat" where
  "status_rank HELD = 0"
| "status_rank CONFIRMED = 1"
| "status_rank CANCELLED = 2"
| "status_rank EXPIRED = 2"

definition allocation_le :: "inventory_db \<Rightarrow> inventory_db \<Rightarrow> bool" where
  "allocation_le db db' \<longleftrightarrow> length (iv_allocations db) \<le> length (iv_allocations db') \<and>
     (\<forall>i < length (iv_allocations db). iv_allocations db' ! i =
        (iv_allocations db ! i)\<lparr>al_status := al_status (iv_allocations db' ! i)\<rparr> \<and>
        (al_status (iv_allocations db' ! i) = al_status (iv_allocations db ! i) \<or>
         status_rank (al_status (iv_allocations db ! i)) < status_rank (al_status (iv_allocations db' ! i)))) \<and>
     (\<forall>i < length (iv_allocations db'). length (iv_allocations db) \<le> i \<longrightarrow> al_status (iv_allocations db' ! i) \<noteq> EXPIRED) \<and>
     (\<forall>i < length (iv_allocations db). al_status (iv_allocations db' ! i) = EXPIRED \<longrightarrow>
        al_status (iv_allocations db ! i) = EXPIRED)"

lemma allocation_le_refl: "allocation_le db db"
  by (simp add: allocation_le_def)

lemma allocation_le_same: "iv_allocations db' = iv_allocations db \<Longrightarrow> allocation_le db db'"
  by (simp add: allocation_le_def)

lemma allocation_le_trans:
  assumes ab: "allocation_le a b" and bc: "allocation_le b c"
  shows "allocation_le a c"
  unfolding allocation_le_def
proof (intro conjI allI impI)
  show "length (iv_allocations a) \<le> length (iv_allocations c)" using ab bc by (simp add: allocation_le_def)
next
  fix i
  assume i: "i < length (iv_allocations a)"
  then have j: "i < length (iv_allocations b)" using ab by (simp add: allocation_le_def)
  let ?s = "\<lambda>db. al_status (iv_allocations db ! i)"
  have eb: "iv_allocations b ! i = (iv_allocations a ! i)\<lparr>al_status := ?s b\<rparr>"
    and ec: "iv_allocations c ! i = (iv_allocations b ! i)\<lparr>al_status := ?s c\<rparr>"
    using ab bc i j by (simp_all add: allocation_le_def)
  have "(iv_allocations b ! i)\<lparr>al_status := ?s c\<rparr> = (iv_allocations a ! i)\<lparr>al_status := ?s c\<rparr>"
    by (subst eb) simp
  with ec show "iv_allocations c ! i = (iv_allocations a ! i)\<lparr>al_status := ?s c\<rparr>" by simp
  have "?s b = ?s a \<or> status_rank (?s a) < status_rank (?s b)" "?s c = ?s b \<or> status_rank (?s b) < status_rank (?s c)"
    using ab bc i j by (simp_all add: allocation_le_def)
  then show "?s c = ?s a \<or> status_rank (?s a) < status_rank (?s c)" by auto
  show "?s a = EXPIRED" if "?s c = EXPIRED" using ab bc i j that by (simp add: allocation_le_def)
next
  fix i
  assume i: "i < length (iv_allocations c)" "length (iv_allocations a) \<le> i"
  show "al_status (iv_allocations c ! i) \<noteq> EXPIRED"
  proof (cases "i < length (iv_allocations b)")
    case True
    then have "al_status (iv_allocations b ! i) \<noteq> EXPIRED" using ab i by (simp add: allocation_le_def)
    then show ?thesis using bc True by (auto simp: allocation_le_def)
  next
    case False
    then show ?thesis using bc i by (simp add: allocation_le_def)
  qed
qed

lemma allocation_le_update:
  assumes "iv_allocations db' = fst (update_many p (\<lambda>a. a\<lparr>al_status := st\<rparr>) (iv_allocations db))"
    and "\<And>a. p a \<Longrightarrow> status_rank (al_status a) < status_rank st" and "st \<noteq> EXPIRED"
  shows "allocation_le db db'"
  using assms(2,3) unfolding allocation_le_def assms(1) by (auto simp: nth_update update_many_def)

lemma allocation_le_append:
  assumes "iv_allocations db' = iv_allocations db @ new" and "\<forall>a \<in> set new. al_status a \<noteq> EXPIRED"
  shows "allocation_le db db'"
  using assms(2) unfolding allocation_le_def assms(1) by (auto simp: nth_append)

lemma inventory_step_le: "inventory_step db db' \<Longrightarrow> allocation_le db db'"
proof (induction rule: inventory_step.induct)
  case (hold env now txErr failErr event eventKey fromStop toStop distance seatById db r db')
  from hold show ?case
  proof (cases rule: commitHold_cases)
    case type_error
    then show ?thesis by (simp add: allocation_le_refl)
  next
    case (committed rows payload u)
    show ?thesis
    proof (cases "eventKey \<in> set (iv_idempotency db)")
      case True
      with committed show ?thesis by (simp add: hold_tx_def idempotency_exists_def allocation_le_refl)
    next
      case False
      show ?thesis
      proof (rule allocation_le_append [OF hold_tx_Inr(2) [OF committed(5) False]])
        show "\<forall>a \<in> set (number_allocations (length (iv_allocations db)) (map fst rows)). al_status a \<noteq> EXPIRED"
          using allocation_rows_shape [OF committed(1)] by (fastforce dest: number_allocations_mem)
      qed
    qed
  next
    case (failed reason name msg)
    then have "iv_allocations db' = iv_allocations db" using fail_frame(1) by (metis snd_conv)
    then show ?thesis by (rule allocation_le_same)
  qed
next
  case (hold_fails env now failErr event reason name msg db r db')
  then show ?case using fail_frame(1) allocation_le_same by (metis snd_conv)
next
  case (booking_event bev db r db')
  then show ?case
  proof (cases rule: booking_event_cases)
    case same
    then show ?thesis by (simp add: allocation_le_refl)
  next
    case (confirmed key)
    from confirm_tx_cases [OF confirmed(1)] show ?thesis
      by (auto simp: allocation_le_refl intro: allocation_le_update)
  next
    case (cancelled key)
    from cancel_tx_cases [OF cancelled(1)] show ?thesis
      by (auto simp: allocation_le_refl intro: allocation_le_update)
  qed
next
  case (schedule_created env now ce db r db')
  then show ?case using schedule_events_frame(1) allocation_le_same by (metis snd_conv)
next
  case (schedule_changed env now xe db r db')
  then show ?case using schedule_events_frame(3) allocation_le_same by (metis snd_conv)
qed

interpretation allocations: monotone_stepper inventory_step allocation_le
  by unfold_locales (fact inventory_step_le allocation_le_refl allocation_le_trans)+

lemma empty_seats_ok: "seats_ok empty_inventory"
  by (simp add: seats_ok_def empty_inventory_def)

text \<open>C2: No double booking. In every state the service can reach from an empty database, by any
  interleaving of holds (also on outdated reads, retried or failing), confirmations, releases
  and schedule updates, two different active allocations of one seat of a schedule cover
  disjoint parts of the journey.\<close>

theorem no_double_booking:
  assumes "inventory_step\<^sup>*\<^sup>* empty_inventory db"
    and "i < j" and "j < length (iv_allocations db)"
    and "a = iv_allocations db ! i" and "b = iv_allocations db ! j"
    and "al_status a \<in> {HELD, CONFIRMED}" and "al_status b \<in> {HELD, CONFIRMED}"
    and "al_scheduleId a = al_scheduleId b" and "al_seatInventoryId a = al_seatInventoryId b"
  shows "al_toSequence a \<le> al_fromSequence b \<or> al_toSequence b \<le> al_fromSequence a"
proof -
  have "seats_ok db" using inventory.run_inv [OF assms(1) empty_seats_ok] .
  then have "\<not> conflict a b" using assms(2-5) by (simp add: seats_ok_def sorted_wrt_iff_nth_less)
  then show ?thesis using assms(6-9) by (auto simp: conflict_def active_def)
qed

text \<open>Nothing the service does brings a seat back to a booking that gave it up: an allocation's
  key, segment and price never change, its status only moves from held to confirmed and from
  either to cancelled, and no allocation ever becomes \<open>EXPIRED\<close>, although that status and the
  expiry time are stored.\<close>

theorem allocation_status_forward:
  assumes "inventory_step\<^sup>*\<^sup>* empty_inventory db" and "inventory_step\<^sup>*\<^sup>* db db'"
    and "i < length (iv_allocations db)"
  shows "\<exists>st. iv_allocations db' ! i = (iv_allocations db ! i)\<lparr>al_status := st\<rparr> \<and> st \<noteq> EXPIRED \<and>
    (st = al_status (iv_allocations db ! i) \<or>
     status_rank (al_status (iv_allocations db ! i)) < status_rank st)"
proof -
  have le: "allocation_le db db'" using allocations.run_le [OF assms(2)] .
  have "allocation_le empty_inventory db'"
    using allocations.run_le [OF assms(1)] le by (rule allocation_le_trans)
  then have "al_status (iv_allocations db' ! i) \<noteq> EXPIRED"
    using le assms(3) by (auto simp: allocation_le_def empty_inventory_def)
  with le assms(3) show ?thesis
    by (intro exI [of _ "al_status (iv_allocations db' ! i)"]) (auto simp: allocation_le_def)
qed

end
