(* ===== verification/HoldSeats.thy ===== *)
theory HoldSeats
  imports SeatAllocation
begin

text \<open>
  What a hold, a confirmation and a release do, outcome by outcome, and a small railway on which
  the properties of the inventory service are exercised.
\<close>

section \<open>The outcomes of a hold\<close>

definition hold_key :: "HoldSeatsRequestedV1 \<Rightarrow> string" where
  "hold_key event = ''booking:hold:'' @ hr_eventId event"

definition hold_query :: "HoldSeatsRequestedV1 \<Rightarrow> RouteStop \<Rightarrow> RouteStop \<Rightarrow> inventory_query" where
  "hold_query event fromStop toStop = \<lparr>iq_scheduleId = hr_scheduleId event,
     iq_segments = map (\<lambda>i. \<lparr>ss_seatInventoryId = i, ss_fromSequence = rs_sequenceNumber fromStop,
       ss_toSequence = rs_sequenceNumber toStop\<rparr>) (hr_seatInventoryIds event)\<rparr>"

text \<open>The branches of a call, one rule each.\<close>

lemma holdSeats_cases:
  assumes "holdSeats env now reads lockLink unlockLink txErr failErr ev (db, st) = (r, (db', st'))"
  obtains (read_error) e n where "reads n = Inl e" and "r = Inl e" and "db' = db"
    | (duplicate) db0 where "reads 0 = Inr db0" and "idempotency_exists (hold_key ev) db0" and "r = Inr Duplicate" and "db' = db" and "st' = st"
    | (refused) reason name msg db0 where "reads 0 = Inr db0" and "\<not> idempotency_exists (hold_key ev) db0"
        and "fail env now failErr ev reason name msg db = (r, db')"
    | (won) db0 db1 db2 db3 fs ts d st1 m where "reads 0 = Inr db0" and "\<not> idempotency_exists (hold_key ev) db0"
        and "reads 1 = Inr db1" and "isScheduleActive (hr_scheduleId ev) db1"
        and "reads 2 = Inr db2" and "resolveSegmentStops ev db2 = Some (fs, ts, d)"
        and "inventory_acquireSeatLocks lockLink now (hold_query ev fs ts) (hr_bookingId ev) 30 st = (True, st1)"
        and "reads 3 = Inr db3" and "fetchSeatMap (hr_scheduleId ev) (hr_seatInventoryIds ev) db3 = Some m"
        and "commitHoldTransaction env now txErr failErr ev (hold_key ev) fs ts d m db = (r, db')"
        and "st' = snd (inventory_releaseSeatLocks unlockLink now (hold_query ev fs ts) (hr_bookingId ev) st1)"
proof -
  have failing: thesis if "reads 0 = Inr db0" "\<not> idempotency_exists (hold_key ev) db0"
      "fail env now failErr ev reason name msg db = (r, db')" for db0 reason name msg
    using refused that by blast
  show thesis
    using assms [unfolded holdSeats_def prod.case Let_def, folded hold_key_def hold_query_def]
    by (auto split: sum.split_asm if_split_asm option.split_asm prod.split_asm bool.split_asm
        intro: read_error duplicate failing won)
qed

lemma findManyByIds_all:
  assumes "distinct (map sv_id (iv_seats db))" and "fetchSeatMap i ids db = Some m"
  shows "distinct ids" and "\<forall>x \<in> set ids. \<exists>s \<in> set (iv_seats db). m x = Some s \<and> sv_id s = x \<and> sv_scheduleId s = i"
proof -
  let ?seats = "findManyByIds i ids db"
  have len: "length ?seats = length ids" and m: "m = map_of (rev (map (\<lambda>s. (sv_id s, s)) ?seats))"
    using assms(2) by (auto simp: fetchSeatMap_def Let_def split: if_splits)
  have d: "distinct (map sv_id ?seats)" using assms(1) by (simp add: findManyByIds_def distinct_filter_map)
  have sub: "set (map sv_id ?seats) \<subseteq> set ids" by (auto simp: findManyByIds_def)
  have card: "card (set (map sv_id ?seats)) = length ids" using distinct_card [OF d] len by simp
  then have "length ids \<le> card (set ids)" using card_mono [OF finite_set sub] by simp
  then have "card (set ids) = length ids" using card_length [of ids] by simp
  then show "distinct ids" by (rule card_distinct)
  have eq: "set (map sv_id ?seats) = set ids"
    using card_subset_eq [OF finite_set sub] card \<open>card (set ids) = length ids\<close> by simp
  show "\<forall>x \<in> set ids. \<exists>s \<in> set (iv_seats db). m x = Some s \<and> sv_id s = x \<and> sv_scheduleId s = i"
  proof
    fix x assume "x \<in> set ids"
    then obtain s where s: "s \<in> set ?seats" "sv_id s = x" using eq by (metis (no_types, lifting) image_iff list.set_map)
    have "distinct (map fst (rev (map (\<lambda>s. (sv_id s, s)) ?seats)))" using d by (simp add: comp_def flip: rev_map)
    then have "m x = Some s" unfolding m using s by (intro map_of_is_SomeI) (auto simp: rev_map)
    then show "\<exists>s \<in> set (iv_seats db). m x = Some s \<and> sv_id s = x \<and> sv_scheduleId s = i"
      using s by (intro bexI [of _ s]) (auto simp: findManyByIds_def)
  qed
qed

lemma allocation_rows_total:
  "\<forall>x \<in> set ids. m x \<noteq> None \<Longrightarrow> \<exists>rows. allocation_rows ev fs ts d h m ids = Inr rows"
proof (induction ids)
  case (Cons i ids)
  then obtain seat rows where "m i = Some seat" "allocation_rows ev fs ts d h m ids = Inr rows" by auto
  then show ?case by simp
qed simp

text \<open>What a refused hold writes, and what a hold on a segment writes.\<close>

definition refused_effect :: "HoldSeatsRequestedV1 \<Rightarrow> inventory_db \<Rightarrow> SeatsHoldFailedV1 \<Rightarrow> inventory_db \<Rightarrow> bool" where
  "refused_effect ev db p db' \<longleftrightarrow> hf_bookingId p = hr_bookingId ev \<and> iv_allocations db' = iv_allocations db \<and>
     iv_idempotency db' = iv_idempotency db \<and> outbox_payloads (iv_outbox db') = outbox_payloads (iv_outbox db) @ [EvSeatsHoldFailed p]"

definition held_effect :: "HoldSeatsRequestedV1 \<Rightarrow> time \<Rightarrow> RouteStop \<Rightarrow> RouteStop \<Rightarrow> inventory_db \<Rightarrow> SeatsHeldV1 \<Rightarrow> inventory_db \<Rightarrow> bool" where
  "held_effect ev now fs ts db p db' \<longleftrightarrow> sh_bookingId p = hr_bookingId ev \<and> sh_holdExpiresAt p = now + hr_holdTtlMs ev \<and>
     map sa_seatInventoryId (sh_allocations p) = hr_seatInventoryIds ev \<and>
     iv_idempotency db' = iv_idempotency db @ [hold_key ev] \<and>
     outbox_payloads (iv_outbox db') = outbox_payloads (iv_outbox db) @ [EvSeatsHeld p] \<and>
     (\<exists>new. iv_allocations db' = iv_allocations db @ new \<and> map al_seatInventoryId new = hr_seatInventoryIds ev \<and>
        map al_price new = map sa_price (sh_allocations p) \<and>
        (\<forall>a \<in> set new. al_bookingId a = hr_bookingId ev \<and> al_scheduleId a = hr_scheduleId ev \<and> al_status a = HELD \<and>
           al_holdExpiresAt a = Some (sh_holdExpiresAt p) \<and>
           al_fromSequence a = rs_sequenceNumber fs \<and> al_toSequence a = rs_sequenceNumber ts))"

lemma fail_effect:
  "fail env now failErr ev reason name msg db = (r, db') \<Longrightarrow>
    (\<exists>e. failErr = Some e \<and> r = Inl e \<and> db' = db) \<or> (\<exists>p. r = Inr (HoldFailed p) \<and> refused_effect ev db p db')"
  by (auto simp: fail_def Let_def refused_effect_def split: option.splits)

lemma allocation_rows_replies:
  "allocation_rows ev fs ts d h m ids = Inr rows \<Longrightarrow>
    map sa_seatInventoryId (map snd rows) = ids \<and> map al_price (map fst rows) = map sa_price (map snd rows)"
proof (induction ids arbitrary: rows)
  case (Cons i ids)
  then obtain seat rest where r: "m i = Some seat" "allocation_rows ev fs ts d h m ids = Inr rest"
    by (auto simp: bindE_eq_Inr_iff split: option.splits)
  from Cons.IH [OF r(2)] Cons.prems r show ?case by (auto split: option.splits)
qed simp

lemma commitHold_effect:
  assumes "commitHoldTransaction env now txErr failErr ev (hold_key ev) fs ts d m db = (r, db')"
    and "\<forall>x \<in> set (hr_seatInventoryIds ev). m x \<noteq> None"
  shows "(\<exists>e. failErr = Some e \<and> r = Inl e \<and> db' = db) \<or> (\<exists>p. r = Inr (HoldFailed p) \<and> refused_effect ev db p db') \<or>
    (\<exists>p. r = Inr (Held p) \<and> (if idempotency_exists (hold_key ev) db then db' = db else held_effect ev now fs ts db p db'))"
  using assms(1)
proof (cases rule: commitHold_cases)
  case (type_error e)
  then show ?thesis using allocation_rows_total [OF assms(2)] by (metis sum.distinct(1))
next
  case (failed reason name msg)
  then show ?thesis using fail_effect by blast
next
  case (committed rows payload u)
  show ?thesis
  proof (cases "idempotency_exists (hold_key ev) db")
    case True
    with committed(4,5) show ?thesis by (simp add: hold_tx_def)
  next
    case False
    let ?new = "number_allocations (length (iv_allocations db)) (map fst rows)"
    have nk: "hold_key ev \<notin> set (iv_idempotency db)" using False by (simp add: idempotency_exists_def)
    note h = hold_tx_Inr [OF committed(5) nk]
    have "map al_seatInventoryId ?new = hr_seatInventoryIds ev"
      using allocation_rows_shape [OF committed(1)] by (simp add: number_allocations_map comp_def)
    moreover have "map al_price ?new = map sa_price (sh_allocations payload)"
      using allocation_rows_replies [OF committed(1)] by (simp add: number_allocations_map committed(2))
    moreover have "\<forall>a \<in> set ?new. al_bookingId a = hr_bookingId ev \<and> al_scheduleId a = hr_scheduleId ev \<and> al_status a = HELD \<and>
        al_holdExpiresAt a = Some (sh_holdExpiresAt payload) \<and>
        al_fromSequence a = rs_sequenceNumber fs \<and> al_toSequence a = rs_sequenceNumber ts"
      using allocation_rows_shape [OF committed(1)] by (fastforce simp: committed(2) dest: number_allocations_mem)
    moreover have "map sa_seatInventoryId (sh_allocations payload) = hr_seatInventoryIds ev"
      using allocation_rows_replies [OF committed(1)] by (simp add: committed(2))
    ultimately have "held_effect ev now fs ts db payload db'"
      using h(2-4) by (simp add: held_effect_def committed(2))
    with committed(4) False show ?thesis by simp
  qed
qed

text \<open>The locks of a hold whose release gets through are free.\<close>

lemma locks_released:
  assumes "inventory_acquireSeatLocks lockLink now q tok 30 st = (True, st1)" and "k \<in> set (inventory_getLockKeys q)"
  shows "redis_get now k (snd (inventory_releaseSeatLocks Reply now q tok st1)) = None"
proof -
  have "iq_segments q \<noteq> []" using assms(2) by (auto simp: inventory_getLockKeys_def)
  then have "snd (inventory_releaseSeatLocks Reply now q tok st1) = snd (seatUnlockLua now (inventory_getLockKeys q) tok st1)"
    by (simp add: inventory_releaseSeatLocks_def over_link_def case_prod_unfold)
  moreover have "redis_get now k st1 = Some tok" using inventory_acquire_won [OF assms] by simp
  ultimately show ?thesis using seatUnlockLua_get [of now now k] assms(2) by simp
qed

lemma hold_outcomes:
  assumes "\<forall>n d. reads n = Inr d \<longrightarrow> projection_ok d"
    and "holdSeats env now reads lockLink unlockLink txErr failErr ev (db, st) = (r, (db', st'))"
  shows "case r of
      Inl e \<Rightarrow> db' = db \<and> (failErr = Some e \<or> (\<exists>n. reads n = Inl e))
    | Inr Duplicate \<Rightarrow> db' = db \<and> (\<exists>d. reads 0 = Inr d \<and> idempotency_exists (hold_key ev) d)
    | Inr (HoldFailed p) \<Rightarrow> refused_effect ev db p db'
    | Inr (Held p) \<Rightarrow> (\<exists>d1 d2 fs ts dist. reads 1 = Inr d1 \<and> isScheduleActive (hr_scheduleId ev) d1 \<and>
        reads 2 = Inr d2 \<and> resolveSegmentStops ev d2 = Some (fs, ts, dist) \<and> distinct (hr_seatInventoryIds ev) \<and>
        (if idempotency_exists (hold_key ev) db then db' = db else held_effect ev now fs ts db p db') \<and>
        (unlockLink = Reply \<longrightarrow> (\<forall>k \<in> set (inventory_getLockKeys (hold_query ev fs ts)). redis_get now k st' = None)))"
  using assms(2)
proof (cases rule: holdSeats_cases)
  case (read_error e n)
  then show ?thesis by auto
next
  case (duplicate db0)
  then show ?thesis by simp
next
  case (refused reason name msg db0)
  from fail_effect [OF refused(3)] show ?thesis by (auto split: HoldSeatsOutcome.splits)
next
  case (won db0 db1 db2 db3 fs ts d st1 m)
  have ids: "distinct (hr_seatInventoryIds ev)" "\<forall>x \<in> set (hr_seatInventoryIds ev). m x \<noteq> None"
    using findManyByIds_all [OF _ won(9)] assms(1) won(8) by (auto simp: projection_ok_def)
  have locks: "unlockLink = Reply \<longrightarrow> (\<forall>k \<in> set (inventory_getLockKeys (hold_query ev fs ts)). redis_get now k st' = None)"
    using locks_released [OF won(7)] by (simp add: won(11))
  from commitHold_effect [OF won(10) ids(2)] consider (error) e where "failErr = Some e" "r = Inl e" "db' = db"
    | (failed) p where "r = Inr (HoldFailed p)" "refused_effect ev db p db'"
    | (held) p where "r = Inr (Held p)" "if idempotency_exists (hold_key ev) db then db' = db else held_effect ev now fs ts db p db'"
    by blast
  then show ?thesis
  proof cases
    case held
    show ?thesis unfolding held(1) sum.case HoldSeatsOutcome.case
      by (intro exI [of _ db1] exI [of _ db2] exI [of _ fs] exI [of _ ts] exI [of _ d] conjI won(3-6) ids(1) held(2) locks)
  qed simp_all
qed

text \<open>C15: What a hold request does, whatever its reads before the transaction see and whichever of its
  reads, commands and transactions fail. It throws, to be delivered again, when a read or the
  writing of the failure reply failed, and has then written nothing. A duplicate was processed
  before and changes nothing. A refusal leaves every allocation alone and writes exactly one failure
  reply. A success found an active schedule, forward stops and distinct seats; it holds exactly
  these seats on the segment, until the announced time and at the announced prices, and writes one
  reply together with its idempotency record; but when another delivery of the request came between
  the first read and the transaction, it reports success and has written nothing. Its seat locks are
  free afterwards when their release gets through.\<close>

theorem hold_seats_outcome:
  assumes "\<forall>n d. reads n = Inr d \<longrightarrow> projection_ok d"
    and "holdSeats env now reads lockLink unlockLink txErr failErr ev (db, st) = (r, (db', st'))"
  shows "case r of
      Inl e \<Rightarrow> db' = db \<and> (failErr = Some e \<or> (\<exists>n. reads n = Inl e))
    | Inr Duplicate \<Rightarrow> db' = db \<and> (\<exists>d. reads 0 = Inr d \<and> idempotency_exists (hold_key ev) d)
    | Inr (HoldFailed p) \<Rightarrow> refused_effect ev db p db'
    | Inr (Held p) \<Rightarrow> (\<exists>d1 d2 fs ts dist. reads 1 = Inr d1 \<and> isScheduleActive (hr_scheduleId ev) d1 \<and>
        reads 2 = Inr d2 \<and> resolveSegmentStops ev d2 = Some (fs, ts, dist) \<and> distinct (hr_seatInventoryIds ev) \<and>
        (if idempotency_exists (hold_key ev) db then db' = db else held_effect ev now fs ts db p db') \<and>
        (unlockLink = Reply \<longrightarrow> (\<forall>k \<in> set (inventory_getLockKeys (hold_query ev fs ts)). redis_get now k st' = None)))"
  by (rule hold_outcomes [OF assms])

section \<open>A small railway\<close>

definition sample_db :: inventory_db where
  "sample_db = snd (processCreated sample_env 0 (sample_schedule 1) empty_inventory)"

definition sample_hold :: "ident \<Rightarrow> int \<Rightarrow> int \<Rightarrow> HoldSeatsRequestedV1" where
  "sample_hold b f t = \<lparr>hr_eventId = b, hr_bookingId = b, hr_scheduleId = ''s'', hr_userId = ''u'',
     hr_seatInventoryIds = [''0''], hr_fromStaionId = [], hr_toStationId = [],
     hr_fromSequence = f, hr_toSequence = t, hr_holdTtlMs = 600000\<rparr>"

lemma sample_db_rows:
  "iv_schedules sample_db = [\<lparr>si_scheduleId = ''s'', si_trainId = ''t'', si_trainNumber = ''12951'', si_trainName = ''Rajdhani'',
     si_departureDate = 100000, si_status = ACTIVE, si_version = 1\<rparr>]"
  "iv_seats sample_db = [\<lparr>sv_id = ''0'', sv_scheduleId = ''s'', sv_trainId = ''t'', sv_coachId = ''c'', sv_coachNumber = ''S1'',
     sv_seatId = ''seat'', sv_seatNumber = 1, sv_seatType = ''LOWER'', sv_pricePerKm = 264 / 100\<rparr>]"
  "iv_allocations sample_db = []" "iv_idempotency sample_db = []"
  by code_simp+

definition after_hold :: "ident \<Rightarrow> int \<Rightarrow> int \<Rightarrow> inventory_db \<Rightarrow> inventory_db" where
  "after_hold b f t db = fst (snd (holdSeats sample_env 10 (\<lambda>_. Inr db) Reply Reply None None (sample_hold b f t) (db, Map.empty)))"

definition hold_result :: "ident \<Rightarrow> int \<Rightarrow> int \<Rightarrow> inventory_db \<Rightarrow> HoldSeatsOutcome result" where
  "hold_result b f t db = fst (holdSeats sample_env 10 (\<lambda>_. Inr db) Reply Reply None None (sample_hold b f t) (db, Map.empty))"

definition held_db :: inventory_db where
  "held_db = after_hold ''b2'' 2 3 (after_hold ''b1'' 1 2 sample_db)"

lemma held_rows:
  "map (\<lambda>a. (al_bookingId a, al_fromSequence a, al_toSequence a, al_status a, al_price a)) (iv_allocations held_db) =
     [(''b1'', 1, 2, HELD, 264), (''b2'', 2, 3, HELD, 396)]"
  by code_simp

text \<open>The handler is a run of the steps the invariants are proved for.\<close>

lemma holdSeats_steps:
  assumes "holdSeats env now reads lockLink unlockLink txErr failErr ev (db, st) = (r, (db', st'))"
  shows "inventory_step\<^sup>*\<^sup>* db db'"
  using assms
proof (cases rule: holdSeats_cases)
  case (refused reason name msg db0)
  then show ?thesis using inventory_step.hold_fails by blast
next
  case (won db0 db1 db2 db3 fs ts d st1 m)
  then show ?thesis using inventory_step.hold by blast
qed simp_all

lemma after_hold_steps: "inventory_step\<^sup>*\<^sup>* db (after_hold b f t db)"
proof -
  obtain r db' st' where h: "holdSeats sample_env 10 (\<lambda>_. Inr db) Reply Reply None None (sample_hold b f t) (db, Map.empty) = (r, (db', st'))"
    by (cases "holdSeats sample_env 10 (\<lambda>_. Inr db) Reply Reply None None (sample_hold b f t) (db, Map.empty)") auto
  then have "after_hold b f t db = db'" by (simp add: after_hold_def)
  with holdSeats_steps [OF h] show ?thesis by simp
qed

lemma sample_db_step: "inventory_step\<^sup>*\<^sup>* empty_inventory sample_db"
  unfolding sample_db_def
  by (rule r_into_rtranclp) (rule inventory_step.schedule_created, rule prod.collapse [symmetric])

lemma sample_db_ok: "projection_ok sample_db"
  unfolding sample_db_def by (rule processCreated_ok [OF empty_inventory_ok])

lemma held_db_steps: "inventory_step\<^sup>*\<^sup>* empty_inventory held_db"
  unfolding held_db_def by (rule rtranclp_trans [OF rtranclp_trans [OF sample_db_step after_hold_steps] after_hold_steps])

theorem no_double_booking_witness:
  "let a = iv_allocations held_db ! 0; b = iv_allocations held_db ! 1
   in al_seatInventoryId a = ''0'' \<and> al_seatInventoryId b = ''0'' \<and>
      (al_toSequence a \<le> al_fromSequence b \<or> al_toSequence b \<le> al_fromSequence a)"
proof -
  have n: "length (iv_allocations held_db) = 2" using arg_cong [OF held_rows, of length] by simp
  have st: "al_status (iv_allocations held_db ! 0) \<in> {HELD, CONFIRMED}" "al_status (iv_allocations held_db ! 1) \<in> {HELD, CONFIRMED}"
    "al_scheduleId (iv_allocations held_db ! 0) = al_scheduleId (iv_allocations held_db ! 1)"
    "al_seatInventoryId (iv_allocations held_db ! 0) = ''0''" "al_seatInventoryId (iv_allocations held_db ! 1) = ''0''"
    by code_simp+
  have "(0 :: nat) < 1" "1 < length (iv_allocations held_db)" using n by simp_all
  from no_double_booking [OF held_db_steps this refl refl st(1,2,3)] st(4,5) show ?thesis by (simp add: Let_def)
qed

theorem allocation_status_forward_witness:
  "let db' = snd (onBookingStatusChanged \<lparr>bs_eventId = ''e'', bs_bookingId = ''b1'', bs_pnr = ''P'', bs_userId = ''u'',
       bs_previousStatus = None, bs_currentStatus = Confirmed, bs_version = 3\<rparr> held_db)
   in \<exists>st. iv_allocations db' ! 0 = (iv_allocations held_db ! 0)\<lparr>al_status := st\<rparr> \<and> st \<noteq> EXPIRED"
proof -
  let ?e = "\<lparr>bs_eventId = ''e'', bs_bookingId = ''b1'', bs_pnr = ''P'', bs_userId = ''u'',
       bs_previousStatus = None, bs_currentStatus = Confirmed, bs_version = 3\<rparr>"
  have "inventory_step\<^sup>*\<^sup>* held_db (snd (onBookingStatusChanged ?e held_db))"
    by (rule r_into_rtranclp) (rule inventory_step.booking_event, rule prod.collapse [symmetric])
  moreover have "0 < length (iv_allocations held_db)" using arg_cong [OF held_rows, of length] by simp
  ultimately show ?thesis using allocation_status_forward [OF held_db_steps] unfolding Let_def by blast
qed

text \<open>A first delivery, and a second one that read the database before the first wrote to it.\<close>

definition late_hold :: "(inventory_db \<times> redis, HoldSeatsOutcome) proc" where
  "late_hold = holdSeats sample_env 10 (\<lambda>_. Inr sample_db) Reply Reply None None (sample_hold ''b1'' 1 2)"

theorem hold_seats_outcome_witness:
  "\<exists>p fs ts. hold_result ''b1'' 1 2 sample_db = Inr (Held p) \<and>
     held_effect (sample_hold ''b1'' 1 2) 10 fs ts sample_db p (after_hold ''b1'' 1 2 sample_db) \<and>
     (\<exists>p'. fst (late_hold (after_hold ''b1'' 1 2 sample_db, Map.empty)) = Inr (Held p')) \<and>
     fst (snd (late_hold (after_hold ''b1'' 1 2 sample_db, Map.empty))) = after_hold ''b1'' 1 2 sample_db"
proof -
  let ?e = "sample_hold ''b1'' 1 2" and ?db = "after_hold ''b1'' 1 2 sample_db"
  have kinds: "case hold_result ''b1'' 1 2 sample_db of Inr (Held p) \<Rightarrow> True | _ \<Rightarrow> False"
    "case fst (late_hold (?db, Map.empty)) of Inr (Held p) \<Rightarrow> True | _ \<Rightarrow> False"
    "\<not> idempotency_exists (hold_key ?e) sample_db" "idempotency_exists (hold_key ?e) ?db" by code_simp+
  have seen: "\<forall>(n :: nat) d. (Inr sample_db :: inventory_db result) = Inr d \<longrightarrow> projection_ok d" using sample_db_ok by simp
  obtain r db' st' where h: "late_hold (sample_db, Map.empty) = (r, (db', st'))" by (cases "late_hold (sample_db, Map.empty)") auto
  from kinds(1) obtain p where p: "r = Inr (Held p)"
    using h by (auto simp: hold_result_def late_hold_def split: sum.splits HoldSeatsOutcome.splits)
  have 1: "hold_result ''b1'' 1 2 sample_db = Inr (Held p)" "db' = ?db"
    using h p by (simp_all add: hold_result_def after_hold_def late_hold_def)
  from hold_seats_outcome [OF seen h [unfolded late_hold_def]] kinds(3) obtain fs ts
    where 2: "held_effect ?e 10 fs ts sample_db p ?db" by (auto simp: p 1(2))
  obtain r2 db2 st2 where g: "late_hold (?db, Map.empty) = (r2, (db2, st2))" by (cases "late_hold (?db, Map.empty)") auto
  with kinds(2) obtain p' where p': "r2 = Inr (Held p')" by (auto split: sum.splits HoldSeatsOutcome.splits)
  from hold_seats_outcome [OF seen g [unfolded late_hold_def]] kinds(4) have "db2 = ?db" by (auto simp: p')
  with 1(1) 2 g p' show ?thesis by auto
qed

section \<open>Events delivered again\<close>

lemma idempotency_grows: "inventory_step db db' \<Longrightarrow> set (iv_idempotency db) \<subseteq> set (iv_idempotency db')"
proof (induction rule: inventory_step.induct)
  case (hold env now txErr failErr event eventKey fromStop toStop distance seatById db r db')
  from hold show ?case
  proof (cases rule: commitHold_cases)
    case (committed rows payload u)
    then show ?thesis
      by (cases "eventKey \<in> set (iv_idempotency db)")
        (auto simp: hold_tx_def idempotency_exists_def hold_tx_Inr(3) [OF committed(5)])
  next
    case (failed reason name msg)
    then show ?thesis using fail_frame(2) by (metis order.refl snd_conv)
  qed simp
next
  case (hold_fails env now failErr event reason name msg db r db')
  then show ?case using fail_frame(2) by (metis order.refl snd_conv)
next
  case (booking_event bev db r db')
  then show ?case
  proof (cases rule: booking_event_cases)
    case (confirmed key)
    then show ?thesis using confirm_tx_cases by fastforce
  next
    case (cancelled key)
    then show ?thesis using cancel_tx_cases by fastforce
  qed simp
next
  case (schedule_created env now ce db r db')
  then show ?case using schedule_events_frame(2) by (metis order.refl snd_conv)
next
  case (schedule_changed env now xe db r db')
  then show ?case using schedule_events_frame(4) by (metis order.refl snd_conv)
qed

interpretation processed_events: monotone_stepper inventory_step
    "\<lambda>db db'. set (iv_idempotency db) \<subseteq> set (iv_idempotency db')"
  by unfold_locales (auto dest: idempotency_grows)

text \<open>A hold that succeeded is never applied again: whatever the service does in between,
  delivering the same event once more is a duplicate, touches no table and takes no lock.\<close>

theorem hold_redelivery_is_duplicate:
  assumes "\<forall>n d. reads n = Inr d \<longrightarrow> projection_ok d"
    and "holdSeats env now reads lk ul txErr failErr ev (db, st) = (Inr (Held p), (db1, st1))"
    and "inventory_step\<^sup>*\<^sup>* db1 db2" and "reads' 0 = Inr db2"
  shows "holdSeats env' now' reads' lk' ul' txErr' failErr' ev (db3, st3) = (Inr Duplicate, (db3, st3))"
proof -
  have "hold_key ev \<in> set (iv_idempotency db1)"
    using hold_outcomes [OF assms(1,2)] by (auto simp: held_effect_def idempotency_exists_def split: if_splits)
  then have "idempotency_exists (hold_key ev) db2"
    using processed_events.run_le [OF assms(3)] by (auto simp: idempotency_exists_def)
  then show ?thesis using assms(4) by (simp add: holdSeats_def Let_def hold_key_def)
qed

theorem hold_redelivery_is_duplicate_witness:
  "fst (holdSeats sample_env 99 (\<lambda>_. Inr held_db) Unreachable Reply None None (sample_hold ''b1'' 1 2) (held_db, Map.empty)) = Inr Duplicate"
proof -
  obtain r db' st' where h: "holdSeats sample_env 10 (\<lambda>_. Inr sample_db) Reply Reply None None (sample_hold ''b1'' 1 2) (sample_db, Map.empty) = (r, (db', st'))"
    by (cases "holdSeats sample_env 10 (\<lambda>_. Inr sample_db) Reply Reply None None (sample_hold ''b1'' 1 2) (sample_db, Map.empty)") auto
  have "case hold_result ''b1'' 1 2 sample_db of Inr (Held p) \<Rightarrow> True | _ \<Rightarrow> False" by code_simp
  then obtain p where p: "r = Inr (Held p)" using h
    by (auto simp: hold_result_def split: sum.splits HoldSeatsOutcome.splits)
  have "after_hold ''b1'' 1 2 sample_db = db'" by (simp add: after_hold_def h)
  then have "inventory_step\<^sup>*\<^sup>* db' held_db" unfolding held_db_def using after_hold_steps by simp
  from hold_redelivery_is_duplicate [OF _ h [unfolded p] this] sample_db_ok show ?thesis by simp
qed

text \<open>A booking event moves exactly that booking's allocations, once, and is never an error:
  \<open>CONFIRMED\<close> confirms its held allocations, \<open>CANCELLED\<close>, \<open>FAILED\<close> and \<open>EXPIRED\<close> release the
  held and the confirmed ones, each change is recorded once in the history with the status it
  had, every other event changes nothing, and delivering the event a second time changes
  nothing.\<close>

theorem booking_event_effect:
  assumes "''booking:confirm:'' @ bs_eventId bev \<notin> set (iv_idempotency db)"
    and "''booking:cancel:'' @ bs_eventId bev \<notin> set (iv_idempotency db)"
  shows "let (r, db') = onBookingStatusChanged bev db;
             mine = (\<lambda>a. al_bookingId a = bs_bookingId bev \<and>
               (if bs_currentStatus bev = Confirmed then al_status a = HELD
                else bs_currentStatus bev \<in> {Cancelled, Failed, Expired} \<and> al_status a \<in> {HELD, CONFIRMED}));
             target = (if bs_currentStatus bev = Confirmed then CONFIRMED else CANCELLED)
         in r = Inr () \<and>
            iv_allocations db' = map (\<lambda>a. if mine a then a\<lparr>al_status := target\<rparr> else a) (iv_allocations db) \<and>
            map (\<lambda>h. (ah_allocationId h, ah_oldStatus h, ah_newStatus h)) (iv_history db') =
              map (\<lambda>h. (ah_allocationId h, ah_oldStatus h, ah_newStatus h)) (iv_history db) @
              map (\<lambda>a. (al_id a, al_status a, target)) (filter mine (iv_allocations db)) \<and>
            onBookingStatusChanged bev db' = (Inr (), db')"
proof -
  have tx: "\<exists>db'. confirm_tx b key db = Inr ((), db') \<and> idempotency_exists key db'"
    "\<exists>db'. cancel_tx b key db = Inr ((), db') \<and> idempotency_exists key db'"
    if "key \<notin> set (iv_idempotency db)" for b key
    using that by (auto simp: confirm_tx_def cancel_tx_def idempotency_exists_def Let_def idempotency_create_def
        create_row_def list_ex_iff createHistoryMany_def updateManyStatusByBooking_def
        updateManyStatusByBookingAndStatuses_def)
  consider "bs_currentStatus bev = Confirmed" | "bs_currentStatus bev \<in> {Cancelled, Failed, Expired}"
    | "bs_currentStatus bev \<notin> {Confirmed, Cancelled, Failed, Expired}" by blast
  then show ?thesis
  proof cases
    case 1
    let ?key = "''booking:confirm:'' @ bs_eventId bev"
    obtain db' where c: "confirm_tx (bs_bookingId bev) ?key db = Inr ((), db')" "idempotency_exists ?key db'"
      using tx(1) [OF assms(1)] by blast
    have e: "onBookingStatusChanged bev db = (Inr (), db')" "onBookingStatusChanged bev db' = (Inr (), db')"
      using 1 c assms(1) unfolding onBookingStatusChanged_def confirmSeats_def Let_def
      by (simp_all add: transaction_def idempotency_exists_def)
    have h: "filter (\<lambda>a. al_bookingId a = bs_bookingId bev \<and> al_status a = HELD) xs =
        filter (\<lambda>a. al_bookingId a = bs_bookingId bev \<and> al_status a = HELD) xs" for xs ..
    show ?thesis using confirm_tx_cases [OF c(1)] assms(1) 1
      unfolding e Let_def prod.case by (auto simp: update_many_def comp_def)
  next
    case 2
    let ?key = "''booking:cancel:'' @ bs_eventId bev"
    obtain db' where c: "cancel_tx (bs_bookingId bev) ?key db = Inr ((), db')" "idempotency_exists ?key db'"
      using tx(2) [OF assms(2)] by blast
    have e: "onBookingStatusChanged bev db = (Inr (), db')" "onBookingStatusChanged bev db' = (Inr (), db')"
      using 2 c assms(2) unfolding onBookingStatusChanged_def cancelSeats_def Let_def
      by (auto simp add: transaction_def idempotency_exists_def)
    show ?thesis using cancel_tx_cases [OF c(1)] assms(2) 2
      unfolding e Let_def prod.case by (auto simp: update_many_def comp_def)
  next
    case 3
    then show ?thesis by (auto simp: onBookingStatusChanged_def Let_def)
  qed
qed

theorem booking_event_effect_witness:
  "let bev = \<lparr>bs_eventId = ''e'', bs_bookingId = ''b1'', bs_pnr = ''P'', bs_userId = ''u'',
       bs_previousStatus = None, bs_currentStatus = Failed, bs_version = 3\<rparr>
   in fst (onBookingStatusChanged bev held_db) = Inr () \<and>
      onBookingStatusChanged bev (snd (onBookingStatusChanged bev held_db)) = (Inr (), snd (onBookingStatusChanged bev held_db))"
proof -
  let ?e = "\<lparr>bs_eventId = ''e'', bs_bookingId = ''b1'', bs_pnr = ''P'', bs_userId = ''u'',
       bs_previousStatus = None, bs_currentStatus = Failed, bs_version = 3\<rparr>"
  have "''booking:confirm:'' @ bs_eventId ?e \<notin> set (iv_idempotency held_db)"
    "''booking:cancel:'' @ bs_eventId ?e \<notin> set (iv_idempotency held_db)" by code_simp+
  from booking_event_effect [OF this] show ?thesis unfolding Let_def by (simp add: case_prod_unfold)
qed

text \<open>A newer schedule event sells the seats of the schedule again. Projecting a schedule a
  second time deletes its seat rows and creates them with new ids, while the allocations that
  refer to the old rows stay active; the same physical seat of the same schedule is then held
  for an overlapping segment by a second booking.\<close>

theorem reprojection_resells_seats:
  "let db1 = after_hold ''b1'' 1 2 sample_db;
       db2 = snd (processCreated sample_env 20 (sample_schedule 2) db1);
       again = (sample_hold ''b2'' 1 3)\<lparr>hr_seatInventoryIds := [''1'']\<rparr>;
       (r, (db3, st)) = holdSeats sample_env 30 (\<lambda>_. Inr db2) Reply Reply None None again (db2, Map.empty)
   in map sv_seatId (iv_seats db1) = [''seat''] \<and> map sv_id (iv_seats db1) = [''0''] \<and>
      map sv_seatId (iv_seats db3) = [''seat''] \<and> map sv_id (iv_seats db3) = [''1''] \<and>
      map (\<lambda>a. (al_bookingId a, al_scheduleId a, al_seatInventoryId a, al_fromSequence a, al_toSequence a, al_status a))
        (iv_allocations db3) =
        [(''b1'', ''s'', ''0'', 1, 2, HELD), (''b2'', ''s'', ''1'', 1, 3, HELD)]"
  by code_simp

end
