(* ===== verification/SeatQueries.thy ===== *)
theory SeatQueries
  imports HoldSeats
begin

text \<open>
  The read side of the inventory service: seat details, the seat map and the pre-flight check of
  a booking, with the gRPC methods over them. A price in the map is a text in the code; here it
  is the number the text shows. The request schemas of the handler are not modelled.
\<close>

section \<open>Seat details\<close>

record seat_details =
  de_scheduleId :: ident
  de_seatId :: ident
  de_seatInventoryId :: ident
  de_trainId :: ident
  de_coachId :: ident
  de_coachNumber :: string
  de_seatNumber :: int
  de_seatType :: string
  de_pricePerKm :: rat

definition details_of :: "SeatInventory \<Rightarrow> seat_details" where
  "details_of seat = \<lparr>de_scheduleId = sv_scheduleId seat, de_seatId = sv_seatId seat, de_seatInventoryId = sv_id seat,
     de_trainId = sv_trainId seat, de_coachId = sv_coachId seat, de_coachNumber = sv_coachNumber seat,
     de_seatNumber = sv_seatNumber seat, de_seatType = sv_seatType seat, de_pricePerKm = sv_pricePerKm seat\<rparr>"

definition getSeatDetails :: "ident \<Rightarrow> ident \<Rightarrow> inventory_db \<Rightarrow> seat_details option" where
  "getSeatDetails scheduleId seatId db = map_option details_of (findByScheduleAndSeatId scheduleId seatId db)"

definition getSeatsDetailsBatch :: "ident \<Rightarrow> ident list \<Rightarrow> inventory_db \<Rightarrow> seat_details list" where
  "getSeatsDetailsBatch scheduleId seatIds db = map details_of (findByScheduleAndSeats scheduleId seatIds db)"

definition grpc_getSeatDetails :: "ident \<Rightarrow> ident \<Rightarrow> inventory_db \<Rightarrow> seat_details result" where
  "grpc_getSeatDetails scheduleId seatId db =
     (case getSeatDetails scheduleId seatId db of
        None \<Rightarrow> Inl (ApiError 404 ''NOT_FOUND'')
      | Some d \<Rightarrow> Inr d)"

section \<open>The seat map\<close>

datatype seat_status = AVAILABLE | SEAT_HELD | BOOKED

record map_seat =
  ms_seatId :: ident
  ms_seatNumber :: int
  ms_seatType :: string
  ms_price :: rat
  ms_isBooked :: bool
  ms_status :: seat_status

record CoachMapItem =
  cm_coachId :: ident
  cm_coachNumber :: string
  cm_totalSeats :: nat
  cm_seats :: "map_seat list"

datatype seat_map = SCHEDULE_MISSING | SCHEDULE_INACTIVE | OK "CoachMapItem list"

definition resolveSeatMapSegmentStops :: "ident \<Rightarrow> string \<Rightarrow> string \<Rightarrow> inventory_db \<Rightarrow> (int \<times> int \<times> int) option" where
  "resolveSeatMapSegmentStops scheduleId fromStationId toStationId db =
     (let stops = findStopsByScheduleAndStations scheduleId [fromStationId, toStationId] db;
          matches = (\<lambda>station s. rs_stationId s = station \<or> rs_stationCode s = toUpperCase station)
      in case (find_row (matches fromStationId) stops, find_row (matches toStationId) stops) of
           (Some fromStop, Some toStop) \<Rightarrow>
             if rs_sequenceNumber fromStop \<ge> rs_sequenceNumber toStop then None
             else Some (rs_sequenceNumber fromStop, rs_sequenceNumber toStop,
                        max 0 (rs_distanceFromStart toStop - rs_distanceFromStart fromStop))
         | _ \<Rightarrow> None)"

definition map_price :: "int \<Rightarrow> SeatInventory \<Rightarrow> rat" where
  "map_price segmentDistance seat =
     (if segmentDistance > 0 then toFixed2 (of_int segmentDistance * sv_pricePerKm seat) else sv_pricePerKm seat)"

definition map_entry :: "(ident \<rightharpoonup> AllocationStatus) \<Rightarrow> int \<Rightarrow> SeatInventory \<Rightarrow> map_seat" where
  "map_entry statusMap segmentDistance seat =
     (let st = (case statusMap (sv_id seat) of
                  Some CONFIRMED \<Rightarrow> BOOKED | Some HELD \<Rightarrow> SEAT_HELD | _ \<Rightarrow> AVAILABLE)
      in \<lparr>ms_seatId = sv_seatId seat, ms_seatNumber = sv_seatNumber seat, ms_seatType = sv_seatType seat,
          ms_price = map_price segmentDistance seat, ms_isBooked = (st \<noteq> AVAILABLE), ms_status = st\<rparr>)"

fun add_to_coach :: "SeatInventory \<Rightarrow> map_seat \<Rightarrow> CoachMapItem list \<Rightarrow> CoachMapItem list" where
  "add_to_coach seat entry [] =
     [\<lparr>cm_coachId = sv_coachId seat, cm_coachNumber = sv_coachNumber seat, cm_totalSeats = 1, cm_seats = [entry]\<rparr>]"
| "add_to_coach seat entry (c # cs) =
     (if cm_coachId c = sv_coachId seat
      then c\<lparr>cm_seats := cm_seats c @ [entry], cm_totalSeats := length (cm_seats c @ [entry])\<rparr> # cs
      else c # add_to_coach seat entry cs)"

definition buildCoachesMap :: "SeatInventory list \<Rightarrow> (ident \<rightharpoonup> AllocationStatus) \<Rightarrow> int \<Rightarrow> CoachMapItem list" where
  "buildCoachesMap seats statusMap segmentDistance =
     fold (\<lambda>seat. add_to_coach seat (map_entry statusMap segmentDistance seat)) seats []"

definition status_map :: "(ident \<times> AllocationStatus) list \<Rightarrow> ident \<rightharpoonup> AllocationStatus" where
  "status_map allocations = fold (\<lambda>(i, st) m. m(i \<mapsto> st)) allocations Map.empty"

definition getSeatMapData :: "time \<Rightarrow> ident \<Rightarrow> string \<Rightarrow> string \<Rightarrow> inventory_db \<Rightarrow> seat_map" where
  "getSeatMapData now scheduleId fromStationId toStationId db =
     (case findByScheduleId scheduleId db of
        None \<Rightarrow> SCHEDULE_MISSING
      | Some schedule \<Rightarrow>
          if si_status schedule \<noteq> ACTIVE then SCHEDULE_INACTIVE
          else case resolveSeatMapSegmentStops scheduleId fromStationId toStationId db of
            None \<Rightarrow> SCHEDULE_INACTIVE
          | Some (fromSequence, toSequence, segmentDistance) \<Rightarrow>
              OK (buildCoachesMap (getByScheduleOrdered scheduleId db)
                (status_map (findActiveAllocationsBySegment now scheduleId fromSequence toSequence db))
                segmentDistance))"

section \<open>The pre-flight check\<close>

datatype validation = V_SCHEDULE_NOT_FOUND | V_SCHEDULE_INACTIVE | V_TRAIN_ALREADY_DEPARTED | V_OK time

definition validateBooking :: "time \<Rightarrow> ident \<Rightarrow> string \<Rightarrow> string \<Rightarrow> time option \<Rightarrow> inventory_db \<Rightarrow> validation" where
  "validateBooking now scheduleId fromStationId toStationId clientRequestedAt db =
     (case findByScheduleId scheduleId db of
        None \<Rightarrow> V_SCHEDULE_NOT_FOUND
      | Some schedule \<Rightarrow>
          if si_status schedule \<noteq> ACTIVE then V_SCHEDULE_INACTIVE
          else if length (findStopsByScheduleAndStations scheduleId [fromStationId, toStationId] db) < 2
          then V_SCHEDULE_INACTIVE
          else
            let requestedAt = (case clientRequestedAt of Some t \<Rightarrow> t | None \<Rightarrow> now);
                toleranceMs = 60000
            in if requestedAt > si_departureDate schedule + toleranceMs then V_TRAIN_ALREADY_DEPARTED
               else V_OK (si_departureDate schedule))"

section \<open>What the map shows\<close>

definition map_seats :: "CoachMapItem list \<Rightarrow> map_seat list" where
  "map_seats coaches = concat (map cm_seats coaches)"

definition coaches_ok :: "CoachMapItem list \<Rightarrow> bool" where
  "coaches_ok cs \<longleftrightarrow> distinct (map cm_coachId cs) \<and> (\<forall>c \<in> set cs. cm_totalSeats c = length (cm_seats c) \<and> cm_seats c \<noteq> [])"

lemma add_to_coach_ids:
  "set (map cm_coachId (add_to_coach seat entry cs)) = insert (sv_coachId seat) (set (map cm_coachId cs))"
proof (induction cs)
  case (Cons c cs)
  then show ?case by (cases "cm_coachId c = sv_coachId seat") (simp_all add: insert_commute)
qed simp

lemma add_to_coach_ok: "coaches_ok cs \<Longrightarrow> coaches_ok (add_to_coach seat entry cs)"
proof (induction cs)
  case (Cons c cs)
  from Cons.prems have ok: "coaches_ok cs" and c: "cm_coachId c \<notin> cm_coachId ` set cs" "cm_totalSeats c = length (cm_seats c)" "cm_seats c \<noteq> []"
    by (simp_all add: coaches_ok_def)
  have ids: "cm_coachId ` set (add_to_coach seat entry cs) = insert (sv_coachId seat) (cm_coachId ` set cs)"
    using add_to_coach_ids [of seat entry cs] by simp
  show ?case
  proof (cases "cm_coachId c = sv_coachId seat")
    case True
    then show ?thesis using ok c by (simp add: coaches_ok_def)
  next
    case False
    then show ?thesis using Cons.IH [OF ok] c by (simp add: coaches_ok_def ids)
  qed
qed (simp add: coaches_ok_def)

lemma add_to_coach_seats: "mset (map_seats (add_to_coach seat entry cs)) = mset (map_seats cs) + {#entry#}"
  by (induction cs) (simp_all add: map_seats_def)

lemma buildCoachesMap_seats:
  "mset (map_seats (fold (\<lambda>seat. add_to_coach seat (f seat)) seats cs)) = mset (map_seats cs) + mset (map f seats)"
  by (induction seats arbitrary: cs) (simp_all add: add_to_coach_seats)

lemma buildCoachesMap_ok: "coaches_ok cs \<Longrightarrow> coaches_ok (fold (\<lambda>seat. add_to_coach seat (f seat)) seats cs)"
  by (induction seats arbitrary: cs) (auto intro: add_to_coach_ok)

lemma status_map_None: "fold (\<lambda>(i, st) m. m(i \<mapsto> st)) xs m i = None \<longleftrightarrow> m i = None \<and> i \<notin> fst ` set xs"
  by (induction xs arbitrary: m) (auto split: if_splits)

lemma status_map_Some: "fold (\<lambda>(i, st) m. m(i \<mapsto> st)) xs m i = Some st \<Longrightarrow> m i = Some st \<or> (i, st) \<in> set xs"
  by (induction xs arbitrary: m) (auto split: if_splits, (fastforce split: if_splits)+)

lemma segment_allocation_iff:
  "x \<in> fst ` set (findActiveAllocationsBySegment now i f t db) \<longleftrightarrow> (\<exists>a \<in> set (iv_allocations db).
     al_scheduleId a = i \<and> al_seatInventoryId a = x \<and> al_fromSequence a < t \<and> f < al_toSequence a \<and>
     (al_status a = CONFIRMED \<or> al_status a = HELD \<and> (\<exists>e. al_holdExpiresAt a = Some e \<and> now < e)))"
proof -
  have e: "(case al_holdExpiresAt a of None \<Rightarrow> False | Some t \<Rightarrow> now < t) \<longleftrightarrow> (\<exists>e. al_holdExpiresAt a = Some e \<and> now < e)"
    for a :: SeatAllocation by (cases "al_holdExpiresAt a") auto
  show ?thesis unfolding findActiveAllocationsBySegment_def e set_map set_filter image_image fst_conv by blast
qed

lemma map_entry_price: "0 < d \<Longrightarrow> ms_price (map_entry m d s) = hold_price d s"
  by (simp add: map_entry_def Let_def map_price_def hold_price_def)

lemma map_entry_booked: "ms_isBooked (map_entry m d s) \<longleftrightarrow> ms_status (map_entry m d s) \<noteq> AVAILABLE"
  by (simp add: map_entry_def Let_def)

text \<open>The seat map lists every seat of the schedule exactly once, grouped by coach with true
  counts, at the price a hold would charge for the segment, and shows a seat as available
  exactly when no confirmed and no unexpired held allocation of it overlaps the segment.\<close>

theorem seat_map_exact:
  assumes "getSeatMapData now i f t db = OK coaches"
    and "resolveSeatMapSegmentStops i f t db = Some (fromSeq, toSeq, d)" and "0 < d"
  shows "mset (map_seats coaches) = mset (map (map_entry
        (status_map (findActiveAllocationsBySegment now i fromSeq toSeq db)) d)
        (filter (\<lambda>s. sv_scheduleId s = i) (iv_seats db))) \<and>
    coaches_ok coaches \<and>
    (\<forall>s. let e = map_entry (status_map (findActiveAllocationsBySegment now i fromSeq toSeq db)) d s
       in ms_price e = hold_price d s \<and> (ms_isBooked e \<longleftrightarrow> ms_status e \<noteq> AVAILABLE) \<and>
          (ms_status e = AVAILABLE \<longleftrightarrow> \<not> (\<exists>a \<in> set (iv_allocations db).
             al_scheduleId a = i \<and> al_seatInventoryId a = sv_id s \<and>
             al_fromSequence a < toSeq \<and> fromSeq < al_toSequence a \<and>
             (al_status a = CONFIRMED \<or> al_status a = HELD \<and> (\<exists>x. al_holdExpiresAt a = Some x \<and> now < x)))))"
proof (intro conjI allI)
  let ?act = "findActiveAllocationsBySegment now i fromSeq toSeq db"
  have c: "coaches = buildCoachesMap (getByScheduleOrdered i db) (status_map ?act) d"
    using assms(1,2) by (auto simp: getSeatMapData_def split: option.splits if_splits)
  show "mset (map_seats coaches) = mset (map (map_entry (status_map ?act) d) (filter (\<lambda>s. sv_scheduleId s = i) (iv_seats db)))"
    unfolding c buildCoachesMap_def buildCoachesMap_seats getByScheduleOrdered_def by (simp add: map_seats_def)
  show "coaches_ok coaches" unfolding c buildCoachesMap_def by (intro buildCoachesMap_ok) (simp add: coaches_ok_def)
  fix s :: SeatInventory
  have act: "st \<in> {HELD, CONFIRMED}" if "(x, st) \<in> set ?act" for x st
    using that by (auto simp: findActiveAllocationsBySegment_def)
  have none: "status_map ?act (sv_id s) = None \<longleftrightarrow> sv_id s \<notin> fst ` set ?act"
    unfolding status_map_def status_map_None by simp
  have some: "st \<in> {HELD, CONFIRMED}" if "status_map ?act (sv_id s) = Some st" for st
    using status_map_Some [of ?act Map.empty "sv_id s" st] that act unfolding status_map_def by auto
  have av: "ms_status (map_entry (status_map ?act) d s) = AVAILABLE \<longleftrightarrow> sv_id s \<notin> fst ` set ?act"
  proof (cases "status_map ?act (sv_id s)")
    case None
    then show ?thesis using none by (simp add: map_entry_def Let_def)
  next
    case (Some st)
    then show ?thesis using none some [OF Some] by (auto simp: map_entry_def Let_def)
  qed
  show "let e = map_entry (status_map ?act) d s
       in ms_price e = hold_price d s \<and> (ms_isBooked e \<longleftrightarrow> ms_status e \<noteq> AVAILABLE) \<and>
          (ms_status e = AVAILABLE \<longleftrightarrow> \<not> (\<exists>a \<in> set (iv_allocations db).
             al_scheduleId a = i \<and> al_seatInventoryId a = sv_id s \<and>
             al_fromSequence a < toSeq \<and> fromSeq < al_toSequence a \<and>
             (al_status a = CONFIRMED \<or> al_status a = HELD \<and> (\<exists>x. al_holdExpiresAt a = Some x \<and> now < x))))"
    by (simp only: Let_def map_entry_price [OF assms(3)] map_entry_booked av segment_allocation_iff not_not simp_thms)
qed

theorem seat_map_exact_witness:
  "\<exists>coaches. getSeatMapData 20 ''s'' ''a'' ''c'' held_db = OK coaches \<and> coaches_ok coaches"
proof -
  have "case getSeatMapData 20 ''s'' ''a'' ''c'' held_db of OK _ \<Rightarrow> True | _ \<Rightarrow> False" by code_simp
  then obtain coaches where c: "getSeatMapData 20 ''s'' ''a'' ''c'' held_db = OK coaches"
    by (auto split: seat_map.splits)
  have r: "resolveSeatMapSegmentStops ''s'' ''a'' ''c'' held_db = Some (1, 3, 250)" by code_simp
  from seat_map_exact [OF c r] c show ?thesis by simp
qed

text \<open>A hold that ran out is never cleaned up. After its expiry the seat map shows the seat as
  available, but every attempt to hold it still fails with a segment conflict, because the
  overlap check counts held allocations whatever their expiry.\<close>

theorem expired_hold_blocks_seat:
  "let db = after_hold ''b1'' 1 2 sample_db; later = 10 + 600000 + 1
   in map (map ms_status \<circ> cm_seats) (case getSeatMapData later ''s'' ''a'' ''b'' db of OK cs \<Rightarrow> cs | _ \<Rightarrow> []) = [[AVAILABLE]] \<and>
      (case fst (holdSeats sample_env later (\<lambda>_. Inr db) Reply Reply None None (sample_hold ''b2'' 1 2) (db, Map.empty)) of
         Inr (HoldFailed p) \<Rightarrow> hf_reason p = SEGMENT_CONFLICT | _ \<Rightarrow> False)"
  by code_simp

text \<open>The pre-flight check does not look at the direction of travel: it accepts a journey from a
  later to an earlier stop, for which the hold then always fails.\<close>

theorem validate_booking_ignores_direction:
  "validateBooking 20 ''s'' ''c'' ''a'' None sample_db = V_OK 100000 \<and>
   (case fst (holdSeats sample_env 20 (\<lambda>_. Inr sample_db) Reply Reply None None
      ((sample_hold ''b1'' 0 0)\<lparr>hr_fromStaionId := ''c'', hr_toStationId := ''a''\<rparr>) (sample_db, Map.empty)) of
      Inr (HoldFailed p) \<Rightarrow> hf_reason p = SEGMENT_CONFLICT | _ \<Rightarrow> False)"
  by code_simp

end
