(* ===== verification/Grpc.thy ===== *)
theory Grpc
  imports Prelude
begin

text \<open>
  The error mapping of \<open>packages/grpc\<close>: \<open>mapToGrpcError\<close> turns what a handler threw into the
  status of the reply, \<open>mapGrpcClientErrorToApiError\<close> turns what a client call threw into the
  \<open>ApiError\<close> of the HTTP answer. \<open>Status\<close> is the enumeration of the gRPC protocol. A thrown value
  is one of the errors of the services, an error of \<open>nice-grpc\<close> on the client or the server side,
  or not an \<open>Error\<close> object at all.
\<close>

datatype Status =
    S_OK | S_CANCELLED | S_UNKNOWN | S_INVALID_ARGUMENT | S_DEADLINE_EXCEEDED | S_NOT_FOUND
  | S_ALREADY_EXISTS | S_PERMISSION_DENIED | S_RESOURCE_EXHAUSTED | S_FAILED_PRECONDITION
  | S_ABORTED | S_OUT_OF_RANGE | S_UNIMPLEMENTED | S_INTERNAL | S_UNAVAILABLE | S_DATA_LOSS
  | S_UNAUTHENTICATED

datatype thrown = Thrown exn | ClientError Status | ServerError Status | NotAnError

definition mapGrpcStatusToHttpStatus :: "Status \<Rightarrow> int" where
  "mapGrpcStatusToHttpStatus status = (case status of
       S_NOT_FOUND \<Rightarrow> 404
     | S_INVALID_ARGUMENT \<Rightarrow> 400
     | S_UNAUTHENTICATED \<Rightarrow> 401
     | S_PERMISSION_DENIED \<Rightarrow> 403
     | S_ALREADY_EXISTS \<Rightarrow> 409
     | S_RESOURCE_EXHAUSTED \<Rightarrow> 429
     | S_UNAVAILABLE \<Rightarrow> 503
     | S_DEADLINE_EXCEEDED \<Rightarrow> 504
     | _ \<Rightarrow> 500)"

definition status_of_http :: "int \<Rightarrow> Status" where
  "status_of_http statusCode =
     (if statusCode = 404 then S_NOT_FOUND
      else if statusCode = 400 \<or> statusCode = 422 then S_INVALID_ARGUMENT
      else if statusCode = 401 then S_UNAUTHENTICATED
      else if statusCode = 403 then S_PERMISSION_DENIED
      else if statusCode = 409 then S_ALREADY_EXISTS
      else if statusCode = 429 then S_RESOURCE_EXHAUSTED
      else if statusCode = 503 then S_UNAVAILABLE
      else S_INTERNAL)"

definition mapApiCodeToGrpcStatus :: "string \<Rightarrow> int \<Rightarrow> Status" where
  "mapApiCodeToGrpcStatus code statusCode =
     (if code = ''NOT_FOUND'' then S_NOT_FOUND
      else if code = ''INVALID_INPUT'' then S_INVALID_ARGUMENT
      else if code = ''UNAUTHORIZED'' then S_UNAUTHENTICATED
      else if code = ''FORBIDDEN'' then S_PERMISSION_DENIED
      else if code = ''CONFLICT'' then S_ALREADY_EXISTS
      else if code = ''RATE_LIMIT_EXCEEDED'' then S_RESOURCE_EXHAUSTED
      else if code = ''SERVICE_UNAVAILABLE'' \<or> code = ''KAFKA_PUBLISH_FAILED'' then S_UNAVAILABLE
      else status_of_http statusCode)"

definition mapToGrpcError :: "thrown \<Rightarrow> Status" where
  "mapToGrpcError error = (case error of
       ServerError status \<Rightarrow> status
     | Thrown ZodError \<Rightarrow> S_INVALID_ARGUMENT
     | Thrown (ApiError statusCode code) \<Rightarrow> mapApiCodeToGrpcStatus code statusCode
     | _ \<Rightarrow> S_INTERNAL)"

definition mapGrpcClientErrorToApiError :: "thrown \<Rightarrow> exn" where
  "mapGrpcClientErrorToApiError error = (case error of
       Thrown (ApiError statusCode code) \<Rightarrow> ApiError statusCode code
     | ClientError status \<Rightarrow> ApiError (mapGrpcStatusToHttpStatus status) ''INTERNAL_ERROR''
     | _ \<Rightarrow> ApiError 500 ''INTERNAL_ERROR'')"

text \<open>What the client of a call answers when the handler threw: the status of the reply travels
  unchanged and arrives as a \<open>ClientError\<close>.\<close>

definition relayed :: "exn \<Rightarrow> exn" where
  "relayed e = mapGrpcClientErrorToApiError (ClientError (mapToGrpcError (Thrown e)))"

definition common_http :: "(string \<times> int) list" where
  "common_http = [(''CONFLICT'', 409), (''NOT_FOUND'', 404), (''UNAUTHORIZED'', 401), (''FORBIDDEN'', 403),
     (''INVALID_INPUT'', 400), (''RATE_LIMIT_EXCEEDED'', 429), (''SERVICE_UNAVAILABLE'', 503),
     (''KAFKA_PUBLISH_FAILED'', 503)]"

lemma mapGrpc_is_ApiError: "\<exists>n code. mapGrpcClientErrorToApiError t = ApiError n code"
  by (auto simp: mapGrpcClientErrorToApiError_def split: thrown.splits exn.splits)

lemma status_http_roundtrip:
  "mapGrpcStatusToHttpStatus (status_of_http n) =
    (if n \<in> {400, 401, 403, 404, 409, 429, 503} then n else if n = 422 then 400 else 500)"
  by (simp add: mapGrpcStatusToHttpStatus_def status_of_http_def)

lemma relayed_status:
  "relayed (ApiError n code) = ApiError (mapGrpcStatusToHttpStatus (mapApiCodeToGrpcStatus code n)) ''INTERNAL_ERROR''"
  by (simp add: relayed_def mapGrpcClientErrorToApiError_def mapToGrpcError_def)

text \<open>An \<open>ApiError\<close> that crosses a gRPC call keeps its HTTP status and loses its code. A shared
  code arrives with its own status whatever the handler's was; a code of a service with one of
  the seven statuses the mapping knows arrives with that status, 422 arrives as 400, and
  everything else, also an error that is not an \<open>ApiError\<close>, arrives as 500. The code is always
  \<open>INTERNAL_ERROR\<close>.\<close>

theorem grpc_error_relay:
  "relayed e = ApiError
     (case e of
        ApiError n code \<Rightarrow>
          (case map_of common_http code of
             Some h \<Rightarrow> h
           | None \<Rightarrow> if n \<in> {400, 401, 403, 404, 409, 429, 503} then n else if n = 422 then 400 else 500)
      | ZodError \<Rightarrow> 400
      | _ \<Rightarrow> 500) ''INTERNAL_ERROR''"
proof (cases e)
  case (ApiError n code)
  show ?thesis
  proof (cases "map_of common_http code")
    case None
    then have "mapApiCodeToGrpcStatus code n = status_of_http n"
      by (simp add: mapApiCodeToGrpcStatus_def common_http_def split: if_splits)
    then show ?thesis by (simp add: ApiError None relayed_status status_http_roundtrip)
  next
    case (Some h)
    then have "mapGrpcStatusToHttpStatus (mapApiCodeToGrpcStatus code n) = h"
      by (auto simp: mapApiCodeToGrpcStatus_def mapGrpcStatusToHttpStatus_def common_http_def split: if_splits)
    then show ?thesis by (simp add: ApiError Some relayed_status)
  qed
qed (simp_all add: relayed_def mapGrpcClientErrorToApiError_def mapToGrpcError_def mapGrpcStatusToHttpStatus_def)

end
