(* ===== verification/Booking.thy ===== *)
theory Booking
  imports Contracts SeatLocks Grpc "HOL-Library.Word"
begin

text \<open>
  The booking service: its tables and repositories, \<open>BookingService\<close>, the gRPC adapters it calls
  and the controller in front of it.

  The gRPC clients, the trace context, the clock and what \<open>node:crypto\<close> returns are arguments:
  \<open>u n\<close> is the \<open>n\<close>-th UUID a call draws, \<open>bytes\<close> are the ten bytes of a PNR. \<open>be_errorText\<close> is the
  message of an error object. \<open>txErr\<close> is an error of the database connection while the creation
  runs. \<open>transition\<close> reads the booking and writes in one transaction; the part after the read is
  \<open>transition_commit\<close>, so that a write decided on a read that another transaction overtook can be
  spoken of.
\<close>

section \<open>The database\<close>

datatype PassengerGender = MALE | FEMALE | OTHER
datatype SagaStep = HOLD_SEATS | CREATE_PAYMENT | CONFIRM_SEATS
datatype SagaStatus = Step_PENDING | Step_COMPLETED | Step_FAILED | Step_COMPENSATED

record Booking =
  b_id :: ident
  b_pnr :: string
  b_userId :: ident
  b_scheduleId :: ident
  b_fromStationId :: ident
  b_toStationId :: ident
  b_status :: BookingStatus
  b_totalPrice :: rat
  b_paymentOrderId :: "string option"
  b_version :: int
  b_failureReason :: "string option"
  b_lockExpiresAt :: "time option"

record BookingSeat =
  bt_bookingId :: ident
  bt_seatInventoryId :: "ident option"
  bt_seatId :: ident
  bt_coachNumber :: "string option"
  bt_seatNumber :: "int option"
  bt_seatType :: "string option"
  bt_price :: "rat option"

record BookingPassenger =
  bp_bookingId :: ident
  bp_fullName :: string
  bp_age :: int
  bp_gender :: PassengerGender
  bp_berthPreference :: "string option"

record SagaLog =
  sg_bookingId :: ident
  sg_step :: SagaStep
  sg_status :: SagaStatus
  sg_error :: "string option"

record CreateBookingResponse =
  cr_id :: ident
  cr_pnr :: string
  cr_status :: BookingStatus

record BookingIdempotencyKey =
  ik_idempotencyKey :: ident
  ik_bookingId :: ident
  ik_responseBody :: CreateBookingResponse

record booking_db =
  bk_bookings :: "Booking list"
  bk_seats :: "BookingSeat list"
  bk_passengers :: "BookingPassenger list"
  bk_sagas :: "SagaLog list"
  bk_keys :: "BookingIdempotencyKey list"
  bk_outbox :: "event OutboxEvent list"

record booking_env =
  be_carrier :: headers
  be_SEAT_HOLD_TTL_MS :: int
  be_errorText :: "exn \<Rightarrow> string"

definition empty_booking_db :: booking_db where
  "empty_booking_db = \<lparr>bk_bookings = [], bk_seats = [], bk_passengers = [], bk_sagas = [], bk_keys = [], bk_outbox = []\<rparr>"

section \<open>Repositories\<close>

definition booking_findById :: "ident \<Rightarrow> booking_db \<Rightarrow> Booking option" where
  "booking_findById bookingId db = find_row (\<lambda>b. b_id b = bookingId) (bk_bookings db)"

definition booking_findByPnr :: "string \<Rightarrow> booking_db \<Rightarrow> Booking option" where
  "booking_findByPnr pnr db = find_row (\<lambda>b. b_pnr b = pnr) (bk_bookings db)"

text \<open>\<open>id\<close> and \<open>pnr\<close> are both unique.\<close>

definition booking_create :: "Booking \<Rightarrow> (booking_db, unit) tx" where
  "booking_create b db =
     bindE (create_row b_id b (bk_bookings db)) (\<lambda>_.
     bindE (create_row b_pnr b (bk_bookings db)) (\<lambda>bookings.
     Inr ((), db\<lparr>bk_bookings := bookings\<rparr>)))"

definition booking_updateStatus :: "ident \<Rightarrow> BookingStatus \<Rightarrow> int \<Rightarrow> booking_db \<Rightarrow> bool \<times> booking_db" where
  "booking_updateStatus bookingId newStatus expectedVersion db =
     (case update_many (\<lambda>b. b_id b = bookingId \<and> b_version b < expectedVersion)
             (\<lambda>b. b\<lparr>b_status := newStatus, b_version := expectedVersion\<rparr>) (bk_bookings db) of
        (bookings, n) \<Rightarrow> (n > 0, db\<lparr>bk_bookings := bookings\<rparr>))"

definition booking_update :: "ident \<Rightarrow> (Booking \<Rightarrow> Booking) \<Rightarrow> (booking_db, unit) tx" where
  "booking_update bookingId data db =
     bindE (update_row (\<lambda>b. b_id b = bookingId) data (bk_bookings db)) (\<lambda>bookings.
     Inr ((), db\<lparr>bk_bookings := bookings\<rparr>))"

text \<open>The rows of the other tables reference their booking (P2003 otherwise).\<close>

definition booking_exists :: "booking_db \<Rightarrow> ident \<Rightarrow> bool" where
  "booking_exists db i = list_ex (\<lambda>b. b_id b = i) (bk_bookings db)"

definition booking_createSeats :: "BookingSeat list \<Rightarrow> (booking_db, unit) tx" where
  "booking_createSeats seats db =
     (if list_all (\<lambda>s. booking_exists db (bt_bookingId s)) seats
      then Inr ((), db\<lparr>bk_seats := bk_seats db @ seats\<rparr>) else Inl (PrismaError ''P2003''))"

definition booking_createPassengers :: "BookingPassenger list \<Rightarrow> (booking_db, unit) tx" where
  "booking_createPassengers passengers db =
     (if list_all (\<lambda>p. booking_exists db (bp_bookingId p)) passengers
      then Inr ((), db\<lparr>bk_passengers := bk_passengers db @ passengers\<rparr>) else Inl (PrismaError ''P2003''))"

fun booking_updatePassengers :: "ident \<Rightarrow> SeatAllocationV1 list \<Rightarrow> booking_db \<Rightarrow> booking_db" where
  "booking_updatePassengers bookingId [] db = db"
| "booking_updatePassengers bookingId (u # us) db =
     booking_updatePassengers bookingId us
       (db\<lparr>bk_seats := fst (update_many (\<lambda>s. bt_bookingId s = bookingId \<and> bt_seatId s = sa_seatId u)
          (\<lambda>s. s\<lparr>bt_seatInventoryId := Some (sa_seatInventoryId u), bt_coachNumber := Some (sa_coachNumber u),
             bt_seatNumber := Some (sa_seatNumber u), bt_seatType := Some (sa_seatType u),
             bt_price := Some (sa_price u)\<rparr>) (bk_seats db))\<rparr>)"

definition findIdempotencyKey :: "ident \<Rightarrow> booking_db \<Rightarrow> BookingIdempotencyKey option" where
  "findIdempotencyKey key db = find_row (\<lambda>k. ik_idempotencyKey k = key) (bk_keys db)"

definition createIdempotencyKey :: "BookingIdempotencyKey \<Rightarrow> (booking_db, unit) tx" where
  "createIdempotencyKey k db =
     bindE (create_row ik_idempotencyKey k (bk_keys db)) (\<lambda>keys. Inr ((), db\<lparr>bk_keys := keys\<rparr>))"

definition saga_create :: "ident \<Rightarrow> SagaStep \<Rightarrow> SagaStatus \<Rightarrow> (booking_db, unit) tx" where
  "saga_create bookingId step status db =
     (if booking_exists db bookingId
      then bindE (create_row (\<lambda>g. (sg_bookingId g, sg_step g))
             \<lparr>sg_bookingId = bookingId, sg_step = step, sg_status = status, sg_error = None\<rparr> (bk_sagas db))
             (\<lambda>sagas. Inr ((), db\<lparr>bk_sagas := sagas\<rparr>))
      else Inl (PrismaError ''P2003''))"

definition saga_update :: "ident \<Rightarrow> SagaStep \<Rightarrow> SagaStatus \<Rightarrow> string option \<Rightarrow> (booking_db, unit) tx" where
  "saga_update bookingId step status error db =
     bindE (update_row (\<lambda>g. sg_bookingId g = bookingId \<and> sg_step g = step)
              (\<lambda>g. g\<lparr>sg_status := status, sg_error := error\<rparr>) (bk_sagas db))
       (\<lambda>sagas. Inr ((), db\<lparr>bk_sagas := sagas\<rparr>))"

definition saga_findByBookingAndStep :: "ident \<Rightarrow> SagaStep \<Rightarrow> booking_db \<Rightarrow> SagaLog option" where
  "saga_findByBookingAndStep bookingId step db =
     find_row (\<lambda>g. sg_bookingId g = bookingId \<and> sg_step g = step) (bk_sagas db)"

definition booking_emit :: "booking_env \<Rightarrow> time \<Rightarrow> ident \<Rightarrow> string \<Rightarrow> string \<Rightarrow> event \<Rightarrow> booking_db \<Rightarrow> booking_db" where
  "booking_emit env now bookingId eventType topic payload db =
     db\<lparr>bk_outbox := outbox_insert (be_carrier env) now None
         \<lparr>od_aggregateType = ''Booking'', od_aggregateId = bookingId, od_eventType = eventType,
          od_topic = topic, od_payload = payload\<rparr> (bk_outbox db)\<rparr>"

definition emit_status :: "booking_env \<Rightarrow> time \<Rightarrow> BookingStatusChangedV1 \<Rightarrow> booking_db \<Rightarrow> booking_db" where
  "emit_status env now e =
     booking_emit env now (bs_bookingId e) ''BookingStatusChangedV1'' ''booking.status-changed.v1'' (EvBookingStatusChanged e)"

section \<open>Requests\<close>

record PassengerDto =
  pd_fullName :: string
  pd_age :: int
  pd_gender :: PassengerGender
  pd_berthPreference :: "string option"

record CreateBookingDto =
  cd_idempotencyKey :: ident
  cd_scheduleId :: ident
  cd_fromStationId :: ident
  cd_toStationId :: ident
  cd_fromSequence :: "int option"
  cd_toSequence :: "int option"
  cd_legIndices :: "int list option"
  cd_seatIds :: "ident list"
  cd_passengers :: "PassengerDto list"

text \<open>The checks of \<open>passengerSchema\<close> and \<open>createBookingSchema\<close> on a parsed request. The names
  have been trimmed; \<open>isUuid\<close> is the UUID check of \<open>zod\<close>.\<close>

definition berth_preferences :: "string list" where
  "berth_preferences = [''LOWER'', ''MIDDLE'', ''UPPER'', ''SIDE_LOWER'', ''SIDE_UPPER'', ''NO_PREFERENCE'']"

definition passengerSchema :: "PassengerDto \<Rightarrow> bool" where
  "passengerSchema p \<longleftrightarrow>
     1 \<le> length (pd_fullName p) \<and> length (pd_fullName p) \<le> 100 \<and> 1 \<le> pd_age p \<and> pd_age p \<le> 120 \<and>
     (case pd_berthPreference p of None \<Rightarrow> True | Some x \<Rightarrow> x \<in> set berth_preferences)"

definition createBookingSchema :: "(string \<Rightarrow> bool) \<Rightarrow> CreateBookingDto \<Rightarrow> bool" where
  "createBookingSchema isUuid d \<longleftrightarrow>
     isUuid (cd_idempotencyKey d) \<and> isUuid (cd_scheduleId d) \<and> isUuid (cd_fromStationId d) \<and>
     isUuid (cd_toStationId d) \<and>
     (case cd_fromSequence d of None \<Rightarrow> True | Some n \<Rightarrow> 1 \<le> n) \<and>
     (case cd_toSequence d of None \<Rightarrow> True | Some n \<Rightarrow> 2 \<le> n) \<and>
     (case cd_legIndices d of None \<Rightarrow> True | Some legs \<Rightarrow> list_all (\<lambda>n. 1 \<le> n) legs) \<and>
     list_all isUuid (cd_seatIds d) \<and> 1 \<le> length (cd_seatIds d) \<and> length (cd_seatIds d) \<le> 6 \<and>
     list_all passengerSchema (cd_passengers d) \<and> 1 \<le> length (cd_passengers d) \<and> length (cd_passengers d) \<le> 6 \<and>
     length (cd_seatIds d) = length (cd_passengers d) \<and>
     length (remdups (cd_seatIds d)) = length (cd_seatIds d) \<and>
     cd_fromStationId d \<noteq> cd_toStationId d"

section \<open>The gRPC adapters\<close>

record CreateOrderRequest =
  oq_bookingId :: ident
  oq_userId :: ident
  oq_amount :: int
  oq_currency :: string

record CreateOrderResponse =
  or_paymentOrderId :: ident
  or_razorpayOrderId :: string
  or_keyId :: string
  or_status :: string

record grpc_clients =
  gc_validateBooking :: "ident \<Rightarrow> ident \<Rightarrow> ident \<Rightarrow> time \<Rightarrow> thrown + string"
  gc_getSeatsDetailsBatch :: "ident \<Rightarrow> ident list \<Rightarrow> thrown + (ident \<times> ident) list"
  gc_createOrder :: "CreateOrderRequest \<Rightarrow> thrown + CreateOrderResponse"

definition adapter_validateBooking :: "grpc_clients \<Rightarrow> time \<Rightarrow> CreateBookingDto \<Rightarrow> unit result" where
  "adapter_validateBooking cl now dto =
     (case gc_validateBooking cl (cd_scheduleId dto) (cd_fromStationId dto) (cd_toStationId dto) now of
        Inl err \<Rightarrow> Inl (mapGrpcClientErrorToApiError err)
      | Inr status \<Rightarrow>
          if status = ''OK'' then Inr ()
          else if status = ''SCHEDULE_NOT_FOUND'' then Inl (ApiError 404 ''SCHEDULE_NOT_FOUND'')
          else if status = ''SCHEDULE_INACTIVE'' then Inl (ApiError 409 ''SCHEDULE_INACTIVE'')
          else if status = ''TRAIN_ALREADY_DEPARTED'' then Inl (ApiError 409 ''TRAIN_ALREADY_DEPARTED'')
          else Inl (ApiError 500 ''INTERNAL_ERROR''))"

fun resolve_ids :: "(ident \<rightharpoonup> ident) \<Rightarrow> ident list \<Rightarrow> ident list result" where
  "resolve_ids seatMap [] = Inr []"
| "resolve_ids seatMap (i # is) =
     (case seatMap i of
        Some inventoryId \<Rightarrow>
          if inventoryId = [] then Inl (ApiError 404 ''NOT_FOUND'')
          else bindE (resolve_ids seatMap is) (\<lambda>rest. Inr (inventoryId # rest))
      | None \<Rightarrow> Inl (ApiError 404 ''NOT_FOUND''))"

definition resolveSeatInventoryIds :: "grpc_clients \<Rightarrow> ident \<Rightarrow> ident list \<Rightarrow> ident list result" where
  "resolveSeatInventoryIds cl scheduleId seatIds =
     (case gc_getSeatsDetailsBatch cl scheduleId seatIds of
        Inl err \<Rightarrow> Inl (mapGrpcClientErrorToApiError err)
      | Inr seats \<Rightarrow>
          if length seats \<noteq> length seatIds then Inl (ApiError 404 ''NOT_FOUND'')
          else resolve_ids (map_of (rev seats)) seatIds)"

definition adapter_createOrder :: "grpc_clients \<Rightarrow> CreateOrderRequest \<Rightarrow> CreateOrderResponse result" where
  "adapter_createOrder cl params =
     (case gc_createOrder cl params of
        Inl err \<Rightarrow> Inl (mapGrpcClientErrorToApiError err)
      | Inr r \<Rightarrow> Inr r)"

section \<open>Creating a booking\<close>

definition PNR_ALPHABET :: string where "PNR_ALPHABET = ''23456789ABCDEFGHJKMNPQRSTUVWXYZ''"

definition generatePnr :: "8 word list \<Rightarrow> string" where
  "generatePnr bytes = map (\<lambda>byte. PNR_ALPHABET ! (unat byte mod length PNR_ALPHABET)) bytes"

definition booking_legs :: "CreateBookingDto \<Rightarrow> int list option" where
  "booking_legs dto =
     (case cd_legIndices dto of
        Some legs \<Rightarrow> Some legs
      | None \<Rightarrow>
          (case (cd_fromSequence dto, cd_toSequence dto) of
             (Some f, Some t) \<Rightarrow>
               if t > f then Some (map (\<lambda>i. f + int i) [0..<nat (t - f)]) else None
           | _ \<Rightarrow> None))"

definition booking_query :: "CreateBookingDto \<Rightarrow> seat_query" where
  "booking_query dto = \<lparr>q_scheduleId = cd_scheduleId dto, q_seatIds = cd_seatIds dto, q_legIndices = booking_legs dto\<rparr>"

definition lockTtlSeconds :: "booking_env \<Rightarrow> int" where
  "lockTtlSeconds env = - ((- be_SEAT_HOLD_TTL_MS env) div 1000)"

definition create_tx :: "booking_env \<Rightarrow> time \<Rightarrow> (nat \<Rightarrow> ident) \<Rightarrow> 8 word list \<Rightarrow> ident \<Rightarrow> CreateBookingDto \<Rightarrow> ident list \<Rightarrow>
    (booking_db, CreateBookingResponse) tx" where
  "create_tx env now u bytes userId dto seatInventoryIds db =
     (case findIdempotencyKey (cd_idempotencyKey dto) db of
        Some existing \<Rightarrow> Inr (ik_responseBody existing, db)
      | None \<Rightarrow>
          let bookingId = u 0; pnr = generatePnr bytes
          in bindE (booking_create \<lparr>b_id = bookingId, b_pnr = pnr, b_userId = userId,
                      b_scheduleId = cd_scheduleId dto, b_fromStationId = cd_fromStationId dto,
                      b_toStationId = cd_toStationId dto, b_status = Pending, b_totalPrice = 0,
                      b_paymentOrderId = None, b_version = 1, b_failureReason = None, b_lockExpiresAt = None\<rparr> db) (\<lambda>(_, db1).
             bindE (booking_createSeats (map (\<lambda>seatId. \<lparr>bt_bookingId = bookingId, bt_seatInventoryId = None,
                      bt_seatId = seatId, bt_coachNumber = None, bt_seatNumber = None, bt_seatType = None,
                      bt_price = None\<rparr>) (cd_seatIds dto)) db1) (\<lambda>(_, db2).
             bindE (booking_createPassengers (map (\<lambda>p. \<lparr>bp_bookingId = bookingId, bp_fullName = pd_fullName p,
                      bp_age = pd_age p, bp_gender = pd_gender p, bp_berthPreference = pd_berthPreference p\<rparr>)
                      (cd_passengers dto)) db2) (\<lambda>(_, db3).
             let db4 = emit_status env now \<lparr>bs_eventId = u 1, bs_bookingId = bookingId, bs_pnr = pnr, bs_userId = userId,
                      bs_previousStatus = None, bs_currentStatus = Pending, bs_version = 1\<rparr> db3
             in
             bindE (saga_create bookingId HOLD_SEATS Step_PENDING db4) (\<lambda>(_, db5).
             bindE (saga_create bookingId CREATE_PAYMENT Step_PENDING db5) (\<lambda>(_, db6).
             bindE (saga_create bookingId CONFIRM_SEATS Step_PENDING db6) (\<lambda>(_, db7).
             let db8 = booking_emit env now bookingId ''HoldSeatsRequestedV1'' ''booking.hold-seats-requested.v1''
                      (HoldSeatsRequested \<lparr>hr_eventId = u 2, hr_bookingId = bookingId, hr_scheduleId = cd_scheduleId dto,
                        hr_userId = userId, hr_seatInventoryIds = seatInventoryIds,
                        hr_fromStaionId = cd_fromStationId dto, hr_toStationId = cd_toStationId dto,
                        hr_fromSequence = (case cd_fromSequence dto of Some n \<Rightarrow> n | None \<Rightarrow> 0),
                        hr_toSequence = (case cd_toSequence dto of Some n \<Rightarrow> n | None \<Rightarrow> 2147483647),
                        hr_holdTtlMs = be_SEAT_HOLD_TTL_MS env\<rparr>) db7;
                 responseBody = \<lparr>cr_id = bookingId, cr_pnr = pnr, cr_status = Pending\<rparr>
             in
             bindE (createIdempotencyKey \<lparr>ik_idempotencyKey = cd_idempotencyKey dto, ik_bookingId = bookingId,
                      ik_responseBody = responseBody\<rparr> db8) (\<lambda>(_, db9).
             Inr (responseBody, db9)))))))))"

definition createBooking :: "booking_env \<Rightarrow> grpc_clients \<Rightarrow> link \<Rightarrow> link \<Rightarrow> exn option \<Rightarrow> time \<Rightarrow> (nat \<Rightarrow> ident) \<Rightarrow> 8 word list \<Rightarrow>
    ident \<Rightarrow> CreateBookingDto \<Rightarrow> (booking_db \<times> redis, CreateBookingResponse) proc" where
  "createBooking env cl lockLink unlockLink txErr now u bytes userId dto s =
     (case s of (db, st) \<Rightarrow>
      case findIdempotencyKey (cd_idempotencyKey dto) db of
        Some existingCheck \<Rightarrow> (Inr (ik_responseBody existingCheck), (db, st))
      | None \<Rightarrow>
          case adapter_validateBooking cl now dto of
            Inl e \<Rightarrow> (Inl e, (db, st))
          | Inr _ \<Rightarrow>
              case resolveSeatInventoryIds cl (cd_scheduleId dto) (cd_seatIds dto) of
                Inl e \<Rightarrow> (Inl e, (db, st))
              | Inr seatInventoryIds \<Rightarrow>
                  (let q = booking_query dto; bookingId = u 0
                   in case acquireSeatLocks lockLink now q bookingId (lockTtlSeconds env) st of
                        (False, st1) \<Rightarrow> (Inl (ApiError 409 ''SEAT_HOLD_FAILED''), (db, st1))
                      | (True, st1) \<Rightarrow>
                          (case transaction (case txErr of Some e \<Rightarrow> (\<lambda>_. Inl e)
                                  | None \<Rightarrow> create_tx env now u bytes userId dto seatInventoryIds) db of
                             (Inr result, db') \<Rightarrow> (Inr result, (db', st1))
                           | (Inl err, db') \<Rightarrow> (Inl err, (db', snd (releaseSeatLocks unlockLink now q bookingId st1))))))"

section \<open>State transitions\<close>

record BookingTransitionUpdate =
  tu_lockExpiresAt :: "time option"
  tu_paymentOrderId :: "string option"
  tu_failureReason :: "string option"

record TransitionArgs =
  ta_bookingId :: ident
  ta_target :: BookingStatus
  ta_allowedFrom :: "BookingStatus option"
  ta_fromStates :: "BookingStatus list option"
  ta_updates :: "BookingTransitionUpdate option"

definition permittedStates :: "TransitionArgs \<Rightarrow> BookingStatus list" where
  "permittedStates args =
     (case ta_fromStates args of
        Some states \<Rightarrow> states
      | None \<Rightarrow> (case ta_allowedFrom args of Some st \<Rightarrow> [st] | None \<Rightarrow> []))"

definition apply_updates :: "BookingTransitionUpdate \<Rightarrow> Booking \<Rightarrow> Booking" where
  "apply_updates up b =
     b\<lparr>b_lockExpiresAt := (case tu_lockExpiresAt up of Some t \<Rightarrow> Some t | None \<Rightarrow> b_lockExpiresAt b),
       b_paymentOrderId := (case tu_paymentOrderId up of Some i \<Rightarrow> Some i | None \<Rightarrow> b_paymentOrderId b),
       b_failureReason := (case tu_failureReason up of Some r \<Rightarrow> Some r | None \<Rightarrow> b_failureReason b)\<rparr>"

text \<open>Steps 3 to 6 of \<open>transition\<close>, for the row \<open>booking\<close> that step 1 read.\<close>

definition transition_commit :: "booking_env \<Rightarrow> time \<Rightarrow> ident \<Rightarrow> TransitionArgs \<Rightarrow> Booking \<Rightarrow> (booking_db, unit) tx" where
  "transition_commit env now eventId args booking db =
     (let newVersion = b_version booking + 1
      in bindE (case ta_updates args of
                  Some up \<Rightarrow> booking_update (ta_bookingId args) (apply_updates up) db
                | None \<Rightarrow> Inr ((), db)) (\<lambda>(_, db1).
         case booking_updateStatus (ta_bookingId args) (ta_target args) newVersion db1 of
           (False, _) \<Rightarrow> Inl (ApiError 409 ''BOOKING_INVALID_TRANSITION'')
         | (True, db2) \<Rightarrow>
             Inr ((), emit_status env now \<lparr>bs_eventId = eventId, bs_bookingId = b_id booking, bs_pnr = b_pnr booking,
               bs_userId = b_userId booking, bs_previousStatus = Some (b_status booking),
               bs_currentStatus = ta_target args, bs_version = newVersion\<rparr> db2)))"

definition transition_tx :: "booking_env \<Rightarrow> time \<Rightarrow> ident \<Rightarrow> TransitionArgs \<Rightarrow> (booking_db, unit) tx" where
  "transition_tx env now eventId args db =
     (case booking_findById (ta_bookingId args) db of
        None \<Rightarrow> Inl (ApiError 404 ''BOOKING_NOT_FOUND'')
      | Some booking \<Rightarrow>
          if length (permittedStates args) > 0 \<and> b_status booking \<notin> set (permittedStates args)
          then Inl (ApiError 409 ''BOOKING_INVALID_TRANSITION'')
          else transition_commit env now eventId args booking db)"

definition transition :: "booking_env \<Rightarrow> time \<Rightarrow> ident \<Rightarrow> TransitionArgs \<Rightarrow> (booking_db, unit) proc" where
  "transition env now eventId args = transaction (transition_tx env now eventId args)"

definition seatsHeld_args :: "ident \<Rightarrow> time \<Rightarrow> TransitionArgs" where
  "seatsHeld_args bookingId lockExpiresAt =
     \<lparr>ta_bookingId = bookingId, ta_target = SeatsHeld, ta_allowedFrom = Some Pending, ta_fromStates = None,
      ta_updates = Some \<lparr>tu_lockExpiresAt = Some lockExpiresAt, tu_paymentOrderId = None, tu_failureReason = None\<rparr>\<rparr>"

definition paymentPending_args :: "ident \<Rightarrow> string \<Rightarrow> TransitionArgs" where
  "paymentPending_args bookingId paymentOrderId =
     \<lparr>ta_bookingId = bookingId, ta_target = PaymentPending, ta_allowedFrom = Some SeatsHeld, ta_fromStates = None,
      ta_updates = Some \<lparr>tu_lockExpiresAt = None, tu_paymentOrderId = Some paymentOrderId, tu_failureReason = None\<rparr>\<rparr>"

definition confirming_args :: "ident \<Rightarrow> TransitionArgs" where
  "confirming_args bookingId =
     \<lparr>ta_bookingId = bookingId, ta_target = Confirming, ta_allowedFrom = Some PaymentPending,
      ta_fromStates = None, ta_updates = None\<rparr>"

definition confirmed_args :: "ident \<Rightarrow> TransitionArgs" where
  "confirmed_args bookingId =
     \<lparr>ta_bookingId = bookingId, ta_target = Confirmed, ta_allowedFrom = Some Confirming,
      ta_fromStates = None, ta_updates = None\<rparr>"

definition failed_args :: "ident \<Rightarrow> string \<Rightarrow> TransitionArgs" where
  "failed_args bookingId reason =
     \<lparr>ta_bookingId = bookingId, ta_target = Failed, ta_allowedFrom = None, ta_fromStates = None,
      ta_updates = Some \<lparr>tu_lockExpiresAt = None, tu_paymentOrderId = None, tu_failureReason = Some reason\<rparr>\<rparr>"

definition expired_args :: "ident \<Rightarrow> TransitionArgs" where
  "expired_args bookingId =
     \<lparr>ta_bookingId = bookingId, ta_target = Expired, ta_allowedFrom = None, ta_fromStates = None, ta_updates = None\<rparr>"

definition cancelling_args :: "ident \<Rightarrow> TransitionArgs" where
  "cancelling_args bookingId =
     \<lparr>ta_bookingId = bookingId, ta_target = Cancelling, ta_allowedFrom = None,
      ta_fromStates = Some [Confirmed, SeatsHeld], ta_updates = None\<rparr>"

definition cancelled_args :: "ident \<Rightarrow> TransitionArgs" where
  "cancelled_args bookingId =
     \<lparr>ta_bookingId = bookingId, ta_target = Cancelled, ta_allowedFrom = Some Cancelling,
      ta_fromStates = None, ta_updates = None\<rparr>"

definition markSeatsHeld :: "booking_env \<Rightarrow> time \<Rightarrow> ident \<Rightarrow> ident \<Rightarrow> time \<Rightarrow> (booking_db, unit) proc" where
  "markSeatsHeld env now eventId bookingId lockExpiresAt = transition env now eventId (seatsHeld_args bookingId lockExpiresAt)"

definition markPaymentPending :: "booking_env \<Rightarrow> time \<Rightarrow> ident \<Rightarrow> ident \<Rightarrow> string \<Rightarrow> (booking_db, unit) proc" where
  "markPaymentPending env now eventId bookingId paymentOrderId =
     transition env now eventId (paymentPending_args bookingId paymentOrderId)"

definition markConfirming :: "booking_env \<Rightarrow> time \<Rightarrow> ident \<Rightarrow> ident \<Rightarrow> (booking_db, unit) proc" where
  "markConfirming env now eventId bookingId = transition env now eventId (confirming_args bookingId)"

definition markConfirmed :: "booking_env \<Rightarrow> time \<Rightarrow> ident \<Rightarrow> ident \<Rightarrow> (booking_db, unit) proc" where
  "markConfirmed env now eventId bookingId = transition env now eventId (confirmed_args bookingId)"

definition booking_markFailed :: "booking_env \<Rightarrow> time \<Rightarrow> ident \<Rightarrow> ident \<Rightarrow> string \<Rightarrow> (booking_db, unit) proc" where
  "booking_markFailed env now eventId bookingId reason = transition env now eventId (failed_args bookingId reason)"

definition markExpired :: "booking_env \<Rightarrow> time \<Rightarrow> ident \<Rightarrow> ident \<Rightarrow> (booking_db, unit) proc" where
  "markExpired env now eventId bookingId = transition env now eventId (expired_args bookingId)"

section \<open>The operations of the API\<close>

definition find_owned :: "ident \<Rightarrow> ident \<Rightarrow> booking_db \<Rightarrow> Booking result" where
  "find_owned userId bookingId db =
     (case booking_findById bookingId db of
        None \<Rightarrow> Inl (ApiError 404 ''BOOKING_NOT_FOUND'')
      | Some booking \<Rightarrow>
          if b_userId booking \<noteq> userId then Inl (ApiError 403 ''BOOKING_FORBIDDEN'') else Inr booking)"

record BookingView =
  bv_id :: ident
  bv_pnr :: string
  bv_userId :: ident
  bv_scheduleId :: ident
  bv_fromStationId :: ident
  bv_toStationId :: ident
  bv_status :: BookingStatus
  bv_totalPrice :: rat
  bv_paymentOrderId :: "string option"
  bv_failureReason :: "string option"
  bv_lockExpiresAt :: "time option"

definition findByIdForUser :: "ident \<Rightarrow> ident \<Rightarrow> booking_db \<Rightarrow> BookingView result" where
  "findByIdForUser userId bookingId db =
     bindE (find_owned userId bookingId db) (\<lambda>b.
     Inr \<lparr>bv_id = b_id b, bv_pnr = b_pnr b, bv_userId = b_userId b, bv_scheduleId = b_scheduleId b,
          bv_fromStationId = b_fromStationId b, bv_toStationId = b_toStationId b, bv_status = b_status b,
          bv_totalPrice = b_totalPrice b, bv_paymentOrderId = b_paymentOrderId b,
          bv_failureReason = b_failureReason b, bv_lockExpiresAt = b_lockExpiresAt b\<rparr>)"

definition findByPnr :: "string \<Rightarrow> booking_db \<Rightarrow> Booking result" where
  "findByPnr pnr db =
     (case booking_findByPnr pnr db of None \<Rightarrow> Inl (ApiError 404 ''BOOKING_NOT_FOUND'') | Some b \<Rightarrow> Inr b)"

definition cancelBooking :: "booking_env \<Rightarrow> time \<Rightarrow> (nat \<Rightarrow> ident) \<Rightarrow> ident \<Rightarrow> ident \<Rightarrow> (booking_db, unit) proc" where
  "cancelBooking env now u bookingId userId db =
     (case find_owned userId bookingId db of
        Inl e \<Rightarrow> (Inl e, db)
      | Inr _ \<Rightarrow>
          then_proc (transition env now (u 0) (cancelling_args bookingId))
            (\<lambda>_. transition env now (u 1) (cancelled_args bookingId)) db)"

text \<open>\<open>.catch(() => {})\<close> after an update of the saga log.\<close>

definition saga_update_catch :: "ident \<Rightarrow> SagaStep \<Rightarrow> SagaStatus \<Rightarrow> string option \<Rightarrow> booking_db \<Rightarrow> booking_db" where
  "saga_update_catch bookingId step status error db = snd (transaction (saga_update bookingId step status error) db)"

text \<open>\<open>Math.round(Number(totalPrice) * 100)\<close>.\<close>

definition paise :: "rat \<Rightarrow> int" where
  "paise price = \<lfloor>price * 100 + 1 / 2\<rfloor>"

definition createPaymentOrder :: "booking_env \<Rightarrow> grpc_clients \<Rightarrow> time \<Rightarrow> ident \<Rightarrow> ident \<Rightarrow> ident \<Rightarrow>
    (booking_db, CreateOrderResponse) proc" where
  "createPaymentOrder env cl now eventId bookingId userId db =
     (case find_owned userId bookingId db of
        Inl e \<Rightarrow> (Inl e, db)
      | Inr booking \<Rightarrow>
          case adapter_createOrder cl \<lparr>oq_bookingId = b_id booking, oq_userId = b_userId booking,
                 oq_amount = paise (b_totalPrice booking), oq_currency = ''INR''\<rparr> of
            Inl err \<Rightarrow>
              (Inl (ApiError 503 ''INTERNAL_ERROR''),
               saga_update_catch bookingId CREATE_PAYMENT Step_FAILED (Some (be_errorText env err)) db)
          | Inr paymentOrder \<Rightarrow>
              (let db1 = saga_update_catch bookingId CREATE_PAYMENT Step_COMPLETED None db
               in if b_status booking = SeatsHeld
                  then then_proc (markPaymentPending env now eventId bookingId (or_paymentOrderId paymentOrder))
                         (\<lambda>_ s. (Inr paymentOrder, s)) db1
                  else (Inr paymentOrder, db1)))"

definition confirmPayment :: "booking_env \<Rightarrow> time \<Rightarrow> (nat \<Rightarrow> ident) \<Rightarrow> ident \<Rightarrow> ident \<Rightarrow> (booking_db, unit) proc" where
  "confirmPayment env now u bookingId userId db =
     (case find_owned userId bookingId db of
        Inl e \<Rightarrow> (Inl e, db)
      | Inr booking \<Rightarrow>
          then_proc (if b_status booking = SeatsHeld
                     then markPaymentPending env now (u 1) bookingId (''PAY-'' @ u 0) else Pair (Inr ()))
            (\<lambda>_. then_proc (markConfirming env now (u 2) bookingId)
            (\<lambda>_. then_proc (markConfirmed env now (u 3) bookingId)
            (\<lambda>_. transaction (saga_update bookingId CONFIRM_SEATS Step_COMPLETED None)))) db)"

section \<open>The controller\<close>

text \<open>An answer is the HTTP status and the data of the success body; an error goes to the error
  middleware as it is. The routes validate the request before the controller runs.\<close>

definition requireUserId :: "ident option \<Rightarrow> ident result" where
  "requireUserId user =
     (case user of
        Some userId \<Rightarrow> if userId = [] then Inl (ApiError 401 ''UNAUTHORIZED'') else Inr userId
      | None \<Rightarrow> Inl (ApiError 401 ''UNAUTHORIZED''))"

definition controller_createBooking :: "booking_env \<Rightarrow> grpc_clients \<Rightarrow> link \<Rightarrow> link \<Rightarrow> exn option \<Rightarrow> time \<Rightarrow> (nat \<Rightarrow> ident) \<Rightarrow>
    8 word list \<Rightarrow> ident option \<Rightarrow> CreateBookingDto \<Rightarrow> (booking_db \<times> redis, int \<times> CreateBookingResponse) proc" where
  "controller_createBooking env cl lockLink unlockLink txErr now u bytes user body s =
     (case requireUserId user of
        Inl e \<Rightarrow> (Inl e, s)
      | Inr userId \<Rightarrow>
          then_proc (createBooking env cl lockLink unlockLink txErr now u bytes userId body)
            (\<lambda>result s. (Inr (201, result), s)) s)"

definition controller_getBooking :: "ident option \<Rightarrow> ident \<Rightarrow> booking_db \<Rightarrow> (int \<times> BookingView) result" where
  "controller_getBooking user bookingId db =
     bindE (requireUserId user) (\<lambda>userId.
     bindE (findByIdForUser userId bookingId db) (\<lambda>booking. Inr (200, booking)))"

definition controller_cancelBooking :: "booking_env \<Rightarrow> time \<Rightarrow> (nat \<Rightarrow> ident) \<Rightarrow> ident option \<Rightarrow> ident \<Rightarrow>
    (booking_db, int \<times> BookingView) proc" where
  "controller_cancelBooking env now u user bookingId db =
     (case requireUserId user of
        Inl e \<Rightarrow> (Inl e, db)
      | Inr userId \<Rightarrow>
          then_proc (cancelBooking env now u bookingId userId)
            (\<lambda>_ s. (bindE (findByIdForUser userId bookingId s) (\<lambda>booking. Inr (200, booking)), s)) db)"

definition controller_payBooking :: "booking_env \<Rightarrow> grpc_clients \<Rightarrow> time \<Rightarrow> ident \<Rightarrow> ident option \<Rightarrow> ident \<Rightarrow>
    (booking_db, int \<times> CreateOrderResponse) proc" where
  "controller_payBooking env cl now eventId user bookingId db =
     (case requireUserId user of
        Inl e \<Rightarrow> (Inl e, db)
      | Inr userId \<Rightarrow>
          then_proc (createPaymentOrder env cl now eventId bookingId userId)
            (\<lambda>paymentOrder s. (Inr (200, paymentOrder), s)) db)"

end
