(* ===== verification/Idempotency.thy ===== *)
theory Idempotency
  imports Redis
begin

text \<open>
  \<open>IdempotencyRepository\<close> of \<open>packages/redis\<close>: a Redis key per event that is \<open>PROCESSING\<close>
  for the lease and \<open>PROCESSED\<close> for the retention time. A step of \<open>idem_step\<close> is one call of
  the repository, at a time that does not go back.
\<close>

record idem_config =
  processingLeaseSeconds :: int
  processedTtlSeconds :: int
  keyspace :: string

definition PROCESSING :: string where "PROCESSING = ''PROCESSING''"
definition PROCESSED :: string where "PROCESSED = ''PROCESSED''"

definition buildKey :: "idem_config \<Rightarrow> ident \<Rightarrow> string" where
  "buildKey c eventId = keyspace c @ '':'' @ eventId"

definition reserveIfNew :: "idem_config \<Rightarrow> link \<Rightarrow> time \<Rightarrow> ident \<Rightarrow> (redis, bool) proc" where
  "reserveIfNew c lk now eventId =
     over_link lk (redis_set_nx_ex now (buildKey c eventId) PROCESSING (processingLeaseSeconds c))"

definition markProcessed :: "idem_config \<Rightarrow> link \<Rightarrow> time \<Rightarrow> ident \<Rightarrow> (redis, bool) proc" where
  "markProcessed c lk now eventId =
     over_link lk (redis_set_ex now (buildKey c eventId) PROCESSED (processedTtlSeconds c))"

definition releaseIfProcessing :: "time \<Rightarrow> string \<Rightarrow> string \<Rightarrow> redis \<Rightarrow> int \<times> redis" where
  "releaseIfProcessing now k v st = (if redis_get now k st = Some v then redis_del now k st else (0, st))"

definition release :: "idem_config \<Rightarrow> link \<Rightarrow> time \<Rightarrow> ident \<Rightarrow> (redis, unit) proc" where
  "release c lk now eventId =
     over_link lk (\<lambda>st. (Inr (), snd (releaseIfProcessing now (buildKey c eventId) PROCESSING st)))"

inductive idem_step :: "idem_config \<Rightarrow> time \<times> redis \<Rightarrow> time \<times> redis \<Rightarrow> bool" for c where
  reserves: "t \<le> v \<Longrightarrow> idem_step c (t, st) (v, snd (reserveIfNew c lk v e st))"
| marks: "t \<le> v \<Longrightarrow> idem_step c (t, st) (v, snd (markProcessed c lk v e st))"
| releases: "t \<le> v \<Longrightarrow> idem_step c (t, st) (v, snd (release c lk v e st))"

lemma state_neq [simp]: "PROCESSING \<noteq> PROCESSED" "PROCESSED \<noteq> PROCESSING"
  by (simp_all add: PROCESSING_def PROCESSED_def)

lemma buildKey_inj [simp]: "buildKey c e = buildKey c e' \<longleftrightarrow> e = e'"
  by (simp add: buildKey_def)

definition processed_until :: "idem_config \<Rightarrow> ident \<Rightarrow> time \<Rightarrow> time \<times> redis \<Rightarrow> bool" where
  "processed_until c e d s \<longleftrightarrow> fst s \<le> d \<longrightarrow>
     d < fst s + processedTtlSeconds c * 1000 \<and> redis_get d (buildKey c e) (snd s) = Some PROCESSED"

lemma reserve_get:
  assumes "now \<le> u" and "redis_get u k st = Some v"
  shows "redis_get u k (snd (reserveIfNew c lk now e st)) = Some v"
proof -
  have "redis_get now k st = Some v" using assms(1,2) by (rule redis_get_earlier [rotated])
  then have "redis_get u k (snd (redis_set_nx_ex now k' w ttl st)) = Some v" for k' w ttl
    using assms(2) by (auto simp: redis_set_nx_ex_def redis_get_upd)
  then show ?thesis using assms(2) unfolding reserveIfNew_def
    by (intro over_link_preserves [where P = "\<lambda>s. redis_get u k s = Some v"])
qed

lemma release_get:
  assumes "now \<le> u" and "redis_get u k st = Some v" and "v \<noteq> PROCESSING"
  shows "redis_get u k (snd (release c lk now e st)) = Some v"
proof -
  have "redis_get now k st = Some v" using assms(1,2) by (rule redis_get_earlier [rotated])
  then have "redis_get u k (snd (releaseIfProcessing now k' PROCESSING st)) = Some v" for k'
    using assms(2,3) by (auto simp: releaseIfProcessing_def redis_del_def redis_get_none_upd)
  then show ?thesis using assms(2) unfolding release_def
    by (intro over_link_preserves [where P = "\<lambda>s. redis_get u k s = Some v"]) auto
qed

lemma mark_get:
  assumes "redis_get u (buildKey c e) st = Some PROCESSED" and "u < now + processedTtlSeconds c * 1000"
  shows "redis_get u (buildKey c e) (snd (markProcessed c lk now e' st)) = Some PROCESSED"
proof -
  have "redis_get u (buildKey c e) (snd (redis_set_ex now (buildKey c e') PROCESSED (processedTtlSeconds c) st))
      = Some PROCESSED"
    using assms by (auto simp: redis_set_ex_def redis_get_upd)
  then show ?thesis using assms(1) unfolding markProcessed_def
    by (intro over_link_preserves [where P = "\<lambda>s. redis_get u (buildKey c e) s = Some PROCESSED"])
qed

lemma idem_step_processed:
  "idem_step c s s' \<Longrightarrow> processed_until c e d s \<Longrightarrow> processed_until c e d s'"
  by (induction rule: idem_step.induct)
    (auto simp: processed_until_def intro: reserve_get mark_get release_get)

interpretation idem: stepper "idem_step c" "processed_until c e d" for c e d
  by unfold_locales (fact idem_step_processed)

lemma markProcessed_until:
  assumes "markProcessed c lk t e st = (Inr b, st')" and "d < t + processedTtlSeconds c * 1000"
  shows "processed_until c e d (t, st')"
  using assms by (auto simp: markProcessed_def over_link_Inr redis_set_ex_def processed_until_def
      redis_get_upd split: if_splits)

lemma reserve_denied:
  assumes "redis_get now (buildKey c e) st = Some v"
  shows "fst (reserveIfNew c lk now e st) \<noteq> Inr True"
  using assms by (cases lk) (auto simp: reserveIfNew_def over_link_def redis_set_nx_ex_def)

lemma reserve_True_iff:
  "fst (reserveIfNew c lk now e st) = Inr True \<longleftrightarrow>
     lk = Reply \<and> 0 < processingLeaseSeconds c \<and> redis_get now (buildKey c e) st = None"
  by (cases lk) (auto simp: reserveIfNew_def over_link_def redis_set_nx_ex_def)

text \<open>Once an event is marked processed, no later call of the repository undoes it: whatever
  reservations, marks and releases follow, for this event or others and over any link, the
  marker stands until its retention time has passed and every reservation of the event in that
  time is refused.\<close>

theorem processed_marker_final:
  assumes "markProcessed c lk t e st = (Inr b, st1)" and "(idem_step c)\<^sup>*\<^sup>* (t, st1) (u, st2)"
    and "u < t + processedTtlSeconds c * 1000"
  shows "redis_get u (buildKey c e) st2 = Some PROCESSED \<and> fst (reserveIfNew c lk' u e st2) \<noteq> Inr True"
proof -
  have "processed_until c e u (u, st2)"
    using idem.run_inv [OF assms(2)] markProcessed_until [OF assms(1,3)] by blast
  then show ?thesis using reserve_denied by (auto simp: processed_until_def)
qed

theorem processed_marker_final_witness:
  "let c = \<lparr>processingLeaseSeconds = 60, processedTtlSeconds = 600, keyspace = ''ks''\<rparr>;
       st1 = snd (markProcessed c Reply 0 ''e'' (\<lambda>_. None));
       st2 = snd (release c Reply 10 ''e'' st1)
   in fst (reserveIfNew c Reply 10 ''e'' st2) \<noteq> Inr True"
proof -
  let ?c = "\<lparr>processingLeaseSeconds = 60, processedTtlSeconds = 600, keyspace = ''ks''\<rparr>"
  let ?st1 = "snd (markProcessed ?c Reply 0 ''e'' (\<lambda>_. None))"
  have m: "markProcessed ?c Reply 0 ''e'' (\<lambda>_. None) = (Inr True, ?st1)"
    by (simp add: markProcessed_def over_link_def redis_set_ex_def)
  have r: "(idem_step ?c)\<^sup>*\<^sup>* (0, ?st1) (10, snd (release ?c Reply 10 ''e'' ?st1))"
    by (rule r_into_rtranclp, rule idem_step.releases) simp
  have "10 < (0 :: time) + processedTtlSeconds ?c * 1000" by simp
  from processed_marker_final [OF m r this, of Reply] show ?thesis unfolding Let_def by blast
qed

text \<open>A reservation is not tied to the consumer that made it. When the lease of a slow first
  consumer runs out and a second one reserves the event, the failure path of the first deletes
  the second one's live reservation, and a third reservation is granted while the second
  consumer is still working.\<close>

theorem release_not_owner_scoped:
  "let c = \<lparr>processingLeaseSeconds = 60, processedTtlSeconds = 600, keyspace = ''ks''\<rparr>;
       (first, st1) = reserveIfNew c Reply 0 ''e'' (\<lambda>_. None);
       (second, st2) = reserveIfNew c Reply 61000 ''e'' st1;
       (_, st3) = release c Reply 62000 ''e'' st2;
       (third, st4) = reserveIfNew c Reply 63000 ''e'' st3
   in first = Inr True \<and> second = Inr True \<and> third = Inr True"
  by (simp add: reserveIfNew_def release_def over_link_def redis_set_nx_ex_def redis_get_def
      live_def releaseIfProcessing_def redis_del_def buildKey_def)

end
