(* ===== verification/Saga.thy ===== *)
theory Saga
  imports Booking Idempotency
begin

text \<open>
  \<open>BookingSagaOrchestrator\<close>: what the booking service does with the replies of the inventory and
  payment services. A handler reserves the event in Redis, runs its transaction, marks the event
  processed, and releases the reservation when anything after the reservation throws. The three
  links say what happens to the connection in the reservation, the marking and the release.

  As in \<open>transition\<close>, the part of a transaction after its read is a definition of its own, with the
  row that was read as an argument. \<open>handlePaymentSuccess\<close> calls \<open>confirmPayment\<close> inside its
  transaction but on its own connection: the transitions in it commit for themselves, and the two
  writes of the handler commit only at its end.
\<close>

definition once :: "idem_config \<Rightarrow> link \<times> link \<times> link \<Rightarrow> time \<Rightarrow> string \<Rightarrow> (booking_db, unit) proc \<Rightarrow>
    (booking_db \<times> redis, bool) proc" where
  "once c links now eventKey body s =
     (case links of (reserveLink, markLink, releaseLink) \<Rightarrow>
      case s of (db, st) \<Rightarrow>
      let failed = (\<lambda>err db1 st1. (case release c releaseLink now eventKey st1 of
                      (Inr _, st2) \<Rightarrow> (Inl err, (db1, st2))
                    | (Inl err2, st2) \<Rightarrow> (Inl err2, (db1, st2))))
      in (case reserveIfNew c reserveLink now eventKey st of
           (Inl err, st1) \<Rightarrow> (Inl err, (db, st1))
         | (Inr False, st1) \<Rightarrow> (Inr False, (db, st1))
         | (Inr True, st1) \<Rightarrow>
             (case body db of
                (Inl err, db1) \<Rightarrow> failed err db1 st1
              | (Inr _, db1) \<Rightarrow>
                  (case markProcessed c markLink now eventKey st1 of
                     (Inr _, st2) \<Rightarrow> (Inr True, (db1, st2))
                   | (Inl err, st2) \<Rightarrow> failed err db1 st2))))"

section \<open>The seats are held\<close>

definition held_commit :: "SeatsHeldV1 \<Rightarrow> Booking \<Rightarrow> (booking_db, unit) tx" where
  "held_commit event booking db =
     (let bookingId = sh_bookingId event;
          totalPrice = foldl (\<lambda>sum alloc. sum + sa_price alloc) 0 (sh_allocations event);
          db1 = booking_updatePassengers bookingId (sh_allocations event) db
      in case booking_updateStatus bookingId SeatsHeld (b_version booking + 1) db1 of
           (False, _) \<Rightarrow> Inl (PlainError ''CAS collision on PENDING -> SEATS_HELD'')
         | (True, db2) \<Rightarrow>
             bindE (booking_update bookingId (\<lambda>b. b\<lparr>b_totalPrice := totalPrice,
                      b_lockExpiresAt := Some (sh_holdExpiresAt event)\<rparr>) db2) (\<lambda>(_, db3).
             saga_update bookingId HOLD_SEATS Step_COMPLETED None db3))"

definition held_tx :: "SeatsHeldV1 \<Rightarrow> (booking_db, unit) tx" where
  "held_tx event db =
     (case booking_findById (sh_bookingId event) db of
        None \<Rightarrow> Inl (PlainError ''Booking not found'')
      | Some booking \<Rightarrow>
          if b_status booking \<noteq> Pending then Inr ((), db) else held_commit event booking db)"

definition handleSeatsHeld :: "booking_env \<Rightarrow> idem_config \<Rightarrow> link \<times> link \<times> link \<Rightarrow> time \<Rightarrow> ident \<Rightarrow> SeatsHeldV1 \<Rightarrow>
    (booking_db \<times> redis, unit) proc" where
  "handleSeatsHeld env c links now statusEventId event s =
     (case once c links now (''booking:held:'' @ sh_eventId event) (transaction (held_tx event)) s of
        (Inl err, s') \<Rightarrow> (Inl err, s')
      | (Inr False, s') \<Rightarrow> (Inr (), s')
      | (Inr True, (db, st)) \<Rightarrow>
          (Inr (), (snd (markPaymentPending env now statusEventId (sh_bookingId event)
                           (''auto-'' @ sh_bookingId event) db), st)))"

section \<open>The hold failed, or lapsed\<close>

definition reason_text :: "SeatHoldFailureReason \<Rightarrow> string" where
  "reason_text r = (case r of
       SEAT_ALREADY_HELD \<Rightarrow> ''SEAT_ALREADY_HELD''
     | SCHEDULE_NOT_FOUND \<Rightarrow> ''SCHEDULE_NOT_FOUND''
     | SEAT_NOT_FOUND \<Rightarrow> ''SEAT_NOT_FOUND''
     | SEGMENT_CONFLICT \<Rightarrow> ''SEGMENT_CONFLICT''
     | INTERNAL_ERROR \<Rightarrow> ''INTERNAL_ERROR'')"

definition hold_failed_commit :: "SeatsHoldFailedV1 \<Rightarrow> Booking \<Rightarrow> (booking_db, unit) tx" where
  "hold_failed_commit event booking db =
     (let bookingId = hf_bookingId event;
          db1 = snd (booking_updateStatus bookingId Failed (b_version booking + 1) db)
      in bindE (booking_update bookingId (\<lambda>b. b\<lparr>b_failureReason := Some (hf_message event)\<rparr>) db1) (\<lambda>(_, db2).
         saga_update bookingId HOLD_SEATS Step_FAILED (Some (reason_text (hf_reason event))) db2))"

definition hold_failed_tx :: "SeatsHoldFailedV1 \<Rightarrow> (booking_db, unit) tx" where
  "hold_failed_tx event db =
     (case booking_findById (hf_bookingId event) db of
        None \<Rightarrow> Inl (PlainError ''Booking not found'')
      | Some booking \<Rightarrow>
          if b_status booking = Pending then hold_failed_commit event booking db else Inr ((), db))"

definition handleSeatsHoldFailed :: "idem_config \<Rightarrow> link \<times> link \<times> link \<Rightarrow> time \<Rightarrow> SeatsHoldFailedV1 \<Rightarrow>
    (booking_db \<times> redis, unit) proc" where
  "handleSeatsHoldFailed c links now event s =
     (case once c links now (''booking:failed:'' @ hf_eventId event) (transaction (hold_failed_tx event)) s of
        (Inl err, s') \<Rightarrow> (Inl err, s')
      | (Inr _, s') \<Rightarrow> (Inr (), s'))"

definition hold_expired_commit :: "SeatHoldExpiredV1 \<Rightarrow> Booking \<Rightarrow> (booking_db, unit) tx" where
  "hold_expired_commit event booking db =
     (let bookingId = he_bookingId event;
          db1 = snd (booking_updateStatus bookingId Expired (b_version booking + 1) db)
      in saga_update bookingId HOLD_SEATS Step_COMPENSATED (Some ''Hold duration expired'') db1)"

definition hold_expired_tx :: "SeatHoldExpiredV1 \<Rightarrow> (booking_db, unit) tx" where
  "hold_expired_tx event db =
     (case booking_findById (he_bookingId event) db of
        None \<Rightarrow> Inl (PlainError ''Booking not found'')
      | Some booking \<Rightarrow>
          if b_status booking = SeatsHeld \<or> b_status booking = Pending
          then hold_expired_commit event booking db else Inr ((), db))"

definition handleSeatHoldExpired :: "idem_config \<Rightarrow> link \<times> link \<times> link \<Rightarrow> time \<Rightarrow> SeatHoldExpiredV1 \<Rightarrow>
    (booking_db \<times> redis, unit) proc" where
  "handleSeatHoldExpired c links now event s =
     (case once c links now (''booking:expired:'' @ he_eventId event) (transaction (hold_expired_tx event)) s of
        (Inl err, s') \<Rightarrow> (Inl err, s')
      | (Inr _, s') \<Rightarrow> (Inr (), s'))"

section \<open>The payment succeeded\<close>

definition payment_body :: "booking_env \<Rightarrow> time \<Rightarrow> (nat \<Rightarrow> ident) \<Rightarrow> ident \<Rightarrow> (booking_db, unit) proc" where
  "payment_body env now u bookingId db =
     (case booking_findById bookingId db of
        None \<Rightarrow> (Inr (), db)
      | Some booking \<Rightarrow>
          if b_status booking \<noteq> SeatsHeld \<and> b_status booking \<noteq> PaymentPending \<and> b_status booking \<noteq> Confirming
          then (Inr (), db)
          else (case saga_update bookingId CREATE_PAYMENT Step_COMPLETED None db of
            Inl err \<Rightarrow> (Inl err, db)
          | Inr _ \<Rightarrow>
              then_proc (confirmPayment env now u bookingId (b_userId booking))
                (\<lambda>_. transaction (\<lambda>s.
                   bindE (saga_update bookingId CREATE_PAYMENT Step_COMPLETED None s) (\<lambda>(_, s').
                   saga_update bookingId CONFIRM_SEATS Step_COMPLETED None s'))) db))"

definition handlePaymentSuccess :: "booking_env \<Rightarrow> idem_config \<Rightarrow> link \<times> link \<times> link \<Rightarrow> time \<Rightarrow> (nat \<Rightarrow> ident) \<Rightarrow>
    PaymentSuccessV1 \<Rightarrow> (booking_db \<times> redis, unit) proc" where
  "handlePaymentSuccess env c links now u event s =
     (case once c links now (''booking:payment_success:'' @ ps_eventId event)
             (payment_body env now u (ps_bookingId event)) s of
        (Inl err, s') \<Rightarrow> (Inl err, s')
      | (Inr _, s') \<Rightarrow> (Inr (), s'))"

end
