(* ===== verification/BookingLife.thy ===== *)
theory BookingLife
  imports Saga
begin

text \<open>
  The life of a booking: which status changes can happen, under any interleaving of the requests
  and the event handlers of the booking service.

  \<open>booking_step\<close> is one committed transaction. Its state holds, beside the database, the rows that
  transactions in flight have read: a transition, or a handler of the saga, reads a row in one step
  and commits in a later one, with the commits of others in between, as PostgreSQL allows under
  READ COMMITTED. \<open>booking_effect\<close> says what any step does to the tables, and the invariants are
  proved from it. \<open>runs\<close> connects the handlers to the steps: each call of a handler is a
  sequence of steps. \<open>markSeatsHeld\<close>, \<open>markFailed\<close> and \<open>markExpired\<close> of the service have no
  caller and no step.
\<close>

section \<open>Steps\<close>

fun legal :: "BookingStatus \<Rightarrow> BookingStatus \<Rightarrow> bool" where
  "legal Pending s \<longleftrightarrow> s = SeatsHeld \<or> s = Failed \<or> s = Expired"
| "legal SeatsHeld s \<longleftrightarrow> s = PaymentPending \<or> s = Cancelling \<or> s = Expired"
| "legal PaymentPending s \<longleftrightarrow> s = Confirming"
| "legal Confirming s \<longleftrightarrow> s = Confirmed"
| "legal Confirmed s \<longleftrightarrow> s = Cancelling"
| "legal Cancelling s \<longleftrightarrow> s = Cancelled"
| "legal _ s \<longleftrightarrow> False"

fun booking_rank :: "BookingStatus \<Rightarrow> int" where
  "booking_rank Pending = 0"
| "booking_rank SeatsHeld = 1"
| "booking_rank PaymentPending = 2"
| "booking_rank Confirming = 3"
| "booking_rank Confirmed = 4"
| "booking_rank Cancelling = 5"
| "booking_rank _ = 6"

lemma legal_rank: "legal s t \<Longrightarrow> booking_rank s < booking_rank t"
  by (cases s; cases t) simp_all

definition called_args :: "ident \<Rightarrow> TransitionArgs \<Rightarrow> bool" where
  "called_args i args \<longleftrightarrow> (\<exists>p. args = paymentPending_args i p) \<or>
     args \<in> {confirming_args i, confirmed_args i, cancelling_args i, cancelled_args i}"

type_synonym booking_sys = "booking_db \<times> Booking list"

inductive booking_step :: "booking_sys \<Rightarrow> booking_sys \<Rightarrow> bool" where
  reads: "b \<in> set (bk_bookings db) \<Longrightarrow> booking_step (db, rs) (db, b # rs)"
| creates: "create_tx env now u bytes userId dto ids db = Inr (r, db') \<Longrightarrow> booking_step (db, rs) (db', rs)"
| transitions: "b \<in> set rs \<Longrightarrow> called_args (b_id b) args \<Longrightarrow> b_status b \<in> set (permittedStates args) \<Longrightarrow>
    transition_commit env now eventId args b db = Inr ((), db') \<Longrightarrow> booking_step (db, rs) (db', rs)"
| holds: "b \<in> set rs \<Longrightarrow> b_id b = sh_bookingId held \<Longrightarrow> b_status b = Pending \<Longrightarrow>
    held_commit held b db = Inr ((), db') \<Longrightarrow> booking_step (db, rs) (db', rs)"
| hold_fails: "b \<in> set rs \<Longrightarrow> b_id b = hf_bookingId hfail \<Longrightarrow> b_status b = Pending \<Longrightarrow>
    hold_failed_commit hfail b db = Inr ((), db') \<Longrightarrow> booking_step (db, rs) (db', rs)"
| hold_expires: "b \<in> set rs \<Longrightarrow> b_id b = he_bookingId hexp \<Longrightarrow> b_status b \<in> {SeatsHeld, Pending} \<Longrightarrow>
    hold_expired_commit hexp b db = Inr ((), db') \<Longrightarrow> booking_step (db, rs) (db', rs)"
| logs: "saga_update i stp st err db = Inr ((), db') \<Longrightarrow> booking_step (db, rs) (db', rs)"

lemma called_target: "called_args i args \<Longrightarrow> ta_bookingId args = i"
  by (auto simp: called_args_def paymentPending_args_def confirming_args_def confirmed_args_def
      cancelling_args_def cancelled_args_def)

lemma called_legal: "called_args i args \<Longrightarrow> st \<in> set (permittedStates args) \<Longrightarrow> legal st (ta_target args)"
  by (auto simp: called_args_def permittedStates_def paymentPending_args_def confirming_args_def
      confirmed_args_def cancelling_args_def cancelled_args_def)

section \<open>What a step does to the tables\<close>

fun status_events :: "event list \<Rightarrow> BookingStatusChangedV1 list" where
  "status_events [] = []"
| "status_events (EvBookingStatusChanged e # es) = e # status_events es"
| "status_events (_ # es) = status_events es"

lemma status_events_append [simp]: "status_events (xs @ ys) = status_events xs @ status_events ys"
  by (induction xs rule: status_events.induct) simp_all

definition booking_events :: "booking_db \<Rightarrow> BookingStatusChangedV1 list" where
  "booking_events db = status_events (outbox_payloads (bk_outbox db))"

definition saga_keys :: "booking_db \<Rightarrow> (ident \<times> SagaStep) list" where
  "saga_keys db = map (\<lambda>g. (sg_bookingId g, sg_step g)) (bk_sagas db)"

definition same_booking :: "Booking \<Rightarrow> Booking \<Rightarrow> bool" where
  "same_booking r r' \<longleftrightarrow> b_id r' = b_id r \<and> b_pnr r' = b_pnr r \<and> b_userId r' = b_userId r \<and>
     b_scheduleId r' = b_scheduleId r \<and> b_fromStationId r' = b_fromStationId r \<and> b_toStationId r' = b_toStationId r"

definition row_evolves :: "Booking \<Rightarrow> Booking \<Rightarrow> bool" where
  "row_evolves r r' \<longleftrightarrow> same_booking r r' \<and>
     (b_version r' = b_version r \<and> b_status r' = b_status r \<or>
      b_version r' = b_version r + 1 \<and> legal (b_status r) (b_status r'))"

definition describes :: "BookingStatusChangedV1 \<Rightarrow> Booking \<Rightarrow> Booking \<Rightarrow> bool" where
  "describes e r r' \<longleftrightarrow> bs_bookingId e = b_id r \<and> bs_pnr e = b_pnr r \<and> bs_userId e = b_userId r \<and>
     bs_previousStatus e = Some (b_status r) \<and> bs_currentStatus e = b_status r' \<and>
     bs_version e = b_version r' \<and> b_version r' = b_version r + 1"

definition reads_ok :: "booking_sys \<Rightarrow> bool" where
  "reads_ok s \<longleftrightarrow> (\<forall>b \<in> set (snd s). \<exists>r \<in> set (bk_bookings (fst s)). same_booking r b \<and>
     b_version b \<le> b_version r \<and> (b_version b = b_version r \<longrightarrow> b_status b = b_status r))"

definition ids_distinct :: "booking_sys \<Rightarrow> bool" where
  "ids_distinct s \<longleftrightarrow> distinct (map b_id (bk_bookings (fst s))) \<and> distinct (map b_pnr (bk_bookings (fst s)))"

lemma same_booking_refl [simp]: "same_booking r r" by (simp add: same_booking_def)

lemma row_evolves_refl [simp]: "row_evolves r r" by (simp add: row_evolves_def)

definition moves :: "(Booking \<Rightarrow> Booking) \<Rightarrow> booking_db \<Rightarrow> booking_db \<Rightarrow> bool" where
  "moves f db db' \<longleftrightarrow> bk_bookings db' = map f (bk_bookings db) \<and>
     (\<forall>r \<in> set (bk_bookings db). row_evolves r (f r)) \<and> bk_keys db' = bk_keys db \<and> saga_keys db' = saga_keys db \<and>
     (booking_events db' = booking_events db \<or>
      (\<exists>r \<in> set (bk_bookings db). \<exists>e. describes e r (f r) \<and> booking_events db' = booking_events db @ [e]))"

definition adds :: "Booking \<Rightarrow> booking_db \<Rightarrow> booking_db \<Rightarrow> bool" where
  "adds b db db' \<longleftrightarrow> bk_bookings db' = bk_bookings db @ [b] \<and> b_id b \<notin> b_id ` set (bk_bookings db) \<and>
     b_pnr b \<notin> b_pnr ` set (bk_bookings db) \<and> b_status b = Pending \<and> b_version b = 1 \<and>
     (\<exists>k. bk_keys db' = bk_keys db @ [k] \<and> ik_idempotencyKey k \<notin> ik_idempotencyKey ` set (bk_keys db) \<and>
        ik_bookingId k = b_id b \<and> ik_responseBody k = \<lparr>cr_id = b_id b, cr_pnr = b_pnr b, cr_status = Pending\<rparr>) \<and>
     saga_keys db' = saga_keys db @ [(b_id b, HOLD_SEATS), (b_id b, CREATE_PAYMENT), (b_id b, CONFIRM_SEATS)] \<and>
     (\<exists>e. booking_events db' = booking_events db @ [e] \<and> bs_bookingId e = b_id b \<and> bs_pnr e = b_pnr b \<and>
        bs_userId e = b_userId b \<and> bs_previousStatus e = None \<and> bs_currentStatus e = Pending \<and> bs_version e = 1)"

definition same_state :: "Booking \<Rightarrow> Booking \<Rightarrow> bool" where
  "same_state r r' \<longleftrightarrow> same_booking r r' \<and> b_version r' = b_version r \<and> b_status r' = b_status r"

definition bump :: "ident \<Rightarrow> BookingStatus \<Rightarrow> int \<Rightarrow> Booking \<Rightarrow> Booking" where
  "bump i st v r = (if b_id r = i \<and> b_version r < v then r\<lparr>b_status := st, b_version := v\<rparr> else r)"

lemma same_state_refl [simp]: "same_state r r" by (simp add: same_state_def)

lemma same_state_evolves: "same_state r r1 \<Longrightarrow> row_evolves r r1"
  by (simp add: same_state_def row_evolves_def)

lemma evolves_same_state: "row_evolves r r1 \<Longrightarrow> same_state r1 r2 \<Longrightarrow> row_evolves r r2"
  by (auto simp: same_state_def row_evolves_def same_booking_def)

lemma same_state_updates [simp]: "same_state r (apply_updates up r)"
  by (simp add: same_state_def same_booking_def apply_updates_def)

lemma bump_same_state: "same_state r r1 \<Longrightarrow> same_state (bump i st v r) (bump i st v r1)"
  by (auto simp: same_state_def same_booking_def bump_def)

lemma updateStatus_bump:
  "booking_updateStatus i st v db =
    ((\<exists>r \<in> set (bk_bookings db). b_id r = i \<and> b_version r < v),
     db\<lparr>bk_bookings := map (bump i st v) (bk_bookings db)\<rparr>)"
proof -
  have e: "map (\<lambda>b. if b_id b = i \<and> b_version b < v then b\<lparr>b_status := st, b_version := v\<rparr> else b) (bk_bookings db) =
      map (bump i st v) (bk_bookings db)"
    by (simp add: bump_def cong: map_cong)
  show ?thesis unfolding booking_updateStatus_def update_many_def prod.case e
    by (auto simp: filter_empty_conv)
qed

lemma booking_update_Inr:
  "booking_update i f db = Inr (x, db') \<longleftrightarrow> (\<exists>r \<in> set (bk_bookings db). b_id r = i) \<and>
    db' = db\<lparr>bk_bookings := map (\<lambda>r. if b_id r = i then f r else r) (bk_bookings db)\<rparr>"
  by (auto simp: booking_update_def bindE_eq_Inr_iff update_row_Inr_iff)

lemma saga_update_Inr:
  "saga_update i stp st err db = Inr (x, db') \<longleftrightarrow>
    (\<exists>g \<in> set (bk_sagas db). sg_bookingId g = i \<and> sg_step g = stp) \<and>
    db' = db\<lparr>bk_sagas := map (\<lambda>g. if sg_bookingId g = i \<and> sg_step g = stp
      then g\<lparr>sg_status := st, sg_error := err\<rparr> else g) (bk_sagas db)\<rparr>"
  by (auto simp: saga_update_def bindE_eq_Inr_iff update_row_Inr_iff)

lemma saga_update_keys:
  "saga_update i stp st err db = Inr (x, db') \<Longrightarrow> saga_keys db' = saga_keys db \<and>
    bk_bookings db' = bk_bookings db \<and> bk_keys db' = bk_keys db \<and> bk_outbox db' = bk_outbox db"
  by (auto simp: saga_update_Inr saga_keys_def)

lemma read_row:
  assumes "reads_ok (db, rs)" and "ids_distinct (db, rs)" and "b \<in> set rs"
    and "r \<in> set (bk_bookings db)" and "b_id r = b_id b"
  shows "same_booking r b \<and> b_version b \<le> b_version r \<and> (b_version b = b_version r \<longrightarrow> b_status b = b_status r)"
proof -
  from assms(1,3) obtain r1 where r1: "r1 \<in> set (bk_bookings db)" "same_booking r1 b" "b_version b \<le> b_version r1"
    "b_version b = b_version r1 \<longrightarrow> b_status b = b_status r1" by (auto simp: reads_ok_def)
  from r1(2) assms(5) have "b_id r1 = b_id r" by (simp add: same_booking_def)
  moreover have "inj_on b_id (set (bk_bookings db))" using assms(2) by (simp add: ids_distinct_def distinct_map)
  ultimately have "r1 = r" using r1(1) assms(4) by (meson inj_onD)
  with r1 show ?thesis by simp
qed

lemma bump_evolves:
  assumes "b_id r = b_id b \<Longrightarrow> same_booking r b \<and> b_version b \<le> b_version r \<and> (b_version b = b_version r \<longrightarrow> b_status b = b_status r)"
    and "legal (b_status b) st"
  shows "row_evolves r (bump (b_id b) st (b_version b + 1) r)"
  using assms by (auto simp: row_evolves_def bump_def same_booking_def)

lemma booking_updatePassengers_tables:
  "bk_bookings (booking_updatePassengers i us db) = bk_bookings db"
  "bk_sagas (booking_updatePassengers i us db) = bk_sagas db"
  "bk_keys (booking_updatePassengers i us db) = bk_keys db"
  "bk_outbox (booking_updatePassengers i us db) = bk_outbox db"
  by (induction us arbitrary: db) simp_all

lemma booking_events_emit_status [simp]: "booking_events (emit_status env now e db) = booking_events db @ [e]"
  by (simp add: booking_events_def emit_status_def booking_emit_def)

lemma emit_tables [simp]:
  "bk_bookings (booking_emit env now i t p ev db) = bk_bookings db"
  "bk_sagas (booking_emit env now i t p ev db) = bk_sagas db"
  "bk_keys (booking_emit env now i t p ev db) = bk_keys db"
  "bk_seats (booking_emit env now i t p ev db) = bk_seats db"
  "bk_passengers (booking_emit env now i t p ev db) = bk_passengers db"
  "bk_bookings (emit_status env now e db) = bk_bookings db"
  "bk_sagas (emit_status env now e db) = bk_sagas db"
  "bk_keys (emit_status env now e db) = bk_keys db"
  "bk_seats (emit_status env now e db) = bk_seats db"
  "bk_passengers (emit_status env now e db) = bk_passengers db"
  by (simp_all add: booking_emit_def emit_status_def)

lemma booking_exists_emit [simp]:
  "booking_exists (booking_emit env now i t p ev db) = booking_exists db"
  "booking_exists (emit_status env now e db) = booking_exists db"
  by (simp_all add: booking_exists_def fun_eq_iff)

definition with_updates :: "TransitionArgs \<Rightarrow> Booking \<Rightarrow> Booking" where
  "with_updates args r = (case ta_updates args of
     Some up \<Rightarrow> if b_id r = ta_bookingId args then apply_updates up r else r | None \<Rightarrow> r)"

definition transition_event :: "ident \<Rightarrow> TransitionArgs \<Rightarrow> Booking \<Rightarrow> BookingStatusChangedV1" where
  "transition_event eventId args b = \<lparr>bs_eventId = eventId, bs_bookingId = b_id b, bs_pnr = b_pnr b,
     bs_userId = b_userId b, bs_previousStatus = Some (b_status b), bs_currentStatus = ta_target args,
     bs_version = b_version b + 1\<rparr>"

lemma with_updates_same [simp]: "same_state r (with_updates args r)"
  by (simp add: with_updates_def split: option.splits)

lemma with_updates_key [simp]: "b_id (with_updates args r) = b_id r" "b_version (with_updates args r) = b_version r"
  using with_updates_same [of r args] by (simp_all add: same_state_def same_booking_def)

lemma transition_commit_eq:
  "transition_commit env now eventId args b db =
    (if \<exists>r \<in> set (bk_bookings db). b_id r = ta_bookingId args \<and> b_version r < b_version b + 1
     then Inr ((), emit_status env now (transition_event eventId args b)
        (db\<lparr>bk_bookings := map (bump (ta_bookingId args) (ta_target args) (b_version b + 1) \<circ> with_updates args)
           (bk_bookings db)\<rparr>))
     else Inl (if (\<exists>r \<in> set (bk_bookings db). b_id r = ta_bookingId args) \<or> ta_updates args = None
               then ApiError 409 ''BOOKING_INVALID_TRANSITION'' else PrismaError ''P2025''))"
proof (cases "ta_updates args")
  case None
  then have w: "with_updates args = id" by (simp add: with_updates_def fun_eq_iff)
  show ?thesis unfolding transition_commit_def Let_def None option.case bindE_Inr prod.case updateStatus_bump w comp_id
    by (cases "\<exists>r \<in> set (bk_bookings db). b_id r = ta_bookingId args \<and> b_version r < b_version b + 1")
      (simp_all only: bool.case if_True if_False transition_event_def simp_thms)
next
  case (Some up)
  let ?i = "ta_bookingId args"
  let ?g = "\<lambda>r. if b_id r = ?i then apply_updates up r else r"
  have w: "with_updates args = ?g" by (simp add: with_updates_def Some fun_eq_iff)
  have id: "b_id (?g r) = b_id r" "b_version (?g r) = b_version r" for r by (simp_all add: apply_updates_def)
  show ?thesis
  proof (cases "\<exists>r \<in> set (bk_bookings db). b_id r = ?i")
    case True
    then have up: "booking_update ?i (apply_updates up) db = Inr ((), db\<lparr>bk_bookings := map ?g (bk_bookings db)\<rparr>)"
      by (simp add: booking_update_Inr)
    have ex: "(\<exists>r \<in> set (map ?g (bk_bookings db)). b_id r = ?i \<and> b_version r < v) \<longleftrightarrow>
        (\<exists>r \<in> set (bk_bookings db). b_id r = ?i \<and> b_version r < v)" for v
      unfolding set_map bex_simps id ..
    have st: "booking_updateStatus ?i (ta_target args) v (db\<lparr>bk_bookings := map ?g (bk_bookings db)\<rparr>) =
        ((\<exists>r \<in> set (bk_bookings db). b_id r = ?i \<and> b_version r < v),
         db\<lparr>bk_bookings := map (bump ?i (ta_target args) v \<circ> ?g) (bk_bookings db)\<rparr>)" for v
      using ex [of v] by (simp add: updateStatus_bump)
    show ?thesis unfolding transition_commit_def Let_def Some option.case up bindE_Inr prod.case st w
      by (cases "\<exists>r \<in> set (bk_bookings db). b_id r = ?i \<and> b_version r < b_version b + 1")
        (simp_all only: bool.case if_True if_False transition_event_def simp_thms True)
  next
    case False
    then have "booking_update ?i (apply_updates up) db = Inl (PrismaError ''P2025'')"
      by (auto simp: booking_update_def update_row_def list_ex_iff)
    then show ?thesis using False by (auto simp: transition_commit_def Some Let_def)
  qed
qed

lemma booking_events_update [simp]: "booking_events (db\<lparr>bk_bookings := x\<rparr>) = booking_events db"
  "booking_events (db\<lparr>bk_sagas := y\<rparr>) = booking_events db"
  "saga_keys (db\<lparr>bk_bookings := x\<rparr>) = saga_keys db"
  "saga_keys (emit_status env now e db) = saga_keys db"
  "saga_keys (booking_emit env now i t p ev db) = saga_keys db"
  by (simp_all add: booking_events_def saga_keys_def)

text \<open>A transition decided on a row that was read earlier.\<close>

lemma transition_moves:
  assumes "reads_ok (db, rs)" and "ids_distinct (db, rs)" and "b \<in> set rs"
    and "called_args (b_id b) args" and "b_status b \<in> set (permittedStates args)"
    and "transition_commit env now eventId args b db = Inr (x, db')"
  shows "moves (bump (b_id b) (ta_target args) (b_version b + 1) \<circ> with_updates args) db db'"
proof -
  let ?f = "bump (b_id b) (ta_target args) (b_version b + 1)"
  note i = called_target [OF assms(4)]
  from assms(6) obtain r where r: "r \<in> set (bk_bookings db)" "b_id r = b_id b" "b_version r < b_version b + 1"
    and db': "db' = emit_status env now (transition_event eventId args b)
        (db\<lparr>bk_bookings := map (?f \<circ> with_updates args) (bk_bookings db)\<rparr>)"
    unfolding transition_commit_eq i by (auto split: if_splits)
  note rr = read_row [OF assms(1-3)]
  have leg: "legal (b_status b) (ta_target args)" using called_legal assms(4,5) by blast
  have ev: "row_evolves x ((?f \<circ> with_updates args) x)" if "x \<in> set (bk_bookings db)" for x
  proof -
    have "row_evolves x (?f x)" using bump_evolves rr that leg by blast
    then show ?thesis unfolding comp_def by (rule evolves_same_state) (simp add: bump_same_state)
  qed
  have "describes (transition_event eventId args b) r ((?f \<circ> with_updates args) r)"
    using rr [OF r(1,2)] r(2,3)
    by (simp add: describes_def transition_event_def bump_def same_booking_def)
  then show ?thesis unfolding moves_def db' using ev r(1) by auto
qed

lemma moves_logs: "saga_update i stp st err db = Inr (x, db') \<Longrightarrow> moves id db db'"
  using saga_update_keys [of i stp st err db x db'] by (auto simp: moves_def booking_events_def)

lemma moves_then_log:
  assumes "moves f db db1" and "saga_update i stp st err db1 = Inr (x, db')"
  shows "moves f db db'"
  using saga_update_keys [OF assms(2)] assms(1) unfolding moves_def booking_events_def by simp

text \<open>A handler of the saga: a bump, other columns, and the log.\<close>

lemma bump_moves:
  assumes "reads_ok (db, rs)" and "ids_distinct (db, rs)" and "b \<in> set rs" and "legal (b_status b) st"
    and "\<And>r. same_state r (g r)"
    and "bk_bookings db1 = map (g \<circ> bump (b_id b) st (b_version b + 1)) (bk_bookings db)"
    and "bk_keys db1 = bk_keys db" and "saga_keys db1 = saga_keys db" and "bk_outbox db1 = bk_outbox db"
  shows "moves (g \<circ> bump (b_id b) st (b_version b + 1)) db db1"
proof -
  have "row_evolves x ((g \<circ> bump (b_id b) st (b_version b + 1)) x)" if "x \<in> set (bk_bookings db)" for x
    unfolding comp_def using bump_evolves read_row [OF assms(1-3) that] assms(4,5) evolves_same_state by blast
  then show ?thesis unfolding moves_def using assms(6-9) by (auto simp: booking_events_def)
qed

lemma saga_keys_passengers: "saga_keys (booking_updatePassengers i us db) = saga_keys db"
  by (simp add: saga_keys_def booking_updatePassengers_tables)

lemma held_moves:
  assumes "reads_ok (db, rs)" and "ids_distinct (db, rs)" and "b \<in> set rs"
    and "b_id b = sh_bookingId held" and "b_status b = Pending" and "held_commit held b db = Inr (x, db')"
  shows "\<exists>f. moves f db db'"
proof -
  let ?i = "sh_bookingId held" and ?v = "b_version b + 1"
  let ?p = "booking_updatePassengers ?i (sh_allocations held) db"
  let ?g = "\<lambda>r. if b_id r = ?i then r\<lparr>b_totalPrice := foldl (\<lambda>sum alloc. sum + sa_price alloc) 0 (sh_allocations held),
              b_lockExpiresAt := Some (sh_holdExpiresAt held)\<rparr> else r"
  let ?db1 = "?p\<lparr>bk_bookings := map (?g \<circ> bump (b_id b) SeatsHeld ?v) (bk_bookings db)\<rparr>"
  from assms(6) have "saga_update ?i HOLD_SEATS Step_COMPLETED None ?db1 = Inr (x, db')"
    unfolding held_commit_def Let_def updateStatus_bump booking_updatePassengers_tables
    by (auto simp: bindE_eq_Inr_iff booking_update_Inr assms(4) split: bool.splits)
  moreover have "moves (?g \<circ> bump (b_id b) SeatsHeld ?v) db ?db1"
    by (rule bump_moves [OF assms(1-3)])
      (simp_all add: assms(5) same_state_def same_booking_def booking_updatePassengers_tables saga_keys_passengers)
  ultimately show ?thesis using moves_then_log by blast
qed

lemma hold_failed_moves:
  assumes "reads_ok (db, rs)" and "ids_distinct (db, rs)" and "b \<in> set rs"
    and "b_id b = hf_bookingId hfail" and "b_status b = Pending" and "hold_failed_commit hfail b db = Inr (x, db')"
  shows "\<exists>f. moves f db db'"
proof -
  let ?i = "hf_bookingId hfail" and ?v = "b_version b + 1"
  let ?g = "\<lambda>r. if b_id r = ?i then r\<lparr>b_failureReason := Some (hf_message hfail)\<rparr> else r"
  let ?db1 = "db\<lparr>bk_bookings := map (?g \<circ> bump (b_id b) Failed ?v) (bk_bookings db)\<rparr>"
  from assms(6) have "saga_update ?i HOLD_SEATS Step_FAILED (Some (reason_text (hf_reason hfail))) ?db1 = Inr (x, db')"
    unfolding hold_failed_commit_def Let_def updateStatus_bump
    by (auto simp: bindE_eq_Inr_iff booking_update_Inr assms(4))
  moreover have "moves (?g \<circ> bump (b_id b) Failed ?v) db ?db1"
    by (rule bump_moves [OF assms(1-3)]) (simp_all add: assms(5) same_state_def same_booking_def)
  ultimately show ?thesis using moves_then_log by blast
qed

lemma hold_expired_moves:
  assumes "reads_ok (db, rs)" and "ids_distinct (db, rs)" and "b \<in> set rs"
    and "b_id b = he_bookingId hexp" and "b_status b \<in> {SeatsHeld, Pending}"
    and "hold_expired_commit hexp b db = Inr (x, db')"
  shows "\<exists>f. moves f db db'"
proof -
  let ?i = "he_bookingId hexp" and ?v = "b_version b + 1"
  let ?db1 = "db\<lparr>bk_bookings := map (id \<circ> bump (b_id b) Expired ?v) (bk_bookings db)\<rparr>"
  from assms(6) have "saga_update ?i HOLD_SEATS Step_COMPENSATED (Some ''Hold duration expired'') ?db1 = Inr (x, db')"
    unfolding hold_expired_commit_def Let_def updateStatus_bump by (simp add: assms(4))
  moreover have "moves (id \<circ> bump (b_id b) Expired ?v) db ?db1"
    by (rule bump_moves [OF assms(1-3)]) (use assms(5) in auto)
  ultimately show ?thesis using moves_then_log by blast
qed

lemma booking_create_Inr:
  "booking_create b db = Inr (x, db') \<longleftrightarrow> b_id b \<notin> b_id ` set (bk_bookings db) \<and>
    b_pnr b \<notin> b_pnr ` set (bk_bookings db) \<and> db' = db\<lparr>bk_bookings := bk_bookings db @ [b]\<rparr>"
  by (auto simp: booking_create_def bindE_eq_Inr_iff create_row_Inr_iff)

lemma booking_createSeats_Inr:
  "booking_createSeats ss db = Inr (x, db') \<longleftrightarrow>
    list_all (\<lambda>s. booking_exists db (bt_bookingId s)) ss \<and> db' = db\<lparr>bk_seats := bk_seats db @ ss\<rparr>"
  by (auto simp: booking_createSeats_def)

lemma booking_createPassengers_Inr:
  "booking_createPassengers ps db = Inr (x, db') \<longleftrightarrow>
    list_all (\<lambda>p. booking_exists db (bp_bookingId p)) ps \<and> db' = db\<lparr>bk_passengers := bk_passengers db @ ps\<rparr>"
  by (auto simp: booking_createPassengers_def)

lemma saga_create_Inr:
  "saga_create i stp st db = Inr (x, db') \<longleftrightarrow> booking_exists db i \<and> (i, stp) \<notin> set (saga_keys db) \<and>
    db' = db\<lparr>bk_sagas := bk_sagas db @ [\<lparr>sg_bookingId = i, sg_step = stp, sg_status = st, sg_error = None\<rparr>]\<rparr>"
  by (auto simp: saga_create_def bindE_eq_Inr_iff create_row_Inr_iff saga_keys_def)

lemma createIdempotencyKey_Inr:
  "createIdempotencyKey k db = Inr (x, db') \<longleftrightarrow> ik_idempotencyKey k \<notin> ik_idempotencyKey ` set (bk_keys db) \<and>
    db' = db\<lparr>bk_keys := bk_keys db @ [k]\<rparr>"
  by (auto simp: createIdempotencyKey_def bindE_eq_Inr_iff create_row_Inr_iff)

lemmas create_Inr = booking_create_Inr booking_createSeats_Inr booking_createPassengers_Inr saga_create_Inr
  createIdempotencyKey_Inr

section \<open>A created booking\<close>

definition new_booking :: "(nat \<Rightarrow> ident) \<Rightarrow> 8 word list \<Rightarrow> ident \<Rightarrow> CreateBookingDto \<Rightarrow> Booking" where
  "new_booking u bytes userId dto = \<lparr>b_id = u 0, b_pnr = generatePnr bytes, b_userId = userId,
     b_scheduleId = cd_scheduleId dto, b_fromStationId = cd_fromStationId dto, b_toStationId = cd_toStationId dto,
     b_status = Pending, b_totalPrice = 0, b_paymentOrderId = None, b_version = 1, b_failureReason = None,
     b_lockExpiresAt = None\<rparr>"

definition created_event :: "(nat \<Rightarrow> ident) \<Rightarrow> 8 word list \<Rightarrow> ident \<Rightarrow> BookingStatusChangedV1" where
  "created_event u bytes userId = \<lparr>bs_eventId = u 1, bs_bookingId = u 0, bs_pnr = generatePnr bytes,
     bs_userId = userId, bs_previousStatus = None, bs_currentStatus = Pending, bs_version = 1\<rparr>"

definition hold_request :: "booking_env \<Rightarrow> (nat \<Rightarrow> ident) \<Rightarrow> ident \<Rightarrow> CreateBookingDto \<Rightarrow> ident list \<Rightarrow> HoldSeatsRequestedV1" where
  "hold_request env u userId dto ids = \<lparr>hr_eventId = u 2, hr_bookingId = u 0, hr_scheduleId = cd_scheduleId dto,
     hr_userId = userId, hr_seatInventoryIds = ids, hr_fromStaionId = cd_fromStationId dto,
     hr_toStationId = cd_toStationId dto,
     hr_fromSequence = (case cd_fromSequence dto of Some n \<Rightarrow> n | None \<Rightarrow> 0),
     hr_toSequence = (case cd_toSequence dto of Some n \<Rightarrow> n | None \<Rightarrow> 2147483647),
     hr_holdTtlMs = be_SEAT_HOLD_TTL_MS env\<rparr>"

definition created_response :: "(nat \<Rightarrow> ident) \<Rightarrow> 8 word list \<Rightarrow> CreateBookingResponse" where
  "created_response u bytes = \<lparr>cr_id = u 0, cr_pnr = generatePnr bytes, cr_status = Pending\<rparr>"

definition saga_row :: "ident \<Rightarrow> SagaStep \<Rightarrow> SagaLog" where
  "saga_row i stp = \<lparr>sg_bookingId = i, sg_step = stp, sg_status = Step_PENDING, sg_error = None\<rparr>"

definition created_db :: "booking_env \<Rightarrow> time \<Rightarrow> (nat \<Rightarrow> ident) \<Rightarrow> 8 word list \<Rightarrow> ident \<Rightarrow> CreateBookingDto \<Rightarrow> ident list \<Rightarrow>
    booking_db \<Rightarrow> booking_db" where
  "created_db env now u bytes userId dto ids db =
     (booking_emit env now (u 0) ''HoldSeatsRequestedV1'' ''booking.hold-seats-requested.v1''
        (HoldSeatsRequested (hold_request env u userId dto ids))
        (emit_status env now (created_event u bytes userId) db))
     \<lparr>bk_bookings := bk_bookings db @ [new_booking u bytes userId dto],
      bk_seats := bk_seats db @ map (\<lambda>s. \<lparr>bt_bookingId = u 0, bt_seatInventoryId = None, bt_seatId = s,
        bt_coachNumber = None, bt_seatNumber = None, bt_seatType = None, bt_price = None\<rparr>) (cd_seatIds dto),
      bk_passengers := bk_passengers db @ map (\<lambda>p. \<lparr>bp_bookingId = u 0, bp_fullName = pd_fullName p,
        bp_age = pd_age p, bp_gender = pd_gender p, bp_berthPreference = pd_berthPreference p\<rparr>) (cd_passengers dto),
      bk_sagas := bk_sagas db @ map (saga_row (u 0)) [HOLD_SEATS, CREATE_PAYMENT, CONFIRM_SEATS],
      bk_keys := bk_keys db @ [\<lparr>ik_idempotencyKey = cd_idempotencyKey dto, ik_bookingId = u 0,
        ik_responseBody = created_response u bytes\<rparr>]\<rparr>"

lemma findIdempotencyKey_None:
  "findIdempotencyKey k db = None \<longleftrightarrow> k \<notin> ik_idempotencyKey ` set (bk_keys db)"
  by (auto simp: findIdempotencyKey_def find_row_None_iff)

lemma create_tx_existing:
  "findIdempotencyKey (cd_idempotencyKey dto) db = Some k \<Longrightarrow>
    create_tx env now u bytes userId dto ids db = Inr (ik_responseBody k, db)"
  by (simp add: create_tx_def)

lemma booking_exists_new [simp]:
  "booking_exists (db\<lparr>bk_bookings := bs @ [b]\<rparr>) (b_id b)"
  "booking_exists (db\<lparr>bk_seats := x\<rparr>) = booking_exists db"
  "booking_exists (db\<lparr>bk_passengers := y\<rparr>) = booking_exists db"
  "booking_exists (db\<lparr>bk_sagas := z\<rparr>) = booking_exists db"
  by (simp_all add: booking_exists_def fun_eq_iff)

lemma emit_commute [simp]:
  "emit_status env now e (db\<lparr>bk_bookings := a\<rparr>) = (emit_status env now e db)\<lparr>bk_bookings := a\<rparr>"
  "emit_status env now e (db\<lparr>bk_seats := b\<rparr>) = (emit_status env now e db)\<lparr>bk_seats := b\<rparr>"
  "emit_status env now e (db\<lparr>bk_passengers := c\<rparr>) = (emit_status env now e db)\<lparr>bk_passengers := c\<rparr>"
  "booking_emit env now i t p ev (db\<lparr>bk_bookings := a\<rparr>) = (booking_emit env now i t p ev db)\<lparr>bk_bookings := a\<rparr>"
  "booking_emit env now i t p ev (db\<lparr>bk_seats := b\<rparr>) = (booking_emit env now i t p ev db)\<lparr>bk_seats := b\<rparr>"
  "booking_emit env now i t p ev (db\<lparr>bk_passengers := c\<rparr>) = (booking_emit env now i t p ev db)\<lparr>bk_passengers := c\<rparr>"
  "booking_emit env now i t p ev (db\<lparr>bk_sagas := d\<rparr>) = (booking_emit env now i t p ev db)\<lparr>bk_sagas := d\<rparr>"
  by (simp_all add: booking_emit_def emit_status_def)

lemma saga_step_free: "i \<notin> fst ` set ks \<longleftrightarrow>
    (i, HOLD_SEATS) \<notin> set ks \<and> (i, CREATE_PAYMENT) \<notin> set ks \<and> (i, CONFIRM_SEATS) \<notin> set ks"
proof
  assume r: "(i, HOLD_SEATS) \<notin> set ks \<and> (i, CREATE_PAYMENT) \<notin> set ks \<and> (i, CONFIRM_SEATS) \<notin> set ks"
  show "i \<notin> fst ` set ks"
  proof
    assume "i \<in> fst ` set ks"
    then obtain stp where "(i, stp) \<in> set ks" by force
    with r show False by (cases stp) auto
  qed
next
  assume "i \<notin> fst ` set ks"
  then show "(i, HOLD_SEATS) \<notin> set ks \<and> (i, CREATE_PAYMENT) \<notin> set ks \<and> (i, CONFIRM_SEATS) \<notin> set ks" by force
qed

lemma saga_keys_add [simp]: "saga_keys (db\<lparr>bk_sagas := bk_sagas x @ gs\<rparr>) = saga_keys x @ map (\<lambda>g. (sg_bookingId g, sg_step g)) gs"
  "saga_keys (db\<lparr>bk_seats := a\<rparr>) = saga_keys db" "saga_keys (db\<lparr>bk_passengers := b\<rparr>) = saga_keys db"
  "saga_keys (db\<lparr>bk_keys := c\<rparr>) = saga_keys db"
  by (simp_all add: saga_keys_def)

lemma booking_events_add [simp]: "booking_events (db\<lparr>bk_keys := c\<rparr>) = booking_events db"
  "booking_events (db\<lparr>bk_seats := a\<rparr>) = booking_events db" "booking_events (db\<lparr>bk_passengers := b\<rparr>) = booking_events db"
  by (simp_all add: booking_events_def)

lemma create_tx_new:
  assumes "findIdempotencyKey (cd_idempotencyKey dto) db = None"
  shows "create_tx env now u bytes userId dto ids db = Inr (r, db') \<longleftrightarrow>
    u 0 \<notin> b_id ` set (bk_bookings db) \<and> generatePnr bytes \<notin> b_pnr ` set (bk_bookings db) \<and>
    u 0 \<notin> fst ` set (saga_keys db) \<and>
    r = created_response u bytes \<and> db' = created_db env now u bytes userId dto ids db"
proof -
  have k: "cd_idempotencyKey dto \<notin> ik_idempotencyKey ` set (bk_keys db)"
    using assms by (simp add: findIdempotencyKey_None)
  let ?b = "new_booking u bytes userId dto"
  have ex: "booking_exists (db\<lparr>bk_bookings := bk_bookings db @ [?b]\<rparr>) (u 0)"
    using booking_exists_new(1) [where bs = "bk_bookings db" and b = ?b and db = db] by (simp add: new_booking_def)
  have bk: "b_id ?b = u 0" "b_pnr ?b = generatePnr bytes" by (simp_all add: new_booking_def)
  show ?thesis
    unfolding create_tx_def assms option.case Let_def new_booking_def [symmetric] created_event_def [symmetric]
      created_response_def [symmetric] hold_request_def [symmetric] bindE_eq_Inr_iff create_Inr
    using k ex
    by (simp add: bk saga_step_free list_all_iff bindE_eq_Inr_iff create_Inr created_db_def saga_row_def)
      auto
qed

lemma created_tables:
  "bk_bookings (created_db env now u bytes userId dto ids db) = bk_bookings db @ [new_booking u bytes userId dto]"
  "saga_keys (created_db env now u bytes userId dto ids db) =
     saga_keys db @ [(u 0, HOLD_SEATS), (u 0, CREATE_PAYMENT), (u 0, CONFIRM_SEATS)]"
  "booking_events (created_db env now u bytes userId dto ids db) = booking_events db @ [created_event u bytes userId]"
  "outbox_payloads (bk_outbox (created_db env now u bytes userId dto ids db)) = outbox_payloads (bk_outbox db) @
     [EvBookingStatusChanged (created_event u bytes userId), HoldSeatsRequested (hold_request env u userId dto ids)]"
  "bk_keys (created_db env now u bytes userId dto ids db) = bk_keys db @ [\<lparr>ik_idempotencyKey = cd_idempotencyKey dto,
     ik_bookingId = u 0, ik_responseBody = created_response u bytes\<rparr>]"
  by (simp_all add: created_db_def saga_keys_def saga_row_def booking_events_def emit_status_def booking_emit_def)

lemma new_booking_fields [simp]:
  "b_id (new_booking u bytes userId dto) = u 0" "b_pnr (new_booking u bytes userId dto) = generatePnr bytes"
  "b_userId (new_booking u bytes userId dto) = userId" "b_status (new_booking u bytes userId dto) = Pending"
  "b_version (new_booking u bytes userId dto) = 1"
  by (simp_all add: new_booking_def)

lemma created_adds:
  assumes "u 0 \<notin> b_id ` set (bk_bookings db)" and "generatePnr bytes \<notin> b_pnr ` set (bk_bookings db)"
    and "findIdempotencyKey (cd_idempotencyKey dto) db = None"
  shows "adds (new_booking u bytes userId dto) db (created_db env now u bytes userId dto ids db)"
  unfolding adds_def created_tables using assms
  by (simp add: created_event_def created_response_def findIdempotencyKey_None)

lemma create_effect:
  assumes "create_tx env now u bytes userId dto ids db = Inr (r, db')"
  shows "db' = db \<or> adds (new_booking u bytes userId dto) db db'"
proof (cases "findIdempotencyKey (cd_idempotencyKey dto) db")
  case None
  from assms [unfolded create_tx_new [OF None]] created_adds None show ?thesis by blast
next
  case (Some k)
  with assms show ?thesis by (simp add: create_tx_existing)
qed

section \<open>The effect of a step\<close>

inductive_cases booking_stepE: "booking_step s s'"

lemma moves_id [simp]: "moves id db db" by (simp add: moves_def)

lemma booking_effect:
  assumes "booking_step s s'" and "reads_ok s" and "ids_distinct s"
  obtains (read) b where "b \<in> set (bk_bookings (fst s))" and "s' = (fst s, b # snd s)"
    | (add) b where "adds b (fst s) (fst s')" and "snd s' = snd s"
    | (move) f where "moves f (fst s) (fst s')" and "snd s' = snd s"
  using assms(1)
proof cases
  case (reads b db rs)
  then show thesis using read by simp
next
  case (creates env now u bytes userId dto ids db r db' rs)
  from create_effect [OF creates(3)] show thesis
  proof
    assume "db' = db"
    then show thesis using move [of id] creates by simp
  qed (use add creates in auto)
next
  case (transitions b rs args env now eventId db db')
  then have "moves (bump (b_id b) (ta_target args) (b_version b + 1) \<circ> with_updates args) db db'"
    using transition_moves assms(2,3) by blast
  then show thesis using move transitions by simp
next
  case (holds b rs held db db')
  then show thesis using held_moves [of db rs b held] assms(2,3) move by auto
next
  case (hold_fails b rs hfail db db')
  then show thesis using hold_failed_moves [of db rs b hfail] assms(2,3) move by auto
next
  case (hold_expires b rs hexp db db')
  then show thesis using hold_expired_moves [of db rs b hexp] assms(2,3) move by auto
next
  case (logs i stp st err db db' rs)
  then show thesis using moves_logs [of i stp st err db "()" db'] move [of id] by simp
qed

section \<open>Invariants\<close>

definition versions_ok :: "booking_sys \<Rightarrow> bool" where
  "versions_ok s \<longleftrightarrow> (\<forall>r \<in> set (bk_bookings (fst s)). 1 \<le> b_version r \<and> b_version r \<le> booking_rank (b_status r) + 1)"

definition event_ok :: "booking_db \<Rightarrow> BookingStatusChangedV1 \<Rightarrow> bool" where
  "event_ok db e \<longleftrightarrow> (\<exists>r \<in> set (bk_bookings db). b_id r = bs_bookingId e \<and> b_pnr r = bs_pnr e \<and>
     b_userId r = bs_userId e \<and> bs_version e \<le> b_version r \<and>
     (bs_version e = b_version r \<longrightarrow> bs_currentStatus e = b_status r)) \<and>
     (case bs_previousStatus e of None \<Rightarrow> bs_currentStatus e = Pending \<and> bs_version e = 1
      | Some p \<Rightarrow> legal p (bs_currentStatus e) \<and> 1 < bs_version e)"

definition events_ok :: "booking_sys \<Rightarrow> bool" where
  "events_ok s \<longleftrightarrow> (\<forall>e \<in> set (booking_events (fst s)). event_ok (fst s) e) \<and>
     distinct (map (\<lambda>e. (bs_bookingId e, bs_version e)) (booking_events (fst s)))"

definition keys_ok :: "booking_sys \<Rightarrow> bool" where
  "keys_ok s \<longleftrightarrow> distinct (map ik_idempotencyKey (bk_keys (fst s))) \<and>
     (\<forall>k \<in> set (bk_keys (fst s)). \<exists>r \<in> set (bk_bookings (fst s)). b_id r = ik_bookingId k \<and>
        ik_responseBody k = \<lparr>cr_id = b_id r, cr_pnr = b_pnr r, cr_status = Pending\<rparr>)"

definition sagas_ok :: "booking_sys \<Rightarrow> bool" where
  "sagas_ok s \<longleftrightarrow> distinct (saga_keys (fst s)) \<and>
     fst ` set (saga_keys (fst s)) \<subseteq> b_id ` set (bk_bookings (fst s)) \<and>
     (\<forall>r \<in> set (bk_bookings (fst s)). \<forall>stp. (b_id r, stp) \<in> set (saga_keys (fst s)))"

definition booking_ok :: "booking_sys \<Rightarrow> bool" where
  "booking_ok s \<longleftrightarrow> ids_distinct s \<and> reads_ok s \<and> versions_ok s \<and> events_ok s \<and> keys_ok s \<and> sagas_ok s"

lemma booking_ok_empty: "booking_ok (empty_booking_db, [])"
  by (simp add: booking_ok_def ids_distinct_def reads_ok_def versions_ok_def events_ok_def keys_ok_def
      sagas_ok_def empty_booking_db_def booking_events_def saga_keys_def)

lemma moves_row:
  assumes "moves f db db'" and "r \<in> set (bk_bookings db)"
  shows "f r \<in> set (bk_bookings db')" and "row_evolves r (f r)"
  using assms by (auto simp: moves_def)

lemma row_evolves_facts:
  assumes "row_evolves r r'"
  shows "b_id r' = b_id r" "b_pnr r' = b_pnr r" "b_userId r' = b_userId r"
    "b_version r \<le> b_version r'" "b_version r' = b_version r \<Longrightarrow> b_status r' = b_status r"
    "same_booking r r'"
  using assms by (auto simp: row_evolves_def same_booking_def)

lemma moves_keys:
  assumes "moves f db db'"
  shows "map b_id (bk_bookings db') = map b_id (bk_bookings db)" "map b_pnr (bk_bookings db') = map b_pnr (bk_bookings db)"
  using assms row_evolves_facts(1,2) by (auto simp: moves_def)

lemma adds_bookings: "adds b db db' \<Longrightarrow> set (bk_bookings db') = insert b (set (bk_bookings db))"
  by (simp add: adds_def)

lemma booking_step_ids:
  assumes "booking_step s s'" and "reads_ok s" and "ids_distinct s"
  shows "ids_distinct s'"
  using assms
proof (cases rule: booking_effect)
  case (add b)
  then show ?thesis using assms(3) by (auto simp: ids_distinct_def adds_def)
next
  case (move f)
  then show ?thesis using assms(3) moves_keys unfolding ids_distinct_def by metis
qed (use assms(3) in \<open>simp add: ids_distinct_def\<close>)

lemma booking_step_reads:
  assumes "booking_step s s'" and "reads_ok s" and "ids_distinct s"
  shows "reads_ok s'"
  using assms
proof (cases rule: booking_effect)
  case (read b)
  then show ?thesis using assms(2) by (auto simp: reads_ok_def intro: bexI [of _ b])
next
  case (add b)
  show ?thesis using assms(2) by (auto simp: reads_ok_def adds_bookings [OF add(1)] add(2))
next
  case (move f)
  show ?thesis unfolding reads_ok_def move(2)
  proof
    fix b assume "b \<in> set (snd s)"
    then obtain r where r: "r \<in> set (bk_bookings (fst s))" "same_booking r b" "b_version b \<le> b_version r"
      "b_version b = b_version r \<longrightarrow> b_status b = b_status r" using assms(2) by (auto simp: reads_ok_def)
    note e = row_evolves_facts [OF moves_row(2) [OF move(1) r(1)]]
    show "\<exists>r \<in> set (bk_bookings (fst s')). same_booking r b \<and> b_version b \<le> b_version r \<and>
        (b_version b = b_version r \<longrightarrow> b_status b = b_status r)"
      using r(2-4) e by (intro bexI [OF _ moves_row(1) [OF move(1) r(1)]]) (auto simp: same_booking_def)
  qed
qed

lemma booking_step_versions:
  assumes "booking_step s s'" and "reads_ok s" and "ids_distinct s" and "versions_ok s"
  shows "versions_ok s'"
  using assms(1-3)
proof (cases rule: booking_effect)
  case (add b)
  then have "b_status b = Pending" "b_version b = 1" by (simp_all add: adds_def)
  then show ?thesis using assms(4) by (simp add: versions_ok_def adds_bookings [OF add(1)])
next
  case (move f)
  have "1 \<le> b_version (f r) \<and> b_version (f r) \<le> booking_rank (b_status (f r)) + 1"
    if r: "r \<in> set (bk_bookings (fst s))" for r
  proof -
    have v: "1 \<le> b_version r" "b_version r \<le> booking_rank (b_status r) + 1"
      using assms(4) r by (auto simp: versions_ok_def)
    from moves_row(2) [OF move(1) r]
    have "b_version (f r) = b_version r \<and> b_status (f r) = b_status r \<or>
        b_version (f r) = b_version r + 1 \<and> booking_rank (b_status r) < booking_rank (b_status (f r))"
      unfolding row_evolves_def using legal_rank by blast
    then show ?thesis using v by (elim disjE conjE) simp_all
  qed
  then show ?thesis using move(1) by (auto simp: versions_ok_def moves_def)
qed (use assms(4) in \<open>simp add: versions_ok_def\<close>)

lemma booking_step_keys:
  assumes "booking_step s s'" and "reads_ok s" and "ids_distinct s" and "keys_ok s"
  shows "keys_ok s'"
  using assms(1-3)
proof (cases rule: booking_effect)
  case (add b)
  then obtain k where k: "bk_keys (fst s') = bk_keys (fst s) @ [k]"
    "ik_idempotencyKey k \<notin> ik_idempotencyKey ` set (bk_keys (fst s))"
    "ik_bookingId k = b_id b" "ik_responseBody k = \<lparr>cr_id = b_id b, cr_pnr = b_pnr b, cr_status = Pending\<rparr>"
    by (auto simp: adds_def)
  have old: "distinct (map ik_idempotencyKey (bk_keys (fst s)))"
    "\<forall>k \<in> set (bk_keys (fst s)). \<exists>r \<in> set (bk_bookings (fst s)). b_id r = ik_bookingId k \<and>
        ik_responseBody k = \<lparr>cr_id = b_id r, cr_pnr = b_pnr r, cr_status = Pending\<rparr>"
    using assms(4) by (simp_all add: keys_ok_def)
  show ?thesis unfolding keys_ok_def adds_bookings [OF add(1)] k(1)
    using old k(2-4) by auto
next
  case (move f)
  have k: "bk_keys (fst s') = bk_keys (fst s)" using move(1) by (simp add: moves_def)
  show ?thesis unfolding keys_ok_def k
  proof (intro conjI ballI)
    show "distinct (map ik_idempotencyKey (bk_keys (fst s)))" using assms(4) by (simp add: keys_ok_def)
    fix k assume "k \<in> set (bk_keys (fst s))"
    then obtain r where r: "r \<in> set (bk_bookings (fst s))" "b_id r = ik_bookingId k"
      "ik_responseBody k = \<lparr>cr_id = b_id r, cr_pnr = b_pnr r, cr_status = Pending\<rparr>"
      using assms(4) by (auto simp: keys_ok_def)
    show "\<exists>r \<in> set (bk_bookings (fst s')). b_id r = ik_bookingId k \<and>
        ik_responseBody k = \<lparr>cr_id = b_id r, cr_pnr = b_pnr r, cr_status = Pending\<rparr>"
      using row_evolves_facts(1,2) [OF moves_row(2) [OF move(1) r(1)]] r(2,3)
      by (intro bexI [OF _ moves_row(1) [OF move(1) r(1)]]) simp
  qed
qed (use assms(4) in \<open>simp add: keys_ok_def\<close>)

lemma booking_step_sagas:
  assumes "booking_step s s'" and "reads_ok s" and "ids_distinct s" and "sagas_ok s"
  shows "sagas_ok s'"
  using assms(1-3)
proof (cases rule: booking_effect)
  case (add b)
  have keys: "saga_keys (fst s') = saga_keys (fst s) @ [(b_id b, HOLD_SEATS), (b_id b, CREATE_PAYMENT), (b_id b, CONFIRM_SEATS)]"
    and new: "b_id b \<notin> b_id ` set (bk_bookings (fst s))" using add(1) by (simp_all add: adds_def)
  let ?new = "[(b_id b, HOLD_SEATS), (b_id b, CREATE_PAYMENT), (b_id b, CONFIRM_SEATS)]"
  have all: "(b_id b, stp) \<in> set ?new" for stp by (cases stp) simp_all
  have "fst ` set ?new \<inter> fst ` set (saga_keys (fst s)) = {}" using assms(4) new by (auto simp: sagas_ok_def)
  then have dis: "set (saga_keys (fst s)) \<inter> set ?new = {}" by fastforce
  have old: "distinct (saga_keys (fst s))" "fst ` set (saga_keys (fst s)) \<subseteq> b_id ` set (bk_bookings (fst s))"
    "\<And>r stp. r \<in> set (bk_bookings (fst s)) \<Longrightarrow> (b_id r, stp) \<in> set (saga_keys (fst s))"
    using assms(4) by (simp_all add: sagas_ok_def)
  show ?thesis unfolding sagas_ok_def keys adds_bookings [OF add(1)]
  proof (intro conjI)
    show "distinct (saga_keys (fst s) @ ?new)" using old(1) dis by (simp only: distinct_append) simp
    show "fst ` set (saga_keys (fst s) @ ?new) \<subseteq> b_id ` insert b (set (bk_bookings (fst s)))" using old(2) by auto
    show "\<forall>r \<in> insert b (set (bk_bookings (fst s))). \<forall>stp. (b_id r, stp) \<in> set (saga_keys (fst s) @ ?new)"
      using old(3) all by (simp only: set_append Un_iff) blast
  qed
next
  case (move f)
  have k: "saga_keys (fst s') = saga_keys (fst s)" using move(1) by (simp add: moves_def)
  have i: "b_id ` set (bk_bookings (fst s')) = b_id ` set (bk_bookings (fst s))"
    using arg_cong [OF moves_keys(1) [OF move(1)], of set] by simp
  have c: "(\<forall>r \<in> set (bk_bookings db). \<forall>stp. (b_id r, stp) \<in> X) \<longleftrightarrow>
      (\<forall>i \<in> b_id ` set (bk_bookings db). \<forall>stp. (i, stp) \<in> X)" for db X by simp
  show ?thesis using assms(4) unfolding sagas_ok_def c k i .
qed (use assms(4) in \<open>simp add: sagas_ok_def\<close>)

lemma event_ok_row:
  assumes "event_ok db e" and "\<And>r. r \<in> set (bk_bookings db) \<Longrightarrow> \<exists>r' \<in> set (bk_bookings db'). row_evolves r r'"
  shows "event_ok db' e"
proof -
  from assms(1) obtain r where r: "r \<in> set (bk_bookings db)" "b_id r = bs_bookingId e" "b_pnr r = bs_pnr e"
    "b_userId r = bs_userId e" "bs_version e \<le> b_version r" "bs_version e = b_version r \<longrightarrow> bs_currentStatus e = b_status r"
    by (auto simp: event_ok_def)
  obtain r' where r': "r' \<in> set (bk_bookings db')" "row_evolves r r'" using assms(2) r(1) by blast
  have "b_id r' = bs_bookingId e \<and> b_pnr r' = bs_pnr e \<and> b_userId r' = bs_userId e \<and> bs_version e \<le> b_version r' \<and>
     (bs_version e = b_version r' \<longrightarrow> bs_currentStatus e = b_status r')"
    using r(2-6) row_evolves_facts [OF r'(2)] by force
  then show ?thesis using assms(1) r'(1) unfolding event_ok_def by blast
qed

lemma describes_event_ok:
  assumes "describes e r r'" and "row_evolves r r'" and "1 \<le> b_version r" and "r' \<in> set (bk_bookings db')"
  shows "event_ok db' e"
proof -
  from assms(1,2) have "legal (b_status r) (b_status r')" by (auto simp: describes_def row_evolves_def)
  then show ?thesis using assms row_evolves_facts [OF assms(2)] unfolding event_ok_def describes_def
    by (auto intro!: bexI [of _ r'])
qed

lemma new_event_distinct:
  assumes "\<forall>e \<in> set es. event_ok db e" and "distinct (map (\<lambda>e. (bs_bookingId e, bs_version e)) es)"
    and "\<And>r. r \<in> set (bk_bookings db) \<Longrightarrow> b_id r = bs_bookingId e \<Longrightarrow> b_version r < bs_version e"
  shows "distinct (map (\<lambda>e. (bs_bookingId e, bs_version e)) (es @ [e]))"
proof -
  have "bs_version x < bs_version e" if x: "x \<in> set es" "bs_bookingId x = bs_bookingId e" for x
  proof -
    have "event_ok db x" using assms(1) x(1) by blast
    then obtain r where "r \<in> set (bk_bookings db)" "b_id r = bs_bookingId x" "bs_version x \<le> b_version r"
      unfolding event_ok_def by blast
    then show ?thesis using assms(3) x(2) by fastforce
  qed
  then have "(bs_bookingId e, bs_version e) \<notin> (\<lambda>e. (bs_bookingId e, bs_version e)) ` set es" by force
  then show ?thesis using assms(2) by simp
qed

lemma booking_step_events:
  assumes "booking_step s s'" and "reads_ok s" and "ids_distinct s" and "versions_ok s" and "events_ok s"
  shows "events_ok s'"
  using assms(1-3)
proof (cases rule: booking_effect)
  case (read b)
  then show ?thesis using assms(5) by (simp add: events_ok_def)
next
  case (add b)
  then obtain e where e: "booking_events (fst s') = booking_events (fst s) @ [e]" "bs_bookingId e = b_id b"
    "bs_pnr e = b_pnr b" "bs_userId e = b_userId b" "bs_previousStatus e = None" "bs_currentStatus e = Pending"
    "bs_version e = 1" and b: "b_status b = Pending" "b_version b = 1" "b_id b \<notin> b_id ` set (bk_bookings (fst s))"
    by (auto simp: adds_def)
  have rows: "\<exists>r' \<in> set (bk_bookings (fst s')). row_evolves r r'" if "r \<in> set (bk_bookings (fst s))" for r
    using that row_evolves_refl adds_bookings [OF add(1)] by blast
  have "event_ok (fst s') e" using e b adds_bookings [OF add(1)] by (auto simp: event_ok_def)
  moreover have "distinct (map (\<lambda>e. (bs_bookingId e, bs_version e)) (booking_events (fst s) @ [e]))"
  proof (rule new_event_distinct [of _ "fst s"])
    fix r assume "r \<in> set (bk_bookings (fst s))" "b_id r = bs_bookingId e"
    then show "b_version r < bs_version e" using b(3) e(2) by (metis imageI)
  qed (use assms(5) in \<open>simp_all add: events_ok_def\<close>)
  ultimately show ?thesis using event_ok_row [OF _ rows] assms(5) unfolding events_ok_def e(1) by auto
next
  case (move f)
  have rows: "\<exists>r' \<in> set (bk_bookings (fst s')). row_evolves r r'" if "r \<in> set (bk_bookings (fst s))" for r
    using moves_row [OF move(1) that] by blast
  have old: "\<forall>e \<in> set (booking_events (fst s)). event_ok (fst s') e"
    using event_ok_row [OF _ rows] assms(5) unfolding events_ok_def by blast
  from move(1) have "booking_events (fst s') = booking_events (fst s) \<or>
      (\<exists>r \<in> set (bk_bookings (fst s)). \<exists>e. describes e r (f r) \<and> booking_events (fst s') = booking_events (fst s) @ [e])"
    by (simp add: moves_def)
  then show ?thesis
  proof
    assume "booking_events (fst s') = booking_events (fst s)"
    then show ?thesis using old assms(5) by (simp add: events_ok_def)
  next
    assume "\<exists>r \<in> set (bk_bookings (fst s)). \<exists>e. describes e r (f r) \<and> booking_events (fst s') = booking_events (fst s) @ [e]"
    then obtain r e where r: "r \<in> set (bk_bookings (fst s))" and e: "describes e r (f r)"
      "booking_events (fst s') = booking_events (fst s) @ [e]" by blast
    have "1 \<le> b_version r" using assms(4) r by (simp add: versions_ok_def)
    then have "event_ok (fst s') e"
      using describes_event_ok [OF e(1) moves_row(2) [OF move(1) r] _ moves_row(1) [OF move(1) r]] by blast
    moreover have "distinct (map (\<lambda>e. (bs_bookingId e, bs_version e)) (booking_events (fst s) @ [e]))"
    proof (rule new_event_distinct [of _ "fst s"])
      fix x assume x: "x \<in> set (bk_bookings (fst s))" "b_id x = bs_bookingId e"
      then have "x = r" using assms(3) r e(1) by (auto simp: ids_distinct_def distinct_map describes_def dest: inj_onD)
      then show "b_version x < bs_version e" using e(1) by (simp add: describes_def)
    qed (use assms(5) in \<open>simp_all add: events_ok_def\<close>)
    ultimately show ?thesis using old unfolding events_ok_def e(2) by auto
  qed
qed

lemma booking_step_ok: "booking_step s s' \<Longrightarrow> booking_ok s \<Longrightarrow> booking_ok s'"
  unfolding booking_ok_def
  using booking_step_ids booking_step_reads booking_step_versions booking_step_events booking_step_keys
    booking_step_sagas by blast

interpretation bookings: stepper booking_step booking_ok
  by unfold_locales (fact booking_step_ok)

section \<open>What a booking can become\<close>

text \<open>The version counts the status changes since the creation.\<close>

definition row_later :: "Booking \<Rightarrow> Booking \<Rightarrow> bool" where
  "row_later r r' \<longleftrightarrow> same_booking r r' \<and>
     (\<exists>n. b_version r' = b_version r + int n \<and> (legal ^^ n) (b_status r) (b_status r'))"

definition bookings_later :: "booking_sys \<Rightarrow> booking_sys \<Rightarrow> bool" where
  "bookings_later s s' \<longleftrightarrow> (booking_ok s \<longrightarrow> booking_ok s' \<and>
     (\<forall>r \<in> set (bk_bookings (fst s)). \<exists>r' \<in> set (bk_bookings (fst s')). row_later r r') \<and>
     (\<forall>k \<in> set (bk_keys (fst s)). k \<in> set (bk_keys (fst s'))))"

lemma row_later_refl [simp]: "row_later r r"
  unfolding row_later_def by (intro conjI exI [of _ 0]) simp_all

lemma row_evolves_later: "row_evolves r r' \<Longrightarrow> row_later r r'"
  unfolding row_evolves_def row_later_def
proof (elim conjE disjE)
  assume "same_booking r r'" "b_version r' = b_version r + 1" "legal (b_status r) (b_status r')"
  then show "same_booking r r' \<and> (\<exists>n. b_version r' = b_version r + int n \<and> (legal ^^ n) (b_status r) (b_status r'))"
    by (intro conjI exI [of _ 1]) auto
qed (auto intro: exI [of _ 0])

lemma row_later_trans: "row_later r r1 \<Longrightarrow> row_later r1 r2 \<Longrightarrow> row_later r r2"
proof -
  assume "row_later r r1" "row_later r1 r2"
  then obtain m n where "same_booking r r1" "same_booking r1 r2" "b_version r1 = b_version r + int m"
    "b_version r2 = b_version r1 + int n" "(legal ^^ m) (b_status r) (b_status r1)" "(legal ^^ n) (b_status r1) (b_status r2)"
    by (auto simp: row_later_def)
  then have "same_booking r r2 \<and> b_version r2 = b_version r + int (m + n) \<and> (legal ^^ (m + n)) (b_status r) (b_status r2)"
    using relpowp_trans [of m legal "b_status r" "b_status r1" n "b_status r2"] by (simp add: same_booking_def)
  then show ?thesis unfolding row_later_def by blast
qed

lemma booking_step_later: "booking_step s s' \<Longrightarrow> bookings_later s s'"
  unfolding bookings_later_def
proof (rule impI)
  assume st: "booking_step s s'" and ok: "booking_ok s"
  then have ri: "reads_ok s" "ids_distinct s" by (simp_all add: booking_ok_def)
  have "(\<forall>r \<in> set (bk_bookings (fst s)). \<exists>r' \<in> set (bk_bookings (fst s')). row_later r r') \<and>
      set (bk_keys (fst s)) \<subseteq> set (bk_keys (fst s'))"
    using st ri
  proof (cases rule: booking_effect)
    case (add b)
    then have "set (bk_keys (fst s)) \<subseteq> set (bk_keys (fst s'))" by (auto simp: adds_def)
    moreover have "\<forall>r \<in> set (bk_bookings (fst s)). \<exists>r' \<in> set (bk_bookings (fst s')). row_later r r'"
      unfolding adds_bookings [OF add(1)] using row_later_refl by blast
    ultimately show ?thesis by blast
  next
    case (move f)
    have "\<forall>r \<in> set (bk_bookings (fst s)). \<exists>r' \<in> set (bk_bookings (fst s')). row_later r r'"
      using moves_row [OF move(1)] row_evolves_later by blast
    then show ?thesis using move(1) by (simp add: moves_def)
  qed (metis fst_conv row_later_refl order_refl)
  then show "booking_ok s' \<and> (\<forall>r \<in> set (bk_bookings (fst s)). \<exists>r' \<in> set (bk_bookings (fst s')). row_later r r') \<and>
      (\<forall>k \<in> set (bk_keys (fst s)). k \<in> set (bk_keys (fst s')))"
    using booking_step_ok [OF st ok] by blast
qed

lemma bookings_later_trans:
  assumes "bookings_later s t" and "bookings_later t u"
  shows "bookings_later s u"
  unfolding bookings_later_def
proof (intro impI conjI ballI)
  assume ok: "booking_ok s"
  note 1 = assms(1) [unfolded bookings_later_def, rule_format, OF ok]
  note 2 = assms(2) [unfolded bookings_later_def, rule_format, OF conjunct1 [OF 1]]
  show "booking_ok u" using 2 by blast
  show "\<exists>r' \<in> set (bk_bookings (fst u)). row_later r r'" if "r \<in> set (bk_bookings (fst s))" for r
    using 1 2 that row_later_trans by blast
  show "k \<in> set (bk_keys (fst u))" if "k \<in> set (bk_keys (fst s))" for k using 1 2 that by blast
qed

interpretation booking_rows: monotone_stepper booking_step bookings_later
proof
  show "bookings_later s t" if "booking_step s t" for s t using that by (rule booking_step_later)
  show "bookings_later s s" for s unfolding bookings_later_def using row_later_refl by blast
  show "bookings_later s u" if "bookings_later s t" "bookings_later t u" for s t u
    using that by (rule bookings_later_trans)
qed

lemma run_row_later:
  assumes "booking_step\<^sup>*\<^sup>* s s'" and "booking_ok s" and "r \<in> set (bk_bookings (fst s))"
  shows "\<exists>r' \<in> set (bk_bookings (fst s')). row_later r r'"
  using booking_rows.run_le [OF assms(1)] assms(2,3) by (auto simp: bookings_later_def)

lemma run_key_kept:
  assumes "booking_step\<^sup>*\<^sup>* s s'" and "booking_ok s" and "k \<in> set (bk_keys (fst s))"
  shows "k \<in> set (bk_keys (fst s'))"
  using booking_rows.run_le [OF assms(1)] assms(2,3) by (auto simp: bookings_later_def)

lemma legal_final:
  assumes "s \<in> {Cancelled, Expired, Failed}" and "(legal ^^ n) s t"
  shows "n = 0 \<and> t = s"
proof (cases n)
  case (Suc m)
  with assms(2) obtain x where "legal s x" by (metis relpowp_Suc_D2)
  with assms(1) show ?thesis by auto
qed (use assms in simp)

end
