(* ===== verification/BookingProps.thy ===== *)
theory BookingProps
  imports BookingLife
begin

text \<open>
  Every handler of the booking service is a sequence of the steps of \<open>BookingLife\<close>, and what the
  service promises: the life of a booking, its events, races between transitions, the outcome of a
  creation and of its repetition, and the replies of the saga.
\<close>

section \<open>Handlers are sequences of steps\<close>

definition runs_by :: "(booking_sys \<Rightarrow> booking_sys \<Rightarrow> bool) \<Rightarrow> booking_db \<Rightarrow> booking_db \<Rightarrow> bool" where
  "runs_by stp db db' \<longleftrightarrow> (\<forall>rs. \<exists>rs'. stp\<^sup>*\<^sup>* (db, rs) (db', rs'))"

abbreviation runs :: "booking_db \<Rightarrow> booking_db \<Rightarrow> bool" where
  "runs \<equiv> runs_by booking_step"

lemmas runs_def = runs_by_def [of booking_step]

lemma runs_refl [simp, intro]: "runs_by stp db db"
  by (auto simp: runs_by_def)

lemma runs_trans: "runs_by stp db db1 \<Longrightarrow> runs_by stp db1 db2 \<Longrightarrow> runs_by stp db db2"
  unfolding runs_by_def by (meson rtranclp_trans)

lemma runs_step: "(\<And>rs. stp (db, rs) (db', rs)) \<Longrightarrow> runs_by stp db db'"
  unfolding runs_by_def by blast

lemma findById_Some: "booking_findById i db = Some b \<Longrightarrow> b \<in> set (bk_bookings db) \<and> b_id b = i"
  by (auto simp: booking_findById_def dest: find_row_Some)

lemma called_permitted: "called_args i args \<Longrightarrow> permittedStates args \<noteq> []"
  by (auto simp: called_args_def permittedStates_def paymentPending_args_def confirming_args_def
      confirmed_args_def cancelling_args_def cancelled_args_def)

lemma called_intros [simp]:
  "called_args i (paymentPending_args i p)" "called_args i (confirming_args i)" "called_args i (confirmed_args i)"
  "called_args i (cancelling_args i)" "called_args i (cancelled_args i)"
  by (auto simp: called_args_def)

text \<open>The wrapper of the event handlers runs its body at most once and changes nothing else in the
  database.\<close>

lemma once_db:
  "(fst (snd (once c links now key body s)) = fst s) \<or> fst (snd (once c links now key body s)) = snd (body (fst s))"
proof -
  obtain l1 l2 l3 db st where s: "links = (l1, l2, l3)" "s = (db, st)" by (cases links; cases s)
  show ?thesis
    by (cases "reserveIfNew c l1 now key st"; cases "body db")
      (auto simp: once_def s Let_def split: sum.splits prod.splits bool.splits)
qed

lemma snd_unit_result: "snd (case p of (Inl err, s') \<Rightarrow> (Inl err, s') | (Inr _, s') \<Rightarrow> (Inr (), s')) = snd p"
  by (simp split: prod.split sum.split)

lemma runs_then_proc:
  assumes "runs_by stp db (snd (m db))" and "\<And>x db1. m db = (Inr x, db1) \<Longrightarrow> runs_by stp db1 (snd (f x db1))"
  shows "runs_by stp db (snd (then_proc m f db))"
  using assms by (cases "m db") (auto simp: then_proc_def split: sum.splits intro: runs_trans)

text \<open>The calls of the service: what its API, its consumers and their redeliveries run, each as one
  call that nothing interrupts; an event is delivered only when \<open>seen\<close> holds of it. \<open>fst\<close> is the database, \<open>snd\<close> is Redis.\<close>

inductive delivers :: "(event \<Rightarrow> bool) \<Rightarrow> booking_db \<times> redis \<Rightarrow> booking_db \<times> redis \<Rightarrow> bool"
  for seen :: "event \<Rightarrow> bool" where
  create: "delivers seen s (snd (createBooking env cl ll ul txErr now u bytes userId dto s))"
| cancel: "delivers seen (db, st) (snd (cancelBooking env now u i userId db), st)"
| pay: "delivers seen (db, st) (snd (createPaymentOrder env cl now eventId i userId db), st)"
| held: "seen (EvSeatsHeld ev) \<Longrightarrow> delivers seen s (snd (handleSeatsHeld env c links now eventId ev s))"
| hold_failed: "seen (EvSeatsHoldFailed evf) \<Longrightarrow> delivers seen s (snd (handleSeatsHoldFailed c links now evf s))"
| hold_expired: "seen (EvSeatHoldExpired evx) \<Longrightarrow> delivers seen s (snd (handleSeatHoldExpired c links now evx s))"
| paid: "delivers seen s (snd (handlePaymentSuccess env c links now u evp s))"

abbreviation service_call :: "booking_db \<times> redis \<Rightarrow> booking_db \<times> redis \<Rightarrow> bool" where
  "service_call \<equiv> delivers (\<lambda>_. True)"

text \<open>What a step relation must offer for the handlers to run on it: the reads, the commits of the API
  calls and of the saga log, and the commits of the events that have been published.\<close>

locale booking_commits =
  fixes stp :: "booking_sys \<Rightarrow> booking_sys \<Rightarrow> bool" and seen :: "event \<Rightarrow> bool"
  assumes reads: "b \<in> set (bk_bookings db) \<Longrightarrow> stp (db, rs) (db, b # rs)"
    and creates: "create_tx env now u bytes userId dto ids db = Inr (r, db') \<Longrightarrow> stp (db, rs) (db', rs)"
    and transitions: "b \<in> set rs \<Longrightarrow> called_args (b_id b) args \<Longrightarrow> b_status b \<in> set (permittedStates args) \<Longrightarrow>
      transition_commit env now eventId args b db = Inr ((), db') \<Longrightarrow> stp (db, rs) (db', rs)"
    and logs: "saga_update i sg st err db = Inr ((), db') \<Longrightarrow> stp (db, rs) (db', rs)"
    and holds: "seen (EvSeatsHeld held) \<Longrightarrow> b \<in> set rs \<Longrightarrow> b_id b = sh_bookingId held \<Longrightarrow> b_status b = Pending \<Longrightarrow>
      held_commit held b db = Inr ((), db') \<Longrightarrow> stp (db, rs) (db', rs)"
    and hold_fails: "seen (EvSeatsHoldFailed hfail) \<Longrightarrow> b \<in> set rs \<Longrightarrow> b_id b = hf_bookingId hfail \<Longrightarrow> b_status b = Pending \<Longrightarrow>
      hold_failed_commit hfail b db = Inr ((), db') \<Longrightarrow> stp (db, rs) (db', rs)"
    and hold_expires: "seen (EvSeatHoldExpired hexp) \<Longrightarrow> b \<in> set rs \<Longrightarrow> b_id b = he_bookingId hexp \<Longrightarrow>
      b_status b \<in> {SeatsHeld, Pending} \<Longrightarrow> hold_expired_commit hexp b db = Inr ((), db') \<Longrightarrow> stp (db, rs) (db', rs)"
begin

lemma runs_read:
  assumes "b \<in> set (bk_bookings db)" and "\<And>rs. b \<in> set rs \<Longrightarrow> stp (db, rs) (db', rs)"
  shows "runs_by stp db db'"
  unfolding runs_by_def
proof
  fix rs
  have "stp (db, rs) (db, b # rs)" using assms(1) by (rule reads)
  moreover have "stp (db, b # rs) (db', b # rs)" by (rule assms(2)) simp
  ultimately show "\<exists>rs'. stp\<^sup>*\<^sup>* (db, rs) (db', rs')" by (meson converse_rtranclp_into_rtranclp r_into_rtranclp)
qed

lemma runs_transition:
  assumes "called_args i args"
  shows "runs_by stp db (snd (transition env now eventId args db))"
proof (cases "transition_tx env now eventId args db")
  case (Inl e)
  then show ?thesis by (simp add: transition_def transaction_Inl)
next
  case (Inr p)
  obtain db' where p: "p = ((), db')" by (cases p) auto
  from Inr p called_permitted [OF assms] obtain b where b: "booking_findById i db = Some b"
    "b_status b \<in> set (permittedStates args)" "transition_commit env now eventId args b db = Inr ((), db')"
    unfolding transition_tx_def called_target [OF assms] by (auto split: option.splits if_splits)
  have "runs_by stp db db'"
  proof (rule runs_read)
    show "b \<in> set (bk_bookings db)" using findById_Some [OF b(1)] by simp
    have "called_args (b_id b) args" using findById_Some [OF b(1)] assms by simp
    then show "stp (db, rs) (db', rs)" if "b \<in> set rs" for rs
      using transitions that b(2,3) by blast
  qed
  then show ?thesis using Inr p by (simp add: transition_def transaction_Inr)
qed

lemma runs_saga: "runs_by stp db (snd (transaction (saga_update i sg st err) db))"
proof (cases "saga_update i sg st err db")
  case (Inr p)
  then have "stp (db, rs) (snd p, rs)" for rs using logs by (cases p) auto
  then show ?thesis using Inr by (cases p) (auto simp: transaction_Inr intro: runs_step)
qed (simp add: transaction_Inl)

lemma runs_saga_catch: "runs_by stp db (saga_update_catch i sg st err db)"
  by (simp add: saga_update_catch_def runs_saga)

lemma runs_cancelBooking: "runs_by stp db (snd (cancelBooking env now u i userId db))"
proof (cases "find_owned userId i db")
  case (Inr b)
  then show ?thesis unfolding cancelBooking_def Inr sum.case
    by (intro runs_then_proc runs_transition [of i] called_intros)
qed (simp add: cancelBooking_def)

lemma runs_createPaymentOrder: "runs_by stp db (snd (createPaymentOrder env cl now eventId i userId db))"
proof (cases "find_owned userId i db")
  case (Inr b)
  let ?ok = "saga_update_catch i CREATE_PAYMENT Step_COMPLETED None db"
  have t: "runs_by stp db (snd (then_proc (transition env now eventId (paymentPending_args i p)) (\<lambda>_ s. (Inr y, s)) ?ok))" for p y
    by (rule runs_trans [OF runs_saga_catch], rule runs_then_proc, rule runs_transition [of i]) simp_all
  show ?thesis unfolding createPaymentOrder_def Inr sum.case Let_def markPaymentPending_def
    by (auto simp: runs_saga_catch split: sum.split intro: t)
qed (simp add: createPaymentOrder_def)

lemma runs_confirmPayment: "runs_by stp db (snd (confirmPayment env now u i userId db))"
proof (cases "find_owned userId i db")
  case (Inr b)
  have t: "runs_by stp d (snd (transition env now e args d))" if "called_args i args" for d e args
    using runs_transition that .
  have "runs_by stp d (snd ((if c then markPaymentPending env now e i p else Pair (Inr ())) d))" for c e p d
    unfolding markPaymentPending_def using t [OF called_intros(1)] by simp
  then show ?thesis unfolding confirmPayment_def Inr sum.case markConfirming_def markConfirmed_def
    by (intro runs_then_proc t runs_saga called_intros)
qed (simp add: confirmPayment_def)

lemma runs_createBooking:
  "runs_by stp (fst s) (fst (snd (createBooking env cl ll ul txErr now u bytes userId dto s)))"
proof -
  have tx: "runs_by stp db (snd (transaction (case txErr of None \<Rightarrow> create_tx env now u bytes userId dto ids | Some e \<Rightarrow> \<lambda>_. Inl e) db))"
    for db ids
  proof (cases txErr)
    case None
    show ?thesis
    proof (cases "create_tx env now u bytes userId dto ids db")
      case (Inr p)
      then have "stp (db, rs) (snd p, rs)" for rs
        using creates [of env now u bytes userId dto ids db "fst p" "snd p"] by simp
      then show ?thesis using Inr None by (cases p) (auto simp: transaction_Inr intro: runs_step)
    qed (simp add: None transaction_Inl)
  qed (simp add: transaction_Inl)
  obtain db st where s: "s = (db, st)" by (cases s)
  show ?thesis
  proof (cases "findIdempotencyKey (cd_idempotencyKey dto) db")
    case None
    show ?thesis
    proof (cases "adapter_validateBooking cl now dto")
      case v: (Inr x)
      show ?thesis
      proof (cases "resolveSeatInventoryIds cl (cd_scheduleId dto) (cd_seatIds dto)")
        case ids: (Inr ids)
        obtain ok st1 where a: "acquireSeatLocks ll now (booking_query dto) (u 0) (lockTtlSeconds env) st = (ok, st1)"
          by (cases "acquireSeatLocks ll now (booking_query dto) (u 0) (lockTtlSeconds env) st")
        obtain r db' where t: "transaction (case txErr of None \<Rightarrow> create_tx env now u bytes userId dto ids | Some e \<Rightarrow> \<lambda>_. Inl e) db = (r, db')"
          by (cases "transaction (case txErr of None \<Rightarrow> create_tx env now u bytes userId dto ids | Some e \<Rightarrow> \<lambda>_. Inl e) db")
        then have "runs_by stp db db'" using tx [of db ids] by simp
        then show ?thesis by (simp add: s createBooking_def None v ids a t split: bool.split sum.split)
      qed (simp add: s createBooking_def None v)
    qed (simp add: s createBooking_def None)
  qed (simp add: s createBooking_def)
qed

lemma runs_once:
  assumes "\<And>db. runs_by stp db (snd (body db))"
  shows "runs_by stp (fst s) (fst (snd (once c links now key body s)))"
  using once_db [of c links now key body s] assms by (metis runs_refl)

lemma runs_transaction_read:
  assumes "\<And>b db'. booking_findById i db = Some b \<Longrightarrow> body db = Inr ((), db') \<Longrightarrow>
      db' = db \<or> (\<forall>rs. b \<in> set rs \<longrightarrow> stp (db, rs) (db', rs))"
    and "booking_findById i db = None \<Longrightarrow> \<exists>e. body db = Inl e"
  shows "runs_by stp db (snd (transaction body db))"
proof (cases "body db")
  case (Inr p)
  obtain db' where p: "p = ((), db')" by (cases p) auto
  from Inr assms(2) obtain b where b: "booking_findById i db = Some b" by (cases "booking_findById i db") auto
  from assms(1) [OF b Inr [unfolded p]] have "runs_by stp db db'"
    using runs_read findById_Some [OF b] by blast
  then show ?thesis using Inr p by (simp add: transaction_Inr)
qed (simp add: transaction_Inl)

lemma runs_held:
  assumes "seen (EvSeatsHeld held)" shows "runs_by stp db (snd (transaction (held_tx held) db))"
proof (rule runs_transaction_read [of "sh_bookingId held"])
  fix b db' assume b: "booking_findById (sh_bookingId held) db = Some b" and h: "held_tx held db = Inr ((), db')"
  have "b_id b = sh_bookingId held" using findById_Some [OF b] by simp
  then show "db' = db \<or> (\<forall>rs. b \<in> set rs \<longrightarrow> stp (db, rs) (db', rs))"
    using h b holds [OF assms] by (auto simp: held_tx_def split: if_splits)
qed (simp add: held_tx_def)

lemma runs_hold_failed:
  assumes "seen (EvSeatsHoldFailed hfail)" shows "runs_by stp db (snd (transaction (hold_failed_tx hfail) db))"
proof (rule runs_transaction_read [of "hf_bookingId hfail"])
  fix b db' assume b: "booking_findById (hf_bookingId hfail) db = Some b" and h: "hold_failed_tx hfail db = Inr ((), db')"
  have "b_id b = hf_bookingId hfail" using findById_Some [OF b] by simp
  then show "db' = db \<or> (\<forall>rs. b \<in> set rs \<longrightarrow> stp (db, rs) (db', rs))"
    using h b hold_fails [OF assms] by (auto simp: hold_failed_tx_def split: if_splits)
qed (simp add: hold_failed_tx_def)

lemma runs_hold_expired:
  assumes "seen (EvSeatHoldExpired hexp)" shows "runs_by stp db (snd (transaction (hold_expired_tx hexp) db))"
proof (rule runs_transaction_read [of "he_bookingId hexp"])
  fix b db' assume b: "booking_findById (he_bookingId hexp) db = Some b" and h: "hold_expired_tx hexp db = Inr ((), db')"
  have "b_id b = he_bookingId hexp" using findById_Some [OF b] by simp
  then show "db' = db \<or> (\<forall>rs. b \<in> set rs \<longrightarrow> stp (db, rs) (db', rs))"
    using h b hold_expires [OF assms] by (auto simp: hold_expired_tx_def split: if_splits)
qed (simp add: hold_expired_tx_def)

lemma runs_payment_body: "runs_by stp db (snd (payment_body env now u i db))"
proof (cases "booking_findById i db")
  case (Some b)
  let ?tail = "\<lambda>s. bindE (saga_update i CREATE_PAYMENT Step_COMPLETED None s) (\<lambda>(_, s').
      saga_update i CONFIRM_SEATS Step_COMPLETED None s')"
  have tail: "runs_by stp d (snd (transaction ?tail d))" for d
  proof (cases "?tail d")
    case (Inr p)
    obtain d2 where p: "p = ((), d2)" by (cases p) auto
    from Inr p obtain d1 where "saga_update i CREATE_PAYMENT Step_COMPLETED None d = Inr ((), d1)"
      "saga_update i CONFIRM_SEATS Step_COMPLETED None d1 = Inr ((), d2)"
      by (auto simp: bindE_eq_Inr_iff)
    then have "runs_by stp d d1" "runs_by stp d1 d2" using logs by (blast intro: runs_step)+
    then show ?thesis using runs_trans Inr p by (auto simp: transaction_Inr)
  qed (simp add: transaction_Inl)
  have "runs_by stp db (snd (then_proc (confirmPayment env now u i (b_userId b)) (\<lambda>_. transaction ?tail) db))"
    by (intro runs_then_proc runs_confirmPayment tail)
  then show ?thesis by (simp add: payment_body_def Some split: sum.split)
qed (simp add: payment_body_def)

lemma runs_handleSeatsHeld:
  assumes "seen (EvSeatsHeld ev)" shows "runs_by stp (fst s) (fst (snd (handleSeatsHeld env c links now eventId ev s)))"
proof -
  let ?o = "once c links now (''booking:held:'' @ sh_eventId ev) (transaction (held_tx ev)) s"
  have o: "runs_by stp (fst s) (fst (snd ?o))" using assms by (intro runs_once runs_held)
  have t: "runs_by stp d (snd (markPaymentPending env now eventId (sh_bookingId ev) p d))" for d p
    unfolding markPaymentPending_def by (rule runs_transition [OF called_intros(1)])
  obtain r d st where e: "?o = (r, d, st)" by (cases ?o) auto
  then show ?thesis using o t [of d] runs_trans unfolding handleSeatsHeld_def e
    by (auto split: sum.splits bool.splits)
qed

text \<open>Every call is a run of the steps.\<close>

lemma delivers_runs: "delivers seen s s' \<Longrightarrow> runs_by stp (fst s) (fst s')"
proof (induction rule: delivers.induct)
  case (hold_failed evf s c links now)
  then show ?case unfolding handleSeatsHoldFailed_def snd_unit_result by (intro runs_once runs_hold_failed)
next
  case (hold_expired evx s c links now)
  then show ?case unfolding handleSeatHoldExpired_def snd_unit_result by (intro runs_once runs_hold_expired)
next
  case (paid s env c links now u evp)
  show ?case unfolding handlePaymentSuccess_def snd_unit_result by (intro runs_once runs_payment_body)
qed (simp_all add: runs_createBooking runs_cancelBooking runs_createPaymentOrder runs_handleSeatsHeld)

end

interpretation steps: booking_commits booking_step "\<lambda>_. True"
  by unfold_locales (auto intro: booking_step.intros)

lemmas service_call_runs = steps.delivers_runs

lemma ids_inj:
  assumes "ids_distinct s" and "x \<in> set (bk_bookings (fst s))" and "y \<in> set (bk_bookings (fst s))" and "b_id x = b_id y"
  shows "x = y"
  using assms by (meson distinct_map ids_distinct_def inj_onD)

section \<open>A small example\<close>

definition demo_env :: booking_env where
  "demo_env = \<lparr>be_carrier = Map.empty, be_SEAT_HOLD_TTL_MS = 600000, be_errorText = (\<lambda>_. ''error'')\<rparr>"

definition demo_clients :: grpc_clients where
  "demo_clients = \<lparr>gc_validateBooking = (\<lambda>_ _ _ _. Inr ''OK''),
     gc_getSeatsDetailsBatch = (\<lambda>_ seats. Inr (map (\<lambda>s. (s, ''inv-'' @ s)) seats)),
     gc_createOrder = (\<lambda>q. Inr \<lparr>or_paymentOrderId = ''order'', or_razorpayOrderId = ''rzp'', or_keyId = ''key'', or_status = ''PENDING''\<rparr>)\<rparr>"

definition demo_dto :: CreateBookingDto where
  "demo_dto = \<lparr>cd_idempotencyKey = ''key'', cd_scheduleId = ''s'', cd_fromStationId = ''a'', cd_toStationId = ''c'',
     cd_fromSequence = Some 1, cd_toSequence = Some 3, cd_legIndices = None, cd_seatIds = [''x'', ''y''],
     cd_passengers = [\<lparr>pd_fullName = ''A'', pd_age = 30, pd_gender = FEMALE, pd_berthPreference = None\<rparr>,
                      \<lparr>pd_fullName = ''B'', pd_age = 40, pd_gender = MALE, pd_berthPreference = Some ''LOWER''\<rparr>]\<rparr>"

definition demo_ids :: "nat \<Rightarrow> ident" where
  "demo_ids n = ''id-'' @ show_nat n"

definition demo_create :: "booking_db \<times> redis \<Rightarrow> (exn + CreateBookingResponse) \<times> booking_db \<times> redis" where
  "demo_create s = createBooking demo_env demo_clients Reply Reply None 0 demo_ids [0, 1, 31, 255] ''user'' demo_dto s"

definition demo_db :: booking_db where
  "demo_db = fst (snd (demo_create (empty_booking_db, Map.empty)))"

definition demo_held :: SeatsHeldV1 where
  "demo_held = \<lparr>sh_eventId = ''held'', sh_bookingId = ''id-0'', sh_allocations =
     [\<lparr>sa_seatId = ''x'', sa_seatInventoryId = ''inv-x'', sa_coachNumber = ''S1'', sa_seatNumber = 1, sa_seatType = ''LOWER'', sa_price = 100\<rparr>,
      \<lparr>sa_seatId = ''y'', sa_seatInventoryId = ''inv-y'', sa_coachNumber = ''S1'', sa_seatNumber = 2, sa_seatType = ''UPPER'', sa_price = 50\<rparr>],
     sh_holdExpiresAt = 600000\<rparr>"

definition demo_idem :: idem_config where
  "demo_idem = \<lparr>processingLeaseSeconds = 60, processedTtlSeconds = 600, keyspace = ''ks''\<rparr>"

lemma demo_statuses:
  "map b_status (bk_bookings demo_db) = [Pending]"
  "map b_id (bk_bookings demo_db) = [''id-0'']"
  by code_simp+

definition demo_after_held :: booking_db where
  "demo_after_held = fst (snd (handleSeatsHeld demo_env demo_idem (Reply, Reply, Reply) 10 ''e'' demo_held (demo_db, Map.empty)))"

lemma demo_reach: "service_call (empty_booking_db, Map.empty) (demo_db, snd (snd (demo_create (empty_booking_db, Map.empty))))"
  unfolding demo_db_def demo_create_def by (subst prod.collapse) (rule delivers.create)

lemma runs_demo: "runs empty_booking_db demo_db" "runs demo_db demo_after_held"
proof -
  show "runs empty_booking_db demo_db" using service_call_runs [OF demo_reach] by simp
  show "runs demo_db demo_after_held"
    using service_call_runs [OF delivers.held [where seen = "\<lambda>_. True" and s = "(demo_db, Map.empty)" and env = demo_env and c = demo_idem
      and links = "(Reply, Reply, Reply)" and now = 10 and eventId = "''e''" and ev = demo_held, OF TrueI]]
    by (simp add: demo_after_held_def)
qed

section \<open>The life of a booking\<close>

text \<open>C16: The state machine of a booking, under any interleaving of API calls, event handlers and
  commits that rest on outdated reads. From any reachable state on, a booking keeps its identity,
  owner, PNR and journey; its version counts its status changes, each of which is one of the ten
  legal ones (never backwards, never out of \<open>CANCELLED\<close>, \<open>EXPIRED\<close> or \<open>FAILED\<close>), and there are
  at most six of them.\<close>

theorem booking_lifecycle:
  assumes "booking_step\<^sup>*\<^sup>* (empty_booking_db, []) s" and "booking_step\<^sup>*\<^sup>* s s'"
    and "r \<in> set (bk_bookings (fst s))"
  shows "\<exists>r' \<in> set (bk_bookings (fst s')). same_booking r r' \<and> b_version r' \<le> 7 \<and>
    (\<exists>n. b_version r' = b_version r + int n \<and> (legal ^^ n) (b_status r) (b_status r')) \<and>
    (b_status r \<in> {Cancelled, Expired, Failed} \<longrightarrow> b_status r' = b_status r \<and> b_version r' = b_version r)"
proof -
  have ok: "booking_ok s" using bookings.run_inv [OF assms(1) booking_ok_empty] .
  then have "booking_ok s'" using bookings.run_inv [OF assms(2)] by blast
  obtain r' where r': "r' \<in> set (bk_bookings (fst s'))" "row_later r r'"
    using run_row_later [OF assms(2) ok assms(3)] by blast
  have "b_version r' \<le> booking_rank (b_status r') + 1"
    using \<open>booking_ok s'\<close> r'(1) by (simp add: booking_ok_def versions_ok_def)
  also have "\<dots> \<le> 7" by (cases "b_status r'") simp_all
  finally show ?thesis using r' legal_final [of "b_status r"] unfolding row_later_def
    by (intro bexI [OF _ r'(1)]) force
qed

theorem booking_lifecycle_witness:
  "\<exists>rs s' r'. booking_step\<^sup>*\<^sup>* (demo_db, rs) s' \<and> r' \<in> set (bk_bookings (fst s')) \<and>
     same_booking (hd (bk_bookings demo_db)) r' \<and> b_version r' \<le> 7"
proof -
  obtain rs where 1: "booking_step\<^sup>*\<^sup>* (empty_booking_db, []) (demo_db, rs)" using runs_demo(1) by (auto simp: runs_def)
  obtain rs' where 2: "booking_step\<^sup>*\<^sup>* (demo_db, rs) (demo_after_held, rs')" using runs_demo(2) by (auto simp: runs_def)
  have "bk_bookings demo_db \<noteq> []" using demo_statuses(1) by auto
  then have 3: "hd (bk_bookings demo_db) \<in> set (bk_bookings (fst (demo_db, rs)))" by simp
  from booking_lifecycle [OF 1 2 3] 2 show ?thesis by blast
qed

text \<open>C26: The events of a booking tell its history. In every reachable state each published status
  event is about an existing booking and its owner, describes a legal change or the creation,
  never names a version the booking has not reached, agrees with the booking's status when it
  names its current version, and no two events carry the same booking and version.\<close>

theorem booking_events_consistent:
  assumes "booking_step\<^sup>*\<^sup>* (empty_booking_db, []) s"
  shows "(\<forall>e \<in> set (booking_events (fst s)).
      (\<exists>r \<in> set (bk_bookings (fst s)). b_id r = bs_bookingId e \<and> b_pnr r = bs_pnr e \<and> b_userId r = bs_userId e \<and>
         bs_version e \<le> b_version r \<and> (bs_version e = b_version r \<longrightarrow> bs_currentStatus e = b_status r)) \<and>
      (case bs_previousStatus e of None \<Rightarrow> bs_currentStatus e = Pending \<and> bs_version e = 1
       | Some p \<Rightarrow> legal p (bs_currentStatus e) \<and> 1 < bs_version e)) \<and>
    distinct (map (\<lambda>e. (bs_bookingId e, bs_version e)) (booking_events (fst s)))"
  using bookings.run_inv [OF assms booking_ok_empty] by (simp add: booking_ok_def events_ok_def event_ok_def)

theorem booking_events_consistent_witness:
  "map (\<lambda>e. (bs_bookingId e, bs_version e)) (booking_events demo_after_held) = [(''id-0'', 1), (''id-0'', 3)] \<and>
   distinct (map (\<lambda>e. (bs_bookingId e, bs_version e)) (booking_events demo_after_held))"
proof -
  obtain rs where 1: "booking_step\<^sup>*\<^sup>* (empty_booking_db, []) (demo_after_held, rs)"
    using runs_trans [OF runs_demo] by (auto simp: runs_def)
  have "map (\<lambda>e. (bs_bookingId e, bs_version e)) (booking_events demo_after_held) = [(''id-0'', 1), (''id-0'', 3)]"
    by code_simp
  with booking_events_consistent [OF 1] show ?thesis by simp
qed

text \<open>C19: Compare-and-swap. A transition that a request decided on a row it read commits exactly when
  the booking still has the version that was read; otherwise it answers 409 and, being a
  transaction, changes nothing. Once it has committed, every other transition decided on the same
  read is refused in every later state.\<close>

theorem transition_race:
  assumes "booking_step\<^sup>*\<^sup>* (empty_booking_db, []) (db, rs)" and "b \<in> set rs"
    and "r \<in> set (bk_bookings db)" and "b_id r = b_id b" and "called_args (b_id b) args"
    and "b_status b \<in> set (permittedStates args)"
  shows "(case transition_commit env now eventId args b db of
       Inr (_, db') \<Rightarrow> b_version r = b_version b \<and>
         (\<forall>s' env' now' eventId' args'. booking_step\<^sup>*\<^sup>* (db', rs) s' \<longrightarrow> called_args (b_id b) args' \<longrightarrow>
            transition_commit env' now' eventId' args' b (fst s') = Inl (ApiError 409 ''BOOKING_INVALID_TRANSITION''))
     | Inl e \<Rightarrow> b_version b < b_version r \<and> e = ApiError 409 ''BOOKING_INVALID_TRANSITION'')"
proof -
  have ok: "booking_ok (db, rs)" using bookings.run_inv [OF assms(1) booking_ok_empty] .
  then have ri: "reads_ok (db, rs)" "ids_distinct (db, rs)" by (simp_all add: booking_ok_def)
  have same: "same_booking r b" "b_version b \<le> b_version r" using read_row [OF ri assms(2-4)] by simp_all
  have only: "x = r" if "x \<in> set (bk_bookings db)" "b_id x = b_id b" for x
    using ids_inj [OF ri(2)] that assms(3,4) by simp
  note c = transition_commit_eq [of env now eventId args b db, unfolded called_target [OF assms(5)]]
  show ?thesis
  proof (cases "b_version r = b_version b")
    case True
    then obtain db' where db': "transition_commit env now eventId args b db = Inr ((), db')"
      using c assms(3,4) by (auto split: if_splits)
    have mv: "moves (bump (b_id b) (ta_target args) (b_version b + 1) \<circ> with_updates args) db db'"
      using transition_moves [OF ri assms(2,5,6) db'] .
    let ?r = "bump (b_id b) (ta_target args) (b_version b + 1) (with_updates args r)"
    have r1: "?r \<in> set (bk_bookings db')" "b_id ?r = b_id b" "b_version ?r = b_version b + 1"
      using moves_row(1) [OF mv assms(3)] True assms(4) by (auto simp: bump_def)
    have st: "booking_step (db, rs) (db', rs)" using booking_step.transitions assms(2,5,6) db' by blast
    have "transition_commit env' now' eventId' args' b (fst s') = Inl (ApiError 409 ''BOOKING_INVALID_TRANSITION'')"
      if s': "booking_step\<^sup>*\<^sup>* (db', rs) s'" and a: "called_args (b_id b) args'" for s' env' now' eventId' args'
    proof -
      have ok1: "booking_ok (db', rs)" using booking_step_ok [OF st ok] .
      then have ok2: "booking_ok s'" using bookings.run_inv [OF s'] by blast
      obtain r2 where r2: "r2 \<in> set (bk_bookings (fst s'))" "row_later ?r r2"
        using run_row_later [OF s' ok1] r1(1) by auto
      then have v: "b_id r2 = b_id b" "b_version b < b_version r2"
        using r1(2,3) by (auto simp: row_later_def same_booking_def)
      have "x = r2" if "x \<in> set (bk_bookings (fst s'))" "b_id x = b_id b" for x
        using ids_inj [of s' x r2] ok2 that r2(1) v(1) by (simp add: booking_ok_def)
      then have "\<not> (\<exists>x \<in> set (bk_bookings (fst s')). b_id x = b_id b \<and> b_version x < b_version b + 1)"
        using v(2) by fastforce
      then show ?thesis unfolding transition_commit_eq called_target [OF a] using r2(1) v(1) by auto
    qed
    then show ?thesis unfolding db' sum.case prod.case using True by blast
  next
    case False
    then have "\<not> (\<exists>x \<in> set (bk_bookings db). b_id x = b_id b \<and> b_version x < b_version b + 1)"
      using only same(2) by fastforce
    then show ?thesis using c assms(3,4) False same(2) by auto
  qed
qed

theorem transition_race_witness:
  "\<exists>rs b. b_status b = PaymentPending \<and> (\<exists>db'. transition_commit demo_env 20 ''e1'' (confirming_args ''id-0'') b demo_after_held = Inr ((), db') \<and>
     transition_commit demo_env 20 ''e2'' (confirming_args ''id-0'') b db' = Inl (ApiError 409 ''BOOKING_INVALID_TRANSITION''))"
proof -
  let ?b = "hd (bk_bookings demo_after_held)"
  obtain rs where 1: "booking_step\<^sup>*\<^sup>* (empty_booking_db, []) (demo_after_held, rs)"
    using runs_trans [OF runs_demo] by (auto simp: runs_def)
  have st: "map b_status (bk_bookings demo_after_held) = [PaymentPending]"
    "map b_id (bk_bookings demo_after_held) = [''id-0'']" by code_simp+
  then have b: "?b \<in> set (bk_bookings demo_after_held)" "b_status ?b = PaymentPending" "b_id ?b = ''id-0''"
    by (cases "bk_bookings demo_after_held"; simp)+
  have 2: "booking_step\<^sup>*\<^sup>* (empty_booking_db, []) (demo_after_held, ?b # rs)"
    using 1 booking_step.reads [OF b(1)] by (rule rtranclp.rtrancl_into_rtrancl)
  have args: "called_args (b_id ?b) (confirming_args ''id-0'')"
    and perm: "b_status ?b \<in> set (permittedStates (confirming_args ''id-0''))"
    using b(2,3) by (simp_all add: permittedStates_def confirming_args_def called_args_def)
  note race = transition_race [OF 2 _ b(1) refl args perm, of demo_env 20 "''e1''"]
  show ?thesis
  proof (cases "transition_commit demo_env 20 ''e1'' (confirming_args ''id-0'') ?b demo_after_held")
    case (Inl e)
    with race show ?thesis by simp
  next
    case (Inr p)
    obtain db' where p: "p = ((), db')" by (cases p) auto
    from race Inr p have "transition_commit demo_env 20 ''e2'' (confirming_args ''id-0'') ?b (fst (db', ?b # rs)) =
        Inl (ApiError 409 ''BOOKING_INVALID_TRANSITION'')" using args by (simp only: sum.case prod.case) auto
    then show ?thesis using Inr p b(2) by auto
  qed
qed

text \<open>Every call of the service is one of the runs the other properties speak about: whatever calls
  of the API and deliveries of events follow each other, with any failure of Redis, of the
  database connection or of a gRPC peer, the database moves along steps of the booking's state
  machine.\<close>

theorem service_calls_refine_steps:
  assumes "service_call\<^sup>*\<^sup>* s s'"
  shows "\<exists>rs'. booking_step\<^sup>*\<^sup>* (fst s, rs) (fst s', rs')"
  using assms
proof (induction arbitrary: rs)
  case (step y z)
  then show ?case using service_call_runs unfolding runs_def by (meson rtranclp_trans)
qed blast

theorem service_calls_refine_steps_witness:
  "\<exists>rs'. booking_step\<^sup>*\<^sup>* (empty_booking_db, []) (demo_db, rs')"
  using service_calls_refine_steps [OF r_into_rtranclp [of service_call, OF demo_reach], of "[]"] by simp

end
