(* ===== verification/BookingApi.thy ===== *)
theory BookingApi
  imports BookingProps
begin

text \<open>
  What a caller of the booking API gets: the outcome of a creation and of its repetition.
\<close>

section \<open>Creating a booking\<close>

text \<open>A creation that failed has not touched the database; a lock it took is given back.\<close>

definition create_effect_ok :: "booking_env \<Rightarrow> grpc_clients \<Rightarrow> link \<Rightarrow> link \<Rightarrow> time \<Rightarrow> (nat \<Rightarrow> ident) \<Rightarrow> 8 word list \<Rightarrow> ident \<Rightarrow>
    CreateBookingDto \<Rightarrow> booking_db \<times> redis \<Rightarrow> exn + CreateBookingResponse \<Rightarrow> booking_db \<times> redis \<Rightarrow> bool" where
  "create_effect_ok env cl ll ul now u bytes userId dto s r s' \<longleftrightarrow>
     (let q = booking_query dto; lock = acquireSeatLocks ll now q (u 0) (lockTtlSeconds env) (snd s)
      in case r of
        Inr resp \<Rightarrow> adapter_validateBooking cl now dto = Inr () \<and> fst lock \<and> snd s' = snd lock \<and>
          resp = created_response u bytes \<and>
          (\<exists>ids. resolveSeatInventoryIds cl (cd_scheduleId dto) (cd_seatIds dto) = Inr ids \<and>
             fst s' = created_db env now u bytes userId dto ids (fst s))
      | Inl e \<Rightarrow> fst s' = fst s \<and>
          (if adapter_validateBooking cl now dto \<noteq> Inr () \<or>
              (\<forall>ids. resolveSeatInventoryIds cl (cd_scheduleId dto) (cd_seatIds dto) \<noteq> Inr ids) then snd s' = snd s
           else if \<not> fst lock then e = ApiError 409 ''SEAT_HOLD_FAILED'' \<and> snd s' = snd lock
           else snd s' = snd (releaseSeatLocks ul now q (u 0) (snd lock))))"

lemma createBooking_new:
  assumes "findIdempotencyKey (cd_idempotencyKey dto) db = None"
    and "createBooking env cl ll ul txErr now u bytes userId dto (db, st) = (r, s')"
  shows "create_effect_ok env cl ll ul now u bytes userId dto (db, st) r s'"
proof (cases "adapter_validateBooking cl now dto")
  case (Inl e)
  with assms show ?thesis by (auto simp: createBooking_def create_effect_ok_def Let_def)
next
  case v: (Inr x)
  show ?thesis
  proof (cases "resolveSeatInventoryIds cl (cd_scheduleId dto) (cd_seatIds dto)")
    case (Inl e)
    with assms v show ?thesis by (auto simp: createBooking_def create_effect_ok_def Let_def)
  next
    case ids: (Inr ids)
    obtain ok st1 where a: "acquireSeatLocks ll now (booking_query dto) (u 0) (lockTtlSeconds env) st = (ok, st1)"
      by (cases "acquireSeatLocks ll now (booking_query dto) (u 0) (lockTtlSeconds env) st")
    let ?body = "case txErr of None \<Rightarrow> create_tx env now u bytes userId dto ids | Some e \<Rightarrow> \<lambda>_. Inl e"
    show ?thesis
    proof (cases "?body db")
      case (Inl e)
      then show ?thesis using assms v ids a
        by (cases ok) (auto simp: createBooking_def create_effect_ok_def Let_def transaction_Inl)
    next
      case (Inr p)
      then have "create_tx env now u bytes userId dto ids db = Inr (fst p, snd p)"
        by (cases txErr) auto
      then have p: "fst p = created_response u bytes" "snd p = created_db env now u bytes userId dto ids db"
        unfolding create_tx_new [OF assms(1)] by simp_all
      then show ?thesis using assms v ids a Inr
        by (cases ok; cases p) (auto simp: createBooking_def create_effect_ok_def Let_def transaction_Inr)
    qed
  qed
qed

text \<open>Over a healthy connection a failed creation leaves Redis as it found it.\<close>

lemma failed_creation_releases:
  assumes "create_effect_ok env cl Reply Reply now u bytes userId dto (db, st) (Inl e) s'"
    and "cd_seatIds dto \<noteq> []" and "now \<le> t"
  shows "redis_get t k (snd s') = redis_get t k st"
proof -
  let ?q = "booking_query dto" and ?ttl = "lockTtlSeconds env"
  let ?keys = "getLockKeys ?q"
  have ne: "?keys \<noteq> []" "q_seatIds ?q \<noteq> []"
    using assms(2) getLockKeys_nonempty [of ?q] by (simp_all add: booking_query_def)
  have lock: "acquireSeatLocks Reply now ?q (u 0) ?ttl st =
      (fst (seatLockLua now ?keys (u 0) ?ttl st) = Inr 1, snd (seatLockLua now ?keys (u 0) ?ttl st))"
    using ne(2) by (auto simp: acquireSeatLocks_def over_link_def split: prod.splits sum.splits)
  show ?thesis
  proof (cases "fst (seatLockLua now ?keys (u 0) ?ttl st) = Inr 1")
    case True
    then have won: "0 < ?ttl" "distinct ?keys" "\<forall>k \<in> set ?keys. redis_get now k st = None"
      unfolding seatLockLua_iff [OF ne(1)] by auto
    then have st1: "snd (acquireSeatLocks Reply now ?q (u 0) ?ttl st) =
        (\<lambda>k. if k \<in> set ?keys then Some (u 0, Some (now + ?ttl * 1000)) else st k)"
      using seatLockLua_won lock by simp
    have "redis_get t k (snd (releaseSeatLocks Reply now ?q (u 0) (snd (acquireSeatLocks Reply now ?q (u 0) ?ttl st)))) =
        (if k \<in> set ?keys then None else redis_get t k st)"
      unfolding releaseSeatLocks_Reply [OF ne(2)] seatUnlockLua_get [OF assms(3)] st1
      using won(1) by (simp add: redis_get_def live_def)
    moreover have "snd s' = st \<or> snd s' = snd (releaseSeatLocks Reply now ?q (u 0) (snd (acquireSeatLocks Reply now ?q (u 0) ?ttl st)))"
      using assms(1) True lock by (auto simp: create_effect_ok_def Let_def split: if_splits)
    moreover have "redis_get t k st = None" if "k \<in> set ?keys"
      using won(3) that redis_get_earlier [of t k st _ now, OF _ assms(3)] by (cases "redis_get t k st") auto
    ultimately show ?thesis by auto
  next
    case False
    then have lost: "redis_get t k (snd (acquireSeatLocks Reply now ?q (u 0) ?ttl st)) = redis_get t k st"
      using seatLockLua_lost [OF ne(1)] assms(3) lock unfolding seatLockLua_iff [OF ne(1)] by simp
    have "snd s' = st \<or> snd s' = snd (acquireSeatLocks Reply now ?q (u 0) ?ttl st)"
      using assms(1) False lock by (auto simp: create_effect_ok_def Let_def split: if_splits)
    with lost show ?thesis by auto
  qed
qed

text \<open>C17: A booking request is answered in one of four ways. A key that was used before returns the
  stored response and touches nothing. Otherwise the request passes the pre-flight check, takes
  all its seat locks and commits the booking with its seats, passengers, three saga rows, key and
  two events in one transaction, keeping the locks; or it fails without any effect on the
  database, in the refused checks before any lock, with 409 when a seat is locked, and with its
  locks given back when the transaction fails. After a failure over a healthy connection every
  Redis key reads as before.\<close>

theorem create_booking_outcome:
  assumes "createBooking env cl ll ul txErr now u bytes userId dto (db, st) = (r, s')"
  shows "(case findIdempotencyKey (cd_idempotencyKey dto) db of
       Some k \<Rightarrow> r = Inr (ik_responseBody k) \<and> s' = (db, st)
     | None \<Rightarrow> create_effect_ok env cl ll ul now u bytes userId dto (db, st) r s') \<and>
    (ll = Reply \<and> ul = Reply \<and> cd_seatIds dto \<noteq> [] \<and> (\<exists>e. r = Inl e) \<longrightarrow>
       (\<forall>t \<ge> now. \<forall>k. redis_get t k (snd s') = redis_get t k st))"
proof (cases "findIdempotencyKey (cd_idempotencyKey dto) db")
  case None
  have c: "create_effect_ok env cl ll ul now u bytes userId dto (db, st) r s'" using createBooking_new [OF None assms] .
  have "redis_get t k (snd s') = redis_get t k st"
    if "ll = Reply" "ul = Reply" "cd_seatIds dto \<noteq> []" "r = Inl e" "now \<le> t" for e t k
    using failed_creation_releases c that by blast
  then show ?thesis using None c by (metis option.case(1))
next
  case (Some k)
  with assms show ?thesis by (auto simp: createBooking_def)
qed

theorem create_booking_outcome_witness:
  "let s = (demo_db, [''booking:lock:seat:s:x:leg:2'' \<mapsto> (''other'', Some 5000)]);
       dto = demo_dto\<lparr>cd_idempotencyKey := ''key2''\<rparr>;
       p = createBooking demo_env demo_clients Reply Reply None 0 (\<lambda>n. ''new-'' @ show_nat n) [7] ''user'' dto s
   in fst p = Inl (ApiError 409 ''SEAT_HOLD_FAILED'') \<and>
      redis_get 10 ''booking:lock:seat:s:x:leg:1'' (snd (snd p)) = None"
proof -
  let ?s = "(demo_db, [''booking:lock:seat:s:x:leg:2'' \<mapsto> (''other'', Some 5000)]) :: booking_db \<times> redis"
  let ?dto = "demo_dto\<lparr>cd_idempotencyKey := ''key2''\<rparr>"
  let ?p = "createBooking demo_env demo_clients Reply Reply None 0 (\<lambda>n. ''new-'' @ show_nat n) [7] ''user'' ?dto ?s"
  have r: "fst ?p = Inl (ApiError 409 ''SEAT_HOLD_FAILED'')" by code_simp
  have p: "?p = (fst ?p, snd ?p)" by simp
  have "redis_get 10 ''booking:lock:seat:s:x:leg:1'' (snd (snd ?p)) = redis_get 10 ''booking:lock:seat:s:x:leg:1'' (snd ?s)"
    using conjunct2 [OF create_booking_outcome [OF p]] r by (auto simp: demo_dto_def)
  then show ?thesis unfolding Let_def using r by (simp add: redis_get_def)
qed

lemma key_row_unique:
  assumes "keys_ok (db, rs)" and "k \<in> set (bk_keys db)"
  shows "findIdempotencyKey (ik_idempotencyKey k) db = Some k"
  using assms find_row_unique [of ik_idempotencyKey "bk_keys db" k] by (simp add: keys_ok_def findIdempotencyKey_def)

lemma created_key:
  assumes "createBooking env cl ll ul txErr now u bytes userId dto (db, st) = (Inr resp, (db1, st1))"
  shows "\<exists>k \<in> set (bk_keys db1). ik_idempotencyKey k = cd_idempotencyKey dto \<and> ik_responseBody k = resp"
proof (cases "findIdempotencyKey (cd_idempotencyKey dto) db")
  case None
  from createBooking_new [OF None assms] obtain ids where
    "resp = created_response u bytes" "db1 = created_db env now u bytes userId dto ids db"
    by (auto simp: create_effect_ok_def Let_def)
  then show ?thesis by (simp add: created_tables)
next
  case (Some k)
  then have "k \<in> set (bk_keys db)" "ik_idempotencyKey k = cd_idempotencyKey dto"
    by (auto simp: findIdempotencyKey_def dest: find_row_Some)
  with Some assms show ?thesis by (auto simp: createBooking_def)
qed

text \<open>C20: Creating a booking is idempotent. Once a request was answered with a booking, every later
  request with the same key gets the same answer and changes nothing, whatever the service did in
  between and whatever else the request says. The key alone decides: also another user's request
  with it is answered with this booking.\<close>

theorem create_booking_replay:
  assumes "booking_step\<^sup>*\<^sup>* (empty_booking_db, []) (db, rs)"
    and "createBooking env cl ll ul txErr now u bytes userId dto (db, st) = (Inr resp, (db1, st1))"
    and "booking_step\<^sup>*\<^sup>* (db1, rs1) (db2, rs2)" and "booking_step\<^sup>*\<^sup>* (db, rs) (db1, rs1)"
    and "cd_idempotencyKey dto' = cd_idempotencyKey dto"
  shows "createBooking env' cl' ll' ul' txErr' now' u' bytes' userId' dto' (db2, st2) = (Inr resp, (db2, st2))"
proof -
  have ok1: "booking_ok (db1, rs1)"
    using bookings.run_inv [OF assms(4) bookings.run_inv [OF assms(1) booking_ok_empty]] .
  have ok2: "booking_ok (db2, rs2)" using bookings.run_inv [OF assms(3) ok1] .
  obtain k where k: "k \<in> set (bk_keys db1)" "ik_idempotencyKey k = cd_idempotencyKey dto" "ik_responseBody k = resp"
    using created_key [OF assms(2)] by blast
  have "k \<in> set (bk_keys db2)" using run_key_kept [OF assms(3) ok1] k(1) by simp
  then have "findIdempotencyKey (cd_idempotencyKey dto') db2 = Some k"
    using key_row_unique [of db2 rs2 k] ok2 k(2) assms(5) by (simp add: booking_ok_def)
  then show ?thesis using k(3) by (simp add: createBooking_def)
qed

theorem create_booking_replay_witness:
  "createBooking demo_env demo_clients Reply Reply None 99 demo_ids [5] ''mallory'' demo_dto (demo_after_held, Map.empty) =
     (Inr \<lparr>cr_id = ''id-0'', cr_pnr = ''2329'', cr_status = Pending\<rparr>, (demo_after_held, Map.empty))"
proof -
  obtain rs1 where 1: "booking_step\<^sup>*\<^sup>* (empty_booking_db, []) (demo_db, rs1)" using runs_demo(1) by (auto simp: runs_def)
  obtain rs2 where 2: "booking_step\<^sup>*\<^sup>* (demo_db, rs1) (demo_after_held, rs2)" using runs_demo(2) by (auto simp: runs_def)
  have r: "fst (demo_create (empty_booking_db, Map.empty)) = Inr \<lparr>cr_id = ''id-0'', cr_pnr = ''2329'', cr_status = Pending\<rparr>"
    by code_simp
  have c: "demo_create (empty_booking_db, Map.empty) =
      (Inr \<lparr>cr_id = ''id-0'', cr_pnr = ''2329'', cr_status = Pending\<rparr>, (demo_db, snd (snd (demo_create (empty_booking_db, Map.empty)))))"
    unfolding demo_db_def r [symmetric] by simp
  show ?thesis
    by (rule create_booking_replay [OF rtranclp.rtrancl_refl c [unfolded demo_create_def] 2 1 refl])
qed

end
