(* ===== verification/BookingCalls.thy ===== *)
theory BookingCalls
  imports BookingApi
begin

text \<open>
  What a call does when nothing overtakes it: a transition on the current row of a booking
  succeeds and its effect is exact; from this, the outcomes of a cancellation and of a payment
  event in every state of the booking.
\<close>

section \<open>One transition\<close>

definition advanced :: "TransitionArgs \<Rightarrow> Booking \<Rightarrow> Booking" where
  "advanced args b = (with_updates args b)\<lparr>b_status := ta_target args, b_version := b_version b + 1\<rparr>"

definition booking_now :: "Booking \<Rightarrow> booking_db \<Rightarrow> bool" where
  "booking_now b db \<longleftrightarrow> distinct (map b_id (bk_bookings db)) \<and> booking_findById (b_id b) db = Some b"

text \<open>Every booking but \<open>i\<close>, and every row of the other tables but the outbox, stays.\<close>

definition rest_kept :: "ident \<Rightarrow> booking_db \<Rightarrow> booking_db \<Rightarrow> bool" where
  "rest_kept i db db' \<longleftrightarrow> (\<forall>j. j \<noteq> i \<longrightarrow> booking_findById j db' = booking_findById j db) \<and>
     bk_seats db' = bk_seats db \<and> bk_passengers db' = bk_passengers db \<and> bk_keys db' = bk_keys db"

lemma rest_kept_refl [simp]: "rest_kept i db db"
  by (simp add: rest_kept_def)

lemma rest_kept_trans: "rest_kept i a b \<Longrightarrow> rest_kept i b c \<Longrightarrow> rest_kept i a c"
  by (simp add: rest_kept_def)

definition saga_status :: "ident \<Rightarrow> SagaStep \<Rightarrow> booking_db \<Rightarrow> SagaStatus option" where
  "saga_status i stp db = map_option sg_status (saga_findByBookingAndStep i stp db)"

lemma advanced_fields [simp]:
  "b_id (advanced args b) = b_id b" "b_status (advanced args b) = ta_target args" "b_version (advanced args b) = b_version b + 1"
  "b_userId (advanced args b) = b_userId b" "b_pnr (advanced args b) = b_pnr b" "b_totalPrice (advanced args b) = b_totalPrice b"
  by (auto simp: advanced_def with_updates_def apply_updates_def split: option.split)

lemma called_permits: "called_args i args \<Longrightarrow> permittedStates args \<noteq> []"
  by (rule called_permitted)

text \<open>What one successful transition does.\<close>

definition advances :: "TransitionArgs \<Rightarrow> ident \<Rightarrow> Booking \<Rightarrow> booking_db \<Rightarrow> booking_db \<Rightarrow> bool" where
  "advances args e b db db' \<longleftrightarrow> booking_now (advanced args b) db' \<and> rest_kept (b_id b) db db' \<and>
     booking_events db' = booking_events db @ [transition_event e args b] \<and> bk_sagas db' = bk_sagas db \<and>
     length (bk_outbox db') = length (bk_outbox db) + 1"

lemma transition_advances:
  assumes "booking_now b db" and "called_args (b_id b) args" and "b_status b \<in> set (permittedStates args)"
  shows "\<exists>db'. transition env now e args db = (Inr (), db') \<and> advances args e b db db'"
proof -
  let ?i = "b_id b"
  let ?f = "bump ?i (ta_target args) (b_version b + 1) \<circ> with_updates args"
  let ?db = "emit_status env now (transition_event e args b) (db\<lparr>bk_bookings := map ?f (bk_bookings db)\<rparr>)"
  note tgt = called_target [OF assms(2)]
  have d: "distinct (map b_id (bk_bookings db))" and find: "booking_findById ?i db = Some b"
    using assms(1) by (simp_all add: booking_now_def)
  have b: "b \<in> set (bk_bookings db)" using findById_Some [OF find] by simp
  have "transition_commit env now e args b db = Inr ((), ?db)"
    unfolding transition_commit_eq tgt using b by (auto simp: called_target [OF assms(2)])
  then have t: "transition env now e args db = (Inr (), ?db)"
    using assms(3) find by (simp add: transition_def transaction_Inr transition_tx_def tgt)
  have id: "b_id (?f r) = b_id r" for r by (simp add: bump_def)
  have other: "?f r = r" if "b_id r \<noteq> ?i" for r
    using that tgt by (auto simp: bump_def with_updates_def split: option.split)
  have new: "?f b = advanced args b" by (simp add: bump_def advanced_def)
  have find': "booking_findById j ?db = map_option ?f (booking_findById j db)" for j
    unfolding booking_findById_def by (simp, subst find_row_map) (simp_all add: bump_def)
  have "booking_findById j ?db = booking_findById j db" if "j \<noteq> ?i" for j
    unfolding find' using that other by (cases "booking_findById j db") (auto dest: findById_Some)
  then have "rest_kept ?i db ?db" by (simp add: rest_kept_def)
  moreover have keys: "map b_id (bk_bookings ?db) = map b_id (bk_bookings db)" by (simp add: bump_def)
  have "booking_findById ?i ?db = Some (advanced args b)" unfolding find' find by (simp only: option.map new)
  then have "booking_now (advanced args b) ?db" unfolding booking_now_def advanced_fields keys using d by (rule conjI [rotated])
  moreover have "length (bk_outbox ?db) = length (bk_outbox db) + 1"
    by (simp add: emit_status_def booking_emit_def outbox_insert_def)
  ultimately have "advances args e b db ?db" by (simp add: advances_def)
  with t show ?thesis by blast
qed

lemma advances_rest: "advances args e b db db' \<Longrightarrow> b_id b = i \<Longrightarrow> rest_kept i db db'"
  by (simp add: advances_def)

lemma transition_refused:
  assumes "booking_now b db" and "called_args (b_id b) args" and "b_status b \<notin> set (permittedStates args)"
  shows "transition env now e args db = (Inl (ApiError 409 ''BOOKING_INVALID_TRANSITION''), db)"
  using assms called_permits [OF assms(2)] called_target [OF assms(2)]
  by (simp add: transition_def transaction_Inl transition_tx_def booking_now_def)

lemma booking_now_reach:
  assumes "booking_step\<^sup>*\<^sup>* (empty_booking_db, []) (db, rs)" and "booking_findById i db = Some b"
  shows "booking_now b db" and "b_id b = i" and "(i, stp) \<in> set (saga_keys db)"
proof -
  have ok: "booking_ok (db, rs)" using bookings.run_inv [OF assms(1) booking_ok_empty] .
  show i: "b_id b = i" using findById_Some [OF assms(2)] by simp
  then show "booking_now b db" using ok assms(2) by (simp add: booking_now_def booking_ok_def ids_distinct_def)
  show "(i, stp) \<in> set (saga_keys db)" using ok findById_Some [OF assms(2)] by (auto simp: booking_ok_def sagas_ok_def)
qed

lemma permitted_simps [simp]:
  "permittedStates (paymentPending_args i p) = [SeatsHeld]" "permittedStates (confirming_args i) = [PaymentPending]"
  "permittedStates (confirmed_args i) = [Confirming]" "permittedStates (cancelling_args i) = [Confirmed, SeatsHeld]"
  "permittedStates (cancelled_args i) = [Cancelling]"
  by (simp_all add: permittedStates_def paymentPending_args_def confirming_args_def confirmed_args_def
      cancelling_args_def cancelled_args_def)

lemma target_simps [simp]:
  "ta_target (paymentPending_args i p) = PaymentPending" "ta_target (confirming_args i) = Confirming"
  "ta_target (confirmed_args i) = Confirmed" "ta_target (cancelling_args i) = Cancelling" "ta_target (cancelled_args i) = Cancelled"
  by (simp_all add: paymentPending_args_def confirming_args_def confirmed_args_def cancelling_args_def cancelled_args_def)

lemma no_updates:
  "advanced (confirming_args i) b = b\<lparr>b_status := Confirming, b_version := b_version b + 1\<rparr>"
  "advanced (confirmed_args i) b = b\<lparr>b_status := Confirmed, b_version := b_version b + 1\<rparr>"
  "advanced (cancelling_args i) b = b\<lparr>b_status := Cancelling, b_version := b_version b + 1\<rparr>"
  "advanced (cancelled_args i) b = b\<lparr>b_status := Cancelled, b_version := b_version b + 1\<rparr>"
  by (simp_all add: advanced_def with_updates_def confirming_args_def confirmed_args_def cancelling_args_def cancelled_args_def)

lemma event_simps:
  "bs_previousStatus (transition_event e args b) = Some (b_status b)"
  "bs_currentStatus (transition_event e args b) = ta_target args" "bs_version (transition_event e args b) = b_version b + 1"
  by (simp_all add: transition_event_def)

section \<open>Cancelling\<close>

text \<open>The status changes that events tell, in order.\<close>

definition told :: "BookingStatusChangedV1 list \<Rightarrow> (BookingStatus option \<times> BookingStatus) list" where
  "told es = map (\<lambda>e. (bs_previousStatus e, bs_currentStatus e)) es"

text \<open>C29: A cancellation, of a booking nobody else is changing, has three outcomes. An unknown booking is
  404 and somebody else's is 403, without effect. A booking that holds its seats or is confirmed is
  \<open>CANCELLED\<close> when the call returns, through \<open>CANCELLING\<close>, with two events of consecutive versions; these
  two events are all that leaves the service. So the booking is \<open>CANCELLED\<close> before the inventory
  service has released a seat, since it learns of the cancellation only from the events, and a
  confirmed booking is \<open>CANCELLED\<close> with no refund requested: its passengers, its seats, its saga rows
  and every other booking stay as they are. The comment of the method speaks of a release that is
  acknowledged first and the README of a refund that is paid first; the code awaits neither. In
  every other state, also while the payment is pending, the answer is 409 and nothing changes.\<close>

theorem cancel_booking_outcome:
  assumes "booking_step\<^sup>*\<^sup>* (empty_booking_db, []) (db, rs)"
  shows "case find_owned userId i db of
    Inl e \<Rightarrow> cancelBooking env now u i userId db = (Inl e, db) \<and>
      e = (if booking_findById i db = None then ApiError 404 ''BOOKING_NOT_FOUND'' else ApiError 403 ''BOOKING_FORBIDDEN'')
  | Inr b \<Rightarrow>
      if b_status b \<in> {SeatsHeld, Confirmed}
      then \<exists>db' es. cancelBooking env now u i userId db = (Inr (), db') \<and> rest_kept i db db' \<and>
        booking_findById i db' = Some (b\<lparr>b_status := Cancelled, b_version := b_version b + 2\<rparr>) \<and>
        booking_events db' = booking_events db @ es \<and>
        told es = [(Some (b_status b), Cancelling), (Some Cancelling, Cancelled)] \<and>
        map bs_version es = [b_version b + 1, b_version b + 2] \<and>
        length (bk_outbox db') = length (bk_outbox db) + 2 \<and> bk_sagas db' = bk_sagas db
      else cancelBooking env now u i userId db = (Inl (ApiError 409 ''BOOKING_INVALID_TRANSITION''), db)"
proof (cases "find_owned userId i db")
  case (Inl e)
  then show ?thesis by (auto simp: cancelBooking_def find_owned_def split: option.splits if_splits)
next
  case (Inr b)
  then have f: "booking_findById i db = Some b" by (auto simp: find_owned_def split: option.splits if_splits)
  have now: "booking_now b db" and i: "b_id b = i" using booking_now_reach [OF assms f] by simp_all
  show ?thesis
  proof (cases "b_status b \<in> {SeatsHeld, Confirmed}")
    case True
    obtain db1 where t1: "transition env now (u 0) (cancelling_args i) db = (Inr (), db1)"
      and a1: "advances (cancelling_args i) (u 0) b db db1"
      using transition_advances [OF now] i called_intros(4) True by fastforce
    let ?b1 = "advanced (cancelling_args i) b"
    have n1: "booking_now ?b1 db1" "b_id ?b1 = i" "b_status ?b1 = Cancelling" using a1 i by (simp_all add: advances_def)
    obtain db2 where t2: "transition env now (u 1) (cancelled_args i) db1 = (Inr (), db2)"
      and a2: "advances (cancelled_args i) (u 1) ?b1 db1 db2"
      using transition_advances [OF n1(1)] n1(2,3) called_intros(5) by fastforce
    let ?es = "[transition_event (u 0) (cancelling_args i) b, transition_event (u 1) (cancelled_args i) ?b1]"
    have "cancelBooking env now u i userId db = (Inr (), db2)"
      using Inr t1 t2 by (simp add: cancelBooking_def then_proc_def)
    moreover have "rest_kept i db db2" using rest_kept_trans [OF advances_rest [OF a1 i] advances_rest [OF a2 n1(2)]] .
    moreover have "advanced (cancelled_args i) ?b1 = b\<lparr>b_status := Cancelled, b_version := b_version b + 2\<rparr>"
      by (simp add: no_updates)
    then have "booking_findById i db2 = Some (b\<lparr>b_status := Cancelled, b_version := b_version b + 2\<rparr>)"
      using a2 i by (simp add: advances_def booking_now_def)
    moreover have "booking_events db2 = booking_events db @ ?es" using a1 a2 by (simp add: advances_def)
    moreover have "told ?es = [(Some (b_status b), Cancelling), (Some Cancelling, Cancelled)]"
      "map bs_version ?es = [b_version b + 1, b_version b + 2]" by (simp_all add: told_def event_simps)
    moreover have "length (bk_outbox db2) = length (bk_outbox db) + 2" "bk_sagas db2 = bk_sagas db"
      using a1 a2 by (simp_all add: advances_def)
    ultimately show ?thesis unfolding Inr sum.case if_P [OF True] by (intro exI conjI)
  next
    case False
    then have "transition env now (u 0) (cancelling_args i) db = (Inl (ApiError 409 ''BOOKING_INVALID_TRANSITION''), db)"
      using transition_refused [OF now] i called_intros(4) by auto
    then show ?thesis using Inr False by (simp add: cancelBooking_def then_proc_def)
  qed
qed

section \<open>The saga log\<close>

lemma saga_status_update:
  assumes "saga_update i stp st err db = Inr (x, db')"
  shows "saga_status j stp' db' = (if j = i \<and> stp' = stp then Some st else saga_status j stp' db)"
proof -
  let ?p = "\<lambda>g. sg_bookingId g = j \<and> sg_step g = stp'" and ?q = "\<lambda>g. sg_bookingId g = i \<and> sg_step g = stp"
  let ?f = "\<lambda>g. if ?q g then g\<lparr>sg_status := st, sg_error := err\<rparr> else g"
  have rows: "bk_sagas db' = map ?f (bk_sagas db)" and ex: "\<exists>g \<in> set (bk_sagas db). ?q g"
    using assms unfolding saga_update_Inr by auto
  have f: "find_row ?p (map ?f (bk_sagas db)) = map_option ?f (find_row ?p (bk_sagas db))"
    by (rule find_row_map) simp
  show ?thesis
  proof (cases "find_row ?p (bk_sagas db)")
    case None
    then have "\<not> (j = i \<and> stp' = stp)" using ex by (auto simp: find_row_None_iff)
    then show ?thesis using None f unfolding saga_status_def saga_findByBookingAndStep_def rows by simp
  next
    case (Some g)
    then have "?p g" by (rule find_row_Some [THEN conjunct2])
    then show ?thesis using Some f unfolding saga_status_def saga_findByBookingAndStep_def rows by auto
  qed
qed

lemma saga_update_total:
  assumes "(i, stp) \<in> set (saga_keys db)"
  shows "\<exists>db'. saga_update i stp st err db = Inr ((), db') \<and> saga_keys db' = saga_keys db \<and>
    bk_bookings db' = bk_bookings db \<and> bk_outbox db' = bk_outbox db \<and> rest_kept i db db' \<and>
    saga_status i stp db' = Some st \<and> (\<forall>stp'. stp' \<noteq> stp \<longrightarrow> saga_status i stp' db' = saga_status i stp' db)"
proof -
  have "\<exists>g \<in> set (bk_sagas db). sg_bookingId g = i \<and> sg_step g = stp" using assms by (auto simp: saga_keys_def)
  then obtain db' where u: "saga_update i stp st err db = Inr ((), db')" unfolding saga_update_Inr by blast
  then have "rest_kept i db db'" unfolding saga_update_Inr by (auto simp: rest_kept_def booking_findById_def)
  then show ?thesis using u saga_update_keys [OF u] saga_status_update [OF u] by auto
qed

section \<open>A payment event\<close>

text \<open>The steps of a confirmation, each as it happens on the current row.\<close>

lemma confirm_from_pending:
  assumes now: "booking_now b db" and i: "b_id b = i" and st: "b_status b = PaymentPending"
    and sagas: "\<And>stp. (i, stp) \<in> set (saga_keys db)"
  shows "\<exists>db' es. then_proc (transition env now (u 2) (confirming_args i))
      (\<lambda>_. then_proc (transition env now (u 3) (confirmed_args i))
        (\<lambda>_. transaction (saga_update i CONFIRM_SEATS Step_COMPLETED None))) db = (Inr (), db') \<and>
    rest_kept i db db' \<and> booking_now (b\<lparr>b_status := Confirmed, b_version := b_version b + 2\<rparr>) db' \<and>
    booking_events db' = booking_events db @ es \<and>
    told es = [(Some PaymentPending, Confirming), (Some Confirming, Confirmed)] \<and> saga_keys db' = saga_keys db"
proof -
  obtain db1 where t1: "transition env now (u 2) (confirming_args i) db = (Inr (), db1)"
    and a1: "advances (confirming_args i) (u 2) b db db1"
    using transition_advances [OF now] i called_intros(2) st by fastforce
  let ?b1 = "advanced (confirming_args i) b"
  have n1: "booking_now ?b1 db1" "b_id ?b1 = i" "b_status ?b1 = Confirming" using a1 i by (simp_all add: advances_def)
  obtain db2 where t2: "transition env now (u 3) (confirmed_args i) db1 = (Inr (), db2)"
    and a2: "advances (confirmed_args i) (u 3) ?b1 db1 db2"
    using transition_advances [OF n1(1)] n1(2,3) called_intros(3) by fastforce
  have k: "saga_keys db2 = saga_keys db" using a1 a2 by (simp add: advances_def saga_keys_def)
  obtain db3 where t3: "saga_update i CONFIRM_SEATS Step_COMPLETED None db2 = Inr ((), db3)"
    and a3: "saga_keys db3 = saga_keys db2" "bk_bookings db3 = bk_bookings db2" "bk_outbox db3 = bk_outbox db2" "rest_kept i db2 db3"
    using saga_update_total [of i CONFIRM_SEATS db2] sagas k by metis
  let ?es = "[transition_event (u 2) (confirming_args i) b, transition_event (u 3) (confirmed_args i) ?b1]"
  have "advanced (confirmed_args i) ?b1 = b\<lparr>b_status := Confirmed, b_version := b_version b + 2\<rparr>"
    by (simp add: no_updates)
  then have "booking_now (b\<lparr>b_status := Confirmed, b_version := b_version b + 2\<rparr>) db3"
    using a2 a3(2) by (simp add: advances_def booking_now_def booking_findById_def)
  moreover have "rest_kept i db db3" 
    using rest_kept_trans [OF rest_kept_trans [OF advances_rest [OF a1 i] advances_rest [OF a2 n1(2)]] a3(4)] .
  moreover have "booking_events db3 = booking_events db @ ?es" using a1 a2 a3(3) by (simp add: advances_def booking_events_def)
  moreover have "told ?es = [(Some PaymentPending, Confirming), (Some Confirming, Confirmed)]"
    using st by (simp add: told_def event_simps)
  ultimately show ?thesis using t1 t2 t3 k a3(1)
    by (intro exI [of _ db3] exI [of _ ?es]) (simp add: then_proc_def transaction_Inr)
qed

definition paid_path :: "BookingStatus \<Rightarrow> (BookingStatus option \<times> BookingStatus) list" where
  "paid_path st = (if st = SeatsHeld then [(Some SeatsHeld, PaymentPending)] else []) @
     [(Some PaymentPending, Confirming), (Some Confirming, Confirmed)]"

lemma confirm_payment:
  assumes now: "booking_now b db" and i: "b_id b = i" and st: "b_status b \<in> {SeatsHeld, PaymentPending}"
    and sagas: "\<And>stp. (i, stp) \<in> set (saga_keys db)"
  shows "\<exists>db' b' es. confirmPayment env now u i (b_userId b) db = (Inr (), db') \<and> rest_kept i db db' \<and>
    booking_now b' db' \<and> same_booking b b' \<and> b_status b' = Confirmed \<and> b_totalPrice b' = b_totalPrice b \<and>
    booking_events db' = booking_events db @ es \<and> told es = paid_path (b_status b) \<and> saga_keys db' = saga_keys db"
proof -
  have owned: "find_owned (b_userId b) i db = Inr b" using now i by (simp add: find_owned_def booking_now_def)
  show ?thesis
  proof (cases "b_status b = SeatsHeld")
    case False
    then have st: "b_status b = PaymentPending" using st by simp
    from confirm_from_pending [OF now i st sagas, of env now u] obtain db' es where c:
      "then_proc (transition env now (u 2) (confirming_args i))
         (\<lambda>_. then_proc (transition env now (u 3) (confirmed_args i))
           (\<lambda>_. transaction (saga_update i CONFIRM_SEATS Step_COMPLETED None))) db = (Inr (), db')"
      "rest_kept i db db'" "booking_now (b\<lparr>b_status := Confirmed, b_version := b_version b + 2\<rparr>) db'"
      "booking_events db' = booking_events db @ es" "told es = [(Some PaymentPending, Confirming), (Some Confirming, Confirmed)]"
      "saga_keys db' = saga_keys db" by blast
    have "confirmPayment env now u i (b_userId b) db = (Inr (), db')"
      using c(1) owned False by (simp add: confirmPayment_def markConfirming_def markConfirmed_def then_proc_def)
    moreover have "told es = paid_path (b_status b)" using c(5) st by (simp add: paid_path_def)
    ultimately show ?thesis using c(2-4,6)
      by (intro exI [of _ db'] exI [of _ "b\<lparr>b_status := Confirmed, b_version := b_version b + 2\<rparr>"] exI [of _ es])
        (simp add: same_booking_def)
  next
    case True
    let ?pay = "paymentPending_args i (''PAY-'' @ u 0)"
    obtain db1 where t1: "transition env now (u 1) ?pay db = (Inr (), db1)" and a1: "advances ?pay (u 1) b db db1"
      using transition_advances [OF now] i called_intros(1) True by fastforce
    let ?b1 = "advanced ?pay b"
    have n1: "booking_now ?b1 db1" "b_id ?b1 = i" "b_status ?b1 = PaymentPending" using a1 i by (simp_all add: advances_def)
    have k1: "saga_keys db1 = saga_keys db" using a1 by (simp add: advances_def saga_keys_def)
    have s1: "(i, stp) \<in> set (saga_keys db1)" for stp using sagas k1 by simp
    from confirm_from_pending [OF n1 s1, of env now u] obtain db' es where c:
      "then_proc (transition env now (u 2) (confirming_args i))
         (\<lambda>_. then_proc (transition env now (u 3) (confirmed_args i))
           (\<lambda>_. transaction (saga_update i CONFIRM_SEATS Step_COMPLETED None))) db1 = (Inr (), db')"
      "rest_kept i db1 db'" "booking_now (?b1\<lparr>b_status := Confirmed, b_version := b_version ?b1 + 2\<rparr>) db'"
      "booking_events db' = booking_events db1 @ es" "told es = [(Some PaymentPending, Confirming), (Some Confirming, Confirmed)]"
      "saga_keys db' = saga_keys db1" by blast
    let ?es = "transition_event (u 1) ?pay b # es"
    have "confirmPayment env now u i (b_userId b) db = (Inr (), db')"
      using c(1) owned True t1
      by (simp add: confirmPayment_def markPaymentPending_def markConfirming_def markConfirmed_def then_proc_def)
    moreover have "rest_kept i db db'" using rest_kept_trans [OF advances_rest [OF a1 i] c(2)] .
    moreover have "booking_events db' = booking_events db @ ?es" using a1 c(4) by (simp add: advances_def)
    moreover have "told ?es = paid_path (b_status b)" using c(5) True by (simp add: told_def event_simps paid_path_def)
    moreover have "same_booking b (?b1\<lparr>b_status := Confirmed, b_version := b_version ?b1 + 2\<rparr>)"
      by (auto simp: same_booking_def advanced_def with_updates_def apply_updates_def split: option.split)
    ultimately show ?thesis using c(3,6) k1
      by (intro exI [of _ db'] exI [of _ "?b1\<lparr>b_status := Confirmed, b_version := b_version ?b1 + 2\<rparr>"] exI [of _ ?es]) simp
  qed
qed

lemma payment_body_confirms:
  assumes now: "booking_now b db" and i: "b_id b = i" and st: "b_status b \<in> {SeatsHeld, PaymentPending}"
    and sagas: "\<And>stp. (i, stp) \<in> set (saga_keys db)"
  shows "\<exists>db' b' es. payment_body env now u i db = (Inr (), db') \<and> rest_kept i db db' \<and>
    booking_findById i db' = Some b' \<and> same_booking b b' \<and> b_status b' = Confirmed \<and> b_totalPrice b' = b_totalPrice b \<and>
    booking_events db' = booking_events db @ es \<and> told es = paid_path (b_status b) \<and>
    saga_status i CREATE_PAYMENT db' = Some Step_COMPLETED \<and> saga_status i CONFIRM_SEATS db' = Some Step_COMPLETED"
proof -
  have f: "booking_findById i db = Some b" using now i by (simp add: booking_now_def)
  obtain db0 where u0: "saga_update i CREATE_PAYMENT Step_COMPLETED None db = Inr ((), db0)"
    using saga_update_total [OF sagas] by blast
  obtain db1 b' es where c: "confirmPayment env now u i (b_userId b) db = (Inr (), db1)" "rest_kept i db db1"
    "booking_now b' db1" "same_booking b b'" "b_status b' = Confirmed" "b_totalPrice b' = b_totalPrice b"
    "booking_events db1 = booking_events db @ es" "told es = paid_path (b_status b)" "saga_keys db1 = saga_keys db"
    using confirm_payment [OF now i st sagas] by metis
  obtain db2 where u2: "saga_update i CREATE_PAYMENT Step_COMPLETED None db1 = Inr ((), db2)" "saga_keys db2 = saga_keys db1"
    "bk_bookings db2 = bk_bookings db1" "bk_outbox db2 = bk_outbox db1" "rest_kept i db1 db2"
    "saga_status i CREATE_PAYMENT db2 = Some Step_COMPLETED"
    using saga_update_total [of i CREATE_PAYMENT db1] sagas c(9) by metis
  obtain db3 where u3: "saga_update i CONFIRM_SEATS Step_COMPLETED None db2 = Inr ((), db3)"
    "bk_bookings db3 = bk_bookings db2" "bk_outbox db3 = bk_outbox db2" "rest_kept i db2 db3"
    "saga_status i CONFIRM_SEATS db3 = Some Step_COMPLETED" "saga_status i CREATE_PAYMENT db3 = saga_status i CREATE_PAYMENT db2"
    using saga_update_total [of i CONFIRM_SEATS db2] sagas c(9) u2(2) by (metis SagaStep.distinct(5))
  have "b_id b' = i" using c(4) i by (simp add: same_booking_def)
  then have "booking_findById i db3 = Some b'" using c(3) u2(3) u3(2) by (simp add: booking_now_def booking_findById_def)
  moreover have "booking_events db3 = booking_events db @ es" using c(7) u2(4) u3(3) by (simp add: booking_events_def)
  moreover have "rest_kept i db db3" using rest_kept_trans [OF rest_kept_trans [OF c(2) u2(5)] u3(4)] .
  moreover have "payment_body env now u i db = (Inr (), db3)"
    using f st u0 c(1) u2(1) u3(1) by (auto simp: payment_body_def then_proc_def transaction_Inr)
  ultimately show ?thesis using c(4-6,8) u2(6) u3(5,6)
    by (intro exI [of _ db3] exI [of _ b'] exI [of _ es]) simp
qed

lemma payment_body_confirming:
  assumes now: "booking_now b db" and i: "b_id b = i" and st: "b_status b = Confirming"
    and sagas: "\<And>stp. (i, stp) \<in> set (saga_keys db)"
  shows "payment_body env now u i db = (Inl (ApiError 409 ''BOOKING_INVALID_TRANSITION''), db)"
proof -
  have f: "booking_findById i db = Some b" using now i by (simp add: booking_now_def)
  obtain db0 where u0: "saga_update i CREATE_PAYMENT Step_COMPLETED None db = Inr ((), db0)"
    using saga_update_total [OF sagas] by blast
  have "transition env now (u 2) (confirming_args i) db = (Inl (ApiError 409 ''BOOKING_INVALID_TRANSITION''), db)"
    using transition_refused [OF now] i called_intros(2) st by auto
  then show ?thesis using f u0 st by (simp add: payment_body_def confirmPayment_def find_owned_def then_proc_def markConfirming_def)
qed

text \<open>The wrapper over a healthy connection, for an event it has not seen.\<close>

lemma once_new:
  assumes "redis_get now (buildKey c key) st = None" and "0 < processingLeaseSeconds c" and "0 < processedTtlSeconds c"
  shows "once c (Reply, Reply, Reply) now key body (db, st) =
    (case body db of
       (Inr _, db1) \<Rightarrow> (Inr True, (db1, st(buildKey c key \<mapsto> (PROCESSED, Some (now + processedTtlSeconds c * 1000)))))
     | (Inl e, db1) \<Rightarrow> (Inl e, (db1, st(buildKey c key := None))))"
  using assms
  by (cases "body db"; cases "fst (body db)")
    (auto simp: once_def Let_def reserveIfNew_def markProcessed_def release_def over_link_def redis_set_nx_ex_def
      redis_set_ex_def releaseIfProcessing_def redis_get_upd redis_del_def)

lemma payment_success_parts:
  assumes "booking_step\<^sup>*\<^sup>* (empty_booking_db, []) (db, rs)"
    and "redis_get now (buildKey c (''booking:payment_success:'' @ ps_eventId ev)) st = None"
    and "0 < processingLeaseSeconds c" and "0 < processedTtlSeconds c"
    and "handlePaymentSuccess env c (Reply, Reply, Reply) now u ev (db, st) = (r, (db', st'))"
  shows "case booking_findById (ps_bookingId ev) db of
      None \<Rightarrow> r = Inr () \<and> db' = db
    | Some b \<Rightarrow>
        if b_status b \<in> {SeatsHeld, PaymentPending}
        then r = Inr () \<and> rest_kept (b_id b) db db' \<and>
          (\<exists>b' es. booking_findById (b_id b) db' = Some b' \<and> same_booking b b' \<and> b_status b' = Confirmed \<and>
             b_totalPrice b' = b_totalPrice b \<and> booking_events db' = booking_events db @ es \<and> told es = paid_path (b_status b)) \<and>
          saga_status (b_id b) CREATE_PAYMENT db' = Some Step_COMPLETED \<and> saga_status (b_id b) CONFIRM_SEATS db' = Some Step_COMPLETED
        else if b_status b = Confirming
        then r = Inl (ApiError 409 ''BOOKING_INVALID_TRANSITION'') \<and> db' = db
        else r = Inr () \<and> db' = db"
    and "redis_get now (buildKey c (''booking:payment_success:'' @ ps_eventId ev)) st' =
      (if r = Inr () then Some PROCESSED else None)"
proof -
  let ?i = "ps_bookingId ev"
  note o = once_new [OF assms(2-4), of "payment_body env now u ?i" db]
  have run: "r = fst (payment_body env now u ?i db) \<and> db' = snd (payment_body env now u ?i db) \<and>
      redis_get now (buildKey c (''booking:payment_success:'' @ ps_eventId ev)) st' = (if r = Inr () then Some PROCESSED else None)"
    using assms(4,5) unfolding handlePaymentSuccess_def o
    by (cases "payment_body env now u ?i db"; cases "fst (payment_body env now u ?i db)") (auto simp: redis_get_def live_def)
  then show "redis_get now (buildKey c (''booking:payment_success:'' @ ps_eventId ev)) st' =
      (if r = Inr () then Some PROCESSED else None)" by blast
  show "case booking_findById ?i db of
      None \<Rightarrow> r = Inr () \<and> db' = db
    | Some b \<Rightarrow>
        if b_status b \<in> {SeatsHeld, PaymentPending}
        then r = Inr () \<and> rest_kept (b_id b) db db' \<and>
          (\<exists>b' es. booking_findById (b_id b) db' = Some b' \<and> same_booking b b' \<and> b_status b' = Confirmed \<and>
             b_totalPrice b' = b_totalPrice b \<and> booking_events db' = booking_events db @ es \<and> told es = paid_path (b_status b)) \<and>
          saga_status (b_id b) CREATE_PAYMENT db' = Some Step_COMPLETED \<and> saga_status (b_id b) CONFIRM_SEATS db' = Some Step_COMPLETED
        else if b_status b = Confirming
        then r = Inl (ApiError 409 ''BOOKING_INVALID_TRANSITION'') \<and> db' = db
        else r = Inr () \<and> db' = db"
  proof (cases "booking_findById ?i db")
    case None
    then show ?thesis using run by (simp add: payment_body_def)
  next
    case (Some b)
    note b = booking_now_reach [OF assms(1) Some]
    show ?thesis
    proof (cases "b_status b \<in> {SeatsHeld, PaymentPending}")
      case True
      then show ?thesis using payment_body_confirms [OF b(1,2) True b(3), of env now u] run Some b(2) by auto
    next
      case False
      then show ?thesis using payment_body_confirming [OF b(1,2) _ b(3), of env now u] run Some
        by (cases "b_status b = Confirming") (simp_all add: payment_body_def)
    qed
  qed
qed

text \<open>C21: The event of a successful payment, delivered for the first time over a healthy connection. A
  booking that holds its seats or waits for the payment is confirmed, with the events of every
  step, its price unchanged and both saga rows completed. A booking that is \<open>CONFIRMING\<close>, because an
  earlier delivery stopped half way, can never be confirmed by the retry: the handler admits this
  state, but its first transition starts from \<open>PAYMENT_PENDING\<close> only, so it fails with 409, changes
  nothing and gives the event free for the next retry, which fails the same way. In every other
  state, and for an unknown booking, the event changes nothing. Without an error the event is
  marked processed.\<close>

theorem payment_success_outcome:
  assumes "booking_step\<^sup>*\<^sup>* (empty_booking_db, []) (db, rs)"
    and "redis_get now (buildKey c (''booking:payment_success:'' @ ps_eventId ev)) st = None"
    and "0 < processingLeaseSeconds c" and "0 < processedTtlSeconds c"
    and "handlePaymentSuccess env c (Reply, Reply, Reply) now u ev (db, st) = (r, (db', st'))"
  shows "(case booking_findById (ps_bookingId ev) db of
      None \<Rightarrow> r = Inr () \<and> db' = db
    | Some b \<Rightarrow>
        if b_status b \<in> {SeatsHeld, PaymentPending}
        then r = Inr () \<and> rest_kept (b_id b) db db' \<and>
          (\<exists>b' es. booking_findById (b_id b) db' = Some b' \<and> same_booking b b' \<and> b_status b' = Confirmed \<and>
             b_totalPrice b' = b_totalPrice b \<and> booking_events db' = booking_events db @ es \<and> told es = paid_path (b_status b)) \<and>
          saga_status (b_id b) CREATE_PAYMENT db' = Some Step_COMPLETED \<and> saga_status (b_id b) CONFIRM_SEATS db' = Some Step_COMPLETED
        else if b_status b = Confirming
        then r = Inl (ApiError 409 ''BOOKING_INVALID_TRANSITION'') \<and> db' = db
        else r = Inr () \<and> db' = db) \<and>
    redis_get now (buildKey c (''booking:payment_success:'' @ ps_eventId ev)) st' =
      (if r = Inr () then Some PROCESSED else None)"
  using payment_success_parts [OF assms] by (rule conjI)

definition demo_paid :: PaymentSuccessV1 where
  "demo_paid = \<lparr>ps_eventId = ''paid'', ps_bookingId = ''id-0'', ps_paymentId = ''pay'', ps_paymentOrderId = ''order'',
     ps_razorpayPaymentId = ''rzp'', ps_amount = ''150'', ps_source = CLIENT\<rparr>"

theorem payment_success_outcome_witness:
  "let p = handlePaymentSuccess demo_env demo_idem (Reply, Reply, Reply) 20 demo_ids demo_paid (demo_after_held, Map.empty)
   in map_option b_status (booking_findById ''id-0'' (fst (snd p))) = Some Confirmed \<and>
      redis_get 20 ''ks:booking:payment_success:paid'' (snd (snd p)) = Some PROCESSED"
proof -
  let ?p = "handlePaymentSuccess demo_env demo_idem (Reply, Reply, Reply) 20 demo_ids demo_paid (demo_after_held, Map.empty)"
  obtain rs where 1: "booking_step\<^sup>*\<^sup>* (empty_booking_db, []) (demo_after_held, rs)"
    using runs_trans [OF runs_demo] by (auto simp: runs_def)
  have 2: "redis_get 20 (buildKey demo_idem (''booking:payment_success:'' @ ps_eventId demo_paid)) Map.empty = None"
    by (simp add: redis_get_def)
  have 3: "0 < processingLeaseSeconds demo_idem" "0 < processedTtlSeconds demo_idem" by (simp_all add: demo_idem_def)
  have p: "?p = (fst ?p, (fst (snd ?p), snd (snd ?p)))" by simp
  have "map_option b_status (booking_findById ''id-0'' demo_after_held) = Some PaymentPending" by code_simp
  then obtain b where b: "booking_findById (ps_bookingId demo_paid) demo_after_held = Some b" "b_status b = PaymentPending"
    by (auto simp: demo_paid_def)
  have i: "b_id b = ''id-0''" using findById_Some [OF b(1)] by (simp add: demo_paid_def)
  have "fst ?p = Inr ()" "map_option b_status (booking_findById ''id-0'' (fst (snd ?p))) = Some Confirmed"
    using conjunct1 [OF payment_success_outcome [OF 1 2 3 p]] b i by auto
  moreover from this have "redis_get 20 (buildKey demo_idem (''booking:payment_success:'' @ ps_eventId demo_paid)) (snd (snd ?p)) = Some PROCESSED"
    using conjunct2 [OF payment_success_outcome [OF 1 2 3 p]] by simp
  ultimately show ?thesis by (simp add: Let_def buildKey_def demo_idem_def demo_paid_def)
qed

section \<open>A cancellation after the payment\<close>

definition demo_after_paid :: booking_db where
  "demo_after_paid = fst (snd (handlePaymentSuccess demo_env demo_idem (Reply, Reply, Reply) 20 demo_ids demo_paid (demo_after_held, Map.empty)))"

lemma runs_paid: "runs empty_booking_db demo_after_paid"
proof -
  have "runs demo_after_held demo_after_paid"
    using service_call_runs [OF delivers.paid [where seen = "\<lambda>_. True" and s = "(demo_after_held, Map.empty)" and env = demo_env
      and c = demo_idem and links = "(Reply, Reply, Reply)" and now = 20 and u = demo_ids and evp = demo_paid]]
    by (simp add: demo_after_paid_def)
  then show ?thesis using runs_trans [OF runs_trans [OF runs_demo]] by blast
qed

text \<open>The paid booking is confirmed at version 5, and its owner, cancels it:
  the call leaves it \<open>CANCELLED\<close> at version 7. Before the payment the same call is
  refused.\<close>

theorem cancel_booking_outcome_witness:
  "(let p = cancelBooking demo_env 30 demo_ids ''id-0'' ''user'' demo_after_paid
    in fst p = Inr () \<and> map_option b_status (booking_findById ''id-0'' (snd p)) = Some Cancelled \<and>
       map_option b_version (booking_findById ''id-0'' (snd p)) = Some 7 \<and>
       (\<exists>es. booking_events (snd p) = booking_events demo_after_paid @ es \<and> told es = [(Some Confirmed, Cancelling), (Some Cancelling, Cancelled)])) \<and>
   cancelBooking demo_env 30 demo_ids ''id-0'' ''mallory'' demo_after_paid = (Inl (ApiError 403 ''BOOKING_FORBIDDEN''), demo_after_paid) \<and>
   cancelBooking demo_env 20 demo_ids ''id-0'' ''user'' demo_after_held =
     (Inl (ApiError 409 ''BOOKING_INVALID_TRANSITION''), demo_after_held)"
proof (intro conjI)
  obtain rs where 1: "booking_step\<^sup>*\<^sup>* (empty_booking_db, []) (demo_after_paid, rs)"
    using runs_paid by (auto simp: runs_def)
  have "map_option b_status (booking_findById ''id-0'' demo_after_paid) = Some Confirmed"
    "map_option b_version (booking_findById ''id-0'' demo_after_paid) = Some 5"
    "map_option b_userId (booking_findById ''id-0'' demo_after_paid) = Some ''user''" by code_simp+
  then obtain b where b: "booking_findById ''id-0'' demo_after_paid = Some b" "b_status b = Confirmed" "b_version b = 5" "b_userId b = ''user''"
    by auto
  note c = cancel_booking_outcome [OF 1, where i = "''id-0''" and env = demo_env and now = 30 and u = demo_ids]
  have o: "find_owned ''user'' ''id-0'' demo_after_paid = Inr b"
    "find_owned ''mallory'' ''id-0'' demo_after_paid = Inl (ApiError 403 ''BOOKING_FORBIDDEN'')"
    using b by (auto simp: find_owned_def)
  show "let p = cancelBooking demo_env 30 demo_ids ''id-0'' ''user'' demo_after_paid
    in fst p = Inr () \<and> map_option b_status (booking_findById ''id-0'' (snd p)) = Some Cancelled \<and>
       map_option b_version (booking_findById ''id-0'' (snd p)) = Some 7 \<and>
       (\<exists>es. booking_events (snd p) = booking_events demo_after_paid @ es \<and> told es = [(Some Confirmed, Cancelling), (Some Cancelling, Cancelled)])"
    using c [where userId = "''user''"] b by (auto simp: o Let_def)
  show "cancelBooking demo_env 30 demo_ids ''id-0'' ''mallory'' demo_after_paid = (Inl (ApiError 403 ''BOOKING_FORBIDDEN''), demo_after_paid)"
    using c [where userId = "''mallory''"] by (simp add: o)
next
  obtain rs where 1: "booking_step\<^sup>*\<^sup>* (empty_booking_db, []) (demo_after_held, rs)"
    using runs_trans [OF runs_demo] by (auto simp: runs_def)
  have "map_option b_status (booking_findById ''id-0'' demo_after_held) = Some PaymentPending"
    "map_option b_userId (booking_findById ''id-0'' demo_after_held) = Some ''user''" by code_simp+
  then obtain b where "find_owned ''user'' ''id-0'' demo_after_held = Inr b" "b_status b = PaymentPending"
    by (auto simp: find_owned_def)
  with cancel_booking_outcome [OF 1, where userId = "''user''" and i = "''id-0''" and env = demo_env and now = 20 and u = demo_ids]
  show "cancelBooking demo_env 20 demo_ids ''id-0'' ''user'' demo_after_held =
     (Inl (ApiError 409 ''BOOKING_INVALID_TRANSITION''), demo_after_held)" by simp
qed

end
