(* ===== verification/Railway.thy ===== *)
theory Railway
  imports BookingCalls HoldSeats
begin

text \<open>
  The booking service and the inventory service together. They share no state: each one's outbox
  is what the other's consumers see. \<open>rail_step\<close> is one committed transaction of either service; a
  step that consumes an event needs that event in the other service's outbox, and nothing else
  restricts the order, the delay or the number of deliveries. The hold transaction uses the stops
  that an earlier read, of any state \<open>iv0\<close>, resolved for the request. \<open>rail_ok\<close> connects the two databases,
  and from it follows the promise neither service can make alone: whoever is shown a held or
  confirmed booking owns its seats.
\<close>

section \<open>Steps of the two services\<close>

type_synonym rail = "booking_sys \<times> inventory_db"

definition booked :: "rail \<Rightarrow> event set" where
  "booked s = set (outbox_payloads (bk_outbox (fst (fst s))))"

definition replied :: "rail \<Rightarrow> event set" where
  "replied s = set (outbox_payloads (iv_outbox (snd s)))"

inductive rail_step :: "rail \<Rightarrow> rail \<Rightarrow> bool" where
  reads: "b \<in> set (bk_bookings db) \<Longrightarrow> rail_step ((db, rs), iv) ((db, b # rs), iv)"
| creates: "create_tx env now u bytes userId dto ids db = Inr (r, db') \<Longrightarrow> rail_step ((db, rs), iv) ((db', rs), iv)"
| transitions: "b \<in> set rs \<Longrightarrow> called_args (b_id b) args \<Longrightarrow> b_status b \<in> set (permittedStates args) \<Longrightarrow>
    transition_commit env now eventId args b db = Inr ((), db') \<Longrightarrow> rail_step ((db, rs), iv) ((db', rs), iv)"
| logs: "saga_update i stp st err db = Inr ((), db') \<Longrightarrow> rail_step ((db, rs), iv) ((db', rs), iv)"
| holds: "EvSeatsHeld held \<in> set (outbox_payloads (iv_outbox iv)) \<Longrightarrow> b \<in> set rs \<Longrightarrow> b_id b = sh_bookingId held \<Longrightarrow>
    b_status b = Pending \<Longrightarrow> held_commit held b db = Inr ((), db') \<Longrightarrow> rail_step ((db, rs), iv) ((db', rs), iv)"
| hold_fails: "EvSeatsHoldFailed hfail \<in> set (outbox_payloads (iv_outbox iv)) \<Longrightarrow> b \<in> set rs \<Longrightarrow>
    b_id b = hf_bookingId hfail \<Longrightarrow> b_status b = Pending \<Longrightarrow>
    hold_failed_commit hfail b db = Inr ((), db') \<Longrightarrow> rail_step ((db, rs), iv) ((db', rs), iv)"
| hold_expires: "EvSeatHoldExpired hexp \<in> set (outbox_payloads (iv_outbox iv)) \<Longrightarrow> b \<in> set rs \<Longrightarrow>
    b_id b = he_bookingId hexp \<Longrightarrow> b_status b \<in> {SeatsHeld, Pending} \<Longrightarrow>
    hold_expired_commit hexp b db = Inr ((), db') \<Longrightarrow> rail_step ((db, rs), iv) ((db', rs), iv)"
| inv_hold: "HoldSeatsRequested req \<in> set (outbox_payloads (bk_outbox db)) \<Longrightarrow> resolveSegmentStops req iv0 = Some (fs, ts, d) \<Longrightarrow>
    commitHoldTransaction ienv now txErr failErr req key fs ts d m iv = (r, iv') \<Longrightarrow> rail_step ((db, rs), iv) ((db, rs), iv')"
| inv_fail: "HoldSeatsRequested req \<in> set (outbox_payloads (bk_outbox db)) \<Longrightarrow>
    fail ienv now failErr req reason name msg iv = (out, iv') \<Longrightarrow> rail_step ((db, rs), iv) ((db, rs), iv')"
| inv_status: "EvBookingStatusChanged bev \<in> set (outbox_payloads (bk_outbox db)) \<Longrightarrow>
    onBookingStatusChanged bev iv = (r, iv') \<Longrightarrow> rail_step ((db, rs), iv) ((db, rs), iv')"
| inv_created: "processCreated ienv now ce iv = (r, iv') \<Longrightarrow> rail_step ((db, rs), iv) ((db, rs), iv')"
| inv_changed: "processStatusChanged ienv now xe iv = (r, iv') \<Longrightarrow> rail_step ((db, rs), iv) ((db, rs), iv')"

lemma rail_booking: "rail_step s s' \<Longrightarrow> fst s' = fst s \<or> booking_step (fst s) (fst s')"
  by (induction rule: rail_step.induct) (auto intro: booking_step.intros)

lemma rail_inventory: "rail_step s s' \<Longrightarrow> snd s' = snd s \<or> inventory_step (snd s) (snd s')"
  by (induction rule: rail_step.induct) (auto intro: inventory_step.intros)

section \<open>Requests, replies and the rows they are about\<close>

fun hold_requests :: "event list \<Rightarrow> HoldSeatsRequestedV1 list" where
  "hold_requests [] = []"
| "hold_requests (HoldSeatsRequested e # es) = e # hold_requests es"
| "hold_requests (_ # es) = hold_requests es"

lemma hold_requests_append [simp]: "hold_requests (xs @ ys) = hold_requests xs @ hold_requests ys"
  by (induction xs rule: hold_requests.induct) simp_all

lemma hold_requests_mem [simp]: "q \<in> set (hold_requests es) \<longleftrightarrow> HoldSeatsRequested q \<in> set es"
  by (induction es rule: hold_requests.induct) auto

lemma status_events_mem [simp]: "e \<in> set (status_events es) \<longleftrightarrow> EvBookingStatusChanged e \<in> set es"
  by (induction es rule: status_events.induct) auto

definition asked :: "booking_db \<Rightarrow> HoldSeatsRequestedV1 list" where
  "asked db = hold_requests (outbox_payloads (bk_outbox db))"

text \<open>The states of a booking whose seats were held.\<close>

definition seated :: "BookingStatus set" where
  "seated = {SeatsHeld, PaymentPending, Confirming, Confirmed, Cancelling, Cancelled}"

definition final :: "BookingStatus set" where
  "final = {Cancelled, Expired, Failed}"

definition asked_ok :: "booking_db \<Rightarrow> bool" where
  "asked_ok db \<longleftrightarrow> map (\<lambda>q. (hr_bookingId q, hr_scheduleId q, hr_fromStaionId q, hr_toStationId q)) (asked db) =
     map (\<lambda>b. (b_id b, b_scheduleId b, b_fromStationId b, b_toStationId b)) (bk_bookings db)"

definition final_ok :: "booking_db \<Rightarrow> bool" where
  "final_ok db \<longleftrightarrow> (\<forall>e \<in> set (booking_events db). bs_currentStatus e \<in> final \<longrightarrow>
     (\<exists>r \<in> set (bk_bookings db). b_id r = bs_bookingId e \<and> b_status r = bs_currentStatus e))"

definition held_ok :: "rail \<Rightarrow> bool" where
  "held_ok s \<longleftrightarrow> (\<forall>r \<in> set (bk_bookings (fst (fst s))). b_status r \<in> seated \<longrightarrow>
     (\<exists>h. EvSeatsHeld h \<in> replied s \<and> sh_bookingId h = b_id r))"

text \<open>The allocation of seat \<open>i\<close> that answers the request \<open>q\<close>: its segment runs forward, between the
  stops that carry the sequence numbers of the request or lie at its stations.\<close>

definition answers :: "HoldSeatsRequestedV1 \<Rightarrow> ident \<Rightarrow> SeatAllocation \<Rightarrow> bool" where
  "answers q i a \<longleftrightarrow> al_bookingId a = hr_bookingId q \<and> al_seatInventoryId a = i \<and> al_scheduleId a = hr_scheduleId q \<and>
     al_fromSequence a < al_toSequence a \<and>
     (al_fromSequence a = hr_fromSequence q \<or> al_fromStationId a = hr_fromStaionId q) \<and>
     (al_toSequence a = hr_toSequence q \<or> al_toStationId a = hr_toStationId q)"

lemma answers_update [simp]: "answers q i (a\<lparr>al_status := x\<rparr>) = answers q i a" "answers q i (a\<lparr>al_id := k\<rparr>) = answers q i a"
  by (simp_all add: answers_def)

definition reply_ok :: "booking_db \<Rightarrow> inventory_db \<Rightarrow> SeatsHeldV1 \<Rightarrow> bool" where
  "reply_ok db iv h \<longleftrightarrow> (\<exists>q \<in> set (asked db). hr_bookingId q = sh_bookingId h \<and>
     (\<forall>i \<in> set (hr_seatInventoryIds q). \<exists>a \<in> set (iv_allocations iv). answers q i a))"

definition replies_ok :: "rail \<Rightarrow> bool" where
  "replies_ok s \<longleftrightarrow> (\<forall>h. EvSeatsHeld h \<in> replied s \<longrightarrow> reply_ok (fst (fst s)) (snd s) h)"

definition released_ok :: "rail \<Rightarrow> bool" where
  "released_ok s \<longleftrightarrow> (\<forall>a \<in> set (iv_allocations (snd s)). active a \<or>
     (\<exists>e \<in> set (booking_events (fst (fst s))). bs_bookingId e = al_bookingId a \<and> bs_currentStatus e \<in> final))"

definition rail_ok :: "rail \<Rightarrow> bool" where
  "rail_ok s \<longleftrightarrow> booking_ok (fst s) \<and> seats_ok (snd s) \<and> asked_ok (fst (fst s)) \<and> final_ok (fst (fst s)) \<and>
     held_ok s \<and> replies_ok s \<and> released_ok s"

definition rail_start :: rail where
  "rail_start = ((empty_booking_db, []), empty_inventory)"

lemma rail_ok_start: "rail_ok rail_start"
  unfolding rail_ok_def rail_start_def fst_conv snd_conv
  by (intro conjI booking_ok_empty empty_seats_ok)
    (simp_all add: asked_ok_def asked_def final_ok_def held_ok_def replies_ok_def replied_def released_ok_def
      empty_booking_db_def empty_inventory_def booking_events_def)

section \<open>Steps of the booking service\<close>

text \<open>A commit that asks for no seats, and brings only the bookings of \<open>T\<close> to \<open>SEATS_HELD\<close>.\<close>

definition quiet :: "ident set \<Rightarrow> booking_db \<Rightarrow> booking_db \<Rightarrow> bool" where
  "quiet T db db' \<longleftrightarrow> asked db' = asked db \<and> (\<forall>r' \<in> set (bk_bookings db'). b_status r' = SeatsHeld \<longrightarrow>
     (\<exists>r \<in> set (bk_bookings db). b_id r = b_id r' \<and> (b_status r = SeatsHeld \<or> b_id r \<in> T)))"

lemma asked_tables [simp]:
  "asked (emit_status env now e db) = asked db"
  "asked (db\<lparr>bk_bookings := x\<rparr>) = asked db" "asked (db\<lparr>bk_sagas := y\<rparr>) = asked db"
  by (simp_all add: asked_def emit_status_def booking_emit_def)

lemma quietI:
  assumes "asked db' = asked db" and "bk_bookings db' = map f (bk_bookings db)"
    and "\<And>r. b_id (f r) = b_id r" and "\<And>r. b_status (f r) = SeatsHeld \<Longrightarrow> b_status r = SeatsHeld \<or> b_id r \<in> T"
  shows "quiet T db db'"
  unfolding quiet_def assms(1,2) using assms(3,4) by (auto intro: bexI [rotated])

lemma called_not_held: "called_args i args \<Longrightarrow> ta_target args \<noteq> SeatsHeld"
  by (auto simp: called_args_def)

lemma quiet_transition:
  assumes "called_args (b_id b) args" and "transition_commit env now eventId args b db = Inr ((), db')"
  shows "quiet {} db db'"
proof -
  let ?f = "bump (b_id b) (ta_target args) (b_version b + 1) \<circ> with_updates args"
  have "db' = emit_status env now (transition_event eventId args b) (db\<lparr>bk_bookings := map ?f (bk_bookings db)\<rparr>)"
    using assms(2) unfolding transition_commit_eq called_target [OF assms(1)] by (auto split: if_splits)
  moreover have "b_status (with_updates args r) = b_status r" for r
    using with_updates_same [of r args] by (simp add: same_state_def)
  ultimately show ?thesis using called_not_held [OF assms(1)]
    by (intro quietI [where f = ?f]) (auto simp: bump_def split: if_splits)
qed

lemma quiet_log: "saga_update i stp st err db = Inr (x, db') \<Longrightarrow> quiet {} db db'"
  unfolding saga_update_Inr by (intro quietI [where f = id]) auto

lemma quiet_then_log:
  assumes "quiet T db db1" and "saga_update i stp st err db1 = Inr (x, db')" shows "quiet T db db'"
  using assms quiet_log [OF assms(2)] saga_update_keys [OF assms(2)] by (simp add: quiet_def)

lemma quiet_held:
  assumes "b_id b = sh_bookingId held" and "held_commit held b db = Inr (x, db')"
  shows "quiet {sh_bookingId held} db db'"
proof -
  let ?i = "sh_bookingId held" and ?v = "b_version b + 1"
  let ?p = "booking_updatePassengers ?i (sh_allocations held) db"
  let ?g = "\<lambda>r. if b_id r = ?i then r\<lparr>b_totalPrice := foldl (\<lambda>sum alloc. sum + sa_price alloc) 0 (sh_allocations held),
              b_lockExpiresAt := Some (sh_holdExpiresAt held)\<rparr> else r"
  let ?db1 = "?p\<lparr>bk_bookings := map (?g \<circ> bump ?i SeatsHeld ?v) (bk_bookings db)\<rparr>"
  from assms(2) have "saga_update ?i HOLD_SEATS Step_COMPLETED None ?db1 = Inr (x, db')"
    unfolding held_commit_def Let_def updateStatus_bump booking_updatePassengers_tables
    by (auto simp: bindE_eq_Inr_iff booking_update_Inr split: bool.splits)
  moreover have "quiet {?i} db ?db1"
    by (rule quietI [where f = "?g \<circ> bump ?i SeatsHeld ?v"])
      (auto simp: asked_def booking_updatePassengers_tables bump_def split: if_splits)
  ultimately show ?thesis using quiet_then_log by blast
qed

lemma quiet_hold_failed: "hold_failed_commit hfail b db = Inr (x, db') \<Longrightarrow> quiet {} db db'"
proof -
  let ?i = "hf_bookingId hfail" and ?v = "b_version b + 1"
  let ?g = "\<lambda>r. if b_id r = ?i then r\<lparr>b_failureReason := Some (hf_message hfail)\<rparr> else r"
  let ?db1 = "db\<lparr>bk_bookings := map (?g \<circ> bump ?i Failed ?v) (bk_bookings db)\<rparr>"
  assume "hold_failed_commit hfail b db = Inr (x, db')"
  then have "saga_update ?i HOLD_SEATS Step_FAILED (Some (reason_text (hf_reason hfail))) ?db1 = Inr (x, db')"
    unfolding hold_failed_commit_def Let_def updateStatus_bump by (auto simp: bindE_eq_Inr_iff booking_update_Inr)
  moreover have "quiet {} db ?db1"
    by (rule quietI [where f = "?g \<circ> bump ?i Failed ?v"]) (auto simp: bump_def split: if_splits)
  ultimately show ?thesis using quiet_then_log by blast
qed

lemma quiet_hold_expired: "hold_expired_commit hexp b db = Inr (x, db') \<Longrightarrow> quiet {} db db'"
proof -
  let ?i = "he_bookingId hexp" and ?v = "b_version b + 1"
  let ?db1 = "db\<lparr>bk_bookings := map (bump ?i Expired ?v) (bk_bookings db)\<rparr>"
  assume "hold_expired_commit hexp b db = Inr (x, db')"
  then have "saga_update ?i HOLD_SEATS Step_COMPENSATED (Some ''Hold duration expired'') ?db1 = Inr (x, db')"
    unfolding hold_expired_commit_def Let_def updateStatus_bump by simp
  moreover have "quiet {} db ?db1"
    by (rule quietI [where f = "bump ?i Expired ?v"]) (auto simp: bump_def split: if_splits)
  ultimately show ?thesis using quiet_then_log by blast
qed

text \<open>What a booking step does to the facts about the other service.\<close>

lemma rail_ok_quiet:
  assumes ok: "rail_ok ((db, rs), iv)" and b: "booking_ok (db', rs')" and mv: "moves f db db'" and q: "quiet T db db'"
    and T: "\<And>i. i \<in> T \<Longrightarrow> \<exists>h. EvSeatsHeld h \<in> set (outbox_payloads (iv_outbox iv)) \<and> sh_bookingId h = i"
  shows "rail_ok ((db', rs'), iv)"
proof -
  have rows: "bk_bookings db' = map f (bk_bookings db)" and ev: "\<And>r. r \<in> set (bk_bookings db) \<Longrightarrow> row_evolves r (f r)"
    using mv by (simp_all add: moves_def)
  have same: "b_id (f r) = b_id r \<and> b_scheduleId (f r) = b_scheduleId r \<and> b_fromStationId (f r) = b_fromStationId r \<and>
      b_toStationId (f r) = b_toStationId r" if "r \<in> set (bk_bookings db)" for r
    using ev [OF that] by (simp add: row_evolves_def same_booking_def)
  have asked: "asked db' = asked db" using q by (simp add: quiet_def)
  have "asked_ok db'" using ok same by (simp add: rail_ok_def asked_ok_def asked rows)
  moreover have "final_ok db'"
    unfolding final_ok_def
  proof (intro ballI impI)
    fix e assume e: "e \<in> set (booking_events db')" "bs_currentStatus e \<in> final"
    show "\<exists>r \<in> set (bk_bookings db'). b_id r = bs_bookingId e \<and> b_status r = bs_currentStatus e"
    proof (cases "e \<in> set (booking_events db)")
      case True
      then obtain r where r: "r \<in> set (bk_bookings db)" "b_id r = bs_bookingId e" "b_status r = bs_currentStatus e"
        using ok e(2) by (auto simp: rail_ok_def final_ok_def)
      have "\<not> legal (b_status r) (b_status (f r))" using r(3) e(2) by (auto simp: final_def)
      then have "b_status (f r) = b_status r" using ev [OF r(1)] by (auto simp: row_evolves_def)
      then show ?thesis using r same [OF r(1)] by (auto simp: rows)
    next
      case False
      then obtain r where "r \<in> set (bk_bookings db)" "describes e r (f r)"
        using mv e(1) by (auto simp: moves_def)
      then show ?thesis using same by (auto simp: describes_def rows)
    qed
  qed
  moreover have "held_ok ((db', rs'), iv)"
    unfolding held_ok_def fst_conv
  proof (intro ballI impI)
    fix r' assume r': "r' \<in> set (bk_bookings db')" "b_status r' \<in> seated"
    then obtain r where r: "r \<in> set (bk_bookings db)" "r' = f r" by (auto simp: rows)
    have old: "\<exists>h. EvSeatsHeld h \<in> replied ((db', rs'), iv) \<and> sh_bookingId h = b_id r'"
      if x: "x \<in> set (bk_bookings db)" "b_status x \<in> seated" "b_id x = b_id r'" for x
    proof -
      have "\<exists>h. EvSeatsHeld h \<in> set (outbox_payloads (iv_outbox iv)) \<and> sh_bookingId h = b_id x"
        using ok x(1,2) by (simp add: rail_ok_def held_ok_def replied_def)
      then show ?thesis using x(3) by (simp add: replied_def)
    qed
    show "\<exists>h. EvSeatsHeld h \<in> replied ((db', rs'), iv) \<and> sh_bookingId h = b_id r'"
    proof (cases "b_status r \<in> seated")
      case True
      then show ?thesis using old r same by auto
    next
      case False
      then have "legal (b_status r) (b_status r')" using ev [OF r(1)] r(2) r'(2) by (auto simp: row_evolves_def)
      then have "b_status r' = SeatsHeld" using False r'(2) by (cases "b_status r") (auto simp: seated_def)
      then obtain x where "x \<in> set (bk_bookings db)" "b_id x = b_id r'" "b_status x = SeatsHeld \<or> b_id x \<in> T"
        using q r'(1) by (auto simp: quiet_def)
      then show ?thesis using old [of x] T [of "b_id x"] by (auto simp: seated_def replied_def)
    qed
  qed
  moreover have "replies_ok ((db', rs'), iv)"
    using ok by (simp add: rail_ok_def replies_ok_def reply_ok_def replied_def asked)
  moreover have "released_ok ((db', rs'), iv)"
    using ok mv unfolding rail_ok_def released_ok_def moves_def fst_conv snd_conv by fastforce
  ultimately show ?thesis using ok b by (simp add: rail_ok_def)
qed

lemma asked_created [simp]:
  "asked (created_db env now u bytes userId dto ids db) = asked db @ [hold_request env u userId dto ids]"
  by (simp add: asked_def created_tables)

lemma rail_ok_created:
  assumes ok: "rail_ok ((db, rs), iv)" and b: "booking_ok (db', rs)"
    and db': "db' = created_db env now u bytes userId dto ids db"
  shows "rail_ok ((db', rs), iv)"
proof -
  have "asked_ok db'" using ok by (simp add: rail_ok_def asked_ok_def db' created_tables hold_request_def new_booking_def)
  moreover have "final_ok db'"
    using ok by (auto simp: rail_ok_def final_ok_def db' created_tables created_event_def final_def)
  moreover have "held_ok ((db', rs), iv)"
    using ok by (auto simp: rail_ok_def held_ok_def replied_def db' created_tables seated_def)
  moreover have "replies_ok ((db', rs), iv)"
    using ok by (auto simp: rail_ok_def replies_ok_def reply_ok_def replied_def db')
  moreover have "released_ok ((db', rs), iv)"
    using ok by (auto simp: rail_ok_def released_ok_def db' created_tables)
  ultimately show ?thesis using ok b by (simp add: rail_ok_def)
qed

lemma rail_ok_read: "rail_ok ((db, rs), iv) \<Longrightarrow> booking_ok (db, rs') \<Longrightarrow> rail_ok ((db, rs'), iv)"
  by (simp add: rail_ok_def held_ok_def replies_ok_def reply_ok_def replied_def released_ok_def)

section \<open>Steps of the inventory service\<close>

text \<open>An inventory step keeps every allocation up to its status.\<close>

lemma allocation_kept:
  assumes "allocation_le iv iv'" and "a \<in> set (iv_allocations iv)"
  shows "\<exists>a' \<in> set (iv_allocations iv'). \<exists>x. a' = a\<lparr>al_status := x\<rparr>"
proof -
  obtain i where i: "i < length (iv_allocations iv)" "a = iv_allocations iv ! i" using assms(2) by (auto simp: in_set_conv_nth)
  then have "iv_allocations iv' ! i = a\<lparr>al_status := al_status (iv_allocations iv' ! i)\<rparr>" "i < length (iv_allocations iv')"
    using assms(1) by (simp_all add: allocation_le_def)
  then show ?thesis by (intro bexI [of _ "iv_allocations iv' ! i"] exI) simp_all
qed

lemma reply_ok_later: "allocation_le iv iv' \<Longrightarrow> reply_ok db iv h \<Longrightarrow> reply_ok db iv' h"
  unfolding reply_ok_def using allocation_kept answers_update(1) by metis

text \<open>The stops a request resolves to, and the rows built for them.\<close>

lemma resolved:
  assumes "resolveSegmentStops req iv0 = Some (fs, ts, d)"
  shows "rs_sequenceNumber fs < rs_sequenceNumber ts \<and>
    (rs_sequenceNumber fs = hr_fromSequence req \<or> rs_stationId fs = hr_fromStaionId req) \<and>
    (rs_sequenceNumber ts = hr_toSequence req \<or> rs_stationId ts = hr_toStationId req)"
proof -
  have stop: "rs_sequenceNumber s = n \<or> rs_stationId s = i" if "resolve_stop sch n i iv0 = Some s" for sch n i s
    using that by (auto simp: resolve_stop_def Let_def findByScheduleAndSequence_def findByScheduleAndStation_def
        split: if_splits dest: find_row_Some)
  from assms show ?thesis unfolding resolveSegmentStops_def by (auto split: option.splits if_splits dest: stop)
qed

lemma allocation_rows_stations:
  "allocation_rows ev fs ts d h m is = Inr rows \<Longrightarrow>
    \<forall>p \<in> set rows. al_fromStationId (fst p) = rs_stationId fs \<and> al_toStationId (fst p) = rs_stationId ts"
  by (induction "is" arbitrary: rows) (auto simp: bindE_eq_Inr_iff split: option.splits, fastforce+)

lemma allocation_rows_answer:
  assumes "allocation_rows req fs ts d h m (hr_seatInventoryIds req) = Inr rows"
    and "resolveSegmentStops req iv0 = Some (fs, ts, d0)" and "i \<in> set (hr_seatInventoryIds req)"
  shows "\<exists>a \<in> set (number_allocations n (map fst rows)). answers req i a"
proof -
  note sh = allocation_rows_shape [OF assms(1)]
  have "i \<in> set (map (al_seatInventoryId \<circ> fst) rows)" using assms(3) sh by simp
  then obtain p where p: "p \<in> set rows" "al_seatInventoryId (fst p) = i" by auto
  then have "answers req i (fst p)"
    using sh allocation_rows_stations [OF assms(1)] resolved [OF assms(2)] by (force simp: answers_def)
  moreover have "map (answers req i) (number_allocations n (map fst rows)) = map (answers req i) (map fst rows)"
    by (rule number_allocations_map) simp
  then have "answers req i ` set (number_allocations n (map fst rows)) = answers req i ` fst ` set rows"
    by (metis set_map)
  ultimately show ?thesis using p(1) by (metis (mono_tags, lifting) image_iff)
qed

lemma rail_ok_inventory:
  assumes ok: "rail_ok ((db, rs), iv)" and st: "inventory_step iv iv'"
    and new: "\<And>h. EvSeatsHeld h \<in> set (outbox_payloads (iv_outbox iv')) \<Longrightarrow>
        EvSeatsHeld h \<in> set (outbox_payloads (iv_outbox iv)) \<or> reply_ok db iv' h"
    and kept: "set (outbox_payloads (iv_outbox iv)) \<subseteq> set (outbox_payloads (iv_outbox iv'))"
    and rel: "\<And>a. a \<in> set (iv_allocations iv') \<Longrightarrow> \<not> active a \<Longrightarrow>
        (\<exists>x \<in> set (iv_allocations iv). \<not> active x \<and> al_bookingId x = al_bookingId a) \<or>
        (\<exists>e \<in> set (booking_events db). bs_bookingId e = al_bookingId a \<and> bs_currentStatus e \<in> final)"
  shows "rail_ok ((db, rs), iv')"
proof -
  have "replies_ok ((db, rs), iv')"
    unfolding replies_ok_def fst_conv snd_conv
  proof (intro allI impI)
    fix h assume "EvSeatsHeld h \<in> replied ((db, rs), iv')"
    then have "EvSeatsHeld h \<in> set (outbox_payloads (iv_outbox iv)) \<or> reply_ok db iv' h" using new by (simp add: replied_def)
    then show "reply_ok db iv' h"
      using ok reply_ok_later [OF inventory_step_le [OF st]] by (auto simp: rail_ok_def replies_ok_def replied_def)
  qed
  moreover have "held_ok ((db, rs), iv')" using ok kept by (fastforce simp: rail_ok_def held_ok_def replied_def)
  moreover have "released_ok ((db, rs), iv')"
    using ok rel unfolding rail_ok_def released_ok_def fst_conv snd_conv by metis
  ultimately show ?thesis using ok inventory_step_ok [OF st] by (simp add: rail_ok_def)
qed

lemma rail_ok_hold:
  assumes ok: "rail_ok ((db, rs), iv)" and req: "HoldSeatsRequested req \<in> set (outbox_payloads (bk_outbox db))"
    and seg: "resolveSegmentStops req iv0 = Some (fs, ts, d)"
    and c: "commitHoldTransaction ienv now txErr failErr req key fs ts d m iv = (r, iv')"
  shows "rail_ok ((db, rs), iv')"
proof -
  have st: "inventory_step iv iv'" using c by (rule inventory_step.hold)
  from c show ?thesis
  proof (cases rule: commitHold_cases)
    case type_error
    then show ?thesis using ok by simp
  next
    case (committed rows payload u)
    show ?thesis
    proof (cases "key \<in> set (iv_idempotency iv)")
      case True
      then have "iv' = iv" using committed(5) by (simp add: hold_tx_def idempotency_exists_def)
      then show ?thesis using ok by simp
    next
      case False
      note w = hold_tx_Inr [OF committed(5) False]
      note sh = allocation_rows_shape [OF committed(1)]
      let ?new = "number_allocations (length (iv_allocations iv)) (map fst rows)"
      have act: "active a" if "a \<in> set ?new" for a
      proof -
        obtain b k where b: "b \<in> set (map fst rows)" "a = b\<lparr>al_id := k\<rparr>"
          using number_allocations_mem [OF \<open>a \<in> set ?new\<close>] by blast
        have "al_status b = HELD" using conjunct2 [OF sh] b(1) by blast
        then show ?thesis using b(2) by (simp add: active_def)
      qed
      have "reply_ok db iv' payload"
        unfolding reply_ok_def
      proof (intro bexI [of _ req] conjI ballI)
        show "req \<in> set (asked db)" using req by (simp add: asked_def)
        show "hr_bookingId req = sh_bookingId payload" using committed(2) by simp
        show "\<exists>a \<in> set (iv_allocations iv'). answers req i a" if "i \<in> set (hr_seatInventoryIds req)" for i
          using allocation_rows_answer [OF committed(1) seg that] by (auto simp: w(2))
      qed
      then show ?thesis using act by (intro rail_ok_inventory [OF ok st]) (auto simp: w(2,4))
    qed
  next
    case (failed reason name msg)
    then have iv': "iv' = snd (fail ienv now failErr req reason name msg iv)" by simp
    show ?thesis by (rule rail_ok_inventory [OF ok st]) (auto simp: iv' fail_frame, auto simp: fail_def Let_def split: option.splits)
  qed
qed

text \<open>Seats are given up only for an event that ended its booking.\<close>

lemma status_event_cases:
  assumes "onBookingStatusChanged bev iv = (r, iv')"
  shows "set (outbox_payloads (iv_outbox iv')) = set (outbox_payloads (iv_outbox iv)) \<and>
    (\<forall>a \<in> set (iv_allocations iv'). \<not> active a \<longrightarrow>
       (\<exists>x \<in> set (iv_allocations iv). \<not> active x \<and> al_bookingId x = al_bookingId a) \<or>
       al_bookingId a = bs_bookingId bev \<and> bs_currentStatus bev \<in> final)"
proof -
  have self: "\<exists>x \<in> set xs. \<not> active x \<and> al_bookingId x = al_bookingId a" if "a \<in> set xs" "\<not> active a" for a xs
    using that by blast
  consider (same) "iv' = iv"
    | (confirmed) key where "confirm_tx (bs_bookingId bev) key iv = Inr ((), iv')"
    | (cancelled) key where "cancel_tx (bs_bookingId bev) key iv = Inr ((), iv')" "bs_currentStatus bev \<in> final"
    using assms by (auto simp: onBookingStatusChanged_def confirmSeats_def cancelSeats_def Let_def transaction_def final_def
        split: if_splits sum.splits)
  then show ?thesis
  proof cases
    case same
    then show ?thesis using self by blast
  next
    case confirmed
    from confirm_tx_cases [OF confirmed] show ?thesis
      using self by (auto simp: update_many_def active_def split: if_splits)
  next
    case cancelled
    from cancel_tx_cases [OF cancelled(1)] show ?thesis
      using self cancelled(2) by (auto simp: update_many_def active_def split: if_splits)
  qed
qed

lemma schedule_events_outbox:
  "set (outbox_payloads (iv_outbox iv)) \<subseteq> set (outbox_payloads (iv_outbox (snd (processCreated env now ce iv)))) \<and>
   (\<forall>h. EvSeatsHeld h \<in> set (outbox_payloads (iv_outbox (snd (processCreated env now ce iv)))) \<longrightarrow>
      EvSeatsHeld h \<in> set (outbox_payloads (iv_outbox iv)))"
  "outbox_payloads (iv_outbox (snd (processStatusChanged env now xe iv))) = outbox_payloads (iv_outbox iv) \<or>
   (\<exists>e. outbox_payloads (iv_outbox (snd (processStatusChanged env now xe iv))) = outbox_payloads (iv_outbox iv) @ [EvScheduleStatus e])"
proof -
  show "set (outbox_payloads (iv_outbox iv)) \<subseteq> set (outbox_payloads (iv_outbox (snd (processCreated env now ce iv)))) \<and>
   (\<forall>h. EvSeatsHeld h \<in> set (outbox_payloads (iv_outbox (snd (processCreated env now ce iv)))) \<longrightarrow>
      EvSeatsHeld h \<in> set (outbox_payloads (iv_outbox iv)))"
    unfolding processCreated_def
    by (rule transaction_preserves, simp)
      (auto simp: bindE_eq_Inr_iff deleteByScheduleId_def project_schedule_Inr(12) split: option.splits if_splits)
  show "outbox_payloads (iv_outbox (snd (processStatusChanged env now xe iv))) = outbox_payloads (iv_outbox iv) \<or>
   (\<exists>e. outbox_payloads (iv_outbox (snd (processStatusChanged env now xe iv))) = outbox_payloads (iv_outbox iv) @ [EvScheduleStatus e])"
    unfolding processStatusChanged_def
    by (rule transaction_preserves, simp)
      (auto simp: updateScheduleStatus_def update_many_def Let_def split: option.splits if_splits prod.splits)
qed

section \<open>The invariant of the railway\<close>

lemma rail_step_ok: "rail_step s s' \<Longrightarrow> rail_ok s \<Longrightarrow> rail_ok s'"
proof (induction rule: rail_step.induct)
  case (reads b db rs iv)
  then have "booking_ok (db, b # rs)"
    using booking_step_ok [OF booking_step.reads [OF reads(1), of rs]] by (simp add: rail_ok_def)
  then show ?case using rail_ok_read reads(2) by blast
next
  case (creates env now u bytes userId dto ids db r db' rs iv)
  have b: "booking_ok (db', rs)"
    using booking_step_ok [OF booking_step.creates [OF creates(1), of rs]] creates(2) by (simp add: rail_ok_def)
  show ?case
  proof (cases "findIdempotencyKey (cd_idempotencyKey dto) db")
    case None
    then show ?thesis using rail_ok_created [OF creates(2) b] creates(1) create_tx_new [OF None] by blast
  next
    case (Some k)
    then show ?thesis using creates by (simp add: create_tx_existing)
  qed
next
  case (transitions b rs args env now eventId db db' iv)
  have ok: "booking_ok (db, rs)" using transitions(5) by (simp add: rail_ok_def)
  then have b: "booking_ok (db', rs)" using booking_step_ok [OF booking_step.transitions [OF transitions(1-4)]] by blast
  have "moves (bump (b_id b) (ta_target args) (b_version b + 1) \<circ> with_updates args) db db'"
    using ok transition_moves transitions(1-4) by (auto simp: booking_ok_def)
  then show ?case using rail_ok_quiet [OF transitions(5) b _ quiet_transition [OF transitions(2,4)]] by blast
next
  case (logs i stp st err db db' rs iv)
  then have b: "booking_ok (db', rs)" using booking_step_ok [OF booking_step.logs [OF logs(1), of rs]] by (simp add: rail_ok_def)
  show ?case using rail_ok_quiet [OF logs(2) b moves_logs [OF logs(1)] quiet_log [OF logs(1)]] by blast
next
  case (holds held iv b rs db db')
  have ok: "booking_ok (db, rs)" using holds(6) by (simp add: rail_ok_def)
  then have b: "booking_ok (db', rs)" using booking_step_ok [OF booking_step.holds [OF holds(2-5)]] by blast
  obtain f where "moves f db db'" using held_moves [of db rs b held "()" db'] ok holds(2-5) by (auto simp: booking_ok_def)
  then show ?case using rail_ok_quiet [OF holds(6) b _ quiet_held [OF holds(3,5)]] holds(1) by blast
next
  case (hold_fails hfail iv b rs db db')
  have ok: "booking_ok (db, rs)" using hold_fails(6) by (simp add: rail_ok_def)
  then have b: "booking_ok (db', rs)" using booking_step_ok [OF booking_step.hold_fails [OF hold_fails(2-5)]] by blast
  obtain f where "moves f db db'"
    using hold_failed_moves [of db rs b hfail "()" db'] ok hold_fails(2-5) by (auto simp: booking_ok_def)
  then show ?case using rail_ok_quiet [OF hold_fails(6) b _ quiet_hold_failed [OF hold_fails(5)]] by blast
next
  case (hold_expires hexp iv b rs db db')
  have ok: "booking_ok (db, rs)" using hold_expires(6) by (simp add: rail_ok_def)
  then have b: "booking_ok (db', rs)" using booking_step_ok [OF booking_step.hold_expires [OF hold_expires(2-5)]] by blast
  obtain f where "moves f db db'"
    using hold_expired_moves [of db rs b hexp "()" db'] ok hold_expires(2-5) by (auto simp: booking_ok_def)
  then show ?case using rail_ok_quiet [OF hold_expires(6) b _ quiet_hold_expired [OF hold_expires(5)]] by blast
next
  case (inv_hold req db iv0 fs ts d ienv now txErr failErr key m iv r iv' rs)
  then show ?case using rail_ok_hold by blast
next
  case (inv_fail req db ienv now failErr reason name msg iv out iv' rs)
  have iv': "iv' = snd (fail ienv now failErr req reason name msg iv)" using inv_fail(2) by simp
  show ?case
    by (rule rail_ok_inventory [OF inv_fail(3) inventory_step.hold_fails [OF inv_fail(2)]])
      (auto simp: iv' fail_frame, auto simp: fail_def Let_def split: option.splits)
next
  case (inv_status bev db iv r iv' rs)
  note c = status_event_cases [OF inv_status(2)]
  have "bev \<in> set (booking_events db)" using inv_status(1) by (simp add: booking_events_def)
  then show ?case using c by (intro rail_ok_inventory [OF inv_status(3) inventory_step.booking_event [OF inv_status(2)]]) auto
next
  case (inv_created ienv now ce iv r iv' db rs)
  have iv': "iv' = snd (processCreated ienv now ce iv)" using inv_created(1) by simp
  show ?case
    using schedule_events_outbox(1) [of iv ienv now ce]
    by (intro rail_ok_inventory [OF inv_created(2) inventory_step.schedule_created [OF inv_created(1)]])
      (auto simp: iv' schedule_events_frame)
next
  case (inv_changed ienv now xe iv r iv' db rs)
  have iv': "iv' = snd (processStatusChanged ienv now xe iv)" using inv_changed(1) by simp
  show ?case
    using schedule_events_outbox(2) [of ienv now xe iv]
    by (intro rail_ok_inventory [OF inv_changed(2) inventory_step.schedule_changed [OF inv_changed(1)]])
      (auto simp: iv' schedule_events_frame)
qed

interpretation railway: stepper rail_step rail_ok
  by unfold_locales (rule rail_step_ok)

text \<open>The handlers of the booking service run on these steps: its consumers see what the inventory
  service has published.\<close>

interpretation on_rail: booking_commits "\<lambda>bs bs'. rail_step (bs, iv) (bs', iv)" "\<lambda>e. e \<in> set (outbox_payloads (iv_outbox iv))"
  for iv :: inventory_db
  by unfold_locales (auto intro: rail_step.intros)

lemma rail_steps_booking:
  assumes "(\<lambda>bs bs'. rail_step (bs, iv) (bs', iv))\<^sup>*\<^sup>* x y" shows "rail_step\<^sup>*\<^sup>* (x, iv) (y, iv)"
  using assms by (induction rule: rtranclp.induct) (auto intro: rtranclp.rtrancl_into_rtrancl)

text \<open>The calls of the two services with their Redis instances: API calls, consumers, redeliveries.\<close>

type_synonym rail_services = "(booking_db \<times> redis) \<times> (inventory_db \<times> redis)"

inductive rail_call :: "rail_services \<Rightarrow> rail_services \<Rightarrow> bool" where
  booking: "delivers (\<lambda>e. e \<in> set (outbox_payloads (iv_outbox iv))) bs bs' \<Longrightarrow> rail_call (bs, iv, st) (bs', iv, st)"
| hold: "HoldSeatsRequested req \<in> set (outbox_payloads (bk_outbox (fst bs))) \<Longrightarrow>
    rail_call (bs, s) (bs, snd (holdSeats env now reads lk ul txErr failErr req s))"
| status: "EvBookingStatusChanged bev \<in> set (outbox_payloads (bk_outbox (fst bs))) \<Longrightarrow>
    rail_call (bs, iv, st) (bs, snd (onBookingStatusChanged bev iv), st)"
| created: "rail_call (bs, iv, st) (bs, snd (processCreated env now ce iv), st)"
| changed: "rail_call (bs, iv, st) (bs, snd (processStatusChanged env now xe iv), st)"

lemma holdSeats_on_rail:
  assumes req: "HoldSeatsRequested req \<in> set (outbox_payloads (bk_outbox db))"
  shows "rail_step\<^sup>*\<^sup>* ((db, rs), iv) ((db, rs), fst (snd (holdSeats env now reads lk ul txErr failErr req (iv, st))))"
proof -
  obtain r iv' st' where h: "holdSeats env now reads lk ul txErr failErr req (iv, st) = (r, (iv', st'))"
    by (metis prod.collapse)
  have "rail_step\<^sup>*\<^sup>* ((db, rs), iv) ((db, rs), iv')"
    using h
  proof (cases rule: holdSeats_cases)
    case (refused reason name msg db0)
    then show ?thesis using rail_step.inv_fail [OF req] by blast
  next
    case (won db0 db1 db2 db3 fs ts d st1 m)
    then show ?thesis using rail_step.inv_hold [OF req] by blast
  qed simp_all
  then show ?thesis by (simp add: h)
qed

lemma rail_call_steps:
  assumes "rail_call s s'"
  shows "\<exists>rs'. rail_step\<^sup>*\<^sup>* ((fst (fst s), rs), fst (snd s)) ((fst (fst s'), rs'), fst (snd s'))"
  using assms
proof (induction rule: rail_call.induct)
  case (booking iv bs bs' st)
  from on_rail.delivers_runs [OF booking] rail_steps_booking show ?case unfolding runs_by_def by fastforce
next
  case (hold req bs s env now reads lk ul txErr failErr)
  then show ?case using holdSeats_on_rail by (cases bs; cases s) fastforce
next
  case (status bev bs iv st)
  have "rail_step ((fst bs, rs), iv) ((fst bs, rs), snd (onBookingStatusChanged bev iv))"
    by (rule rail_step.inv_status [OF status]) (rule prod.collapse [symmetric])
  then show ?case by auto
next
  case (created bs iv st env now ce)
  have "rail_step ((fst bs, rs), iv) ((fst bs, rs), snd (processCreated env now ce iv))"
    by (rule rail_step.inv_created) (rule prod.collapse [symmetric])
  then show ?case by auto
next
  case (changed bs iv st env now xe)
  have "rail_step ((fst bs, rs), iv) ((fst bs, rs), snd (processStatusChanged env now xe iv))"
    by (rule rail_step.inv_changed) (rule prod.collapse [symmetric])
  then show ?case by auto
qed

lemma rail_calls_steps:
  assumes "rail_call\<^sup>*\<^sup>* s s'"
  shows "\<exists>rs'. rail_step\<^sup>*\<^sup>* ((fst (fst s), rs), fst (snd s)) ((fst (fst s'), rs'), fst (snd s'))"
  using assms
proof (induction rule: rtranclp_induct)
  case (step y z)
  then show ?case using rail_call_steps by (meson rtranclp_trans)
qed blast

section \<open>Who holds a booking owns its seats\<close>

lemma alone:
  assumes "seats_ok iv" and "a \<in> set (iv_allocations iv)" and "b \<in> set (iv_allocations iv)" and "conflict a b"
  shows "b = a"
proof (rule ccontr)
  assume "b \<noteq> a"
  then have "\<not> conflict a b \<or> \<not> conflict b a"
    using assms(1-3) by (auto simp: seats_ok_def sorted_wrt_iff_nth_less in_set_conv_nth) (metis linorder_neqE_nat)
  then show False using assms(4) by (auto simp: conflict_def)
qed

lemma filter_unique_key: "distinct (map f xs) \<Longrightarrow> y \<in> f ` set xs \<Longrightarrow> \<exists>x. filter (\<lambda>x. f x = y) xs = [x]"
  by (induction xs) (auto simp: filter_empty_conv image_iff)

lemma one_request:
  assumes "rail_ok ((db, rs), iv)" and "r \<in> set (bk_bookings db)"
  shows "\<exists>q. filter (\<lambda>q. hr_bookingId q = b_id r) (asked db) = [q]"
proof -
  have "distinct (map b_id (bk_bookings db))" using assms(1) by (simp add: rail_ok_def booking_ok_def ids_distinct_def)
  moreover have "asked_ok db" using assms(1) by (simp add: rail_ok_def)
  from arg_cong [OF this [unfolded asked_ok_def], of "map fst"] have "map hr_bookingId (asked db) = map b_id (bk_bookings db)"
    by (simp add: comp_def)
  moreover from this have "hr_bookingId ` set (asked db) = b_id ` set (bk_bookings db)" by (metis set_map)
  ultimately have "distinct (map hr_bookingId (asked db))" "b_id r \<in> hr_bookingId ` set (asked db)"
    using assms(2) by simp_all
  then show ?thesis by (rule filter_unique_key)
qed

lemma request_of:
  assumes ok: "rail_ok ((db, rs), iv)" and "r \<in> set (bk_bookings db)" and "q \<in> set (asked db)" and "hr_bookingId q = b_id r"
  shows "hr_scheduleId q = b_scheduleId r \<and> hr_fromStaionId q = b_fromStationId r \<and> hr_toStationId q = b_toStationId r"
proof -
  let ?k = "(hr_bookingId q, hr_scheduleId q, hr_fromStaionId q, hr_toStationId q)"
  have "?k \<in> set (map (\<lambda>b. (b_id b, b_scheduleId b, b_fromStationId b, b_toStationId b)) (bk_bookings db))"
    using ok assms(3) unfolding rail_ok_def asked_ok_def by (metis (no_types, lifting) fst_conv image_eqI set_map)
  then obtain x where x: "x \<in> set (bk_bookings db)" "?k = (b_id x, b_scheduleId x, b_fromStationId x, b_toStationId x)" by auto
  then have "x = r" using ok assms(2,4) ids_inj [of "(db, rs)" x r] by (simp add: rail_ok_def booking_ok_def)
  then show ?thesis using x(2) by simp
qed

lemma released_not_seated:
  assumes ok: "rail_ok ((db, rs), iv)" and "r \<in> set (bk_bookings db)"
    and "a \<in> set (iv_allocations iv)" and "al_bookingId a = b_id r" and "\<not> active a"
  shows "b_status r \<in> final"
proof -
  obtain e where e: "e \<in> set (booking_events db)" "bs_bookingId e = b_id r" "bs_currentStatus e \<in> final"
    using ok assms(3-5) by (fastforce simp: rail_ok_def released_ok_def)
  then obtain x where x: "x \<in> set (bk_bookings db)" "b_id x = b_id r" "b_status x = bs_currentStatus e"
    using ok by (auto simp: rail_ok_def final_ok_def)
  then have "x = r" using ok assms(2) ids_inj [of "(db, rs)" x r] by (simp add: rail_ok_def booking_ok_def)
  then show ?thesis using x(3) e(3) by simp
qed

text \<open>C1: Whoever is shown a held, payable or confirmed booking owns its seats. The two services share
  no database; under every interleaving of their transactions, with events delayed, redelivered
  and reordered at will, a booking from \<open>SEATS_HELD\<close> to \<open>CANCELLING\<close> has asked for its seats
  exactly once, and each of these seats is allocated to it, held or confirmed, on the schedule of
  the booking, for a forward segment between the stops the booking named, while no other
  held or confirmed allocation of that seat overlaps the segment.\<close>

theorem confirmed_booking_owns_seats:
  assumes "rail_step\<^sup>*\<^sup>* rail_start ((db, rs), iv)" and "r \<in> set (bk_bookings db)"
    and "b_status r \<in> {SeatsHeld, PaymentPending, Confirming, Confirmed, Cancelling}"
  shows "\<exists>q. filter (\<lambda>q. hr_bookingId q = b_id r) (asked db) = [q] \<and> hr_scheduleId q = b_scheduleId r \<and>
    hr_fromStaionId q = b_fromStationId r \<and> hr_toStationId q = b_toStationId r \<and>
    (\<forall>i \<in> set (hr_seatInventoryIds q). \<exists>a \<in> set (iv_allocations iv). answers q i a \<and> al_status a \<in> {HELD, CONFIRMED} \<and>
       (\<forall>b \<in> set (iv_allocations iv). conflict a b \<longrightarrow> b = a))"
proof -
  have ok: "rail_ok ((db, rs), iv)" using railway.run_inv [OF assms(1) rail_ok_start] .
  obtain q where q: "filter (\<lambda>q. hr_bookingId q = b_id r) (asked db) = [q]" using one_request [OF ok assms(2)] by blast
  have "b_status r \<in> seated" using assms(3) by (auto simp: seated_def)
  then obtain h where h: "EvSeatsHeld h \<in> replied ((db, rs), iv)" "sh_bookingId h = b_id r"
    using ok assms(2) by (auto simp: rail_ok_def held_ok_def)
  then obtain q' where q': "q' \<in> set (asked db)" "hr_bookingId q' = b_id r"
    "\<forall>i \<in> set (hr_seatInventoryIds q'). \<exists>a \<in> set (iv_allocations iv). answers q' i a"
    using ok by (auto simp: rail_ok_def replies_ok_def reply_ok_def)
  have "q' \<in> set [q]" using q'(1,2) unfolding q [symmetric] by simp
  then have same: "q' = q" by simp
  have act: "active a" if "a \<in> set (iv_allocations iv)" "answers q i a" for a i
  proof (rule ccontr)
    assume "\<not> active a"
    moreover have "al_bookingId a = b_id r" using that(2) q'(2) same by (simp add: answers_def)
    ultimately have "b_status r \<in> final" using released_not_seated [OF ok assms(2) that(1)] by blast
    then show False using assms(3) by (auto simp: final_def)
  qed
  have "hr_scheduleId q = b_scheduleId r \<and> hr_fromStaionId q = b_fromStationId r \<and> hr_toStationId q = b_toStationId r"
    using request_of [OF ok assms(2)] q'(1,2) same by simp
  then show ?thesis using q q'(3) same act alone [of iv] ok unfolding rail_ok_def active_def by (metis snd_conv)
qed

text \<open>C27: Everything the two services do is such an interleaving: any sequence of API calls, Kafka
  deliveries and schedule events, each handled by the whole handler with any outcome of Redis, of
  the database connection or of a gRPC peer, and events consumed only after the other service
  wrote them to its outbox, is a run of the steps \<open>confirmed_booking_owns_seats\<close> is about.\<close>

theorem rail_calls_refine_steps:
  assumes "rail_call\<^sup>*\<^sup>* s s'"
  shows "\<exists>rs'. rail_step\<^sup>*\<^sup>* ((fst (fst s), rs), fst (snd s)) ((fst (fst s'), rs'), fst (snd s'))"
  using assms by (rule rail_calls_steps)

section \<open>A journey\<close>

definition journey_create :: "booking_db \<times> redis \<Rightarrow> (exn + CreateBookingResponse) \<times> booking_db \<times> redis" where
  "journey_create s = createBooking demo_env
     (demo_clients\<lparr>gc_getSeatsDetailsBatch := (\<lambda>_ seats. Inr (map (\<lambda>x. (x, ''0'')) seats))\<rparr>) Reply Reply None 0 demo_ids [0, 1, 31, 255] ''user''
     (demo_dto\<lparr>cd_seatIds := [''seat''], cd_toSequence := Some 2\<rparr>) s"

definition journey_db :: booking_db where
  "journey_db = fst (snd (journey_create (empty_booking_db, Map.empty)))"

definition journey_hold :: "HoldSeatsOutcome result \<times> inventory_db \<times> redis" where
  "journey_hold = holdSeats sample_env 10 (\<lambda>_. Inr sample_db) Reply Reply None None (hd (asked journey_db)) (sample_db, Map.empty)"

definition journey_iv :: inventory_db where
  "journey_iv = fst (snd journey_hold)"

definition journey_held :: SeatsHeldV1 where
  "journey_held = (case fst journey_hold of Inr (Held p) \<Rightarrow> p | _ \<Rightarrow> demo_held)"

definition journey_paying :: "booking_db \<times> redis" where
  "journey_paying = snd (handleSeatsHeld demo_env demo_idem (Reply, Reply, Reply) 20 ''e'' journey_held
     (snd (journey_create (empty_booking_db, Map.empty))))"

lemma journey_facts:
  "HoldSeatsRequested (hd (asked journey_db)) \<in> set (outbox_payloads (bk_outbox journey_db))"
  "EvSeatsHeld journey_held \<in> set (outbox_payloads (iv_outbox journey_iv))"
  "map (\<lambda>r. (b_id r, b_status r)) (bk_bookings (fst journey_paying)) = [(''id-0'', PaymentPending)]"
  "map (\<lambda>q. (hr_bookingId q, hr_seatInventoryIds q)) (asked (fst journey_paying)) = [(''id-0'', [''0''])]"
  by code_simp+

lemma journey_calls:
  "rail_call\<^sup>*\<^sup>* ((empty_booking_db, Map.empty), (empty_inventory, Map.empty)) (journey_paying, snd journey_hold)"
proof -
  let ?b = "snd (journey_create (empty_booking_db, Map.empty))"
  have 1: "rail_call ((empty_booking_db, Map.empty), (empty_inventory, Map.empty)) ((empty_booking_db, Map.empty), (sample_db, Map.empty))"
    unfolding sample_db_def by (rule rail_call.created)
  have 2: "rail_call ((empty_booking_db, Map.empty), (sample_db, Map.empty)) (?b, (sample_db, Map.empty))"
    unfolding journey_create_def by (intro rail_call.booking delivers.create)
  have 3: "rail_call (?b, (sample_db, Map.empty)) (?b, snd journey_hold)"
    unfolding journey_hold_def by (rule rail_call.hold) (use journey_facts(1) in \<open>simp add: journey_db_def\<close>)
  have "rail_call (?b, (journey_iv, snd (snd journey_hold))) (journey_paying, (journey_iv, snd (snd journey_hold)))"
    unfolding journey_paying_def by (intro rail_call.booking delivers.held) (rule journey_facts(2))
  then have 4: "rail_call (?b, snd journey_hold) (journey_paying, snd journey_hold)" by (simp add: journey_iv_def)
  show ?thesis
    by (rule rtranclp.rtrancl_into_rtrancl [OF rtranclp.rtrancl_into_rtrancl [OF
      rtranclp.rtrancl_into_rtrancl [OF r_into_rtranclp [of rail_call, OF 1] 2] 3] 4])
qed

theorem rail_calls_refine_steps_witness:
  "\<exists>rs'. rail_step\<^sup>*\<^sup>* rail_start ((fst journey_paying, rs'), journey_iv)"
  using rail_calls_refine_steps [OF journey_calls, of "[]"] by (simp add: rail_start_def journey_iv_def)

theorem confirmed_booking_owns_seats_witness:
  "\<exists>a \<in> set (iv_allocations journey_iv). al_bookingId a = ''id-0'' \<and> al_seatInventoryId a = ''0'' \<and>
     al_status a \<in> {HELD, CONFIRMED}"
proof -
  obtain rs where 1: "rail_step\<^sup>*\<^sup>* rail_start ((fst journey_paying, rs), journey_iv)"
    using rail_calls_steps [OF journey_calls, of "[]"] by (auto simp: rail_start_def journey_iv_def)
  obtain r where r: "bk_bookings (fst journey_paying) = [r]" "b_id r = ''id-0''" "b_status r = PaymentPending"
    using journey_facts(3) by auto
  obtain q where q: "asked (fst journey_paying) = [q]" "hr_bookingId q = ''id-0''" "hr_seatInventoryIds q = [''0'']"
    using journey_facts(4) by auto
  have "r \<in> set (bk_bookings (fst journey_paying))"
    "b_status r \<in> {SeatsHeld, PaymentPending, Confirming, Confirmed, Cancelling}" using r by simp_all
  from confirmed_booking_owns_seats [OF 1 this] show ?thesis using q r(2) by (auto simp: answers_def)
qed

end
