(* ===== verification/Payment.thy ===== *)
theory Payment
  imports Contracts Grpc "HOL-Library.Word"
begin

text \<open>
  The payment service: its table and repository, the Razorpay helpers, \<open>PaymentService\<close> and the
  gRPC and HTTP handlers in front of it.

  Razorpay's SDK, \<open>JSON.parse\<close> and HMAC-SHA256 are arguments: \<open>rzp_orders_create\<close> is the reply of
  the SDK to an order, \<open>hmac key text\<close> the hexadecimal digest. \<open>u n\<close> is the \<open>n\<close>-th UUID a call draws
  (the row's own \<open>id\<close> comes from Prisma, in the place where the row is written). An amount of money
  of the table, a \<open>Decimal(12,2)\<close>, is its number of hundredths. As in the booking service, the
  transactions that act on a row read before them are definitions with that row as an argument.
\<close>

section \<open>The database\<close>

datatype PaymentStatus = Pay_CREATED | Pay_PENDING | Pay_CAPTURED | Pay_FAILED | Pay_REFUNDED

record Payment =
  py_id :: ident
  py_paymentOrderId :: ident
  py_razorpayOrderId :: string
  py_bookingId :: ident
  py_userId :: ident
  py_amount :: int
  py_currency :: string
  py_status :: PaymentStatus
  py_razorpayPaymentId :: "string option"
  py_razorpaySignature :: "string option"
  py_failureReason :: "string option"
  py_createdAt :: time

record payment_db =
  pd_payments :: "Payment list"
  pd_outbox :: "event OutboxEvent list"

definition empty_payment_db :: payment_db where
  "empty_payment_db = \<lparr>pd_payments = [], pd_outbox = []\<rparr>"

definition status_text :: "PaymentStatus \<Rightarrow> string" where
  "status_text st = (case st of Pay_CREATED \<Rightarrow> ''CREATED'' | Pay_PENDING \<Rightarrow> ''PENDING'' | Pay_CAPTURED \<Rightarrow> ''CAPTURED''
     | Pay_FAILED \<Rightarrow> ''FAILED'' | Pay_REFUNDED \<Rightarrow> ''REFUNDED'')"

section \<open>JavaScript's strings and numbers\<close>

text \<open>\<open>a || b\<close> on strings that may be undefined.\<close>

definition str_or :: "string option \<Rightarrow> string \<Rightarrow> string" where
  "str_or a b = (case a of Some s \<Rightarrow> if s = [] then b else s | None \<Rightarrow> b)"

fun str_includes :: "string \<Rightarrow> string \<Rightarrow> bool" where
  "str_includes [] part \<longleftrightarrow> part = []"
| "str_includes (c # cs) part \<longleftrightarrow> take (length part) (c # cs) = part \<or> str_includes cs part"

text \<open>\<open>String(x)\<close> of a field that may be missing.\<close>

definition js_String :: "string option \<Rightarrow> string" where
  "js_String x = (case x of Some s \<Rightarrow> s | None \<Rightarrow> ''undefined'')"

definition hex_digit :: "nat \<Rightarrow> char" where
  "hex_digit n = (if n < 10 then char_of (48 + n) else char_of (87 + n))"

definition toHex :: "8 word list \<Rightarrow> string" where
  "toHex bytes = concat (map (\<lambda>b. [hex_digit (unat b div 16), hex_digit (unat b mod 16)]) bytes)"

definition two_digits :: "nat \<Rightarrow> string" where
  "two_digits n = [char_of (48 + n div 10), char_of (48 + n mod 10)]"

text \<open>\<open>(amount / 100).toFixed(2)\<close> of an integer, and \<open>toString\<close> of a \<open>Decimal\<close>, which prints no
  trailing zeros.\<close>

definition sign_text :: "int \<Rightarrow> string" where
  "sign_text n = (if n < 0 then ''-'' else [])"

definition decimal_toFixed2 :: "int \<Rightarrow> string" where
  "decimal_toFixed2 n = (let m = nat \<bar>n\<bar> in sign_text n @ show_nat (m div 100) @ ''.'' @ two_digits (m mod 100))"

definition decimal_toString :: "int \<Rightarrow> string" where
  "decimal_toString n =
     (let m = nat \<bar>n\<bar>; f = m mod 100
      in sign_text n @ show_nat (m div 100) @
         (if f = 0 then [] else if f mod 10 = 0 then ''.'' @ show_nat (f div 10) else ''.'' @ two_digits f))"

section \<open>Repository\<close>

record CreatePaymentParams =
  cp_paymentOrderId :: ident
  cp_razorpayOrderId :: string
  cp_bookingId :: ident
  cp_userId :: ident
  cp_amount :: int
  cp_currency :: "string option"

text \<open>\<open>id\<close> and \<open>paymentOrderId\<close> are unique. The row gets the UUID \<open>rowId\<close> and the time \<open>now\<close>.\<close>

definition payment_create :: "ident \<Rightarrow> time \<Rightarrow> CreatePaymentParams \<Rightarrow> (payment_db, Payment) tx" where
  "payment_create rowId now data db =
     (let p = \<lparr>py_id = rowId, py_paymentOrderId = cp_paymentOrderId data, py_razorpayOrderId = cp_razorpayOrderId data,
            py_bookingId = cp_bookingId data, py_userId = cp_userId data, py_amount = cp_amount data,
            py_currency = str_or (cp_currency data) ''INR'', py_status = Pay_PENDING, py_razorpayPaymentId = None,
            py_razorpaySignature = None, py_failureReason = None, py_createdAt = now\<rparr>
      in bindE (create_row py_id p (pd_payments db)) (\<lambda>_.
         bindE (create_row py_paymentOrderId p (pd_payments db)) (\<lambda>rows.
         Inr (p, db\<lparr>pd_payments := rows\<rparr>))))"

definition findByPaymentOrderId :: "ident \<Rightarrow> payment_db \<Rightarrow> Payment option" where
  "findByPaymentOrderId i db = find_row (\<lambda>p. py_paymentOrderId p = i) (pd_payments db)"

text \<open>\<open>orderBy: { createdAt: "desc" }\<close>: a row with the latest time, of several the last.\<close>

definition findByBookingId :: "ident \<Rightarrow> payment_db \<Rightarrow> Payment option" where
  "findByBookingId bookingId db =
     (case filter (\<lambda>p. py_bookingId p = bookingId) (pd_payments db) of
        [] \<Rightarrow> None
      | p # ps \<Rightarrow> Some (foldl (\<lambda>best q. if py_createdAt best \<le> py_createdAt q then q else best) p ps))"

text \<open>No unique column and no order: the first row of the table.\<close>

definition findByRazorpayOrderId :: "string \<Rightarrow> payment_db \<Rightarrow> Payment option" where
  "findByRazorpayOrderId i db = find_row (\<lambda>p. py_razorpayOrderId p = i) (pd_payments db)"

record CapturePaymentParams =
  ca_paymentOrderId :: ident
  ca_razorpayPaymentId :: string
  ca_razorpaySignature :: "string option"

definition open_payment :: "ident \<Rightarrow> Payment \<Rightarrow> bool" where
  "open_payment i p \<longleftrightarrow> py_paymentOrderId p = i \<and> py_status p \<in> {Pay_CREATED, Pay_PENDING}"

definition updateStatusToCaptured :: "CapturePaymentParams \<Rightarrow> payment_db \<Rightarrow> Payment option \<times> payment_db" where
  "updateStatusToCaptured params db =
     (let db1 = db\<lparr>pd_payments := fst (update_many (open_payment (ca_paymentOrderId params))
            (\<lambda>p. p\<lparr>py_status := Pay_CAPTURED, py_razorpayPaymentId := Some (ca_razorpayPaymentId params),
               py_razorpaySignature := (case ca_razorpaySignature params of
                  Some s \<Rightarrow> Some s | None \<Rightarrow> py_razorpaySignature p)\<rparr>) (pd_payments db))\<rparr>
      in (findByPaymentOrderId (ca_paymentOrderId params) db1, db1))"

definition updateStatusToFailed :: "ident \<Rightarrow> string \<Rightarrow> payment_db \<Rightarrow> Payment option \<times> payment_db" where
  "updateStatusToFailed paymentOrderId reason db =
     (let db1 = db\<lparr>pd_payments := fst (update_many (open_payment paymentOrderId)
            (\<lambda>p. p\<lparr>py_status := Pay_FAILED, py_failureReason := Some reason\<rparr>) (pd_payments db))\<rparr>
      in (findByPaymentOrderId paymentOrderId db1, db1))"

section \<open>Razorpay\<close>

record RazorpayOrderResult =
  ro_id :: string
  ro_entity :: string
  ro_amount :: int
  ro_currency :: string
  ro_receipt :: string
  ro_status :: string

text \<open>The fields of the SDK's reply, each possibly missing, and its request.\<close>

record sdk_order =
  so_id :: "string option"
  so_entity :: "string option"
  so_amount :: int
  so_currency :: "string option"
  so_receipt :: "string option"
  so_status :: "string option"

record CreateRazorpayOrderOptions =
  ra_amountInPaise :: int
  ra_currency :: "string option"
  ra_receipt :: string
  ra_notes :: "(string \<times> string) list"

record payment_env =
  pe_KEY_ID :: string
  pe_KEY_SECRET :: string
  pe_WEBHOOK_SECRET :: string
  pe_hmac :: "string \<Rightarrow> string \<Rightarrow> string"
  pe_orders_create :: "CreateRazorpayOrderOptions \<Rightarrow> exn + sdk_order"
  pe_carrier :: headers

definition is_dummy :: "string \<Rightarrow> bool" where
  "is_dummy key \<longleftrightarrow> key = [] \<or> str_includes key ''dummy''"

definition createRazorpayOrder :: "payment_env \<Rightarrow> 8 word list \<Rightarrow> CreateRazorpayOrderOptions \<Rightarrow> RazorpayOrderResult result" where
  "createRazorpayOrder env bytes options =
     (if is_dummy (pe_KEY_ID env)
      then Inr \<lparr>ro_id = ''order_mock_'' @ toHex bytes, ro_entity = ''order'', ro_amount = ra_amountInPaise options,
             ro_currency = str_or (ra_currency options) ''INR'', ro_receipt = ra_receipt options, ro_status = ''created''\<rparr>
      else bindE (pe_orders_create env (options\<lparr>ra_currency := Some (str_or (ra_currency options) ''INR'')\<rparr>)) (\<lambda>res.
        Inr \<lparr>ro_id = js_String (so_id res), ro_entity = str_or (so_entity res) ''order'', ro_amount = so_amount res,
             ro_currency = js_String (so_currency res), ro_receipt = str_or (so_receipt res) (ra_receipt options),
             ro_status = js_String (so_status res)\<rparr>))"

definition verifyPaymentSignature :: "payment_env \<Rightarrow> string \<Rightarrow> string \<Rightarrow> string option \<Rightarrow> bool" where
  "verifyPaymentSignature env razorpayOrderId razorpayPaymentId razorpaySignature \<longleftrightarrow>
     is_dummy (pe_KEY_SECRET env) \<or>
     Some (pe_hmac env (pe_KEY_SECRET env) (razorpayOrderId @ ''|'' @ razorpayPaymentId)) = razorpaySignature"

definition verifyWebhookSignature :: "payment_env \<Rightarrow> string \<Rightarrow> string option \<Rightarrow> bool" where
  "verifyWebhookSignature env rawBody signatureHeader \<longleftrightarrow>
     is_dummy (pe_WEBHOOK_SECRET env) \<or> Some (pe_hmac env (pe_WEBHOOK_SECRET env) rawBody) = signatureHeader"

section \<open>The service\<close>

record CreateOrderInput =
  ci_bookingId :: ident
  ci_userId :: ident
  ci_amount :: int
  ci_currency :: "string option"

record CreateOrderOutput =
  co_paymentOrderId :: ident
  co_razorpayOrderId :: string
  co_keyId :: string
  co_status :: string

record VerifyPaymentInput =
  vi_paymentOrderId :: "ident option"
  vi_razorpayOrderId :: string
  vi_razorpayPaymentId :: string
  vi_razorpaySignature :: "string option"
  vi_source :: "payment_source option"

record VerifyPaymentOutput =
  vo_paymentOrderId :: ident
  vo_razorpayOrderId :: string
  vo_razorpayPaymentId :: string
  vo_status :: string

definition payment_emit :: "payment_env \<Rightarrow> time \<Rightarrow> ident \<Rightarrow> string \<Rightarrow> string \<Rightarrow> event \<Rightarrow> payment_db \<Rightarrow> payment_db" where
  "payment_emit env now paymentId eventType topic payload db =
     db\<lparr>pd_outbox := outbox_insert (pe_carrier env) now None
         \<lparr>od_aggregateType = ''Payment'', od_aggregateId = paymentId, od_eventType = eventType,
          od_topic = topic, od_payload = payload\<rparr> (pd_outbox db)\<rparr>"

definition create_order_tx :: "payment_env \<Rightarrow> time \<Rightarrow> (nat \<Rightarrow> ident) \<Rightarrow> CreateOrderInput \<Rightarrow> string \<Rightarrow> (payment_db, unit) tx" where
  "create_order_tx env now u inp razorpayOrderId db =
     (let currency = str_or (ci_currency inp) ''INR''
      in bindE (payment_create (u 1) now \<lparr>cp_paymentOrderId = u 0, cp_razorpayOrderId = razorpayOrderId,
              cp_bookingId = ci_bookingId inp, cp_userId = ci_userId inp, cp_amount = ci_amount inp,
              cp_currency = Some currency\<rparr> db) (\<lambda>(payment, db1).
         Inr ((), payment_emit env now (py_id payment) ''PaymentOrderCreatedV1'' ''payment.order-created.v1''
           (EvPaymentOrderCreated \<lparr>po_eventId = u 2, po_bookingId = ci_bookingId inp,
              po_paymentOrderId = py_paymentOrderId payment, po_razorpayOrderId = razorpayOrderId,
              po_amount = decimal_toFixed2 (ci_amount inp), po_currency = currency\<rparr>) db1)))"

definition createOrder :: "payment_env \<Rightarrow> time \<Rightarrow> (nat \<Rightarrow> ident) \<Rightarrow> 8 word list \<Rightarrow> CreateOrderInput \<Rightarrow>
    (payment_db, CreateOrderOutput) proc" where
  "createOrder env now u bytes inp db =
     (let fresh = (case createRazorpayOrder env bytes \<lparr>ra_amountInPaise = ci_amount inp,
              ra_currency = Some (str_or (ci_currency inp) ''INR''), ra_receipt = u 0,
              ra_notes = [(''bookingId'', ci_bookingId inp), (''userId'', ci_userId inp)]\<rparr> of
            Inl e \<Rightarrow> (Inl e, db)
          | Inr razorpayOrder \<Rightarrow>
              (case transaction (create_order_tx env now u inp (ro_id razorpayOrder)) db of
                 (Inl e, db1) \<Rightarrow> (Inl e, db1)
               | (Inr _, db1) \<Rightarrow>
                   (Inr \<lparr>co_paymentOrderId = u 0, co_razorpayOrderId = ro_id razorpayOrder, co_keyId = pe_KEY_ID env,
                         co_status = status_text Pay_PENDING\<rparr>, db1)))
      in (case findByBookingId (ci_bookingId inp) db of
            Some existing \<Rightarrow>
              if py_status existing = Pay_PENDING
              then (Inr \<lparr>co_paymentOrderId = py_paymentOrderId existing, co_razorpayOrderId = py_razorpayOrderId existing,
                         co_keyId = pe_KEY_ID env, co_status = status_text (py_status existing)\<rparr>, db)
              else fresh
          | None \<Rightarrow> fresh))"

text \<open>The transaction of \<open>verifyAndCapture\<close>, for the row \<open>payment\<close> that was read before.\<close>

definition capture_tx :: "payment_env \<Rightarrow> time \<Rightarrow> ident \<Rightarrow> VerifyPaymentInput \<Rightarrow> Payment \<Rightarrow> (payment_db, unit) tx" where
  "capture_tx env now eventId inp payment db =
     (case updateStatusToCaptured \<lparr>ca_paymentOrderId = py_paymentOrderId payment,
             ca_razorpayPaymentId = vi_razorpayPaymentId inp, ca_razorpaySignature = vi_razorpaySignature inp\<rparr> db of
        (None, _) \<Rightarrow> Inl (ApiError 500 ''INTERNAL_ERROR'')
      | (Some _, db1) \<Rightarrow>
          Inr ((), payment_emit env now (py_id payment) ''PaymentSuccessV1'' ''payment.success.v1''
            (EvPaymentSuccess \<lparr>ps_eventId = eventId, ps_bookingId = py_bookingId payment, ps_paymentId = py_id payment,
               ps_paymentOrderId = py_paymentOrderId payment, ps_razorpayPaymentId = vi_razorpayPaymentId inp,
               ps_amount = decimal_toString (py_amount payment),
               ps_source = (case vi_source inp of Some s \<Rightarrow> s | None \<Rightarrow> CLIENT)\<rparr>) db1))"

definition verifyAndCapture :: "payment_env \<Rightarrow> time \<Rightarrow> ident \<Rightarrow> VerifyPaymentInput \<Rightarrow> (payment_db, VerifyPaymentOutput) proc" where
  "verifyAndCapture env now eventId inp db =
     (if \<not> verifyPaymentSignature env (vi_razorpayOrderId inp) (vi_razorpayPaymentId inp) (vi_razorpaySignature inp)
      then (Inl (ApiError 400 ''INVALID_INPUT''), db)
      else (case findByRazorpayOrderId (vi_razorpayOrderId inp) db of
        None \<Rightarrow> (Inl (ApiError 404 ''NOT_FOUND''), db)
      | Some payment \<Rightarrow>
          if py_status payment = Pay_CAPTURED
          then (Inr \<lparr>vo_paymentOrderId = py_paymentOrderId payment, vo_razorpayOrderId = py_razorpayOrderId payment,
                     vo_razorpayPaymentId = str_or (py_razorpayPaymentId payment) (vi_razorpayPaymentId inp),
                     vo_status = status_text (py_status payment)\<rparr>, db)
          else (case transaction (capture_tx env now eventId inp payment) db of
            (Inl e, db1) \<Rightarrow> (Inl e, db1)
          | (Inr _, db1) \<Rightarrow>
              (Inr \<lparr>vo_paymentOrderId = py_paymentOrderId payment, vo_razorpayOrderId = py_razorpayOrderId payment,
                    vo_razorpayPaymentId = vi_razorpayPaymentId inp, vo_status = status_text Pay_CAPTURED\<rparr>, db1))))"

definition mark_failed_tx :: "payment_env \<Rightarrow> time \<Rightarrow> ident \<Rightarrow> string option \<Rightarrow> Payment \<Rightarrow> (payment_db, unit) tx" where
  "mark_failed_tx env now eventId reason payment db =
     (let text = str_or reason ''Payment failed at gateway''
      in bindE (update_row (\<lambda>p. py_id p = py_id payment)
                  (\<lambda>p. p\<lparr>py_status := Pay_FAILED, py_failureReason := Some text\<rparr>) (pd_payments db)) (\<lambda>rows.
         Inr ((), payment_emit env now (py_id payment) ''PaymentFailedV1'' ''payment.failed.v1''
           (EvPaymentFailed \<lparr>pf_eventId = eventId, pf_bookingId = py_bookingId payment,
              pf_paymentOrderId = py_paymentOrderId payment, pf_reason = text\<rparr>) (db\<lparr>pd_payments := rows\<rparr>))))"

definition markAsFailed :: "payment_env \<Rightarrow> time \<Rightarrow> ident \<Rightarrow> string \<Rightarrow> string option \<Rightarrow> (payment_db, unit) proc" where
  "markAsFailed env now eventId razorpayOrderId reason db =
     (case findByRazorpayOrderId razorpayOrderId db of
        None \<Rightarrow> (Inr (), db)
      | Some payment \<Rightarrow>
          if py_status payment = Pay_FAILED \<or> py_status payment = Pay_CAPTURED then (Inr (), db)
          else transaction (mark_failed_tx env now eventId reason payment) db)"

text \<open>What the handler reads of a webhook body. \<open>parse\<close> is \<open>JSON.parse\<close>; it also fails, with a
  \<open>TypeError\<close>, on the body \<open>null\<close>.\<close>

record webhook_entity =
  en_id :: "string option"
  en_order_id :: "string option"
  en_error_description :: "string option"
  en_error_code :: "string option"

record webhook_body =
  wb_event :: string
  wb_payment_entity :: "webhook_entity option"
  wb_order_entity :: "webhook_entity option"

definition webhook_target :: "webhook_body \<Rightarrow> webhook_entity option" where
  "webhook_target b = (case wb_payment_entity b of Some e \<Rightarrow> Some e | None \<Rightarrow> wb_order_entity b)"

definition handleWebhook :: "payment_env \<Rightarrow> (string \<Rightarrow> webhook_body result) \<Rightarrow> time \<Rightarrow> ident \<Rightarrow> string \<Rightarrow> string option \<Rightarrow>
    (payment_db, string \<times> string) proc" where
  "handleWebhook env parse now eventId rawBody signature db =
     (if \<not> verifyWebhookSignature env rawBody signature then (Inl (ApiError 400 ''INVALID_INPUT''), db)
      else (case parse rawBody of
        Inl e \<Rightarrow> (Inl e, db)
      | Inr body \<Rightarrow>
          (let event = wb_event body; processed = (Inr (''PROCESSED'', event))
           in if event = ''payment.captured'' \<or> event = ''order.paid''
              then (case webhook_target body of
                      None \<Rightarrow> (processed, db)
                    | Some entity \<Rightarrow>
                        if str_or (en_order_id entity) [] \<noteq> [] \<and> str_or (en_id entity) [] \<noteq> []
                        then (case verifyAndCapture env now eventId \<lparr>vi_paymentOrderId = None,
                                  vi_razorpayOrderId = the (en_order_id entity), vi_razorpayPaymentId = the (en_id entity),
                                  vi_razorpaySignature = signature, vi_source = Some WEBHOOK\<rparr> db of
                                (Inl e, db1) \<Rightarrow> (Inl e, db1)
                              | (Inr _, db1) \<Rightarrow> (processed, db1))
                        else (processed, db))
              else if event = ''payment.failed''
              then (case webhook_target body of
                      None \<Rightarrow> (processed, db)
                    | Some entity \<Rightarrow>
                        if str_or (en_order_id entity) [] \<noteq> []
                        then (case markAsFailed env now eventId (the (en_order_id entity))
                                  (Some (str_or (en_error_description entity)
                                     (str_or (en_error_code entity) ''Payment failed at gateway''))) db of
                                (Inl e, db1) \<Rightarrow> (Inl e, db1)
                              | (Inr _, db1) \<Rightarrow> (processed, db1))
                        else (processed, db))
              else (processed, db))))"

record OrderStatusView =
  os_paymentOrderId :: ident
  os_razorpayOrderId :: string
  os_razorpayPaymentId :: string
  os_status :: string
  os_amount :: int
  os_currency :: string

definition getStatus :: "ident \<Rightarrow> payment_db \<Rightarrow> OrderStatusView result" where
  "getStatus paymentOrderId db =
     (case findByPaymentOrderId paymentOrderId db of
        None \<Rightarrow> Inl (ApiError 404 ''NOT_FOUND'')
      | Some payment \<Rightarrow>
          Inr \<lparr>os_paymentOrderId = py_paymentOrderId payment, os_razorpayOrderId = py_razorpayOrderId payment,
            os_razorpayPaymentId = str_or (py_razorpayPaymentId payment) [], os_status = status_text (py_status payment),
            os_amount = py_amount payment, os_currency = py_currency payment\<rparr>)"

section \<open>Handlers\<close>

text \<open>\<open>isUuid\<close> is the UUID check of \<open>zod\<close>. The amount of a request is an integer already.\<close>

definition createOrderRequestSchema :: "(string \<Rightarrow> bool) \<Rightarrow> CreateOrderInput \<Rightarrow> CreateOrderInput result" where
  "createOrderRequestSchema isUuid q =
     (let currency = (case ci_currency q of Some c \<Rightarrow> c | None \<Rightarrow> ''INR'')
      in if isUuid (ci_bookingId q) \<and> isUuid (ci_userId q) \<and> 0 < ci_amount q \<and> length currency = 3
         then Inr (q\<lparr>ci_currency := Some currency\<rparr>) else Inl ZodError)"

definition grpc_createOrder :: "payment_env \<Rightarrow> (string \<Rightarrow> bool) \<Rightarrow> time \<Rightarrow> (nat \<Rightarrow> ident) \<Rightarrow> 8 word list \<Rightarrow> CreateOrderInput \<Rightarrow>
    (payment_db, CreateOrderOutput) proc" where
  "grpc_createOrder env isUuid now u bytes request db =
     (case createOrderRequestSchema isUuid request of
        Inl e \<Rightarrow> (Inl e, db)
      | Inr validated \<Rightarrow> createOrder env now u bytes validated db)"

definition grpc_getOrderStatus :: "(string \<Rightarrow> bool) \<Rightarrow> ident \<Rightarrow> payment_db \<Rightarrow> OrderStatusView result" where
  "grpc_getOrderStatus isUuid paymentOrderId db =
     (if isUuid paymentOrderId then getStatus paymentOrderId db else Inl ZodError)"

definition verifyPaymentSchema :: "(string \<Rightarrow> bool) \<Rightarrow> VerifyPaymentInput \<Rightarrow> bool" where
  "verifyPaymentSchema isUuid b \<longleftrightarrow>
     (case vi_paymentOrderId b of Some i \<Rightarrow> isUuid i | None \<Rightarrow> True) \<and>
     1 \<le> length (vi_razorpayOrderId b) \<and> 1 \<le> length (vi_razorpayPaymentId b) \<and>
     (case vi_razorpaySignature b of Some s \<Rightarrow> 1 \<le> length s | None \<Rightarrow> False)"

definition controller_verifyPayment :: "payment_env \<Rightarrow> time \<Rightarrow> ident \<Rightarrow> VerifyPaymentInput \<Rightarrow>
    (payment_db, int \<times> VerifyPaymentOutput) proc" where
  "controller_verifyPayment env now eventId body db =
     (case verifyAndCapture env now eventId (body\<lparr>vi_source := Some CLIENT\<rparr>) db of
        (Inl e, db1) \<Rightarrow> (Inl e, db1)
      | (Inr result, db1) \<Rightarrow> (Inr (200, result), db1))"

text \<open>\<open>rawBody\<close> is the property nothing sets; \<open>stringified\<close> is \<open>JSON.stringify(req.body)\<close>.\<close>

definition controller_handleWebhook :: "payment_env \<Rightarrow> (string \<Rightarrow> webhook_body result) \<Rightarrow> time \<Rightarrow> ident \<Rightarrow> string option \<Rightarrow>
    string \<Rightarrow> string option \<Rightarrow> (payment_db, int \<times> string \<times> string) proc" where
  "controller_handleWebhook env parse now eventId rawBody stringified signature db =
     (case handleWebhook env parse now eventId (str_or rawBody stringified) signature db of
        (Inl e, db1) \<Rightarrow> (Inl e, db1)
      | (Inr result, db1) \<Rightarrow> (Inr (200, result), db1))"

end
