(* ===== verification/PaymentProps.thy ===== *)
theory PaymentProps
  imports Payment
begin

text \<open>
  What the payment service promises. \<open>pay_step\<close> is one committed transaction of any of its calls;
  beside the database its state holds the rows that calls in flight have read and the verification
  requests that callers have presented. Every call is a sequence of such steps, and the invariant
  of the steps says which events exist, and why.
\<close>

section \<open>Steps\<close>

type_synonym pay_sys = "payment_db \<times> Payment list \<times> VerifyPaymentInput list"

inductive pay_step :: "payment_env \<Rightarrow> pay_sys \<Rightarrow> pay_sys \<Rightarrow> bool" for env where
  presents: "pay_step env (db, rs, is) (db, rs, inp # is)"
| reads: "p \<in> set (pd_payments db) \<Longrightarrow> pay_step env (db, rs, is) (db, p # rs, is)"
| orders: "create_order_tx env now u inp rid db = Inr ((), db') \<Longrightarrow> pay_step env (db, rs, is) (db', rs, is)"
| captures: "inp \<in> set is \<Longrightarrow>
    verifyPaymentSignature env (vi_razorpayOrderId inp) (vi_razorpayPaymentId inp) (vi_razorpaySignature inp) \<Longrightarrow>
    p \<in> set rs \<Longrightarrow> py_razorpayOrderId p = vi_razorpayOrderId inp \<Longrightarrow> py_status p \<noteq> Pay_CAPTURED \<Longrightarrow>
    capture_tx env now eventId inp p db = Inr ((), db') \<Longrightarrow> pay_step env (db, rs, is) (db', rs, is)"
| fails: "p \<in> set rs \<Longrightarrow> py_status p \<notin> {Pay_FAILED, Pay_CAPTURED} \<Longrightarrow>
    mark_failed_tx env now eventId reason p db = Inr ((), db') \<Longrightarrow> pay_step env (db, rs, is) (db', rs, is)"

fun success_events :: "event list \<Rightarrow> PaymentSuccessV1 list" where
  "success_events [] = []"
| "success_events (EvPaymentSuccess e # es) = e # success_events es"
| "success_events (_ # es) = success_events es"

fun failure_events :: "event list \<Rightarrow> PaymentFailedV1 list" where
  "failure_events [] = []"
| "failure_events (EvPaymentFailed e # es) = e # failure_events es"
| "failure_events (_ # es) = failure_events es"

fun order_events :: "event list \<Rightarrow> PaymentOrderCreatedV1 list" where
  "order_events [] = []"
| "order_events (EvPaymentOrderCreated e # es) = e # order_events es"
| "order_events (_ # es) = order_events es"

lemma events_append [simp]:
  "success_events (xs @ ys) = success_events xs @ success_events ys"
  "failure_events (xs @ ys) = failure_events xs @ failure_events ys"
  "order_events (xs @ ys) = order_events xs @ order_events ys"
  by (induction xs rule: success_events.induct; simp)
    (induction xs rule: failure_events.induct; simp | induction xs rule: order_events.induct; simp)+

definition published :: "payment_db \<Rightarrow> event list" where
  "published db = outbox_payloads (pd_outbox db)"

lemma published_emit [simp]:
  "published (payment_emit env now i et t ev db) = published db @ [ev]"
  "pd_payments (payment_emit env now i et t ev db) = pd_payments db"
  by (simp_all add: published_def payment_emit_def)

lemma published_rows [simp]: "published (db\<lparr>pd_payments := rows\<rparr>) = published db"
  by (simp add: published_def)

section \<open>The invariant\<close>

definition same_payment :: "Payment \<Rightarrow> Payment \<Rightarrow> bool" where
  "same_payment p q \<longleftrightarrow> py_id q = py_id p \<and> py_paymentOrderId q = py_paymentOrderId p \<and>
     py_razorpayOrderId q = py_razorpayOrderId p \<and> py_bookingId q = py_bookingId p \<and> py_userId q = py_userId p \<and>
     py_amount q = py_amount p \<and> py_currency q = py_currency p"

fun pay_rank :: "PaymentStatus \<Rightarrow> nat" where
  "pay_rank Pay_CAPTURED = 1"
| "pay_rank Pay_FAILED = 2"
| "pay_rank _ = 0"

definition pay_later :: "Payment \<Rightarrow> Payment \<Rightarrow> bool" where
  "pay_later p q \<longleftrightarrow> same_payment p q \<and> (py_status q = py_status p \<or> pay_rank (py_status p) < pay_rank (py_status q))"

lemma pay_later_refl [simp]: "pay_later p p"
  by (simp add: pay_later_def same_payment_def)

lemma pay_later_self: "r \<in> set rows \<Longrightarrow> \<exists>x \<in> set rows. pay_later r x"
  using pay_later_refl by blast

lemma pay_later_trans: "pay_later p q \<Longrightarrow> pay_later q r \<Longrightarrow> pay_later p r"
  by (auto simp: pay_later_def same_payment_def)

lemma pay_later_same: "pay_later p q \<Longrightarrow> same_payment p q"
  by (simp add: pay_later_def)

definition signed :: "payment_env \<Rightarrow> VerifyPaymentInput \<Rightarrow> Payment \<Rightarrow> bool" where
  "signed env inp p \<longleftrightarrow> vi_razorpayOrderId inp = py_razorpayOrderId p \<and>
     verifyPaymentSignature env (vi_razorpayOrderId inp) (vi_razorpayPaymentId inp) (vi_razorpaySignature inp)"

lemma signed_same: "same_payment p q \<Longrightarrow> signed env inp p \<longleftrightarrow> signed env inp q"
  by (simp add: signed_def same_payment_def)

definition rows_distinct :: "pay_sys \<Rightarrow> bool" where
  "rows_distinct s \<longleftrightarrow> distinct (map py_id (pd_payments (fst s))) \<and> distinct (map py_paymentOrderId (pd_payments (fst s)))"

definition pay_reads_ok :: "pay_sys \<Rightarrow> bool" where
  "pay_reads_ok s \<longleftrightarrow> (\<forall>p \<in> set (fst (snd s)). \<exists>r \<in> set (pd_payments (fst s)). pay_later p r)"

definition payment_row_ok :: "payment_env \<Rightarrow> pay_sys \<Rightarrow> Payment \<Rightarrow> bool" where
  "payment_row_ok env s r \<longleftrightarrow> py_status r \<in> {Pay_PENDING, Pay_CAPTURED, Pay_FAILED} \<and>
     (py_status r = Pay_CAPTURED \<longrightarrow> (\<exists>inp \<in> set (snd (snd s)). signed env inp r \<and>
        py_razorpayPaymentId r = Some (vi_razorpayPaymentId inp)) \<and>
        (\<exists>e \<in> set (success_events (published (fst s))). ps_paymentId e = py_id r)) \<and>
     (py_status r = Pay_FAILED \<longleftrightarrow> (\<exists>e \<in> set (failure_events (published (fst s))). pf_paymentOrderId e = py_paymentOrderId r))"

definition success_ok :: "payment_env \<Rightarrow> pay_sys \<Rightarrow> PaymentSuccessV1 \<Rightarrow> bool" where
  "success_ok env s e \<longleftrightarrow> (\<exists>r \<in> set (pd_payments (fst s)). ps_paymentId e = py_id r \<and>
     ps_paymentOrderId e = py_paymentOrderId r \<and> ps_bookingId e = py_bookingId r \<and> ps_amount e = decimal_toString (py_amount r) \<and>
     (\<exists>inp \<in> set (snd (snd s)). signed env inp r \<and> vi_razorpayPaymentId inp = ps_razorpayPaymentId e))"

definition failure_ok :: "pay_sys \<Rightarrow> PaymentFailedV1 \<Rightarrow> bool" where
  "failure_ok s e \<longleftrightarrow> (\<exists>r \<in> set (pd_payments (fst s)). pf_paymentOrderId e = py_paymentOrderId r \<and> pf_bookingId e = py_bookingId r)"

definition order_of :: "Payment \<Rightarrow> ident \<times> ident \<times> string \<times> string \<times> string" where
  "order_of r = (py_paymentOrderId r, py_bookingId r, py_razorpayOrderId r, decimal_toFixed2 (py_amount r), py_currency r)"

definition order_event_of :: "PaymentOrderCreatedV1 \<Rightarrow> ident \<times> ident \<times> string \<times> string \<times> string" where
  "order_event_of e = (po_paymentOrderId e, po_bookingId e, po_razorpayOrderId e, po_amount e, po_currency e)"

definition pay_ok :: "payment_env \<Rightarrow> pay_sys \<Rightarrow> bool" where
  "pay_ok env s \<longleftrightarrow> rows_distinct s \<and> pay_reads_ok s \<and> (\<forall>r \<in> set (pd_payments (fst s)). payment_row_ok env s r) \<and>
     (\<forall>e \<in> set (success_events (published (fst s))). success_ok env s e) \<and>
     (\<forall>e \<in> set (failure_events (published (fst s))). failure_ok s e) \<and>
     map order_event_of (order_events (published (fst s))) = map order_of (pd_payments (fst s))"

lemma pay_ok_row: "pay_ok env s \<Longrightarrow> r \<in> set (pd_payments (fst s)) \<Longrightarrow> payment_row_ok env s r"
  by (simp add: pay_ok_def)

lemma pay_ok_status:
  "pay_ok env s \<Longrightarrow> r \<in> set (pd_payments (fst s)) \<Longrightarrow> py_status r \<in> {Pay_PENDING, Pay_CAPTURED, Pay_FAILED}"
  using pay_ok_row unfolding payment_row_ok_def by blast

lemma pay_ok_empty: "pay_ok env (empty_payment_db, [], [])"
  by (simp add: pay_ok_def rows_distinct_def pay_reads_ok_def empty_payment_db_def published_def)

section \<open>What a step does\<close>

text \<open>A commit rewrites rows in place or appends one.\<close>

definition rewrites_rows :: "(Payment \<Rightarrow> Payment) \<Rightarrow> pay_sys \<Rightarrow> payment_db \<Rightarrow> bool" where
  "rewrites_rows f s db' \<longleftrightarrow> pd_payments db' = map f (pd_payments (fst s)) \<and> (\<forall>r \<in> set (pd_payments (fst s)). pay_later r (f r))"

definition captured_row :: "VerifyPaymentInput \<Rightarrow> ident \<Rightarrow> Payment \<Rightarrow> Payment" where
  "captured_row inp i p = (if open_payment i p
     then p\<lparr>py_status := Pay_CAPTURED, py_razorpayPaymentId := Some (vi_razorpayPaymentId inp),
            py_razorpaySignature := (case vi_razorpaySignature inp of Some s \<Rightarrow> Some s | None \<Rightarrow> py_razorpaySignature p)\<rparr> else p)"

definition failed_row :: "ident \<Rightarrow> string \<Rightarrow> Payment \<Rightarrow> Payment" where
  "failed_row i text p = (if py_id p = i then p\<lparr>py_status := Pay_FAILED, py_failureReason := Some text\<rparr> else p)"

lemma captured_order: "py_paymentOrderId (captured_row inp i p) = py_paymentOrderId p"
  by (simp add: captured_row_def)

lemma capture_tx_Inr:
  "capture_tx env now eventId inp p db = Inr (x, db') \<longleftrightarrow>
    (\<exists>r \<in> set (pd_payments db). py_paymentOrderId r = py_paymentOrderId p) \<and>
    db' = payment_emit env now (py_id p) ''PaymentSuccessV1'' ''payment.success.v1''
      (EvPaymentSuccess \<lparr>ps_eventId = eventId, ps_bookingId = py_bookingId p, ps_paymentId = py_id p,
         ps_paymentOrderId = py_paymentOrderId p, ps_razorpayPaymentId = vi_razorpayPaymentId inp,
         ps_amount = decimal_toString (py_amount p), ps_source = (case vi_source inp of Some s \<Rightarrow> s | None \<Rightarrow> CLIENT)\<rparr>)
      (db\<lparr>pd_payments := map (captured_row inp (py_paymentOrderId p)) (pd_payments db)\<rparr>)"
proof -
  let ?rows = "map (captured_row inp (py_paymentOrderId p)) (pd_payments db)"
  have f: "find_row (\<lambda>q. py_paymentOrderId q = py_paymentOrderId p) ?rows = None \<longleftrightarrow>
      \<not> (\<exists>r \<in> set (pd_payments db). py_paymentOrderId r = py_paymentOrderId p)"
    unfolding find_row_None_iff set_map ball_simps(9) captured_order by blast
  have u: "fst (update_many (open_payment (py_paymentOrderId p)) g (pd_payments db)) =
      map (\<lambda>r. if open_payment (py_paymentOrderId p) r then g r else r) (pd_payments db)" for g
    by (simp add: update_many_def)
  show ?thesis
    unfolding capture_tx_def updateStatusToCaptured_def CapturePaymentParams.simps u captured_row_def [symmetric] Let_def
    using f by (auto simp: findByPaymentOrderId_def split: option.splits)
qed

lemma mark_failed_tx_Inr:
  "mark_failed_tx env now eventId reason p db = Inr (x, db') \<longleftrightarrow>
    (\<exists>r \<in> set (pd_payments db). py_id r = py_id p) \<and>
    db' = payment_emit env now (py_id p) ''PaymentFailedV1'' ''payment.failed.v1''
      (EvPaymentFailed \<lparr>pf_eventId = eventId, pf_bookingId = py_bookingId p, pf_paymentOrderId = py_paymentOrderId p,
         pf_reason = str_or reason ''Payment failed at gateway''\<rparr>)
      (db\<lparr>pd_payments := map (failed_row (py_id p) (str_or reason ''Payment failed at gateway'')) (pd_payments db)\<rparr>)"
  by (auto simp: mark_failed_tx_def Let_def bindE_eq_Inr_iff update_row_Inr_iff failed_row_def [abs_def])

definition new_payment :: "time \<Rightarrow> (nat \<Rightarrow> ident) \<Rightarrow> CreateOrderInput \<Rightarrow> string \<Rightarrow> Payment" where
  "new_payment now u inp rid = \<lparr>py_id = u 1, py_paymentOrderId = u 0, py_razorpayOrderId = rid,
     py_bookingId = ci_bookingId inp, py_userId = ci_userId inp, py_amount = ci_amount inp,
     py_currency = str_or (ci_currency inp) ''INR'', py_status = Pay_PENDING, py_razorpayPaymentId = None,
     py_razorpaySignature = None, py_failureReason = None, py_createdAt = now\<rparr>"

lemma str_or_twice [simp]: "str_or (Some (str_or x ''INR'')) ''INR'' = str_or x ''INR''"
  by (simp add: str_or_def split: option.splits)

lemma create_order_tx_Inr:
  "create_order_tx env now u inp rid db = Inr (x, db') \<longleftrightarrow>
    u 1 \<notin> py_id ` set (pd_payments db) \<and> u 0 \<notin> py_paymentOrderId ` set (pd_payments db) \<and>
    db' = payment_emit env now (u 1) ''PaymentOrderCreatedV1'' ''payment.order-created.v1''
      (EvPaymentOrderCreated \<lparr>po_eventId = u 2, po_bookingId = ci_bookingId inp, po_paymentOrderId = u 0,
         po_razorpayOrderId = rid, po_amount = decimal_toFixed2 (ci_amount inp), po_currency = str_or (ci_currency inp) ''INR''\<rparr>)
      (db\<lparr>pd_payments := pd_payments db @ [new_payment now u inp rid]\<rparr>)"
  by (auto simp: create_order_tx_def payment_create_def Let_def bindE_eq_Inr_iff create_row_Inr_iff new_payment_def)

lemma captured_same [simp]: "same_payment p (captured_row inp i p)"
  by (simp add: same_payment_def captured_row_def)

lemma failed_same [simp]: "same_payment p (failed_row i text p)"
  by (simp add: same_payment_def failed_row_def)

lemma captured_later: "pay_later p (captured_row inp i p)"
  by (auto simp: pay_later_def captured_row_def open_payment_def same_payment_def)

lemma failed_later:
  "py_status p \<in> {Pay_PENDING, Pay_CAPTURED, Pay_FAILED} \<Longrightarrow> pay_later p (failed_row i text p)"
  by (auto simp: pay_later_def failed_row_def same_payment_def)

lemma same_payment_fields:
  "same_payment p q \<Longrightarrow> py_id q = py_id p" "same_payment p q \<Longrightarrow> py_paymentOrderId q = py_paymentOrderId p"
  "same_payment p q \<Longrightarrow> py_bookingId q = py_bookingId p" "same_payment p q \<Longrightarrow> py_razorpayOrderId q = py_razorpayOrderId p"
  "same_payment p q \<Longrightarrow> py_amount q = py_amount p" "same_payment p q \<Longrightarrow> order_of q = order_of p"
  by (simp_all add: same_payment_def order_of_def)

lemma same_payment_refl [simp]: "same_payment p p"
  by (simp add: same_payment_def)

text \<open>The row behind a read, and that no other row shares its keys.\<close>

lemma read_payment:
  assumes "pay_ok env (db, rs, is)" and "p \<in> set rs"
  obtains r where "r \<in> set (pd_payments db)" "same_payment p r"
    "\<And>x. x \<in> set (pd_payments db) \<Longrightarrow> py_paymentOrderId x = py_paymentOrderId p \<Longrightarrow> x = r"
    "\<And>x. x \<in> set (pd_payments db) \<Longrightarrow> py_id x = py_id p \<Longrightarrow> x = r"
proof -
  have d: "inj_on py_paymentOrderId (set (pd_payments db))" "inj_on py_id (set (pd_payments db))"
    using assms(1) by (simp_all add: pay_ok_def rows_distinct_def distinct_map)
  from assms obtain r where r: "r \<in> set (pd_payments db)" "same_payment p r"
    unfolding pay_ok_def pay_reads_ok_def using pay_later_same by fastforce
  then have "py_paymentOrderId r = py_paymentOrderId p" "py_id r = py_id p" by (simp_all add: same_payment_def)
  with r d that show ?thesis by (metis inj_onD)
qed

text \<open>Facts about rows and events survive a rewrite of the rows that publishes more.\<close>

definition extends :: "payment_db \<Rightarrow> payment_db \<Rightarrow> bool" where
  "extends db db' \<longleftrightarrow> (\<exists>f. pd_payments db' = map f (pd_payments db) \<and> (\<forall>r. same_payment r (f r)) \<and>
     (\<forall>r \<in> set (pd_payments db). pay_later r (f r))) \<and> (\<exists>es. published db' = published db @ es)"

lemma extends_row: "extends db db' \<Longrightarrow> r \<in> set (pd_payments db) \<Longrightarrow> \<exists>r' \<in> set (pd_payments db'). pay_later r r'"
  by (auto simp: extends_def)

lemma extends_distinct:
  assumes "extends db db'" and "rows_distinct (db, x)" shows "rows_distinct (db', y)"
proof -
  from assms(1) obtain f where f: "pd_payments db' = map f (pd_payments db)" "\<forall>r. same_payment r (f r)"
    by (auto simp: extends_def)
  then have "map py_id (pd_payments db') = map py_id (pd_payments db)"
    "map py_paymentOrderId (pd_payments db') = map py_paymentOrderId (pd_payments db)"
    by (auto simp: same_payment_def)
  with assms(2) show ?thesis by (simp add: rows_distinct_def)
qed

lemma extends_orders:
  assumes "extends db db'" shows "map order_of (pd_payments db') = map order_of (pd_payments db)"
  using assms same_payment_fields(6) by (auto simp: extends_def)

lemma extends_reads: "extends db db' \<Longrightarrow> pay_reads_ok (db, rs, is) \<Longrightarrow> pay_reads_ok (db', rs, is')"
  unfolding pay_reads_ok_def using extends_row pay_later_trans by fastforce

lemma extends_success:
  assumes "extends db db'" and "success_ok env (db, rs, is) e" shows "success_ok env (db', rs', is) e"
proof -
  from assms(2) obtain r inp where r: "r \<in> set (pd_payments db)" "ps_paymentId e = py_id r" "ps_paymentOrderId e = py_paymentOrderId r"
    "ps_bookingId e = py_bookingId r" "ps_amount e = decimal_toString (py_amount r)" "inp \<in> set is" "signed env inp r"
    "vi_razorpayPaymentId inp = ps_razorpayPaymentId e" by (auto simp: success_ok_def)
  obtain r' where r': "r' \<in> set (pd_payments db')" "same_payment r r'"
    using extends_row [OF assms(1) r(1)] pay_later_same by blast
  have "signed env inp r'" using r(7) signed_same [OF r'(2)] by simp
  then show ?thesis unfolding success_ok_def using r(2-6,8) same_payment_fields [OF r'(2)] r'(1)
    by (intro bexI [of _ r']) auto
qed

lemma extends_failure:
  assumes "extends db db'" and "failure_ok (db, rs, is) e" shows "failure_ok (db', rs', is') e"
proof -
  from assms(2) obtain r where r: "r \<in> set (pd_payments db)" "pf_paymentOrderId e = py_paymentOrderId r"
    "pf_bookingId e = py_bookingId r" by (auto simp: failure_ok_def)
  obtain r' where r': "r' \<in> set (pd_payments db')" "same_payment r r'"
    using extends_row [OF assms(1) r(1)] pay_later_same by blast
  then show ?thesis unfolding failure_ok_def using r(2,3) same_payment_fields [OF r'(2)]
    by (intro bexI [of _ r']) auto
qed

section \<open>Every step keeps the invariant\<close>

lemma pay_ok_capture:
  assumes ok: "pay_ok env (db, rs, is)" and "inp \<in> set is"
    and sig: "verifyPaymentSignature env (vi_razorpayOrderId inp) (vi_razorpayPaymentId inp) (vi_razorpaySignature inp)"
    and "p \<in> set rs" and "py_razorpayOrderId p = vi_razorpayOrderId inp"
    and cap: "capture_tx env now eventId inp p db = Inr ((), db')"
  shows "pay_ok env (db', rs, is) \<and> extends db db'"
proof -
  obtain r where r: "r \<in> set (pd_payments db)" "same_payment p r"
    and only: "\<And>x. x \<in> set (pd_payments db) \<Longrightarrow> py_paymentOrderId x = py_paymentOrderId p \<Longrightarrow> x = r"
    using read_payment [OF ok assms(4)] by metis
  let ?f = "captured_row inp (py_paymentOrderId p)"
  define ev where "ev = \<lparr>ps_eventId = eventId, ps_bookingId = py_bookingId p, ps_paymentId = py_id p,
      ps_paymentOrderId = py_paymentOrderId p, ps_razorpayPaymentId = vi_razorpayPaymentId inp,
      ps_amount = decimal_toString (py_amount p), ps_source = (case vi_source inp of Some s \<Rightarrow> s | None \<Rightarrow> CLIENT)\<rparr>"
  have db': "pd_payments db' = map ?f (pd_payments db)" "published db' = published db @ [EvPaymentSuccess ev]"
    using cap unfolding capture_tx_Inr ev_def by simp_all
  have ext: "extends db db'" unfolding extends_def db' using captured_later captured_same by blast
  have signed_r: "signed env inp r" using sig assms(5) same_payment_fields(4) [OF r(2)] by (simp add: signed_def)
  note same = same_payment_fields [OF r(2)] same_payment_fields [OF captured_same [of r inp "py_paymentOrderId p"]]
  have rows: "payment_row_ok env (db', rs, is) (?f x)" if x: "x \<in> set (pd_payments db)" for x
  proof (cases "open_payment (py_paymentOrderId p) x")
    case True
    then have xr: "x = r" using only [OF x] by (simp add: open_payment_def)
    have old: "payment_row_ok env (db, rs, is) x" using ok x by (simp add: pay_ok_def)
    have "py_status x \<noteq> Pay_FAILED" using True by (auto simp: open_payment_def)
    then have nf: "\<not> (\<exists>e \<in> set (failure_events (published db)). pf_paymentOrderId e = py_paymentOrderId x)"
      using old by (simp add: payment_row_ok_def)
    have "signed env inp (?f x)" using signed_r xr signed_same [OF captured_same] by blast
    moreover have "py_status (?f x) = Pay_CAPTURED" "py_razorpayPaymentId (?f x) = Some (vi_razorpayPaymentId inp)"
      using True by (simp_all add: captured_row_def)
    moreover have "ps_paymentId ev = py_id (?f x)" using same xr by (simp add: ev_def)
    moreover have "py_paymentOrderId (?f x) = py_paymentOrderId x" by (simp add: captured_row_def)
    ultimately show ?thesis unfolding payment_row_ok_def using assms(2) nf by (auto simp: db')
  next
    case False
    then have "?f x = x" by (simp add: captured_row_def)
    moreover have "payment_row_ok env (db, rs, is) x" using ok x by (simp add: pay_ok_def)
    ultimately show ?thesis by (auto simp: payment_row_ok_def db')
  qed
  have "success_ok env (db', rs, is) ev"
    unfolding success_ok_def using r(1) same signed_r assms(2) signed_same [OF captured_same]
    by (intro bexI [of _ "?f r"]) (auto simp: ev_def db')
  then show ?thesis using ok ext rows extends_distinct [OF ext] extends_reads [OF ext] extends_success [OF ext]
      extends_failure [OF ext] extends_orders [OF ext]
    unfolding pay_ok_def by (simp add: db'(2)) (auto simp: db'(1))
qed

lemma pay_ok_fail:
  assumes ok: "pay_ok env (db, rs, is)" and "p \<in> set rs"
    and fail: "mark_failed_tx env now eventId reason p db = Inr ((), db')"
  shows "pay_ok env (db', rs, is) \<and> extends db db'"
proof -
  obtain r where r: "r \<in> set (pd_payments db)" "same_payment p r"
    and only: "\<And>x. x \<in> set (pd_payments db) \<Longrightarrow> py_paymentOrderId x = py_paymentOrderId p \<Longrightarrow> x = r"
    and only_id: "\<And>x. x \<in> set (pd_payments db) \<Longrightarrow> py_id x = py_id p \<Longrightarrow> x = r"
    by (rule read_payment [OF ok assms(2)]) (rule that)
  let ?text = "str_or reason ''Payment failed at gateway''"
  let ?f = "failed_row (py_id p) ?text"
  define ev where "ev = \<lparr>pf_eventId = eventId, pf_bookingId = py_bookingId p, pf_paymentOrderId = py_paymentOrderId p,
      pf_reason = ?text\<rparr>"
  have db': "pd_payments db' = map ?f (pd_payments db)" "published db' = published db @ [EvPaymentFailed ev]"
    using fail unfolding mark_failed_tx_Inr ev_def by simp_all
  have "py_status x \<in> {Pay_PENDING, Pay_CAPTURED, Pay_FAILED}" if "x \<in> set (pd_payments db)" for x
    using pay_ok_status [OF ok] that by simp
  then have ext: "extends db db'" unfolding extends_def db' using failed_later failed_same by blast
  note same = same_payment_fields [OF r(2)] same_payment_fields [OF failed_same [of r "py_id p" ?text]]
  have rows: "payment_row_ok env (db', rs, is) (?f x)" if x: "x \<in> set (pd_payments db)" for x
  proof (cases "py_id x = py_id p")
    case True
    then have "x = r" using only_id [OF x] by simp
    then have "pf_paymentOrderId ev = py_paymentOrderId (?f x)" using same by (simp add: ev_def)
    moreover have "py_status (?f x) = Pay_FAILED" using True by (simp add: failed_row_def)
    ultimately have "py_status (?f x) = Pay_FAILED \<and> (\<exists>e \<in> set (failure_events (published db')).
        pf_paymentOrderId e = py_paymentOrderId (?f x))" by (simp add: db')
    then show ?thesis unfolding payment_row_ok_def by simp
  next
    case False
    then have "?f x = x" "x \<noteq> r" using same by (auto simp: failed_row_def)
    moreover have "pf_paymentOrderId ev \<noteq> py_paymentOrderId x" using only [OF x] \<open>x \<noteq> r\<close> by (auto simp: ev_def)
    moreover have "payment_row_ok env (db, rs, is) x" using ok x by (simp add: pay_ok_def)
    ultimately show ?thesis by (auto simp: payment_row_ok_def db')
  qed
  have "failure_ok (db', rs, is) ev"
    unfolding failure_ok_def using r(1) same by (intro bexI [of _ "?f r"]) (auto simp: ev_def db')
  then show ?thesis using ok ext rows extends_distinct [OF ext] extends_reads [OF ext] extends_success [OF ext]
      extends_failure [OF ext] extends_orders [OF ext]
    unfolding pay_ok_def by (simp add: db'(2)) (auto simp: db'(1))
qed

lemma pay_ok_order:
  assumes ok: "pay_ok env (db, rs, is)" and new: "create_order_tx env now u inp rid db = Inr ((), db')"
  shows "pay_ok env (db', rs, is)"
proof -
  let ?p = "new_payment now u inp rid"
  have fresh: "u 1 \<notin> py_id ` set (pd_payments db)" "u 0 \<notin> py_paymentOrderId ` set (pd_payments db)"
    and rows: "pd_payments db' = pd_payments db @ [?p]"
    and evs: "success_events (published db') = success_events (published db)" "failure_events (published db') = failure_events (published db)"
      "map order_event_of (order_events (published db')) = map order_event_of (order_events (published db)) @ [order_of ?p]"
    using new unfolding create_order_tx_Inr by (auto simp: order_of_def order_event_of_def new_payment_def)
  have p: "py_id ?p = u 1" "py_paymentOrderId ?p = u 0" "py_status ?p = Pay_PENDING" by (simp_all add: new_payment_def)
  have d: "rows_distinct (db', rs, is)"
    using ok fresh p unfolding pay_ok_def rows_distinct_def by (auto simp: rows)
  have rd: "pay_reads_ok (db', rs, is)" using ok unfolding pay_ok_def pay_reads_ok_def by (auto simp: rows)
  have "failure_ok (db, rs, is) e" if "e \<in> set (failure_events (published db))" for e
    using ok that by (simp add: pay_ok_def)
  then have nf: "pf_paymentOrderId e \<noteq> u 0" if "e \<in> set (failure_events (published db))" for e
    using fresh(2) that by (fastforce simp: failure_ok_def)
  have old: "payment_row_ok env (db', rs, is) r" if "r \<in> set (pd_payments db)" for r
  proof -
    have "payment_row_ok env (db, rs, is) r" using ok that by (simp add: pay_ok_def)
    then show ?thesis unfolding payment_row_ok_def fst_conv snd_conv evs .
  qed
  have newrow: "payment_row_ok env (db', rs, is) ?p"
    unfolding payment_row_ok_def using p nf by (auto simp: evs)
  have se: "success_ok env (db', rs, is) e" if "e \<in> set (success_events (published db))" for e
    using ok that unfolding pay_ok_def success_ok_def by (fastforce simp: rows)
  have fe: "failure_ok (db', rs, is) e" if "e \<in> set (failure_events (published db))" for e
    using ok that unfolding pay_ok_def failure_ok_def by (fastforce simp: rows)
  have "map order_event_of (order_events (published db')) = map order_of (pd_payments db')"
    using ok unfolding evs rows by (simp add: pay_ok_def)
  then show ?thesis unfolding pay_ok_def using d rd old newrow se fe by (simp add: evs rows)
qed

lemma pay_step_ok: "pay_step env s t \<Longrightarrow> pay_ok env s \<Longrightarrow> pay_ok env t"
proof (induction rule: pay_step.induct)
  case (presents db rs "is" inp)
  have m: "success_ok env (db, rs, inp # is) e" if "success_ok env (db, rs, is) e" for e
    using that by (fastforce simp: success_ok_def)
  have "payment_row_ok env (db, rs, inp # is) r" if "payment_row_ok env (db, rs, is) r" for r
    using that by (auto simp: payment_row_ok_def)
  then show ?case using presents m by (simp add: pay_ok_def rows_distinct_def pay_reads_ok_def failure_ok_def)
next
  case (reads p db rs "is")
  then have "pay_reads_ok (db, p # rs, is)" using pay_later_self by (auto simp: pay_ok_def pay_reads_ok_def)
  moreover have "payment_row_ok env (db, p # rs, is) = payment_row_ok env (db, rs, is)"
    "success_ok env (db, p # rs, is) = success_ok env (db, rs, is)" "failure_ok (db, p # rs, is) = failure_ok (db, rs, is)"
    by (simp_all add: fun_eq_iff payment_row_ok_def success_ok_def failure_ok_def)
  ultimately show ?case using reads by (simp add: pay_ok_def rows_distinct_def)
next
  case (captures inp "is" p rs now eventId db db')
  then show ?case using pay_ok_capture by blast
next
  case (fails p rs now eventId reason db db')
  then show ?case using pay_ok_fail by blast
qed (rule pay_ok_order)

text \<open>No payment and no event is ever lost.\<close>

definition db_kept :: "payment_db \<Rightarrow> payment_db \<Rightarrow> bool" where
  "db_kept db db' \<longleftrightarrow> (\<forall>r \<in> set (pd_payments db). \<exists>r' \<in> set (pd_payments db'). pay_later r r') \<and>
     (\<exists>es. published db' = published db @ es)"

lemma db_kept_refl: "db_kept db db"
  using pay_later_self by (simp add: db_kept_def)

lemma db_kept_trans:
  assumes "db_kept a b" and "db_kept b c" shows "db_kept a c"
proof -
  from assms obtain xs ys where "published b = published a @ xs" "published c = published b @ ys"
    by (auto simp: db_kept_def)
  then have "published c = published a @ xs @ ys" by simp
  then show ?thesis using assms pay_later_trans unfolding db_kept_def by meson
qed

lemma extends_kept: "extends db db' \<Longrightarrow> db_kept db db'"
  using extends_row by (auto simp: extends_def db_kept_def)

definition payment_kept :: "payment_env \<Rightarrow> pay_sys \<Rightarrow> pay_sys \<Rightarrow> bool" where
  "payment_kept env s t \<longleftrightarrow> (pay_ok env s \<longrightarrow> pay_ok env t \<and> db_kept (fst s) (fst t))"

lemma pay_step_kept: "pay_step env s t \<Longrightarrow> payment_kept env s t"
proof -
  assume st: "pay_step env s t"
  have "db_kept (fst s) (fst t)" if "pay_ok env s"
    using st that
  proof (induction rule: pay_step.induct)
    case (orders now u inp rid db db' rs "is")
    then have "pd_payments db' = pd_payments db @ [new_payment now u inp rid]" "\<exists>es. published db' = published db @ es"
      unfolding create_order_tx_Inr by auto
    moreover have "\<exists>x \<in> set (pd_payments db @ [new_payment now u inp rid]). pay_later r x" if "r \<in> set (pd_payments db)" for r
      using that by (intro pay_later_self) simp
    ultimately show ?case by (simp add: db_kept_def)
  next
    case (captures inp "is" p rs now eventId db db')
    from pay_ok_capture [OF captures(7,1,2,3,4,6)] show ?case by (simp add: extends_kept)
  next
    case (fails p rs now eventId reason db db' "is")
    from pay_ok_fail [OF fails(4,1,3)] show ?case by (simp add: extends_kept)
  qed (simp_all add: db_kept_refl)
  then show ?thesis using pay_step_ok [OF st] by (simp add: payment_kept_def)
qed

interpretation payments: stepper "pay_step env" "pay_ok env" for env
  by unfold_locales (rule pay_step_ok)

interpretation payment_rows: monotone_stepper "pay_step env" "payment_kept env" for env
proof unfold_locales
  show "payment_kept env s u" if "payment_kept env s t" "payment_kept env t u" for s t u
    using that db_kept_trans unfolding payment_kept_def by blast
qed (simp_all add: payment_kept_def db_kept_refl pay_step_kept [unfolded payment_kept_def])

section \<open>Calls are sequences of steps\<close>

definition pay_runs :: "payment_env \<Rightarrow> VerifyPaymentInput list \<Rightarrow> payment_db \<Rightarrow> payment_db \<Rightarrow> bool" where
  "pay_runs env is db db' \<longleftrightarrow> (\<forall>rs. \<exists>rs'. (pay_step env)\<^sup>*\<^sup>* (db, rs, is) (db', rs', is))"

lemma pay_runs_refl [simp]: "pay_runs env is db db"
  by (auto simp: pay_runs_def)

lemma pay_runs_read:
  assumes "p \<in> set (pd_payments db)" and "\<And>rs. p \<in> set rs \<Longrightarrow> pay_step env (db, rs, is) (db', rs, is)"
  shows "pay_runs env is db db'"
  unfolding pay_runs_def
proof
  fix rs
  have "pay_step env (db, rs, is) (db, p # rs, is)" using assms(1) by (rule pay_step.reads)
  moreover have "pay_step env (db, p # rs, is) (db', p # rs, is)" by (rule assms(2)) simp
  ultimately show "\<exists>rs'. (pay_step env)\<^sup>*\<^sup>* (db, rs, is) (db', rs', is)"
    by (meson converse_rtranclp_into_rtranclp r_into_rtranclp)
qed

lemma findByRazorpayOrderId_Some:
  "findByRazorpayOrderId i db = Some p \<Longrightarrow> p \<in> set (pd_payments db) \<and> py_razorpayOrderId p = i"
  by (auto simp: findByRazorpayOrderId_def dest: find_row_Some)

lemma pay_runs_verify:
  assumes "inp \<in> set is" shows "pay_runs env is db (snd (verifyAndCapture env now eventId inp db))"
proof (cases "verifyPaymentSignature env (vi_razorpayOrderId inp) (vi_razorpayPaymentId inp) (vi_razorpaySignature inp)")
  case sig: True
  show ?thesis
  proof (cases "findByRazorpayOrderId (vi_razorpayOrderId inp) db")
    case (Some p)
    show ?thesis
    proof (cases "capture_tx env now eventId inp p db")
      case (Inl e)
      then show ?thesis using sig Some by (simp add: verifyAndCapture_def transaction_Inl)
    next
      case (Inr q)
      then have q: "capture_tx env now eventId inp p db = Inr ((), snd q)" by (cases q) simp
      have "pay_runs env is db (snd q)" if "py_status p \<noteq> Pay_CAPTURED"
        using findByRazorpayOrderId_Some [OF Some] pay_step.captures [OF assms sig _ _ that q] by (intro pay_runs_read) auto
      then show ?thesis using sig Some q by (simp add: verifyAndCapture_def transaction_Inr)
    qed
  qed (simp add: verifyAndCapture_def sig)
qed (simp add: verifyAndCapture_def)

lemma pay_runs_fail: "pay_runs env is db (snd (markAsFailed env now eventId i reason db))"
proof (cases "findByRazorpayOrderId i db")
  case (Some p)
  show ?thesis
  proof (cases "mark_failed_tx env now eventId reason p db")
    case (Inl e)
    then show ?thesis using Some by (simp add: markAsFailed_def transaction_Inl)
  next
    case (Inr q)
    then have q: "mark_failed_tx env now eventId reason p db = Inr ((), snd q)" by (cases q) simp
    have "pay_runs env is db (snd q)" if "py_status p \<notin> {Pay_FAILED, Pay_CAPTURED}"
      using findByRazorpayOrderId_Some [OF Some] pay_step.fails [OF _ that q] by (intro pay_runs_read) auto
    then show ?thesis using Some q by (simp add: markAsFailed_def transaction_Inr)
  qed
qed (simp add: markAsFailed_def)

lemma createOrder_db:
  "snd (createOrder env now u bytes inp db) = db \<or>
    (\<exists>rid. create_order_tx env now u inp rid db = Inr ((), snd (createOrder env now u bytes inp db)))"
proof -
  let ?rz = "createRazorpayOrder env bytes \<lparr>ra_amountInPaise = ci_amount inp,
      ra_currency = Some (str_or (ci_currency inp) ''INR''), ra_receipt = u 0,
      ra_notes = [(''bookingId'', ci_bookingId inp), (''userId'', ci_userId inp)]\<rparr>"
  show ?thesis
  proof (cases ?rz)
    case (Inl e)
    then show ?thesis by (simp add: createOrder_def Let_def split: option.split)
  next
    case rz: (Inr ro)
    show ?thesis
    proof (cases "create_order_tx env now u inp (ro_id ro) db")
      case (Inl e)
      then show ?thesis using rz by (simp add: createOrder_def Let_def transaction_Inl split: option.split)
    next
      case (Inr q)
      then have "create_order_tx env now u inp (ro_id ro) db = Inr ((), snd q)" by (cases q) simp
      moreover from this have "snd (createOrder env now u bytes inp db) \<in> {db, snd q}"
        using rz by (simp add: createOrder_def Let_def transaction_Inr split: option.split)
      ultimately show ?thesis by auto
    qed
  qed
qed

lemma pay_runs_order: "pay_runs env is db (snd (createOrder env now u bytes inp db))"
  using createOrder_db [of env now u bytes inp db] pay_step.orders unfolding pay_runs_def by fastforce

text \<open>The verification request a webhook makes.\<close>

definition webhook_inputs :: "webhook_body result \<Rightarrow> string option \<Rightarrow> VerifyPaymentInput list" where
  "webhook_inputs body signature =
     (case body of Inl e \<Rightarrow> [] | Inr b \<Rightarrow> (case webhook_target b of None \<Rightarrow> []
        | Some entity \<Rightarrow> [\<lparr>vi_paymentOrderId = None, vi_razorpayOrderId = the (en_order_id entity),
            vi_razorpayPaymentId = the (en_id entity), vi_razorpaySignature = signature, vi_source = Some WEBHOOK\<rparr>]))"

lemma pay_runs_webhook:
  assumes "set (webhook_inputs (parse rawBody) signature) \<subseteq> set is"
  shows "pay_runs env is db (snd (handleWebhook env parse now eventId rawBody signature db))"
proof (cases "parse rawBody")
  case (Inl e)
  then show ?thesis by (simp add: handleWebhook_def)
next
  case body: (Inr b)
  show ?thesis
  proof (cases "webhook_target b")
    case None
    then show ?thesis by (simp add: handleWebhook_def body Let_def)
  next
    case (Some entity)
    let ?inp = "\<lparr>vi_paymentOrderId = None, vi_razorpayOrderId = the (en_order_id entity),
        vi_razorpayPaymentId = the (en_id entity), vi_razorpaySignature = signature, vi_source = Some WEBHOOK\<rparr>"
    have "?inp \<in> set is" using assms by (simp add: webhook_inputs_def body Some)
    then have v: "pay_runs env is db (snd (verifyAndCapture env now eventId ?inp db))" by (rule pay_runs_verify)
    define reason where "reason = Some (str_or (en_error_description entity)
        (str_or (en_error_code entity) ''Payment failed at gateway''))"
    obtain r1 db1 r2 db2 where calls: "verifyAndCapture env now eventId ?inp db = (r1, db1)"
      "markAsFailed env now eventId (the (en_order_id entity)) reason db = (r2, db2)" by fastforce
    have "pay_runs env is db db1" "pay_runs env is db db2"
      using v pay_runs_fail [of env "is" db now eventId "the (en_order_id entity)" reason] unfolding calls by simp_all
    then show ?thesis
      by (simp add: handleWebhook_def body Some Let_def calls reason_def [symmetric] split: sum.split)
  qed
qed

inductive payment_call :: "payment_env \<Rightarrow> payment_db \<times> VerifyPaymentInput list \<Rightarrow> payment_db \<times> VerifyPaymentInput list \<Rightarrow> bool"
  for env where
  order: "payment_call env (db, is) (snd (grpc_createOrder env isUuid now u bytes req db), is)"
| verify: "payment_call env (db, is) (snd (controller_verifyPayment env now eventId body db), (body\<lparr>vi_source := Some CLIENT\<rparr>) # is)"
| webhook: "payment_call env (db, is) (snd (controller_handleWebhook env parse now eventId raw reqBody signature db),
    webhook_inputs (parse (str_or raw reqBody)) signature @ is)"

lemma runs_presents: "(pay_step env)\<^sup>*\<^sup>* (db, rs, is) (db, rs, new @ is)"
proof (induction new)
  case (Cons inp new)
  then show ?case using pay_step.presents by (metis append_Cons rtranclp.rtrancl_into_rtrancl)
qed simp

lemma runs_after_present:
  assumes "pay_runs env (new @ is) db db'"
  shows "\<exists>rs'. (pay_step env)\<^sup>*\<^sup>* (db, rs, is) (db', rs', new @ is)"
  using assms runs_presents unfolding pay_runs_def by (meson rtranclp_trans)

lemma payment_call_steps:
  "payment_call env s s' \<Longrightarrow> \<exists>rs'. (pay_step env)\<^sup>*\<^sup>* (fst s, rs, snd s) (fst s', rs', snd s')"
proof (induction rule: payment_call.induct)
  case (order db "is" isUuid now u bytes req)
  have "pay_runs env is db (snd (grpc_createOrder env isUuid now u bytes req db))"
    using pay_runs_order by (auto simp: grpc_createOrder_def split: sum.split)
  then show ?case by (simp add: pay_runs_def)
next
  case (verify db "is" now eventId body)
  let ?inp = "body\<lparr>vi_source := Some CLIENT\<rparr>"
  have "pay_runs env ([?inp] @ is) db (snd (controller_verifyPayment env now eventId body db))"
    using pay_runs_verify [of ?inp "[?inp] @ is" env db now eventId]
    by (auto simp: controller_verifyPayment_def split: prod.splits sum.split)
  from runs_after_present [OF this] show ?case by simp
next
  case (webhook db "is" parse now eventId raw reqBody signature)
  let ?new = "webhook_inputs (parse (str_or raw reqBody)) signature"
  have "pay_runs env (?new @ is) db (snd (controller_handleWebhook env parse now eventId raw reqBody signature db))"
    using pay_runs_webhook [of parse "str_or raw reqBody" signature "?new @ is" env db now eventId]
    by (auto simp: controller_handleWebhook_def split: prod.splits sum.split)
  from runs_after_present [OF this] show ?case by simp
qed

section \<open>An example\<close>

definition demo_pay_env :: payment_env where
  "demo_pay_env = \<lparr>pe_KEY_ID = ''rzp'', pe_KEY_SECRET = ''k1'', pe_WEBHOOK_SECRET = ''k2'',
     pe_hmac = (\<lambda>k t. k @ ''#'' @ t),
     pe_orders_create = (\<lambda>q. Inr \<lparr>so_id = Some (''order_'' @ ra_receipt q), so_entity = Some ''order'',
        so_amount = ra_amountInPaise q, so_currency = ra_currency q, so_receipt = Some (ra_receipt q),
        so_status = Some ''created''\<rparr>),
     pe_carrier = Map.empty\<rparr>"

definition demo_order :: CreateOrderInput where
  "demo_order = \<lparr>ci_bookingId = ''b'', ci_userId = ''user'', ci_amount = 150, ci_currency = Some ''INR''\<rparr>"

definition demo_pay_ids :: "nat \<Rightarrow> ident" where
  "demo_pay_ids n = ''p-'' @ show_nat n"

definition demo_verify :: VerifyPaymentInput where
  "demo_verify = \<lparr>vi_paymentOrderId = None, vi_razorpayOrderId = ''order_p-0'', vi_razorpayPaymentId = ''pay_1'',
     vi_razorpaySignature = Some ''k1#order_p-0|pay_1'', vi_source = Some CLIENT\<rparr>"

definition demo_entity :: webhook_entity where
  "demo_entity = \<lparr>en_id = Some ''pay_1'', en_order_id = Some ''order_p-0'', en_error_description = None, en_error_code = None\<rparr>"

definition demo_webhook :: webhook_body where
  "demo_webhook = \<lparr>wb_event = ''payment.captured'', wb_payment_entity = Some demo_entity, wb_order_entity = None\<rparr>"

definition demo_ordered :: payment_db where
  "demo_ordered = snd (grpc_createOrder demo_pay_env (\<lambda>_. True) 0 demo_pay_ids [] demo_order empty_payment_db)"

definition demo_captured :: payment_db where
  "demo_captured = snd (controller_verifyPayment demo_pay_env 5 ''ev'' demo_verify demo_ordered)"

definition demo_payment_failed :: payment_db where
  "demo_payment_failed = snd (markAsFailed demo_pay_env 5 ''ev'' ''order_p-0'' None demo_ordered)"

lemma demo_verify_source: "demo_verify\<lparr>vi_source := Some CLIENT\<rparr> = demo_verify"
  by (simp add: demo_verify_def)

lemma demo_ordered_run: "\<exists>rs. (pay_step demo_pay_env)\<^sup>*\<^sup>* (empty_payment_db, [], []) (demo_ordered, rs, [])"
  using payment_call_steps [OF payment_call.order [of demo_pay_env empty_payment_db "[]" "\<lambda>_. True" 0 demo_pay_ids "[]" demo_order], of "[]"]
  by (simp add: demo_ordered_def)

lemma demo_captured_run: "\<exists>rs. (pay_step demo_pay_env)\<^sup>*\<^sup>* (empty_payment_db, [], []) (demo_captured, rs, [demo_verify])"
proof -
  obtain rs where 1: "(pay_step demo_pay_env)\<^sup>*\<^sup>* (empty_payment_db, [], []) (demo_ordered, rs, [])" using demo_ordered_run by blast
  obtain rs' where "(pay_step demo_pay_env)\<^sup>*\<^sup>* (demo_ordered, rs, []) (demo_captured, rs', [demo_verify])"
    using payment_call_steps [OF payment_call.verify [of demo_pay_env demo_ordered "[]" 5 "''ev''" demo_verify], of rs]
    by (auto simp: demo_captured_def demo_verify_source)
  with 1 show ?thesis by (meson rtranclp_trans)
qed

lemma demo_failed_run: "\<exists>rs. (pay_step demo_pay_env)\<^sup>*\<^sup>* (empty_payment_db, [], []) (demo_payment_failed, rs, [])"
proof -
  obtain rs where 1: "(pay_step demo_pay_env)\<^sup>*\<^sup>* (empty_payment_db, [], []) (demo_ordered, rs, [])" using demo_ordered_run by blast
  then show ?thesis using pay_runs_fail [of demo_pay_env "[]" demo_ordered 5 "''ev''" "''order_p-0''" None]
    unfolding pay_runs_def demo_payment_failed_def by (meson rtranclp_trans)
qed

section \<open>Properties\<close>

text \<open>C3: No payment succeeds without the gateway's signature. In every state that any interleaving of
  calls, with commits on outdated reads, can reach, each published success event and each captured
  row is about an existing order with its booking and amount, and somebody presented, for that
  order and that payment, the HMAC under the key secret, unless the key is a dummy key, with which
  the service accepts any signature.\<close>

theorem payment_success_signed:
  assumes "(pay_step env)\<^sup>*\<^sup>* (empty_payment_db, [], []) (db, rs, is)"
  shows "(\<forall>e \<in> set (success_events (published db)). \<exists>p \<in> set (pd_payments db). \<exists>inp \<in> set is.
      ps_paymentId e = py_id p \<and> ps_paymentOrderId e = py_paymentOrderId p \<and> ps_bookingId e = py_bookingId p \<and>
      ps_amount e = decimal_toString (py_amount p) \<and>
      vi_razorpayOrderId inp = py_razorpayOrderId p \<and> vi_razorpayPaymentId inp = ps_razorpayPaymentId e \<and>
      (is_dummy (pe_KEY_SECRET env) \<or> vi_razorpaySignature inp =
         Some (pe_hmac env (pe_KEY_SECRET env) (py_razorpayOrderId p @ ''|'' @ ps_razorpayPaymentId e)))) \<and>
    (\<forall>p \<in> set (pd_payments db). py_status p = Pay_CAPTURED \<longrightarrow>
      (\<exists>e \<in> set (success_events (published db)). ps_paymentId e = py_id p) \<and>
      (\<exists>inp \<in> set is. vi_razorpayOrderId inp = py_razorpayOrderId p \<and> py_razorpayPaymentId p = Some (vi_razorpayPaymentId inp)))"
proof -
  have ok: "pay_ok env (db, rs, is)" using payments.run_inv [OF assms pay_ok_empty] .
  have "\<exists>p \<in> set (pd_payments db). \<exists>inp \<in> set is.
      ps_paymentId e = py_id p \<and> ps_paymentOrderId e = py_paymentOrderId p \<and> ps_bookingId e = py_bookingId p \<and>
      ps_amount e = decimal_toString (py_amount p) \<and>
      vi_razorpayOrderId inp = py_razorpayOrderId p \<and> vi_razorpayPaymentId inp = ps_razorpayPaymentId e \<and>
      (is_dummy (pe_KEY_SECRET env) \<or> vi_razorpaySignature inp =
         Some (pe_hmac env (pe_KEY_SECRET env) (py_razorpayOrderId p @ ''|'' @ ps_razorpayPaymentId e)))"
    if "e \<in> set (success_events (published db))" for e
  proof -
    from ok that have "success_ok env (db, rs, is) e" by (simp add: pay_ok_def)
    then show ?thesis unfolding success_ok_def signed_def verifyPaymentSignature_def fst_conv snd_conv by metis
  qed
  moreover have "(\<exists>e \<in> set (success_events (published db)). ps_paymentId e = py_id p) \<and>
      (\<exists>inp \<in> set is. vi_razorpayOrderId inp = py_razorpayOrderId p \<and> py_razorpayPaymentId p = Some (vi_razorpayPaymentId inp))"
    if "p \<in> set (pd_payments db)" "py_status p = Pay_CAPTURED" for p
    using pay_ok_row [OF ok] that unfolding payment_row_ok_def signed_def by auto
  ultimately show ?thesis by (intro conjI ballI impI) simp_all
qed

theorem payment_success_signed_witness:
  "map (\<lambda>e. (ps_paymentOrderId e, ps_razorpayPaymentId e, ps_amount e)) (success_events (published demo_captured)) =
     [(''p-0'', ''pay_1'', ''1.5'')] \<and>
   vi_razorpaySignature demo_verify = Some (pe_hmac demo_pay_env ''k1'' (''order_p-0|pay_1'')) \<and>
   (\<exists>p \<in> set (pd_payments demo_captured). py_razorpayOrderId p = ''order_p-0'')"
proof -
  obtain rs where 1: "(pay_step demo_pay_env)\<^sup>*\<^sup>* (empty_payment_db, [], []) (demo_captured, rs, [demo_verify])"
    using demo_captured_run by blast
  have e: "map (\<lambda>e. (ps_paymentOrderId e, ps_razorpayPaymentId e, ps_amount e)) (success_events (published demo_captured)) =
      [(''p-0'', ''pay_1'', ''1.5'')]" by code_simp
  then have ne: "success_events (published demo_captured) \<noteq> []" by auto
  have "vi_razorpayOrderId demo_verify = ''order_p-0''" by (simp add: demo_verify_def)
  moreover have "\<exists>p \<in> set (pd_payments demo_captured). \<exists>inp \<in> set [demo_verify]. vi_razorpayOrderId inp = py_razorpayOrderId p"
    using bspec [OF conjunct1 [OF payment_success_signed [OF 1]], of "hd (success_events (published demo_captured))"] ne
    by (meson hd_in_set)
  ultimately have "\<exists>p \<in> set (pd_payments demo_captured). py_razorpayOrderId p = ''order_p-0''" by auto
  with e show ?thesis by (simp add: demo_verify_def demo_pay_env_def)
qed

text \<open>C28: The ledger only grows and only moves forward. From any reachable state on, a payment keeps
  its order, booking, user, amount and currency; its status moves from \<open>PENDING\<close> to \<open>CAPTURED\<close> or
  \<open>FAILED\<close> and never back, and \<open>FAILED\<close> is final; events are only added. A row is \<open>FAILED\<close> exactly when its
  failure was published, and the order events are the rows, one for one and in order.\<close>

theorem payment_ledger:
  assumes "(pay_step env)\<^sup>*\<^sup>* (empty_payment_db, [], []) (db, rs, is)" and "(pay_step env)\<^sup>*\<^sup>* (db, rs, is) (db', rs', is')"
    and "p \<in> set (pd_payments db)"
  shows "(\<exists>p' \<in> set (pd_payments db'). same_payment p p' \<and> py_status p' \<in> {Pay_PENDING, Pay_CAPTURED, Pay_FAILED} \<and>
      (py_status p' = py_status p \<or> py_status p = Pay_PENDING \<or> py_status p = Pay_CAPTURED \<and> py_status p' = Pay_FAILED) \<and>
      (py_status p' = Pay_FAILED \<longleftrightarrow> (\<exists>e \<in> set (failure_events (published db')). pf_paymentOrderId e = py_paymentOrderId p))) \<and>
    (\<exists>es. published db' = published db @ es) \<and>
    map order_event_of (order_events (published db')) = map order_of (pd_payments db')"
proof -
  have ok: "pay_ok env (db, rs, is)" using payments.run_inv [OF assms(1) pay_ok_empty] .
  then have kept: "pay_ok env (db', rs', is')" "db_kept db db'"
    using payment_rows.run_le [OF assms(2)] by (simp_all add: payment_kept_def)
  obtain p' where p': "p' \<in> set (pd_payments db')" "pay_later p p'" using kept(2) assms(3) by (auto simp: db_kept_def)
  have st: "py_status p \<in> {Pay_PENDING, Pay_CAPTURED, Pay_FAILED}" "py_status p' \<in> {Pay_PENDING, Pay_CAPTURED, Pay_FAILED}"
    using pay_ok_status [OF ok] pay_ok_status [OF kept(1)] assms(3) p'(1) by simp_all
  then have "py_status p' = py_status p \<or> py_status p = Pay_PENDING \<or> py_status p = Pay_CAPTURED \<and> py_status p' = Pay_FAILED"
    using p'(2) by (auto simp: pay_later_def)
  moreover have "py_status p' = Pay_FAILED \<longleftrightarrow> (\<exists>e \<in> set (failure_events (published db')). pf_paymentOrderId e = py_paymentOrderId p)"
    using pay_ok_row [OF kept(1)] p' same_payment_fields(2) [OF pay_later_same [OF p'(2)]] by (simp add: payment_row_ok_def)
  ultimately have "\<exists>p' \<in> set (pd_payments db'). same_payment p p' \<and> py_status p' \<in> {Pay_PENDING, Pay_CAPTURED, Pay_FAILED} \<and>
      (py_status p' = py_status p \<or> py_status p = Pay_PENDING \<or> py_status p = Pay_CAPTURED \<and> py_status p' = Pay_FAILED) \<and>
      (py_status p' = Pay_FAILED \<longleftrightarrow> (\<exists>e \<in> set (failure_events (published db')). pf_paymentOrderId e = py_paymentOrderId p))"
    using p'(1) st(2) pay_later_same [OF p'(2)] by (intro bexI [of _ p']) simp_all
  moreover have "\<exists>es. published db' = published db @ es" using kept(2) by (simp add: db_kept_def)
  moreover have "map order_event_of (order_events (published db')) = map order_of (pd_payments db')"
    using kept(1) by (simp add: pay_ok_def)
  ultimately show ?thesis by (intro conjI)
qed

theorem payment_ledger_witness:
  "\<exists>p \<in> set (pd_payments demo_ordered). \<exists>p' \<in> set (pd_payments demo_payment_failed).
     same_payment p p' \<and> py_status p = Pay_PENDING \<and> py_status p' = Pay_FAILED"
proof -
  let ?p = "hd (pd_payments demo_ordered)"
  obtain rs where 1: "(pay_step demo_pay_env)\<^sup>*\<^sup>* (empty_payment_db, [], []) (demo_ordered, rs, [])" using demo_ordered_run by blast
  obtain rs' where 2: "(pay_step demo_pay_env)\<^sup>*\<^sup>* (demo_ordered, rs, []) (demo_payment_failed, rs', [])"
    using pay_runs_fail [of demo_pay_env "[]" demo_ordered 5 "''ev''" "''order_p-0''" None]
    unfolding pay_runs_def demo_payment_failed_def by blast
  have st: "map py_status (pd_payments demo_ordered) = [Pay_PENDING]" "map py_status (pd_payments demo_payment_failed) = [Pay_FAILED]"
    by code_simp+
  then have p: "?p \<in> set (pd_payments demo_ordered)" "py_status ?p = Pay_PENDING"
    by (cases "pd_payments demo_ordered"; simp)+
  obtain p' where p': "p' \<in> set (pd_payments demo_payment_failed)" "same_payment ?p p'"
    using payment_ledger [OF 1 2 p(1)] by blast
  moreover have "py_status p' = Pay_FAILED" using p'(1) st(2) by (cases "pd_payments demo_payment_failed") auto
  ultimately show ?thesis using p by blast
qed

text \<open>The event and the answer of a capture.\<close>

definition success_of :: "ident \<Rightarrow> VerifyPaymentInput \<Rightarrow> Payment \<Rightarrow> PaymentSuccessV1" where
  "success_of eventId inp p = \<lparr>ps_eventId = eventId, ps_bookingId = py_bookingId p, ps_paymentId = py_id p,
     ps_paymentOrderId = py_paymentOrderId p, ps_razorpayPaymentId = vi_razorpayPaymentId inp,
     ps_amount = decimal_toString (py_amount p), ps_source = (case vi_source inp of Some s \<Rightarrow> s | None \<Rightarrow> CLIENT)\<rparr>"

definition captured_answer :: "Payment \<Rightarrow> string \<Rightarrow> VerifyPaymentOutput" where
  "captured_answer p paymentId = \<lparr>vo_paymentOrderId = py_paymentOrderId p, vo_razorpayOrderId = py_razorpayOrderId p,
     vo_razorpayPaymentId = paymentId, vo_status = ''CAPTURED''\<rparr>"

lemma verify_captures:
  assumes "verifyPaymentSignature env (vi_razorpayOrderId inp) (vi_razorpayPaymentId inp) (vi_razorpaySignature inp)"
    and "findByRazorpayOrderId (vi_razorpayOrderId inp) db = Some p" and "py_status p \<noteq> Pay_CAPTURED"
  shows "fst (verifyAndCapture env now e inp db) = Inr (captured_answer p (vi_razorpayPaymentId inp)) \<and>
    pd_payments (snd (verifyAndCapture env now e inp db)) = map (captured_row inp (py_paymentOrderId p)) (pd_payments db) \<and>
    published (snd (verifyAndCapture env now e inp db)) = published db @ [EvPaymentSuccess (success_of e inp p)]"
proof -
  have "p \<in> set (pd_payments db)" using findByRazorpayOrderId_Some [OF assms(2)] by simp
  then obtain db' where cap: "capture_tx env now e inp p db = Inr ((), db')"
    unfolding capture_tx_Inr by blast
  then have "pd_payments db' = map (captured_row inp (py_paymentOrderId p)) (pd_payments db)"
    "published db' = published db @ [EvPaymentSuccess (success_of e inp p)]"
    unfolding capture_tx_Inr success_of_def by simp_all
  then show ?thesis using assms cap
    by (simp add: verifyAndCapture_def transaction_Inr captured_answer_def status_text_def)
qed

text \<open>C22: A verification has four outcomes. A wrong signature is a 400 and an unknown order a 404, both
  without effect. A payment that was captured before is answered with its recorded payment id and
  nothing is published again. Any other payment is answered as captured and its success is
  published; its row is captured when it was open. A payment that had failed keeps its \<open>FAILED\<close> row
  and still is answered as \<open>CAPTURED\<close> and published as a success.\<close>

theorem verify_and_capture_outcome:
  assumes "(pay_step env)\<^sup>*\<^sup>* (empty_payment_db, [], []) (db, rs, is)"
    and "verifyAndCapture env now e inp db = (r, db')"
  shows "if \<not> verifyPaymentSignature env (vi_razorpayOrderId inp) (vi_razorpayPaymentId inp) (vi_razorpaySignature inp)
    then r = Inl (ApiError 400 ''INVALID_INPUT'') \<and> db' = db
    else case findByRazorpayOrderId (vi_razorpayOrderId inp) db of
      None \<Rightarrow> r = Inl (ApiError 404 ''NOT_FOUND'') \<and> db' = db
    | Some p \<Rightarrow>
        if py_status p = Pay_CAPTURED
        then (\<exists>first. py_razorpayPaymentId p = Some first \<and> r = Inr (captured_answer p (str_or (Some first) (vi_razorpayPaymentId inp)))) \<and> db' = db
        else r = Inr (captured_answer p (vi_razorpayPaymentId inp)) \<and>
          published db' = published db @ [EvPaymentSuccess (success_of e inp p)] \<and>
          (if py_status p = Pay_FAILED then pd_payments db' = pd_payments db
           else pd_payments db' = map (\<lambda>q. if q = p then captured_row inp (py_paymentOrderId p) p else q) (pd_payments db) \<and>
             py_status (captured_row inp (py_paymentOrderId p) p) = Pay_CAPTURED)"
proof -
  have ok: "pay_ok env (db, rs, is)" using payments.run_inv [OF assms(1) pay_ok_empty] .
  show ?thesis
  proof (cases "verifyPaymentSignature env (vi_razorpayOrderId inp) (vi_razorpayPaymentId inp) (vi_razorpaySignature inp)")
    case sig: True
    show ?thesis
    proof (cases "findByRazorpayOrderId (vi_razorpayOrderId inp) db")
      case (Some p)
      have p: "p \<in> set (pd_payments db)" using findByRazorpayOrderId_Some [OF Some] by simp
      show ?thesis
      proof (cases "py_status p = Pay_CAPTURED")
        case True
        then obtain first where "py_razorpayPaymentId p = Some first"
          using pay_ok_row [OF ok] p unfolding payment_row_ok_def by auto
        then show ?thesis using assms(2) sig Some True
          by (simp add: verifyAndCapture_def captured_answer_def status_text_def)
      next
        case False
        let ?g = "captured_row inp (py_paymentOrderId p)"
        have only: "q = p" if "q \<in> set (pd_payments db)" "py_paymentOrderId q = py_paymentOrderId p" for q
          using ok that p by (simp add: pay_ok_def rows_distinct_def distinct_map) (meson inj_onD)
        have keep: "?g q = q" if "q \<in> set (pd_payments db)" "q \<noteq> p \<or> py_status p = Pay_FAILED" for q
          using only [OF that(1)] that(2) by (auto simp: captured_row_def open_payment_def)
        have v: "r = Inr (captured_answer p (vi_razorpayPaymentId inp))" "pd_payments db' = map ?g (pd_payments db)"
          "published db' = published db @ [EvPaymentSuccess (success_of e inp p)]"
          using verify_captures [OF sig Some False, of now e] unfolding assms(2) fst_conv snd_conv by blast+
        show ?thesis
        proof (cases "py_status p = Pay_FAILED")
          case True
          then have "pd_payments db' = pd_payments db" unfolding v(2) using keep by (simp add: map_idI)
          then show ?thesis using v(1,3) sig Some True by simp
        next
          case nf: False
          then have "py_status (?g p) = Pay_CAPTURED"
            using pay_ok_status [OF ok] p False by (auto simp: captured_row_def open_payment_def)
          moreover have "pd_payments db' = map (\<lambda>q. if q = p then ?g p else q) (pd_payments db)"
            unfolding v(2) using keep by simp
          ultimately show ?thesis using v(1,3) sig Some False nf by simp
        qed
      qed
    qed (use assms(2) sig in \<open>simp add: verifyAndCapture_def\<close>)
  qed (use assms(2) in \<open>simp add: verifyAndCapture_def\<close>)
qed

theorem verify_and_capture_outcome_witness:
  "fst (verifyAndCapture demo_pay_env 9 ''late'' demo_verify demo_payment_failed) =
     Inr \<lparr>vo_paymentOrderId = ''p-0'', vo_razorpayOrderId = ''order_p-0'', vo_razorpayPaymentId = ''pay_1'', vo_status = ''CAPTURED''\<rparr> \<and>
   pd_payments (snd (verifyAndCapture demo_pay_env 9 ''late'' demo_verify demo_payment_failed)) = pd_payments demo_payment_failed"
proof -
  let ?r = "verifyAndCapture demo_pay_env 9 ''late'' demo_verify demo_payment_failed"
  obtain rs where 1: "(pay_step demo_pay_env)\<^sup>*\<^sup>* (empty_payment_db, [], []) (demo_payment_failed, rs, [])"
    using demo_failed_run by blast
  have sig: "verifyPaymentSignature demo_pay_env (vi_razorpayOrderId demo_verify) (vi_razorpayPaymentId demo_verify)
      (vi_razorpaySignature demo_verify)" by code_simp
  have st: "map_option py_status (findByRazorpayOrderId (vi_razorpayOrderId demo_verify) demo_payment_failed) = Some Pay_FAILED"
    by code_simp
  then obtain p where p: "findByRazorpayOrderId (vi_razorpayOrderId demo_verify) demo_payment_failed = Some p" "py_status p = Pay_FAILED"
    by auto
  have r: "fst ?r = Inr \<lparr>vo_paymentOrderId = ''p-0'', vo_razorpayOrderId = ''order_p-0'', vo_razorpayPaymentId = ''pay_1'', vo_status = ''CAPTURED''\<rparr>"
    by code_simp
  have "pd_payments (snd ?r) = pd_payments demo_payment_failed"
    using verify_and_capture_outcome [OF 1 prod.collapse [symmetric], where now = 9 and e = "''late''" and inp = demo_verify] sig p by simp
  with r show ?thesis by simp
qed

text \<open>A captured webhook never captures anything in production. Its signature is the HMAC of the body
  under the webhook secret, and the service hands it on as the checkout signature, the HMAC of
  order and payment under the key secret. When these two differ, the gateway's own, correctly
  signed notification is answered with 400 and changes nothing.\<close>

theorem webhook_capture_rejected:
  assumes "signature = Some (pe_hmac env (pe_WEBHOOK_SECRET env) rawBody)" and "\<not> is_dummy (pe_KEY_SECRET env)"
    and "parse rawBody = Inr body" and "wb_event body \<in> {''payment.captured'', ''order.paid''}"
    and "webhook_target body = Some entity" and "en_order_id entity = Some orderId" and "en_id entity = Some paymentId"
    and "orderId \<noteq> []" and "paymentId \<noteq> []"
    and "pe_hmac env (pe_WEBHOOK_SECRET env) rawBody \<noteq> pe_hmac env (pe_KEY_SECRET env) (orderId @ ''|'' @ paymentId)"
  shows "handleWebhook env parse now e rawBody signature db = (Inl (ApiError 400 ''INVALID_INPUT''), db)"
proof -
  have "\<not> verifyPaymentSignature env orderId paymentId signature"
    using assms(1,2,10) by (auto simp: verifyPaymentSignature_def)
  then show ?thesis using assms
    by (simp add: handleWebhook_def verifyWebhookSignature_def verifyAndCapture_def str_or_def Let_def)
qed

theorem webhook_capture_rejected_witness:
  "handleWebhook demo_pay_env (\<lambda>_. Inr demo_webhook) 5 ''ev'' ''raw'' (Some ''k2#raw'') demo_ordered =
     (Inl (ApiError 400 ''INVALID_INPUT''), demo_ordered)"
proof (rule webhook_capture_rejected [where entity = demo_entity and orderId = "''order_p-0''" and paymentId = "''pay_1''"])
  show "webhook_target demo_webhook = Some demo_entity" by code_simp
  show "wb_event demo_webhook \<in> {''payment.captured'', ''order.paid''}" by code_simp
  show "\<not> is_dummy (pe_KEY_SECRET demo_pay_env)" by code_simp
qed (simp_all add: demo_pay_env_def demo_entity_def)

lemma latest_row:
  assumes "\<forall>q \<in> set ps. py_createdAt q \<le> py_createdAt p" and "py_createdAt b \<le> py_createdAt p"
  shows "foldl (\<lambda>best q. if py_createdAt best \<le> py_createdAt q then q else best) b (ps @ [p]) = p"
  using assms by (induction ps arbitrary: b) auto

lemma find_new_payment:
  assumes "\<forall>q \<in> set (pd_payments db). py_createdAt q \<le> py_createdAt p" and "pd_payments db' = pd_payments db @ [p]"
  shows "findByBookingId (py_bookingId p) db' = Some p"
proof (cases "filter (\<lambda>q. py_bookingId q = py_bookingId p) (pd_payments db)")
  case Nil
  then show ?thesis using assms(2) by (simp add: findByBookingId_def)
next
  case (Cons b bs)
  then have "\<forall>q \<in> set (b # bs). py_createdAt q \<le> py_createdAt p"
    using assms(1) by (metis filter_is_subset subsetD)
  then show ?thesis using latest_row [of bs p b] Cons assms(2) by (simp add: findByBookingId_def)
qed

text \<open>Asking for an order again gives the same order. Once a call was answered with an order, a later
  call for the same booking, while the database is as the first call left it, is answered with
  this order, whatever amount it asks for, and changes nothing.\<close>

theorem create_order_replay:
  assumes "createOrder env now u bytes inp db = (Inr out, db')"
    and "\<forall>p \<in> set (pd_payments db). py_createdAt p \<le> now" and "ci_bookingId inp' = ci_bookingId inp"
  shows "createOrder env now' u' bytes' inp' db' = (Inr out, db')"
proof (cases "\<exists>p. findByBookingId (ci_bookingId inp) db = Some p \<and> py_status p = Pay_PENDING")
  case True
  then show ?thesis using assms by (auto simp: createOrder_def Let_def)
next
  case False
  define fresh where "fresh = (case createRazorpayOrder env bytes \<lparr>ra_amountInPaise = ci_amount inp,
              ra_currency = Some (str_or (ci_currency inp) ''INR''), ra_receipt = u 0,
              ra_notes = [(''bookingId'', ci_bookingId inp), (''userId'', ci_userId inp)]\<rparr> of
            Inl e \<Rightarrow> (Inl e, db)
          | Inr razorpayOrder \<Rightarrow>
              (case transaction (create_order_tx env now u inp (ro_id razorpayOrder)) db of
                 (Inl e, db1) \<Rightarrow> (Inl e, db1)
               | (Inr _, db1) \<Rightarrow>
                   (Inr \<lparr>co_paymentOrderId = u 0, co_razorpayOrderId = ro_id razorpayOrder, co_keyId = pe_KEY_ID env,
                         co_status = status_text Pay_PENDING\<rparr>, db1)))"
  have "createOrder env now u bytes inp db = fresh"
    unfolding createOrder_def fresh_def [symmetric] Let_def using False by (auto split: option.splits)
  then have "\<exists>rid. create_order_tx env now u inp rid db = Inr ((), db') \<and>
      out = \<lparr>co_paymentOrderId = u 0, co_razorpayOrderId = rid, co_keyId = pe_KEY_ID env, co_status = status_text Pay_PENDING\<rparr>"
    using assms(1) unfolding fresh_def by (fastforce simp: transaction_def split: sum.splits prod.splits)
  then obtain rid where ro: "create_order_tx env now u inp rid db = Inr ((), db')"
    "out = \<lparr>co_paymentOrderId = u 0, co_razorpayOrderId = rid, co_keyId = pe_KEY_ID env, co_status = status_text Pay_PENDING\<rparr>"
    by blast
  let ?p = "new_payment now u inp rid"
  have rows: "pd_payments db' = pd_payments db @ [?p]" using ro(1) unfolding create_order_tx_Inr by auto
  moreover have "py_createdAt ?p = now" "py_bookingId ?p = ci_bookingId inp" "py_status ?p = Pay_PENDING"
    "py_paymentOrderId ?p = u 0" "py_razorpayOrderId ?p = rid" by (simp_all add: new_payment_def)
  moreover from this have "findByBookingId (ci_bookingId inp) db' = Some ?p"
    using find_new_payment [of db ?p db'] assms(2) rows by simp
  ultimately show ?thesis using assms(3) ro(2) by (simp add: createOrder_def Let_def)
qed

theorem create_order_replay_witness:
  "fst (createOrder demo_pay_env 7 demo_pay_ids [] (demo_order\<lparr>ci_amount := 99\<rparr>) demo_ordered) =
     fst (createOrder demo_pay_env 0 demo_pay_ids [] demo_order empty_payment_db)"
proof -
  let ?c = "createOrder demo_pay_env 0 demo_pay_ids [] demo_order empty_payment_db"
  have "\<not> isl (fst ?c)" by code_simp
  then obtain out where out: "fst ?c = Inr out" by (cases "fst ?c") simp_all
  have "snd ?c = demo_ordered" by (simp add: demo_ordered_def grpc_createOrder_def createOrderRequestSchema_def demo_order_def Let_def)
  then have c: "?c = (Inr out, demo_ordered)" using out by (metis prod.collapse)
  have "createOrder demo_pay_env 7 demo_pay_ids [] (demo_order\<lparr>ci_amount := 99\<rparr>) demo_ordered = (Inr out, demo_ordered)"
    by (rule create_order_replay [OF c]) (simp_all add: empty_payment_db_def)
  then show ?thesis by (simp add: c)
qed

text \<open>A booking that was paid can be charged again. The service looks for a pending payment only: after
  the capture of a booking's payment the next request for an order creates a second one.\<close>

theorem paid_booking_gets_new_order:
  "let c = createOrder demo_pay_env 9 (\<lambda>n. ''q-'' @ show_nat n) [] demo_order demo_captured
   in map (\<lambda>p. (py_paymentOrderId p, py_bookingId p, py_status p)) (pd_payments (snd c)) =
        [(''p-0'', ''b'', Pay_CAPTURED), (''q-0'', ''b'', Pay_PENDING)] \<and>
      map_option co_razorpayOrderId (case fst c of Inr r \<Rightarrow> Some r | Inl _ \<Rightarrow> None) = Some ''order_q-0''"
  by code_simp

end
