(* ===== verification/Accounts.thy ===== *)
theory Accounts
  imports Redis
begin

text \<open>
  The user service (\<open>apps/user-service\<close>): its table and repository, its keys in Redis, \<open>OtpService\<close>,
  \<open>AuthService\<close>, \<open>UserService\<close>, the session middleware and the helpers they use.

  A value in Redis is what \<open>JSON.stringify\<close> wrote, kept as the record it stands for, or a plain text,
  a counter or a set. Every Redis command of a call has a \<open>link\<close> of its own: \<open>l k\<close> is the fate of
  the call's command number \<open>k\<close>, numbered by place in the code, and a command that fails ends the
  call unless the code catches it. The signing of tokens, SHA-256, bcrypt, the database of IP
  ranges, UUIDs and one-time passwords are arguments.
\<close>

section \<open>Data\<close>

record User =
  us_id :: ident
  us_email :: string
  us_firstName :: string
  us_lastName :: string
  us_password :: string
  us_emailVerified :: bool
  us_createdAt :: time

record UserResponseDto =
  ur_id :: ident
  ur_firstName :: string
  ur_lastName :: string
  ur_email :: string
  ur_createdAt :: time

record AuthResponseDto =
  ar_user :: UserResponseDto
  ar_accessToken :: string
  ar_refreshToken :: string

record RegisterRequestDto =
  rq_firstName :: string
  rq_lastName :: string
  rq_email :: string
  rq_password :: string

record RegistrationSessionData =
  rg_firstName :: string
  rg_lastName :: string
  rg_email :: string
  rg_hashedPassword :: string

record SessionRecord =
  sn_userId :: ident
  sn_fingerprint :: string
  sn_refreshTokenHash :: string
  sn_ipAddress :: string
  sn_userAgent :: string
  sn_location :: string
  sn_createdAt :: time
  sn_lastUsedAt :: time
  sn_expiresAt :: time

record SessionSummaryDto =
  sm_sessionId :: ident
  sm_userId :: ident
  sm_fingerprint :: string
  sm_ipAddress :: string
  sm_userAgent :: string
  sm_location :: string
  sm_createdAt :: time
  sm_lastUsedAt :: time
  sm_expiresAt :: time

record UpdateProfileDto =
  up_firstName :: "string option"
  up_lastName :: "string option"

datatype rval =
    VText string
  | VCount int
  | VIds "ident list"
  | VSession SessionRecord
  | VRegistration RegistrationSessionData
  | VProfile UserResponseDto

type_synonym kv = "rval store"

datatype OtpPurpose = REGISTRATION | FORGOT_PASSWORD

datatype account_event =
    OTPRequestedV1 ident string string OtpPurpose int     \<comment> \<open>eventId, email, otp, purpose, ttlSeconds\<close>
  | UserLoggedInV1 ident ident string string string       \<comment> \<open>eventId, userId, email, firstName, lastName\<close>

record account_db =
  ac_users :: "User list"
  ac_kv :: kv
  ac_sent :: "account_event list"

record jwt_claims =
  jc_sub :: ident
  jc_email :: "string option"
  jc_sessionId :: "string option"
  jc_type :: string

record account_env =
  ae_sign :: "jwt_claims \<Rightarrow> int \<Rightarrow> int \<Rightarrow> string"      \<comment> \<open>claims, \<open>iat\<close>, \<open>exp\<close> (seconds)\<close>
  ae_verify :: "int \<Rightarrow> string \<Rightarrow> jwt_claims option"
  ae_sha256 :: "string \<Rightarrow> string"
  ae_bcrypt :: "string \<Rightarrow> string \<Rightarrow> string"               \<comment> \<open>salt, password\<close>
  ae_compare :: "string \<Rightarrow> string \<Rightarrow> bool"
  ae_geoip :: "string \<Rightarrow> (string \<times> string) option"      \<comment> \<open>city, country\<close>
  ae_JWT_ACCESS_EXPIRES_IN :: int
  ae_JWT_REFRESH_EXPIRES_IN :: int
  ae_REGISTRATION_OTP_TTL :: int
  ae_FORGOT_PASSWORD_OTP_TTL :: int

definition SESSION_TTL_SECONDS :: int where "SESSION_TTL_SECONDS = 30 * 24 * 60 * 60"
definition PASSWORD_RESET_TOKEN_TTL_SECONDS :: int where "PASSWORD_RESET_TOKEN_TTL_SECONDS = 10 * 60"
definition PROFILE_CACHE_TTL_SECONDS :: int where "PROFILE_CACHE_TTL_SECONDS = 60 * 60"
definition OTP_RATE_LIMIT_MAX :: int where "OTP_RATE_LIMIT_MAX = 5"
definition OTP_RATE_LIMIT_WINDOW :: int where "OTP_RATE_LIMIT_WINDOW = 3600"
definition OTP_ATTEMPT_LIMIT :: int where "OTP_ATTEMPT_LIMIT = 5"

text \<open>The keys of \<open>REDIS_KEYS\<close>.\<close>

definition k_authSession :: "ident \<Rightarrow> string" where "k_authSession i = ''auth:session:'' @ i"
definition k_otp :: "ident \<Rightarrow> string" where "k_otp i = ''auth:otp:'' @ i"
definition k_registrationSession :: "ident \<Rightarrow> string" where "k_registrationSession i = ''auth:registration:'' @ i"
definition k_forgotPasswordSession :: "ident \<Rightarrow> string" where "k_forgotPasswordSession i = ''auth:forgot-password:'' @ i"
definition k_passwordResetToken :: "string \<Rightarrow> string" where "k_passwordResetToken t = ''auth:password-reset-token:'' @ t"
definition k_otpRate :: "string \<Rightarrow> string" where "k_otpRate e = ''auth:otp_rate:'' @ e"
definition k_otpAttempts :: "ident \<Rightarrow> string" where "k_otpAttempts i = ''auth:otp_attempts:'' @ i"
definition k_otpSession :: "string \<Rightarrow> string" where "k_otpSession e = ''auth:otp_session:'' @ e"
definition k_userSessions :: "ident \<Rightarrow> string" where "k_userSessions i = ''auth:user:'' @ i @ '':sessions''"
definition k_userProfile :: "ident \<Rightarrow> string" where "k_userProfile i = ''user:profile:'' @ i"

section \<open>Redis commands of a call\<close>

type_synonym 'a acc = "(account_db, 'a) proc"

definition kv_do :: "link \<Rightarrow> (kv, 'a) proc \<Rightarrow> 'a acc" where
  "kv_do lk c s = (case over_link lk c (ac_kv s) of (r, kv) \<Rightarrow> (r, s\<lparr>ac_kv := kv\<rparr>))"

definition return :: "'a \<Rightarrow> 'a acc" where "return x s = (Inr x, s)"

definition throw :: "exn \<Rightarrow> 'a acc" where "throw e s = (Inl e, s)"

text \<open>\<open>GET\<close> of a text; the empty string is falsy, as a missing key is.\<close>

definition text_of :: "rval option \<Rightarrow> string option" where
  "text_of v = (case v of Some (VText t) \<Rightarrow> if t = [] then None else Some t | _ \<Rightarrow> None)"

definition c_get :: "time \<Rightarrow> string \<Rightarrow> (kv, rval option) proc" where
  "c_get now k st = (Inr (redis_get now k st), st)"

definition c_getText :: "time \<Rightarrow> string \<Rightarrow> (kv, string option) proc" where
  "c_getText now k st = (Inr (text_of (redis_get now k st)), st)"

definition c_set :: "time \<Rightarrow> string \<Rightarrow> rval \<Rightarrow> int \<Rightarrow> (kv, unit) proc" where
  "c_set now k v ttl st = (case redis_set_ex now k v ttl st of (Inl e, st') \<Rightarrow> (Inl e, st') | (Inr _, st') \<Rightarrow> (Inr (), st'))"

definition c_del :: "string list \<Rightarrow> (kv, unit) proc" where
  "c_del ks st = (Inr (), st |` (- set ks))"

definition c_expire :: "time \<Rightarrow> string \<Rightarrow> int \<Rightarrow> (kv, unit) proc" where
  "c_expire now k ttl st = (Inr (), redis_expire now k ttl st)"

definition c_incr :: "time \<Rightarrow> string \<Rightarrow> (kv, int) proc" where
  "c_incr now k st =
     (case redis_get now k st of
        None \<Rightarrow> (Inr 1, st(k \<mapsto> (VCount 1, None)))
      | Some (VCount n) \<Rightarrow> (Inr (n + 1), st(k \<mapsto> (VCount (n + 1), snd (the (st k)))))
      | Some _ \<Rightarrow> (Inl (PlainError ''ERR value is not an integer''), st))"

text \<open>\<open>TTL\<close> answers in whole seconds, rounded.\<close>

definition c_ttl :: "time \<Rightarrow> string \<Rightarrow> (kv, int) proc" where
  "c_ttl now k st =
     (Inr (case st k of
         None \<Rightarrow> -2
       | Some e \<Rightarrow> if \<not> live now e then -2 else (case snd e of None \<Rightarrow> -1 | Some x \<Rightarrow> (x - now + 500) div 1000)), st)"

definition ids_of :: "rval option \<Rightarrow> ident list" where
  "ids_of v = (case v of Some (VIds ids) \<Rightarrow> ids | _ \<Rightarrow> [])"

definition c_smembers :: "time \<Rightarrow> string \<Rightarrow> (kv, ident list) proc" where
  "c_smembers now k st = (Inr (ids_of (redis_get now k st)), st)"

definition c_sadd :: "time \<Rightarrow> string \<Rightarrow> ident \<Rightarrow> (kv, unit) proc" where
  "c_sadd now k i st =
     (case redis_get now k st of
        None \<Rightarrow> (Inr (), st(k \<mapsto> (VIds [i], None)))
      | Some (VIds ids) \<Rightarrow> (Inr (), st(k \<mapsto> (VIds (List.insert i ids), snd (the (st k)))))
      | Some _ \<Rightarrow> (Inl (PlainError ''WRONGTYPE''), st))"

text \<open>Removing the last member removes the key.\<close>

definition c_srem :: "time \<Rightarrow> string \<Rightarrow> ident \<Rightarrow> (kv, unit) proc" where
  "c_srem now k i st =
     (case redis_get now k st of
        None \<Rightarrow> (Inr (), st)
      | Some (VIds ids) \<Rightarrow> (Inr (), if removeAll i ids = [] then st(k := None)
                                      else st(k \<mapsto> (VIds (removeAll i ids), snd (the (st k)))))
      | Some _ \<Rightarrow> (Inl (PlainError ''WRONGTYPE''), st))"

text \<open>The links of a nested call.\<close>

definition from_link :: "nat \<Rightarrow> (nat \<Rightarrow> link) \<Rightarrow> nat \<Rightarrow> link" where
  "from_link n l k = l (n + k)"

section \<open>Repository, mapper and helpers\<close>

definition findUserByEmail :: "string \<Rightarrow> account_db \<Rightarrow> User option" where
  "findUserByEmail email s = find_row (\<lambda>u. us_email u = email) (ac_users s)"

definition user_findById :: "ident \<Rightarrow> account_db \<Rightarrow> User option" where
  "user_findById i s = find_row (\<lambda>u. us_id u = i) (ac_users s)"

definition createUser :: "User \<Rightarrow> (account_db, User) tx" where
  "createUser u s =
     bindE (create_row us_id u (ac_users s)) (\<lambda>_.
     bindE (create_row us_email u (ac_users s)) (\<lambda>rows. Inr (u, s\<lparr>ac_users := rows\<rparr>)))"

definition user_update :: "ident \<Rightarrow> (User \<Rightarrow> User) \<Rightarrow> (account_db, User) tx" where
  "user_update i data s =
     bindE (update_row (\<lambda>u. us_id u = i) data (ac_users s)) (\<lambda>rows.
       let s' = s\<lparr>ac_users := rows\<rparr>
       in (case user_findById i s' of Some u \<Rightarrow> Inr (u, s') | None \<Rightarrow> Inl (PrismaError ''P2025'')))"

definition repo_updateProfile :: "ident \<Rightarrow> UpdateProfileDto \<Rightarrow> (account_db, User) tx" where
  "repo_updateProfile i data =
     user_update i (\<lambda>u. u\<lparr>us_firstName := (case up_firstName data of None \<Rightarrow> us_firstName u | Some n \<Rightarrow> n),
       us_lastName := (case up_lastName data of None \<Rightarrow> us_lastName u | Some n \<Rightarrow> n)\<rparr>)"

definition deleteUser :: "ident \<Rightarrow> (account_db, unit) tx" where
  "deleteUser i s =
     (if list_ex (\<lambda>u. us_id u = i) (ac_users s)
      then Inr ((), s\<lparr>ac_users := filter (\<lambda>u. us_id u \<noteq> i) (ac_users s)\<rparr>)
      else Inl (PrismaError ''P2025''))"

definition toUserResponseDto :: "User \<Rightarrow> UserResponseDto" where
  "toUserResponseDto u = \<lparr>ur_id = us_id u, ur_firstName = us_firstName u, ur_lastName = us_lastName u,
     ur_email = us_email u, ur_createdAt = us_createdAt u\<rparr>"

definition toAuthResponseDto :: "User \<Rightarrow> string \<Rightarrow> string \<Rightarrow> AuthResponseDto" where
  "toAuthResponseDto u accessToken refreshToken =
     \<lparr>ar_user = toUserResponseDto u, ar_accessToken = accessToken, ar_refreshToken = refreshToken\<rparr>"

definition toCache :: "User \<Rightarrow> UserResponseDto" where
  "toCache u = toUserResponseDto u"

definition js_space :: "char \<Rightarrow> bool" where
  "js_space c \<longleftrightarrow> of_char c \<in> {9 :: nat, 10, 11, 12, 13, 32, 160}"

definition js_trim :: "string \<Rightarrow> string" where
  "js_trim t = rev (dropWhile js_space (rev (dropWhile js_space t)))"

definition getIpLocation :: "account_env \<Rightarrow> string option \<Rightarrow> string" where
  "getIpLocation env ip =
     (case ip of
        None \<Rightarrow> ''Unknown Location''
      | Some a \<Rightarrow>
          if a = [] then ''Unknown Location''
          else
            (let cleanIp = js_trim (if take 7 a = ''::ffff:'' then drop 7 a else a)
             in if cleanIp = ''127.0.0.1'' \<or> cleanIp = ''::1'' \<or> cleanIp = ''localhost'' \<or>
                   take 8 cleanIp = ''192.168.'' \<or> take 3 cleanIp = ''10.''
                then ''Local Development''
                else (case ae_geoip env cleanIp of
                    None \<Rightarrow> ''Unknown Location''
                  | Some (city, country) \<Rightarrow>
                      (let place = js_trim ((if city = [] then [] else city @ '', '') @ country)
                       in if place = [] then ''Unknown Location'' else place))))"

definition getDeviceFingerprint :: "account_env \<Rightarrow> string option \<Rightarrow> string option \<Rightarrow> string option \<Rightarrow> string" where
  "getDeviceFingerprint env userAgent ip accept =
     (let orEmpty = (\<lambda>x. case x of None \<Rightarrow> [] | Some t \<Rightarrow> t)
      in ae_sha256 env (orEmpty userAgent @ ''|'' @ orEmpty ip @ ''|'' @ orEmpty accept))"

definition verifyRefreshToken :: "account_env \<Rightarrow> time \<Rightarrow> string \<Rightarrow> jwt_claims option" where
  "verifyRefreshToken env now token =
     (case ae_verify env (now div 1000) token of
        None \<Rightarrow> None
      | Some decoded \<Rightarrow>
          if jc_type decoded = ''refresh'' \<and> jc_sub decoded \<noteq> [] \<and> jc_sessionId decoded \<noteq> None
          then Some decoded else None)"

definition generateAccessToken :: "account_env \<Rightarrow> time \<Rightarrow> ident \<Rightarrow> ident \<Rightarrow> string \<Rightarrow> string" where
  "generateAccessToken env now userId sessionId email =
     ae_sign env \<lparr>jc_sub = userId, jc_email = Some email, jc_sessionId = Some sessionId, jc_type = ''access''\<rparr>
       (now div 1000) (now div 1000 + ae_JWT_ACCESS_EXPIRES_IN env)"

definition generateRefreshToken :: "account_env \<Rightarrow> time \<Rightarrow> ident \<Rightarrow> ident \<Rightarrow> string" where
  "generateRefreshToken env now userId sessionId =
     ae_sign env \<lparr>jc_sub = userId, jc_email = None, jc_sessionId = Some sessionId, jc_type = ''refresh''\<rparr>
       (now div 1000) (now div 1000 + ae_JWT_REFRESH_EXPIRES_IN env)"

section \<open>OtpService\<close>

definition findExistingOtpSession :: "link \<Rightarrow> time \<Rightarrow> string \<Rightarrow> ident option acc" where
  "findExistingOtpSession lk now email = kv_do lk (c_getText now (k_otpSession email))"

text \<open>The rate limit at the start of \<open>storeOtp\<close> and \<open>replaceOtp\<close>.\<close>

definition otp_rate_limit :: "(nat \<Rightarrow> link) \<Rightarrow> time \<Rightarrow> string \<Rightarrow> unit acc" where
  "otp_rate_limit l now email =
     then_proc (kv_do (l 0) (c_incr now (k_otpRate email))) (\<lambda>nextCount.
     then_proc (kv_do (l 1) (c_ttl now (k_otpRate email))) (\<lambda>ttl.
     then_proc (if ttl = -1 then kv_do (l 2) (c_expire now (k_otpRate email) OTP_RATE_LIMIT_WINDOW) else return ()) (\<lambda>_.
     if nextCount > OTP_RATE_LIMIT_MAX then throw (ApiError 429 ''RATE_LIMIT_EXCEEDED'') else return ())))"

definition storeOtp :: "account_env \<Rightarrow> (nat \<Rightarrow> link) \<Rightarrow> time \<Rightarrow> ident \<Rightarrow> string \<Rightarrow> string \<Rightarrow> string \<Rightarrow> int \<Rightarrow> ident acc" where
  "storeOtp env l now sessionId salt email otp ttlSeconds =
     then_proc (otp_rate_limit l now email) (\<lambda>_.
     then_proc (kv_do (l 3) (c_set now (k_otp sessionId) (VText (ae_bcrypt env salt otp)) ttlSeconds)) (\<lambda>_.
     then_proc (kv_do (l 4) (c_set now (k_otpSession email) (VText sessionId) ttlSeconds)) (\<lambda>_.
     return sessionId)))"

definition storeRegistrationSession :: "account_env \<Rightarrow> link \<Rightarrow> time \<Rightarrow> ident \<Rightarrow> RegistrationSessionData \<Rightarrow> unit acc" where
  "storeRegistrationSession env lk now sessionId data =
     kv_do lk (c_set now (k_registrationSession sessionId) (VRegistration data) (ae_REGISTRATION_OTP_TTL env))"

definition getRegistrationSession :: "link \<Rightarrow> time \<Rightarrow> ident \<Rightarrow> RegistrationSessionData option acc" where
  "getRegistrationSession lk now sessionId =
     then_proc (kv_do lk (c_get now (k_registrationSession sessionId))) (\<lambda>data.
       case data of None \<Rightarrow> return None | Some (VRegistration d) \<Rightarrow> return (Some d) | Some _ \<Rightarrow> throw SyntaxError)"

definition deleteRegistrationSession :: "link \<Rightarrow> ident \<Rightarrow> unit acc" where
  "deleteRegistrationSession lk sessionId =
     kv_do lk (c_del [k_otp sessionId, k_registrationSession sessionId, k_otpAttempts sessionId])"

definition replaceOtp :: "account_env \<Rightarrow> (nat \<Rightarrow> link) \<Rightarrow> time \<Rightarrow> ident \<Rightarrow> string \<Rightarrow> string \<Rightarrow> string \<Rightarrow> int \<Rightarrow> unit acc" where
  "replaceOtp env l now sessionId salt email otp ttlSeconds =
     then_proc (otp_rate_limit l now email) (\<lambda>_.
     then_proc (kv_do (l 3) (c_set now (k_otp sessionId) (VText (ae_bcrypt env salt otp)) ttlSeconds)) (\<lambda>_.
     then_proc (kv_do (l 4) (c_set now (k_otpSession email) (VText sessionId) ttlSeconds)) (\<lambda>_.
     kv_do (l 5) (c_del [k_otpAttempts sessionId]))))"

definition deleteOtpSession :: "link \<Rightarrow> string \<Rightarrow> unit acc" where
  "deleteOtpSession lk email = kv_do lk (c_del [k_otpSession email])"

definition verifyOtp :: "account_env \<Rightarrow> (nat \<Rightarrow> link) \<Rightarrow> time \<Rightarrow> ident \<Rightarrow> string \<Rightarrow> bool acc" where
  "verifyOtp env l now sessionId otp =
     then_proc (kv_do (l 0) (c_getText now (k_otp sessionId))) (\<lambda>h. case h of
       None \<Rightarrow> throw (ApiError 404 ''OTP_EXPIRED'')
     | Some hashedOtp \<Rightarrow>
         then_proc (kv_do (l 1) (c_incr now (k_otpAttempts sessionId))) (\<lambda>attempts.
         then_proc (if attempts = 1
                    then then_proc (kv_do (l 2) (c_ttl now (k_otp sessionId))) (\<lambda>remainingTtl.
                           kv_do (l 3) (c_expire now (k_otpAttempts sessionId)
                             (if remainingTtl > 0 then remainingTtl else ae_REGISTRATION_OTP_TTL env)))
                    else return ()) (\<lambda>_.
         if attempts > OTP_ATTEMPT_LIMIT
         then then_proc (kv_do (l 4) (c_del [k_otp sessionId])) (\<lambda>_. throw (ApiError 429 ''OTP_LOCKED''))
         else if \<not> ae_compare env otp hashedOtp then throw (ApiError 400 ''OTP_INVALID'')
         else then_proc (kv_do (l 5) (c_del [k_otpAttempts sessionId])) (\<lambda>_. return True))))"

end
