(* ===== verification/Auth.thy ===== *)
theory Auth
  imports Accounts
begin

text \<open>
  \<open>AuthService\<close>, \<open>UserService\<close>, \<open>sessionMiddleware\<close> and the controllers of the user service.
  \<open>Promise.allSettled\<close>, an empty \<open>catch\<close> and a call that is not awaited are \<open>settled\<close>: their errors are
  dropped. The outcome of \<open>multi().exec()\<close> and of a Kafka send are arguments.
\<close>

section \<open>Sessions\<close>

definition settled :: "'a acc \<Rightarrow> unit acc" where
  "settled m s = (Inr (), snd (m s))"

text \<open>\<open>exec()\<close> reports an error per command, or null when the transaction was aborted, or rejects
  with the commands done or not.\<close>

datatype exec_outcome = ExecDone bool bool bool | ExecNull | ExecThrows bool

definition or_unknown :: "string option \<Rightarrow> string" where
  "or_unknown x = (case x of None \<Rightarrow> ''Unknown'' | Some t \<Rightarrow> if t = [] then ''Unknown'' else t)"

definition new_session :: "account_env \<Rightarrow> time \<Rightarrow> ident \<Rightarrow> string \<Rightarrow> string \<Rightarrow> string option \<Rightarrow> string option \<Rightarrow> SessionRecord" where
  "new_session env now userId refreshToken fingerprint ipAddress userAgent =
     \<lparr>sn_userId = userId, sn_fingerprint = fingerprint, sn_refreshTokenHash = ae_sha256 env refreshToken,
      sn_ipAddress = or_unknown ipAddress, sn_userAgent = or_unknown userAgent,
      sn_location = getIpLocation env ipAddress, sn_createdAt = now, sn_lastUsedAt = now,
      sn_expiresAt = now + SESSION_TTL_SECONDS * 1000\<rparr>"

definition session_multi :: "time \<Rightarrow> ident \<Rightarrow> ident \<Rightarrow> SessionRecord \<Rightarrow> bool \<Rightarrow> bool \<Rightarrow> bool \<Rightarrow> kv \<Rightarrow> kv" where
  "session_multi now sessionId userId data e1 e2 e3 st =
     (let st1 = (if e1 then st else snd (c_set now (k_authSession sessionId) (VSession data) SESSION_TTL_SECONDS st));
          st2 = (if e2 then st1 else snd (c_sadd now (k_userSessions userId) sessionId st1))
      in if e3 then st2 else snd (c_expire now (k_userSessions userId) SESSION_TTL_SECONDS st2))"

definition createAuthSession :: "account_env \<Rightarrow> (nat \<Rightarrow> link) \<Rightarrow> exec_outcome \<Rightarrow> time \<Rightarrow> ident \<Rightarrow> ident \<Rightarrow> string \<Rightarrow> string \<Rightarrow>
    string option \<Rightarrow> string option \<Rightarrow> unit acc" where
  "createAuthSession env l x now userId sessionId refreshToken fingerprint ipAddress userAgent s =
     (let data = new_session env now userId refreshToken fingerprint ipAddress userAgent;
          done = (\<lambda>e1 e2 e3. s\<lparr>ac_kv := session_multi now sessionId userId data e1 e2 e3 (ac_kv s)\<rparr>)
      in case x of
           ExecNull \<Rightarrow> throw (PlainError ''Failed to persist authentication session'') s
         | ExecThrows applied \<Rightarrow> throw (PlainError ''connection'') (if applied then done False False False else s)
         | ExecDone e1 e2 e3 \<Rightarrow>
             if e1 \<or> e2 \<or> e3
             then then_proc (settled (kv_do (l 0) (c_del [k_authSession sessionId]))) (\<lambda>_.
                  then_proc (settled (kv_do (l 1) (c_srem now (k_userSessions userId) sessionId))) (\<lambda>_.
                  throw (PlainError ''Failed to persist authentication session''))) (done e1 e2 e3)
             else return () (done e1 e2 e3))"

definition requireUser :: "string \<Rightarrow> User acc" where
  "requireUser email s =
     (case findUserByEmail email s of None \<Rightarrow> throw (ApiError 404 ''USER_NOT_FOUND'') s | Some u \<Rightarrow> return u s)"

definition logout :: "(nat \<Rightarrow> link) \<Rightarrow> time \<Rightarrow> ident \<Rightarrow> ident \<Rightarrow> unit acc" where
  "logout l now sessionId userId =
     then_proc (kv_do (l 0) (c_del [k_authSession sessionId])) (\<lambda>_.
     kv_do (l 1) (c_srem now (k_userSessions userId) sessionId))"

definition logoutAll :: "(nat \<Rightarrow> link) \<Rightarrow> time \<Rightarrow> ident \<Rightarrow> unit acc" where
  "logoutAll l now userId =
     then_proc (kv_do (l 0) (c_smembers now (k_userSessions userId))) (\<lambda>sessions.
     then_proc (if length sessions > 0 then kv_do (l 1) (c_del (map k_authSession sessions)) else return ()) (\<lambda>_.
     kv_do (l 2) (c_del [k_userSessions userId])))"

section \<open>Registration\<close>

text \<open>A send that fails may have reached the broker, its acknowledgement lost: the flag says so.\<close>

definition publish :: "(exn \<times> bool) option \<Rightarrow> account_event \<Rightarrow> unit acc" where
  "publish pub e s =
     (let sent = s\<lparr>ac_sent := ac_sent s @ [e]\<rparr>
      in case pub of None \<Rightarrow> (Inr (), sent) | Some (err, arrived) \<Rightarrow> (Inl err, if arrived then sent else s))"

definition registration_data :: "account_env \<Rightarrow> string \<Rightarrow> RegisterRequestDto \<Rightarrow> RegistrationSessionData" where
  "registration_data env salt data = \<lparr>rg_firstName = rq_firstName data, rg_lastName = rq_lastName data,
     rg_email = rq_email data, rg_hashedPassword = ae_bcrypt env salt (rq_password data)\<rparr>"

definition sendOtp :: "account_env \<Rightarrow> (nat \<Rightarrow> link) \<Rightarrow> (exn \<times> bool) option \<Rightarrow> time \<Rightarrow> (nat \<Rightarrow> ident) \<Rightarrow> string \<Rightarrow> (nat \<Rightarrow> string) \<Rightarrow>
    RegisterRequestDto \<Rightarrow> ident acc" where
  "sendOtp env l pub now u otp salt data s =
     (case findUserByEmail (rq_email data) s of
        Some _ \<Rightarrow> throw (ApiError 409 ''USER_ALREADY_EXISTS'') s
      | None \<Rightarrow>
          then_proc (findExistingOtpSession (l 0) now (rq_email data)) (\<lambda>existingSessionId.
          let reg = registration_data env (salt 0) data
          in then_proc (case existingSessionId of
                 Some sessionId \<Rightarrow>
                   then_proc (replaceOtp env (from_link 10 l) now sessionId (salt 1) (rq_email data) otp (ae_REGISTRATION_OTP_TTL env)) (\<lambda>_.
                   then_proc (storeRegistrationSession env (l 1) now sessionId reg) (\<lambda>_. return sessionId))
               | None \<Rightarrow>
                   then_proc (storeOtp env (from_link 10 l) now (u 0) (salt 1) (rq_email data) otp (ae_REGISTRATION_OTP_TTL env)) (\<lambda>sessionId.
                   then_proc (storeRegistrationSession env (l 1) now sessionId reg) (\<lambda>_. return sessionId))) (\<lambda>sessionId s1.
             case publish pub (OTPRequestedV1 (u 1) (rq_email data) otp REGISTRATION (ae_REGISTRATION_OTP_TTL env)) s1 of
               (Inr _, s2) \<Rightarrow> return sessionId s2
             | (Inl _, s2) \<Rightarrow>
                 then_proc (if existingSessionId = None
                            then then_proc (deleteRegistrationSession (l 2) sessionId) (\<lambda>_. deleteOtpSession (l 3) (rq_email data))
                            else return ()) (\<lambda>_. throw (ApiError 502 ''KAFKA_PUBLISH_FAILED'')) s2)) s)"

text \<open>\<open>delErr\<close> is the fate of the compensating delete.\<close>

definition registerUser :: "account_env \<Rightarrow> (nat \<Rightarrow> link) \<Rightarrow> exec_outcome \<Rightarrow> exn option \<Rightarrow> time \<Rightarrow> ident \<Rightarrow> RegistrationSessionData \<Rightarrow>
    ident \<Rightarrow> string \<Rightarrow> string option \<Rightarrow> string option \<Rightarrow> AuthResponseDto acc" where
  "registerUser env l x delErr now userId data sessionId fingerprint ipAddress userAgent =
     then_proc (transaction (createUser \<lparr>us_id = userId, us_email = rg_email data, us_firstName = rg_firstName data,
         us_lastName = rg_lastName data, us_password = rg_hashedPassword data, us_emailVerified = True, us_createdAt = now\<rparr>))
       (\<lambda>user s1.
        let accessToken = generateAccessToken env now (us_id user) sessionId (us_email user);
            refreshToken = generateRefreshToken env now (us_id user) sessionId
        in case createAuthSession env l x now (us_id user) sessionId refreshToken fingerprint ipAddress userAgent s1 of
             (Inr _, s2) \<Rightarrow> return (toAuthResponseDto user accessToken refreshToken) s2
           | (Inl err, s2) \<Rightarrow>
               then_proc (settled (case delErr of None \<Rightarrow> transaction (deleteUser (us_id user)) | Some e \<Rightarrow> throw e))
                 (\<lambda>_. throw err) s2)"

definition verifyAndRegister :: "account_env \<Rightarrow> (nat \<Rightarrow> link) \<Rightarrow> exec_outcome \<Rightarrow> exn option \<Rightarrow> time \<Rightarrow> ident \<Rightarrow> ident \<Rightarrow> string \<Rightarrow>
    string \<Rightarrow> string option \<Rightarrow> string option \<Rightarrow> AuthResponseDto acc" where
  "verifyAndRegister env l x delErr now userId sessionId otp fingerprint ipAddress userAgent =
     then_proc (verifyOtp env (from_link 10 l) now sessionId otp) (\<lambda>_.
     then_proc (getRegistrationSession (l 0) now sessionId) (\<lambda>regData.
       case regData of
         None \<Rightarrow> throw (ApiError 404 ''REGISTRATION_SESSION_EXPIRED'')
       | Some reg \<Rightarrow>
           then_proc (registerUser env (from_link 20 l) x delErr now userId reg sessionId fingerprint ipAddress userAgent) (\<lambda>resp.
           then_proc (settled (then_proc (deleteRegistrationSession (l 1) sessionId) (\<lambda>_. deleteOtpSession (l 2) (rg_email reg)))) (\<lambda>_.
           return resp))))"

section \<open>Login and refresh\<close>

definition login :: "account_env \<Rightarrow> (nat \<Rightarrow> link) \<Rightarrow> exec_outcome \<Rightarrow> (exn \<times> bool) option \<Rightarrow> time \<Rightarrow> (nat \<Rightarrow> ident) \<Rightarrow> string \<Rightarrow> string \<Rightarrow> string \<Rightarrow>
    string option \<Rightarrow> string option \<Rightarrow> AuthResponseDto acc" where
  "login env l x pub now u email password fingerprint ipAddress userAgent =
     then_proc (requireUser email) (\<lambda>user.
     if \<not> ae_compare env password (us_password user) then throw (ApiError 401 ''INVALID_CREDENTIALS'')
     else
       (let sessionId = u 0;
            accessToken = generateAccessToken env now (us_id user) sessionId (us_email user);
            refreshToken = generateRefreshToken env now (us_id user) sessionId
        in then_proc (createAuthSession env l x now (us_id user) sessionId refreshToken fingerprint ipAddress userAgent) (\<lambda>_.
           then_proc (settled (publish pub (UserLoggedInV1 (u 1) (us_id user) (us_email user) (us_firstName user) (us_lastName user)))) (\<lambda>_.
           return (toAuthResponseDto user accessToken refreshToken)))))"

text \<open>The part of \<open>refresh\<close> after the session was read.\<close>

definition rotate :: "account_env \<Rightarrow> (nat \<Rightarrow> link) \<Rightarrow> time \<Rightarrow> string \<Rightarrow> string \<Rightarrow> ident \<Rightarrow> ident \<Rightarrow> SessionRecord \<Rightarrow> AuthResponseDto acc" where
  "rotate env l now refreshToken fingerprint userId sessionId session =
     (if sn_fingerprint session \<noteq> fingerprint
      then then_proc (logout (from_link 10 l) now sessionId userId) (\<lambda>_. throw (ApiError 401 ''DEVICE_FINGERPRINT_MISMATCH''))
      else if sn_refreshTokenHash session \<noteq> ae_sha256 env refreshToken
      then then_proc (logoutAll (from_link 10 l) now userId) (\<lambda>_. throw (ApiError 401 ''INVALID_REFRESH_TOKEN''))
      else (\<lambda>s. case user_findById (sn_userId session) s of
          None \<Rightarrow> throw (ApiError 401 ''INVALID_REFRESH_TOKEN'') s
        | Some user \<Rightarrow>
            (let accessToken = generateAccessToken env now (us_id user) sessionId (us_email user);
                 newRefreshToken = generateRefreshToken env now (us_id user) sessionId
             in then_proc (kv_do (l 1) (c_set now (k_authSession sessionId) (VSession (session\<lparr>
                      sn_refreshTokenHash := ae_sha256 env newRefreshToken, sn_lastUsedAt := now\<rparr>)) SESSION_TTL_SECONDS)) (\<lambda>_.
                then_proc (kv_do (l 2) (c_expire now (k_userSessions userId) SESSION_TTL_SECONDS)) (\<lambda>_.
                return (toAuthResponseDto user accessToken newRefreshToken))) s)))"

definition refresh :: "account_env \<Rightarrow> (nat \<Rightarrow> link) \<Rightarrow> time \<Rightarrow> string \<Rightarrow> string \<Rightarrow> AuthResponseDto acc" where
  "refresh env l now refreshToken fingerprint s =
     (let body = (case verifyRefreshToken env now refreshToken of
            None \<Rightarrow> throw (ApiError 401 ''INVALID_REFRESH_TOKEN'')
          | Some decoded \<Rightarrow>
              (case jc_sessionId decoded of
                 None \<Rightarrow> throw (ApiError 401 ''INVALID_REFRESH_TOKEN'')
               | Some sessionId \<Rightarrow>
                   if sessionId = [] then throw (ApiError 401 ''INVALID_REFRESH_TOKEN'')
                   else then_proc (kv_do (l 0) (c_get now (k_authSession sessionId))) (\<lambda>sessionJson.
                     case sessionJson of
                       None \<Rightarrow> throw (ApiError 401 ''SESSION_EXPIRED_OR_REVOKED'')
                     | Some (VSession session) \<Rightarrow> rotate env l now refreshToken fingerprint (jc_sub decoded) sessionId session
                     | Some _ \<Rightarrow> throw SyntaxError)))
      in case body s of
           (Inr r, s') \<Rightarrow> (Inr r, s')
         | (Inl (ApiError st code), s') \<Rightarrow> (Inl (ApiError st code), s')
         | (Inl _, s') \<Rightarrow> (Inl (ApiError 401 ''INVALID_REFRESH_TOKEN''), s'))"

section \<open>Session management\<close>

definition summary :: "ident \<Rightarrow> SessionRecord \<Rightarrow> SessionSummaryDto" where
  "summary i r = \<lparr>sm_sessionId = i, sm_userId = sn_userId r, sm_fingerprint = sn_fingerprint r, sm_ipAddress = sn_ipAddress r,
     sm_userAgent = sn_userAgent r, sm_location = sn_location r, sm_createdAt = sn_createdAt r,
     sm_lastUsedAt = sn_lastUsedAt r, sm_expiresAt = sn_expiresAt r\<rparr>"

text \<open>\<open>Promise.all\<close> runs every element and rejects with the first error.\<close>

definition fetch_session :: "(nat \<Rightarrow> link) \<Rightarrow> time \<Rightarrow> string \<Rightarrow> nat \<Rightarrow> ident \<Rightarrow> SessionSummaryDto option acc" where
  "fetch_session l now sessionsKey k i =
     then_proc (kv_do (l k) (c_get now (k_authSession i))) (\<lambda>data. case data of
         None \<Rightarrow> then_proc (settled (kv_do (l (k + 1)) (c_srem now sessionsKey i))) (\<lambda>_. return None)
       | Some (VSession r) \<Rightarrow> return (Some (summary i r))
       | Some _ \<Rightarrow> throw SyntaxError)"

fun fetch_sessions :: "(nat \<Rightarrow> link) \<Rightarrow> time \<Rightarrow> string \<Rightarrow> nat \<Rightarrow> ident list \<Rightarrow> SessionSummaryDto list acc" where
  "fetch_sessions l now sessionsKey k [] s = (Inr [], s)"
| "fetch_sessions l now sessionsKey k (i # ids) s =
     (case fetch_session l now sessionsKey k i s of
        (r, s1) \<Rightarrow>
          (case fetch_sessions l now sessionsKey (k + 2) ids s1 of
             (rs, s2) \<Rightarrow> (bindE r (\<lambda>x. bindE rs (\<lambda>xs. Inr (case x of None \<Rightarrow> xs | Some y \<Rightarrow> y # xs))), s2)))"

definition getSessions :: "(nat \<Rightarrow> link) \<Rightarrow> time \<Rightarrow> ident \<Rightarrow> SessionSummaryDto list acc" where
  "getSessions l now userId =
     then_proc (kv_do (l 0) (c_smembers now (k_userSessions userId))) (fetch_sessions l now (k_userSessions userId) 1)"

definition revokeSession :: "(nat \<Rightarrow> link) \<Rightarrow> time \<Rightarrow> ident \<Rightarrow> ident \<Rightarrow> unit acc" where
  "revokeSession l now sessionId userId =
     then_proc (kv_do (l 0) (c_get now (k_authSession sessionId))) (\<lambda>sessionJson. case sessionJson of
       None \<Rightarrow> return ()
     | Some (VSession session) \<Rightarrow>
         if sn_userId session \<noteq> userId then throw (ApiError 403 ''SESSION_OWNERSHIP_INVALID'')
         else then_proc (kv_do (l 1) (c_del [k_authSession sessionId])) (\<lambda>_.
              kv_do (l 2) (c_srem now (k_userSessions userId) sessionId))
     | Some _ \<Rightarrow> throw SyntaxError)"

definition logoutByRefreshToken :: "account_env \<Rightarrow> (nat \<Rightarrow> link) \<Rightarrow> time \<Rightarrow> string option \<Rightarrow> unit acc" where
  "logoutByRefreshToken env l now refreshToken =
     (case refreshToken of
        None \<Rightarrow> return ()
      | Some token \<Rightarrow>
          if token = [] then return ()
          else (case verifyRefreshToken env now token of
              None \<Rightarrow> return ()
            | Some decoded \<Rightarrow>
                (case jc_sessionId decoded of
                   None \<Rightarrow> return ()
                 | Some sessionId \<Rightarrow>
                     if sessionId = [] then return () else settled (logout l now sessionId (jc_sub decoded)))))"

definition logoutAllByRefreshToken :: "account_env \<Rightarrow> (nat \<Rightarrow> link) \<Rightarrow> time \<Rightarrow> string option \<Rightarrow> unit acc" where
  "logoutAllByRefreshToken env l now refreshToken =
     (case refreshToken of
        None \<Rightarrow> return ()
      | Some token \<Rightarrow>
          if token = [] then return ()
          else (case verifyRefreshToken env now token of
              None \<Rightarrow> return ()
            | Some decoded \<Rightarrow> settled (logoutAll l now (jc_sub decoded))))"

section \<open>Password recovery\<close>

definition forgotPassword :: "account_env \<Rightarrow> (nat \<Rightarrow> link) \<Rightarrow> (exn \<times> bool) option \<Rightarrow> time \<Rightarrow> (nat \<Rightarrow> ident) \<Rightarrow> string \<Rightarrow> string \<Rightarrow> string \<Rightarrow> ident acc" where
  "forgotPassword env l pub now u otp salt email =
     then_proc (requireUser email) (\<lambda>_.
     then_proc (findExistingOtpSession (l 0) now email) (\<lambda>existingSessionId.
     then_proc (case existingSessionId of
         Some sessionId \<Rightarrow>
           then_proc (replaceOtp env (from_link 10 l) now sessionId salt email otp (ae_FORGOT_PASSWORD_OTP_TTL env)) (\<lambda>_.
           then_proc (kv_do (l 1) (c_set now (k_forgotPasswordSession sessionId) (VText email) (ae_FORGOT_PASSWORD_OTP_TTL env))) (\<lambda>_.
           return sessionId))
       | None \<Rightarrow>
           then_proc (storeOtp env (from_link 10 l) now (u 0) salt email otp (ae_FORGOT_PASSWORD_OTP_TTL env)) (\<lambda>sessionId.
           then_proc (kv_do (l 1) (c_set now (k_forgotPasswordSession sessionId) (VText email) (ae_FORGOT_PASSWORD_OTP_TTL env))) (\<lambda>_.
           return sessionId))) (\<lambda>sessionId s1.
     case publish pub (OTPRequestedV1 (u 1) email otp FORGOT_PASSWORD (ae_FORGOT_PASSWORD_OTP_TTL env)) s1 of
       (Inr _, s2) \<Rightarrow> return sessionId s2
     | (Inl _, s2) \<Rightarrow>
         then_proc (if existingSessionId = None
                    then then_proc (kv_do (l 2) (c_del [k_otp sessionId, k_forgotPasswordSession sessionId])) (\<lambda>_.
                         deleteOtpSession (l 3) email)
                    else return ()) (\<lambda>_. throw (ApiError 502 ''KAFKA_PUBLISH_FAILED'')) s2)))"

definition VerifyPasswordResetOtp :: "account_env \<Rightarrow> (nat \<Rightarrow> link) \<Rightarrow> time \<Rightarrow> string \<Rightarrow> ident \<Rightarrow> string \<Rightarrow> string acc" where
  "VerifyPasswordResetOtp env l now token sessionId otp =
     then_proc (kv_do (l 0) (c_getText now (k_forgotPasswordSession sessionId))) (\<lambda>r. case r of
       None \<Rightarrow> throw (ApiError 401 ''OTP_SESSION_NOT_FOUND'')
     | Some email \<Rightarrow>
         then_proc (verifyOtp env (from_link 10 l) now sessionId otp) (\<lambda>_.
         then_proc (kv_do (l 1) (c_set now (k_passwordResetToken token) (VText email) PASSWORD_RESET_TOKEN_TTL_SECONDS)) (\<lambda>_.
         then_proc (kv_do (l 2) (c_del [k_otp sessionId, k_forgotPasswordSession sessionId, k_otpAttempts sessionId])) (\<lambda>_.
         then_proc (deleteOtpSession (l 3) email) (\<lambda>_. return token)))))"

definition resetPassword :: "account_env \<Rightarrow> (nat \<Rightarrow> link) \<Rightarrow> time \<Rightarrow> string \<Rightarrow> string \<Rightarrow> string \<Rightarrow> unit acc" where
  "resetPassword env l now salt token password =
     then_proc (kv_do (l 0) (c_getText now (k_passwordResetToken token))) (\<lambda>r. case r of
       None \<Rightarrow> throw (ApiError 401 ''OTP_SESSION_NOT_FOUND'')
     | Some email \<Rightarrow>
         then_proc (requireUser email) (\<lambda>user.
         then_proc (transaction (user_update (us_id user) (\<lambda>u. u\<lparr>us_password := ae_bcrypt env salt password\<rparr>))) (\<lambda>_.
         then_proc (logoutAll (from_link 10 l) now (us_id user)) (\<lambda>_.
         kv_do (l 1) (c_del [k_passwordResetToken token])))))"

section \<open>The session middleware\<close>

text \<open>\<open>None\<close> is a request without a session; \<open>refreshes\<close> is what follows the read.\<close>

definition refreshes :: "(nat \<Rightarrow> link) \<Rightarrow> time \<Rightarrow> ident \<Rightarrow> ident \<Rightarrow> SessionRecord \<Rightarrow> unit acc" where
  "refreshes l now userId sessionId session =
     then_proc (kv_do (l 1) (c_set now (k_authSession sessionId) (VSession (session\<lparr>sn_lastUsedAt := now\<rparr>)) SESSION_TTL_SECONDS)) (\<lambda>_.
     kv_do (l 2) (c_expire now (k_userSessions userId) SESSION_TTL_SECONDS))"

definition sessionMiddleware :: "(nat \<Rightarrow> link) \<Rightarrow> time \<Rightarrow> ident \<Rightarrow> ident option \<Rightarrow> unit acc" where
  "sessionMiddleware l now userId sid =
     (case sid of
        None \<Rightarrow> throw (ApiError 401 ''SESSION_CONTEXT_MISSING'')
      | Some sessionId \<Rightarrow>
          if sessionId = [] then throw (ApiError 401 ''SESSION_CONTEXT_MISSING'')
          else then_proc (kv_do (l 0) (c_get now (k_authSession sessionId))) (\<lambda>sessionJson. case sessionJson of
              None \<Rightarrow> throw (ApiError 401 ''SESSION_EXPIRED_OR_REVOKED'')
            | Some (VSession session) \<Rightarrow> refreshes l now userId sessionId session
            | Some _ \<Rightarrow> throw SyntaxError))"

section \<open>UserService\<close>

text \<open>\<open>load_profile\<close> is the part of \<open>getUserById\<close> after a miss.\<close>

definition load_profile :: "link \<Rightarrow> time \<Rightarrow> ident \<Rightarrow> UserResponseDto option acc" where
  "load_profile lk now i s =
     (case user_findById i s of
        None \<Rightarrow> return None s
      | Some user \<Rightarrow>
          then_proc (settled (kv_do lk (c_set now (k_userProfile i) (VProfile (toCache user)) PROFILE_CACHE_TTL_SECONDS)))
            (\<lambda>_. return (Some (toUserResponseDto user))) s)"

definition getUserById :: "(nat \<Rightarrow> link) \<Rightarrow> time \<Rightarrow> ident \<Rightarrow> UserResponseDto option acc" where
  "getUserById l now i s =
     (case kv_do (l 0) (c_get now (k_userProfile i)) s of
        (Inr (Some (VProfile p)), s1) \<Rightarrow> return (Some p) s1
      | (_, s1) \<Rightarrow> load_profile (l 1) now i s1)"

definition updateProfile :: "(nat \<Rightarrow> link) \<Rightarrow> time \<Rightarrow> ident \<Rightarrow> UpdateProfileDto \<Rightarrow> UserResponseDto acc" where
  "updateProfile l now i update =
     then_proc (transaction (repo_updateProfile i update)) (\<lambda>updatedUser.
     then_proc (settled (kv_do (l 0) (c_set now (k_userProfile i) (VProfile (toCache updatedUser)) PROFILE_CACHE_TTL_SECONDS)))
       (\<lambda>_. return (toUserResponseDto updatedUser)))"

end
