(* ===== verification/Sessions.thy ===== *)
theory Sessions
  imports Auth
begin

text \<open>
  The sessions of the user service under every sequence of its calls. \<open>account_step\<close> is one call over a
  healthy Redis connection, with any outcome of the pipeline that stores a session, of Kafka and of
  the compensating delete. Its invariant \<open>sess_ok\<close> says that every live session is in its owner's
  index, which lives at least as long, and that its hash is the hash of a refresh token issued for
  it; \<open>A\<close> restricts when.
\<close>

section \<open>Keys\<close>

lemmas key_defs = k_authSession_def k_otp_def k_registrationSession_def k_forgotPasswordSession_def
  k_passwordResetToken_def k_otpRate_def k_otpAttempts_def k_otpSession_def k_userSessions_def k_userProfile_def

definition sess_key :: "string \<Rightarrow> bool" where
  "sess_key k \<longleftrightarrow> (\<exists>i. k = k_authSession i \<or> k = k_userSessions i)"

lemma key_simps [simp]:
  "k_authSession i = k_authSession j \<longleftrightarrow> i = j" "k_userSessions i = k_userSessions j \<longleftrightarrow> i = j"
  "k_userProfile i = k_userProfile j \<longleftrightarrow> i = j"
  "k_authSession i \<noteq> k_userSessions j" "k_userSessions i \<noteq> k_authSession j"
  "sess_key (k_authSession i)" "sess_key (k_userSessions i)"
  "\<not> sess_key (k_otp i)" "\<not> sess_key (k_registrationSession i)" "\<not> sess_key (k_forgotPasswordSession i)"
  "\<not> sess_key (k_passwordResetToken i)" "\<not> sess_key (k_otpRate i)" "\<not> sess_key (k_otpAttempts i)"
  "\<not> sess_key (k_otpSession i)" "\<not> sess_key (k_userProfile i)"
  by (auto simp: sess_key_def key_defs)

lemma profile_keys [simp]:
  "k_userProfile i \<noteq> k_authSession j" "k_userProfile i \<noteq> k_userSessions j" "k_userProfile i \<noteq> k_otp j"
  "k_userProfile i \<noteq> k_registrationSession j" "k_userProfile i \<noteq> k_forgotPasswordSession j"
  "k_userProfile i \<noteq> k_passwordResetToken t" "k_userProfile i \<noteq> k_otpRate e" "k_userProfile i \<noteq> k_otpAttempts j"
  "k_userProfile i \<noteq> k_otpSession e" "k_authSession j \<noteq> k_userProfile i"
  by (simp_all add: key_defs)

section \<open>What a call leaves alone\<close>

named_theorems leaves_intros \<open>calls that leave a class of keys alone\<close>

definition leaves :: "(string \<Rightarrow> bool) \<Rightarrow> 'a acc \<Rightarrow> bool" where
  "leaves K m \<longleftrightarrow> (\<forall>s k. K k \<longrightarrow> ac_kv (snd (m s)) k = ac_kv s k)"

lemma leavesD: "leaves K m \<Longrightarrow> m s = (r, s') \<Longrightarrow> K k \<Longrightarrow> ac_kv s' k = ac_kv s k"
  unfolding leaves_def by (metis snd_conv)

lemma leaves_basic [leaves_intros]:
  "leaves K (return x)" "leaves K (throw err)" "leaves K (requireUser email)" "leaves K (publish pub e)"
  "leaves K (transaction (createUser u))" "leaves K (transaction (deleteUser i))" "leaves K (transaction (user_update i f))"
  by (auto simp: leaves_def return_def throw_def requireUser_def publish_def transaction_def createUser_def deleteUser_def
      user_update_def bindE_def Let_def split: option.splits sum.splits prod.splits)

lemma leaves_bind [leaves_intros]:
  assumes "leaves K m" and "\<And>x. leaves K (f x)" shows "leaves K (then_proc m f)"
  using assms by (auto simp: leaves_def then_proc_def split: prod.split sum.split) (metis snd_conv)+

lemma leaves_settled [leaves_intros]: "leaves K m \<Longrightarrow> leaves K (settled m)"
  by (simp add: leaves_def settled_def)

lemma kv_do_state [simp]:
  "ac_kv (snd (kv_do lk c s)) = snd (over_link lk c (ac_kv s))" "ac_users (snd (kv_do lk c s)) = ac_users s"
  by (simp_all add: kv_do_def split: prod.split)

lemma leaves_kv:
  assumes "\<And>st k. K k \<Longrightarrow> snd (c st) k = st k" shows "leaves K (kv_do lk c)"
  unfolding leaves_def
proof (intro allI impI)
  fix s :: account_db and k assume k: "K k"
  show "ac_kv (snd (kv_do lk c s)) k = ac_kv s k"
    using assms [OF k, of "ac_kv s"] by (cases lk) (simp_all add: over_link_def)
qed

lemma leaves_commands [leaves_intros]:
  "leaves K (kv_do lk (c_get now k))" "leaves K (kv_do lk (c_getText now k))" "leaves K (kv_do lk (c_ttl now k))"
  "leaves K (kv_do lk (c_smembers now k))"
  "\<not> K k \<Longrightarrow> leaves K (kv_do lk (c_set now k v ttl))" "\<not> K k \<Longrightarrow> leaves K (kv_do lk (c_incr now k))"
  "\<not> K k \<Longrightarrow> leaves K (kv_do lk (c_expire now k ttl))"
  "(\<And>k. k \<in> set ks \<Longrightarrow> \<not> K k) \<Longrightarrow> leaves K (kv_do lk (c_del ks))"
  by (intro leaves_kv; auto simp: c_get_def c_getText_def c_ttl_def c_smembers_def c_set_def redis_set_ex_def c_incr_def
      c_expire_def redis_expire_def c_del_def restrict_map_def split: option.splits rval.splits)+

lemma leaves_if [leaves_intros]: "(b \<Longrightarrow> leaves K x) \<Longrightarrow> (\<not> b \<Longrightarrow> leaves K y) \<Longrightarrow> leaves K (if b then x else y)"
  by simp

lemma leaves_option [leaves_intros]:
  "leaves K x \<Longrightarrow> (\<And>y. leaves K (f y)) \<Longrightarrow> leaves K (case v of None \<Rightarrow> x | Some y \<Rightarrow> f y)"
  by (cases v) simp_all

lemma leaves_publish [leaves_intros]:
  assumes "leaves K x" and "leaves K y"
  shows "leaves K (\<lambda>s. case publish pub e s of (Inr _, s2) \<Rightarrow> x s2 | (Inl _, s2) \<Rightarrow> y s2)"
  using assms by (cases pub) (auto simp: leaves_def publish_def Let_def split: prod.split)

lemma leaves_otp_calls:
  assumes "\<And>e. \<not> K (k_otpRate e)" and "\<And>i. \<not> K (k_otp i)" and "\<And>e. \<not> K (k_otpSession e)" and "\<And>i. \<not> K (k_otpAttempts i)"
    and "\<And>i. \<not> K (k_registrationSession i)" and "\<And>i. \<not> K (k_forgotPasswordSession i)" and "\<And>i. \<not> K (k_passwordResetToken i)"
  shows "leaves K (verifyOtp env l now sessionId otp)" "leaves K (sendOtp env l pub now u otp salt data)"
    "leaves K (forgotPassword env l pub now u otp salt1 email)" "leaves K (VerifyPasswordResetOtp env l now token sessionId otp)"
    "leaves K (getRegistrationSession lk now sessionId)" "leaves K (deleteRegistrationSession lk sessionId)"
    "leaves K (deleteOtpSession lk email)"
proof -
  have rate: "leaves K (otp_rate_limit l now email)" for l email
    unfolding otp_rate_limit_def using assms by (intro leaves_intros) auto
  have v: "leaves K (verifyOtp env l now sessionId otp)" for l sessionId
    unfolding verifyOtp_def using assms by (intro leaves_intros) auto
  have st: "leaves K (storeOtp env l now i sa email otp ttl)" "leaves K (replaceOtp env l now i sa email otp ttl)"
    for l i sa email ttl unfolding storeOtp_def replaceOtp_def using assms by (intro leaves_intros rate; auto)+
  have reg: "leaves K (storeRegistrationSession env lk now i d)" "leaves K (deleteRegistrationSession lk i)"
    "leaves K (deleteOtpSession lk e)" "leaves K (findExistingOtpSession lk now e)" for lk i d e
    unfolding storeRegistrationSession_def deleteRegistrationSession_def deleteOtpSession_def findExistingOtpSession_def
    using assms by (intro leaves_intros; auto)+
  show "leaves K (verifyOtp env l now sessionId otp)" by (rule v)
  show "leaves K (deleteRegistrationSession lk sessionId)" "leaves K (deleteOtpSession lk email)" by (rule reg)+
  have body: "leaves K (then_proc (findExistingOtpSession (l 0) now (rq_email data)) f)" if "\<And>x. leaves K (f x)" for f :: "ident option \<Rightarrow> ident acc"
    using that by (intro leaves_intros reg)
  show "leaves K (sendOtp env l pub now u otp salt data)"
    unfolding leaves_def
  proof (intro allI impI)
    fix s k assume "K k"
    then show "ac_kv (snd (sendOtp env l pub now u otp salt data s)) k = ac_kv s k"
      unfolding sendOtp_def Let_def
      by (cases "findUserByEmail (rq_email data) s", simp_all add: throw_def,
          intro leaves_def [THEN iffD1, rule_format, rotated]) (assumption, intro leaves_intros reg st)
  qed
  show "leaves K (forgotPassword env l pub now u otp salt1 email)"
    unfolding forgotPassword_def using assms by (intro leaves_intros reg st) auto
  show "leaves K (VerifyPasswordResetOtp env l now token sessionId otp)"
    unfolding VerifyPasswordResetOtp_def using assms by (intro leaves_intros reg v) auto
  show "leaves K (getRegistrationSession lk now sessionId)"
    unfolding getRegistrationSession_def using assms
    by (intro leaves_intros) (auto intro: leaves_intros split: rval.split)
qed

section \<open>The invariant\<close>

definition refreshed :: "account_env \<Rightarrow> time \<Rightarrow> ident \<Rightarrow> ident \<Rightarrow> string" where
  "refreshed env n userId sessionId = ae_sha256 env (generateRefreshToken env n userId sessionId)"

definition typed :: "kv \<Rightarrow> bool" where
  "typed st \<longleftrightarrow> (\<forall>i e. st (k_userSessions i) = Some e \<longrightarrow> (\<exists>ids. fst e = VIds ids))"

text \<open>The index entry of a session that expires at \<open>z\<close>.\<close>

definition in_index :: "kv \<Rightarrow> ident \<Rightarrow> ident \<Rightarrow> time \<Rightarrow> bool" where
  "in_index st i sid z \<longleftrightarrow> (\<exists>ids y. st (k_userSessions i) = Some (VIds ids, y) \<and> sid \<in> set ids \<and> (\<forall>w. y = Some w \<longrightarrow> z \<le> w))"

definition indexed :: "time \<Rightarrow> ident set \<Rightarrow> kv \<Rightarrow> bool" where
  "indexed t X st \<longleftrightarrow> (\<forall>sid r x. sid \<notin> X \<longrightarrow> st (k_authSession sid) = Some (VSession r, x) \<longrightarrow> live t (VSession r, x) \<longrightarrow>
     (\<exists>z. x = Some z \<and> z \<le> t + SESSION_TTL_SECONDS * 1000 \<and> in_index st (sn_userId r) sid z))"

definition issued :: "account_env \<Rightarrow> (ident \<Rightarrow> time \<Rightarrow> bool) \<Rightarrow> time \<Rightarrow> kv \<Rightarrow> bool" where
  "issued env A t st \<longleftrightarrow> (\<forall>sid r x. st (k_authSession sid) = Some (VSession r, x) \<longrightarrow>
     (\<exists>n \<le> t. A sid n \<and> sn_refreshTokenHash r = refreshed env n (sn_userId r) sid))"

definition sess_ok :: "account_env \<Rightarrow> (ident \<Rightarrow> time \<Rightarrow> bool) \<Rightarrow> time \<Rightarrow> ident set \<Rightarrow> kv \<Rightarrow> bool" where
  "sess_ok env A t X st \<longleftrightarrow> typed st \<and> indexed t X st \<and> issued env A t st"

lemma sess_ok_cong:
  assumes "sess_ok env A t X st" and "\<And>k. sess_key k \<Longrightarrow> st' k = st k" shows "sess_ok env A t X st'"
  using assms by (simp add: sess_ok_def typed_def indexed_def issued_def in_index_def)

lemma live_Some [simp]: "live t (v, Some z) \<longleftrightarrow> t < z" "live t (v, None)"
  by (simp_all add: live_def)

lemma sess_ok_later:
  assumes "sess_ok env A t X st" and "t \<le> t'" shows "sess_ok env A t' X st"
proof -
  have "indexed t' X st" using assms live_earlier [of t' _ t] unfolding sess_ok_def indexed_def by fastforce
  moreover have "issued env A t' st" using assms unfolding sess_ok_def issued_def by (meson order_trans)
  ultimately show ?thesis using assms(1) by (simp add: sess_ok_def)
qed

lemma sess_ok_weaken: "sess_ok env A t X st \<Longrightarrow> X \<subseteq> Y \<Longrightarrow> sess_ok env A t Y st"
  unfolding sess_ok_def indexed_def by blast

lemma in_index_live:
  assumes "in_index st i sid z" and "t < z"
  shows "\<exists>ids y. st (k_userSessions i) = Some (VIds ids, y) \<and> redis_get t (k_userSessions i) st = Some (VIds ids) \<and>
    sid \<in> set ids \<and> (\<forall>w. y = Some w \<longrightarrow> z \<le> w)"
  using assms by (force simp: in_index_def redis_get_def live_def split: option.split)

lemma in_index_upd [simp]:
  "in_index (st(k_userSessions i \<mapsto> (VIds ids, y))) i sid z \<longleftrightarrow> sid \<in> set ids \<and> (\<forall>w. y = Some w \<longrightarrow> z \<le> w)"
  by (simp add: in_index_def)

lemma sess_ok_set:
  assumes "sess_ok env A t X st" and "A sid n" "n \<le> t" and "sn_refreshTokenHash r = refreshed env n (sn_userId r) sid"
  shows "sess_ok env A t (insert sid X) (st(k_authSession sid \<mapsto> (VSession r, x)))"
  using assms by (auto simp: sess_ok_def typed_def indexed_def issued_def in_index_def)

text \<open>A change of an index that keeps what the sessions need.\<close>

lemma sess_ok_index:
  assumes ok: "sess_ok env A t X st" and other: "\<And>k. k \<noteq> k_userSessions i \<Longrightarrow> st' k = st k"
    and ids: "\<And>e. st' (k_userSessions i) = Some e \<Longrightarrow> \<exists>ids. fst e = VIds ids"
    and keep: "\<And>sid r z. sid \<notin> X \<Longrightarrow> st (k_authSession sid) = Some (VSession r, Some z) \<Longrightarrow> sn_userId r = i \<Longrightarrow> t < z \<Longrightarrow>
        z \<le> t + SESSION_TTL_SECONDS * 1000 \<Longrightarrow> in_index st i sid z \<Longrightarrow> in_index st' i sid z"
  shows "sess_ok env A t X st'"
proof -
  have "typed st'" using ok other ids unfolding sess_ok_def typed_def by (metis key_simps(2))
  moreover have "issued env A t st'" using ok other by (auto simp: sess_ok_def issued_def)
  moreover have "indexed t X st'"
    unfolding indexed_def
  proof (intro allI impI)
    fix sid r x assume a: "sid \<notin> X" "st' (k_authSession sid) = Some (VSession r, x)" "live t (VSession r, x)"
    then have s: "st (k_authSession sid) = Some (VSession r, x)" using other by simp
    then obtain z where z: "x = Some z" "z \<le> t + SESSION_TTL_SECONDS * 1000" "in_index st (sn_userId r) sid z"
      using ok a(1,3) unfolding sess_ok_def indexed_def by blast
    have "in_index st' (sn_userId r) sid z"
    proof (cases "sn_userId r = i")
      case True
      then show ?thesis using keep [of sid r z] a s z by auto
    next
      case False
      then show ?thesis using z(3) other [of "k_userSessions (sn_userId r)"] by (simp add: in_index_def)
    qed
    then show "\<exists>z. x = Some z \<and> z \<le> t + SESSION_TTL_SECONDS * 1000 \<and> in_index st' (sn_userId r) sid z" using z by blast
  qed
  ultimately show ?thesis by (simp add: sess_ok_def)
qed

lemma c_sadd_cases:
  assumes "typed st"
  shows "snd (c_sadd t (k_userSessions i) sid st) = (case redis_get t (k_userSessions i) st of
      Some (VIds ids) \<Rightarrow> st(k_userSessions i \<mapsto> (VIds (List.insert sid ids), snd (the (st (k_userSessions i)))))
    | _ \<Rightarrow> st(k_userSessions i \<mapsto> (VIds [sid], None)))"
  using assms by (auto simp: c_sadd_def typed_def redis_get_def split: option.splits rval.splits)

lemma sess_ok_sadd:
  assumes ok: "sess_ok env A t X st" shows "sess_ok env A t X (snd (c_sadd t (k_userSessions i) sid st))"
proof -
  have ty: "typed st" using ok by (simp add: sess_ok_def)
  show ?thesis
  proof (rule sess_ok_index [OF ok, of i])
    fix s r z assume "in_index st i s z" "t < z"
    then show "in_index (snd (c_sadd t (k_userSessions i) sid st)) i s z"
      using in_index_live [of st i s z t] by (auto simp: c_sadd_cases [OF ty])
  qed (auto simp: c_sadd_cases [OF ty] split: option.splits rval.splits)
qed

lemma sess_ok_expire:
  assumes ok: "sess_ok env A t X st"
  shows "sess_ok env A t X (redis_expire t (k_userSessions i) SESSION_TTL_SECONDS st)"
proof (rule sess_ok_index [OF ok, of i])
  show "\<exists>ids. fst e = VIds ids" if "redis_expire t (k_userSessions i) SESSION_TTL_SECONDS st (k_userSessions i) = Some e" for e
    using that ok unfolding sess_ok_def typed_def redis_expire_def
    by (auto split: option.splits if_splits simp: SESSION_TTL_SECONDS_def) metis+
qed (auto simp: redis_expire_def in_index_def SESSION_TTL_SECONDS_def split: option.splits)

lemma sess_ok_srem:
  assumes ok: "sess_ok env A t X st" and gone: "redis_get t (k_authSession sid) st = None"
  shows "sess_ok env A t X (snd (c_srem t (k_userSessions i) sid st))"
proof (rule sess_ok_index [OF ok, of i])
  fix s r z
  assume s: "st (k_authSession s) = Some (VSession r, Some z)" "t < z" "in_index st i s z"
  then have "s \<noteq> sid" using gone by (auto simp: redis_get_def)
  moreover obtain ids y where "st (k_userSessions i) = Some (VIds ids, y)" "redis_get t (k_userSessions i) st = Some (VIds ids)"
    "s \<in> set ids" "\<forall>w. y = Some w \<longrightarrow> z \<le> w" using in_index_live [OF s(3,2)] by blast
  moreover have "s \<in> set (removeAll sid ids)" using calculation(1,4) by simp
  then have "removeAll sid ids \<noteq> []" by (metis empty_iff empty_set)
  ultimately show "in_index (snd (c_srem t (k_userSessions i) sid st)) i s z" by (simp add: c_srem_def)
next
  have "\<exists>ids. fst e = VIds ids" if "st (k_userSessions i) = Some e" for e
    using that ok unfolding sess_ok_def typed_def by blast
  then show "\<exists>ids. fst e = VIds ids" if "snd (c_srem t (k_userSessions i) sid st) (k_userSessions i) = Some e" for e
    using that by (fastforce simp: c_srem_def split: option.splits rval.splits if_splits)
qed (auto simp: c_srem_def split: option.split rval.split)

lemma sess_ok_del:
  assumes "sess_ok env A t (insert sid X) st"
  shows "sess_ok env A t X (st |` (- {k_authSession sid}))"
  using assms by (auto simp: sess_ok_def typed_def indexed_def issued_def in_index_def restrict_map_def)

section \<open>Calls over a healthy connection\<close>

definition on :: "nat \<Rightarrow> link" where "on k = Reply"

lemma on_simps [simp]: "on k = Reply" "from_link n on = on"
  by (auto simp: on_def from_link_def)

lemma kv_do_on [simp]: "kv_do Reply c s = (fst (c (ac_kv s)), s\<lparr>ac_kv := snd (c (ac_kv s))\<rparr>)"
  by (simp add: kv_do_def over_link_def case_prod_unfold)

lemmas call_simps = then_proc_def return_def throw_def settled_def c_get_def c_getText_def c_del_def c_smembers_def
  c_expire_def c_set_def redis_set_ex_def SESSION_TTL_SECONDS_def

lemma logoutAll_on:
  "logoutAll on now i s = (Inr (), s\<lparr>ac_kv := ac_kv s |`
     (- (k_authSession ` set (ids_of (redis_get now (k_userSessions i) (ac_kv s))) \<union> {k_userSessions i}))\<rparr>)"
  by (simp add: logoutAll_def call_simps) (auto intro!: arg_cong [where f = "\<lambda>A. s\<lparr>ac_kv := ac_kv s |` A\<rparr>"])

lemma redis_get_restrict: "redis_get t k (st |` A) = (if k \<in> A then redis_get t k st else None)"
  by (simp add: redis_get_def)

lemma logout_on:
  "ac_kv (snd (logout on now sid i s)) = snd (c_srem now (k_userSessions i) sid (ac_kv s |` (- {k_authSession sid})))"
  by (simp add: logout_def call_simps)

lemma sess_ok_revoke:
  assumes "sess_ok env A t X st"
  shows "sess_ok env A t (X - {sid}) (snd (c_srem t (k_userSessions i) sid (st |` (- {k_authSession sid}))))"
proof -
  have "sess_ok env A t (X - {sid}) (st |` (- {k_authSession sid}))"
    by (rule sess_ok_del [OF sess_ok_weaken [OF assms]]) auto
  then show ?thesis by (rule sess_ok_srem) (simp add: redis_get_restrict)
qed

lemma sess_ok_logout:
  assumes "sess_ok env A t {} (ac_kv s)" shows "sess_ok env A t {} (ac_kv (snd (logout on t sid i s)))"
  using sess_ok_revoke [OF assms] unfolding logout_on by simp

text \<open>After \<open>logoutAll\<close> the user has no live session.\<close>

lemma logoutAll_revokes:
  assumes ok: "sess_ok env A t {} (ac_kv s)" and "t \<le> u"
    and "redis_get u (k_authSession sid) (ac_kv (snd (logoutAll on t i s))) = Some (VSession r)"
  shows "sn_userId r \<noteq> i"
proof
  assume i: "sn_userId r = i"
  have g: "redis_get u (k_authSession sid) (ac_kv s) = Some (VSession r)"
    "sid \<notin> set (ids_of (redis_get t (k_userSessions i) (ac_kv s)))"
    using assms(3) by (auto simp: logoutAll_on redis_get_restrict split: if_splits)
  from g(1) obtain x where x: "ac_kv s (k_authSession sid) = Some (VSession r, x)" "live u (VSession r, x)"
    by (auto simp: redis_get_def split: option.splits if_splits)
  then have l: "live t (VSession r, x)" using live_earlier assms(2) by blast
  then obtain z where "x = Some z" "in_index (ac_kv s) i sid z"
    using ok x(1) i unfolding sess_ok_def indexed_def by blast
  then show False using in_index_live [of "ac_kv s" i sid z t] l g(2) by (auto simp: ids_of_def)
qed

lemma sess_ok_logoutAll:
  assumes ok: "sess_ok env A t {} (ac_kv s)"
  shows "sess_ok env A t {} (ac_kv (snd (logoutAll on t i s)))"
proof -
  let ?st = "ac_kv (snd (logoutAll on t i s))"
  have "indexed t {} ?st"
    unfolding indexed_def
  proof (intro allI impI)
    fix sid r x assume a: "?st (k_authSession sid) = Some (VSession r, x)" "live t (VSession r, x)"
    then have "redis_get t (k_authSession sid) ?st = Some (VSession r)" by (simp add: redis_get_def)
    then have "sn_userId r \<noteq> i" using logoutAll_revokes [OF ok order_refl] by blast
    moreover obtain z where "x = Some z" "z \<le> t + SESSION_TTL_SECONDS * 1000" "in_index (ac_kv s) (sn_userId r) sid z"
      using ok a unfolding sess_ok_def indexed_def
      by (auto simp: logoutAll_on restrict_map_def split: if_splits) blast
    ultimately show "\<exists>z. x = Some z \<and> z \<le> t + SESSION_TTL_SECONDS * 1000 \<and> in_index ?st (sn_userId r) sid z"
      by (auto simp: in_index_def logoutAll_on restrict_map_def)
  qed
  then show ?thesis using ok by (auto simp: sess_ok_def typed_def issued_def logoutAll_on restrict_map_def split: if_splits)
qed

lemma sess_ok_discharge:
  assumes "sess_ok env A t {sid} st" and "st (k_authSession sid) = Some (VSession r, Some z)"
    and "z \<le> t + SESSION_TTL_SECONDS * 1000" and "in_index st (sn_userId r) sid z"
  shows "sess_ok env A t {} st"
proof -
  have "indexed t {} st"
    unfolding indexed_def
  proof (intro allI impI)
    fix i r' x assume a: "st (k_authSession i) = Some (VSession r', x)" "live t (VSession r', x)"
    show "\<exists>z. x = Some z \<and> z \<le> t + SESSION_TTL_SECONDS * 1000 \<and> in_index st (sn_userId r') i z"
    proof (cases "i = sid")
      case True
      then have "r' = r" "x = Some z" using a(1) assms(2) by simp_all
      then show ?thesis using True assms(3,4) by blast
    next
      case False
      then show ?thesis using a assms(1) unfolding sess_ok_def indexed_def by blast
    qed
  qed
  then show ?thesis using assms(1) by (simp add: sess_ok_def)
qed

lemma sess_ok_touch:
  assumes ok: "sess_ok env A t {} st" and ses: "redis_get t (k_authSession sid) st = Some (VSession r)"
    and r': "sn_userId r' = sn_userId r" and n: "A sid n" "n \<le> t" "sn_refreshTokenHash r' = refreshed env n (sn_userId r) sid"
  shows "sess_ok env A t {} (redis_expire t (k_userSessions (sn_userId r)) SESSION_TTL_SECONDS
      (st(k_authSession sid \<mapsto> (VSession r', Some (t + SESSION_TTL_SECONDS * 1000)))))"
    (is "sess_ok env A t {} (redis_expire t ?k ?ttl ?st)")
proof -
  have "sess_ok env A t {sid} ?st" using sess_ok_set [OF ok n(1,2)] n(3) r' by simp
  then have e: "sess_ok env A t {sid} (redis_expire t ?k ?ttl ?st)" by (rule sess_ok_expire)
  from ses obtain x where x: "st (k_authSession sid) = Some (VSession r, x)" "live t (VSession r, x)"
    by (auto simp: redis_get_def split: option.splits if_splits)
  then obtain z where z: "x = Some z" "in_index st (sn_userId r) sid z" using ok unfolding sess_ok_def indexed_def by blast
  then have "in_index (redis_expire t ?k ?ttl ?st) (sn_userId r) sid (t + ?ttl * 1000)"
    using x(2) by (auto simp: in_index_def redis_expire_def live_def SESSION_TTL_SECONDS_def split: option.splits)
  then show ?thesis using e r'
    by (intro sess_ok_discharge [of _ _ _ sid _ r']) (simp_all add: redis_expire_def split: option.split)
qed

lemma sess_ok_multi:
  assumes ok: "sess_ok env A t {} st" and n: "A sid n" "n \<le> t" "sn_refreshTokenHash r = refreshed env n i sid" and i: "sn_userId r = i"
  shows "sess_ok env A t {sid} (session_multi t sid i r e1 e2 e3 st)"
    "sess_ok env A t {} (session_multi t sid i r False False False st)"
proof -
  have s0: "snd (c_set t (k_authSession sid) (VSession r) SESSION_TTL_SECONDS st) =
      st(k_authSession sid \<mapsto> (VSession r, Some (t + SESSION_TTL_SECONDS * 1000)))"
    by (simp add: call_simps)
  have w: "sess_ok env A t {sid} st" using ok sess_ok_weaken by blast
  have s1: "sess_ok env A t {sid} (snd (c_set t (k_authSession sid) (VSession r) SESSION_TTL_SECONDS st))"
    unfolding s0 using sess_ok_set [OF ok n(1,2)] n(3) i by simp
  have s3: "sess_ok env A t {sid} (snd (c_expire t (k_userSessions i) SESSION_TTL_SECONDS st'))"
    if "sess_ok env A t {sid} st'" for st' using sess_ok_expire [OF that] by (simp add: c_expire_def)
  show all: "sess_ok env A t {sid} (session_multi t sid i r e1 e2 e3 st)" for e1 e2 e3
    unfolding session_multi_def Let_def using w s1 s3 sess_ok_sadd by simp
  let ?f = "session_multi t sid i r False False False st"
  have ty: "typed (st(k_authSession sid \<mapsto> (VSession r, Some (t + SESSION_TTL_SECONDS * 1000))))"
    using s1 by (simp add: s0 sess_ok_def)
  have "in_index ?f i sid (t + SESSION_TTL_SECONDS * 1000)"
    unfolding session_multi_def Let_def s0 using ty
    by (simp add: c_sadd_cases c_expire_def redis_expire_def live_def redis_get_def SESSION_TTL_SECONDS_def
        split: option.splits rval.splits if_splits)
  moreover have "?f (k_authSession sid) = Some (VSession r, Some (t + SESSION_TTL_SECONDS * 1000))"
    unfolding session_multi_def Let_def s0 using ty
    by (auto simp: c_sadd_cases c_expire_def redis_expire_def split: option.splits rval.splits)
  ultimately show "sess_ok env A t {} ?f" using all [of False False False] i
    by (intro sess_ok_discharge [of _ _ _ sid _ r]) simp_all
qed

section \<open>What a call keeps\<close>

named_theorems keeps_intros \<open>calls that keep a property of Redis\<close>

definition keeps :: "(kv \<Rightarrow> bool) \<Rightarrow> 'a acc \<Rightarrow> bool" where
  "keeps P m \<longleftrightarrow> (\<forall>s. P (ac_kv s) \<longrightarrow> P (ac_kv (snd (m s))))"

lemma keepsD: "keeps P m \<Longrightarrow> P (ac_kv s) \<Longrightarrow> P (ac_kv (snd (m s)))"
  by (simp add: keeps_def)

lemma keeps_bind [keeps_intros]:
  assumes "keeps P m" and "\<And>x. keeps P (f x)" shows "keeps P (then_proc m f)"
  using assms unfolding keeps_def then_proc_def by (simp split: prod.split sum.split) (metis snd_conv)

lemma keeps_settled [keeps_intros]: "keeps P m \<Longrightarrow> keeps P (settled m)"
  by (simp add: keeps_def settled_def)

lemma keeps_sess: "leaves sess_key m \<Longrightarrow> keeps (sess_ok env A t X) m"
  unfolding keeps_def leaves_def using sess_ok_cong by blast

lemma keeps_if [keeps_intros]: "(b \<Longrightarrow> keeps P x) \<Longrightarrow> (\<not> b \<Longrightarrow> keeps P y) \<Longrightarrow> keeps P (if b then x else y)"
  by simp

lemma keeps_option [keeps_intros]:
  "keeps P x \<Longrightarrow> (\<And>y. keeps P (f y)) \<Longrightarrow> keeps P (case v of None \<Rightarrow> x | Some y \<Rightarrow> f y)"
  by (cases v) simp_all

abbreviation keeps_sessions :: "account_env \<Rightarrow> (ident \<Rightarrow> time \<Rightarrow> bool) \<Rightarrow> time \<Rightarrow> 'a acc \<Rightarrow> bool" where
  "keeps_sessions env A t m \<equiv> keeps (sess_ok env A t {}) m"

lemma keeps_create:
  assumes "A sid t"
  shows "keeps_sessions env A t (createAuthSession env on x t i sid (generateRefreshToken env t i sid) fp ip ua)"
  unfolding keeps_def
proof (intro allI impI)
  fix s :: account_db assume ok: "sess_ok env A t {} (ac_kv s)"
  let ?r = "new_session env t i (generateRefreshToken env t i sid) fp ip ua"
  have r: "sn_refreshTokenHash ?r = refreshed env t i sid" "sn_userId ?r = i" by (simp_all add: new_session_def refreshed_def)
  note m = sess_ok_multi [OF ok assms order_refl r]
  have undo: "sess_ok env A t {} (snd (c_srem t (k_userSessions i) sid (session_multi t sid i ?r e1 e2 e3 (ac_kv s) |` (- {k_authSession sid}))))"
    for e1 e2 e3 using sess_ok_revoke [OF m(1), of sid i] by simp
  show "sess_ok env A t {} (ac_kv (snd (createAuthSession env on x t i sid (generateRefreshToken env t i sid) fp ip ua s)))"
    using ok m(2) undo by (cases x) (simp_all add: createAuthSession_def Let_def call_simps)
qed

lemma keeps_register:
  assumes "A sid t"
  shows "keeps_sessions env A t (registerUser env on x delErr t i reg sid fp ip ua)"
  unfolding registerUser_def
proof (rule keeps_bind)
  show "keeps_sessions env A t (transaction (createUser u))" for u by (intro keeps_sess leaves_intros)
  fix user :: User
  let ?c = "createAuthSession env on x t (us_id user) sid (generateRefreshToken env t (us_id user) sid) fp ip ua"
  have del: "keeps_sessions env A t (then_proc (settled (case delErr of None \<Rightarrow> transaction (deleteUser (us_id user)) | Some e \<Rightarrow> throw e))
      (\<lambda>_. throw err) :: AuthResponseDto acc)" for err :: exn
    by (intro keeps_sess leaves_intros)
  show "keeps_sessions env A t (\<lambda>s1. let accessToken = generateAccessToken env t (us_id user) sid (us_email user);
        refreshToken = generateRefreshToken env t (us_id user) sid
      in case createAuthSession env on x t (us_id user) sid refreshToken fp ip ua s1 of
           (Inr _, s2) \<Rightarrow> return (toAuthResponseDto user accessToken refreshToken) s2
         | (Inl err, s2) \<Rightarrow> then_proc (settled (case delErr of None \<Rightarrow> transaction (deleteUser (us_id user)) | Some e \<Rightarrow> throw e))
             (\<lambda>_. throw err) s2)"
    unfolding keeps_def Let_def
  proof (intro allI impI)
    fix s :: account_db assume "sess_ok env A t {} (ac_kv s)"
    then have "sess_ok env A t {} (ac_kv (snd (?c s)))" using keepsD [OF keeps_create [where A = A, OF assms]] by blast
    then show "sess_ok env A t {} (ac_kv (snd (case ?c s of
           (Inr _, s2) \<Rightarrow> return (toAuthResponseDto user (generateAccessToken env t (us_id user) sid (us_email user))
              (generateRefreshToken env t (us_id user) sid)) s2
         | (Inl err, s2) \<Rightarrow> then_proc (settled (case delErr of None \<Rightarrow> transaction (deleteUser (us_id user)) | Some e \<Rightarrow> throw e))
             (\<lambda>_. throw err) s2)))"
      using keepsD [OF del] by (auto split: prod.split sum.split simp: return_def)
  qed
qed

lemmas leaves_otp = leaves_otp_calls [of sess_key, simplified]

lemma keeps_verifyAndRegister:
  assumes "A sid t"
  shows "keeps_sessions env A t (verifyAndRegister env on x delErr t i sid otp fp ip ua)"
  unfolding verifyAndRegister_def on_simps(2)
  by (intro keeps_bind keeps_option keeps_register [where A = A, OF assms])
    (intro keeps_sess leaves_otp leaves_intros)+

lemma keeps_login:
  assumes "A (u 0) t"
  shows "keeps_sessions env A t (login env on x pub t u email password fp ip ua)"
  unfolding login_def Let_def
  by (intro keeps_intros keeps_create assms) (intro keeps_sess leaves_intros)+

lemma keeps_logout: "keeps_sessions env A t (logout on t sid i)"
  unfolding keeps_def using sess_ok_logout by blast

lemma keeps_logoutAll: "keeps_sessions env A t (logoutAll on t i)"
  unfolding keeps_def using sess_ok_logoutAll by blast

lemma keeps_reset: "keeps_sessions env A t (resetPassword env on t salt token password)"
  unfolding resetPassword_def on_simps(2)
  by (intro keeps_intros keeps_logoutAll) (intro keeps_sess leaves_intros; simp)+

lemma keeps_logouts:
  "keeps_sessions env A t (logoutByRefreshToken env on t token)" "keeps_sessions env A t (logoutAllByRefreshToken env on t token)"
  unfolding logoutByRefreshToken_def logoutAllByRefreshToken_def
  by (intro keeps_intros keeps_logout keeps_logoutAll; intro keeps_sess leaves_intros)+

lemma keeps_fetch: "keeps_sessions env A t (fetch_sessions on t (k_userSessions i) k ids)"
proof (induction ids arbitrary: k)
  case Nil
  show ?case by (simp add: keeps_def)
next
  case (Cons sid ids)
  have step: "keeps_sessions env A t (fetch_session on t (k_userSessions i) k sid)"
    unfolding keeps_def fetch_session_def
    by (auto simp: call_simps intro: sess_ok_srem split: option.split rval.split)
  show ?case
    unfolding keeps_def
  proof (intro allI impI)
    fix s :: account_db assume "sess_ok env A t {} (ac_kv s)"
    from keepsD [OF Cons.IH keepsD [OF step this]]
    show "sess_ok env A t {} (ac_kv (snd (fetch_sessions on t (k_userSessions i) k (sid # ids) s)))"
      by (simp add: case_prod_unfold del: on_simps)
  qed
qed

lemma keeps_getSessions: "keeps_sessions env A t (getSessions on t i)"
  unfolding getSessions_def by (intro keeps_bind keeps_fetch) (intro keeps_sess leaves_intros)

lemma revokeSession_kv:
  "ac_kv (snd (revokeSession on t sid i s)) = ac_kv s \<or>
   ac_kv (snd (revokeSession on t sid i s)) = snd (c_srem t (k_userSessions i) sid (ac_kv s |` (- {k_authSession sid})))"
  by (auto simp: revokeSession_def call_simps split: option.split rval.split)

lemma keeps_revokeSession: "keeps_sessions env A t (revokeSession on t sid i)"
  unfolding keeps_def
proof (intro allI impI)
  fix s :: account_db assume ok: "sess_ok env A t {} (ac_kv s)"
  show "sess_ok env A t {} (ac_kv (snd (revokeSession on t sid i s)))"
    using revokeSession_kv [of t sid i s] sess_ok_revoke [OF ok, of sid i] ok by (elim disjE) simp_all
qed

text \<open>The session a request carries belongs to its user: the gateway forwards the claims of a verified
  access token, and a token names the user of its session.\<close>

lemma middleware_kv:
  "ac_kv (snd (sessionMiddleware on t i sid s)) = ac_kv s \<or>
   (\<exists>j r. sid = Some j \<and> redis_get t (k_authSession j) (ac_kv s) = Some (VSession r) \<and>
     ac_kv (snd (sessionMiddleware on t i sid s)) = redis_expire t (k_userSessions i) SESSION_TTL_SECONDS
       ((ac_kv s)(k_authSession j \<mapsto> (VSession (r\<lparr>sn_lastUsedAt := t\<rparr>), Some (t + SESSION_TTL_SECONDS * 1000)))))"
  by (auto simp: sessionMiddleware_def refreshes_def call_simps split: option.split rval.split)

lemma middleware_ok:
  assumes ok: "sess_ok env A t {} (ac_kv s)"
    and own: "\<And>j r. sid = Some j \<Longrightarrow> redis_get t (k_authSession j) (ac_kv s) = Some (VSession r) \<Longrightarrow> sn_userId r = i"
  shows "sess_ok env A t {} (ac_kv (snd (sessionMiddleware on t i sid s)))"
  using middleware_kv [of t i sid s]
proof (elim disjE exE conjE)
  fix j r
  assume m: "sid = Some j" "redis_get t (k_authSession j) (ac_kv s) = Some (VSession r)"
    "ac_kv (snd (sessionMiddleware on t i sid s)) = redis_expire t (k_userSessions i) SESSION_TTL_SECONDS
       ((ac_kv s)(k_authSession j \<mapsto> (VSession (r\<lparr>sn_lastUsedAt := t\<rparr>), Some (t + SESSION_TTL_SECONDS * 1000))))"
  obtain x where "ac_kv s (k_authSession j) = Some (VSession r, x)"
    using m(2) by (auto simp: redis_get_def split: option.splits if_splits)
  then obtain n where "A j n" "n \<le> t" "sn_refreshTokenHash r = refreshed env n (sn_userId r) j"
    using ok unfolding sess_ok_def issued_def by blast
  then show ?thesis using sess_ok_touch [OF ok m(2), of "r\<lparr>sn_lastUsedAt := t\<rparr>" n] own [OF m(1,2)] m(3) by simp
qed (use ok in simp)

text \<open>Assumptions on the cryptography: refresh tokens that differ in user, session or second of issue
  differ, a verified refresh token has the claims it was signed with, SHA-256 has no collisions.\<close>

definition tokens_ok :: "account_env \<Rightarrow> bool" where
  "tokens_ok env \<longleftrightarrow>
     (\<forall>n n' i i' sid sid'. generateRefreshToken env n i sid = generateRefreshToken env n' i' sid' \<longrightarrow>
        n div 1000 = n' div 1000 \<and> i = i' \<and> sid = sid') \<and>
     (\<forall>m n i sid c. ae_verify env m (generateRefreshToken env n i sid) = Some c \<longrightarrow> jc_sub c = i \<and> jc_sessionId c = Some sid) \<and>
     inj (ae_sha256 env)"

lemma tokens_same:
  "tokens_ok env \<Longrightarrow> generateRefreshToken env n i sid = generateRefreshToken env n' i' sid' \<Longrightarrow>
    n div 1000 = n' div 1000 \<and> i = i' \<and> sid = sid'"
  unfolding tokens_ok_def by blast

lemma tokens_verify:
  "tokens_ok env \<Longrightarrow> ae_verify env m (generateRefreshToken env n i sid) = Some c \<Longrightarrow> jc_sub c = i \<and> jc_sessionId c = Some sid"
  unfolding tokens_ok_def by blast

lemma tokens_hash: "tokens_ok env \<Longrightarrow> ae_sha256 env x = ae_sha256 env y \<longleftrightarrow> x = y"
  unfolding tokens_ok_def by (blast dest: injD)

text \<open>What a refresh does to a session it finds.\<close>

lemma rotate_kv:
  assumes u: "user_findById (sn_userId r) s \<noteq> None" and "sn_fingerprint r = fp" and "sn_refreshTokenHash r = ae_sha256 env tok"
  shows "\<exists>user. user_findById (sn_userId r) s = Some user \<and> us_id user = sn_userId r \<and>
    rotate env on t tok fp i sid r s =
      (Inr (toAuthResponseDto user (generateAccessToken env t (us_id user) sid (us_email user)) (generateRefreshToken env t (sn_userId r) sid)),
       s\<lparr>ac_kv := redis_expire t (k_userSessions i) SESSION_TTL_SECONDS ((ac_kv s)(k_authSession sid \<mapsto>
         (VSession (r\<lparr>sn_refreshTokenHash := refreshed env t (sn_userId r) sid, sn_lastUsedAt := t\<rparr>), Some (t + SESSION_TTL_SECONDS * 1000))))\<rparr>)"
proof -
  obtain user where user: "user_findById (sn_userId r) s = Some user" using u by blast
  then have "us_id user = sn_userId r" by (auto simp: user_findById_def dest: find_row_Some)
  with user show ?thesis using assms(2,3)
    by (auto simp: rotate_def call_simps refreshed_def Let_def)
qed

lemma rotate_ok:
  assumes ok: "sess_ok env A t {} (ac_kv s)" and tok: "tokens_ok env" and A: "A sid t"
    and ses: "redis_get t (k_authSession sid) (ac_kv s) = Some (VSession r)"
    and v: "ae_verify env m token = Some c" "jc_sub c = i" "jc_sessionId c = Some sid"
  shows "sess_ok env A t {} (ac_kv (snd (rotate env on t token fp i sid r s)))"
proof -
  consider (print) "sn_fingerprint r \<noteq> fp" | (hash) "sn_fingerprint r = fp" "sn_refreshTokenHash r \<noteq> ae_sha256 env token"
    | (nouser) "sn_fingerprint r = fp" "sn_refreshTokenHash r = ae_sha256 env token" "user_findById (sn_userId r) s = None"
    | (good) "sn_fingerprint r = fp" "sn_refreshTokenHash r = ae_sha256 env token" "user_findById (sn_userId r) s \<noteq> None"
    by blast
  then show ?thesis
  proof cases
    case print
    have "keeps_sessions env A t (then_proc (logout on t sid i) (\<lambda>_. throw (ApiError 401 ''DEVICE_FINGERPRINT_MISMATCH'')))"
      by (intro keeps_bind keeps_logout keeps_sess leaves_intros)
    with print show ?thesis using keepsD [where P = "sess_ok env A t {}", OF _ ok] by (simp add: rotate_def)
  next
    case hash
    have "keeps_sessions env A t (then_proc (logoutAll on t i) (\<lambda>_. throw (ApiError 401 ''INVALID_REFRESH_TOKEN'')))"
      by (intro keeps_bind keeps_logoutAll keeps_sess leaves_intros)
    with hash show ?thesis using keepsD [where P = "sess_ok env A t {}", OF _ ok] by (simp add: rotate_def)
  next
    case nouser
    with ok show ?thesis by (simp add: rotate_def throw_def)
  next
    case good
    obtain x where "ac_kv s (k_authSession sid) = Some (VSession r, x)"
      using ses by (auto simp: redis_get_def split: option.splits if_splits)
    then obtain n where "sn_refreshTokenHash r = refreshed env n (sn_userId r) sid"
      using ok unfolding sess_ok_def issued_def by blast
    with good(2) have "token = generateRefreshToken env n (sn_userId r) sid"
      using tokens_hash [OF tok] by (simp add: refreshed_def)
    with tokens_verify [OF tok] v(1,2) have "i = sn_userId r" by blast
    moreover have "ac_kv (snd (rotate env on t token fp i sid r s)) = redis_expire t (k_userSessions i) SESSION_TTL_SECONDS
        ((ac_kv s)(k_authSession sid \<mapsto> (VSession (r\<lparr>sn_refreshTokenHash := refreshed env t (sn_userId r) sid, sn_lastUsedAt := t\<rparr>),
          Some (t + SESSION_TTL_SECONDS * 1000))))"
      using rotate_kv [OF good(3,1,2), of t i sid] by (elim exE conjE) simp
    ultimately show ?thesis
      using sess_ok_touch [OF ok ses _ A order_refl, of "r\<lparr>sn_refreshTokenHash := refreshed env t (sn_userId r) sid, sn_lastUsedAt := t\<rparr>"] by simp
  qed
qed

text \<open>\<open>refresh\<close> is a refusal without effect, or the treatment of the session it found.\<close>

lemma typed_get:
  "typed st \<Longrightarrow> redis_get t (k_userSessions i) (st |` A) = Some v \<Longrightarrow> \<exists>ids. v = VIds ids"
  unfolding typed_def redis_get_def restrict_map_def by (auto split: option.splits if_splits) force

lemma refresh_cases:
  assumes "typed (ac_kv s)"
  shows "(\<exists>code. refresh env on t token fp s = (Inl (ApiError 401 code), s)) \<or>
   (\<exists>c sid r. verifyRefreshToken env t token = Some c \<and> jc_sessionId c = Some sid \<and> sid \<noteq> [] \<and>
      redis_get t (k_authSession sid) (ac_kv s) = Some (VSession r) \<and>
      refresh env on t token fp s = rotate env on t token fp (jc_sub c) sid r s)"
proof -
  have api: "(case rotate env on t token fp i sid r s of (Inr x, s') \<Rightarrow> (Inr x, s')
      | (Inl (ApiError st code), s') \<Rightarrow> (Inl (ApiError st code), s')
      | (Inl _, s') \<Rightarrow> (Inl (ApiError 401 ''INVALID_REFRESH_TOKEN''), s')) = rotate env on t token fp i sid r s" for i sid r
    by (auto simp: rotate_def call_simps logoutAll_on logout_def c_srem_def Let_def split: option.split rval.split
        dest!: typed_get [OF assms])
  show ?thesis
    unfolding refresh_def Let_def
    by (auto simp: call_simps api split: option.split rval.split)
qed

lemma refresh_found:
  assumes "typed (ac_kv s)" and "verifyRefreshToken env t token = Some c" and "jc_sessionId c = Some sid" and "sid \<noteq> []"
    and "redis_get t (k_authSession sid) (ac_kv s) = Some (VSession r)"
  shows "refresh env on t token fp s = rotate env on t token fp (jc_sub c) sid r s"
  using refresh_cases [OF assms(1), of env t token fp] assms
  by (auto simp: refresh_def call_simps rotate_def logoutAll_on logout_def c_srem_def Let_def
      split: option.split rval.split dest!: typed_get [OF assms(1)])

lemma refresh_ok:
  assumes ok: "sess_ok env A t {} (ac_kv s)" and tok: "tokens_ok env" and A: "\<And>sid. A sid t"
  shows "sess_ok env A t {} (ac_kv (snd (refresh env on t token fp s)))"
  using refresh_cases [OF conjunct1 [OF ok [unfolded sess_ok_def]], of env t token fp]
proof (elim disjE exE conjE)
  fix c sid r
  assume v: "verifyRefreshToken env t token = Some c" "jc_sessionId c = Some sid"
    and r: "redis_get t (k_authSession sid) (ac_kv s) = Some (VSession r)"
      "refresh env on t token fp s = rotate env on t token fp (jc_sub c) sid r s"
  have "ae_verify env (t div 1000) token = Some c"
    using v(1) by (auto simp: verifyRefreshToken_def split: option.splits if_splits)
  then show ?thesis using rotate_ok [OF ok tok A r(1) _ refl v(2)] r(2) by simp
qed (use ok in simp)

end
