(* ===== verification/Registration.thy ===== *)
theory Registration
  imports Sessions
begin

text \<open>
  One-time passwords and registration: what a registration leaves in the table of users whatever
  fails, and how many guesses a one-time password stands.
\<close>

section \<open>Calls that leave the users alone\<close>

named_theorems users_intros \<open>calls that leave the table of users alone\<close>

definition same_users :: "'a acc \<Rightarrow> bool" where
  "same_users m \<longleftrightarrow> (\<forall>s. ac_users (snd (m s)) = ac_users s)"

lemma same_usersD: "same_users m \<Longrightarrow> m s = (r, s') \<Longrightarrow> ac_users s' = ac_users s"
  unfolding same_users_def by (metis snd_conv)

lemma same_users_basic [users_intros]:
  "same_users (return x)" "same_users (throw err)" "same_users (requireUser email)" "same_users (publish pub e)"
  "same_users (kv_do lk c)"
  by (auto simp: same_users_def return_def throw_def requireUser_def publish_def Let_def split: option.splits prod.splits)

lemma same_users_bind [users_intros]:
  assumes "same_users m" and "\<And>x. same_users (f x)" shows "same_users (then_proc m f)"
  using assms by (auto simp: same_users_def then_proc_def split: prod.split sum.split) (metis snd_conv)+

lemma same_users_settled [users_intros]: "same_users m \<Longrightarrow> same_users (settled m)"
  by (simp add: same_users_def settled_def)

lemma same_users_if [users_intros]: "(b \<Longrightarrow> same_users x) \<Longrightarrow> (\<not> b \<Longrightarrow> same_users y) \<Longrightarrow> same_users (if b then x else y)"
  by simp

lemma same_users_option [users_intros]:
  "same_users x \<Longrightarrow> (\<And>y. same_users (f y)) \<Longrightarrow> same_users (case v of None \<Rightarrow> x | Some y \<Rightarrow> f y)"
  by (cases v) simp_all

lemma same_users_rval [users_intros]:
  assumes "\<And>x. same_users (a x)" "\<And>x. same_users (b x)" "\<And>x. same_users (c x)" "\<And>x. same_users (d x)" "\<And>x. same_users (e x)"
    "\<And>x. same_users (f x)"
  shows "same_users (case v of VText x \<Rightarrow> a x | VCount x \<Rightarrow> b x | VIds x \<Rightarrow> c x | VSession x \<Rightarrow> d x | VRegistration x \<Rightarrow> e x | VProfile x \<Rightarrow> f x)"
  using assms by (cases v) simp_all

lemma same_users_otp [users_intros]:
  "same_users (verifyOtp env l now sid otp)" "same_users (getRegistrationSession lk now sid)"
  "same_users (deleteRegistrationSession lk sid)" "same_users (deleteOtpSession lk email)"
  "same_users (storeRegistrationSession env lk now sid d)" "same_users (findExistingOtpSession lk now email)"
  "same_users (otp_rate_limit l now email)"
  unfolding verifyOtp_def getRegistrationSession_def deleteRegistrationSession_def deleteOtpSession_def
    storeRegistrationSession_def findExistingOtpSession_def otp_rate_limit_def
  by (intro users_intros)+

lemma same_users_otp_store [users_intros]:
  "same_users (storeOtp env l now sid salt email otp ttl)" "same_users (replaceOtp env l now sid salt email otp ttl)"
  unfolding storeOtp_def replaceOtp_def by (intro users_intros)+

lemma same_users_logout [users_intros]:
  "same_users (logout l now sid i)" "same_users (logoutAll l now i)"
  unfolding logout_def logoutAll_def by (intro users_intros)+

lemma same_users_create [users_intros]: "same_users (createAuthSession env l x now i sid token fp ip ua)"
proof (cases x)
  case (ExecDone e1 e2 e3)
  have u: "same_users (then_proc (settled (kv_do (l 0) (c_del [k_authSession sid]))) (\<lambda>_.
      then_proc (settled (kv_do (l 1) (c_srem now (k_userSessions i) sid))) (\<lambda>_.
      throw (PlainError ''Failed to persist authentication session''))) :: unit acc)" by (intro users_intros)
  show ?thesis
    using u by (auto simp: same_users_def createAuthSession_def Let_def ExecDone return_def)
qed (auto simp: same_users_def createAuthSession_def Let_def throw_def)

section \<open>Registration\<close>

definition registered_row :: "time \<Rightarrow> ident \<Rightarrow> RegistrationSessionData \<Rightarrow> User" where
  "registered_row now userId reg = \<lparr>us_id = userId, us_email = rg_email reg, us_firstName = rg_firstName reg,
     us_lastName = rg_lastName reg, us_password = rg_hashedPassword reg, us_emailVerified = True, us_createdAt = now\<rparr>"

lemma createUser_Inr_iff:
  "transaction (createUser u) s = (Inr v, s') \<longleftrightarrow>
    v = u \<and> us_id u \<notin> us_id ` set (ac_users s) \<and> us_email u \<notin> us_email ` set (ac_users s) \<and>
    s' = s\<lparr>ac_users := ac_users s @ [u]\<rparr>"
  by (auto simp: transaction_eq_Inr_iff createUser_def bindE_eq_Inr_iff create_row_Inr_iff)

lemma delete_created:
  assumes "us_id u \<notin> us_id ` set rows" shows "filter (\<lambda>w. us_id w \<noteq> us_id u) (rows @ [u]) = rows"
  using assms by (auto simp: filter_id_conv image_iff)

text \<open>What the table is after a failure: what it was, or, when the session could not be stored and the
  compensating delete failed too, with the row left behind.\<close>

definition left_behind :: "exec_outcome \<Rightarrow> exn option \<Rightarrow> time \<Rightarrow> ident \<Rightarrow> RegistrationSessionData \<Rightarrow> account_db \<Rightarrow> account_db \<Rightarrow> bool" where
  "left_behind x delErr now userId reg s s' \<longleftrightarrow> delErr \<noteq> None \<and> x \<noteq> ExecDone False False False \<and>
     userId \<notin> us_id ` set (ac_users s) \<and> rg_email reg \<notin> us_email ` set (ac_users s) \<and>
     ac_users s' = ac_users s @ [registered_row now userId reg]"

lemma createAuthSession_fails:
  "createAuthSession env l x now i sid token fp ip ua s = (Inl err, s') \<Longrightarrow> x \<noteq> ExecDone False False False"
  by (auto simp: createAuthSession_def return_def)

lemma registerUser_users:
  assumes "registerUser env l x delErr now userId reg sid fp ip ua s = (r, s')"
  shows "case r of
      Inl _ \<Rightarrow> ac_users s' = ac_users s \<or> left_behind x delErr now userId reg s s'
    | Inr resp \<Rightarrow> ac_users s' = ac_users s @ [registered_row now userId reg] \<and>
        ar_user resp = toUserResponseDto (registered_row now userId reg) \<and>
        userId \<notin> us_id ` set (ac_users s) \<and> rg_email reg \<notin> us_email ` set (ac_users s)"
proof -
  let ?u = "registered_row now userId reg"
  have k: "us_id ?u = userId" "us_email ?u = rg_email reg" by (simp_all add: registered_row_def)
  obtain c s1 where c: "transaction (createUser ?u) s = (c, s1)" by fastforce
  show ?thesis
  proof (cases c)
    case (Inl e)
    then have "s1 = s" using c by (auto simp: transaction_def split: sum.splits prod.splits)
    then show ?thesis using assms c Inl
      by (auto simp: registerUser_def then_proc_def registered_row_def)
  next
    case (Inr v)
    then have v: "v = ?u" "userId \<notin> us_id ` set (ac_users s)" "rg_email reg \<notin> us_email ` set (ac_users s)"
      "ac_users s1 = ac_users s @ [?u]" using c createUser_Inr_iff k by auto
    let ?t = "generateRefreshToken env now userId sid"
    obtain d s2 where d: "createAuthSession env l x now userId sid ?t fp ip ua s1 = (d, s2)" by fastforce
    have u2: "ac_users s2 = ac_users s @ [?u]" using same_usersD [OF same_users_create d] v(4) by simp
    show ?thesis
    proof (cases d)
      case (Inr y)
      then show ?thesis using assms c \<open>c = Inr v\<close> d v u2
        by (auto simp: registerUser_def then_proc_def registered_row_def [symmetric] k Let_def return_def toAuthResponseDto_def)
    next
      case (Inl err)
      have "transaction (deleteUser userId) s2 = (Inr (), s2\<lparr>ac_users := ac_users s\<rparr>)"
        using delete_created [of ?u "ac_users s"] v(2) u2 k
        by (auto simp: transaction_def deleteUser_def list_ex_iff)
      moreover have "x \<noteq> ExecDone False False False" using createAuthSession_fails d Inl by blast
      ultimately show ?thesis using assms c \<open>c = Inr v\<close> d v Inl u2
        by (cases delErr)
          (auto simp: registerUser_def then_proc_def registered_row_def [symmetric] k Let_def settled_def throw_def left_behind_def)
    qed
  qed
qed

lemma verifyOtp_Inr:
  assumes "verifyOtp env l now sid otp s = (Inr b, s')"
  shows "b \<and> (\<exists>h. text_of (redis_get now (k_otp sid) (ac_kv s)) = Some h \<and> ae_compare env otp h)"
  using assms unfolding verifyOtp_def
  by (auto simp: then_proc_def throw_def return_def kv_do_def over_link_Inr c_getText_def
      split: prod.splits sum.splits option.splits if_splits)

lemma getRegistrationSession_Some:
  assumes "getRegistrationSession lk now sid s = (Inr (Some reg), s')"
  shows "redis_get now (k_registrationSession sid) (ac_kv s) = Some (VRegistration reg)"
  using assms
  by (auto simp: getRegistrationSession_def then_proc_def throw_def return_def kv_do_def over_link_Inr c_get_def
      split: prod.splits sum.splits option.splits rval.splits)

lemma verifyOtp_leaves_registration: "leaves (\<lambda>k. \<exists>i. k = k_registrationSession i) (verifyOtp env l now sid otp)"
  unfolding verifyOtp_def by (intro leaves_intros) (auto simp: key_defs)

text \<open>C12: What a registration leaves in the table of users, whichever commands to Redis or to the
  database fail, before or after they take effect, and whatever the pipeline that stores the session
  reports. When it succeeds, the one-time password matched the stored hash, neither the id nor the
  e-mail was taken, and the table has exactly one row more, made of the registration data kept in
  Redis. When it fails, the table is what it was, with one exception: when the password matched, the
  session could not be stored and the compensating delete failed as well, the new row stays behind.\<close>

theorem registration_outcome:
  "case verifyAndRegister env l x delErr now userId sid otp fp ip ua s of (r, s') \<Rightarrow>
    (case r of
       Inl _ \<Rightarrow> ac_users s' = ac_users s \<or>
         (\<exists>h reg. text_of (redis_get now (k_otp sid) (ac_kv s)) = Some h \<and> ae_compare env otp h \<and>
           redis_get now (k_registrationSession sid) (ac_kv s) = Some (VRegistration reg) \<and>
           delErr \<noteq> None \<and> x \<noteq> ExecDone False False False \<and>
           userId \<notin> us_id ` set (ac_users s) \<and> rg_email reg \<notin> us_email ` set (ac_users s) \<and>
           ac_users s' = ac_users s @ [registered_row now userId reg])
     | Inr resp \<Rightarrow>
         (\<exists>h reg. text_of (redis_get now (k_otp sid) (ac_kv s)) = Some h \<and> ae_compare env otp h \<and>
           redis_get now (k_registrationSession sid) (ac_kv s) = Some (VRegistration reg) \<and>
           userId \<notin> us_id ` set (ac_users s) \<and> rg_email reg \<notin> us_email ` set (ac_users s) \<and>
           ac_users s' = ac_users s @ [registered_row now userId reg] \<and>
           ar_user resp = toUserResponseDto (registered_row now userId reg)))"
proof -
  let ?k = "k_registrationSession sid"
  obtain v s1 where v: "verifyOtp env (from_link 10 l) now sid otp s = (v, s1)" by fastforce
  then have s1: "ac_users s1 = ac_users s" "ac_kv s1 ?k = ac_kv s ?k"
    using same_usersD [OF same_users_otp(1)] leavesD [OF verifyOtp_leaves_registration] by blast+
  then have g: "redis_get now ?k (ac_kv s1) = redis_get now ?k (ac_kv s)" by (simp add: redis_get_def)
  obtain d s2 where d: "getRegistrationSession (l 0) now sid s1 = (d, s2)" by fastforce
  then have s2: "ac_users s2 = ac_users s" using same_usersD [OF same_users_otp(2)] s1 by metis
  show ?thesis
  proof (cases "\<exists>b reg. v = Inr b \<and> d = Inr (Some reg)")
    case False
    then show ?thesis using v d s1 s2
      by (auto simp: verifyAndRegister_def then_proc_def throw_def split: sum.splits option.splits prod.splits)
  next
    case True
    then obtain b reg where b: "v = Inr b" "d = Inr (Some reg)" by blast
    have h: "\<exists>h. text_of (redis_get now (k_otp sid) (ac_kv s)) = Some h \<and> ae_compare env otp h"
      using verifyOtp_Inr v b(1) by blast
    have reg: "redis_get now ?k (ac_kv s) = Some (VRegistration reg)"
      using getRegistrationSession_Some [OF d [unfolded b(2)]] g by simp
    obtain r s3 where r: "registerUser env (from_link 20 l) x delErr now userId reg sid fp ip ua s2 = (r, s3)" by fastforce
    note users = registerUser_users [OF r, unfolded s2]
    show ?thesis
    proof (cases r)
      case (Inl e)
      then show ?thesis using users v d b r h reg by (auto simp: verifyAndRegister_def then_proc_def left_behind_def s2)
    next
      case (Inr resp)
      define z where "z = then_proc (settled (then_proc (deleteRegistrationSession (l 1) sid) (\<lambda>_. deleteOtpSession (l 2) (rg_email reg))))
          (\<lambda>_. return resp) s3"
      have "ac_users (snd z) = ac_users s3"
        unfolding z_def by (rule same_users_def [THEN iffD1, rule_format]) (intro users_intros)
      moreover have "fst z = Inr resp" by (simp add: z_def call_simps)
      ultimately obtain s4 where z: "z = (Inr resp, s4)" "ac_users s4 = ac_users s3" by (metis prod.collapse)
      have "verifyAndRegister env l x delErr now userId sid otp fp ip ua s = z"
        using v d b r Inr by (simp add: verifyAndRegister_def z_def then_proc_def [of "verifyOtp env (from_link 10 l) now sid otp"]
            then_proc_def [of "getRegistrationSession (l 0) now sid"]
            then_proc_def [of "registerUser env (from_link 20 l) x delErr now userId reg sid fp ip ua"])
      then show ?thesis using users Inr h reg z by simp
    qed
  qed
qed

section \<open>Guesses of a one-time password\<close>

text \<open>How many of a run of guesses get as far as the comparison.\<close>

fun compared :: "account_env \<Rightarrow> ident \<Rightarrow> ((nat \<Rightarrow> link) \<times> time \<times> string) list \<Rightarrow> account_db \<Rightarrow> nat" where
  "compared env sid [] s = 0"
| "compared env sid ((l, now, guess) # gs) s =
     (case verifyOtp env l now sid guess s of
        (r, s') \<Rightarrow> (if r = Inl (ApiError 400 ''OTP_INVALID'') then 1 else 0) + compared env sid gs s')"

text \<open>\<open>k\<close> guesses are left at \<open>t\<close> of a password that expires at \<open>x\<close>, with the counter \<open>c\<close>. The counter of a
  first window ends at most half a second before the password, because \<open>TTL\<close> rounds; the counter of a
  second window outlives it.\<close>

definition counter_left :: "int \<Rightarrow> time \<Rightarrow> time \<Rightarrow> (rval \<times> time option) option \<Rightarrow> bool" where
  "counter_left k t x c \<longleftrightarrow> 0 \<le> k \<and>
     (case c of
        None \<Rightarrow> 10 \<le> k \<or> x - t < 500 \<and> 5 \<le> k
      | Some (v, e) \<Rightarrow>
          if \<not> live t (v, e) then 10 \<le> k \<or> x - t < 500 \<and> 5 \<le> k
          else (case v of
              VCount n \<Rightarrow> 1 \<le> n \<and> (case e of None \<Rightarrow> 5 - n \<le> k | Some y \<Rightarrow> x \<le> y \<and> 5 - n \<le> k \<or> x - 500 < y \<and> 10 - min n 5 \<le> k)
            | _ \<Rightarrow> False))"

definition guesses_left :: "ident \<Rightarrow> string \<Rightarrow> int \<Rightarrow> time \<Rightarrow> kv \<Rightarrow> bool" where
  "guesses_left sid h k t st \<longleftrightarrow> 0 \<le> k \<and>
     (\<forall>e. st (k_otp sid) = Some e \<longrightarrow> live t e \<longrightarrow>
       (\<exists>x. e = (VText h, Some x) \<and> counter_left k t x (st (k_otpAttempts sid))))"

lemma counter_left_later:
  assumes "counter_left k t x c" and "t \<le> u" and "u < x" shows "counter_left k u x c"
proof (cases c)
  case (Some p)
  obtain v e where p: "p = (v, e)" by fastforce
  show ?thesis
  proof (cases e)
    case None
    then show ?thesis using assms(1) Some p by (simp add: counter_left_def)
  next
    case e: (Some y)
    show ?thesis
    proof (cases "u < y")
      case True
      then show ?thesis using assms(1,2) Some p e by (simp add: counter_left_def split: rval.splits)
    next
      case y: False
      then show ?thesis
      proof (cases "t < y")
        case True
        show ?thesis
          using assms y True by (cases v) (auto simp: counter_left_def Some p e)
      next
        case False
        then show ?thesis using assms y by (auto simp: counter_left_def Some p e)
      qed
    qed
  qed
qed (use assms in \<open>auto simp: counter_left_def\<close>)

lemma guesses_left_later:
  assumes "guesses_left sid h k t st" and "t \<le> u" shows "guesses_left sid h k u st"
  unfolding guesses_left_def
proof (intro conjI allI impI)
  fix e assume e: "st (k_otp sid) = Some e" "live u e"
  with assms obtain x where x: "e = (VText h, Some x)" "counter_left k t x (st (k_otpAttempts sid))"
    using live_earlier [OF e(2) assms(2)] unfolding guesses_left_def by blast
  then show "\<exists>x. e = (VText h, Some x) \<and> counter_left k u x (st (k_otpAttempts sid))"
    using e(2) counter_left_later [OF x(2) assms(2)] by auto
qed (use assms in \<open>simp add: guesses_left_def\<close>)

text \<open>The first guess of a window.\<close>

lemma counter_left_first:
  assumes "now < x" and "10 \<le> k \<or> x - now < 500 \<and> 5 \<le> k" and "0 < ttl"
    and "T = (if 0 < (x - now + 500) div 1000 then (x - now + 500) div 1000 else ttl)"
  shows "counter_left (k - 1) now x (Some (VCount 1, None))" "counter_left (k - 1) now x (Some (VCount 1, Some (now + T * 1000)))"
proof -
  have y: "x - 500 < now + T * 1000" using assms(3,4) by (auto split: if_splits)
  have T: "0 < T" using assms(3,4) by simp
  have "x \<le> now + T * 1000" if "x - now < 500" using that assms(1,3,4) by (auto split: if_splits)
  then show "counter_left (k - 1) now x (Some (VCount 1, None))" "counter_left (k - 1) now x (Some (VCount 1, Some (now + T * 1000)))"
    using y T assms(2) by (auto simp: counter_left_def)
qed

lemma kv_do_links:
  "kv_do Unreachable c s = (Inl (PlainError ''connection''), s)"
  "kv_do ReplyLost c s = (Inl (PlainError ''connection''), s\<lparr>ac_kv := snd (c (ac_kv s))\<rparr>)"
  by (simp_all add: kv_do_def over_link_def case_prod_unfold)

lemma otp_keys [simp]: "k_otp i \<noteq> k_otpAttempts j" "k_otpAttempts j \<noteq> k_otp i"
  by (simp_all add: key_defs)

lemma guess_first:
  assumes e: "ac_kv s (k_otp sid) = Some (VText h, Some x)" "now < x" "h \<noteq> []" and "\<not> ae_compare env guess h"
    and none: "redis_get now (k_otpAttempts sid) (ac_kv s) = None"
    and left: "counter_left k now x (ac_kv s (k_otpAttempts sid))" and ttl: "0 < ae_REGISTRATION_OTP_TTL env"
    and v: "verifyOtp env l now sid guess s = (r, s')"
  shows "\<exists>k'. guesses_left sid h k' now (ac_kv s') \<and> k' + (if r = Inl (ApiError 400 ''OTP_INVALID'') then 1 else 0) \<le> k"
proof -
  have k: "10 \<le> k \<or> x - now < 500 \<and> 5 \<le> k"
    using left none by (auto simp: counter_left_def redis_get_def split: option.splits if_splits)
  then have "0 \<le> k - 1" by auto
  define T where "T = (if 0 < (x - now + 500) div 1000 then (x - now + 500) div 1000 else ae_REGISTRATION_OTP_TTL env)"
  have T: "0 < T" using ttl by (simp add: T_def)
  note first = counter_left_first [OF e(2) k ttl T_def]
  let ?c1 = "(ac_kv s)(k_otpAttempts sid \<mapsto> (VCount 1, None))"
  let ?c2 = "(ac_kv s)(k_otpAttempts sid \<mapsto> (VCount 1, Some (now + T * 1000)))"
  have same: "guesses_left sid h k now (ac_kv s)" using e left \<open>0 \<le> k - 1\<close> by (simp add: guesses_left_def)
  have c1: "guesses_left sid h (k - 1) now ?c1" using e first(1) \<open>0 \<le> k - 1\<close> by (simp add: guesses_left_def)
  have c2: "guesses_left sid h (k - 1) now ?c2" using e first(2) \<open>0 \<le> k - 1\<close> by (simp add: guesses_left_def)
  have g: "text_of (redis_get now (k_otp sid) (ac_kv s)) = Some h" using e by (simp add: redis_get_def text_of_def)
  have x: "0 < (x - now + 500) div 1000 \<Longrightarrow> redis_expire now (k_otpAttempts sid) ((x - now + 500) div 1000) ?c1 = ?c2"
    "\<not> 0 < (x - now + 500) div 1000 \<Longrightarrow> redis_expire now (k_otpAttempts sid) (ae_REGISTRATION_OTP_TTL env) ?c1 = ?c2"
    using ttl by (simp_all add: redis_expire_def live_def T_def)
  note run = verifyOtp_def call_simps kv_do_links c_incr_def c_ttl_def OTP_ATTEMPT_LIMIT_def
  have cases: "r \<noteq> Inl (ApiError 400 ''OTP_INVALID'') \<and> ac_kv s' = ac_kv s \<or> r \<noteq> Inl (ApiError 400 ''OTP_INVALID'') \<and> ac_kv s' = ?c1 \<or> ac_kv s' = ?c2"
  proof (cases "l 0 = Reply \<and> l 1 = Reply")
    case l01: True
    show ?thesis
    proof (cases "l 2 = Reply")
      case True
      then show ?thesis using v g none x e(1,2) assms(4) l01
        by (cases "l 3"; cases "0 < (x - now + 500) div 1000") (auto simp: run)
    next
      case False
      then show ?thesis using v g none l01 by (cases "l 2") (auto simp: run)
    qed
  next
    case False
    then show ?thesis using v g none by (cases "l 0"; cases "l 1") (auto simp: run)
  qed
  show ?thesis using cases
  proof (elim disjE conjE)
    assume "r \<noteq> Inl (ApiError 400 ''OTP_INVALID'')" "ac_kv s' = ac_kv s"
    with same show ?thesis by auto
  next
    assume "r \<noteq> Inl (ApiError 400 ''OTP_INVALID'')" "ac_kv s' = ?c1"
    with c1 show ?thesis by (intro exI [where x = "k - 1"]) auto
  next
    assume "ac_kv s' = ?c2"
    with c2 show ?thesis by (intro exI [where x = "k - 1"]) auto
  qed
qed

lemma counter_left_pos: "counter_left k t x c \<Longrightarrow> 0 \<le> k"
  by (simp add: counter_left_def)

lemma counter_left_next:
  assumes "counter_left k now x (Some (VCount n, y))" and "live now (VCount n, y)"
  shows "counter_left k now x (Some (VCount (n + 1), y))" "n < 5 \<Longrightarrow> counter_left (k - 1) now x (Some (VCount (n + 1), y))" "1 \<le> n"
  using assms by (auto simp: counter_left_def live_def split: option.splits)

lemma guess_later:
  assumes e: "ac_kv s (k_otp sid) = Some (VText h, Some x)" "now < x" "h \<noteq> []" and "\<not> ae_compare env guess h"
    and c: "redis_get now (k_otpAttempts sid) (ac_kv s) = Some c"
    and left: "counter_left k now x (ac_kv s (k_otpAttempts sid))"
    and v: "verifyOtp env l now sid guess s = (r, s')"
  shows "\<exists>k'. guesses_left sid h k' now (ac_kv s') \<and> k' + (if r = Inl (ApiError 400 ''OTP_INVALID'') then 1 else 0) \<le> k"
proof -
  obtain y where y: "ac_kv s (k_otpAttempts sid) = Some (c, y)" "live now (c, y)"
    using c by (auto simp: redis_get_def split: option.splits if_splits)
  with left obtain n where "c = VCount n" by (cases c) (auto simp: counter_left_def)
  with y have n: "ac_kv s (k_otpAttempts sid) = Some (VCount n, y)" "live now (VCount n, y)" "c = VCount n" by simp_all
  note more = counter_left_next [OF left [unfolded n(1)] n(2)]
  have "0 \<le> k" using left by (simp add: counter_left_def)
  let ?c1 = "(ac_kv s)(k_otpAttempts sid \<mapsto> (VCount (n + 1), y))"
  have same: "guesses_left sid h k now (ac_kv s)" using e left \<open>0 \<le> k\<close> by (simp add: guesses_left_def)
  have c1: "guesses_left sid h k now ?c1" using e more(1) \<open>0 \<le> k\<close> by (simp add: guesses_left_def)
  have c2: "guesses_left sid h (k - 1) now ?c1" if "n < 5"
  proof -
    have "0 \<le> k - 1" by (rule counter_left_pos [OF more(2) [OF that]])
    then show ?thesis using e more(2) [OF that] by (simp add: guesses_left_def)
  qed
  have gone: "guesses_left sid h k now st" if "st (k_otp sid) = None" for st using \<open>0 \<le> k\<close> that by (simp add: guesses_left_def)
  have g: "text_of (redis_get now (k_otp sid) (ac_kv s)) = Some h" using e by (simp add: redis_get_def text_of_def)
  note run = verifyOtp_def call_simps kv_do_links c_incr_def c_ttl_def OTP_ATTEMPT_LIMIT_def
  have cases: "r \<noteq> Inl (ApiError 400 ''OTP_INVALID'') \<and> (ac_kv s' = ac_kv s \<or> ac_kv s' = ?c1 \<or> ac_kv s' (k_otp sid) = None) \<or> n < 5 \<and> ac_kv s' = ?c1"
  proof (cases "l 0 = Reply \<and> l 1 = Reply")
    case True
    show ?thesis
    proof (cases "n < 5")
      case n5: True
      have "verifyOtp env l now sid guess s = (Inl (ApiError 400 ''OTP_INVALID''), s\<lparr>ac_kv := ?c1\<rparr>)"
        using True n5 g c n(1,3) more(3) assms(4) by (simp add: run)
      then show ?thesis using v n5 by simp
    next
      case n5: False
      define locked where "locked = (Inl (ApiError 429 ''OTP_LOCKED'') :: exn + bool, s\<lparr>ac_kv := ?c1 |` (- {k_otp sid})\<rparr>)"
      have "verifyOtp env l now sid guess s \<in> {locked, (Inl (PlainError ''connection''), snd locked), (Inl (PlainError ''connection''), s\<lparr>ac_kv := ?c1\<rparr>)}"
        using True n5 g c n(1,3) more(3) by (cases "l 4") (simp_all add: run locked_def del: restrict_fun_upd fun_upd_restrict_conv)
      then show ?thesis using v by (auto simp: locked_def simp del: restrict_fun_upd fun_upd_restrict_conv)
    qed
  next
    case False
    then show ?thesis using v g c n by (cases "l 0"; cases "l 1") (auto simp: run)
  qed
  show ?thesis using cases
  proof (elim disjE conjE)
    assume r: "r \<noteq> Inl (ApiError 400 ''OTP_INVALID'')" and "ac_kv s' = ac_kv s"
    with same show ?thesis by auto
  next
    assume r: "r \<noteq> Inl (ApiError 400 ''OTP_INVALID'')" and "ac_kv s' = ?c1"
    with c1 show ?thesis by auto
  next
    assume r: "r \<noteq> Inl (ApiError 400 ''OTP_INVALID'')" and "ac_kv s' (k_otp sid) = None"
    with gone show ?thesis by auto
  next
    assume "n < 5" "ac_kv s' = ?c1"
    with c2 show ?thesis by (intro exI [where x = "k - 1"]) auto
  qed
qed

lemma guess_step:
  assumes left: "guesses_left sid h k t (ac_kv s)" and "t \<le> now" and "h \<noteq> []" and "\<not> ae_compare env guess h"
    and ttl: "0 < ae_REGISTRATION_OTP_TTL env" and v: "verifyOtp env l now sid guess s = (r, s')"
  shows "\<exists>k'. guesses_left sid h k' now (ac_kv s') \<and> k' + (if r = Inl (ApiError 400 ''OTP_INVALID'') then 1 else 0) \<le> k"
proof (cases "redis_get now (k_otp sid) (ac_kv s)")
  case None
  then have "ac_kv s' = ac_kv s \<and> r \<noteq> Inl (ApiError 400 ''OTP_INVALID'')"
    using v by (cases "l 0") (auto simp: verifyOtp_def call_simps kv_do_links text_of_def)
  then show ?thesis using guesses_left_later [OF left assms(2)] by auto
next
  case (Some w)
  then obtain x where e: "ac_kv s (k_otp sid) = Some (VText h, Some x)" "now < x" "counter_left k now x (ac_kv s (k_otpAttempts sid))"
    using guesses_left_later [OF left assms(2)] by (auto simp: guesses_left_def redis_get_def split: option.splits if_splits)
  show ?thesis
  proof (cases "redis_get now (k_otpAttempts sid) (ac_kv s)")
    case None
    show ?thesis by (rule guess_first [OF e(1,2) assms(3,4) None e(3) ttl v])
  next
    case c: (Some c)
    show ?thesis by (rule guess_later [OF e(1,2) assms(3,4) c e(3) v])
  qed
qed

lemma compared_le:
  assumes "guesses_left sid h k t (ac_kv s)" and "sorted (t # map (\<lambda>g. fst (snd g)) gs)" and "h \<noteq> []"
    and "list_all (\<lambda>g. \<not> ae_compare env (snd (snd g)) h) gs" and "0 < ae_REGISTRATION_OTP_TTL env"
  shows "int (compared env sid gs s) \<le> k"
  using assms
proof (induction gs arbitrary: k t s)
  case Nil
  then show ?case by (simp add: guesses_left_def)
next
  case (Cons g gs)
  obtain l now guess where g: "g = (l, now, guess)" by (cases g)
  obtain r s' where v: "verifyOtp env l now sid guess s = (r, s')" by fastforce
  obtain k' where k': "guesses_left sid h k' now (ac_kv s')" "k' + (if r = Inl (ApiError 400 ''OTP_INVALID'') then 1 else 0) \<le> k"
    using guess_step [OF Cons.prems(1) _ Cons.prems(3) _ Cons.prems(5) v] Cons.prems(2,4) g by auto
  have "int (compared env sid gs s') \<le> k'"
    using Cons.IH [OF k'(1) _ Cons.prems(3) _ Cons.prems(5)] Cons.prems(2,4) g by simp
  then show ?case using k'(2) by (cases "r = Inl (ApiError 400 ''OTP_INVALID'')") (simp_all add: g v)
qed

section \<open>A small service\<close>

text \<open>Tokens that can be read back, a hash without collisions.\<close>

definition sample_sign :: "jwt_claims \<Rightarrow> int \<Rightarrow> int \<Rightarrow> string" where
  "sample_sign c i e = (if i < 0 then ''-'' else ''+'') @ replicate (nat \<bar>i\<bar>) CHR ''1'' @ ''.'' @
     replicate (length (jc_sub c)) CHR ''1'' @ ''.'' @ jc_sub c @ (case jc_sessionId c of None \<Rightarrow> [] | Some x \<Rightarrow> x)"

definition ones :: "string \<Rightarrow> nat \<times> string" where
  "ones t = (length (takeWhile (\<lambda>c. c = CHR ''1'') t), tl (dropWhile (\<lambda>c. c = CHR ''1'') t))"

definition sample_read :: "string \<Rightarrow> int \<times> ident \<times> ident" where
  "sample_read t = (case ones (tl t) of (a, x) \<Rightarrow> (case ones x of (b, y) \<Rightarrow>
     (if hd t = CHR ''-'' then - int a else int a, take b y, drop b y)))"

definition sample_accounts :: account_env where
  "sample_accounts = \<lparr>ae_sign = sample_sign,
     ae_verify = (\<lambda>_ t. if t = [] then None else case sample_read t of (_, i, sid) \<Rightarrow>
        Some \<lparr>jc_sub = i, jc_email = None, jc_sessionId = Some sid, jc_type = ''refresh''\<rparr>),
     ae_sha256 = (\<lambda>t. t), ae_bcrypt = (\<lambda>_ t. ''h:'' @ t), ae_compare = (\<lambda>t h. h = ''h:'' @ t), ae_geoip = (\<lambda>_. None),
     ae_JWT_ACCESS_EXPIRES_IN = 30, ae_JWT_REFRESH_EXPIRES_IN = 604800,
     ae_REGISTRATION_OTP_TTL = 300, ae_FORGOT_PASSWORD_OTP_TTL = 600\<rparr>"

lemma ones_replicate [simp]: "ones (replicate a (CHR ''1'') @ CHR ''.'' # x) = (a, x)"
  by (induction a) (simp_all add: ones_def)

lemma sample_read_token:
  "sample_read (generateRefreshToken sample_accounts n i sid) = (n div 1000, i, sid)"
  by (auto simp: generateRefreshToken_def sample_accounts_def sample_sign_def sample_read_def)

lemma sample_tokens_ok: "tokens_ok sample_accounts"
  unfolding tokens_ok_def
proof (intro conjI allI impI)
  fix n n' i i' sid sid'
  assume "generateRefreshToken sample_accounts n i sid = generateRefreshToken sample_accounts n' i' sid'"
  from arg_cong [OF this, of sample_read] show "n div 1000 = n' div 1000" "i = i'" "sid = sid'"
    by (simp_all add: sample_read_token)
next
  fix m n i sid c
  assume "ae_verify sample_accounts m (generateRefreshToken sample_accounts n i sid) = Some c"
  then show "jc_sub c = i" "jc_sessionId c = Some sid"
    using sample_read_token [of n i sid]
    by (auto simp: sample_accounts_def split: if_splits)
qed (simp add: sample_accounts_def inj_def)

definition sample_ids :: "nat \<Rightarrow> ident" where
  "sample_ids n = ''id-'' @ show_nat n"

definition sample_request :: RegisterRequestDto where
  "sample_request = \<lparr>rq_firstName = ''Ada'', rq_lastName = ''L'', rq_email = ''a@x'', rq_password = ''first''\<rparr>"

definition no_accounts :: account_db where
  "no_accounts = \<lparr>ac_users = [], ac_kv = Map.empty, ac_sent = []\<rparr>"

definition sample_asked :: account_db where
  "sample_asked = snd (sendOtp sample_accounts on None 0 sample_ids ''123456'' (\<lambda>_. ''salt'') sample_request no_accounts)"

text \<open>C24: A one-time password stands at most ten wrong guesses. From the moment a hash is stored with an
  expiry and without a counter of attempts, over any connection and at any times that do not go
  back, a run of wrong guesses is answered OTP_INVALID at most ten times. The limit per counter is
  five; the counter of the first window may end half a second before the password, since its time to
  live is the password's, rounded.\<close>

theorem otp_guesses_bounded:
  assumes "ac_kv s (k_otp sid) = Some (VText h, Some x)" and "h \<noteq> []" and "ac_kv s (k_otpAttempts sid) = None"
    and "sorted (t # map (\<lambda>g. fst (snd g)) gs)" and "list_all (\<lambda>g. \<not> ae_compare env (snd (snd g)) h) gs"
    and "0 < ae_REGISTRATION_OTP_TTL env"
  shows "compared env sid gs s \<le> 10"
proof -
  have "guesses_left sid h 10 t (ac_kv s)"
    using assms(1,3) by (auto simp: guesses_left_def counter_left_def)
  from compared_le [OF this assms(4,2,5,6)] show ?thesis by simp
qed

theorem otp_guesses_bounded_witness:
  "compared sample_accounts ''id-0'' (map (\<lambda>k. (on, 1000 * int k, ''000000'')) [1..<9]) sample_asked \<le> 10 \<and>
   compared sample_accounts ''id-0'' (map (\<lambda>k. (on, 1000 * int k, ''000000'')) [1..<9]) sample_asked = 5"
proof -
  have g: "map (\<lambda>k. (on, 1000 * int k, ''000000'')) [1..<9] =
    map (\<lambda>n. (on, n, ''000000'')) [1000, 2000, 3000, 4000, 5000, 6000, 7000, 8000]" by (simp add: upt_rec)
  have "compared sample_accounts ''id-0'' (map (\<lambda>n. (on, n, ''000000'')) [1000, 2000, 3000, 4000, 5000, 6000, 7000, 8000]) sample_asked = 5"
    by code_simp
  moreover have "compared sample_accounts ''id-0'' (map (\<lambda>n. (on, n, ''000000'')) [1000, 2000, 3000, 4000, 5000, 6000, 7000, 8000]) sample_asked \<le> 10"
  proof (rule otp_guesses_bounded [where h = "''h:123456''" and x = 300000 and t = 0])
    show "ac_kv sample_asked (k_otp ''id-0'') = Some (VText ''h:123456'', Some 300000)" by code_simp
    show "ac_kv sample_asked (k_otpAttempts ''id-0'') = None" by code_simp
  qed (simp_all add: sample_accounts_def)
  ultimately show ?thesis unfolding g by simp
qed

text \<open>A registration that succeeds, and one whose session and whose compensating delete fail.\<close>

definition sample_registered :: "exec_outcome \<Rightarrow> exn option \<Rightarrow> (exn + AuthResponseDto) \<times> account_db" where
  "sample_registered x delErr =
     verifyAndRegister sample_accounts on x delErr 1000 ''ada'' ''id-0'' ''123456'' ''fp'' None None sample_asked"

theorem registration_outcome_witness:
  "(\<exists>resp reg. fst (sample_registered (ExecDone False False False) None) = Inr resp \<and>
      ac_users (snd (sample_registered (ExecDone False False False) None)) = [registered_row 1000 ''ada'' reg]) \<and>
   (\<exists>e reg. fst (sample_registered ExecNull (Some (PlainError ''down''))) = Inl e \<and>
      ac_users (snd (sample_registered ExecNull (Some (PlainError ''down'')))) = [registered_row 1000 ''ada'' reg])"
proof -
  let ?p = "sample_registered (ExecDone False False False) None" and ?q = "sample_registered ExecNull (Some (PlainError ''down''))"
  have k: "case fst ?p of Inr _ \<Rightarrow> True | Inl _ \<Rightarrow> False" "case fst ?q of Inr _ \<Rightarrow> False | Inl _ \<Rightarrow> True"
    "length (ac_users (snd ?q)) = 1" "length (ac_users sample_asked) = 0" by code_simp+
  then obtain resp where p: "fst ?p = Inr resp" by (cases ?p) (auto split: sum.splits)
  from k(2) obtain e where q: "fst ?q = Inl e" by (cases ?q) (auto split: sum.splits)
  note out = registration_outcome [where env = sample_accounts and l = on and now = 1000 and userId = "''ada''" and sid = "''id-0''"
      and otp = "''123456''" and fp = "''fp''" and ip = None and ua = None and s = sample_asked, folded sample_registered_def]
  from out [where x = "ExecDone False False False" and delErr = None] k(4) have "\<exists>reg. ac_users (snd ?p) = [registered_row 1000 ''ada'' reg]"
    by (auto simp: case_prod_beta p)
  moreover from out [where x = ExecNull and delErr = "Some (PlainError ''down'')"] k(3,4) have "\<exists>reg. ac_users (snd ?q) = [registered_row 1000 ''ada'' reg]"
    by (auto simp: case_prod_beta q)
  ultimately show ?thesis using p q by blast
qed

end
