(* ===== verification/AccountProps.thy ===== *)
theory AccountProps
  imports Registration
begin

text \<open>
  What the user service promises: a password reset ends every session, a refresh token is accepted
  once, registration is all or nothing, guesses of a one-time password are bounded, the profile
  cache agrees with the table; and what it does not promise.
\<close>

section \<open>Runs of the service\<close>

text \<open>One call at a time, at times that do not go back, over a healthy Redis connection.\<close>

inductive account_step :: "account_env \<Rightarrow> time \<times> account_db \<Rightarrow> time \<times> account_db \<Rightarrow> bool" for env where
  sends: "t \<le> now \<Longrightarrow> account_step env (t, s) (now, snd (sendOtp env on pub now u otp salt data s))"
| registers: "t \<le> now \<Longrightarrow> account_step env (t, s) (now, snd (verifyAndRegister env on x delErr now i sid otp fp ip ua s))"
| logs_in: "t \<le> now \<Longrightarrow> account_step env (t, s) (now, snd (login env on x pub now u email password fp ip ua s))"
| refreshes_token: "t \<le> now \<Longrightarrow> account_step env (t, s) (now, snd (refresh env on now token fp s))"
| lists: "t \<le> now \<Longrightarrow> account_step env (t, s) (now, snd (getSessions on now i s))"
| revokes: "t \<le> now \<Longrightarrow> account_step env (t, s) (now, snd (revokeSession on now sid i s))"
| logs_out: "t \<le> now \<Longrightarrow> account_step env (t, s) (now, snd (logoutByRefreshToken env on now tok s))"
| logs_out_all: "t \<le> now \<Longrightarrow> account_step env (t, s) (now, snd (logoutAllByRefreshToken env on now tok s))"
| forgets: "t \<le> now \<Longrightarrow> account_step env (t, s) (now, snd (forgotPassword env on pub now u otp salt1 email s))"
| proves: "t \<le> now \<Longrightarrow> account_step env (t, s) (now, snd (VerifyPasswordResetOtp env on now token sid otp s))"
| resets: "t \<le> now \<Longrightarrow> account_step env (t, s) (now, snd (resetPassword env on now salt1 token password s))"
| passes: "t \<le> now \<Longrightarrow> (\<And>j r. sess = Some j \<Longrightarrow> redis_get now (k_authSession j) (ac_kv s) = Some (VSession r) \<Longrightarrow> sn_userId r = i) \<Longrightarrow>
    account_step env (t, s) (now, snd (sessionMiddleware on now i sess s))"
| reads_profile: "t \<le> now \<Longrightarrow> account_step env (t, s) (now, snd (getUserById on now i s))"
| writes_profile: "t \<le> now \<Longrightarrow> account_step env (t, s) (now, snd (updateProfile on now i up s))"

lemma account_time: "account_step env p q \<Longrightarrow> fst p \<le> fst q"
  by (induction rule: account_step.induct) simp_all

lemma account_run_time: "(account_step env)\<^sup>*\<^sup>* p q \<Longrightarrow> fst p \<le> fst q"
  by (induction rule: rtranclp_induct) (auto dest: account_time)

text \<open>Sessions of \<open>sid\<close> carry tokens issued at \<open>n0\<close> or later.\<close>

definition since :: "ident \<Rightarrow> time \<Rightarrow> ident \<Rightarrow> time \<Rightarrow> bool" where
  "since sid n0 i n \<longleftrightarrow> (i = sid \<longrightarrow> n0 \<le> n)"

definition account_inv :: "account_env \<Rightarrow> ident \<Rightarrow> time \<Rightarrow> time \<times> account_db \<Rightarrow> bool" where
  "account_inv env sid n0 p \<longleftrightarrow> n0 \<le> fst p \<and> (tokens_ok env \<longrightarrow> sess_ok env (since sid n0) (fst p) {} (ac_kv (snd p)))"

lemma leaves_profile_calls [leaves_intros]:
  assumes "\<And>j. \<not> K (k_userProfile j)"
  shows "leaves K (getUserById l now i)" "leaves K (updateProfile l now i up)"
proof -
  have s: "leaves K (settled (kv_do lk (c_set now (k_userProfile i) v ttl)))" for lk v ttl
    using assms by (intro leaves_intros) auto
  show "leaves K (getUserById l now i)"
    unfolding leaves_def
  proof (intro allI impI)
    fix s k assume k: "K k"
    have g: "leaves K (kv_do (l 0) (c_get now (k_userProfile i)))" by (intro leaves_intros)
    have load: "ac_kv (snd (load_profile (l 1) now i s1)) k = ac_kv s1 k" for s1
    proof (cases "user_findById i s1")
      case (Some user)
      have "leaves K (then_proc (settled (kv_do (l 1) (c_set now (k_userProfile i) (VProfile (toCache user)) PROFILE_CACHE_TTL_SECONDS)))
          (\<lambda>_. return (Some (toUserResponseDto user))))" by (intro leaves_intros s)
      then show ?thesis using k by (simp add: load_profile_def Some leaves_def)
    qed (simp add: load_profile_def return_def)
    show "ac_kv (snd (getUserById l now i s)) k = ac_kv s k"
      unfolding getUserById_def using leavesD [OF g _ k, of s] load
      by (auto simp: return_def split: prod.split sum.split option.split rval.split)
  qed
  show "leaves K (updateProfile l now i up)"
    unfolding updateProfile_def repo_updateProfile_def by (intro leaves_intros s)
qed

lemma account_step_sess:
  assumes "account_step env p q" and ok: "sess_ok env A (fst p) {} (ac_kv (snd p))" and tok: "tokens_ok env"
    and A: "\<And>sid. A sid (fst q)"
  shows "sess_ok env A (fst q) {} (ac_kv (snd q))"
proof -
  have ok': "sess_ok env A (fst q) {} (ac_kv (snd p))" using sess_ok_later [OF ok account_time [OF assms(1)]] .
  note k = keepsD [where P = "sess_ok env A (fst q) {}", OF _ ok']
  from assms(1) show ?thesis
  proof cases
    case (sends t now s pub u otp salt data)
    then show ?thesis using k [OF keeps_sess [OF leaves_otp(2)]] by simp
  next
    case (registers t now s x delErr i sid otp fp ip ua)
    then show ?thesis using k [OF keeps_verifyAndRegister [where A = A]] A by simp
  next
    case (logs_in t now s x pub u email password fp ip ua)
    then show ?thesis using k [OF keeps_login [where A = A]] A by simp
  next
    case (refreshes_token t now s token fp)
    then show ?thesis using refresh_ok [of env A now s] ok' tok A by simp
  next
    case (lists t now s i)
    then show ?thesis using k [OF keeps_getSessions] by simp
  next
    case (revokes t now s sid i)
    then show ?thesis using k [OF keeps_revokeSession] by simp
  next
    case (logs_out t now s tok)
    then show ?thesis using k [OF keeps_logouts(1)] by simp
  next
    case (logs_out_all t now s tok)
    then show ?thesis using k [OF keeps_logouts(2)] by simp
  next
    case (forgets t now s pub u otp salt1 email)
    then show ?thesis using k [OF keeps_sess [OF leaves_otp(3)]] by simp
  next
    case (proves t now s token sid otp)
    then show ?thesis using k [OF keeps_sess [OF leaves_otp(4)]] by simp
  next
    case (resets t now s salt1 token password)
    then show ?thesis using k [OF keeps_reset] by simp
  next
    case (passes t now sess s i)
    then show ?thesis using middleware_ok [of env A now s sess i] ok' by simp
  next
    case (reads_profile t now s i)
    then show ?thesis using k [OF keeps_sess [OF leaves_profile_calls(1)]] by simp
  next
    case (writes_profile t now s i up)
    then show ?thesis using k [OF keeps_sess [OF leaves_profile_calls(2)]] by simp
  qed
qed

interpretation accounts: stepper "account_step env" "account_inv env sid n0" for env sid n0
proof
  fix p q assume "account_step env p q" "account_inv env sid n0 p"
  then show "account_inv env sid n0 q"
    using account_step_sess [of env p q "since sid n0"] account_time [of env p q]
    by (auto simp: account_inv_def since_def)
qed

lemma no_accounts_inv: "account_inv env sid t (t, no_accounts)"
  by (simp add: account_inv_def no_accounts_def sess_ok_def typed_def indexed_def issued_def)

lemma reachable_sess:
  assumes "(account_step env)\<^sup>*\<^sup>* (t0, no_accounts) (t, s)" and "tokens_ok env" and "t \<le> now"
  shows "sess_ok env (since [] t0) now {} (ac_kv s)"
  using accounts.run_inv [OF assms(1) no_accounts_inv, of "[]"] assms(2,3) sess_ok_later by (auto simp: account_inv_def)

section \<open>A registered user\<close>

definition sample_in :: "(exn + AuthResponseDto) \<times> account_db" where
  "sample_in = verifyAndRegister sample_accounts on (ExecDone False False False) None 1000 ''ada'' ''id-0'' ''123456'' ''fp'' None None sample_asked"

lemma sample_in_run: "(account_step sample_accounts)\<^sup>*\<^sup>* (0, no_accounts) (1000, snd sample_in)"
proof -
  have "account_step sample_accounts (0, no_accounts) (0, sample_asked)"
    unfolding sample_asked_def by (rule account_step.sends) simp
  moreover have "account_step sample_accounts (0, sample_asked) (1000, snd sample_in)"
    unfolding sample_in_def by (rule account_step.registers) simp
  ultimately show ?thesis by simp
qed

section \<open>Resetting a password\<close>

definition set_password :: "account_env \<Rightarrow> string \<Rightarrow> string \<Rightarrow> User \<Rightarrow> User \<Rightarrow> User" where
  "set_password env salt password u w = (if us_id w = us_id u then w\<lparr>us_password := ae_bcrypt env salt password\<rparr> else w)"

lemma resetPassword_Inr:
  assumes "resetPassword env on now salt token password s = (Inr (), s')"
  shows "\<exists>email u s1. text_of (redis_get now (k_passwordResetToken token) (ac_kv s)) = Some email \<and>
    findUserByEmail email s = Some u \<and> ac_users s' = map (set_password env salt password u) (ac_users s) \<and>
    ac_kv s1 = ac_kv s \<and> ac_kv s' = ac_kv (snd (logoutAll on now (us_id u) s1)) |` (- {k_passwordResetToken token})"
proof (cases "text_of (redis_get now (k_passwordResetToken token) (ac_kv s))")
  case None
  then show ?thesis using assms by (simp add: resetPassword_def call_simps)
next
  case email: (Some email)
  show ?thesis
  proof (cases "findUserByEmail email s")
    case None
    then show ?thesis using assms email by (simp add: resetPassword_def call_simps requireUser_def)
  next
    case (Some u)
    let ?d = "\<lambda>w. w\<lparr>us_password := ae_bcrypt env salt password\<rparr>"
    obtain v s1 where v: "transaction (user_update (us_id u) ?d) s = (Inr v, s1)"
      using assms email Some
      by (cases "transaction (user_update (us_id u) ?d) s"; cases "fst (transaction (user_update (us_id u) ?d) s)")
        (auto simp: resetPassword_def call_simps requireUser_def)
    then have s1: "ac_kv s1 = ac_kv s" "ac_users s1 = map (set_password env salt password u) (ac_users s)"
      by (auto simp: transaction_eq_Inr_iff user_update_def bindE_eq_Inr_iff update_row_Inr_iff Let_def set_password_def
          split: option.splits)
    have "s' = (snd (logoutAll on now (us_id u) s1))\<lparr>ac_kv := ac_kv (snd (logoutAll on now (us_id u) s1)) |` (- {k_passwordResetToken token})\<rparr>"
      using assms email Some v by (simp add: resetPassword_def call_simps requireUser_def logoutAll_on)
    then have "ac_kv s' = ac_kv (snd (logoutAll on now (us_id u) s1)) |` (- {k_passwordResetToken token})" "ac_users s' = ac_users s1"
      by (simp_all add: logoutAll_on)
    then show ?thesis using email Some s1 by auto
  qed
qed

text \<open>C4: Resetting a password ends every session. In every state of the service, a reset that
  succeeds was for the user whose e-mail the token was issued to; it replaces that user's password
  hash and nothing else in the table, the token is used up, and at no later time is any session of
  this user live that existed before.\<close>

theorem reset_password_effect:
  assumes "(account_step env)\<^sup>*\<^sup>* (t0, no_accounts) (t, s)" and "tokens_ok env" and "t \<le> now"
    and "resetPassword env on now salt token password s = (Inr (), s')"
  shows "\<exists>email u. text_of (redis_get now (k_passwordResetToken token) (ac_kv s)) = Some email \<and> findUserByEmail email s = Some u \<and>
    ac_users s' = map (set_password env salt password u) (ac_users s) \<and>
    (\<forall>n \<ge> now. \<forall>sid r. redis_get n (k_authSession sid) (ac_kv s') = Some (VSession r) \<longrightarrow> sn_userId r \<noteq> us_id u) \<and>
    (\<forall>n salt2 password2. resetPassword env on n salt2 token password2 s' = (Inl (ApiError 401 ''OTP_SESSION_NOT_FOUND''), s'))"
proof -
  obtain email u s1 where r: "text_of (redis_get now (k_passwordResetToken token) (ac_kv s)) = Some email"
    "findUserByEmail email s = Some u" "ac_users s' = map (set_password env salt password u) (ac_users s)"
    "ac_kv s1 = ac_kv s" "ac_kv s' = ac_kv (snd (logoutAll on now (us_id u) s1)) |` (- {k_passwordResetToken token})"
    using resetPassword_Inr [OF assms(4)] by blast
  have ok: "sess_ok env (since [] t0) now {} (ac_kv s1)" using reachable_sess [OF assms(1-3)] r(4) by simp
  have "sn_userId x \<noteq> us_id u" if "now \<le> n" "redis_get n (k_authSession sid) (ac_kv s') = Some (VSession x)" for n sid x
    using logoutAll_revokes [OF ok that(1), of sid "us_id u" x] that(2) by (auto simp: r(5) redis_get_restrict split: if_splits)
  moreover have "resetPassword env on n salt2 token password2 s' = (Inl (ApiError 401 ''OTP_SESSION_NOT_FOUND''), s')" for n salt2 password2
    by (simp add: resetPassword_def call_simps r(5) redis_get_restrict text_of_def)
  ultimately show ?thesis using r(1-3) by blast
qed

definition sample_forgot :: account_db where
  "sample_forgot = snd (forgotPassword sample_accounts on None 2000 sample_ids ''654321'' ''salt'' ''a@x'' (snd sample_in))"

definition sample_proved :: account_db where
  "sample_proved = snd (VerifyPasswordResetOtp sample_accounts on 3000 ''tok'' ''id-0'' ''654321'' sample_forgot)"

definition sample_reset :: "(exn + unit) \<times> account_db" where
  "sample_reset = resetPassword sample_accounts on 4000 ''salt'' ''tok'' ''second'' sample_proved"

lemma sample_proved_run: "(account_step sample_accounts)\<^sup>*\<^sup>* (0, no_accounts) (3000, sample_proved)"
proof -
  have "account_step sample_accounts (1000, snd sample_in) (2000, sample_forgot)"
    unfolding sample_forgot_def by (rule account_step.forgets) simp
  moreover have "account_step sample_accounts (2000, sample_forgot) (3000, sample_proved)"
    unfolding sample_proved_def by (rule account_step.proves) simp
  ultimately show ?thesis using sample_in_run by (meson rtranclp.rtrancl_into_rtrancl)
qed

lemma resetPassword_succeeds:
  assumes "text_of (redis_get now (k_passwordResetToken token) (ac_kv s)) = Some email" and "findUserByEmail email s = Some u"
  shows "fst (resetPassword env on now salt token password s) = Inr ()"
proof -
  let ?d = "\<lambda>w. w\<lparr>us_password := ae_bcrypt env salt password\<rparr>"
  have "u \<in> set (ac_users s)" using assms(2) by (auto simp: findUserByEmail_def dest: find_row_Some)
  then have "list_ex (\<lambda>w. us_id w = us_id u) (ac_users s)" by (auto simp: list_ex_iff)
  moreover have "find_row (\<lambda>w. us_id w = us_id u) (map (\<lambda>w. if us_id w = us_id u then ?d w else w) (ac_users s)) \<noteq> None"
  proof
    assume "find_row (\<lambda>w. us_id w = us_id u) (map (\<lambda>w. if us_id w = us_id u then ?d w else w) (ac_users s)) = None"
    moreover have "?d u \<in> set (map (\<lambda>w. if us_id w = us_id u then ?d w else w) (ac_users s))"
      using \<open>u \<in> set (ac_users s)\<close> by (auto intro: image_eqI [where x = u])
    ultimately have "us_id (?d u) \<noteq> us_id u" unfolding find_row_None_iff by (rule bspec)
    then show False by simp
  qed
  ultimately obtain v s1 where "transaction (user_update (us_id u) ?d) s = (Inr v, s1)"
    by (auto simp: transaction_def user_update_def update_row_def user_findById_def)
  then show ?thesis using assms by (simp add: resetPassword_def call_simps requireUser_def logoutAll_on)
qed

lemma sample_reset_done: "resetPassword sample_accounts on 4000 ''salt'' ''tok'' ''second'' sample_proved = (Inr (), snd sample_reset)"
proof -
  have "text_of (redis_get 4000 (k_passwordResetToken ''tok'') (ac_kv sample_proved)) = Some ''a@x''"
    "map us_id (case findUserByEmail ''a@x'' sample_proved of None \<Rightarrow> [] | Some w \<Rightarrow> [w]) = [''ada'']" by code_simp+
  moreover from this(2) obtain w0 where "findUserByEmail ''a@x'' sample_proved = Some w0" by (auto split: option.splits)
  ultimately have "fst sample_reset = Inr ()"
    unfolding sample_reset_def by (intro resetPassword_succeeds)
  then show ?thesis
    by (metis sample_reset_def prod.collapse)
qed

theorem reset_password_effect_witness:
  "map us_password (ac_users (snd sample_reset)) = [''h:second''] \<and>
   \<not> (\<exists>r. redis_get 4000 (k_authSession ''id-0'') (ac_kv (snd sample_reset)) = Some (VSession r) \<and> sn_userId r = ''ada'') \<and>
   resetPassword sample_accounts on 5000 ''salt'' ''tok'' ''third'' (snd sample_reset) = (Inl (ApiError 401 ''OTP_SESSION_NOT_FOUND''), snd sample_reset)"
proof -
  have u: "map us_id (ac_users sample_proved) = [''ada'']" "map us_email (ac_users sample_proved) = [''a@x'']" by code_simp+
  from u obtain w where w: "ac_users sample_proved = [w]" "us_id w = ''ada''" by auto
  have "(3000 :: time) \<le> 4000" by simp
  from reset_password_effect [OF sample_proved_run sample_tokens_ok this sample_reset_done] obtain email u where
    u: "findUserByEmail email sample_proved = Some u" "ac_users (snd sample_reset) = map (set_password sample_accounts ''salt'' ''second'' u) (ac_users sample_proved)"
    "\<forall>n \<ge> 4000. \<forall>sid r. redis_get n (k_authSession sid) (ac_kv (snd sample_reset)) = Some (VSession r) \<longrightarrow> sn_userId r \<noteq> us_id u"
    "\<forall>n salt2 password2. resetPassword sample_accounts on n salt2 ''tok'' password2 (snd sample_reset) = (Inl (ApiError 401 ''OTP_SESSION_NOT_FOUND''), snd sample_reset)"
    by blast
  have "u = w" using u(1) by (simp add: findUserByEmail_def w split: if_splits)
  have "map us_password (ac_users (snd sample_reset)) = [''h:second'']"
    unfolding u(2) w(1) \<open>u = w\<close> by (simp add: set_password_def sample_accounts_def)
  moreover have "sn_userId r \<noteq> ''ada''" if "redis_get 4000 (k_authSession ''id-0'') (ac_kv (snd sample_reset)) = Some (VSession r)" for r
    using u(3) that \<open>u = w\<close> w(2) by (metis order_refl)
  ultimately show ?thesis using u(4) by blast
qed

section \<open>Refresh tokens\<close>

lemma refresh_Inr:
  assumes "typed (ac_kv s)" and "refresh env on t token fp s = (Inr resp, s')"
  shows "\<exists>c sid r. verifyRefreshToken env t token = Some c \<and> jc_sessionId c = Some sid \<and>
    redis_get t (k_authSession sid) (ac_kv s) = Some (VSession r) \<and> sn_fingerprint r = fp \<and>
    sn_refreshTokenHash r = ae_sha256 env token \<and> ar_refreshToken resp = generateRefreshToken env t (sn_userId r) sid \<and>
    (\<exists>x. ac_kv s' (k_authSession sid) = Some (VSession (r\<lparr>sn_refreshTokenHash := refreshed env t (sn_userId r) sid, sn_lastUsedAt := t\<rparr>), x))"
proof -
  obtain c sid r where c: "verifyRefreshToken env t token = Some c" "jc_sessionId c = Some sid"
    "redis_get t (k_authSession sid) (ac_kv s) = Some (VSession r)" "rotate env on t token fp (jc_sub c) sid r s = (Inr resp, s')"
    using refresh_cases [OF assms(1), of env t token fp] assms(2) by auto
  have fp: "sn_fingerprint r = fp" "sn_refreshTokenHash r = ae_sha256 env token" "user_findById (sn_userId r) s \<noteq> None"
    using c(4) by (auto simp: rotate_def then_proc_def throw_def logoutAll_on split: if_splits option.splits prod.splits sum.splits)
  have "ar_refreshToken resp = generateRefreshToken env t (sn_userId r) sid \<and>
    (\<exists>x. ac_kv s' (k_authSession sid) = Some (VSession (r\<lparr>sn_refreshTokenHash := refreshed env t (sn_userId r) sid, sn_lastUsedAt := t\<rparr>), x))"
    using rotate_kv [OF fp(3,1,2), of t "jc_sub c" sid] c(4)
    by (auto simp: toAuthResponseDto_def redis_expire_def split: option.split)
  then show ?thesis using c fp by blast
qed

lemma sess_ok_since:
  assumes "sess_ok env (since [] t0) t {} st"
    and "st (k_authSession sid) = Some (VSession r, x)" and "sn_refreshTokenHash r = refreshed env t (sn_userId r) sid"
  shows "sess_ok env (since sid t) t {} st"
proof -
  have "issued env (since sid t) t st"
    unfolding issued_def
  proof (intro allI impI)
    fix j r' x' assume a: "st (k_authSession j) = Some (VSession r', x')"
    show "\<exists>n \<le> t. since sid t j n \<and> sn_refreshTokenHash r' = refreshed env n (sn_userId r') j"
    proof (cases "j = sid")
      case True
      then have "r' = r" using a assms(2) by simp
      with True assms(3) show ?thesis by (auto simp: since_def)
    next
      case False
      then show ?thesis using a assms(1) unfolding sess_ok_def issued_def since_def by blast
    qed
  qed
  then show ?thesis using assms(1) by (simp add: sess_ok_def)
qed

lemma refresh_result:
  assumes "typed (ac_kv s)" and "\<nexists>resp. fst (refresh env on t token fp s) = Inr resp"
  shows "\<exists>code. fst (refresh env on t token fp s) = Inl (ApiError 401 code)"
proof (cases "fst (refresh env on t token fp s)")
  case (Inl e)
  have "\<exists>code. e = ApiError 401 code"
    using refresh_cases [OF assms(1), of env t token fp] Inl
    by (auto simp: rotate_def call_simps logoutAll_on logout_def c_srem_def Let_def
        split: if_splits option.splits rval.splits dest!: typed_get [OF assms(1)])
  with Inl show ?thesis by blast
qed (use assms(2) in auto)

text \<open>C5: A refresh token works once. When a refresh answered a token with another one, whatever the
  service does afterwards, presenting the old token again is a 401; and when it comes from the
  session's device while that session lives, it is taken for theft: every session of the user is
  revoked. Two refreshes within the second of issue get the same token, which is why the answer
  has to differ.\<close>

theorem refresh_token_single_use:
  assumes "(account_step env)\<^sup>*\<^sup>* (t0, no_accounts) (t, s)" and "tokens_ok env" and "t \<le> n1"
    and "refresh env on n1 token fp s = (Inr resp, s1)" and "ar_refreshToken resp \<noteq> token"
    and "(account_step env)\<^sup>*\<^sup>* (n1, s1) (t2, s2)" and "t2 \<le> n2"
  shows "(\<exists>code. fst (refresh env on n2 token fp2 s2) = Inl (ApiError 401 code)) \<and>
    (\<exists>c sid r. verifyRefreshToken env n1 token = Some c \<and> jc_sessionId c = Some sid \<and>
      redis_get n1 (k_authSession sid) (ac_kv s) = Some (VSession r) \<and>
      (\<forall>r2. verifyRefreshToken env n2 token \<noteq> None \<longrightarrow> sid \<noteq> [] \<longrightarrow>
        redis_get n2 (k_authSession sid) (ac_kv s2) = Some (VSession r2) \<longrightarrow> sn_fingerprint r2 = fp2 \<longrightarrow>
        (\<forall>n \<ge> n2. \<forall>j r'. redis_get n (k_authSession j) (ac_kv (snd (refresh env on n2 token fp2 s2))) = Some (VSession r') \<longrightarrow>
          sn_userId r' \<noteq> sn_userId r)))"
proof -
  have ok: "sess_ok env (since [] t0) n1 {} (ac_kv s)" using reachable_sess [OF assms(1-3)] .
  then have ty: "typed (ac_kv s)" by (simp add: sess_ok_def)
  obtain c sid r x where c: "verifyRefreshToken env n1 token = Some c" "jc_sessionId c = Some sid"
    "redis_get n1 (k_authSession sid) (ac_kv s) = Some (VSession r)"
    "sn_refreshTokenHash r = ae_sha256 env token" "ar_refreshToken resp = generateRefreshToken env n1 (sn_userId r) sid"
    "ac_kv s1 (k_authSession sid) = Some (VSession (r\<lparr>sn_refreshTokenHash := refreshed env n1 (sn_userId r) sid, sn_lastUsedAt := n1\<rparr>), x)"
    using refresh_Inr [OF ty assms(4)] by blast
  obtain y where "ac_kv s (k_authSession sid) = Some (VSession r, y)"
    using c(3) by (auto simp: redis_get_def split: option.splits if_splits)
  then obtain n0 where n0: "n0 \<le> n1" "sn_refreshTokenHash r = refreshed env n0 (sn_userId r) sid"
    using ok unfolding sess_ok_def issued_def by blast
  then have token: "token = generateRefreshToken env n0 (sn_userId r) sid"
    using c(4) tokens_hash [OF assms(2)] by (simp add: refreshed_def)
  then have "n0 div 1000 \<noteq> n1 div 1000" using assms(5) c(5) by (auto simp: generateRefreshToken_def)
  moreover have "n0 div 1000 \<le> n1 div 1000" using n0(1) by (simp add: zdiv_mono1)
  ultimately have before: "n0 div 1000 < n1 div 1000" by simp
  have "account_step env (t, s) (n1, s1)" using account_step.refreshes_token [OF assms(3), of env s token fp] assms(4) by simp
  then have "sess_ok env (since [] t0) n1 {} (ac_kv s1)"
    using reachable_sess [OF rtranclp.rtrancl_into_rtrancl [OF assms(1)] assms(2)] by blast
  then have inv: "account_inv env sid n1 (n1, s1)" using sess_ok_since [where st = "ac_kv s1" and sid = sid, OF _ c(6)] by (simp add: account_inv_def)
  have "account_inv env sid n1 (t2, s2)" using accounts.run_inv [OF assms(6) inv] .
  then have ok2: "sess_ok env (since sid n1) n2 {} (ac_kv s2)"
    using assms(2) sess_ok_later [OF _ assms(7)] by (simp add: account_inv_def)
  then have ty2: "typed (ac_kv s2)" by (simp add: sess_ok_def)
  have old: "sn_refreshTokenHash r2 \<noteq> ae_sha256 env token"
    if r2: "redis_get n2 (k_authSession sid) (ac_kv s2) = Some (VSession r2)" for r2
  proof
    assume h: "sn_refreshTokenHash r2 = ae_sha256 env token"
    obtain z where "ac_kv s2 (k_authSession sid) = Some (VSession r2, z)"
      using r2 by (auto simp: redis_get_def split: option.splits if_splits)
    then obtain n where n: "n1 \<le> n" "sn_refreshTokenHash r2 = refreshed env n (sn_userId r2) sid"
      using ok2 unfolding sess_ok_def issued_def since_def by blast
    then have "generateRefreshToken env n (sn_userId r2) sid = generateRefreshToken env n0 (sn_userId r) sid"
      using h token tokens_hash [OF assms(2)] by (simp add: refreshed_def)
    then have "n div 1000 = n0 div 1000" using tokens_same [OF assms(2)] by blast
    then show False using before n(1) zdiv_mono1 [of n1 n 1000] by simp
  qed
  have claims: "jc_sub c2 = sn_userId r \<and> jc_sessionId c2 = Some sid" if "verifyRefreshToken env n2 token = Some c2" for c2
    using that tokens_verify [OF assms(2)] unfolding token by (auto simp: verifyRefreshToken_def split: option.splits if_splits)
  have "\<nexists>resp. fst (refresh env on n2 token fp2 s2) = Inr resp"
  proof
    assume "\<exists>resp. fst (refresh env on n2 token fp2 s2) = Inr resp"
    then obtain resp2 s3 where "refresh env on n2 token fp2 s2 = (Inr resp2, s3)" by (metis prod.collapse)
    from refresh_Inr [OF ty2 this] obtain c2 sid2 r2 where "verifyRefreshToken env n2 token = Some c2" "jc_sessionId c2 = Some sid2"
      "redis_get n2 (k_authSession sid2) (ac_kv s2) = Some (VSession r2)" "sn_refreshTokenHash r2 = ae_sha256 env token" by blast
    then show False using claims old by force
  qed
  then have code: "\<exists>code. fst (refresh env on n2 token fp2 s2) = Inl (ApiError 401 code)" by (rule refresh_result [OF ty2])
  have "sn_userId r' \<noteq> sn_userId r"
    if v: "verifyRefreshToken env n2 token \<noteq> None" and r2: "redis_get n2 (k_authSession sid) (ac_kv s2) = Some (VSession r2)"
      "sn_fingerprint r2 = fp2" "sid \<noteq> []" "n2 \<le> n" "redis_get n (k_authSession j) (ac_kv (snd (refresh env on n2 token fp2 s2))) = Some (VSession r')"
    for r2 n j r'
  proof -
    obtain c2 where c2: "verifyRefreshToken env n2 token = Some c2" using v by blast
    have "refresh env on n2 token fp2 s2 = rotate env on n2 token fp2 (jc_sub c2) sid r2 s2"
      using refresh_found [OF ty2 c2 _ r2(3,1)] claims [OF c2] by blast
    then have "ac_kv (snd (refresh env on n2 token fp2 s2)) = ac_kv (snd (logoutAll on n2 (sn_userId r) s2))"
      using old [OF r2(1)] r2(2) claims [OF c2] by (simp add: rotate_def then_proc_def throw_def logoutAll_on)
    then show ?thesis using logoutAll_revokes [OF ok2 r2(4)] r2(5) by metis
  qed
  then show ?thesis using code c(1,2,3) by blast
qed

definition sample_token :: string where
  "sample_token = generateRefreshToken sample_accounts 1000 ''ada'' ''id-0''"

definition sample_refreshed :: "(exn + AuthResponseDto) \<times> account_db" where
  "sample_refreshed = refresh sample_accounts on 5000 sample_token ''fp'' (snd sample_in)"

theorem refresh_token_single_use_witness:
  "(case fst sample_refreshed of Inr resp \<Rightarrow> ar_refreshToken resp \<noteq> sample_token | Inl _ \<Rightarrow> False) \<and>
   (\<exists>code. fst (refresh sample_accounts on 6000 sample_token ''fp'' (snd sample_refreshed)) = Inl (ApiError 401 code))"
proof -
  have c: "case fst sample_refreshed of Inr resp \<Rightarrow> ar_refreshToken resp \<noteq> sample_token | Inl _ \<Rightarrow> False" by code_simp
  then obtain resp where r: "fst sample_refreshed = Inr resp" "ar_refreshToken resp \<noteq> sample_token" by (auto split: sum.splits)
  then have e: "refresh sample_accounts on 5000 sample_token ''fp'' (snd sample_in) = (Inr resp, snd sample_refreshed)"
    by (metis sample_refreshed_def prod.collapse)
  from refresh_token_single_use [OF sample_in_run sample_tokens_ok _ e r(2) rtranclp.rtrancl_refl, of 6000 "''fp''"] c
  show ?thesis by simp
qed

end
