(* ===== verification/AccountRaces.thy ===== *)
theory AccountRaces
  imports AccountProps
begin

text \<open>
  What a login gives is accepted by a refresh, and two sequences of calls that the user service
  does not guard against.
\<close>

section \<open>From login to refresh\<close>

text \<open>\<open>jsonwebtoken\<close>: a token just signed verifies until it expires, with the claims it was signed with.\<close>

definition verifies :: "account_env \<Rightarrow> bool" where
  "verifies env \<longleftrightarrow> (\<forall>n m i sid. n div 1000 \<le> m div 1000 \<longrightarrow> m div 1000 < n div 1000 + ae_JWT_REFRESH_EXPIRES_IN env \<longrightarrow>
     ae_verify env (m div 1000) (generateRefreshToken env n i sid) =
       Some \<lparr>jc_sub = i, jc_email = None, jc_sessionId = Some sid, jc_type = ''refresh''\<rparr>)"

lemma login_Inr:
  assumes "login env on (ExecDone False False False) pub now u email password fp ip ua s = (Inr resp, s')"
  shows "\<exists>user. findUserByEmail email s = Some user \<and> ae_compare env password (us_password user) \<and> ac_users s' = ac_users s \<and>
    ar_user resp = toUserResponseDto user \<and> ar_refreshToken resp = generateRefreshToken env now (us_id user) (u 0) \<and>
    ac_kv s' (k_authSession (u 0)) = Some (VSession (new_session env now (us_id user) (ar_refreshToken resp) fp ip ua),
      Some (now + SESSION_TTL_SECONDS * 1000))"
proof (cases "findUserByEmail email s")
  case None
  then show ?thesis using assms by (simp add: login_def requireUser_def call_simps)
next
  case (Some user)
  have pub: "ac_users (snd (publish pub e s1)) = ac_users s1" "ac_kv (snd (publish pub e s1)) = ac_kv s1" for e s1
    by (simp_all add: publish_def Let_def split: option.split prod.split)
  have multi: "session_multi now sid i r False False False st (k_authSession sid) = Some (VSession r, Some (now + SESSION_TTL_SECONDS * 1000))"
    for sid i r st
    by (auto simp: session_multi_def c_set_def redis_set_ex_def c_sadd_def c_expire_def redis_expire_def Let_def SESSION_TTL_SECONDS_def
        split: option.split rval.split)
  show ?thesis
    using assms Some pub multi
    by (auto simp: login_def requireUser_def then_proc_def return_def throw_def settled_def createAuthSession_def Let_def toAuthResponseDto_def
        split: if_splits)
qed

lemma refresh_go:
  assumes "verifyRefreshToken env n token = Some c" and "jc_sessionId c = Some sid" and "sid \<noteq> []"
    and "redis_get n (k_authSession sid) (ac_kv s) = Some (VSession r)"
  shows "refresh env on n token f s =
      (case rotate env on n token f (jc_sub c) sid r s of
         (Inr r, s1) \<Rightarrow> (Inr r, s1)
       | (Inl (ApiError st code), s1) \<Rightarrow> (Inl (ApiError st code), s1)
       | (Inl _, s1) \<Rightarrow> (Inl (ApiError 401 ''INVALID_REFRESH_TOKEN''), s1))"
  using assms unfolding refresh_def Let_def by (simp add: then_proc_def c_get_def)

text \<open>C23: What a login hands out is good for a refresh. The refresh token of a login is accepted, for the
  same user, at every later time at which neither the token nor the session has expired, from the
  device that logged in, if nothing happened to the session; from another device it is a 401 and the
  session is gone.\<close>

theorem login_refresh_roundtrip:
  assumes "verifies env" and "distinct (map us_id (ac_users s))"
    and "login env on (ExecDone False False False) pub now u email password fp ip ua s = (Inr resp, s')"
    and "u 0 \<noteq> []" and "ur_id (ar_user resp) \<noteq> []" and "now \<le> n" and "n < now + SESSION_TTL_SECONDS * 1000"
    and "n div 1000 < now div 1000 + ae_JWT_REFRESH_EXPIRES_IN env"
  shows "(\<exists>resp2. fst (refresh env on n (ar_refreshToken resp) fp s') = Inr resp2 \<and> ar_user resp2 = ar_user resp) \<and>
    (\<forall>fp2. fp2 \<noteq> fp \<longrightarrow>
       (\<exists>code. fst (refresh env on n (ar_refreshToken resp) fp2 s') = Inl (ApiError 401 code)) \<and>
       ac_kv (snd (refresh env on n (ar_refreshToken resp) fp2 s')) (k_authSession (u 0)) = None)"
proof -
  obtain user where user: "findUserByEmail email s = Some user" "ac_users s' = ac_users s" "ar_user resp = toUserResponseDto user"
    "ar_refreshToken resp = generateRefreshToken env now (us_id user) (u 0)"
    "ac_kv s' (k_authSession (u 0)) = Some (VSession (new_session env now (us_id user) (ar_refreshToken resp) fp ip ua),
      Some (now + SESSION_TTL_SECONDS * 1000))"
    using login_Inr [OF assms(3)] by blast
  let ?r = "new_session env now (us_id user) (ar_refreshToken resp) fp ip ua"
  have "user \<in> set (ac_users s)" using user(1) by (auto simp: findUserByEmail_def dest: find_row_Some)
  then have row: "user_findById (us_id user) s' = Some user"
    using find_row_unique [OF assms(2)] user(2) by (simp add: user_findById_def)
  have "us_id user \<noteq> []" using assms(5) user(3) by (simp add: toUserResponseDto_def)
  then have v: "verifyRefreshToken env n (ar_refreshToken resp) =
      Some \<lparr>jc_sub = us_id user, jc_email = None, jc_sessionId = Some (u 0), jc_type = ''refresh''\<rparr>"
    using assms(1,6,8) zdiv_mono1 [of now n 1000] unfolding verifies_def verifyRefreshToken_def user(4) by simp
  have g: "redis_get n (k_authSession (u 0)) (ac_kv s') = Some (VSession ?r)"
    using user(5) assms(7) by (simp add: redis_get_def)
  note go = refresh_go [OF v _ assms(4) g, simplified]
  have r: "sn_userId ?r = us_id user" "sn_fingerprint ?r = fp" "sn_refreshTokenHash ?r = ae_sha256 env (ar_refreshToken resp)"
    by (simp_all add: new_session_def)
  obtain resp2 s2 where ok: "rotate env on n (ar_refreshToken resp) fp (us_id user) (u 0) ?r s' = (Inr resp2, s2)"
    "ar_user resp2 = toUserResponseDto user"
    using rotate_kv [of ?r s' fp env "ar_refreshToken resp" n "us_id user" "u 0"] r row by (auto simp: toAuthResponseDto_def)
  have "(\<exists>code. fst (refresh env on n (ar_refreshToken resp) f s') = Inl (ApiError 401 code)) \<and>
      ac_kv (snd (refresh env on n (ar_refreshToken resp) f s')) (k_authSession (u 0)) = None" if f: "f \<noteq> fp" for f
  proof -
    obtain e s3 where l: "logout on n (u 0) (us_id user) s' = (e, s3)" by fastforce
    have "ac_kv s3 (k_authSession (u 0)) = None"
      using logout_on [of n "u 0" "us_id user" s'] l by (auto simp: c_srem_def split: option.split rval.split)
    moreover have "\<exists>x. e = Inr () \<or> e = Inl (PlainError x)"
      using l by (auto simp: logout_def call_simps c_srem_def split: option.splits rval.splits)
    moreover have "rotate env on n (ar_refreshToken resp) f (us_id user) (u 0) ?r s' =
        then_proc (logout on n (u 0) (us_id user)) (\<lambda>_. throw (ApiError 401 ''DEVICE_FINGERPRINT_MISMATCH'')) s'"
      using f r unfolding rotate_def on_simps(2) by simp
    ultimately show ?thesis using go [of f] l by (auto simp: then_proc_def throw_def)
  qed
  moreover have "fst (refresh env on n (ar_refreshToken resp) fp s') = Inr resp2" using go [of fp] ok(1) by simp
  ultimately show ?thesis using ok(2) user(3) by auto
qed

definition sample_service :: account_env where
  "sample_service = sample_accounts\<lparr>ae_verify := (\<lambda>n t. case sample_read t of (iat, i, sid) \<Rightarrow>
     if n < iat + 604800 then Some \<lparr>jc_sub = i, jc_email = None, jc_sessionId = Some sid, jc_type = ''refresh''\<rparr> else None)\<rparr>"

definition sample_login :: "(exn + AuthResponseDto) \<times> account_db" where
  "sample_login = login sample_service on (ExecDone False False False) None 9000 (\<lambda>_. ''s1'') ''a@x'' ''first'' ''phone'' None None (snd sample_in)"

lemma sample_service_verifies: "verifies sample_service"
proof -
  have g: "generateRefreshToken sample_service n i sid = generateRefreshToken sample_accounts n i sid" for n i sid
    by (simp add: generateRefreshToken_def sample_service_def)
  have "sample_read (generateRefreshToken sample_service n i sid) = (n div 1000, i, sid)" for n i sid
    unfolding g by (rule sample_read_token)
  moreover have "ae_JWT_REFRESH_EXPIRES_IN sample_service = 604800" by (simp add: sample_service_def sample_accounts_def)
  ultimately show ?thesis unfolding verifies_def by (simp add: sample_service_def)
qed

theorem login_refresh_roundtrip_witness:
  "\<exists>resp. fst sample_login = Inr resp \<and> ur_id (ar_user resp) = ''ada'' \<and>
     (\<exists>resp2. fst (refresh sample_service on 600000 (ar_refreshToken resp) ''phone'' (snd sample_login)) = Inr resp2 \<and> ar_user resp2 = ar_user resp) \<and>
     (\<exists>code. fst (refresh sample_service on 600000 (ar_refreshToken resp) ''other'' (snd sample_login)) = Inl (ApiError 401 code))"
proof -
  have "map us_id (ac_users (snd sample_in)) = [''ada'']" by code_simp
  then have d: "distinct (map us_id (ac_users (snd sample_in)))" by simp
  have "case fst sample_login of Inr resp \<Rightarrow> ur_id (ar_user resp) = ''ada'' | Inl _ \<Rightarrow> False" by code_simp
  then obtain resp where resp: "fst sample_login = Inr resp" "ur_id (ar_user resp) = ''ada''" by (auto split: sum.splits)
  then have e: "login sample_service on (ExecDone False False False) None 9000 (\<lambda>_. ''s1'') ''a@x'' ''first'' ''phone'' None None (snd sample_in)
      = (Inr resp, snd sample_login)" by (metis sample_login_def prod.collapse)
  have "(\<exists>resp2. fst (refresh sample_service on 600000 (ar_refreshToken resp) ''phone'' (snd sample_login)) = Inr resp2 \<and> ar_user resp2 = ar_user resp) \<and>
    (\<forall>fp2. fp2 \<noteq> ''phone'' \<longrightarrow>
       (\<exists>code. fst (refresh sample_service on 600000 (ar_refreshToken resp) fp2 (snd sample_login)) = Inl (ApiError 401 code)) \<and>
       ac_kv (snd (refresh sample_service on 600000 (ar_refreshToken resp) fp2 (snd sample_login))) (k_authSession ''s1'') = None)"
    by (rule login_refresh_roundtrip [OF sample_service_verifies d e])
      (simp_all add: resp(2) SESSION_TTL_SECONDS_def sample_service_def sample_accounts_def)
  then show ?thesis using resp by simp
qed

section \<open>Unguarded sequences\<close>

text \<open>Ada asks for a code; somebody else asks for a code with Ada's e-mail and a password of his own; Ada
  enters the code she was sent last.\<close>

definition sample_mallory :: RegisterRequestDto where
  "sample_mallory = \<lparr>rq_firstName = ''M'', rq_lastName = ''M'', rq_email = ''a@x'', rq_password = ''mine''\<rparr>"

definition sample_taken :: "(exn + ident) \<times> account_db" where
  "sample_taken = sendOtp sample_accounts on None 5000 (\<lambda>_. ''id-9'') ''777777'' (\<lambda>_. ''salt'') sample_mallory sample_asked"

text \<open>A second request for a code takes over a pending registration. It is given the session of the
  first request and replaces its data, so that the code sent to Ada creates her account, in her
  session, with the password of the second request.\<close>

theorem registration_prehijack:
  "fst sample_taken = Inr ''id-0'' \<and>
   map (\<lambda>u. (us_email u, us_password u, us_emailVerified u))
     (ac_users (snd (verifyAndRegister sample_accounts on (ExecDone False False False) None 8000 ''ada'' ''id-0'' ''777777'' ''fp'' None None
        (snd sample_taken)))) = [(''a@x'', ''h:mine'', True)]"
  by code_simp

text \<open>A request of Ada's session is under way, its session read, when her password is reset; then the
  middleware writes the session back.\<close>

definition session_in :: "ident \<Rightarrow> time \<Rightarrow> account_db \<Rightarrow> SessionRecord option" where
  "session_in sid now s = (case redis_get now (k_authSession sid) (ac_kv s) of Some (VSession r) \<Rightarrow> Some r | _ \<Rightarrow> None)"

definition sample_back :: account_db where
  "sample_back = (case session_in ''id-0'' 3500 sample_proved of
     None \<Rightarrow> sample_proved | Some r \<Rightarrow> snd (refreshes on 4500 ''ada'' ''id-0'' r (snd sample_reset)))"

lemma sample_reset_kv:
  "ac_kv (snd sample_reset) = ac_kv sample_proved |` (- {k_authSession ''id-0'', k_userSessions ''ada'', k_passwordResetToken ''tok''})"
  "map us_id (ac_users (snd sample_reset)) = [''ada'']"
proof -
  obtain email u s1 where r: "text_of (redis_get 4000 (k_passwordResetToken ''tok'') (ac_kv sample_proved)) = Some email"
    "findUserByEmail email sample_proved = Some u" "ac_kv s1 = ac_kv sample_proved"
    "ac_kv (snd sample_reset) = ac_kv (snd (logoutAll on 4000 (us_id u) s1)) |` (- {k_passwordResetToken ''tok''})"
    "ac_users (snd sample_reset) = map (set_password sample_accounts ''salt'' ''second'' u) (ac_users sample_proved)"
    using resetPassword_Inr [OF sample_reset_done] by blast
  have ids: "map us_id (ac_users sample_proved) = [''ada'']" by code_simp
  then have "us_id u = ''ada''" using r(2) by (auto simp: findUserByEmail_def dest!: find_row_Some)
  moreover have "ids_of (redis_get 4000 (k_userSessions ''ada'') (ac_kv sample_proved)) = [''id-0'']" by code_simp
  ultimately show "ac_kv (snd sample_reset) = ac_kv sample_proved |` (- {k_authSession ''id-0'', k_userSessions ''ada'', k_passwordResetToken ''tok''})"
    unfolding r(4) by (simp add: logoutAll_on r(3)) (rule arg_cong [where f = "\<lambda>A. ac_kv sample_proved |` A"], auto)
  have "map us_id (map (set_password sample_accounts ''salt'' ''second'' u) rows) = map us_id rows" for rows
    by (simp add: set_password_def)
  then show "map us_id (ac_users (snd sample_reset)) = [''ada'']" unfolding r(5) ids [symmetric] .
qed

lemma sample_back_kv:
  "\<exists>r. sn_userId r = ''ada'' \<and> sn_fingerprint r = ''fp'' \<and>
     sn_refreshTokenHash r = generateRefreshToken sample_service 1000 ''ada'' ''id-0'' \<and>
     ac_users sample_back = ac_users (snd sample_reset) \<and>
     ac_kv sample_back = (ac_kv (snd sample_reset))(k_authSession ''id-0'' \<mapsto> (VSession r, Some (4500 + SESSION_TTL_SECONDS * 1000)))"
proof -
  have "case session_in ''id-0'' 3500 sample_proved of None \<Rightarrow> False | Some r \<Rightarrow> sn_userId r = ''ada'' \<and> sn_fingerprint r = ''fp'' \<and>
      sn_refreshTokenHash r = generateRefreshToken sample_service 1000 ''ada'' ''id-0''" by code_simp
  then obtain r where r: "session_in ''id-0'' 3500 sample_proved = Some r" "sn_userId r = ''ada''" "sn_fingerprint r = ''fp''"
      "sn_refreshTokenHash r = generateRefreshToken sample_service 1000 ''ada'' ''id-0''" by (auto split: option.splits)
  have e: "sample_back = (snd sample_reset)\<lparr>ac_kv := (ac_kv (snd sample_reset))(k_authSession ''id-0'' \<mapsto>
      (VSession (r\<lparr>sn_lastUsedAt := 4500\<rparr>), Some (4500 + SESSION_TTL_SECONDS * 1000)))\<rparr>"
    by (simp add: sample_back_def r(1) refreshes_def call_simps redis_expire_def sample_reset_kv(1))
  show ?thesis unfolding e using r(2-4) by (intro exI [where x = "r\<lparr>sn_lastUsedAt := 4500\<rparr>"]) simp
qed

text \<open>A password reset can be undone by a request under way. The session the reset deleted is live
  again, with the old refresh token, and in no index: a second reset of the password or a logout of
  all sessions leaves it alone.\<close>

theorem middleware_resurrects_session:
  "session_in ''id-0'' 4000 (snd sample_reset) = None \<and>
   map_option sn_userId (session_in ''id-0'' 5000 sample_back) = Some ''ada'' \<and>
   map_option sn_userId (session_in ''id-0'' 6000 (snd (logoutAll on 5000 ''ada'' sample_back))) = Some ''ada'' \<and>
   (case fst (refresh sample_service on 7000 (generateRefreshToken sample_service 1000 ''ada'' ''id-0'') ''fp''
       (snd (logoutAll on 5000 ''ada'' sample_back))) of Inr resp \<Rightarrow> ur_id (ar_user resp) = ''ada'' | Inl _ \<Rightarrow> False)"
proof -
  let ?out = "snd (logoutAll on 5000 ''ada'' sample_back)"
  let ?t = "generateRefreshToken sample_service 1000 ''ada'' ''id-0''"
  obtain r where r: "sn_userId r = ''ada''" "sn_fingerprint r = ''fp''" "sn_refreshTokenHash r = ?t"
    "ac_users sample_back = ac_users (snd sample_reset)"
    "ac_kv sample_back = (ac_kv (snd sample_reset))(k_authSession ''id-0'' \<mapsto> (VSession r, Some (4500 + SESSION_TTL_SECONDS * 1000)))"
    using sample_back_kv by blast
  have none: "redis_get 5000 (k_userSessions ''ada'') (ac_kv sample_back) = None"
    by (simp add: r(5) sample_reset_kv(1) redis_get_def)
  have alive: "redis_get n (k_authSession ''id-0'') (ac_kv sample_back) = Some (VSession r)"
    "redis_get n (k_authSession ''id-0'') (ac_kv ?out) = Some (VSession r)" if "n \<le> 10000" for n
    using that none by (simp_all add: logoutAll_on redis_get_restrict ids_of_def) (simp_all add: r(5) redis_get_def SESSION_TTL_SECONDS_def)
  have v: "verifyRefreshToken sample_service 7000 ?t =
      Some \<lparr>jc_sub = ''ada'', jc_email = None, jc_sessionId = Some ''id-0'', jc_type = ''refresh''\<rparr>" by code_simp
  have hash: "ae_sha256 sample_service x = x" for x by (simp add: sample_service_def sample_accounts_def)
  obtain w where w: "ac_users (snd sample_reset) = [w]" "us_id w = ''ada''" using sample_reset_kv(2) by auto
  have row: "user_findById ''ada'' ?out = Some w" by (simp add: user_findById_def logoutAll_on r(4) w)
  have "fst (refresh sample_service on 7000 ?t ''fp'' ?out) =
      Inr (toAuthResponseDto w (generateAccessToken sample_service 7000 (us_id w) ''id-0'' (us_email w)) (generateRefreshToken sample_service 7000 ''ada'' ''id-0''))"
    using rotate_kv [of r ?out "''fp''" sample_service ?t 7000 "''ada''" "''id-0''"] row r(1-3) hash
    by (auto simp: refresh_go [OF v _ _ alive(2), simplified])
  then show ?thesis
    using alive [of 5000] alive [of 6000] w(2) r(1)
    by (simp add: session_in_def sample_reset_kv(1) redis_get_restrict toAuthResponseDto_def toUserResponseDto_def)
qed

end
