(* ===== verification/Gateway.thy ===== *)
theory Gateway
  imports Auth CircuitBreaker TokenBucket
begin

text \<open>
  The API gateway (\<open>apps/api-gateway\<close>): the route table, authentication, rate limiting and the proxy
  behind circuit breakers. A request is the part of Express's request these read; a header holds a
  list of values, as Node keeps repeated headers. \<open>gs_sent\<close> lists what was passed to an upstream.
  JWT verification, with the secret the user service signs with, is \<open>ae_verify\<close>.
\<close>

section \<open>Requests and routes\<close>

record AuthUser =
  au_userId :: ident
  au_email :: string
  au_sessionId :: ident

type_synonym headers = "string \<rightharpoonup> string list"

record gw_request =
  gw_method :: string
  gw_path :: string
  gw_headers :: headers
  gw_cookies :: "string \<rightharpoonup> string"
  gw_ip :: "string option"
  gw_user :: "AuthUser option"
  gw_admin :: "ident option"

datatype AuthLevel = Auth_none | Auth_required | Auth_optional | Auth_admin

datatype RateLimitPresetName = Preset_default | Preset_auth

record Upstream =
  ups_name :: string
  ups_circuitName :: string

record RouteConfig =
  rc_prefix :: string
  rc_upstream :: Upstream
  rc_auth :: AuthLevel
  rc_rateLimit :: RateLimitPresetName
  rc_methods :: "string list option"

definition up_user :: Upstream where "up_user = \<lparr>ups_name = ''user'', ups_circuitName = ''user-service''\<rparr>"
definition up_admin :: Upstream where "up_admin = \<lparr>ups_name = ''admin'', ups_circuitName = ''admin-service''\<rparr>"
definition up_booking :: Upstream where "up_booking = \<lparr>ups_name = ''booking'', ups_circuitName = ''booking-service''\<rparr>"
definition up_search :: Upstream where "up_search = \<lparr>ups_name = ''search'', ups_circuitName = ''search-service''\<rparr>"
definition up_payment :: Upstream where "up_payment = \<lparr>ups_name = ''payment'', ups_circuitName = ''payment-service''\<rparr>"

definition route :: "string \<Rightarrow> Upstream \<Rightarrow> AuthLevel \<Rightarrow> RateLimitPresetName \<Rightarrow> RouteConfig" where
  "route p u a r = \<lparr>rc_prefix = p, rc_upstream = u, rc_auth = a, rc_rateLimit = r, rc_methods = None\<rparr>"

definition routes :: "RouteConfig list" where
  "routes =
     [route ''/api/v1/auth/sessions'' up_user Auth_required Preset_default,
      route ''/api/v1/auth/logout-all'' up_user Auth_optional Preset_default,
      route ''/api/v1/auth/logout'' up_user Auth_optional Preset_default,
      route ''/api/v1/auth'' up_user Auth_none Preset_auth,
      route ''/api/v1/users'' up_user Auth_required Preset_default,
      route ''/api/v1/admin/auth/login'' up_admin Auth_none Preset_auth,
      route ''/api/v1/admin'' up_admin Auth_admin Preset_default,
      route ''/api/v1/bookings'' up_booking Auth_required Preset_default,
      route ''/api/v1/search'' up_search Auth_none Preset_default,
      route ''/api/v1/payments/webhook'' up_payment Auth_none Preset_default,
      route ''/api/v1/payments'' up_payment Auth_required Preset_default]"

section \<open>Authentication\<close>

definition TRUSTED_USER_HEADERS :: "string list" where
  "TRUSTED_USER_HEADERS = [''x-user-id'', ''x-user-email'', ''x-session-id'']"

definition TRUSTED_ADMIN_HEADERS :: "string list" where
  "TRUSTED_ADMIN_HEADERS = [''x-admin-id'']"

definition ALL_TRUSTED_HEADERS :: "string list" where
  "ALL_TRUSTED_HEADERS = TRUSTED_USER_HEADERS @ TRUSTED_ADMIN_HEADERS"

definition scrubTrustedHeaders :: "gw_request \<Rightarrow> gw_request" where
  "scrubTrustedHeaders r = r\<lparr>gw_headers := gw_headers r |` (- set ALL_TRUSTED_HEADERS)\<rparr>"

text \<open>The reason of a failure is dropped: no caller reads it. An empty string is falsy.\<close>

definition verifyAccessToken :: "account_env \<Rightarrow> time \<Rightarrow> string \<Rightarrow> AuthUser option" where
  "verifyAccessToken env now token =
     (case ae_verify env (now div 1000) token of
        None \<Rightarrow> None
      | Some d \<Rightarrow>
          (case (jc_email d, jc_sessionId d) of
             (Some email, Some sid) \<Rightarrow>
               if jc_type d = ''access'' \<and> jc_sub d \<noteq> [] \<and> email \<noteq> [] \<and> sid \<noteq> []
               then Some \<lparr>au_userId = jc_sub d, au_email = email, au_sessionId = sid\<rparr> else None
           | _ \<Rightarrow> None))"

text \<open>The token of a request: the bearer token, or the cookie when there is none.\<close>

definition bearer_token :: "gw_request \<Rightarrow> string option" where
  "bearer_token r =
     (let h = (case gw_headers r ''authorization'' of
          Some (a # _) \<Rightarrow> if take 7 a = ''Bearer '' then js_trim (drop 7 a) else []
        | _ \<Rightarrow> [])
      in if h \<noteq> [] then Some h
         else (case gw_cookies r ''access_token'' of Some t \<Rightarrow> if t = [] then None else Some t | None \<Rightarrow> None))"

definition inject_user :: "AuthUser \<Rightarrow> gw_request \<Rightarrow> gw_request" where
  "inject_user user r = r\<lparr>gw_user := Some user,
     gw_headers := (gw_headers r)(''x-user-id'' \<mapsto> [au_userId user], ''x-user-email'' \<mapsto> [au_email user],
       ''x-session-id'' \<mapsto> [au_sessionId user])\<rparr>"

definition gatewayAuthMiddleware :: "account_env \<Rightarrow> time \<Rightarrow> gw_request \<Rightarrow> exn + gw_request" where
  "gatewayAuthMiddleware env now r =
     (let r1 = scrubTrustedHeaders r
      in case bearer_token r1 of
           None \<Rightarrow> Inl (ApiError 401 ''AUTH_REQUIRED'')
         | Some token \<Rightarrow>
             (case verifyAccessToken env now token of
                None \<Rightarrow> Inl (ApiError 401 ''AUTH_REQUIRED'')
              | Some user \<Rightarrow> Inr (inject_user user r1)))"

definition scrubOnlyMiddleware :: "gw_request \<Rightarrow> exn + gw_request" where
  "scrubOnlyMiddleware r = Inr (r\<lparr>gw_headers := gw_headers r |` (- set ALL_TRUSTED_HEADERS)\<rparr>)"

definition optionalGatewayAuthMiddleware :: "account_env \<Rightarrow> time \<Rightarrow> gw_request \<Rightarrow> exn + gw_request" where
  "optionalGatewayAuthMiddleware env now r =
     (let r1 = scrubTrustedHeaders r
      in case bearer_token r1 of
           None \<Rightarrow> Inr r1
         | Some token \<Rightarrow>
             (case verifyAccessToken env now token of None \<Rightarrow> Inr r1 | Some user \<Rightarrow> Inr (inject_user user r1)))"

definition gatewayAdminAuthMiddleware :: "account_env \<Rightarrow> time \<Rightarrow> gw_request \<Rightarrow> exn + gw_request" where
  "gatewayAdminAuthMiddleware env now r =
     (let r1 = scrubTrustedHeaders r
      in case gw_cookies r1 ''admin_access_token'' of
           None \<Rightarrow> Inl (ApiError 401 ''UNAUTHORIZED'')
         | Some token \<Rightarrow>
             if token = [] \<or> length (filter (\<lambda>c. c = CHR ''.'') token) \<noteq> 2 then Inl (ApiError 401 ''UNAUTHORIZED'')
             else (case ae_verify env (now div 1000) token of
                 None \<Rightarrow> Inl (ApiError 401 ''UNAUTHORIZED'')
               | Some d \<Rightarrow>
                   if jc_type d \<noteq> ''admin'' \<or> jc_sub d = [] then Inl (ApiError 401 ''UNAUTHORIZED'')
                   else Inr (r1\<lparr>gw_admin := Some (jc_sub d), gw_headers := (gw_headers r1)(''x-admin-id'' \<mapsto> [jc_sub d])\<rparr>)))"

definition resolveAuthMiddleware :: "AuthLevel \<Rightarrow> account_env \<Rightarrow> time \<Rightarrow> gw_request \<Rightarrow> exn + gw_request" where
  "resolveAuthMiddleware a env now =
     (case a of
        Auth_required \<Rightarrow> gatewayAuthMiddleware env now
      | Auth_optional \<Rightarrow> optionalGatewayAuthMiddleware env now
      | Auth_admin \<Rightarrow> gatewayAdminAuthMiddleware env now
      | Auth_none \<Rightarrow> scrubOnlyMiddleware)"

section \<open>Rate limit\<close>

record gw_env =
  ge_account :: account_env
  ge_preset :: "RateLimitPresetName \<Rightarrow> rat \<times> rat"     \<comment> \<open>capacity, refillPerSec\<close>
  ge_lua_sha :: string

record gw_state =
  gs_limiter :: "string option \<times> limiter_server"
  gs_breakers :: cb_registry
  gs_registered :: "string list"
  gs_sent :: "(string \<times> gw_request) list"

definition buildKey :: "gw_request \<Rightarrow> string" where
  "buildKey r =
     (case gw_user r of
        Some u \<Rightarrow> if au_userId u \<noteq> [] then ''rl:user:'' @ au_userId u
                  else ''rl:ip:'' @ (case gw_ip r of None \<Rightarrow> ''unknown'' | Some a \<Rightarrow> a)
      | None \<Rightarrow> ''rl:ip:'' @ (case gw_ip r of None \<Rightarrow> ''unknown'' | Some a \<Rightarrow> a))"

record rate_headers =
  rh_limit :: rat
  rh_remaining :: int
  rh_retryAfter :: "int option"

definition retryAfterSec :: "rate_limit_result \<Rightarrow> int" where
  "retryAfterSec result = max 1 (- ((- resetMs result) div 1000))"

text \<open>The headers it sets, and the response that ends the request.\<close>

definition rateLimitMiddleware :: "gw_env \<Rightarrow> RateLimitPresetName \<Rightarrow> link \<Rightarrow> time \<Rightarrow> gw_request \<Rightarrow> gw_state \<Rightarrow>
    (rate_headers option \<times> exn option) \<times> gw_state" where
  "rateLimitMiddleware env presetName lk now r s =
     (case ge_preset env presetName of
        (capacity, refillPerSec) \<Rightarrow>
          (case over_link lk (consume (ge_lua_sha env) now (buildKey r) capacity refillPerSec) (gs_limiter s) of
             (Inl _, lms) \<Rightarrow> ((None, None), s\<lparr>gs_limiter := lms\<rparr>)
           | (Inr result, lms) \<Rightarrow>
               if allowed result
               then ((Some \<lparr>rh_limit = capacity, rh_remaining = remaining result, rh_retryAfter = None\<rparr>, None), s\<lparr>gs_limiter := lms\<rparr>)
               else ((Some \<lparr>rh_limit = capacity, rh_remaining = remaining result, rh_retryAfter = Some (retryAfterSec result)\<rparr>,
                      Some (ApiError 429 ''RATE_LIMIT_EXCEEDED'')), s\<lparr>gs_limiter := lms\<rparr>)))"

section \<open>Proxy\<close>

definition TIMEOUTS :: "string \<Rightarrow> int option" where
  "TIMEOUTS = [''user-service'' \<mapsto> 5000, ''notification-service'' \<mapsto> 5000, ''admin-service'' \<mapsto> 5000,
     ''booking-service'' \<mapsto> 10000, ''search-service'' \<mapsto> 5000, ''payment-service'' \<mapsto> 5000]"

definition DEFAULT_TIMEOUT_MS :: int where "DEFAULT_TIMEOUT_MS = 5000"

definition gw_options :: "string \<Rightarrow> cb_options" where
  "gw_options circuitName = \<lparr>opt_name = circuitName, failureThreshold = Some 5, successThreshold = Some 3,
     recoveryTimeout = Some 30000, halfOpenMaxTrials = None,
     timeoutMs = Some (case TIMEOUTS circuitName of None \<Rightarrow> DEFAULT_TIMEOUT_MS | Some t \<Rightarrow> t)\<rparr>"

definition getBreaker :: "time \<Rightarrow> string \<Rightarrow> (gw_state, breaker) proc" where
  "getBreaker now circuitName s =
     (if circuitName \<in> set (gs_registered s)
      then (case registry_get now circuitName None (gs_breakers s) of
          Inl e \<Rightarrow> (Inl e, s) | Inr (b, reg) \<Rightarrow> (Inr b, s\<lparr>gs_breakers := reg\<rparr>))
      else (let s1 = s\<lparr>gs_registered := circuitName # gs_registered s\<rparr>
            in case registry_get now circuitName (Some (gw_options circuitName)) (gs_breakers s1) of
                 Inl e \<Rightarrow> (Inl e, s1) | Inr (b, reg) \<Rightarrow> (Inr b, s1\<lparr>gs_breakers := reg\<rparr>)))"

definition upper :: "string \<Rightarrow> string" where
  "upper = map (\<lambda>c. if of_char c \<in> {97 .. 122 :: nat} then char_of (of_char c - 32 :: nat) else c)"

text \<open>The handler of a route. Its breaker is looked up when the route is mounted; breakers live by
  reference, so the registry's entry is the one executed. \<open>out\<close> is the fate of the proxied call: the
  response was closed, whatever its status; the proxy failed; or the breaker's timeout came first.\<close>

definition proxyHandler :: "RouteConfig \<Rightarrow> time \<Rightarrow> time \<Rightarrow> unit outcome \<Rightarrow> gw_request \<Rightarrow> (gw_state, unit) proc" where
  "proxyHandler rt start finish out r s =
     (let name = ups_circuitName (rc_upstream rt)
      in if (case rc_methods rt of None \<Rightarrow> False | Some ms \<Rightarrow> ms \<noteq> [] \<and> upper (gw_method r) \<notin> set ms)
         then (Inl (ApiError 405 ''METHOD_NOT_ALLOWED''), s)
         else (case gs_breakers s name of
           None \<Rightarrow> (Inl (PlainError ''not mounted''), s)
         | Some b \<Rightarrow>
             (case cb_admit start b of
                (Inl e, b1) \<Rightarrow>
                  (Inl (if e = CircuitBreakerOpenError then ApiError 503 ''GATEWAY_UPSTREAM_CIRCUIT_OPEN''
                        else ApiError 502 ''GATEWAY_UPSTREAM_ERROR''), s\<lparr>gs_breakers := (gs_breakers s)(name \<mapsto> b1)\<rparr>)
              | (Inr _, b1) \<Rightarrow>
                  (case cb_finish finish out b1 of
                     (res, b2) \<Rightarrow>
                       (let s2 = s\<lparr>gs_breakers := (gs_breakers s)(name \<mapsto> b2),
                              gs_sent := gs_sent s @ [(ups_name (rc_upstream rt), r)]\<rparr>
                        in case res of
                             Inr _ \<Rightarrow> (Inr (), s2)
                           | Inl CircuitBreakerTimeoutError \<Rightarrow> (Inl (ApiError 504 ''GATEWAY_UPSTREAM_ERROR''), s2)
                           | Inl _ \<Rightarrow> (Inl (ApiError 502 ''GATEWAY_UPSTREAM_ERROR''), s2))))))"

section \<open>Dispatch\<close>

text \<open>Express matches a mounted prefix without regard to case and up to a segment boundary; the
  handler of a match is terminal, so the first match decides.\<close>

definition lower :: "string \<Rightarrow> string" where
  "lower = map (\<lambda>c. if of_char c \<in> {65 .. 90 :: nat} then char_of (of_char c + 32 :: nat) else c)"

definition mounted :: "string \<Rightarrow> string \<Rightarrow> bool" where
  "mounted prefix path \<longleftrightarrow> take (length prefix) (lower path) = prefix \<and>
     (drop (length prefix) path = [] \<or> hd (drop (length prefix) path) = CHR ''/'')"

definition handle_route :: "gw_env \<Rightarrow> RouteConfig \<Rightarrow> link \<Rightarrow> time \<Rightarrow> time \<Rightarrow> unit outcome \<Rightarrow> gw_request \<Rightarrow> (gw_state, unit) proc" where
  "handle_route env rt lk now finish out r s =
     (case resolveAuthMiddleware (rc_auth rt) (ge_account env) now r of
        Inl e \<Rightarrow> (Inl e, s)
      | Inr r1 \<Rightarrow>
          (case rateLimitMiddleware env (rc_rateLimit rt) lk now r1 s of
             ((_, Some e), s1) \<Rightarrow> (Inl e, s1)
           | ((_, None), s1) \<Rightarrow> proxyHandler rt now finish out r1 s1))"

definition gateway :: "gw_env \<Rightarrow> link \<Rightarrow> time \<Rightarrow> time \<Rightarrow> unit outcome \<Rightarrow> gw_request \<Rightarrow> (gw_state, unit) proc" where
  "gateway env lk now finish out r s =
     (case List.find (\<lambda>rt. mounted (rc_prefix rt) (gw_path r)) routes of
        None \<Rightarrow> (Inl (ApiError 404 ''NOT_FOUND''), s)
      | Some rt \<Rightarrow> handle_route env rt lk now finish out r s)"

text \<open>Mounting creates the breakers.\<close>

fun mountRoutes :: "time \<Rightarrow> RouteConfig list \<Rightarrow> (gw_state, unit) proc" where
  "mountRoutes now [] s = (Inr (), s)"
| "mountRoutes now (rt # rts) s = then_proc (getBreaker now (ups_circuitName (rc_upstream rt))) (\<lambda>_. mountRoutes now rts) s"

end
