(* ===== verification/AccountApi.thy ===== *)
theory AccountApi
  imports Gateway
begin

text \<open>
  The HTTP interface of the user service: request schemas (\<open>dto\<close>), \<open>trustGatewayHeaders\<close> and
  \<open>validateSchema\<close> of \<open>packages/middleware\<close>, the controllers with the cookies they set and clear, and
  the routes that chain them. A body is the record of its string fields; \<open>None\<close> is a body without
  them. Formats that Zod checks itself, e-mail and UUID, are arguments. Cookies stay on the response
  when the handler throws.
\<close>

section \<open>Schemas\<close>

record formats =
  valid_email :: "string \<Rightarrow> bool"
  valid_uuid :: "string \<Rightarrow> bool"

record VerifyPasswordResetOtpRequestDto =
  vr_sessionId :: ident
  vr_otp :: string

record ResetPasswordRequestDto =
  rs_passwordResetToken :: string
  rs_password :: string
  rs_confirmPassword :: string

record LoginRequestDto =
  lg_email :: string
  lg_password :: string

definition emailSchema :: "formats \<Rightarrow> string \<Rightarrow> string option" where
  "emailSchema fm e = (if valid_email fm e then Some (js_trim e) else None)"

definition uuidSchema :: "formats \<Rightarrow> string \<Rightarrow> string option" where
  "uuidSchema fm i = (if valid_uuid fm i then Some i else None)"

definition firstNameSchema :: "string \<Rightarrow> string option" where
  "firstNameSchema n = (let t = js_trim n in if 3 \<le> length t \<and> length t \<le> 50 then Some t else None)"

definition lastNameSchema :: "string \<Rightarrow> string option" where
  "lastNameSchema n = (let t = js_trim n in if 2 \<le> length t \<and> length t \<le> 50 then Some t else None)"

definition char_in :: "nat \<Rightarrow> nat \<Rightarrow> char \<Rightarrow> bool" where
  "char_in a b c \<longleftrightarrow> a \<le> of_char c \<and> of_char c \<le> b"

definition passwordSchema :: "string \<Rightarrow> string option" where
  "passwordSchema p =
     (if 6 \<le> length p \<and> list_ex (char_in 65 90) p \<and> list_ex (char_in 48 57) p \<and>
         list_ex (\<lambda>c. \<not> char_in 97 122 c \<and> \<not> char_in 65 90 c \<and> \<not> char_in 48 57 c) p
      then Some p else None)"

definition otpSchema :: "string \<Rightarrow> string option" where
  "otpSchema x = (if length x = 6 \<and> list_all (char_in 48 57) x then Some x else None)"

definition RegisterSchema :: "formats \<Rightarrow> RegisterRequestDto \<Rightarrow> RegisterRequestDto option" where
  "RegisterSchema fm d =
     (case (firstNameSchema (rq_firstName d), lastNameSchema (rq_lastName d), emailSchema fm (rq_email d), passwordSchema (rq_password d)) of
        (Some f, Some n, Some e, Some p) \<Rightarrow> Some \<lparr>rq_firstName = f, rq_lastName = n, rq_email = e, rq_password = p\<rparr>
      | _ \<Rightarrow> None)"

definition LoginSchema :: "formats \<Rightarrow> LoginRequestDto \<Rightarrow> LoginRequestDto option" where
  "LoginSchema fm d =
     (case (emailSchema fm (lg_email d), passwordSchema (lg_password d)) of
        (Some e, Some p) \<Rightarrow> Some \<lparr>lg_email = e, lg_password = p\<rparr> | _ \<Rightarrow> None)"

definition VerifyPasswordResetOtpRequestSchema :: "formats \<Rightarrow> VerifyPasswordResetOtpRequestDto \<Rightarrow> VerifyPasswordResetOtpRequestDto option" where
  "VerifyPasswordResetOtpRequestSchema fm d =
     (case (uuidSchema fm (vr_sessionId d), otpSchema (vr_otp d)) of
        (Some i, Some x) \<Rightarrow> Some \<lparr>vr_sessionId = i, vr_otp = x\<rparr> | _ \<Rightarrow> None)"

definition ResetPasswordRequestSchema :: "formats \<Rightarrow> ResetPasswordRequestDto \<Rightarrow> ResetPasswordRequestDto option" where
  "ResetPasswordRequestSchema fm d =
     (case (uuidSchema fm (rs_passwordResetToken d), passwordSchema (rs_password d), passwordSchema (rs_confirmPassword d)) of
        (Some t, Some p, Some q) \<Rightarrow>
          if p = q then Some \<lparr>rs_passwordResetToken = t, rs_password = p, rs_confirmPassword = q\<rparr> else None
      | _ \<Rightarrow> None)"

text \<open>A field that is absent stays absent; one that is present has to fit.\<close>

definition optional_field :: "(string \<Rightarrow> string option) \<Rightarrow> string option \<Rightarrow> string option option" where
  "optional_field f v = (case v of None \<Rightarrow> Some None | Some x \<Rightarrow> map_option Some (f x))"

definition UpdateProfileSchema :: "UpdateProfileDto \<Rightarrow> UpdateProfileDto option" where
  "UpdateProfileSchema d =
     (case (optional_field firstNameSchema (up_firstName d), optional_field lastNameSchema (up_lastName d)) of
        (Some f, Some n) \<Rightarrow> if f \<noteq> None \<or> n \<noteq> None then Some \<lparr>up_firstName = f, up_lastName = n\<rparr> else None
      | _ \<Rightarrow> None)"

section \<open>Middleware\<close>

record http_request =
  hr_headers :: headers
  hr_cookies :: "string \<rightharpoonup> string"
  hr_ip :: "string option"

record service_user =
  su_userId :: ident
  su_sessionId :: ident
  su_email :: "string option"

definition header :: "http_request \<Rightarrow> string \<Rightarrow> string option" where
  "header r h = (case hr_headers r h of Some (v # _) \<Rightarrow> if v = [] then None else Some v | _ \<Rightarrow> None)"

definition trustGatewayHeaders :: "http_request \<Rightarrow> service_user option" where
  "trustGatewayHeaders r =
     (case (header r ''x-user-id'', header r ''x-session-id'') of
        (Some u, Some sid) \<Rightarrow> Some \<lparr>su_userId = u, su_sessionId = sid, su_email = header r ''x-user-email''\<rparr>
      | _ \<Rightarrow> None)"

definition validateSchema :: "('a \<Rightarrow> 'b option) \<Rightarrow> 'a option \<Rightarrow> exn + 'b" where
  "validateSchema schema body =
     (case body of
        None \<Rightarrow> Inl (ApiError 400 ''INVALID_INPUT'')
      | Some b \<Rightarrow> (case schema b of None \<Rightarrow> Inl (ApiError 400 ''INVALID_INPUT'') | Some x \<Rightarrow> Inr x))"

section \<open>Controllers\<close>

datatype cookie_op = SetCookie string string int | ClearCookie string

datatype account_body =
    EmptyBody
  | UserBody UserResponseDto
  | SessionsBody "(SessionSummaryDto \<times> bool) list"
  | SessionIdBody ident
  | ResetTokenBody string

type_synonym http_answer = "cookie_op list \<times> (exn + nat \<times> account_body)"
type_synonym handler = "account_db \<Rightarrow> http_answer \<times> account_db"

definition refuse :: "exn \<Rightarrow> handler" where
  "refuse e s = (([], Inl e), s)"

text \<open>What follows the service call when it succeeds.\<close>

definition answering :: "'a acc \<Rightarrow> ('a \<Rightarrow> cookie_op list \<times> nat \<times> account_body) \<Rightarrow> handler" where
  "answering m f s =
     (case m s of (Inl e, s') \<Rightarrow> (([], Inl e), s') | (Inr x, s') \<Rightarrow> (case f x of (cs, out) \<Rightarrow> ((cs, Inr out), s')))"

definition auth_cookies :: "account_env \<Rightarrow> AuthResponseDto \<Rightarrow> cookie_op list" where
  "auth_cookies env resp =
     [SetCookie ''access_token'' (ar_accessToken resp) (ae_JWT_ACCESS_EXPIRES_IN env * 1000),
      SetCookie ''refresh_token'' (ar_refreshToken resp) (ae_JWT_REFRESH_EXPIRES_IN env * 1000)]"

definition clear_auth :: "cookie_op list" where
  "clear_auth = [ClearCookie ''access_token'', ClearCookie ''refresh_token'']"

definition nonempty :: "string option \<Rightarrow> string option" where
  "nonempty v = (case v of Some x \<Rightarrow> if x = [] then None else Some x | None \<Rightarrow> None)"

definition request_fingerprint :: "account_env \<Rightarrow> http_request \<Rightarrow> string" where
  "request_fingerprint env r = getDeviceFingerprint env (header r ''user-agent'') (hr_ip r) (header r ''accept'')"

definition ctl_sendOtp :: "account_env \<Rightarrow> (nat \<Rightarrow> link) \<Rightarrow> (exn \<times> bool) option \<Rightarrow> time \<Rightarrow> (nat \<Rightarrow> ident) \<Rightarrow> string \<Rightarrow> (nat \<Rightarrow> string) \<Rightarrow>
    RegisterRequestDto \<Rightarrow> handler" where
  "ctl_sendOtp env l pub now u otp salt payload =
     answering (sendOtp env l pub now u otp salt payload)
       (\<lambda>sessionId. ([SetCookie ''otp_session'' sessionId (ae_REGISTRATION_OTP_TTL env * 1000)], 200, EmptyBody))"

definition ctl_verifyOtp :: "account_env \<Rightarrow> (nat \<Rightarrow> link) \<Rightarrow> exec_outcome \<Rightarrow> exn option \<Rightarrow> time \<Rightarrow> ident \<Rightarrow> string \<Rightarrow> http_request \<Rightarrow> handler" where
  "ctl_verifyOtp env l x delErr now userId otp r =
     (case nonempty (hr_cookies r ''otp_session'') of
        None \<Rightarrow> refuse (ApiError 400 ''OTP_SESSION_NOT_FOUND'')
      | Some sessionId \<Rightarrow>
          answering (verifyAndRegister env l x delErr now userId sessionId otp (request_fingerprint env r) (hr_ip r) (header r ''user-agent''))
            (\<lambda>resp. (auth_cookies env resp @ [ClearCookie ''otp_session''], 201, UserBody (ar_user resp))))"

definition ctl_login :: "account_env \<Rightarrow> (nat \<Rightarrow> link) \<Rightarrow> exec_outcome \<Rightarrow> (exn \<times> bool) option \<Rightarrow> time \<Rightarrow> (nat \<Rightarrow> ident) \<Rightarrow> LoginRequestDto \<Rightarrow> http_request \<Rightarrow> handler" where
  "ctl_login env l x pub now u payload r =
     answering (login env l x pub now u (lg_email payload) (lg_password payload) (request_fingerprint env r) (hr_ip r) (header r ''user-agent''))
       (\<lambda>resp. (auth_cookies env resp, 200, UserBody (ar_user resp)))"

definition ctl_refresh :: "account_env \<Rightarrow> (nat \<Rightarrow> link) \<Rightarrow> time \<Rightarrow> http_request \<Rightarrow> handler" where
  "ctl_refresh env l now r s =
     (case nonempty (hr_cookies r ''refresh_token'') of
        None \<Rightarrow> ((clear_auth, Inl (ApiError 401 ''REFRESH_TOKEN_MISSING'')), s)
      | Some token \<Rightarrow>
          (case answering (refresh env l now token (request_fingerprint env r))
              (\<lambda>resp. (auth_cookies env resp, 200, UserBody (ar_user resp))) s of
             ((cs, Inl err), s') \<Rightarrow> ((cs @ clear_auth, Inl err), s')
           | (a, s') \<Rightarrow> (a, s')))"

definition ctl_getSessions :: "(nat \<Rightarrow> link) \<Rightarrow> time \<Rightarrow> service_user \<Rightarrow> handler" where
  "ctl_getSessions l now user =
     answering (getSessions l now (su_userId user))
       (\<lambda>sessions. ([], 200, SessionsBody (map (\<lambda>x. (x, sm_sessionId x = su_sessionId user)) sessions)))"

definition ctl_revokeSession :: "(nat \<Rightarrow> link) \<Rightarrow> time \<Rightarrow> ident \<Rightarrow> service_user \<Rightarrow> handler" where
  "ctl_revokeSession l now sessionId user =
     answering (revokeSession l now sessionId (su_userId user)) (\<lambda>_. ([], 200, EmptyBody))"

definition ctl_logout :: "account_env \<Rightarrow> (nat \<Rightarrow> link) \<Rightarrow> time \<Rightarrow> http_request \<Rightarrow> handler" where
  "ctl_logout env l now r =
     answering (logoutByRefreshToken env l now (hr_cookies r ''refresh_token'')) (\<lambda>_. (clear_auth, 200, EmptyBody))"

definition ctl_logoutAll :: "account_env \<Rightarrow> (nat \<Rightarrow> link) \<Rightarrow> time \<Rightarrow> http_request \<Rightarrow> handler" where
  "ctl_logoutAll env l now r =
     answering (logoutAllByRefreshToken env l now (hr_cookies r ''refresh_token'')) (\<lambda>_. (clear_auth, 200, EmptyBody))"

definition ctl_forgotPassword :: "account_env \<Rightarrow> (nat \<Rightarrow> link) \<Rightarrow> (exn \<times> bool) option \<Rightarrow> time \<Rightarrow> (nat \<Rightarrow> ident) \<Rightarrow> string \<Rightarrow> string \<Rightarrow> string \<Rightarrow> handler" where
  "ctl_forgotPassword env l pub now u otp salt email =
     answering (forgotPassword env l pub now u otp salt email) (\<lambda>sessionId. ([], 200, SessionIdBody sessionId))"

definition ctl_VerifyPasswordResetOtp :: "account_env \<Rightarrow> (nat \<Rightarrow> link) \<Rightarrow> time \<Rightarrow> string \<Rightarrow> VerifyPasswordResetOtpRequestDto \<Rightarrow> handler" where
  "ctl_VerifyPasswordResetOtp env l now token data =
     answering (VerifyPasswordResetOtp env l now token (vr_sessionId data) (vr_otp data)) (\<lambda>t. ([], 200, ResetTokenBody t))"

definition ctl_resetPassword :: "account_env \<Rightarrow> (nat \<Rightarrow> link) \<Rightarrow> time \<Rightarrow> string \<Rightarrow> ResetPasswordRequestDto \<Rightarrow> handler" where
  "ctl_resetPassword env l now salt data =
     answering (resetPassword env l now salt (rs_passwordResetToken data) (rs_password data)) (\<lambda>_. (clear_auth, 200, EmptyBody))"

definition ctl_getProfile :: "(nat \<Rightarrow> link) \<Rightarrow> time \<Rightarrow> service_user \<Rightarrow> handler" where
  "ctl_getProfile l now user s =
     (case getUserById l now (su_userId user) s of
        (Inl e, s') \<Rightarrow> (([], Inl e), s')
      | (Inr None, s') \<Rightarrow> (([], Inl (ApiError 404 ''USER_NOT_FOUND'')), s')
      | (Inr (Some p), s') \<Rightarrow> (([], Inr (200, UserBody p)), s'))"

definition ctl_updateProfile :: "(nat \<Rightarrow> link) \<Rightarrow> time \<Rightarrow> service_user \<Rightarrow> UpdateProfileDto \<Rightarrow> handler" where
  "ctl_updateProfile l now user update =
     answering (updateProfile l now (su_userId user) update) (\<lambda>p. ([], 200, UserBody p))"

section \<open>Routes\<close>

definition valid :: "(exn + 'b) \<Rightarrow> ('b \<Rightarrow> handler) \<Rightarrow> handler" where
  "valid v f = (case v of Inl e \<Rightarrow> refuse e | Inr x \<Rightarrow> f x)"

text \<open>\<open>trustGatewayHeaders\<close>, then \<open>sessionMiddleware\<close>, then the handler.\<close>

definition authenticated :: "(nat \<Rightarrow> link) \<Rightarrow> time \<Rightarrow> http_request \<Rightarrow> (service_user \<Rightarrow> handler) \<Rightarrow> handler" where
  "authenticated l now r f s =
     (let user = trustGatewayHeaders r
      in case sessionMiddleware (from_link 100 l) now (case user of None \<Rightarrow> [] | Some u \<Rightarrow> su_userId u) (map_option su_sessionId user) s of
           (Inl e, s') \<Rightarrow> (([], Inl e), s')
         | (Inr _, s') \<Rightarrow> (case user of None \<Rightarrow> refuse (PlainError ''TypeError'') s' | Some u \<Rightarrow> f u s'))"

definition post_send_otp :: "formats \<Rightarrow> account_env \<Rightarrow> (nat \<Rightarrow> link) \<Rightarrow> (exn \<times> bool) option \<Rightarrow> time \<Rightarrow> (nat \<Rightarrow> ident) \<Rightarrow> string \<Rightarrow> (nat \<Rightarrow> string) \<Rightarrow>
    RegisterRequestDto option \<Rightarrow> handler" where
  "post_send_otp fm env l pub now u otp salt body =
     valid (validateSchema (RegisterSchema fm) body) (ctl_sendOtp env l pub now u otp salt)"

definition post_verify_otp :: "account_env \<Rightarrow> (nat \<Rightarrow> link) \<Rightarrow> exec_outcome \<Rightarrow> exn option \<Rightarrow> time \<Rightarrow> ident \<Rightarrow> string option \<Rightarrow> http_request \<Rightarrow> handler" where
  "post_verify_otp env l x delErr now userId body r =
     valid (validateSchema otpSchema body) (\<lambda>otp. ctl_verifyOtp env l x delErr now userId otp r)"

definition post_login :: "formats \<Rightarrow> account_env \<Rightarrow> (nat \<Rightarrow> link) \<Rightarrow> exec_outcome \<Rightarrow> (exn \<times> bool) option \<Rightarrow> time \<Rightarrow> (nat \<Rightarrow> ident) \<Rightarrow>
    LoginRequestDto option \<Rightarrow> http_request \<Rightarrow> handler" where
  "post_login fm env l x pub now u body r =
     valid (validateSchema (LoginSchema fm) body) (\<lambda>payload. ctl_login env l x pub now u payload r)"

definition get_sessions :: "(nat \<Rightarrow> link) \<Rightarrow> time \<Rightarrow> http_request \<Rightarrow> handler" where
  "get_sessions l now r = authenticated l now r (ctl_getSessions l now)"

definition delete_session :: "formats \<Rightarrow> (nat \<Rightarrow> link) \<Rightarrow> time \<Rightarrow> string \<Rightarrow> http_request \<Rightarrow> handler" where
  "delete_session fm l now param r =
     valid (validateSchema (uuidSchema fm) (Some param)) (\<lambda>sid. authenticated l now r (ctl_revokeSession l now sid))"

definition post_forgot_password :: "formats \<Rightarrow> account_env \<Rightarrow> (nat \<Rightarrow> link) \<Rightarrow> (exn \<times> bool) option \<Rightarrow> time \<Rightarrow> (nat \<Rightarrow> ident) \<Rightarrow> string \<Rightarrow> string \<Rightarrow>
    string option \<Rightarrow> handler" where
  "post_forgot_password fm env l pub now u otp salt body =
     valid (validateSchema (emailSchema fm) body) (ctl_forgotPassword env l pub now u otp salt)"

definition post_verify_reset_otp :: "formats \<Rightarrow> account_env \<Rightarrow> (nat \<Rightarrow> link) \<Rightarrow> time \<Rightarrow> string \<Rightarrow> VerifyPasswordResetOtpRequestDto option \<Rightarrow> handler" where
  "post_verify_reset_otp fm env l now token body =
     valid (validateSchema (VerifyPasswordResetOtpRequestSchema fm) body) (ctl_VerifyPasswordResetOtp env l now token)"

definition post_reset_password :: "formats \<Rightarrow> account_env \<Rightarrow> (nat \<Rightarrow> link) \<Rightarrow> time \<Rightarrow> string \<Rightarrow> ResetPasswordRequestDto option \<Rightarrow> handler" where
  "post_reset_password fm env l now salt body =
     valid (validateSchema (ResetPasswordRequestSchema fm) body) (ctl_resetPassword env l now salt)"

definition get_me :: "(nat \<Rightarrow> link) \<Rightarrow> time \<Rightarrow> http_request \<Rightarrow> handler" where
  "get_me l now r = authenticated l now r (ctl_getProfile l now)"

definition put_me :: "(nat \<Rightarrow> link) \<Rightarrow> time \<Rightarrow> UpdateProfileDto option \<Rightarrow> http_request \<Rightarrow> handler" where
  "put_me l now body r =
     authenticated l now r (\<lambda>user. valid (validateSchema UpdateProfileSchema body) (ctl_updateProfile l now user))"

end
