(* ===== verification/Profiles.thy ===== *)
theory Profiles
  imports AccountProps
begin

text \<open>
  The profile cache of the user service: over a healthy connection every cached profile is the one
  of the user's row.
\<close>

section \<open>Calls and the profiles' keys\<close>

definition prof_key :: "string \<Rightarrow> bool" where
  "prof_key k \<longleftrightarrow> (\<exists>i. k = k_userProfile i)"

lemma prof_key_simps [simp]:
  "prof_key (k_userProfile i)" "\<not> prof_key (k_authSession i)" "\<not> prof_key (k_userSessions i)" "\<not> prof_key (k_otp i)"
  "\<not> prof_key (k_registrationSession i)" "\<not> prof_key (k_forgotPasswordSession i)" "\<not> prof_key (k_passwordResetToken i)"
  "\<not> prof_key (k_otpRate i)" "\<not> prof_key (k_otpAttempts i)" "\<not> prof_key (k_otpSession i)"
  by (auto simp: prof_key_def key_defs)

lemma leaves_set_commands [leaves_intros]:
  "\<not> K k \<Longrightarrow> leaves K (kv_do lk (c_sadd now k i))" "\<not> K k \<Longrightarrow> leaves K (kv_do lk (c_srem now k i))"
  by (intro leaves_kv; auto simp: c_sadd_def c_srem_def split: option.splits rval.splits)+

lemma leaves_rval [leaves_intros]:
  assumes "\<And>x. leaves K (a x)" "\<And>x. leaves K (b x)" "\<And>x. leaves K (c x)" "\<And>x. leaves K (d x)" "\<And>x. leaves K (e x)" "\<And>x. leaves K (f x)"
  shows "leaves K (case v of VText x \<Rightarrow> a x | VCount x \<Rightarrow> b x | VIds x \<Rightarrow> c x | VSession x \<Rightarrow> d x | VRegistration x \<Rightarrow> e x | VProfile x \<Rightarrow> f x)"
  using assms by (cases v) simp_all

lemma leaves_create: "leaves prof_key (createAuthSession env l x now i sid token fp ip ua)"
proof -
  have m: "session_multi now sid i r e1 e2 e3 st k = st k" if "prof_key k" for r e1 e2 e3 st k
  proof -
    have "k \<noteq> k_authSession sid" "k \<noteq> k_userSessions i" using that by auto
    then show ?thesis
      by (simp add: session_multi_def c_set_def redis_set_ex_def c_sadd_def c_expire_def redis_expire_def Let_def SESSION_TTL_SECONDS_def
          split: option.split rval.split)
  qed
  have u: "leaves prof_key (then_proc (settled (kv_do (l 0) (c_del [k_authSession sid]))) (\<lambda>_.
      then_proc (settled (kv_do (l 1) (c_srem now (k_userSessions i) sid))) (\<lambda>_.
      throw (PlainError ''Failed to persist authentication session''))) :: unit acc)" by (intro leaves_intros) auto
  have after: "leaves prof_key (\<lambda>s. c (s\<lparr>ac_kv := session_multi now sid i (r s) e1 e2 e3 (ac_kv s)\<rparr>))"
    if "leaves prof_key c" for c :: "unit acc" and r e1 e2 e3
    using that m by (simp add: leaves_def)
  let ?r = "new_session env now i token fp ip ua"
  show ?thesis
  proof (cases x)
    case (ExecDone e1 e2 e3)
    show ?thesis
    proof (cases "e1 \<or> e2 \<or> e3")
      case True
      then have "createAuthSession env l x now i sid token fp ip ua = (\<lambda>s. (then_proc (settled (kv_do (l 0) (c_del [k_authSession sid]))) (\<lambda>_.
        then_proc (settled (kv_do (l 1) (c_srem now (k_userSessions i) sid))) (\<lambda>_.
        throw (PlainError ''Failed to persist authentication session'')))) (s\<lparr>ac_kv := session_multi now sid i ?r e1 e2 e3 (ac_kv s)\<rparr>))"
        by (intro ext) (simp add: createAuthSession_def ExecDone Let_def)
      then show ?thesis using after [OF u] by simp
    next
      case False
      then have "createAuthSession env l x now i sid token fp ip ua = (\<lambda>s. return () (s\<lparr>ac_kv := session_multi now sid i ?r e1 e2 e3 (ac_kv s)\<rparr>))"
        by (intro ext) (simp add: createAuthSession_def ExecDone Let_def)
      then show ?thesis using after [OF leaves_basic(1)] by simp
    qed
  next
    case ExecNull
    then show ?thesis by (simp add: leaves_def createAuthSession_def Let_def throw_def)
  next
    case (ExecThrows applied)
    then show ?thesis using m by (simp add: leaves_def createAuthSession_def Let_def throw_def)
  qed
qed

lemma leaves_logouts:
  "leaves prof_key (logout l now sid i)" "leaves prof_key (logoutAll l now i)"
  unfolding logout_def logoutAll_def by (intro leaves_intros; auto)+

lemma leaves_sum [leaves_intros]:
  assumes "leaves K m" and "\<And>x. leaves K (f x)" and "\<And>e. leaves K (g e)"
  shows "leaves K (\<lambda>s. case m s of (Inr x, s') \<Rightarrow> f x s' | (Inl e, s') \<Rightarrow> g e s')"
  unfolding leaves_def
proof (intro allI impI)
  fix s k assume "K k"
  then show "ac_kv (snd (case m s of (Inr x, s') \<Rightarrow> f x s' | (Inl e, s') \<Rightarrow> g e s')) k = ac_kv s k"
  proof (cases "m s")
    case (Pair r s1)
    then have "ac_kv s1 k = ac_kv s k" using leavesD [OF assms(1)] \<open>K k\<close> by blast
    then show ?thesis using assms(2,3) Pair \<open>K k\<close> unfolding leaves_def by (cases r) simp_all
  qed
qed

lemma same_users_sum [users_intros]:
  assumes "same_users m" and "\<And>x. same_users (f x)" and "\<And>e. same_users (g e)"
  shows "same_users (\<lambda>s. case m s of (Inr x, s') \<Rightarrow> f x s' | (Inl e, s') \<Rightarrow> g e s')"
  unfolding same_users_def
proof
  fix s
  show "ac_users (snd (case m s of (Inr x, s') \<Rightarrow> f x s' | (Inl e, s') \<Rightarrow> g e s')) = ac_users s"
  proof (cases "m s")
    case (Pair r s1)
    then have "ac_users s1 = ac_users s" by (rule same_usersD [OF assms(1)])
    then show ?thesis using assms(2,3) Pair unfolding same_users_def by (cases r) simp_all
  qed
qed

lemmas otp_apart = leaves_otp_calls [of prof_key, simplified]

lemma same_users_publish [users_intros]:
  assumes "same_users x" and "same_users y"
  shows "same_users (\<lambda>s. case publish pub e s of (Inr _, s2) \<Rightarrow> x s2 | (Inl _, s2) \<Rightarrow> y s2)"
  using same_users_sum [OF same_users_basic(4) assms] .

lemma same_users_sendOtp [users_intros]: "same_users (sendOtp env l pub now u otp salt data)"
proof -
  have "same_users (then_proc (findExistingOtpSession (l 0) now (rq_email data)) (\<lambda>existingSessionId.
          let reg = registration_data env (salt 0) data
          in then_proc (case existingSessionId of
                 Some sessionId \<Rightarrow>
                   then_proc (replaceOtp env (from_link 10 l) now sessionId (salt 1) (rq_email data) otp (ae_REGISTRATION_OTP_TTL env)) (\<lambda>_.
                   then_proc (storeRegistrationSession env (l 1) now sessionId reg) (\<lambda>_. return sessionId))
               | None \<Rightarrow>
                   then_proc (storeOtp env (from_link 10 l) now (u 0) (salt 1) (rq_email data) otp (ae_REGISTRATION_OTP_TTL env)) (\<lambda>sessionId.
                   then_proc (storeRegistrationSession env (l 1) now sessionId reg) (\<lambda>_. return sessionId))) (\<lambda>sessionId s1.
             case publish pub (OTPRequestedV1 (u 1) (rq_email data) otp REGISTRATION (ae_REGISTRATION_OTP_TTL env)) s1 of
               (Inr _, s2) \<Rightarrow> return sessionId s2
             | (Inl _, s2) \<Rightarrow>
                 then_proc (if existingSessionId = None
                            then then_proc (deleteRegistrationSession (l 2) sessionId) (\<lambda>_. deleteOtpSession (l 3) (rq_email data))
                            else return ()) (\<lambda>_. throw (ApiError 502 ''KAFKA_PUBLISH_FAILED'')) s2)))"
    unfolding Let_def by (intro users_intros)
  then show ?thesis
    by (simp add: same_users_def sendOtp_def throw_def split: option.split)
qed

lemma same_users_calls [users_intros]:
  "same_users (forgotPassword env l pub now u otp salt1 email)" "same_users (VerifyPasswordResetOtp env l now token sid otp)"
  "same_users (login env l x pub now u' email password fp ip ua)" "same_users (revokeSession l now sid i)"
  "same_users (sessionMiddleware l now i sess)" "same_users (logoutByRefreshToken env l now tok)"
  "same_users (logoutAllByRefreshToken env l now tok)"
  unfolding forgotPassword_def VerifyPasswordResetOtp_def login_def revokeSession_def sessionMiddleware_def refreshes_def
    logoutByRefreshToken_def logoutAllByRefreshToken_def Let_def
  by (intro users_intros)+

lemma leaves_calls:
  "leaves prof_key (login env l x pub now u email password fp ip ua)" "leaves prof_key (revokeSession l now sid i)"
  "leaves prof_key (sessionMiddleware l now i sess)" "leaves prof_key (logoutByRefreshToken env l now tok)"
  "leaves prof_key (logoutAllByRefreshToken env l now tok)"
  unfolding login_def revokeSession_def sessionMiddleware_def refreshes_def
    logoutByRefreshToken_def logoutAllByRefreshToken_def Let_def
  by (intro leaves_intros leaves_create leaves_logouts; simp)+

lemma fetch_kept:
  "same_users (fetch_sessions l now (k_userSessions i) k ids)" "leaves prof_key (fetch_sessions l now (k_userSessions i) k ids)"
proof -
  have f: "same_users (fetch_session l now (k_userSessions i) k j)" "leaves prof_key (fetch_session l now (k_userSessions i) k j)" for k j
    unfolding fetch_session_def by (intro users_intros) (intro leaves_intros; simp)
  have "ac_users (snd (fetch_sessions l now (k_userSessions i) k ids s)) = ac_users s \<and>
    (\<forall>x. prof_key x \<longrightarrow> ac_kv (snd (fetch_sessions l now (k_userSessions i) k ids s)) x = ac_kv s x)" for s
  proof (induction ids arbitrary: k s)
    case (Cons j ids)
    obtain r s1 where r: "fetch_session l now (k_userSessions i) k j s = (r, s1)" by fastforce
    obtain rs s2 where rs: "fetch_sessions l now (k_userSessions i) (k + 2) ids s1 = (rs, s2)" by fastforce
    show ?case
      using same_usersD [OF f(1) r] leavesD [OF f(2) r] Cons.IH [of "k + 2" s1] r rs by simp
  qed simp
  then show "same_users (fetch_sessions l now (k_userSessions i) k ids)" "leaves prof_key (fetch_sessions l now (k_userSessions i) k ids)"
    by (simp_all add: same_users_def leaves_def)
qed

lemma getSessions_kept: "same_users (getSessions l now i)" "leaves prof_key (getSessions l now i)"
  unfolding getSessions_def by (intro users_intros fetch_kept) (intro leaves_intros fetch_kept)

lemma rotate_kept: "same_users (rotate env l now token fp i sid r)" "leaves prof_key (rotate env l now token fp i sid r)"
proof -
  have u: "same_users (\<lambda>s. case user_findById j s of None \<Rightarrow> throw err s | Some u \<Rightarrow> f u s)"
    if "\<And>u. same_users (f u)" for f :: "User \<Rightarrow> AuthResponseDto acc" and err j
    using that by (simp add: same_users_def throw_def split: option.split)
  have k: "leaves prof_key (\<lambda>s. case user_findById j s of None \<Rightarrow> throw err s | Some u \<Rightarrow> f u s)"
    if "\<And>u. leaves prof_key (f u)" for f :: "User \<Rightarrow> AuthResponseDto acc" and err j
    using that by (simp add: leaves_def throw_def split: option.split)
  show "same_users (rotate env l now token fp i sid r)"
    unfolding rotate_def Let_def by (intro users_intros u)
  show "leaves prof_key (rotate env l now token fp i sid r)"
    unfolding rotate_def Let_def by (intro leaves_intros leaves_logouts k; simp)
qed

lemma refresh_kept: "same_users (refresh env l now token fp)" "leaves prof_key (refresh env l now token fp)"
proof -
  let ?b = "case verifyRefreshToken env now token of
            None \<Rightarrow> throw (ApiError 401 ''INVALID_REFRESH_TOKEN'')
          | Some decoded \<Rightarrow>
              (case jc_sessionId decoded of
                 None \<Rightarrow> throw (ApiError 401 ''INVALID_REFRESH_TOKEN'')
               | Some sessionId \<Rightarrow>
                   if sessionId = [] then throw (ApiError 401 ''INVALID_REFRESH_TOKEN'')
                   else then_proc (kv_do (l 0) (c_get now (k_authSession sessionId))) (\<lambda>sessionJson.
                     case sessionJson of
                       None \<Rightarrow> throw (ApiError 401 ''SESSION_EXPIRED_OR_REVOKED'')
                     | Some (VSession session) \<Rightarrow> rotate env l now token fp (jc_sub decoded) sessionId session
                     | Some _ \<Rightarrow> throw SyntaxError))"
  have b: "same_users ?b" "leaves prof_key ?b"
    by (intro users_intros rotate_kept) (intro leaves_intros rotate_kept)
  have r: "snd (refresh env l now token fp s) = snd (?b s)" for s
    unfolding refresh_def Let_def by (simp split: prod.split sum.split exn.split)
  show "same_users (refresh env l now token fp)" using b(1) r unfolding same_users_def by metis
  show "leaves prof_key (refresh env l now token fp)" using b(2) r unfolding leaves_def by metis
qed

section \<open>The cache agrees with the table\<close>

definition profiles_ok :: "account_db \<Rightarrow> bool" where
  "profiles_ok s \<longleftrightarrow> (\<forall>i p x. ac_kv s (k_userProfile i) = Some (VProfile p, x) \<longrightarrow>
     map_option toUserResponseDto (user_findById i s) = Some p)"

text \<open>A step that leaves the cached profiles alone and changes no public column of a row.\<close>

lemma profiles_ok_step:
  assumes "profiles_ok s" and "\<And>i. ac_kv s' (k_userProfile i) = ac_kv s (k_userProfile i)"
    and "\<And>i u. user_findById i s = Some u \<Longrightarrow> map_option toUserResponseDto (user_findById i s') = Some (toUserResponseDto u)"
  shows "profiles_ok s'"
  unfolding profiles_ok_def
proof (intro allI impI)
  fix i p x assume "ac_kv s' (k_userProfile i) = Some (VProfile p, x)"
  then have "map_option toUserResponseDto (user_findById i s) = Some p" using assms(1,2) unfolding profiles_ok_def by metis
  then obtain u where u: "user_findById i s = Some u" "toUserResponseDto u = p" by blast
  show "map_option toUserResponseDto (user_findById i s') = Some p" using assms(3) [OF u(1)] u(2) by simp
qed

lemma profiles_ok_kept:
  assumes "profiles_ok s" and "same_users m" and "leaves prof_key m" shows "profiles_ok (snd (m s))"
  using assms by (intro profiles_ok_step [OF assms(1)]) (simp_all add: same_users_def leaves_def user_findById_def)

lemma profiles_ok_load:
  assumes "profiles_ok s" shows "profiles_ok (snd (load_profile lk now i s))"
proof (cases "user_findById i s")
  case (Some u)
  then show ?thesis using assms
    by (cases lk) (auto simp: load_profile_def call_simps kv_do_links PROFILE_CACHE_TTL_SECONDS_def profiles_ok_def user_findById_def
        toCache_def fun_upd_apply)
qed (use assms in \<open>simp add: load_profile_def throw_def return_def\<close>)

lemma profiles_ok_get:
  assumes "profiles_ok s" shows "profiles_ok (snd (getUserById l now i s))"
    and "fst (getUserById l now i s) = Inr (map_option toUserResponseDto (user_findById i s))"
proof -
  have load: "fst (load_profile lk now i s) = Inr (map_option toUserResponseDto (user_findById i s))" for lk
    by (simp add: load_profile_def call_simps split: option.split)
  have got: "map_option toUserResponseDto (user_findById i s) = Some p"
    if "redis_get now (k_userProfile i) (ac_kv s) = Some (VProfile p)" for p
    using that assms by (auto simp: profiles_ok_def redis_get_def split: option.splits if_splits)
  have g: "kv_do (l 0) (c_get now (k_userProfile i)) s = (Inr (redis_get now (k_userProfile i) (ac_kv s)), s) \<or>
      kv_do (l 0) (c_get now (k_userProfile i)) s = (Inl (PlainError ''connection''), s)"
    by (cases "l 0") (simp_all add: kv_do_links c_get_def)
  show "profiles_ok (snd (getUserById l now i s))"
    using g assms profiles_ok_load [OF assms]
    by (auto simp: getUserById_def return_def split: option.split rval.split)
  show "fst (getUserById l now i s) = Inr (map_option toUserResponseDto (user_findById i s))"
    using g load got by (auto simp: getUserById_def return_def split: option.split rval.split)
qed

lemma updateProfile_on:
  "(\<exists>e. updateProfile on now i up s = (Inl e, s)) \<or>
   (\<exists>v f. updateProfile on now i up s = (Inr (toUserResponseDto v), s\<lparr>ac_users := map (\<lambda>u. if us_id u = i then f u else u) (ac_users s),
      ac_kv := (ac_kv s)(k_userProfile i \<mapsto> (VProfile (toUserResponseDto v), Some (now + 3600 * 1000)))\<rparr>) \<and>
      (\<forall>u. us_id (f u) = us_id u) \<and> find_row (\<lambda>u. us_id u = i) (map (\<lambda>u. if us_id u = i then f u else u) (ac_users s)) = Some v)"
proof (cases "transaction (repo_updateProfile i up) s")
  case (Pair r s1)
  show ?thesis
  proof (cases r)
    case (Inl e)
    then show ?thesis using Pair by (auto simp: updateProfile_def then_proc_def transaction_def split: sum.splits prod.splits)
  next
    case (Inr v)
    let ?f = "\<lambda>u. u\<lparr>us_firstName := (case up_firstName up of None \<Rightarrow> us_firstName u | Some n \<Rightarrow> n),
       us_lastName := (case up_lastName up of None \<Rightarrow> us_lastName u | Some n \<Rightarrow> n)\<rparr>"
    have s1: "s1 = s\<lparr>ac_users := map (\<lambda>u. if us_id u = i then ?f u else u) (ac_users s)\<rparr>"
      "find_row (\<lambda>u. us_id u = i) (map (\<lambda>u. if us_id u = i then ?f u else u) (ac_users s)) = Some v"
      using Pair Inr by (auto simp: transaction_eq_Inr_iff repo_updateProfile_def user_update_def bindE_eq_Inr_iff update_row_Inr_iff Let_def
          user_findById_def split: option.splits)
    have "updateProfile on now i up s = (Inr (toUserResponseDto v), s\<lparr>ac_users := map (\<lambda>u. if us_id u = i then ?f u else u) (ac_users s),
        ac_kv := (ac_kv s)(k_userProfile i \<mapsto> (VProfile (toUserResponseDto v), Some (now + 3600 * 1000)))\<rparr>)"
      using Pair Inr s1(1) by (simp add: updateProfile_def call_simps toCache_def PROFILE_CACHE_TTL_SECONDS_def)
    then show ?thesis using s1(2) by (intro disjI2 exI [where x = v] exI [where x = ?f]) simp
  qed
qed

lemma profiles_ok_update:
  assumes "profiles_ok s" shows "profiles_ok (snd (updateProfile on now i up s))"
  using updateProfile_on [of now i up s]
proof (elim disjE exE conjE)
  fix v f assume u: "updateProfile on now i up s = (Inr (toUserResponseDto v), s\<lparr>ac_users := map (\<lambda>u. if us_id u = i then f u else u) (ac_users s),
      ac_kv := (ac_kv s)(k_userProfile i \<mapsto> (VProfile (toUserResponseDto v), Some (now + 3600 * 1000)))\<rparr>)"
    and f: "\<forall>u. us_id (f u) = us_id u"
    and v: "find_row (\<lambda>u. us_id u = i) (map (\<lambda>u. if us_id u = i then f u else u) (ac_users s)) = Some v"
  have "find_row (\<lambda>u. us_id u = j) (map (\<lambda>u. if us_id u = i then f u else u) rows) = find_row (\<lambda>u. us_id u = j) rows"
    if "j \<noteq> i" for j rows
    using that f by (induction rows) auto
  then show ?thesis using assms u v by (simp add: profiles_ok_def user_findById_def)
qed (use assms in simp)

lemma registerUser_grows: "\<exists>rows. ac_users (snd (registerUser env l x delErr now i reg sid fp ip ua s)) = ac_users s @ rows"
proof -
  obtain r s' where r: "registerUser env l x delErr now i reg sid fp ip ua s = (r, s')" by fastforce
  then show ?thesis using registerUser_users [OF r] by (cases r) (auto simp: left_behind_def)
qed

lemma registerUser_leaves: "leaves prof_key (registerUser env l x delErr now i reg sid fp ip ua)"
  unfolding registerUser_def
proof (rule leaves_bind)
  fix user :: User
  have "leaves prof_key (\<lambda>s. case createAuthSession env l x now (us_id user) sid (generateRefreshToken env now (us_id user) sid) fp ip ua s of
      (Inr _, s2) \<Rightarrow> return (toAuthResponseDto user (generateAccessToken env now (us_id user) sid (us_email user))
          (generateRefreshToken env now (us_id user) sid)) s2
    | (Inl err, s2) \<Rightarrow> then_proc (settled (case delErr of None \<Rightarrow> transaction (deleteUser (us_id user)) | Some e \<Rightarrow> throw e)) (\<lambda>_. throw err) s2)"
    by (rule leaves_sum [OF leaves_create]) (intro leaves_intros)+
  then show "leaves prof_key (\<lambda>s1. let accessToken = generateAccessToken env now (us_id user) sid (us_email user);
          refreshToken = generateRefreshToken env now (us_id user) sid
        in case createAuthSession env l x now (us_id user) sid refreshToken fp ip ua s1 of
             (Inr _, s2) \<Rightarrow> return (toAuthResponseDto user accessToken refreshToken) s2
           | (Inl err, s2) \<Rightarrow>
               then_proc (settled (case delErr of None \<Rightarrow> transaction (deleteUser (us_id user)) | Some e \<Rightarrow> throw e))
                 (\<lambda>_. throw err) s2)"
    unfolding Let_def .
qed (intro leaves_intros)

lemma profiles_ok_grows:
  assumes "profiles_ok s" and "leaves prof_key m" and "\<And>s. \<exists>rows. ac_users (snd (m s)) = ac_users s @ rows"
  shows "profiles_ok (snd (m s))"
proof (rule profiles_ok_step [OF assms(1)])
  fix i u assume "user_findById i s = Some u"
  then show "map_option toUserResponseDto (user_findById i (snd (m s))) = Some (toUserResponseDto u)"
    using assms(3) [of s] by (auto simp: user_findById_def find_row_append)
qed (use assms(2) in \<open>simp add: leaves_def\<close>)

lemma grows_bind:
  assumes "\<And>s. \<exists>rows. ac_users (snd (m s)) = ac_users s @ rows" and "\<And>x s. \<exists>rows. ac_users (snd (f x s)) = ac_users s @ rows"
  shows "\<exists>rows. ac_users (snd (then_proc m f s)) = ac_users s @ rows"
proof (cases "m s")
  case (Pair r s1)
  obtain rows where "ac_users s1 = ac_users s @ rows" using assms(1) [of s] Pair by auto
  then show ?thesis using assms(2) [of _ s1] Pair by (cases r) (force simp: then_proc_def)+
qed

lemma profiles_ok_register:
  assumes "profiles_ok s" shows "profiles_ok (snd (verifyAndRegister env l x delErr now i sid otp fp ip ua s))"
proof (rule profiles_ok_grows [OF assms])
  show "leaves prof_key (verifyAndRegister env l x delErr now i sid otp fp ip ua)"
    unfolding verifyAndRegister_def by (intro leaves_intros otp_apart registerUser_leaves)
  have u: "\<exists>rows. ac_users (snd (m s)) = ac_users s @ rows" if "same_users m" for m :: "'z acc" and s
    using that unfolding same_users_def by simp
  fix s
  show "\<exists>rows. ac_users (snd (verifyAndRegister env l x delErr now i sid otp fp ip ua s)) = ac_users s @ rows"
    unfolding verifyAndRegister_def
  proof (rule grows_bind [OF u [OF same_users_otp(1)]], rule grows_bind [OF u [OF same_users_otp(2)]])
    fix b reg s
    show "\<exists>rows. ac_users (snd ((case reg of None \<Rightarrow> throw (ApiError 404 ''REGISTRATION_SESSION_EXPIRED'')
       | Some reg \<Rightarrow> then_proc (registerUser env (from_link 20 l) x delErr now i reg sid fp ip ua) (\<lambda>resp.
           then_proc (settled (then_proc (deleteRegistrationSession (l 1) sid) (\<lambda>_. deleteOtpSession (l 2) (rg_email reg)))) (\<lambda>_.
           return resp))) s)) = ac_users s @ rows"
    proof (cases reg)
      case None
      then show ?thesis by (simp add: throw_def)
    next
      case (Some d)
      show ?thesis unfolding Some option.case
        by (rule grows_bind [OF registerUser_grows u]) (intro users_intros)
    qed
  qed
qed

text \<open>A reset changes the password only.\<close>

definition same_profiles :: "'a acc \<Rightarrow> bool" where
  "same_profiles m \<longleftrightarrow> (\<forall>s i. map_option toUserResponseDto (user_findById i (snd (m s))) = map_option toUserResponseDto (user_findById i s))"

lemma same_profiles_users: "same_users m \<Longrightarrow> same_profiles m"
  by (simp add: same_users_def same_profiles_def user_findById_def)

lemma same_profiles_bind:
  assumes "same_profiles m" and "\<And>x. same_profiles (f x)" shows "same_profiles (then_proc m f)"
  unfolding same_profiles_def
proof (intro allI)
  fix s i
  show "map_option toUserResponseDto (user_findById i (snd (then_proc m f s))) = map_option toUserResponseDto (user_findById i s)"
  proof (cases "m s")
    case (Pair r s1)
    then have "map_option toUserResponseDto (user_findById i s1) = map_option toUserResponseDto (user_findById i s)"
      using assms(1) unfolding same_profiles_def by (metis snd_conv)
    then show ?thesis using assms(2) Pair unfolding same_profiles_def by (cases r) (simp_all add: then_proc_def)
  qed
qed

lemma same_profiles_password: "same_profiles (transaction (user_update i (\<lambda>u. u\<lparr>us_password := h\<rparr>)))"
proof -
  let ?f = "\<lambda>w. if us_id w = i then w\<lparr>us_password := h\<rparr> else w"
  have d: "map_option toUserResponseDto (find_row (\<lambda>u. us_id u = j) (map ?f rows)) = map_option toUserResponseDto (find_row (\<lambda>u. us_id u = j) rows)"
    for j rows
    by (induction rows) (auto simp: toUserResponseDto_def)
  show ?thesis
    unfolding same_profiles_def
  proof (intro allI)
    fix s j
    let ?s = "snd (transaction (user_update i (\<lambda>u. u\<lparr>us_password := h\<rparr>)) s)"
    have "ac_users ?s = ac_users s \<or> ac_users ?s = map ?f (ac_users s)"
      by (simp add: transaction_def user_update_def bindE_def update_row_def Let_def split: option.split)
    then show "map_option toUserResponseDto (user_findById j ?s) = map_option toUserResponseDto (user_findById j s)"
      using d [of j "ac_users s"] by (auto simp: user_findById_def)
  qed
qed

lemma profiles_ok_reset:
  assumes "profiles_ok s" shows "profiles_ok (snd (resetPassword env l now salt token password s))"
proof (rule profiles_ok_step [OF assms])
  have "leaves prof_key (resetPassword env l now salt token password)"
    unfolding resetPassword_def by (intro leaves_intros leaves_logouts) auto
  then show "ac_kv (snd (resetPassword env l now salt token password s)) (k_userProfile i) = ac_kv s (k_userProfile i)" for i
    by (simp add: leaves_def)
  have opt: "same_profiles (case r of None \<Rightarrow> throw err | Some y \<Rightarrow> f y)" if "\<And>y. same_profiles (f y)"
    for r :: "string option" and err and f :: "string \<Rightarrow> unit acc"
    using that same_profiles_users [OF same_users_basic(2)] by (cases r) simp_all
  have "same_profiles (resetPassword env l now salt token password)"
    unfolding resetPassword_def
    by (intro same_profiles_bind opt same_profiles_password same_profiles_users [OF same_users_basic(5)]
        same_profiles_users [OF same_users_basic(3)] same_profiles_users [OF same_users_logout(2)])
  then show "map_option toUserResponseDto (user_findById i (snd (resetPassword env l now salt token password s))) = Some (toUserResponseDto u)"
    if "user_findById i s = Some u" for i u
    using that by (simp add: same_profiles_def)
qed

lemma account_step_profiles:
  assumes "account_step env p q" and ok: "profiles_ok (snd p)" shows "profiles_ok (snd q)"
  using assms(1)
proof cases
  case registers
  then show ?thesis using ok profiles_ok_register by simp
next
  case resets
  then show ?thesis using ok profiles_ok_reset by simp
next
  case reads_profile
  then show ?thesis using ok profiles_ok_get(1) by simp
next
  case writes_profile
  then show ?thesis using ok profiles_ok_update by simp
qed (use ok profiles_ok_kept [OF _ same_users_sendOtp otp_apart(2)] profiles_ok_kept [OF _ same_users_calls(1) otp_apart(3)]
    profiles_ok_kept [OF _ same_users_calls(2) otp_apart(4)] profiles_ok_kept [OF _ same_users_calls(3) leaves_calls(1)]
    profiles_ok_kept [OF _ same_users_calls(4) leaves_calls(2)] profiles_ok_kept [OF _ same_users_calls(5) leaves_calls(3)]
    profiles_ok_kept [OF _ same_users_calls(6) leaves_calls(4)] profiles_ok_kept [OF _ same_users_calls(7) leaves_calls(5)]
    profiles_ok_kept [OF _ getSessions_kept] profiles_ok_kept [OF _ refresh_kept] in simp)+

interpretation profiles: stepper "account_step env" "\<lambda>p. profiles_ok (snd p)" for env
  by standard (rule account_step_profiles)

text \<open>C25: The profile cache is coherent. In every state that calls over a healthy connection reach, one
  after the other, the profile answered for any id is that of the user's row, and none when there is
  no row; also when Redis fails during the lookup.\<close>

theorem profile_cache_coherent:
  assumes "(account_step env)\<^sup>*\<^sup>* (t0, no_accounts) (t, s)"
  shows "fst (getUserById l now i s) = Inr (map_option toUserResponseDto (user_findById i s))"
proof -
  have "profiles_ok no_accounts" by (simp add: profiles_ok_def no_accounts_def)
  then have "profiles_ok s" using profiles.run_inv [OF assms] by simp
  then show ?thesis by (rule profiles_ok_get(2))
qed

definition sample_renamed :: account_db where
  "sample_renamed = snd (updateProfile on 7000 ''ada'' \<lparr>up_firstName = Some ''Augusta'', up_lastName = None\<rparr> (snd sample_in))"

theorem profile_cache_coherent_witness:
  "fst (getUserById on 8000 ''ada'' sample_renamed) = Inr (map_option toUserResponseDto (user_findById ''ada'' sample_renamed)) \<and>
   map_option us_firstName (user_findById ''ada'' sample_renamed) = Some ''Augusta''"
proof -
  have "account_step sample_accounts (1000, snd sample_in) (7000, sample_renamed)"
    unfolding sample_renamed_def by (rule account_step.writes_profile) simp
  then have "(account_step sample_accounts)\<^sup>*\<^sup>* (0, no_accounts) (7000, sample_renamed)"
    using sample_in_run by (meson rtranclp.rtrancl_into_rtrancl)
  note profile_cache_coherent [OF this, of on 8000 "''ada''"]
  moreover have "map_option us_firstName (user_findById ''ada'' sample_renamed) = Some ''Augusta''" by code_simp
  ultimately show ?thesis by simp
qed

end
