(* ===== verification/AccountTypes.thy ===== *)
theory AccountTypes
  imports AccountApi Profiles
begin

text \<open>
  Every row of the table of users is well formed, whatever requests arrive and whatever fails: a small
  logic of calls, \<open>ensures\<close>, and its rules for the commands and the table.
\<close>

section \<open>Calls with an invariant and a postcondition\<close>

named_theorems ensures_intros \<open>rules of ensures\<close>

definition ensures :: "(account_db \<Rightarrow> bool) \<Rightarrow> ('a \<Rightarrow> bool) \<Rightarrow> 'a acc \<Rightarrow> bool" where
  "ensures P Q m \<longleftrightarrow> (\<forall>s. P s \<longrightarrow> P (snd (m s)) \<and> (\<forall>x. fst (m s) = Inr x \<longrightarrow> Q x))"

abbreviation maintains :: "(account_db \<Rightarrow> bool) \<Rightarrow> 'a acc \<Rightarrow> bool" where
  "maintains P m \<equiv> ensures P (\<lambda>_. True) m"

lemma ensuresD: "ensures P Q m \<Longrightarrow> P s \<Longrightarrow> P (snd (m s))"
  by (simp add: ensures_def)

lemma ensures_basic [ensures_intros]: "Q x \<Longrightarrow> ensures P Q (return x)" "ensures P Q (throw e)"
  by (simp_all add: ensures_def return_def throw_def)

lemma ensures_bind:
  assumes "ensures P Q m" and "\<And>x. Q x \<Longrightarrow> ensures P R (f x)" shows "ensures P R (then_proc m f)"
  unfolding ensures_def
proof (intro allI impI)
  fix s assume s: "P s"
  obtain r s1 where m: "m s = (r, s1)" by fastforce
  have s1: "P s1" "\<And>x. r = Inr x \<Longrightarrow> Q x" using assms(1) s m unfolding ensures_def by force+
  show "P (snd (then_proc m f s)) \<and> (\<forall>x. fst (then_proc m f s) = Inr x \<longrightarrow> R x)"
  proof (cases r)
    case (Inr x)
    with assms(2) [OF s1(2) [OF Inr]] s1(1) m show ?thesis by (simp add: ensures_def then_proc_def)
  qed (use s1 m in \<open>simp add: then_proc_def\<close>)
qed

lemma maintains_bind [ensures_intros]:
  "maintains P m \<Longrightarrow> (\<And>x. ensures P R (f x)) \<Longrightarrow> ensures P R (then_proc m f)"
  by (rule ensures_bind)

lemma ensures_settled [ensures_intros]: "maintains P m \<Longrightarrow> maintains P (settled m)"
  by (simp add: ensures_def settled_def)

lemma ensures_if [ensures_intros]: "(b \<Longrightarrow> ensures P Q x) \<Longrightarrow> (\<not> b \<Longrightarrow> ensures P Q y) \<Longrightarrow> ensures P Q (if b then x else y)"
  by simp

lemma ensures_option [ensures_intros]:
  "ensures P Q x \<Longrightarrow> (\<And>y. ensures P Q (f y)) \<Longrightarrow> ensures P Q (case v of None \<Rightarrow> x | Some y \<Rightarrow> f y)"
  by (cases v) simp_all

lemma ensures_rval [ensures_intros]:
  assumes "\<And>x. ensures P Q (a x)" "\<And>x. ensures P Q (b x)" "\<And>x. ensures P Q (c x)" "\<And>x. ensures P Q (d x)" "\<And>x. ensures P Q (e x)"
    "\<And>x. ensures P Q (f x)"
  shows "ensures P Q (case v of VText x \<Rightarrow> a x | VCount x \<Rightarrow> b x | VIds x \<Rightarrow> c x | VSession x \<Rightarrow> d x | VRegistration x \<Rightarrow> e x | VProfile x \<Rightarrow> f x)"
  using assms by (cases v) simp_all

lemma ensures_publish [ensures_intros]:
  assumes "ensures P Q x" and "ensures P Q y" and "\<And>s ev. P s \<Longrightarrow> P (s\<lparr>ac_sent := ac_sent s @ [ev]\<rparr>)"
  shows "ensures P Q (\<lambda>s. case publish pub ev s of (Inr _, s2) \<Rightarrow> x s2 | (Inl _, s2) \<Rightarrow> y s2)"
  unfolding ensures_def
proof (intro allI impI)
  fix s assume s: "P s"
  show "P (snd (case publish pub ev s of (Inr _, s2) \<Rightarrow> x s2 | (Inl _, s2) \<Rightarrow> y s2)) \<and>
    (\<forall>z. fst (case publish pub ev s of (Inr _, s2) \<Rightarrow> x s2 | (Inl _, s2) \<Rightarrow> y s2) = Inr z \<longrightarrow> Q z)"
  proof (cases pub)
    case None
    then show ?thesis using assms(1) [unfolded ensures_def, rule_format, OF assms(3) [OF s]] by (simp add: publish_def)
  next
    case (Some e)
    then show ?thesis using assms(2) s assms(3) [OF s, of ev] unfolding ensures_def publish_def Let_def by (cases e; cases "snd e") simp_all
  qed
qed

section \<open>Well-formed accounts\<close>

definition valid_names :: "string \<Rightarrow> string \<Rightarrow> bool" where
  "valid_names f n \<longleftrightarrow> js_trim f = f \<and> 3 \<le> length f \<and> length f \<le> 50 \<and> js_trim n = n \<and> 2 \<le> length n \<and> length n \<le> 50"

definition hashed_strong :: "account_env \<Rightarrow> string \<Rightarrow> bool" where
  "hashed_strong env h \<longleftrightarrow> (\<exists>salt p. passwordSchema p = Some p \<and> h = ae_bcrypt env salt p)"

definition valid_registration :: "formats \<Rightarrow> account_env \<Rightarrow> RegistrationSessionData \<Rightarrow> bool" where
  "valid_registration fm env d \<longleftrightarrow> valid_names (rg_firstName d) (rg_lastName d) \<and>
     (\<exists>e. valid_email fm e \<and> rg_email d = js_trim e) \<and> hashed_strong env (rg_hashedPassword d)"

definition valid_user :: "formats \<Rightarrow> account_env \<Rightarrow> User \<Rightarrow> bool" where
  "valid_user fm env u \<longleftrightarrow> valid_names (us_firstName u) (us_lastName u) \<and>
     (\<exists>e. valid_email fm e \<and> us_email u = js_trim e) \<and> hashed_strong env (us_password u) \<and> us_emailVerified u"

definition accounts_ok :: "formats \<Rightarrow> account_env \<Rightarrow> account_db \<Rightarrow> bool" where
  "accounts_ok fm env s \<longleftrightarrow>
     (\<forall>u \<in> set (ac_users s). valid_user fm env u) \<and> distinct (map us_id (ac_users s)) \<and> distinct (map us_email (ac_users s)) \<and>
     (\<forall>k d x. ac_kv s k = Some (VRegistration d, x) \<longrightarrow> valid_registration fm env d)"

lemma js_trim_idem [simp]: "js_trim (js_trim t) = js_trim t"
proof -
  define a where "a = dropWhile js_space t"
  define b where "b = dropWhile js_space (rev a)"
  have t: "js_trim t = rev b" by (simp add: js_trim_def a_def b_def)
  have "dropWhile js_space (rev b) = rev b"
  proof (cases "rev b")
    case (Cons c cs)
    have "a = rev b @ rev (takeWhile js_space (rev a))"
      using takeWhile_dropWhile_id [of js_space "rev a"] unfolding b_def by (metis rev_append rev_rev_ident)
    then have "a = c # (cs @ rev (takeWhile js_space (rev a)))" using Cons by simp
    then have "a \<noteq> []" "hd a = c" by (metis list.distinct(1), metis list.sel(1))
    then have "\<not> js_space c" unfolding a_def using hd_dropWhile by metis
    then show ?thesis using Cons by simp
  qed simp
  then show ?thesis by (simp add: t js_trim_def [of "rev b"]) (simp add: b_def)
qed

lemma valid_names_schema:
  "firstNameSchema f = Some x \<Longrightarrow> lastNameSchema n = Some y \<Longrightarrow> valid_names x y"
  by (auto simp: firstNameSchema_def lastNameSchema_def valid_names_def Let_def split: if_splits)

lemma strong_schema: "passwordSchema p = Some q \<Longrightarrow> passwordSchema q = Some q"
  by (simp add: passwordSchema_def split: if_splits)

lemma hashed_strong_schema: "passwordSchema p = Some q \<Longrightarrow> hashed_strong env (ae_bcrypt env salt q)"
  unfolding hashed_strong_def using strong_schema by blast

lemma RegisterSchema_valid:
  assumes "RegisterSchema fm d = Some x" shows "valid_registration fm env (registration_data env salt x)"
  using assms
  by (auto simp: RegisterSchema_def valid_registration_def registration_data_def valid_names_schema hashed_strong_schema emailSchema_def
      split: option.splits if_splits)

section \<open>Commands and the table\<close>

lemma ensures_kv:
  assumes "\<And>st k d x. snd (c st) k = Some (VRegistration d, x) \<Longrightarrow> (\<exists>y. st k = Some (VRegistration d, y)) \<or> valid_registration fm env d"
  shows "maintains (accounts_ok fm env) (kv_do lk c)"
  unfolding ensures_def
proof (intro allI impI conjI TrueI)
  fix s assume s: "accounts_ok fm env s"
  have "valid_registration fm env d" if "ac_kv (snd (kv_do lk c s)) k = Some (VRegistration d, x)" for k d x
  proof -
    have "(\<exists>y. ac_kv s k = Some (VRegistration d, y)) \<or> valid_registration fm env d"
      using that assms by (cases lk) (auto simp: kv_do_links)
    with s show ?thesis unfolding accounts_ok_def by blast
  qed
  then show "accounts_ok fm env (snd (kv_do lk c s))" using s by (simp add: accounts_ok_def)
qed

lemma ensures_commands [ensures_intros]:
  "maintains (accounts_ok fm env) (kv_do lk (c_get now k))" "maintains (accounts_ok fm env) (kv_do lk (c_getText now k))"
  "maintains (accounts_ok fm env) (kv_do lk (c_ttl now k))" "maintains (accounts_ok fm env) (kv_do lk (c_smembers now k))"
  "maintains (accounts_ok fm env) (kv_do lk (c_incr now k))" "maintains (accounts_ok fm env) (kv_do lk (c_expire now k ttl))"
  "maintains (accounts_ok fm env) (kv_do lk (c_del ks))" "maintains (accounts_ok fm env) (kv_do lk (c_sadd now k i))"
  "maintains (accounts_ok fm env) (kv_do lk (c_srem now k i))"
  by (rule ensures_kv; auto simp: c_get_def c_getText_def c_ttl_def c_smembers_def c_incr_def c_expire_def redis_expire_def c_del_def
      c_sadd_def c_srem_def restrict_map_def split: option.splits rval.splits if_splits)+

lemma ensures_set [ensures_intros]:
  assumes "\<And>d. v = VRegistration d \<Longrightarrow> valid_registration fm env d"
  shows "maintains (accounts_ok fm env) (kv_do lk (c_set now k v ttl))"
  using assms by (intro ensures_kv) (auto simp: c_set_def redis_set_ex_def split: if_splits)

lemma ensures_reads [ensures_intros]:
  "maintains P (requireUser email)" "(\<And>s ev. P s \<Longrightarrow> P (s\<lparr>ac_sent := ac_sent s @ [ev]\<rparr>)) \<Longrightarrow> maintains P (publish pub e)"
  by (auto simp: ensures_def requireUser_def publish_def Let_def return_def throw_def split: option.split prod.split)

lemma accounts_ok_sent [ensures_intros]: "accounts_ok fm env s \<Longrightarrow> accounts_ok fm env (s\<lparr>ac_sent := x\<rparr>)"
  by (simp add: accounts_ok_def)

lemma ensures_create:
  assumes "valid_user fm env u" shows "ensures (accounts_ok fm env) (\<lambda>v. v = u) (transaction (createUser u))"
  unfolding ensures_def
proof (intro allI impI conjI)
  fix s assume s: "accounts_ok fm env s"
  obtain r s1 where t: "transaction (createUser u) s = (r, s1)" by fastforce
  show "accounts_ok fm env (snd (transaction (createUser u) s))"
  proof (cases r)
    case (Inl e)
    then show ?thesis using t s by (auto simp: transaction_def split: sum.splits prod.splits)
  next
    case (Inr v)
    then show ?thesis using createUser_Inr_iff [THEN iffD1, of u s v s1] t s assms by (auto simp: accounts_ok_def)
  qed
  show "x = u" if "fst (transaction (createUser u) s) = Inr x" for x
    using that t createUser_Inr_iff [THEN iffD1, of u s x s1] by simp
qed

lemma ensures_delete [ensures_intros]: "maintains (accounts_ok fm env) (transaction (deleteUser i))"
  by (auto simp: ensures_def transaction_def deleteUser_def accounts_ok_def distinct_map_filter split: if_splits)

lemma ensures_update:
  assumes "\<And>u. valid_user fm env u \<Longrightarrow> valid_user fm env (f u)" and "\<And>u. us_id (f u) = us_id u" and "\<And>u. us_email (f u) = us_email u"
  shows "maintains (accounts_ok fm env) (transaction (user_update i f))"
  unfolding ensures_def
proof (intro allI impI conjI TrueI)
  fix s assume s: "accounts_ok fm env s"
  let ?g = "\<lambda>u. if us_id u = i then f u else u"
  have "map us_id (map ?g rows) = map us_id rows" "map us_email (map ?g rows) = map us_email rows" for rows
    using assms(2,3) by simp_all
  moreover have "\<forall>u \<in> set (map ?g (ac_users s)). valid_user fm env u"
    using s assms(1) by (auto simp: accounts_ok_def)
  ultimately have "accounts_ok fm env (s\<lparr>ac_users := map ?g (ac_users s)\<rparr>)"
    using s unfolding accounts_ok_def by (simp del: map_map)
  moreover have "snd (transaction (user_update i f) s) = s \<or> snd (transaction (user_update i f) s) = s\<lparr>ac_users := map ?g (ac_users s)\<rparr>"
    by (simp add: transaction_def user_update_def bindE_def update_row_def Let_def split: option.split)
  ultimately show "accounts_ok fm env (snd (transaction (user_update i f) s))" using s by auto
qed

section \<open>The calls of the service\<close>

lemma ensures_otp_calls [ensures_intros]:
  "maintains (accounts_ok fm env) (verifyOtp env l now sid otp)" "maintains (accounts_ok fm env) (deleteRegistrationSession lk sid)"
  "maintains (accounts_ok fm env) (deleteOtpSession lk email)" "maintains (accounts_ok fm env) (findExistingOtpSession lk now email)"
  "maintains (accounts_ok fm env) (otp_rate_limit l now email)"
  unfolding verifyOtp_def deleteRegistrationSession_def deleteOtpSession_def findExistingOtpSession_def otp_rate_limit_def
  by (intro ensures_intros TrueI; simp)+

lemma ensures_stores [ensures_intros]:
  "maintains (accounts_ok fm env) (storeOtp env l now sid salt email otp ttl)"
  "maintains (accounts_ok fm env) (replaceOtp env l now sid salt email otp ttl)"
  unfolding storeOtp_def replaceOtp_def by (intro ensures_intros TrueI; simp)+

lemma ensures_storeRegistration:
  "valid_registration fm env d \<Longrightarrow> maintains (accounts_ok fm env) (storeRegistrationSession env lk now sid d)"
  unfolding storeRegistrationSession_def by (intro ensures_intros) simp

lemma ensures_getRegistration:
  "ensures (accounts_ok fm env) (\<lambda>r. \<forall>d. r = Some d \<longrightarrow> valid_registration fm env d) (getRegistrationSession lk now sid)"
  unfolding ensures_def
proof (intro allI impI conjI)
  fix s r d assume s: "accounts_ok fm env s" and r: "fst (getRegistrationSession lk now sid s) = Inr r" "r = Some d"
  then have "redis_get now (k_registrationSession sid) (ac_kv s) = Some (VRegistration d)"
    using getRegistrationSession_Some [of lk now sid s d] by (metis prod.collapse)
  then obtain x where "ac_kv s (k_registrationSession sid) = Some (VRegistration d, x)"
    by (auto simp: redis_get_def split: option.splits if_splits)
  then show "valid_registration fm env d" using s unfolding accounts_ok_def by blast
next
  fix s assume "accounts_ok fm env s"
  moreover have "maintains (accounts_ok fm env) (getRegistrationSession lk now sid)"
    unfolding getRegistrationSession_def by (intro ensures_intros TrueI)
  ultimately show "accounts_ok fm env (snd (getRegistrationSession lk now sid s))" by (rule ensuresD [rotated])
qed

lemma ensures_logouts [ensures_intros]:
  "maintains (accounts_ok fm env) (logout l now sid i)" "maintains (accounts_ok fm env) (logoutAll l now i)"
  unfolding logout_def logoutAll_def by (intro ensures_intros TrueI; simp)+

lemma ensures_createAuth [ensures_intros]: "maintains (accounts_ok fm env) (createAuthSession env l x now i sid token fp ip ua)"
  unfolding ensures_def
proof (intro allI impI conjI TrueI)
  fix s assume s: "accounts_ok fm env s"
  let ?r = "new_session env now i token fp ip ua"
  have m: "accounts_ok fm env (s\<lparr>ac_kv := session_multi now sid i ?r e1 e2 e3 (ac_kv s)\<rparr>)" for e1 e2 e3
  proof -
    have "\<exists>y. ac_kv s k = Some (VRegistration d, y)"
      if "session_multi now sid i ?r e1 e2 e3 (ac_kv s) k = Some (VRegistration d, y')" for k d y'
      using that by (auto simp: session_multi_def c_set_def redis_set_ex_def c_sadd_def c_expire_def redis_expire_def Let_def
          SESSION_TTL_SECONDS_def split: if_splits option.splits rval.splits)
    then show ?thesis using s unfolding accounts_ok_def by simp blast
  qed
  have u: "maintains (accounts_ok fm env) (then_proc (settled (kv_do (l 0) (c_del [k_authSession sid]))) (\<lambda>_.
      then_proc (settled (kv_do (l 1) (c_srem now (k_userSessions i) sid))) (\<lambda>_.
      throw (PlainError ''Failed to persist authentication session''))) :: unit acc)" by (intro ensures_intros)
  show "accounts_ok fm env (snd (createAuthSession env l x now i sid token fp ip ua s))"
    using s m ensuresD [OF u m] by (cases x) (simp_all add: createAuthSession_def Let_def throw_def return_def)
qed

lemma ensures_sendOtp:
  assumes "valid_registration fm env (registration_data env (salt 0) data)"
  shows "maintains (accounts_ok fm env) (sendOtp env l pub now u otp salt data)"
  unfolding ensures_def
proof (intro allI impI conjI TrueI)
  fix s assume s: "accounts_ok fm env s"
  show "accounts_ok fm env (snd (sendOtp env l pub now u otp salt data s))"
  proof (cases "findUserByEmail (rq_email data) s")
    case None
    show ?thesis
      unfolding sendOtp_def None option.case Let_def
      by (rule ensuresD [where P = "accounts_ok fm env" and Q = "\<lambda>_. True", OF _ s]) (intro ensures_intros ensures_storeRegistration assms TrueI)
  next
    case (Some w)
    then show ?thesis using s by (simp add: sendOtp_def throw_def)
  qed
qed

lemma ensures_register:
  assumes "valid_registration fm env reg"
  shows "maintains (accounts_ok fm env) (registerUser env l x delErr now i reg sid fp ip ua)"
  unfolding registerUser_def
proof (rule ensures_bind)
  have "valid_user fm env (registered_row now i reg)"
    using assms by (simp add: valid_user_def valid_registration_def registered_row_def)
  from ensures_create [OF this]
  show "maintains (accounts_ok fm env) (transaction (createUser \<lparr>us_id = i, us_email = rg_email reg, us_firstName = rg_firstName reg,
      us_lastName = rg_lastName reg, us_password = rg_hashedPassword reg, us_emailVerified = True, us_createdAt = now\<rparr>))"
    by (simp add: registered_row_def ensures_def)
  fix user :: User
  let ?c = "createAuthSession env l x now (us_id user) sid (generateRefreshToken env now (us_id user) sid) fp ip ua"
  let ?f = "\<lambda>s1. case ?c s1 of
      (Inr _, s2) \<Rightarrow> return (toAuthResponseDto user (generateAccessToken env now (us_id user) sid (us_email user))
          (generateRefreshToken env now (us_id user) sid)) s2
    | (Inl err, s2) \<Rightarrow> then_proc (settled (case delErr of None \<Rightarrow> transaction (deleteUser (us_id user)) | Some e \<Rightarrow> throw e)) (\<lambda>_. throw err) s2"
  have del: "maintains (accounts_ok fm env) (then_proc (settled (case delErr of None \<Rightarrow> transaction (deleteUser (us_id user)) | Some e \<Rightarrow> throw e))
      (\<lambda>_. throw err) :: AuthResponseDto acc)" for err by (intro ensures_intros)
  have "maintains (accounts_ok fm env) ?f"
    unfolding ensures_def
  proof (intro allI impI conjI TrueI)
    fix s assume s: "accounts_ok fm env s"
    obtain r s2 where c: "?c s = (r, s2)" by fastforce
    then have "accounts_ok fm env s2" using ensuresD [OF ensures_createAuth s, of l x now "us_id user" sid] by (metis snd_conv)
    then show "accounts_ok fm env (snd (?f s))" using c ensuresD [OF del] by (cases r) (simp_all add: return_def)
  qed
  then show "maintains (accounts_ok fm env) (\<lambda>s1. let accessToken = generateAccessToken env now (us_id user) sid (us_email user);
          refreshToken = generateRefreshToken env now (us_id user) sid
        in case createAuthSession env l x now (us_id user) sid refreshToken fp ip ua s1 of
             (Inr _, s2) \<Rightarrow> return (toAuthResponseDto user accessToken refreshToken) s2
           | (Inl err, s2) \<Rightarrow>
               then_proc (settled (case delErr of None \<Rightarrow> transaction (deleteUser (us_id user)) | Some e \<Rightarrow> throw e))
                 (\<lambda>_. throw err) s2)"
    unfolding Let_def .
qed

lemma ensures_verifyAndRegister: "maintains (accounts_ok fm env) (verifyAndRegister env l x delErr now i sid otp fp ip ua)"
  unfolding verifyAndRegister_def
proof (rule maintains_bind, rule ensures_otp_calls, rule ensures_bind, rule ensures_getRegistration)
  fix reg :: "RegistrationSessionData option" assume r: "\<forall>d. reg = Some d \<longrightarrow> valid_registration fm env d"
  show "maintains (accounts_ok fm env) (case reg of None \<Rightarrow> throw (ApiError 404 ''REGISTRATION_SESSION_EXPIRED'')
      | Some reg \<Rightarrow> then_proc (registerUser env (from_link 20 l) x delErr now i reg sid fp ip ua) (\<lambda>resp.
          then_proc (settled (then_proc (deleteRegistrationSession (l 1) sid) (\<lambda>_. deleteOtpSession (l 2) (rg_email reg)))) (\<lambda>_.
          return resp)))"
  proof (cases reg)
    case None
    show ?thesis unfolding None option.case by (intro ensures_intros)
  next
    case (Some d)
    show ?thesis unfolding Some option.case using r Some by (intro ensures_intros ensures_register TrueI) simp
  qed
qed

lemma ensures_calls [ensures_intros]:
  "maintains (accounts_ok fm env) (login env l x pub now u email password fp ip ua)"
  "maintains (accounts_ok fm env) (revokeSession l now sid i)" "maintains (accounts_ok fm env) (sessionMiddleware l now i sess)"
  "maintains (accounts_ok fm env) (logoutByRefreshToken env l now tok)"
  "maintains (accounts_ok fm env) (logoutAllByRefreshToken env l now tok)"
  "maintains (accounts_ok fm env) (forgotPassword env l pub now u otp salt1 email)"
  "maintains (accounts_ok fm env) (VerifyPasswordResetOtp env l now token sid otp)"
  unfolding login_def revokeSession_def sessionMiddleware_def refreshes_def logoutByRefreshToken_def logoutAllByRefreshToken_def
    forgotPassword_def VerifyPasswordResetOtp_def Let_def
  by (intro ensures_intros TrueI; simp)+

lemma ensures_user_lookup [ensures_intros]:
  "maintains P (\<lambda>s. case user_findById i s of None \<Rightarrow> throw err s | Some u \<Rightarrow> f u s)" if "\<And>u. maintains P (f u)"
  using that by (simp add: ensures_def throw_def split: option.split)

lemma ensures_refresh [ensures_intros]: "maintains (accounts_ok fm env) (refresh env l now token fp)"
proof -
  have r: "maintains (accounts_ok fm env) (rotate env l now token fp i sid r)" for i sid r
    unfolding rotate_def Let_def by (intro ensures_intros TrueI) simp
  let ?b = "case verifyRefreshToken env now token of
            None \<Rightarrow> throw (ApiError 401 ''INVALID_REFRESH_TOKEN'')
          | Some decoded \<Rightarrow>
              (case jc_sessionId decoded of
                 None \<Rightarrow> throw (ApiError 401 ''INVALID_REFRESH_TOKEN'')
               | Some sessionId \<Rightarrow>
                   if sessionId = [] then throw (ApiError 401 ''INVALID_REFRESH_TOKEN'')
                   else then_proc (kv_do (l 0) (c_get now (k_authSession sessionId))) (\<lambda>sessionJson.
                     case sessionJson of
                       None \<Rightarrow> throw (ApiError 401 ''SESSION_EXPIRED_OR_REVOKED'')
                     | Some (VSession session) \<Rightarrow> rotate env l now token fp (jc_sub decoded) sessionId session
                     | Some _ \<Rightarrow> throw SyntaxError))"
  have b: "maintains (accounts_ok fm env) ?b" by (intro ensures_intros r)
  have "snd (refresh env l now token fp s) = snd (?b s)" for s
    unfolding refresh_def Let_def by (simp split: prod.split sum.split exn.split)
  then show ?thesis using b unfolding ensures_def by metis
qed

lemma ensures_getSessions [ensures_intros]: "maintains (accounts_ok fm env) (getSessions l now i)"
proof -
  have f: "maintains (accounts_ok fm env) (fetch_session l now (k_userSessions i) k j)" for k j
    unfolding fetch_session_def by (intro ensures_intros TrueI)
  have "accounts_ok fm env s \<Longrightarrow> accounts_ok fm env (snd (fetch_sessions l now (k_userSessions i) k ids s))" for ids k s
  proof (induction ids arbitrary: k s)
    case (Cons j ids)
    obtain r s1 where r: "fetch_session l now (k_userSessions i) k j s = (r, s1)" by fastforce
    obtain rs s2 where rs: "fetch_sessions l now (k_userSessions i) (k + 2) ids s1 = (rs, s2)" by fastforce
    have "accounts_ok fm env s1" using ensuresD [OF f Cons.prems, of k j] r by simp
    from Cons.IH [OF this, of "k + 2"] show ?case using r rs by simp
  qed simp
  then have "maintains (accounts_ok fm env) (fetch_sessions l now (k_userSessions i) k ids)" for k ids
    by (simp add: ensures_def)
  then show ?thesis unfolding getSessions_def by (intro ensures_intros)
qed

lemma ensures_reset:
  assumes "passwordSchema password = Some password"
  shows "maintains (accounts_ok fm env) (resetPassword env l now salt token password)"
proof -
  have "hashed_strong env (ae_bcrypt env salt password)" by (rule hashed_strong_schema [OF assms])
  then have "maintains (accounts_ok fm env) (transaction (user_update i (\<lambda>u. u\<lparr>us_password := ae_bcrypt env salt password\<rparr>)))" for i
    by (intro ensures_update) (simp_all add: valid_user_def)
  then show ?thesis unfolding resetPassword_def by (intro ensures_intros)
qed

lemma ensures_getUser [ensures_intros]: "maintains (accounts_ok fm env) (getUserById l now i)"
proof -
  have load: "accounts_ok fm env s \<Longrightarrow> accounts_ok fm env (snd (load_profile lk now i s))" for lk s
  proof (cases "user_findById i s")
    case (Some user)
    assume s: "accounts_ok fm env s"
    show ?thesis unfolding load_profile_def Some option.case
      by (rule ensuresD [where P = "accounts_ok fm env" and Q = "\<lambda>_. True", OF _ s]) (intro ensures_intros TrueI, simp)
  qed (simp add: load_profile_def return_def)
  show ?thesis
    unfolding ensures_def
  proof (intro allI impI conjI TrueI)
    fix s assume s: "accounts_ok fm env s"
    obtain r s1 where r: "kv_do (l 0) (c_get now (k_userProfile i)) s = (r, s1)" by fastforce
    have "accounts_ok fm env s1" using ensuresD [OF ensures_commands(1) s] r by (metis snd_conv)
    then show "accounts_ok fm env (snd (getUserById l now i s))"
      using r load by (auto simp: getUserById_def return_def split: sum.split option.split rval.split)
  qed
qed

lemma ensures_updateProfile:
  assumes "\<And>f. up_firstName up = Some f \<Longrightarrow> js_trim f = f \<and> 3 \<le> length f \<and> length f \<le> 50"
    and "\<And>n. up_lastName up = Some n \<Longrightarrow> js_trim n = n \<and> 2 \<le> length n \<and> length n \<le> 50"
  shows "maintains (accounts_ok fm env) (updateProfile l now i up)"
proof -
  have "maintains (accounts_ok fm env) (transaction (repo_updateProfile i up))"
    unfolding repo_updateProfile_def
    by (rule ensures_update) (use assms in \<open>auto simp: valid_user_def valid_names_def split: option.split\<close>)
  then show ?thesis unfolding updateProfile_def by (intro ensures_intros TrueI) simp_all
qed

section \<open>Requests\<close>

definition keeps_accounts :: "formats \<Rightarrow> account_env \<Rightarrow> handler \<Rightarrow> bool" where
  "keeps_accounts fm env h \<longleftrightarrow> (\<forall>s. accounts_ok fm env s \<longrightarrow> accounts_ok fm env (snd (h s)))"

lemma answering_state: "snd (answering m f s) = snd (m s)"
  by (cases "m s"; cases "fst (m s)"; cases "f (projr (fst (m s)))") (simp_all add: answering_def)

lemma keeps_accounts_answering: "maintains (accounts_ok fm env) m \<Longrightarrow> keeps_accounts fm env (answering m f)"
  by (simp add: keeps_accounts_def answering_state ensures_def)

lemma keeps_accounts_basic:
  "keeps_accounts fm env (refuse e)"
  "(\<And>x. v = Inr x \<Longrightarrow> keeps_accounts fm env (f x)) \<Longrightarrow> keeps_accounts fm env (valid v f)"
  by (simp_all add: keeps_accounts_def refuse_def valid_def split: sum.split)

lemma keeps_accounts_authenticated:
  assumes "\<And>u. keeps_accounts fm env (f u)" shows "keeps_accounts fm env (authenticated l now r f)"
  unfolding keeps_accounts_def
proof (intro allI impI)
  fix s assume s: "accounts_ok fm env s"
  let ?u = "trustGatewayHeaders r"
  obtain x s1 where m: "sessionMiddleware (from_link 100 l) now (case ?u of None \<Rightarrow> [] | Some u \<Rightarrow> su_userId u) (map_option su_sessionId ?u) s = (x, s1)"
    by fastforce
  have s1: "accounts_ok fm env s1" using ensuresD [OF ensures_calls(3) s] m by (metis snd_conv)
  show "accounts_ok fm env (snd (authenticated l now r f s))"
  proof (cases x)
    case (Inl e)
    then show ?thesis using m s1 by (simp add: authenticated_def)
  next
    case (Inr y)
    then show ?thesis using m s1 assms unfolding keeps_accounts_def by (cases ?u) (simp_all add: authenticated_def refuse_def)
  qed
qed

text \<open>A request to the service, with whatever fails: any connection, any outcome of the transactions,
  publications and deletes.\<close>

inductive account_request :: "formats \<Rightarrow> account_env \<Rightarrow> account_db \<Rightarrow> account_db \<Rightarrow> bool" for fm env where
  rq_send_otp: "account_request fm env s (snd (post_send_otp fm env l pub now u otp salt body s))"
| rq_verify_otp: "account_request fm env s (snd (post_verify_otp env l x delErr now i code r s))"
| rq_login: "account_request fm env s (snd (post_login fm env l x pub now u lbody r s))"
| rq_refresh: "account_request fm env s (snd (ctl_refresh env l now r s))"
| rq_sessions: "account_request fm env s (snd (get_sessions l now r s))"
| rq_revoke: "account_request fm env s (snd (delete_session fm l now param r s))"
| rq_logout: "account_request fm env s (snd (ctl_logout env l now r s))"
| rq_logout_all: "account_request fm env s (snd (ctl_logoutAll env l now r s))"
| rq_forgot: "account_request fm env s (snd (post_forgot_password fm env l pub now u otp salt1 fbody s))"
| rq_verify_reset: "account_request fm env s (snd (post_verify_reset_otp fm env l now token vbody s))"
| rq_reset: "account_request fm env s (snd (post_reset_password fm env l now salt1 rbody s))"
| rq_get_me: "account_request fm env s (snd (get_me l now r s))"
| rq_put_me: "account_request fm env s (snd (put_me l now ubody r s))"

lemma validateSchema_Inr: "validateSchema schema body = Inr x \<Longrightarrow> \<exists>b. body = Some b \<and> schema b = Some x"
  by (auto simp: validateSchema_def split: option.splits)

lemma UpdateProfileSchema_valid:
  assumes "UpdateProfileSchema d = Some up"
  shows "up_firstName up = Some f \<Longrightarrow> js_trim f = f \<and> 3 \<le> length f \<and> length f \<le> 50"
    "up_lastName up = Some n \<Longrightarrow> js_trim n = n \<and> 2 \<le> length n \<and> length n \<le> 50"
  using assms by (auto simp: UpdateProfileSchema_def optional_field_def firstNameSchema_def lastNameSchema_def Let_def
      split: option.splits if_splits)

lemma keeps_accounts_reads:
  "keeps_accounts fm env (ctl_refresh env l now r)" "keeps_accounts fm env (ctl_getProfile l now user)"
proof -
  have "snd (ctl_refresh env l now r s) = s \<or> (\<exists>token. snd (ctl_refresh env l now r s) = snd (refresh env l now token (request_fingerprint env r) s))" for s
  proof (cases "nonempty (hr_cookies r ''refresh_token'')")
    case (Some token)
    let ?a = "answering (refresh env l now token (request_fingerprint env r)) (\<lambda>resp. (auth_cookies env resp, 200, UserBody (ar_user resp))) s"
    have "snd (ctl_refresh env l now r s) = snd ?a"
      by (cases ?a; cases "fst ?a"; cases "snd (fst ?a)") (auto simp: ctl_refresh_def Some)
    then show ?thesis using answering_state by metis
  qed (simp add: ctl_refresh_def)
  then show "keeps_accounts fm env (ctl_refresh env l now r)"
    using ensures_refresh unfolding keeps_accounts_def ensures_def by metis
  have "snd (ctl_getProfile l now user s) = snd (getUserById l now (su_userId user) s)" for s
    by (simp add: ctl_getProfile_def split: prod.split sum.split option.split)
  then show "keeps_accounts fm env (ctl_getProfile l now user)"
    using ensures_getUser unfolding keeps_accounts_def ensures_def by simp
qed

lemma account_request_ok:
  assumes "account_request fm env s s'" and "accounts_ok fm env s" shows "accounts_ok fm env s'"
proof -
  have r: "keeps_accounts fm env (post_send_otp fm env l pub now u otp salt body)" for l pub now u otp salt body
    unfolding post_send_otp_def
  proof (rule keeps_accounts_basic(2))
    fix d assume "validateSchema (RegisterSchema fm) body = Inr d"
    then obtain b where "RegisterSchema fm b = Some d" by (blast dest: validateSchema_Inr)
    from RegisterSchema_valid [OF this] show "keeps_accounts fm env (ctl_sendOtp env l pub now u otp salt d)"
      unfolding ctl_sendOtp_def by (intro keeps_accounts_answering ensures_sendOtp)
  qed
  have v: "keeps_accounts fm env (post_verify_otp env l x delErr now i code r)" for l x delErr now i code r
    unfolding post_verify_otp_def
    by (rule keeps_accounts_basic) (auto simp: ctl_verifyOtp_def keeps_accounts_basic(1) split: option.split
        intro!: keeps_accounts_answering ensures_verifyAndRegister)
  have w: "keeps_accounts fm env (post_reset_password fm env l now salt1 rbody)" for l now salt1 rbody
    unfolding post_reset_password_def
  proof (rule keeps_accounts_basic(2))
    fix d assume "validateSchema (ResetPasswordRequestSchema fm) rbody = Inr d"
    then have "passwordSchema (rs_password d) = Some (rs_password d)"
      by (auto dest!: validateSchema_Inr simp: ResetPasswordRequestSchema_def split: option.splits if_splits) (erule strong_schema)
    then show "keeps_accounts fm env (ctl_resetPassword env l now salt1 d)"
      unfolding ctl_resetPassword_def by (intro keeps_accounts_answering ensures_reset)
  qed
  have p: "keeps_accounts fm env (put_me l now ubody r)" for l now ubody r
    unfolding put_me_def
  proof (rule keeps_accounts_authenticated, rule keeps_accounts_basic(2))
    fix user up assume "validateSchema UpdateProfileSchema ubody = Inr up"
    then obtain d where "UpdateProfileSchema d = Some up" by (blast dest: validateSchema_Inr)
    then show "keeps_accounts fm env (ctl_updateProfile l now user up)"
      unfolding ctl_updateProfile_def by (intro keeps_accounts_answering ensures_updateProfile) (blast dest: UpdateProfileSchema_valid)+
  qed
  note k = keeps_accounts_def [THEN iffD1, rule_format, OF _ assms(2)]
  from assms(1) show ?thesis
  proof cases
    case rq_send_otp
    then show ?thesis using k [OF r] by simp
  next
    case rq_verify_otp
    then show ?thesis using k [OF v] by simp
  next
    case (rq_login l x pub now u lbody r)
    have "keeps_accounts fm env (post_login fm env l x pub now u lbody r)"
      unfolding post_login_def ctl_login_def by (intro keeps_accounts_basic keeps_accounts_answering ensures_calls)
    then show ?thesis using k rq_login by blast
  next
    case rq_refresh
    then show ?thesis using k [OF keeps_accounts_reads(1)] by simp
  next
    case (rq_sessions l now r)
    have "keeps_accounts fm env (get_sessions l now r)"
      unfolding get_sessions_def ctl_getSessions_def by (intro keeps_accounts_authenticated keeps_accounts_answering ensures_getSessions)
    then show ?thesis using k rq_sessions by blast
  next
    case (rq_revoke l now param r)
    have "keeps_accounts fm env (delete_session fm l now param r)"
      unfolding delete_session_def ctl_revokeSession_def
      by (intro keeps_accounts_basic keeps_accounts_authenticated keeps_accounts_answering ensures_calls)
    then show ?thesis using k rq_revoke by blast
  next
    case (rq_logout l now r)
    have "keeps_accounts fm env (ctl_logout env l now r)" unfolding ctl_logout_def by (intro keeps_accounts_answering ensures_calls)
    then show ?thesis using k rq_logout by blast
  next
    case (rq_logout_all l now r)
    have "keeps_accounts fm env (ctl_logoutAll env l now r)" unfolding ctl_logoutAll_def by (intro keeps_accounts_answering ensures_calls)
    then show ?thesis using k rq_logout_all by blast
  next
    case (rq_forgot l pub now u otp salt1 fbody)
    have "keeps_accounts fm env (post_forgot_password fm env l pub now u otp salt1 fbody)"
      unfolding post_forgot_password_def ctl_forgotPassword_def by (intro keeps_accounts_basic keeps_accounts_answering ensures_calls)
    then show ?thesis using k rq_forgot by blast
  next
    case (rq_verify_reset l now token vbody)
    have "keeps_accounts fm env (post_verify_reset_otp fm env l now token vbody)"
      unfolding post_verify_reset_otp_def ctl_VerifyPasswordResetOtp_def by (intro keeps_accounts_basic keeps_accounts_answering ensures_calls)
    then show ?thesis using k rq_verify_reset by blast
  next
    case rq_reset
    then show ?thesis using k [OF w] by simp
  next
    case (rq_get_me l now r)
    have "keeps_accounts fm env (get_me l now r)"
      unfolding get_me_def by (intro keeps_accounts_authenticated keeps_accounts_reads(2))
    then show ?thesis using k rq_get_me by blast
  next
    case rq_put_me
    then show ?thesis using k [OF p] by simp
  qed
qed

interpretation rows: stepper "account_request fm env" "accounts_ok fm env" for fm env
  by standard (rule account_request_ok)

text \<open>C13: Every account is well formed. In every state that requests to the service can reach, whatever
  fails on the way, each user has trimmed names of 3 to 50 and 2 to 50 characters, an e-mail that was
  valid, a password hash made from a strong password and a verified e-mail, and no two users share an
  id or an e-mail.\<close>

theorem account_rows_well_formed:
  assumes "(account_request fm env)\<^sup>*\<^sup>* no_accounts s"
  shows "(\<forall>u \<in> set (ac_users s). valid_user fm env u) \<and> distinct (map us_id (ac_users s)) \<and> distinct (map us_email (ac_users s))"
proof -
  have "accounts_ok fm env no_accounts" by (simp add: accounts_ok_def no_accounts_def)
  then have "accounts_ok fm env s" by (rule rows.run_inv [OF assms])
  then show ?thesis by (simp add: accounts_ok_def)
qed

definition sample_formats :: formats where
  "sample_formats = \<lparr>valid_email = (\<lambda>e. CHR ''@'' \<in> set e), valid_uuid = (\<lambda>i. i \<noteq> [])\<rparr>"

definition sample_browser :: http_request where
  "sample_browser = \<lparr>hr_headers = [''user-agent'' \<mapsto> [''Mozilla'']], hr_cookies = [''otp_session'' \<mapsto> ''id-0''], hr_ip = Some ''10.0.0.7''\<rparr>"

definition sample_posted :: account_db where
  "sample_posted = snd (post_send_otp sample_formats sample_accounts on None 0 sample_ids ''123456'' (\<lambda>_. ''salt'')
     (Some \<lparr>rq_firstName = '' Ada '', rq_lastName = ''L.'', rq_email = ''a@x'', rq_password = ''First_1''\<rparr>) no_accounts)"

definition sample_signed_up :: account_db where
  "sample_signed_up = snd (post_verify_otp sample_accounts on (ExecDone False False False) None 1000 ''ada'' (Some ''123456'') sample_browser sample_posted)"

theorem account_rows_well_formed_witness:
  "map us_firstName (ac_users sample_signed_up) = [''Ada''] \<and> list_all (valid_user sample_formats sample_accounts) (ac_users sample_signed_up)"
proof -
  have "account_request sample_formats sample_accounts no_accounts sample_posted"
    unfolding sample_posted_def by (rule account_request.rq_send_otp)
  moreover have "account_request sample_formats sample_accounts sample_posted sample_signed_up"
    unfolding sample_signed_up_def by (rule account_request.rq_verify_otp)
  ultimately have "(account_request sample_formats sample_accounts)\<^sup>*\<^sup>* no_accounts sample_signed_up" by simp
  from account_rows_well_formed [OF this]
  have "list_all (valid_user sample_formats sample_accounts) (ac_users sample_signed_up)" by (simp add: list_all_iff)
  moreover have "map us_firstName (ac_users sample_signed_up) = [''Ada'']" by code_simp
  ultimately show ?thesis by blast
qed

end
