(* ===== verification/GatewayProps.thy ===== *)
theory GatewayProps
  imports AccountTypes
begin

text \<open>
  What the gateway promises the services: identity headers come from a verified token only, and with
  the user service behind it a profile is shown to the holder of a token of a live session.
\<close>

section \<open>Identity\<close>

text \<open>The identity headers of a forwarded request: none, or those of a verified access token; and the
  same for the admin's.\<close>

definition user_identity :: "account_env \<Rightarrow> time \<Rightarrow> gw_request \<Rightarrow> gw_request \<Rightarrow> bool" where
  "user_identity env now r q \<longleftrightarrow> (\<exists>token user. bearer_token r = Some token \<and> verifyAccessToken env now token = Some user \<and>
     gw_headers q ''x-user-id'' = Some [au_userId user] \<and> gw_headers q ''x-user-email'' = Some [au_email user] \<and>
     gw_headers q ''x-session-id'' = Some [au_sessionId user])"

definition no_user_identity :: "gw_request \<Rightarrow> bool" where
  "no_user_identity q \<longleftrightarrow> (\<forall>h \<in> set TRUSTED_USER_HEADERS. gw_headers q h = None)"

definition admin_identity :: "account_env \<Rightarrow> time \<Rightarrow> gw_request \<Rightarrow> gw_request \<Rightarrow> bool" where
  "admin_identity env now r q \<longleftrightarrow> (\<exists>token d. gw_cookies r ''admin_access_token'' = Some token \<and> ae_verify env (now div 1000) token = Some d \<and>
     jc_type d = ''admin'' \<and> gw_headers q ''x-admin-id'' = Some [jc_sub d])"

lemma header_consts:
  "''x-user-id'' \<in> set ALL_TRUSTED_HEADERS" "''x-user-email'' \<in> set ALL_TRUSTED_HEADERS" "''x-session-id'' \<in> set ALL_TRUSTED_HEADERS"
  "''x-admin-id'' \<in> set ALL_TRUSTED_HEADERS" "''authorization'' \<notin> set ALL_TRUSTED_HEADERS"
  by (simp_all add: ALL_TRUSTED_HEADERS_def TRUSTED_USER_HEADERS_def TRUSTED_ADMIN_HEADERS_def)

lemma scrub_simps [simp]:
  "gw_cookies (scrubTrustedHeaders r) = gw_cookies r" "bearer_token (scrubTrustedHeaders r) = bearer_token r"
  "h \<in> set ALL_TRUSTED_HEADERS \<Longrightarrow> gw_headers (scrubTrustedHeaders r) h = None"
  "h \<notin> set ALL_TRUSTED_HEADERS \<Longrightarrow> gw_headers (scrubTrustedHeaders r) h = gw_headers r h"
  using header_consts(5) by (simp_all add: scrubTrustedHeaders_def bearer_token_def Let_def cong: if_cong)

lemma scrubbed_no_identity: "no_user_identity (scrubTrustedHeaders r)" "gw_headers (scrubTrustedHeaders r) ''x-admin-id'' = None"
  using header_consts by (auto simp: no_user_identity_def TRUSTED_USER_HEADERS_def)

lemma inject_user_identity:
  assumes "bearer_token r = Some token" and "verifyAccessToken env now token = Some user"
  shows "user_identity env now r (inject_user user (scrubTrustedHeaders r))" "gw_headers (inject_user user (scrubTrustedHeaders r)) ''x-admin-id'' = None"
    "h \<notin> set ALL_TRUSTED_HEADERS \<Longrightarrow> gw_headers (inject_user user (scrubTrustedHeaders r)) h = gw_headers r h"
  using assms header_consts by (auto simp: user_identity_def inject_user_def)

text \<open>What each level of authentication lets through.\<close>

definition let_through :: "AuthLevel \<Rightarrow> account_env \<Rightarrow> time \<Rightarrow> gw_request \<Rightarrow> gw_request \<Rightarrow> bool" where
  "let_through a env now r q \<longleftrightarrow>
     (user_identity env now r q \<or> a \<noteq> Auth_required \<and> no_user_identity q) \<and>
     (admin_identity env now r q \<or> a \<noteq> Auth_admin \<and> gw_headers q ''x-admin-id'' = None) \<and>
     (\<forall>h. h \<notin> set ALL_TRUSTED_HEADERS \<longrightarrow> gw_headers q h = gw_headers r h)"

lemma resolveAuth_lets_through:
  assumes "resolveAuthMiddleware a env now r = Inr q" shows "let_through a env now r q"
proof (cases a)
  case Auth_required
  obtain token user where t: "bearer_token r = Some token" "verifyAccessToken env now token = Some user"
    "q = inject_user user (scrubTrustedHeaders r)"
    using assms Auth_required by (auto simp: resolveAuthMiddleware_def gatewayAuthMiddleware_def Let_def split: option.splits)
  then show ?thesis using inject_user_identity [OF t(1,2)] Auth_required by (simp add: let_through_def)
next
  case Auth_optional
  show ?thesis
  proof (cases "\<exists>token user. bearer_token r = Some token \<and> verifyAccessToken env now token = Some user")
    case True
    then obtain token user where t: "bearer_token r = Some token" "verifyAccessToken env now token = Some user" by blast
    then have "q = inject_user user (scrubTrustedHeaders r)"
      using assms Auth_optional by (simp add: resolveAuthMiddleware_def optionalGatewayAuthMiddleware_def)
    then show ?thesis using inject_user_identity [OF t(1,2)] Auth_optional by (simp add: let_through_def)
  next
    case False
    then have "q = scrubTrustedHeaders r"
      using assms Auth_optional by (auto simp: resolveAuthMiddleware_def optionalGatewayAuthMiddleware_def Let_def split: option.splits)
    then show ?thesis using scrubbed_no_identity Auth_optional by (simp add: let_through_def)
  qed
next
  case Auth_admin
  obtain token d where t: "gw_cookies r ''admin_access_token'' = Some token" "ae_verify env (now div 1000) token = Some d" "jc_type d = ''admin''"
    "q = (scrubTrustedHeaders r)\<lparr>gw_admin := Some (jc_sub d), gw_headers := (gw_headers (scrubTrustedHeaders r))(''x-admin-id'' \<mapsto> [jc_sub d])\<rparr>"
    using assms Auth_admin by (auto simp: resolveAuthMiddleware_def gatewayAdminAuthMiddleware_def Let_def split: option.splits if_splits)
  then have "admin_identity env now r q" by (simp add: admin_identity_def)
  moreover have "no_user_identity q" using scrubbed_no_identity(1) [of r] t(4) by (simp add: no_user_identity_def TRUSTED_USER_HEADERS_def)
  moreover have "gw_headers q h = gw_headers r h" if "h \<notin> set ALL_TRUSTED_HEADERS" for h
  proof -
    have "h \<noteq> ''x-admin-id''" using that header_consts(4) by blast
    then show ?thesis using that t(4) by simp
  qed
  ultimately show ?thesis using Auth_admin by (simp add: let_through_def)
next
  case Auth_none
  then have "q = scrubTrustedHeaders r"
    using assms by (simp add: resolveAuthMiddleware_def scrubOnlyMiddleware_def scrubTrustedHeaders_def)
  then show ?thesis using scrubbed_no_identity Auth_none by (simp add: let_through_def)
qed

lemma rateLimit_sent: "gs_sent (snd (rateLimitMiddleware env p lk now r s)) = gs_sent s"
  by (simp add: rateLimitMiddleware_def split: prod.split sum.split)

lemma proxy_sent:
  "gs_sent (snd (proxyHandler rt start finish out r s)) = gs_sent s \<or>
   gs_sent (snd (proxyHandler rt start finish out r s)) = gs_sent s @ [(ups_name (rc_upstream rt), r)]"
  by (simp add: proxyHandler_def Let_def split: option.split prod.split sum.split cb_error.split)

lemma handle_route_sent:
  assumes "handle_route env rt lk now finish out r s = (res, s')"
  shows "gs_sent s' = gs_sent s \<or>
    (\<exists>q. resolveAuthMiddleware (rc_auth rt) (ge_account env) now r = Inr q \<and> gs_sent s' = gs_sent s @ [(ups_name (rc_upstream rt), q)])"
proof (cases "resolveAuthMiddleware (rc_auth rt) (ge_account env) now r")
  case (Inr q)
  obtain h e s1 where l: "rateLimitMiddleware env (rc_rateLimit rt) lk now q s = ((h, e), s1)" by (metis prod.collapse)
  then have s1: "gs_sent s1 = gs_sent s" using rateLimit_sent by (metis snd_conv)
  show ?thesis
  proof (cases e)
    case None
    then have "s' = snd (proxyHandler rt now finish out q s1)" using assms Inr l by (simp add: handle_route_def)
    then show ?thesis using proxy_sent [of rt now finish out q s1] s1 Inr by auto
  next
    case (Some err)
    then show ?thesis using assms Inr l s1 by (simp add: handle_route_def)
  qed
qed (use assms in \<open>simp add: handle_route_def\<close>)

lemma gateway_lets_through:
  assumes "gateway env lk now finish out r s = (res, s')"
  shows "gs_sent s' = gs_sent s \<or>
    (\<exists>rt q. List.find (\<lambda>rt. mounted (rc_prefix rt) (gw_path r)) routes = Some rt \<and>
       gs_sent s' = gs_sent s @ [(ups_name (rc_upstream rt), q)] \<and> let_through (rc_auth rt) (ge_account env) now r q)"
proof (cases "List.find (\<lambda>rt. mounted (rc_prefix rt) (gw_path r)) routes")
  case None
  then show ?thesis using assms by (simp add: gateway_def)
next
  case (Some rt)
  then have "handle_route env rt lk now finish out r s = (res, s')" using assms by (simp add: gateway_def)
  from handle_route_sent [OF this] show ?thesis using Some resolveAuth_lets_through by blast
qed

text \<open>C14: Nobody forges an identity. Whatever headers a client sends, at most one request reaches an
  upstream, that of the first route whose prefix matches. It has the client's other headers; its
  user headers are those of the verified access token of the request, or absent, never absent where
  the route requires a user; its admin header is the verified admin token's, or absent, never absent
  behind the admin routes.\<close>

theorem gateway_identity_verified:
  assumes "gateway env lk now finish out r s = (res, s')"
  shows "gs_sent s' = gs_sent s \<or>
    (\<exists>rt q. List.find (\<lambda>rt. mounted (rc_prefix rt) (gw_path r)) routes = Some rt \<and>
       gs_sent s' = gs_sent s @ [(ups_name (rc_upstream rt), q)] \<and> let_through (rc_auth rt) (ge_account env) now r q)"
  using gateway_lets_through [OF assms] .

text \<open>A gateway in front of the sample service; its tokens are the JSON they stand for.\<close>

definition sample_gateway :: gw_env where
  "sample_gateway = \<lparr>ge_account = sample_accounts\<lparr>ae_verify := (\<lambda>n t. if t = ''tok'' then
       Some \<lparr>jc_sub = ''ada'', jc_email = Some ''a@x'', jc_sessionId = Some ''id-0'', jc_type = ''access''\<rparr> else None)\<rparr>,
     ge_preset = (\<lambda>_. (100, 2)), ge_lua_sha = ''sha''\<rparr>"

definition sample_gw_state :: gw_state where
  "sample_gw_state = snd (mountRoutes 0 routes \<lparr>gs_limiter = (None, \<lparr>store = Map.empty, scripts = []\<rparr>), gs_breakers = Map.empty,
     gs_registered = [], gs_sent = []\<rparr>)"

definition sample_forged :: gw_request where
  "sample_forged = \<lparr>gw_method = ''GET'', gw_path = ''/api/v1/users/me'',
     gw_headers = [''x-user-id'' \<mapsto> [''eve''], ''x-admin-id'' \<mapsto> [''root''], ''authorization'' \<mapsto> [''Bearer tok'']],
     gw_cookies = Map.empty, gw_ip = Some ''10.0.0.7'', gw_user = None, gw_admin = None\<rparr>"

definition sample_passed :: "(exn + unit) \<times> gw_state" where
  "sample_passed = gateway sample_gateway Reply 4000 4100 (Returned ()) sample_forged sample_gw_state"

theorem gateway_identity_verified_witness:
  "\<exists>q. gs_sent (snd sample_passed) = [(''user'', q)] \<and> gw_headers q ''x-user-id'' = Some [''ada''] \<and> gw_headers q ''x-admin-id'' = None"
proof -
  have n: "map (\<lambda>x. (fst x, gw_headers (snd x) ''x-user-id'')) (gs_sent (snd sample_passed)) = [(''user'', Some [''ada''])]" by code_simp
  have "gs_sent sample_gw_state = []" by code_simp
  moreover have "gateway sample_gateway Reply 4000 4100 (Returned ()) sample_forged sample_gw_state = (fst sample_passed, snd sample_passed)"
    by (simp add: sample_passed_def)
  from gateway_identity_verified [OF this] have "gs_sent (snd sample_passed) = gs_sent sample_gw_state \<or>
    (\<exists>rt q. List.find (\<lambda>rt. mounted (rc_prefix rt) (gw_path sample_forged)) routes = Some rt \<and>
       gs_sent (snd sample_passed) = gs_sent sample_gw_state @ [(ups_name (rc_upstream rt), q)] \<and>
       let_through (rc_auth rt) (ge_account sample_gateway) 4000 sample_forged q)" .
  moreover have "gs_sent (snd sample_passed) \<noteq> []" using n by auto
  ultimately obtain rt :: RouteConfig and q where q: "gs_sent (snd sample_passed) = [(ups_name (rc_upstream rt), q)]"
    "let_through (rc_auth rt) (ge_account sample_gateway) 4000 sample_forged q" by auto
  have "gw_cookies sample_forged ''admin_access_token'' = None" by (simp add: sample_forged_def)
  then have "gw_headers q ''x-admin-id'' = None" using q(2) by (simp add: let_through_def admin_identity_def)
  then show ?thesis using n q(1) by simp
qed

section \<open>From the gateway to a profile\<close>

text \<open>The request the user service receives; its address is the gateway's.\<close>

definition received :: "string option \<Rightarrow> gw_request \<Rightarrow> http_request" where
  "received ip q = \<lparr>hr_headers = gw_headers q, hr_cookies = gw_cookies q, hr_ip = ip\<rparr>"

lemma trust_received:
  assumes "trustGatewayHeaders (received ip q) = Some u" and "user_identity env now r q \<or> no_user_identity q"
  shows "\<exists>token user. bearer_token r = Some token \<and> verifyAccessToken env now token = Some user \<and>
    su_userId u = au_userId user \<and> su_sessionId u = au_sessionId user"
proof -
  have "\<not> no_user_identity q"
    using assms(1) by (auto simp: trustGatewayHeaders_def header_def received_def no_user_identity_def TRUSTED_USER_HEADERS_def split: option.splits)
  then show ?thesis using assms
    by (auto simp: trustGatewayHeaders_def header_def received_def user_identity_def split: option.splits if_splits)
qed

lemma authenticated_200:
  assumes "fst (authenticated l now r f s) = (cs, Inr out)"
  shows "\<exists>u rec s1. trustGatewayHeaders r = Some u \<and> redis_get now (k_authSession (su_sessionId u)) (ac_kv s) = Some (VSession rec) \<and>
    sessionMiddleware (from_link 100 l) now (su_userId u) (Some (su_sessionId u)) s = (Inr (), s1) \<and> fst (f u s1) = (cs, Inr out)"
proof (cases "trustGatewayHeaders r")
  case None
  then show ?thesis using assms by (simp add: authenticated_def sessionMiddleware_def throw_def)
next
  case (Some u)
  obtain x s1 where m: "sessionMiddleware (from_link 100 l) now (su_userId u) (Some (su_sessionId u)) s = (x, s1)" by fastforce
  then have x: "x = Inr ()" "fst (f u s1) = (cs, Inr out)" using assms Some by (auto simp: authenticated_def split: sum.splits)
  have "\<exists>rec. redis_get now (k_authSession (su_sessionId u)) (ac_kv s) = Some (VSession rec)"
    using m unfolding x(1) sessionMiddleware_def
    by (auto simp: then_proc_def throw_def kv_do_def over_link_Inr c_get_def split: if_splits prod.splits sum.splits option.splits rval.splits)
  then show ?thesis using Some m x by auto
qed

text \<open>C6: A profile is shown to its owner only. When a request that the gateway forwarded is answered
  with a profile by the user service, in any state that calls over a healthy connection reach, the
  request carried a valid access token, the token's session is live in Redis at that moment, and the
  profile is that of the row of the token's user.\<close>

theorem profile_request_authorised:
  assumes "(account_step env)\<^sup>*\<^sup>* (t0, no_accounts) (t, s)"
    and "gateway genv lk now finish out r gs = (res, gs')" and "gs_sent gs' = gs_sent gs @ [(up, q)]"
    and "fst (get_me l n (received ip q) s) = (cs, Inr (200, UserBody p))"
  shows "\<exists>token user rec row. bearer_token r = Some token \<and> verifyAccessToken (ge_account genv) now token = Some user \<and>
    redis_get n (k_authSession (au_sessionId user)) (ac_kv s) = Some (VSession rec) \<and>
    user_findById (au_userId user) s = Some row \<and> p = toUserResponseDto row"
proof -
  have "gs_sent gs' \<noteq> gs_sent gs" using assms(3) by simp
  with gateway_lets_through [OF assms(2)] obtain rt :: RouteConfig and q' where
    "gs_sent gs' = gs_sent gs @ [(ups_name (rc_upstream rt), q')]" "let_through (rc_auth rt) (ge_account genv) now r q'" by blast
  then have rt: "let_through (rc_auth rt) (ge_account genv) now r q" using assms(3) by simp
  obtain u rec s1 where u: "trustGatewayHeaders (received ip q) = Some u"
    "redis_get n (k_authSession (su_sessionId u)) (ac_kv s) = Some (VSession rec)"
    "sessionMiddleware (from_link 100 l) n (su_userId u) (Some (su_sessionId u)) s = (Inr (), s1)"
    "fst (ctl_getProfile l n u s1) = (cs, Inr (200, UserBody p))"
    using authenticated_200 [OF assms(4) [unfolded get_me_def]] by blast
  obtain token user where tok: "bearer_token r = Some token" "verifyAccessToken (ge_account genv) now token = Some user"
    "su_userId u = au_userId user" "su_sessionId u = au_sessionId user"
    using trust_received [OF u(1)] rt unfolding let_through_def by blast
  have "profiles_ok s" using profiles.run_inv [OF assms(1)] by (simp add: profiles_ok_def no_accounts_def)
  then have ok: "profiles_ok s1"
    using profiles_ok_kept [OF _ same_users_calls(5) leaves_calls(3)] u(3) by (metis snd_conv)
  have "ac_users s1 = ac_users s" using same_usersD [OF same_users_calls(5) u(3)] .
  then have "fst (getUserById l n (su_userId u) s1) = Inr (map_option toUserResponseDto (user_findById (su_userId u) s))"
    using profiles_ok_get(2) [OF ok] by (simp add: user_findById_def)
  then have "map_option toUserResponseDto (user_findById (su_userId u) s) = Some p"
    using u(4) by (auto simp: ctl_getProfile_def split: prod.splits sum.splits option.splits)
  then show ?thesis using tok u(2) by auto
qed

theorem profile_request_authorised_witness:
  "\<exists>q. gs_sent (snd sample_passed) = [(''user'', q)] \<and>
     snd (fst (get_me on 4200 (received None q) (snd sample_in))) = Inr (200, UserBody \<lparr>ur_id = ''ada'', ur_firstName = ''Ada'',
       ur_lastName = ''L'', ur_email = ''a@x'', ur_createdAt = 1000\<rparr>) \<and>
     (\<exists>rec. redis_get 4200 (k_authSession ''id-0'') (ac_kv (snd sample_in)) = Some (VSession rec))"
proof -
  let ?p = "\<lparr>ur_id = ''ada'', ur_firstName = ''Ada'', ur_lastName = ''L'', ur_email = ''a@x'', ur_createdAt = 1000\<rparr>"
  have "map fst (gs_sent (snd sample_passed)) = [''user'']" by code_simp
  then obtain q where "gs_sent (snd sample_passed) = [(''user'', q)]" by auto
  moreover have "list_all (\<lambda>(up, q). snd (fst (get_me on 4200 (received None q) (snd sample_in))) = Inr (200, UserBody ?p)) (gs_sent (snd sample_passed))"
    by code_simp
  ultimately have q: "gs_sent (snd sample_passed) = [(''user'', q)]" "snd (fst (get_me on 4200 (received None q) (snd sample_in))) = Inr (200, UserBody ?p)"
    by simp_all
  have e: "fst (get_me on 4200 (received None q) (snd sample_in)) = (fst (fst (get_me on 4200 (received None q) (snd sample_in))), Inr (200, UserBody ?p))"
    using q(2) by (metis prod.collapse)
  have "gs_sent sample_gw_state = []" by code_simp
  then have sent: "gs_sent (snd sample_passed) = gs_sent sample_gw_state @ [(''user'', q)]" using q(1) by simp
  have g: "gateway sample_gateway Reply 4000 4100 (Returned ()) sample_forged sample_gw_state = (fst sample_passed, snd sample_passed)"
    by (simp add: sample_passed_def)
  from profile_request_authorised [OF sample_in_run g sent e] obtain token user rec where
    t: "verifyAccessToken (ge_account sample_gateway) 4000 token = Some user"
    "redis_get 4200 (k_authSession (au_sessionId user)) (ac_kv (snd sample_in)) = Some (VSession rec)" by blast
  have "au_sessionId user = ''id-0''"
    using t(1) by (auto simp: verifyAccessToken_def sample_gateway_def split: if_splits)
  then show ?thesis using t(2) q by auto
qed

end
