(* ===== verification/AdminDb.thy ===== *)
theory AdminDb
  imports Outbox
begin

text \<open>
  The database of the admin service: the tables of its Prisma schema, the state, and the
  repositories over them.

  A table is the list of its rows in insertion order. \<open>constrained\<close> is what the database does to
  a write: it fails with P2002 when the new rows break a primary key or a unique constraint. Ids
  are made by the database (\<open>uuid()\<close>) and passed in. An \<open>include\<close> is a record of the row and the
  rows read with it; the foreign keys make the included rows exist. Strings are ordered by
  character code. The outbox rows hold the payload type \<open>'p\<close> of the contracts.
\<close>

section \<open>Tables\<close>

datatype TrainCategory =
  EXPRESS | SUPERFAST | MAIL | PASSENGER | VANDE_BHARAT | RAJDHANI | SHATABDI | DURONTO |
  JAN_SHATABDI | GARIB_RATH | DEMU | MEMU

datatype CoachType = GEN | SL | AC_3E | AC_3A | AC_2A | AC_1A | CC | EC

datatype SeatType = LOWER | MIDDLE | UPPER | SIDE_LOWER | SIDE_UPPER

datatype ScheduleStatus = Sch_DRAFT | Sch_ACTIVE | Sch_SCHEDULED | Sch_CANCELLED | Sch_COMPLETED

record Station =
  stn_id :: ident
  stn_name :: string
  stn_code :: string
  stn_zone :: "string option"
  stn_state :: "string option"
  stn_isActive :: bool
  stn_createdAt :: time
  stn_updatedAt :: time

record Train =
  trn_id :: ident
  trn_trainNumber :: string
  trn_trainName :: string
  trn_category :: TrainCategory
  trn_isActive :: bool
  trn_createdAt :: time
  trn_updatedAt :: time

record Route =
  rte_id :: ident
  rte_trainId :: ident
  rte_isActive :: bool
  rte_createdAt :: time
  rte_updatedAt :: time

record RouteStation =
  rst_id :: ident
  rst_routeId :: ident
  rst_stationId :: ident
  rst_stopNumber :: int
  rst_arrivalMinutes :: "int option"
  rst_departureMinutes :: "int option"
  rst_distanceFromStart :: int
  rst_platformNumber :: "string option"
  rst_createdAt :: time
  rst_updatedAt :: time

record Coach =
  coa_id :: ident
  coa_trainId :: ident
  coa_coachNumber :: string
  coa_coachType :: CoachType
  coa_totalSeats :: int
  coa_isActive :: bool
  coa_createdAt :: time
  coa_updatedAt :: time

record Seat =
  sea_id :: ident
  sea_coachId :: ident
  sea_seatNumber :: int
  sea_seatType :: SeatType

record OperatingDay =
  opd_trainId :: ident
  opd_dayOfWeek :: int

record Schedule =
  sch_id :: ident
  sch_trainId :: ident
  sch_departureDate :: time
  sch_status :: ScheduleStatus
  sch_version :: int
  sch_createdAt :: time
  sch_updatedAt :: time

record Admin =
  adm_id :: ident
  adm_email :: string
  adm_passwordHash :: string

record 'p admin_db =
  ad_stations :: "Station list"
  ad_trains :: "Train list"
  ad_routes :: "Route list"
  ad_routeStations :: "RouteStation list"
  ad_coaches :: "Coach list"
  ad_seats :: "Seat list"
  ad_operatingDays :: "OperatingDay list"
  ad_schedules :: "Schedule list"
  ad_admins :: "Admin list"
  ad_outbox :: "'p OutboxEvent list"

text \<open>The primary keys and unique constraints.\<close>

definition stations_unique :: "Station list \<Rightarrow> bool" where
  "stations_unique t \<longleftrightarrow> distinct (map stn_id t) \<and> distinct (map stn_name t) \<and> distinct (map stn_code t)"

definition trains_unique :: "Train list \<Rightarrow> bool" where
  "trains_unique t \<longleftrightarrow> distinct (map trn_id t) \<and> distinct (map trn_trainNumber t)"

definition routes_unique :: "Route list \<Rightarrow> bool" where
  "routes_unique t \<longleftrightarrow> distinct (map rte_id t) \<and> distinct (map rte_trainId t)"

definition route_stations_unique :: "RouteStation list \<Rightarrow> bool" where
  "route_stations_unique t \<longleftrightarrow> distinct (map rst_id t) \<and>
     distinct (map (\<lambda>r. (rst_routeId r, rst_stopNumber r)) t) \<and>
     distinct (map (\<lambda>r. (rst_routeId r, rst_stationId r)) t)"

definition coaches_unique :: "Coach list \<Rightarrow> bool" where
  "coaches_unique t \<longleftrightarrow> distinct (map coa_id t) \<and> distinct (map (\<lambda>c. (coa_trainId c, coa_coachNumber c)) t)"

definition seats_unique :: "Seat list \<Rightarrow> bool" where
  "seats_unique t \<longleftrightarrow> distinct (map sea_id t) \<and> distinct (map (\<lambda>s. (sea_coachId s, sea_seatNumber s)) t)"

definition days_unique :: "OperatingDay list \<Rightarrow> bool" where
  "days_unique t \<longleftrightarrow> distinct (map (\<lambda>d. (opd_trainId d, opd_dayOfWeek d)) t)"

definition schedules_unique :: "Schedule list \<Rightarrow> bool" where
  "schedules_unique t \<longleftrightarrow> distinct (map sch_id t) \<and> distinct (map (\<lambda>s. (sch_trainId s, sch_departureDate s)) t)"

definition constrained :: "('r list \<Rightarrow> bool) \<Rightarrow> 'r list \<Rightarrow> exn + 'r list" where
  "constrained unique rows = (if unique rows then Inr rows else Inl (PrismaError ''P2002''))"

text \<open>\<open>update\<close> by id: the updated row and the table.\<close>

definition update_by :: "('r list \<Rightarrow> bool) \<Rightarrow> ('r \<Rightarrow> ident) \<Rightarrow> ident \<Rightarrow> ('r \<Rightarrow> 'r) \<Rightarrow> 'r list \<Rightarrow> exn + ('r \<times> 'r list)" where
  "update_by unique key i f rows =
     (case find_row (\<lambda>r. key r = i) rows of
        None \<Rightarrow> Inl (PrismaError ''P2025'')
      | Some r \<Rightarrow> bindE (constrained unique (map (\<lambda>x. if key x = i then f x else x) rows)) (\<lambda>rows'. Inr (f r, rows')))"

definition paginate :: "int \<Rightarrow> int \<Rightarrow> 'r list \<Rightarrow> 'r list" where
  "paginate skip n rows = take (nat n) (drop (nat skip) rows)"

definition truthy :: "string option \<Rightarrow> bool" where
  "truthy v = (case v of None \<Rightarrow> False | Some x \<Rightarrow> x \<noteq> [])"

definition lower_char :: "char \<Rightarrow> char" where
  "lower_char c = (let n = of_char c :: nat in if 65 \<le> n \<and> n \<le> 90 then char_of (n + 32) else c)"

fun contains :: "string \<Rightarrow> string \<Rightarrow> bool" where
  "contains x [] = (x = [])"
| "contains x (c # cs) = (take (length x) (c # cs) = x \<or> contains x cs)"

text \<open>\<open>{ contains: x, mode: "insensitive" }\<close> on a nullable column.\<close>

definition icontains :: "string \<Rightarrow> string option \<Rightarrow> bool" where
  "icontains x col = (case col of None \<Rightarrow> False | Some v \<Rightarrow> contains (map lower_char x) (map lower_char v))"

section \<open>Stations\<close>

record StationFilters =
  sf_code :: "string option"
  sf_zone :: "string option"
  sf_state :: "string option"
  sf_isActive :: "bool option"

record UpdateStationRequestDto =
  us_name :: "string option"
  us_code :: "string option"
  us_zone :: "string option"
  us_state :: "string option"
  us_isActive :: "bool option"

definition set_field :: "'a option \<Rightarrow> 'a \<Rightarrow> 'a" where
  "set_field v old = (case v of None \<Rightarrow> old | Some x \<Rightarrow> x)"

definition getStationByCode :: "string \<Rightarrow> 'p admin_db \<Rightarrow> Station option" where
  "getStationByCode code db = find_row (\<lambda>s. stn_code s = code \<and> stn_isActive s) (ad_stations db)"

definition getStationById :: "ident \<Rightarrow> 'p admin_db \<Rightarrow> Station option" where
  "getStationById i db = find_row (\<lambda>s. stn_id s = i \<and> stn_isActive s) (ad_stations db)"

definition station_create :: "Station \<Rightarrow> ('p admin_db, Station) tx" where
  "station_create s db =
     bindE (constrained stations_unique (ad_stations db @ [s])) (\<lambda>t. Inr (s, db\<lparr>ad_stations := t\<rparr>))"

definition apply_station :: "time \<Rightarrow> UpdateStationRequestDto \<Rightarrow> Station \<Rightarrow> Station" where
  "apply_station now u s = s\<lparr>stn_name := set_field (us_name u) (stn_name s), stn_code := set_field (us_code u) (stn_code s),
     stn_zone := (case us_zone u of None \<Rightarrow> stn_zone s | z \<Rightarrow> z), stn_state := (case us_state u of None \<Rightarrow> stn_state s | z \<Rightarrow> z),
     stn_isActive := set_field (us_isActive u) (stn_isActive s), stn_updatedAt := now\<rparr>"

definition station_update :: "ident \<Rightarrow> (Station \<Rightarrow> Station) \<Rightarrow> ('p admin_db, Station) tx" where
  "station_update i f db =
     bindE (update_by stations_unique stn_id i f (ad_stations db)) (\<lambda>(s, t). Inr (s, db\<lparr>ad_stations := t\<rparr>))"

definition station_buildWhereClause :: "StationFilters \<Rightarrow> Station \<Rightarrow> bool" where
  "station_buildWhereClause f s \<longleftrightarrow>
     (truthy (sf_code f) \<longrightarrow> icontains (set_field (sf_code f) []) (Some (stn_code s))) \<and>
     (truthy (sf_zone f) \<longrightarrow> icontains (set_field (sf_zone f) []) (stn_zone s)) \<and>
     (truthy (sf_state f) \<longrightarrow> icontains (set_field (sf_state f) []) (stn_state s)) \<and>
     stn_isActive s = set_field (sf_isActive f) True"

definition repo_listStations :: "StationFilters \<Rightarrow> int \<Rightarrow> int \<Rightarrow> 'p admin_db \<Rightarrow> Station list" where
  "repo_listStations f skip n db =
     paginate skip n (sort_key stn_code (filter (station_buildWhereClause f) (ad_stations db)))"

definition countStations :: "StationFilters \<Rightarrow> 'p admin_db \<Rightarrow> nat" where
  "countStations f db = length (filter (station_buildWhereClause f) (ad_stations db))"

section \<open>Trains and their operating days\<close>

record TrainFilters =
  tf_trainNumber :: "string option"
  tf_category :: "TrainCategory option"
  tf_isActive :: "bool option"

record UpdateTrainRequestDto =
  ut_trainNumber :: "string option"
  ut_trainName :: "string option"
  ut_category :: "TrainCategory option"
  ut_isActive :: "bool option"

definition days_of :: "ident \<Rightarrow> 'p admin_db \<Rightarrow> OperatingDay list" where
  "days_of trainId db = filter (\<lambda>d. opd_trainId d = trainId) (ad_operatingDays db)"

definition getTrainByNumber :: "string \<Rightarrow> 'p admin_db \<Rightarrow> Train option" where
  "getTrainByNumber trainNumber db =
     find_row (\<lambda>t. trn_trainNumber t = trainNumber \<and> trn_isActive t) (ad_trains db)"

definition getTrainById :: "ident \<Rightarrow> 'p admin_db \<Rightarrow> (Train \<times> OperatingDay list) option" where
  "getTrainById i db =
     map_option (\<lambda>t. (t, days_of (trn_id t) db)) (find_row (\<lambda>t. trn_id t = i \<and> trn_isActive t) (ad_trains db))"

definition train_create :: "Train \<Rightarrow> ('p admin_db, Train) tx" where
  "train_create t db =
     bindE (constrained trains_unique (ad_trains db @ [t])) (\<lambda>rows. Inr (t, db\<lparr>ad_trains := rows\<rparr>))"

definition apply_train :: "time \<Rightarrow> UpdateTrainRequestDto \<Rightarrow> Train \<Rightarrow> Train" where
  "apply_train now u t = t\<lparr>trn_trainNumber := set_field (ut_trainNumber u) (trn_trainNumber t),
     trn_trainName := set_field (ut_trainName u) (trn_trainName t), trn_category := set_field (ut_category u) (trn_category t),
     trn_isActive := set_field (ut_isActive u) (trn_isActive t), trn_updatedAt := now\<rparr>"

definition train_update :: "ident \<Rightarrow> (Train \<Rightarrow> Train) \<Rightarrow> ('p admin_db, Train) tx" where
  "train_update i f db =
     bindE (update_by trains_unique trn_id i f (ad_trains db)) (\<lambda>(t, rows). Inr (t, db\<lparr>ad_trains := rows\<rparr>))"

definition updateOperatingDays :: "ident \<Rightarrow> int list \<Rightarrow> ('p admin_db, unit) tx" where
  "updateOperatingDays trainId days db =
     bindE (constrained days_unique (filter (\<lambda>d. opd_trainId d \<noteq> trainId) (ad_operatingDays db) @
         map (\<lambda>d. \<lparr>opd_trainId = trainId, opd_dayOfWeek = d\<rparr>) days))
       (\<lambda>t. Inr ((), db\<lparr>ad_operatingDays := t\<rparr>))"

definition train_buildWhereClause :: "TrainFilters \<Rightarrow> Train \<Rightarrow> bool" where
  "train_buildWhereClause f t \<longleftrightarrow>
     (truthy (tf_trainNumber f) \<longrightarrow> tf_trainNumber f = Some (trn_trainNumber t)) \<and>
     (tf_category f \<noteq> None \<longrightarrow> tf_category f = Some (trn_category t)) \<and>
     trn_isActive t = set_field (tf_isActive f) True"

definition repo_listTrains :: "TrainFilters \<Rightarrow> int \<Rightarrow> int \<Rightarrow> 'p admin_db \<Rightarrow> Train list" where
  "repo_listTrains f skip n db =
     paginate skip n (sort_key trn_trainNumber (filter (train_buildWhereClause f) (ad_trains db)))"

definition countTrains :: "TrainFilters \<Rightarrow> 'p admin_db \<Rightarrow> nat" where
  "countTrains f db = length (filter (train_buildWhereClause f) (ad_trains db))"

section \<open>Routes and their stops\<close>

type_synonym stop_details = "RouteStation \<times> Station"
type_synonym route_details = "Route \<times> stop_details list"

record UpdateRouteStationRequestDto =
  ur_arrivalMinutes :: "int option option"
  ur_departureMinutes :: "int option option"
  ur_distanceFromStart :: "int option"
  ur_platformNumber :: "string option option"

text \<open>\<open>include: { station: true }\<close>.\<close>

definition with_station :: "'p admin_db \<Rightarrow> RouteStation \<Rightarrow> stop_details option" where
  "with_station db r = map_option (\<lambda>s. (r, s)) (find_row (\<lambda>s. stn_id s = rst_stationId r) (ad_stations db))"

definition stops_of :: "ident \<Rightarrow> 'p admin_db \<Rightarrow> stop_details list" where
  "stops_of routeId db =
     List.map_filter (with_station db)
       (sort_key rst_stopNumber (filter (\<lambda>r. rst_routeId r = routeId) (ad_routeStations db)))"

definition with_stops :: "'p admin_db \<Rightarrow> Route \<Rightarrow> route_details" where
  "with_stops db r = (r, stops_of (rte_id r) db)"

definition getRouteById :: "ident \<Rightarrow> bool \<Rightarrow> 'p admin_db \<Rightarrow> route_details option" where
  "getRouteById i includeInactive db =
     map_option (with_stops db) (find_row (\<lambda>r. rte_id r = i \<and> (includeInactive \<or> rte_isActive r)) (ad_routes db))"

definition getRouteByTrainId :: "ident \<Rightarrow> bool \<Rightarrow> 'p admin_db \<Rightarrow> route_details option" where
  "getRouteByTrainId trainId includeInactive db =
     map_option (with_stops db) (find_row (\<lambda>r. rte_trainId r = trainId \<and> (includeInactive \<or> rte_isActive r)) (ad_routes db))"

definition route_create :: "Route \<Rightarrow> ('p admin_db, Route) tx" where
  "route_create r db =
     (if list_ex (\<lambda>t. trn_id t = rte_trainId r) (ad_trains db)
      then bindE (constrained routes_unique (ad_routes db @ [r])) (\<lambda>t. Inr (r, db\<lparr>ad_routes := t\<rparr>))
      else Inl (PrismaError ''P2003''))"

definition updateRoute :: "ident \<Rightarrow> (Route \<Rightarrow> Route) \<Rightarrow> ('p admin_db, Route) tx" where
  "updateRoute i f db =
     bindE (update_by routes_unique rte_id i f (ad_routes db)) (\<lambda>(r, t). Inr (r, db\<lparr>ad_routes := t\<rparr>))"

text \<open>\<open>orderBy: { createdAt: "desc" }\<close>.\<close>

definition repo_listRoutes :: "int \<Rightarrow> int \<Rightarrow> bool \<Rightarrow> 'p admin_db \<Rightarrow> route_details list" where
  "repo_listRoutes skip n includeInactive db =
     map (with_stops db) (paginate skip n
       (sort_key (\<lambda>r. - rte_createdAt r) (filter (\<lambda>r. includeInactive \<or> rte_isActive r) (ad_routes db))))"

definition countRoutes :: "bool \<Rightarrow> 'p admin_db \<Rightarrow> nat" where
  "countRoutes includeInactive db = length (filter (\<lambda>r. includeInactive \<or> rte_isActive r) (ad_routes db))"

definition addRouteStation :: "RouteStation \<Rightarrow> ('p admin_db, stop_details) tx" where
  "addRouteStation r db =
     (case with_station db r of
        None \<Rightarrow> Inl (PrismaError ''P2003'')
      | Some d \<Rightarrow>
          if list_ex (\<lambda>x. rte_id x = rst_routeId r) (ad_routes db)
          then bindE (constrained route_stations_unique (ad_routeStations db @ [r])) (\<lambda>t. Inr (d, db\<lparr>ad_routeStations := t\<rparr>))
          else Inl (PrismaError ''P2003''))"

definition getRouteStationById :: "ident \<Rightarrow> 'p admin_db \<Rightarrow> stop_details option" where
  "getRouteStationById i db =
     (case find_row (\<lambda>r. rst_id r = i) (ad_routeStations db) of None \<Rightarrow> None | Some r \<Rightarrow> with_station db r)"

definition getRouteStationByStopNumber :: "ident \<Rightarrow> int \<Rightarrow> 'p admin_db \<Rightarrow> stop_details option" where
  "getRouteStationByStopNumber routeId stopNumber db =
     (case find_row (\<lambda>r. rst_routeId r = routeId \<and> rst_stopNumber r = stopNumber) (ad_routeStations db) of
        None \<Rightarrow> None | Some r \<Rightarrow> with_station db r)"

definition getRouteStationByStationId :: "ident \<Rightarrow> ident \<Rightarrow> 'p admin_db \<Rightarrow> stop_details option" where
  "getRouteStationByStationId routeId stationId db =
     (case find_row (\<lambda>r. rst_routeId r = routeId \<and> rst_stationId r = stationId) (ad_routeStations db) of
        None \<Rightarrow> None | Some r \<Rightarrow> with_station db r)"

definition apply_stop :: "time \<Rightarrow> UpdateRouteStationRequestDto \<Rightarrow> RouteStation \<Rightarrow> RouteStation" where
  "apply_stop now u r = r\<lparr>rst_arrivalMinutes := set_field (ur_arrivalMinutes u) (rst_arrivalMinutes r),
     rst_departureMinutes := set_field (ur_departureMinutes u) (rst_departureMinutes r),
     rst_distanceFromStart := set_field (ur_distanceFromStart u) (rst_distanceFromStart r),
     rst_platformNumber := set_field (ur_platformNumber u) (rst_platformNumber r), rst_updatedAt := now\<rparr>"

definition repo_updateRouteStation :: "ident \<Rightarrow> (RouteStation \<Rightarrow> RouteStation) \<Rightarrow> ('p admin_db, stop_details) tx" where
  "repo_updateRouteStation i f db =
     bindE (update_by route_stations_unique rst_id i f (ad_routeStations db)) (\<lambda>(r, t).
       case with_station db r of None \<Rightarrow> Inl (PrismaError ''P2003'') | Some d \<Rightarrow> Inr (d, db\<lparr>ad_routeStations := t\<rparr>))"

definition deleteRouteStation :: "ident \<Rightarrow> ('p admin_db, unit) tx" where
  "deleteRouteStation i db =
     (if list_ex (\<lambda>r. rst_id r = i) (ad_routeStations db)
      then Inr ((), db\<lparr>ad_routeStations := filter (\<lambda>r. rst_id r \<noteq> i) (ad_routeStations db)\<rparr>)
      else Inl (PrismaError ''P2025''))"

section \<open>Coaches and seats\<close>

record UpdateCoachRequestDto =
  uc_coachNumber :: "string option"
  uc_coachType :: "CoachType option"
  uc_totalSeats :: "int option"

definition getCoachByNumber :: "ident \<Rightarrow> string \<Rightarrow> 'p admin_db \<Rightarrow> Coach option" where
  "getCoachByNumber trainId coachNumber db =
     find_row (\<lambda>c. coa_trainId c = trainId \<and> coa_coachNumber c = coachNumber \<and> coa_isActive c) (ad_coaches db)"

definition getCoachById :: "ident \<Rightarrow> 'p admin_db \<Rightarrow> Coach option" where
  "getCoachById i db = find_row (\<lambda>c. coa_id c = i \<and> coa_isActive c) (ad_coaches db)"

definition coach_create :: "Coach \<Rightarrow> ('p admin_db, Coach) tx" where
  "coach_create c db =
     (if list_ex (\<lambda>t. trn_id t = coa_trainId c) (ad_trains db)
      then bindE (constrained coaches_unique (ad_coaches db @ [c])) (\<lambda>t. Inr (c, db\<lparr>ad_coaches := t\<rparr>))
      else Inl (PrismaError ''P2003''))"

definition apply_coach :: "time \<Rightarrow> UpdateCoachRequestDto \<Rightarrow> Coach \<Rightarrow> Coach" where
  "apply_coach now u c = c\<lparr>coa_coachNumber := set_field (uc_coachNumber u) (coa_coachNumber c),
     coa_coachType := set_field (uc_coachType u) (coa_coachType c),
     coa_totalSeats := set_field (uc_totalSeats u) (coa_totalSeats c), coa_updatedAt := now\<rparr>"

definition coach_update :: "ident \<Rightarrow> (Coach \<Rightarrow> Coach) \<Rightarrow> ('p admin_db, Coach) tx" where
  "coach_update i f db =
     bindE (update_by coaches_unique coa_id i f (ad_coaches db)) (\<lambda>(c, t). Inr (c, db\<lparr>ad_coaches := t\<rparr>))"

definition coach_delete :: "time \<Rightarrow> ident \<Rightarrow> ('p admin_db, Coach) tx" where
  "coach_delete now i = coach_update i (\<lambda>c. c\<lparr>coa_isActive := False, coa_updatedAt := now\<rparr>)"

definition listCoachesByTrainId :: "ident \<Rightarrow> 'p admin_db \<Rightarrow> Coach list" where
  "listCoachesByTrainId trainId db =
     sort_key coa_coachNumber (filter (\<lambda>c. coa_trainId c = trainId \<and> coa_isActive c) (ad_coaches db))"

definition seats_of :: "ident \<Rightarrow> 'p admin_db \<Rightarrow> Seat list" where
  "seats_of coachId db = filter (\<lambda>s. sea_coachId s = coachId) (ad_seats db)"

definition seat_bulkCreate :: "Seat list \<Rightarrow> ('p admin_db, unit) tx" where
  "seat_bulkCreate seats db =
     (if list_all (\<lambda>s. list_ex (\<lambda>c. coa_id c = sea_coachId s) (ad_coaches db)) seats
      then bindE (constrained seats_unique (ad_seats db @ seats)) (\<lambda>t. Inr ((), db\<lparr>ad_seats := t\<rparr>))
      else Inl (PrismaError ''P2003''))"

definition countSeatsByCoachId :: "ident \<Rightarrow> 'p admin_db \<Rightarrow> nat" where
  "countSeatsByCoachId coachId db = length (seats_of coachId db)"

definition listSeatsByCoachId :: "ident \<Rightarrow> 'p admin_db \<Rightarrow> Seat list" where
  "listSeatsByCoachId coachId db = sort_key sea_seatNumber (seats_of coachId db)"

definition repo_getSeatById :: "ident \<Rightarrow> 'p admin_db \<Rightarrow> Seat option" where
  "repo_getSeatById i db = find_row (\<lambda>s. sea_id s = i) (ad_seats db)"

definition deleteSeatsByCoachId :: "ident \<Rightarrow> 'p admin_db \<Rightarrow> 'p admin_db" where
  "deleteSeatsByCoachId coachId db = db\<lparr>ad_seats := filter (\<lambda>s. sea_coachId s \<noteq> coachId) (ad_seats db)\<rparr>"

section \<open>Schedules\<close>

text \<open>The nested snapshot that \<open>getById\<close> includes.\<close>

record train_snapshot =
  tsn_train :: Train
  tsn_route :: "route_details option"
  tsn_coaches :: "(Coach \<times> Seat list) list"
  tsn_operatingDays :: "OperatingDay list"

type_synonym schedule_details = "Schedule \<times> train_snapshot"

record ScheduleFilters =
  hf_trainId :: "ident option"
  hf_status :: "ScheduleStatus option"

definition schedule_create :: "Schedule \<Rightarrow> ('p admin_db, Schedule) tx" where
  "schedule_create s db =
     (if list_ex (\<lambda>t. trn_id t = sch_trainId s) (ad_trains db)
      then bindE (constrained schedules_unique (ad_schedules db @ [s])) (\<lambda>t. Inr (s, db\<lparr>ad_schedules := t\<rparr>))
      else Inl (PrismaError ''P2003''))"

definition train_with_layout :: "'p admin_db \<Rightarrow> Train \<Rightarrow> train_snapshot" where
  "train_with_layout db t =
     \<lparr>tsn_train = t,
      tsn_route = map_option (with_stops db) (find_row (\<lambda>r. rte_trainId r = trn_id t) (ad_routes db)),
      tsn_coaches = map (\<lambda>c. (c, seats_of (coa_id c) db))
        (filter (\<lambda>c. coa_trainId c = trn_id t \<and> coa_isActive c) (ad_coaches db)),
      tsn_operatingDays = days_of (trn_id t) db\<rparr>"

definition schedule_getById :: "ident \<Rightarrow> 'p admin_db \<Rightarrow> schedule_details option" where
  "schedule_getById i db =
     (case find_row (\<lambda>s. sch_id s = i) (ad_schedules db) of
        None \<Rightarrow> None
      | Some s \<Rightarrow> map_option (\<lambda>t. (s, train_with_layout db t)) (find_row (\<lambda>t. trn_id t = sch_trainId s) (ad_trains db)))"

definition getByTrainAndDate :: "ident \<Rightarrow> time \<Rightarrow> 'p admin_db \<Rightarrow> Schedule option" where
  "getByTrainAndDate trainId departureDate db =
     find_row (\<lambda>s. sch_trainId s = trainId \<and> sch_departureDate s = departureDate) (ad_schedules db)"

definition schedule_update :: "ident \<Rightarrow> (Schedule \<Rightarrow> Schedule) \<Rightarrow> ('p admin_db, Schedule) tx" where
  "schedule_update i f db =
     bindE (update_by schedules_unique sch_id i f (ad_schedules db)) (\<lambda>(s, t). Inr (s, db\<lparr>ad_schedules := t\<rparr>))"

definition schedule_matches :: "ScheduleFilters \<Rightarrow> Schedule \<Rightarrow> bool" where
  "schedule_matches f s \<longleftrightarrow>
     (truthy (hf_trainId f) \<longrightarrow> hf_trainId f = Some (sch_trainId s)) \<and>
     (hf_status f \<noteq> None \<longrightarrow> hf_status f = Some (sch_status s))"

definition repo_listSchedules :: "ScheduleFilters \<Rightarrow> int \<Rightarrow> int \<Rightarrow> 'p admin_db \<Rightarrow> (Schedule \<times> Train option) list" where
  "repo_listSchedules f skip n db =
     map (\<lambda>s. (s, find_row (\<lambda>t. trn_id t = sch_trainId s) (ad_trains db)))
       (paginate skip n (sort_key sch_departureDate (filter (schedule_matches f) (ad_schedules db))))"

definition countSchedules :: "ScheduleFilters \<Rightarrow> 'p admin_db \<Rightarrow> nat" where
  "countSchedules f db = length (filter (schedule_matches f) (ad_schedules db))"

definition getFutureActiveSchedules :: "time \<Rightarrow> ident \<Rightarrow> 'p admin_db \<Rightarrow> time list" where
  "getFutureActiveSchedules now trainId db =
     map sch_departureDate (filter (\<lambda>s. sch_trainId s = trainId \<and> sch_status s = Sch_ACTIVE \<and> now \<le> sch_departureDate s)
       (ad_schedules db))"

section \<open>Admins\<close>

definition admin_findByEmail :: "string \<Rightarrow> 'p admin_db \<Rightarrow> Admin option" where
  "admin_findByEmail email db = find_row (\<lambda>a. adm_email a = email) (ad_admins db)"

definition admin_findById :: "ident \<Rightarrow> 'p admin_db \<Rightarrow> Admin option" where
  "admin_findById i db = find_row (\<lambda>a. adm_id a = i) (ad_admins db)"

section \<open>Laws of the writes\<close>

lemma constrained_Inr_iff [table_simps]: "constrained u t = Inr t' \<longleftrightarrow> u t \<and> t' = t"
  by (auto simp: constrained_def)

lemma constrained_Inl_iff: "constrained u t = Inl e \<longleftrightarrow> \<not> u t \<and> e = PrismaError ''P2002''"
  by (auto simp: constrained_def)

lemma update_by_Inr_iff [table_simps]:
  "update_by u key i f rows = Inr (r', rows') \<longleftrightarrow>
    (\<exists>r. find_row (\<lambda>x. key x = i) rows = Some r \<and> r' = f r \<and>
      rows' = map (\<lambda>x. if key x = i then f x else x) rows \<and> u rows')"
  by (auto simp: update_by_def bindE_eq_Inr_iff constrained_Inr_iff split: option.splits)

end
