(* ===== verification/AdminContracts.thy ===== *)
theory AdminContracts
  imports AdminDb
begin

text \<open>
  The events of \<open>packages/contracts/src/admin\<close> and the mappers of the admin service that make
  them from database rows.

  A mapper ends with \<open>Schema.parse\<close>, which throws a \<open>ZodError\<close> when a value does not fit: here
  the check of each schema is a predicate on the event. The ids are UUIDs made by the database
  and \<open>crypto.randomUUID\<close>, which \<open>z.uuid()\<close> accepts, and the rows' types give the rest; what
  remains to check are the enums that are narrower than the database's and the bounds of numbers.
\<close>

section \<open>Event contracts\<close>

record StationCreatedEventV1 =
  nc_eventId :: ident
  nc_stationId :: ident
  nc_stationCode :: string
  nc_stationName :: string
  nc_zone :: string
  nc_state :: string
  nc_isActive :: bool
  nc_createdAt :: time

record StationUpdatedEventV1 =
  nu_eventId :: ident
  nu_stationId :: ident
  nu_stationCode :: string
  nu_stationName :: string
  nu_zone :: string
  nu_state :: string
  nu_isActive :: bool
  nu_updatedAt :: time

record StationDeactivatedEventV1 =
  nd_eventId :: ident
  nd_stationId :: ident
  nd_stationCode :: string
  nd_deactivatedAt :: time

record TrainCreatedEventV1 =
  tc_eventId :: ident
  tc_trainId :: ident
  tc_trainNumber :: string
  tc_trainName :: string
  tc_category :: TrainCategory
  tc_isActive :: bool
  tc_createdAt :: time

record TrainUpdatedEventV1 =
  tx_eventId :: ident
  tx_trainId :: ident
  tx_trainNumber :: string
  tx_trainName :: string
  tx_category :: TrainCategory
  tx_isActive :: bool
  tx_updatedAt :: time

record TrainDeactivatedEventV1 =
  td_eventId :: ident
  td_trainId :: ident
  td_trainNumber :: string
  td_deactivatedAt :: time

record CoachCreatedEventV1 =
  oc_eventId :: ident
  oc_coachId :: ident
  oc_trainId :: ident
  oc_coachNumber :: string
  oc_coachType :: CoachType
  oc_totalSeats :: int
  oc_createdAt :: time

record SeatTemplateCreatedEventV1 =
  ec_eventId :: ident
  ec_coachId :: ident
  ec_trainId :: ident
  ec_coachType :: CoachType
  ec_seatCount :: int
  ec_createdAt :: time

record RouteCreatedEventV1 =
  rc_eventId :: ident
  rc_routeId :: ident
  rc_trainId :: ident
  rc_isActive :: bool
  rc_createdAt :: time

record RouteUpdatedEventV1 =
  ru_eventId :: ident
  ru_routeId :: ident
  ru_trainId :: ident
  ru_isActive :: bool
  ru_updatedAt :: time

record RouteDeletedEventV1 =
  rd_eventId :: ident
  rd_routeId :: ident
  rd_trainId :: ident
  rd_deletedAt :: time

record RouteStationAddedEventV1 =
  ra_eventId :: ident
  ra_routeId :: ident
  ra_trainId :: ident
  ra_stationId :: ident
  ra_stationCode :: string
  ra_stopNumber :: int
  ra_arrivalMinutes :: "int option"
  ra_departureMinutes :: "int option"
  ra_distanceFromStart :: int
  ra_platformNumber :: "string option"
  ra_createdAt :: time

record RouteStationUpdatedEventV1 =
  rn_eventId :: ident
  rn_routeId :: ident
  rn_trainId :: ident
  rn_routeStationId :: ident
  rn_stationId :: ident
  rn_stationCode :: string
  rn_stopNumber :: int
  rn_arrivalMinutes :: "int option"
  rn_departureMinutes :: "int option"
  rn_distanceFromStart :: int
  rn_platformNumber :: "string option"
  rn_updatedAt :: time

record RouteStationRemovedEventV1 =
  rx_eventId :: ident
  rx_routeId :: ident
  rx_trainId :: ident
  rx_routeStationId :: ident
  rx_stationId :: ident
  rx_stationCode :: string
  rx_removedAt :: time

record stop_snapshot =
  pn_stationId :: ident
  pn_stationCode :: string
  pn_stationName :: string
  pn_stopNumber :: int
  pn_arrivalMinutes :: "int option"
  pn_departureMinutes :: "int option"
  pn_distanceFromStart :: int

record seat_snapshot =
  qn_seatId :: ident
  qn_seatNumber :: int
  qn_seatType :: SeatType

record coach_snapshot =
  kn_coachId :: ident
  kn_coachNumber :: string
  kn_coachType :: CoachType
  kn_totalSeats :: int
  kn_seats :: "seat_snapshot list"

record ScheduleCreatedEventV1 =
  hc_eventId :: ident
  hc_scheduleId :: ident
  hc_trainId :: ident
  hc_trainNumber :: string
  hc_trainName :: string
  hc_routeId :: ident
  hc_trainCategory :: TrainCategory
  hc_departureDate :: time
  hc_status :: ScheduleStatus
  hc_version :: int
  hc_operatingDays :: "int list"
  hc_stops :: "stop_snapshot list"
  hc_coaches :: "coach_snapshot list"
  hc_createdAt :: time

record ScheduleStatusChangedEventV1 =
  hs_eventId :: ident
  hs_scheduleId :: ident
  hs_trainId :: ident
  hs_routeId :: ident
  hs_departureDate :: time
  hs_status :: ScheduleStatus
  hs_version :: int
  hs_updatedAt :: time

datatype admin_event =
    StationCreated StationCreatedEventV1
  | StationUpdated StationUpdatedEventV1
  | StationDeactivated StationDeactivatedEventV1
  | TrainCreated TrainCreatedEventV1
  | TrainUpdated TrainUpdatedEventV1
  | TrainDeactivated TrainDeactivatedEventV1
  | CoachCreated CoachCreatedEventV1
  | SeatTemplateCreated SeatTemplateCreatedEventV1
  | RouteCreated RouteCreatedEventV1
  | RouteUpdated RouteUpdatedEventV1
  | RouteDeleted RouteDeletedEventV1
  | RouteStationAdded RouteStationAddedEventV1
  | RouteStationUpdated RouteStationUpdatedEventV1
  | RouteStationRemoved RouteStationRemovedEventV1
  | ScheduleCreated ScheduleCreatedEventV1
  | ScheduleStatusChanged ScheduleStatusChangedEventV1

type_synonym adb = "admin_event admin_db"

section \<open>Schemas\<close>

text \<open>The categories of the contracts: \<open>MAIL\<close>, \<open>JAN_SHATABDI\<close> and \<open>GARIB_RATH\<close> of the database
  are not among them.\<close>

definition contract_category :: "TrainCategory \<Rightarrow> bool" where
  "contract_category c \<longleftrightarrow>
     c \<in> {RAJDHANI, SHATABDI, VANDE_BHARAT, DURONTO, SUPERFAST, PASSENGER, EXPRESS, DEMU, MEMU}"

definition contract_status :: "ScheduleStatus \<Rightarrow> bool" where
  "contract_status s \<longleftrightarrow> s \<in> {Sch_DRAFT, Sch_ACTIVE, Sch_CANCELLED}"

definition nonneg_opt :: "int option \<Rightarrow> bool" where
  "nonneg_opt v = (case v of None \<Rightarrow> True | Some x \<Rightarrow> 0 \<le> x)"

definition stop_added_schema :: "RouteStationAddedEventV1 \<Rightarrow> bool" where
  "stop_added_schema e \<longleftrightarrow> 0 < ra_stopNumber e \<and> nonneg_opt (ra_arrivalMinutes e) \<and>
     nonneg_opt (ra_departureMinutes e) \<and> 0 \<le> ra_distanceFromStart e"

definition stop_updated_schema :: "RouteStationUpdatedEventV1 \<Rightarrow> bool" where
  "stop_updated_schema e \<longleftrightarrow> 0 < rn_stopNumber e \<and> nonneg_opt (rn_arrivalMinutes e) \<and>
     nonneg_opt (rn_departureMinutes e) \<and> 0 \<le> rn_distanceFromStart e"

definition stop_snapshot_schema :: "stop_snapshot \<Rightarrow> bool" where
  "stop_snapshot_schema s \<longleftrightarrow> 0 < pn_stopNumber s \<and> nonneg_opt (pn_arrivalMinutes s) \<and>
     nonneg_opt (pn_departureMinutes s) \<and> 0 \<le> pn_distanceFromStart s"

definition coach_snapshot_schema :: "coach_snapshot \<Rightarrow> bool" where
  "coach_snapshot_schema c \<longleftrightarrow> 0 < kn_totalSeats c \<and> list_all (\<lambda>s. 0 < qn_seatNumber s) (kn_seats c)"

definition schedule_created_schema :: "ScheduleCreatedEventV1 \<Rightarrow> bool" where
  "schedule_created_schema e \<longleftrightarrow> contract_category (hc_trainCategory e) \<and> contract_status (hc_status e) \<and>
     0 \<le> hc_version e \<and> list_all (\<lambda>d. 0 \<le> d \<and> d \<le> 6) (hc_operatingDays e) \<and>
     list_all stop_snapshot_schema (hc_stops e) \<and> list_all coach_snapshot_schema (hc_coaches e)"

definition schedule_status_schema :: "ScheduleStatusChangedEventV1 \<Rightarrow> bool" where
  "schedule_status_schema e \<longleftrightarrow> contract_status (hs_status e) \<and> 0 \<le> hs_version e"

definition zparse :: "('e \<Rightarrow> bool) \<Rightarrow> 'e \<Rightarrow> exn + 'e" where
  "zparse schema e = (if schema e then Inr e else Inl ZodError)"

lemma zparse_Inr_iff: "zparse p e = Inr e' \<longleftrightarrow> p e \<and> e' = e"
  by (auto simp: zparse_def)

section \<open>Mappers\<close>

text \<open>\<open>uuid\<close> is what \<open>crypto.randomUUID()\<close> returns. An absent zone or state becomes \<open>""\<close>.\<close>

definition Station_toCreatedEvent :: "ident \<Rightarrow> Station \<Rightarrow> exn + admin_event" where
  "Station_toCreatedEvent uuid s = Inr (StationCreated \<lparr>nc_eventId = uuid, nc_stationId = stn_id s,
     nc_stationCode = stn_code s, nc_stationName = stn_name s, nc_zone = set_field (stn_zone s) [],
     nc_state = set_field (stn_state s) [], nc_isActive = stn_isActive s, nc_createdAt = stn_createdAt s\<rparr>)"

definition Station_toUpdatedEvent :: "ident \<Rightarrow> Station \<Rightarrow> exn + admin_event" where
  "Station_toUpdatedEvent uuid s = Inr (StationUpdated \<lparr>nu_eventId = uuid, nu_stationId = stn_id s,
     nu_stationCode = stn_code s, nu_stationName = stn_name s, nu_zone = set_field (stn_zone s) [],
     nu_state = set_field (stn_state s) [], nu_isActive = stn_isActive s, nu_updatedAt = stn_updatedAt s\<rparr>)"

definition Station_toDeactivatedEvent :: "ident \<Rightarrow> Station \<Rightarrow> exn + admin_event" where
  "Station_toDeactivatedEvent uuid s = Inr (StationDeactivated \<lparr>nd_eventId = uuid, nd_stationId = stn_id s,
     nd_stationCode = stn_code s, nd_deactivatedAt = stn_updatedAt s\<rparr>)"

definition Train_toCreatedEvent :: "ident \<Rightarrow> Train \<Rightarrow> exn + admin_event" where
  "Train_toCreatedEvent uuid t = map_sum id TrainCreated (zparse (\<lambda>e. contract_category (tc_category e))
     \<lparr>tc_eventId = uuid, tc_trainId = trn_id t, tc_trainNumber = trn_trainNumber t, tc_trainName = trn_trainName t,
      tc_category = trn_category t, tc_isActive = trn_isActive t, tc_createdAt = trn_createdAt t\<rparr>)"

definition Train_toUpdatedEvent :: "ident \<Rightarrow> Train \<Rightarrow> exn + admin_event" where
  "Train_toUpdatedEvent uuid t = map_sum id TrainUpdated (zparse (\<lambda>e. contract_category (tx_category e))
     \<lparr>tx_eventId = uuid, tx_trainId = trn_id t, tx_trainNumber = trn_trainNumber t, tx_trainName = trn_trainName t,
      tx_category = trn_category t, tx_isActive = trn_isActive t, tx_updatedAt = trn_updatedAt t\<rparr>)"

definition Train_toDeactivatedEvent :: "ident \<Rightarrow> Train \<Rightarrow> exn + admin_event" where
  "Train_toDeactivatedEvent uuid t = Inr (TrainDeactivated \<lparr>td_eventId = uuid, td_trainId = trn_id t,
     td_trainNumber = trn_trainNumber t, td_deactivatedAt = trn_updatedAt t\<rparr>)"

definition Coach_toCreatedEvent :: "ident \<Rightarrow> Coach \<Rightarrow> exn + admin_event" where
  "Coach_toCreatedEvent uuid c = map_sum id CoachCreated (zparse (\<lambda>e. 0 < oc_totalSeats e)
     \<lparr>oc_eventId = uuid, oc_coachId = coa_id c, oc_trainId = coa_trainId c, oc_coachNumber = coa_coachNumber c,
      oc_coachType = coa_coachType c, oc_totalSeats = coa_totalSeats c, oc_createdAt = coa_createdAt c\<rparr>)"

definition Seat_toCreatedEvent :: "ident \<Rightarrow> time \<Rightarrow> Coach \<Rightarrow> exn + admin_event" where
  "Seat_toCreatedEvent uuid now c = map_sum id SeatTemplateCreated (zparse (\<lambda>e. 0 < ec_seatCount e)
     \<lparr>ec_eventId = uuid, ec_coachId = coa_id c, ec_trainId = coa_trainId c, ec_coachType = coa_coachType c,
      ec_seatCount = coa_totalSeats c, ec_createdAt = now\<rparr>)"

definition Route_toCreatedEvent :: "ident \<Rightarrow> Route \<Rightarrow> exn + admin_event" where
  "Route_toCreatedEvent uuid r = Inr (RouteCreated \<lparr>rc_eventId = uuid, rc_routeId = rte_id r, rc_trainId = rte_trainId r,
     rc_isActive = rte_isActive r, rc_createdAt = rte_createdAt r\<rparr>)"

definition Route_toUpdatedEvent :: "ident \<Rightarrow> Route \<Rightarrow> exn + admin_event" where
  "Route_toUpdatedEvent uuid r = Inr (RouteUpdated \<lparr>ru_eventId = uuid, ru_routeId = rte_id r, ru_trainId = rte_trainId r,
     ru_isActive = rte_isActive r, ru_updatedAt = rte_updatedAt r\<rparr>)"

definition Route_toDeletedEvent :: "ident \<Rightarrow> time \<Rightarrow> Route \<Rightarrow> exn + admin_event" where
  "Route_toDeletedEvent uuid now r = Inr (RouteDeleted \<lparr>rd_eventId = uuid, rd_routeId = rte_id r, rd_trainId = rte_trainId r,
     rd_deletedAt = now\<rparr>)"

definition toStationAddedEvent :: "ident \<Rightarrow> ident \<Rightarrow> stop_details \<Rightarrow> exn + admin_event" where
  "toStationAddedEvent uuid trainId d = (case d of (r, s) \<Rightarrow> map_sum id RouteStationAdded (zparse stop_added_schema
     \<lparr>ra_eventId = uuid, ra_routeId = rst_routeId r, ra_trainId = trainId, ra_stationId = rst_stationId r,
      ra_stationCode = stn_code s, ra_stopNumber = rst_stopNumber r, ra_arrivalMinutes = rst_arrivalMinutes r,
      ra_departureMinutes = rst_departureMinutes r, ra_distanceFromStart = rst_distanceFromStart r,
      ra_platformNumber = rst_platformNumber r, ra_createdAt = rst_createdAt r\<rparr>))"

definition toStationUpdatedEvent :: "ident \<Rightarrow> ident \<Rightarrow> stop_details \<Rightarrow> exn + admin_event" where
  "toStationUpdatedEvent uuid trainId d = (case d of (r, s) \<Rightarrow> map_sum id RouteStationUpdated (zparse stop_updated_schema
     \<lparr>rn_eventId = uuid, rn_routeId = rst_routeId r, rn_trainId = trainId, rn_routeStationId = rst_id r,
      rn_stationId = rst_stationId r, rn_stationCode = stn_code s, rn_stopNumber = rst_stopNumber r,
      rn_arrivalMinutes = rst_arrivalMinutes r, rn_departureMinutes = rst_departureMinutes r,
      rn_distanceFromStart = rst_distanceFromStart r, rn_platformNumber = rst_platformNumber r,
      rn_updatedAt = rst_updatedAt r\<rparr>))"

definition toStationRemovedEvent :: "ident \<Rightarrow> time \<Rightarrow> ident \<Rightarrow> stop_details \<Rightarrow> exn + admin_event" where
  "toStationRemovedEvent uuid now trainId d = (case d of (r, s) \<Rightarrow> Inr (RouteStationRemoved
     \<lparr>rx_eventId = uuid, rx_routeId = rst_routeId r, rx_trainId = trainId, rx_routeStationId = rst_id r,
      rx_stationId = rst_stationId r, rx_stationCode = stn_code s, rx_removedAt = now\<rparr>))"

definition snapshot_stop :: "stop_details \<Rightarrow> stop_snapshot" where
  "snapshot_stop d = (case d of (r, s) \<Rightarrow> \<lparr>pn_stationId = rst_stationId r, pn_stationCode = stn_code s,
     pn_stationName = stn_name s, pn_stopNumber = rst_stopNumber r, pn_arrivalMinutes = rst_arrivalMinutes r,
     pn_departureMinutes = rst_departureMinutes r, pn_distanceFromStart = rst_distanceFromStart r\<rparr>)"

definition snapshot_coach :: "Coach \<times> Seat list \<Rightarrow> coach_snapshot" where
  "snapshot_coach cs = (case cs of (c, seats) \<Rightarrow> \<lparr>kn_coachId = coa_id c, kn_coachNumber = coa_coachNumber c,
     kn_coachType = coa_coachType c, kn_totalSeats = coa_totalSeats c,
     kn_seats = map (\<lambda>s. \<lparr>qn_seatId = sea_id s, qn_seatNumber = sea_seatNumber s, qn_seatType = sea_seatType s\<rparr>) seats\<rparr>)"

definition created_payload :: "ident \<Rightarrow> Schedule \<Rightarrow> train_snapshot \<Rightarrow> route_details \<Rightarrow> ScheduleCreatedEventV1" where
  "created_payload uuid s t rd =
     \<lparr>hc_eventId = uuid, hc_scheduleId = sch_id s, hc_trainId = sch_trainId s,
      hc_trainNumber = trn_trainNumber (tsn_train t), hc_trainName = trn_trainName (tsn_train t),
      hc_routeId = rte_id (fst rd), hc_trainCategory = trn_category (tsn_train t),
      hc_departureDate = sch_departureDate s, hc_status = sch_status s, hc_version = sch_version s,
      hc_operatingDays = map opd_dayOfWeek (tsn_operatingDays t), hc_stops = map snapshot_stop (snd rd),
      hc_coaches = map snapshot_coach (tsn_coaches t), hc_createdAt = sch_createdAt s\<rparr>"

definition Schedule_toCreatedEvent :: "ident \<Rightarrow> schedule_details \<Rightarrow> exn + admin_event" where
  "Schedule_toCreatedEvent uuid d = (case d of (s, t) \<Rightarrow>
     (case tsn_route t of
        None \<Rightarrow> Inl (PlainError ''Cannot map ScheduleCreatedEventV1 without routeId'')
      | Some rd \<Rightarrow> map_sum id ScheduleCreated (zparse schedule_created_schema (created_payload uuid s t rd))))"

definition toStatusChangedEvent :: "ident \<Rightarrow> schedule_details \<Rightarrow> exn + admin_event" where
  "toStatusChangedEvent uuid d = (case d of (s, t) \<Rightarrow>
     (case tsn_route t of
        None \<Rightarrow> Inl (PlainError ''Cannot map ScheduleStatusChangedEventV1 without routeId'')
      | Some rd \<Rightarrow> map_sum id ScheduleStatusChanged (zparse schedule_status_schema
          \<lparr>hs_eventId = uuid, hs_scheduleId = sch_id s, hs_trainId = sch_trainId s, hs_routeId = rte_id (fst rd),
           hs_departureDate = sch_departureDate s, hs_status = sch_status s, hs_version = sch_version s,
           hs_updatedAt = sch_updatedAt s\<rparr>)))"

end
