(* ===== verification/AdminCatalog.thy ===== *)
theory AdminCatalog
  imports AdminContracts
begin

text \<open>
  The catalogue services of the admin service: \<open>StationService\<close>, \<open>TrainService\<close>,
  \<open>CoachService\<close> and \<open>SeatService\<close>.

  Each command runs one transaction that reads, checks, writes and inserts the outbox event; the
  event's mapper may throw inside it, which undoes the writes. \<open>on_conflict\<close> is the \<open>catch\<close> that
  turns P2002 into a 409. \<open>now\<close> is the clock, \<open>i\<close> the id the database makes for the new row.
\<close>

section \<open>The outbox insert\<close>

record admin_env =
  av_carrier :: headers
  av_uuid :: ident

definition SCHEMA_VERSION :: string where "SCHEMA_VERSION = ''x-schema-version''"

definition publish :: "admin_env \<Rightarrow> time \<Rightarrow> string \<Rightarrow> ident \<Rightarrow> string \<Rightarrow> string \<Rightarrow> (exn + admin_event) \<Rightarrow> (adb, unit) tx" where
  "publish env now aggregateType aggregateId eventType topic payload db =
     bindE payload (\<lambda>p. Inr ((), db\<lparr>ad_outbox := outbox_insert (av_carrier env) now
       (Some [SCHEMA_VERSION \<mapsto> ''1'', EVENT_TYPE \<mapsto> eventType])
       \<lparr>od_aggregateType = aggregateType, od_aggregateId = aggregateId, od_eventType = eventType,
        od_topic = topic, od_payload = p\<rparr> (ad_outbox db)\<rparr>))"

definition on_conflict :: "string \<Rightarrow> (adb, 'a) proc \<Rightarrow> (adb, 'a) proc" where
  "on_conflict code m db =
     (case m db of
        (Inl (PrismaError c), db') \<Rightarrow> (Inl (if c = ''P2002'' then ApiError 409 code else PrismaError c), db')
      | r \<Rightarrow> r)"

record page_metadata =
  pm_total :: nat
  pm_page :: int
  pm_limit :: int
  pm_totalPages :: int

definition metadata :: "nat \<Rightarrow> int \<Rightarrow> int \<Rightarrow> page_metadata" where
  "metadata count page limit = \<lparr>pm_total = count, pm_page = page, pm_limit = limit,
     pm_totalPages = \<lceil>of_nat count / (of_int limit :: rat)\<rceil>\<rparr>"

section \<open>Stations\<close>

record CreateStationRequestDto =
  cs_name :: string
  cs_code :: string
  cs_zone :: "string option"
  cs_state :: "string option"
  cs_isActive :: bool

record ListStationsQueryDto =
  ls_code :: "string option"
  ls_zone :: "string option"
  ls_state :: "string option"
  ls_isActive :: "bool option"
  ls_page :: int
  ls_limit :: int

definition ensureUniqueCode :: "string \<Rightarrow> adb \<Rightarrow> exn + unit" where
  "ensureUniqueCode code db =
     (if getStationByCode code db \<noteq> None then Inl (ApiError 409 ''STATION_ALREADY_EXISTS'') else Inr ())"

definition createStation :: "admin_env \<Rightarrow> time \<Rightarrow> ident \<Rightarrow> CreateStationRequestDto \<Rightarrow> (adb, Station) proc" where
  "createStation env now i dto = on_conflict ''STATION_ALREADY_EXISTS'' (transaction (\<lambda>db.
     bindE (ensureUniqueCode (cs_code dto) db) (\<lambda>_.
     bindE (station_create \<lparr>stn_id = i, stn_name = cs_name dto, stn_code = cs_code dto, stn_zone = cs_zone dto,
         stn_state = cs_state dto, stn_isActive = cs_isActive dto, stn_createdAt = now, stn_updatedAt = now\<rparr> db) (\<lambda>(station, db1).
     bindE (publish env now ''STATION'' (stn_id station) ''StationCreatedV1'' ''admin.station-created.v1''
         (Station_toCreatedEvent (av_uuid env) station) db1) (\<lambda>(_, db2). Inr (station, db2))))))"

definition service_getStationById :: "ident \<Rightarrow> adb \<Rightarrow> exn + Station" where
  "service_getStationById stationId db =
     (case getStationById stationId db of None \<Rightarrow> Inl (ApiError 404 ''STATION_NOT_FOUND'') | Some s \<Rightarrow> Inr s)"

text \<open>\<open>js_blank\<close>: \<open>x.trim() === ""\<close>.\<close>

definition js_blank :: "string \<Rightarrow> bool" where
  "js_blank s = list_all (\<lambda>c. (of_char c :: nat) \<in> {9, 10, 11, 12, 13, 32, 160}) s"

definition given :: "string option \<Rightarrow> bool" where
  "given v = (case v of None \<Rightarrow> False | Some x \<Rightarrow> \<not> js_blank x)"

definition station_filters :: "ListStationsQueryDto \<Rightarrow> StationFilters" where
  "station_filters q =
     (if given (ls_code q) \<or> given (ls_zone q) \<or> given (ls_state q) \<or> ls_isActive q \<noteq> None
      then \<lparr>sf_code = ls_code q, sf_zone = ls_zone q, sf_state = ls_state q, sf_isActive = ls_isActive q\<rparr>
      else \<lparr>sf_code = None, sf_zone = None, sf_state = None, sf_isActive = Some True\<rparr>)"

definition listStations :: "ListStationsQueryDto \<Rightarrow> adb \<Rightarrow> Station list \<times> page_metadata" where
  "listStations q db =
     (let f = station_filters q
      in (repo_listStations f ((ls_page q - 1) * ls_limit q) (ls_limit q) db,
          metadata (countStations f db) (ls_page q) (ls_limit q)))"

definition updateStation :: "admin_env \<Rightarrow> time \<Rightarrow> ident \<Rightarrow> UpdateStationRequestDto \<Rightarrow> (adb, Station) proc" where
  "updateStation env now stationId dto = on_conflict ''STATION_ALREADY_EXISTS'' (transaction (\<lambda>db.
     case getStationById stationId db of
       None \<Rightarrow> Inl (ApiError 404 ''STATION_NOT_FOUND'')
     | Some station \<Rightarrow>
         bindE (if truthy (us_code dto) \<and> us_code dto \<noteq> Some (stn_code station)
                then ensureUniqueCode (set_field (us_code dto) []) db else Inr ()) (\<lambda>_.
         bindE (station_update stationId (apply_station now dto) db) (\<lambda>(updated, db1).
         bindE (publish env now ''STATION'' (stn_id updated) ''StationUpdatedV1'' ''admin.station-updated.v1''
             (Station_toUpdatedEvent (av_uuid env) updated) db1) (\<lambda>(_, db2). Inr (updated, db2))))))"

definition no_station_update :: UpdateStationRequestDto where
  "no_station_update = \<lparr>us_name = None, us_code = None, us_zone = None, us_state = None, us_isActive = None\<rparr>"

definition deactivateStation :: "admin_env \<Rightarrow> time \<Rightarrow> ident \<Rightarrow> (adb, Station) proc" where
  "deactivateStation env now stationId = transaction (\<lambda>db.
     case getStationById stationId db of
       None \<Rightarrow> Inl (ApiError 404 ''STATION_NOT_FOUND'')
     | Some station \<Rightarrow>
         if \<not> stn_isActive station then Inr (station, db)
         else
           bindE (station_update stationId (apply_station now (no_station_update\<lparr>us_isActive := Some False\<rparr>)) db) (\<lambda>(s, db1).
           bindE (publish env now ''STATION'' (stn_id s) ''StationDeactivatedV1'' ''admin.station-deactivated.v1''
               (Station_toDeactivatedEvent (av_uuid env) s) db1) (\<lambda>(_, db2). Inr (s, db2))))"

section \<open>Trains\<close>

record CreateTrainRequestDto =
  ct_trainNumber :: string
  ct_trainName :: string
  ct_category :: TrainCategory
  ct_isActive :: bool

record ListTrainsQueryDto =
  lt_trainNumber :: "string option"
  lt_category :: "TrainCategory option"
  lt_isActive :: "bool option"
  lt_page :: int
  lt_limit :: int

definition ensureUniqueTrainNumber :: "string \<Rightarrow> adb \<Rightarrow> exn + unit" where
  "ensureUniqueTrainNumber trainNumber db =
     (if getTrainByNumber trainNumber db \<noteq> None then Inl (ApiError 409 ''TRAIN_ALREADY_EXISTS'') else Inr ())"

definition createTrain :: "admin_env \<Rightarrow> time \<Rightarrow> ident \<Rightarrow> CreateTrainRequestDto \<Rightarrow> (adb, Train) proc" where
  "createTrain env now i dto = on_conflict ''TRAIN_ALREADY_EXISTS'' (transaction (\<lambda>db.
     bindE (ensureUniqueTrainNumber (ct_trainNumber dto) db) (\<lambda>_.
     bindE (train_create \<lparr>trn_id = i, trn_trainNumber = ct_trainNumber dto, trn_trainName = ct_trainName dto,
         trn_category = ct_category dto, trn_isActive = ct_isActive dto, trn_createdAt = now, trn_updatedAt = now\<rparr> db) (\<lambda>(train, db1).
     bindE (publish env now ''TRAIN'' (trn_id train) ''TrainCreatedV1'' ''admin.train-created.v1''
         (Train_toCreatedEvent (av_uuid env) train) db1) (\<lambda>(_, db2). Inr (train, db2))))))"

definition service_getTrainById :: "ident \<Rightarrow> adb \<Rightarrow> exn + (Train \<times> OperatingDay list)" where
  "service_getTrainById trainId db =
     (case getTrainById trainId db of None \<Rightarrow> Inl (ApiError 404 ''TRAIN_NOT_FOUND'') | Some t \<Rightarrow> Inr t)"

definition train_filters :: "ListTrainsQueryDto \<Rightarrow> TrainFilters" where
  "train_filters q =
     (if given (lt_trainNumber q) \<or> lt_category q \<noteq> None \<or> lt_isActive q \<noteq> None
      then \<lparr>tf_trainNumber = lt_trainNumber q, tf_category = lt_category q, tf_isActive = lt_isActive q\<rparr>
      else \<lparr>tf_trainNumber = None, tf_category = None, tf_isActive = Some True\<rparr>)"

definition listTrains :: "ListTrainsQueryDto \<Rightarrow> adb \<Rightarrow> Train list \<times> page_metadata" where
  "listTrains q db =
     (let f = train_filters q
      in (repo_listTrains f ((lt_page q - 1) * lt_limit q) (lt_limit q) db,
          metadata (countTrains f db) (lt_page q) (lt_limit q)))"

definition updateTrain :: "admin_env \<Rightarrow> time \<Rightarrow> ident \<Rightarrow> UpdateTrainRequestDto \<Rightarrow> (adb, Train) proc" where
  "updateTrain env now trainId dto = on_conflict ''TRAIN_ALREADY_EXISTS'' (transaction (\<lambda>db.
     case getTrainById trainId db of
       None \<Rightarrow> Inl (ApiError 404 ''TRAIN_NOT_FOUND'')
     | Some (train, _) \<Rightarrow>
         bindE (if truthy (ut_trainNumber dto) \<and> ut_trainNumber dto \<noteq> Some (trn_trainNumber train)
                then ensureUniqueTrainNumber (set_field (ut_trainNumber dto) []) db else Inr ()) (\<lambda>_.
         bindE (train_update trainId (apply_train now dto) db) (\<lambda>(updated, db1).
         bindE (publish env now ''TRAIN'' (trn_id updated) ''TrainUpdatedV1'' ''admin.train-updated.v1''
             (Train_toUpdatedEvent (av_uuid env) updated) db1) (\<lambda>(_, db2). Inr (updated, db2))))))"

definition no_train_update :: UpdateTrainRequestDto where
  "no_train_update = \<lparr>ut_trainNumber = None, ut_trainName = None, ut_category = None, ut_isActive = None\<rparr>"

definition deactivateTrain :: "admin_env \<Rightarrow> time \<Rightarrow> ident \<Rightarrow> (adb, Train) proc" where
  "deactivateTrain env now trainId = transaction (\<lambda>db.
     case getTrainById trainId db of
       None \<Rightarrow> Inl (ApiError 404 ''TRAIN_NOT_FOUND'')
     | Some (train, _) \<Rightarrow>
         if \<not> trn_isActive train then Inr (train, db)
         else
           bindE (train_update trainId (apply_train now (no_train_update\<lparr>ut_isActive := Some False\<rparr>)) db) (\<lambda>(t, db1).
           bindE (publish env now ''TRAIN'' (trn_id t) ''TrainDeactivatedV1'' ''admin.train-deactivated.v1''
               (Train_toDeactivatedEvent (av_uuid env) t) db1) (\<lambda>(_, db2). Inr (t, db2))))"

definition getUTCDay :: "time \<Rightarrow> int" where
  "getUTCDay t = (t div 86400000 + 4) mod 7"

definition updateTrainOperatingDays :: "time \<Rightarrow> ident \<Rightarrow> int list \<Rightarrow> (adb, int list) proc" where
  "updateTrainOperatingDays now trainId newDays = transaction (\<lambda>db.
     case getTrainById trainId db of
       None \<Rightarrow> Inl (ApiError 404 ''TRAIN_NOT_FOUND'')
     | Some (_, operatingDays) \<Rightarrow>
         (let removedDays = filter (\<lambda>d. d \<notin> set newDays) (map opd_dayOfWeek operatingDays)
          in if removedDays \<noteq> [] \<and> list_ex (\<lambda>d. getUTCDay d \<in> set removedDays) (getFutureActiveSchedules now trainId db)
             then Inl (ApiError 409 ''TRAIN_OPERATING_DAYS_REFERENCED'')
             else bindE (updateOperatingDays trainId newDays db) (\<lambda>(_, db1). Inr (newDays, db1))))"

section \<open>Coaches\<close>

record CreateCoachRequestDto =
  cc_coachNumber :: string
  cc_coachType :: CoachType
  cc_totalSeats :: int

fun COACH_CAPACITY :: "CoachType \<Rightarrow> int \<times> int" where
  "COACH_CAPACITY GEN = (90, 120)"
| "COACH_CAPACITY SL = (72, 80)"
| "COACH_CAPACITY AC_3E = (72, 80)"
| "COACH_CAPACITY AC_3A = (64, 72)"
| "COACH_CAPACITY AC_2A = (46, 54)"
| "COACH_CAPACITY AC_1A = (18, 24)"
| "COACH_CAPACITY CC = (73, 78)"
| "COACH_CAPACITY EC = (52, 56)"

definition capacity_ok :: "CoachType \<Rightarrow> int \<Rightarrow> bool" where
  "capacity_ok t n \<longleftrightarrow> fst (COACH_CAPACITY t) \<le> n \<and> n \<le> snd (COACH_CAPACITY t)"

definition ensureUniqueCoachNumber :: "ident \<Rightarrow> string \<Rightarrow> adb \<Rightarrow> exn + unit" where
  "ensureUniqueCoachNumber trainId coachNumber db =
     (if getCoachByNumber trainId coachNumber db \<noteq> None then Inl (ApiError 409 ''COACH_ALREADY_EXISTS'') else Inr ())"

definition addCoach :: "admin_env \<Rightarrow> time \<Rightarrow> ident \<Rightarrow> ident \<Rightarrow> CreateCoachRequestDto \<Rightarrow> (adb, Coach) proc" where
  "addCoach env now i trainId dto = on_conflict ''COACH_ALREADY_EXISTS'' (transaction (\<lambda>db.
     case getTrainById trainId db of
       None \<Rightarrow> Inl (ApiError 404 ''TRAIN_NOT_FOUND'')
     | Some _ \<Rightarrow>
         bindE (ensureUniqueCoachNumber trainId (cc_coachNumber dto) db) (\<lambda>_.
         bindE (coach_create \<lparr>coa_id = i, coa_trainId = trainId, coa_coachNumber = cc_coachNumber dto,
             coa_coachType = cc_coachType dto, coa_totalSeats = cc_totalSeats dto, coa_isActive = True,
             coa_createdAt = now, coa_updatedAt = now\<rparr> db) (\<lambda>(coach, db1).
         bindE (publish env now ''COACH'' (coa_id coach) ''CoachCreatedV1'' ''admin.coach-created.v1''
             (Coach_toCreatedEvent (av_uuid env) coach) db1) (\<lambda>(_, db2). Inr (coach, db2))))))"

definition service_getCoachById :: "ident \<Rightarrow> adb \<Rightarrow> exn + Coach" where
  "service_getCoachById coachId db =
     (case getCoachById coachId db of None \<Rightarrow> Inl (ApiError 404 ''COACH_NOT_FOUND'') | Some c \<Rightarrow> Inr c)"

definition listCoaches :: "ident \<Rightarrow> adb \<Rightarrow> exn + Coach list" where
  "listCoaches trainId db =
     (case getTrainById trainId db of
        None \<Rightarrow> Inl (ApiError 404 ''TRAIN_NOT_FOUND'') | Some _ \<Rightarrow> Inr (listCoachesByTrainId trainId db))"

definition updateCoach :: "time \<Rightarrow> ident \<Rightarrow> UpdateCoachRequestDto \<Rightarrow> (adb, Coach) proc" where
  "updateCoach now coachId dto = on_conflict ''COACH_ALREADY_EXISTS'' (transaction (\<lambda>db.
     case getCoachById coachId db of
       None \<Rightarrow> Inl (ApiError 404 ''COACH_NOT_FOUND'')
     | Some coach \<Rightarrow>
         if (uc_coachType dto \<noteq> None \<or> uc_totalSeats dto \<noteq> None) \<and> countSeatsByCoachId coachId db > 0
         then Inl (ApiError 409 ''SEATS_ALREADY_GENERATED'')
         else if (uc_coachType dto \<noteq> None \<or> uc_totalSeats dto \<noteq> None) \<and>
             \<not> capacity_ok (set_field (uc_coachType dto) (coa_coachType coach)) (set_field (uc_totalSeats dto) (coa_totalSeats coach))
         then Inl (ApiError 400 ''INVALID_INPUT'')
         else
           bindE (if truthy (uc_coachNumber dto) \<and> uc_coachNumber dto \<noteq> Some (coa_coachNumber coach)
                  then ensureUniqueCoachNumber (coa_trainId coach) (set_field (uc_coachNumber dto) []) db else Inr ()) (\<lambda>_.
           coach_update coachId (apply_coach now dto) db)))"

definition deleteCoach :: "time \<Rightarrow> ident \<Rightarrow> (adb, Coach) proc" where
  "deleteCoach now coachId = transaction (\<lambda>db.
     case getCoachById coachId db of
       None \<Rightarrow> Inl (ApiError 404 ''COACH_NOT_FOUND'')
     | Some _ \<Rightarrow>
         if countSeatsByCoachId coachId db > 0 then Inl (ApiError 409 ''SEATS_ALREADY_GENERATED'')
         else coach_delete now coachId db)"

section \<open>Seats\<close>

definition determineSeatType :: "int \<Rightarrow> CoachType \<Rightarrow> SeatType" where
  "determineSeatType seatNumber coachType =
     (if coachType = SL \<or> coachType = AC_3A \<or> coachType = AC_3E then
        (let stop = seatNumber mod 8
         in if stop = 1 \<or> stop = 4 then LOWER
            else if stop = 2 \<or> stop = 5 then MIDDLE
            else if stop = 3 \<or> stop = 6 then UPPER
            else if stop = 7 then SIDE_LOWER
            else SIDE_UPPER)
      else if coachType = AC_2A then
        (let stop = seatNumber mod 6
         in if stop = 1 \<or> stop = 3 then LOWER
            else if stop = 2 \<or> stop = 4 then UPPER
            else if stop = 5 then SIDE_LOWER
            else SIDE_UPPER)
      else if coachType = AC_1A then
        (let stop = seatNumber mod 2 in if stop = 1 then LOWER else UPPER)
      else LOWER)"

text \<open>The seats of a coach, numbered from 1; \<open>ids\<close> are what the database makes for them.\<close>

definition seatsToCreate :: "(int \<Rightarrow> ident) \<Rightarrow> Coach \<Rightarrow> Seat list" where
  "seatsToCreate ids coach =
     map (\<lambda>i. \<lparr>sea_id = ids i, sea_coachId = coa_id coach, sea_seatNumber = i,
                sea_seatType = determineSeatType i (coa_coachType coach)\<rparr>) [1..coa_totalSeats coach]"

definition bulkCreateSeats :: "admin_env \<Rightarrow> time \<Rightarrow> (int \<Rightarrow> ident) \<Rightarrow> ident \<Rightarrow> (adb, int) proc" where
  "bulkCreateSeats env now ids coachId = transaction (\<lambda>db.
     case getCoachById coachId db of
       None \<Rightarrow> Inl (ApiError 404 ''COACH_NOT_FOUND'')
     | Some coach \<Rightarrow>
         if countSeatsByCoachId coachId db > 0 then Inl (ApiError 409 ''SEATS_ALREADY_GENERATED'')
         else
           bindE (seat_bulkCreate (seatsToCreate ids coach) db) (\<lambda>(_, db1).
           bindE (publish env now ''SEAT_TEMPLATE'' (coa_id coach) ''SeatTemplateCreatedV1'' ''admin.seat-template-created.v1''
               (Seat_toCreatedEvent (av_uuid env) now coach) db1) (\<lambda>(_, db2). Inr (coa_totalSeats coach, db2))))"

definition listSeats :: "ident \<Rightarrow> adb \<Rightarrow> exn + Seat list" where
  "listSeats coachId db =
     (case getCoachById coachId db of
        None \<Rightarrow> Inl (ApiError 404 ''COACH_NOT_FOUND'') | Some _ \<Rightarrow> Inr (listSeatsByCoachId coachId db))"

definition service_getSeatById :: "ident \<Rightarrow> ident \<Rightarrow> adb \<Rightarrow> exn + Seat" where
  "service_getSeatById coachId seatId db =
     (case getCoachById coachId db of
        None \<Rightarrow> Inl (ApiError 404 ''COACH_NOT_FOUND'')
      | Some _ \<Rightarrow>
          (case repo_getSeatById seatId db of
             None \<Rightarrow> Inl (ApiError 404 ''SEAT_NOT_FOUND'')
           | Some seat \<Rightarrow> if sea_coachId seat \<noteq> coachId then Inl (ApiError 404 ''SEAT_NOT_FOUND'') else Inr seat))"

definition resetSeats :: "ident \<Rightarrow> (adb, nat) proc" where
  "resetSeats coachId = transaction (\<lambda>db.
     case getCoachById coachId db of
       None \<Rightarrow> Inl (ApiError 404 ''COACH_NOT_FOUND'')
     | Some _ \<Rightarrow>
         (let count = countSeatsByCoachId coachId db
          in if count = 0 then Inr (0, db) else Inr (count, deleteSeatsByCoachId coachId db)))"

end
