(* ===== verification/AdminSchedules.thy ===== *)
theory AdminSchedules
  imports AdminCatalog
begin

text \<open>
  \<open>RouteService\<close> and \<open>ScheduleService\<close> of the admin service: the stops of a train's route, and
  the journeys scheduled on it, whose events the inventory and search services project.
\<close>

section \<open>Routes\<close>

record AddStationToRouteRequestDto =
  as_stationId :: ident
  as_stopNumber :: int
  as_arrivalMinutes :: "int option"
  as_departureMinutes :: "int option"
  as_distanceFromStart :: int
  as_platformNumber :: "string option"

definition not_found :: "string \<Rightarrow> exn" where "not_found code = ApiError 404 code"
definition conflict :: "string \<Rightarrow> exn" where "conflict code = ApiError 409 code"

definition ensureRouteCanBeDeleted :: "time \<Rightarrow> ident \<Rightarrow> adb \<Rightarrow> exn + unit" where
  "ensureRouteCanBeDeleted now routeId db =
     (case getRouteById routeId True db of
        None \<Rightarrow> Inl (not_found ''ROUTE_NOT_FOUND'')
      | Some (route, _) \<Rightarrow>
          if length (filter (\<lambda>s. sch_trainId s = rte_trainId route \<and> sch_status s = Sch_ACTIVE \<and> now \<le> sch_departureDate s)
               (ad_schedules db)) > 0
          then Inl (conflict ''ROUTE_REFERENCED_BY_SCHEDULES'') else Inr ())"

definition createRoute :: "admin_env \<Rightarrow> time \<Rightarrow> ident \<Rightarrow> ident \<Rightarrow> (adb, Route) proc" where
  "createRoute env now i trainId = transaction (\<lambda>db.
     case getTrainById trainId db of
       None \<Rightarrow> Inl (not_found ''TRAIN_NOT_FOUND'')
     | Some _ \<Rightarrow>
         if getRouteByTrainId trainId True db \<noteq> None then Inl (conflict ''ROUTE_ALREADY_EXISTS'')
         else
           bindE (route_create \<lparr>rte_id = i, rte_trainId = trainId, rte_isActive = True, rte_createdAt = now, rte_updatedAt = now\<rparr> db)
             (\<lambda>(route, db1).
           bindE (publish env now ''ROUTE'' (rte_id route) ''RouteCreatedV1'' ''admin.route-created.v1''
               (Route_toCreatedEvent (av_uuid env) route) db1) (\<lambda>(_, db2). Inr (route, db2))))"

definition getRoute :: "ident \<Rightarrow> adb \<Rightarrow> exn + route_details" where
  "getRoute routeId db =
     (case getRouteById routeId True db of None \<Rightarrow> Inl (not_found ''ROUTE_NOT_FOUND'') | Some r \<Rightarrow> Inr r)"

definition listRoutes :: "int \<Rightarrow> int \<Rightarrow> adb \<Rightarrow> route_details list \<times> page_metadata" where
  "listRoutes page limit db =
     (repo_listRoutes ((page - 1) * limit) limit True db, metadata (countRoutes True db) page limit)"

definition addStationToRoute :: "admin_env \<Rightarrow> time \<Rightarrow> ident \<Rightarrow> ident \<Rightarrow> AddStationToRouteRequestDto \<Rightarrow> (adb, stop_details) proc" where
  "addStationToRoute env now i routeId dto = transaction (\<lambda>db.
     case getRouteById routeId True db of
       None \<Rightarrow> Inl (not_found ''ROUTE_NOT_FOUND'')
     | Some (route, _) \<Rightarrow>
         (case getStationById (as_stationId dto) db of
            None \<Rightarrow> Inl (not_found ''STATION_NOT_FOUND'')
          | Some _ \<Rightarrow>
              if getRouteStationByStationId routeId (as_stationId dto) db \<noteq> None then Inl (conflict ''STATION_ALREADY_ON_ROUTE'')
              else if getRouteStationByStopNumber routeId (as_stopNumber dto) db \<noteq> None then Inl (conflict ''STOP_NUMBER_CONFLICT'')
              else
                bindE (addRouteStation \<lparr>rst_id = i, rst_routeId = routeId, rst_stationId = as_stationId dto,
                    rst_stopNumber = as_stopNumber dto, rst_arrivalMinutes = as_arrivalMinutes dto,
                    rst_departureMinutes = as_departureMinutes dto, rst_distanceFromStart = as_distanceFromStart dto,
                    rst_platformNumber = as_platformNumber dto, rst_createdAt = now, rst_updatedAt = now\<rparr> db) (\<lambda>(stop, db1).
                bindE (publish env now ''ROUTE_STATION'' (rst_id (fst stop)) ''RouteStationAddedV1'' ''admin.route-station-added.v1''
                    (toStationAddedEvent (av_uuid env) (rte_trainId route) stop) db1) (\<lambda>(_, db2). Inr (stop, db2)))))"

definition updateRouteStation :: "admin_env \<Rightarrow> time \<Rightarrow> ident \<Rightarrow> UpdateRouteStationRequestDto \<Rightarrow> (adb, stop_details) proc" where
  "updateRouteStation env now routeStationId dto = transaction (\<lambda>db.
     case getRouteStationById routeStationId db of
       None \<Rightarrow> Inl (not_found ''ROUTE_STATION_NOT_FOUND'')
     | Some (stop, _) \<Rightarrow>
         (case getRouteById (rst_routeId stop) True db of
            None \<Rightarrow> Inl (not_found ''ROUTE_NOT_FOUND'')
          | Some (route, _) \<Rightarrow>
              bindE (repo_updateRouteStation routeStationId (apply_stop now dto) db) (\<lambda>(updated, db1).
              bindE (publish env now ''ROUTE_STATION'' (rst_id (fst updated)) ''RouteStationUpdatedV1'' ''admin.route-station-updated.v1''
                  (toStationUpdatedEvent (av_uuid env) (rte_trainId route) updated) db1) (\<lambda>(_, db2). Inr (updated, db2)))))"

definition removeRouteStation :: "admin_env \<Rightarrow> time \<Rightarrow> ident \<Rightarrow> (adb, unit) proc" where
  "removeRouteStation env now routeStationId = transaction (\<lambda>db.
     case getRouteStationById routeStationId db of
       None \<Rightarrow> Inl (not_found ''ROUTE_STATION_NOT_FOUND'')
     | Some stop \<Rightarrow>
         (case getRouteById (rst_routeId (fst stop)) True db of
            None \<Rightarrow> Inl (not_found ''ROUTE_NOT_FOUND'')
          | Some (route, stops) \<Rightarrow>
              if length stops \<le> 2 then Inl (conflict ''ROUTE_MIN_STATIONS_REQUIRED'')
              else
                bindE (deleteRouteStation routeStationId db) (\<lambda>(_, db1).
                publish env now ''ROUTE_STATION'' (rst_id (fst stop)) ''RouteStationRemovedV1'' ''admin.route-station-removed.v1''
                  (toStationRemovedEvent (av_uuid env) now (rte_trainId route) stop) db1)))"

definition deleteRoute :: "admin_env \<Rightarrow> time \<Rightarrow> ident \<Rightarrow> (adb, Route) proc" where
  "deleteRoute env now routeId = transaction (\<lambda>db.
     case getRouteById routeId True db of
       None \<Rightarrow> Inl (not_found ''ROUTE_NOT_FOUND'')
     | Some (route, _) \<Rightarrow>
         bindE (ensureRouteCanBeDeleted now routeId db) (\<lambda>_.
         bindE (updateRoute routeId (\<lambda>r. r\<lparr>rte_isActive := False, rte_updatedAt := now\<rparr>) db) (\<lambda>(updated, db1).
         bindE (publish env now ''ROUTE'' (rte_id route) ''RouteDeletedV1'' ''admin.route-deleted.v1''
             (Route_toDeletedEvent (av_uuid env) now updated) db1) (\<lambda>(_, db2). Inr (updated, db2)))))"

definition updateRouteStatus :: "admin_env \<Rightarrow> time \<Rightarrow> ident \<Rightarrow> bool \<Rightarrow> (adb, Route) proc" where
  "updateRouteStatus env now routeId isActive = transaction (\<lambda>db.
     case getRouteById routeId True db of
       None \<Rightarrow> Inl (not_found ''ROUTE_NOT_FOUND'')
     | Some (route, _) \<Rightarrow>
         bindE (if \<not> isActive then ensureRouteCanBeDeleted now routeId db else Inr ()) (\<lambda>_.
         bindE (updateRoute routeId (\<lambda>r. r\<lparr>rte_isActive := isActive, rte_updatedAt := now\<rparr>) db) (\<lambda>(updated, db1).
         bindE (publish env now ''ROUTE'' (rte_id route) ''RouteUpdatedV1'' ''admin.route-updated.v1''
             (Route_toUpdatedEvent (av_uuid env) updated) db1) (\<lambda>(_, db2). Inr (updated, db2)))))"

section \<open>Schedules\<close>

record CreateScheduleRequestDto =
  cd_trainId :: ident
  cd_departureDate :: time

record ListSchedulesQueryDto =
  lh_page :: int
  lh_limit :: int
  lh_trainId :: "ident option"
  lh_status :: "ScheduleStatus option"

definition MS_PER_DAY :: int where "MS_PER_DAY = 86400000"

text \<open>\<open>setUTCHours(0, 0, 0, 0)\<close>.\<close>

definition utc_midnight :: "time \<Rightarrow> time" where
  "utc_midnight t = t - t mod MS_PER_DAY"

text \<open>The checks of \<open>createSchedule\<close>, in their order.\<close>

definition schedule_refusal :: "CreateScheduleRequestDto \<Rightarrow> adb \<Rightarrow> exn option" where
  "schedule_refusal dto db =
     (let normalizedDate = utc_midnight (cd_departureDate dto)
      in case getTrainById (cd_trainId dto) db of
           None \<Rightarrow> Some (not_found ''TRAIN_NOT_FOUND'')
         | Some (_, operatingDays) \<Rightarrow>
             if operatingDays = [] then Some (conflict ''TRAIN_NO_OPERATING_DAYS_CONFIGURED'')
             else if \<not> list_ex (\<lambda>d. opd_dayOfWeek d = getUTCDay normalizedDate) operatingDays
             then Some (conflict ''TRAIN_NOT_OPERATING_ON_DAY'')
             else (case getRouteByTrainId (cd_trainId dto) False db of
                     None \<Rightarrow> Some (conflict ''ROUTE_NOT_FOUND'')
                   | Some (_, stops) \<Rightarrow>
                       if length stops < 2 then Some (conflict ''ROUTE_MIN_STATIONS_REQUIRED'')
                       else if getByTrainAndDate (cd_trainId dto) normalizedDate db \<noteq> None then Some (conflict ''INVALID_INPUT'')
                       else None))"

definition createSchedule :: "admin_env \<Rightarrow> time \<Rightarrow> ident \<Rightarrow> CreateScheduleRequestDto \<Rightarrow> (adb, Schedule) proc" where
  "createSchedule env now i dto = transaction (\<lambda>db.
     case schedule_refusal dto db of
       Some e \<Rightarrow> Inl e
     | None \<Rightarrow>
         bindE (schedule_create \<lparr>sch_id = i, sch_trainId = cd_trainId dto,
             sch_departureDate = utc_midnight (cd_departureDate dto), sch_status = Sch_ACTIVE, sch_version = 1,
             sch_createdAt = now, sch_updatedAt = now\<rparr> db) (\<lambda>(schedule, db1).
         case schedule_getById (sch_id schedule) db1 of
           None \<Rightarrow> Inl (not_found ''INVALID_INPUT'')
         | Some details \<Rightarrow>
             bindE (publish env now ''SCHEDULE'' (sch_id schedule) ''ScheduleCreatedV1'' ''admin.schedule-created.v1''
                 (Schedule_toCreatedEvent (av_uuid env) details) db1) (\<lambda>(_, db2). Inr (schedule, db2))))"

definition getScheduleById :: "ident \<Rightarrow> adb \<Rightarrow> exn + schedule_details" where
  "getScheduleById i db =
     (case schedule_getById i db of None \<Rightarrow> Inl (not_found ''INVALID_INPUT'') | Some s \<Rightarrow> Inr s)"

definition updateScheduleStatus :: "admin_env \<Rightarrow> time \<Rightarrow> ident \<Rightarrow> ScheduleStatus \<Rightarrow> (adb, Schedule) proc" where
  "updateScheduleStatus env now i status = transaction (\<lambda>db.
     case schedule_getById i db of
       None \<Rightarrow> Inl (not_found ''INVALID_INPUT'')
     | Some (schedule, _) \<Rightarrow>
         if sch_status schedule = status then Inr (schedule, db)
         else
           bindE (schedule_update i (\<lambda>s. s\<lparr>sch_status := status, sch_version := sch_version s + 1, sch_updatedAt := now\<rparr>) db)
             (\<lambda>(updated, db1).
           case schedule_getById i db1 of
             None \<Rightarrow> Inl (not_found ''INVALID_INPUT'')
           | Some details \<Rightarrow>
               bindE (publish env now ''SCHEDULE'' i ''ScheduleStatusChangedV1'' ''admin.schedule-status-changed.v1''
                   (toStatusChangedEvent (av_uuid env) details) db1) (\<lambda>(_, db2). Inr (updated, db2))))"

definition listSchedules :: "ListSchedulesQueryDto \<Rightarrow> adb \<Rightarrow> (Schedule \<times> Train option) list \<times> page_metadata" where
  "listSchedules q db =
     (let f = \<lparr>hf_trainId = lh_trainId q, hf_status = lh_status q\<rparr>
      in (repo_listSchedules f ((lh_page q - 1) * lh_limit q) (lh_limit q) db,
          metadata (countSchedules f db) (lh_page q) (lh_limit q)))"

end
