(* ===== verification/AdminEffects.thy ===== *)
theory AdminEffects
  imports AdminSchedules
begin

text \<open>
  What the commands of the admin service do to its database, and the invariant they keep.

  \<open>catalog_write\<close> is the abstract machine of the catalogue: one row added, changed or removed,
  with the guard under which the services do it. \<open>admin_effect\<close> adds the two schedule commands and
  the events that go with each write. \<open>admin_step\<close> is one call of a service; it refines
  \<open>admin_effect\<close>, and the invariant \<open>admin_ok\<close> is proved over the latter.
\<close>

section \<open>The invariant\<close>

definition stop_ok :: "RouteStation \<Rightarrow> bool" where
  "stop_ok r \<longleftrightarrow> 0 < rst_stopNumber r \<and> nonneg_opt (rst_arrivalMinutes r) \<and> nonneg_opt (rst_departureMinutes r) \<and>
     0 \<le> rst_distanceFromStart r"

definition layout :: "Coach \<Rightarrow> (int \<times> SeatType) list" where
  "layout c = map (\<lambda>i. (i, determineSeatType i (coa_coachType c))) [1..coa_totalSeats c]"

definition coach_seats_ok :: "adb \<Rightarrow> Coach \<Rightarrow> bool" where
  "coach_seats_ok db c \<longleftrightarrow> seats_of (coa_id c) db = [] \<or>
     (coa_isActive c \<and> map (\<lambda>s. (sea_seatNumber s, sea_seatType s)) (seats_of (coa_id c) db) = layout c)"

definition keys_ok :: "adb \<Rightarrow> bool" where
  "keys_ok db \<longleftrightarrow> stations_unique (ad_stations db) \<and> trains_unique (ad_trains db) \<and> routes_unique (ad_routes db) \<and>
     route_stations_unique (ad_routeStations db) \<and> coaches_unique (ad_coaches db) \<and> seats_unique (ad_seats db) \<and>
     days_unique (ad_operatingDays db) \<and> schedules_unique (ad_schedules db)"

definition refs_ok :: "adb \<Rightarrow> bool" where
  "refs_ok db \<longleftrightarrow> rte_trainId ` set (ad_routes db) \<subseteq> trn_id ` set (ad_trains db) \<and>
     rst_routeId ` set (ad_routeStations db) \<subseteq> rte_id ` set (ad_routes db) \<and>
     rst_stationId ` set (ad_routeStations db) \<subseteq> stn_id ` set (ad_stations db) \<and>
     coa_trainId ` set (ad_coaches db) \<subseteq> trn_id ` set (ad_trains db) \<and>
     sea_coachId ` set (ad_seats db) \<subseteq> coa_id ` set (ad_coaches db) \<and>
     sch_trainId ` set (ad_schedules db) \<subseteq> rte_trainId ` set (ad_routes db)"

definition rows_ok :: "adb \<Rightarrow> bool" where
  "rows_ok db \<longleftrightarrow> (\<forall>t \<in> set (ad_trains db). contract_category (trn_category t)) \<and>
     (\<forall>r \<in> set (ad_routeStations db). stop_ok r) \<and> (\<forall>c \<in> set (ad_coaches db). 0 < coa_totalSeats c) \<and>
     (\<forall>s \<in> set (ad_schedules db). contract_status (sch_status s) \<and> 1 \<le> sch_version s)"

text \<open>The route of a scheduled train has at least two stops.\<close>

definition stop_count :: "ident \<Rightarrow> adb \<Rightarrow> nat" where
  "stop_count routeId db = length (filter (\<lambda>r. rst_routeId r = routeId) (ad_routeStations db))"

definition journeys_ok :: "adb \<Rightarrow> bool" where
  "journeys_ok db \<longleftrightarrow> (\<forall>s \<in> set (ad_schedules db). \<forall>r \<in> set (ad_routes db).
     rte_trainId r = sch_trainId s \<longrightarrow> 2 \<le> stop_count (rte_id r) db)"

definition admin_ok :: "adb \<Rightarrow> bool" where
  "admin_ok db \<longleftrightarrow> keys_ok db \<and> refs_ok db \<and> rows_ok db \<and> journeys_ok db \<and> (\<forall>c \<in> set (ad_coaches db). coach_seats_ok db c)"

section \<open>Writes and the events that go with them\<close>

fun schedule_event :: "admin_event \<Rightarrow> bool" where
  "schedule_event (ScheduleCreated _) = True"
| "schedule_event (ScheduleStatusChanged _) = True"
| "schedule_event _ = False"

definition payloads :: "adb \<Rightarrow> admin_event list" where
  "payloads db = map ob_payload (ad_outbox db)"

definition emits :: "adb \<Rightarrow> admin_event list \<Rightarrow> adb \<Rightarrow> bool" where
  "emits db evs db' \<longleftrightarrow> (\<exists>rows. db' = db\<lparr>ad_outbox := rows\<rparr> \<and> map ob_payload rows = payloads db @ evs)"

definition update_id :: "('r \<Rightarrow> ident) \<Rightarrow> ident \<Rightarrow> ('r \<Rightarrow> 'r) \<Rightarrow> 'r list \<Rightarrow> 'r list" where
  "update_id key i f rows = map (\<lambda>x. if key x = i then f x else x) rows"

inductive catalog_write :: "adb \<Rightarrow> adb \<Rightarrow> bool" where
  station_added: "stations_unique (ad_stations db @ [s]) \<Longrightarrow>
    catalog_write db (db\<lparr>ad_stations := ad_stations db @ [s]\<rparr>)"
| station_changed: "\<lbrakk> \<And>s. stn_id (f s) = stn_id s; stations_unique (update_id stn_id i f (ad_stations db)) \<rbrakk> \<Longrightarrow>
    catalog_write db (db\<lparr>ad_stations := update_id stn_id i f (ad_stations db)\<rparr>)"
| train_added: "\<lbrakk> contract_category (trn_category t); trains_unique (ad_trains db @ [t]) \<rbrakk> \<Longrightarrow>
    catalog_write db (db\<lparr>ad_trains := ad_trains db @ [t]\<rparr>)"
| train_changed: "\<lbrakk> \<And>t. trn_id (f t) = trn_id t;
      \<And>t. t \<in> set (ad_trains db) \<Longrightarrow> trn_id t = i \<Longrightarrow> contract_category (trn_category t) \<Longrightarrow> contract_category (trn_category (f t));
      trains_unique (update_id trn_id i f (ad_trains db)) \<rbrakk> \<Longrightarrow>
    catalog_write db (db\<lparr>ad_trains := update_id trn_id i f (ad_trains db)\<rparr>)"
| days_set: "days_unique rows \<Longrightarrow> catalog_write db (db\<lparr>ad_operatingDays := rows\<rparr>)"
| route_added: "\<lbrakk> rte_trainId r \<in> trn_id ` set (ad_trains db); routes_unique (ad_routes db @ [r]) \<rbrakk> \<Longrightarrow>
    catalog_write db (db\<lparr>ad_routes := ad_routes db @ [r]\<rparr>)"
| route_changed: "\<lbrakk> \<And>r. rte_id (f r) = rte_id r; \<And>r. rte_trainId (f r) = rte_trainId r;
      routes_unique (update_id rte_id i f (ad_routes db)) \<rbrakk> \<Longrightarrow>
    catalog_write db (db\<lparr>ad_routes := update_id rte_id i f (ad_routes db)\<rparr>)"
| stop_added: "\<lbrakk> rst_routeId r \<in> rte_id ` set (ad_routes db); rst_stationId r \<in> stn_id ` set (ad_stations db); stop_ok r;
      route_stations_unique (ad_routeStations db @ [r]) \<rbrakk> \<Longrightarrow>
    catalog_write db (db\<lparr>ad_routeStations := ad_routeStations db @ [r]\<rparr>)"
| stop_changed: "\<lbrakk> \<And>r. rst_routeId (f r) = rst_routeId r; \<And>r. rst_stationId (f r) = rst_stationId r;
      \<And>r. r \<in> set (ad_routeStations db) \<Longrightarrow> rst_id r = i \<Longrightarrow> stop_ok (f r);
      route_stations_unique (update_id rst_id i f (ad_routeStations db)) \<rbrakk> \<Longrightarrow>
    catalog_write db (db\<lparr>ad_routeStations := update_id rst_id i f (ad_routeStations db)\<rparr>)"
| stop_removed: "\<lbrakk> d \<in> set (ad_routeStations db); rst_id d = i; 2 < stop_count (rst_routeId d) db \<rbrakk> \<Longrightarrow>
    catalog_write db (db\<lparr>ad_routeStations := filter (\<lambda>r. rst_id r \<noteq> i) (ad_routeStations db)\<rparr>)"
| coach_added: "\<lbrakk> coa_trainId c \<in> trn_id ` set (ad_trains db); 0 < coa_totalSeats c; coaches_unique (ad_coaches db @ [c]);
      coa_id c \<notin> coa_id ` set (ad_coaches db) \<rbrakk> \<Longrightarrow>
    catalog_write db (db\<lparr>ad_coaches := ad_coaches db @ [c]\<rparr>)"
| coach_changed: "\<lbrakk> \<And>c. coa_id (f c) = coa_id c; \<And>c. coa_trainId (f c) = coa_trainId c;
      \<And>c. c \<in> set (ad_coaches db) \<Longrightarrow> coa_id c = i \<Longrightarrow> 0 < coa_totalSeats c \<Longrightarrow> 0 < coa_totalSeats (f c);
      seats_of i db = [] \<or> (\<forall>c. coa_isActive (f c) = coa_isActive c \<and> coa_coachType (f c) = coa_coachType c \<and>
        coa_totalSeats (f c) = coa_totalSeats c);
      coaches_unique (update_id coa_id i f (ad_coaches db)) \<rbrakk> \<Longrightarrow>
    catalog_write db (db\<lparr>ad_coaches := update_id coa_id i f (ad_coaches db)\<rparr>)"
| seats_added: "\<lbrakk> c \<in> set (ad_coaches db); coa_isActive c; seats_of (coa_id c) db = [];
      seats_unique (ad_seats db @ seatsToCreate ids c) \<rbrakk> \<Longrightarrow>
    catalog_write db (db\<lparr>ad_seats := ad_seats db @ seatsToCreate ids c\<rparr>)"
| seats_removed: "catalog_write db (db\<lparr>ad_seats := filter (\<lambda>s. sea_coachId s \<noteq> i) (ad_seats db)\<rparr>)"

inductive admin_effect :: "adb \<Rightarrow> adb \<Rightarrow> bool" where
  no_change: "admin_effect db db"
| catalog: "\<lbrakk> catalog_write db db1; list_all (\<lambda>e. \<not> schedule_event e) evs; emits db1 evs db' \<rbrakk> \<Longrightarrow> admin_effect db db'"
| schedule_added: "\<lbrakk> t \<in> set (ad_trains db); trn_id t = sch_trainId s;
      tsn_route (train_with_layout db t) = Some rd; 2 \<le> stop_count (rte_id (fst rd)) db; sch_status s = Sch_ACTIVE; sch_version s = 1;
      schedules_unique (ad_schedules db @ [s]);
      schedule_created_schema (created_payload u s (train_with_layout db t) rd);
      emits (db\<lparr>ad_schedules := ad_schedules db @ [s]\<rparr>)
        [ScheduleCreated (created_payload u s (train_with_layout db t) rd)] db' \<rbrakk> \<Longrightarrow> admin_effect db db'"
| schedule_changed: "\<lbrakk> find_row (\<lambda>s. sch_id s = i) (ad_schedules db) = Some s;
      f = (\<lambda>s. s\<lparr>sch_status := status, sch_version := sch_version s + 1, sch_updatedAt := now\<rparr>);
      contract_status status; schedules_unique (update_id sch_id i f (ad_schedules db));
      hs_scheduleId e = i; hs_status e = status; hs_version e = sch_version s + 1;
      emits (db\<lparr>ad_schedules := update_id sch_id i f (ad_schedules db)\<rparr>) [ScheduleStatusChanged e] db' \<rbrakk> \<Longrightarrow>
    admin_effect db db'"

inductive admin_step :: "adb \<Rightarrow> adb \<Rightarrow> bool" where
  "createStation env now i cs db = (rs, db') \<Longrightarrow> admin_step db db'"
| "updateStation env now i us db = (rs, db') \<Longrightarrow> admin_step db db'"
| "deactivateStation env now i db = (rs, db') \<Longrightarrow> admin_step db db'"
| "createTrain env now i ct db = (rt, db') \<Longrightarrow> admin_step db db'"
| "updateTrain env now i ut db = (rt, db') \<Longrightarrow> admin_step db db'"
| "deactivateTrain env now i db = (rt, db') \<Longrightarrow> admin_step db db'"
| "updateTrainOperatingDays now i days db = (rd, db') \<Longrightarrow> admin_step db db'"
| "addCoach env now i trainId cc db = (rc, db') \<Longrightarrow> admin_step db db'"
| "updateCoach now i uc db = (rc, db') \<Longrightarrow> admin_step db db'"
| "deleteCoach now i db = (rc, db') \<Longrightarrow> admin_step db db'"
| "bulkCreateSeats env now ids i db = (rn, db') \<Longrightarrow> admin_step db db'"
| "resetSeats i db = (rz, db') \<Longrightarrow> admin_step db db'"
| "createRoute env now i trainId db = (rr, db') \<Longrightarrow> admin_step db db'"
| "addStationToRoute env now i routeId sd db = (rp, db') \<Longrightarrow> admin_step db db'"
| "updateRouteStation env now i up db = (rp, db') \<Longrightarrow> admin_step db db'"
| "removeRouteStation env now i db = (ru, db') \<Longrightarrow> admin_step db db'"
| "deleteRoute env now i db = (rr, db') \<Longrightarrow> admin_step db db'"
| "updateRouteStatus env now i active db = (rr, db') \<Longrightarrow> admin_step db db'"
| "createSchedule env now i cd db = (rh, db') \<Longrightarrow> admin_step db db'"
| "updateScheduleStatus env now i status db = (rh, db') \<Longrightarrow> admin_step db db'"

definition empty_admin :: "Admin list \<Rightarrow> adb" where
  "empty_admin admins = \<lparr>ad_stations = [], ad_trains = [], ad_routes = [], ad_routeStations = [], ad_coaches = [],
     ad_seats = [], ad_operatingDays = [], ad_schedules = [], ad_admins = admins, ad_outbox = []\<rparr>"

section \<open>Preservation\<close>

lemma seats_of_simps [simp]:
  "seats_of i (db\<lparr>ad_stations := a\<rparr>) = seats_of i db" "seats_of i (db\<lparr>ad_trains := b\<rparr>) = seats_of i db"
  "seats_of i (db\<lparr>ad_routes := c\<rparr>) = seats_of i db" "seats_of i (db\<lparr>ad_routeStations := d\<rparr>) = seats_of i db"
  "seats_of i (db\<lparr>ad_coaches := e\<rparr>) = seats_of i db" "seats_of i (db\<lparr>ad_operatingDays := f\<rparr>) = seats_of i db"
  "seats_of i (db\<lparr>ad_schedules := g\<rparr>) = seats_of i db" "seats_of i (db\<lparr>ad_outbox := h\<rparr>) = seats_of i db"
  "seats_of i (db\<lparr>ad_seats := k\<rparr>) = filter (\<lambda>s. sea_coachId s = i) k"
  by (simp_all add: seats_of_def)

lemma stop_count_simps [simp]:
  "stop_count i (db\<lparr>ad_stations := a\<rparr>) = stop_count i db" "stop_count i (db\<lparr>ad_trains := b\<rparr>) = stop_count i db"
  "stop_count i (db\<lparr>ad_routes := c\<rparr>) = stop_count i db" "stop_count i (db\<lparr>ad_coaches := e\<rparr>) = stop_count i db"
  "stop_count i (db\<lparr>ad_operatingDays := f\<rparr>) = stop_count i db" "stop_count i (db\<lparr>ad_schedules := g\<rparr>) = stop_count i db"
  "stop_count i (db\<lparr>ad_outbox := h\<rparr>) = stop_count i db" "stop_count i (db\<lparr>ad_seats := k\<rparr>) = stop_count i db"
  by (simp_all add: stop_count_def)

lemma update_id_map: "(\<And>x. g (f x) = g x) \<Longrightarrow> map g (update_id key i f rows) = map g rows"
  by (induction rows) (auto simp: update_id_def)

lemma update_id_image:
  assumes "\<And>x. g (f x) = g x"
  shows "g ` set (update_id key i f rows) = g ` set rows"
  using arg_cong [OF update_id_map [of g f key i rows, OF assms], of set] by simp

lemma update_id_cases:
  "x \<in> set (update_id key i f rows) \<Longrightarrow> (\<And>y. y \<in> set rows \<Longrightarrow> key y = i \<Longrightarrow> x = f y \<Longrightarrow> P) \<Longrightarrow>
    (x \<in> set rows \<Longrightarrow> key x \<noteq> i \<Longrightarrow> P) \<Longrightarrow> P"
  by (auto simp: update_id_def split: if_splits)

lemma admin_ok_outbox [simp]: "admin_ok (db\<lparr>ad_outbox := rows\<rparr>) = admin_ok db"
  by (simp add: admin_ok_def keys_ok_def refs_ok_def rows_ok_def journeys_ok_def coach_seats_ok_def)

lemma emits_ok: "emits db evs db' \<Longrightarrow> admin_ok db' = admin_ok db"
  unfolding emits_def by (elim exE conjE) simp

lemma distinct_map_filtered: "distinct (map g xs) \<Longrightarrow> distinct (map g (filter p xs))"
  by (induction xs) auto

lemma keys_ok_write: "catalog_write db db' \<Longrightarrow> keys_ok db \<Longrightarrow> keys_ok db'"
  by (induction rule: catalog_write.induct)
    (simp_all add: keys_ok_def route_stations_unique_def seats_unique_def distinct_map_filtered)

lemma rows_ok_write: "catalog_write db db' \<Longrightarrow> rows_ok db \<Longrightarrow> rows_ok db'"
  by (induction rule: catalog_write.induct) (auto simp: rows_ok_def elim!: update_id_cases)

lemma seatsToCreate_coach: "s \<in> set (seatsToCreate ids c) \<Longrightarrow> sea_coachId s = coa_id c"
  by (auto simp: seatsToCreate_def)

lemma seatsToCreate_layout: "map (\<lambda>s. (sea_seatNumber s, sea_seatType s)) (seatsToCreate ids c) = layout c"
  by (simp add: seatsToCreate_def layout_def)

lemma refs_ok_write: "catalog_write db db' \<Longrightarrow> refs_ok db \<Longrightarrow> refs_ok db'"
proof (induction rule: catalog_write.induct)
  case (seats_added c db ids)
  then show ?case by (auto simp: refs_ok_def dest!: seatsToCreate_coach)
qed (simp_all add: refs_ok_def update_id_image image_subset_iff)

lemma coach_unique_id:
  "coaches_unique rows \<Longrightarrow> c \<in> set rows \<Longrightarrow> d \<in> set rows \<Longrightarrow> coa_id c = coa_id d \<Longrightarrow> c = d"
  by (auto simp: coaches_unique_def distinct_map inj_on_def)

lemma coach_seats_write:
  assumes "catalog_write db db'" and "admin_ok db" and "c \<in> set (ad_coaches db')"
  shows "coach_seats_ok db' c"
proof -
  from assms(2) have old: "\<And>c. c \<in> set (ad_coaches db) \<Longrightarrow> coach_seats_ok db c"
    and keys: "coaches_unique (ad_coaches db)"
    and refs: "sea_coachId ` set (ad_seats db) \<subseteq> coa_id ` set (ad_coaches db)"
    by (simp_all add: admin_ok_def keys_ok_def refs_ok_def)
  from assms(1,3) old show ?thesis
  proof cases
    case (coach_added d)
    have "sea_coachId s \<noteq> coa_id d" if "s \<in> set (ad_seats db)" for s
      using subsetD [OF refs imageI [OF that]] coach_added(5) by auto
    then have "seats_of (coa_id d) db = []" by (simp add: seats_of_def filter_empty_conv)
    with coach_added assms(3) old show ?thesis by (auto simp: coach_seats_ok_def)
  next
    case (coach_changed f i)
    from assms(3) have "c \<in> set (update_id coa_id i f (ad_coaches db))" by (simp add: coach_changed(1))
    then show ?thesis
    proof (cases rule: update_id_cases [consumes 1, case_names changed kept])
      case (changed d)
      with old [of d] coach_changed show ?thesis by (auto simp: coach_seats_ok_def layout_def)
    next
      case kept
      with old [of c] coach_changed(1) show ?thesis by (simp add: coach_seats_ok_def)
    qed
  next
    case (seats_added d ids)
    show ?thesis
    proof (cases "coa_id c = coa_id d")
      case True
      then have "c = d" using coach_unique_id [OF keys] seats_added assms(3) by simp
      with seats_added show ?thesis
        by (simp add: coach_seats_ok_def seatsToCreate_coach cong: filter_cong)
          (simp add: seats_of_def seatsToCreate_layout)
    next
      case False
      have "filter (\<lambda>s. sea_coachId s = coa_id c) (seatsToCreate ids d) = []"
        using False by (auto simp: filter_empty_conv dest: seatsToCreate_coach)
      with seats_added assms(3) old [of c] show ?thesis by (simp add: coach_seats_ok_def) (simp add: seats_of_def)
    qed
  next
    case (seats_removed i)
    have "filter (\<lambda>x. sea_coachId x \<noteq> i \<and> sea_coachId x = coa_id c) (ad_seats db) =
        (if coa_id c = i then [] else seats_of (coa_id c) db)"
      by (auto simp: seats_of_def filter_empty_conv intro: filter_cong)
    with seats_removed old [of c] assms(3) show ?thesis by (simp add: coach_seats_ok_def)
  qed (simp_all add: coach_seats_ok_def)
qed

lemma length_filter_update:
  "(\<And>x. g (f x) = g x) \<Longrightarrow> length (filter (\<lambda>x. g x = v) (update_id key i f rows)) = length (filter (\<lambda>x. g x = v) rows)"
  by (induction rows) (auto simp: update_id_def)

lemma filter_remove_id:
  assumes "distinct (map key rows)" and "d \<in> set rows"
  shows "length (filter (\<lambda>x. key x \<noteq> key d \<and> p x) rows) + (if p d then 1 else 0) = length (filter p rows)"
  using assms
proof (induction rows)
  case (Cons x rows)
  show ?case
  proof (cases "x = d")
    case True
    with Cons.prems have "filter (\<lambda>x. key x \<noteq> key d \<and> p x) rows = filter p rows"
      by (auto simp: image_iff intro!: filter_cong)
    with True show ?thesis by simp
  next
    case False
    with Cons show ?thesis by (auto simp: image_iff)
  qed
qed simp

lemma journeys_ok_write:
  assumes "catalog_write db db'" and "admin_ok db"
  shows "journeys_ok db'"
proof -
  from assms(2) have j: "journeys_ok db" and keys: "route_stations_unique (ad_routeStations db)"
    and refs: "rst_routeId ` set (ad_routeStations db) \<subseteq> rte_id ` set (ad_routes db)"
      "sch_trainId ` set (ad_schedules db) \<subseteq> rte_trainId ` set (ad_routes db)"
    by (simp_all add: admin_ok_def keys_ok_def refs_ok_def)
  from assms(1) j show ?thesis
  proof cases
    case (route_added r)
    have "sch_trainId s \<noteq> rte_trainId r" if "s \<in> set (ad_schedules db)" for s
      using subsetD [OF refs(2) imageI [OF that]] route_added(3) by (auto simp: routes_unique_def)
    with route_added j show ?thesis by (auto simp: journeys_ok_def)
  next
    case (route_changed f i)
    with j show ?thesis by (auto simp: journeys_ok_def elim!: update_id_cases)
  next
    case (stop_added r)
    then have "stop_count k db \<le> stop_count k db'" for k by (simp add: stop_count_def)
    with stop_added(1) j show ?thesis by (auto simp: journeys_ok_def intro: le_trans)
  next
    case (stop_changed f i)
    with j show ?thesis by (simp add: journeys_ok_def stop_count_def length_filter_update)
  next
    case (stop_removed d i)
    have "2 \<le> stop_count k db' \<or> stop_count k db' = stop_count k db" for k
      using filter_remove_id [of rst_id "ad_routeStations db" d "\<lambda>r. rst_routeId r = k"] keys stop_removed
      by (auto simp: stop_count_def route_stations_unique_def split: if_splits)
    with stop_removed(1) j show ?thesis by (fastforce simp: journeys_ok_def)
  qed (simp_all add: journeys_ok_def)
qed

lemma admin_ok_write: "catalog_write db db' \<Longrightarrow> admin_ok db \<Longrightarrow> admin_ok db'"
  using keys_ok_write refs_ok_write rows_ok_write journeys_ok_write coach_seats_write by (simp add: admin_ok_def)

lemma admin_ok_effect: "admin_effect db db' \<Longrightarrow> admin_ok db \<Longrightarrow> admin_ok db'"
proof (induction rule: admin_effect.induct)
  case (catalog db db1 evs db')
  then show ?case using admin_ok_write emits_ok by blast
next
  case (schedule_added t db s rd u db')
  from schedule_added(1-3) schedule_added.prems have "sch_trainId s \<in> rte_trainId ` set (ad_routes db)"
    by (force simp: train_with_layout_def dest!: find_row_Some)
  moreover have "2 \<le> stop_count (rte_id r) db" if "r \<in> set (ad_routes db)" "rte_trainId r = sch_trainId s" for r
  proof -
    have "distinct (map rte_trainId (ad_routes db))"
      using schedule_added.prems by (simp add: admin_ok_def keys_ok_def routes_unique_def)
    from find_row_unique [OF this that(1)] that(2) schedule_added(2,3) have "fst rd = r"
      by (auto simp: train_with_layout_def with_stops_def)
    with schedule_added(4) show ?thesis by simp
  qed
  ultimately have "admin_ok (db\<lparr>ad_schedules := ad_schedules db @ [s]\<rparr>)"
    using schedule_added.prems schedule_added(5-7)
    by (simp add: admin_ok_def keys_ok_def refs_ok_def rows_ok_def journeys_ok_def contract_status_def coach_seats_ok_def)
  then show ?case using emits_ok [OF schedule_added(9)] by simp
next
  case (schedule_changed i db s f status now e db')
  have "sch_trainId ` set (update_id sch_id i f (ad_schedules db)) = sch_trainId ` set (ad_schedules db)"
    by (rule update_id_image) (simp add: schedule_changed(2))
  with schedule_changed.prems schedule_changed(2-4) have "admin_ok (db\<lparr>ad_schedules := update_id sch_id i f (ad_schedules db)\<rparr>)"
    by (auto simp: admin_ok_def keys_ok_def refs_ok_def rows_ok_def journeys_ok_def coach_seats_ok_def elim!: update_id_cases)
  then show ?case using emits_ok [OF schedule_changed(8)] by simp
qed

section \<open>The commands refine the effects\<close>

lemma publish_Inr_iff:
  "publish env now a i t topic payload db = Inr (u, db') \<longleftrightarrow> (\<exists>p. payload = Inr p \<and>
     db' = db\<lparr>ad_outbox := outbox_insert (av_carrier env) now (Some [SCHEMA_VERSION \<mapsto> ''1'', EVENT_TYPE \<mapsto> t])
       \<lparr>od_aggregateType = a, od_aggregateId = i, od_eventType = t, od_topic = topic, od_payload = p\<rparr> (ad_outbox db)\<rparr>)"
  by (auto simp: publish_def bindE_eq_Inr_iff)

lemma outbox_insert_emits:
  "emits db [od_payload d] (db\<lparr>ad_outbox := outbox_insert carrier now hs d (ad_outbox db)\<rparr>)"
  unfolding emits_def by (rule exI, rule conjI [OF refl]) (simp add: payloads_def outbox_insert_def Let_def)

lemma publish_Inr:
  assumes "publish env now a i t topic payload db = Inr (u, db')"
  obtains p where "payload = Inr p" "emits db [p] db'"
proof -
  obtain p where "payload = Inr p" and db': "db' = db\<lparr>ad_outbox := outbox_insert (av_carrier env) now
      (Some [SCHEMA_VERSION \<mapsto> ''1'', EVENT_TYPE \<mapsto> t])
      \<lparr>od_aggregateType = a, od_aggregateId = i, od_eventType = t, od_topic = topic, od_payload = p\<rparr> (ad_outbox db)\<rparr>"
    using assms unfolding publish_Inr_iff by blast
  from db' have "emits db [p] db'"
    using outbox_insert_emits [where db = db and d = "\<lparr>od_aggregateType = a, od_aggregateId = i, od_eventType = t,
      od_topic = topic, od_payload = p\<rparr>"] by simp
  with \<open>payload = Inr p\<close> show thesis by (rule that)
qed

lemma on_conflict_Inr: "on_conflict c m db = (Inr x, db') \<longleftrightarrow> m db = (Inr x, db')"
  by (auto simp: on_conflict_def split: prod.splits sum.splits exn.splits)

lemma on_conflict_transaction_Inl: "on_conflict c (transaction m) db = (Inl e, db') \<Longrightarrow> db' = db"
  by (auto simp: on_conflict_def transaction_def split: sum.splits exn.splits if_splits)

lemma transaction_Inl_state: "transaction m db = (Inl e, db') \<Longrightarrow> db' = db"
  by (simp add: transaction_eq_Inl_iff)

lemmas command_defs = createStation_def updateStation_def deactivateStation_def createTrain_def updateTrain_def
  deactivateTrain_def updateTrainOperatingDays_def addCoach_def updateCoach_def deleteCoach_def bulkCreateSeats_def
  resetSeats_def createRoute_def addStationToRoute_def updateRouteStation_def removeRouteStation_def deleteRoute_def
  updateRouteStatus_def createSchedule_def updateScheduleStatus_def

lemmas commit_simps = on_conflict_Inr transaction_eq_Inr_iff bindE_eq_Inr_iff

lemma emits_Nil: "emits db [] db"
  by (auto simp: emits_def payloads_def intro: exI [of _ "ad_outbox db"])

lemma catalog_one:
  "catalog_write db db1 \<Longrightarrow> emits db1 [e] db' \<Longrightarrow> \<not> schedule_event e \<Longrightarrow> admin_effect db db'"
  by (rule catalog [where evs = "[e]"]) auto

lemma catalog_silent: "catalog_write db db' \<Longrightarrow> admin_effect db db'"
  by (rule catalog [where evs = "[]", OF _ _ emits_Nil]) auto

lemma update_by_id: "update_by u key i f rows = Inr (r', rows') \<longleftrightarrow>
    (\<exists>r. find_row (\<lambda>x. key x = i) rows = Some r \<and> r' = f r \<and> rows' = update_id key i f rows \<and> u rows')"
  by (simp add: update_by_Inr_iff update_id_def)

lemma apply_station_id [simp]: "stn_id (apply_station now u s) = stn_id s"
  by (simp add: apply_station_def)

lemma apply_train_id [simp]: "trn_id (apply_train now u t) = trn_id t"
  by (simp add: apply_train_def)

lemma apply_coach_id [simp]: "coa_id (apply_coach now u c) = coa_id c" "coa_trainId (apply_coach now u c) = coa_trainId c"
  "coa_isActive (apply_coach now u c) = coa_isActive c"
  by (simp_all add: apply_coach_def)

lemma apply_stop_id [simp]: "rst_id (apply_stop now u r) = rst_id r" "rst_routeId (apply_stop now u r) = rst_routeId r"
  "rst_stationId (apply_stop now u r) = rst_stationId r"
  by (simp_all add: apply_stop_def)

lemma found_active [dest]:
  "getStationById i db = Some s \<Longrightarrow> stn_isActive s \<and> stn_id s = i"
  "getTrainById i db = Some (t, ds) \<Longrightarrow> trn_isActive t \<and> trn_id t = i \<and> t \<in> set (ad_trains db)"
  "getCoachById i db = Some c \<Longrightarrow> coa_isActive c \<and> coa_id c = i \<and> c \<in> set (ad_coaches db)"
  by (auto simp: getStationById_def getTrainById_def getCoachById_def dest: find_row_Some)

text \<open>The events of the catalogue, and what their schemas checked.\<close>

lemma mapped [dest]:
  "Station_toCreatedEvent u s = Inr p \<Longrightarrow> \<not> schedule_event p"
  "Station_toUpdatedEvent u s = Inr p \<Longrightarrow> \<not> schedule_event p"
  "Station_toDeactivatedEvent u s = Inr p \<Longrightarrow> \<not> schedule_event p"
  "Train_toCreatedEvent u t = Inr p \<Longrightarrow> \<not> schedule_event p \<and> contract_category (trn_category t)"
  "Train_toUpdatedEvent u t = Inr p \<Longrightarrow> \<not> schedule_event p \<and> contract_category (trn_category t)"
  "Train_toDeactivatedEvent u t = Inr p \<Longrightarrow> \<not> schedule_event p"
  "Coach_toCreatedEvent u c = Inr p \<Longrightarrow> \<not> schedule_event p \<and> 0 < coa_totalSeats c"
  "Seat_toCreatedEvent u now c = Inr p \<Longrightarrow> \<not> schedule_event p"
  "Route_toCreatedEvent u r = Inr p \<Longrightarrow> \<not> schedule_event p"
  "Route_toUpdatedEvent u r = Inr p \<Longrightarrow> \<not> schedule_event p"
  "Route_toDeletedEvent u now r = Inr p \<Longrightarrow> \<not> schedule_event p"
  "toStationAddedEvent u i d = Inr p \<Longrightarrow> \<not> schedule_event p \<and> stop_ok (fst d)"
  "toStationUpdatedEvent u i d = Inr p \<Longrightarrow> \<not> schedule_event p \<and> stop_ok (fst d)"
  "toStationRemovedEvent u now i d = Inr p \<Longrightarrow> \<not> schedule_event p"
  by (auto simp: Station_toCreatedEvent_def Station_toUpdatedEvent_def Station_toDeactivatedEvent_def
      Train_toCreatedEvent_def Train_toUpdatedEvent_def Train_toDeactivatedEvent_def Coach_toCreatedEvent_def
      Seat_toCreatedEvent_def Route_toCreatedEvent_def Route_toUpdatedEvent_def Route_toDeletedEvent_def
      toStationAddedEvent_def toStationUpdatedEvent_def toStationRemovedEvent_def zparse_def stop_ok_def
      stop_added_schema_def stop_updated_schema_def split: if_splits prod.splits)

lemma createStation_effect: "createStation env now i cs db = (Inr s, db') \<Longrightarrow> admin_effect db db'"
  unfolding createStation_def commit_simps station_create_def
  by (clarsimp simp: constrained_Inr_iff commit_simps) (erule publish_Inr, auto intro!: catalog_one station_added)

lemma updateStation_effect: "updateStation env now i us db = (Inr s, db') \<Longrightarrow> admin_effect db db'"
  unfolding updateStation_def commit_simps station_update_def
  by (clarsimp simp: update_by_id commit_simps split: option.splits)
    (erule publish_Inr, auto intro!: catalog_one station_changed)

lemma deactivateStation_effect: "deactivateStation env now i db = (Inr s, db') \<Longrightarrow> admin_effect db db'"
  unfolding deactivateStation_def commit_simps station_update_def
  by (clarsimp simp: update_by_id commit_simps dest!: found_active split: option.splits if_splits)
    (erule publish_Inr, auto intro!: catalog_one station_changed)

lemma createTrain_effect: "createTrain env now i ct db = (Inr t, db') \<Longrightarrow> admin_effect db db'"
  unfolding createTrain_def commit_simps train_create_def
  by (clarsimp simp: constrained_Inr_iff commit_simps)
    (erule publish_Inr, drule mapped(4), auto intro!: catalog_one train_added)

lemma unique_find:
  "distinct (map key rows) \<Longrightarrow> find_row (\<lambda>x. key x = i) rows = Some r \<Longrightarrow> x \<in> set rows \<Longrightarrow> key x = i \<Longrightarrow> x = r"
  using find_row_unique [of key rows x] by simp

lemma updateTrain_effect:
  assumes "updateTrain env now i ut db = (Inr t, db')" and "admin_ok db"
  shows "admin_effect db db'"
proof -
  have keys: "distinct (map trn_id (ad_trains db))"
    using assms(2) by (simp add: admin_ok_def keys_ok_def trains_unique_def)
  from assms(1) obtain r where r: "find_row (\<lambda>x. trn_id x = i) (ad_trains db) = Some r"
      "trains_unique (update_id trn_id i (apply_train now ut) (ad_trains db))"
    and p: "publish env now ''TRAIN'' (trn_id r) ''TrainUpdatedV1'' ''admin.train-updated.v1''
      (Train_toUpdatedEvent (av_uuid env) (apply_train now ut r))
      (db\<lparr>ad_trains := update_id trn_id i (apply_train now ut) (ad_trains db)\<rparr>) = Inr ((), db')"
    unfolding updateTrain_def commit_simps train_update_def
    by (clarsimp simp: update_by_id commit_simps split: option.splits)
  from publish_Inr [OF p] obtain e where e: "Train_toUpdatedEvent (av_uuid env) (apply_train now ut r) = Inr e"
    "emits (db\<lparr>ad_trains := update_id trn_id i (apply_train now ut) (ad_trains db)\<rparr>) [e] db'" .
  from mapped(5) [OF e(1)] have "contract_category (trn_category (apply_train now ut r))" "\<not> schedule_event e" by auto
  with r e(2) unique_find [OF keys r(1)] show ?thesis
    by (intro catalog_one [OF train_changed]) auto
qed

lemma deactivateTrain_effect: "deactivateTrain env now i db = (Inr t, db') \<Longrightarrow> admin_effect db db'"
  unfolding deactivateTrain_def commit_simps train_update_def
  by (clarsimp simp: update_by_id commit_simps dest!: found_active split: option.splits if_splits)
    (erule publish_Inr, auto simp: apply_train_def no_train_update_def set_field_def intro!: catalog_one train_changed)

lemma updateTrainOperatingDays_effect: "updateTrainOperatingDays now i days db = (Inr d, db') \<Longrightarrow> admin_effect db db'"
  unfolding updateTrainOperatingDays_def commit_simps updateOperatingDays_def
  by (clarsimp simp: constrained_Inr_iff Let_def commit_simps split: option.splits if_splits)
    (auto intro!: catalog_silent days_set)

lemma addCoach_effect: "addCoach env now i trainId cc db = (Inr c, db') \<Longrightarrow> admin_effect db db'"
  unfolding addCoach_def commit_simps coach_create_def
  by (clarsimp simp: constrained_Inr_iff commit_simps list_ex_iff split: option.splits if_splits)
    (erule publish_Inr, drule mapped(7), auto simp: coaches_unique_def intro!: catalog_one coach_added)

lemma seats_of_count: "countSeatsByCoachId i db = 0 \<longleftrightarrow> seats_of i db = []"
  by (simp add: countSeatsByCoachId_def)

lemma capacity_pos: "capacity_ok t n \<Longrightarrow> 0 < n"
  by (cases t) (simp_all add: capacity_ok_def)

lemma updateCoach_effect:
  assumes "updateCoach now i uc db = (Inr c, db')" and "admin_ok db"
  shows "admin_effect db db'"
proof -
  have keys: "distinct (map coa_id (ad_coaches db))"
    using assms(2) by (simp add: admin_ok_def keys_ok_def coaches_unique_def)
  let ?changing = "uc_coachType uc \<noteq> None \<or> uc_totalSeats uc \<noteq> None"
  from assms(1) obtain r where r: "getCoachById i db = Some r"
    and free: "?changing \<longrightarrow> seats_of i db = [] \<and>
        capacity_ok (set_field (uc_coachType uc) (coa_coachType r)) (set_field (uc_totalSeats uc) (coa_totalSeats r))"
    and u: "coaches_unique (update_id coa_id i (apply_coach now uc) (ad_coaches db))"
    and db': "db' = db\<lparr>ad_coaches := update_id coa_id i (apply_coach now uc) (ad_coaches db)\<rparr>"
    unfolding updateCoach_def commit_simps coach_update_def
    by (auto simp: update_by_id commit_simps seats_of_count [symmetric] split: option.splits if_splits)
  have same: "set_field (uc_coachType uc) t = t \<and> set_field (uc_totalSeats uc) n = n" if "\<not> ?changing" for t n
    using that by (simp add: set_field_def)
  from found_active(3) [OF r] have rin: "r \<in> set (ad_coaches db)" "coa_id r = i" by auto
  have "0 < coa_totalSeats (apply_coach now uc x)" if x: "x \<in> set (ad_coaches db)" "coa_id x = i" "0 < coa_totalSeats x" for x
  proof -
    from find_row_unique [OF keys x(1)] find_row_unique [OF keys rin(1)] x(2) rin(2) have "x = r" by simp
    with free same x(3) show ?thesis
      by (cases ?changing) (auto simp: apply_coach_def dest: capacity_pos)
  qed
  moreover have "seats_of i db = [] \<or> (\<forall>c. coa_isActive (apply_coach now uc c) = coa_isActive c \<and>
      coa_coachType (apply_coach now uc c) = coa_coachType c \<and> coa_totalSeats (apply_coach now uc c) = coa_totalSeats c)"
  proof (cases ?changing)
    case True
    with free show ?thesis by blast
  next
    case False
    from same [OF this] show ?thesis by (simp add: apply_coach_def)
  qed
  ultimately show ?thesis unfolding db' by (intro catalog_silent coach_changed u) auto
qed

lemma deleteCoach_effect: "deleteCoach now i db = (Inr c, db') \<Longrightarrow> admin_effect db db'"
  unfolding deleteCoach_def commit_simps coach_delete_def coach_update_def
  by (clarsimp simp: update_by_id commit_simps seats_of_count split: option.splits if_splits)
    (auto intro!: catalog_silent coach_changed)

lemma bulkCreateSeats_effect: "bulkCreateSeats env now ids i db = (Inr n, db') \<Longrightarrow> admin_effect db db'"
  unfolding bulkCreateSeats_def commit_simps seat_bulkCreate_def
  by (clarsimp simp: constrained_Inr_iff commit_simps seats_of_count dest!: found_active split: option.splits if_splits)
    (erule publish_Inr, auto intro!: catalog_one seats_added)

lemma resetSeats_effect:
  assumes "resetSeats i db = (Inr n, db')"
  shows "admin_effect db db'"
proof -
  have "db' = db \<or> db' = deleteSeatsByCoachId i db"
    using assms by (auto simp: resetSeats_def commit_simps Let_def split: option.splits if_splits)
  then show ?thesis by (auto simp: deleteSeatsByCoachId_def intro: no_change catalog_silent seats_removed)
qed

lemma createRoute_effect: "createRoute env now i trainId db = (Inr r, db') \<Longrightarrow> admin_effect db db'"
  unfolding createRoute_def commit_simps route_create_def
  by (clarsimp simp: constrained_Inr_iff commit_simps list_ex_iff split: option.splits if_splits)
    (erule publish_Inr, auto intro!: catalog_one route_added)

lemma deleteRoute_effect: "deleteRoute env now i db = (Inr r, db') \<Longrightarrow> admin_effect db db'"
  unfolding deleteRoute_def commit_simps updateRoute_def
  by (clarsimp simp: update_by_id commit_simps split: option.splits)
    (erule publish_Inr, auto intro!: catalog_one route_changed)

lemma updateRouteStatus_effect: "updateRouteStatus env now i active db = (Inr r, db') \<Longrightarrow> admin_effect db db'"
  unfolding updateRouteStatus_def commit_simps updateRoute_def
  by (clarsimp simp: update_by_id commit_simps split: option.splits)
    (erule publish_Inr, auto intro!: catalog_one route_changed)

lemma with_station_Some: "with_station db r = Some d \<Longrightarrow> fst d = r \<and> rst_stationId r \<in> stn_id ` set (ad_stations db)"
  by (force simp: with_station_def dest!: find_row_Some)

lemma addStationToRoute_effect: "addStationToRoute env now i routeId sd db = (Inr d, db') \<Longrightarrow> admin_effect db db'"
  unfolding addStationToRoute_def commit_simps addRouteStation_def
  by (clarsimp simp: constrained_Inr_iff commit_simps list_ex_iff split: option.splits if_splits)
    (erule publish_Inr, drule mapped(12), drule with_station_Some, auto intro!: catalog_one stop_added)

lemma updateRouteStation_effect:
  assumes "updateRouteStation env now i up db = (Inr d, db')" and "admin_ok db"
  shows "admin_effect db db'"
proof -
  have keys: "distinct (map rst_id (ad_routeStations db))"
    using assms(2) by (simp add: admin_ok_def keys_ok_def route_stations_unique_def)
  let ?db1 = "db\<lparr>ad_routeStations := update_id rst_id i (apply_stop now up) (ad_routeStations db)\<rparr>"
  from assms(1) obtain r trainId where r: "find_row (\<lambda>x. rst_id x = i) (ad_routeStations db) = Some r"
      "route_stations_unique (update_id rst_id i (apply_stop now up) (ad_routeStations db))"
    and w: "with_station db (apply_stop now up r) = Some d"
    and p: "publish env now ''ROUTE_STATION'' (rst_id (fst d)) ''RouteStationUpdatedV1'' ''admin.route-station-updated.v1''
      (toStationUpdatedEvent (av_uuid env) trainId d) ?db1 = Inr ((), db')"
    unfolding updateRouteStation_def commit_simps repo_updateRouteStation_def
    by (clarsimp simp: update_by_id commit_simps split: option.splits)
  from publish_Inr [OF p] obtain e where e: "toStationUpdatedEvent (av_uuid env) trainId d = Inr e" "emits ?db1 [e] db'" .
  from mapped(13) [OF e(1)] with_station_Some [OF w] have "stop_ok (apply_stop now up r)" "\<not> schedule_event e" by auto
  with r e(2) unique_find [OF keys r(1)] show ?thesis by (intro catalog_one [OF stop_changed]) auto
qed

lemma stops_of_length: "length (stops_of i db) \<le> stop_count i db"
  unfolding stops_of_def stop_count_def List.map_filter_def
  by (metis length_filter_le length_map length_sort)

lemma removeRouteStation_effect:
  assumes "removeRouteStation env now i db = (Inr u, db')"
  shows "admin_effect db db'"
proof -
  from assms obtain d x route stops where d: "getRouteStationById i db = Some (d, x)"
    and route: "getRouteById (rst_routeId d) True db = Some (route, stops)" and two: "2 < length stops"
    and p: "publish env now ''ROUTE_STATION'' (rst_id d) ''RouteStationRemovedV1'' ''admin.route-station-removed.v1''
        (toStationRemovedEvent (av_uuid env) now (rte_trainId route) (d, x))
        (db\<lparr>ad_routeStations := filter (\<lambda>r. rst_id r \<noteq> i) (ad_routeStations db)\<rparr>) = Inr (u, db')"
    unfolding removeRouteStation_def commit_simps deleteRouteStation_def
    by (clarsimp simp: commit_simps split: option.splits if_splits)
  have dm: "d \<in> set (ad_routeStations db)" "rst_id d = i"
    using d by (auto simp: getRouteStationById_def with_station_def split: option.splits dest: find_row_Some)
  have "stops = stops_of (rst_routeId d) db"
    using route by (auto simp: getRouteById_def with_stops_def dest: find_row_Some)
  with two stops_of_length [of "rst_routeId d" db] have "2 < stop_count (rst_routeId d) db" by simp
  with p dm show ?thesis by (elim publish_Inr) (auto intro!: catalog_one stop_removed)
qed

lemma train_with_layout_schedules [simp]:
  "train_with_layout (db\<lparr>ad_schedules := rows\<rparr>) t = train_with_layout db t"
proof -
  have w: "with_station (db\<lparr>ad_schedules := rows\<rparr>) = with_station db" by (rule ext) (simp add: with_station_def)
  have "with_stops (db\<lparr>ad_schedules := rows\<rparr>) = with_stops db" by (rule ext) (simp add: with_stops_def stops_of_def w)
  then show ?thesis by (simp add: train_with_layout_def days_of_def)
qed

lemma createSchedule_effect:
  assumes "createSchedule env now i cd db = (Inr s, db')" and "admin_ok db"
  shows "admin_effect db db'"
proof -
  let ?s = "\<lparr>sch_id = i, sch_trainId = cd_trainId cd, sch_departureDate = utc_midnight (cd_departureDate cd),
      sch_status = Sch_ACTIVE, sch_version = 1, sch_createdAt = now, sch_updatedAt = now\<rparr>"
  let ?db1 = "db\<lparr>ad_schedules := ad_schedules db @ [?s]\<rparr>"
  from assms(1) obtain d where ref: "schedule_refusal cd db = None" and u: "schedules_unique (ad_schedules db @ [?s])"
    and d: "schedule_getById i ?db1 = Some d"
    and p: "publish env now ''SCHEDULE'' i ''ScheduleCreatedV1'' ''admin.schedule-created.v1''
      (Schedule_toCreatedEvent (av_uuid env) d) ?db1 = Inr ((), db')"
    unfolding createSchedule_def commit_simps schedule_create_def
    by (clarsimp simp: constrained_Inr_iff commit_simps split: option.splits if_splits)
  have "find_row (\<lambda>x. sch_id x = i) (ad_schedules db @ [?s]) = Some ?s"
    using u find_row_unique [of sch_id "ad_schedules db @ [?s]" ?s] by (simp add: schedules_unique_def)
  with d obtain t where t: "find_row (\<lambda>t. trn_id t = cd_trainId cd) (ad_trains db) = Some t"
    and d': "d = (?s, train_with_layout db t)"
    by (auto simp: schedule_getById_def)
  from publish_Inr [OF p] obtain e where e: "Schedule_toCreatedEvent (av_uuid env) d = Inr e" "emits ?db1 [e] db'" .
  from e(1) d' obtain rd where rd: "tsn_route (train_with_layout db t) = Some rd"
    "schedule_created_schema (created_payload (av_uuid env) ?s (train_with_layout db t) rd)"
    "e = ScheduleCreated (created_payload (av_uuid env) ?s (train_with_layout db t) rd)"
    by (auto simp: Schedule_toCreatedEvent_def zparse_def split: option.splits if_splits)
  moreover have "2 \<le> stop_count (rte_id (fst rd)) db"
  proof -
    from ref obtain r where r: "find_row (\<lambda>r. rte_trainId r = cd_trainId cd \<and> rte_isActive r) (ad_routes db) = Some r"
      "2 \<le> length (stops_of (rte_id r) db)"
      by (auto simp: schedule_refusal_def Let_def getRouteByTrainId_def with_stops_def split: option.splits if_splits)
    have keys: "distinct (map rte_trainId (ad_routes db))"
      using assms(2) by (simp add: admin_ok_def keys_ok_def routes_unique_def)
    have "trn_id t = cd_trainId cd" using find_row_Some [OF t] by simp
    with rd(1) have "find_row (\<lambda>r. rte_trainId r = cd_trainId cd) (ad_routes db) = Some (fst rd)"
      by (auto simp: train_with_layout_def with_stops_def)
    moreover have "find_row (\<lambda>r. rte_trainId r = cd_trainId cd) (ad_routes db) = Some r"
      using find_row_Some [OF r(1)] find_row_unique [OF keys, of r] by simp
    ultimately show ?thesis using r(2) stops_of_length [of "rte_id r" db] by simp
  qed
  ultimately show ?thesis using t u e(2) by (intro schedule_added) (auto dest: find_row_Some)
qed

lemma find_row_update_id:
  "(\<And>x. key (f x) = key x) \<Longrightarrow> find_row (\<lambda>x. key x = i) rows = Some r \<Longrightarrow>
    find_row (\<lambda>x. key x = i) (update_id key i f rows) = Some (f r)"
  by (induction rows) (auto simp: update_id_def split: if_splits)

lemma updateScheduleStatus_effect:
  assumes "updateScheduleStatus env now i status db = (Inr s, db')" and "admin_ok db"
  shows "admin_effect db db'"
proof (cases "db' = db")
  case True
  then show ?thesis by (simp add: no_change)
next
  case False
  let ?f = "\<lambda>s. s\<lparr>sch_status := status, sch_version := sch_version s + 1, sch_updatedAt := now\<rparr>"
  let ?db1 = "db\<lparr>ad_schedules := update_id sch_id i ?f (ad_schedules db)\<rparr>"
  from assms(1) False obtain r d where r: "find_row (\<lambda>x. sch_id x = i) (ad_schedules db) = Some r"
    and u: "schedules_unique (update_id sch_id i ?f (ad_schedules db))"
    and d: "schedule_getById i ?db1 = Some d"
    and p: "publish env now ''SCHEDULE'' i ''ScheduleStatusChangedV1'' ''admin.schedule-status-changed.v1''
      (toStatusChangedEvent (av_uuid env) d) ?db1 = Inr ((), db')"
    unfolding updateScheduleStatus_def commit_simps schedule_update_def
    by (clarsimp simp: update_by_id commit_simps split: option.splits if_splits)
  have "find_row (\<lambda>x. sch_id x = i) (update_id sch_id i ?f (ad_schedules db)) = Some (?f r)"
    by (rule find_row_update_id [OF _ r]) simp
  with d have d': "fst d = ?f r"
    by (auto simp: schedule_getById_def split: option.splits)
  from publish_Inr [OF p] obtain e where e: "toStatusChangedEvent (av_uuid env) d = Inr e" "emits ?db1 [e] db'" .
  from find_row_Some [OF r] have "sch_id r = i" by simp
  with e(1) d' obtain x where "e = ScheduleStatusChanged x" "contract_status status" "hs_scheduleId x = i"
    "hs_status x = status" "hs_version x = sch_version r + 1"
    by (auto simp: toStatusChangedEvent_def zparse_def schedule_status_schema_def split: prod.splits option.splits if_splits)
  with r u e(2) show ?thesis by (intro schedule_changed [OF r refl]) auto
qed

text \<open>A command that fails leaves the database as it was: the transaction is rolled back.\<close>

lemma command_error_unchanged:
  "createStation env now i cs db = (Inl e, db') \<Longrightarrow> db' = db"
  "updateStation env now i us db = (Inl e, db') \<Longrightarrow> db' = db"
  "deactivateStation env now i db = (Inl e, db') \<Longrightarrow> db' = db"
  "createTrain env now i ct db = (Inl e, db') \<Longrightarrow> db' = db"
  "updateTrain env now i ut db = (Inl e, db') \<Longrightarrow> db' = db"
  "deactivateTrain env now i db = (Inl e, db') \<Longrightarrow> db' = db"
  "updateTrainOperatingDays now i days db = (Inl e, db') \<Longrightarrow> db' = db"
  "addCoach env now i trainId cc db = (Inl e, db') \<Longrightarrow> db' = db"
  "updateCoach now i uc db = (Inl e, db') \<Longrightarrow> db' = db"
  "deleteCoach now i db = (Inl e, db') \<Longrightarrow> db' = db"
  "bulkCreateSeats env now ids i db = (Inl e, db') \<Longrightarrow> db' = db"
  "resetSeats i db = (Inl e, db') \<Longrightarrow> db' = db"
  "createRoute env now i trainId db = (Inl e, db') \<Longrightarrow> db' = db"
  "addStationToRoute env now i routeId sd db = (Inl e, db') \<Longrightarrow> db' = db"
  "updateRouteStation env now i up db = (Inl e, db') \<Longrightarrow> db' = db"
  "removeRouteStation env now i db = (Inl e, db') \<Longrightarrow> db' = db"
  "deleteRoute env now i db = (Inl e, db') \<Longrightarrow> db' = db"
  "updateRouteStatus env now i active db = (Inl e, db') \<Longrightarrow> db' = db"
  "createSchedule env now i cd db = (Inl e, db') \<Longrightarrow> db' = db"
  "updateScheduleStatus env now i status db = (Inl e, db') \<Longrightarrow> db' = db"
  unfolding command_defs by (erule on_conflict_transaction_Inl transaction_Inl_state)+

lemma effect_of_result:
  "cmd db = (r, db') \<Longrightarrow> (\<And>e. cmd db = (Inl e, db') \<Longrightarrow> db' = db) \<Longrightarrow>
    (\<And>x. cmd db = (Inr x, db') \<Longrightarrow> admin_effect db db') \<Longrightarrow> admin_effect db db'"
  by (cases r) (auto intro: no_change)

lemmas command_effects = createStation_effect updateStation_effect deactivateStation_effect createTrain_effect
  deactivateTrain_effect updateTrainOperatingDays_effect addCoach_effect deleteCoach_effect bulkCreateSeats_effect
  resetSeats_effect createRoute_effect addStationToRoute_effect removeRouteStation_effect deleteRoute_effect
  updateRouteStatus_effect

lemmas guarded_effects = updateTrain_effect updateCoach_effect updateRouteStation_effect createSchedule_effect
  updateScheduleStatus_effect

lemma admin_step_effect: "admin_step db db' \<Longrightarrow> admin_ok db \<Longrightarrow> admin_effect db db'"
  by (induction rule: admin_step.induct)
    (erule effect_of_result, erule command_error_unchanged, (erule command_effects | erule (1) guarded_effects))+

interpretation admin: stepper admin_step admin_ok
  by unfold_locales (rule admin_ok_effect [OF admin_step_effect])

lemma empty_admin_ok: "admin_ok (empty_admin admins)"
  by (simp add: admin_ok_def keys_ok_def refs_ok_def rows_ok_def journeys_ok_def empty_admin_def stations_unique_def trains_unique_def
      routes_unique_def route_stations_unique_def coaches_unique_def seats_unique_def days_unique_def schedules_unique_def)

lemma admin_reachable_ok: "admin_step\<^sup>*\<^sup>* (empty_admin admins) db \<Longrightarrow> admin_ok db"
  by (rule admin.run_inv [OF _ empty_admin_ok])

end
