(* ===== verification/AdminProps.thy ===== *)
theory AdminProps
  imports AdminEffects
begin

text \<open>
  Properties of the admin service: the well-formed database, what a created schedule stands for,
  the guards of routes and operating days and the two places where they do not look, the trains
  and statuses that cannot be published, conflicts, and pagination.
\<close>

section \<open>The database\<close>

text \<open>In every state the admin service can reach, by any commands in any order, the unique
  constraints and foreign keys hold; every train has a category and every schedule a status the
  event contracts know; stops have positive numbers and no negative time or distance; the route
  of every scheduled train has at least two stops; and a coach has either no seats or exactly the
  seats 1 to its capacity, each of the berth type of its layout, and then it is active.\<close>

theorem admin_database_well_formed:
  assumes "admin_step\<^sup>*\<^sup>* (empty_admin admins) db"
  shows "keys_ok db \<and> refs_ok db \<and> rows_ok db \<and> journeys_ok db \<and>
    (\<forall>c \<in> set (ad_coaches db). seats_of (coa_id c) db \<noteq> [] \<longrightarrow>
       coa_isActive c \<and> map (\<lambda>s. (sea_seatNumber s, sea_seatType s)) (seats_of (coa_id c) db) = layout c)"
  using admin_reachable_ok [OF assms] by (auto simp: admin_ok_def coach_seats_ok_def)

section \<open>Created schedules\<close>

lemma createSchedule_refused: "schedule_refusal cd db = Some e \<Longrightarrow> createSchedule env now i cd db = (Inl e, db)"
  by (simp add: createSchedule_def transaction_def)

lemma createSchedule_shape:
  assumes "createSchedule env now i cd db = (Inr s, db')" and "admin_ok db"
  obtains t rd where
    "s = \<lparr>sch_id = i, sch_trainId = cd_trainId cd, sch_departureDate = utc_midnight (cd_departureDate cd),
      sch_status = Sch_ACTIVE, sch_version = 1, sch_createdAt = now, sch_updatedAt = now\<rparr>"
    and "t \<in> set (ad_trains db)" "trn_id t = cd_trainId cd" "trn_isActive t"
    and "list_ex (\<lambda>d. opd_dayOfWeek d = getUTCDay (utc_midnight (cd_departureDate cd))) (days_of (trn_id t) db)"
    and "getRouteByTrainId (cd_trainId cd) False db = Some rd" "2 \<le> length (snd rd)"
    and "getByTrainAndDate (cd_trainId cd) (utc_midnight (cd_departureDate cd)) db = None"
    and "emits (db\<lparr>ad_schedules := ad_schedules db @ [s]\<rparr>)
      [ScheduleCreated (created_payload (av_uuid env) s (train_with_layout db t) rd)] db'"
proof -
  let ?s = "\<lparr>sch_id = i, sch_trainId = cd_trainId cd, sch_departureDate = utc_midnight (cd_departureDate cd),
      sch_status = Sch_ACTIVE, sch_version = 1, sch_createdAt = now, sch_updatedAt = now\<rparr>"
  let ?db1 = "db\<lparr>ad_schedules := ad_schedules db @ [?s]\<rparr>"
  from assms(1) obtain d where ref: "schedule_refusal cd db = None" and u: "schedules_unique (ad_schedules db @ [?s])"
    and s: "s = ?s" and d: "schedule_getById i ?db1 = Some d"
    and p: "publish env now ''SCHEDULE'' i ''ScheduleCreatedV1'' ''admin.schedule-created.v1''
      (Schedule_toCreatedEvent (av_uuid env) d) ?db1 = Inr ((), db')"
    unfolding createSchedule_def commit_simps schedule_create_def
    by (clarsimp simp: constrained_Inr_iff commit_simps split: option.splits if_splits)
  from ref obtain t rd where t: "find_row (\<lambda>t. trn_id t = cd_trainId cd \<and> trn_isActive t) (ad_trains db) = Some t"
    and day: "list_ex (\<lambda>d. opd_dayOfWeek d = getUTCDay (utc_midnight (cd_departureDate cd))) (days_of (trn_id t) db)"
    and rd: "getRouteByTrainId (cd_trainId cd) False db = Some rd" "2 \<le> length (snd rd)"
    and free: "getByTrainAndDate (cd_trainId cd) (utc_midnight (cd_departureDate cd)) db = None"
    by (auto simp: schedule_refusal_def Let_def getTrainById_def split: option.splits if_splits)
  from find_row_Some [OF t] have tm: "t \<in> set (ad_trains db)" "trn_id t = cd_trainId cd" "trn_isActive t" by auto
  from assms(2) have keys: "distinct (map trn_id (ad_trains db))" "distinct (map rte_trainId (ad_routes db))"
    by (simp_all add: admin_ok_def keys_ok_def trains_unique_def routes_unique_def)
  have "find_row (\<lambda>x. sch_id x = i) (ad_schedules db @ [?s]) = Some ?s"
    using u find_row_unique [of sch_id "ad_schedules db @ [?s]" ?s] by (simp add: schedules_unique_def)
  moreover have "find_row (\<lambda>x. trn_id x = cd_trainId cd) (ad_trains db) = Some t"
    using find_row_unique [OF keys(1) tm(1)] tm(2) by simp
  ultimately have d': "d = (?s, train_with_layout db t)"
    using d by (simp add: schedule_getById_def)
  from rd(1) obtain r where r: "find_row (\<lambda>r. rte_trainId r = cd_trainId cd \<and> rte_isActive r) (ad_routes db) = Some r"
    "rd = with_stops db r"
    by (auto simp: getRouteByTrainId_def)
  with find_row_Some [OF r(1)] find_row_unique [OF keys(2), of r] tm(2)
  have route: "tsn_route (train_with_layout db t) = Some rd"
    by (simp add: train_with_layout_def)
  from publish_Inr [OF p] obtain e where e: "Schedule_toCreatedEvent (av_uuid env) d = Inr e" "emits ?db1 [e] db'" .
  from e(1) d' route have "e = ScheduleCreated (created_payload (av_uuid env) ?s (train_with_layout db t) rd)"
    by (auto simp: Schedule_toCreatedEvent_def zparse_def split: if_splits)
  with e(2) s have ev: "emits (db\<lparr>ad_schedules := ad_schedules db @ [s]\<rparr>)
      [ScheduleCreated (created_payload (av_uuid env) s (train_with_layout db t) rd)] db'" by simp
  show thesis by (rule that [OF s tm day rd free ev])
qed

text \<open>C11: A schedule is created only for an active train that operates on that day of the week, whose
  route is active and has at least two stops, and that has no schedule on that date yet; then
  exactly one row is added, ACTIVE in version 1 at midnight UTC of the date, and exactly one event is
  written with it, a snapshot of the train, its stops in order, its active coaches and their
  seats. Otherwise the call fails and changes nothing.\<close>

theorem created_schedule_sound:
  assumes "admin_step\<^sup>*\<^sup>* (empty_admin admins) db" and "createSchedule env now i cd db = (r, db')"
  shows "(\<exists>e. r = Inl e \<and> db' = db) \<or>
    (\<exists>s t rd. r = Inr s \<and> t \<in> set (ad_trains db) \<and> trn_id t = sch_trainId s \<and> trn_isActive t \<and>
       sch_trainId s = cd_trainId cd \<and> sch_status s = Sch_ACTIVE \<and> sch_version s = 1 \<and>
       sch_departureDate s = utc_midnight (cd_departureDate cd) \<and> sch_departureDate s mod MS_PER_DAY = 0 \<and>
       getUTCDay (sch_departureDate s) \<in> opd_dayOfWeek ` set (days_of (trn_id t) db) \<and>
       getRouteByTrainId (trn_id t) False db = Some rd \<and> 2 \<le> length (snd rd) \<and>
       (\<forall>s' \<in> set (ad_schedules db). sch_trainId s' = sch_trainId s \<longrightarrow> sch_departureDate s' \<noteq> sch_departureDate s) \<and>
       emits (db\<lparr>ad_schedules := ad_schedules db @ [s]\<rparr>)
         [ScheduleCreated (created_payload (av_uuid env) s (train_with_layout db t) rd)] db')"
proof (cases r)
  case (Inl e)
  with assms(2) command_error_unchanged(19) show ?thesis by blast
next
  case (Inr s)
  from createSchedule_shape [OF assms(2) [unfolded Inr] admin_reachable_ok [OF assms(1)]]
  obtain t rd where *: "s = \<lparr>sch_id = i, sch_trainId = cd_trainId cd, sch_departureDate = utc_midnight (cd_departureDate cd),
      sch_status = Sch_ACTIVE, sch_version = 1, sch_createdAt = now, sch_updatedAt = now\<rparr>"
    "t \<in> set (ad_trains db)" "trn_id t = cd_trainId cd" "trn_isActive t"
    "list_ex (\<lambda>d. opd_dayOfWeek d = getUTCDay (utc_midnight (cd_departureDate cd))) (days_of (trn_id t) db)"
    "getRouteByTrainId (cd_trainId cd) False db = Some rd" "2 \<le> length (snd rd)"
    "getByTrainAndDate (cd_trainId cd) (utc_midnight (cd_departureDate cd)) db = None"
    "emits (db\<lparr>ad_schedules := ad_schedules db @ [s]\<rparr>)
      [ScheduleCreated (created_payload (av_uuid env) s (train_with_layout db t) rd)] db'" .
  have "utc_midnight (cd_departureDate cd) mod MS_PER_DAY = 0"
    by (simp add: utc_midnight_def minus_mod_eq_mult_div)
  moreover from *(5) have "getUTCDay (sch_departureDate s) \<in> opd_dayOfWeek ` set (days_of (trn_id t) db)"
    by (auto simp: *(1) list_ex_iff image_iff intro: sym)
  moreover from *(8) have "\<forall>s' \<in> set (ad_schedules db). sch_trainId s' = sch_trainId s \<longrightarrow> sch_departureDate s' \<noteq> sch_departureDate s"
    by (auto simp: *(1) getByTrainAndDate_def find_row_None_iff)
  ultimately show ?thesis using * Inr by (intro disjI2 exI [of _ s] exI [of _ t] exI [of _ rd]) simp
qed

section \<open>Guards of routes and operating days\<close>

lemma ensureRouteCanBeDeleted_Inr:
  "ensureRouteCanBeDeleted now routeId db = Inr u \<longleftrightarrow>
    (\<exists>r. find_row (\<lambda>r. rte_id r = routeId) (ad_routes db) = Some r \<and>
      (\<forall>s \<in> set (ad_schedules db). sch_trainId s = rte_trainId r \<longrightarrow> sch_status s = Sch_ACTIVE \<longrightarrow> sch_departureDate s < now))"
  by (auto simp: ensureRouteCanBeDeleted_def getRouteById_def with_stops_def filter_empty_conv not_le
      split: option.splits if_splits)

lemma updateRoute_Inr:
  "updateRoute i f db = Inr (r', db') \<longleftrightarrow> (\<exists>r. find_row (\<lambda>x. rte_id x = i) (ad_routes db) = Some r \<and> r' = f r \<and>
     routes_unique (update_id rte_id i f (ad_routes db)) \<and> db' = db\<lparr>ad_routes := update_id rte_id i f (ad_routes db)\<rparr>)"
  by (auto simp: updateRoute_def commit_simps update_by_id)

lemma getTrainById_days: "getTrainById i db = Some x \<Longrightarrow> \<exists>t. x = (t, days_of i db)"
  by (auto simp: getTrainById_def dest: find_row_Some)

definition journey_ahead :: "time \<Rightarrow> ident \<Rightarrow> adb \<Rightarrow> Schedule \<Rightarrow> bool" where
  "journey_ahead now trainId db s \<longleftrightarrow>
     s \<in> set (ad_schedules db) \<and> sch_trainId s = trainId \<and> sch_status s = Sch_ACTIVE \<and> now \<le> sch_departureDate s"

lemma deactivation_guarded:
  assumes "deleteRoute env now i db = (Inr r, db') \<or> updateRouteStatus env now i False db = (Inr r, db')"
  shows "rte_id r = i \<and> \<not> rte_isActive r \<and> ad_schedules db' = ad_schedules db \<and> (\<nexists>s. journey_ahead now (rte_trainId r) db' s)"
proof -
  from assms obtain r0 db1 t topic payload where r0: "find_row (\<lambda>r. rte_id r = i) (ad_routes db) = Some r0"
      "\<forall>s \<in> set (ad_schedules db). sch_trainId s = rte_trainId r0 \<longrightarrow> sch_status s = Sch_ACTIVE \<longrightarrow> sch_departureDate s < now"
    and r: "r = r0\<lparr>rte_isActive := False, rte_updatedAt := now\<rparr>"
    and db1: "db1 = db\<lparr>ad_routes := update_id rte_id i (\<lambda>r. r\<lparr>rte_isActive := False, rte_updatedAt := now\<rparr>) (ad_routes db)\<rparr>"
    and p: "publish env now ''ROUTE'' i t topic payload db1 = Inr ((), db')"
    by (auto simp: deleteRoute_def updateRouteStatus_def commit_simps updateRoute_Inr ensureRouteCanBeDeleted_Inr getRouteById_def
        with_stops_def split: option.splits dest: find_row_Some)
  from p db1 have "ad_schedules db' = ad_schedules db" by (auto simp: publish_Inr_iff)
  with r0 r find_row_Some [OF r0(1)] show ?thesis by (auto simp: journey_ahead_def)
qed

lemma deactivation_refused:
  assumes "find_row (\<lambda>r. rte_id r = i) (ad_routes db) = Some q" and "journey_ahead now (rte_trainId q) db s"
  shows "deleteRoute env now i db = (Inl (ApiError 409 ''ROUTE_REFERENCED_BY_SCHEDULES''), db)"
    and "updateRouteStatus env now i False db = (Inl (ApiError 409 ''ROUTE_REFERENCED_BY_SCHEDULES''), db)"
proof -
  have "ensureRouteCanBeDeleted now i db = Inl (ApiError 409 ''ROUTE_REFERENCED_BY_SCHEDULES'')"
    using assms by (auto simp: ensureRouteCanBeDeleted_def getRouteById_def with_stops_def filter_empty_conv journey_ahead_def conflict_def)
  with assms(1) show "deleteRoute env now i db = (Inl (ApiError 409 ''ROUTE_REFERENCED_BY_SCHEDULES''), db)"
    "updateRouteStatus env now i False db = (Inl (ApiError 409 ''ROUTE_REFERENCED_BY_SCHEDULES''), db)"
    by (simp_all add: deleteRoute_def updateRouteStatus_def transaction_def getRouteById_def with_stops_def)
qed

lemma updateTrainOperatingDays_guarded:
  assumes "updateTrainOperatingDays now i days db = (Inr ds, db')"
  shows "ds = days \<and> ad_schedules db' = ad_schedules db \<and> opd_dayOfWeek ` set (days_of i db') = set days \<and>
      (\<forall>s. journey_ahead now i db' s \<longrightarrow> getUTCDay (sch_departureDate s) \<in> opd_dayOfWeek ` set (days_of i db) \<longrightarrow>
         getUTCDay (sch_departureDate s) \<in> set days)"
proof -
  from assms obtain x where x: "getTrainById i db = Some x" by (cases "getTrainById i db") (auto simp: updateTrainOperatingDays_def commit_simps)
  obtain t where t: "x = (t, days_of i db)" using getTrainById_days [OF x] by blast
  let ?removed = "filter (\<lambda>d. d \<notin> set days) (map opd_dayOfWeek (days_of i db))"
  from assms have
    ok: "?removed = [] \<or> \<not> list_ex (\<lambda>d. getUTCDay d \<in> set ?removed) (getFutureActiveSchedules now i db)"
    and db': "ds = days" "db' = db\<lparr>ad_operatingDays := filter (\<lambda>d. opd_trainId d \<noteq> i) (ad_operatingDays db) @
         map (\<lambda>d. \<lparr>opd_trainId = i, opd_dayOfWeek = d\<rparr>) days\<rparr>"
    by (auto simp: updateTrainOperatingDays_def x t commit_simps updateOperatingDays_def constrained_Inr_iff Let_def
        simp del: set_filter split: if_splits)
  have "opd_dayOfWeek ` set (days_of i db') = set days"
    by (simp add: db' days_of_def filter_map o_def image_image)
  moreover from ok have "\<forall>s. journey_ahead now i db s \<longrightarrow> getUTCDay (sch_departureDate s) \<in> opd_dayOfWeek ` set (days_of i db) \<longrightarrow>
      getUTCDay (sch_departureDate s) \<in> set days"
    by (auto simp: filter_empty_conv list_ex_iff getFutureActiveSchedules_def journey_ahead_def)
  ultimately show ?thesis by (simp add: db' journey_ahead_def)
qed

lemma updateTrainOperatingDays_refused:
  assumes "getTrainById i db \<noteq> None" and "journey_ahead now i db s"
    and "getUTCDay (sch_departureDate s) \<in> opd_dayOfWeek ` set (days_of i db) - set days"
  shows "updateTrainOperatingDays now i days db = (Inl (ApiError 409 ''TRAIN_OPERATING_DAYS_REFERENCED''), db)"
proof -
  from assms(1) obtain x where x: "getTrainById i db = Some x" by blast
  obtain t where t: "x = (t, days_of i db)" using getTrainById_days [OF x] by blast
  let ?removed = "filter (\<lambda>d. d \<notin> set days) (map opd_dayOfWeek (days_of i db))"
  have "getUTCDay (sch_departureDate s) \<in> set ?removed" using assms(3) by auto
  moreover have "sch_departureDate s \<in> set (getFutureActiveSchedules now i db)"
    using assms(2) by (auto simp: getFutureActiveSchedules_def journey_ahead_def)
  ultimately have "?removed \<noteq> [] \<and> list_ex (\<lambda>d. getUTCDay d \<in> set ?removed) (getFutureActiveSchedules now i db)"
    unfolding list_ex_iff by (metis list.distinct(1) list.set_cases)
  then show ?thesis by (simp add: updateTrainOperatingDays_def transaction_def x t Let_def del: set_filter)
qed

text \<open>C18: Neither of the two commands that deactivate a route, and no change of operating days, gets past an
  ACTIVE journey that departs now or later. A route is deactivated only while its train has no such
  journey, and with one both commands answer 409 and change nothing; a day is taken out of a train's
  operating days only while no such journey departs on it, and with one the command answers 409
  and changes nothing.\<close>

theorem future_journeys_guarded:
  "(deleteRoute env now i db = (Inr r, db') \<or> updateRouteStatus env now i False db = (Inr r, db') \<longrightarrow>
      rte_id r = i \<and> \<not> rte_isActive r \<and> ad_schedules db' = ad_schedules db \<and> (\<nexists>s. journey_ahead now (rte_trainId r) db' s)) \<and>
   (find_row (\<lambda>r. rte_id r = i) (ad_routes db) = Some q \<and> journey_ahead now (rte_trainId q) db s \<longrightarrow>
      deleteRoute env now i db = (Inl (ApiError 409 ''ROUTE_REFERENCED_BY_SCHEDULES''), db) \<and>
      updateRouteStatus env now i False db = (Inl (ApiError 409 ''ROUTE_REFERENCED_BY_SCHEDULES''), db)) \<and>
   (updateTrainOperatingDays now j days db = (Inr ds, db'') \<longrightarrow>
      ds = days \<and> ad_schedules db'' = ad_schedules db \<and> opd_dayOfWeek ` set (days_of j db'') = set days \<and>
      (\<forall>s. journey_ahead now j db'' s \<longrightarrow> getUTCDay (sch_departureDate s) \<in> opd_dayOfWeek ` set (days_of j db) \<longrightarrow>
         getUTCDay (sch_departureDate s) \<in> set days)) \<and>
   (getTrainById j db \<noteq> None \<and> journey_ahead now j db s \<and>
      getUTCDay (sch_departureDate s) \<in> opd_dayOfWeek ` set (days_of j db) - set days \<longrightarrow>
      updateTrainOperatingDays now j days db = (Inl (ApiError 409 ''TRAIN_OPERATING_DAYS_REFERENCED''), db))"
  (is "(?deactivated \<longrightarrow> ?A) \<and> (?route \<and> ?ahead \<longrightarrow> ?B) \<and> (?changed \<longrightarrow> ?C) \<and> (?train \<and> ?journey \<and> ?day \<longrightarrow> ?D)")
proof -
  have ?A if ?deactivated using deactivation_guarded [OF that] .
  moreover have ?B if "?route \<and> ?ahead"
    using that deactivation_refused [of i db q now s env] by simp
  moreover have ?C if ?changed using updateTrainOperatingDays_guarded [OF that] .
  moreover have ?D if "?train \<and> ?journey \<and> ?day" using that updateTrainOperatingDays_refused [of j db now s days] by blast
  ultimately show ?thesis by blast
qed

section \<open>What the guards miss\<close>

lemma publish_ok: "payload = Inr p \<Longrightarrow> \<exists>db'. publish env now a i t topic payload db = Inr ((), db') \<and> emits db [p] db'"
  using outbox_insert_emits [where db = db and d = "\<lparr>od_aggregateType = a, od_aggregateId = i, od_eventType = t,
    od_topic = topic, od_payload = p\<rparr>"] by (fastforce simp: publish_Inr_iff)

lemma routes_unique_update:
  "(\<And>r. rte_id (f r) = rte_id r) \<Longrightarrow> (\<And>r. rte_trainId (f r) = rte_trainId r) \<Longrightarrow>
    routes_unique (update_id rte_id i f rows) = routes_unique rows"
  by (simp add: routes_unique_def update_id_map)

lemma deleteRoute_ok:
  assumes "admin_ok db" and "find_row (\<lambda>r. rte_id r = i) (ad_routes db) = Some r"
    and "\<forall>s \<in> set (ad_schedules db). sch_trainId s = rte_trainId r \<longrightarrow> sch_status s = Sch_ACTIVE \<longrightarrow> sch_departureDate s < now"
  shows "\<exists>db'. deleteRoute env now i db = (Inr (r\<lparr>rte_isActive := False, rte_updatedAt := now\<rparr>), db') \<and>
    ad_schedules db' = ad_schedules db"
proof -
  let ?f = "\<lambda>r. r\<lparr>rte_isActive := False, rte_updatedAt := now\<rparr>"
  let ?db1 = "db\<lparr>ad_routes := update_id rte_id i ?f (ad_routes db)\<rparr>"
  have "getRouteById i True db = Some (with_stops db r)" by (simp add: getRouteById_def assms(2))
  moreover have "ensureRouteCanBeDeleted now i db = Inr ()"
    using assms(2,3) by (simp add: ensureRouteCanBeDeleted_Inr)
  moreover have "updateRoute i ?f db = Inr (?f r, ?db1)"
    using assms(1,2) by (simp add: updateRoute_Inr routes_unique_update admin_ok_def keys_ok_def)
  moreover obtain db' where "publish env now ''ROUTE'' (rte_id r) ''RouteDeletedV1'' ''admin.route-deleted.v1''
      (Route_toDeletedEvent (av_uuid env) now (?f r)) ?db1 = Inr ((), db')" "ad_schedules db' = ad_schedules db"
    using publish_ok [of "Route_toDeletedEvent (av_uuid env) now (?f r)" _ env now "''ROUTE''" "rte_id r"
        "''RouteDeletedV1''" "''admin.route-deleted.v1''" ?db1]
    by (auto simp: Route_toDeletedEvent_def emits_def)
  ultimately show ?thesis by (auto simp: deleteRoute_def transaction_def with_stops_def)
qed

text \<open>A journey scheduled for later today is stored at midnight, which has passed: the guard of
  the routes does not see it, and the route can be taken away while the journey stays ACTIVE.\<close>

theorem todays_journey_unguarded:
  assumes "admin_step\<^sup>*\<^sup>* (empty_admin admins) db" and "createSchedule env now i cd db = (Inr s, db1)"
    and "now < cd_departureDate cd" "utc_midnight (cd_departureDate cd) = utc_midnight now" "utc_midnight now < now"
    and "\<forall>s' \<in> set (ad_schedules db). sch_trainId s' \<noteq> cd_trainId cd"
  shows "\<exists>r r' db2. find_row (\<lambda>r. rte_trainId r = cd_trainId cd) (ad_routes db) = Some r \<and>
    deleteRoute env now (rte_id r) db1 = (Inr r', db2) \<and> \<not> rte_isActive r' \<and> s \<in> set (ad_schedules db2) \<and>
    sch_status s = Sch_ACTIVE"
proof -
  have ok: "admin_ok db" by (rule admin_reachable_ok [OF assms(1)])
  have ok1: "admin_ok db1"
    using admin_ok_effect [OF createSchedule_effect [OF assms(2) ok] ok] .
  from createSchedule_shape [OF assms(2) ok] obtain t rd where
    s: "s = \<lparr>sch_id = i, sch_trainId = cd_trainId cd, sch_departureDate = utc_midnight (cd_departureDate cd),
      sch_status = Sch_ACTIVE, sch_version = 1, sch_createdAt = now, sch_updatedAt = now\<rparr>"
    and rd: "getRouteByTrainId (cd_trainId cd) False db = Some rd"
    and ev: "emits (db\<lparr>ad_schedules := ad_schedules db @ [s]\<rparr>)
      [ScheduleCreated (created_payload (av_uuid env) s (train_with_layout db t) rd)] db1" .
  from ev have db1: "ad_schedules db1 = ad_schedules db @ [s]" "ad_routes db1 = ad_routes db"
    by (auto simp: emits_def)
  from rd obtain r where r: "r \<in> set (ad_routes db)" "rte_trainId r = cd_trainId cd"
    by (auto simp: getRouteByTrainId_def dest: find_row_Some)
  from ok have keys: "distinct (map rte_trainId (ad_routes db))" "distinct (map rte_id (ad_routes db))"
    by (simp_all add: admin_ok_def keys_ok_def routes_unique_def)
  have f: "find_row (\<lambda>x. rte_id x = rte_id r) (ad_routes db1) = Some r"
    using find_row_unique [OF keys(2) r(1)] db1(2) by simp
  have past: "\<forall>s \<in> set (ad_schedules db1). sch_trainId s = rte_trainId r \<longrightarrow> sch_status s = Sch_ACTIVE \<longrightarrow> sch_departureDate s < now"
    using assms(4-6) r(2) by (auto simp: db1 s)
  from deleteRoute_ok [OF ok1 f past, of env] db1(1) obtain db2 where
    "deleteRoute env now (rte_id r) db1 = (Inr (r\<lparr>rte_isActive := False, rte_updatedAt := now\<rparr>), db2)"
    "s \<in> set (ad_schedules db2)" by auto
  moreover have "find_row (\<lambda>x. rte_trainId x = cd_trainId cd) (ad_routes db) = Some r"
    using find_row_unique [OF keys(1) r(1)] r(2) by simp
  ultimately show ?thesis using s by (auto intro!: exI [of _ r])
qed

definition with_status :: "time \<Rightarrow> ScheduleStatus \<Rightarrow> Schedule \<Rightarrow> Schedule" where
  "with_status now status s = s\<lparr>sch_status := status, sch_version := sch_version s + 1, sch_updatedAt := now\<rparr>"

lemma with_status_simps [simp]:
  "sch_id (with_status now status s) = sch_id s" "sch_trainId (with_status now status s) = sch_trainId s"
  "sch_departureDate (with_status now status s) = sch_departureDate s" "sch_status (with_status now status s) = status"
  "sch_version (with_status now status s) = sch_version s + 1"
  by (simp_all add: with_status_def)

lemma find_row_ex: "x \<in> set rows \<Longrightarrow> p x \<Longrightarrow> \<exists>y. find_row p rows = Some y"
  using find_row_None_iff [of p rows] by (cases "find_row p rows") auto

text \<open>What \<open>updateScheduleStatus\<close> comes down to for a schedule of the table and a new status.\<close>

lemma updateScheduleStatus_eval:
  assumes "admin_ok db" and "s \<in> set (ad_schedules db)" and "sch_status s \<noteq> status"
  obtains t rd where "tsn_route (train_with_layout db t) = Some rd"
    and "updateScheduleStatus env now (sch_id s) status db = transaction (\<lambda>db.
      bindE (publish env now ''SCHEDULE'' (sch_id s) ''ScheduleStatusChangedV1'' ''admin.schedule-status-changed.v1''
          (toStatusChangedEvent (av_uuid env) (with_status now status s, train_with_layout db t))
          (db\<lparr>ad_schedules := update_id sch_id (sch_id s) (with_status now status) (ad_schedules db)\<rparr>))
        (\<lambda>(_, db2). Inr (with_status now status s, db2))) db"
proof -
  let ?f = "with_status now status"
  let ?db1 = "db\<lparr>ad_schedules := update_id sch_id (sch_id s) ?f (ad_schedules db)\<rparr>"
  from assms have keys: "distinct (map sch_id (ad_schedules db))" "schedules_unique (ad_schedules db)"
    and refs: "sch_trainId ` set (ad_schedules db) \<subseteq> rte_trainId ` set (ad_routes db)"
      "rte_trainId ` set (ad_routes db) \<subseteq> trn_id ` set (ad_trains db)"
    by (auto simp: admin_ok_def keys_ok_def refs_ok_def schedules_unique_def)
  have find: "find_row (\<lambda>x. sch_id x = sch_id s) (ad_schedules db) = Some s"
    by (rule find_row_unique [OF keys(1) assms(2)])
  obtain r where r: "r \<in> set (ad_routes db)" "rte_trainId r = sch_trainId s"
    using subsetD [OF refs(1) imageI [OF assms(2)]] by auto
  obtain t0 where "t0 \<in> set (ad_trains db)" "trn_id t0 = sch_trainId s"
    using subsetD [OF refs(2) imageI [OF r(1)]] r(2) by auto
  then obtain t where t: "find_row (\<lambda>t. trn_id t = sch_trainId s) (ad_trains db) = Some t"
    using find_row_ex [of t0 _ "\<lambda>t. trn_id t = sch_trainId s"] by blast
  have tid: "trn_id t = sch_trainId s" using find_row_Some [OF t] by simp
  obtain rd where rd: "tsn_route (train_with_layout db t) = Some rd"
    using find_row_ex [OF r(1), of "\<lambda>r. rte_trainId r = sch_trainId s"] r(2) tid by (auto simp: train_with_layout_def with_stops_def)
  have u: "schedules_unique (update_id sch_id (sch_id s) ?f (ad_schedules db))"
    using keys(2) by (simp add: schedules_unique_def update_id_map)
  have get: "schedule_getById (sch_id s) db = Some (s, train_with_layout db t)"
    by (simp add: schedule_getById_def find t)
  have "find_row (\<lambda>x. sch_id x = sch_id s) (update_id sch_id (sch_id s) ?f (ad_schedules db)) = Some (?f s)"
    by (rule find_row_update_id [OF _ find]) simp
  then have get1: "schedule_getById (sch_id s) ?db1 = Some (?f s, train_with_layout db t)"
    by (simp add: schedule_getById_def t)
  have upd: "schedule_update (sch_id s) ?f db = Inr (?f s, ?db1)"
    using find u by (simp add: schedule_update_def commit_simps update_by_id)
  have f: "?f = (\<lambda>s. s\<lparr>sch_status := status, sch_version := sch_version s + 1, sch_updatedAt := now\<rparr>)"
    by (rule ext) (simp add: with_status_def)
  show thesis
    by (rule that [OF rd]) (use assms(3) get upd get1 in \<open>simp add: updateScheduleStatus_def transaction_def f [symmetric]\<close>)
qed

text \<open>Setting a schedule back to ACTIVE is not checked against anything: it succeeds for a train
  that was deactivated, on a day it no longer operates, on a route that was deleted, and for a
  date in the past.\<close>

theorem reactivation_unchecked:
  assumes "admin_step\<^sup>*\<^sup>* (empty_admin admins) db" and "s \<in> set (ad_schedules db)" and "sch_status s \<noteq> Sch_ACTIVE"
  shows "\<exists>s' db'. updateScheduleStatus env now (sch_id s) Sch_ACTIVE db = (Inr s', db') \<and> s' \<in> set (ad_schedules db') \<and>
    sch_id s' = sch_id s \<and> sch_status s' = Sch_ACTIVE \<and> sch_version s' = sch_version s + 1 \<and>
    ad_trains db' = ad_trains db \<and> ad_routes db' = ad_routes db \<and> ad_operatingDays db' = ad_operatingDays db"
proof -
  let ?f = "with_status now Sch_ACTIVE"
  let ?db1 = "db\<lparr>ad_schedules := update_id sch_id (sch_id s) ?f (ad_schedules db)\<rparr>"
  have ok: "admin_ok db" by (rule admin_reachable_ok [OF assms(1)])
  then have v: "1 \<le> sch_version s" using assms(2) by (simp add: admin_ok_def rows_ok_def)
  from updateScheduleStatus_eval [OF ok assms(2,3), of env now] obtain t rd where
    rd: "tsn_route (train_with_layout db t) = Some rd" and
    eval: "updateScheduleStatus env now (sch_id s) Sch_ACTIVE db = transaction (\<lambda>db.
      bindE (publish env now ''SCHEDULE'' (sch_id s) ''ScheduleStatusChangedV1'' ''admin.schedule-status-changed.v1''
          (toStatusChangedEvent (av_uuid env) (?f s, train_with_layout db t))
          (db\<lparr>ad_schedules := update_id sch_id (sch_id s) ?f (ad_schedules db)\<rparr>)) (\<lambda>(_, db2). Inr (?f s, db2))) db" .
  from rd v obtain p where p: "toStatusChangedEvent (av_uuid env) (?f s, train_with_layout db t) = Inr p"
    by (simp add: toStatusChangedEvent_def zparse_def schedule_status_schema_def contract_status_def)
  from publish_ok [OF this] obtain db' where "publish env now ''SCHEDULE'' (sch_id s) ''ScheduleStatusChangedV1''
      ''admin.schedule-status-changed.v1'' (toStatusChangedEvent (av_uuid env) (?f s, train_with_layout db t)) ?db1 = Inr ((), db')"
    and em: "emits ?db1 [p] db'" by blast
  then have "updateScheduleStatus env now (sch_id s) Sch_ACTIVE db = (Inr (?f s), db')"
    by (simp add: eval transaction_def)
  moreover from em have "ad_schedules db' = update_id sch_id (sch_id s) ?f (ad_schedules db)" "ad_trains db' = ad_trains db"
    "ad_routes db' = ad_routes db" "ad_operatingDays db' = ad_operatingDays db" by (auto simp: emits_def)
  moreover have "?f s \<in> set (update_id sch_id (sch_id s) ?f (ad_schedules db))"
    using assms(2) by (auto simp: update_id_def image_iff intro!: bexI [of _ s])
  ultimately show ?thesis by (intro exI [of _ "?f s"] exI [of _ db']) simp
qed

section \<open>What cannot be published\<close>

text \<open>The database knows train categories and schedule statuses that the event contracts do not:
  a train of such a category can never be created, with a valid request it fails with the
  schema's error, and no schedule can be set to SCHEDULED or COMPLETED.\<close>

theorem unpublishable_refused:
  assumes "admin_step\<^sup>*\<^sup>* (empty_admin admins) db"
  shows "(ct_category ct \<in> {MAIL, JAN_SHATABDI, GARIB_RATH} \<longrightarrow>
      (\<exists>e. createTrain env now i ct db = (Inl e, db) \<and>
        (i \<notin> trn_id ` set (ad_trains db) \<and> ct_trainNumber ct \<notin> trn_trainNumber ` set (ad_trains db) \<longrightarrow> e = ZodError))) \<and>
    (s \<in> set (ad_schedules db) \<and> status \<in> {Sch_SCHEDULED, Sch_COMPLETED} \<longrightarrow>
      updateScheduleStatus env now (sch_id s) status db = (Inl ZodError, db))"
proof (intro conjI impI)
  assume c: "ct_category ct \<in> {MAIL, JAN_SHATABDI, GARIB_RATH}"
  have ok: "admin_ok db" by (rule admin_reachable_ok [OF assms])
  let ?t = "\<lparr>trn_id = i, trn_trainNumber = ct_trainNumber ct, trn_trainName = ct_trainName ct,
         trn_category = ct_category ct, trn_isActive = ct_isActive ct, trn_createdAt = now, trn_updatedAt = now\<rparr>"
  have ev: "Train_toCreatedEvent (av_uuid env) ?t = Inl ZodError"
    using c by (auto simp: Train_toCreatedEvent_def zparse_def contract_category_def)
  show "\<exists>e. createTrain env now i ct db = (Inl e, db) \<and>
      (i \<notin> trn_id ` set (ad_trains db) \<and> ct_trainNumber ct \<notin> trn_trainNumber ` set (ad_trains db) \<longrightarrow> e = ZodError)"
  proof (cases "createTrain env now i ct db")
    case (Pair r db')
    show ?thesis
    proof (cases r)
      case (Inl e)
      have "e = ZodError" if new: "i \<notin> trn_id ` set (ad_trains db)" "ct_trainNumber ct \<notin> trn_trainNumber ` set (ad_trains db)"
      proof -
        have "getTrainByNumber (ct_trainNumber ct) db = None"
          using new(2) by (force simp: getTrainByNumber_def find_row_None_iff)
        moreover have "trains_unique (ad_trains db @ [?t])"
          using ok new by (auto simp: admin_ok_def keys_ok_def trains_unique_def)
        ultimately have "createTrain env now i ct db = (Inl ZodError, db)"
          using ev by (simp add: createTrain_def on_conflict_def transaction_def ensureUniqueTrainNumber_def train_create_def
              constrained_def publish_def)
        with Pair Inl show ?thesis by simp
      qed
      with Pair Inl command_error_unchanged(4) [of env now i ct db e db'] show ?thesis by auto
    next
      case (Inr t)
      with Pair have "createTrain env now i ct db = (Inr t, db')" by simp
      then have False
        using ev by (auto simp: createTrain_def commit_simps train_create_def constrained_Inr_iff publish_Inr_iff)
      then show ?thesis ..
    qed
  qed
next
  assume st: "s \<in> set (ad_schedules db) \<and> status \<in> {Sch_SCHEDULED, Sch_COMPLETED}"
  have ok: "admin_ok db" by (rule admin_reachable_ok [OF assms])
  with st have "sch_status s \<noteq> status" by (auto simp: admin_ok_def rows_ok_def contract_status_def)
  from updateScheduleStatus_eval [OF ok _ this, of env now] st obtain t rd where
    "tsn_route (train_with_layout db t) = Some rd" and
    "updateScheduleStatus env now (sch_id s) status db = transaction (\<lambda>db.
      bindE (publish env now ''SCHEDULE'' (sch_id s) ''ScheduleStatusChangedV1'' ''admin.schedule-status-changed.v1''
          (toStatusChangedEvent (av_uuid env) (with_status now status s, train_with_layout db t))
          (db\<lparr>ad_schedules := update_id sch_id (sch_id s) (with_status now status) (ad_schedules db)\<rparr>))
        (\<lambda>(_, db2). Inr (with_status now status s, db2))) db" by blast
  then show "updateScheduleStatus env now (sch_id s) status db = (Inl ZodError, db)"
    using st by (auto simp: transaction_def publish_def toStatusChangedEvent_def zparse_def schedule_status_schema_def
        contract_status_def)
qed

section \<open>Conflicts\<close>

text \<open>A station whose code or name, or a train whose number, is already taken, be it by a row that
  was deactivated, is refused with 409 and nothing changes.\<close>

theorem duplicates_conflict:
  "(cs_code cs \<in> stn_code ` set (ad_stations db) \<or> cs_name cs \<in> stn_name ` set (ad_stations db) \<longrightarrow>
      createStation env now i cs db = (Inl (ApiError 409 ''STATION_ALREADY_EXISTS''), db)) \<and>
   (ct_trainNumber ct \<in> trn_trainNumber ` set (ad_trains db) \<longrightarrow>
      createTrain env now i ct db = (Inl (ApiError 409 ''TRAIN_ALREADY_EXISTS''), db))"
proof (intro conjI impI)
  let ?s = "\<lparr>stn_id = i, stn_name = cs_name cs, stn_code = cs_code cs, stn_zone = cs_zone cs,
         stn_state = cs_state cs, stn_isActive = cs_isActive cs, stn_createdAt = now, stn_updatedAt = now\<rparr>"
  assume "cs_code cs \<in> stn_code ` set (ad_stations db) \<or> cs_name cs \<in> stn_name ` set (ad_stations db)"
  then have "\<not> stations_unique (ad_stations db @ [?s])" by (auto simp: stations_unique_def)
  then show "createStation env now i cs db = (Inl (ApiError 409 ''STATION_ALREADY_EXISTS''), db)"
    by (simp add: createStation_def on_conflict_def transaction_def ensureUniqueCode_def station_create_def constrained_def)
next
  let ?t = "\<lparr>trn_id = i, trn_trainNumber = ct_trainNumber ct, trn_trainName = ct_trainName ct,
         trn_category = ct_category ct, trn_isActive = ct_isActive ct, trn_createdAt = now, trn_updatedAt = now\<rparr>"
  assume "ct_trainNumber ct \<in> trn_trainNumber ` set (ad_trains db)"
  then have "\<not> trains_unique (ad_trains db @ [?t])" by (auto simp: trains_unique_def)
  then show "createTrain env now i ct db = (Inl (ApiError 409 ''TRAIN_ALREADY_EXISTS''), db)"
    by (simp add: createTrain_def on_conflict_def transaction_def ensureUniqueTrainNumber_def train_create_def constrained_def)
qed

section \<open>Pages\<close>

lemma concat_pages: "0 < n \<Longrightarrow> concat (map (\<lambda>p. take n (drop (p * n) xs)) [0..<k]) = take (k * n) xs"
proof (induction k)
  case (Suc k)
  have "take (k * n) xs @ take n (drop (k * n) xs) = take (k * n + n) xs" by (simp only: take_add)
  with Suc show ?case by (simp add: add.commute)
qed simp

lemma pages_of_paginate:
  assumes "0 < limit"
  shows "concat (map (\<lambda>p. paginate ((p - 1) * limit) limit xs) [1..\<lceil>of_nat (length xs) / (of_int limit :: rat)\<rceil>]) = xs"
proof -
  let ?k = "nat \<lceil>of_nat (length xs) / (of_int limit :: rat)\<rceil>"
  have pos: "0 \<le> \<lceil>of_nat (length xs) / (of_int limit :: rat)\<rceil>"
  proof -
    have "0 \<le> of_nat (length xs) / (of_int limit :: rat)" using assms by simp
    then have "\<lceil>0 :: rat\<rceil> \<le> \<lceil>of_nat (length xs) / (of_int limit :: rat)\<rceil>" by (rule ceiling_mono)
    then show ?thesis by simp
  qed
  have upto: "[1..\<lceil>of_nat (length xs) / (of_int limit :: rat)\<rceil>] = map (\<lambda>k. int k + 1) [0..<?k]"
  proof (rule nth_equalityI)
    fix j
    assume "j < length [1..\<lceil>of_nat (length xs) / (of_int limit :: rat)\<rceil>]"
    then show "[1..\<lceil>of_nat (length xs) / (of_int limit :: rat)\<rceil>] ! j = map (\<lambda>k. int k + 1) [0..<?k] ! j"
      by (simp add: nth_upto)
  qed simp
  have "of_nat (length xs) \<le> (of_int (\<lceil>of_nat (length xs) / (of_int limit :: rat)\<rceil> * limit) :: rat)"
  proof -
    have "(0 :: rat) < of_int limit" using assms by simp
    from iffD1 [OF pos_divide_le_eq [OF this] le_of_int_ceiling] show ?thesis by simp
  qed
  then have "int (length xs) \<le> \<lceil>of_nat (length xs) / (of_int limit :: rat)\<rceil> * limit"
    by (metis of_int_le_iff of_int_of_nat_eq)
  then have "length xs \<le> ?k * nat limit"
    using pos assms by (simp add: nat_mult_distrib [symmetric] nat_le_iff le_nat_iff)
  then show ?thesis
    using concat_pages [of "nat limit" xs ?k] assms
    by (simp add: upto o_def paginate_def nat_mult_distrib)
qed

text \<open>The pages of a list of stations or trains, from the first to the number of pages it
  reports, are together the matching rows in order, each once, whatever the page size.\<close>

theorem pages_cover_list:
  assumes "0 < limit"
  shows "concat (map (\<lambda>p. fst (listStations (q\<lparr>ls_page := p, ls_limit := limit\<rparr>) db))
      [1..pm_totalPages (snd (listStations (q\<lparr>ls_page := 1, ls_limit := limit\<rparr>) db))]) =
    sort_key stn_code (filter (station_buildWhereClause (station_filters q)) (ad_stations db)) \<and>
    concat (map (\<lambda>p. fst (listTrains (r\<lparr>lt_page := p, lt_limit := limit\<rparr>) db))
      [1..pm_totalPages (snd (listTrains (r\<lparr>lt_page := 1, lt_limit := limit\<rparr>) db))]) =
    sort_key trn_trainNumber (filter (train_buildWhereClause (train_filters r)) (ad_trains db))"
proof -
  have q: "station_filters (q\<lparr>ls_page := p, ls_limit := limit\<rparr>) = station_filters q" for p
    by (simp add: station_filters_def)
  have r: "train_filters (r\<lparr>lt_page := p, lt_limit := limit\<rparr>) = train_filters r" for p
    by (simp add: train_filters_def)
  show ?thesis
    using pages_of_paginate [OF assms, of "sort_key stn_code (filter (station_buildWhereClause (station_filters q)) (ad_stations db))"]
      pages_of_paginate [OF assms, of "sort_key trn_trainNumber (filter (train_buildWhereClause (train_filters r)) (ad_trains db))"]
    by (simp add: listStations_def listTrains_def Let_def q r repo_listStations_def repo_listTrains_def countStations_def
        countTrains_def metadata_def)
qed

end
