(* ===== verification/AdminProjection.thy ===== *)
theory AdminProjection
  imports AdminProps Inventory
begin

text \<open>
  The admin service composed with the inventory service: every schedule event the admin service
  publishes is accepted by the inventory service, and its projection agrees with the admin
  database.

  \<open>inventory_consume\<close> is what the two consumers of the inventory service do with an event of the
  admin topics: they parse it with the schema it was made with and call \<open>ScheduleService\<close>; the
  other topics have no consumer there. \<open>read_created\<close> is the parsed event with the fields the
  service reads, enums as their text.
\<close>

section \<open>The event as the inventory service reads it\<close>

fun category_name :: "TrainCategory \<Rightarrow> string" where
  "category_name EXPRESS = ''EXPRESS''"
| "category_name SUPERFAST = ''SUPERFAST''"
| "category_name MAIL = ''MAIL''"
| "category_name PASSENGER = ''PASSENGER''"
| "category_name VANDE_BHARAT = ''VANDE_BHARAT''"
| "category_name RAJDHANI = ''RAJDHANI''"
| "category_name SHATABDI = ''SHATABDI''"
| "category_name DURONTO = ''DURONTO''"
| "category_name JAN_SHATABDI = ''JAN_SHATABDI''"
| "category_name GARIB_RATH = ''GARIB_RATH''"
| "category_name DEMU = ''DEMU''"
| "category_name MEMU = ''MEMU''"

fun coach_type_name :: "CoachType \<Rightarrow> string" where
  "coach_type_name GEN = ''GEN''"
| "coach_type_name SL = ''SL''"
| "coach_type_name AC_3E = ''AC_3E''"
| "coach_type_name AC_3A = ''AC_3A''"
| "coach_type_name AC_2A = ''AC_2A''"
| "coach_type_name AC_1A = ''AC_1A''"
| "coach_type_name CC = ''CC''"
| "coach_type_name EC = ''EC''"

fun seat_type_name :: "SeatType \<Rightarrow> string" where
  "seat_type_name LOWER = ''LOWER''"
| "seat_type_name MIDDLE = ''MIDDLE''"
| "seat_type_name UPPER = ''UPPER''"
| "seat_type_name SIDE_LOWER = ''SIDE_LOWER''"
| "seat_type_name SIDE_UPPER = ''SIDE_UPPER''"

text \<open>Only the three statuses of the contract are ever read.\<close>

definition read_status :: "ScheduleStatus \<Rightarrow> source_status" where
  "read_status s = (if s = Sch_DRAFT then Src_DRAFT else if s = Sch_CANCELLED then Src_CANCELLED else Src_ACTIVE)"

definition read_stop :: "stop_snapshot \<Rightarrow> stop_dto" where
  "read_stop s = \<lparr>st_stationId = pn_stationId s, st_stationCode = pn_stationCode s, st_stationName = pn_stationName s,
     st_stopNumber = pn_stopNumber s, st_distanceFromStart = pn_distanceFromStart s\<rparr>"

definition read_coach :: "coach_snapshot \<Rightarrow> coach_dto" where
  "read_coach c = \<lparr>cd_coachId = kn_coachId c, cd_coachNumber = kn_coachNumber c, cd_coachType = coach_type_name (kn_coachType c),
     cd_seats = map (\<lambda>s. \<lparr>sd_seatId = qn_seatId s, sd_seatNumber = qn_seatNumber s, sd_seatType = seat_type_name (qn_seatType s)\<rparr>)
       (kn_seats c)\<rparr>"

definition read_created :: "AdminContracts.ScheduleCreatedEventV1 \<Rightarrow> Inventory.ScheduleCreatedEventV1" where
  "read_created e = \<lparr>sc_scheduleId = hc_scheduleId e, sc_trainId = hc_trainId e, sc_trainNumber = hc_trainNumber e,
     sc_trainName = hc_trainName e, sc_trainCategory = category_name (hc_trainCategory e),
     sc_departureDate = hc_departureDate e, sc_status = read_status (hc_status e), sc_version = hc_version e,
     sc_stops = map read_stop (hc_stops e), sc_coaches = map read_coach (hc_coaches e)\<rparr>"

definition read_changed :: "AdminContracts.ScheduleStatusChangedEventV1 \<Rightarrow> Inventory.ScheduleStatusChangedEventV1" where
  "read_changed e = \<lparr>sx_scheduleId = hs_scheduleId e, sx_status = read_status (hs_status e), sx_version = hs_version e\<rparr>"

fun inventory_consume :: "inventory_env \<Rightarrow> time \<Rightarrow> admin_event \<Rightarrow> (inventory_db, unit) proc" where
  "inventory_consume env now (ScheduleCreated e) iv =
     (if schedule_created_schema e then processCreated env now (read_created e) iv else (Inl ZodError, iv))"
| "inventory_consume env now (ScheduleStatusChanged e) iv =
     (if schedule_status_schema e then processStatusChanged env now (read_changed e) iv else (Inl ZodError, iv))"
| "inventory_consume env now _ iv = (Inr (), iv)"

text \<open>The events consumed one after another; an error stops the consumer.\<close>

fun inventory_run :: "(inventory_env \<times> time \<times> admin_event) list \<Rightarrow> inventory_db \<Rightarrow> exn + inventory_db" where
  "inventory_run [] iv = Inr iv"
| "inventory_run ((env, now, e) # es) iv =
     (case inventory_consume env now e iv of (Inl err, _) \<Rightarrow> Inl err | (Inr _, iv') \<Rightarrow> inventory_run es iv')"

lemma inventory_run_append: "inventory_run (xs @ ys) iv = bindE (inventory_run xs iv) (inventory_run ys)"
  by (induction xs iv rule: inventory_run.induct) (auto split: sum.splits prod.splits)

lemma inventory_run_others:
  "list_all (\<lambda>x. \<not> schedule_event (snd (snd x))) xs \<Longrightarrow> inventory_run xs iv = Inr iv"
proof (induction xs)
  case (Cons x xs)
  then show ?case by (cases x; cases "snd (snd x)") auto
qed simp

section \<open>When a projection succeeds\<close>

lemma project_schedule_ok:
  assumes "projection_ok iv" and "sc_scheduleId e \<notin> si_scheduleId ` set (iv_schedules iv)"
    and "distinct (map st_stationId (sc_stops e))" and "distinct (map st_stopNumber (sc_stops e))"
    and "distinct (map sv_seatId (seat_rows e))" and "list_all (\<lambda>s. sv_seatType s \<in> set seat_types) (seat_rows e)"
  shows "\<exists>iv'. project_schedule env now e iv = Inr ((), iv')"
proof -
  have st: "distinct (map (\<lambda>s. (rs_scheduleId s, rs_stationId s)) (stop_rows e))"
    "distinct (map (\<lambda>s. (rs_scheduleId s, rs_sequenceNumber s)) (stop_rows e))"
    using assms(3,4) by (auto simp: stop_rows_def distinct_map o_def inj_on_def)
  have old: "x \<notin> rs_scheduleId ` set (iv_stops iv)" "x \<notin> sv_scheduleId ` set (iv_seats iv)" if "x = sc_scheduleId e" for x
    using assms(1,2) that by (auto simp: projection_ok_def)
  have dis: "(\<lambda>s. (rs_scheduleId s, f s)) ` set (stop_rows e) \<inter> (\<lambda>s. (rs_scheduleId s, f s)) ` set (iv_stops iv) = {}" for f :: "RouteStop \<Rightarrow> 'a"
  proof -
    have "rs_scheduleId s \<noteq> sc_scheduleId e" if "s \<in> set (iv_stops iv)" for s
      using old(1) imageI [OF that, of rs_scheduleId] by auto
    then show ?thesis by (auto dest!: stop_rows_schedule)
  qed
  have keys: "map (\<lambda>s. (sv_scheduleId s, sv_seatId s)) (number_seats (iv_nextSeat iv) (seat_rows e)) =
      map (\<lambda>i. (sc_scheduleId e, i)) (map sv_seatId (seat_rows e))"
    by (simp add: number_seats_keys seat_rows_schedule cong: map_cong)
  have "distinct (map (\<lambda>s. (sv_scheduleId s, sv_seatId s)) (number_seats (iv_nextSeat iv) (seat_rows e)))"
    unfolding keys using assms(5) by (simp add: distinct_map inj_on_def)
  moreover have "(\<lambda>s. (sv_scheduleId s, sv_seatId s)) ` set (number_seats (iv_nextSeat iv) (seat_rows e)) \<inter>
      (\<lambda>s. (sv_scheduleId s, sv_seatId s)) ` set (iv_seats iv) = {}"
    using arg_cong [OF keys, of set] old(2) by auto
  ultimately have seats: "create_rows (\<lambda>s. (sv_scheduleId s, sv_seatId s)) (number_seats (iv_nextSeat iv) (seat_rows e)) (iv_seats iv) =
      Inr (iv_seats iv @ number_seats (iv_nextSeat iv) (seat_rows e))"
    unfolding create_rows_Inr_iff by simp
  have stops: "create_rows (\<lambda>s. (rs_scheduleId s, rs_stationId s)) (stop_rows e) (iv_stops iv) = Inr (iv_stops iv @ stop_rows e)"
    "create_rows (\<lambda>s. (rs_scheduleId s, rs_sequenceNumber s)) (stop_rows e) (iv_stops iv) = Inr (iv_stops iv @ stop_rows e)"
    unfolding create_rows_Inr_iff using st dis by auto
  have "create_row si_scheduleId s (iv_schedules iv) = Inr (iv_schedules iv @ [s])" if "si_scheduleId s = sc_scheduleId e" for s
    unfolding create_row_Inr_iff using assms(2) that by simp
  then show ?thesis
    using assms(6) by (simp add: project_schedule_def Inventory.createSchedule_def createStops_def createSeats_def stops seats)
qed

lemma map_map_filter:
  "(\<And>r d. g r = Some d \<Longrightarrow> h d = k r) \<Longrightarrow> map h (List.map_filter g xs) = map k (filter (\<lambda>r. g r \<noteq> None) xs)"
  by (induction xs) (auto simp: List.map_filter_def)

lemma distinct_map_sort: "distinct (map f (sort_key g xs)) = distinct (map f xs)"
  by (simp add: distinct_map)

lemma stops_of_distinct:
  assumes "route_stations_unique (ad_routeStations db)"
  shows "distinct (map (\<lambda>d. rst_stationId (fst d)) (stops_of i db))" and "distinct (map (\<lambda>d. rst_stopNumber (fst d)) (stops_of i db))"
proof -
  let ?rows = "filter (\<lambda>r. rst_routeId r = i) (ad_routeStations db)"
  have "distinct (map rst_stationId ?rows)" "distinct (map rst_stopNumber ?rows)"
    using assms by (auto simp: route_stations_unique_def distinct_map inj_on_def)
  moreover have "map (\<lambda>d. rst_stationId (fst d)) (stops_of i db) =
      map rst_stationId (filter (\<lambda>r. with_station db r \<noteq> None) (sort_key rst_stopNumber ?rows))"
    "map (\<lambda>d. rst_stopNumber (fst d)) (stops_of i db) =
      map rst_stopNumber (filter (\<lambda>r. with_station db r \<noteq> None) (sort_key rst_stopNumber ?rows))"
    unfolding stops_of_def by (rule map_map_filter; auto simp: with_station_def)+
  ultimately show "distinct (map (\<lambda>d. rst_stationId (fst d)) (stops_of i db))"
    "distinct (map (\<lambda>d. rst_stopNumber (fst d)) (stops_of i db))"
    by (simp_all add: distinct_map_filtered distinct_map_sort)
qed

lemma stops_of_full:
  assumes "refs_ok db"
  shows "length (stops_of i db) = stop_count i db"
proof -
  have "with_station db r \<noteq> None" if "r \<in> set (ad_routeStations db)" for r
  proof -
    from assms that have "rst_stationId r \<in> stn_id ` set (ad_stations db)" by (auto simp: refs_ok_def)
    then show ?thesis by (auto simp: with_station_def find_row_None_iff)
  qed
  then have "filter (\<lambda>r. with_station db r \<noteq> None) (sort_key rst_stopNumber (filter (\<lambda>r. rst_routeId r = i) (ad_routeStations db))) =
      sort_key rst_stopNumber (filter (\<lambda>r. rst_routeId r = i) (ad_routeStations db))"
    by (intro filter_True) auto
  moreover have "length (stops_of i db) = length (filter (\<lambda>r. with_station db r \<noteq> None)
      (sort_key rst_stopNumber (filter (\<lambda>r. rst_routeId r = i) (ad_routeStations db))))"
    by (simp add: stops_of_def List.map_filter_def)
  ultimately show ?thesis by (simp add: stop_count_def)
qed

lemma seats_of_coaches_distinct:
  assumes "distinct (map sea_id (ad_seats db))" and "distinct (map coa_id cs)"
  shows "distinct (concat (map (\<lambda>c. map sea_id (seats_of (coa_id c) db)) cs))"
  using assms(2)
proof (induction cs)
  case (Cons c cs)
  have eq: "sea_coachId a = sea_coachId b" if "a \<in> set (ad_seats db)" "b \<in> set (ad_seats db)" "sea_id a = sea_id b" for a b
    using assms(1) that by (auto simp: distinct_map inj_on_def)
  have "x \<notin> set (concat (map (\<lambda>c. map sea_id (seats_of (coa_id c) db)) cs))" if x: "x \<in> set (map sea_id (seats_of (coa_id c) db))" for x
  proof
    assume "x \<in> set (concat (map (\<lambda>c. map sea_id (seats_of (coa_id c) db)) cs))"
    then obtain d b where d: "d \<in> set cs" "b \<in> set (seats_of (coa_id d) db)" "x = sea_id b" by auto
    from x obtain a where a: "a \<in> set (seats_of (coa_id c) db)" "x = sea_id a" by auto
    from a d have "coa_id c = coa_id d" using eq [of a b] by (simp add: seats_of_def)
    with d(1) Cons.prems show False by auto
  qed
  then have "set (map sea_id (seats_of (coa_id c) db)) \<inter> set (concat (map (\<lambda>c. map sea_id (seats_of (coa_id c) db)) cs)) = {}"
    by blast
  with Cons assms(1) show ?case by (simp add: seats_of_def distinct_map_filtered)
qed simp

lemma seat_rows_created:
  "map sv_seatId (seat_rows (read_created (created_payload u s t rd))) = concat (map (\<lambda>(c, seats). map sea_id seats) (tsn_coaches t))"
  "list_all (\<lambda>x. sv_seatType x \<in> set seat_types) (seat_rows (read_created (created_payload u s t rd)))"
proof -
  show "map sv_seatId (seat_rows (read_created (created_payload u s t rd))) = concat (map (\<lambda>(c, seats). map sea_id seats) (tsn_coaches t))"
    by (simp add: seat_rows_def read_created_def created_payload_def map_concat o_def read_coach_def snapshot_coach_def split_def)
  have "seat_type_name x \<in> set seat_types" for x by (cases x) (simp_all add: seat_types_def)
  then show "list_all (\<lambda>x. sv_seatType x \<in> set seat_types) (seat_rows (read_created (created_payload u s t rd)))"
    by (auto simp: list_all_iff seat_rows_def read_created_def read_coach_def)
qed

section \<open>The projection agrees with the admin database\<close>

definition schedule_view :: "ScheduleInventory \<Rightarrow> ident \<times> ident \<times> time \<times> ScheduleInventoryStatus \<times> int" where
  "schedule_view s = (si_scheduleId s, si_trainId s, si_departureDate s, si_status s, si_version s)"

definition admin_view :: "Schedule \<Rightarrow> ident \<times> ident \<times> time \<times> ScheduleInventoryStatus \<times> int" where
  "admin_view s = (sch_id s, sch_trainId s, sch_departureDate s, projected_status (read_status (sch_status s)), sch_version s)"

definition agrees :: "adb \<Rightarrow> inventory_db \<Rightarrow> bool" where
  "agrees db iv \<longleftrightarrow> map schedule_view (iv_schedules iv) = map admin_view (ad_schedules db) \<and>
     (\<forall>s \<in> set (iv_schedules iv). 2 \<le> length (filter (\<lambda>x. rs_scheduleId x = si_scheduleId s) (iv_stops iv)))"

lemma agrees_ids: "agrees db iv \<Longrightarrow> map si_scheduleId (iv_schedules iv) = map sch_id (ad_schedules db)"
  unfolding agrees_def schedule_view_def admin_view_def
  by (drule conjunct1, drule arg_cong [where f = "map fst"]) (simp add: o_def)

lemma stop_rows_filter: "filter (\<lambda>x. rs_scheduleId x = i) (stop_rows e) = (if i = sc_scheduleId e then stop_rows e else [])"
  by (auto simp: filter_empty_conv intro!: filter_True dest: stop_rows_schedule)

lemma consume_created:
  assumes "admin_ok db" and "projection_ok iv" and "agrees db iv"
    and "t \<in> set (ad_trains db)" "tsn_route (train_with_layout db t) = Some rd" "2 \<le> stop_count (rte_id (fst rd)) db"
    and "schedules_unique (ad_schedules db @ [s])"
    and "schedule_created_schema (created_payload u s (train_with_layout db t) rd)"
  shows "\<exists>iv'. inventory_consume env now (ScheduleCreated (created_payload u s (train_with_layout db t) rd)) iv = (Inr (), iv') \<and>
    agrees (db\<lparr>ad_schedules := ad_schedules db @ [s]\<rparr>) iv'"
proof -
  let ?e = "read_created (created_payload u s (train_with_layout db t) rd)"
  have id: "sc_scheduleId ?e = sch_id s" by (simp add: read_created_def created_payload_def)
  have new: "sch_id s \<notin> si_scheduleId ` set (iv_schedules iv)"
    using arg_cong [OF agrees_ids [OF assms(3)], of set] assms(7) by (auto simp: schedules_unique_def)
  then have none: "findByScheduleId (sch_id s) iv = None"
    by (force simp: findByScheduleId_def find_row_None_iff)
  have keys: "route_stations_unique (ad_routeStations db)" "distinct (map sea_id (ad_seats db))" "distinct (map coa_id (ad_coaches db))"
    and refs: "refs_ok db"
    using assms(1) by (simp_all add: admin_ok_def keys_ok_def seats_unique_def coaches_unique_def)
  have rd: "snd rd = stops_of (rte_id (fst rd)) db"
    using assms(5) by (auto simp: train_with_layout_def with_stops_def)
  have st: "map st_stationId (sc_stops ?e) = map (\<lambda>d. rst_stationId (fst d)) (snd rd)"
    "map st_stopNumber (sc_stops ?e) = map (\<lambda>d. rst_stopNumber (fst d)) (snd rd)"
    by (simp_all add: read_created_def created_payload_def o_def read_stop_def snapshot_stop_def split_def)
  have "distinct (map sv_seatId (seat_rows ?e))"
    unfolding seat_rows_created(1)
    using seats_of_coaches_distinct [OF keys(2), of "filter (\<lambda>c. coa_trainId c = trn_id t \<and> coa_isActive c) (ad_coaches db)"] keys(3)
    by (simp add: train_with_layout_def distinct_map_filtered o_def)
  with project_schedule_ok [OF assms(2), of ?e env now] new id st stops_of_distinct [OF keys(1), of "rte_id (fst rd)"] rd
    seat_rows_created(2)
  obtain iv' where iv': "project_schedule env now ?e iv = Inr ((), iv')" by auto
  note eff = project_schedule_Inr [OF iv']
  have "2 \<le> length (stop_rows ?e)"
    using assms(6) stops_of_full [OF refs] rd by (simp add: stop_rows_def read_created_def created_payload_def)
  moreover have "2 \<le> length (filter (\<lambda>y. rs_scheduleId y = si_scheduleId x) (iv_stops iv'))" if "x \<in> set (iv_schedules iv)" for x
  proof -
    from imageI [OF that, of si_scheduleId] new have "si_scheduleId x \<noteq> sch_id s" by auto
    with that assms(3) show ?thesis by (simp add: eff(3) agrees_def stop_rows_filter id)
  qed
  ultimately have "agrees (db\<lparr>ad_schedules := ad_schedules db @ [s]\<rparr>) iv'"
    using assms(3) by (auto simp: agrees_def eff(2,3) stop_rows_filter)
      (simp add: schedule_view_def admin_view_def read_created_def created_payload_def)
  moreover have "inventory_consume env now (ScheduleCreated (created_payload u s (train_with_layout db t) rd)) iv = (Inr (), iv')"
    using assms(8) none iv' by (simp add: processCreated_def transaction_def id)
  ultimately show ?thesis by blast
qed

lemma map_eq_step:
  assumes "map f xs = map g ys" and "\<And>x y. x \<in> set xs \<Longrightarrow> y \<in> set ys \<Longrightarrow> f x = g y \<Longrightarrow> f (h x) = g (k y)"
  shows "map f (map h xs) = map g (map k ys)"
  using assms
proof (induction xs arbitrary: ys)
  case (Cons x xs)
  then obtain y ys' where "ys = y # ys'" by (cases ys) auto
  with Cons show ?case by auto
qed simp

lemma consume_changed:
  assumes "admin_ok db" and "agrees db iv"
    and "find_row (\<lambda>s. sch_id s = i) (ad_schedules db) = Some s" and "contract_status status"
    and "hs_scheduleId e = i" "hs_status e = status" "hs_version e = sch_version s + 1"
    and f: "f = (\<lambda>s. s\<lparr>sch_status := status, sch_version := sch_version s + 1, sch_updatedAt := now'\<rparr>)"
  shows "\<exists>iv'. inventory_consume env now (ScheduleStatusChanged e) iv = (Inr (), iv') \<and>
    agrees (db\<lparr>ad_schedules := update_id sch_id i f (ad_schedules db)\<rparr>) iv'"
proof -
  from find_row_Some [OF assms(3)] have s: "s \<in> set (ad_schedules db)" "sch_id s = i" by auto
  have keys: "distinct (map sch_id (ad_schedules db))" and v: "1 \<le> sch_version s"
    using assms(1) s by (auto simp: admin_ok_def keys_ok_def schedules_unique_def rows_ok_def)
  have only: "x = s" if "x \<in> set (ad_schedules db)" "sch_id x = i" for x
    by (rule unique_find [OF keys assms(3) that])
  have "i \<in> si_scheduleId ` set (iv_schedules iv)"
    using arg_cong [OF agrees_ids [OF assms(2)], of set] s by force
  then obtain x where x: "findByScheduleId i iv = Some x"
    by (auto simp: findByScheduleId_def dest: find_row_ex [where p = "\<lambda>s. si_scheduleId s = i"])
  let ?p = "\<lambda>x. si_scheduleId x = i \<and> si_version x < sch_version s + 1"
  let ?g = "\<lambda>x. if ?p x then x\<lparr>si_status := projected_status (read_status status), si_version := sch_version s + 1\<rparr> else x"
  have views: "map schedule_view (map ?g (iv_schedules iv)) = map admin_view (map (\<lambda>x. if sch_id x = i then f x else x) (ad_schedules db))"
  proof (rule map_eq_step)
    show "map schedule_view (iv_schedules iv) = map admin_view (ad_schedules db)" using assms(2) by (simp add: agrees_def)
    fix y a
    assume "a \<in> set (ad_schedules db)" and "schedule_view y = admin_view a"
    then show "schedule_view (?g y) = admin_view (if sch_id a = i then f a else a)"
      using only [of a] by (cases "sch_id a = i") (auto simp: schedule_view_def admin_view_def f)
  qed
  have "list_ex ?p (iv_schedules iv)"
  proof -
    from s(1) have "admin_view s \<in> set (map admin_view (ad_schedules db))" by simp
    then have "admin_view s \<in> set (map schedule_view (iv_schedules iv))" using assms(2) by (simp add: agrees_def)
    then obtain y where "y \<in> set (iv_schedules iv)" "schedule_view y = admin_view s" by force
    with s(2) show ?thesis by (auto simp: list_ex_iff schedule_view_def admin_view_def)
  qed
  then have pos: "0 < length (filter ?p (iv_schedules iv))"
    by (auto simp: list_ex_iff filter_empty_conv)
  define iv1 where "iv1 = iv\<lparr>iv_schedules := map ?g (iv_schedules iv)\<rparr>"
  obtain iv' where iv': "processStatusChanged env now (read_changed e) iv = (Inr (), iv')"
    "iv_schedules iv' = iv_schedules iv1" "iv_stops iv' = iv_stops iv"
    using x pos assms(5-7) by (auto simp: processStatusChanged_def transaction_def read_changed_def Let_def
        Inventory.updateScheduleStatus_def update_many_def iv1_def)
  have ids: "map si_scheduleId (iv_schedules iv') = map si_scheduleId (iv_schedules iv)"
    by (simp add: iv'(2) iv1_def)
  have "\<forall>k \<in> set (map si_scheduleId (iv_schedules iv)). 2 \<le> length (filter (\<lambda>y. rs_scheduleId y = k) (iv_stops iv'))"
    using assms(2) iv'(3) by (simp add: agrees_def)
  then have "\<forall>x \<in> set (iv_schedules iv'). 2 \<le> length (filter (\<lambda>y. rs_scheduleId y = si_scheduleId x) (iv_stops iv'))"
    unfolding ids [symmetric] by simp
  with views iv'(2) have "agrees (db\<lparr>ad_schedules := update_id sch_id i f (ad_schedules db)\<rparr>) iv'"
    by (simp add: agrees_def iv1_def update_id_def)
  moreover have "schedule_status_schema e" using assms(4,6,7) v by (simp add: schedule_status_schema_def)
  ultimately show ?thesis using iv'(1) by auto
qed

definition run_agrees :: "adb \<Rightarrow> bool" where
  "run_agrees db \<longleftrightarrow> (\<forall>es. map (\<lambda>x. snd (snd x)) es = payloads db \<longrightarrow>
     (\<exists>iv. inventory_run es empty_inventory = Inr iv \<and> projection_ok iv \<and> agrees db iv))"

lemma consume_projection_ok: "projection_ok iv \<Longrightarrow> projection_ok (snd (inventory_consume env now e iv))"
  by (cases e) (simp_all add: processCreated_ok processStatusChanged_ok)

lemma emits_payloads: "emits db1 evs db' \<Longrightarrow> payloads db' = payloads db1 @ evs \<and> ad_schedules db' = ad_schedules db1"
  by (auto simp: emits_def payloads_def)

lemma run_agrees_one:
  assumes "run_agrees db" and "payloads db' = payloads db @ [e]"
    and "\<And>env now iv. projection_ok iv \<Longrightarrow> agrees db iv \<Longrightarrow>
      \<exists>iv'. inventory_consume env now e iv = (Inr (), iv') \<and> agrees db' iv'"
  shows "run_agrees db'"
  unfolding run_agrees_def
proof (intro allI impI)
  fix es :: "(inventory_env \<times> time \<times> admin_event) list"
  assume "map (\<lambda>x. snd (snd x)) es = payloads db'"
  then obtain es0 env now where es: "es = es0 @ [(env, now, e)]" "map (\<lambda>x. snd (snd x)) es0 = payloads db"
    unfolding assms(2) by (auto simp: map_eq_append_conv)
  with assms(1) obtain iv where iv: "inventory_run es0 empty_inventory = Inr iv" "projection_ok iv" "agrees db iv"
    unfolding run_agrees_def by blast
  from assms(3) [OF iv(2,3)] obtain iv' where iv': "inventory_consume env now e iv = (Inr (), iv')" "agrees db' iv'" by blast
  with consume_projection_ok [OF iv(2), of env now e] have "projection_ok iv'" by simp
  with iv iv' show "\<exists>iv. inventory_run es empty_inventory = Inr iv \<and> projection_ok iv \<and> agrees db' iv"
    by (auto simp: es(1) inventory_run_append)
qed

lemma catalog_write_schedules: "catalog_write db db' \<Longrightarrow> ad_schedules db' = ad_schedules db \<and> payloads db' = payloads db"
  by (induction rule: catalog_write.induct) (simp_all add: payloads_def)

lemma agrees_schedules: "ad_schedules db = ad_schedules db' \<Longrightarrow> agrees db = agrees db'"
  by (rule ext) (simp add: agrees_def)

lemma run_agrees_effect:
  assumes "admin_effect db db'" and "admin_ok db" and "run_agrees db"
  shows "run_agrees db'"
  using assms
proof (induction rule: admin_effect.induct)
  case (catalog db db1 evs db')
  from catalog_write_schedules [OF catalog(1)] emits_payloads [OF catalog(3)] have
    pl: "payloads db' = payloads db @ evs" and sch: "ad_schedules db' = ad_schedules db" by auto
  show ?case unfolding run_agrees_def
  proof (intro allI impI)
    fix es :: "(inventory_env \<times> time \<times> admin_event) list"
    assume "map (\<lambda>x. snd (snd x)) es = payloads db'"
    then obtain es0 es1 where es: "es = es0 @ es1" "map (\<lambda>x. snd (snd x)) es0 = payloads db" "map (\<lambda>x. snd (snd x)) es1 = evs"
      unfolding pl by (auto simp: map_eq_append_conv)
    from catalog(2) [folded es(3)] have "list_all (\<lambda>x. \<not> schedule_event (snd (snd x))) es1"
      by (simp add: list.pred_map o_def)
    with es catalog.prems(2) show "\<exists>iv. inventory_run es empty_inventory = Inr iv \<and> projection_ok iv \<and> agrees db' iv"
      unfolding run_agrees_def agrees_schedules [OF sch] by (fastforce simp: inventory_run_append inventory_run_others)
  qed
next
  case (schedule_added t db s rd u db')
  let ?db1 = "db\<lparr>ad_schedules := ad_schedules db @ [s]\<rparr>"
  from emits_payloads [OF schedule_added(9)] have pl: "payloads db' = payloads db @ [ScheduleCreated (created_payload u s (train_with_layout db t) rd)]"
    and sch: "ad_schedules db' = ad_schedules ?db1" by (simp_all add: payloads_def)
  show ?case
    by (rule run_agrees_one [OF schedule_added.prems(2) pl], unfold agrees_schedules [OF sch])
      (rule consume_created [OF schedule_added.prems(1) _ _ schedule_added(1,3,4,7,8)])
next
  case (schedule_changed i db s f status now e db')
  let ?db1 = "db\<lparr>ad_schedules := update_id sch_id i f (ad_schedules db)\<rparr>"
  from emits_payloads [OF schedule_changed(8)] have pl: "payloads db' = payloads db @ [ScheduleStatusChanged e]"
    and sch: "ad_schedules db' = ad_schedules ?db1" by (simp_all add: payloads_def)
  show ?case
    by (rule run_agrees_one [OF schedule_changed.prems(2) pl], unfold agrees_schedules [OF sch])
      (rule consume_changed [OF schedule_changed.prems(1) _ schedule_changed(1,3,5,6,7,2)])
qed

lemma empty_run_agrees: "run_agrees (empty_admin admins)"
  by (simp add: run_agrees_def payloads_def empty_admin_def agrees_def empty_inventory_def)
    (simp add: empty_inventory_ok [unfolded empty_inventory_def])

interpretation projected: stepper admin_step "\<lambda>db. admin_ok db \<and> run_agrees db"
  by unfold_locales (blast intro: admin_ok_effect run_agrees_effect admin_step_effect)

text \<open>C7: Whatever the commands of the admin service, its events consumed in the order of its outbox
  are all accepted by the inventory service: no event is refused and none fails. Afterwards the
  inventory holds exactly the schedules of the admin database, in the same order, each with its
  train, date, projected status and version, and with at least two stops to travel between.\<close>

theorem schedules_projected_faithfully:
  assumes "admin_step\<^sup>*\<^sup>* (empty_admin admins) db" and "map (\<lambda>(env, now, e). e) es = payloads db"
  shows "\<exists>iv. inventory_run es empty_inventory = Inr iv \<and>
    map schedule_view (iv_schedules iv) = map admin_view (ad_schedules db) \<and>
    (\<forall>s \<in> set (iv_schedules iv). 2 \<le> length (filter (\<lambda>x. rs_scheduleId x = si_scheduleId s) (iv_stops iv)))"
proof -
  have "run_agrees db"
    using projected.run_inv [OF assms(1)] empty_admin_ok empty_run_agrees by blast
  moreover have "map (\<lambda>x. snd (snd x)) es = payloads db" using assms(2) by (simp add: split_def)
  ultimately show ?thesis unfolding run_agrees_def agrees_def by blast
qed

end
