(* ===== verification/Zod.thy ===== *)
theory Zod
  imports AccountApi "HOL-Library.Monad_Syntax"
begin

text \<open>
  JSON values and the part of the Zod library that the request schemas of the admin service and the
  contracts of the user events are made of. A schema takes a value or \<open>None\<close> for \<open>undefined\<close> and answers
  the parsed value or \<open>None\<close> for a failure; which of the issues are reported is dropped. Numbers are
  exact. \<open>Number\<close> and \<open>Number.parseInt\<close> read decimal literals.
\<close>

section \<open>JSON\<close>

datatype json =
    JNull
  | JBool bool
  | JNum rat
  | JStr string
  | JArr "json list"
  | JObj "(string \<times> json) list"

section \<open>Schemas\<close>

type_synonym 'a schema = "json option \<Rightarrow> 'a option"

definition z_string :: "string schema" where
  "z_string v = (case v of Some (JStr s) \<Rightarrow> Some s | _ \<Rightarrow> None)"

definition z_boolean :: "bool schema" where
  "z_boolean v = (case v of Some (JBool b) \<Rightarrow> Some b | _ \<Rightarrow> None)"

definition z_number :: "rat schema" where
  "z_number v = (case v of Some (JNum n) \<Rightarrow> Some n | _ \<Rightarrow> None)"

text \<open>\<open>.refine\<close>, \<open>.min\<close>, \<open>.regex\<close>, \<dots>: a check of the parsed value; \<open>.trim\<close> and \<open>.toUpperCase\<close>
  replace it.\<close>

definition z_check :: "('a \<Rightarrow> bool) \<Rightarrow> 'a schema \<Rightarrow> 'a schema" where
  "z_check p s v = (case s v of Some x \<Rightarrow> if p x then Some x else None | None \<Rightarrow> None)"

definition z_map :: "('a \<Rightarrow> 'b) \<Rightarrow> 'a schema \<Rightarrow> 'b schema" where
  "z_map f s v = map_option f (s v)"

definition MAX_SAFE_INTEGER :: int where "MAX_SAFE_INTEGER = 9007199254740991"

definition int_of :: "rat \<Rightarrow> int option" where
  "int_of q = (if of_int \<lfloor>q\<rfloor> = q \<and> \<bar>\<lfloor>q\<rfloor>\<bar> \<le> MAX_SAFE_INTEGER then Some \<lfloor>q\<rfloor> else None)"

definition z_int :: "int schema" where
  "z_int v = (case z_number v of Some q \<Rightarrow> int_of q | None \<Rightarrow> None)"

definition z_optional :: "'a schema \<Rightarrow> 'a option schema" where
  "z_optional s v = (case v of None \<Rightarrow> Some None | Some _ \<Rightarrow> map_option Some (s v))"

definition z_nullable :: "'a schema \<Rightarrow> 'a option schema" where
  "z_nullable s v = (if v = Some JNull then Some None else map_option Some (s v))"

definition z_default :: "'a \<Rightarrow> 'a schema \<Rightarrow> 'a schema" where
  "z_default d s v = (case v of None \<Rightarrow> Some d | Some _ \<Rightarrow> s v)"

definition z_array :: "'a schema \<Rightarrow> 'a list schema" where
  "z_array s v = (case v of Some (JArr xs) \<Rightarrow> those (map (\<lambda>x. s (Some x)) xs) | _ \<Rightarrow> None)"

definition z_enum :: "('a \<Rightarrow> string) \<Rightarrow> 'a list \<Rightarrow> 'a schema" where
  "z_enum name values v = (case v of Some (JStr s) \<Rightarrow> List.find (\<lambda>x. name x = s) values | _ \<Rightarrow> None)"

definition z_object :: "((string \<Rightarrow> json option) \<Rightarrow> 'a option) \<Rightarrow> 'a schema" where
  "z_object f v = (case v of Some (JObj fs) \<Rightarrow> f (map_of fs) | _ \<Rightarrow> None)"

text \<open>The strings of the schemas: trimmed, of a least length; a UUID; an e-mail address.\<close>

definition z_trimmed :: "nat \<Rightarrow> string schema" where
  "z_trimmed n = z_check (\<lambda>s. n \<le> length s) (z_map js_trim z_string)"

definition z_uuid :: "formats \<Rightarrow> string schema" where
  "z_uuid fm = z_check (valid_uuid fm) z_string"

definition z_email :: "formats \<Rightarrow> string schema" where
  "z_email fm = z_map js_trim (z_check (valid_email fm) z_string)"

section \<open>Numbers in query strings\<close>

definition digit_value :: "char \<Rightarrow> int" where
  "digit_value c = int (of_char c) - 48"

definition digits_value :: "string \<Rightarrow> int" where
  "digits_value ds = foldl (\<lambda>n c. 10 * n + digit_value c) 0 ds"

text \<open>\<open>Number.parseInt(x, 10)\<close>: the digits at the front; \<open>None\<close> is \<open>NaN\<close>.\<close>

definition parseInt :: "string \<Rightarrow> int option" where
  "parseInt x =
     (let t = dropWhile js_space x;
          neg = (t \<noteq> [] \<and> hd t = CHR ''-'');
          u = (if t \<noteq> [] \<and> (hd t = CHR ''-'' \<or> hd t = CHR ''+'') then tl t else t);
          ds = takeWhile (char_in 48 57) u
      in if ds = [] then None else Some (if neg then - digits_value ds else digits_value ds))"

text \<open>\<open>Number(x)\<close> of a string: 0 for the empty one, a decimal literal with fraction and exponent, or
  digits after a radix prefix. \<open>None\<close> is \<open>NaN\<close> and \<open>Infinity\<close>, which no schema accepts.\<close>

definition exponent :: "string \<Rightarrow> int option" where
  "exponent x =
     (if x = [] then Some 0
      else if hd x \<notin> {CHR ''e'', CHR ''E''} then None
      else
        (let u = (if tl x \<noteq> [] \<and> (hd (tl x) = CHR ''-'' \<or> hd (tl x) = CHR ''+'') then tl (tl x) else tl x)
         in if u = [] \<or> \<not> list_all (char_in 48 57) u then None
            else Some (if hd (tl x) = CHR ''-'' then - digits_value u else digits_value u)))"

definition decimal :: "string \<Rightarrow> rat option" where
  "decimal u =
     (let ds = takeWhile (char_in 48 57) u;
          r = dropWhile (char_in 48 57) u;
          fs = (if r \<noteq> [] \<and> hd r = CHR ''.'' then takeWhile (char_in 48 57) (tl r) else []);
          end = (if r \<noteq> [] \<and> hd r = CHR ''.'' then dropWhile (char_in 48 57) (tl r) else r);
          q = of_int (digits_value ds) + of_int (digits_value fs) / 10 ^ length fs
      in if ds = [] \<and> fs = [] then None
         else (case exponent end of
             None \<Rightarrow> None
           | Some e \<Rightarrow> Some (if e < 0 then q / 10 ^ nat (- e) else q * 10 ^ nat e)))"

definition radix_digit :: "char \<Rightarrow> int" where
  "radix_digit c =
     (if char_in 48 57 c then digit_value c
      else if char_in 97 122 c then int (of_char c) - 87
      else if char_in 65 90 c then int (of_char c) - 55 else 36)"

definition radix_of :: "char \<Rightarrow> int" where
  "radix_of c = (if c \<in> {CHR ''x'', CHR ''X''} then 16 else if c \<in> {CHR ''o'', CHR ''O''} then 8
     else if c \<in> {CHR ''b'', CHR ''B''} then 2 else 0)"

definition js_Number :: "string \<Rightarrow> rat option" where
  "js_Number x =
     (let t = js_trim x
      in if t = [] then Some 0
         else if 2 < length t \<and> hd t = CHR ''0'' \<and> radix_of (t ! 1) \<noteq> 0
         then (let ds = map radix_digit (drop 2 t); b = radix_of (t ! 1)
               in if list_all (\<lambda>d. d < b) ds then Some (of_int (foldl (\<lambda>n d. b * n + d) 0 ds)) else None)
         else if hd t = CHR ''-'' then map_option uminus (decimal (tl t))
         else if hd t = CHR ''+'' then decimal (tl t)
         else decimal t)"

section \<open>What parsed values are like\<close>

named_theorems schema_simps

lemmas [schema_simps] = z_check_def z_map_def z_optional_def z_nullable_def z_default_def z_trimmed_def

lemma z_check_Some [simp]: "z_check p s v = Some x \<longleftrightarrow> s v = Some x \<and> p x"
  by (auto simp: z_check_def split: option.splits)

lemma z_map_Some [simp]: "z_map f s v = Some y \<longleftrightarrow> (\<exists>x. s v = Some x \<and> y = f x)"
  by (auto simp: z_map_def)

lemma z_optional_Some [simp]:
  "z_optional s v = Some x \<longleftrightarrow> (v = None \<and> x = None) \<or> (\<exists>j y. v = Some j \<and> s v = Some y \<and> x = Some y)"
  by (auto simp: z_optional_def split: option.splits)

lemma z_default_Some [simp]: "z_default d s v = Some x \<longleftrightarrow> (v = None \<and> x = d) \<or> (\<exists>j. v = Some j \<and> s v = Some x)"
  by (auto simp: z_default_def split: option.splits)

lemma z_object_Some: "z_object f v = Some x \<longleftrightarrow> (\<exists>fs. v = Some (JObj fs) \<and> f (map_of fs) = Some x)"
  by (auto simp: z_object_def split: option.splits json.splits)

lemma those_Some: "those xs = Some ys \<longleftrightarrow> xs = map Some ys"
  by (induction xs arbitrary: ys) (auto split: option.splits)

lemma z_array_Some: "z_array s v = Some ys \<Longrightarrow> \<forall>y \<in> set ys. \<exists>x. s (Some x) = Some y"
  by (auto simp: z_array_def those_Some dest!: arg_cong [where f = set] split: option.splits json.splits)
    (metis (no_types, lifting) imageE imageI)

end
