(* ===== verification/AdminApi.thy ===== *)
theory AdminApi
  imports AdminProjection Zod
begin

text \<open>
  The HTTP interface of the admin service: request schemas (\<open>dto\<close>), \<open>validateParams\<close> and
  \<open>validateQuery\<close> of \<open>packages/middleware\<close>, \<open>requireAdmin\<close>, \<open>AdminAuthService\<close>, the controllers and the
  routers. The path is the list of its decoded segments, a query parameter is given at most once; a
  HEAD request is answered like GET and left out.
\<close>

section \<open>Schemas\<close>

text \<open>\<open>ap_new_Date\<close> is the constructor \<open>new Date(x)\<close>, whose formats are the engine's; \<open>None\<close> is an
  invalid date.\<close>

record api_env =
  ap_admin :: admin_env
  ap_account :: account_env
  ap_formats :: formats
  ap_new_Date :: "json \<Rightarrow> time option"
  ap_JWT_EXPIRATION_TIME :: int

definition categories :: "TrainCategory list" where
  "categories = [EXPRESS, SUPERFAST, MAIL, PASSENGER, VANDE_BHARAT, RAJDHANI, SHATABDI, DURONTO, JAN_SHATABDI, GARIB_RATH, DEMU, MEMU]"

definition coach_types :: "CoachType list" where
  "coach_types = [GEN, SL, AC_3E, AC_3A, AC_2A, AC_1A, CC, EC]"

fun status_name :: "ScheduleStatus \<Rightarrow> string" where
  "status_name Sch_DRAFT = ''DRAFT''"
| "status_name Sch_ACTIVE = ''ACTIVE''"
| "status_name Sch_SCHEDULED = ''SCHEDULED''"
| "status_name Sch_CANCELLED = ''CANCELLED''"
| "status_name Sch_COMPLETED = ''COMPLETED''"

definition z_status :: "ScheduleStatus schema" where
  "z_status = z_enum status_name [Sch_DRAFT, Sch_ACTIVE, Sch_SCHEDULED, Sch_CANCELLED, Sch_COMPLETED]"

text \<open>\<open>toUpperCase\<close>; letters outside ASCII are left as they are.\<close>

definition z_code :: "nat \<Rightarrow> string schema" where
  "z_code n = z_map upper (z_trimmed n)"

definition createStationSchema :: "CreateStationRequestDto schema" where
  "createStationSchema = z_object (\<lambda>f. do {
     name \<leftarrow> z_trimmed 2 (f ''name'');
     code \<leftarrow> z_code 2 (f ''code'');
     zone \<leftarrow> z_optional (z_trimmed 2) (f ''zone'');
     state \<leftarrow> z_optional (z_trimmed 2) (f ''state'');
     isActive \<leftarrow> z_default True z_boolean (f ''isActive'');
     Some \<lparr>cs_name = name, cs_code = code, cs_zone = zone, cs_state = state, cs_isActive = isActive\<rparr> })"

definition updateStationSchema :: "UpdateStationRequestDto schema" where
  "updateStationSchema = z_object (\<lambda>f. do {
     name \<leftarrow> z_optional (z_trimmed 2) (f ''name'');
     code \<leftarrow> z_optional (z_code 2) (f ''code'');
     zone \<leftarrow> z_optional (z_trimmed 2) (f ''zone'');
     state \<leftarrow> z_optional (z_trimmed 2) (f ''state'');
     isActive \<leftarrow> z_optional z_boolean (f ''isActive'');
     Some \<lparr>us_name = name, us_code = code, us_zone = zone, us_state = state, us_isActive = isActive\<rparr> })"

definition train_number :: "string schema" where
  "train_number = z_check (\<lambda>s. length s = 5 \<and> list_all (char_in 48 57) s) (z_map js_trim z_string)"

definition z_category :: "TrainCategory schema" where "z_category = z_enum category_name categories"
definition z_coach_type :: "CoachType schema" where "z_coach_type = z_enum coach_type_name coach_types"

definition createTrainSchema :: "CreateTrainRequestDto schema" where
  "createTrainSchema = z_object (\<lambda>f. do {
     trainNumber \<leftarrow> train_number (f ''trainNumber'');
     trainName \<leftarrow> z_trimmed 2 (f ''trainName'');
     category \<leftarrow> z_default PASSENGER z_category (f ''category'');
     isActive \<leftarrow> z_default True z_boolean (f ''isActive'');
     Some \<lparr>ct_trainNumber = trainNumber, ct_trainName = trainName, ct_category = category, ct_isActive = isActive\<rparr> })"

definition updateTrainSchema :: "UpdateTrainRequestDto schema" where
  "updateTrainSchema = z_check (\<lambda>d. ut_trainNumber d \<noteq> None \<or> ut_trainName d \<noteq> None \<or> ut_category d \<noteq> None \<or> ut_isActive d \<noteq> None)
     (z_object (\<lambda>f. do {
        trainNumber \<leftarrow> z_optional train_number (f ''trainNumber'');
        trainName \<leftarrow> z_optional (z_trimmed 2) (f ''trainName'');
        category \<leftarrow> z_optional z_category (f ''category'');
        isActive \<leftarrow> z_optional z_boolean (f ''isActive'');
        Some \<lparr>ut_trainNumber = trainNumber, ut_trainName = trainName, ut_category = category, ut_isActive = isActive\<rparr> }))"

definition updateOperatingDaysSchema :: "int list schema" where
  "updateOperatingDaysSchema = z_object (\<lambda>f.
     z_check (\<lambda>ds. 1 \<le> length ds) (z_array (z_check (\<lambda>d. 0 \<le> d \<and> d \<le> 6) z_int)) (f ''operatingDays''))"

definition validateCoachCapacity :: "CoachType option \<Rightarrow> int option \<Rightarrow> bool" where
  "validateCoachCapacity coachType totalSeats =
     (case (coachType, totalSeats) of
        (Some t, Some n) \<Rightarrow> \<not> (n < fst (COACH_CAPACITY t) \<or> snd (COACH_CAPACITY t) < n)
      | _ \<Rightarrow> True)"

definition positive_int :: "int schema" where "positive_int = z_check (\<lambda>n. 0 < n) z_int"
definition nonnegative_int :: "int schema" where "nonnegative_int = z_check (\<lambda>n. 0 \<le> n) z_int"

definition createCoachSchema :: "CreateCoachRequestDto schema" where
  "createCoachSchema = z_check (\<lambda>d. validateCoachCapacity (Some (cc_coachType d)) (Some (cc_totalSeats d)))
     (z_object (\<lambda>f. do {
        coachNumber \<leftarrow> z_code 1 (f ''coachNumber'');
        coachType \<leftarrow> z_coach_type (f ''coachType'');
        totalSeats \<leftarrow> positive_int (f ''totalSeats'');
        Some \<lparr>cc_coachNumber = coachNumber, cc_coachType = coachType, cc_totalSeats = totalSeats\<rparr> }))"

definition updateCoachSchema :: "UpdateCoachRequestDto schema" where
  "updateCoachSchema = z_check (\<lambda>d. validateCoachCapacity (uc_coachType d) (uc_totalSeats d))
     (z_object (\<lambda>f. do {
        coachNumber \<leftarrow> z_optional (z_code 1) (f ''coachNumber'');
        coachType \<leftarrow> z_optional z_coach_type (f ''coachType'');
        totalSeats \<leftarrow> z_optional positive_int (f ''totalSeats'');
        Some \<lparr>uc_coachNumber = coachNumber, uc_coachType = coachType, uc_totalSeats = totalSeats\<rparr> }))"

text \<open>\<open>.nullable().optional()\<close>: absent, null, or a value.\<close>

definition z_nullish :: "'a schema \<Rightarrow> 'a option option schema" where
  "z_nullish s = z_optional (z_nullable s)"

text \<open>Creation stores an absent value and null alike.\<close>

definition flatten_opt :: "'a option option \<Rightarrow> 'a option" where
  "flatten_opt v = (case v of None \<Rightarrow> None | Some x \<Rightarrow> x)"

definition addStationToRouteSchema :: "formats \<Rightarrow> AddStationToRouteRequestDto schema" where
  "addStationToRouteSchema fm = z_object (\<lambda>f. do {
     stationId \<leftarrow> z_uuid fm (f ''stationId'');
     stopNumber \<leftarrow> positive_int (f ''stopNumber'');
     arrivalMinutes \<leftarrow> z_nullish nonnegative_int (f ''arrivalMinutes'');
     departureMinutes \<leftarrow> z_nullish nonnegative_int (f ''departureMinutes'');
     distanceFromStart \<leftarrow> nonnegative_int (f ''distanceFromStart'');
     platformNumber \<leftarrow> z_nullish (z_trimmed 0) (f ''platformNumber'');
     Some \<lparr>as_stationId = stationId, as_stopNumber = stopNumber, as_arrivalMinutes = flatten_opt arrivalMinutes,
       as_departureMinutes = flatten_opt departureMinutes, as_distanceFromStart = distanceFromStart,
       as_platformNumber = flatten_opt platformNumber\<rparr> })"

definition updateRouteStationSchema :: "UpdateRouteStationRequestDto schema" where
  "updateRouteStationSchema = z_object (\<lambda>f. do {
     arrivalMinutes \<leftarrow> z_nullish nonnegative_int (f ''arrivalMinutes'');
     departureMinutes \<leftarrow> z_nullish nonnegative_int (f ''departureMinutes'');
     distanceFromStart \<leftarrow> z_optional nonnegative_int (f ''distanceFromStart'');
     platformNumber \<leftarrow> z_nullish (z_trimmed 0) (f ''platformNumber'');
     Some \<lparr>ur_arrivalMinutes = arrivalMinutes, ur_departureMinutes = departureMinutes,
       ur_distanceFromStart = distanceFromStart, ur_platformNumber = platformNumber\<rparr> })"

definition updateRouteStatusSchema :: "bool schema" where
  "updateRouteStatusSchema = z_object (\<lambda>f. z_boolean (f ''isActive''))"

definition createScheduleSchema :: "api_env \<Rightarrow> time \<Rightarrow> CreateScheduleRequestDto schema" where
  "createScheduleSchema env now = z_object (\<lambda>f. do {
     trainId \<leftarrow> z_uuid (ap_formats env) (f ''trainId'');
     departureDate \<leftarrow> z_check (\<lambda>date. now < date) (\<lambda>v. Option.bind v (ap_new_Date env)) (f ''departureDate'');
     Some \<lparr>cd_trainId = trainId, cd_departureDate = departureDate\<rparr> })"

definition updateScheduleStatusSchema :: "ScheduleStatus schema" where
  "updateScheduleStatusSchema = z_object (\<lambda>f. z_status (f ''status''))"

definition adminPassword :: "string \<Rightarrow> bool" where
  "adminPassword p \<longleftrightarrow> 8 \<le> length p \<and> list_ex (char_in 65 90) p \<and> list_ex (char_in 48 57) p \<and>
     list_ex (\<lambda>c. \<not> char_in 97 122 c \<and> \<not> char_in 65 90 c \<and> \<not> char_in 48 57 c) p"

definition adminLoginSchema :: "formats \<Rightarrow> LoginRequestDto schema" where
  "adminLoginSchema fm = z_object (\<lambda>f. do {
     email \<leftarrow> z_email fm (f ''email'');
     password \<leftarrow> z_check adminPassword z_string (f ''password'');
     Some \<lparr>lg_email = email, lg_password = password\<rparr> })"

section \<open>Query strings\<close>

type_synonym query = "string \<rightharpoonup> string"

text \<open>\<open>z.preprocess((val) => (val ? parseInt(val) : 1), \<dots>).default(1)\<close> and the flag of the same kind;
  \<open>z.coerce.number()\<close> with its default.\<close>

definition q_parseInt :: "(int \<Rightarrow> bool) \<Rightarrow> int \<Rightarrow> string option \<Rightarrow> int option" where
  "q_parseInt p d v =
     (case v of
        None \<Rightarrow> Some d
      | Some x \<Rightarrow>
          (case (if x = [] then Some d else parseInt x) of
             None \<Rightarrow> None
           | Some n \<Rightarrow> if \<bar>n\<bar> \<le> MAX_SAFE_INTEGER \<and> p n then Some n else None))"

definition q_flag :: "string option \<Rightarrow> bool option option" where
  "q_flag v =
     (case v of
        None \<Rightarrow> Some None
      | Some x \<Rightarrow> if x = ''true'' then Some (Some True) else if x = ''false'' then Some (Some False) else None)"

definition q_coerce :: "int \<Rightarrow> string option \<Rightarrow> int option" where
  "q_coerce d v =
     (case v of
        None \<Rightarrow> Some d
      | Some x \<Rightarrow>
          (case Option.bind (js_Number x) int_of of None \<Rightarrow> None | Some n \<Rightarrow> if 0 < n then Some n else None))"

definition q_optional :: "'a schema \<Rightarrow> string option \<Rightarrow> 'a option option" where
  "q_optional s v = z_optional s (map_option JStr v)"

definition listStationsQuerySchema :: "query \<Rightarrow> ListStationsQueryDto option" where
  "listStationsQuerySchema q = do {
     isActive \<leftarrow> q_flag (q ''isActive'');
     page \<leftarrow> q_parseInt (\<lambda>n. 1 \<le> n) 1 (q ''page'');
     limit \<leftarrow> q_parseInt (\<lambda>n. 1 \<le> n \<and> n \<le> 100) 10 (q ''limit'');
     Some \<lparr>ls_code = q ''code'', ls_zone = q ''zone'', ls_state = q ''state'', ls_isActive = isActive,
       ls_page = page, ls_limit = limit\<rparr> }"

definition listTrainsQuerySchema :: "query \<Rightarrow> ListTrainsQueryDto option" where
  "listTrainsQuerySchema q = do {
     trainNumber \<leftarrow> q_optional train_number (q ''trainNumber'');
     category \<leftarrow> q_optional z_category (q ''category'');
     isActive \<leftarrow> q_flag (q ''isActive'');
     page \<leftarrow> q_parseInt (\<lambda>n. 1 \<le> n) 1 (q ''page'');
     limit \<leftarrow> q_parseInt (\<lambda>n. 1 \<le> n \<and> n \<le> 100) 10 (q ''limit'');
     Some \<lparr>lt_trainNumber = trainNumber, lt_category = category, lt_isActive = isActive, lt_page = page, lt_limit = limit\<rparr> }"

definition listRoutesQuerySchema :: "query \<Rightarrow> (int \<times> int) option" where
  "listRoutesQuerySchema q = do {
     page \<leftarrow> q_coerce 1 (q ''page'');
     limit \<leftarrow> q_coerce 10 (q ''limit'');
     Some (page, limit) }"

definition listSchedulesQuerySchema :: "formats \<Rightarrow> query \<Rightarrow> ListSchedulesQueryDto option" where
  "listSchedulesQuerySchema fm q = do {
     page \<leftarrow> q_coerce 1 (q ''page'');
     limit \<leftarrow> q_coerce 10 (q ''limit'');
     trainId \<leftarrow> q_optional (z_uuid fm) (q ''trainId'');
     status \<leftarrow> q_optional z_status (q ''status'');
     Some \<lparr>lh_page = page, lh_limit = limit, lh_trainId = trainId, lh_status = status\<rparr> }"

section \<open>Middleware\<close>

record admin_http =
  aq_method :: string
  aq_path :: "string list"
  aq_headers :: headers
  aq_query :: query
  aq_body :: "json option"

definition invalid_input :: exn where "invalid_input = ApiError 400 ''INVALID_INPUT''"

definition validateParams :: "('a \<Rightarrow> 'b option) \<Rightarrow> 'a \<Rightarrow> exn + 'b" where
  "validateParams schema params = (case schema params of None \<Rightarrow> Inl invalid_input | Some x \<Rightarrow> Inr x)"

definition validateQuery :: "('a \<Rightarrow> 'b option) \<Rightarrow> 'a \<Rightarrow> exn + 'b" where
  "validateQuery schema q = (case schema q of None \<Rightarrow> Inl invalid_input | Some x \<Rightarrow> Inr x)"

definition validateBody :: "'b schema \<Rightarrow> json option \<Rightarrow> exn + 'b" where
  "validateBody schema = validateSchema (\<lambda>j. schema (Some j))"

definition readAdminFromHeaders :: "headers \<Rightarrow> ident option" where
  "readAdminFromHeaders h = (case h ''x-admin-id'' of Some (v # _) \<Rightarrow> if v = [] then None else Some v | _ \<Rightarrow> None)"

definition requireAdmin :: "headers \<Rightarrow> exn + ident" where
  "requireAdmin h = (case readAdminFromHeaders h of None \<Rightarrow> Inl (ApiError 401 ''UNAUTHORIZED'') | Some i \<Rightarrow> Inr i)"

section \<open>Login\<close>

record AdminAuthResponseDto =
  aa_id :: ident
  aa_email :: string
  aa_accessToken :: string

definition admin_login :: "api_env \<Rightarrow> time \<Rightarrow> LoginRequestDto \<Rightarrow> adb \<Rightarrow> exn + AdminAuthResponseDto" where
  "admin_login env now data db =
     (case admin_findByEmail (lg_email data) db of
        None \<Rightarrow> Inl (ApiError 401 ''UNAUTHORIZED'')
      | Some admin \<Rightarrow>
          if \<not> ae_compare (ap_account env) (lg_password data) (adm_passwordHash admin)
          then Inl (ApiError 401 ''INVALID_CREDENTIALS'')
          else Inr \<lparr>aa_id = adm_id admin, aa_email = adm_email admin,
            aa_accessToken = ae_sign (ap_account env)
              \<lparr>jc_sub = adm_id admin, jc_email = None, jc_sessionId = None, jc_type = ''admin''\<rparr>
              (now div 1000) (now div 1000 + ap_JWT_EXPIRATION_TIME env)\<rparr>)"

section \<open>Controllers\<close>

datatype admin_body =
    StationBody Station
  | StationsBody "Station list \<times> page_metadata"
  | TrainBody Train
  | TrainDetailsBody "Train \<times> OperatingDay list"
  | TrainsBody "Train list \<times> page_metadata"
  | OperatingDaysBody ident "int list"
  | CoachBody Coach
  | CoachesBody "Coach list"
  | SeatBody Seat
  | SeatsBody "Seat list"
  | CountBody int
  | RouteBody Route
  | RouteDetailsBody route_details
  | RoutesBody "route_details list \<times> page_metadata"
  | StopBody stop_details
  | NullBody
  | ScheduleBody Schedule
  | ScheduleDetailsBody schedule_details
  | SchedulesBody "(Schedule \<times> Train option) list \<times> page_metadata"
  | AdminBody ident string
  | NoBody

type_synonym admin_answer = "cookie_op list \<times> (exn + nat \<times> admin_body)"
type_synonym admin_handler = "adb \<Rightarrow> admin_answer \<times> adb"

definition deny :: "exn \<Rightarrow> admin_handler" where
  "deny e db = (([], Inl e), db)"

text \<open>The response to a service call, with its status and body.\<close>

definition reply :: "nat \<Rightarrow> ('a \<Rightarrow> admin_body) \<Rightarrow> (adb, 'a) proc \<Rightarrow> admin_handler" where
  "reply code f m db = (case m db of (Inl e, db') \<Rightarrow> (([], Inl e), db') | (Inr x, db') \<Rightarrow> (([], Inr (code, f x)), db'))"

definition reads :: "(adb \<Rightarrow> exn + 'a) \<Rightarrow> (adb, 'a) proc" where
  "reads f db = (f db, db)"

definition AdminAuth_login :: "api_env \<Rightarrow> time \<Rightarrow> LoginRequestDto \<Rightarrow> admin_handler" where
  "AdminAuth_login env now payload db =
     (case admin_login env now payload db of
        Inl e \<Rightarrow> (([], Inl e), db)
      | Inr resp \<Rightarrow>
          (([SetCookie ''admin_access_token'' (aa_accessToken resp) (7 * 24 * 60 * 60 * 1000)],
            Inr (200, AdminBody (aa_id resp) (aa_email resp))), db))"

definition AdminAuth_logout :: admin_handler where
  "AdminAuth_logout db = (([ClearCookie ''admin_access_token''], Inr (200, NoBody)), db)"

definition Station_create :: "api_env \<Rightarrow> time \<Rightarrow> ident \<Rightarrow> CreateStationRequestDto \<Rightarrow> admin_handler" where
  "Station_create env now i dto = reply 201 StationBody (createStation (ap_admin env) now i dto)"

definition Station_get :: "ident \<Rightarrow> admin_handler" where
  "Station_get stationId = reply 200 StationBody (reads (service_getStationById stationId))"

definition Station_getAll :: "ListStationsQueryDto \<Rightarrow> admin_handler" where
  "Station_getAll q = reply 200 StationsBody (reads (\<lambda>db. Inr (listStations q db)))"

definition Station_update :: "api_env \<Rightarrow> time \<Rightarrow> ident \<Rightarrow> UpdateStationRequestDto \<Rightarrow> admin_handler" where
  "Station_update env now stationId dto = reply 200 StationBody (updateStation (ap_admin env) now stationId dto)"

definition Station_deactivate :: "api_env \<Rightarrow> time \<Rightarrow> ident \<Rightarrow> admin_handler" where
  "Station_deactivate env now stationId = reply 200 StationBody (deactivateStation (ap_admin env) now stationId)"

definition Train_create :: "api_env \<Rightarrow> time \<Rightarrow> ident \<Rightarrow> CreateTrainRequestDto \<Rightarrow> admin_handler" where
  "Train_create env now i dto = reply 201 TrainBody (createTrain (ap_admin env) now i dto)"

definition Train_get :: "ident \<Rightarrow> admin_handler" where
  "Train_get trainId = reply 200 TrainDetailsBody (reads (service_getTrainById trainId))"

definition Train_getAll :: "ListTrainsQueryDto \<Rightarrow> admin_handler" where
  "Train_getAll q = reply 200 TrainsBody (reads (\<lambda>db. Inr (listTrains q db)))"

definition Train_update :: "api_env \<Rightarrow> time \<Rightarrow> ident \<Rightarrow> UpdateTrainRequestDto \<Rightarrow> admin_handler" where
  "Train_update env now trainId dto = reply 200 TrainBody (updateTrain (ap_admin env) now trainId dto)"

definition Train_deactivate :: "api_env \<Rightarrow> time \<Rightarrow> ident \<Rightarrow> admin_handler" where
  "Train_deactivate env now trainId = reply 200 TrainBody (deactivateTrain (ap_admin env) now trainId)"

definition Train_updateOperatingDays :: "time \<Rightarrow> ident \<Rightarrow> int list \<Rightarrow> admin_handler" where
  "Train_updateOperatingDays now trainId days = reply 200 (OperatingDaysBody trainId) (updateTrainOperatingDays now trainId days)"

definition Coach_create :: "api_env \<Rightarrow> time \<Rightarrow> ident \<Rightarrow> ident \<Rightarrow> CreateCoachRequestDto \<Rightarrow> admin_handler" where
  "Coach_create env now i trainId dto = reply 201 CoachBody (addCoach (ap_admin env) now i trainId dto)"

definition Coach_get :: "ident \<Rightarrow> admin_handler" where
  "Coach_get coachId = reply 200 CoachBody (reads (service_getCoachById coachId))"

definition Coach_getAll :: "ident \<Rightarrow> admin_handler" where
  "Coach_getAll trainId = reply 200 CoachesBody (reads (listCoaches trainId))"

definition Coach_update :: "time \<Rightarrow> ident \<Rightarrow> UpdateCoachRequestDto \<Rightarrow> admin_handler" where
  "Coach_update now coachId dto = reply 200 CoachBody (updateCoach now coachId dto)"

definition Coach_delete :: "time \<Rightarrow> ident \<Rightarrow> admin_handler" where
  "Coach_delete now coachId = reply 200 CoachBody (deleteCoach now coachId)"

definition Seat_bulkCreate :: "api_env \<Rightarrow> time \<Rightarrow> (int \<Rightarrow> ident) \<Rightarrow> ident \<Rightarrow> admin_handler" where
  "Seat_bulkCreate env now ids coachId = reply 201 CountBody (bulkCreateSeats (ap_admin env) now ids coachId)"

definition Seat_getAll :: "ident \<Rightarrow> admin_handler" where
  "Seat_getAll coachId = reply 200 SeatsBody (reads (listSeats coachId))"

definition Seat_get :: "ident \<Rightarrow> ident \<Rightarrow> admin_handler" where
  "Seat_get coachId seatId = reply 200 SeatBody (reads (service_getSeatById coachId seatId))"

definition Seat_reset :: "ident \<Rightarrow> admin_handler" where
  "Seat_reset coachId = reply 200 (\<lambda>n. CountBody (int n)) (resetSeats coachId)"

definition Route_create :: "api_env \<Rightarrow> time \<Rightarrow> ident \<Rightarrow> ident \<Rightarrow> admin_handler" where
  "Route_create env now i trainId = reply 201 RouteBody (createRoute (ap_admin env) now i trainId)"

definition Route_get :: "ident \<Rightarrow> admin_handler" where
  "Route_get routeId = reply 200 RouteDetailsBody (reads (getRoute routeId))"

definition Route_getAll :: "int \<times> int \<Rightarrow> admin_handler" where
  "Route_getAll q = reply 200 RoutesBody (reads (\<lambda>db. Inr (listRoutes (fst q) (snd q) db)))"

definition Route_addStation :: "api_env \<Rightarrow> time \<Rightarrow> ident \<Rightarrow> ident \<Rightarrow> AddStationToRouteRequestDto \<Rightarrow> admin_handler" where
  "Route_addStation env now i routeId dto = reply 201 StopBody (addStationToRoute (ap_admin env) now i routeId dto)"

definition Route_updateStation :: "api_env \<Rightarrow> time \<Rightarrow> ident \<Rightarrow> UpdateRouteStationRequestDto \<Rightarrow> admin_handler" where
  "Route_updateStation env now routeStationId dto = reply 200 StopBody (updateRouteStation (ap_admin env) now routeStationId dto)"

definition Route_removeStation :: "api_env \<Rightarrow> time \<Rightarrow> ident \<Rightarrow> admin_handler" where
  "Route_removeStation env now routeStationId = reply 200 (\<lambda>_. NullBody) (removeRouteStation (ap_admin env) now routeStationId)"

definition Route_delete :: "api_env \<Rightarrow> time \<Rightarrow> ident \<Rightarrow> admin_handler" where
  "Route_delete env now routeId = reply 200 RouteBody (deleteRoute (ap_admin env) now routeId)"

definition Route_updateStatus :: "api_env \<Rightarrow> time \<Rightarrow> ident \<Rightarrow> bool \<Rightarrow> admin_handler" where
  "Route_updateStatus env now routeId isActive = reply 200 RouteBody (updateRouteStatus (ap_admin env) now routeId isActive)"

definition Schedule_create :: "api_env \<Rightarrow> time \<Rightarrow> ident \<Rightarrow> CreateScheduleRequestDto \<Rightarrow> admin_handler" where
  "Schedule_create env now i dto = reply 201 ScheduleBody (AdminSchedules.createSchedule (ap_admin env) now i dto)"

definition Schedule_get :: "ident \<Rightarrow> admin_handler" where
  "Schedule_get scheduleId = reply 200 ScheduleDetailsBody (reads (getScheduleById scheduleId))"

definition Schedule_updateStatus :: "api_env \<Rightarrow> time \<Rightarrow> ident \<Rightarrow> ScheduleStatus \<Rightarrow> admin_handler" where
  "Schedule_updateStatus env now scheduleId status =
     reply 200 ScheduleBody (AdminSchedules.updateScheduleStatus (ap_admin env) now scheduleId status)"

definition Schedule_getAll :: "ListSchedulesQueryDto \<Rightarrow> admin_handler" where
  "Schedule_getAll q = reply 200 SchedulesBody (reads (\<lambda>db. Inr (listSchedules q db)))"

section \<open>Routers\<close>

text \<open>Segments of a route's path are compared without regard to case.\<close>

definition seg :: "string \<Rightarrow> string \<Rightarrow> bool" where
  "seg x y \<longleftrightarrow> lower x = y"

definition on_id :: "api_env \<Rightarrow> string \<Rightarrow> (ident \<Rightarrow> admin_handler) \<Rightarrow> admin_handler" where
  "on_id env param h =
     (case validateParams (\<lambda>x. z_uuid (ap_formats env) (Some (JStr x))) param of Inl e \<Rightarrow> deny e | Inr i \<Rightarrow> h i)"

definition on_body :: "'b schema \<Rightarrow> json option \<Rightarrow> ('b \<Rightarrow> admin_handler) \<Rightarrow> admin_handler" where
  "on_body schema body h = (case validateBody schema body of Inl e \<Rightarrow> deny e | Inr x \<Rightarrow> h x)"

definition on_query :: "(query \<Rightarrow> 'b option) \<Rightarrow> query \<Rightarrow> ('b \<Rightarrow> admin_handler) \<Rightarrow> admin_handler" where
  "on_query schema q h = (case validateQuery schema q of Inl e \<Rightarrow> deny e | Inr x \<Rightarrow> h x)"

text \<open>What a router finds below its prefix; \<open>None\<close> when no route matches. \<open>i\<close> and \<open>ids\<close> are the ids
  the database makes.\<close>

definition station_router :: "api_env \<Rightarrow> time \<Rightarrow> ident \<Rightarrow> string list \<Rightarrow> admin_http \<Rightarrow> admin_handler option" where
  "station_router env now i path r =
     (case path of
        [] \<Rightarrow>
          if aq_method r = ''POST'' then Some (on_body createStationSchema (aq_body r) (Station_create env now i))
          else if aq_method r = ''GET'' then Some (on_query listStationsQuerySchema (aq_query r) Station_getAll)
          else None
      | [stationId] \<Rightarrow>
          if aq_method r = ''GET'' then Some (on_id env stationId Station_get)
          else if aq_method r = ''PATCH''
          then Some (on_id env stationId (\<lambda>sid. on_body updateStationSchema (aq_body r) (Station_update env now sid)))
          else None
      | [stationId, x] \<Rightarrow>
          if aq_method r = ''PATCH'' \<and> seg x ''deactivate'' then Some (on_id env stationId (Station_deactivate env now))
          else None
      | _ \<Rightarrow> None)"

definition train_router :: "api_env \<Rightarrow> time \<Rightarrow> ident \<Rightarrow> string list \<Rightarrow> admin_http \<Rightarrow> admin_handler option" where
  "train_router env now i path r =
     (case path of
        [] \<Rightarrow>
          if aq_method r = ''POST'' then Some (on_body createTrainSchema (aq_body r) (Train_create env now i))
          else if aq_method r = ''GET'' then Some (on_query listTrainsQuerySchema (aq_query r) Train_getAll)
          else None
      | [trainId] \<Rightarrow>
          if aq_method r = ''GET'' then Some (on_id env trainId Train_get)
          else if aq_method r = ''PATCH''
          then Some (on_id env trainId (\<lambda>tid. on_body updateTrainSchema (aq_body r) (Train_update env now tid)))
          else None
      | [trainId, x] \<Rightarrow>
          if aq_method r = ''PATCH'' \<and> seg x ''deactivate'' then Some (on_id env trainId (Train_deactivate env now))
          else if aq_method r = ''POST'' \<and> seg x ''routes'' then Some (on_id env trainId (Route_create env now i))
          else if aq_method r = ''GET'' \<and> seg x ''coaches'' then Some (on_id env trainId Coach_getAll)
          else if aq_method r = ''POST'' \<and> seg x ''coaches''
          then Some (on_id env trainId (\<lambda>tid. on_body createCoachSchema (aq_body r) (Coach_create env now i tid)))
          else if aq_method r = ''POST'' \<and> seg x ''operating-days''
          then Some (on_id env trainId (\<lambda>tid. on_body updateOperatingDaysSchema (aq_body r) (Train_updateOperatingDays now tid)))
          else None
      | _ \<Rightarrow> None)"

definition coach_router :: "api_env \<Rightarrow> time \<Rightarrow> (int \<Rightarrow> ident) \<Rightarrow> string list \<Rightarrow> admin_http \<Rightarrow> admin_handler option" where
  "coach_router env now ids path r =
     (case path of
        [coachId] \<Rightarrow>
          if aq_method r = ''GET'' then Some (on_id env coachId Coach_get)
          else if aq_method r = ''PATCH''
          then Some (on_id env coachId (\<lambda>c. on_body updateCoachSchema (aq_body r) (Coach_update now c)))
          else if aq_method r = ''DELETE'' then Some (on_id env coachId (Coach_delete now))
          else None
      | [coachId, x] \<Rightarrow>
          if \<not> seg x ''seats'' then None
          else if aq_method r = ''POST'' then Some (on_id env coachId (Seat_bulkCreate env now ids))
          else if aq_method r = ''GET'' then Some (on_id env coachId Seat_getAll)
          else if aq_method r = ''DELETE'' then Some (on_id env coachId Seat_reset)
          else None
      | [coachId, x, seatId] \<Rightarrow>
          if seg x ''seats'' \<and> aq_method r = ''GET''
          then Some (on_id env coachId (\<lambda>c. on_id env seatId (Seat_get c)))
          else None
      | _ \<Rightarrow> None)"

definition route_router :: "api_env \<Rightarrow> time \<Rightarrow> ident \<Rightarrow> string list \<Rightarrow> admin_http \<Rightarrow> admin_handler option" where
  "route_router env now i path r =
     (case path of
        [] \<Rightarrow> if aq_method r = ''GET'' then Some (on_query listRoutesQuerySchema (aq_query r) Route_getAll) else None
      | [routeId] \<Rightarrow>
          if aq_method r = ''GET'' then Some (on_id env routeId Route_get)
          else if aq_method r = ''DELETE'' then Some (on_id env routeId (Route_delete env now))
          else None
      | [routeId, x] \<Rightarrow>
          if aq_method r = ''POST'' \<and> seg x ''stations''
          then Some (on_id env routeId (\<lambda>rid. on_body (addStationToRouteSchema (ap_formats env)) (aq_body r) (Route_addStation env now i rid)))
          else if aq_method r = ''PATCH'' \<and> seg x ''status''
          then Some (on_id env routeId (\<lambda>rid. on_body updateRouteStatusSchema (aq_body r) (Route_updateStatus env now rid)))
          else None
      | _ \<Rightarrow> None)"

definition route_station_router :: "api_env \<Rightarrow> time \<Rightarrow> string list \<Rightarrow> admin_http \<Rightarrow> admin_handler option" where
  "route_station_router env now path r =
     (case path of
        [routeStationId] \<Rightarrow>
          if aq_method r = ''PATCH''
          then Some (on_id env routeStationId (\<lambda>rid. on_body updateRouteStationSchema (aq_body r) (Route_updateStation env now rid)))
          else if aq_method r = ''DELETE'' then Some (on_id env routeStationId (Route_removeStation env now))
          else None
      | _ \<Rightarrow> None)"

definition schedule_router :: "api_env \<Rightarrow> time \<Rightarrow> ident \<Rightarrow> string list \<Rightarrow> admin_http \<Rightarrow> admin_handler option" where
  "schedule_router env now i path r =
     (case path of
        [] \<Rightarrow>
          if aq_method r = ''POST'' then Some (on_body (createScheduleSchema env now) (aq_body r) (Schedule_create env now i))
          else if aq_method r = ''GET''
          then Some (on_query (listSchedulesQuerySchema (ap_formats env)) (aq_query r) Schedule_getAll)
          else None
      | [scheduleId] \<Rightarrow> if aq_method r = ''GET'' then Some (on_id env scheduleId Schedule_get) else None
      | [scheduleId, x] \<Rightarrow>
          if aq_method r = ''PATCH'' \<and> seg x ''status''
          then Some (on_id env scheduleId (\<lambda>sid. on_body updateScheduleStatusSchema (aq_body r) (Schedule_updateStatus env now sid)))
          else None
      | _ \<Rightarrow> None)"

definition NOT_FOUND :: exn where "NOT_FOUND = ApiError 404 ''NOT_FOUND''"

definition otherwise :: "admin_handler option \<Rightarrow> admin_handler" where
  "otherwise h = (case h of None \<Rightarrow> deny NOT_FOUND | Some f \<Rightarrow> f)"

text \<open>\<open>router.use(requireAdmin)\<close>: nothing below is reached without it, not even the answer that
  there is no such route.\<close>

definition admins_only :: "admin_http \<Rightarrow> admin_handler option \<Rightarrow> admin_handler" where
  "admins_only r h = (case requireAdmin (aq_headers r) of Inl e \<Rightarrow> deny e | Inr _ \<Rightarrow> otherwise h)"

definition auth_router :: "api_env \<Rightarrow> time \<Rightarrow> string list \<Rightarrow> admin_http \<Rightarrow> admin_handler option" where
  "auth_router env now path r =
     (case path of
        [x] \<Rightarrow>
          if aq_method r = ''POST'' \<and> seg x ''login''
          then Some (on_body (adminLoginSchema (ap_formats env)) (aq_body r) (AdminAuth_login env now))
          else if aq_method r = ''POST'' \<and> seg x ''logout'' then Some (admins_only r (Some AdminAuth_logout))
          else None
      | _ \<Rightarrow> None)"

definition admin_app :: "api_env \<Rightarrow> time \<Rightarrow> ident \<Rightarrow> (int \<Rightarrow> ident) \<Rightarrow> admin_http \<Rightarrow> admin_handler" where
  "admin_app env now i ids r =
     (case aq_path r of
        a # x # path \<Rightarrow>
          if \<not> seg a ''admin'' then deny NOT_FOUND
          else if seg x ''stations'' then admins_only r (station_router env now i path r)
          else if seg x ''trains'' then admins_only r (train_router env now i path r)
          else if seg x ''auth'' then otherwise (auth_router env now path r)
          else if seg x ''coaches'' then admins_only r (coach_router env now ids path r)
          else if seg x ''routes'' then admins_only r (route_router env now i path r)
          else if seg x ''route-stations'' then admins_only r (route_station_router env now path r)
          else if seg x ''schedules'' then admins_only r (schedule_router env now i path r)
          else deny NOT_FOUND
      | _ \<Rightarrow> deny NOT_FOUND)"

end
