(* ===== verification/AdminAccess.thy ===== *)
theory AdminAccess
  imports AdminApi AccountTypes GatewayProps
begin

text \<open>
  What the HTTP interface of the admin service adds to its commands: every request is a read or one
  command, the schemas and the services' own checks keep the rows of the catalogue well formed, and
  behind the gateway only the holder of an admin token reaches anything but the login.
\<close>

section \<open>Requests are commands\<close>

definition steps :: "admin_handler \<Rightarrow> bool" where
  "steps h \<longleftrightarrow> (\<forall>db a db'. h db = (a, db') \<longrightarrow> db' = db \<or> admin_step db db')"

lemma steps_deny [intro!]: "steps (deny e)"
  by (simp add: steps_def deny_def)

lemma steps_reply: "(\<And>db r db'. m db = (r, db') \<Longrightarrow> admin_step db db') \<Longrightarrow> steps (reply code f m)"
  by (fastforce simp: steps_def reply_def split: prod.splits sum.splits)

lemma steps_reads [intro!]: "steps (reply code f (reads g))"
  by (auto simp: steps_def reply_def reads_def split: sum.splits)

lemma steps_guards [intro!]:
  "(\<And>i. steps (h i)) \<Longrightarrow> steps (on_id env param h)"
  "(\<And>x. steps (k x)) \<Longrightarrow> steps (on_body schema body k)"
  "(\<And>y. steps (l y)) \<Longrightarrow> steps (on_query sc q l)"
  by (auto simp: on_id_def on_body_def on_query_def split: sum.split)

lemma steps_writers [intro!]:
  "steps (Station_create env now i cs)" "steps (Station_update env now i us)" "steps (Station_deactivate env now i)"
  "steps (Train_create env now i ct)" "steps (Train_update env now i ut)" "steps (Train_deactivate env now i)"
  "steps (Train_updateOperatingDays now i days)" "steps (Coach_create env now i tid cc)" "steps (Coach_update now i uc)"
  "steps (Coach_delete now i)" "steps (Seat_bulkCreate env now ids i)" "steps (Seat_reset i)"
  "steps (Route_create env now i tid)" "steps (Route_addStation env now i rid sd)" "steps (Route_updateStation env now i up)"
  "steps (Route_removeStation env now i)" "steps (Route_delete env now i)" "steps (Route_updateStatus env now i active)"
  "steps (Schedule_create env now i cd)" "steps (Schedule_updateStatus env now i status)"
  unfolding Station_create_def Station_update_def Station_deactivate_def Train_create_def Train_update_def
    Train_deactivate_def Train_updateOperatingDays_def Coach_create_def Coach_update_def Coach_delete_def
    Seat_bulkCreate_def Seat_reset_def Route_create_def Route_addStation_def Route_updateStation_def
    Route_removeStation_def Route_delete_def Route_updateStatus_def Schedule_create_def Schedule_updateStatus_def
  by (rule steps_reply, erule admin_step.intros)+

lemma steps_readers [intro!]:
  "steps (Station_get i)" "steps (Station_getAll sq)" "steps (Train_get i)" "steps (Train_getAll tq)" "steps (Coach_get i)"
  "steps (Coach_getAll i)" "steps (Seat_getAll i)" "steps (Seat_get i j)" "steps (Route_get i)" "steps (Route_getAll rq)"
  "steps (Schedule_get i)" "steps (Schedule_getAll hq)"
  unfolding Station_get_def Station_getAll_def Train_get_def Train_getAll_def Coach_get_def Coach_getAll_def
    Seat_getAll_def Seat_get_def Route_get_def Route_getAll_def Schedule_get_def Schedule_getAll_def
  by (rule steps_reads)+

lemma steps_auth [intro!]: "steps (AdminAuth_login env now payload)" "steps AdminAuth_logout"
  by (auto simp: steps_def AdminAuth_login_def AdminAuth_logout_def split: sum.splits)

definition steps_opt :: "admin_handler option \<Rightarrow> bool" where
  "steps_opt h \<longleftrightarrow> (case h of None \<Rightarrow> True | Some f \<Rightarrow> steps f)"

lemma steps_opt_simps [simp]: "steps_opt None" "steps_opt (Some f) = steps f"
  by (simp_all add: steps_opt_def)

lemma steps_opt_if [intro!]: "(c \<Longrightarrow> steps_opt a) \<Longrightarrow> (\<not> c \<Longrightarrow> steps_opt b) \<Longrightarrow> steps_opt (if c then a else b)"
  by simp

lemma steps_otherwise [intro!]: "steps_opt h \<Longrightarrow> steps (otherwise h)" "steps_opt h \<Longrightarrow> steps (admins_only r h)"
  by (auto simp: steps_opt_def otherwise_def admins_only_def split: option.splits sum.splits)

lemma steps_routers [intro!]:
  "steps_opt (station_router env now i path r)" "steps_opt (train_router env now i path r)"
  "steps_opt (coach_router env now ids path r)" "steps_opt (route_router env now i path r)"
  "steps_opt (route_station_router env now path r)" "steps_opt (schedule_router env now i path r)"
  "steps_opt (auth_router env now path r)"
  unfolding station_router_def train_router_def coach_router_def route_router_def route_station_router_def
    schedule_router_def auth_router_def
  by (auto split: list.split)

lemma steps_app: "steps (admin_app env now i ids r)"
  unfolding admin_app_def by (auto split: list.split)

inductive admin_request :: "adb \<Rightarrow> adb \<Rightarrow> bool" where
  "admin_app env now i ids r db = (a, db') \<Longrightarrow> admin_request db db'"

lemma admin_request_step: "admin_request db db' \<Longrightarrow> db' = db \<or> admin_step db db'"
  by (metis admin_request.cases steps_app steps_def)

lemma admin_requests_run: "admin_request\<^sup>*\<^sup>* db db' \<Longrightarrow> admin_step\<^sup>*\<^sup>* db db'"
  by (induction rule: rtranclp_induct) (auto dest: admin_request_step intro: rtranclp.rtrancl_into_rtrancl)

section \<open>Well-formed rows\<close>

definition station_row :: "Station \<Rightarrow> bool" where
  "station_row s \<longleftrightarrow> js_trim (stn_name s) = stn_name s \<and> 2 \<le> length (stn_name s) \<and>
     upper (stn_code s) = stn_code s \<and> 2 \<le> length (stn_code s)"

definition train_row :: "Train \<Rightarrow> bool" where
  "train_row t \<longleftrightarrow> length (trn_trainNumber t) = 5 \<and> list_all (char_in 48 57) (trn_trainNumber t) \<and> 2 \<le> length (trn_trainName t)"

definition coach_row :: "Coach \<Rightarrow> bool" where
  "coach_row c \<longleftrightarrow> capacity_ok (coa_coachType c) (coa_totalSeats c) \<and> coa_coachNumber c \<noteq> [] \<and> upper (coa_coachNumber c) = coa_coachNumber c"

definition day_row :: "OperatingDay \<Rightarrow> bool" where
  "day_row d \<longleftrightarrow> 0 \<le> opd_dayOfWeek d \<and> opd_dayOfWeek d \<le> 6"

definition well_typed :: "adb \<Rightarrow> bool" where
  "well_typed db \<longleftrightarrow> (\<forall>s \<in> set (ad_stations db). station_row s) \<and> (\<forall>t \<in> set (ad_trains db). train_row t) \<and>
     (\<forall>c \<in> set (ad_coaches db). coach_row c) \<and> (\<forall>d \<in> set (ad_operatingDays db). day_row d) \<and>
     (\<forall>s \<in> set (ad_schedules db). sch_departureDate s mod MS_PER_DAY = 0)"

lemma well_typed_cong [simp]:
  "well_typed (db\<lparr>ad_routes := a\<rparr>) = well_typed db" "well_typed (db\<lparr>ad_routeStations := b\<rparr>) = well_typed db"
  "well_typed (db\<lparr>ad_seats := c\<rparr>) = well_typed db" "well_typed (db\<lparr>ad_outbox := d\<rparr>) = well_typed db"
  by (simp_all add: well_typed_def)

lemma emits_typed: "emits db evs db' \<Longrightarrow> well_typed db' = well_typed db"
  unfolding emits_def by (elim exE conjE) simp

lemma typed_updates:
  "(\<And>s. station_row s \<Longrightarrow> station_row (f s)) \<Longrightarrow> well_typed db \<Longrightarrow> well_typed (db\<lparr>ad_stations := update_id stn_id i f (ad_stations db)\<rparr>)"
  "(\<And>t. train_row t \<Longrightarrow> train_row (g t)) \<Longrightarrow> well_typed db \<Longrightarrow> well_typed (db\<lparr>ad_trains := update_id trn_id i g (ad_trains db)\<rparr>)"
  "(\<And>c. c \<in> set (ad_coaches db) \<Longrightarrow> coa_id c = i \<Longrightarrow> coach_row c \<Longrightarrow> coach_row (h c)) \<Longrightarrow> well_typed db \<Longrightarrow>
    well_typed (db\<lparr>ad_coaches := update_id coa_id i h (ad_coaches db)\<rparr>)"
  "(\<And>s. sch_departureDate (k s) = sch_departureDate s) \<Longrightarrow> well_typed db \<Longrightarrow>
    well_typed (db\<lparr>ad_schedules := update_id sch_id i k (ad_schedules db)\<rparr>)"
  by (auto simp: well_typed_def elim!: update_id_cases)

text \<open>What the schemas promise of a request.\<close>

definition station_dto :: "CreateStationRequestDto \<Rightarrow> bool" where
  "station_dto d \<longleftrightarrow> js_trim (cs_name d) = cs_name d \<and> 2 \<le> length (cs_name d) \<and> upper (cs_code d) = cs_code d \<and> 2 \<le> length (cs_code d)"

definition station_update_dto :: "UpdateStationRequestDto \<Rightarrow> bool" where
  "station_update_dto d \<longleftrightarrow> (\<forall>n. us_name d = Some n \<longrightarrow> js_trim n = n \<and> 2 \<le> length n) \<and>
     (\<forall>c. us_code d = Some c \<longrightarrow> upper c = c \<and> 2 \<le> length c)"

definition train_dto :: "CreateTrainRequestDto \<Rightarrow> bool" where
  "train_dto d \<longleftrightarrow> length (ct_trainNumber d) = 5 \<and> list_all (char_in 48 57) (ct_trainNumber d) \<and> 2 \<le> length (ct_trainName d)"

definition train_update_dto :: "UpdateTrainRequestDto \<Rightarrow> bool" where
  "train_update_dto d \<longleftrightarrow> (\<forall>n. ut_trainNumber d = Some n \<longrightarrow> length n = 5 \<and> list_all (char_in 48 57) n) \<and>
     (\<forall>n. ut_trainName d = Some n \<longrightarrow> 2 \<le> length n)"

definition coach_dto :: "CreateCoachRequestDto \<Rightarrow> bool" where
  "coach_dto d \<longleftrightarrow> capacity_ok (cc_coachType d) (cc_totalSeats d) \<and> cc_coachNumber d \<noteq> [] \<and> upper (cc_coachNumber d) = cc_coachNumber d"

definition coach_update_dto :: "UpdateCoachRequestDto \<Rightarrow> bool" where
  "coach_update_dto d \<longleftrightarrow> (\<forall>n. uc_coachNumber d = Some n \<longrightarrow> n \<noteq> [] \<and> upper n = n)"

lemma upper_upper [simp]: "upper (upper x) = upper x"
  by (induction x) (auto simp: upper_def)

lemma length_upper [simp]: "length (upper x) = length x" "upper x = [] \<longleftrightarrow> x = []"
  by (simp_all add: upper_def)

lemma bind_Some: "Option.bind m f = Some y \<longleftrightarrow> (\<exists>x. m = Some x \<and> f x = Some y)"
  by (cases m) auto

lemmas read_schema = z_object_Some bind_Some z_trimmed_def z_code_def train_number_def

lemma createStationSchema_dto: "createStationSchema v = Some d \<Longrightarrow> station_dto d"
  by (auto simp: createStationSchema_def station_dto_def read_schema)

lemma updateStationSchema_dto: "updateStationSchema v = Some d \<Longrightarrow> station_update_dto d"
  by (auto simp: updateStationSchema_def station_update_dto_def read_schema)

lemma createTrainSchema_dto: "createTrainSchema v = Some d \<Longrightarrow> train_dto d"
  by (auto simp: createTrainSchema_def train_dto_def read_schema)

lemma updateTrainSchema_dto: "updateTrainSchema v = Some d \<Longrightarrow> train_update_dto d"
  by (auto simp: updateTrainSchema_def train_update_dto_def read_schema)

lemma createCoachSchema_dto: "createCoachSchema v = Some d \<Longrightarrow> coach_dto d"
  by (auto simp: createCoachSchema_def coach_dto_def read_schema validateCoachCapacity_def capacity_ok_def)

lemma updateCoachSchema_dto: "updateCoachSchema v = Some d \<Longrightarrow> coach_update_dto d"
  by (auto simp: updateCoachSchema_def coach_update_dto_def read_schema)

lemma updateOperatingDaysSchema_dto: "updateOperatingDaysSchema v = Some ds \<Longrightarrow> \<forall>d \<in> set ds. 0 \<le> d \<and> d \<le> 6"
  by (fastforce simp: updateOperatingDaysSchema_def read_schema dest: z_array_Some)


section \<open>Commands keep rows well formed\<close>

lemma createStation_typed: "createStation env now i cs db = (Inr s, db') \<Longrightarrow> well_typed db \<Longrightarrow> station_dto cs \<Longrightarrow> well_typed db'"
  unfolding createStation_def commit_simps station_create_def
  by (clarsimp simp: constrained_Inr_iff commit_simps)
    (erule publish_Inr, drule emits_typed, auto simp: well_typed_def station_row_def station_dto_def)

lemma updateStation_typed:
  "updateStation env now i us db = (Inr s, db') \<Longrightarrow> well_typed db \<Longrightarrow> station_update_dto us \<Longrightarrow> well_typed db'"
  unfolding updateStation_def commit_simps station_update_def
  by (clarsimp simp: update_by_id commit_simps split: option.splits)
    (erule publish_Inr, drule emits_typed, auto intro!: typed_updates(1)
      simp: station_row_def station_update_dto_def apply_station_def set_field_def split: option.splits)

lemma deactivateStation_typed: "deactivateStation env now i db = (Inr s, db') \<Longrightarrow> well_typed db \<Longrightarrow> well_typed db'"
  unfolding deactivateStation_def commit_simps station_update_def
  by (clarsimp simp: update_by_id commit_simps dest!: found_active split: option.splits if_splits)
    (erule publish_Inr, drule emits_typed, auto intro!: typed_updates(1)
      simp: station_row_def apply_station_def no_station_update_def set_field_def)

lemma createTrain_typed: "createTrain env now i ct db = (Inr t, db') \<Longrightarrow> well_typed db \<Longrightarrow> train_dto ct \<Longrightarrow> well_typed db'"
  unfolding createTrain_def commit_simps train_create_def
  by (clarsimp simp: constrained_Inr_iff commit_simps)
    (erule publish_Inr, drule emits_typed, auto simp: well_typed_def train_row_def train_dto_def)

lemma updateTrain_typed:
  "updateTrain env now i ut db = (Inr t, db') \<Longrightarrow> well_typed db \<Longrightarrow> train_update_dto ut \<Longrightarrow> well_typed db'"
  unfolding updateTrain_def commit_simps train_update_def
  by (clarsimp simp: update_by_id commit_simps split: option.splits)
    (erule publish_Inr, drule emits_typed, auto intro!: typed_updates(2)
      simp: train_row_def train_update_dto_def apply_train_def set_field_def split: option.splits)

lemma deactivateTrain_typed: "deactivateTrain env now i db = (Inr t, db') \<Longrightarrow> well_typed db \<Longrightarrow> well_typed db'"
  unfolding deactivateTrain_def commit_simps train_update_def
  by (clarsimp simp: update_by_id commit_simps dest!: found_active split: option.splits if_splits)
    (erule publish_Inr, drule emits_typed, auto intro!: typed_updates(2)
      simp: train_row_def apply_train_def no_train_update_def set_field_def)

lemma updateTrainOperatingDays_typed:
  "updateTrainOperatingDays now i days db = (Inr d, db') \<Longrightarrow> well_typed db \<Longrightarrow> \<forall>d \<in> set days. 0 \<le> d \<and> d \<le> 6 \<Longrightarrow> well_typed db'"
  unfolding updateTrainOperatingDays_def commit_simps updateOperatingDays_def
  by (clarsimp simp: constrained_Inr_iff Let_def commit_simps split: option.splits if_splits)
    (auto simp: well_typed_def day_row_def)

lemma addCoach_typed: "addCoach env now i trainId cc db = (Inr c, db') \<Longrightarrow> well_typed db \<Longrightarrow> coach_dto cc \<Longrightarrow> well_typed db'"
  unfolding addCoach_def commit_simps coach_create_def
  by (clarsimp simp: constrained_Inr_iff commit_simps split: option.splits if_splits)
    (erule publish_Inr, drule emits_typed, auto simp: well_typed_def coach_row_def coach_dto_def)

text \<open>A coach's type and capacity may each be changed alone; the service checks the outcome.\<close>

lemma updateCoach_typed:
  assumes "updateCoach now i uc db = (Inr c, db')" and "admin_ok db" and "well_typed db" and "coach_update_dto uc"
  shows "well_typed db'"
proof -
  have keys: "distinct (map coa_id (ad_coaches db))"
    using assms(2) by (simp add: admin_ok_def keys_ok_def coaches_unique_def)
  let ?changing = "uc_coachType uc \<noteq> None \<or> uc_totalSeats uc \<noteq> None"
  from assms(1) obtain r where r: "getCoachById i db = Some r"
    and free: "?changing \<longrightarrow> capacity_ok (set_field (uc_coachType uc) (coa_coachType r)) (set_field (uc_totalSeats uc) (coa_totalSeats r))"
    and db': "db' = db\<lparr>ad_coaches := update_id coa_id i (apply_coach now uc) (ad_coaches db)\<rparr>"
    unfolding updateCoach_def commit_simps coach_update_def
    by (auto simp: update_by_id commit_simps split: option.splits if_splits)
  from found_active(3) [OF r] have rin: "r \<in> set (ad_coaches db)" "coa_id r = i" by auto
  have "coach_row (apply_coach now uc x)" if x: "x \<in> set (ad_coaches db)" "coa_id x = i" "coach_row x" for x
  proof -
    from find_row_unique [OF keys x(1)] find_row_unique [OF keys rin(1)] x(2) rin(2) have "x = r" by simp
    with free x(3) assms(4) show ?thesis
      by (cases ?changing) (auto simp: apply_coach_def coach_row_def coach_update_dto_def set_field_def split: option.splits)
  qed
  then show ?thesis unfolding db' by (rule typed_updates(3) [OF _ assms(3)])
qed

lemma deleteCoach_typed: "deleteCoach now i db = (Inr c, db') \<Longrightarrow> well_typed db \<Longrightarrow> well_typed db'"
  unfolding deleteCoach_def commit_simps coach_delete_def coach_update_def
  by (clarsimp simp: update_by_id commit_simps split: option.splits if_splits)
    (auto intro!: typed_updates(3) simp: coach_row_def)

lemma bulkCreateSeats_typed: "bulkCreateSeats env now ids i db = (Inr n, db') \<Longrightarrow> well_typed db \<Longrightarrow> well_typed db'"
  unfolding bulkCreateSeats_def commit_simps seat_bulkCreate_def
  by (clarsimp simp: constrained_Inr_iff commit_simps split: option.splits if_splits)
    (erule publish_Inr, drule emits_typed, auto)

lemma resetSeats_typed: "resetSeats i db = (Inr n, db') \<Longrightarrow> well_typed db \<Longrightarrow> well_typed db'"
  by (auto simp: resetSeats_def commit_simps Let_def deleteSeatsByCoachId_def split: option.splits if_splits)

lemma createRoute_typed: "createRoute env now i trainId db = (Inr r, db') \<Longrightarrow> well_typed db \<Longrightarrow> well_typed db'"
  unfolding createRoute_def commit_simps route_create_def
  by (clarsimp simp: constrained_Inr_iff commit_simps split: option.splits if_splits)
    (erule publish_Inr, drule emits_typed, auto)

lemma addStationToRoute_typed: "addStationToRoute env now i routeId sd db = (Inr d, db') \<Longrightarrow> well_typed db \<Longrightarrow> well_typed db'"
  unfolding addStationToRoute_def commit_simps addRouteStation_def
  by (clarsimp simp: constrained_Inr_iff commit_simps split: option.splits if_splits)
    (erule publish_Inr, drule emits_typed, auto)

lemma updateRouteStation_typed: "updateRouteStation env now i up db = (Inr d, db') \<Longrightarrow> well_typed db \<Longrightarrow> well_typed db'"
  unfolding updateRouteStation_def commit_simps repo_updateRouteStation_def
  by (clarsimp simp: update_by_id commit_simps split: option.splits)
    (erule publish_Inr, drule emits_typed, auto)

lemma removeRouteStation_typed: "removeRouteStation env now i db = (Inr u, db') \<Longrightarrow> well_typed db \<Longrightarrow> well_typed db'"
  unfolding removeRouteStation_def commit_simps deleteRouteStation_def
  by (clarsimp simp: commit_simps split: option.splits if_splits)
    (erule publish_Inr, drule emits_typed, auto)

lemma deleteRoute_typed: "deleteRoute env now i db = (Inr r, db') \<Longrightarrow> well_typed db \<Longrightarrow> well_typed db'"
  unfolding deleteRoute_def commit_simps updateRoute_def
  by (clarsimp simp: update_by_id commit_simps split: option.splits)
    (erule publish_Inr, drule emits_typed, auto)

lemma updateRouteStatus_typed: "updateRouteStatus env now i active db = (Inr r, db') \<Longrightarrow> well_typed db \<Longrightarrow> well_typed db'"
  unfolding updateRouteStatus_def commit_simps updateRoute_def
  by (clarsimp simp: update_by_id commit_simps split: option.splits)
    (erule publish_Inr, drule emits_typed, auto)

lemma createSchedule_typed:
  "AdminSchedules.createSchedule env now i cd db = (Inr s, db') \<Longrightarrow> well_typed db \<Longrightarrow> well_typed db'"
  unfolding AdminSchedules.createSchedule_def commit_simps schedule_create_def
  by (clarsimp simp: constrained_Inr_iff commit_simps split: option.splits if_splits)
    (erule publish_Inr, drule emits_typed, auto simp: well_typed_def utc_midnight_def minus_mod_eq_mult_div)

lemma updateScheduleStatus_typed:
  "AdminSchedules.updateScheduleStatus env now i status db = (Inr s, db') \<Longrightarrow> well_typed db \<Longrightarrow> well_typed db'"
  unfolding AdminSchedules.updateScheduleStatus_def commit_simps schedule_update_def
  by (clarsimp simp: update_by_id commit_simps split: option.splits if_splits)
    (erule publish_Inr, drule emits_typed, auto intro!: typed_updates(4))


section \<open>Requests keep rows well formed\<close>

definition preserves :: "admin_handler \<Rightarrow> bool" where
  "preserves h \<longleftrightarrow> (\<forall>db a db'. h db = (a, db') \<longrightarrow> admin_ok db \<longrightarrow> well_typed db \<longrightarrow> well_typed db')"

lemma preserves_deny [intro!]: "preserves (deny e)"
  by (simp add: preserves_def deny_def)

lemma preserves_reply:
  "(\<And>db e db'. m db = (Inl e, db') \<Longrightarrow> db' = db) \<Longrightarrow>
    (\<And>db x db'. m db = (Inr x, db') \<Longrightarrow> admin_ok db \<Longrightarrow> well_typed db \<Longrightarrow> well_typed db') \<Longrightarrow> preserves (reply code f m)"
  unfolding preserves_def reply_def by (auto split: prod.splits sum.splits)

lemma preserves_reads [intro!]: "preserves (reply code f (reads g))"
  by (auto simp: preserves_def reply_def reads_def split: sum.splits)

lemma preserves_guards [intro!]:
  "(\<And>i. preserves (h i)) \<Longrightarrow> preserves (on_id env param h)"
  "(\<And>v x. schema v = Some x \<Longrightarrow> preserves (k x)) \<Longrightarrow> preserves (on_body schema body k)"
  "(\<And>y. preserves (l y)) \<Longrightarrow> preserves (on_query sc q l)"
  by (auto simp: on_id_def on_body_def on_query_def validateBody_def validateSchema_def split: sum.split option.splits)

lemma preserves_writers:
  "station_dto cs \<Longrightarrow> preserves (Station_create env now i cs)"
  "station_update_dto us \<Longrightarrow> preserves (Station_update env now i us)" "preserves (Station_deactivate env now i)"
  "train_dto ct \<Longrightarrow> preserves (Train_create env now i ct)" "train_update_dto ut \<Longrightarrow> preserves (Train_update env now i ut)"
  "preserves (Train_deactivate env now i)"
  "\<forall>d \<in> set days. 0 \<le> d \<and> d \<le> 6 \<Longrightarrow> preserves (Train_updateOperatingDays now i days)"
  "coach_dto cc \<Longrightarrow> preserves (Coach_create env now i tid cc)" "coach_update_dto uc \<Longrightarrow> preserves (Coach_update now i uc)"
  "preserves (Coach_delete now i)" "preserves (Seat_bulkCreate env now ids i)" "preserves (Seat_reset i)"
  "preserves (Route_create env now i tid)" "preserves (Route_addStation env now i rid sd)"
  "preserves (Route_updateStation env now i up)" "preserves (Route_removeStation env now i)"
  "preserves (Route_delete env now i)" "preserves (Route_updateStatus env now i active)"
  "preserves (Schedule_create env now i cd)" "preserves (Schedule_updateStatus env now i status)"
  unfolding Station_create_def Station_update_def Station_deactivate_def Train_create_def Train_update_def
    Train_deactivate_def Train_updateOperatingDays_def Coach_create_def Coach_update_def Coach_delete_def
    Seat_bulkCreate_def Seat_reset_def Route_create_def Route_addStation_def Route_updateStation_def
    Route_removeStation_def Route_delete_def Route_updateStatus_def Schedule_create_def Schedule_updateStatus_def
  by (rule preserves_reply, erule command_error_unchanged,
      (erule (2) createStation_typed updateStation_typed createTrain_typed updateTrain_typed updateTrainOperatingDays_typed addCoach_typed
        | erule (3) updateCoach_typed | erule (1) deactivateStation_typed deactivateTrain_typed deleteCoach_typed
          bulkCreateSeats_typed resetSeats_typed createRoute_typed addStationToRoute_typed updateRouteStation_typed
          removeRouteStation_typed deleteRoute_typed updateRouteStatus_typed createSchedule_typed updateScheduleStatus_typed))+

lemmas preserves_bodies [intro!] = preserves_writers(3,6,10-20)
  preserves_writers(1) [OF createStationSchema_dto] preserves_writers(2) [OF updateStationSchema_dto]
  preserves_writers(4) [OF createTrainSchema_dto] preserves_writers(5) [OF updateTrainSchema_dto]
  preserves_writers(7) [OF updateOperatingDaysSchema_dto] preserves_writers(8) [OF createCoachSchema_dto]
  preserves_writers(9) [OF updateCoachSchema_dto]

lemma preserves_readers [intro!]:
  "preserves (Station_get i)" "preserves (Station_getAll sq)" "preserves (Train_get i)" "preserves (Train_getAll tq)"
  "preserves (Coach_get i)" "preserves (Coach_getAll i)" "preserves (Seat_getAll i)" "preserves (Seat_get i j)"
  "preserves (Route_get i)" "preserves (Route_getAll rq)" "preserves (Schedule_get i)" "preserves (Schedule_getAll hq)"
  unfolding Station_get_def Station_getAll_def Train_get_def Train_getAll_def Coach_get_def Coach_getAll_def
    Seat_getAll_def Seat_get_def Route_get_def Route_getAll_def Schedule_get_def Schedule_getAll_def
  by (rule preserves_reads)+

lemma preserves_auth [intro!]: "preserves (AdminAuth_login env now payload)" "preserves AdminAuth_logout"
  by (auto simp: preserves_def AdminAuth_login_def AdminAuth_logout_def split: sum.splits)

definition preserves_opt :: "admin_handler option \<Rightarrow> bool" where
  "preserves_opt h \<longleftrightarrow> (case h of None \<Rightarrow> True | Some f \<Rightarrow> preserves f)"

lemma preserves_opt_simps [simp]: "preserves_opt None" "preserves_opt (Some f) = preserves f"
  by (simp_all add: preserves_opt_def)

lemma preserves_otherwise [intro!]: "preserves_opt h \<Longrightarrow> preserves (otherwise h)" "preserves_opt h \<Longrightarrow> preserves (admins_only r h)"
  by (auto simp: preserves_opt_def otherwise_def admins_only_def split: option.splits sum.splits)

lemma preserves_routers [intro!]:
  "preserves_opt (station_router env now i path r)" "preserves_opt (train_router env now i path r)"
  "preserves_opt (coach_router env now ids path r)" "preserves_opt (route_router env now i path r)"
  "preserves_opt (route_station_router env now path r)" "preserves_opt (schedule_router env now i path r)"
  "preserves_opt (auth_router env now path r)"
  unfolding station_router_def train_router_def coach_router_def route_router_def route_station_router_def
    schedule_router_def auth_router_def
  by (auto split: list.split)

lemma preserves_app: "preserves (admin_app env now i ids r)"
  unfolding admin_app_def by (auto split: list.split)

interpretation requests: stepper admin_request "\<lambda>db. admin_ok db \<and> well_typed db"
proof unfold_locales
  fix db db' assume s: "admin_request db db'" and inv: "admin_ok db \<and> well_typed db"
  from s obtain env now i ids r a where "admin_app env now i ids r db = (a, db')" by (cases rule: admin_request.cases) auto
  then have "well_typed db'" using preserves_app inv unfolding preserves_def by blast
  moreover have "admin_ok db'" using admin_request_step [OF s] admin.step_inv inv by blast
  ultimately show "admin_ok db' \<and> well_typed db'" by blast
qed

lemma empty_well_typed: "well_typed (empty_admin admins)"
  by (simp add: well_typed_def empty_admin_def)

text \<open>C9: Over any requests to the admin service, valid or not, the catalogue stays well formed: station
  names are trimmed and codes upper case, both of two characters at least; train numbers have five
  digits; a coach's seats are within the limits of its type, also when its type and its capacity
  were changed one by one; operating days are days of the week; journeys depart at midnight; and
  what holds of the database under commands holds as well.\<close>

theorem admin_requests_well_formed:
  assumes "admin_request\<^sup>*\<^sup>* (empty_admin admins) db"
  shows "keys_ok db \<and> refs_ok db \<and> journeys_ok db \<and>
    (\<forall>s \<in> set (ad_stations db). js_trim (stn_name s) = stn_name s \<and> 2 \<le> length (stn_name s) \<and>
       upper (stn_code s) = stn_code s \<and> 2 \<le> length (stn_code s)) \<and>
    (\<forall>t \<in> set (ad_trains db). length (trn_trainNumber t) = 5 \<and> list_all (char_in 48 57) (trn_trainNumber t) \<and>
       contract_category (trn_category t)) \<and>
    (\<forall>c \<in> set (ad_coaches db). fst (COACH_CAPACITY (coa_coachType c)) \<le> coa_totalSeats c \<and>
       coa_totalSeats c \<le> snd (COACH_CAPACITY (coa_coachType c)) \<and> length (seats_of (coa_id c) db) \<in> {0, nat (coa_totalSeats c)}) \<and>
    (\<forall>d \<in> set (ad_operatingDays db). 0 \<le> opd_dayOfWeek d \<and> opd_dayOfWeek d \<le> 6) \<and>
    (\<forall>s \<in> set (ad_schedules db). sch_departureDate s mod MS_PER_DAY = 0 \<and> contract_status (sch_status s))"
proof -
  have inv: "admin_ok db" "well_typed db"
    using requests.run_inv [OF assms] empty_admin_ok empty_well_typed by blast+
  have "length (seats_of (coa_id c) db) \<in> {0, nat (coa_totalSeats c)}" if "c \<in> set (ad_coaches db)" for c
  proof -
    have "coach_seats_ok db c" using inv(1) that by (simp add: admin_ok_def)
    then have "seats_of (coa_id c) db = [] \<or> map (\<lambda>s. (sea_seatNumber s, sea_seatType s)) (seats_of (coa_id c) db) = layout c"
      by (auto simp: coach_seats_ok_def)
    moreover have "length (layout c) = nat (coa_totalSeats c)" by (simp add: layout_def)
    ultimately show ?thesis by (metis insert_iff length_map list.size(3))
  qed
  with inv show ?thesis
    by (simp add: admin_ok_def well_typed_def rows_ok_def station_row_def train_row_def coach_row_def day_row_def capacity_ok_def)
qed


section \<open>Behind the gateway\<close>

text \<open>The request the admin service receives from the gateway, whose proxy strips \<open>/api/v1\<close>.\<close>

fun split_path :: "string \<Rightarrow> string \<Rightarrow> string list" where
  "split_path acc [] = [rev acc]"
| "split_path acc (c # cs) = (if c = CHR ''/'' then rev acc # split_path [] cs else split_path (c # acc) cs)"

definition forwarded_path :: "string \<Rightarrow> string list" where
  "forwarded_path p =
     (let q = (if take 7 p = ''/api/v1'' then drop 7 p else p)
      in case split_path [] q of x # xs \<Rightarrow> if x = [] then xs else x # xs | [] \<Rightarrow> [])"

definition admin_received :: "query \<Rightarrow> json option \<Rightarrow> gw_request \<Rightarrow> admin_http" where
  "admin_received qs body q = \<lparr>aq_method = gw_method q, aq_path = forwarded_path (gw_path q), aq_headers = gw_headers q,
     aq_query = qs, aq_body = body\<rparr>"

text \<open>What the admin service does for a request without an admin header.\<close>

definition refused :: "admin_handler \<Rightarrow> bool" where
  "refused h \<longleftrightarrow> (\<forall>db. snd (h db) = db \<and> (\<exists>e. snd (fst (h db)) = Inl e))"

lemma refused_deny: "refused (deny e)"
  by (simp add: refused_def deny_def)

lemma admins_only_refused: "readAdminFromHeaders (aq_headers r) = None \<Longrightarrow> refused (admins_only r h)"
  by (simp add: admins_only_def requireAdmin_def refused_deny)

lemma login_answer:
  assumes "on_body (adminLoginSchema fm) body (AdminAuth_login env now) db = ((cs, a), db')"
  shows "db' = db \<and> ((\<exists>e. a = Inl e) \<or>
    (\<exists>j d row. body = Some j \<and> adminLoginSchema fm (Some j) = Some d \<and> admin_findByEmail (lg_email d) db = Some row \<and>
       ae_compare (ap_account env) (lg_password d) (adm_passwordHash row) \<and> a = Inr (200, AdminBody (adm_id row) (adm_email row))))"
  using assms
  by (auto simp: on_body_def validateBody_def validateSchema_def deny_def AdminAuth_login_def admin_login_def
      split: sum.splits option.splits if_splits)

lemma auth_refused:
  assumes "readAdminFromHeaders (aq_headers r) = None"
  shows "refused (otherwise (auth_router env now path r)) \<or>
    otherwise (auth_router env now path r) = on_body (adminLoginSchema (ap_formats env)) (aq_body r) (AdminAuth_login env now)"
  using admins_only_refused [OF assms]
  by (auto simp: auth_router_def otherwise_def refused_deny split: list.split)

lemma app_refused:
  assumes "readAdminFromHeaders (aq_headers r) = None"
  shows "refused (admin_app env now i ids r) \<or>
    admin_app env now i ids r = on_body (adminLoginSchema (ap_formats env)) (aq_body r) (AdminAuth_login env now)"
  using admins_only_refused [OF assms] auth_refused [OF assms]
  by (simp add: admin_app_def refused_deny split: list.split)

lemma without_admin:
  assumes "readAdminFromHeaders (aq_headers r) = None" and "admin_app env now i ids r db = ((cs, a), db')"
  shows "db' = db \<and> ((\<exists>e. a = Inl e) \<or>
    (\<exists>j d row. aq_body r = Some j \<and> adminLoginSchema (ap_formats env) (Some j) = Some d \<and> admin_findByEmail (lg_email d) db = Some row \<and>
       ae_compare (ap_account env) (lg_password d) (adm_passwordHash row) \<and> a = Inr (200, AdminBody (adm_id row) (adm_email row))))"
  using app_refused [OF assms(1), of env now i ids]
proof
  assume "refused (admin_app env now i ids r)"
  then show ?thesis using assms(2) unfolding refused_def by (metis fst_conv snd_conv)
next
  assume "admin_app env now i ids r = on_body (adminLoginSchema (ap_formats env)) (aq_body r) (AdminAuth_login env now)"
  with assms(2) show ?thesis using login_answer by metis
qed

text \<open>C8: Only administrators reach the admin service. When a request that the gateway forwarded changes
  the database or is answered with anything but an error, either it carried an admin token that
  verifies and the service acts for its subject, or it was a login with the e-mail and the password
  of an administrator's row. A change is that of one command.\<close>

theorem admin_request_authorised:
  assumes "gateway genv lk now finish out r gs = (res, gs')" and "gs_sent gs' = gs_sent gs @ [(up, q)]"
    and "admin_app env n i ids (admin_received qs body q) db = ((cs, a), db')"
    and "db' \<noteq> db \<or> (\<forall>e. a \<noteq> Inl e)"
  shows "(db' = db \<or> admin_step db db') \<and>
    ((\<exists>token d. gw_cookies r ''admin_access_token'' = Some token \<and> ae_verify (ge_account genv) (now div 1000) token = Some d \<and>
        jc_type d = ''admin'' \<and> readAdminFromHeaders (gw_headers q) = Some (jc_sub d)) \<or>
     (\<exists>j d row. db' = db \<and> body = Some j \<and> adminLoginSchema (ap_formats env) (Some j) = Some d \<and>
        row \<in> set (ad_admins db) \<and> adm_email row = lg_email d \<and>
        ae_compare (ap_account env) (lg_password d) (adm_passwordHash row) \<and> a = Inr (200, AdminBody (adm_id row) (adm_email row))))"
proof (intro conjI)
  show "db' = db \<or> admin_step db db'" using steps_app assms(3) unfolding steps_def by blast
  have "gs_sent gs' \<noteq> gs_sent gs" using assms(2) by simp
  with gateway_lets_through [OF assms(1)] obtain rt :: RouteConfig and q' where
    "gs_sent gs' = gs_sent gs @ [(ups_name (rc_upstream rt), q')]" "let_through (rc_auth rt) (ge_account genv) now r q'" by blast
  then have rt: "let_through (rc_auth rt) (ge_account genv) now r q" using assms(2) by simp
  show "(\<exists>token d. gw_cookies r ''admin_access_token'' = Some token \<and> ae_verify (ge_account genv) (now div 1000) token = Some d \<and>
        jc_type d = ''admin'' \<and> readAdminFromHeaders (gw_headers q) = Some (jc_sub d)) \<or>
     (\<exists>j d row. db' = db \<and> body = Some j \<and> adminLoginSchema (ap_formats env) (Some j) = Some d \<and>
        row \<in> set (ad_admins db) \<and> adm_email row = lg_email d \<and>
        ae_compare (ap_account env) (lg_password d) (adm_passwordHash row) \<and> a = Inr (200, AdminBody (adm_id row) (adm_email row)))"
  proof (cases "readAdminFromHeaders (gw_headers q)")
    case None
    then have "readAdminFromHeaders (aq_headers (admin_received qs body q)) = None" by (simp add: admin_received_def)
    from without_admin [OF this assms(3)] assms(4) show ?thesis
      by (auto simp: admin_received_def admin_findByEmail_def dest!: find_row_Some)
  next
    case (Some i)
    then have "gw_headers q ''x-admin-id'' \<noteq> None" by (auto simp: readAdminFromHeaders_def split: option.splits)
    with rt have "admin_identity (ge_account genv) now r q" by (simp add: let_through_def)
    with Some show ?thesis by (auto simp: admin_identity_def readAdminFromHeaders_def split: if_splits)
  qed
qed


section \<open>From the login to a request\<close>

text \<open>\<open>jsonwebtoken\<close>: a token has three parts and verifies until it expires, with the claims it was
  signed with. The gateway's secret is the admin service's.\<close>

definition admin_token :: "api_env \<Rightarrow> time \<Rightarrow> ident \<Rightarrow> string" where
  "admin_token env now i = ae_sign (ap_account env) \<lparr>jc_sub = i, jc_email = None, jc_sessionId = None, jc_type = ''admin''\<rparr>
     (now div 1000) (now div 1000 + ap_JWT_EXPIRATION_TIME env)"

definition admin_verifies :: "api_env \<Rightarrow> account_env \<Rightarrow> bool" where
  "admin_verifies env gw \<longleftrightarrow>
     (\<forall>n m i. n div 1000 \<le> m div 1000 \<longrightarrow> m div 1000 < n div 1000 + ap_JWT_EXPIRATION_TIME env \<longrightarrow>
        ae_verify gw (m div 1000) (admin_token env n i) = Some \<lparr>jc_sub = i, jc_email = None, jc_sessionId = None, jc_type = ''admin''\<rparr>) \<and>
     (\<forall>n i. length (filter (\<lambda>c. c = CHR ''.'') (admin_token env n i)) = 2)"

text \<open>C32: The cookie of a login opens the admin routes: until its token expires every request with it
  passes the gateway and reaches the admin service as the administrator who logged in, whatever
  identity headers the client adds; nobody logs in without the password of the row.\<close>

theorem admin_login_roundtrip:
  assumes "admin_verifies env gw" and "AdminAuth_login env now d db = ((cs, Inr out), db')"
    and "row \<in> set (ad_admins db)" and "distinct (map adm_email (ad_admins db))" and "adm_email row = lg_email d" and "adm_id row \<noteq> []"
    and "gw_cookies r = map_of (map (\<lambda>c. case c of SetCookie k v _ \<Rightarrow> (k, v) | ClearCookie k \<Rightarrow> (k, [])) cs)"
    and "now \<le> m" and "m div 1000 < now div 1000 + ap_JWT_EXPIRATION_TIME env"
  shows "ae_compare (ap_account env) (lg_password d) (adm_passwordHash row) \<and> db' = db \<and>
    (\<exists>q. gatewayAdminAuthMiddleware gw m r = Inr q \<and> requireAdmin (gw_headers q) = Inr (adm_id row))"
proof -
  have f: "admin_findByEmail (lg_email d) db = Some row"
    using find_row_unique [OF assms(4,3)] assms(5) by (simp add: admin_findByEmail_def)
  from assms(2) f have cmp: "ae_compare (ap_account env) (lg_password d) (adm_passwordHash row)" "db' = db"
    and cs: "cs = [SetCookie ''admin_access_token'' (admin_token env now (adm_id row)) (7 * 24 * 60 * 60 * 1000)]"
    by (auto simp: AdminAuth_login_def admin_login_def admin_token_def split: if_splits)
  have tok: "gw_cookies r ''admin_access_token'' = Some (admin_token env now (adm_id row))"
    by (simp add: assms(7) cs)
  from assms(1) have dots: "length (filter (\<lambda>c. c = CHR ''.'') (admin_token env now (adm_id row))) = 2"
    and v: "ae_verify gw (m div 1000) (admin_token env now (adm_id row)) =
      Some \<lparr>jc_sub = adm_id row, jc_email = None, jc_sessionId = None, jc_type = ''admin''\<rparr>"
    using assms(8,9) zdiv_mono1 [of now m 1000] by (simp_all add: admin_verifies_def)
  from dots have "admin_token env now (adm_id row) \<noteq> []" by auto
  with tok dots v assms(6) have "\<exists>q. gatewayAdminAuthMiddleware gw m r = Inr q \<and> gw_headers q ''x-admin-id'' = Some [adm_id row]"
    by (simp add: gatewayAdminAuthMiddleware_def Let_def)
  with assms(6) cmp show ?thesis by (auto simp: requireAdmin_def readAdminFromHeaders_def)
qed

end
