(* ===== verification/AdminSamples.thy ===== *)
theory AdminSamples
  imports AdminProjection
begin

text \<open>
  A concrete run of the admin service, and the properties of the service applied to it: two
  stations, a train with its days, route, coach and seats, a journey for later the same day, and
  its cancellation.
\<close>

section \<open>The run\<close>

definition sample_aenv :: admin_env where
  "sample_aenv = \<lparr>av_carrier = Map.empty, av_uuid = ''e''\<rparr>"

definition sample_stations :: adb where
  "sample_stations = snd (createStation sample_aenv 0 ''b'' \<lparr>cs_name = ''Howrah'', cs_code = ''HWH'', cs_zone = None, cs_state = None, cs_isActive = True\<rparr>
     (snd (createStation sample_aenv 0 ''a'' \<lparr>cs_name = ''Delhi'', cs_code = ''NDLS'', cs_zone = None, cs_state = None, cs_isActive = True\<rparr>
       (empty_admin []))))"

definition sample_train :: adb where
  "sample_train = snd (updateTrainOperatingDays 0 ''t'' [1, 4] (snd (createTrain sample_aenv 0 ''t''
     \<lparr>ct_trainNumber = ''12301'', ct_trainName = ''Rajdhani'', ct_category = RAJDHANI, ct_isActive = True\<rparr> sample_stations)))"

definition sample_stop :: "ident \<Rightarrow> int \<Rightarrow> int \<Rightarrow> AddStationToRouteRequestDto" where
  "sample_stop i n d = \<lparr>as_stationId = i, as_stopNumber = n, as_arrivalMinutes = None, as_departureMinutes = None,
     as_distanceFromStart = d, as_platformNumber = None\<rparr>"

definition sample_route :: adb where
  "sample_route = snd (addStationToRoute sample_aenv 0 ''q'' ''r'' (sample_stop ''b'' 2 100)
     (snd (addStationToRoute sample_aenv 0 ''p'' ''r'' (sample_stop ''a'' 1 0)
       (snd (createRoute sample_aenv 0 ''r'' ''t'' sample_train)))))"

definition sample_coach :: adb where
  "sample_coach = snd (bulkCreateSeats sample_aenv 0 show_int ''c''
     (snd (addCoach sample_aenv 0 ''c'' ''t'' \<lparr>cc_coachNumber = ''H1'', cc_coachType = AC_1A, cc_totalSeats = 18\<rparr> sample_route)))"

definition sample_journey :: CreateScheduleRequestDto where
  "sample_journey = \<lparr>cd_trainId = ''t'', cd_departureDate = 5000\<rparr>"

definition sample_scheduled :: adb where
  "sample_scheduled = snd (AdminSchedules.createSchedule sample_aenv 1000 ''j'' sample_journey sample_coach)"

definition sample_cancelled :: adb where
  "sample_cancelled = snd (AdminSchedules.updateScheduleStatus sample_aenv 2000 ''j'' Sch_CANCELLED sample_scheduled)"

text \<open>The table rows of the run, evaluated.\<close>

lemma sample_coach_tables:
  "ad_trains sample_coach = [\<lparr>trn_id = ''t'', trn_trainNumber = ''12301'', trn_trainName = ''Rajdhani'', trn_category = RAJDHANI,
     trn_isActive = True, trn_createdAt = 0, trn_updatedAt = 0\<rparr>]"
  "length (ad_seats sample_coach) = 18" "ad_schedules sample_coach = []"
  by code_simp+

lemma step_of:
  "admin_step db (snd (createStation env now i cs db))"
  "admin_step db (snd (createTrain env now i ct db))"
  "admin_step db (snd (updateTrainOperatingDays now i days db))"
  "admin_step db (snd (createRoute env now i trainId db))"
  "admin_step db (snd (addStationToRoute env now i routeId sd db))"
  "admin_step db (snd (addCoach env now i trainId cc db))"
  "admin_step db (snd (bulkCreateSeats env now ids i db))"
  "admin_step db (snd (AdminSchedules.createSchedule env now i cd db))"
  "admin_step db (snd (AdminSchedules.updateScheduleStatus env now i status db))"
  by (rule admin_step.intros, rule prod.collapse [symmetric])+

lemma one_more: "admin_step\<^sup>*\<^sup>* a b \<Longrightarrow> admin_step b c \<Longrightarrow> admin_step\<^sup>*\<^sup>* a c"
  by (rule rtranclp.rtrancl_into_rtrancl)

lemmas extend = step_of [THEN one_more [rotated]]

lemma sample_reached:
  "admin_step\<^sup>*\<^sup>* (empty_admin []) sample_coach"
  "admin_step\<^sup>*\<^sup>* (empty_admin []) sample_scheduled"
  "admin_step\<^sup>*\<^sup>* (empty_admin []) sample_cancelled"
proof -
  show c: "admin_step\<^sup>*\<^sup>* (empty_admin []) sample_coach"
    unfolding sample_coach_def sample_route_def sample_train_def sample_stations_def
    by (rule extend rtranclp.rtrancl_refl)+
  then show s: "admin_step\<^sup>*\<^sup>* (empty_admin []) sample_scheduled"
    unfolding sample_scheduled_def by (rule extend)
  then show "admin_step\<^sup>*\<^sup>* (empty_admin []) sample_cancelled"
    unfolding sample_cancelled_def by (rule extend)
qed

section \<open>The properties at work\<close>

theorem admin_database_well_formed_witness:
  "keys_ok sample_cancelled \<and> refs_ok sample_cancelled \<and> length (ad_seats sample_cancelled) = 18 \<and>
    coa_isActive (hd (ad_coaches sample_cancelled)) \<and>
    map (\<lambda>s. (sea_seatNumber s, sea_seatType s)) (seats_of ''c'' sample_cancelled) = layout (hd (ad_coaches sample_cancelled))"
proof -
  have c: "ad_coaches sample_cancelled = [\<lparr>coa_id = ''c'', coa_trainId = ''t'', coa_coachNumber = ''H1'', coa_coachType = AC_1A,
      coa_totalSeats = 18, coa_isActive = True, coa_createdAt = 0, coa_updatedAt = 0\<rparr>]"
    and n: "length (ad_seats sample_cancelled) = 18" and o: "seats_of ''c'' sample_cancelled = ad_seats sample_cancelled" by code_simp+
  have "ad_seats sample_cancelled \<noteq> []" using n by auto
  with admin_database_well_formed [OF sample_reached(3)] c n o show ?thesis by simp
qed

theorem created_schedule_sound_witness:
  "\<exists>s rd. fst (AdminSchedules.createSchedule sample_aenv 1000 ''j'' sample_journey sample_coach) = Inr s \<and>
    sch_departureDate s = 0 \<and> getUTCDay 0 \<in> opd_dayOfWeek ` set (days_of ''t'' sample_coach) \<and>
    getRouteByTrainId ''t'' False sample_coach = Some rd \<and> 2 \<le> length (snd rd)"
proof -
  let ?r = "AdminSchedules.createSchedule sample_aenv 1000 ''j'' sample_journey sample_coach"
  have "case fst ?r of Inr _ \<Rightarrow> True | Inl _ \<Rightarrow> False" by code_simp
  then have ok: "\<And>e. fst ?r \<noteq> Inl e" by (auto split: sum.splits)
  have "utc_midnight 5000 = 0" by (simp add: utc_midnight_def MS_PER_DAY_def)
  then show ?thesis
    using created_schedule_sound [OF sample_reached(1) prod.collapse [of ?r, symmetric]] ok
    by (auto simp: sample_journey_def)
qed

text \<open>At time 0 the journey is ahead, at time 2000 it is not.\<close>

theorem future_journeys_guarded_witness:
  "(\<exists>r db'. deleteRoute sample_aenv 2000 ''r'' sample_scheduled = (Inr r, db') \<and> \<not> rte_isActive r) \<and>
   (\<exists>r db'. updateRouteStatus sample_aenv 2000 ''r'' False sample_scheduled = (Inr r, db') \<and> \<not> rte_isActive r) \<and>
   deleteRoute sample_aenv 0 ''r'' sample_scheduled = (Inl (ApiError 409 ''ROUTE_REFERENCED_BY_SCHEDULES''), sample_scheduled) \<and>
   updateRouteStatus sample_aenv 0 ''r'' False sample_scheduled = (Inl (ApiError 409 ''ROUTE_REFERENCED_BY_SCHEDULES''), sample_scheduled) \<and>
   (\<exists>ds db'. updateTrainOperatingDays 2000 ''t'' [1] sample_scheduled = (Inr ds, db') \<and> ds = [1]) \<and>
   updateTrainOperatingDays 0 ''t'' [1] sample_scheduled = (Inl (ApiError 409 ''TRAIN_OPERATING_DAYS_REFERENCED''), sample_scheduled)"
proof -
  let ?db = sample_scheduled
  have ok: "case fst (deleteRoute sample_aenv 2000 ''r'' ?db) of Inr _ \<Rightarrow> True | Inl _ \<Rightarrow> False"
    "case fst (updateRouteStatus sample_aenv 2000 ''r'' False ?db) of Inr _ \<Rightarrow> True | Inl _ \<Rightarrow> False"
    "case fst (updateTrainOperatingDays 2000 ''t'' [1] ?db) of Inr _ \<Rightarrow> True | Inl _ \<Rightarrow> False" by code_simp+
  have q: "map rte_trainId (ad_routes ?db) = [''t'']" "map rte_id (ad_routes ?db) = [''r'']"
    "map (\<lambda>s. (sch_trainId s, sch_status s, sch_departureDate s)) (ad_schedules ?db) = [(''t'', Sch_ACTIVE, 0)]"
    "map (\<lambda>t. (trn_id t, trn_isActive t)) (ad_trains ?db) = [(''t'', True)]" "map opd_dayOfWeek (days_of ''t'' ?db) = [1, 4]" "getUTCDay 0 = 4" by code_simp+
  from q(1,2) obtain x where x: "ad_routes ?db = [x]" "rte_id x = ''r''" "rte_trainId x = ''t''" by auto
  from q(3) obtain s where s: "ad_schedules ?db = [s]" "sch_trainId s = ''t''" "sch_status s = Sch_ACTIVE" "sch_departureDate s = 0" by auto
  have t: "getTrainById ''t'' ?db \<noteq> None" using q(4) by (auto simp: getTrainById_def)
  have days: "opd_dayOfWeek ` set (days_of ''t'' ?db) = {1, 4}" using arg_cong [OF q(5), of set] by simp
  note g = future_journeys_guarded [where db = ?db and i = "''r''" and j = "''t''" and env = sample_aenv]
  have "journey_ahead 0 ''t'' ?db s" using s by (simp add: journey_ahead_def)
  then have refused: "deleteRoute sample_aenv 0 ''r'' ?db = (Inl (ApiError 409 ''ROUTE_REFERENCED_BY_SCHEDULES''), ?db)"
    "updateRouteStatus sample_aenv 0 ''r'' False ?db = (Inl (ApiError 409 ''ROUTE_REFERENCED_BY_SCHEDULES''), ?db)"
    "updateTrainOperatingDays 0 ''t'' [1] ?db = (Inl (ApiError 409 ''TRAIN_OPERATING_DAYS_REFERENCED''), ?db)"
    using g [where now = 0 and q = x and s = s and days = "[1]"] x s(4) t days q(6) by simp_all
  have "\<exists>r db'. deleteRoute sample_aenv 2000 ''r'' ?db = (Inr r, db')" "\<exists>r db'. updateRouteStatus sample_aenv 2000 ''r'' False ?db = (Inr r, db')"
    "\<exists>ds db'. updateTrainOperatingDays 2000 ''t'' [1] ?db = (Inr ds, db')"
    using ok by (metis prod.collapse sum.case_eq_if sum.collapse(2))+
  then obtain r db1 r' db2 ds db3 where done': "deleteRoute sample_aenv 2000 ''r'' ?db = (Inr r, db1)"
    "updateRouteStatus sample_aenv 2000 ''r'' False ?db = (Inr r', db2)" "updateTrainOperatingDays 2000 ''t'' [1] ?db = (Inr ds, db3)"
    by blast
  have "\<not> rte_isActive r" using g [where now = 2000 and r = r and db' = db1] done'(1) by simp
  moreover have "\<not> rte_isActive r'" using g [where now = 2000 and r = r' and db' = db2] done'(2) by simp
  moreover have "ds = [1]" using g [where now = 2000 and days = "[1]" and ds = ds and db'' = db3] done'(3) by simp
  ultimately show ?thesis using refused done' by simp
qed

theorem todays_journey_unguarded_witness:
  "\<exists>(r :: Route) r' db2 s. deleteRoute sample_aenv 1000 (rte_id r) sample_scheduled = (Inr r', db2) \<and> \<not> rte_isActive r' \<and>
    s \<in> set (ad_schedules db2) \<and> sch_status s = Sch_ACTIVE"
proof -
  let ?r = "AdminSchedules.createSchedule sample_aenv 1000 ''j'' sample_journey sample_coach"
  have "case fst ?r of Inr _ \<Rightarrow> True | Inl _ \<Rightarrow> False" by code_simp
  then obtain s where s: "?r = (Inr s, sample_scheduled)"
    by (cases ?r) (auto simp: sample_scheduled_def split: sum.splits)
  have "1000 < cd_departureDate sample_journey" "utc_midnight (cd_departureDate sample_journey) = utc_midnight 1000"
    "utc_midnight 1000 < 1000" "\<forall>s' \<in> set (ad_schedules sample_coach). sch_trainId s' \<noteq> cd_trainId sample_journey"
    by (simp_all add: sample_journey_def utc_midnight_def MS_PER_DAY_def sample_coach_tables(3))
  from todays_journey_unguarded [OF sample_reached(1) s this] obtain r r' :: Route and db2 where
    "deleteRoute sample_aenv 1000 (rte_id r) sample_scheduled = (Inr r', db2)" "\<not> rte_isActive r'"
    "s \<in> set (ad_schedules db2)" "sch_status s = Sch_ACTIVE" by blast
  then show ?thesis by (intro exI [of _ r] exI [of _ r'] exI [of _ db2] exI [of _ s]) simp
qed

theorem reactivation_unchecked_witness:
  "\<exists>s' db'. AdminSchedules.updateScheduleStatus sample_aenv 3000 ''j'' Sch_ACTIVE
      (snd (deleteRoute sample_aenv 2500 ''r'' sample_cancelled)) = (Inr s', db') \<and> sch_status s' = Sch_ACTIVE \<and>
    list_all (\<lambda>r. \<not> rte_isActive r) (ad_routes db')"
proof -
  let ?db = "snd (deleteRoute sample_aenv 2500 ''r'' sample_cancelled)"
  have reach: "admin_step\<^sup>*\<^sup>* (empty_admin []) ?db"
    by (rule one_more [OF sample_reached(3)]) (rule admin_step.intros(17), rule prod.collapse [symmetric])
  let ?s = "hd (ad_schedules ?db)"
  have s: "ad_schedules ?db \<noteq> []" "sch_id ?s = ''j''" "sch_status ?s = Sch_CANCELLED"
    "list_all (\<lambda>r. \<not> rte_isActive r) (ad_routes ?db)" by code_simp+
  from reactivation_unchecked [OF reach list.set_sel(1) [OF s(1)], of sample_aenv 3000] s show ?thesis by auto
qed

theorem unpublishable_refused_witness:
  "createTrain sample_aenv 3000 ''z'' \<lparr>ct_trainNumber = ''00001'', ct_trainName = ''Mail'', ct_category = MAIL, ct_isActive = True\<rparr>
      sample_scheduled = (Inl ZodError, sample_scheduled) \<and>
    AdminSchedules.updateScheduleStatus sample_aenv 3000 ''j'' Sch_COMPLETED sample_scheduled = (Inl ZodError, sample_scheduled)"
proof -
  let ?s = "hd (ad_schedules sample_scheduled)"
  let ?ct = "\<lparr>ct_trainNumber = ''00001'', ct_trainName = ''Mail'', ct_category = MAIL, ct_isActive = True\<rparr>"
  have s: "ad_schedules sample_scheduled \<noteq> []" "sch_id ?s = ''j''" by code_simp+
  have t: "map trn_id (ad_trains sample_scheduled) = [''t'']" "map trn_trainNumber (ad_trains sample_scheduled) = [''12301'']"
    by code_simp+
  then have "''z'' \<notin> trn_id ` set (ad_trains sample_scheduled)" "''00001'' \<notin> trn_trainNumber ` set (ad_trains sample_scheduled)"
    by (simp_all flip: set_map)
  with unpublishable_refused [OF sample_reached(2), of ?ct sample_aenv 3000 "''z''" ?s Sch_COMPLETED] s list.set_sel(1) [OF s(1)]
  show ?thesis by auto
qed

theorem duplicates_conflict_witness:
  "createStation sample_aenv 1 ''x'' \<lparr>cs_name = ''New'', cs_code = ''NDLS'', cs_zone = None, cs_state = None, cs_isActive = True\<rparr>
      sample_stations = (Inl (ApiError 409 ''STATION_ALREADY_EXISTS''), sample_stations)"
proof -
  have "map stn_code (ad_stations sample_stations) = [''NDLS'', ''HWH'']" by code_simp
  then have "''NDLS'' \<in> stn_code ` set (ad_stations sample_stations)" by (simp flip: set_map)
  then show ?thesis
    using duplicates_conflict [of "\<lparr>cs_name = ''New'', cs_code = ''NDLS'', cs_zone = None, cs_state = None, cs_isActive = True\<rparr>"
      sample_stations] by simp
qed

definition all_stations :: ListStationsQueryDto where
  "all_stations = \<lparr>ls_code = None, ls_zone = None, ls_state = None, ls_isActive = None, ls_page = 1, ls_limit = 1\<rparr>"

definition all_trains :: ListTrainsQueryDto where
  "all_trains = \<lparr>lt_trainNumber = None, lt_category = None, lt_isActive = None, lt_page = 1, lt_limit = 1\<rparr>"

theorem pages_cover_list_witness:
  "map stn_code (concat (map (\<lambda>p. fst (listStations (all_stations\<lparr>ls_page := p, ls_limit := 1\<rparr>) sample_stations))
      [1..pm_totalPages (snd (listStations (all_stations\<lparr>ls_page := 1, ls_limit := 1\<rparr>) sample_stations))])) = [''HWH'', ''NDLS'']"
proof -
  have "map stn_code (sort_key stn_code (filter (station_buildWhereClause (station_filters all_stations)) (ad_stations sample_stations))) =
      [''HWH'', ''NDLS'']" by code_simp
  then show ?thesis
    using pages_cover_list [of 1 all_stations sample_stations all_trains] by simp
qed

theorem schedules_projected_faithfully_witness:
  "\<exists>iv. inventory_run (map (\<lambda>e. (sample_env, 0, e)) (payloads sample_cancelled)) empty_inventory = Inr iv \<and>
    map schedule_view (iv_schedules iv) = [(''j'', ''t'', 0, CANCELLED_SCHEDULE, 2)]"
proof -
  have "map admin_view (ad_schedules sample_cancelled) = [(''j'', ''t'', 0, CANCELLED_SCHEDULE, 2)]" by code_simp
  then show ?thesis
    using schedules_projected_faithfully [OF sample_reached(3), of "map (\<lambda>e. (sample_env, 0, e)) (payloads sample_cancelled)"]
    by (auto simp: o_def)
qed

end
