(* ===== verification/AdminAccessSamples.thy ===== *)
theory AdminAccessSamples
  imports AdminAccess AdminSamples
begin

text \<open>
  The HTTP interface of the admin service at work: an administrator logs in, and the requests of the
  token's holder build a catalogue. The sample tokens spell the subject out, with its dots escaped.
\<close>

fun escape_dots :: "string \<Rightarrow> string" where
  "escape_dots [] = []"
| "escape_dots (c # cs) = (if c = CHR ''.'' then ''~d'' else if c = CHR ''~'' then ''~t'' else [c]) @ escape_dots cs"

fun unescape_dots :: "string \<Rightarrow> string" where
  "unescape_dots (c # d # cs) =
     (if c = CHR ''~'' then (if d = CHR ''d'' then CHR ''.'' else CHR ''~'') # unescape_dots cs else c # unescape_dots (d # cs))"
| "unescape_dots cs = cs"

lemma unescape_Cons: "c \<noteq> CHR ''~'' \<Longrightarrow> unescape_dots (c # cs) = c # unescape_dots cs"
  by (cases cs) simp_all

lemma unescape_escape: "unescape_dots (escape_dots x) = x"
  by (induction x) (auto simp: unescape_Cons)

lemma escaped_no_dots: "filter (\<lambda>c. c = CHR ''.'') (escape_dots x) = []"
  by (induction x) simp_all

definition jwt_accounts :: account_env where
  "jwt_accounts = sample_accounts\<lparr>
     ae_sign := (\<lambda>c iat exp. ''h.'' @ escape_dots (jc_sub c) @ ''.s''),
     ae_verify := (\<lambda>n t. if take 2 t = ''h.'' then Some \<lparr>jc_sub = unescape_dots (take (length t - 4) (drop 2 t)), jc_email = None,
        jc_sessionId = None, jc_type = ''admin''\<rparr> else None)\<rparr>"

definition sample_api :: api_env where
  "sample_api = \<lparr>ap_admin = sample_aenv, ap_account = jwt_accounts,
     ap_formats = \<lparr>valid_email = (\<lambda>e. CHR ''@'' \<in> set e), valid_uuid = (\<lambda>i. i \<noteq> [])\<rparr>,
     ap_new_Date = (\<lambda>_. None), ap_JWT_EXPIRATION_TIME = 604800\<rparr>"

lemma sample_api_verifies: "admin_verifies sample_api jwt_accounts"
proof -
  have t: "admin_token sample_api n i = ''h.'' @ escape_dots i @ ''.s''" for n i
    by (simp add: admin_token_def sample_api_def jwt_accounts_def)
  have v: "ae_verify jwt_accounts k (''h.'' @ escape_dots i @ ''.s'') =
      Some \<lparr>jc_sub = i, jc_email = None, jc_sessionId = None, jc_type = ''admin''\<rparr>" for k i
    by (simp add: jwt_accounts_def unescape_escape)
  show ?thesis unfolding admin_verifies_def t by (simp add: v [simplified] escaped_no_dots)
qed

definition sample_admins :: "Admin list" where
  "sample_admins = [\<lparr>adm_id = ''root'', adm_email = ''a@x'', adm_passwordHash = ''h:Password@1''\<rparr>]"

definition sample_call :: "ident \<Rightarrow> string \<Rightarrow> string list \<Rightarrow> json option \<Rightarrow> adb \<Rightarrow> admin_answer \<times> adb" where
  "sample_call i m path body = admin_app sample_api 0 i show_int
     \<lparr>aq_method = m, aq_path = ''admin'' # path, aq_headers = [''x-admin-id'' \<mapsto> [''root'']], aq_query = Map.empty, aq_body = body\<rparr>"

definition sample_posted :: adb where
  "sample_posted = snd (sample_call ''t'' ''POST'' [''trains'', ''t'', ''operating-days''] (Some (JObj [(''operatingDays'', JArr [JNum 1, JNum 4])]))
     (snd (sample_call ''c'' ''POST'' [''trains'', ''t'', ''coaches'']
       (Some (JObj [(''coachNumber'', JStr '' b1''), (''coachType'', JStr ''AC_3A''), (''totalSeats'', JNum 64)]))
     (snd (sample_call ''t'' ''POST'' [''trains''] (Some (JObj [(''trainNumber'', JStr ''12301''), (''trainName'', JStr ''Rajdhani'')]))
     (snd (sample_call ''a'' ''POST'' [''stations''] (Some (JObj [(''name'', JStr '' Delhi ''), (''code'', JStr ''ndls'')]))
       (empty_admin sample_admins))))))))"

lemma sample_posted_coaches: "length (ad_coaches sample_posted) = 1"
  by code_simp

lemma sample_posted_days: "length (ad_operatingDays sample_posted) = 2"
  by code_simp

lemma call_request: "admin_request db (snd (sample_call i m path body db))"
  unfolding sample_call_def by (rule admin_request.intros) (rule prod.collapse [symmetric])

lemma then_request: "admin_request\<^sup>*\<^sup>* a b \<Longrightarrow> admin_request\<^sup>*\<^sup>* a (snd (sample_call i m path body b))"
  using rtranclp.rtrancl_into_rtrancl [of admin_request a b "snd (sample_call i m path body b)"] call_request by blast

lemma sample_posted_reached: "admin_request\<^sup>*\<^sup>* (empty_admin sample_admins) sample_posted"
  unfolding sample_posted_def
  by (rule then_request rtranclp.rtrancl_refl)+

theorem admin_requests_well_formed_witness:
  "length (ad_coaches sample_posted) = 1 \<and> length (ad_operatingDays sample_posted) = 2 \<and> keys_ok sample_posted \<and>
    list_all (\<lambda>s. js_trim (stn_name s) = stn_name s \<and> upper (stn_code s) = stn_code s) (ad_stations sample_posted) \<and>
    list_all (\<lambda>c. fst (COACH_CAPACITY (coa_coachType c)) \<le> coa_totalSeats c) (ad_coaches sample_posted) \<and>
    snd (fst (sample_call ''d'' ''POST'' [''trains'', ''t'', ''coaches'']
       (Some (JObj [(''coachNumber'', JStr ''b2''), (''coachType'', JStr ''AC_3A''), (''totalSeats'', JNum 90)])) sample_posted)) = Inl (ApiError 400 ''INVALID_INPUT'')"
proof -
  have "snd (fst (sample_call ''d'' ''POST'' [''trains'', ''t'', ''coaches'']
       (Some (JObj [(''coachNumber'', JStr ''b2''), (''coachType'', JStr ''AC_3A''), (''totalSeats'', JNum 90)])) sample_posted)) = Inl (ApiError 400 ''INVALID_INPUT'')"
    by code_simp
  then show ?thesis
    using admin_requests_well_formed [OF sample_posted_reached] sample_posted_coaches sample_posted_days by (simp add: list_all_iff)
qed

text \<open>The gateway in front: the login's cookie, and with it a request that writes.\<close>

definition jwt_gateway :: gw_env where
  "jwt_gateway = \<lparr>ge_account = jwt_accounts, ge_preset = (\<lambda>_. (100, 2)), ge_lua_sha = ''sha''\<rparr>"

definition sample_credentials :: LoginRequestDto where
  "sample_credentials = \<lparr>lg_email = ''a@x'', lg_password = ''Password@1''\<rparr>"

definition sample_admin_request :: gw_request where
  "sample_admin_request = \<lparr>gw_method = ''POST'', gw_path = ''/api/v1/admin/stations'', gw_headers = [''x-admin-id'' \<mapsto> [''eve'']],
     gw_cookies = [''admin_access_token'' \<mapsto> ''h.root.s''], gw_ip = None, gw_user = None, gw_admin = None\<rparr>"

theorem admin_login_roundtrip_witness:
  "\<exists>q. gatewayAdminAuthMiddleware jwt_accounts 604799000 sample_admin_request = Inr q \<and> requireAdmin (gw_headers q) = Inr ''root'' \<and>
    fst (AdminAuth_login sample_api 0 sample_credentials (empty_admin sample_admins)) =
      ([SetCookie ''admin_access_token'' ''h.root.s'' 604800000], Inr (200, AdminBody ''root'' ''a@x''))"
proof -
  let ?l = "AdminAuth_login sample_api 0 sample_credentials (empty_admin sample_admins)"
  have l: "fst ?l = ([SetCookie ''admin_access_token'' ''h.root.s'' 604800000], Inr (200, AdminBody ''root'' ''a@x''))"
    by code_simp
  then have e: "?l = (([SetCookie ''admin_access_token'' ''h.root.s'' 604800000], Inr (200, AdminBody ''root'' ''a@x'')), snd ?l)"
    by (metis prod.collapse)
  have "adm_id (hd sample_admins) = ''root''" "adm_id (hd sample_admins) \<noteq> []" "hd sample_admins \<in> set (ad_admins (empty_admin sample_admins))"
    "distinct (map adm_email (ad_admins (empty_admin sample_admins)))" "adm_email (hd sample_admins) = lg_email sample_credentials"
    by (simp_all add: sample_admins_def empty_admin_def sample_credentials_def)
  moreover have "gw_cookies sample_admin_request = map_of (map (\<lambda>c. case c of SetCookie k v _ \<Rightarrow> (k, v) | ClearCookie k \<Rightarrow> (k, []))
      [SetCookie ''admin_access_token'' ''h.root.s'' 604800000])" by (simp add: sample_admin_request_def)
  moreover have "604799000 div 1000 < (0 :: int) div 1000 + ap_JWT_EXPIRATION_TIME sample_api" by (simp add: sample_api_def)
  ultimately show ?thesis
    using admin_login_roundtrip [OF sample_api_verifies e, of "hd sample_admins" sample_admin_request 604799000] l by auto
qed

definition sample_admin_passed :: "(exn + unit) \<times> gw_state" where
  "sample_admin_passed = gateway jwt_gateway Reply 4000 4100 (Returned ()) sample_admin_request sample_gw_state"

definition sample_station_body :: "json option" where
  "sample_station_body = Some (JObj [(''name'', JStr ''Howrah''), (''code'', JStr ''HWH'')])"

theorem admin_request_authorised_witness:
  "\<exists>q d. gs_sent (snd sample_admin_passed) = [(''admin'', q)] \<and>
     map stn_code (ad_stations (snd (admin_app sample_api 0 ''b'' show_int (admin_received Map.empty sample_station_body q) (empty_admin sample_admins)))) = [''HWH''] \<and>
     ae_verify jwt_accounts 4 ''h.root.s'' = Some d \<and> jc_type d = ''admin'' \<and> readAdminFromHeaders (gw_headers q) = Some (jc_sub d)"
proof -
  have "map fst (gs_sent (snd sample_admin_passed)) = [''admin'']" by code_simp
  then obtain q where q: "gs_sent (snd sample_admin_passed) = [(''admin'', q)]" by auto
  let ?x = "admin_app sample_api 0 ''b'' show_int (admin_received Map.empty sample_station_body q) (empty_admin sample_admins)"
  have "list_all (\<lambda>(up, q). map stn_code (ad_stations (snd (admin_app sample_api 0 ''b'' show_int
      (admin_received Map.empty sample_station_body q) (empty_admin sample_admins)))) = [''HWH'']) (gs_sent (snd sample_admin_passed))"
    by code_simp
  then have n: "map stn_code (ad_stations (snd ?x)) = [''HWH'']" using q by simp
  then have ne: "snd ?x \<noteq> empty_admin sample_admins" by (auto simp: empty_admin_def)
  obtain cs a db' where x: "?x = ((cs, a), db')" by (metis prod.collapse)
  have "gs_sent sample_gw_state = []" by code_simp
  then have sent: "gs_sent (snd sample_admin_passed) = gs_sent sample_gw_state @ [(''admin'', q)]" using q by simp
  have g: "gateway jwt_gateway Reply 4000 4100 (Returned ()) sample_admin_request sample_gw_state = (fst sample_admin_passed, snd sample_admin_passed)"
    by (simp add: sample_admin_passed_def)
  have "db' \<noteq> empty_admin sample_admins \<or> (\<forall>e. a \<noteq> Inl e)" using ne x by simp
  from admin_request_authorised [OF g sent x this] ne x obtain d where
    "ae_verify jwt_accounts 4 ''h.root.s'' = Some d" "jc_type d = ''admin''" "readAdminFromHeaders (gw_headers q) = Some (jc_sub d)"
    by (auto simp: sample_admin_request_def jwt_gateway_def)
  with q n show ?thesis by (intro exI [of _ q] exI [of _ d] conjI)
qed

end
