(* ===== verification/Dates.thy ===== *)
theory Dates
  imports Prelude
begin

text \<open>
  Dates as JavaScript has them, over milliseconds since 1970 in UTC: \<open>toISOString\<close> and
  \<open>Date.UTC\<close>, which takes years from 0 to 99 for years of the last century.
\<close>

text \<open>\<open>Date.prototype.toISOString\<close>: the proleptic Gregorian date of a day number, and the padded fields.\<close>

definition civil :: "int \<Rightarrow> int \<times> int \<times> int" where
  "civil days =
     (let z = days + 719468; era = z div 146097; doe = z mod 146097;
          yoe = (doe - doe div 1460 + doe div 36524 - doe div 146096) div 365;
          doy = doe - (365 * yoe + yoe div 4 - yoe div 100);
          mp = (5 * doy + 2) div 153;
          m = (if mp < 10 then mp + 3 else mp - 9);
          y = yoe + era * 400 + (if m \<le> 2 then 1 else 0)
      in (y, m, doy - (153 * mp + 2) div 5 + 1))"

definition pad :: "nat \<Rightarrow> int \<Rightarrow> string" where
  "pad n i = (let s = show_nat (nat i) in replicate (n - length s) (CHR ''0'') @ s)"

definition iso_year :: "int \<Rightarrow> string" where
  "iso_year y = (if 0 \<le> y \<and> y \<le> 9999 then pad 4 y else if y < 0 then CHR ''-'' # pad 6 (- y) else CHR ''+'' # pad 6 y)"

definition toISOString :: "time \<Rightarrow> string" where
  "toISOString t =
     (case civil (t div 86400000) of
        (y, m, d) \<Rightarrow>
          (let ms = t mod 86400000
           in iso_year y @ ''-'' @ pad 2 m @ ''-'' @ pad 2 d @ ''T'' @ pad 2 (ms div 3600000) @ '':'' @
              pad 2 (ms div 60000 mod 60) @ '':'' @ pad 2 (ms div 1000 mod 60) @ ''.'' @ pad 3 (ms mod 1000) @ ''Z''))"

definition civil_day :: "int \<Rightarrow> int \<Rightarrow> int \<Rightarrow> int" where
  "civil_day y m d =
     (let y' = (if m \<le> 2 then y - 1 else y); yoe = y' mod 400; mp = (m + 9) mod 12;
          doy = (153 * mp + 2) div 5 + d - 1
      in y' div 400 * 146097 + (yoe * 365 + yoe div 4 - yoe div 100 + doy) - 719468)"

text \<open>\<open>month\<close> counts from 0 and may be any number.\<close>

definition Date_UTC :: "int \<Rightarrow> int \<Rightarrow> int \<Rightarrow> time" where
  "Date_UTC year month d =
     (let y = (if 0 \<le> year \<and> year \<le> 99 then 1900 + year else year)
      in civil_day (y + month div 12) (month mod 12 + 1) d * 86400000)"

fun split_on :: "char \<Rightarrow> string \<Rightarrow> string list" where
  "split_on c [] = [[]]"
| "split_on c (x # xs) =
     (if x = c then [] # split_on c xs else (case split_on c xs of [] \<Rightarrow> [[x]] | s # ss \<Rightarrow> (x # s) # ss))"

lemma known_days:
  "civil 0 = (1970, 1, 1)" "civil (- 1) = (1969, 12, 31)" "civil 11016 = (2000, 2, 29)" "civil 11017 = (2000, 3, 1)"
  "civil 47540 = (2100, 2, 28)" "civil 47541 = (2100, 3, 1)" "civil 2932897 = (10000, 1, 1)"
  "civil_day 1970 1 1 = 0" "civil_day 2000 2 29 = 11016" "civil_day 2100 3 1 = 47541"
  "Date_UTC 99 11 31 = 946598400000"
  by code_simp+

end
