(* ===== verification/Notifications.thy ===== *)
theory Notifications
  imports Zod AdminDb Idempotency Dates
begin

text \<open>
  The notification service: contracts of the user events (\<open>packages/contracts/src/user\<close>), the email
  templates, \<open>SendGridProvider\<close>, and the services and consumers that send one-time passwords and
  welcome mails at most once per event over \<open>IdempotencyRepository\<close>. What SendGrid does with a call
  is an argument: its reply, and whether the mail went out although the reply was an error or came
  too late. A Kafka message is given parsed; \<open>Malformed\<close> is a value that is no JSON.
\<close>

section \<open>Contracts\<close>

record OTPRequested =
  oq_eventId :: ident
  oq_userId :: "ident option"
  oq_email :: string
  oq_otp :: string
  oq_createdAt :: time
  oq_purpose :: OtpPurpose
  oq_ttlSeconds :: int

record UserLoggedIn =
  ul_eventId :: ident
  ul_userId :: ident
  ul_email :: string
  ul_firstName :: string
  ul_lastName :: string
  ul_loggedInAt :: time

fun purpose_name :: "OtpPurpose \<Rightarrow> string" where
  "purpose_name REGISTRATION = ''registration''"
| "purpose_name FORGOT_PASSWORD = ''forgot-password''"

definition z_date :: "(json \<Rightarrow> time option) \<Rightarrow> time schema" where
  "z_date new_Date v = Option.bind v new_Date"

definition OTPRequestedSchema :: "formats \<Rightarrow> (json \<Rightarrow> time option) \<Rightarrow> OTPRequested schema" where
  "OTPRequestedSchema fm new_Date = z_object (\<lambda>f. do {
     eventId \<leftarrow> z_uuid fm (f ''eventId'');
     userId \<leftarrow> z_optional (z_uuid fm) (f ''userId'');
     email \<leftarrow> z_check (valid_email fm) z_string (f ''email'');
     otp \<leftarrow> z_check (\<lambda>x. length x = 6) z_string (f ''otp'');
     createdAt \<leftarrow> z_date new_Date (f ''createdAt'');
     purpose \<leftarrow> z_enum purpose_name [REGISTRATION, FORGOT_PASSWORD] (f ''purpose'');
     ttlSeconds \<leftarrow> z_check (\<lambda>n. 0 < n) z_int (f ''ttlSeconds'');
     Some \<lparr>oq_eventId = eventId, oq_userId = userId, oq_email = email, oq_otp = otp, oq_createdAt = createdAt,
       oq_purpose = purpose, oq_ttlSeconds = ttlSeconds\<rparr> })"

definition UserLoggedInSchema :: "formats \<Rightarrow> (json \<Rightarrow> time option) \<Rightarrow> UserLoggedIn schema" where
  "UserLoggedInSchema fm new_Date = z_object (\<lambda>f. do {
     eventId \<leftarrow> z_uuid fm (f ''eventId'');
     userId \<leftarrow> z_uuid fm (f ''userId'');
     email \<leftarrow> z_check (valid_email fm) z_string (f ''email'');
     firstName \<leftarrow> z_string (f ''firstName'');
     lastName \<leftarrow> z_string (f ''lastName'');
     loggedInAt \<leftarrow> z_date new_Date (f ''loggedInAt'');
     Some \<lparr>ul_eventId = eventId, ul_userId = userId, ul_email = email, ul_firstName = firstName, ul_lastName = lastName,
       ul_loggedInAt = loggedInAt\<rparr> })"

section \<open>Templates\<close>

record SendEmailOptions =
  em_to :: string
  em_subject :: string
  em_text :: string
  em_html :: string

definition nl :: string where "nl = [CHR 0x0A]"

definition otp_header :: "bool \<Rightarrow> string" where
  "otp_header forgot = (if forgot then ''IRCTC Password Reset Code'' else ''IRCTC Verification Code'')"

definition otp_description :: "bool \<Rightarrow> string" where
  "otp_description forgot =
     (if forgot
      then ''We received a request to reset the password for your IRCTC account. Use the following verification code to proceed:''
      else ''We received a request to access your IRCTC account. Use the following verification code to proceed:'')"

definition otp_text :: "bool \<Rightarrow> string \<Rightarrow> string \<Rightarrow> string" where
  "otp_text forgot otp minutes = ''Hello,'' @ nl @ nl @ otp_description forgot @ nl @ nl @ ''OTP: '' @ otp @ nl @ nl @
     ''This code is valid for '' @ minutes @ '' minutes. If you did not request '' @
     (if forgot then ''a password reset'' else ''this OTP'') @ '', you can safely ignore this email.'' @ nl @ nl @
     ''Distributed Railway Booking Platform''"

definition otp_html :: "bool \<Rightarrow> string \<Rightarrow> string \<Rightarrow> string" where
  \<open>otp_html forgot otp minutes = nl @
     ''    <div style="font-family: Arial, sans-serif; max-width: 600px; margin: 0 auto; padding: 20px; border: 1px solid #e0e0e0; border-radius: 8px;">'' @ nl @
     ''      <h2 style="color: '' @ (if forgot then ''#dc3545'' else ''#0d6efd'') @ ''; text-align: center;">'' @ otp_header forgot @ ''</h2>'' @ nl @
     ''      <p>Hello,</p>'' @ nl @
     ''      <p>'' @ otp_description forgot @ ''</p>'' @ nl @
     ''      <div style="font-size: 24px; font-weight: bold; text-align: center; margin: 30px 0; padding: 15px; background-color: #f8f9fa; border-radius: 4px; letter-spacing: 2px; color: #333;">'' @ nl @
     ''        '' @ otp @ nl @
     ''      </div>'' @ nl @
     ''      <p style="color: #6c757d; font-size: 14px;">This code is valid for '' @ minutes @ '' minutes. If you did not request this email, you can safely ignore it.</p>'' @ nl @
     ''      <hr style="border: 0; border-top: 1px solid #eee; margin: 20px 0;" />'' @ nl @
     ''      <p style="font-size: 12px; color: #999; text-align: center;">Distributed Railway Booking Platform &copy; 2026</p>'' @ nl @
     ''    </div>'' @ nl @ ''  ''\<close>

definition renderOtpEmail :: "string \<Rightarrow> string \<Rightarrow> OtpPurpose \<Rightarrow> int \<Rightarrow> SendEmailOptions" where
  "renderOtpEmail email otp purpose ttlSeconds =
     (let forgot = (purpose = FORGOT_PASSWORD); minutes = show_int (ttlSeconds div 60)
      in \<lparr>em_to = email,
          em_subject = (if forgot then ''Reset your IRCTC password'' else ''Your IRCTC One-Time Password (OTP)''),
          em_text = otp_text forgot otp minutes, em_html = otp_html forgot otp minutes\<rparr>)"

definition entity :: "char \<Rightarrow> string" where
  "entity c =
     (if c = CHR ''&'' then ''&amp;'' else if c = CHR ''<'' then ''&lt;'' else if c = CHR ''>'' then ''&gt;''
      else if c = CHR 0x22 then ''&quot;'' else if c = CHR 0x27 then ''&#39;'' else [c])"

definition escapeHtml :: "string \<Rightarrow> string" where
  "escapeHtml value = concat (map entity value)"

definition welcome_before :: string where
  \<open>welcome_before = nl @
     ''        <div style="font-family: Arial, sans-serif; max-width: 600px; margin: 0 auto; padding: 20px; border: 1px solid #e0e0e0; border-radius: 8px;">'' @ nl @
     ''          <h2 style="color: #198754; text-align: center;">Welcome Back!</h2>'' @ nl @
     ''          <p>Hello <strong>''\<close>

definition welcome_after :: "string \<Rightarrow> string" where
  \<open>welcome_after timestamp = ''</strong>,</p>'' @ nl @
     ''          <p>You have successfully logged into your IRCTC account.</p>'' @ nl @
     ''          <div style="margin: 20px 0; padding: 15px; background-color: #f8f9fa; border-radius: 4px; color: #555;">'' @ nl @
     ''            <strong>Login Time:</strong> '' @ timestamp @ '' UTC'' @ nl @
     ''          </div>'' @ nl @
     ''          <p>If this was not you, please reset your password immediately.</p>'' @ nl @
     ''          <p>Safe travels,<br/>The IRCTC Team</p>'' @ nl @
     ''          <hr style="border: 0; border-top: 1px solid #eee; margin: 20px 0;" />'' @ nl @
     ''          <p style="font-size: 12px; color: #999; text-align: center;">Distributed Railway Booking Platform &copy; 2026</p>'' @ nl @
     ''        </div>'' @ nl @ ''      ''\<close>

definition renderWelcomeEmail :: "string \<Rightarrow> string \<Rightarrow> string \<Rightarrow> time \<Rightarrow> SendEmailOptions" where
  \<open>renderWelcomeEmail email firstName lastName loggedInAt =
     (let timestamp = toISOString loggedInAt
      in \<lparr>em_to = email, em_subject = ''Welcome back, '' @ firstName,
          em_text = ''Hi '' @ firstName @ '','' @ nl @ nl @
            ''You have successfully signed in to your IRCTC account at '' @ timestamp @ '' UTC. '' @
            ''If this was not you, please reset your password immediately.'' @ nl @ nl @
            ''Safe travels,'' @ nl @ ''The IRCTC Team'',
          em_html = welcome_before @ (escapeHtml firstName @ '' '' @ escapeHtml lastName) @ welcome_after timestamp\<rparr>)\<close>

section \<open>Provider\<close>

record mail_db =
  ml_redis :: redis
  ml_sent :: "SendEmailOptions list"
  ml_logged :: "SendEmailOptions list"

datatype sendgrid_reply =
    SG_OK
  | SG_TIMEOUT
  | SG_ERROR "int option" "string option list option"     \<comment> \<open>\<open>code\<close>, the messages of \<open>response.body.errors\<close>\<close>

definition quota_message :: "string option \<Rightarrow> bool" where
  "quota_message m =
     list_ex (\<lambda>w. icontains w (Some (case m of None \<Rightarrow> [] | Some x \<Rightarrow> x)))
       [''credit'', ''exceeded'', ''unauthorized'', ''forbidden'', ''invalid api key'']"

definition isQuotaOrAuthError :: "int option \<Rightarrow> string option list option \<Rightarrow> bool" where
  "isQuotaOrAuthError code errs \<longleftrightarrow> code = Some 401 \<or> code = Some 403 \<or>
     (case errs of None \<Rightarrow> False | Some es \<Rightarrow> list_ex quota_message es)"

text \<open>\<open>went\<close>: the mail went out although no success was reported in time.\<close>

definition sendgrid_send :: "sendgrid_reply \<Rightarrow> bool \<Rightarrow> SendEmailOptions \<Rightarrow> (mail_db, unit) proc" where
  "sendgrid_send reply went opts s =
     (let s1 = (if reply = SG_OK \<or> went then s\<lparr>ml_sent := ml_sent s @ [opts]\<rparr> else s)
      in case reply of
           SG_OK \<Rightarrow> (Inr (), s1)
         | SG_TIMEOUT \<Rightarrow> (Inl (PlainError ''SendGrid send timed out''), s1)
         | SG_ERROR code errs \<Rightarrow>
             if isQuotaOrAuthError code errs then (Inr (), s1\<lparr>ml_logged := ml_logged s1 @ [opts]\<rparr>)
             else (Inl (PlainError ''SendGrid''), s1))"

section \<open>Services\<close>

datatype ProcessingStatus = PS_PROCESSED | PS_DUPLICATE | PS_INVALID

text \<open>The fate of a call: the connection of each Redis command, the provider's reply, and the moments at
  which the commands run.\<close>

record mail_fate =
  mf_reserve :: link
  mf_mark :: link
  mf_release :: link
  mf_reply :: sendgrid_reply
  mf_went :: bool
  mf_begin :: time
  mf_end :: time

definition on_redis :: "(redis, 'a) proc \<Rightarrow> (mail_db, 'a) proc" where
  "on_redis m s = (case m (ml_redis s) of (r, st) \<Rightarrow> (r, s\<lparr>ml_redis := st\<rparr>))"

text \<open>From the reservation on, both services do the same.\<close>

definition deliver :: "idem_config \<Rightarrow> mail_fate \<Rightarrow> ident \<Rightarrow> SendEmailOptions \<Rightarrow> (mail_db, ProcessingStatus) proc" where
  "deliver c f eventId opts =
     then_proc (on_redis (reserveIfNew c (mf_reserve f) (mf_begin f) eventId)) (\<lambda>reserved s1.
       if \<not> reserved then (Inr PS_DUPLICATE, s1)
       else (case sendgrid_send (mf_reply f) (mf_went f) opts s1 of
           (Inl err, s2) \<Rightarrow> (Inl err, snd (on_redis (release c (mf_release f) (mf_end f) eventId) s2))
         | (Inr _, s2) \<Rightarrow>
             then_proc (on_redis (markProcessed c (mf_mark f) (mf_end f) eventId)) (\<lambda>_ s3. (Inr PS_PROCESSED, s3)) s2))"

definition otp_process :: "formats \<Rightarrow> (json \<Rightarrow> time option) \<Rightarrow> idem_config \<Rightarrow> mail_fate \<Rightarrow> json \<Rightarrow> (mail_db, ProcessingStatus) proc" where
  "otp_process fm new_Date c f event s =
     (case OTPRequestedSchema fm new_Date (Some event) of
        None \<Rightarrow> (Inr PS_INVALID, s)
      | Some parsed \<Rightarrow>
          if mf_begin f - oq_createdAt parsed > oq_ttlSeconds parsed * 1000 then (Inr PS_INVALID, s)
          else deliver c f (oq_eventId parsed)
            (renderOtpEmail (oq_email parsed) (oq_otp parsed) (oq_purpose parsed) (oq_ttlSeconds parsed)) s)"

definition welcome_process :: "formats \<Rightarrow> (json \<Rightarrow> time option) \<Rightarrow> int \<Rightarrow> idem_config \<Rightarrow> mail_fate \<Rightarrow> json \<Rightarrow> (mail_db, ProcessingStatus) proc" where
  "welcome_process fm new_Date WELCOME_TTL_SECONDS c f event s =
     (case UserLoggedInSchema fm new_Date (Some event) of
        None \<Rightarrow> (Inr PS_INVALID, s)
      | Some parsed \<Rightarrow>
          if mf_begin f - ul_loggedInAt parsed > WELCOME_TTL_SECONDS * 1000 then (Inr PS_INVALID, s)
          else deliver c f (ul_eventId parsed)
            (renderWelcomeEmail (ul_email parsed) (ul_firstName parsed) (ul_lastName parsed) (ul_loggedInAt parsed)) s)"

section \<open>Consumers\<close>

datatype message_value = NullValue | Malformed | Parsed json

text \<open>A null value is acknowledged, malformed JSON is logged and dropped, any other error is thrown for
  kafkajs to retry; \<open>heartbeat\<close> runs at the end of all but the first, and its error wins.\<close>

definition consumer_handle :: "(json \<Rightarrow> (mail_db, ProcessingStatus) proc) \<Rightarrow> exn option \<Rightarrow> message_value \<Rightarrow> (mail_db, unit) proc" where
  "consumer_handle process heartbeat v s =
     (case v of
        NullValue \<Rightarrow> (Inr (), s)
      | _ \<Rightarrow>
          (case (case v of Parsed j \<Rightarrow> process j s | _ \<Rightarrow> (Inl SyntaxError, s)) of
             (r, s') \<Rightarrow>
               (case heartbeat of
                  Some e \<Rightarrow> (Inl e, s')
                | None \<Rightarrow>
                    (case r of
                       Inr _ \<Rightarrow> (Inr (), s')
                     | Inl e \<Rightarrow> if e = SyntaxError then (Inr (), s') else (Inl e, s')))))"

end
