(* ===== verification/NotificationProps.thy ===== *)
theory NotificationProps
  imports Notifications
begin

text \<open>
  What the notification service promises: the outcome of a delivery on every path, at most one mail per
  event while consumers work side by side, and names that add no markup to a mail. \<open>mail_act\<close> is one
  command of one worker; a worker may stop between any two. \<open>calm\<close> says which runs the promise holds for.
\<close>

section \<open>Outcomes\<close>

lemma on_redis_eq: "on_redis m s = (fst (m (ml_redis s)), s\<lparr>ml_redis := snd (m (ml_redis s))\<rparr>)"
  by (simp add: on_redis_def split_beta)

lemma sendgrid_redis [simp]: "ml_redis (snd (sendgrid_send reply went opts s)) = ml_redis s"
  by (cases reply) (simp_all add: sendgrid_send_def Let_def)

lemma sendgrid_sent:
  "ml_sent (snd (sendgrid_send reply went opts s)) = ml_sent s @ (if reply = SG_OK \<or> went then [opts] else [])"
  by (cases reply) (simp_all add: sendgrid_send_def Let_def)

lemma sendgrid_ok:
  "fst (sendgrid_send reply went opts s) = Inr () \<longleftrightarrow>
     reply = SG_OK \<or> (\<exists>code errs. reply = SG_ERROR code errs \<and> isQuotaOrAuthError code errs)"
  by (cases reply) (simp_all add: sendgrid_send_def Let_def)

lemma reserve_False: "reserveIfNew c lk now e st = (Inr False, st') \<Longrightarrow> st' = st"
  by (auto simp: reserveIfNew_def over_link_Inr redis_set_nx_ex_def split: if_splits)

lemma reserve_True:
  assumes "reserveIfNew c lk now e st = (Inr True, st')"
  shows "redis_get now (buildKey c e) st = None"
    and "redis_get u k st' = (if k = buildKey c e then if u < now + processingLeaseSeconds c * 1000 then Some PROCESSING else None
           else redis_get u k st)"
  using assms by (auto simp: reserveIfNew_def over_link_Inr redis_set_nx_ex_def redis_get_upd split: if_splits)

lemma mark_gets:
  assumes "lk \<noteq> Unreachable" and "0 < processedTtlSeconds c"
  shows "redis_get u k (snd (markProcessed c lk now e st)) =
    (if k = buildKey c e then if u < now + processedTtlSeconds c * 1000 then Some PROCESSED else None else redis_get u k st)"
  using assms by (cases lk) (simp_all add: markProcessed_def over_link_def redis_set_ex_def redis_get_upd)

lemma mark_Inr: "markProcessed c lk now e st = (Inr b, st') \<Longrightarrow> lk = Reply \<and> 0 < processedTtlSeconds c"
  by (auto simp: markProcessed_def over_link_Inr redis_set_ex_def split: if_splits)

lemma release_other:
  "k \<noteq> buildKey c e \<Longrightarrow> redis_get u k (snd (release c lk now e st)) = redis_get u k st"
  by (cases lk) (simp_all add: release_def over_link_def releaseIfProcessing_def redis_del_def redis_get_none_upd)

lemma release_frees:
  "redis_get now (buildKey c e) st = Some PROCESSING \<Longrightarrow> redis_get u (buildKey c e) (snd (release c Reply now e st)) = None"
  by (simp add: release_def over_link_def releaseIfProcessing_def redis_del_def redis_get_none_upd)

definition delivered :: "idem_config \<Rightarrow> mail_fate \<Rightarrow> ident \<Rightarrow> SendEmailOptions \<Rightarrow> mail_db \<Rightarrow> (exn + ProcessingStatus) \<Rightarrow> mail_db \<Rightarrow> bool" where
  "delivered c f e m s r s' \<longleftrightarrow>
     (let key = buildKey c e; sent = ml_sent s' = ml_sent s @ [m]
      in case r of
           Inr PS_PROCESSED \<Rightarrow> redis_get (mf_begin f) key (ml_redis s) = None \<and> redis_get (mf_end f) key (ml_redis s') = Some PROCESSED \<and>
             (if mf_reply f = SG_OK then sent \<and> ml_logged s' = ml_logged s else ml_logged s' = ml_logged s @ [m])
         | Inr _ \<Rightarrow> s' = s
         | Inl _ \<Rightarrow> (sent \<or> ml_sent s' = ml_sent s) \<and>
             (mf_reserve f = Reply \<and> mf_mark f = Reply \<and> 0 < processedTtlSeconds c \<and> \<not> mf_went f \<longrightarrow>
                ml_sent s' = ml_sent s \<and> ml_logged s' = ml_logged s \<and>
                (mf_release f = Reply \<and> 0 < processingLeaseSeconds c \<longrightarrow>
                   redis_get (mf_end f) key (ml_redis s') = None)))"

lemma release_frees_at:
  assumes "reserveIfNew c lk t e st = (Inr True, st')"
  shows "redis_get u (buildKey c e) (snd (release c Reply u e st')) = None"
proof (cases "redis_get u (buildKey c e) st' = Some PROCESSING")
  case True
  then show ?thesis by (rule release_frees)
next
  case False
  then have "redis_get u (buildKey c e) st' = None" using reserve_True(2) [OF assms] by (auto split: if_splits)
  then show ?thesis using False by (simp add: release_def over_link_def releaseIfProcessing_def)
qed

lemma deliver_delivered:
  assumes "deliver c f e m s = (r, s')"
  shows "delivered c f e m s r s'"
proof -
  obtain a st where res: "reserveIfNew c (mf_reserve f) (mf_begin f) e (ml_redis s) = (a, st)" by fastforce
  define s1 where "s1 = s\<lparr>ml_redis := st\<rparr>"
  obtain b s2 where snt: "sendgrid_send (mf_reply f) (mf_went f) m s1 = (b, s2)" by fastforce
  have redis2: "ml_redis s2 = st" using sendgrid_redis [of "mf_reply f" "mf_went f" m s1] unfolding snt by (simp add: s1_def)
  have sent2: "ml_sent s2 = ml_sent s @ (if mf_reply f = SG_OK \<or> mf_went f then [m] else [])"
    using sendgrid_sent [of "mf_reply f" "mf_went f" m s1] unfolding snt by (simp add: s1_def)
  consider (err) x where "a = Inl x" | (dup) "a = Inr False" | (won) "a = Inr True" by (cases a) auto
  then show ?thesis
  proof cases
    case err
    then have "0 < processingLeaseSeconds c \<Longrightarrow> mf_reserve f \<noteq> Reply"
      using res by (auto simp: reserveIfNew_def over_link_def redis_set_nx_ex_def split: if_splits)
    then show ?thesis using assms err res by (auto simp: deliver_def then_proc_def on_redis_eq delivered_def)
  next
    case dup
    then show ?thesis using assms res reserve_False [of c "mf_reserve f" "mf_begin f" e "ml_redis s" st]
      by (auto simp: deliver_def then_proc_def on_redis_eq delivered_def)
  next
    case won
    note key = reserve_True(1) [OF res [unfolded won]] and frees = release_frees_at [OF res [unfolded won]]
    show ?thesis
    proof (cases b)
      case (Inl x)
      then have "mf_reply f \<noteq> SG_OK" "ml_logged s2 = ml_logged s"
        using snt by (auto simp: sendgrid_send_def Let_def s1_def split: sendgrid_reply.splits if_splits)
      then show ?thesis using assms res won snt Inl sent2 redis2 frees
        by (auto simp: deliver_def then_proc_def on_redis_eq delivered_def s1_def)
    next
      case (Inr x)
      have log2: "ml_logged s2 = (if mf_reply f = SG_OK then ml_logged s else ml_logged s @ [m])"
        using snt Inr by (auto simp: sendgrid_send_def Let_def s1_def split: sendgrid_reply.splits if_splits)
      obtain y st3 where mk: "markProcessed c (mf_mark f) (mf_end f) e st = (y, st3)" by fastforce
      have eq: "(r, s') = (case y of Inl err \<Rightarrow> Inl err | Inr _ \<Rightarrow> Inr PS_PROCESSED, s2\<lparr>ml_redis := st3\<rparr>)"
        using assms res won snt Inr mk redis2
        by (auto simp: deliver_def then_proc_def on_redis_eq s1_def split: sum.splits)
      show ?thesis
      proof (cases y)
        case (Inl z)
        then have "mf_mark f \<noteq> Reply \<or> \<not> 0 < processedTtlSeconds c"
          using mk by (auto simp: markProcessed_def over_link_def redis_set_ex_def split: if_splits)
        then show ?thesis using eq Inl sent2 by (auto simp: delivered_def)
      next
        case (Inr z)
        then have "redis_get (mf_end f) (buildKey c e) st3 = Some PROCESSED"
          using mark_Inr [OF mk [unfolded Inr]] mk mark_gets [of "mf_mark f" c "mf_end f" "buildKey c e" "mf_end f" e st] by auto
        then show ?thesis using eq Inr sent2 log2 key by (simp add: delivered_def)
      qed
    qed
  qed
qed

lemma deliver_not_invalid: "deliver c f e m s = (r, s') \<Longrightarrow> r \<noteq> Inr PS_INVALID"
  by (auto simp: deliver_def then_proc_def split: prod.splits sum.splits if_splits)

text \<open>C30: What the processing of a one-time password event does. It is invalid exactly when it does not
  fit the contract or is older than its own lifetime, and then nothing happens. Otherwise the mail of
  the event is rendered from it and the outcome is the provider's and Redis's: a duplicate changes
  nothing; a processed event was not reserved or processed before, is marked processed afterwards, and
  its mail is sent or (only where the provider did not accept it) put into the log; an error sends at
  most that mail, and when no Redis reply was lost before it and the provider's error is to be believed,
  it sent nothing and, if the reservation could be given up, left the event free for the next
  attempt.\<close>

theorem otp_process_outcome:
  assumes "otp_process fm new_Date c f event s = (r, s')"
  shows "case OTPRequestedSchema fm new_Date (Some event) of
      None \<Rightarrow> r = Inr PS_INVALID \<and> s' = s
    | Some ev \<Rightarrow>
        if mf_begin f > oq_createdAt ev + oq_ttlSeconds ev * 1000 then r = Inr PS_INVALID \<and> s' = s
        else r \<noteq> Inr PS_INVALID \<and>
          delivered c f (oq_eventId ev) (renderOtpEmail (oq_email ev) (oq_otp ev) (oq_purpose ev) (oq_ttlSeconds ev)) s r s'"
proof (cases "OTPRequestedSchema fm new_Date (Some event)")
  case None
  then show ?thesis using assms by (simp add: otp_process_def)
next
  case (Some ev)
  show ?thesis
  proof (cases "mf_begin f > oq_createdAt ev + oq_ttlSeconds ev * 1000")
    case True
    then show ?thesis using assms Some by (simp add: otp_process_def)
  next
    case False
    then have d: "deliver c f (oq_eventId ev) (renderOtpEmail (oq_email ev) (oq_otp ev) (oq_purpose ev) (oq_ttlSeconds ev)) s = (r, s')"
      using assms Some by (simp add: otp_process_def)
    show ?thesis using deliver_not_invalid [OF d] deliver_delivered [OF d] Some False by simp
  qed
qed

section \<open>Workers side by side\<close>

text \<open>Where a worker that holds a reservation is: it will hand the mail to the provider, mark the event, or
  give the reservation up. \<open>mw_mailed\<close> records each mail that went out with the event it is for.\<close>

datatype stage = Sending | Marking | Releasing

record mail_job =
  jb_event :: ident
  jb_mail :: SendEmailOptions
  jb_stage :: stage
  jb_since :: time

record mail_world =
  mw_now :: time
  mw_db :: mail_db
  mw_jobs :: "nat \<rightharpoonup> mail_job"
  mw_mailed :: "(ident \<times> SendEmailOptions) list"

datatype mail_cmd =
    Reserve nat link ident SendEmailOptions
  | Send nat sendgrid_reply bool
  | Mark nat link
  | Release nat link
  | Crash nat

definition set_job :: "nat \<Rightarrow> mail_job option \<Rightarrow> mail_world \<Rightarrow> mail_world" where
  "set_job i j w = w\<lparr>mw_jobs := (mw_jobs w)(i := j)\<rparr>"

fun mail_act :: "idem_config \<Rightarrow> time \<Rightarrow> mail_cmd \<Rightarrow> mail_world \<Rightarrow> mail_world option" where
  "mail_act c v (Reserve i lk e m) w =
     (if mw_jobs w i \<noteq> None then None
      else (case on_redis (reserveIfNew c lk v e) (mw_db w) of
          (r, db) \<Rightarrow> Some ((if r = Inr True then set_job i (Some \<lparr>jb_event = e, jb_mail = m, jb_stage = Sending, jb_since = v\<rparr>) else id)
            (w\<lparr>mw_now := v, mw_db := db\<rparr>))))"
| "mail_act c v (Send i reply went) w =
     (case mw_jobs w i of
        None \<Rightarrow> None
      | Some j \<Rightarrow>
          if jb_stage j \<noteq> Sending then None
          else (case sendgrid_send reply went (jb_mail j) (mw_db w) of
              (r, db) \<Rightarrow> Some (set_job i (Some (j\<lparr>jb_stage := (case r of Inr _ \<Rightarrow> Marking | Inl _ \<Rightarrow> Releasing)\<rparr>))
                (w\<lparr>mw_now := v, mw_db := db,
                   mw_mailed := mw_mailed w @ (if reply = SG_OK \<or> went then [(jb_event j, jb_mail j)] else [])\<rparr>))))"
| "mail_act c v (Mark i lk) w =
     (case mw_jobs w i of
        None \<Rightarrow> None
      | Some j \<Rightarrow>
          if jb_stage j \<noteq> Marking then None
          else Some (set_job i None (w\<lparr>mw_now := v, mw_db := snd (on_redis (markProcessed c lk v (jb_event j)) (mw_db w))\<rparr>)))"
| "mail_act c v (Release i lk) w =
     (case mw_jobs w i of
        None \<Rightarrow> None
      | Some j \<Rightarrow>
          if jb_stage j \<noteq> Releasing then None
          else Some (set_job i None (w\<lparr>mw_now := v, mw_db := snd (on_redis (release c lk v (jb_event j)) (mw_db w))\<rparr>)))"
| "mail_act c v (Crash i) w = Some (set_job i None (w\<lparr>mw_now := v\<rparr>))"

fun mail_acts :: "idem_config \<Rightarrow> (time \<times> mail_cmd) list \<Rightarrow> mail_world \<Rightarrow> mail_world option" where
  "mail_acts c [] w = Some w"
| "mail_acts c ((v, a) # as) w = Option.bind (mail_act c v a w) (mail_acts c as)"

text \<open>A call of \<open>deliver\<close> by a worker of its own is a run of its commands.\<close>

definition calls :: "idem_config \<Rightarrow> mail_fate \<Rightarrow> nat \<Rightarrow> ident \<Rightarrow> SendEmailOptions \<Rightarrow> mail_db \<Rightarrow> (time \<times> mail_cmd) list" where
  "calls c f i e m db =
     (mf_begin f, Reserve i (mf_reserve f) e m) #
     (if fst (reserveIfNew c (mf_reserve f) (mf_begin f) e (ml_redis db)) = Inr True
      then [(mf_begin f, Send i (mf_reply f) (mf_went f)),
            (mf_end f, if fst (sendgrid_send (mf_reply f) (mf_went f) m db) = Inr () then Mark i (mf_mark f) else Release i (mf_release f))]
      else [])"

lemma deliver_acts:
  assumes "mw_jobs w i = None"
  shows "\<exists>w'. mail_acts c (calls c f i e m (mw_db w)) w = Some w' \<and> mw_db w' = snd (deliver c f e m (mw_db w)) \<and>
    mw_jobs w' = mw_jobs w"
proof -
  obtain a st where res: "reserveIfNew c (mf_reserve f) (mf_begin f) e (ml_redis (mw_db w)) = (a, st)" by fastforce
  define s1 where "s1 = (mw_db w)\<lparr>ml_redis := st\<rparr>"
  obtain b s2 where snt: "sendgrid_send (mf_reply f) (mf_went f) m s1 = (b, s2)" by fastforce
  have b: "fst (sendgrid_send (mf_reply f) (mf_went f) m (mw_db w)) = b"
    using snt by (auto simp: s1_def sendgrid_send_def Let_def split: sendgrid_reply.splits if_splits)
  show ?thesis using assms res snt b
    by (auto simp: calls_def deliver_def then_proc_def on_redis_eq s1_def set_job_def fun_upd_idem split: sum.splits)
qed

section \<open>At most one mail per event\<close>

text \<open>A calm command: time does not go back and stays before the horizon \<open>d\<close>, every reservation held is
  within its lease, a provider error means that no mail went out, the marker reaches Redis, and no worker
  stops between the provider's acceptance and the marker.\<close>

definition calm :: "idem_config \<Rightarrow> time \<Rightarrow> time \<Rightarrow> mail_cmd \<Rightarrow> mail_world \<Rightarrow> bool" where
  "calm c d v a w \<longleftrightarrow> mw_now w \<le> v \<and> v < d \<and>
     (\<forall>i j. mw_jobs w i = Some j \<longrightarrow> v < jb_since j + processingLeaseSeconds c * 1000) \<and>
     (case a of
        Send i reply went \<Rightarrow> reply = SG_OK \<or> \<not> went
      | Mark i lk \<Rightarrow> lk \<noteq> Unreachable
      | Crash i \<Rightarrow> (\<forall>j. mw_jobs w i = Some j \<longrightarrow> jb_stage j \<noteq> Marking)
      | _ \<Rightarrow> True)"

inductive calm_step :: "idem_config \<Rightarrow> time \<Rightarrow> mail_world \<Rightarrow> mail_world \<Rightarrow> bool" for c d where
  acts: "calm c d v a w \<Longrightarrow> mail_act c v a w = Some w' \<Longrightarrow> calm_step c d w w'"

definition mails_ok :: "idem_config \<Rightarrow> time \<Rightarrow> time \<Rightarrow> SendEmailOptions list \<Rightarrow> mail_world \<Rightarrow> bool" where
  "mails_ok c t0 d sent0 w \<longleftrightarrow> t0 \<le> mw_now w \<and> ml_sent (mw_db w) = sent0 @ map snd (mw_mailed w) \<and>
     distinct (map fst (mw_mailed w)) \<and>
     (\<forall>i j i' j'. mw_jobs w i = Some j \<and> mw_jobs w i' = Some j' \<and> jb_event j = jb_event j' \<longrightarrow> i = i') \<and>
     (\<forall>i j. mw_jobs w i = Some j \<longrightarrow>
        (jb_stage j = Marking \<or> jb_event j \<notin> fst ` set (mw_mailed w)) \<and>
        (\<forall>u. mw_now w \<le> u \<and> u < jb_since j + processingLeaseSeconds c * 1000 \<longrightarrow>
           redis_get u (buildKey c (jb_event j)) (ml_redis (mw_db w)) = Some PROCESSING)) \<and>
     (\<forall>e \<in> fst ` set (mw_mailed w). (\<exists>i j. mw_jobs w i = Some j \<and> jb_event j = e) \<or>
        (\<forall>u. mw_now w \<le> u \<and> u < d \<longrightarrow> redis_get u (buildKey c e) (ml_redis (mw_db w)) = Some PROCESSED))"

lemma mails_okD:
  assumes "mails_ok c t0 d sent0 w"
  shows "t0 \<le> mw_now w" and "ml_sent (mw_db w) = sent0 @ map snd (mw_mailed w)" and "distinct (map fst (mw_mailed w))"
    and "mw_jobs w i = Some j \<Longrightarrow> mw_jobs w i' = Some j' \<Longrightarrow> jb_event j = jb_event j' \<Longrightarrow> i = i'"
    and "mw_jobs w i = Some j \<Longrightarrow> jb_stage j = Marking \<or> jb_event j \<notin> fst ` set (mw_mailed w)"
    and "mw_jobs w i = Some j \<Longrightarrow> mw_now w \<le> u \<Longrightarrow> u < jb_since j + processingLeaseSeconds c * 1000 \<Longrightarrow>
      redis_get u (buildKey c (jb_event j)) (ml_redis (mw_db w)) = Some PROCESSING"
    and "e \<in> fst ` set (mw_mailed w) \<Longrightarrow> (\<And>i j. mw_jobs w i = Some j \<Longrightarrow> jb_event j \<noteq> e) \<Longrightarrow> mw_now w \<le> u \<Longrightarrow> u < d \<Longrightarrow>
      redis_get u (buildKey c e) (ml_redis (mw_db w)) = Some PROCESSED"
  using assms unfolding mails_ok_def by blast+

lemma mails_okI:
  assumes "t0 \<le> mw_now w" and "ml_sent (mw_db w) = sent0 @ map snd (mw_mailed w)" and "distinct (map fst (mw_mailed w))"
    and "\<And>i j i' j'. mw_jobs w i = Some j \<Longrightarrow> mw_jobs w i' = Some j' \<Longrightarrow> jb_event j = jb_event j' \<Longrightarrow> i = i'"
    and "\<And>i j. mw_jobs w i = Some j \<Longrightarrow> jb_stage j = Marking \<or> jb_event j \<notin> fst ` set (mw_mailed w)"
    and "\<And>i j u. mw_jobs w i = Some j \<Longrightarrow> mw_now w \<le> u \<Longrightarrow> u < jb_since j + processingLeaseSeconds c * 1000 \<Longrightarrow>
      redis_get u (buildKey c (jb_event j)) (ml_redis (mw_db w)) = Some PROCESSING"
    and "\<And>e u. e \<in> fst ` set (mw_mailed w) \<Longrightarrow> (\<And>i j. mw_jobs w i = Some j \<Longrightarrow> jb_event j \<noteq> e) \<Longrightarrow> mw_now w \<le> u \<Longrightarrow> u < d \<Longrightarrow>
      redis_get u (buildKey c e) (ml_redis (mw_db w)) = Some PROCESSED"
  shows "mails_ok c t0 d sent0 w"
  using assms unfolding mails_ok_def by blast

lemma ok_keeps:
  assumes "mails_ok c t0 d sent0 w" and "mw_now w \<le> v"
    and "\<And>u e x. v \<le> u \<Longrightarrow> redis_get u (buildKey c e) (ml_redis (mw_db w)) = Some x \<Longrightarrow> redis_get u (buildKey c e) st = Some x"
  shows "mails_ok c t0 d sent0 (w\<lparr>mw_now := v, mw_db := (mw_db w)\<lparr>ml_redis := st\<rparr>\<rparr>)"
proof -
  note ok = mails_okD [OF assms(1)]
  show ?thesis
    by (rule mails_okI)
      (use ok(1,2,3,5) assms(2) in \<open>auto intro: ok(4) assms(3) [OF _ ok(6)] assms(3) [OF _ ok(7)]\<close>)
qed

text \<open>What follows when a worker is done: its event is marked or was not mailed.\<close>

lemma ok_done:
  assumes "mails_ok c t0 d sent0 w" and "mw_now w \<le> v" and "mw_jobs w i = Some j"
    and others: "\<And>u e. e \<noteq> jb_event j \<Longrightarrow> redis_get u (buildKey c e) st = redis_get u (buildKey c e) (ml_redis (mw_db w))"
    and over: "jb_event j \<notin> fst ` set (mw_mailed w) \<or>
      (\<forall>u. v \<le> u \<and> u < d \<longrightarrow> redis_get u (buildKey c (jb_event j)) st = Some PROCESSED)"
  shows "mails_ok c t0 d sent0 (set_job i None (w\<lparr>mw_now := v, mw_db := (mw_db w)\<lparr>ml_redis := st\<rparr>\<rparr>))"
proof -
  note ok = mails_okD [OF assms(1)]
  show ?thesis
  proof (rule mails_okI, goal_cases)
    case (6 i' j' u)
    then have "jb_event j' \<noteq> jb_event j" using ok(4) [OF _ assms(3)] by (auto simp: set_job_def split: if_splits)
    then show ?case using 6 ok(6) others assms(2) by (auto simp: set_job_def split: if_splits)
  next
    case (7 e u)
    show ?case
    proof (cases "e = jb_event j")
      case True
      then show ?thesis using 7 over by (auto simp: set_job_def)
    next
      case False
      have "jb_event j' \<noteq> e" if "mw_jobs w i' = Some j'" for i' j'
        using 7(2) [of i' j'] that False assms(3) by (cases "i' = i") (auto simp: set_job_def)
      then show ?thesis using 7 ok(7) others [OF False] assms(2) by (auto simp: set_job_def)
    qed
  qed (use ok(1,2,3,4,5) assms(2) in \<open>auto simp: set_job_def split: if_splits\<close>)
qed

lemma fst_mem: "(e, m) \<in> set xs \<Longrightarrow> e \<in> fst ` set xs"
  by force

lemma calmD:
  assumes "calm c d v a w"
  shows "mw_now w \<le> v" and "v < d" and "mw_jobs w i = Some j \<Longrightarrow> v < jb_since j + processingLeaseSeconds c * 1000"
  using assms by (auto simp: calm_def)

lemma ok_reserve:
  assumes "mails_ok c t0 d sent0 w" and calm: "calm c d v (Reserve i lk e m) w" and "mail_act c v (Reserve i lk e m) w = Some w'"
  shows "mails_ok c t0 d sent0 w'"
proof -
  obtain a st where res: "reserveIfNew c lk v e (ml_redis (mw_db w)) = (a, st)" by fastforce
  let ?w = "w\<lparr>mw_now := v, mw_db := (mw_db w)\<lparr>ml_redis := st\<rparr>\<rparr>"
  have free: "mw_jobs w i = None" using assms(3) by (auto split: if_splits)
  note ok = mails_okD [OF assms(1)] and t = calmD [OF calm]
  have keep: "redis_get u k st = Some x" if "v \<le> u" "redis_get u k (ml_redis (mw_db w)) = Some x" for u k x
    using reserve_get [OF that, of c lk e] by (simp add: res)
  have old: "mails_ok c t0 d sent0 ?w" by (rule ok_keeps [OF assms(1) t(1)]) (rule keep)
  show ?thesis
  proof (cases "a = Inr True")
    case False
    then show ?thesis using assms(3) res free old by (simp add: on_redis_eq)
  next
    case True
    note key = reserve_True [OF res [unfolded True]]
    have new: "jb_event j \<noteq> e" if "mw_jobs w i' = Some j" for i' j
      using ok(6) [OF that t(1) t(3) [OF that]] key(1) by auto
    have unsent: "e \<notin> fst ` set (mw_mailed w)"
    proof
      assume "e \<in> fst ` set (mw_mailed w)"
      from ok(7) [OF this new t(1,2)] show False using key(1) by simp
    qed
    note ok' = mails_okD [OF old, simplified]
    have w': "w' = set_job i (Some \<lparr>jb_event = e, jb_mail = m, jb_stage = Sending, jb_since = v\<rparr>) ?w"
      using assms(3) res free True by (simp add: on_redis_eq)
    show ?thesis unfolding w'
    proof (rule mails_okI, goal_cases)
      case (4 i1 j1 i2 j2)
      then show ?case using ok'(4) new new [symmetric] by (auto simp: set_job_def split: if_splits)
    next
      case (6 i1 j1 u)
      then show ?case using ok'(6) [of i1 j1 u] key(2) [of u "buildKey c e"] by (cases "i1 = i") (auto simp: set_job_def)
    next
      case (7 e' u)
      have "jb_event j' \<noteq> e'" if "mw_jobs w i' = Some j'" for i' j'
        using 7(2) [of i' j'] that free by (cases "i' = i") (auto simp: set_job_def)
      then show ?case using 7 ok'(7) by (auto simp: set_job_def)
    qed (use ok'(1,2,3,5) unsent in \<open>auto simp: set_job_def dest: fst_mem split: if_splits\<close>)
  qed
qed

lemma ok_send:
  assumes "mails_ok c t0 d sent0 w" and calm: "calm c d v (Send i reply went) w" and "mail_act c v (Send i reply went) w = Some w'"
  shows "mails_ok c t0 d sent0 w'"
proof -
  obtain j where j: "mw_jobs w i = Some j" "jb_stage j = Sending" using assms(3) by (auto split: option.splits if_splits)
  obtain r db where snt: "sendgrid_send reply went (jb_mail j) (mw_db w) = (r, db)" by fastforce
  have went: "reply = SG_OK \<or> \<not> went" using calm by (simp add: calm_def)
  have db: "ml_redis db = ml_redis (mw_db w)"
    "ml_sent db = ml_sent (mw_db w) @ (if reply = SG_OK then [jb_mail j] else [])"
    using sendgrid_redis [of reply went "jb_mail j" "mw_db w"] sendgrid_sent [of reply went "jb_mail j" "mw_db w"] went
    unfolding snt by auto
  have r: "reply = SG_OK \<Longrightarrow> r = Inr ()" using snt by (auto simp: sendgrid_send_def Let_def)
  note ok = mails_okD [OF assms(1)] and t = calmD [OF calm]
  define stage where "stage = (case r of Inr _ \<Rightarrow> Marking | Inl _ \<Rightarrow> Releasing)"
  have w': "w' = set_job i (Some (j\<lparr>jb_stage := stage\<rparr>))
      (w\<lparr>mw_now := v, mw_db := db, mw_mailed := mw_mailed w @ (if reply = SG_OK then [(jb_event j, jb_mail j)] else [])\<rparr>)"
    using assms(3) j snt went by (auto simp: stage_def)
  have unsent: "jb_event j \<notin> fst ` set (mw_mailed w)" using ok(5) [OF j(1)] j(2) by simp
  have other: "jb_event j' \<noteq> jb_event j" if "mw_jobs w i' = Some j'" "i' \<noteq> i" for i' j'
    using ok(4) [OF that(1) j(1)] that(2) by blast
  show ?thesis unfolding w'
  proof (rule mails_okI, goal_cases)
    case (4 i1 j1 i2 j2)
    then show ?case using ok(4) other other [symmetric] by (auto simp: set_job_def split: if_splits)
  next
    case (5 i1 j1)
    then show ?case using ok(5) other unsent r by (auto simp: set_job_def stage_def dest: fst_mem split: if_splits)
  next
    case (6 i1 j1 u)
    then show ?case using ok(6) [OF j(1)] ok(6) [of i1 j1] t(1) db by (auto simp: set_job_def split: if_splits)
  next
    case (7 e' u)
    have "jb_event j' \<noteq> e'" if "mw_jobs w i' = Some j'" for i' j'
      using 7(2) [of i] 7(2) [of i' j'] that j by (cases "i' = i") (auto simp: set_job_def)
    note no = this
    have "e' \<in> fst ` set (mw_mailed w)" using 7(1) no [OF j(1)] by (auto simp: set_job_def dest: fst_mem split: if_splits)
    then have "redis_get u (buildKey c e') (ml_redis (mw_db w)) = Some PROCESSED"
      by (rule ok(7)) (use no 7(3,4) t(1) in \<open>auto simp: set_job_def\<close>)
    then show ?case using db by (simp add: set_job_def)
  qed (use ok(1,2,3) t(1) db unsent in \<open>auto simp: set_job_def\<close>)
qed

lemma ok_act:
  assumes "0 < processedTtlSeconds c" "d \<le> t0 + processedTtlSeconds c * 1000"
    and "mails_ok c t0 d sent0 w" and calm: "calm c d v a w" and act: "mail_act c v a w = Some w'"
  shows "mails_ok c t0 d sent0 w'"
proof (cases a)
  case (Reserve i lk e m)
  then show ?thesis using ok_reserve assms(3-5) by blast
next
  case (Send i reply went)
  then show ?thesis using ok_send assms(3-5) by blast
next
  case (Mark i lk)
  then obtain j where j: "mw_jobs w i = Some j" using act by (auto split: option.splits)
  have lk: "lk \<noteq> Unreachable" using calm Mark by (simp add: calm_def)
  have w': "w' = set_job i None (w\<lparr>mw_now := v, mw_db := (mw_db w)\<lparr>ml_redis := snd (markProcessed c lk v (jb_event j) (ml_redis (mw_db w)))\<rparr>\<rparr>)"
    using act Mark j by (auto simp: on_redis_eq split: if_splits)
  show ?thesis unfolding w'
    by (rule ok_done [OF assms(3) calmD(1) [OF calm] j])
      (use assms(1,2) mails_okD(1) [OF assms(3)] calmD(1) [OF calm] in \<open>auto simp: mark_gets [OF lk assms(1)]\<close>)
next
  case (Release i lk)
  then obtain j where j: "mw_jobs w i = Some j" "jb_stage j = Releasing" using act by (auto split: option.splits if_splits)
  have w': "w' = set_job i None (w\<lparr>mw_now := v, mw_db := (mw_db w)\<lparr>ml_redis := snd (release c lk v (jb_event j) (ml_redis (mw_db w)))\<rparr>\<rparr>)"
    using act Release j by (auto simp: on_redis_eq)
  show ?thesis unfolding w'
    by (rule ok_done [OF assms(3) calmD(1) [OF calm] j(1)])
      (use mails_okD(5) [OF assms(3) j(1)] j(2) in \<open>auto simp: release_other\<close>)
next
  case (Crash i)
  have w: "w = w\<lparr>mw_db := (mw_db w)\<lparr>ml_redis := ml_redis (mw_db w)\<rparr>\<rparr>" by simp
  show ?thesis
  proof (cases "mw_jobs w i")
    case None
    then have "w' = w\<lparr>mw_now := v, mw_db := (mw_db w)\<lparr>ml_redis := ml_redis (mw_db w)\<rparr>\<rparr>"
      using act Crash by (auto simp: set_job_def fun_upd_idem)
    then show ?thesis using ok_keeps [OF assms(3) calmD(1) [OF calm]] by metis
  next
    case (Some j)
    then have w': "w' = set_job i None (w\<lparr>mw_now := v, mw_db := (mw_db w)\<lparr>ml_redis := ml_redis (mw_db w)\<rparr>\<rparr>)"
      using act Crash by simp
    show ?thesis unfolding w'
      by (rule ok_done [OF assms(3) calmD(1) [OF calm] Some])
        (use mails_okD(5) [OF assms(3) Some] calm Crash Some in \<open>auto simp: calm_def\<close>)
  qed
qed

interpretation mails: stepper "calm_step c d"
  "\<lambda>w. 0 < processedTtlSeconds c \<longrightarrow> d \<le> t0 + processedTtlSeconds c * 1000 \<longrightarrow> mails_ok c t0 d sent0 w" for c d t0 sent0
  by unfold_locales (auto elim!: calm_step.cases intro: ok_act)

text \<open>C10: However many workers process however many events at once, with events delivered again and again,
  replies of Redis lost, workers stopping and the provider failing, each event sends at most one mail,
  and every mail sent is one of an event, as long as the run is calm: no reservation outlives its lease,
  the run is shorter than the retention of the markers, a provider error means that nothing went out, and
  a worker whose mail was accepted gets its marker to Redis. The hypotheses are needed
  (\<open>mailed_twice\<close>).\<close>

theorem one_mail_per_event:
  assumes "(calm_step c d)\<^sup>*\<^sup>* \<lparr>mw_now = t0, mw_db = db, mw_jobs = \<lambda>_. None, mw_mailed = []\<rparr> w"
    and "0 < processedTtlSeconds c" and "d \<le> t0 + processedTtlSeconds c * 1000"
  shows "distinct (map fst (mw_mailed w)) \<and> ml_sent (mw_db w) = ml_sent db @ map snd (mw_mailed w)"
proof -
  let ?w = "\<lparr>mw_now = t0, mw_db = db, mw_jobs = \<lambda>_. None, mw_mailed = []\<rparr>"
  have "mails_ok c t0 d (ml_sent db) ?w" by (simp add: mails_ok_def)
  then have "mails_ok c t0 d (ml_sent db) w"
    using mails.run_inv [OF assms(1), of t0 "ml_sent db"] assms(2,3) by blast
  then show ?thesis by (auto dest: mails_okD)
qed

definition sample_idem :: idem_config where
  "sample_idem = \<lparr>processingLeaseSeconds = 60, processedTtlSeconds = 600, keyspace = ''otp''\<rparr>"

definition sample_mail :: SendEmailOptions where
  "sample_mail = renderOtpEmail ''a@b.c'' ''123456'' REGISTRATION 300"

definition sample_world :: mail_world where
  "sample_world = \<lparr>mw_now = 0, mw_db = \<lparr>ml_redis = (\<lambda>_. None), ml_sent = [], ml_logged = []\<rparr>, mw_jobs = (\<lambda>_. None), mw_mailed = []\<rparr>"

lemmas mail_eval = sample_idem_def sample_world_def on_redis_eq reserveIfNew_def markProcessed_def release_def over_link_def
  redis_set_nx_ex_def redis_set_ex_def redis_get_def live_def sendgrid_send_def set_job_def Let_def buildKey_def
  releaseIfProcessing_def redis_del_def calm_def

text \<open>Two workers get the same event: the first fails and gives up, the second is refused, a third sends.\<close>

definition sample_run :: "(time \<times> mail_cmd) list" where
  "sample_run = [(1, Reserve 1 Reply ''e'' sample_mail), (2, Reserve 2 Reply ''e'' sample_mail), (3, Send 1 SG_TIMEOUT False),
     (4, Release 1 Reply), (5, Reserve 3 Reply ''e'' sample_mail), (6, Send 3 SG_OK False), (7, Mark 3 Reply),
     (8, Reserve 4 Reply ''e'' sample_mail)]"

fun calm_run :: "idem_config \<Rightarrow> time \<Rightarrow> (time \<times> mail_cmd) list \<Rightarrow> mail_world \<Rightarrow> mail_world \<Rightarrow> bool" where
  "calm_run c d [] w w' \<longleftrightarrow> w = w'"
| "calm_run c d ((v, a) # as) w w' \<longleftrightarrow> calm c d v a w \<and> (case mail_act c v a w of None \<Rightarrow> False | Some w1 \<Rightarrow> calm_run c d as w1 w')"

lemma calm_run_steps: "calm_run c d as w w' \<Longrightarrow> (calm_step c d)\<^sup>*\<^sup>* w w'"
proof (induction as arbitrary: w)
  case (Cons va as)
  obtain v a where va: "va = (v, a)" by fastforce
  with Cons.prems obtain w1 where "calm c d v a w" "mail_act c v a w = Some w1" "calm_run c d as w1 w'"
    by (auto split: option.splits)
  then show ?case using Cons.IH calm_step.acts converse_rtranclp_into_rtranclp by metis
qed simp

lemma sample_run_calm: "\<exists>w. calm_run sample_idem 500 sample_run sample_world w \<and> mw_mailed w = [(''e'', sample_mail)]"
  by (auto simp: mail_eval sample_run_def split: if_splits)

theorem one_mail_per_event_witness:
  "\<exists>w. (calm_step sample_idem 500)\<^sup>*\<^sup>* sample_world w \<and> distinct (map fst (mw_mailed w)) \<and>
    ml_sent (mw_db w) = [sample_mail]"
proof -
  obtain w where w: "calm_run sample_idem 500 sample_run sample_world w" "mw_mailed w = [(''e'', sample_mail)]"
    using sample_run_calm by blast
  have "0 < processedTtlSeconds sample_idem" "500 \<le> 0 + processedTtlSeconds sample_idem * 1000"
    by (simp_all add: sample_idem_def)
  from one_mail_per_event [OF calm_run_steps [OF w(1), unfolded sample_world_def] this] w
  show ?thesis using calm_run_steps [OF w(1)] by auto
qed

text \<open>A send that times out may still have gone out, and the retry sends the mail again. So does a run in
  which the marker does not reach Redis before the lease is over.\<close>

lemma mailed_twice:
  "map_option (\<lambda>w. map fst (mw_mailed w)) (mail_acts sample_idem
     [(1, Reserve 1 Reply ''e'' sample_mail), (2, Send 1 SG_TIMEOUT True), (3, Release 1 Reply),
      (4, Reserve 2 Reply ''e'' sample_mail), (5, Send 2 SG_OK False), (6, Mark 2 Reply)] sample_world) = Some [''e'', ''e'']"
  "map_option (\<lambda>w. map fst (mw_mailed w)) (mail_acts sample_idem
     [(1, Reserve 1 Reply ''e'' sample_mail), (2, Send 1 SG_OK False), (3, Mark 1 Unreachable),
      (70000, Reserve 2 Reply ''e'' sample_mail), (70001, Send 2 SG_OK False), (70002, Mark 2 Reply)] sample_world) = Some [''e'', ''e'']"
  by (simp_all add: mail_eval)

section \<open>Names in a mail\<close>

definition markup :: "char \<Rightarrow> bool" where
  "markup ch \<longleftrightarrow> ch = CHR ''<'' \<or> ch = CHR ''>'' \<or> ch = CHR 0x22 \<or> ch = CHR 0x27"

text \<open>What a reader of the page sees for an escaped text.\<close>

fun unescape :: "string \<Rightarrow> string" where
  "unescape [] = []"
| "unescape (ch # cs) =
    (if take 5 (ch # cs) = ''&amp;'' then CHR ''&'' # unescape (drop 5 (ch # cs))
     else if take 4 (ch # cs) = ''&lt;'' then CHR ''<'' # unescape (drop 4 (ch # cs))
     else if take 4 (ch # cs) = ''&gt;'' then CHR ''>'' # unescape (drop 4 (ch # cs))
     else if take 6 (ch # cs) = ''&quot;'' then CHR 0x22 # unescape (drop 6 (ch # cs))
     else if take 5 (ch # cs) = ''&#39;'' then CHR 0x27 # unescape (drop 5 (ch # cs))
     else ch # unescape cs)"

lemma escapeHtml_simps [simp]: "escapeHtml [] = []" "escapeHtml (ch # cs) = entity ch @ escapeHtml cs"
  by (simp_all add: escapeHtml_def)

lemma unescape_entity: "unescape (entity ch @ s) = ch # unescape s"
  by (simp add: entity_def del: unescape.simps) (simp add: unescape.simps)

lemma unescape_escapeHtml: "unescape (escapeHtml s @ r) = s @ unescape r"
  by (induction s) (simp_all add: unescape_entity del: unescape.simps(2))

lemma entity_no_markup: "filter markup (entity ch) = []"
  by (simp add: entity_def markup_def)

lemma escapeHtml_no_markup: "filter markup (escapeHtml s) = []"
  by (induction s) (simp_all add: entity_no_markup)

text \<open>C31: Whatever a user calls himself, the welcome page is the same fixed frame around his names, the names
  open or close no tag and no attribute in it, and its reader sees them exactly as they are.\<close>

theorem welcome_names_inert:
  "\<exists>before after. \<forall>email firstName lastName.
     em_html (renderWelcomeEmail email firstName lastName t) = before @ (escapeHtml firstName @ '' '' @ escapeHtml lastName) @ after \<and>
     filter markup (escapeHtml firstName @ '' '' @ escapeHtml lastName) = [] \<and>
     unescape (escapeHtml firstName @ '' '' @ escapeHtml lastName) = firstName @ '' '' @ lastName"
proof -
  have seen: "filter markup (escapeHtml f @ '' '' @ escapeHtml l) = []" "unescape (escapeHtml f @ '' '' @ escapeHtml l) = f @ '' '' @ l" for f l
    using unescape_escapeHtml [of f "'' '' @ escapeHtml l"] unescape_escapeHtml [of l "[]"]
    by (simp_all add: escapeHtml_no_markup) (simp add: markup_def)
  show ?thesis
    by (rule exI [of _ welcome_before], rule exI [of _ "welcome_after (toISOString t)"])
      (simp only: seen, simp add: renderWelcomeEmail_def Let_def)
qed

definition sample_event :: json where
  "sample_event = JObj [(''eventId'', JStr ''e''), (''email'', JStr ''a@b.c''), (''otp'', JStr ''123456''), (''createdAt'', JStr ''0''),
     (''purpose'', JStr ''registration''), (''ttlSeconds'', JNum 300)]"

definition sample_formats :: formats where
  "sample_formats = \<lparr>valid_email = (\<lambda>_. True), valid_uuid = (\<lambda>_. True)\<rparr>"

definition sample_fate :: mail_fate where
  "sample_fate = \<lparr>mf_reserve = Reply, mf_mark = Reply, mf_release = Reply, mf_reply = SG_OK, mf_went = False, mf_begin = 1, mf_end = 2\<rparr>"

lemma sample_event_parsed:
  "OTPRequestedSchema sample_formats (\<lambda>_. Some 0) (Some sample_event) =
     Some \<lparr>oq_eventId = ''e'', oq_userId = None, oq_email = ''a@b.c'', oq_otp = ''123456'', oq_createdAt = 0,
       oq_purpose = REGISTRATION, oq_ttlSeconds = 300\<rparr>"
  by (simp add: OTPRequestedSchema_def sample_event_def sample_formats_def z_object_def z_uuid_def z_check_def z_string_def
      z_optional_def z_date_def z_enum_def z_int_def z_number_def int_of_def MAX_SAFE_INTEGER_def)

theorem otp_process_outcome_witness:
  "let (r, s') = otp_process sample_formats (\<lambda>_. Some 0) sample_idem sample_fate sample_event (mw_db sample_world)
   in r = Inr PS_PROCESSED \<and> ml_sent s' = [sample_mail] \<and> redis_get 2 (buildKey sample_idem ''e'') (ml_redis s') = Some PROCESSED"
proof -
  obtain r s' where o: "otp_process sample_formats (\<lambda>_. Some 0) sample_idem sample_fate sample_event (mw_db sample_world) = (r, s')"
    by fastforce
  have "r = Inr PS_PROCESSED" "ml_sent s' = [sample_mail]"
    using o by (auto simp: otp_process_def sample_event_parsed deliver_def then_proc_def mail_eval sample_fate_def sample_mail_def)
  with otp_process_outcome [OF o] show ?thesis unfolding o
    by (simp add: sample_event_parsed sample_fate_def delivered_def Let_def)
qed

end
