(* ===== verification/Dlq.thy ===== *)
theory Dlq
  imports Redis
begin

text \<open>
  The consumer side of \<open>packages/kafka\<close>: \<open>isNonRetryableError\<close>, \<open>wrapWithDlq\<close> and
  \<open>createDlqConsumerHandler\<close>. A handler works on a state of its own; the broker's dead letter topics are
  the list of messages produced to them. What an error says of itself (\<open>message\<close>, \<open>stack\<close>) is an argument.
  A call that returns is acknowledged by kafkajs, one that throws is delivered again.
\<close>

datatype 'j kafka_value = NoValue | NoJson | Json 'j

record 'j kafka_message =
  km_topic :: string
  km_partition :: int
  km_key :: "string option"
  km_value :: "'j kafka_value"
  km_headers :: "string \<rightharpoonup> string"

record 'j dlq_message =
  dm_topic :: string
  dm_key :: "string option"
  dm_value :: "'j kafka_value"
  dm_headers :: "string \<rightharpoonup> string"

record DlqOptions =
  do_dlqTopic :: "string option"
  do_selective :: "bool option"
  do_isCustomNonRetryable :: "(exn \<Rightarrow> bool) option"

definition no_options :: DlqOptions where
  "no_options = \<lparr>do_dlqTopic = None, do_selective = None, do_isCustomNonRetryable = None\<rparr>"

text \<open>What the environment does during a call: the connection to the broker, the moment of a dead letter
  and its ISO timestamp, the error of \<open>heartbeat\<close>, and the texts of errors.\<close>

record kafka_env =
  ke_link :: link
  ke_timestamp :: string
  ke_heartbeat :: "exn option"
  ke_message :: "exn \<Rightarrow> string"
  ke_stack :: "exn \<Rightarrow> string"

definition isNonRetryableError :: "exn \<Rightarrow> (exn \<Rightarrow> bool) option \<Rightarrow> bool" where
  "isNonRetryableError err custom \<longleftrightarrow>
     err = SyntaxError \<or> err = ZodError \<or> (case custom of None \<Rightarrow> False | Some f \<Rightarrow> f err)"

definition dead_letter :: "kafka_env \<Rightarrow> DlqOptions \<Rightarrow> exn \<Rightarrow> 'j kafka_message \<Rightarrow> 'j dlq_message" where
  "dead_letter env opts err m =
     \<lparr>dm_topic = (case do_dlqTopic opts of None \<Rightarrow> km_topic m @ ''.dlq'' | Some t \<Rightarrow> t),
      dm_key = km_key m, dm_value = km_value m,
      dm_headers = km_headers m ++
        [''x-original-topic'' \<mapsto> km_topic m, ''x-original-partition'' \<mapsto> show_int (km_partition m),
         ''x-dlq-timestamp'' \<mapsto> ke_timestamp env, ''x-dlq-reason'' \<mapsto> ''retry_exhausted'',
         ''x-dlq-error-message'' \<mapsto> ke_message env err, ''x-dlq-error-stack'' \<mapsto> take 1000 (ke_stack env err)]\<rparr>"

definition wrapWithDlq ::
  "kafka_env \<Rightarrow> DlqOptions \<Rightarrow> ('j kafka_message \<Rightarrow> ('s, unit) proc) \<Rightarrow> 'j kafka_message \<Rightarrow> ('s \<times> 'j dlq_message list, unit) proc" where
  "wrapWithDlq env opts handler m = (\<lambda>(s, dlq).
     case handler m s of
       (Inr _, s') \<Rightarrow> (Inr (), (s', dlq))
     | (Inl err, s') \<Rightarrow>
         if (case do_selective opts of None \<Rightarrow> True | Some b \<Rightarrow> b) \<and> \<not> isNonRetryableError err (do_isCustomNonRetryable opts)
         then (Inl err, (s', dlq))
         else over_link (ke_link env) (\<lambda>(s', dlq). (Inr (), (s', dlq @ [dead_letter env opts err m]))) (s', dlq))"

text \<open>\<open>finally\<close>: an error of \<open>heartbeat\<close> replaces the outcome.\<close>

definition jsonProcessor ::
  "kafka_env \<Rightarrow> ('j \<Rightarrow> 'e option) \<Rightarrow> ('e \<Rightarrow> ('s, 'r) proc) \<Rightarrow> 'j kafka_message \<Rightarrow> ('s, unit) proc" where
  "jsonProcessor env parse process m s =
     (case km_value m of
        NoValue \<Rightarrow> (Inr (), s)
      | v \<Rightarrow>
          (case (case v of
                   Json j \<Rightarrow> (case parse j of None \<Rightarrow> (Inl ZodError, s) | Some event \<Rightarrow> process event s)
                 | _ \<Rightarrow> (Inl SyntaxError, s)) of
             (r, s') \<Rightarrow>
               (case ke_heartbeat env of
                  Some e \<Rightarrow> (Inl e, s')
                | None \<Rightarrow> (case r of Inl e \<Rightarrow> (Inl e, s') | Inr _ \<Rightarrow> (Inr (), s')))))"

definition createDlqConsumerHandler ::
  "kafka_env \<Rightarrow> ('j \<Rightarrow> 'e option) \<Rightarrow> ('e \<Rightarrow> ('s, 'r) proc) \<Rightarrow> DlqOptions \<Rightarrow> 'j kafka_message \<Rightarrow> ('s \<times> 'j dlq_message list, unit) proc" where
  "createDlqConsumerHandler env parse process opts = wrapWithDlq env opts (jsonProcessor env parse process)"

text \<open>What the processing alone makes of a message.\<close>

definition attempt :: "('j \<Rightarrow> 'e option) \<Rightarrow> ('e \<Rightarrow> ('s, 'r) proc) \<Rightarrow> 'j kafka_message \<Rightarrow> ('s, unit) proc" where
  "attempt parse process m s =
     (case km_value m of
        NoValue \<Rightarrow> (Inr (), s)
      | NoJson \<Rightarrow> (Inl SyntaxError, s)
      | Json j \<Rightarrow>
          (case parse j of
             None \<Rightarrow> (Inl ZodError, s)
           | Some event \<Rightarrow> (case process event s of (r, s') \<Rightarrow> (map_sum id (\<lambda>_. ()) r, s'))))"

lemma jsonProcessor_attempt:
  "jsonProcessor env parse process m s =
     (case attempt parse process m s of
        (r, s') \<Rightarrow> (case ke_heartbeat env of Some e \<Rightarrow> if km_value m = NoValue then r else Inl e | None \<Rightarrow> r, s'))"
  by (auto simp: jsonProcessor_def attempt_def split: kafka_value.splits option.splits prod.splits sum.splits)

text \<open>No message is lost. A call that returns has processed the message without an error, or has put
  exactly one copy of it on the dead letter topic, with its key and value and the headers that tell where it
  came from and why, and then the error was one that a repetition cannot mend; a call that throws has a
  retryable error of the processing or of the heartbeat, or the broker failed to confirm the copy. The
  state is what the processing made of it in each case.\<close>

lemma dlq_loses_nothing:
  assumes "createDlqConsumerHandler env parse process opts m (s, dlq) = (r, (s', dlq'))"
    and "do_selective opts \<noteq> Some False" and "attempt parse process m s = (p, s1)"
  shows "s' = s1 \<and>
    (let failed = \<lambda>e. p = Inl e \<or> (ke_heartbeat env = Some e \<and> km_value m \<noteq> NoValue);
         hopeless = \<lambda>e. isNonRetryableError e (do_isCustomNonRetryable opts)
     in case r of
          Inr _ \<Rightarrow> (p = Inr () \<and> dlq' = dlq) \<or> (\<exists>e. failed e \<and> hopeless e \<and> dlq' = dlq @ [dead_letter env opts e m])
        | Inl e \<Rightarrow> (failed e \<and> \<not> hopeless e \<and> dlq' = dlq) \<or>
            (ke_link env \<noteq> Reply \<and> (\<exists>x. failed x \<and> hopeless x \<and> (dlq' = dlq \<or> dlq' = dlq @ [dead_letter env opts x m]))))"
  using assms
  by (cases r) (auto simp: createDlqConsumerHandler_def wrapWithDlq_def jsonProcessor_attempt over_link_def Let_def
      split: if_splits option.splits link.splits sum.splits)

end
