(* ===== verification/Search.thy ===== *)
theory Search
  imports AdminProjection Gateway Idempotency Dates Dlq
begin

text \<open>
  The write side of the search service: documents, \<open>TrainSearchRepository\<close> and \<open>StationSearchRepository\<close>
  over their Elasticsearch indices, the two projection services and their consumers. An index is a list of
  documents, each under its id; an update with a script is one step. Each call to Elasticsearch or Redis has
  a connection (\<open>link\<close>) of its own. Prices are exact.
\<close>

section \<open>Documents\<close>

record TrainScheduleStopDocument =
  tp_stationId :: ident
  tp_stationCode :: string
  tp_stationName :: string
  tp_sequenceNumber :: int
  tp_arrivalMinutes :: "int option"
  tp_departureMinutes :: "int option"
  tp_distanceFromStart :: int

record CoachDocument =
  ck_coachId :: ident
  ck_coachNumber :: string
  ck_coachType :: CoachType
  ck_totalSeats :: int
  ck_pricePerKm :: rat

record FareRangeDto =
  fr_min :: int
  fr_max :: int
  fr_currency :: string

record AvailableSeatsDto =
  av_total :: int
  av_byCoachType :: "(CoachType \<times> int) list"

record TrainScheduleDocument =
  dt_scheduleId :: ident
  dt_trainId :: ident
  dt_trainNumber :: string
  dt_trainName :: string
  dt_trainCategory :: TrainCategory
  dt_routeId :: ident
  dt_departureDate :: string
  dt_status :: ScheduleStatus
  dt_version :: int
  dt_operatingDays :: "int list"
  dt_fromStationId :: ident
  dt_toStationId :: ident
  dt_totalDistance :: int
  dt_routesServed :: "string list"
  dt_stops :: "TrainScheduleStopDocument list"
  dt_coaches :: "CoachDocument list"
  dt_fareRange :: FareRangeDto
  dt_capacity :: AvailableSeatsDto
  dt_createdAt :: string
  dt_updatedAt :: string

record StationDocument =
  sn_stationId :: ident
  sn_code :: string
  sn_name :: string
  sn_zone :: "string option"
  sn_state :: "string option"
  sn_isActive :: bool
  sn_suggest :: "string list"

record search_db =
  se_trains :: "TrainScheduleDocument list"
  se_stations :: "StationDocument list"
  se_redis :: redis

section \<open>An index\<close>

definition put_doc :: "('d \<Rightarrow> ident) \<Rightarrow> 'd \<Rightarrow> 'd list \<Rightarrow> 'd list" where
  "put_doc key d ds = (if list_ex (\<lambda>x. key x = key d) ds then map (\<lambda>x. if key x = key d then d else x) ds else ds @ [d])"

definition set_doc :: "('d \<Rightarrow> ident) \<Rightarrow> ident \<Rightarrow> ('d \<Rightarrow> 'd) \<Rightarrow> 'd list \<Rightarrow> 'd list" where
  "set_doc key i f ds = map (\<lambda>x. if key x = i then f x else x) ds"

section \<open>TrainSearchRepository\<close>

definition trains_upsert :: "link \<Rightarrow> TrainScheduleDocument \<Rightarrow> (search_db, unit) proc" where
  "trains_upsert lk doc = over_link lk (\<lambda>s.
     (Inr (), s\<lparr>se_trains :=
        (case find_row (\<lambda>d. dt_scheduleId d = dt_scheduleId doc) (se_trains s) of
           Some d \<Rightarrow> if dt_version d \<le> dt_version doc then put_doc dt_scheduleId doc (se_trains s) else se_trains s
         | None \<Rightarrow> put_doc dt_scheduleId doc (se_trains s))\<rparr>))"

datatype UpdateStatusResult = UR_APPLIED | UR_NOT_FOUND | UR_STALE

definition trains_updateStatus :: "link \<Rightarrow> time \<Rightarrow> ident \<Rightarrow> ScheduleStatus \<Rightarrow> int \<Rightarrow> (search_db, UpdateStatusResult) proc" where
  "trains_updateStatus lk now scheduleId status version = over_link lk (\<lambda>s.
     case find_row (\<lambda>d. dt_scheduleId d = scheduleId) (se_trains s) of
       None \<Rightarrow> (Inr UR_NOT_FOUND, s)
     | Some d \<Rightarrow>
         if dt_version d < version
         then (Inr UR_APPLIED, s\<lparr>se_trains := set_doc dt_scheduleId scheduleId
                 (\<lambda>d. d\<lparr>dt_status := status, dt_version := version, dt_updatedAt := toISOString now\<rparr>) (se_trains s)\<rparr>)
         else (Inr UR_STALE, s))"

definition findScheduleById :: "link \<Rightarrow> ident \<Rightarrow> search_db \<Rightarrow> exn + TrainScheduleDocument option" where
  "findScheduleById lk scheduleId s =
     (if lk \<noteq> Reply then Inl (PlainError ''connection'') else Inr (find_row (\<lambda>d. dt_scheduleId d = scheduleId) (se_trains s)))"

section \<open>StationSearchRepository\<close>

definition stations_upsert :: "link \<Rightarrow> StationDocument \<Rightarrow> (search_db, unit) proc" where
  "stations_upsert lk doc = over_link lk (\<lambda>s. (Inr (), s\<lparr>se_stations := put_doc sn_stationId doc (se_stations s)\<rparr>))"

text \<open>A missing document is not an error.\<close>

definition updateActiveStatus :: "link \<Rightarrow> ident \<Rightarrow> bool \<Rightarrow> (search_db, unit) proc" where
  "updateActiveStatus lk stationId isActive = over_link lk (\<lambda>s.
     (Inr (), s\<lparr>se_stations := set_doc sn_stationId stationId (\<lambda>d. d\<lparr>sn_isActive := isActive\<rparr>) (se_stations s)\<rparr>))"

section \<open>From events to documents\<close>

definition PRICE_PER_KM_BY_CATEGORY :: "(TrainCategory \<times> rat) list" where
  "PRICE_PER_KM_BY_CATEGORY = [(RAJDHANI, 17/10), (SHATABDI, 16/10), (VANDE_BHARAT, 18/10), (DURONTO, 15/10), (SUPERFAST, 12/10),
     (PASSENGER, 5/10), (EXPRESS, 9/10), (DEMU, 45/100), (MEMU, 45/100)]"

definition pricePerKmForCategory :: "TrainCategory \<Rightarrow> rat" where
  "pricePerKmForCategory category = (case map_of PRICE_PER_KM_BY_CATEGORY category of None \<Rightarrow> 1 | Some p \<Rightarrow> p)"

definition route_tag :: "ident \<Rightarrow> ident \<Rightarrow> string" where
  "route_tag fromId toId = fromId @ '':'' @ toId"

fun computeRoutesServed :: "ident list \<Rightarrow> string list" where
  "computeRoutesServed [] = []"
| "computeRoutesServed (fromId # ids) =
     (if fromId = [] then [] else map (route_tag fromId) (filter (\<lambda>toId. toId \<noteq> []) ids)) @ computeRoutesServed ids"

definition Math_round :: "rat \<Rightarrow> int" where "Math_round x = \<lfloor>x + 1/2\<rfloor>"

text \<open>\<open>None\<close> stands for \<open>Number.POSITIVE_INFINITY\<close>.\<close>

definition lower_fare :: "rat \<Rightarrow> rat option \<Rightarrow> rat option" where
  "lower_fare x m = (case m of None \<Rightarrow> Some x | Some y \<Rightarrow> if x < y then Some x else m)"

definition computeFareRange :: "CoachDocument list \<Rightarrow> int \<Rightarrow> FareRangeDto" where
  "computeFareRange coaches totalDistance =
     (let fares = map (\<lambda>c. ck_pricePerKm c * of_int totalDistance) coaches;
          minFare = fold lower_fare fares None;
          maxFare = fold (\<lambda>x m. if x > m then x else m) fares 0
      in \<lparr>fr_min = Math_round (case minFare of None \<Rightarrow> 0 | Some x \<Rightarrow> x), fr_max = Math_round maxFare, fr_currency = ''INR''\<rparr>)"

fun add_seats :: "CoachType \<Rightarrow> int \<Rightarrow> (CoachType \<times> int) list \<Rightarrow> (CoachType \<times> int) list" where
  "add_seats t n [] = [(t, n)]"
| "add_seats t n ((u, k) # acc) = (if u = t then (u, k + n) # acc else (u, k) # add_seats t n acc)"

definition computeCapacity :: "CoachDocument list \<Rightarrow> AvailableSeatsDto" where
  "computeCapacity coaches =
     \<lparr>av_total = foldl (\<lambda>acc c. acc + ck_totalSeats c) 0 coaches,
      av_byCoachType = foldl (\<lambda>acc c. add_seats (ck_coachType c) (ck_totalSeats c) acc) [] coaches\<rparr>"

definition stop_document :: "stop_snapshot \<Rightarrow> TrainScheduleStopDocument" where
  "stop_document s = \<lparr>tp_stationId = pn_stationId s, tp_stationCode = pn_stationCode s, tp_stationName = pn_stationName s,
     tp_sequenceNumber = pn_stopNumber s, tp_arrivalMinutes = pn_arrivalMinutes s, tp_departureMinutes = pn_departureMinutes s,
     tp_distanceFromStart = pn_distanceFromStart s\<rparr>"

definition toDocument :: "AdminContracts.ScheduleCreatedEventV1 \<Rightarrow> TrainScheduleDocument" where
  "toDocument e =
     (let sortedStops = sort_key pn_stopNumber (hc_stops e);
          totalDistance = (if sortedStops = [] then 0 else pn_distanceFromStart (last sortedStops));
          coaches = map (\<lambda>c. \<lparr>ck_coachId = kn_coachId c, ck_coachNumber = kn_coachNumber c, ck_coachType = kn_coachType c,
            ck_totalSeats = kn_totalSeats c, ck_pricePerKm = pricePerKmForCategory (hc_trainCategory e)\<rparr>) (hc_coaches e)
      in \<lparr>dt_scheduleId = hc_scheduleId e, dt_trainId = hc_trainId e, dt_trainNumber = hc_trainNumber e,
          dt_trainName = hc_trainName e, dt_trainCategory = hc_trainCategory e, dt_routeId = hc_routeId e,
          dt_departureDate = take 10 (toISOString (hc_departureDate e)), dt_status = hc_status e, dt_version = hc_version e,
          dt_operatingDays = hc_operatingDays e,
          dt_fromStationId = (if sortedStops = [] then [] else pn_stationId (hd sortedStops)),
          dt_toStationId = (if sortedStops = [] then [] else pn_stationId (last sortedStops)),
          dt_totalDistance = totalDistance, dt_routesServed = computeRoutesServed (map pn_stationId sortedStops),
          dt_stops = map stop_document sortedStops, dt_coaches = coaches, dt_fareRange = computeFareRange coaches totalDistance,
          dt_capacity = computeCapacity coaches, dt_createdAt = toISOString (hc_createdAt e), dt_updatedAt = toISOString (hc_createdAt e)\<rparr>)"

definition station_document :: "ident \<Rightarrow> string \<Rightarrow> string \<Rightarrow> string \<Rightarrow> string \<Rightarrow> bool \<Rightarrow> StationDocument" where
  "station_document i code name zone st isActive =
     \<lparr>sn_stationId = i, sn_code = code, sn_name = name, sn_zone = Some zone, sn_state = Some st, sn_isActive = isActive,
      sn_suggest = map lower (filter (\<lambda>v. v \<noteq> []) [name, code, zone, st])\<rparr>"

section \<open>Projection services\<close>

datatype ProjectionOutcome = PR_APPLIED | PR_DEDUPED

record search_fate =
  sf_reserve :: link
  sf_write :: link
  sf_mark :: link
  sf_release :: link
  sf_begin :: time
  sf_end :: time

definition on_keys :: "(redis, 'a) proc \<Rightarrow> (search_db, 'a) proc" where
  "on_keys m s = (case m (se_redis s) of (r, st) \<Rightarrow> (r, s\<lparr>se_redis := st\<rparr>))"

text \<open>Both services have the same \<open>dispatch\<close>.\<close>

definition dispatch :: "idem_config \<Rightarrow> search_fate \<Rightarrow> ident \<Rightarrow> (search_db, unit) proc \<Rightarrow> (search_db, ProjectionOutcome) proc" where
  "dispatch c f eventId apply_event =
     then_proc (on_keys (reserveIfNew c (sf_reserve f) (sf_begin f) eventId)) (\<lambda>reserved s1.
       if \<not> reserved then (Inr PR_DEDUPED, s1)
       else (case then_proc apply_event (\<lambda>_. on_keys (markProcessed c (sf_mark f) (sf_end f) eventId)) s1 of
           (Inr _, s2) \<Rightarrow> (Inr PR_APPLIED, s2)
         | (Inl err, s2) \<Rightarrow> (Inl err, snd (on_keys (release c (sf_release f) (sf_end f) eventId) s2))))"

definition applyCreated :: "idem_config \<Rightarrow> search_fate \<Rightarrow> AdminContracts.ScheduleCreatedEventV1 \<Rightarrow> (search_db, ProjectionOutcome) proc" where
  "applyCreated c f event = dispatch c f (hc_eventId event) (trains_upsert (sf_write f) (toDocument event))"

definition applyStatusChange :: "idem_config \<Rightarrow> search_fate \<Rightarrow> AdminContracts.ScheduleStatusChangedEventV1 \<Rightarrow> (search_db, ProjectionOutcome) proc" where
  "applyStatusChange c f event = dispatch c f (hs_eventId event)
     (then_proc (trains_updateStatus (sf_write f) (sf_end f) (hs_scheduleId event) (hs_status event) (hs_version event)) (\<lambda>result s.
        if result = UR_NOT_FOUND then (Inl (PlainError ''Schedule status update deferred''), s) else (Inr (), s)))"

definition applyUpsert :: "idem_config \<Rightarrow> search_fate \<Rightarrow> ident \<Rightarrow> StationDocument \<Rightarrow> (search_db, ProjectionOutcome) proc" where
  "applyUpsert c f eventId doc = dispatch c f eventId (stations_upsert (sf_write f) doc)"

definition applyDeactivated :: "idem_config \<Rightarrow> search_fate \<Rightarrow> StationDeactivatedEventV1 \<Rightarrow> (search_db, ProjectionOutcome) proc" where
  "applyDeactivated c f event = dispatch c f (nd_eventId event) (updateActiveStatus (sf_write f) (nd_stationId event) False)"

section \<open>Consumers\<close>

text \<open>Each topic has its consumer; a parsed value is an event of the topic. \<open>schema\<close> is the contract's; those of
  the stations check nothing but types and the form of identifiers.\<close>

definition zschema :: "('e \<Rightarrow> bool) \<Rightarrow> 'e \<Rightarrow> 'e option" where
  "zschema schema e = (if schema e then Some e else None)"

definition schedule_created_handler ::
  "kafka_env \<Rightarrow> idem_config \<Rightarrow> search_fate \<Rightarrow> AdminContracts.ScheduleCreatedEventV1 kafka_message \<Rightarrow>
   (search_db \<times> AdminContracts.ScheduleCreatedEventV1 dlq_message list, unit) proc" where
  "schedule_created_handler env c f = createDlqConsumerHandler env (zschema schedule_created_schema) (applyCreated c f) no_options"

definition schedule_status_handler ::
  "kafka_env \<Rightarrow> idem_config \<Rightarrow> search_fate \<Rightarrow> AdminContracts.ScheduleStatusChangedEventV1 kafka_message \<Rightarrow>
   (search_db \<times> AdminContracts.ScheduleStatusChangedEventV1 dlq_message list, unit) proc" where
  "schedule_status_handler env c f = createDlqConsumerHandler env (zschema schedule_status_schema) (applyStatusChange c f) no_options"

definition station_created_handler ::
  "kafka_env \<Rightarrow> idem_config \<Rightarrow> search_fate \<Rightarrow> StationCreatedEventV1 kafka_message \<Rightarrow>
   (search_db \<times> StationCreatedEventV1 dlq_message list, unit) proc" where
  "station_created_handler env c f = createDlqConsumerHandler env (zschema (\<lambda>_. True))
     (\<lambda>e. applyUpsert c f (nc_eventId e)
        (station_document (nc_stationId e) (nc_stationCode e) (nc_stationName e) (nc_zone e) (nc_state e) (nc_isActive e))) no_options"

definition station_updated_handler ::
  "kafka_env \<Rightarrow> idem_config \<Rightarrow> search_fate \<Rightarrow> StationUpdatedEventV1 kafka_message \<Rightarrow>
   (search_db \<times> StationUpdatedEventV1 dlq_message list, unit) proc" where
  "station_updated_handler env c f = createDlqConsumerHandler env (zschema (\<lambda>_. True))
     (\<lambda>e. applyUpsert c f (nu_eventId e)
        (station_document (nu_stationId e) (nu_stationCode e) (nu_stationName e) (nu_zone e) (nu_state e) (nu_isActive e))) no_options"

definition station_deactivated_handler ::
  "kafka_env \<Rightarrow> idem_config \<Rightarrow> search_fate \<Rightarrow> StationDeactivatedEventV1 kafka_message \<Rightarrow>
   (search_db \<times> StationDeactivatedEventV1 dlq_message list, unit) proc" where
  "station_deactivated_handler env c f = createDlqConsumerHandler env (zschema (\<lambda>_. True)) (applyDeactivated c f) no_options"

end
