(* ===== verification/SearchProps.thy ===== *)
theory SearchProps
  imports Search
begin

text \<open>
  The train index converges to the schedules of the admin service. The two schedule topics are consumed
  side by side, so events arrive in any order and any number of times, and any command of an attempt may
  fail. This theory has the invariant of the index and of the markers of its projection service, and what
  each write and one \<open>dispatch\<close> do to it; \<open>wf_events\<close> is what the proof needs of the events.
\<close>

section \<open>Events\<close>

fun ev_id :: "admin_event \<Rightarrow> ident" where
  "ev_id (ScheduleCreated e) = hc_eventId e"
| "ev_id (ScheduleStatusChanged e) = hs_eventId e"
| "ev_id _ = []"

fun ev_schedule :: "admin_event \<Rightarrow> ident" where
  "ev_schedule (ScheduleCreated e) = hc_scheduleId e"
| "ev_schedule (ScheduleStatusChanged e) = hs_scheduleId e"
| "ev_schedule _ = []"

fun ev_version :: "admin_event \<Rightarrow> int" where
  "ev_version (ScheduleCreated e) = hc_version e"
| "ev_version (ScheduleStatusChanged e) = hs_version e"
| "ev_version _ = 0"

fun ev_status :: "admin_event \<Rightarrow> ScheduleStatus" where
  "ev_status (ScheduleCreated e) = hc_status e"
| "ev_status (ScheduleStatusChanged e) = hs_status e"
| "ev_status _ = Sch_DRAFT"

definition schedule_events :: "adb \<Rightarrow> admin_event set" where
  "schedule_events db = {e \<in> set (payloads db). schedule_event e}"

definition wf_events :: "admin_event set \<Rightarrow> bool" where
  "wf_events E \<longleftrightarrow> (\<forall>e \<in> E. schedule_event e) \<and> inj_on ev_id E \<and>
     (\<forall>e \<in> E. \<forall>e' \<in> E. ev_schedule e = ev_schedule e' \<and> ev_version e = ev_version e' \<longrightarrow> e = e') \<and>
     (\<forall>c c'. ScheduleCreated c \<in> E \<and> ScheduleCreated c' \<in> E \<and> hc_scheduleId c = hc_scheduleId c' \<longrightarrow> c = c')"

lemma wf_eventsD:
  assumes "wf_events E"
  shows "e \<in> E \<Longrightarrow> schedule_event e" and "e \<in> E \<Longrightarrow> e' \<in> E \<Longrightarrow> ev_id e = ev_id e' \<Longrightarrow> e = e'"
    and "e \<in> E \<Longrightarrow> e' \<in> E \<Longrightarrow> ev_schedule e = ev_schedule e' \<Longrightarrow> ev_version e = ev_version e' \<Longrightarrow> e = e'"
    and "ScheduleCreated c \<in> E \<Longrightarrow> ScheduleCreated c' \<in> E \<Longrightarrow> hc_scheduleId c = hc_scheduleId c' \<Longrightarrow> c = c'"
  using assms by (auto simp: wf_events_def inj_on_def)

section \<open>The index\<close>

text \<open>A fate is orderly when the answer to a reservation is not lost, a failed attempt gives its reservation
  up, and it does so within the lease.\<close>

definition orderly :: "idem_config \<Rightarrow> search_fate \<Rightarrow> bool" where
  "orderly c f \<longleftrightarrow> sf_reserve f \<noteq> ReplyLost \<and> sf_release f = Reply \<and> sf_begin f \<le> sf_end f \<and>
     sf_end f < sf_begin f + processingLeaseSeconds c * 1000"

definition empty_search :: search_db where
  "empty_search = \<lparr>se_trains = [], se_stations = [], se_redis = Map.empty\<rparr>"

definition reached :: "search_db \<Rightarrow> admin_event \<Rightarrow> bool" where
  "reached s e \<longleftrightarrow> (\<exists>d \<in> set (se_trains s). dt_scheduleId d = ev_schedule e \<and> ev_version e \<le> dt_version d)"

definition doc_of :: "admin_event set \<Rightarrow> TrainScheduleDocument \<Rightarrow> bool" where
  "doc_of E d \<longleftrightarrow> (\<exists>c e u. ScheduleCreated c \<in> E \<and> e \<in> E \<and> ev_schedule e = hc_scheduleId c \<and>
     d = (toDocument c)\<lparr>dt_status := ev_status e, dt_version := ev_version e, dt_updatedAt := u\<rparr>)"

definition index_ok :: "admin_event set \<Rightarrow> search_db \<Rightarrow> bool" where
  "index_ok E s \<longleftrightarrow> distinct (map dt_scheduleId (se_trains s)) \<and> (\<forall>d \<in> set (se_trains s). doc_of E d)"

definition marks_ok :: "admin_event set \<Rightarrow> idem_config \<Rightarrow> search_db \<Rightarrow> bool" where
  "marks_ok E c s \<longleftrightarrow> (\<forall>k \<in> dom (se_redis s). \<exists>e \<in> E. k = buildKey c (ev_id e) \<and> reached s e)"

lemma toDocument_id [simp]: "dt_scheduleId (toDocument c) = hc_scheduleId c" "dt_version (toDocument c) = hc_version c"
  "dt_status (toDocument c) = hc_status c" "dt_trainId (toDocument c) = hc_trainId c"
  "dt_departureDate (toDocument c) = take 10 (toISOString (hc_departureDate c))"
  by (simp_all add: toDocument_def Let_def)

lemma doc_of_created: "ScheduleCreated c \<in> E \<Longrightarrow> doc_of E (toDocument c)"
  unfolding doc_of_def
  by (rule exI [of _ c], rule exI [of _ "ScheduleCreated c"], rule exI [of _ "dt_updatedAt (toDocument c)"]) simp

section \<open>Writes\<close>

lemma put_doc_set:
  assumes "distinct (map key ds)"
  shows "distinct (map key (put_doc key d ds))" "set (put_doc key d ds) = insert d {x \<in> set ds. key x \<noteq> key d}"
proof -
  have "map key (map (\<lambda>x. if key x = key d then d else x) ds) = map key ds" by auto
  then show "distinct (map key (put_doc key d ds))" using assms by (auto simp: put_doc_def list_ex_iff simp del: map_map)
  show "set (put_doc key d ds) = insert d {x \<in> set ds. key x \<noteq> key d}" by (auto simp: put_doc_def list_ex_iff image_iff)
qed

lemma set_doc_set:
  assumes "distinct (map key ds)" and "d \<in> set ds"
  shows "set (set_doc key (key d) f ds) = insert (f d) {x \<in> set ds. key x \<noteq> key d}"
proof -
  have "x = d" if "x \<in> set ds" "key x = key d" for x
    using assms that by (simp add: distinct_map inj_on_def)
  then have "{x \<in> set ds. key x = key d} = {d}" using assms(2) by auto
  moreover have "set (set_doc key (key d) f ds) = f ` {x \<in> set ds. key x = key d} \<union> {x \<in> set ds. key x \<noteq> key d}"
    by (auto simp: set_doc_def)
  ultimately show ?thesis by simp
qed

definition grows_to :: "search_db \<Rightarrow> search_db \<Rightarrow> bool" where
  "grows_to s s' \<longleftrightarrow> (\<forall>e. reached s e \<longrightarrow> reached s' e)"

definition plain :: "exn + 'a \<Rightarrow> bool" where
  "plain r \<longleftrightarrow> (case r of Inr _ \<Rightarrow> True | Inl err \<Rightarrow> (\<exists>msg. err = PlainError msg))"

lemma plain_simps [simp]: "plain (Inr x)" "plain (Inl err) \<longleftrightarrow> (\<exists>msg. err = PlainError msg)"
  by (simp_all add: plain_def)

text \<open>What the write of an event does to the index: nothing or a document that has come as far.\<close>

definition writes :: "admin_event set \<Rightarrow> admin_event \<Rightarrow> (search_db, unit) proc \<Rightarrow> bool" where
  "writes E e w \<longleftrightarrow> (\<forall>s r s'. w s = (r, s') \<and> index_ok E s \<longrightarrow>
     index_ok E s' \<and> grows_to s s' \<and> se_redis s' = se_redis s \<and> (r = Inr () \<longrightarrow> reached s' e) \<and> plain r)"

lemma grows_refl: "grows_to s s"
  by (simp add: grows_to_def)

lemma grows_cong: "se_trains s' = se_trains s \<Longrightarrow> grows_to s s'" "se_trains s' = se_trains s \<Longrightarrow> index_ok E s' = index_ok E s"
  "se_trains s' = se_trains s \<Longrightarrow> reached s' = reached s"
  by (auto simp: grows_to_def reached_def index_ok_def)

lemma writes_link:
  assumes "\<And>s. index_ok E s \<Longrightarrow> index_ok E (snd (w s)) \<and> grows_to s (snd (w s)) \<and> se_redis (snd (w s)) = se_redis s \<and>
      (fst (w s) = Inr () \<longrightarrow> reached (snd (w s)) e) \<and> plain (fst (w s))"
  shows "writes E e (over_link lk w)"
  unfolding writes_def
proof (intro allI impI, elim conjE)
  fix s r s'
  assume "over_link lk w s = (r, s')" and "index_ok E s"
  with assms [of s] show "index_ok E s' \<and> grows_to s s' \<and> se_redis s' = se_redis s \<and> (r = Inr () \<longrightarrow> reached s' e) \<and> plain r"
    by (cases lk; cases "w s") (auto simp: over_link_def grows_refl)
qed

lemma put_grows:
  assumes "index_ok E s" and "\<And>d. find_row (\<lambda>d. dt_scheduleId d = dt_scheduleId doc) (se_trains s) = Some d \<Longrightarrow> dt_version d \<le> dt_version doc"
    and "se_trains s' = put_doc dt_scheduleId doc (se_trains s)"
  shows "grows_to s s'"
  unfolding grows_to_def
proof (intro allI impI)
  fix e
  assume "reached s e"
  then obtain x where x: "x \<in> set (se_trains s)" "dt_scheduleId x = ev_schedule e" "ev_version e \<le> dt_version x"
    by (auto simp: reached_def)
  have dis: "distinct (map dt_scheduleId (se_trains s))" using assms(1) by (simp add: index_ok_def)
  note set' = put_doc_set(2) [OF dis, of doc, folded assms(3)]
  show "reached s' e"
  proof (cases "dt_scheduleId x = dt_scheduleId doc")
    case True
    then have "find_row (\<lambda>d. dt_scheduleId d = dt_scheduleId doc) (se_trains s) = Some x"
      using find_row_unique [OF dis x(1)] by simp
    with assms(2) x True show ?thesis unfolding reached_def set' by force
  next
    case False
    with x show ?thesis unfolding reached_def set' by auto
  qed
qed

lemma writes_created:
  assumes "ScheduleCreated x \<in> E"
  shows "writes E (ScheduleCreated x) (trains_upsert lk (toDocument x))"
  unfolding trains_upsert_def
proof (rule writes_link, goal_cases)
  case (1 s)
  then have dis: "distinct (map dt_scheduleId (se_trains s))" and docs: "\<forall>d \<in> set (se_trains s). doc_of E d"
    by (simp_all add: index_ok_def)
  let ?doc = "toDocument x" and ?s = "s\<lparr>se_trains := put_doc dt_scheduleId (toDocument x) (se_trains s)\<rparr>"
  let ?r = "find_row (\<lambda>d. dt_scheduleId d = dt_scheduleId ?doc) (se_trains s)"
  have put: "index_ok E ?s" "reached ?s (ScheduleCreated x)"
    using put_doc_set [OF dis, of ?doc] docs doc_of_created [OF assms] by (auto simp: index_ok_def reached_def)
  show ?case
  proof (cases "\<exists>d. ?r = Some d \<and> dt_version ?doc < dt_version d")
    case True
    then obtain d where d: "?r = Some d" "dt_version ?doc < dt_version d" by blast
    with find_row_Some [OF d(1)] have "reached s (ScheduleCreated x)" by (force simp: reached_def)
    with 1 d show ?thesis by (simp add: grows_refl)
  next
    case False
    then have "grows_to s ?s" by (intro put_grows [OF 1, of ?doc]) auto
    with False put show ?thesis by (auto split: option.splits)
  qed
qed

lemma writes_changed:
  assumes "ScheduleStatusChanged x \<in> E"
  shows "writes E (ScheduleStatusChanged x) (then_proc (trains_updateStatus lk now (hs_scheduleId x) (hs_status x) (hs_version x)) (\<lambda>result s.
    if result = UR_NOT_FOUND then (Inl (PlainError ''Schedule status update deferred''), s) else (Inr (), s)))"
proof -
  let ?f = "\<lambda>d. d\<lparr>dt_status := hs_status x, dt_version := hs_version x, dt_updatedAt := toISOString now\<rparr>"
  let ?u = "\<lambda>s. case find_row (\<lambda>d. dt_scheduleId d = hs_scheduleId x) (se_trains s) of
       None \<Rightarrow> (Inl (PlainError ''Schedule status update deferred''), s)
     | Some d \<Rightarrow> if dt_version d < hs_version x then (Inr (), s\<lparr>se_trains := set_doc dt_scheduleId (hs_scheduleId x) ?f (se_trains s)\<rparr>)
         else (Inr (), s)"
  have "index_ok E (snd (?u s)) \<and> grows_to s (snd (?u s)) \<and> se_redis (snd (?u s)) = se_redis s \<and>
      (fst (?u s) = Inr () \<longrightarrow> reached (snd (?u s)) (ScheduleStatusChanged x)) \<and> plain (fst (?u s))" if ok: "index_ok E s" for s
  proof (cases "find_row (\<lambda>d. dt_scheduleId d = hs_scheduleId x) (se_trains s)")
    case None
    then show ?thesis using ok by (simp add: grows_refl)
  next
    case (Some d)
    from find_row_Some [OF this] have d: "d \<in> set (se_trains s)" "dt_scheduleId d = hs_scheduleId x" by auto
    have dis: "distinct (map dt_scheduleId (se_trains s))" and docs: "\<forall>d \<in> set (se_trains s). doc_of E d"
      using ok by (simp_all add: index_ok_def)
    have only: "y = d" if "y \<in> set (se_trains s)" "dt_scheduleId y = hs_scheduleId x" for y
      by (rule unique_find [OF dis Some that])
    show ?thesis
    proof (cases "dt_version d < hs_version x")
      case False
      then have "reached s (ScheduleStatusChanged x)" using d by (auto simp: reached_def)
      with False Some ok show ?thesis by (simp add: grows_refl)
    next
      case True
      let ?s = "s\<lparr>se_trains := set_doc dt_scheduleId (hs_scheduleId x) ?f (se_trains s)\<rparr>"
      have in': "set (se_trains ?s) = insert (?f d) {y \<in> set (se_trains s). dt_scheduleId y \<noteq> hs_scheduleId x}"
        using set_doc_set [OF dis d(1), of ?f] d(2) by simp
      have "map dt_scheduleId (se_trains ?s) = map dt_scheduleId (se_trains s)" by (simp add: set_doc_def)
      moreover have "doc_of E (?f d)"
      proof -
        from docs d(1) obtain c e u where c: "ScheduleCreated c \<in> E" "e \<in> E" "ev_schedule e = hc_scheduleId c"
          "d = (toDocument c)\<lparr>dt_status := ev_status e, dt_version := ev_version e, dt_updatedAt := u\<rparr>"
          by (auto simp: doc_of_def)
        have eq: "?f d = (toDocument c)\<lparr>dt_status := ev_status (ScheduleStatusChanged x), dt_version := ev_version (ScheduleStatusChanged x),
            dt_updatedAt := toISOString now\<rparr>"
          unfolding c(4) by simp
        have "ev_schedule (ScheduleStatusChanged x) = hc_scheduleId c" using d(2) unfolding c(4) by simp
        with c(1) assms eq show ?thesis unfolding doc_of_def by blast
      qed
      ultimately have "index_ok E ?s" using dis docs unfolding index_ok_def in' by auto
      moreover have "grows_to s ?s" unfolding grows_to_def
      proof (intro allI impI)
        fix e
        assume "reached s e"
        then obtain y where y: "y \<in> set (se_trains s)" "dt_scheduleId y = ev_schedule e" "ev_version e \<le> dt_version y"
          by (auto simp: reached_def)
        show "reached ?s e"
        proof (cases "dt_scheduleId y = hs_scheduleId x")
          case yes: True
          with only [OF y(1)] y True show ?thesis unfolding reached_def in' by auto
        next
          case False
          with y show ?thesis unfolding reached_def in' by auto
        qed
      qed
      moreover have "reached ?s (ScheduleStatusChanged x)" unfolding reached_def in' using d by auto
      ultimately show ?thesis using Some True by simp
    qed
  qed
  then have "writes E (ScheduleStatusChanged x) (over_link lk ?u)" by (rule writes_link)
  moreover have "then_proc (trains_updateStatus lk now (hs_scheduleId x) (hs_status x) (hs_version x)) (\<lambda>result s.
      if result = UR_NOT_FOUND then (Inl (PlainError ''Schedule status update deferred''), s) else (Inr (), s)) = over_link lk ?u"
    by (rule ext) (auto simp: then_proc_def trains_updateStatus_def over_link_def split: link.splits option.splits)
  ultimately show ?thesis by simp
qed

section \<open>Dispatch\<close>

lemma release_dom: "dom (snd (release c lk t i st)) \<subseteq> dom st"
  by (cases lk) (auto simp: release_def over_link_def releaseIfProcessing_def redis_del_def)

lemma mark_dom: "dom (snd (markProcessed c lk t i st)) \<subseteq> insert (buildKey c i) (dom st)"
  by (cases lk) (auto simp: markProcessed_def over_link_def redis_set_ex_def)

lemma reserve_won:
  assumes "reserveIfNew c lk t i st = (Inr True, st1)"
  shows "st1 = st(buildKey c i \<mapsto> (PROCESSING, Some (t + processingLeaseSeconds c * 1000)))"
  using assms unfolding reserveIfNew_def over_link_Inr by (simp add: redis_set_nx_ex_def split: if_splits)

lemma reserved_released:
  assumes "reserveIfNew c lk t i st = (Inr True, st1)" and "t \<le> u" and "u < t + processingLeaseSeconds c * 1000"
  shows "dom (snd (release c Reply u i st1)) \<subseteq> dom st"
proof -
  have "redis_get u (buildKey c i) st1 = Some PROCESSING"
    unfolding reserve_won [OF assms(1)] by (simp add: redis_get_upd assms(3))
  then have "snd (release c Reply u i st1) = st1(buildKey c i := None)"
    by (simp add: release_def over_link_def releaseIfProcessing_def redis_del_def)
  then show ?thesis unfolding reserve_won [OF assms(1)] by auto
qed

lemma reserve_refused:
  assumes "reserveIfNew c lk t i st = (a, st1)" and "a \<noteq> Inr True" and "lk \<noteq> ReplyLost"
  shows "st1 = st" and "a = Inr False \<Longrightarrow> buildKey c i \<in> dom st"
  using assms by (cases lk; auto simp: reserveIfNew_def over_link_def redis_set_nx_ex_def redis_get_def split: if_splits option.splits)+

lemma reserve_dom: "reserveIfNew c lk t i st = (Inr True, st1) \<Longrightarrow> dom st1 \<subseteq> insert (buildKey c i) (dom st)"
  by (drule reserve_won) auto

lemma call_plain:
  "reserveIfNew c lk t i st = (a, st1) \<Longrightarrow> plain a" "markProcessed c lk t i st = (a, st1) \<Longrightarrow> plain a"
  by (cases lk; auto simp: reserveIfNew_def markProcessed_def over_link_def redis_set_nx_ex_def redis_set_ex_def split: if_splits)+

lemma marks_ok_step:
  assumes "marks_ok E c s" and "grows_to s s'" and "e \<in> E"
    and "dom (se_redis s') \<subseteq> dom (se_redis s) \<or> (reached s' e \<and> dom (se_redis s') \<subseteq> insert (buildKey c (ev_id e)) (dom (se_redis s)))"
  shows "marks_ok E c s'"
  unfolding marks_ok_def
proof
  fix k
  assume "k \<in> dom (se_redis s')"
  with assms(4) consider "k \<in> dom (se_redis s)" | "reached s' e" "k = buildKey c (ev_id e)" by blast
  then show "\<exists>e \<in> E. k = buildKey c (ev_id e) \<and> reached s' e"
    using assms(1,2,3) unfolding marks_ok_def grows_to_def by cases blast+
qed

lemma dispatch_ok:
  assumes w: "writes E e w" and e: "e \<in> E" and wf: "wf_events E" and f: "orderly c f"
    and ok: "index_ok E s" "marks_ok E c s" and d: "dispatch c f (ev_id e) w s = (r, s')"
  shows "index_ok E s' \<and> marks_ok E c s' \<and> grows_to s s' \<and> (\<forall>out. r = Inr out \<longrightarrow> reached s' e) \<and> plain r"
proof -
  let ?k = "buildKey c (ev_id e)"
  obtain a st where res: "reserveIfNew c (sf_reserve f) (sf_begin f) (ev_id e) (se_redis s) = (a, st)" by fastforce
  define s1 where "s1 = s\<lparr>se_redis := st\<rparr>"
  have reserve: "on_keys (reserveIfNew c (sf_reserve f) (sf_begin f) (ev_id e)) s = (a, s1)"
    by (simp add: on_keys_def res s1_def)
  show ?thesis
  proof (cases "a = Inr True")
    case False
    then have "st = se_redis s" using reserve_refused(1) [OF res] f by (simp add: orderly_def)
    then have "s1 = s" by (simp add: s1_def)
    with False d reserve have s': "s' = s" "r = Inr out \<Longrightarrow> a = Inr False" and p: "plain r" for out
      using call_plain(1) [OF res] by (auto simp: dispatch_def then_proc_def plain_def split: sum.splits if_splits)
    have "reached s e" if "a = Inr False"
    proof -
      from reserve_refused(2) [OF res False _ that] f have "?k \<in> dom (se_redis s)" by (simp add: orderly_def)
      with ok(2) obtain e' where "e' \<in> E" "?k = buildKey c (ev_id e')" "reached s e'" unfolding marks_ok_def by blast
      with wf_eventsD(2) [OF wf e] show ?thesis by auto
    qed
    with s' p ok show ?thesis by (auto simp: grows_refl)
  next
    case True
    note won = res [unfolded True]
    obtain b s2 where w2: "w s1 = (b, s2)" by fastforce
    have "index_ok E s1" using ok(1) grows_cong(2) [of s1 s] by (simp add: s1_def)
    with w w2 have i2: "index_ok E s2" and g2: "grows_to s1 s2" and r2: "se_redis s2 = st" and reach: "b = Inr () \<Longrightarrow> reached s2 e" and pb: "plain b"
      unfolding writes_def by (blast, blast, (auto simp: s1_def)[1], blast, blast)
    have g: "grows_to s s2" using g2 grows_cong(3) [of s1 s] by (simp add: s1_def grows_to_def)
    have rel: "dom (snd (release c (sf_release f) (sf_end f) (ev_id e) st)) \<subseteq> dom (se_redis s)"
      using reserved_released [OF won] f by (simp add: orderly_def)
    have rel': "dom (snd (release c (sf_release f) (sf_end f) (ev_id e) st')) \<subseteq> dom st'" for st'
      by (rule release_dom)
    have mark: "dom (snd (markProcessed c (sf_mark f) (sf_end f) (ev_id e) st)) \<subseteq> insert ?k (dom (se_redis s))"
      using mark_dom [of c "sf_mark f" "sf_end f" "ev_id e" st] reserve_dom [OF won] by blast
    have all: "se_trains s' = se_trains s2 \<and> (\<forall>out. r = Inr out \<longrightarrow> b = Inr ()) \<and> plain r \<and>
        (dom (se_redis s') \<subseteq> dom (se_redis s) \<or> (b = Inr () \<and> dom (se_redis s') \<subseteq> insert ?k (dom (se_redis s))))"
    proof (cases b)
      case (Inl x)
      with d reserve True w2 have "r = Inl x" "s' = snd (on_keys (release c (sf_release f) (sf_end f) (ev_id e)) s2)"
        by (simp_all add: dispatch_def then_proc_def)
      with rel r2 pb Inl show ?thesis by (simp add: on_keys_def split_def)
    next
      case (Inr u)
      obtain m st' where m: "markProcessed c (sf_mark f) (sf_end f) (ev_id e) st = (m, st')" by fastforce
      with mark have dm: "dom st' \<subseteq> insert ?k (dom (se_redis s))" by simp
      have on: "on_keys (markProcessed c (sf_mark f) (sf_end f) (ev_id e)) s2 = (m, s2\<lparr>se_redis := st'\<rparr>)"
        by (simp add: on_keys_def r2 m)
      show ?thesis
      proof (cases m)
        case (Inl x)
        with Inr d reserve True w2 on have r: "r = Inl x" and "s' = snd (on_keys (release c (sf_release f) (sf_end f) (ev_id e)) (s2\<lparr>se_redis := st'\<rparr>))"
          by (simp_all add: dispatch_def then_proc_def)
        then have "se_trains s' = se_trains s2" "se_redis s' = snd (release c (sf_release f) (sf_end f) (ev_id e) st')"
          by (simp_all add: on_keys_def split_def)
        moreover from this(2) have "dom (se_redis s') \<subseteq> insert ?k (dom (se_redis s))" using rel' [of st'] dm by simp
        ultimately show ?thesis using Inr r call_plain(2) [OF m] Inl by simp
      next
        case ok': (Inr x)
        with Inr d reserve True w2 on have "s' = s2\<lparr>se_redis := st'\<rparr>" "r = Inr PR_APPLIED" by (simp_all add: dispatch_def then_proc_def)
        with Inr dm show ?thesis by simp
      qed
    qed
    then have trains: "se_trains s' = se_trains s2" and out: "r = Inr out \<Longrightarrow> b = Inr ()" and pr: "plain r"
      and keys: "dom (se_redis s') \<subseteq> dom (se_redis s) \<or> (b = Inr () \<and> dom (se_redis s') \<subseteq> insert ?k (dom (se_redis s)))" for out
      by blast+
    note same = grows_cong [OF trains]
    have "marks_ok E c s'"
      using marks_ok_step [OF ok(2) _ e, of s'] g keys reach same by (auto simp: grows_to_def)
    with i2 g reach out pr same show ?thesis by (auto simp: grows_to_def)
  qed
qed

end
