(* ===== verification/SearchIndex.thy ===== *)
theory SearchIndex
  imports SearchProps AdminSamples
begin

text \<open>
  The convergence of the train index: \<open>search_step\<close> is one delivery of a schedule event of the admin service
  to its consumer, in any order and any number of times. \<open>schedule_history\<close> is what the outbox of the admin
  service says of its schedules.
\<close>

section \<open>Deliveries\<close>

text \<open>A message as the broker hands it over; \<open>frame\<close> has all but the value.\<close>

definition delivered :: "unit kafka_message \<Rightarrow> 'e \<Rightarrow> 'e kafka_message" where
  "delivered frame e = \<lparr>km_topic = km_topic frame, km_partition = km_partition frame, km_key = km_key frame,
     km_value = Json e, km_headers = km_headers frame\<rparr>"

text \<open>The consumers of the schedule topics, and the number of dead letters of the call.\<close>

fun search_consume :: "kafka_env \<Rightarrow> idem_config \<Rightarrow> search_fate \<Rightarrow> unit kafka_message \<Rightarrow> admin_event \<Rightarrow> (search_db \<times> nat, unit) proc" where
  "search_consume env c f frame (ScheduleCreated e) (s, n) =
     (case schedule_created_handler env c f (delivered frame e) (s, []) of (r, (s', dlq)) \<Rightarrow> (r, (s', n + length dlq)))"
| "search_consume env c f frame (ScheduleStatusChanged e) (s, n) =
     (case schedule_status_handler env c f (delivered frame e) (s, []) of (r, (s', dlq)) \<Rightarrow> (r, (s', n + length dlq)))"
| "search_consume env c f frame _ (s, n) = (Inr (), (s, n))"

definition heartbeat_ok :: "kafka_env \<Rightarrow> bool" where
  "heartbeat_ok env \<longleftrightarrow> ke_heartbeat env \<noteq> Some SyntaxError \<and> ke_heartbeat env \<noteq> Some ZodError"

inductive search_step ::
  "admin_event set \<Rightarrow> idem_config \<Rightarrow> (search_db \<times> nat) \<times> admin_event set \<Rightarrow> (search_db \<times> nat) \<times> admin_event set \<Rightarrow> bool"
  for E c where
  acknowledged: "\<lbrakk> e \<in> E; orderly c f; heartbeat_ok env; search_consume env c f frame e s = (Inr (), s') \<rbrakk> \<Longrightarrow>
    search_step E c (s, A) (s', insert e A)"
| failed: "\<lbrakk> e \<in> E; orderly c f; heartbeat_ok env; search_consume env c f frame e s = (Inl err, s') \<rbrakk> \<Longrightarrow>
    search_step E c (s, A) (s', A)"

fun accepted :: "admin_event \<Rightarrow> bool" where
  "accepted (ScheduleCreated e) = schedule_created_schema e"
| "accepted (ScheduleStatusChanged e) = schedule_status_schema e"
| "accepted _ = False"

lemma handler_outcome:
  assumes "createDlqConsumerHandler env (zschema schema) process no_options (delivered frame e) (s, []) = (r, (s', dlq))"
    and "schema e" and "process e s = (p, s1)" and "plain p" and "heartbeat_ok env"
  shows "s' = s1 \<and> dlq = [] \<and> (r = Inr () \<longrightarrow> (\<exists>x. p = Inr x))"
  using assms
  by (cases p; cases "ke_heartbeat env")
    (auto simp: createDlqConsumerHandler_def wrapWithDlq_def jsonProcessor_def delivered_def zschema_def no_options_def
      isNonRetryableError_def heartbeat_ok_def)

lemma consume_ok:
  assumes wf: "wf_events E" "\<forall>e \<in> E. accepted e" and e: "e \<in> E" and f: "orderly c f" "heartbeat_ok env"
    and ok: "index_ok E s" "marks_ok E c s" and d: "search_consume env c f frame e (s, n) = (r, (s', n'))"
  shows "index_ok E s' \<and> marks_ok E c s' \<and> grows_to s s' \<and> (r = Inr () \<longrightarrow> reached s' e) \<and> n' = n"
proof (cases e)
  case (ScheduleCreated x)
  obtain p s1 where p: "applyCreated c f x s = (p, s1)" by fastforce
  have "x = x \<and> ScheduleCreated x \<in> E" using e ScheduleCreated by simp
  then have inv: "index_ok E s1 \<and> marks_ok E c s1 \<and> grows_to s s1 \<and> (\<forall>out. p = Inr out \<longrightarrow> reached s1 e) \<and> plain p"
    using dispatch_ok [OF writes_created e [unfolded ScheduleCreated] wf(1) f(1) ok] p by (simp add: applyCreated_def ScheduleCreated)
  obtain dlq where h: "schedule_created_handler env c f (delivered frame x) (s, []) = (r, (s', dlq))" and n: "n' = n + length dlq"
    using d by (auto simp: ScheduleCreated split: prod.splits)
  from handler_outcome [OF h [unfolded schedule_created_handler_def] _ p _ f(2)] inv wf(2) e ScheduleCreated n
  show ?thesis by auto
next
  case (ScheduleStatusChanged x)
  obtain p s1 where p: "applyStatusChange c f x s = (p, s1)" by fastforce
  have "ScheduleStatusChanged x \<in> E" using e ScheduleStatusChanged by simp
  then have inv: "index_ok E s1 \<and> marks_ok E c s1 \<and> grows_to s s1 \<and> (\<forall>out. p = Inr out \<longrightarrow> reached s1 e) \<and> plain p"
    using dispatch_ok [OF writes_changed e [unfolded ScheduleStatusChanged] wf(1) f(1) ok] p
    by (simp add: applyStatusChange_def ScheduleStatusChanged)
  obtain dlq where h: "schedule_status_handler env c f (delivered frame x) (s, []) = (r, (s', dlq))" and n: "n' = n + length dlq"
    using d by (auto simp: ScheduleStatusChanged split: prod.splits)
  from handler_outcome [OF h [unfolded schedule_status_handler_def] _ p _ f(2)] inv wf(2) e ScheduleStatusChanged n
  show ?thesis by auto
qed (use wf(2) e in force)+

definition converging :: "admin_event set \<Rightarrow> idem_config \<Rightarrow> (search_db \<times> nat) \<times> admin_event set \<Rightarrow> bool" where
  "converging E c = (\<lambda>((s, n), A). index_ok E s \<and> marks_ok E c s \<and> n = 0 \<and> (\<forall>e \<in> A. reached s e))"

lemma search_step_ok:
  assumes "search_step E c x y" and "wf_events E \<and> (\<forall>e \<in> E. accepted e)" and "converging E c x"
  shows "converging E c y"
  using assms
proof (induction rule: search_step.induct)
  case (acknowledged e f env frame s s' A)
  obtain a n b m where s: "s = (a, n)" "s' = (b, m)" by fastforce
  from acknowledged consume_ok [of E e c f env a frame n "Inr ()" b m] show ?case
    unfolding converging_def s by (auto simp: grows_to_def)
next
  case (failed e f env frame s err s' A)
  obtain a n b m where s: "s = (a, n)" "s' = (b, m)" by fastforce
  from failed consume_ok [of E e c f env a frame n "Inl err" b m] show ?case
    unfolding converging_def s by (auto simp: grows_to_def)
qed

interpretation indexed: stepper "search_step E c" "\<lambda>x. (wf_events E \<and> (\<forall>e \<in> E. accepted e)) \<and> converging E c x" for E c
  by unfold_locales (blast intro: search_step_ok)

section \<open>Every event can still be acknowledged\<close>

text \<open>An attempt without any failure, and a message of it.\<close>

definition calm :: search_fate where
  "calm = \<lparr>sf_reserve = Reply, sf_write = Reply, sf_mark = Reply, sf_release = Reply, sf_begin = 0, sf_end = 10\<rparr>"

definition quiet :: kafka_env where
  "quiet = \<lparr>ke_link = Reply, ke_timestamp = [], ke_heartbeat = None, ke_message = (\<lambda>_. []), ke_stack = (\<lambda>_. [])\<rparr>"

definition plain_frame :: "unit kafka_message" where
  "plain_frame = \<lparr>km_topic = ''schedule'', km_partition = 0, km_key = None, km_value = NoValue, km_headers = Map.empty\<rparr>"

lemma calm_ok: "0 < processingLeaseSeconds c \<Longrightarrow> orderly c calm" "heartbeat_ok quiet"
  by (simp_all add: orderly_def calm_def heartbeat_ok_def quiet_def)

lemma dispatch_calm:
  assumes "0 < processingLeaseSeconds c" and "0 < processedTtlSeconds c" and "\<And>r. fst (w (s\<lparr>se_redis := r\<rparr>)) = Inr ()"
  shows "\<exists>x. fst (dispatch c calm i w s) = Inr x"
proof (cases "redis_get 0 (buildKey c i) (se_redis s)")
  case None
  let ?r = "(se_redis s)(buildKey c i \<mapsto> (PROCESSING, Some (processingLeaseSeconds c * 1000)))"
  obtain s1 where "w (s\<lparr>se_redis := ?r\<rparr>) = (Inr (), s1)" using assms(3) [of ?r] by (cases "w (s\<lparr>se_redis := ?r\<rparr>)") auto
  with None assms(1,2) show ?thesis
    by (simp add: dispatch_def then_proc_def on_keys_def calm_def reserveIfNew_def markProcessed_def over_link_def
        redis_set_nx_ex_def redis_set_ex_def)
next
  case (Some v)
  with assms(1) show ?thesis
    by (simp add: dispatch_def then_proc_def on_keys_def calm_def reserveIfNew_def over_link_def redis_set_nx_ex_def)
qed

lemma handler_calm:
  assumes "\<exists>x. fst (process e s) = Inr x" and "schema e"
  shows "fst (createDlqConsumerHandler quiet (zschema schema) process no_options (delivered frame e) (s, [])) = Inr ()"
  using assms
  by (cases "process e s") (auto simp: createDlqConsumerHandler_def wrapWithDlq_def jsonProcessor_def delivered_def zschema_def quiet_def)

lemma consume_fst:
  "fst (search_consume env c f frame (ScheduleCreated x) (s, n)) = fst (schedule_created_handler env c f (delivered frame x) (s, []))"
  "fst (search_consume env c f frame (ScheduleStatusChanged y) (s, n)) = fst (schedule_status_handler env c f (delivered frame y) (s, []))"
  by (simp_all split: prod.split)

lemma consume_calm:
  assumes "0 < processingLeaseSeconds c" and "0 < processedTtlSeconds c" and "accepted e"
    and "(\<exists>x. e = ScheduleCreated x) \<or> (\<exists>d \<in> set (se_trains s). dt_scheduleId d = ev_schedule e)"
  shows "fst (search_consume quiet c calm plain_frame e (s, n)) = Inr ()"
proof (cases e)
  case (ScheduleCreated x)
  have "fst (trains_upsert (sf_write calm) (toDocument x) (s\<lparr>se_redis := r\<rparr>)) = Inr ()" for r
    by (simp add: trains_upsert_def calm_def over_link_def split: option.split)
  then have "\<exists>y. fst (applyCreated c calm x s) = Inr y" unfolding applyCreated_def by (rule dispatch_calm [OF assms(1,2)])
  from handler_calm [of "applyCreated c calm", OF this] assms(3)
  show ?thesis by (auto simp: ScheduleCreated schedule_created_handler_def consume_fst simp del: search_consume.simps)
next
  case (ScheduleStatusChanged x)
  with assms(4) obtain d where "find_row (\<lambda>d. dt_scheduleId d = hs_scheduleId x) (se_trains s) = Some d"
    by (cases "find_row (\<lambda>d. dt_scheduleId d = hs_scheduleId x) (se_trains s)") (auto simp: find_row_None_iff)
  then have "fst (then_proc (trains_updateStatus (sf_write calm) (sf_end calm) (hs_scheduleId x) (hs_status x) (hs_version x))
      (\<lambda>result s. if result = UR_NOT_FOUND then (Inl (PlainError ''Schedule status update deferred''), s) else (Inr (), s))
      (s\<lparr>se_redis := r\<rparr>)) = Inr ()" for r
    by (simp add: trains_updateStatus_def calm_def over_link_def then_proc_def)
  then have "\<exists>y. fst (applyStatusChange c calm x s) = Inr y" unfolding applyStatusChange_def by (rule dispatch_calm [OF assms(1,2)])
  from handler_calm [of "applyStatusChange c calm", OF this] assms(3)
  show ?thesis by (auto simp: ScheduleStatusChanged schedule_status_handler_def consume_fst simp del: search_consume.simps)
qed (use assms(3) in simp_all)

definition announced :: "admin_event set \<Rightarrow> admin_event \<Rightarrow> bool" where
  "announced A e \<longleftrightarrow> (\<exists>x. e = ScheduleCreated x) \<or> (\<exists>x. ScheduleCreated x \<in> A \<and> hc_scheduleId x = ev_schedule e)"

lemma deliver_all:
  assumes E: "wf_events E" "\<forall>e \<in> E. accepted e" and c: "0 < processingLeaseSeconds c" "0 < processedTtlSeconds c"
    and F: "finite F" "F \<subseteq> E"
  shows "\<lbrakk> converging E c (s, A); \<forall>e \<in> F. announced A e \<rbrakk> \<Longrightarrow>
    \<exists>s' A'. (search_step E c)\<^sup>*\<^sup>* (s, A) (s', A') \<and> converging E c (s', A') \<and> A \<union> F \<subseteq> A'"
  using F
proof (induction F arbitrary: s A rule: finite_induct)
  case (insert e F)
  obtain a n where s: "s = (a, n)" by fastforce
  have "(\<exists>x. e = ScheduleCreated x) \<or> (\<exists>d \<in> set (se_trains a). dt_scheduleId d = ev_schedule e)"
    using insert.prems(1,2) by (fastforce simp: announced_def converging_def s reached_def)
  then obtain s1 where "search_consume quiet c calm plain_frame e s = (Inr (), s1)"
    using consume_calm [OF c, of e a n] E(2) insert.prems(3) unfolding s by (cases "search_consume quiet c calm plain_frame e (a, n)") auto
  then have 1: "search_step E c (s, A) (s1, insert e A)"
    using insert.prems(3) calm_ok c(1) by (intro search_step.acknowledged) simp_all
  then have "converging E c (s1, insert e A)" using search_step_ok E insert.prems(1) by blast
  moreover have "\<forall>e' \<in> F. announced (insert e A) e'" using insert.prems(2) by (auto simp: announced_def)
  ultimately obtain s2 A2 where "(search_step E c)\<^sup>*\<^sup>* (s1, insert e A) (s2, A2)" "converging E c (s2, A2)" "insert e A \<union> F \<subseteq> A2"
    using insert.IH insert.prems(3) by (metis insert_subset)
  with 1 show ?case by (intro exI [of _ s2] exI [of _ A2]) (auto intro: converse_rtranclp_into_rtranclp)
qed blast

section \<open>The history of the schedules\<close>

definition history :: "admin_event set \<Rightarrow> Schedule set \<Rightarrow> bool" where
  "history E S \<longleftrightarrow> (\<forall>e \<in> E. schedule_event e \<and> accepted e) \<and>
     (\<forall>x. ScheduleCreated x \<in> E \<longrightarrow> hc_version x = 1 \<and>
        (\<exists>s \<in> S. sch_id s = hc_scheduleId x \<and> sch_trainId s = hc_trainId x \<and> sch_departureDate s = hc_departureDate x)) \<and>
     (\<forall>e \<in> E. \<exists>s \<in> S. sch_id s = ev_schedule e \<and> ev_version e \<le> sch_version s) \<and>
     (\<forall>e \<in> E. \<forall>e' \<in> E. ev_schedule e = ev_schedule e' \<and> ev_version e = ev_version e' \<longrightarrow> e = e') \<and>
     (\<forall>s \<in> S. (\<exists>e \<in> E. ev_schedule e = sch_id s \<and> ev_version e = sch_version s \<and> ev_status e = sch_status s) \<and>
        (\<exists>x. ScheduleCreated x \<in> E \<and> hc_scheduleId x = sch_id s))"

lemma history_added:
  assumes "history E S" and "sch_id s \<notin> sch_id ` S" and "accepted (ScheduleCreated x)"
    and "hc_scheduleId x = sch_id s" "hc_trainId x = sch_trainId s" "hc_departureDate x = sch_departureDate s"
    and "hc_version x = sch_version s" "hc_status x = sch_status s" "sch_version s = 1"
  shows "history (insert (ScheduleCreated x) E) (insert s S)"
proof -
  have fresh: "ev_schedule e \<noteq> sch_id s" if "e \<in> E" for e
    using assms(1,2) that unfolding history_def by (metis image_eqI)
  have "\<forall>e \<in> insert (ScheduleCreated x) E. \<forall>e' \<in> insert (ScheduleCreated x) E.
      ev_schedule e = ev_schedule e' \<and> ev_version e = ev_version e' \<longrightarrow> e = e'"
    using assms(1) fresh assms(4) unfolding history_def by (metis insert_iff ev_schedule.simps(1))
  with assms show ?thesis unfolding history_def by simp blast
qed

lemma history_changed:
  assumes h: "history E S" and s: "s \<in> S" and ids: "inj_on sch_id S" and acc: "accepted (ScheduleStatusChanged x)"
    and x: "hs_scheduleId x = sch_id s" "hs_version x = sch_version s + 1" "hs_status x = sch_status t"
    and t: "sch_id t = sch_id s" "sch_trainId t = sch_trainId s" "sch_departureDate t = sch_departureDate s" "sch_version t = sch_version s + 1"
  shows "history (insert (ScheduleStatusChanged x) E) (insert t (S - {s}))"
proof -
  let ?E = "insert (ScheduleStatusChanged x) E" and ?S = "insert t (S - {s})"
  have old: "ev_version e \<le> sch_version s" if "e \<in> E" "ev_schedule e = sch_id s" for e
    using h s ids that unfolding history_def by (metis inj_onD)
  have keep: "\<exists>s' \<in> ?S. sch_id s' = sch_id u \<and> sch_trainId s' = sch_trainId u \<and> sch_departureDate s' = sch_departureDate u \<and>
      sch_version u \<le> sch_version s'" if "u \<in> S" for u
    using that t by (cases "u = s") auto
  have "\<exists>s' \<in> ?S. sch_id s' = ev_schedule e \<and> ev_version e \<le> sch_version s'" if "e \<in> E" for e
    using h keep that unfolding history_def by (metis order_trans)
  moreover have "\<forall>e \<in> ?E. \<forall>e' \<in> ?E. ev_schedule e = ev_schedule e' \<and> ev_version e = ev_version e' \<longrightarrow> e = e'"
  proof -
    have "\<not> (ev_schedule e = hs_scheduleId x \<and> ev_version e = hs_version x)" if "e \<in> E" for e
      using old [OF that] x by auto
    moreover have "\<forall>e \<in> E. \<forall>e' \<in> E. ev_schedule e = ev_schedule e' \<and> ev_version e = ev_version e' \<longrightarrow> e = e'"
      using h unfolding history_def by (elim conjE)
    ultimately show ?thesis by (metis insert_iff ev_schedule.simps(2) ev_version.simps(2))
  qed
  moreover have "hc_version c = 1 \<and> (\<exists>s' \<in> ?S. sch_id s' = hc_scheduleId c \<and> sch_trainId s' = hc_trainId c \<and>
      sch_departureDate s' = hc_departureDate c)" if "ScheduleCreated c \<in> E" for c
    using h keep that unfolding history_def by metis
  moreover have "\<exists>c. ScheduleCreated c \<in> E \<and> hc_scheduleId c = sch_id u" if "u \<in> S" for u
    using h that unfolding history_def by blast
  ultimately show ?thesis
    using h s acc x t unfolding history_def by auto
qed

abbreviation schedule_history :: "adb \<Rightarrow> bool" where
  "schedule_history db \<equiv> history (schedule_events db) (set (ad_schedules db))"

lemma schedule_events_append: "payloads db' = payloads db @ evs \<Longrightarrow> schedule_events db' = schedule_events db \<union> {e \<in> set evs. schedule_event e}"
  by (auto simp: schedule_events_def)

lemma schedule_events_snoc: "payloads db' = payloads db @ [e] \<Longrightarrow> schedule_event e \<Longrightarrow> schedule_events db' = insert e (schedule_events db)"
  by (auto simp: schedule_events_def)

lemma schedule_history_effect:
  assumes "admin_effect db db'" and "admin_ok db" and "schedule_history db"
  shows "schedule_history db'"
  using assms
proof (induction rule: admin_effect.induct)
  case (catalog db db1 evs db')
  from catalog_write_schedules [OF catalog(1)] emits_payloads [OF catalog(3)] have
    pl: "payloads db' = payloads db @ evs" and sch: "ad_schedules db' = ad_schedules db" by auto
  from catalog(2) have "{e \<in> set evs. schedule_event e} = {}" by (auto simp: list_all_iff)
  with catalog.prems(2) show ?case by (simp only: schedule_events_append [OF pl] sch Un_empty_right)
next
  case (schedule_added t db s rd u db')
  let ?x = "created_payload u s (train_with_layout db t) rd"
  from emits_payloads [OF schedule_added(9)] have pl: "payloads db' = payloads db @ [ScheduleCreated ?x]"
    and sch: "ad_schedules db' = ad_schedules db @ [s]" by (simp_all add: payloads_def)
  have "sch_id s \<notin> sch_id ` set (ad_schedules db)" using schedule_added(7) by (simp add: schedules_unique_def)
  then have "history (insert (ScheduleCreated ?x) (schedule_events db)) (insert s (set (ad_schedules db)))"
    by (rule history_added [OF schedule_added.prems(2)]) (use schedule_added(6,8) in \<open>simp_all add: created_payload_def\<close>)
  moreover have "schedule_events db' = insert (ScheduleCreated ?x) (schedule_events db)" by (rule schedule_events_snoc [OF pl]) simp
  ultimately show ?case by (simp add: sch)
next
  case (schedule_changed i db s f status now x db')
  from emits_payloads [OF schedule_changed(8)] have pl: "payloads db' = payloads db @ [ScheduleStatusChanged x]"
    and sch: "ad_schedules db' = update_id sch_id i f (ad_schedules db)" by (simp_all add: payloads_def)
  have s: "s \<in> set (ad_schedules db)" "sch_id s = i" using find_row_Some [OF schedule_changed(1)] by auto
  have inj: "inj_on sch_id (set (ad_schedules db))"
    using schedule_changed.prems(1) by (simp add: admin_ok_def keys_ok_def schedules_unique_def distinct_map)
  have "set (update_id sch_id i f (ad_schedules db)) = insert (f s) (set (ad_schedules db) - {s})"
  proof -
    have "set (update_id sch_id i f (ad_schedules db)) = f ` {y \<in> set (ad_schedules db). sch_id y = i} \<union> {y \<in> set (ad_schedules db). sch_id y \<noteq> i}"
      by (auto simp: update_id_def)
    moreover have only: "y = s" if "y \<in> set (ad_schedules db)" "sch_id y = i" for y
      using inj s that by (simp add: inj_on_def)
    then have "{y \<in> set (ad_schedules db). sch_id y = i} = {s}" "{y \<in> set (ad_schedules db). sch_id y \<noteq> i} = set (ad_schedules db) - {s}"
      using s by blast+
    ultimately show ?thesis by simp
  qed
  moreover have "accepted (ScheduleStatusChanged x)"
  proof -
    have "1 \<le> sch_version s" using schedule_changed.prems(1) s(1) by (simp add: admin_ok_def rows_ok_def)
    with schedule_changed(3,6,7) show ?thesis by (simp add: schedule_status_schema_def)
  qed
  then have "history (insert (ScheduleStatusChanged x) (schedule_events db)) (insert (f s) (set (ad_schedules db) - {s}))"
    by (rule history_changed [OF schedule_changed.prems(2) s(1) inj]) (use schedule_changed(2,5,6,7) s(2) in simp_all)
  moreover have "schedule_events db' = insert (ScheduleStatusChanged x) (schedule_events db)" by (rule schedule_events_snoc [OF pl]) simp
  ultimately show ?case by (simp add: sch)
qed

interpretation published: stepper admin_step "\<lambda>db. admin_ok db \<and> schedule_history db"
  by unfold_locales (blast intro: admin_ok_effect schedule_history_effect admin_step_effect)

lemma reachable_history: "admin_step\<^sup>*\<^sup>* (empty_admin admins) db \<Longrightarrow> schedule_history db"
  using published.run_inv [of "empty_admin admins" db] empty_admin_ok [of admins]
  by (simp add: history_def schedule_events_def payloads_def empty_admin_def)

lemma history_wf:
  assumes "history E S" and "inj_on ev_id E"
  shows "wf_events E \<and> (\<forall>e \<in> E. accepted e)"
proof -
  have "c = c'" if "ScheduleCreated c \<in> E" "ScheduleCreated c' \<in> E" "hc_scheduleId c = hc_scheduleId c'" for c c'
    using assms(1) that unfolding history_def by (metis admin_event.inject ev_schedule.simps(1) ev_version.simps(1))
  with assms show ?thesis unfolding history_def wf_events_def by blast
qed

section \<open>Convergence\<close>

definition index_view :: "TrainScheduleDocument \<Rightarrow> ident \<times> ident \<times> string \<times> ScheduleStatus \<times> int" where
  "index_view d = (dt_scheduleId d, dt_trainId d, dt_departureDate d, dt_status d, dt_version d)"

definition source_view :: "Schedule \<Rightarrow> ident \<times> ident \<times> string \<times> ScheduleStatus \<times> int" where
  "source_view s = (sch_id s, sch_trainId s, take 10 (toISOString (sch_departureDate s)), sch_status s, sch_version s)"

text \<open>A document that has come as far as the last event of its schedule shows the schedule.\<close>

lemma final_document:
  assumes h: "history E S" and ids: "inj_on sch_id S" and d: "doc_of E d" and all: "\<forall>e \<in> E. reached s e"
    and docs: "distinct (map dt_scheduleId (se_trains s))" "d \<in> set (se_trains s)"
  shows "\<exists>u \<in> S. index_view d = source_view u"
proof -
  from d obtain c e t where c: "ScheduleCreated c \<in> E" "e \<in> E" "ev_schedule e = hc_scheduleId c"
    "d = (toDocument c)\<lparr>dt_status := ev_status e, dt_version := ev_version e, dt_updatedAt := t\<rparr>"
    by (auto simp: doc_of_def)
  from h c(1) obtain u where u: "u \<in> S" "sch_id u = hc_scheduleId c" "sch_trainId u = hc_trainId c"
    "sch_departureDate u = hc_departureDate c" unfolding history_def by blast
  from h u(1) obtain l where l: "l \<in> E" "ev_schedule l = sch_id u" "ev_version l = sch_version u" "ev_status l = sch_status u"
    unfolding history_def by blast
  from all l obtain d' where "d' \<in> set (se_trains s)" "dt_scheduleId d' = sch_id u" "sch_version u \<le> dt_version d'"
    by (auto simp: reached_def)
  moreover from this docs have "d' = d" using u(2) c(4) by (simp add: distinct_map inj_on_def)
  ultimately have "sch_version u \<le> ev_version e" using c(4) by simp
  moreover from h c(2) obtain v where "v \<in> S" "sch_id v = ev_schedule e" "ev_version e \<le> sch_version v" unfolding history_def by blast
  moreover from this u ids c(3) have "v = u" by (simp add: inj_on_def)
  ultimately have "ev_version e = ev_version l" using l(3) by simp
  moreover have "ev_schedule e = ev_schedule l" using c(3) u(2) l(2) by simp
  ultimately have "e = l" using h c(2) l(1) unfolding history_def by blast
  with c(4) u l show ?thesis by (intro bexI [of _ u]) (simp_all add: index_view_def source_view_def)
qed

lemma index_shows:
  assumes h: "schedule_history db" and ids: "inj_on sch_id (set (ad_schedules db))"
    and all: "\<forall>e \<in> schedule_events db. reached s e" and docs: "distinct (map dt_scheduleId (se_trains s))"
    "\<forall>d \<in> set (se_trains s). doc_of (schedule_events db) d"
  shows "index_view ` set (se_trains s) = source_view ` set (ad_schedules db)"
proof -
  have sub: "\<exists>u \<in> set (ad_schedules db). index_view d = source_view u" if "d \<in> set (se_trains s)" for d
    using final_document [OF h ids _ all docs(1) that] docs(2) that by blast
  have "\<exists>d \<in> set (se_trains s). index_view d = source_view u" if u: "u \<in> set (ad_schedules db)" for u
  proof -
    from h u obtain x where "ScheduleCreated x \<in> schedule_events db" "hc_scheduleId x = sch_id u" unfolding history_def by blast
    with all obtain d where d: "d \<in> set (se_trains s)" "dt_scheduleId d = sch_id u" by (force simp: reached_def)
    from sub [OF d(1)] obtain v where v: "v \<in> set (ad_schedules db)" "index_view d = source_view v" by blast
    then have "sch_id v = sch_id u" using d(2) by (simp add: index_view_def source_view_def)
    with ids u v have "v = u" by (simp add: inj_on_def)
    with d v show ?thesis by blast
  qed
  with sub show ?thesis by force
qed

lemma all_acknowledged:
  assumes E: "wf_events E \<and> (\<forall>e \<in> E. accepted e)" and c: "0 < processingLeaseSeconds c" "0 < processedTtlSeconds c"
    and "finite E" and all: "\<And>e. e \<in> E \<Longrightarrow> \<exists>x. ScheduleCreated x \<in> E \<and> hc_scheduleId x = ev_schedule e"
    and "converging E c (s, A)"
  shows "\<exists>s' A'. (search_step E c)\<^sup>*\<^sup>* (s, A) ((s', 0), A') \<and> E \<subseteq> A'"
proof -
  let ?F = "{e \<in> E. \<exists>x. e = ScheduleCreated x}"
  have "\<forall>e \<in> ?F. announced A e" by (auto simp: announced_def)
  then obtain s1 A1 where 1: "(search_step E c)\<^sup>*\<^sup>* (s, A) (s1, A1)" "converging E c (s1, A1)" "?F \<subseteq> A1"
    using deliver_all [of E c ?F s A] assms by auto
  have "\<forall>e \<in> E. announced A1 e" using all 1(3) by (auto simp: announced_def)
  then obtain s2 A2 where 2: "(search_step E c)\<^sup>*\<^sup>* (s1, A1) (s2, A2)" "converging E c (s2, A2)" "E \<subseteq> A2"
    using deliver_all [of E c E s1 A1] assms 1(2) by auto
  obtain s' n where s2: "s2 = (s', n)" by fastforce
  have "n = 0" using 2(2) by (simp add: converging_def s2)
  with 1(1) 2(1,3) show ?thesis unfolding s2 by (meson rtranclp_trans)
qed

lemma history_announces:
  assumes "history E S" and "e \<in> E"
  shows "\<exists>x. ScheduleCreated x \<in> E \<and> hc_scheduleId x = ev_schedule e"
  using assms unfolding history_def by metis

text \<open>C37: The train index follows the admin service. Whatever the commands of the admin service, and in whatever
  order, how often and with whatever failures its schedule events have been delivered to the search service, no
  event has become a dead letter and every document is the one its creation event describes but for status,
  version and time. From every such state deliveries without failures, in a suitable order, have every event
  acknowledged. Once every event is acknowledged, the index shows exactly the schedules of the admin database:
  one document for each, with its train, its day, its present status and version. The identifiers of events
  differ, and each call is orderly: the reply to its reservation is not lost and an attempt that fails gives
  its reservation up within the lease.\<close>

theorem search_index_converges:
  assumes "admin_step\<^sup>*\<^sup>* (empty_admin admins) db" and "inj_on ev_id (schedule_events db)"
    and "0 < processingLeaseSeconds c" and "0 < processedTtlSeconds c"
    and "(search_step (schedule_events db) c)\<^sup>*\<^sup>* ((empty_search, 0), {}) ((s, n), A)"
  shows "n = 0 \<and> distinct (map dt_scheduleId (se_trains s)) \<and>
    (\<forall>d \<in> set (se_trains s). \<exists>x. ScheduleCreated x \<in> schedule_events db \<and>
       d = (toDocument x)\<lparr>dt_status := dt_status d, dt_version := dt_version d, dt_updatedAt := dt_updatedAt d\<rparr>) \<and>
    (\<exists>s' A'. (search_step (schedule_events db) c)\<^sup>*\<^sup>* ((s, n), A) ((s', 0), A') \<and> schedule_events db \<subseteq> A') \<and>
    (schedule_events db \<subseteq> A \<longrightarrow> index_view ` set (se_trains s) = source_view ` set (ad_schedules db))"
proof -
  let ?E = "schedule_events db"
  have h: "schedule_history db" by (rule reachable_history [OF assms(1)])
  have ids: "inj_on sch_id (set (ad_schedules db))"
    using admin_reachable_ok [OF assms(1)] by (simp add: admin_ok_def keys_ok_def schedules_unique_def distinct_map)
  have "converging ?E c ((empty_search, 0), {})"
    by (simp add: converging_def index_ok_def marks_ok_def empty_search_def)
  with indexed.run_inv [OF assms(5)] history_wf [OF h assms(2)] have conv: "converging ?E c ((s, n), A)" by blast
  then have ok: "distinct (map dt_scheduleId (se_trains s))" "\<forall>d \<in> set (se_trains s). doc_of ?E d" "n = 0" "\<forall>e \<in> A. reached s e"
    by (auto simp: converging_def index_ok_def)
  have "\<forall>d \<in> set (se_trains s). \<exists>x. ScheduleCreated x \<in> ?E \<and>
      d = (toDocument x)\<lparr>dt_status := dt_status d, dt_version := dt_version d, dt_updatedAt := dt_updatedAt d\<rparr>"
    using ok(2) by (fastforce simp: doc_of_def)
  moreover have "\<exists>s' A'. (search_step ?E c)\<^sup>*\<^sup>* ((s, n), A) ((s', 0), A') \<and> ?E \<subseteq> A'"
    using all_acknowledged [OF history_wf [OF h assms(2)] assms(3,4) _ _ conv] history_announces [OF h]
    by (simp add: schedule_events_def)
  moreover have "index_view ` set (se_trains s) = source_view ` set (ad_schedules db)" if "?E \<subseteq> A"
    by (rule index_shows [OF h ids _ ok(1,2)]) (use ok(4) that in blast)
  ultimately show ?thesis using ok(1,3) by blast
qed

text \<open>The cancellation is delivered first, when the index has no document, then the creation, and the
  cancellation again.\<close>

definition sample_idem :: idem_config where
  "sample_idem = \<lparr>processingLeaseSeconds = 60, processedTtlSeconds = 600, keyspace = ''search''\<rparr>"

definition distinct_ids :: adb where
  "distinct_ids = snd (AdminSchedules.updateScheduleStatus (sample_aenv\<lparr>av_uuid := ''e2''\<rparr>) 2000 ''j'' Sch_CANCELLED sample_scheduled)"

definition sample_events :: "admin_event list" where
  "sample_events = filter schedule_event (payloads distinct_ids)"

abbreviation deliver :: "admin_event \<Rightarrow> search_db \<times> nat \<Rightarrow> (exn + unit) \<times> (search_db \<times> nat)" where
  "deliver \<equiv> search_consume quiet sample_idem calm plain_frame"

lemma sample_events_shape:
  "map (\<lambda>e. (ev_id e, ev_schedule e, ev_version e, ev_status e, accepted e)) sample_events =
     [(''e'', ''j'', 1, Sch_ACTIVE, True), (''e2'', ''j'', 2, Sch_CANCELLED, True)]"
  "map (\<lambda>e. case e of ScheduleCreated _ \<Rightarrow> True | _ \<Rightarrow> False) sample_events = [True, False]"
  "map source_view (ad_schedules distinct_ids) = [(''j'', ''t'', ''1970-01-01'', Sch_CANCELLED, 2)]"
  by code_simp+

lemmas consume_defs = schedule_created_handler_def schedule_status_handler_def createDlqConsumerHandler_def wrapWithDlq_def
  jsonProcessor_def delivered_def zschema_def no_options_def isNonRetryableError_def applyCreated_def applyStatusChange_def dispatch_def
  then_proc_def on_keys_def reserveIfNew_def markProcessed_def release_def over_link_def redis_set_nx_ex_def redis_set_ex_def
  releaseIfProcessing_def redis_del_def redis_get_def live_def trains_upsert_def trains_updateStatus_def put_doc_def set_doc_def
  quiet_def calm_def sample_idem_def plain_frame_def empty_search_def buildKey_def

lemma sample_deliveries:
  assumes "schedule_created_schema x" "hc_eventId x = ''e''" "hc_scheduleId x = ''j''" "hc_version x = 1"
    and "schedule_status_schema y" "hs_eventId y = ''e2''" "hs_scheduleId y = ''j''" "hs_version y = 2"
  defines "s1 \<equiv> snd (deliver (ScheduleStatusChanged y) (empty_search, 0))"
  defines "s2 \<equiv> snd (deliver (ScheduleCreated x) s1)"
  shows "fst (deliver (ScheduleStatusChanged y) (empty_search, 0)) = Inl (PlainError ''Schedule status update deferred'')"
    and "fst (deliver (ScheduleCreated x) s1) = Inr ()" and "fst (deliver (ScheduleStatusChanged y) s2) = Inr ()"
proof -
  have 1: "deliver (ScheduleStatusChanged y) (empty_search, 0) = (Inl (PlainError ''Schedule status update deferred''), (empty_search, 0))"
    using assms(5-8) by (simp add: consume_defs fun_eq_iff)
  then have s1: "s1 = (empty_search, 0)" by (simp add: s1_def)
  let ?s2 = "\<lparr>se_trains = [toDocument x], se_stations = [], se_redis = [''search:e'' \<mapsto> (PROCESSED, Some 600010)]\<rparr>"
  have 2: "deliver (ScheduleCreated x) s1 = (Inr (), (?s2, 0))"
    using assms(1-4) unfolding s1 by (simp add: consume_defs)
  then have s2: "s2 = (?s2, 0)" by (simp add: s2_def)
  have "fst (deliver (ScheduleStatusChanged y) s2) = Inr ()"
    using assms unfolding s2 by (simp add: consume_defs)
  with 1 2 show "fst (deliver (ScheduleStatusChanged y) (empty_search, 0)) = Inl (PlainError ''Schedule status update deferred'')"
    "fst (deliver (ScheduleCreated x) s1) = Inr ()" "fst (deliver (ScheduleStatusChanged y) s2) = Inr ()" by simp_all
qed

theorem search_index_converges_witness:
  "let created = hd sample_events; cancelled = last sample_events;
       (r1, s1) = deliver cancelled (empty_search, 0); (r2, s2) = deliver created s1; (r3, s3) = deliver cancelled s2
   in r1 = Inl (PlainError ''Schedule status update deferred'') \<and> r2 = Inr () \<and> r3 = Inr () \<and> snd s3 = 0 \<and>
     index_view ` set (se_trains (fst s3)) = {(''j'', ''t'', ''1970-01-01'', Sch_CANCELLED, 2)}"
proof -
  from sample_events_shape(1) obtain a b where ab: "sample_events = [a, b]" by auto
  from sample_events_shape(1,2) [unfolded ab] obtain x where x: "a = ScheduleCreated x" "schedule_created_schema x"
    "hc_eventId x = ''e''" "hc_scheduleId x = ''j''" "hc_version x = 1" by (cases a) auto
  from sample_events_shape(1,2) [unfolded ab] obtain y where y: "b = ScheduleStatusChanged y" "schedule_status_schema y"
    "hs_eventId y = ''e2''" "hs_scheduleId y = ''j''" "hs_version y = 2" by (cases b) auto
  let ?s1 = "snd (deliver b (empty_search, 0))" let ?s2 = "snd (deliver a ?s1)" let ?s3 = "snd (deliver b ?s2)"
  note r = sample_deliveries [OF x(2-5) y(2-5), folded x(1) y(1)]
  have E: "schedule_events distinct_ids = {a, b}"
    using arg_cong [OF ab, of set] by (simp add: schedule_events_def sample_events_def)
  have reach: "admin_step\<^sup>*\<^sup>* (empty_admin []) distinct_ids"
    unfolding distinct_ids_def by (rule extend) (rule sample_reached(2))
  have inj: "inj_on ev_id (schedule_events distinct_ids)" using sample_events_shape(1) E unfolding ab by (simp add: inj_on_def)
  have calm: "orderly sample_idem calm" "heartbeat_ok quiet"
    by (simp_all add: orderly_def calm_def sample_idem_def heartbeat_ok_def quiet_def)
  note steps = search_step.failed [OF _ calm, of b "{a, b}" plain_frame "(empty_search, 0)" _ _ "{}"]
    search_step.acknowledged [OF _ calm, of a "{a, b}" plain_frame ?s1 _ "{}"]
    search_step.acknowledged [OF _ calm, of b "{a, b}" plain_frame ?s2 _ "{a}"]
  have "search_step {a, b} sample_idem ((empty_search, 0), {}) (?s1, {})"
    by (rule steps(1)) (use r(1) ab in \<open>auto simp: prod_eq_iff\<close>)
  moreover have "search_step {a, b} sample_idem (?s1, {}) (?s2, {a})"
    by (rule steps(2)) (use r(2) ab in \<open>auto simp: prod_eq_iff\<close>)
  moreover have "search_step {a, b} sample_idem (?s2, {a}) (?s3, {a, b})"
    using steps(3) [of ?s3] r(3) ab by (auto simp: prod_eq_iff insert_commute)
  ultimately have run: "(search_step (schedule_events distinct_ids) sample_idem)\<^sup>*\<^sup>* ((empty_search, 0), {}) ((fst ?s3, snd ?s3), {a, b})"
    unfolding E by simp
  have "0 < processingLeaseSeconds sample_idem" "0 < processedTtlSeconds sample_idem" by (simp_all add: sample_idem_def)
  from search_index_converges [OF reach inj this run]
  have "snd ?s3 = 0" "index_view ` set (se_trains (fst ?s3)) = source_view ` set (ad_schedules distinct_ids)" using E by simp_all
  with arg_cong [OF sample_events_shape(3), of set] r show ?thesis by (simp add: Let_def split_def ab)
qed

end
