(* ===== verification/SearchQueries.thy ===== *)
theory SearchQueries
  imports Search AdminApi SeatQueries Grpc "HOL-Library.Char_ord" "HOL-Library.List_Lexorder" "HOL-Library.Product_Lexorder"
begin

text \<open>
  The read side of the search service: the queries of the repositories, \<open>StationSearchService\<close>,
  \<open>TrainSearchService\<close> and \<open>SeatMapService\<close> with their caches, schemas, controllers and routes. A term query of
  Elasticsearch is a filter, its sort is stable; which stations a full-text query finds, in which order, is
  the engine's business (\<open>sv_engine\<close>), and so is which texts are dates (\<open>sv_es_date\<close>). \<open>sv_sha1\<close> gives the first
  16 digits of the hash. A cache entry is kept as the value that was put in, and an answered seat map, always
  of status \<open>OK\<close>, is the list of its coaches.
\<close>

section \<open>Answers\<close>

record StationSuggestion =
  sg_stationId :: ident
  sg_code :: string
  sg_name :: string
  sg_zone :: "string option"
  sg_state :: "string option"
  sg_isActive :: bool

record TrainSearchQueryDto =
  tq_fromStation :: string
  tq_toStation :: string
  tq_date :: string
  tq_category :: "TrainCategory option"
  tq_limit :: int
  tq_offset :: int

record TrainSearchInput =
  ti_fromStationId :: ident
  ti_toStationId :: ident
  ti_date :: string
  ti_category :: "TrainCategory option"
  ti_limit :: int
  ti_offset :: int

record station_ref =
  sf_stationId :: ident
  sf_code :: string
  sf_name :: string

record TrainSearchResultDto =
  tr_scheduleId :: ident
  tr_trainId :: ident
  tr_trainNumber :: string
  tr_trainName :: string
  tr_category :: TrainCategory
  tr_from :: station_ref
  tr_departureTime :: "string option"
  tr_to :: station_ref
  tr_arrivalTime :: "string option"
  tr_durationMinutes :: "int option"
  tr_distanceKm :: int
  tr_fareRange :: FareRangeDto
  tr_availableSeats :: AvailableSeatsDto
  tr_status :: ScheduleStatus
  tr_operatingDays :: "string list"

record TrainSearchResponseDto =
  ts_fromStation :: station_ref
  ts_toStation :: station_ref
  ts_date :: string
  ts_count :: int
  ts_trains :: "TrainSearchResultDto list"

record search_caches =
  ca_trains :: "TrainSearchResponseDto store"
  ca_suggest :: "StationSuggestion list store"
  ca_maps :: "CoachMapItem list store"

record search_env =
  sv_engine :: "string \<Rightarrow> int \<Rightarrow> StationDocument list \<Rightarrow> StationDocument list"
  sv_es_date :: "string \<Rightarrow> bool"
  sv_sha1 :: "string \<Rightarrow> string"
  sv_trainPrefix :: string
  sv_trainTtl :: int
  sv_suggestPrefix :: string
  sv_suggestTtl :: int
  sv_mapPrefix :: string
  sv_mapTtl :: int

section \<open>Queries of the repositories\<close>

definition serves :: "TrainSearchInput \<Rightarrow> TrainScheduleDocument \<Rightarrow> bool" where
  "serves q d \<longleftrightarrow>
     dt_departureDate d = ti_date q \<and> dt_status d = Sch_ACTIVE \<and>
     route_tag (ti_fromStationId q) (ti_toStationId q) \<in> set (dt_routesServed d) \<and>
     (case ti_category q of None \<Rightarrow> True | Some c \<Rightarrow> dt_trainCategory d = c) \<and>
     list_ex (\<lambda>s. tp_stationId s = ti_fromStationId q) (dt_stops d) \<and>
     list_ex (\<lambda>s. tp_stationId s = ti_toStationId q) (dt_stops d)"

text \<open>The least departure of the nested stops at the station; documents without one come last.\<close>

definition departure_key :: "ident \<Rightarrow> TrainScheduleDocument \<Rightarrow> nat \<times> int" where
  "departure_key i d =
     (case List.map_filter (\<lambda>s. if tp_stationId s = i then tp_departureMinutes s else None) (dt_stops d) of
        [] \<Rightarrow> (1, 0) | m # ms \<Rightarrow> (0, foldl min m ms))"

definition MAX_RESULT_WINDOW :: int where "MAX_RESULT_WINDOW = 10000"

definition repo_searchTrains :: "search_env \<Rightarrow> link \<Rightarrow> TrainSearchInput \<Rightarrow> search_db \<Rightarrow> exn + int \<times> TrainScheduleDocument list" where
  "repo_searchTrains env lk q s =
     (if lk \<noteq> Reply \<or> \<not> sv_es_date env (ti_date q) \<or> MAX_RESULT_WINDOW < ti_offset q + ti_limit q then Inl (PlainError ''elasticsearch'')
      else (let hits = sort_key (\<lambda>d. (departure_key (ti_fromStationId q) d, dt_trainNumber d)) (filter (serves q) (se_trains s))
            in Inr (int (length hits), take (nat (ti_limit q)) (drop (nat (ti_offset q)) hits))))"

definition suggestion :: "StationDocument \<Rightarrow> StationSuggestion" where
  "suggestion d = \<lparr>sg_stationId = sn_stationId d, sg_code = sn_code d, sg_name = sn_name d, sg_zone = sn_zone d,
     sg_state = sn_state d, sg_isActive = sn_isActive d\<rparr>"

definition repo_suggest :: "search_env \<Rightarrow> link \<Rightarrow> string \<Rightarrow> int \<Rightarrow> search_db \<Rightarrow> exn + StationSuggestion list" where
  "repo_suggest env lk query limit s =
     (if lk \<noteq> Reply then Inl (PlainError ''elasticsearch'') else Inr (map suggestion (sv_engine env query limit (filter sn_isActive (se_stations s)))))"

definition station_findById :: "link \<Rightarrow> ident \<Rightarrow> search_db \<Rightarrow> exn + StationSuggestion option" where
  "station_findById lk stationId s =
     (if lk \<noteq> Reply then Inl (PlainError ''elasticsearch'')
      else Inr (map_option suggestion (find_row (\<lambda>d. sn_stationId d = stationId) (se_stations s))))"

definition station_findByCode :: "search_env \<Rightarrow> link \<Rightarrow> string \<Rightarrow> search_db \<Rightarrow> exn + StationSuggestion option" where
  "station_findByCode env lk code s =
     bindE (repo_suggest env lk code 10 s) (\<lambda>candidates.
       Inr (List.find (\<lambda>x. upper (sg_code x) = upper code \<and> sg_isActive x) candidates))"

section \<open>Caches\<close>

definition tryReadCache :: "link \<Rightarrow> time \<Rightarrow> string \<Rightarrow> 'v store \<Rightarrow> 'v option" where
  "tryReadCache lk now key st = (if lk = Reply then redis_get now key st else None)"

definition tryWriteCache :: "link \<Rightarrow> time \<Rightarrow> string \<Rightarrow> 'v \<Rightarrow> int \<Rightarrow> 'v store \<Rightarrow> 'v store" where
  "tryWriteCache lk now key v ttl st = snd (over_link lk (redis_set_ex now key v ttl) st)"

section \<open>StationSearchService\<close>

record query_fate =
  qf_read :: link
  qf_from :: link
  qf_to :: link
  qf_search :: link
  qf_write :: link
  qf_begin :: time
  qf_end :: time

definition suggest_key :: "search_env \<Rightarrow> string \<Rightarrow> int \<Rightarrow> string" where
  "suggest_key env q limit = sv_suggestPrefix env @ '':'' @ lower q @ '':'' @ show_int limit"

definition suggestStations :: "search_env \<Rightarrow> query_fate \<Rightarrow> string \<Rightarrow> int \<Rightarrow> search_db \<Rightarrow> (search_caches, StationSuggestion list) proc" where
  "suggestStations env f q limit s ca =
     (let key = suggest_key env q limit
      in case tryReadCache (qf_read f) (qf_begin f) key (ca_suggest ca) of
           Some cached \<Rightarrow> (Inr cached, ca)
         | None \<Rightarrow>
             (case repo_suggest env (qf_search f) q limit s of
                Inl e \<Rightarrow> (Inl e, ca)
              | Inr fresh \<Rightarrow>
                  (Inr fresh, ca\<lparr>ca_suggest := tryWriteCache (qf_write f) (qf_end f) key fresh (sv_suggestTtl env) (ca_suggest ca)\<rparr>)))"

section \<open>TrainSearchService\<close>

fun opt_text :: "string \<Rightarrow> string option \<Rightarrow> string" where
  "opt_text d None = d"
| "opt_text d (Some x) = x"

definition train_key :: "search_env \<Rightarrow> TrainSearchQueryDto \<Rightarrow> string" where
  "train_key env q = sv_trainPrefix env @ '':v1:'' @ sv_sha1 env
     (upper (js_trim (tq_fromStation q)) @ ''|'' @ upper (js_trim (tq_toStation q)) @ ''|'' @ tq_date q @ ''|'' @
      opt_text ''any'' (map_option (\<lambda>c. lower (category_name c)) (tq_category q)) @ ''|'' @ show_int (tq_limit q) @ ''|'' @ show_int (tq_offset q))"

definition hex_char :: "char \<Rightarrow> bool" where
  "hex_char c \<longleftrightarrow> char_in 48 57 c \<or> char_in 97 102 c \<or> char_in 65 70 c"

definition isUuid :: "string \<Rightarrow> bool" where
  "isUuid v \<longleftrightarrow> length v = 36 \<and>
     list_all (\<lambda>(i, c). if i \<in> {8, 13, 18, 23} then c = CHR ''-'' else hex_char c) (enumerate 0 v)"

definition STATION_NOT_FOUND :: exn where "STATION_NOT_FOUND = ApiError 404 ''STATION_NOT_FOUND''"

definition resolveStation :: "search_env \<Rightarrow> link \<Rightarrow> string \<Rightarrow> search_db \<Rightarrow> exn + StationSuggestion" where
  "resolveStation env lk v s =
     (let trimmed = js_trim v
      in bindE (if isUuid trimmed then station_findById lk trimmed s else station_findByCode env lk trimmed s) (\<lambda>found.
           case found of
             Some st \<Rightarrow> if sg_isActive st then Inr st else Inl STATION_NOT_FOUND
           | None \<Rightarrow> Inl STATION_NOT_FOUND))"

definition minutesToIsoTime :: "string \<Rightarrow> int \<Rightarrow> string option" where
  "minutesToIsoTime date minutes =
     (case map js_Number (split_on (CHR ''-'') date) of
        Some y # Some m # Some d # _ \<Rightarrow>
          if y = 0 \<or> m = 0 \<or> d = 0 then None
          else Some (toISOString (Date_UTC \<lfloor>y\<rfloor> (\<lfloor>m\<rfloor> - 1) \<lfloor>d\<rfloor> + minutes * 60000))
      | _ \<Rightarrow> None)"

definition dayOfWeekLabel :: "(int \<times> string) list" where
  "dayOfWeekLabel = [(0, ''SUN''), (1, ''MON''), (2, ''TUE''), (3, ''WED''), (4, ''THU''), (5, ''FRI''), (6, ''SAT'')]"

definition ref_of :: "StationSuggestion \<Rightarrow> station_ref" where
  "ref_of x = \<lparr>sf_stationId = sg_stationId x, sf_code = sg_code x, sf_name = sg_name x\<rparr>"

definition toResultDto :: "TrainScheduleDocument \<Rightarrow> StationSuggestion \<Rightarrow> StationSuggestion \<Rightarrow> TrainSearchResultDto" where
  "toResultDto doc fromStation toStation =
     (let sortedStops = sort_key tp_sequenceNumber (dt_stops doc);
          fromStop = List.find (\<lambda>x. tp_stationId x = sg_stationId fromStation) sortedStops;
          toStop = List.find (\<lambda>x. tp_stationId x = sg_stationId toStation) sortedStops;
          departs = Option.bind fromStop tp_departureMinutes;
          arrives = Option.bind toStop tp_arrivalMinutes
      in \<lparr>tr_scheduleId = dt_scheduleId doc, tr_trainId = dt_trainId doc, tr_trainNumber = dt_trainNumber doc,
          tr_trainName = dt_trainName doc, tr_category = dt_trainCategory doc,
          tr_from = ref_of fromStation, tr_departureTime = Option.bind departs (minutesToIsoTime (dt_departureDate doc)),
          tr_to = ref_of toStation, tr_arrivalTime = Option.bind arrives (minutesToIsoTime (dt_departureDate doc)),
          tr_durationMinutes = (case (departs, arrives) of (Some d, Some a) \<Rightarrow> Some (max 0 (a - d)) | _ \<Rightarrow> None),
          tr_distanceKm = (case (fromStop, toStop) of
              (Some a, Some b) \<Rightarrow> max 0 (tp_distanceFromStart b - tp_distanceFromStart a) | _ \<Rightarrow> dt_totalDistance doc),
          tr_fareRange = dt_fareRange doc, tr_availableSeats = dt_capacity doc, tr_status = dt_status doc,
          tr_operatingDays = map (\<lambda>d. opt_text ''?'' (map_of dayOfWeekLabel d)) (dt_operatingDays doc)\<rparr>)"

text \<open>The search below the cache.\<close>

definition search_fresh :: "search_env \<Rightarrow> query_fate \<Rightarrow> TrainSearchQueryDto \<Rightarrow> search_db \<Rightarrow> exn + TrainSearchResponseDto" where
  "search_fresh env f q s =
     bindE (resolveStation env (qf_from f) (tq_fromStation q) s) (\<lambda>fromStation.
     bindE (resolveStation env (qf_to f) (tq_toStation q) s) (\<lambda>toStation.
       if sg_stationId fromStation = sg_stationId toStation then Inl (ApiError 400 ''INVALID_INPUT'')
       else bindE (repo_searchTrains env (qf_search f)
           \<lparr>ti_fromStationId = sg_stationId fromStation, ti_toStationId = sg_stationId toStation, ti_date = tq_date q,
            ti_category = tq_category q, ti_limit = tq_limit q, ti_offset = tq_offset q\<rparr> s) (\<lambda>(count, schedules).
         Inr \<lparr>ts_fromStation = ref_of fromStation, ts_toStation = ref_of toStation, ts_date = tq_date q, ts_count = count,
           ts_trains = map (\<lambda>doc. toResultDto doc fromStation toStation) schedules\<rparr>)))"

definition searchTrains :: "search_env \<Rightarrow> query_fate \<Rightarrow> TrainSearchQueryDto \<Rightarrow> search_db \<Rightarrow> (search_caches, TrainSearchResponseDto) proc" where
  "searchTrains env f q s ca =
     (let key = train_key env q
      in case tryReadCache (qf_read f) (qf_begin f) key (ca_trains ca) of
           Some cached \<Rightarrow> (Inr cached, ca)
         | None \<Rightarrow>
             (case search_fresh env f q s of
                Inl e \<Rightarrow> (Inl e, ca)
              | Inr response \<Rightarrow>
                  (Inr response, ca\<lparr>ca_trains := tryWriteCache (qf_write f) (qf_end f) key response (sv_trainTtl env) (ca_trains ca)\<rparr>)))"

section \<open>SeatMapService\<close>

definition contains_text :: "string \<Rightarrow> string \<Rightarrow> bool" where
  "contains_text w t = list_ex (\<lambda>n. take (length w) (drop n t) = w) [0..<Suc (length t)]"

fun join_comma :: "string list \<Rightarrow> string" where
  "join_comma [] = []"
| "join_comma [x] = x"
| "join_comma (x # xs) = x @ '','' @ join_comma xs"

definition no_cache :: "headers \<Rightarrow> bool" where
  "no_cache h \<longleftrightarrow> (case h ''cache-control'' of None \<Rightarrow> False | Some vs \<Rightarrow> contains_text ''no-cache'' (join_comma vs)) \<or>
     (case h ''pragma'' of None \<Rightarrow> False | Some vs \<Rightarrow> join_comma vs = ''no-cache'')"

definition map_key :: "search_env \<Rightarrow> ident \<Rightarrow> string \<Rightarrow> string \<Rightarrow> string" where
  "map_key env scheduleId fromStation toStation = sv_mapPrefix env @ '':v1:'' @ sv_sha1 env
     (lower (js_trim scheduleId) @ ''|'' @ lower (js_trim fromStation) @ ''|'' @ lower (js_trim toStation))"

text \<open>Only an index that answers can refuse; \<open>InventoryAdapter\<close> maps what the call throws.\<close>

definition precheckSchedule :: "link \<Rightarrow> ident \<Rightarrow> search_db \<Rightarrow> exn option" where
  "precheckSchedule lk scheduleId s =
     (if findScheduleById lk scheduleId s = Inr None then Some (ApiError 404 ''SCHEDULE_NOT_FOUND'') else None)"

definition adapter_getSeatMap :: "thrown + seat_map \<Rightarrow> exn + seat_map" where
  "adapter_getSeatMap call = map_sum mapGrpcClientErrorToApiError id call"

definition seat_map_response :: "seat_map \<Rightarrow> exn + CoachMapItem list" where
  "seat_map_response m =
     (case m of
        SCHEDULE_MISSING \<Rightarrow> Inl (ApiError 404 ''SCHEDULE_NOT_FOUND'')
      | SCHEDULE_INACTIVE \<Rightarrow> Inl (ApiError 409 ''SCHEDULE_INACTIVE'')
      | OK coaches \<Rightarrow> Inr coaches)"

definition getSeatMap :: "search_env \<Rightarrow> query_fate \<Rightarrow> headers \<Rightarrow> (ident \<Rightarrow> string \<Rightarrow> string \<Rightarrow> thrown + seat_map) \<Rightarrow>
    ident \<Rightarrow> string \<Rightarrow> string \<Rightarrow> search_db \<Rightarrow> (search_caches, CoachMapItem list) proc" where
  "getSeatMap env f h call scheduleId fromStation toStation s ca =
     (let key = map_key env scheduleId fromStation toStation
      in case (if no_cache h then None else tryReadCache (qf_read f) (qf_begin f) key (ca_maps ca)) of
           Some cached \<Rightarrow> (Inr cached, ca)
         | None \<Rightarrow>
             (case precheckSchedule (qf_from f) scheduleId s of
                Some e \<Rightarrow> (Inl e, ca)
              | None \<Rightarrow>
                  (case bindE (adapter_getSeatMap (call scheduleId fromStation toStation)) seat_map_response of
                     Inl e \<Rightarrow> (Inl e, ca)
                   | Inr response \<Rightarrow>
                       (Inr response, ca\<lparr>ca_maps := tryWriteCache (qf_write f) (qf_end f) key response (sv_mapTtl env) (ca_maps ca)\<rparr>))))"

section \<open>Schemas\<close>

definition q_number :: "(int \<Rightarrow> bool) \<Rightarrow> int \<Rightarrow> string option \<Rightarrow> int option" where
  "q_number p d v =
     (case v of
        None \<Rightarrow> Some d
      | Some x \<Rightarrow> (case Option.bind (js_Number x) int_of of None \<Rightarrow> None | Some n \<Rightarrow> if p n then Some n else None))"

definition q_text :: "string option \<Rightarrow> string option" where
  "q_text v =
     (case v of
        None \<Rightarrow> None
      | Some x \<Rightarrow> if 2 \<le> length (js_trim x) \<and> length (js_trim x) \<le> 64 then Some (js_trim x) else None)"

definition stationSuggestQuerySchema :: "query \<Rightarrow> (string \<times> int) option" where
  "stationSuggestQuerySchema q = do {
     text \<leftarrow> q_text (q ''q'');
     limit \<leftarrow> q_number (\<lambda>n. 1 \<le> n \<and> n \<le> 20) 10 (q ''limit'');
     Some (text, limit) }"

definition date_text :: "string \<Rightarrow> bool" where
  "date_text v \<longleftrightarrow> length v = 10 \<and> list_all (\<lambda>(i, c). if i \<in> {4, 7} then c = CHR ''-'' else char_in 48 57 c) (enumerate 0 v)"

definition TRAIN_CATEGORY :: "TrainCategory list" where
  "TRAIN_CATEGORY = [RAJDHANI, SHATABDI, VANDE_BHARAT, DURONTO, SUPERFAST, PASSENGER, EXPRESS, DEMU, MEMU]"

definition trainSearchQuerySchema :: "query \<Rightarrow> TrainSearchQueryDto option" where
  "trainSearchQuerySchema q = do {
     fromStation \<leftarrow> q_text (q ''fromStation'');
     toStation \<leftarrow> q_text (q ''toStation'');
     date \<leftarrow> (case q ''date'' of None \<Rightarrow> None | Some d \<Rightarrow> if date_text d then Some d else None);
     category \<leftarrow> q_optional (z_enum category_name TRAIN_CATEGORY) (q ''category'');
     limit \<leftarrow> q_number (\<lambda>n. 1 \<le> n \<and> n \<le> 50) 10 (q ''limit'');
     offset \<leftarrow> q_number (\<lambda>n. 0 \<le> n) 0 (q ''offset'');
     Some \<lparr>tq_fromStation = fromStation, tq_toStation = toStation, tq_date = date, tq_category = category,
       tq_limit = limit, tq_offset = offset\<rparr> }"

definition seatMapQuerySchema :: "query \<Rightarrow> (string \<times> string) option" where
  "seatMapQuerySchema q =
     (case (q ''fromStation'', q ''toStation'') of
        (Some a, Some b) \<Rightarrow>
          if a \<noteq> [] \<and> b \<noteq> [] \<and> upper (js_trim a) \<noteq> upper (js_trim b) then Some (a, b) else None
      | _ \<Rightarrow> None)"

section \<open>Controller and routes\<close>

datatype search_body =
    SuggestBody int "StationSuggestion list"
  | SearchBody TrainSearchResponseDto
  | MapBody "CoachMapItem list"

type_synonym search_handler = "search_db \<Rightarrow> (search_caches, nat \<times> search_body) proc"

definition answers :: "('a \<Rightarrow> search_body) \<Rightarrow> (search_db \<Rightarrow> (search_caches, 'a) proc) \<Rightarrow> search_handler" where
  "answers body m s ca = (case m s ca of (Inl e, ca') \<Rightarrow> (Inl e, ca') | (Inr x, ca') \<Rightarrow> (Inr (200, body x), ca'))"

definition Search_suggestStations :: "search_env \<Rightarrow> query_fate \<Rightarrow> string \<times> int \<Rightarrow> search_handler" where
  "Search_suggestStations env f q = answers (\<lambda>stations. SuggestBody (int (length stations)) stations) (suggestStations env f (fst q) (snd q))"

definition Search_searchTrains :: "search_env \<Rightarrow> query_fate \<Rightarrow> TrainSearchQueryDto \<Rightarrow> search_handler" where
  "Search_searchTrains env f q = answers SearchBody (searchTrains env f q)"

definition Search_getSeatMap :: "search_env \<Rightarrow> query_fate \<Rightarrow> headers \<Rightarrow> (ident \<Rightarrow> string \<Rightarrow> string \<Rightarrow> thrown + seat_map) \<Rightarrow>
    ident \<Rightarrow> string \<times> string \<Rightarrow> search_handler" where
  "Search_getSeatMap env f h call i q = answers MapBody (getSeatMap env f h call i (fst q) (snd q))"

definition checked :: "exn + 'a \<Rightarrow> ('a \<Rightarrow> search_handler) \<Rightarrow> search_handler" where
  "checked v k s ca = (case v of Inl e \<Rightarrow> (Inl e, ca) | Inr x \<Rightarrow> k x s ca)"

definition search_router :: "formats \<Rightarrow> search_env \<Rightarrow> query_fate \<Rightarrow> (ident \<Rightarrow> string \<Rightarrow> string \<Rightarrow> thrown + seat_map) \<Rightarrow>
    string list \<Rightarrow> admin_http \<Rightarrow> search_handler option" where
  "search_router fm env f call path r =
     (if aq_method r \<noteq> ''GET'' then None
      else case path of
        [a] \<Rightarrow>
          if seg a ''trains'' then Some (checked (validateQuery trainSearchQuerySchema (aq_query r)) (Search_searchTrains env f)) else None
      | [a, b] \<Rightarrow>
          if seg a ''stations'' \<and> seg b ''suggest''
          then Some (checked (validateQuery stationSuggestQuerySchema (aq_query r)) (Search_suggestStations env f)) else None
      | [a, i, b] \<Rightarrow>
          if seg a ''schedules'' \<and> seg b ''seat-map''
          then Some (checked (validateParams (\<lambda>x. z_uuid fm (Some (JStr x))) i) (\<lambda>i.
             checked (validateQuery seatMapQuerySchema (aq_query r)) (Search_getSeatMap env f (aq_headers r) call i)))
          else None
      | _ \<Rightarrow> None)"

end
