(* ===== verification/Spec2Isabelle.thy ===== *)
theory Spec2Isabelle
  imports CircuitBreaker Backoff TokenBucket Outbox SeatQueries Railway PaymentProps AccountRaces GatewayProps AdminAccessSamples NotificationProps SearchIndex SearchQueries
begin

text \<open>
  A verification development of the railway booking platform (the repository's \<open>apps\<close> and
  \<open>packages\<close>, TypeScript and Lua).

  \<^bold>\<open>The program.\<close> Services with a PostgreSQL database each talk through gRPC calls and through
  Kafka events. An event is first a row of the sender's outbox table, written in the transaction
  that causes it, and a worker publishes it later. The booking service (\<open>apps/booking-service\<close>)
  takes a request, locks its seats in Redis, writes the booking and asks for the seats by an
  event; the inventory service (\<open>apps/inventory-service\<close>) projects train schedules, allocates
  seats for segments of a journey and replies by an event; the booking saga moves the booking on;
  the payment service (\<open>apps/payment-service\<close>) makes orders at the gateway and captures payments,
  and its success event confirms the booking. The user service (\<open>apps/user-service\<close>) keeps accounts, their
  one-time passwords and sessions, and the API gateway (\<open>apps/api-gateway\<close>) in front of all of them
  verifies tokens and passes the identity on in headers. The admin service (\<open>apps/admin-service\<close>) keeps
  the catalogue of stations, trains, coaches, seats, routes and schedules and publishes its events. The notification service (\<open>apps/notification-service\<close>) mails
  one-time passwords and welcomes for the user service's events. The search service (\<open>apps/search service\<close>)
  keeps stations and schedules in Elasticsearch from the admin service's events and answers searches. Shared packages provide the outbox, idempotency of
  consumers, circuit breakers, retries, rate limiting and the mapping of gRPC errors.

  \<^bold>\<open>How code is represented.\<close> A table is a list of records in order of insertion, a Redis store a
  map from keys to values with an optional expiry (\<open>Redis\<close>). Code inside \<open>prisma.$transaction\<close> is
  a function to \<open>exn + result \<times> db\<close> whose error discards the changes; other stateful code returns
  its result with the state it leaves (\<open>Prelude\<close>). A thrown error is a value of \<open>exn\<close>: an
  \<open>ApiError\<close> keeps its HTTP status and code, its message is dropped. Times are integers in
  milliseconds, prices rationals (the columns are decimals), the numbers of a rate limiter exact.
  The clock, random bytes, generated UUIDs, and the outcome of each network call (reply, error or
  lost reply) are arguments, so a theorem holds for all of them. A transaction either commits or fails with
  nothing written; a commit whose acknowledgement is lost is not modelled. Code outside the repository is a
  parameter too: the payment gateway and HMAC (\<open>payment_env\<close>), SHA-256 (\<open>inventory_env\<close>), the gRPC
  peers (\<open>grpc_clients\<close>), the signing of tokens, bcrypt and geolocation (\<open>account_env\<close>). Theorems that
  need it assume that tokens and hashes of different things differ (\<open>tokens_ok\<close>) and that a token just
  signed verifies (\<open>verifies\<close>).

  \<^bold>\<open>Theories.\<close>
  \<^item> \<open>Prelude\<close>: errors, transactions, tables, and the locales of invariants of step relations
    (\<open>stepper\<close>) and of monotone ones (\<open>monotone_stepper\<close>), interpreted by every component.
  \<^item> \<open>CircuitBreaker\<close>, \<open>Backoff\<close>, \<open>TokenBucket\<close>: \<open>packages/resilience\<close>. Counters stay in their limits, a
    closed breaker opens exactly after enough consecutive failures, the retry loop returns (its
    recursion counts the attempts left), the token bucket never grants more than its rate.
  \<^item> \<open>Redis\<close>, \<open>SeatLocks\<close>, \<open>Idempotency\<close>: Redis commands, the Lua scripts and both seat lock services,
    \<open>packages/redis/src/idempotency.repository.ts\<close>. Locks exclude each other, renewal and release
    act on the caller's keys only, a processed mark is final.
  \<^item> \<open>Outbox\<close>: \<open>packages/kafka/src/outbox\<close>. \<open>publishEvent\<close> is a send (\<open>send_event\<close>) and the bookkeeping of its
    outcome (\<open>record_outcome\<close>), each with a fate of its own (\<open>publish_fate\<close>); \<open>pub_step\<close> interleaves these two with
    claims, sweeps and crashes, and \<open>poll_steps\<close> shows that a whole \<open>pollAndPublish\<close> is a run of it. No row is
    lost, a published row was sent, retries follow their schedule.
  \<^item> \<open>Dates\<close>, \<open>Dlq\<close>: the dates of JavaScript; \<open>packages/kafka/src/consumer-runner\<close>, the handler of a consumer with
    its dead letter topic, which loses no message (\<open>dlq_loses_nothing\<close>).
  \<^item> \<open>Grpc\<close>, \<open>Contracts\<close>: \<open>packages/grpc/src/errors\<close> and the events of \<open>packages/contracts\<close>.
  \<^item> \<open>Inventory\<close>, \<open>SeatAllocation\<close>, \<open>HoldSeats\<close>, \<open>SeatQueries\<close>: the inventory service. Over every
    interleaving of \<open>inventory_step\<close> no two active allocations of a seat overlap; a hold request reads four
    times before its transaction (\<open>reads\<close>), each time a snapshot of its own or an error, and its outcomes are
    exact, a success that was overtaken and wrote nothing included; the seat map agrees with what a hold
    would find. \<open>SELECT ... FOR UPDATE\<close> (\<open>lockSeats\<close>) has no effect of its own, since transactions are serial; a
    failure reply is stated over the database its transaction sees.
  \<^item> \<open>Booking\<close>, \<open>Saga\<close>: tables, repositories, \<open>BookingService\<close>, adapters, \<open>BookingSagaOrchestrator\<close>.
    \<open>BookingLife\<close> has the step relation \<open>booking_step\<close> (a committed transaction that may rest on an
    outdated read) and its invariant \<open>booking_ok\<close>; \<open>BookingProps\<close> shows that the handlers run on any
    relation that offers these commits (locale \<open>booking_commits\<close>) and derives the life of a booking,
    its events and the races; \<open>BookingApi\<close> the outcome and the repetition of a creation;
    \<open>BookingCalls\<close> of a cancellation and of a payment event.
  \<^item> \<open>Railway\<close>: booking and inventory service together. Each sees the other's outbox only; from the
    joint invariant \<open>rail_ok\<close> follows that whoever holds a booking owns its seats.
  \<^item> \<open>Payment\<close>, \<open>PaymentProps\<close>: the payment service with its step relation \<open>pay_step\<close>: nothing is
    captured without the gateway's signature, the ledger only moves forward, and the outcomes of
    orders, verification and webhooks.
  \<^item> \<open>Accounts\<close>, \<open>Auth\<close>, \<open>AccountApi\<close>: the user service from its table and Redis keys over \<open>OtpService\<close>,
    \<open>AuthService\<close>, \<open>UserService\<close> and \<open>sessionMiddleware\<close> to schemas, controllers and routes. Each Redis
    command of a call has a fate of its own. \<open>Sessions\<close> has the invariant of sessions and their indexes,
    \<open>AccountProps\<close> the step relation \<open>account_step\<close> and what follows for resets and refresh tokens,
    \<open>Registration\<close> the outcome of a registration and the bound on guesses, \<open>Profiles\<close> the cache of
    profiles, \<open>AccountTypes\<close> that rows are well formed over \<open>account_request\<close>, requests with any failure,
    \<open>AccountRaces\<close> the way from login to refresh and two sequences the code does not guard against.
  \<^item> \<open>Gateway\<close>, \<open>GatewayProps\<close>: the gateway's route table, authentication, rate limit and proxy over
    \<open>TokenBucket\<close> and \<open>CircuitBreaker\<close>: no client forges an identity, and with the user service behind it
    a profile is shown to the holder of a token of a live session only.
  \<^item> \<open>AdminDb\<close>, \<open>AdminContracts\<close>, \<open>AdminCatalog\<close>, \<open>AdminSchedules\<close>: the admin service from its tables with
    their constraints (\<open>prisma/schema.prisma\<close>), repositories, events and mappers to the operations of its
    services. \<open>AdminEffects\<close> has the step relation \<open>admin_step\<close> (one command) and shows that each command
    is one of a few writes (\<open>admin_effect\<close>) that keep the invariant \<open>admin_ok\<close>; \<open>AdminProps\<close> what created
    schedules, guards, refusals and pages are; \<open>AdminProjection\<close> reads its events as the inventory
    service does and shows that the inventory ends with the admin's schedules; \<open>AdminSamples\<close> holds a
    sample catalogue and the witnesses.
  \<^item> \<open>Zod\<close>, \<open>AdminApi\<close>: JSON and the schema combinators the code uses, then the admin service from a request
    to its answer: schemas, middleware, login, controllers, routers (\<open>admin_app\<close>). \<open>AdminAccess\<close> shows that a
    request is at most one command and what the schemas keep of the rows (\<open>well_typed\<close>), and puts the
    gateway in front: only administrators get through. \<open>AdminAccessSamples\<close> runs sample requests.
  \<^item> \<open>Notifications\<close>, \<open>NotificationProps\<close>: the notification service from contracts over templates, provider
    and services to consumers, what a delivery does on every path (\<open>delivered\<close>), and workers side by side as
    commands (\<open>mail_act\<close>): in a calm run an event sends at most one mail.
  \<^item> \<open>Search\<close>, \<open>SearchProps\<close>, \<open>SearchIndex\<close>, \<open>SearchQueries\<close>: the search service. \<open>Search\<close> has the documents, repositories,
    projections and consumers; \<open>SearchProps\<close> the invariant of index and markers under one event; \<open>SearchIndex\<close>
    delivers the events of the admin service in any order and number (\<open>search_step\<close>) and shows that the index
    ends as the admin's schedules; \<open>SearchQueries\<close> has the queries, caches and routes.

  \<^bold>\<open>Bounds.\<close> Nothing runs on fuel: every loop of the code is structural over a list (the rows of
  a batch, the keys of a script, the attempts left) and its function total.

  \<^bold>\<open>Not modelled.\<close> Logging, tracing and metrics; the Express, kafkajs, gRPC and Prisma frameworks
  themselves; streams of server-sent events; generated clients; the web pages. Transactions are
  serial steps (the code relies on row updates being atomic, its guards are in the model);
  database errors that the code does not handle are a parameter where a handler has a branch for
  them.
\<close>

end
